(* ===== verification/Prelude.thy ===== *)
theory Prelude
  imports Complex_Main "HOL-Library.AList" "HOL-Library.Sublist"
begin

text \<open>
  Shared vocabulary of the development: Python strings and the string methods the program
  uses, Python dictionaries as insertion-ordered association lists, exceptions as values, and
  the collections of simplification rules the component theories share.
\<close>

section \<open>Rule collections\<close>

named_theorems py_simps \<open>evaluation of the Python string and dictionary operations\<close>
named_theorems dict_simps \<open>reading a dictionary after an update or a deletion\<close>

section \<open>Strings\<close>

text \<open>
  A Python string is a sequence of Unicode code points. A code point below 256 is written
  \<open>Ch c\<close> with the corresponding 8-bit character, any other one \<open>Uni n\<close> with its number. A
  literal of the source that is plain ASCII is written \<open>lit ''...''\<close>.
\<close>

datatype pychar = Ch char | Uni nat

type_synonym pystr = "pychar list"

definition lit :: "string \<Rightarrow> pystr" where
  "lit s = map Ch s"

lemma lit_inject [simp]: "lit s = lit t \<longleftrightarrow> s = t"
  unfolding lit_def by (rule inj_map_eq_map) (simp add: inj_on_def)

lemma lit_eq_Nil [simp]: "lit s = [] \<longleftrightarrow> s = []" "[] = lit s \<longleftrightarrow> s = []"
  by (auto simp: lit_def)

lemma length_lit [simp]: "length (lit s) = length s"
  by (simp add: lit_def)

lemma lit_append: "lit (s @ t) = lit s @ lit t"
  by (simp add: lit_def)

lemmas lit_unfold [py_simps] = lit_def

definition newline_char :: pychar where
  "newline_char = Ch (CHR 0x0A)"

definition newline :: pystr where
  "newline = [newline_char]"

text \<open>\<open>s.startswith(p)\<close> and \<open>s.endswith(p)\<close>.\<close>

abbreviation startswith :: "'a list \<Rightarrow> 'a list \<Rightarrow> bool" where
  "startswith s p \<equiv> prefix p s"

abbreviation endswith :: "'a list \<Rightarrow> 'a list \<Rightarrow> bool" where
  "endswith s p \<equiv> suffix p s"

text \<open>\<open>s.find(p)\<close>: the first position at which \<open>p\<close> occurs, \<open>None\<close> for the result \<open>-1\<close>.\<close>

fun find_sub :: "'a list \<Rightarrow> 'a list \<Rightarrow> nat option" where
  "find_sub p [] = (if p = [] then Some 0 else None)"
| "find_sub p (x # s) = (if prefix p (x # s) then Some 0 else map_option Suc (find_sub p s))"

text \<open>\<open>s.rfind(p)\<close>: the last position at which \<open>p\<close> occurs.\<close>

fun rfind_sub :: "'a list \<Rightarrow> 'a list \<Rightarrow> nat option" where
  "rfind_sub p [] = (if p = [] then Some 0 else None)"
| "rfind_sub p (x # s) =
     (case rfind_sub p s of
        Some i \<Rightarrow> Some (Suc i)
      | None \<Rightarrow> if prefix p (x # s) then Some 0 else None)"

text \<open>\<open>p in s\<close> for strings.\<close>

definition contains :: "'a list \<Rightarrow> 'a list \<Rightarrow> bool" where
  "contains s p \<longleftrightarrow> find_sub p s \<noteq> None"

lemma find_sub_SomeD:
  "find_sub p s = Some i \<Longrightarrow> i \<le> length s \<and> prefix p (drop i s) \<and> (\<forall>j < i. \<not> prefix p (drop j s))"
proof (induction s arbitrary: i)
  case Nil
  then show ?case by (auto split: if_splits)
next
  case (Cons x s)
  show ?case
  proof (cases "prefix p (x # s)")
    case True
    with Cons.prems show ?thesis by simp
  next
    case False
    with Cons.prems obtain k where k: "find_sub p s = Some k" "i = Suc k"
      by auto
    have "\<not> prefix p (drop j (x # s))" if "j < i" for j
      using that False Cons.IH [OF k(1)] k(2) by (cases j) auto
    with Cons.IH [OF k(1)] k(2) show ?thesis by simp
  qed
qed

lemma find_sub_NoneD: "find_sub p s = None \<Longrightarrow> \<not> prefix p (drop j s)"
proof (induction s arbitrary: j)
  case Nil
  then show ?case by (auto split: if_splits)
next
  case (Cons x s)
  then show ?case by (cases j) (auto split: if_splits)
qed

lemma find_sub_None_iff: "find_sub p s = None \<longleftrightarrow> (\<forall>j. \<not> prefix p (drop j s))"
proof
  assume none: "\<forall>j. \<not> prefix p (drop j s)"
  show "find_sub p s = None"
  proof (cases "find_sub p s")
    case (Some i)
    with find_sub_SomeD [OF Some] none show ?thesis by blast
  qed
qed (simp add: find_sub_NoneD)

lemma find_sub_bound: "find_sub p s = Some i \<Longrightarrow> i + length p \<le> length s"
  using find_sub_SomeD [of p s i] by (auto dest!: prefix_length_le)

lemma find_sub_split:
  assumes "find_sub p s = Some i"
  shows "s = take i s @ p @ drop (i + length p) s"
proof -
  from find_sub_SomeD [OF assms] obtain r where r: "drop i s = p @ r"
    by (auto simp: prefix_def)
  then have "drop (i + length p) s = r"
    by (metis add.commute append_eq_conv_conj drop_drop)
  with r show ?thesis by (metis append_take_drop_id)
qed

lemma rfind_sub_SomeD:
  "rfind_sub p s = Some i \<Longrightarrow> i \<le> length s \<and> prefix p (drop i s)
     \<and> (\<forall>j. i < j \<longrightarrow> j < length s \<longrightarrow> \<not> prefix p (drop j s))"
proof (induction s arbitrary: i)
  case Nil
  then show ?case by (auto split: if_splits)
next
  case (Cons x s)
  show ?case
  proof (cases "rfind_sub p s")
    case None
    then have none: "\<not> prefix p (drop j s)" if "j \<le> length s" for j
      using that
    proof (induction s arbitrary: j)
      case Nil
      then show ?case by (auto split: if_splits)
    next
      case (Cons y t)
      then show ?case by (cases j) (auto split: option.splits if_splits)
    qed
    have "\<not> prefix p (drop j (x # s))" if "0 < j" "j < length (x # s)" for j
      using that none [of "j - 1"] by (cases j) auto
    with None Cons.prems show ?thesis by (auto split: if_splits)
  next
    case (Some k)
    with Cons.prems have i: "i = Suc k" by simp
    have "\<not> prefix p (drop j (x # s))" if "i < j" "j < length (x # s)" for j
      using that i Cons.IH [OF Some] by (cases j) auto
    with Cons.IH [OF Some] i show ?thesis by simp
  qed
qed

lemma rfind_sub_None_iff: "rfind_sub p s = None \<longleftrightarrow> find_sub p s = None"
  by (induction s) (auto split: option.splits)

lemma contains_iff_sublist: "contains s p \<longleftrightarrow> sublist p s"
proof
  assume "contains s p"
  then obtain i where "find_sub p s = Some i" by (auto simp: contains_def)
  from find_sub_split [OF this] show "sublist p s"
    by (metis sublist_appendI)
next
  assume "sublist p s"
  then obtain a b where "s = a @ p @ b" by (auto simp: sublist_def)
  then have "prefix p (drop (length a) s)" by simp
  then have "find_sub p s \<noteq> None" using find_sub_NoneD by blast
  then show "contains s p" by (simp add: contains_def)
qed

text \<open>White space as \<open>str.isspace\<close> (and \<open>\s\<close> in a regular expression) counts it.\<close>

fun is_space :: "pychar \<Rightarrow> bool" where
  "is_space (Ch c) \<longleftrightarrow> (let n = (of_char c :: nat) in (9 \<le> n \<and> n \<le> 13) \<or> (28 \<le> n \<and> n \<le> 32) \<or> n = 133 \<or> n = 160)"
| "is_space (Uni n) \<longleftrightarrow> n = 5760 \<or> (8192 \<le> n \<and> n \<le> 8202) \<or> n = 8232 \<or> n = 8233 \<or> n = 8239
     \<or> n = 8287 \<or> n = 12288"

definition lstrip :: "pystr \<Rightarrow> pystr" where
  "lstrip s = dropWhile is_space s"

definition rstrip :: "pystr \<Rightarrow> pystr" where
  "rstrip s = rev (dropWhile is_space (rev s))"

definition strip :: "pystr \<Rightarrow> pystr" where
  "strip s = rstrip (lstrip s)"

text \<open>
  \<open>str.lower\<close>. Letters of ASCII and Latin-1 are mapped exactly, and so are the three other
  code points whose lower case lies in that range (the Kelvin and Angstrom signs, and the dotted
  capital I, which becomes two code points). The remaining code points lower to code points
  outside it, so leaving them alone does not change a comparison with an ASCII literal.
\<close>

definition lower_char :: "pychar \<Rightarrow> pystr" where
  "lower_char x =
     (case x of
        Ch c \<Rightarrow>
          (let n = (of_char c :: nat)
           in if (65 \<le> n \<and> n \<le> 90) \<or> (192 \<le> n \<and> n \<le> 222 \<and> n \<noteq> 215)
              then [Ch (char_of (n + 32))] else [Ch c])
      | Uni n \<Rightarrow>
          (if n = 8490 then [Ch (CHR ''k'')]
           else if n = 8491 then [Ch (char_of (229 :: nat))]
           else if n = 304 then [Ch (CHR ''i''), Uni 775]
           else [Uni n]))"

definition lower :: "pystr \<Rightarrow> pystr" where
  "lower s = concat (map lower_char s)"

text \<open>\<open>sep.join(parts)\<close>, and \<open>s.split()\<close> on runs of white space.\<close>

fun join :: "'a list \<Rightarrow> 'a list list \<Rightarrow> 'a list" where
  "join sep [] = []"
| "join sep [p] = p"
| "join sep (p # q # ps) = p @ sep @ join sep (q # ps)"

function split_ws :: "pystr \<Rightarrow> pystr list" where
  "split_ws s =
     (let t = lstrip s
      in if t = [] then []
         else takeWhile (\<lambda>c. \<not> is_space c) t # split_ws (dropWhile (\<lambda>c. \<not> is_space c) t))"
  by pat_completeness auto
termination
proof (relation "measure length", goal_cases)
  case (2 s t)
  then obtain c r where t: "t = c # r" by (meson neq_Nil_conv)
  with 2 have "\<not> is_space c"
    by (metis dropWhile_eq_Cons_conv lstrip_def)
  moreover have "length t \<le> length s"
    using 2 by (simp add: lstrip_def length_dropWhile_le)
  moreover have "length (dropWhile (\<lambda>c. \<not> is_space c) r) \<le> length r"
    by (rule length_dropWhile_le)
  ultimately show ?case using t by simp
qed simp

declare split_ws.simps [simp del]

text \<open>\<open>s.replace(c, r)\<close> for a one-character pattern.\<close>

definition replace_char :: "pychar \<Rightarrow> pystr \<Rightarrow> pystr \<Rightarrow> pystr" where
  "replace_char c r s = concat (map (\<lambda>x. if x = c then r else [x]) s)"

text \<open>Decimal numerals: \<open>str(n)\<close> of an integer.\<close>

fun nat_digits :: "nat \<Rightarrow> pystr" where
  "nat_digits n =
     (if n < 10 then [Ch (char_of (48 + n))]
      else nat_digits (n div 10) @ [Ch (char_of (48 + n mod 10))])"

declare nat_digits.simps [simp del]

definition str_of_int :: "int \<Rightarrow> pystr" where
  "str_of_int i = (if i < 0 then Ch (CHR ''-'') # nat_digits (nat (- i)) else nat_digits (nat i))"

lemma nat_digits_not_Nil [simp]: "nat_digits n \<noteq> []"
  by (subst nat_digits.simps) simp

lemma str_of_int_not_Nil [simp]: "str_of_int i \<noteq> []"
  by (simp add: str_of_int_def)

text \<open>\<open>a or b\<close> on strings: the first operand unless it is empty.\<close>

definition str_or :: "'a list \<Rightarrow> 'a list \<Rightarrow> 'a list" where
  "str_or a b = (if a = [] then b else a)"

section \<open>Dictionaries\<close>

text \<open>
  A Python dictionary iterates in insertion order; assigning to a present key keeps its place.
  That is the behaviour of the library's association lists: \<open>d[k] = v\<close> is \<open>AList.update k v d\<close>,
  \<open>del d[k]\<close> and \<open>d.pop(k, None)\<close> are \<open>AList.delete k d\<close>, \<open>d.get(k)\<close> is \<open>map_of d k\<close>.
\<close>

type_synonym ('k, 'v) dict = "('k \<times> 'v) list"

abbreviation dget :: "('k, 'v) dict \<Rightarrow> 'k \<Rightarrow> 'v option" where
  "dget d k \<equiv> map_of d k"

abbreviation dset :: "'k \<Rightarrow> 'v \<Rightarrow> ('k, 'v) dict \<Rightarrow> ('k, 'v) dict" where
  "dset \<equiv> AList.update"

abbreviation ddel :: "'k \<Rightarrow> ('k, 'v) dict \<Rightarrow> ('k, 'v) dict" where
  "ddel \<equiv> AList.delete"

abbreviation dkeys :: "('k, 'v) dict \<Rightarrow> 'k list" where
  "dkeys d \<equiv> map fst d"

abbreviation dvalues :: "('k, 'v) dict \<Rightarrow> 'v list" where
  "dvalues d \<equiv> map snd d"

definition din :: "'k \<Rightarrow> ('k, 'v) dict \<Rightarrow> bool" where
  "din k d \<longleftrightarrow> map_of d k \<noteq> None"

abbreviation dict_ok :: "('k, 'v) dict \<Rightarrow> bool" where
  "dict_ok d \<equiv> distinct (dkeys d)"

lemma din_iff [dict_simps]: "din k d \<longleftrightarrow> k \<in> set (dkeys d)"
  by (auto simp: din_def map_of_eq_None_iff)

lemma dget_dset [dict_simps]: "dget (dset k v d) k' = (if k' = k then Some v else dget d k')"
  by (simp add: update_conv')

lemma dget_ddel [dict_simps]: "dget (ddel k d) k' = (if k' = k then None else dget d k')"
  by (simp add: delete_conv')

lemma dkeys_dset [dict_simps]:
  "dkeys (dset k v d) = (if k \<in> set (dkeys d) then dkeys d else dkeys d @ [k])"
  by (rule update_keys)

lemma dkeys_ddel [dict_simps]: "dkeys (ddel k d) = filter (\<lambda>x. x \<noteq> k) (dkeys d)"
  unfolding delete_keys removeAll_filter_not_eq by (rule filter_cong) auto

lemma keys_dset [dict_simps]: "fst ` set (dset k v d) = insert k (fst ` set d)"
  using arg_cong [OF dkeys_dset [of k v d], of set] by auto

lemma keys_ddel [dict_simps]: "fst ` set (ddel k d) = fst ` set d - {k}"
  using arg_cong [OF dkeys_ddel [of k d], of set] by auto

lemma dset_new: "k \<notin> set (dkeys d) \<Longrightarrow> dset k v d = d @ [(k, v)]"
  by (induction d) auto

lemma dict_ok_dset [simp]: "dict_ok d \<Longrightarrow> dict_ok (dset k v d)"
  by (rule distinct_update)

lemma dict_ok_ddel [simp]: "dict_ok d \<Longrightarrow> dict_ok (ddel k d)"
  by (simp add: dkeys_ddel)

lemma dget_in_keys: "dget d k = Some v \<Longrightarrow> k \<in> set (dkeys d)"
  by (metis domI dom_map_of_conv_image_fst image_set)

lemma dget_mem: "dict_ok d \<Longrightarrow> (k, v) \<in> set d \<longleftrightarrow> dget d k = Some v"
  by (simp add: map_of_eq_Some_iff)

lemma in_keys_dget: "k \<in> set (dkeys d) \<Longrightarrow> \<exists>v. dget d k = Some v"
  by (induction d) auto

text \<open>Deleting a list of keys one after the other.\<close>

lemma fold_ddel_get:
  "dget (fold ddel ks d) k = (if k \<in> set ks then None else dget d k)"
  by (induction ks arbitrary: d) (auto simp: dict_simps)

lemma fold_ddel_keys:
  "dkeys (fold ddel ks d) = filter (\<lambda>x. x \<notin> set ks) (dkeys d)"
proof (induction ks arbitrary: d)
  case (Cons k ks)
  have "dkeys (fold ddel (k # ks) d) = filter (\<lambda>x. x \<notin> set ks) (filter (\<lambda>x. x \<noteq> k) (dkeys d))"
    by (simp add: Cons.IH dkeys_ddel)
  also have "\<dots> = filter (\<lambda>x. x \<notin> set (k # ks)) (dkeys d)"
    by (auto intro: filter_cong)
  finally show ?case .
qed simp

section \<open>Exceptions\<close>

text \<open>The exceptions of the language the modelled code can raise, with their message where the
  program reads it. \<open>Unmodelled\<close> marks data that the language would accept but the typed model
  has no value for.\<close>

datatype py_error =
    KeyError
  | IndexError
  | AttributeError
  | TypeError
  | AssertionError
  | OverflowError
  | ValueError pystr
  | Unmodelled

type_synonym 'a result = "py_error + 'a"

fun rbind :: "'a result \<Rightarrow> ('a \<Rightarrow> 'b result) \<Rightarrow> 'b result" where
  "rbind (Inl e) f = Inl e"
| "rbind (Inr a) f = f a"

fun rmap_list :: "('a \<Rightarrow> 'b result) \<Rightarrow> 'a list \<Rightarrow> 'b list result" where
  "rmap_list f [] = Inr []"
| "rmap_list f (x # xs) = rbind (f x) (\<lambda>y. rbind (rmap_list f xs) (\<lambda>ys. Inr (y # ys)))"

lemma rbind_Inr_iff: "rbind r f = Inr b \<longleftrightarrow> (\<exists>a. r = Inr a \<and> f a = Inr b)"
  by (cases r) auto

lemma rmap_list_Inr: "(\<And>x. x \<in> set xs \<Longrightarrow> f (g x) = Inr (h x)) \<Longrightarrow> rmap_list f (map g xs) = Inr (map h xs)"
  by (induction xs) auto

definition of_option :: "py_error \<Rightarrow> 'a option \<Rightarrow> 'a result" where
  "of_option e x = (case x of None \<Rightarrow> Inl e | Some a \<Rightarrow> Inr a)"

lemma of_option_simps [simp]: "of_option e None = Inl e" "of_option e (Some a) = Inr a"
  by (simp_all add: of_option_def)

section \<open>Lists\<close>

text \<open>\<open>xs[-n:]\<close> for \<open>n > 0\<close>: the last \<open>n\<close> elements. For \<open>n = 0\<close> Python's \<open>xs[-0:]\<close> is the
  whole list; for \<open>n < 0\<close> it is \<open>xs[|n|:]\<close>.\<close>

definition slice_tail :: "int \<Rightarrow> 'a list \<Rightarrow> 'a list" where
  "slice_tail n xs =
     (if 0 < n then drop (length xs - nat n) xs else drop (nat (- n)) xs)"

lemma suffix_slice_tail: "suffix (slice_tail n xs) xs"
  by (simp add: slice_tail_def suffix_drop)

lemma length_slice_tail: "0 < n \<Longrightarrow> length (slice_tail n xs) = min (nat n) (length xs)"
  by (simp add: slice_tail_def)

lemma dropWhile_sorted_filter:
  fixes ts :: "'a :: linorder list"
  assumes "sorted ts"
  shows "dropWhile (\<lambda>t. t \<le> c) ts = filter (\<lambda>t. c < t) ts"
  using assms
proof (induction ts)
  case (Cons a ts)
  then show ?case
  proof (cases "a \<le> c")
    case False
    with Cons.prems have "filter (\<lambda>t. c < t) ts = ts"
      by (auto simp: filter_id_conv not_le intro: less_le_trans)
    with False show ?thesis by simp
  qed (use Cons in auto)
qed simp

lemma if_intro: "P a \<Longrightarrow> P b \<Longrightarrow> P (if c then a else b)"
  by simp

lemma foldl_invariant:
  assumes "P s" "\<And>s x. P s \<Longrightarrow> x \<in> set xs \<Longrightarrow> P (f s x)"
  shows "P (foldl f s xs)"
  using assms by (induction xs arbitrary: s) auto

end
