(* ===== verification/RollingWindow.thy ===== *)
theory RollingWindow
  imports Prelude
begin

text \<open>
  The contract of a strict rolling-window limiter, which three components of the program
  implement separately (the provider limiter, the messaging limiter and the HTTP rate-limit
  store). An attempt at time \<open>now\<close> forgets the grants that are at least one window old, and is
  granted exactly when fewer than \<open>limit\<close> of them remain. The consequences for a whole run of
  attempts are proved here once; each component interprets the locales on its own definitions.

  Clock readings are rational numbers of seconds, so the rounding of floating-point subtraction
  is not part of the model.
\<close>

section \<open>Runs of attempts\<close>

text \<open>A run of attempts at the given clock readings, and the times of those that were granted.\<close>

fun run_attempts :: "(rat \<Rightarrow> 's \<Rightarrow> 's \<times> bool) \<Rightarrow> rat list \<Rightarrow> 's \<Rightarrow> 's \<times> rat list" where
  "run_attempts attempt [] s = (s, [])"
| "run_attempts attempt (t # ts) s =
     (let (s1, ok) = attempt t s; (s2, gs) = run_attempts attempt ts s1
      in (s2, if ok then t # gs else gs))"

text \<open>The loop of a waiting task, over the clock readings of its rounds: the state after the round
  that was granted and the time of the grant, \<open>None\<close> when it is still waiting after the last one.\<close>

fun acquire_loop :: "(rat \<Rightarrow> 's \<Rightarrow> 's \<times> bool) \<Rightarrow> rat list \<Rightarrow> 's \<Rightarrow> ('s \<times> rat) option" where
  "acquire_loop attempt [] s = None"
| "acquire_loop attempt (now # readings) s =
     (case attempt now s of
        (s', True) \<Rightarrow> Some (s', now)
      | (s', False) \<Rightarrow> acquire_loop attempt readings s')"

text \<open>The grants that fall into the window of length \<open>w\<close> that ends at \<open>t\<close>.\<close>

definition in_window :: "rat \<Rightarrow> rat \<Rightarrow> rat list \<Rightarrow> rat list" where
  "in_window w t gs = filter (\<lambda>x. t - w < x \<and> x \<le> t) gs"

lemma in_window_append: "in_window w t (xs @ ys) = in_window w t xs @ in_window w t ys"
  by (simp add: in_window_def)

lemma in_window_old: "\<forall>x \<in> set xs. x \<le> t - w \<Longrightarrow> in_window w t xs = []"
  by (auto simp: in_window_def filter_empty_conv)

lemma in_window_future: "t < now \<Longrightarrow> in_window w t (xs @ [now]) = in_window w t xs"
  by (simp add: in_window_def)

lemma length_in_window: "length (in_window w t xs) \<le> length xs"
  by (simp add: in_window_def)

section \<open>The contract\<close>

locale rolling_window =
  fixes attempt :: "rat \<Rightarrow> 's \<Rightarrow> 's \<times> bool"
    and log :: "'s \<Rightarrow> rat list"
    and limit :: "'s \<Rightarrow> nat"
    and window :: "'s \<Rightarrow> rat"
  assumes attempt_granted:
      "attempt now s = (s', True) \<Longrightarrow>
         log s' = dropWhile (\<lambda>t. t \<le> now - window s) (log s) @ [now]
         \<and> length (dropWhile (\<lambda>t. t \<le> now - window s) (log s)) < limit s"
    and attempt_refused:
      "attempt now s = (s', False) \<Longrightarrow>
         log s' = dropWhile (\<lambda>t. t \<le> now - window s) (log s)
         \<and> limit s \<le> length (dropWhile (\<lambda>t. t \<le> now - window s) (log s))"
    and attempt_frame: "attempt now s = (s', ok) \<Longrightarrow> limit s' = limit s \<and> window s' = window s"
begin

text \<open>\<open>history latest hs s\<close>: \<open>hs\<close> are all grants so far, the log of \<open>s\<close> still holds all of them
  that a later attempt can count, and no window holds more than the limit.\<close>

definition history :: "rat \<Rightarrow> rat list \<Rightarrow> 's \<Rightarrow> bool" where
  "history latest hs s \<longleftrightarrow>
     (\<exists>old. hs = old @ log s \<and> (\<forall>x \<in> set old. x \<le> latest - window s))
     \<and> (\<forall>x \<in> set hs. x \<le> latest)
     \<and> (\<forall>t. length (in_window (window s) t hs) \<le> limit s)
     \<and> length (log s) \<le> limit s"

lemma history_init: "log s = [] \<Longrightarrow> history latest [] s"
  by (simp add: history_def in_window_def)

lemma history_step:
  assumes h: "history latest hs s" and le: "latest \<le> now" and a: "attempt now s = (s', ok)"
  shows "history now (if ok then hs @ [now] else hs) s'"
proof -
  let ?base = "dropWhile (\<lambda>t. t \<le> now - window s) (log s)"
  let ?gone = "takeWhile (\<lambda>t. t \<le> now - window s) (log s)"
  from h obtain old where hs: "hs = old @ log s" and old: "\<forall>x \<in> set old. x \<le> latest - window s"
    and le_latest: "\<forall>x \<in> set hs. x \<le> latest"
    and bound: "\<And>t. length (in_window (window s) t hs) \<le> limit s"
    and len: "length (log s) \<le> limit s"
    by (auto simp: history_def)
  have hs': "hs = (old @ ?gone) @ ?base"
    using hs by simp
  have gone: "\<forall>x \<in> set (old @ ?gone). x \<le> now - window s"
    using old le by (force dest: set_takeWhileD)
  have le_now: "\<forall>x \<in> set hs. x \<le> now"
    using le_latest le by auto
  have short: "length ?base \<le> limit s"
    using len length_dropWhile_le [of "\<lambda>t. t \<le> now - window s" "log s"] by linarith
  note frame = attempt_frame [OF a]
  show ?thesis
  proof (cases ok)
    case False
    with a have "log s' = ?base" using attempt_refused [of now s s'] by simp
    then have "\<exists>gone. hs = gone @ log s' \<and> (\<forall>x \<in> set gone. x \<le> now - window s')"
      using hs' gone frame by metis
    then show ?thesis
      using False \<open>log s' = ?base\<close> le_now bound frame short by (simp add: history_def)
  next
    case True
    with a have log: "log s' = ?base @ [now]" and room: "length ?base < limit s"
      using attempt_granted [of now s s'] by simp_all
    have "length (in_window (window s) t (hs @ [now])) \<le> limit s" for t
    proof (cases "t < now")
      case True
      then show ?thesis using bound [of t] by (simp add: in_window_future)
    next
      case False
      then have "in_window (window s) t (old @ ?gone) = []"
        using gone by (intro in_window_old) force
      then have "in_window (window s) t (hs @ [now]) = in_window (window s) t (?base @ [now])"
        by (subst hs') (simp only: in_window_append append_Nil)
      then show ?thesis
        using room length_in_window [of "window s" t "?base @ [now]"] by simp
    qed
    moreover have "\<exists>gone. hs @ [now] = gone @ log s' \<and> (\<forall>x \<in> set gone. x \<le> now - window s')"
      using hs' gone frame log by (metis append.assoc)
    ultimately show ?thesis
      using True le_now frame log room by (simp add: history_def)
  qed
qed

lemma history_run:
  assumes "history latest hs s" "sorted (latest # ts)" "run_attempts attempt ts s = (s', gs)"
  shows "\<exists>latest'. history latest' (hs @ gs) s' \<and> limit s' = limit s \<and> window s' = window s"
  using assms
proof (induction ts arbitrary: latest hs s gs)
  case (Cons t ts)
  obtain s1 ok where a: "attempt t s = (s1, ok)" by force
  obtain gs1 where r: "run_attempts attempt ts s1 = (s', gs1)" and gs: "gs = (if ok then t # gs1 else gs1)"
    using Cons.prems(3) a by (auto split: prod.splits)
  have "history t (if ok then hs @ [t] else hs) s1"
    using history_step Cons.prems(1,2) a by simp
  from Cons.IH [OF this _ r] Cons.prems(2) attempt_frame [OF a] gs
  show ?case by (auto split: if_splits)
qed auto

text \<open>The guarantee: over any run of attempts with non-decreasing clock readings, every half-open
  window of the configured length holds at most \<open>limit\<close> grants.\<close>

lemma window_bound:
  assumes "log s = []" "sorted ts" "run_attempts attempt ts s = (s', gs)"
  shows "length (in_window (window s) t gs) \<le> limit s"
proof (cases ts)
  case Nil
  with assms show ?thesis by (simp add: in_window_def)
next
  case (Cons t0 ts')
  with assms history_run [OF history_init [OF assms(1), of t0], of ts s' gs]
  show ?thesis by (auto simp: history_def)
qed

lemma log_bound:
  assumes "log s = []" "sorted ts" "run_attempts attempt ts s = (s', gs)"
  shows "length (log s') \<le> limit s'"
proof (cases ts)
  case Nil
  with assms show ?thesis by simp
next
  case (Cons t0 ts')
  with assms history_run [OF history_init [OF assms(1), of t0], of ts s' gs]
  show ?thesis by (auto simp: history_def)
qed

text \<open>A waiting task is granted when some reading is a whole window later than every counted grant.\<close>

lemma acquire_granted:
  assumes "\<forall>x \<in> set (log s). x \<le> t" "0 < limit s" "r \<in> set readings" "t + window s \<le> r"
  shows "\<exists>s' g. acquire_loop attempt readings s = Some (s', g)"
  using assms
proof (induction readings arbitrary: s)
  case (Cons now readings)
  obtain s1 ok where a: "attempt now s = (s1, ok)" by force
  show ?case
  proof (cases ok)
    case True
    with a show ?thesis by simp
  next
    case False
    let ?times = "dropWhile (\<lambda>t. t \<le> now - window s) (log s)"
    have s1: "log s1 = ?times" "limit s1 = limit s" "window s1 = window s"
      and "limit s \<le> length ?times"
      using attempt_refused [of now s s1] attempt_frame [of now s s1 ok] a False by auto
    with Cons.prems(2) have full: "?times \<noteq> []" by (metis list.size(3) not_less)
    from s1 have sub: "\<forall>x \<in> set (log s1). x \<le> t"
      using Cons.prems(1) by (auto dest: set_dropWhileD)
    have "r \<in> set readings"
    proof (rule ccontr)
      assume "r \<notin> set readings"
      with Cons.prems(3) have "now = r" by simp
      then have "\<forall>x \<in> set (log s). x \<le> now - window s"
        using Cons.prems(1,4) by force
      then have "?times = []" by (simp add: dropWhile_eq_Nil_conv)
      with full show False by contradiction
    qed
    with Cons.IH [OF sub] Cons.prems s1 a False show ?thesis by simp
  qed
qed simp

lemma acquire_frame:
  assumes "acquire_loop attempt readings s = Some (s', g)"
  shows "g \<in> set readings \<and> set (log s') \<subseteq> insert g (set (log s))
     \<and> limit s' = limit s \<and> window s' = window s"
  using assms
proof (induction readings arbitrary: s)
  case (Cons now readings)
  obtain s1 ok where a: "attempt now s = (s1, ok)" by force
  have frame: "limit s1 = limit s \<and> window s1 = window s
      \<and> set (log s1) \<subseteq> (if ok then insert now else id) (set (log s))"
    using a attempt_frame [of now s s1 ok] attempt_granted [of now s s1] attempt_refused [of now s s1]
    by (cases ok) (auto dest: set_dropWhileD)
  show ?case
  proof (cases ok)
    case True
    with a Cons.prems frame show ?thesis by auto
  next
    case False
    with a Cons.prems have "acquire_loop attempt readings s1 = Some (s', g)" by simp
    from Cons.IH [OF this] frame False show ?thesis by auto
  qed
qed simp

lemma attempt_log_length:
  assumes "length (log s) \<le> limit s" "attempt now s = (s', ok)"
  shows "length (log s') \<le> limit s'"
proof -
  have "length (dropWhile (\<lambda>t. t \<le> now - window s) (log s)) \<le> length (log s)"
    by (rule length_dropWhile_le)
  with assms show ?thesis
    using attempt_granted [of now s s'] attempt_refused [of now s s'] attempt_frame [of now s s' ok]
    by (cases ok) auto
qed

end

text \<open>A limiter that also tells a refused caller how long to wait: until the oldest counted grant
  leaves the window.\<close>

locale rolling_window_wait = rolling_window attempt log limit window
  for attempt :: "rat \<Rightarrow> 's \<Rightarrow> 's \<times> bool" and log limit window +
  fixes retry_after :: "rat \<Rightarrow> 's \<Rightarrow> rat"
  assumes retry_after_refused:
    "attempt now s = (s', False) \<Longrightarrow> log s' \<noteq> [] \<Longrightarrow>
       retry_after now s = max 0 ((hd (log s') + window s) - now)"
begin

text \<open>A caller that sleeps for the announced time and retries before anybody else is granted.\<close>

lemma granted_after_wait:
  assumes len: "length (log s) \<le> limit s" and pos: "0 < limit s"
    and refused: "attempt now s = (s1, False)"
    and later: "now + retry_after now s \<le> now'"
    and again: "attempt now' s1 = (s2, ok)"
  shows ok
proof (rule ccontr)
  assume "\<not> ok"
  with again have a: "attempt now' s1 = (s2, False)" by simp
  have frame: "limit s1 = limit s" "window s1 = window s"
    using attempt_frame [OF refused] by auto
  have len1: "length (log s1) \<le> limit s"
    using attempt_log_length [OF len refused] frame by simp
  have "limit s \<le> length (log s1)"
    using attempt_refused [OF refused] by simp
  with pos obtain x xs where xs: "log s1 = x # xs"
    by (cases "log s1") auto
  then have "x \<le> now' - window s1"
    using retry_after_refused [OF refused] later frame by (simp add: max_def split: if_splits)
  then have "dropWhile (\<lambda>t. t \<le> now' - window s1) (log s1)
      = dropWhile (\<lambda>t. t \<le> now' - window s1) xs"
    using xs by simp
  then have "length (dropWhile (\<lambda>t. t \<le> now' - window s1) (log s1)) \<le> length xs"
    by (simp add: length_dropWhile_le)
  with attempt_refused [OF a] frame len1 xs show False by simp
qed

end

end
