(* ===== verification/Http.thy ===== *)
theory Http
  imports Prelude
begin

text \<open>
  The view of an HTTP request the middleware functions under \<open>api/\<close> have: path, method, headers
  (names in lower case, as the framework presents them), query parameters and raw body. The
  framework itself (FastAPI / Starlette) is not modelled.
\<close>

record http_request =
  req_path :: pystr
  req_method :: pystr
  req_headers :: "(pystr, pystr) dict"
  req_query :: "(pystr, pystr) dict"
  req_body :: "char list" \<comment> \<open>bytes\<close>

definition header :: "http_request \<Rightarrow> string \<Rightarrow> pystr option" where
  "header req name = dget (req_headers req) (lit name)"

definition query :: "http_request \<Rightarrow> string \<Rightarrow> pystr option" where
  "query req name = dget (req_query req) (lit name)"

text \<open>A chain \<open>a or b or ... or ""\<close> of optional strings: the first that is present and not empty.\<close>

fun first_truthy :: "pystr option list \<Rightarrow> pystr" where
  "first_truthy [] = []"
| "first_truthy (None # xs) = first_truthy xs"
| "first_truthy (Some s # xs) = (if s = [] then first_truthy xs else s)"

end
