(* ===== verification/HttpRateLimit.thy ===== *)
theory HttpRateLimit
  imports RollingWindow Http
begin

text \<open>
  \<open>api/rate_limit.py\<close>: the HTTP middleware that limits requests per user, workspace and channel.
  The store keeps one deque of grant times per key; a request is checked against its scopes in the
  order user, workspace, channel.
\<close>

section \<open>The window store\<close>

record limit_config =
  lc_limit :: int
  lc_window_seconds :: int

type_synonym window_store = "(pystr, rat list) dict"

text \<open>The body of \<open>_RateWindowStore.allow\<close> on the deque of its key: \<open>Inr None\<close> when allowed,
  \<open>Inr (Some r)\<close> when refused with \<open>retry_after = r\<close>. An empty deque is only full for a limit of
  zero or less, where \<open>bucket[0]\<close> raises.\<close>

definition bucket_allow :: "limit_config \<Rightarrow> rat \<Rightarrow> rat list \<Rightarrow> rat list \<times> rat option result" where
  "bucket_allow cfg now bucket =
     (let window_start = now - of_int (lc_window_seconds cfg);
          live = dropWhile (\<lambda>t. t \<le> window_start) bucket
      in if lc_limit cfg \<le> int (length live)
         then (live, case live of
                       [] \<Rightarrow> Inl IndexError
                     | oldest # _ \<Rightarrow> Inr (Some (max 0 ((oldest + of_int (lc_window_seconds cfg)) - now))))
         else (live @ [now], Inr None))"

definition store_allow ::
    "pystr \<Rightarrow> limit_config \<Rightarrow> rat \<Rightarrow> window_store \<Rightarrow> window_store \<times> rat option result" where
  "store_allow key cfg now events =
     (let (bucket, verdict) = bucket_allow cfg now (case dget events key of None \<Rightarrow> [] | Some b \<Rightarrow> b)
      in (dset key bucket events, verdict))"

definition bucket_try :: "limit_config \<Rightarrow> rat \<Rightarrow> rat list \<Rightarrow> rat list \<times> bool" where
  "bucket_try cfg now bucket =
     (fst (bucket_allow cfg now bucket), snd (bucket_allow cfg now bucket) = Inr None)"

interpretation http: rolling_window_wait
  "bucket_try cfg" "\<lambda>bucket. bucket" "\<lambda>_. nat (lc_limit cfg)" "\<lambda>_. of_int (lc_window_seconds cfg)"
  "\<lambda>now bucket. case snd (bucket_allow cfg now bucket) of Inr (Some r) \<Rightarrow> r | _ \<Rightarrow> 0"
  for cfg
  by unfold_locales (auto simp: bucket_try_def bucket_allow_def Let_def split: if_splits list.splits)

section \<open>The middleware\<close>

text \<open>\<open>_scope_values\<close>, in the order the middleware visits the scopes.\<close>

definition scope_values :: "http_request \<Rightarrow> (string \<times> pystr) list" where
  "scope_values req =
     [(''user'', strip (first_truthy [header req ''x-user-id'', query req ''user_id'',
                                      query req ''owner_user_id''])),
      (''workspace'', strip (first_truthy [header req ''x-workspace-id'', query req ''workspace_id''])),
      (''channel'', strip (first_truthy [header req ''x-channel-id'', header req ''x-platform'',
                                         query req ''channel_id'', query req ''chat_id'']))]"

text \<open>The settings the middleware reads, \<open>_configs\<close> included.\<close>

record rate_settings =
  rs_enforce :: bool
  rs_user :: limit_config
  rs_workspace :: limit_config
  rs_channel :: limit_config

definition scope_configs :: "rate_settings \<Rightarrow> string \<Rightarrow> limit_config" where
  "scope_configs settings scope =
     (if scope = ''user'' then rs_user settings
      else if scope = ''workspace'' then rs_workspace settings
      else rs_channel settings)"

text \<open>The answer: pass the request on, or 429 with the scope, its value, the seconds to wait and the
  \<open>Retry-After\<close> header. \<open>Crashed\<close> is the exception of a limit that is not positive.\<close>

datatype rate_verdict =
    Forward
  | TooManyRequests string pystr rat int
  | Crashed py_error

definition scope_key :: "string \<Rightarrow> pystr \<Rightarrow> pystr" where
  "scope_key scope v = lit scope @ lit '':'' @ v"

fun check_scopes ::
    "rate_settings \<Rightarrow> (string \<Rightarrow> rat) \<Rightarrow> (string \<times> pystr) list \<Rightarrow> window_store \<Rightarrow> window_store \<times> rate_verdict"
  where
  "check_scopes settings clock [] events = (events, Forward)"
| "check_scopes settings clock ((scope, v) # scopes) events =
     (if v = [] then check_scopes settings clock scopes events
      else
        (case store_allow (scope_key scope v) (scope_configs settings scope) (clock scope) events of
           (events', Inl e) \<Rightarrow> (events', Crashed e)
         | (events', Inr None) \<Rightarrow> check_scopes settings clock scopes events'
         | (events', Inr (Some retry_after)) \<Rightarrow>
             (events', TooManyRequests scope v retry_after (max 1 (floor retry_after)))))"

definition enforce_rate_limits ::
    "rate_settings \<Rightarrow> (string \<Rightarrow> rat) \<Rightarrow> http_request \<Rightarrow> window_store \<Rightarrow> window_store \<times> rate_verdict" where
  "enforce_rate_limits settings clock req events =
     (if \<not> rs_enforce settings then (events, Forward)
      else if \<not> (startswith (req_path req) (lit ''/api/'') \<or> startswith (req_path req) (lit ''/v1/''))
      then (events, Forward)
      else check_scopes settings clock (scope_values req) events)"

section \<open>A sequence of checks on the shared store\<close>

text \<open>Every check any request makes, as (key, clock reading) pairs, and the pairs that were allowed.
  The limit of a key is fixed by its scope, so the configuration is a function of the key.\<close>

fun run_checks ::
    "(pystr \<Rightarrow> limit_config) \<Rightarrow> (pystr \<times> rat) list \<Rightarrow> window_store \<Rightarrow> window_store \<times> (pystr \<times> rat) list" where
  "run_checks cfg [] events = (events, [])"
| "run_checks cfg ((key, now) # checks) events =
     (let (events1, verdict) = store_allow key (cfg key) now events;
          (events2, allowed) = run_checks cfg checks events1
      in (events2, if verdict = Inr None then (key, now) # allowed else allowed))"

definition key_times :: "pystr \<Rightarrow> (pystr \<times> rat) list \<Rightarrow> rat list" where
  "key_times key checks = map snd (filter (\<lambda>c. fst c = key) checks)"

text \<open>The checks of other keys do not touch the bucket of a key, so its grants are those of a run on
  its own bucket.\<close>

lemma run_checks_project:
  assumes "run_checks cfg checks events = (events', allowed)"
    and "(case dget events key of None \<Rightarrow> [] | Some b \<Rightarrow> b) = bucket"
  shows "snd (run_attempts (bucket_try (cfg key)) (key_times key checks) bucket) = key_times key allowed"
  using assms
proof (induction checks arbitrary: events bucket allowed)
  case (Cons c checks)
  obtain k now where c: "c = (k, now)" by force
  obtain events1 verdict where a: "store_allow k (cfg k) now events = (events1, verdict)" by force
  obtain allowed1 where r: "run_checks cfg checks events1 = (events', allowed1)"
    and allowed: "allowed = (if verdict = Inr None then (k, now) # allowed1 else allowed1)"
    using Cons.prems(1) c a by (auto simp: Let_def split: prod.splits)
  let ?b1 = "case dget events1 key of None \<Rightarrow> [] | Some b \<Rightarrow> b"
  show ?case
  proof (cases "k = key")
    case True
    have "bucket_try (cfg key) now bucket = (?b1, verdict = Inr None)"
      using a True Cons.prems(2)
      by (auto simp: store_allow_def bucket_try_def dict_simps split: prod.splits)
    then show ?thesis
      using Cons.IH [OF r refl] True c allowed
      by (auto simp: key_times_def split: prod.splits)
  next
    case False
    then have "?b1 = bucket"
      using a Cons.prems(2) by (auto simp: store_allow_def dict_simps split: prod.splits)
    then show ?thesis
      using Cons.IH [OF r refl] False c allowed by (simp add: key_times_def)
  qed
qed (simp add: key_times_def)

lemma sorted_key_times: "sorted (map snd checks) \<Longrightarrow> sorted (key_times key checks)"
  unfolding key_times_def by (induction checks) (auto simp: sorted_wrt_append)

lemma store_allow_verdict:
  "dget events key = dget events' key \<Longrightarrow>
     snd (store_allow key cfg now events) = snd (store_allow key cfg now events')"
  by (simp add: store_allow_def split: prod.splits)

lemma store_allow_frame:
  "key \<noteq> key' \<Longrightarrow> dget (fst (store_allow key cfg now events)) key' = dget events key'"
  by (simp add: store_allow_def dict_simps split: prod.splits)

lemma check_scopes_forward_iff:
  assumes "distinct (map (\<lambda>(scope, v). scope_key scope v) scopes)"
  shows "snd (check_scopes settings clock scopes events) = Forward \<longleftrightarrow>
     (\<forall>(scope, v) \<in> set scopes.
        v = [] \<or> snd (store_allow (scope_key scope v) (scope_configs settings scope) (clock scope) events)
                    = Inr None)"
  using assms
proof (induction scopes arbitrary: events)
  case (Cons s scopes)
  obtain scope v where s: "s = (scope, v)" by force
  obtain e1 verdict where a: "store_allow (scope_key scope v) (scope_configs settings scope) (clock scope)
      events = (e1, verdict)" by force
  have "snd (store_allow (scope_key sc w) c now e1) = snd (store_allow (scope_key sc w) c now events)"
    if "(sc, w) \<in> set scopes" for sc w c now
  proof (rule store_allow_verdict)
    have "scope_key scope v \<noteq> scope_key sc w"
      using Cons.prems that s by (force simp: image_iff)
    from store_allow_frame [OF this, of "scope_configs settings scope" "clock scope" events] a
    show "dget e1 (scope_key sc w) = dget events (scope_key sc w)" by simp
  qed
  with Cons.IH [of e1] Cons.IH [of events] Cons.prems s a show ?case
    by (auto split: sum.splits option.splits)
qed simp

section \<open>Properties\<close>

text \<open>Over any history of requests on the shared store, no user, workspace or channel is
  allowed more than its limit within any window of its configured length.\<close>

theorem http_window_bound:
  assumes "sorted (map snd checks)" and "run_checks cfg checks [] = (events, allowed)"
  shows "length (in_window (of_int (lc_window_seconds (cfg key))) t (key_times key allowed))
           \<le> nat (lc_limit (cfg key))"
proof -
  let ?run = "run_attempts (bucket_try (cfg key)) (key_times key checks) []"
  have "snd ?run = key_times key allowed"
    using run_checks_project [OF assms(2)] by simp
  then have "?run = (fst ?run, key_times key allowed)"
    by (metis prod.collapse)
  from http.window_bound [OF refl sorted_key_times [OF assms(1)] this]
  show ?thesis .
qed

theorem http_window_bound_witness:
  "\<exists>events allowed. run_checks (\<lambda>_. \<lparr>lc_limit = 1, lc_window_seconds = 60\<rparr>)
        [(lit ''user:a'', 1), (lit ''user:b'', 2), (lit ''user:a'', 3)] [] = (events, allowed)
     \<and> allowed = [(lit ''user:a'', 1), (lit ''user:b'', 2)]
     \<and> length (in_window 60 50 (key_times (lit ''user:a'') allowed)) \<le> nat 1"
proof -
  obtain events allowed where r: "run_checks (\<lambda>_. \<lparr>lc_limit = 1, lc_window_seconds = 60\<rparr>)
        [(lit ''user:a'', 1), (lit ''user:b'', 2), (lit ''user:a'', 3)] [] = (events, allowed)" by force
  moreover from r have "allowed = [(lit ''user:a'', 1), (lit ''user:b'', 2)]"
    by (auto simp: store_allow_def bucket_allow_def dict_simps)
  ultimately show ?thesis
    using http_window_bound [OF _ r, where key = "lit ''user:a''" and t = 50] by auto
qed

text \<open>The middleware passes an enforced API request on exactly when every scope value it
  carries (user, workspace, channel; blank ones do not count) is within its own limit at the moment
  of the request. The checks of the other scopes do not influence the decision.\<close>

theorem enforce_rate_limits_forward_iff:
  assumes "rs_enforce settings" and "startswith (req_path req) (lit ''/api/'')"
  shows "snd (enforce_rate_limits settings clock req events) = Forward \<longleftrightarrow>
     (\<forall>(scope, v) \<in> set (scope_values req).
        v = [] \<or> snd (store_allow (scope_key scope v) (scope_configs settings scope) (clock scope) events)
                    = Inr None)"
proof -
  have "distinct (map (\<lambda>(scope, v). scope_key scope v) (scope_values req))"
    by (simp add: scope_values_def scope_key_def lit_def)
  from check_scopes_forward_iff [OF this] assms show ?thesis
    by (simp add: enforce_rate_limits_def)
qed

theorem enforce_rate_limits_forward_iff_witness:
  "snd (enforce_rate_limits
      \<lparr>rs_enforce = True, rs_user = \<lparr>lc_limit = 1, lc_window_seconds = 60\<rparr>,
        rs_workspace = \<lparr>lc_limit = 1, lc_window_seconds = 60\<rparr>,
        rs_channel = \<lparr>lc_limit = 1, lc_window_seconds = 60\<rparr>\<rparr> (\<lambda>_. 10)
      \<lparr>req_path = lit ''/api/x'', req_method = lit ''GET'',
         req_headers = [(lit ''x-user-id'', lit ''u'')], req_query = [], req_body = []\<rparr>
      [(scope_key ''user'' (lit ''u''), [5])]) \<noteq> Forward"
  by (subst enforce_rate_limits_forward_iff)
    (simp_all add: scope_values_def header_def query_def strip_def lstrip_def rstrip_def lit_def
      scope_key_def store_allow_def bucket_allow_def scope_configs_def)

end
