(* ===== verification/MessagingLimiter.thy ===== *)
theory MessagingLimiter
  imports RollingWindow
begin

text \<open>
  \<open>messaging/limiter.py\<close>: the sliding-window limiter of outgoing messages and the queue in front of
  it. Tasks with the same key are compacted: the queue holds each key once, with the latest function
  and the futures of all callers that asked for it. One worker takes keys from the front.
\<close>

section \<open>SlidingWindowLimiter\<close>

record sliding_limiter =
  sl_rate_limit :: int
  sl_rate_window :: rat
  sl_times :: "rat list"

definition sliding_init :: "int \<Rightarrow> rat \<Rightarrow> sliding_limiter result" where
  "sliding_init limit window =
     (if limit \<le> 0 then Inl (ValueError (lit ''rate_limit must be > 0''))
      else if window \<le> 0 then Inl (ValueError (lit ''rate_window must be > 0''))
      else Inr \<lparr>sl_rate_limit = limit, sl_rate_window = window, sl_times = []\<rparr>)"

text \<open>One round of the loop of \<open>acquire\<close>, under the lock: \<open>None\<close> for a grant, else the sleep.\<close>

definition sliding_attempt :: "rat \<Rightarrow> sliding_limiter \<Rightarrow> sliding_limiter \<times> rat option" where
  "sliding_attempt now l =
     (let times = dropWhile (\<lambda>t. t \<le> now - sl_rate_window l) (sl_times l)
      in if int (length times) < sl_rate_limit l
         then (l\<lparr>sl_times := times @ [now]\<rparr>, None)
         else (l\<lparr>sl_times := times\<rparr>, Some (max 0 ((hd times + sl_rate_window l) - now))))"

definition sliding_try :: "rat \<Rightarrow> sliding_limiter \<Rightarrow> sliding_limiter \<times> bool" where
  "sliding_try now l = (fst (sliding_attempt now l), snd (sliding_attempt now l) = None)"

definition sliding_wait :: "rat \<Rightarrow> sliding_limiter \<Rightarrow> rat" where
  "sliding_wait now l = (case snd (sliding_attempt now l) of None \<Rightarrow> 0 | Some w \<Rightarrow> w)"

text \<open>\<open>acquire\<close> (and \<open>__aenter__\<close>, which only calls it).\<close>

definition sliding_acquire :: "rat list \<Rightarrow> sliding_limiter \<Rightarrow> (sliding_limiter \<times> rat) option" where
  "sliding_acquire readings l = acquire_loop sliding_try readings l"

interpretation sliding: rolling_window_wait
  sliding_try sl_times "\<lambda>l. nat (sl_rate_limit l)" sl_rate_window sliding_wait
  by unfold_locales
    (auto simp: sliding_try_def sliding_wait_def sliding_attempt_def Let_def split: if_splits)

section \<open>The task queue\<close>

text \<open>An exception as the worker reads it: its text, and the \<open>seconds\<close> attribute if it has one.\<close>

datatype seconds_attr = SecNum rat | SecStr pystr | SecOther

record task_exn =
  exn_text :: pystr
  exn_seconds :: "seconds_attr option"

text \<open>What a task function does, and what a future holds once it is done.\<close>

datatype 'r call_outcome = CallOk 'r | CallRaised task_exn | CallCancelled

datatype 'r future_value = FResult 'r | FException task_exn | FCancelled

record ('f, 'r) messaging_limiter =
  ml_limiter :: sliding_limiter
  ml_queue_list :: "pystr list"
  ml_queue_map :: "(pystr, 'f \<times> nat list) dict"
  ml_done :: "(nat, 'r future_value) dict" \<comment> \<open>the futures that are done\<close>
  ml_paused_until :: rat
  ml_shutdown :: bool

definition messaging_init :: "sliding_limiter \<Rightarrow> ('f, 'r) messaging_limiter" where
  "messaging_init l = \<lparr>ml_limiter = l, ml_queue_list = [], ml_queue_map = [], ml_done = [],
     ml_paused_until = 0, ml_shutdown = False\<rparr>"

text \<open>\<open>_enqueue_internal_multi\<close>; \<open>_enqueue_internal\<close> passes a single future.\<close>

definition enqueue_multi ::
    "'f \<Rightarrow> nat list \<Rightarrow> pystr \<Rightarrow> bool \<Rightarrow> ('f, 'r) messaging_limiter \<Rightarrow> ('f, 'r) messaging_limiter" where
  "enqueue_multi func futures key front m =
     (case dget (ml_queue_map m) key of
        Some (_, old_futures) \<Rightarrow>
          m\<lparr>ml_queue_map := dset key (func, old_futures @ futures) (ml_queue_map m)\<rparr>
      | None \<Rightarrow>
          m\<lparr>ml_queue_map := dset key (func, futures) (ml_queue_map m),
            ml_queue_list := (if front then key # ml_queue_list m else ml_queue_list m @ [key])\<rparr>)"

definition enqueue_one ::
    "'f \<Rightarrow> nat \<Rightarrow> pystr \<Rightarrow> bool \<Rightarrow> ('f, 'r) messaging_limiter \<Rightarrow> ('f, 'r) messaging_limiter" where
  "enqueue_one func future key front m = enqueue_multi func [future] key front m"

text \<open>The worker takes the front key and its entry; a key without an entry would raise.\<close>

definition worker_take ::
    "('f, 'r) messaging_limiter \<Rightarrow> ((pystr \<times> 'f \<times> nat list) \<times> ('f, 'r) messaging_limiter) result option" where
  "worker_take m =
     (case ml_queue_list m of
        [] \<Rightarrow> None
      | key # rest \<Rightarrow>
          Some (case dget (ml_queue_map m) key of
                  None \<Rightarrow> Inl KeyError
                | Some (func, futures) \<Rightarrow>
                    Inr ((key, func, futures),
                         m\<lparr>ml_queue_list := rest, ml_queue_map := ddel key (ml_queue_map m)\<rparr>)))"

text \<open>Resolving the futures that are not done yet.\<close>

definition set_future :: "'r future_value \<Rightarrow> nat \<Rightarrow> (nat, 'r future_value) dict \<Rightarrow> (nat, 'r future_value) dict"
  where
  "set_future v f done = (if din f done then done else dset f v done)"

definition resolve :: "'r future_value \<Rightarrow> nat list \<Rightarrow> (nat, 'r future_value) dict \<Rightarrow> (nat, 'r future_value) dict"
  where
  "resolve v futures done = fold (set_future v) futures done"

text \<open>
  The pause after a flood error, in seconds: the \<open>seconds\<close> attribute, or the number after
  \<open>"after "\<close> in the message, or 30. \<open>to_int\<close> and \<open>to_float\<close> are Python's \<open>int\<close> and \<open>float\<close> on
  strings (\<open>None\<close> where they raise). The result is \<open>None\<close> when \<open>float(seconds)\<close> itself raises: that
  exception leaves the handler, and no pause is set.
\<close>

definition after_number :: "(pystr \<Rightarrow> int option) \<Rightarrow> pystr \<Rightarrow> int option" where
  "after_number to_int msg =
     (case find_sub (lit ''after '') msg of
        None \<Rightarrow> None
      | Some i \<Rightarrow>
          (let rest = drop (i + 6) msg;
               part = (case find_sub (lit ''after '') rest of None \<Rightarrow> rest | Some j \<Rightarrow> take j rest)
           in case split_ws part of [] \<Rightarrow> None | w # _ \<Rightarrow> to_int w))"

definition flood_seconds ::
    "(pystr \<Rightarrow> int option) \<Rightarrow> (pystr \<Rightarrow> rat option) \<Rightarrow> task_exn \<Rightarrow> rat option" where
  "flood_seconds to_int to_float e =
     (case exn_seconds e of
        Some (SecNum s) \<Rightarrow> Some s
      | Some (SecStr s) \<Rightarrow> to_float s
      | Some SecOther \<Rightarrow> Some 30
      | None \<Rightarrow> (case after_number to_int (lower (exn_text e)) of
                    None \<Rightarrow> Some 30
                  | Some n \<Rightarrow> Some (of_int n)))"

definition is_flood :: "task_exn \<Rightarrow> bool" where
  "is_flood e \<longleftrightarrow> contains (lower (exn_text e)) (lit ''flood'') \<or> contains (lower (exn_text e)) (lit ''wait'')"

text \<open>What the worker does with the outcome of the call. A cancellation ends the worker and leaves
  the futures as they are.\<close>

definition worker_finish ::
    "(pystr \<Rightarrow> int option) \<Rightarrow> (pystr \<Rightarrow> rat option) \<Rightarrow> rat \<Rightarrow> 'r call_outcome \<Rightarrow> nat list
       \<Rightarrow> ('f, 'r) messaging_limiter \<Rightarrow> ('f, 'r) messaging_limiter" where
  "worker_finish to_int to_float now outcome futures m =
     (case outcome of
        CallOk r \<Rightarrow> m\<lparr>ml_done := resolve (FResult r) futures (ml_done m)\<rparr>
      | CallRaised e \<Rightarrow>
          (let m1 = m\<lparr>ml_done := resolve (FException e) futures (ml_done m)\<rparr>
           in if is_flood e
              then (case flood_seconds to_int to_float e of
                      None \<Rightarrow> m1
                    | Some s \<Rightarrow> m1\<lparr>ml_paused_until := now + s\<rparr>)
              else m1)
      | CallCancelled \<Rightarrow> m)"

text \<open>
  One turn of \<open>_worker\<close>: take a task, sleep while paused, wait for the limiter, call. The record
  holds the inputs of the turn. \<open>Idle\<close>: nothing to do or shut down; \<open>Starved\<close>: still waiting for
  the limiter; \<open>Stopped\<close>: the worker task was cancelled; \<open>Ran key wait\<close>: the call was made, after
  sleeping \<open>wait\<close> seconds of a pause.
\<close>

record turn_env =
  te_now :: rat
  te_slots :: "rat list"
  te_after :: rat

datatype turn_result = Idle | Starved | Stopped | Ran pystr rat | Critical py_error

definition worker_turn ::
    "(pystr \<Rightarrow> int option) \<Rightarrow> (pystr \<Rightarrow> rat option) \<Rightarrow> ('f \<Rightarrow> 'r call_outcome) \<Rightarrow> turn_env
       \<Rightarrow> ('f, 'r) messaging_limiter \<Rightarrow> ('f, 'r) messaging_limiter \<times> turn_result" where
  "worker_turn to_int to_float call env m =
     (if ml_shutdown m then (m, Idle)
      else
        (case worker_take m of
           None \<Rightarrow> (m, Idle)
         | Some (Inl e) \<Rightarrow> (m\<lparr>ml_queue_list := tl (ml_queue_list m)\<rparr>, Critical e)
         | Some (Inr ((key, func, futures), m1)) \<Rightarrow>
             (let pause = (if te_now env < ml_paused_until m1 then ml_paused_until m1 - te_now env else 0)
              in case sliding_acquire (te_slots env) (ml_limiter m1) of
                   None \<Rightarrow> (m1, Starved)
                 | Some (l', _) \<Rightarrow>
                     (let m2 = worker_finish to_int to_float (te_after env) (call func) futures
                                 (m1\<lparr>ml_limiter := l'\<rparr>)
                      in (m2, if call func = CallCancelled then Stopped else Ran key pause)))))"

text \<open>The worker over a sequence of turns, until it stops, starves or runs out of inputs.\<close>

fun worker_run ::
    "(pystr \<Rightarrow> int option) \<Rightarrow> (pystr \<Rightarrow> rat option) \<Rightarrow> ('f \<Rightarrow> 'r call_outcome) \<Rightarrow> turn_env list
       \<Rightarrow> ('f, 'r) messaging_limiter \<Rightarrow> ('f, 'r) messaging_limiter \<times> turn_result list" where
  "worker_run to_int to_float call [] m = (m, [])"
| "worker_run to_int to_float call (env # envs) m =
     (case worker_turn to_int to_float call env m of
        (m1, Starved) \<Rightarrow> (m1, [Starved])
      | (m1, Stopped) \<Rightarrow> (m1, [Stopped])
      | (m1, r) \<Rightarrow>
          (let (m2, rs) = worker_run to_int to_float call envs m1 in (m2, r # rs)))"

definition shutdown :: "('f, 'r) messaging_limiter \<Rightarrow> ('f, 'r) messaging_limiter" where
  "shutdown m = m\<lparr>ml_shutdown := True\<rparr>"

text \<open>
  The retry loop of \<open>fire_and_forget\<close>: \<open>out k\<close> is the exception of attempt \<open>k\<close>, or \<open>None\<close> when the
  enqueued task succeeds. The result is the exception that is reported, and the sleeps.
\<close>

definition is_transient :: "task_exn \<Rightarrow> bool" where
  "is_transient e \<longleftrightarrow>
     (\<exists>w \<in> {''connect'', ''timeout'', ''broken''}. contains (lower (exn_text e)) (lit w))"

fun fire_loop :: "(nat \<Rightarrow> task_exn option) \<Rightarrow> nat \<Rightarrow> nat \<Rightarrow> nat list \<Rightarrow> task_exn option \<times> nat list" where
  "fire_loop out 0 attempt sleeps = (None, sleeps)"
| "fire_loop out (Suc rounds) attempt sleeps =
     (case out attempt of
        None \<Rightarrow> (None, sleeps)
      | Some e \<Rightarrow>
          (if attempt < 2 \<and> is_transient e then fire_loop out rounds (Suc attempt) (sleeps @ [2 ^ attempt])
           else (Some e, sleeps)))"

definition fire_and_forget :: "(nat \<Rightarrow> task_exn option) \<Rightarrow> task_exn option \<times> nat list" where
  "fire_and_forget out = fire_loop out 3 0 []"


section \<open>The queue\<close>

text \<open>The queue invariant: the list holds each key once, and exactly the keys of the map.\<close>

definition queue_ok :: "('f, 'r) messaging_limiter \<Rightarrow> bool" where
  "queue_ok m \<longleftrightarrow> distinct (ml_queue_list m) \<and> dict_ok (ml_queue_map m)
     \<and> set (ml_queue_list m) = set (dkeys (ml_queue_map m))"

lemma queue_ok_init: "queue_ok (messaging_init l)"
  by (simp add: queue_ok_def messaging_init_def)

lemma queue_ok_enqueue:
  assumes "queue_ok m"
  shows "queue_ok (enqueue_multi func futures key front m)"
proof (cases "dget (ml_queue_map m) key")
  case None
  then have "key \<notin> set (dkeys (ml_queue_map m))"
    by (metis in_keys_dget option.distinct(1))
  with None assms show ?thesis
    by (auto simp: queue_ok_def enqueue_multi_def keys_dset)
next
  case (Some entry)
  with dget_in_keys [OF Some] assms show ?thesis
    by (simp add: queue_ok_def enqueue_multi_def keys_dset insert_absorb split: prod.splits)
qed

lemma worker_take_cases:
  assumes "queue_ok m"
  obtains (empty) "ml_queue_list m = []" "worker_take m = None"
  | (task) key rest func futures m1 where
      "ml_queue_list m = key # rest" "dget (ml_queue_map m) key = Some (func, futures)"
      "m1 = m\<lparr>ml_queue_list := rest, ml_queue_map := ddel key (ml_queue_map m)\<rparr>"
      "worker_take m = Some (Inr ((key, func, futures), m1))" "queue_ok m1"
proof (cases "ml_queue_list m")
  case Nil
  with empty show ?thesis by (simp add: worker_take_def)
next
  case (Cons key rest)
  with assms have "key \<in> set (dkeys (ml_queue_map m))"
    unfolding queue_ok_def by (metis list.set_intros(1))
  then obtain func futures where "dget (ml_queue_map m) key = Some (func, futures)"
    by (metis in_keys_dget prod.collapse)
  moreover have "queue_ok (m\<lparr>ml_queue_list := rest, ml_queue_map := ddel key (ml_queue_map m)\<rparr>)"
    using assms Cons by (auto simp: queue_ok_def keys_ddel)
  ultimately show ?thesis using task Cons by (auto simp: worker_take_def)
qed

lemma worker_finish_frame [simp]:
  "ml_queue_list (worker_finish ti tf now out futures m) = ml_queue_list m"
  "ml_queue_map (worker_finish ti tf now out futures m) = ml_queue_map m"
  "ml_limiter (worker_finish ti tf now out futures m) = ml_limiter m"
  "ml_shutdown (worker_finish ti tf now out futures m) = ml_shutdown m"
  by (auto simp: worker_finish_def Let_def split: call_outcome.splits option.splits)

lemma queue_ok_frame [simp]:
  "queue_ok (worker_finish ti tf now out futures m) = queue_ok m"
  "queue_ok (m\<lparr>ml_limiter := l\<rparr>) = queue_ok m"
  by (simp_all add: queue_ok_def)

lemma worker_turn_ok:
  assumes "queue_ok m"
  shows "queue_ok (fst (worker_turn ti tf call env m)) \<and> snd (worker_turn ti tf call env m) \<noteq> Critical e"
  using assms
proof (cases rule: worker_take_cases)
  case (task key rest func futures m1)
  then show ?thesis
    by (cases "ml_shutdown m")
      (use assms in \<open>auto simp: worker_turn_def Let_def split: option.splits prod.splits\<close>)
qed (use assms in \<open>auto simp: worker_turn_def\<close>)

text \<open>The limiter under its clients: the operations in the order they reach the event loop.\<close>

datatype 'f limiter_op = Enqueue 'f "nat list" pystr bool | Turn turn_env | Shutdown

definition limiter_op ::
    "(pystr \<Rightarrow> int option) \<Rightarrow> (pystr \<Rightarrow> rat option) \<Rightarrow> ('f \<Rightarrow> 'r call_outcome) \<Rightarrow> 'f limiter_op
       \<Rightarrow> ('f, 'r) messaging_limiter \<Rightarrow> ('f, 'r) messaging_limiter" where
  "limiter_op ti tf call op m =
     (case op of
        Enqueue func futures key front \<Rightarrow> enqueue_multi func futures key front m
      | Turn env \<Rightarrow> fst (worker_turn ti tf call env m)
      | Shutdown \<Rightarrow> shutdown m)"

lemma queue_ok_shutdown: "queue_ok m \<Longrightarrow> queue_ok (shutdown m)"
  by (simp add: queue_ok_def shutdown_def)

lemma limiter_op_ok: "queue_ok m \<Longrightarrow> queue_ok (limiter_op ti tf call op m)"
  by (cases op) (simp_all add: limiter_op_def queue_ok_enqueue queue_ok_shutdown worker_turn_ok)

section \<open>Compaction\<close>

text \<open>Requests \<open>(func, future, key)\<close> enqueued one after the other, as \<open>enqueue\<close> does.\<close>

type_synonym 'f request = "'f \<times> nat \<times> pystr"

definition enqueue_all :: "'f request list \<Rightarrow> ('f, 'r) messaging_limiter \<Rightarrow> ('f, 'r) messaging_limiter" where
  "enqueue_all reqs m = fold (\<lambda>(func, fut, key). enqueue_one func fut key False) reqs m"

text \<open>What the queue is meant to hold: the keys by first request, the latest function of a key and
  all the futures that wait for it.\<close>

definition with_key :: "pystr \<Rightarrow> 'f request list \<Rightarrow> 'f request list" where
  "with_key key reqs = filter (\<lambda>(_, _, k). k = key) reqs"

definition key_order :: "'f request list \<Rightarrow> pystr list" where
  "key_order reqs = rev (remdups (rev (map (\<lambda>(_, _, k). k) reqs)))"

definition latest :: "pystr \<Rightarrow> 'f request list \<Rightarrow> 'f" where
  "latest key reqs = fst (last (with_key key reqs))"

lemma with_key_snoc: "with_key key (reqs @ [(func, fut, k)])
    = with_key key reqs @ (if k = key then [(func, fut, k)] else [])"
  by (simp add: with_key_def)

lemma key_order_snoc: "key_order (reqs @ [(func, fut, k)])
    = key_order reqs @ (if with_key k reqs = [] then [k] else [])"
  by (force simp: key_order_def with_key_def filter_empty_conv)

definition holds_requests :: "'f request list \<Rightarrow> sliding_limiter \<Rightarrow> ('f, 'r) messaging_limiter \<Rightarrow> bool" where
  "holds_requests reqs l m \<longleftrightarrow> ml_queue_list m = key_order reqs
     \<and> (\<forall>key. dget (ml_queue_map m) key
          = (if with_key key reqs = [] then None
             else Some (latest key reqs, map (\<lambda>(_, fut, _). fut) (with_key key reqs))))
     \<and> ml_limiter m = l \<and> ml_done m = [] \<and> \<not> ml_shutdown m"

lemma enqueue_all_snoc:
  "enqueue_all (reqs @ [(func, fut, k)]) m = enqueue_one func fut k False (enqueue_all reqs m)"
  by (simp add: enqueue_all_def)

lemma enqueue_all_queue: "holds_requests reqs l (enqueue_all reqs (messaging_init l))"
proof (induction reqs rule: rev_induct)
  case Nil
  show ?case
    by (simp add: holds_requests_def enqueue_all_def messaging_init_def key_order_def with_key_def)
next
  case (snoc req reqs)
  obtain func fut k where req: "req = (func, fut, k)" by (cases req)
  show ?case
    unfolding req enqueue_all_snoc
    by (cases "with_key k reqs = []")
      (use snoc.IH in \<open>auto simp: holds_requests_def enqueue_one_def enqueue_multi_def
        with_key_snoc key_order_snoc latest_def dict_simps\<close>)
qed

lemma enqueue_all_ok: "queue_ok m \<Longrightarrow> queue_ok (enqueue_all reqs m)"
  unfolding enqueue_all_def
  by (induction reqs arbitrary: m) (auto simp: enqueue_one_def queue_ok_enqueue split: prod.splits)

section \<open>Draining\<close>

text \<open>Slot readings of successive turns that each span a whole window after everything before.\<close>

fun turns_span :: "rat \<Rightarrow> rat \<Rightarrow> turn_env list \<Rightarrow> bool" where
  "turns_span w start [] \<longleftrightarrow> True"
| "turns_span w start (env # envs) \<longleftrightarrow>
     (\<exists>r \<in> set (te_slots env). start + w \<le> r \<and> (\<forall>r' \<in> set (te_slots env). r' \<le> r) \<and> turns_span w r envs)"

fun future_of :: "'r call_outcome \<Rightarrow> 'r future_value" where
  "future_of (CallOk r) = FResult r"
| "future_of (CallRaised e) = FException e"
| "future_of CallCancelled = FCancelled"

lemma resolve_get:
  "dget (resolve v futures dn) f
     = (case dget dn f of Some w \<Rightarrow> Some w | None \<Rightarrow> if f \<in> set futures then Some v else None)"
  unfolding resolve_def
  by (induction futures arbitrary: dn)
    (auto simp: set_future_def din_def dict_simps split: option.splits)

lemma worker_finish_done:
  assumes "out \<noteq> CallCancelled"
  shows "dget (ml_done (worker_finish ti tf now out futures m)) f
     = (case dget (ml_done m) f of Some w \<Rightarrow> Some w
        | None \<Rightarrow> if f \<in> set futures then Some (future_of out) else None)"
  using assms
  by (cases out) (auto simp: worker_finish_def Let_def resolve_get split: option.splits)

lemma try_limit: "sliding_try now l = (l', ok) \<Longrightarrow> sl_rate_limit l' = sl_rate_limit l"
  by (auto simp: sliding_try_def sliding_attempt_def Let_def)

lemma acquire_limit_kept:
  "sliding_acquire readings l = Some (l', g) \<Longrightarrow> sl_rate_limit l' = sl_rate_limit l"
  unfolding sliding_acquire_def
  by (induction readings arbitrary: l) (auto split: prod.splits bool.splits dest: try_limit)

lemma sliding_acquire_step:
  assumes "0 < sl_rate_limit l" "\<forall>x \<in> set (sl_times l). x \<le> start" "r \<in> set slots"
    "start + sl_rate_window l \<le> r" "0 \<le> sl_rate_window l" "\<forall>r' \<in> set slots. r' \<le> r"
  shows "\<exists>l' g. sliding_acquire slots l = Some (l', g) \<and> sl_rate_limit l' = sl_rate_limit l
     \<and> sl_rate_window l' = sl_rate_window l \<and> (\<forall>x \<in> set (sl_times l'). x \<le> r)"
proof -
  from sliding.acquire_granted [OF assms(2) _ assms(3,4)] assms(1)
  obtain l' g where a: "acquire_loop sliding_try slots l = Some (l', g)" by auto
  then have "sliding_acquire slots l = Some (l', g)" by (simp add: sliding_acquire_def)
  moreover from sliding.acquire_frame [OF a] assms(2,4-6)
  have "\<forall>x \<in> set (sl_times l'). x \<le> r" by fastforce
  ultimately show ?thesis
    using acquire_limit_kept sliding.acquire_frame [OF a] by auto
qed


lemma worker_turn_ran:
  assumes "queue_ok m" "\<not> ml_shutdown m" "ml_queue_list m = key # rest"
    and "dget (ml_queue_map m) key = Some (func, futures)" "call func \<noteq> CallCancelled"
    and "0 < sl_rate_limit (ml_limiter m)" "0 \<le> sl_rate_window (ml_limiter m)"
    and "\<forall>x \<in> set (sl_times (ml_limiter m)). x \<le> start"
    and "turns_span (sl_rate_window (ml_limiter m)) start (env # envs)"
  shows "\<exists>m1 start1 wait. worker_turn ti tf call env m = (m1, Ran key wait)
     \<and> queue_ok m1 \<and> \<not> ml_shutdown m1 \<and> ml_queue_list m1 = rest
     \<and> ml_queue_map m1 = ddel key (ml_queue_map m)
     \<and> ml_done m1 = ml_done (worker_finish ti tf (te_after env) (call func) futures m)
     \<and> 0 < sl_rate_limit (ml_limiter m1) \<and> 0 \<le> sl_rate_window (ml_limiter m1)
     \<and> (\<forall>x \<in> set (sl_times (ml_limiter m1)). x \<le> start1)
     \<and> turns_span (sl_rate_window (ml_limiter m1)) start1 envs"
proof -
  let ?m = "m\<lparr>ml_queue_list := rest, ml_queue_map := ddel key (ml_queue_map m)\<rparr>"
  have take: "worker_take m = Some (Inr ((key, func, futures), ?m))" and ok: "queue_ok ?m"
    using worker_take_cases [OF assms(1)] assms(3,4) by force+
  from assms(9) obtain r where r: "r \<in> set (te_slots env)" "start + sl_rate_window (ml_limiter m) \<le> r"
      "\<forall>r' \<in> set (te_slots env). r' \<le> r" "turns_span (sl_rate_window (ml_limiter m)) r envs"
    by auto
  from sliding_acquire_step [OF assms(6,8) r(1,2) assms(7) r(3)]
  obtain l' g where acq: "sliding_acquire (te_slots env) (ml_limiter m) = Some (l', g)"
      "sl_rate_limit l' = sl_rate_limit (ml_limiter m)" "sl_rate_window l' = sl_rate_window (ml_limiter m)"
      "\<forall>x \<in> set (sl_times l'). x \<le> r" by blast
  have "ml_done (worker_finish ti tf (te_after env) (call func) futures (?m\<lparr>ml_limiter := l'\<rparr>))
      = ml_done (worker_finish ti tf (te_after env) (call func) futures m)"
    by (auto simp: worker_finish_def Let_def split: call_outcome.splits option.splits)
  note result = this
  show ?thesis
    by (rule exI [of _ "worker_finish ti tf (te_after env) (call func) futures (?m\<lparr>ml_limiter := l'\<rparr>)"],
        rule exI [of _ r], rule exI,
        use result take ok acq r(4) assms(2,5,6,7) in \<open>auto simp: worker_turn_def Let_def\<close>)
qed

definition never_cancelled :: "('f \<Rightarrow> 'r call_outcome) \<Rightarrow> ('f, 'r) messaging_limiter \<Rightarrow> bool" where
  "never_cancelled call m \<longleftrightarrow> (\<forall>key func futures.
     dget (ml_queue_map m) key = Some (func, futures) \<longrightarrow> call func \<noteq> CallCancelled)"

definition disjoint_futures :: "('f, 'r) messaging_limiter \<Rightarrow> bool" where
  "disjoint_futures m \<longleftrightarrow> (\<forall>k f fs k' f' fs'. dget (ml_queue_map m) k = Some (f, fs) \<longrightarrow>
     dget (ml_queue_map m) k' = Some (f', fs') \<longrightarrow> k \<noteq> k' \<longrightarrow> set fs \<inter> set fs' = {})"

text \<open>The worker empties the queue in as many turns as there are keys, and every future that waited
  and was not done before holds what its key's function did.\<close>

lemma worker_run_drains:
  assumes "queue_ok m" "\<not> ml_shutdown m" "length envs = length (ml_queue_list m)"
    and "never_cancelled call m" and "0 < sl_rate_limit (ml_limiter m)" "0 \<le> sl_rate_window (ml_limiter m)"
    and "\<forall>x \<in> set (sl_times (ml_limiter m)). x \<le> start"
    and "turns_span (sl_rate_window (ml_limiter m)) start envs" and "disjoint_futures m"
  shows "\<exists>m' waits. worker_run ti tf call envs m = (m', map2 Ran (ml_queue_list m) waits)
     \<and> length waits = length (ml_queue_list m)
     \<and> ml_queue_list m' = [] \<and> ml_queue_map m' = []
     \<and> (\<forall>f. dget (ml_done m) f \<noteq> None \<longrightarrow> dget (ml_done m') f = dget (ml_done m) f)
     \<and> (\<forall>key func futures f. dget (ml_queue_map m) key = Some (func, futures) \<longrightarrow> f \<in> set futures
          \<longrightarrow> dget (ml_done m) f = None \<longrightarrow> dget (ml_done m') f = Some (future_of (call func)))"
  using assms
proof (induction envs arbitrary: m start)
  case Nil
  then have "ml_queue_list m = []" by simp
  moreover from this Nil.prems(1) have "ml_queue_map m = []"
    by (simp add: queue_ok_def)
  ultimately show ?case by auto
next
  case (Cons env envs)
  then obtain key rest where list: "ml_queue_list m = key # rest"
    by (metis length_Suc_conv list.size(4) add_Suc_right add_0_right One_nat_def)
  with Cons.prems(1) have "key \<in> set (dkeys (ml_queue_map m))"
    unfolding queue_ok_def by (metis list.set_intros(1))
  then obtain func futures where get: "dget (ml_queue_map m) key = Some (func, futures)"
    by (metis in_keys_dget prod.collapse)
  with Cons.prems(4) have called: "call func \<noteq> CallCancelled"
    unfolding never_cancelled_def by blast
  from worker_turn_ran [where ti = ti and tf = tf and call = call,
      OF Cons.prems(1,2) list get called Cons.prems(5-8)]
  obtain m1 start1 wait where turn: "worker_turn ti tf call env m = (m1, Ran key wait)"
    and m1: "queue_ok m1" "\<not> ml_shutdown m1" "ml_queue_list m1 = rest"
      "ml_queue_map m1 = ddel key (ml_queue_map m)"
      "ml_done m1 = ml_done (worker_finish ti tf (te_after env) (call func) futures m)"
      "0 < sl_rate_limit (ml_limiter m1)" "0 \<le> sl_rate_window (ml_limiter m1)"
      "\<forall>x \<in> set (sl_times (ml_limiter m1)). x \<le> start1"
      "turns_span (sl_rate_window (ml_limiter m1)) start1 envs"
    by blast
  have get1: "dget (ml_queue_map m1) k = (if k = key then None else dget (ml_queue_map m) k)" for k
    by (simp add: m1(4) dict_simps)
  have done1: "dget (ml_done m1) f = (case dget (ml_done m) f of Some w \<Rightarrow> Some w
      | None \<Rightarrow> if f \<in> set futures then Some (future_of (call func)) else None)" for f
    by (simp add: m1(5) worker_finish_done [OF called])
  have len: "length envs = length (ml_queue_list m1)"
    using Cons.prems(3) list m1(3) by simp
  have live: "never_cancelled call m1" and apart: "disjoint_futures m1"
    using Cons.prems(4,9) unfolding never_cancelled_def disjoint_futures_def get1
    by (metis option.distinct(1))+
  from Cons.IH [OF m1(1,2) len live m1(6-9) apart, unfolded m1(3)]
  obtain m' waits where run: "worker_run ti tf call envs m1 = (m', map2 Ran rest waits)"
      "length waits = length rest" "ml_queue_list m' = []" "ml_queue_map m' = []"
    and kept: "\<And>f. dget (ml_done m1) f \<noteq> None \<Longrightarrow> dget (ml_done m') f = dget (ml_done m1) f"
    and later: "\<And>key func futures f. dget (ml_queue_map m1) key = Some (func, futures) \<Longrightarrow>
        f \<in> set futures \<Longrightarrow> dget (ml_done m1) f = None \<Longrightarrow> dget (ml_done m') f = Some (future_of (call func))"
    by blast
  have "dget (ml_done m') f = Some (future_of (call func'))"
    if "dget (ml_queue_map m) k = Some (func', futures')" "f \<in> set futures'" "dget (ml_done m) f = None"
    for k func' futures' f
  proof (cases "k = key")
    case True
    with that get kept [of f] done1 [of f] show ?thesis by auto
  next
    case False
    with Cons.prems(9) get that have "f \<notin> set futures"
      unfolding disjoint_futures_def by (metis disjoint_iff)
    with that(3) have "dget (ml_done m1) f = None"
      by (auto simp: done1)
    with later [of k func' futures' f] that False show ?thesis by (simp add: get1)
  qed
  moreover have "dget (ml_done m') f = dget (ml_done m) f" if "dget (ml_done m) f \<noteq> None" for f
    using that kept [of f] done1 [of f] by auto
  ultimately show ?case
    using turn run list by (intro exI [of _ m'] exI [of _ "wait # waits"]) auto
qed


lemma latest_mem:
  assumes "with_key key reqs \<noteq> []"
  shows "\<exists>fut. (latest key reqs, fut, key) \<in> set reqs"
proof -
  from last_in_set [OF assms] have "last (with_key key reqs) \<in> set (with_key key reqs)" .
  then show ?thesis by (auto simp: latest_def with_key_def)
qed

lemma distinct_futures_apart:
  assumes "distinct (map (\<lambda>(_, fut, _). fut) reqs)" "k \<noteq> k'"
  shows "set (map (\<lambda>(_, fut, _). fut) (with_key k reqs)) \<inter> set (map (\<lambda>(_, fut, _). fut) (with_key k' reqs)) = {}"
  using assms by (induction reqs) (force simp: with_key_def)+

lemma holds_requests_apart:
  assumes "holds_requests reqs l m" "distinct (map (\<lambda>(_, fut, _). fut) reqs)"
  shows "disjoint_futures m"
  unfolding disjoint_futures_def
  using assms(1) distinct_futures_apart [OF assms(2)]
  by (auto simp: holds_requests_def simp del: set_map split: if_splits)

lemma holds_requests_live:
  assumes "holds_requests reqs l m" "\<forall>(func, _, _) \<in> set reqs. call func \<noteq> CallCancelled"
  shows "never_cancelled call m"
proof -
  have "call (latest key reqs) \<noteq> CallCancelled" if "with_key key reqs \<noteq> []" for key
    using latest_mem [OF that] assms(2) by fastforce
  with assms(1) show ?thesis
    by (auto simp: never_cancelled_def holds_requests_def split: if_splits)
qed

lemma fire_loop_result:
  "fire_loop out (Suc rounds) attempt sleeps = (res, sleeps') \<Longrightarrow> attempt + rounds = 2 \<Longrightarrow>
     \<exists>k. attempt \<le> k \<and> k \<le> 2 \<and> res = out k \<and> sleeps' = sleeps @ map (\<lambda>i. 2 ^ i) [attempt..<k]
       \<and> (\<forall>i. attempt \<le> i \<longrightarrow> i < k \<longrightarrow> (\<exists>e. out i = Some e \<and> is_transient e))
       \<and> (\<forall>e. res = Some e \<longrightarrow> k = 2 \<or> \<not> is_transient e)"
proof (induction rounds arbitrary: attempt sleeps)
  case 0
  then show ?case by (intro exI [of _ 2]) (auto split: option.splits if_splits)
next
  case (Suc rounds)
  show ?case
  proof (cases "\<exists>e. out attempt = Some e \<and> is_transient e")
    case True
    with Suc.prems have "fire_loop out (Suc rounds) (Suc attempt) (sleeps @ [2 ^ attempt]) = (res, sleeps')"
      by auto
    from Suc.IH [OF this] Suc.prems(2) obtain k where k: "Suc attempt \<le> k" "k \<le> 2" "res = out k"
        "sleeps' = (sleeps @ [2 ^ attempt]) @ map (\<lambda>i. 2 ^ i) [Suc attempt..<k]"
        "\<forall>i. Suc attempt \<le> i \<longrightarrow> i < k \<longrightarrow> (\<exists>e. out i = Some e \<and> is_transient e)"
        "\<forall>e. res = Some e \<longrightarrow> k = 2 \<or> \<not> is_transient e" by auto
    have "[attempt..<k] = attempt # [Suc attempt..<k]" using k(1) by (simp add: upt_conv_Cons)
    moreover have "\<exists>e. out i = Some e \<and> is_transient e" if "attempt \<le> i" "i < k" for i
      using that k(5) True by (cases "i = attempt") auto
    ultimately show ?thesis using k by (intro exI [of _ k]) auto
  next
    case False
    with Suc.prems have "res = out attempt \<and> sleeps' = sleeps"
      by (auto split: option.splits)
    with False Suc.prems(2) show ?thesis by (intro exI [of _ attempt]) auto
  qed
qed

section \<open>Properties\<close>

text \<open>However callers and the worker interleave, the queue list holds each pending key once and
  exactly the keys of the queue map, so the worker never fails to find the task it took.\<close>

theorem messaging_queue_invariant:
  "queue_ok (fold (limiter_op to_int to_float call) ops (messaging_init l))
   \<and> snd (worker_turn to_int to_float call env (fold (limiter_op to_int to_float call) ops (messaging_init l)))
        \<noteq> Critical e"
proof -
  have "queue_ok m \<Longrightarrow> queue_ok (fold (limiter_op to_int to_float call) ops m)" for m
    by (induction ops arbitrary: m) (simp_all add: limiter_op_ok)
  from this [OF queue_ok_init] show ?thesis by (simp add: worker_turn_ok)
qed

text \<open>C5: compaction. When any sequence of requests has been enqueued, the worker calls one function
  per distinct key, in the order in which the keys were first requested, and it empties the queue in
  that many turns. Every caller's future then holds what the latest function of its key did.\<close>

theorem messaging_compaction:
  fixes call :: "'f \<Rightarrow> 'r call_outcome"
  assumes "sliding_init limit window = Inr l" and "distinct (map (\<lambda>(_, fut, _). fut) reqs)"
    and "\<forall>(func, _, _) \<in> set reqs. call func \<noteq> CallCancelled"
    and "length envs = length (key_order reqs)" and "turns_span window start envs"
  shows "\<exists>m waits. worker_run to_int to_float call envs (enqueue_all reqs (messaging_init l))
        = (m, map2 Ran (key_order reqs) waits)
     \<and> length waits = length (key_order reqs) \<and> ml_queue_list m = [] \<and> ml_queue_map m = []
     \<and> (\<forall>(func, fut, key) \<in> set reqs. dget (ml_done m) fut = Some (future_of (call (latest key reqs))))"
proof -
  define m0 :: "('f, 'r) messaging_limiter" where "m0 = enqueue_all reqs (messaging_init l)"
  have h: "holds_requests reqs l m0" and ok: "queue_ok m0"
    by (simp_all add: m0_def enqueue_all_queue enqueue_all_ok queue_ok_init)
  have l: "0 < sl_rate_limit l" "0 \<le> sl_rate_window l" "sl_times l = []" "sl_rate_window l = window"
    using assms(1) by (auto simp: sliding_init_def split: if_splits)
  from worker_run_drains [where ti = to_int and tf = to_float and start = start, OF ok _ _
      holds_requests_live [OF h assms(3)] _ _ _ _ holds_requests_apart [OF h assms(2)], of envs] h l assms(4,5)
  obtain m waits where run: "worker_run to_int to_float call envs m0 = (m, map2 Ran (key_order reqs) waits)"
      "length waits = length (key_order reqs)" "ml_queue_list m = []" "ml_queue_map m = []"
    and out: "\<And>key func futures f. dget (ml_queue_map m0) key = Some (func, futures) \<Longrightarrow>
        f \<in> set futures \<Longrightarrow> dget (ml_done m) f = Some (future_of (call func))"
    by (auto simp: holds_requests_def)
  have "dget (ml_done m) fut = Some (future_of (call (latest key reqs)))"
    if "(func, fut, key) \<in> set reqs" for func fut key
  proof -
    from that have mem: "(func, fut, key) \<in> set (with_key key reqs)" by (simp add: with_key_def)
    then have "dget (ml_queue_map m0) key
        = Some (latest key reqs, map (\<lambda>(_, fut, _). fut) (with_key key reqs))"
      using h by (auto simp: holds_requests_def)
    from out [OF this] mem show ?thesis by force
  qed
  with run show ?thesis unfolding m0_def by blast
qed

theorem messaging_compaction_witness:
  "\<exists>l m waits. sliding_init 1 2 = Inr l
     \<and> worker_run (\<lambda>_. None) (\<lambda>_. None) CallOk
         [\<lparr>te_now = 0, te_slots = [2], te_after = 2\<rparr>, \<lparr>te_now = 2, te_slots = [3, 4], te_after = 4\<rparr>]
         (enqueue_all [(10, 0, lit ''a''), (20, 1, lit ''b''), (30, 2, lit ''a'')] (messaging_init l))
       = (m, map2 Ran [lit ''a'', lit ''b''] waits)
     \<and> dget (ml_done m) 0 = Some (FResult (30 :: nat)) \<and> dget (ml_done m) 1 = Some (FResult 20)"
proof -
  let ?reqs = "[(10 :: nat, 0, lit ''a''), (20, 1, lit ''b''), (30, 2, lit ''a'')]"
  let ?envs = "[\<lparr>te_now = 0, te_slots = [2], te_after = 2\<rparr>, \<lparr>te_now = 2, te_slots = [3, 4], te_after = 4\<rparr>]"
  obtain l where l: "sliding_init 1 2 = Inr l" by (simp add: sliding_init_def)
  have order: "key_order ?reqs = [lit ''a'', lit ''b'']" by (simp add: key_order_def)
  from messaging_compaction [OF l, of ?reqs CallOk ?envs 0 "\<lambda>_. None" "\<lambda>_. None"] order
  obtain m waits where "worker_run (\<lambda>_. None) (\<lambda>_. None) CallOk ?envs (enqueue_all ?reqs (messaging_init l))
        = (m, map2 Ran [lit ''a'', lit ''b''] waits)"
      "dget (ml_done m) 0 = Some (FResult 30)" "dget (ml_done m) 1 = Some (FResult 20)"
    by (auto simp: latest_def with_key_def)
  with l show ?thesis by blast
qed

text \<open>A fire-and-forget task is attempted at most three times, with sleeps of one and two seconds
  between the attempts. Only transient errors are retried, and what is finally reported is the
  outcome of the last attempt: a success, an error that is not transient, or the third error.\<close>

theorem fire_and_forget_retries:
  "\<exists>k \<le> 2. fire_and_forget out = (out k, map (\<lambda>i. 2 ^ i) [0..<k])
     \<and> (\<forall>i < k. \<exists>e. out i = Some e \<and> is_transient e)
     \<and> (\<forall>e. out k = Some e \<longrightarrow> k = 2 \<or> \<not> is_transient e)"
proof -
  obtain res sleeps where r: "fire_loop out (Suc 2) 0 [] = (res, sleeps)" by force
  from fire_loop_result [OF r] obtain k where "k \<le> 2" "res = out k" "sleeps = map (\<lambda>i. 2 ^ i) [0..<k]"
      "\<forall>i < k. \<exists>e. out i = Some e \<and> is_transient e" "\<forall>e. res = Some e \<longrightarrow> k = 2 \<or> \<not> is_transient e"
    by auto
  with r show ?thesis by (auto simp: fire_and_forget_def numeral_3_eq_3)
qed

theorem fire_and_forget_retries_witness:
  "fire_and_forget (\<lambda>k. if k < 1 then Some \<lparr>exn_text = lit ''timeout'', exn_seconds = None\<rparr> else None) = (None, [1])"
proof -
  let ?out = "\<lambda>k :: nat. if k < 1 then Some \<lparr>exn_text = lit ''timeout'', exn_seconds = None\<rparr> else None"
  have transient: "is_transient \<lparr>exn_text = lit ''timeout'', exn_seconds = None\<rparr>"
    by (simp add: is_transient_def contains_def lower_def lower_char_def lit_def)
  from fire_and_forget_retries [of ?out] obtain k where k: "k \<le> 2"
      "fire_and_forget ?out = (?out k, map (\<lambda>i. 2 ^ i) [0..<k])" "\<forall>i < k. \<exists>e. ?out i = Some e \<and> is_transient e"
      "\<forall>e. ?out k = Some e \<longrightarrow> k = 2 \<or> \<not> is_transient e" by blast
  have "k \<noteq> 0" using k(4) transient by (cases "k = 0") simp_all
  moreover have "\<not> 1 < k" using k(3) by auto
  ultimately have "k = 1" by simp
  with k(2) show ?thesis by simp
qed

end
