(* ===== verification/Json.thy ===== *)
theory Json
  imports Prelude
begin

text \<open>
  The dynamically typed values the program reads from and writes to JSON, their truth value, the
  subscripts it uses on them, and \<open>json.dumps\<close> with its default settings.
\<close>

section \<open>Values\<close>

text \<open>A float is represented by its \<open>repr\<close>; dictionaries have string keys and keep their order.\<close>

datatype pyval =
    PNone
  | PBool bool
  | PInt int
  | PFloat pystr
  | PStr pystr
  | PList "pyval list"
  | PDict "(pystr \<times> pyval) list"

fun truthy :: "pyval \<Rightarrow> bool" where
  "truthy PNone \<longleftrightarrow> False"
| "truthy (PBool b) \<longleftrightarrow> b"
| "truthy (PInt i) \<longleftrightarrow> i \<noteq> 0"
| "truthy (PFloat r) \<longleftrightarrow> r \<noteq> lit ''0.0'' \<and> r \<noteq> lit ''-0.0''"
| "truthy (PStr s) \<longleftrightarrow> s \<noteq> []"
| "truthy (PList xs) \<longleftrightarrow> xs \<noteq> []"
| "truthy (PDict d) \<longleftrightarrow> d \<noteq> []"

text \<open>\<open>v[key]\<close> and \<open>v.get(key)\<close> for a string key.\<close>

definition psub :: "string \<Rightarrow> pyval \<Rightarrow> pyval result" where
  "psub key v =
     (case v of
        PDict d \<Rightarrow> of_option KeyError (dget d (lit key))
      | _ \<Rightarrow> Inl TypeError)"

definition pget :: "string \<Rightarrow> pyval \<Rightarrow> pyval result" where
  "pget key v =
     (case v of
        PDict d \<Rightarrow> Inr (case dget d (lit key) of None \<Rightarrow> PNone | Some w \<Rightarrow> w)
      | _ \<Rightarrow> Inl AttributeError)"

definition opt_str :: "pystr option \<Rightarrow> pyval" where
  "opt_str x = (case x of None \<Rightarrow> PNone | Some s \<Rightarrow> PStr s)"

definition str_list :: "pystr list \<Rightarrow> pyval" where
  "str_list xs = PList (map PStr xs)"

text \<open>Reading a field into a typed slot of a record. The language would go on with an object of the
  wrong type; such data is outside the model and the reading is \<open>Unmodelled\<close>.\<close>

definition as_str :: "pyval \<Rightarrow> pystr result" where
  "as_str v = (case v of PStr s \<Rightarrow> Inr s | _ \<Rightarrow> Inl Unmodelled)"

definition as_opt_str :: "pyval \<Rightarrow> pystr option result" where
  "as_opt_str v = (case v of PStr s \<Rightarrow> Inr (Some s) | PNone \<Rightarrow> Inr None | _ \<Rightarrow> Inl Unmodelled)"

definition as_dict :: "pyval \<Rightarrow> (pystr, pyval) dict result" where
  "as_dict v = (case v of PDict d \<Rightarrow> Inr d | _ \<Rightarrow> Inl Unmodelled)"

fun as_str_list :: "pyval \<Rightarrow> pystr list result" where
  "as_str_list (PList xs) = rmap_list as_str xs"
| "as_str_list _ = Inl Unmodelled"

lemma as_str_simps [simp]: "as_str (PStr s) = Inr s" "as_opt_str (PStr s) = Inr (Some s)"
    "as_opt_str PNone = Inr None" "as_dict (PDict d) = Inr d"
  by (simp_all add: as_str_def as_opt_str_def as_dict_def)

lemma as_opt_str_opt_str [simp]: "as_opt_str (opt_str x) = Inr x"
  by (simp add: opt_str_def split: option.splits)

lemma as_str_list_str_list [simp]: "as_str_list (str_list xs) = Inr xs"
  by (induction xs) (auto simp: str_list_def)

section \<open>json.dumps\<close>

text \<open>Strings are escaped to ASCII; a code point beyond the basic plane becomes a surrogate pair.\<close>

definition hex_digit :: "nat \<Rightarrow> pychar" where
  "hex_digit n = Ch (char_of (if n < 10 then 48 + n else 87 + n))"

definition u_escape :: "nat \<Rightarrow> pystr" where
  "u_escape n = lit [CHR 0x5C, CHR ''u''] @
     [hex_digit (n div 4096 mod 16), hex_digit (n div 256 mod 16), hex_digit (n div 16 mod 16),
      hex_digit (n mod 16)]"

definition code_point :: "pychar \<Rightarrow> nat" where
  "code_point x = (case x of Ch c \<Rightarrow> of_char c | Uni n \<Rightarrow> n)"

definition json_char :: "pychar \<Rightarrow> pystr" where
  "json_char x =
     (let n = code_point x
      in if n = 34 then lit [CHR 0x5C, CHR 0x22]
         else if n = 92 then lit [CHR 0x5C, CHR 0x5C]
         else if n = 10 then lit [CHR 0x5C, CHR ''n'']
         else if n = 13 then lit [CHR 0x5C, CHR ''r'']
         else if n = 9 then lit [CHR 0x5C, CHR ''t'']
         else if n = 12 then lit [CHR 0x5C, CHR ''f'']
         else if n = 8 then lit [CHR 0x5C, CHR ''b'']
         else if 32 \<le> n \<and> n \<le> 126 then [x]
         else if n < 65536 then u_escape n
         else u_escape (55296 + (n - 65536) div 1024) @ u_escape (56320 + (n - 65536) mod 1024))"

definition json_str :: "pystr \<Rightarrow> pystr" where
  "json_str s = lit [CHR 0x22] @ concat (map json_char s) @ lit [CHR 0x22]"

primrec json_dumps :: "pyval \<Rightarrow> pystr" where
  "json_dumps PNone = lit ''null''"
| "json_dumps (PBool b) = (if b then lit ''true'' else lit ''false'')"
| "json_dumps (PInt i) = str_of_int i"
| "json_dumps (PFloat r) = (if r = lit ''nan'' then lit ''NaN'' else if r = lit ''inf'' then lit ''Infinity''
     else if r = lit ''-inf'' then lit ''-Infinity'' else r)"
| "json_dumps (PStr s) = json_str s"
| "json_dumps (PList xs) = lit ''['' @ join (lit '', '') (map json_dumps xs) @ lit '']''"
| "json_dumps (PDict d) =
     lit ''{'' @ join (lit '', '') (map (\<lambda>(k, t). json_str k @ lit '': '' @ t) (map (map_prod id json_dumps) d))
       @ lit ''}''"

text \<open>The output holds no control character, so it never breaks a line: what a server-sent event and
  a line-based protocol rely on. (The \<open>repr\<close> of a float has none.)\<close>

definition printable :: "pychar \<Rightarrow> bool" where
  "printable x \<longleftrightarrow> 32 \<le> code_point x \<and> code_point x \<le> 126"

primrec floats_printable :: "pyval \<Rightarrow> bool" where
  "floats_printable PNone \<longleftrightarrow> True"
| "floats_printable (PBool b) \<longleftrightarrow> True"
| "floats_printable (PInt i) \<longleftrightarrow> True"
| "floats_printable (PFloat r) \<longleftrightarrow> list_all printable r"
| "floats_printable (PStr s) \<longleftrightarrow> True"
| "floats_printable (PList xs) \<longleftrightarrow> list_all id (map floats_printable xs)"
| "floats_printable (PDict d) \<longleftrightarrow> list_all snd (map (map_prod id floats_printable) d)"

lemma printable_Ch: "printable (Ch c) \<longleftrightarrow> (32 :: nat) \<le> of_char c \<and> of_char c \<le> (126 :: nat)"
  by (simp add: printable_def code_point_def)

lemma printable_hex_digit: "n < 16 \<Longrightarrow> printable (hex_digit n)"
  by (auto simp: hex_digit_def printable_Ch)

lemma printable_u_escape: "list_all printable (u_escape n)"
  by (simp add: u_escape_def printable_hex_digit lit_def printable_Ch)

lemma printable_json_char: "list_all printable (json_char x)"
  by (auto simp: json_char_def Let_def lit_def printable_Ch printable_u_escape, auto simp: printable_def)

lemma printable_json_str: "list_all printable (json_str s)"
  by (induction s) (auto simp: json_str_def printable_json_char lit_def printable_Ch)

lemma printable_nat_digits: "list_all printable (nat_digits n)"
proof (induction n rule: nat_digits.induct)
  case (1 n)
  then show ?case by (subst nat_digits.simps) (auto simp: printable_Ch)
qed

lemma printable_join: "list_all printable sep \<Longrightarrow> (\<And>p. p \<in> set ps \<Longrightarrow> list_all printable p) \<Longrightarrow>
    list_all printable (join sep ps)"
  by (induction sep ps rule: join.induct) auto

lemma json_dumps_printable: "floats_printable v \<Longrightarrow> list_all printable (json_dumps v)"
proof (induction v)
  case (PList xs)
  then have "list_all printable (json_dumps x)" if "x \<in> set xs" for x
    using that by (auto simp: list_all_iff)
  then show ?case
    by (auto simp: lit_def printable_Ch intro!: printable_join)
next
  case (PDict d)
  have "list_all printable (json_dumps v)" if "(k, v) \<in> set d" for k v
  proof -
    from that PDict.prems have "floats_printable v" by (force simp: list_all_iff)
    with PDict.IH [of "(k, v)" v] that show ?thesis by simp
  qed
  then show ?case
    by (auto simp: lit_def printable_Ch printable_json_str intro!: printable_join)
qed (auto simp: lit_def printable_Ch printable_json_str str_of_int_def printable_nat_digits)

end
