(* ===== verification/Generator.thy ===== *)
theory Generator
  imports Prelude
begin

text \<open>
  Python generators as functions of the state they share with their caller: the items they yield, the
  state they leave, and whether they end or raise. A generator is checked against a monitor, an acceptor
  of item sequences that stays in step with the state.
\<close>

section \<open>Generators\<close>

type_synonym ('e, 's, 'a) gen = "'s \<Rightarrow> 'e list \<times> 's \<times> 'a result"

definition gret :: "'a \<Rightarrow> ('e, 's, 'a) gen" where
  "gret a = (\<lambda>s. ([], s, Inr a))"

definition graise :: "py_error \<Rightarrow> ('e, 's, 'a) gen" where
  "graise e = (\<lambda>s. ([], s, Inl e))"

definition gbind :: "('e, 's, 'a) gen \<Rightarrow> ('a \<Rightarrow> ('e, 's, 'b) gen) \<Rightarrow> ('e, 's, 'b) gen" where
  "gbind m f = (\<lambda>s.
     case m s of
       (es, s1, Inl e) \<Rightarrow> (es, s1, Inl e)
     | (es, s1, Inr a) \<Rightarrow> (case f a s1 of (es', s2, r) \<Rightarrow> (es @ es', s2, r)))"

definition gthen :: "('e, 's, 'a) gen \<Rightarrow> ('e, 's, 'b) gen \<Rightarrow> ('e, 's, 'b) gen" where
  "gthen m n = gbind m (\<lambda>_. n)"

text \<open>A generator whose code looks at the state first, and one guarded by a test of the state.\<close>

definition gstate :: "('s \<Rightarrow> ('e, 's, 'a) gen) \<Rightarrow> ('e, 's, 'a) gen" where
  "gstate f = (\<lambda>s. f s s)"

definition gwhen :: "('s \<Rightarrow> bool) \<Rightarrow> ('e, 's, unit) gen \<Rightarrow> ('e, 's, unit) gen" where
  "gwhen P m = (\<lambda>s. if P s then m s else ([], s, Inr ()))"

text \<open>An assignment, \<open>yield f()\<close>, and the same where \<open>f\<close> may raise.\<close>

definition gupdate :: "('s \<Rightarrow> 's) \<Rightarrow> ('e, 's, unit) gen" where
  "gupdate f = (\<lambda>s. ([], f s, Inr ()))"

definition gyield :: "('s \<Rightarrow> 'e \<times> 's) \<Rightarrow> ('e, 's, unit) gen" where
  "gyield f = (\<lambda>s. case f s of (e, s1) \<Rightarrow> ([e], s1, Inr ()))"

definition gyield_try :: "('s \<Rightarrow> ('e \<times> 's) result) \<Rightarrow> ('e, 's, unit) gen" where
  "gyield_try f = (\<lambda>s.
     case f s of Inl e \<Rightarrow> ([], s, Inl e) | Inr (e, s1) \<Rightarrow> ([e], s1, Inr ()))"

lemma gbind_assoc: "gbind (gbind m f) g = gbind m (\<lambda>a. gbind (f a) g)"
  unfolding gbind_def by (rule ext) (simp split: prod.split sum.split)

text \<open>\<open>for x in xs\<close>.\<close>

fun gfor :: "('x \<Rightarrow> ('e, 's, unit) gen) \<Rightarrow> 'x list \<Rightarrow> ('e, 's, unit) gen" where
  "gfor f [] = gret ()"
| "gfor f (x # xs) = gthen (f x) (gfor f xs)"

section \<open>Monitors\<close>

fun monitor :: "('c \<Rightarrow> 'e \<Rightarrow> 'c option) \<Rightarrow> 'c \<Rightarrow> 'e list \<Rightarrow> 'c option" where
  "monitor step c [] = Some c"
| "monitor step c (e # es) = (case step c e of None \<Rightarrow> None | Some c1 \<Rightarrow> monitor step c1 es)"

lemma monitor_append:
  "monitor step c (es @ es') = (case monitor step c es of None \<Rightarrow> None | Some c1 \<Rightarrow> monitor step c1 es')"
  by (induction es arbitrary: c) (auto split: option.splits)

text \<open>From every state with \<open>P\<close> that is in step with the monitor, the generator yields items the monitor
  accepts, and ends in step with it again; its result satisfies \<open>Q\<close>, and it raises only if \<open>E\<close>.\<close>

definition guarded ::
    "('c \<Rightarrow> 'e \<Rightarrow> 'c option) \<Rightarrow> ('s \<Rightarrow> 'c \<Rightarrow> bool) \<Rightarrow> bool \<Rightarrow> ('s \<Rightarrow> bool) \<Rightarrow> ('e, 's, 'a) gen
       \<Rightarrow> ('a \<Rightarrow> 's \<Rightarrow> bool) \<Rightarrow> bool" where
  "guarded step sync E P m Q \<longleftrightarrow>
     (\<forall>s c es s' r. P s \<longrightarrow> sync s c \<longrightarrow> m s = (es, s', r) \<longrightarrow>
        (\<exists>c'. monitor step c es = Some c' \<and> sync s' c' \<and> (case r of Inl _ \<Rightarrow> E | Inr a \<Rightarrow> Q a s')))"

lemma guardedI:
  assumes "\<And>s c es s' r. P s \<Longrightarrow> sync s c \<Longrightarrow> m s = (es, s', r) \<Longrightarrow>
      \<exists>c'. monitor step c es = Some c' \<and> sync s' c' \<and> (case r of Inl _ \<Rightarrow> E | Inr a \<Rightarrow> Q a s')"
  shows "guarded step sync E P m Q"
  using assms unfolding guarded_def by blast

lemma guardedD:
  assumes "guarded step sync E P m Q" "P s" "sync s c" "m s = (es, s', r)"
  shows "\<exists>c'. monitor step c es = Some c' \<and> sync s' c' \<and> (case r of Inl _ \<Rightarrow> E | Inr a \<Rightarrow> Q a s')"
  using assms unfolding guarded_def by blast

lemma guarded_pre: "guarded step sync E P m Q \<Longrightarrow> (\<And>s. P' s \<Longrightarrow> P s) \<Longrightarrow> guarded step sync E P' m Q"
  unfolding guarded_def by blast

lemma guarded_post:
  assumes "guarded step sync E P m Q" "\<And>a s. Q a s \<Longrightarrow> Q' a s" "E \<Longrightarrow> E'"
  shows "guarded step sync E' P m Q'"
proof (rule guardedI)
  fix s c es s' r
  assume "P s" "sync s c" "m s = (es, s', r)"
  from guardedD [OF assms(1) this] obtain c' where "monitor step c es = Some c'" "sync s' c'"
    "case r of Inl _ \<Rightarrow> E | Inr a \<Rightarrow> Q a s'" by blast
  with assms(2,3) show "\<exists>c'. monitor step c es = Some c' \<and> sync s' c'
      \<and> (case r of Inl _ \<Rightarrow> E' | Inr a \<Rightarrow> Q' a s')"
    by (cases r) simp_all
qed

lemma guarded_gret: "(\<And>s. P s \<Longrightarrow> Q a s) \<Longrightarrow> guarded step sync E P (gret a) Q"
  unfolding guarded_def gret_def by simp

lemma guarded_graise: "E \<Longrightarrow> guarded step sync E P (graise e) Q"
  unfolding guarded_def graise_def by simp

lemma guarded_gbind:
  assumes m: "guarded step sync E P m R" and f: "\<And>a. guarded step sync E (R a) (f a) Q"
  shows "guarded step sync E P (gbind m f) Q"
proof (rule guardedI)
  fix s c es2 s2 r2
  assume s: "P s" "sync s c" and all: "gbind m f s = (es2, s2, r2)"
  obtain es s1 r where ms: "m s = (es, s1, r)" by (cases "m s")
  from guardedD [OF m s ms] obtain c1 where c1: "monitor step c es = Some c1" "sync s1 c1"
    "case r of Inl _ \<Rightarrow> E | Inr a \<Rightarrow> R a s1" by blast
  show "\<exists>c'. monitor step c es2 = Some c' \<and> sync s2 c' \<and> (case r2 of Inl _ \<Rightarrow> E | Inr a \<Rightarrow> Q a s2)"
  proof (cases r)
    case (Inl x)
    with ms all have "es2 = es" "s2 = s1" "r2 = Inl x" by (simp_all add: gbind_def)
    with c1 Inl show ?thesis by simp
  next
    case (Inr a)
    obtain es' s3 r' where fs: "f a s1 = (es', s3, r')" by (cases "f a s1")
    from c1(3) Inr have "R a s1" by simp
    from guardedD [OF f this c1(2) fs] obtain c2 where "monitor step c1 es' = Some c2" "sync s3 c2"
      "case r' of Inl _ \<Rightarrow> E | Inr b \<Rightarrow> Q b s3" by blast
    note c2 = this
    from ms Inr fs all have eqs: "es2 = es @ es'" "s2 = s3" "r2 = r'" by (simp_all add: gbind_def)
    show ?thesis unfolding eqs using c1(1) c2 by (simp add: monitor_append)
  qed
qed

lemma guarded_gthen:
  "guarded step sync E P m (\<lambda>_. R) \<Longrightarrow> guarded step sync E R n Q \<Longrightarrow> guarded step sync E P (gthen m n) Q"
  unfolding gthen_def by (rule guarded_gbind)

lemma guarded_gstate:
  "(\<And>t. guarded step sync E (\<lambda>s. P s \<and> s = t) (f t) Q) \<Longrightarrow> guarded step sync E P (gstate f) Q"
  unfolding guarded_def gstate_def by blast

lemma guarded_gwhen:
  assumes "guarded step sync E (\<lambda>s. P s \<and> B s) m Q" "\<And>s. P s \<Longrightarrow> \<not> B s \<Longrightarrow> Q () s"
  shows "guarded step sync E P (gwhen B m) Q"
proof (rule guardedI)
  fix s c es s' r
  assume s: "P s" "sync s c" and m: "gwhen B m s = (es, s', r)"
  show "\<exists>c'. monitor step c es = Some c' \<and> sync s' c' \<and> (case r of Inl _ \<Rightarrow> E | Inr a \<Rightarrow> Q a s')"
  proof (cases "B s")
    case True
    then have "P s \<and> B s" "m s = (es, s', r)" using s(1) m by (simp_all add: gwhen_def)
    with guardedD [OF assms(1) this(1) s(2) this(2)] show ?thesis by blast
  next
    case False
    with assms(2) s m show ?thesis by (auto simp: gwhen_def)
  qed
qed

lemma guarded_gfor:
  assumes "\<And>x. x \<in> set xs \<Longrightarrow> guarded step sync E P (f x) (\<lambda>_. P)"
  shows "guarded step sync E P (gfor f xs) (\<lambda>_. P)"
  using assms by (induction xs) (auto intro: guarded_gret guarded_gthen)

lemma guarded_if:
  "(b \<Longrightarrow> guarded step sync E P m Q) \<Longrightarrow> (\<not> b \<Longrightarrow> guarded step sync E P n Q)
     \<Longrightarrow> guarded step sync E P (if b then m else n) Q"
  by simp

lemma guarded_option:
  "(x = None \<Longrightarrow> guarded step sync E P m Q) \<Longrightarrow> (\<And>y. x = Some y \<Longrightarrow> guarded step sync E P (f y) Q)
     \<Longrightarrow> guarded step sync E P (case x of None \<Rightarrow> m | Some y \<Rightarrow> f y) Q"
  by (cases x) simp_all

lemma guarded_gupdate:
  "(\<And>s c. P s \<Longrightarrow> sync s c \<Longrightarrow> sync (f s) c \<and> Q () (f s)) \<Longrightarrow> guarded step sync E P (gupdate f) Q"
  unfolding guarded_def gupdate_def by simp

lemma guarded_gyield:
  assumes "\<And>s c. P s \<Longrightarrow> sync s c \<Longrightarrow>
      \<exists>c'. step c (fst (f s)) = Some c' \<and> sync (snd (f s)) c' \<and> Q () (snd (f s))"
  shows "guarded step sync E P (gyield f) Q"
proof (rule guardedI)
  fix s c es s' r
  assume s: "P s" "sync s c" and m: "gyield f s = (es, s', r)"
  from assms [OF s] obtain c' where "step c (fst (f s)) = Some c'" "sync (snd (f s)) c'" "Q () (snd (f s))"
    by blast
  with m show "\<exists>c'. monitor step c es = Some c' \<and> sync s' c' \<and> (case r of Inl _ \<Rightarrow> E | Inr a \<Rightarrow> Q a s')"
    by (auto simp: gyield_def split_beta)
qed

lemma guarded_gyield_try:
  assumes "\<And>s c. P s \<Longrightarrow> sync s c \<Longrightarrow>
      (case f s of Inl _ \<Rightarrow> E | Inr (e, s1) \<Rightarrow> \<exists>c'. step c e = Some c' \<and> sync s1 c' \<and> Q () s1)"
  shows "guarded step sync E P (gyield_try f) Q"
proof (rule guardedI)
  fix s c es s' r
  assume s: "P s" "sync s c" and m: "gyield_try f s = (es, s', r)"
  from assms [OF s] s(2) m
  show "\<exists>c'. monitor step c es = Some c' \<and> sync s' c' \<and> (case r of Inl _ \<Rightarrow> E | Inr a \<Rightarrow> Q a s')"
    by (cases "f s") (auto simp: gyield_try_def)
qed

end
