(* ===== verification/SseBuilder.thy ===== *)
theory SseBuilder
  imports Json Generator "HOL-Library.Multiset"
begin

text \<open>
  \<open>providers/common/sse_builder.py\<close>: the builder of the events of an Anthropic stream, with its content
  block manager. An event is a value; \<open>format_event\<close> is the text that goes over the wire. \<open>json.loads\<close>
  is a parameter that gives \<open>None\<close> where the function raises, and the token encoder is an optional one.
\<close>

section \<open>Stop reasons\<close>

definition STOP_REASON_MAP :: "(pystr, pystr) dict" where
  "STOP_REASON_MAP =
     [(lit ''stop'', lit ''end_turn''), (lit ''length'', lit ''max_tokens''),
      (lit ''tool_calls'', lit ''tool_use''), (lit ''content_filter'', lit ''end_turn'')]"

definition map_stop_reason :: "pystr option \<Rightarrow> pystr" where
  "map_stop_reason openai_reason =
     (case openai_reason of
        None \<Rightarrow> lit ''end_turn''
      | Some r \<Rightarrow>
          if r = [] then lit ''end_turn''
          else (case dget STOP_REASON_MAP r of None \<Rightarrow> lit ''end_turn'' | Some t \<Rightarrow> t))"

section \<open>The content block manager\<close>

record tool_call_state =
  tc_block_index :: int
  tc_tool_id :: pystr
  tc_name :: pystr
  tc_contents :: "pystr list"
  tc_started :: bool
  tc_task_arg_buffer :: pystr
  tc_task_args_emitted :: bool

record block_manager =
  bm_next_index :: int
  bm_thinking_index :: int
  bm_text_index :: int
  bm_thinking_started :: bool
  bm_text_started :: bool
  bm_tool_states :: "(int, tool_call_state) dict"

definition new_tool_state :: "int \<Rightarrow> pystr \<Rightarrow> pystr \<Rightarrow> bool \<Rightarrow> tool_call_state" where
  "new_tool_state block_index tool_id name started =
     \<lparr>tc_block_index = block_index, tc_tool_id = tool_id, tc_name = name, tc_contents = [],
      tc_started = started, tc_task_arg_buffer = [], tc_task_args_emitted = False\<rparr>"

definition allocate_index :: "'a block_manager_scheme \<Rightarrow> int \<times> 'a block_manager_scheme" where
  "allocate_index b = (bm_next_index b, b\<lparr>bm_next_index := bm_next_index b + 1\<rparr>)"

definition put_tool :: "int \<Rightarrow> tool_call_state \<Rightarrow> 'a block_manager_scheme \<Rightarrow> 'a block_manager_scheme" where
  "put_tool i st b = b\<lparr>bm_tool_states := dset i st (bm_tool_states b)\<rparr>"

definition register_tool_name ::
    "int \<Rightarrow> pystr \<Rightarrow> 'a block_manager_scheme \<Rightarrow> 'a block_manager_scheme" where
  "register_tool_name index name b =
     (case dget (bm_tool_states b) index of
        None \<Rightarrow> put_tool index (new_tool_state (- 1) [] name False) b
      | Some st \<Rightarrow>
          let prev = tc_name st
          in if prev = [] \<or> startswith name prev then put_tool index (st\<lparr>tc_name := name\<rparr>) b
             else if \<not> startswith prev name then put_tool index (st\<lparr>tc_name := prev @ name\<rparr>) b
             else b)"

text \<open>\<open>args_json["run_in_background"] = False\<close> unless it is that already; only a dictionary has \<open>get\<close>.\<close>

definition patch_task_args :: "pyval \<Rightarrow> pyval result" where
  "patch_task_args v =
     (case v of
        PDict d \<Rightarrow>
          Inr (PDict (if dget d (lit ''run_in_background'') \<noteq> Some (PBool False)
                      then dset (lit ''run_in_background'') (PBool False) d else d))
      | _ \<Rightarrow> Inl AttributeError)"

definition buffer_task_args ::
    "(pystr \<Rightarrow> pyval option) \<Rightarrow> int \<Rightarrow> pystr \<Rightarrow> 'a block_manager_scheme
       \<Rightarrow> 'a block_manager_scheme \<times> pyval option result" where
  "buffer_task_args loads index args b =
     (case dget (bm_tool_states b) index of
        None \<Rightarrow> (b, Inr None)
      | Some st \<Rightarrow>
          if tc_task_args_emitted st then (b, Inr None)
          else
            let st1 = st\<lparr>tc_task_arg_buffer := tc_task_arg_buffer st @ args\<rparr>; b1 = put_tool index st1 b
            in case loads (tc_task_arg_buffer st1) of
                 None \<Rightarrow> (b1, Inr None)
               | Some v \<Rightarrow>
                   (case patch_task_args v of
                      Inl e \<Rightarrow> (b1, Inl e)
                    | Inr w \<Rightarrow>
                        (put_tool index (st1\<lparr>tc_task_args_emitted := True, tc_task_arg_buffer := []\<rparr>) b1,
                         Inr (Some w))))"

text \<open>The loop runs over a copy of the items; each round changes only the state it looks at.\<close>

definition flushed_args :: "(pystr \<Rightarrow> pyval option) \<Rightarrow> pystr \<Rightarrow> pystr" where
  "flushed_args loads buffer =
     (case loads buffer of
        None \<Rightarrow> lit ''{}''
      | Some v \<Rightarrow> (case patch_task_args v of Inl _ \<Rightarrow> lit ''{}'' | Inr w \<Rightarrow> json_dumps w))"

fun flush_items ::
    "(pystr \<Rightarrow> pyval option) \<Rightarrow> (int \<times> tool_call_state) list \<Rightarrow> 'a block_manager_scheme
       \<Rightarrow> 'a block_manager_scheme \<times> (int \<times> pystr) list" where
  "flush_items loads [] b = (b, [])"
| "flush_items loads ((i, st) # items) b =
     (if tc_task_arg_buffer st = [] \<or> tc_task_args_emitted st then flush_items loads items b
      else
        (case flush_items loads items
                (put_tool i (st\<lparr>tc_task_args_emitted := True, tc_task_arg_buffer := []\<rparr>) b) of
           (b1, results) \<Rightarrow> (b1, (i, flushed_args loads (tc_task_arg_buffer st)) # results)))"

definition flush_task_arg_buffers ::
    "(pystr \<Rightarrow> pyval option) \<Rightarrow> 'a block_manager_scheme \<Rightarrow> 'a block_manager_scheme \<times> (int \<times> pystr) list" where
  "flush_task_arg_buffers loads b = flush_items loads (bm_tool_states b) b"

section \<open>Events\<close>

datatype content_block = ThinkingBlock | TextBlock | ToolUseBlock pystr pystr \<comment> \<open>id and name\<close>

datatype block_delta = ThinkingDelta pystr | TextDelta pystr | InputJsonDelta pystr

datatype sse_event =
    MessageStart pystr pystr int \<comment> \<open>id, model and input tokens\<close>
  | BlockStart int content_block
  | BlockDelta int block_delta
  | BlockStop int
  | MessageDelta pystr int int \<comment> \<open>stop reason, input and output tokens\<close>
  | MessageStop

fun event_type :: "sse_event \<Rightarrow> string" where
  "event_type (MessageStart _ _ _) = ''message_start''"
| "event_type (BlockStart _ _) = ''content_block_start''"
| "event_type (BlockDelta _ _) = ''content_block_delta''"
| "event_type (BlockStop _) = ''content_block_stop''"
| "event_type (MessageDelta _ _ _) = ''message_delta''"
| "event_type MessageStop = ''message_stop''"

fun block_data :: "content_block \<Rightarrow> pyval" where
  "block_data ThinkingBlock = PDict [(lit ''type'', PStr (lit ''thinking'')), (lit ''thinking'', PStr [])]"
| "block_data TextBlock = PDict [(lit ''type'', PStr (lit ''text'')), (lit ''text'', PStr [])]"
| "block_data (ToolUseBlock ident name) =
     PDict [(lit ''type'', PStr (lit ''tool_use'')), (lit ''id'', PStr ident), (lit ''name'', PStr name),
       (lit ''input'', PDict [])]"

fun delta_data :: "block_delta \<Rightarrow> pyval" where
  "delta_data (ThinkingDelta s) = PDict [(lit ''type'', PStr (lit ''thinking_delta'')), (lit ''thinking'', PStr s)]"
| "delta_data (TextDelta s) = PDict [(lit ''type'', PStr (lit ''text_delta'')), (lit ''text'', PStr s)]"
| "delta_data (InputJsonDelta s) =
     PDict [(lit ''type'', PStr (lit ''input_json_delta'')), (lit ''partial_json'', PStr s)]"

fun event_fields :: "sse_event \<Rightarrow> (pystr \<times> pyval) list" where
  "event_fields (MessageStart ident model input) =
     [(lit ''message'', PDict
        [(lit ''id'', PStr ident), (lit ''type'', PStr (lit ''message'')), (lit ''role'', PStr (lit ''assistant'')),
         (lit ''content'', PList []), (lit ''model'', PStr model), (lit ''stop_reason'', PNone),
         (lit ''stop_sequence'', PNone),
         (lit ''usage'', PDict [(lit ''input_tokens'', PInt input), (lit ''output_tokens'', PInt 1)])])]"
| "event_fields (BlockStart i block) = [(lit ''index'', PInt i), (lit ''content_block'', block_data block)]"
| "event_fields (BlockDelta i delta) = [(lit ''index'', PInt i), (lit ''delta'', delta_data delta)]"
| "event_fields (BlockStop i) = [(lit ''index'', PInt i)]"
| "event_fields (MessageDelta stop_reason input output) =
     [(lit ''delta'', PDict [(lit ''stop_reason'', PStr stop_reason), (lit ''stop_sequence'', PNone)]),
      (lit ''usage'', PDict [(lit ''input_tokens'', PInt input), (lit ''output_tokens'', PInt output)])]"
| "event_fields MessageStop = []"

definition format_event :: "sse_event \<Rightarrow> pystr" where
  "format_event e =
     lit ''event: '' @ lit (event_type e) @ newline @
     lit ''data: '' @ json_dumps (PDict ((lit ''type'', PStr (lit (event_type e))) # event_fields e)) @
     newline @ newline"

section \<open>The builder\<close>

text \<open>The builder's manager \<open>blocks\<close> is the first part of the record.\<close>

record sse_builder = block_manager +
  sb_message_id :: pystr
  sb_model :: pystr
  sb_input_tokens :: int
  sb_text_parts :: "pystr list"
  sb_reasoning_parts :: "pystr list"

definition sse_init :: "pystr \<Rightarrow> pystr \<Rightarrow> int \<Rightarrow> sse_builder" where
  "sse_init message_id model input_tokens =
     \<lparr>bm_next_index = 0, bm_thinking_index = - 1, bm_text_index = - 1, bm_thinking_started = False,
      bm_text_started = False, bm_tool_states = [], sb_message_id = message_id, sb_model = model,
      sb_input_tokens = input_tokens, sb_text_parts = [], sb_reasoning_parts = []\<rparr>"

type_synonym ('a, 'b) sse_gen = "(sse_event, 'a sse_builder_scheme, 'b) gen"

definition message_start :: "'a sse_builder_scheme \<Rightarrow> sse_event \<times> 'a sse_builder_scheme" where
  "message_start s = (MessageStart (sb_message_id s) (sb_model s) (sb_input_tokens s), s)"

definition message_delta :: "pystr \<Rightarrow> int \<Rightarrow> 'a sse_builder_scheme \<Rightarrow> sse_event \<times> 'a sse_builder_scheme" where
  "message_delta stop_reason output_tokens s = (MessageDelta stop_reason (sb_input_tokens s) output_tokens, s)"

definition message_stop :: "'a sse_builder_scheme \<Rightarrow> sse_event \<times> 'a sse_builder_scheme" where
  "message_stop s = (MessageStop, s)"

definition start_thinking_block :: "'a sse_builder_scheme \<Rightarrow> sse_event \<times> 'a sse_builder_scheme" where
  "start_thinking_block s =
     (let (i, s1) = allocate_index s
      in (BlockStart i ThinkingBlock, s1\<lparr>bm_thinking_index := i, bm_thinking_started := True\<rparr>))"

definition emit_thinking_delta :: "pystr \<Rightarrow> 'a sse_builder_scheme \<Rightarrow> sse_event \<times> 'a sse_builder_scheme" where
  "emit_thinking_delta content s =
     (BlockDelta (bm_thinking_index s) (ThinkingDelta content),
      s\<lparr>sb_reasoning_parts := sb_reasoning_parts s @ [content]\<rparr>)"

definition stop_thinking_block :: "'a sse_builder_scheme \<Rightarrow> sse_event \<times> 'a sse_builder_scheme" where
  "stop_thinking_block s = (BlockStop (bm_thinking_index s), s\<lparr>bm_thinking_started := False\<rparr>)"

definition start_text_block :: "'a sse_builder_scheme \<Rightarrow> sse_event \<times> 'a sse_builder_scheme" where
  "start_text_block s =
     (let (i, s1) = allocate_index s
      in (BlockStart i TextBlock, s1\<lparr>bm_text_index := i, bm_text_started := True\<rparr>))"

definition emit_text_delta :: "pystr \<Rightarrow> 'a sse_builder_scheme \<Rightarrow> sse_event \<times> 'a sse_builder_scheme" where
  "emit_text_delta content s =
     (BlockDelta (bm_text_index s) (TextDelta content), s\<lparr>sb_text_parts := sb_text_parts s @ [content]\<rparr>)"

definition stop_text_block :: "'a sse_builder_scheme \<Rightarrow> sse_event \<times> 'a sse_builder_scheme" where
  "stop_text_block s = (BlockStop (bm_text_index s), s\<lparr>bm_text_started := False\<rparr>)"

definition start_tool_block ::
    "int \<Rightarrow> pystr \<Rightarrow> pystr \<Rightarrow> 'a sse_builder_scheme \<Rightarrow> sse_event \<times> 'a sse_builder_scheme" where
  "start_tool_block tool_index tool_id name s =
     (let (i, s1) = allocate_index s;
          st = (case dget (bm_tool_states s1) tool_index of
                  Some st \<Rightarrow> st\<lparr>tc_block_index := i, tc_tool_id := tool_id, tc_started := True\<rparr>
                | None \<Rightarrow> new_tool_state i tool_id name True)
      in (BlockStart i (ToolUseBlock tool_id name), put_tool tool_index st s1))"

definition emit_tool_delta ::
    "int \<Rightarrow> pystr \<Rightarrow> 'a sse_builder_scheme \<Rightarrow> (sse_event \<times> 'a sse_builder_scheme) result" where
  "emit_tool_delta tool_index partial_json s =
     (case dget (bm_tool_states s) tool_index of
        None \<Rightarrow> Inl KeyError
      | Some st \<Rightarrow>
          Inr (BlockDelta (tc_block_index st) (InputJsonDelta partial_json),
               put_tool tool_index (st\<lparr>tc_contents := tc_contents st @ [partial_json]\<rparr>) s))"

definition stop_tool_block :: "int \<Rightarrow> 'a sse_builder_scheme \<Rightarrow> (sse_event \<times> 'a sse_builder_scheme) result" where
  "stop_tool_block tool_index s =
     (case dget (bm_tool_states s) tool_index of
        None \<Rightarrow> Inl KeyError
      | Some st \<Rightarrow> Inr (BlockStop (tc_block_index st), s))"

definition ensure_thinking_block :: "('a, unit) sse_gen" where
  "ensure_thinking_block =
     gthen (gwhen bm_text_started (gyield stop_text_block))
       (gwhen (\<lambda>s. \<not> bm_thinking_started s) (gyield start_thinking_block))"

definition ensure_text_block :: "('a, unit) sse_gen" where
  "ensure_text_block =
     gthen (gwhen bm_thinking_started (gyield stop_thinking_block))
       (gwhen (\<lambda>s. \<not> bm_text_started s) (gyield start_text_block))"

definition close_content_blocks :: "('a, unit) sse_gen" where
  "close_content_blocks =
     gthen (gwhen bm_thinking_started (gyield stop_thinking_block))
       (gwhen bm_text_started (gyield stop_text_block))"

definition close_all_blocks :: "('a, unit) sse_gen" where
  "close_all_blocks =
     gthen (gwhen bm_thinking_started (gyield stop_thinking_block))
     (gthen (gwhen bm_text_started (gyield stop_text_block))
       (gstate (\<lambda>s. gfor (\<lambda>(tool_index, st).
          if tc_started st then gyield_try (stop_tool_block tool_index) else gret ()) (bm_tool_states s))))"

text \<open>Three events for a block whose index no other part of the state keeps.\<close>

definition emit_error :: "pystr \<Rightarrow> ('a, unit) sse_gen" where
  "emit_error error_message =
     gstate (\<lambda>s. let error_index = fst (allocate_index s) in
       gthen (gyield (\<lambda>s. (BlockStart error_index TextBlock, snd (allocate_index s))))
       (gthen (gyield (\<lambda>s. (BlockDelta error_index (TextDelta error_message), s)))
         (gyield (\<lambda>s. (BlockStop error_index, s)))))"

definition accumulated_text :: "'a sse_builder_scheme \<Rightarrow> pystr" where
  "accumulated_text s = concat (sb_text_parts s)"

definition accumulated_reasoning :: "'a sse_builder_scheme \<Rightarrow> pystr" where
  "accumulated_reasoning s = concat (sb_reasoning_parts s)"

text \<open>The encoder is given by the number of tokens of a text. It raises on a text that it refuses, as \<open>tiktoken\<close> refuses the
  names of its special tokens, and nothing here catches that.\<close>

type_synonym encoder = "pystr \<Rightarrow> nat result"

fun tool_state_tokens :: "encoder \<Rightarrow> tool_call_state list \<Rightarrow> nat result" where
  "tool_state_tokens tokens [] = Inr 0"
| "tool_state_tokens tokens (st # states) =
     rbind (tokens (tc_name st)) (\<lambda>n. rbind (tokens (concat (tc_contents st))) (\<lambda>c.
       rbind (tool_state_tokens tokens states) (\<lambda>rest. Inr (n + c + 15 + rest))))"

definition estimate_output_tokens :: "encoder option \<Rightarrow> 'a sse_builder_scheme \<Rightarrow> int result" where
  "estimate_output_tokens encoder s =
     (let text = accumulated_text s; reasoning = accumulated_reasoning s;
          states = dvalues (bm_tool_states s); started = length (filter tc_started states)
      in case encoder of
           Some tokens \<Rightarrow>
             rbind (tokens text) (\<lambda>text_tokens. rbind (tokens reasoning) (\<lambda>reasoning_tokens.
               rbind (tool_state_tokens tokens states) (\<lambda>tool_tokens.
                 let block_count = (if reasoning \<noteq> [] then 1 else 0) + (if text \<noteq> [] then 1 else 0) + started
                 in Inr (int (text_tokens + reasoning_tokens + tool_tokens + block_count * 4)))))
         | None \<Rightarrow> Inr (int (length text div 4 + length reasoning div 4 + started * 50)))"

lemma rbind_Inl_iff: "rbind r f = Inl e \<longleftrightarrow> r = Inl e \<or> (\<exists>a. r = Inr a \<and> f a = Inl e)"
  by (cases r) auto

lemma tool_tokens_raise: "tool_state_tokens tokens states = Inl e \<Longrightarrow> \<exists>text. tokens text = Inl e"
  by (induction states) (auto simp: rbind_Inl_iff)

lemma estimate_raises: "estimate_output_tokens encoder s = Inl e \<Longrightarrow> \<exists>tokens text. encoder = Some tokens \<and> tokens text = Inl e"
  by (auto simp: estimate_output_tokens_def rbind_Inl_iff Let_def dest: tool_tokens_raise split: option.splits)

end
