(* ===== verification/SseProtocol.thy ===== *)
theory SseProtocol
  imports SseBuilder
begin

text \<open>
  The contract of the event builder: an acceptor of the event sequences a client of the streaming API
  can read, and the rules that keep the builder in step with it.
\<close>

section \<open>What a client accepts\<close>

datatype kind = KThinking | KText | KTool

fun block_kind :: "content_block \<Rightarrow> kind" where
  "block_kind ThinkingBlock = KThinking"
| "block_kind TextBlock = KText"
| "block_kind (ToolUseBlock _ _) = KTool"

fun delta_kind :: "block_delta \<Rightarrow> kind" where
  "delta_kind (ThinkingDelta _) = KThinking"
| "delta_kind (TextDelta _) = KText"
| "delta_kind (InputJsonDelta _) = KTool"

text \<open>A client has seen nothing yet, or reads blocks (with the next index and the open blocks), or has
  the final usage, or has the end. Blocks are numbered from 0 without gaps, a delta goes to an open block
  of its kind, a block is closed once, and all are closed when the final usage comes.\<close>

datatype client =
    Waiting
  | Reading int "(int \<times> kind) list"
  | Finishing int
  | Complete int

fun client_step :: "client \<Rightarrow> sse_event \<Rightarrow> client option" where
  "client_step Waiting (MessageStart _ _ _) = Some (Reading 0 [])"
| "client_step (Reading n opened) (BlockStart i b) =
     (if i = n then Some (Reading (n + 1) ((i, block_kind b) # opened)) else None)"
| "client_step (Reading n opened) (BlockDelta i d) =
     (if dget opened i = Some (delta_kind d) then Some (Reading n opened) else None)"
| "client_step (Reading n opened) (BlockStop i) =
     (if i \<in> set (dkeys opened) then Some (Reading n (ddel i opened)) else None)"
| "client_step (Reading n opened) (MessageDelta _ _ _) = (if opened = [] then Some (Finishing n) else None)"
| "client_step (Finishing n) MessageStop = Some (Complete n)"
| "client_step _ _ = None"

section \<open>The builder in step with the client\<close>

definition open_tools :: "(int, tool_call_state) dict \<Rightarrow> (int \<times> kind) list" where
  "open_tools d = map (\<lambda>st. (tc_block_index st, KTool)) (filter tc_started (dvalues d))"

definition open_blocks :: "'a block_manager_scheme \<Rightarrow> (int \<times> kind) list" where
  "open_blocks s =
     (if bm_thinking_started s then [(bm_thinking_index s, KThinking)] else []) @
     (if bm_text_started s then [(bm_text_index s, KText)] else []) @ open_tools (bm_tool_states s)"

text \<open>Every open index was allocated, the open indices differ, and arguments are only buffered for tools
  that were started.\<close>

definition buffers_ok :: "(int, tool_call_state) dict \<Rightarrow> bool" where
  "buffers_ok d \<longleftrightarrow> (\<forall>(i, st) \<in> set d. tc_task_arg_buffer st \<noteq> [] \<longrightarrow> tc_started st)"

definition blocks_ok :: "'a block_manager_scheme \<Rightarrow> bool" where
  "blocks_ok s \<longleftrightarrow>
     0 \<le> bm_next_index s \<and> distinct (dkeys (open_blocks s)) \<and> (\<forall>i \<in> set (dkeys (open_blocks s)). i < bm_next_index s)
     \<and> dict_ok (bm_tool_states s)
     \<and> buffers_ok (bm_tool_states s)
     \<and> - 1 \<le> bm_text_index s \<and> bm_text_index s < bm_next_index s"

definition in_step :: "'a block_manager_scheme \<Rightarrow> client \<Rightarrow> bool" where
  "in_step s c \<longleftrightarrow>
     (\<exists>opened. c = Reading (bm_next_index s) opened \<and> mset opened = mset (open_blocks s)) \<and> blocks_ok s"

section \<open>Open blocks\<close>

lemma mset_ddel: "dict_ok d \<Longrightarrow> (k, v) \<in> set d \<Longrightarrow> mset (ddel k d) = mset d - {#(k, v)#}"
proof (induction d)
  case (Cons p d)
  obtain k' v' where p: "p = (k', v')" by force
  show ?case
  proof (cases "k' = k")
    case True
    with Cons.prems p have v: "v' = v" and k: "k \<notin> set (dkeys d)"
      by (auto simp: image_iff intro: rev_image_eqI)
    from k have "ddel k d = d" by (simp add: delete_id)
    with True v p show ?thesis by simp
  next
    case False
    with Cons p show ?thesis by (auto simp: multiset_eq_iff)
  qed
qed simp

lemma open_tools_same:
  assumes "dict_ok d" "dget d i = Some st" "tc_started st' = tc_started st"
    "tc_block_index st' = tc_block_index st"
  shows "open_tools (dset i st' d) = open_tools d"
  using assms by (induction d) (auto simp: open_tools_def split: if_splits)

lemma open_tools_new:
  "dget d i = None \<Longrightarrow> open_tools (dset i st d)
     = open_tools d @ (if tc_started st then [(tc_block_index st, KTool)] else [])"
  by (induction d) (auto simp: open_tools_def split: if_splits)

lemma open_tools_start:
  assumes "dget d i = Some st" "\<not> tc_started st" "tc_started st'"
  shows "mset (open_tools (dset i st' d)) = add_mset (tc_block_index st', KTool) (mset (open_tools d))"
  using assms by (induction d) (auto simp: open_tools_def split: if_splits)

lemma open_tools_mem: "dget d i = Some st \<Longrightarrow> tc_started st \<Longrightarrow> (tc_block_index st, KTool) \<in> set (open_tools d)"
  by (auto simp: open_tools_def dest!: map_of_SomeD intro: rev_image_eqI)

lemma in_stepI:
  assumes "mset opened = mset (open_blocks s)" "blocks_ok s"
  shows "in_step s (Reading (bm_next_index s) opened)"
  using assms by (auto simp: in_step_def)

lemma in_stepE:
  assumes "in_step s c"
  obtains opened where "c = Reading (bm_next_index s) opened" "mset opened = mset (open_blocks s)"
    "blocks_ok s" "dict_ok opened" "set opened = set (open_blocks s)"
proof -
  from assms obtain opened where o: "c = Reading (bm_next_index s) opened" "mset opened = mset (open_blocks s)"
    "blocks_ok s" by (auto simp: in_step_def)
  from o(2) have "mset (dkeys opened) = mset (dkeys (open_blocks s))"
    by (metis mset_map)
  with o(3) have "dict_ok opened"
    unfolding blocks_ok_def by (metis mset_eq_imp_distinct_iff)
  with o mset_eq_setD [OF o(2)] show ?thesis using that by blast
qed

text \<open>The three kinds of events, as steps of a state in step.\<close>

lemma step_start:
  assumes "in_step s c" "mset (open_blocks s') = add_mset (bm_next_index s, block_kind b) (mset (open_blocks s))"
    "bm_next_index s' = bm_next_index s + 1" "dict_ok (bm_tool_states s')"
    "buffers_ok (bm_tool_states s')"
    "- 1 \<le> bm_text_index s'" "bm_text_index s' < bm_next_index s'"
  shows "\<exists>c'. client_step c (BlockStart (bm_next_index s) b) = Some c' \<and> in_step s' c'"
proof -
  from assms(1) obtain opened where o: "c = Reading (bm_next_index s) opened" "mset opened = mset (open_blocks s)"
    "blocks_ok s" "dict_ok opened" "set opened = set (open_blocks s)" by (rule in_stepE)
  let ?opened = "(bm_next_index s, block_kind b) # opened"
  have m: "mset ?opened = mset (open_blocks s')" using assms(2) o(2) by simp
  have "bm_next_index s \<notin> set (dkeys opened)" using o(3,5) by (auto simp: blocks_ok_def)
  then have "dict_ok ?opened" using o(4) by simp
  with m have d: "distinct (dkeys (open_blocks s'))"
    by (metis mset_eq_imp_distinct_iff mset_map)
  have "set (dkeys (open_blocks s')) = insert (bm_next_index s) (set (dkeys (open_blocks s)))"
    unfolding set_map mset_eq_setD [OF m, symmetric] using o(5) by simp
  then have "\<forall>i \<in> set (dkeys (open_blocks s')). i < bm_next_index s'"
    using o(3) assms(3) by (auto simp: blocks_ok_def)
  with d assms(3-7) o(3) have "blocks_ok s'" by (simp add: blocks_ok_def)
  with m assms(3) in_stepI [of ?opened s'] o(1) show ?thesis by simp
qed

lemma step_stop:
  assumes "in_step s c" "(i, k) \<in> set (open_blocks s)"
    "mset (open_blocks s) = add_mset (i, k) (mset (open_blocks s'))"
    "bm_next_index s' = bm_next_index s" "bm_tool_states s' = bm_tool_states s" "bm_text_index s' = bm_text_index s"
  shows "\<exists>c'. client_step c (BlockStop i) = Some c' \<and> in_step s' c'"
proof -
  from assms(1) obtain opened where o: "c = Reading (bm_next_index s) opened" "mset opened = mset (open_blocks s)"
    "blocks_ok s" "dict_ok opened" "set opened = set (open_blocks s)" by (rule in_stepE)
  from assms(2) o(5) have mem: "(i, k) \<in> set opened" by simp
  then have m: "mset (ddel i opened) = mset (open_blocks s')"
    using mset_ddel [OF o(4) mem] o(2) assms(3) by simp
  have "dict_ok (ddel i opened)" using o(4) by simp
  with m have d: "distinct (dkeys (open_blocks s'))"
    by (metis mset_eq_imp_distinct_iff mset_map)
  have "set (open_blocks s') \<subseteq> set (open_blocks s)"
    using arg_cong [OF assms(3), of set_mset] by auto
  then have "\<forall>j \<in> set (dkeys (open_blocks s')). j < bm_next_index s'"
    using o(3) assms(4) by (auto simp: blocks_ok_def)
  with d o(3) assms(4-6) have "blocks_ok s'" by (simp add: blocks_ok_def)
  with m assms(4) in_stepI [of "ddel i opened" s'] o(1) mem show ?thesis by force
qed

lemma step_delta:
  assumes "in_step s c" "(i, delta_kind d) \<in> set (open_blocks s)"
  shows "client_step c (BlockDelta i d) = Some c"
proof -
  from assms(1) obtain opened where o: "c = Reading (bm_next_index s) opened" "dict_ok opened"
    "set opened = set (open_blocks s)" by (rule in_stepE)
  with assms(2) have "dget opened i = Some (delta_kind d)" by simp
  with o(1) show ?thesis by simp
qed

lemma in_step_cong:
  assumes "in_step s c" "bm_next_index s' = bm_next_index s" "open_blocks s' = open_blocks s"
    "dict_ok (bm_tool_states s')" "bm_text_index s' = bm_text_index s"
    "buffers_ok (bm_tool_states s')"
  shows "in_step s' c"
  using assms by (auto simp: in_step_def blocks_ok_def)

section \<open>The operations\<close>

lemmas block_defs = start_thinking_block_def stop_thinking_block_def emit_thinking_delta_def
  start_text_block_def stop_text_block_def emit_text_delta_def start_tool_block_def
  allocate_index_def put_tool_def new_tool_state_def Let_def

lemma yield_stop_thinking:
  assumes "in_step s c" "bm_thinking_started s"
  shows "\<exists>c'. client_step c (fst (stop_thinking_block s)) = Some c' \<and> in_step (snd (stop_thinking_block s)) c'"
  using step_stop [OF assms(1), of "bm_thinking_index s" KThinking "snd (stop_thinking_block s)"] assms(2)
  by (simp add: block_defs open_blocks_def)

lemma yield_stop_text:
  assumes "in_step s c" "bm_text_started s"
  shows "\<exists>c'. client_step c (fst (stop_text_block s)) = Some c' \<and> in_step (snd (stop_text_block s)) c'"
  using step_stop [OF assms(1), of "bm_text_index s" KText "snd (stop_text_block s)"] assms(2)
  by (simp add: block_defs open_blocks_def)

lemma in_step_blocks_ok: "in_step s c \<Longrightarrow> blocks_ok s"
  by (simp add: in_step_def)

lemma yield_start_thinking:
  assumes "in_step s c" "\<not> bm_thinking_started s"
  shows "\<exists>c'. client_step c (fst (start_thinking_block s)) = Some c' \<and> in_step (snd (start_thinking_block s)) c'"
  using step_start [OF assms(1), of "snd (start_thinking_block s)" ThinkingBlock] assms(2) in_step_blocks_ok [OF assms(1)]
  by (simp add: block_defs open_blocks_def blocks_ok_def)

lemma yield_start_text:
  assumes "in_step s c" "\<not> bm_text_started s"
  shows "\<exists>c'. client_step c (fst (start_text_block s)) = Some c' \<and> in_step (snd (start_text_block s)) c'"
  using step_start [OF assms(1), of "snd (start_text_block s)" TextBlock] assms(2) in_step_blocks_ok [OF assms(1)]
  by (simp add: block_defs open_blocks_def blocks_ok_def)

lemma buffers_ok_dset:
  assumes "buffers_ok d" "tc_task_arg_buffer st \<noteq> [] \<Longrightarrow> tc_started st"
  shows "buffers_ok (dset i st d)"
  using assms by (induction d) (auto simp: buffers_ok_def)

lemma buffers_ok_get: "buffers_ok d \<Longrightarrow> dget d i = Some st \<Longrightarrow> tc_task_arg_buffer st \<noteq> [] \<Longrightarrow> tc_started st"
  by (auto simp: buffers_ok_def dest!: map_of_SomeD)

lemma yield_start_tool:
  assumes s: "in_step s c" and new: "\<And>st. dget (bm_tool_states s) i = Some st \<Longrightarrow> \<not> tc_started st"
  shows "\<exists>c'. client_step c (fst (start_tool_block i tool_id name s)) = Some c'
     \<and> in_step (snd (start_tool_block i tool_id name s)) c'"
proof -
  let ?s = "snd (start_tool_block i tool_id name s)"
  note ok = in_step_blocks_ok [OF s]
  obtain st where st: "bm_tool_states ?s = dset i st (bm_tool_states s)" "tc_started st"
    "tc_block_index st = bm_next_index s"
    by (auto simp: block_defs split: option.split)
  have rest: "bm_next_index ?s = bm_next_index s + 1" "bm_text_index ?s = bm_text_index s"
    "bm_thinking_started ?s = bm_thinking_started s" "bm_text_started ?s = bm_text_started s"
    "bm_thinking_index ?s = bm_thinking_index s"
    "fst (start_tool_block i tool_id name s) = BlockStart (bm_next_index s) (ToolUseBlock tool_id name)"
    by (simp_all add: block_defs)
  have "mset (open_tools (dset i st (bm_tool_states s)))
      = add_mset (bm_next_index s, KTool) (mset (open_tools (bm_tool_states s)))"
  proof (cases "dget (bm_tool_states s) i")
    case None
    with st show ?thesis by (simp add: open_tools_new)
  next
    case (Some st0)
    with new st show ?thesis by (simp add: open_tools_start)
  qed
  then have "mset (open_blocks ?s) = add_mset (bm_next_index s, block_kind (ToolUseBlock tool_id name)) (mset (open_blocks s))"
    using st rest by (simp add: open_blocks_def)
  moreover have "buffers_ok (bm_tool_states ?s)"
    using buffers_ok_dset [of "bm_tool_states s" st i] ok st by (simp add: blocks_ok_def)
  ultimately show ?thesis
    using step_start [OF s, of ?s "ToolUseBlock tool_id name"] ok st rest by (auto simp: blocks_ok_def)
qed

text \<open>A tool state may be replaced by one with the same block if only started tools buffer arguments.\<close>

lemma in_step_put_tool:
  assumes s: "in_step s c" and st: "dget (bm_tool_states s) i = Some st"
    and same: "tc_started st' = tc_started st" "tc_block_index st' = tc_block_index st"
    and buffer: "tc_task_arg_buffer st' \<noteq> [] \<Longrightarrow> tc_started st'"
  shows "in_step (put_tool i st' s) c"
proof (rule in_step_cong [OF s])
  note ok = in_step_blocks_ok [OF s]
  then have d: "dict_ok (bm_tool_states s)" by (simp add: blocks_ok_def)
  show "open_blocks (put_tool i st' s) = open_blocks s"
    using open_tools_same [OF d st same] by (simp add: open_blocks_def put_tool_def)
  show "dict_ok (bm_tool_states (put_tool i st' s))" using d by (simp add: put_tool_def)
  show "buffers_ok (bm_tool_states (put_tool i st' s))"
    using buffers_ok_dset [of "bm_tool_states s" st' i] ok buffer by (simp add: put_tool_def blocks_ok_def)
qed (simp_all add: put_tool_def)

lemma in_step_put_new_tool:
  assumes s: "in_step s c" and new: "dget (bm_tool_states s) i = None"
    and st: "\<not> tc_started st" "tc_task_arg_buffer st = []"
  shows "in_step (put_tool i st s) c"
proof (rule in_step_cong [OF s])
  note ok = in_step_blocks_ok [OF s]
  then have d: "dict_ok (bm_tool_states s)" by (simp add: blocks_ok_def)
  show "open_blocks (put_tool i st s) = open_blocks s"
    using open_tools_new [OF new, of st] st by (simp add: open_blocks_def put_tool_def)
  show "dict_ok (bm_tool_states (put_tool i st s))" using d by (simp add: put_tool_def)
  show "buffers_ok (bm_tool_states (put_tool i st s))"
    using buffers_ok_dset [of "bm_tool_states s" st i] ok st by (simp add: put_tool_def blocks_ok_def)
qed (simp_all add: put_tool_def)

lemma in_step_register: "in_step s c \<Longrightarrow> in_step (register_tool_name i name s) c"
proof (cases "dget (bm_tool_states s) i")
  case None
  then show "in_step s c \<Longrightarrow> ?thesis"
    by (auto simp: register_tool_name_def new_tool_state_def intro: in_step_put_new_tool)
next
  case (Some st)
  assume s: "in_step s c"
  from in_step_blocks_ok [OF s] buffers_ok_get [OF _ Some]
  have buffer: "tc_task_arg_buffer st \<noteq> [] \<Longrightarrow> tc_started st" by (simp add: blocks_ok_def)
  show ?thesis
    using s Some buffer by (auto simp: register_tool_name_def Let_def intro!: in_step_put_tool [OF s Some])
qed

lemma yield_tool_delta:
  assumes s: "in_step s c" and st: "dget (bm_tool_states s) i = Some st" "tc_started st"
  shows "\<exists>e s'. emit_tool_delta i content s = Inr (e, s') \<and> client_step c e = Some c \<and> in_step s' c"
proof -
  have mem: "(tc_block_index st, delta_kind (InputJsonDelta content)) \<in> set (open_blocks s)"
    using open_tools_mem [OF st] by (simp add: open_blocks_def)
  have "in_step (put_tool i (st\<lparr>tc_contents := tc_contents st @ [content]\<rparr>) s) c"
    by (rule in_step_put_tool [OF s st(1)]) (simp_all add: st)
  with step_delta [OF s mem] st(1) show ?thesis by (simp add: emit_tool_delta_def)
qed

section \<open>Rules for the generators\<close>

abbreviation sse_guarded ::
    "bool \<Rightarrow> ('a sse_builder_scheme \<Rightarrow> bool) \<Rightarrow> ('a, 'b) sse_gen \<Rightarrow> ('b \<Rightarrow> 'a sse_builder_scheme \<Rightarrow> bool) \<Rightarrow> bool"
  where "sse_guarded \<equiv> guarded client_step in_step"

lemma guarded_ensure_thinking: "sse_guarded E P ensure_thinking_block (\<lambda>_. bm_thinking_started)"
  unfolding ensure_thinking_block_def
  by (intro guarded_gthen [where R = "\<lambda>_. True"] guarded_gwhen guarded_gyield)
    (auto dest: yield_stop_text yield_start_thinking simp: start_thinking_block_def split_beta)

lemma guarded_ensure_text: "sse_guarded E P ensure_text_block (\<lambda>_. bm_text_started)"
  unfolding ensure_text_block_def
  by (intro guarded_gthen [where R = "\<lambda>_. True"] guarded_gwhen guarded_gyield)
    (auto dest: yield_stop_thinking yield_start_text simp: start_text_block_def split_beta)

lemma guarded_close_content: "sse_guarded E P close_content_blocks (\<lambda>_ _. True)"
  unfolding close_content_blocks_def
  by (intro guarded_gthen [where R = "\<lambda>_. True"] guarded_gwhen guarded_gyield)
    (auto dest: yield_stop_thinking yield_stop_text)

lemma guarded_thinking_delta:
  "sse_guarded E bm_thinking_started (gyield (emit_thinking_delta content)) (\<lambda>_ _. True)"
proof (rule guarded_gyield)
  fix s :: "'a sse_builder_scheme" and c
  assume s: "bm_thinking_started s" "in_step s c"
  have "(bm_thinking_index s, delta_kind (ThinkingDelta content)) \<in> set (open_blocks s)"
    using s(1) by (simp add: open_blocks_def)
  from step_delta [OF s(2) this]
  show "\<exists>c'. client_step c (fst (emit_thinking_delta content s)) = Some c'
      \<and> in_step (snd (emit_thinking_delta content s)) c' \<and> True"
    using s(2) in_step_blocks_ok [OF s(2)]
    by (auto simp: emit_thinking_delta_def in_step_def blocks_ok_def open_blocks_def)
qed

lemma guarded_text_delta:
  "sse_guarded E bm_text_started (gyield (emit_text_delta content)) (\<lambda>_ _. True)"
proof (rule guarded_gyield)
  fix s :: "'a sse_builder_scheme" and c
  assume s: "bm_text_started s" "in_step s c"
  have "(bm_text_index s, delta_kind (TextDelta content)) \<in> set (open_blocks s)"
    using s(1) by (simp add: open_blocks_def)
  from step_delta [OF s(2) this]
  show "\<exists>c'. client_step c (fst (emit_text_delta content s)) = Some c'
      \<and> in_step (snd (emit_text_delta content s)) c' \<and> True"
    using s(2) in_step_blocks_ok [OF s(2)]
    by (auto simp: emit_text_delta_def in_step_def blocks_ok_def open_blocks_def)
qed

text \<open>A block that is opened, filled and closed at once leaves the other blocks alone.\<close>

lemma whole_block:
  assumes s: "in_step s c" and k: "delta_kind d = block_kind b"
  shows "\<exists>c'. monitor client_step c
      [BlockStart (bm_next_index s) b, BlockDelta (bm_next_index s) d, BlockStop (bm_next_index s)] = Some c'
    \<and> in_step (snd (allocate_index s)) c'"
proof -
  from s obtain opened where o: "c = Reading (bm_next_index s) opened" "mset opened = mset (open_blocks s)"
    "blocks_ok s" "dict_ok opened" "set opened = set (open_blocks s)" by (rule in_stepE)
  have "bm_next_index s \<notin> set (dkeys opened)" using o(3,5) by (auto simp: blocks_ok_def)
  then have "ddel (bm_next_index s) opened = opened" by (simp add: delete_id)
  moreover have "open_blocks (snd (allocate_index s)) = open_blocks s"
    by (simp add: open_blocks_def allocate_index_def)
  then have "in_step (snd (allocate_index s)) (Reading (bm_next_index s + 1) opened)"
    using o(2,3) by (auto simp: in_step_def blocks_ok_def allocate_index_def)
  ultimately show ?thesis using o(1) k by simp
qed

lemma guarded_emit_error: "sse_guarded E P (emit_error message) (\<lambda>_ _. True)"
proof (rule guardedI)
  fix s :: "'a sse_builder_scheme" and c es s' r
  assume s: "in_step s c" and m: "emit_error message s = (es, s', r)"
  let ?n = "bm_next_index s"
  have "es = [BlockStart ?n TextBlock, BlockDelta ?n (TextDelta message), BlockStop ?n]"
    "s' = snd (allocate_index s)" "r = Inr ()"
    using m by (auto simp: emit_error_def gstate_def gthen_def gbind_def gyield_def allocate_index_def Let_def)
  with whole_block [OF s, of "TextDelta message" TextBlock]
  show "\<exists>c'. monitor client_step c es = Some c' \<and> in_step s' c' \<and> (case r of Inl _ \<Rightarrow> E | Inr a \<Rightarrow> True)"
    by simp
qed

text \<open>The end: the tools are closed one after the other, although their states stay started.\<close>

lemma stop_tools_run:
  assumes "\<And>i st. (i, st) \<in> set ts \<Longrightarrow> dget (bm_tool_states s) i = Some st"
  shows "gfor (\<lambda>(i, st). if tc_started st then gyield_try (stop_tool_block i) else gret ()) ts s
    = (map (\<lambda>(i, k). BlockStop i) (open_tools ts), s, Inr ())"
  using assms
proof (induction ts)
  case Nil
  then show ?case by (simp add: gret_def open_tools_def)
next
  case (Cons x ts)
  obtain i st where x: "x = (i, st)" by force
  from Cons.prems x have "dget (bm_tool_states s) i = Some st" by simp
  moreover from Cons have "gfor (\<lambda>(i, st). if tc_started st then gyield_try (stop_tool_block i) else gret ()) ts s
    = (map (\<lambda>(i, k). BlockStop i) (open_tools ts), s, Inr ())" by simp
  ultimately show ?case using x
    by (simp add: gthen_def gbind_def gret_def gyield_try_def stop_tool_block_def open_tools_def)
qed

lemma close_each:
  assumes "dict_ok opened" "mset opened = mset ks"
  shows "monitor client_step (Reading n opened) (map (\<lambda>(i, k). BlockStop i) ks) = Some (Reading n [])"
  using assms
proof (induction ks arbitrary: opened)
  case (Cons p ks)
  obtain i k where p: "p = (i, k)" by force
  have "p \<in> set opened" using mset_eq_setD [OF Cons.prems(2)] by simp
  with p have mem: "(i, k) \<in> set opened" by simp
  then have "mset (ddel i opened) = mset ks"
    using mset_ddel [OF Cons.prems(1) mem] Cons.prems(2) p by simp
  with Cons.IH [of "ddel i opened"] Cons.prems(1) mem p show ?case by force
qed simp

lemma close_all_closes:
  fixes s :: "'b sse_builder_scheme"
  assumes s: "in_step s c" and run: "close_all_blocks s = (es, s', r)"
  shows "monitor client_step c es = Some (Reading (bm_next_index s) []) \<and> r = Inr ()
    \<and> bm_next_index s' = bm_next_index s"
proof -
  let ?tools = "gstate (\<lambda>s. gfor (\<lambda>(i, st). if tc_started st then gyield_try (stop_tool_block i) else gret ())
      (bm_tool_states s))"
  define closing :: "('b, unit) sse_gen" where
    "closing = gthen (gwhen bm_thinking_started (gyield stop_thinking_block)) (gwhen bm_text_started (gyield stop_text_block))"
  have assoc: "close_all_blocks t = gthen closing ?tools t" for t :: "'b sse_builder_scheme"
    unfolding close_all_blocks_def closing_def gthen_def gbind_def
    by (auto split: sum.splits prod.splits)
  have g: "sse_guarded False (\<lambda>t. bm_next_index t = bm_next_index s) closing
      (\<lambda>_ t. \<not> bm_thinking_started t \<and> \<not> bm_text_started t \<and> bm_next_index t = bm_next_index s)"
    unfolding closing_def
    by (intro guarded_gthen [where R = "\<lambda>t. \<not> bm_thinking_started t \<and> bm_next_index t = bm_next_index s"] guarded_gwhen guarded_gyield)
      (auto dest: yield_stop_thinking yield_stop_text simp: stop_thinking_block_def stop_text_block_def)
  obtain es1 s1 r1 where one: "closing s = (es1, s1, r1)" by (cases "closing s")
  from guardedD [OF g refl s one] obtain c1 where c1: "monitor client_step c es1 = Some c1" "in_step s1 c1"
    "r1 = Inr ()" "\<not> bm_thinking_started s1" "\<not> bm_text_started s1" "bm_next_index s1 = bm_next_index s"
    by (auto split: sum.splits)
  from c1(2) obtain opened where o: "c1 = Reading (bm_next_index s1) opened" "mset opened = mset (open_blocks s1)"
    "blocks_ok s1" "dict_ok opened" by (rule in_stepE)
  have d: "dict_ok (bm_tool_states s1)" using o(3) by (simp add: blocks_ok_def)
  have two: "?tools s1 = (map (\<lambda>(i, k). BlockStop i) (open_tools (bm_tool_states s1)), s1, Inr ())"
    unfolding gstate_def by (rule stop_tools_run) (simp add: d)
  have "mset opened = mset (open_tools (bm_tool_states s1))" using o(2) c1(4,5) by (simp add: open_blocks_def)
  from close_each [OF o(4) this] o(1) c1 one two run assoc [of s] show ?thesis
    by (auto simp: gthen_def gbind_def monitor_append)
qed

section \<open>Framing\<close>

text \<open>A reader of the text: lines end with a newline, and a frame is an event line, a data line and an
  empty line.\<close>

definition read_line :: "pystr \<Rightarrow> pystr \<times> pystr" where
  "read_line s = (takeWhile (\<lambda>c. c \<noteq> newline_char) s, drop 1 (dropWhile (\<lambda>c. c \<noteq> newline_char) s))"

function read_frames :: "pystr \<Rightarrow> (pystr \<times> pystr) list option" where
  "read_frames s =
     (if s = [] then Some []
      else
        let (event_line, s1) = read_line s; (data_line, s2) = read_line s1; (empty_line, s3) = read_line s2
        in if prefix (lit ''event: '') event_line \<and> prefix (lit ''data: '') data_line \<and> empty_line = []
           then map_option (Cons (drop 7 event_line, drop 6 data_line)) (read_frames s3) else None)"
  by pat_completeness auto
termination
proof (relation "measure length", simp, goal_cases)
  case (1 s p1 e1 s1 p2 e2 s2 p3 e3 s3)
  have "length (snd (read_line t)) \<le> length t - 1" for t
    by (simp add: read_line_def length_dropWhile_le diff_le_mono)
  from this [of s] this [of s1] this [of s2] 1 show ?case by (cases s) (auto simp: prod_eq_iff)
qed

declare read_frames.simps [simp del]

definition event_frame :: "sse_event \<Rightarrow> pystr \<times> pystr" where
  "event_frame e =
     (lit (event_type e), json_dumps (PDict ((lit ''type'', PStr (lit (event_type e))) # event_fields e)))"

lemma read_line_line: "newline_char \<notin> set l \<Longrightarrow> read_line (l @ newline_char # s) = (l, s)"
  by (induction l) (auto simp: read_line_def)

lemma printable_no_newline: "list_all printable s \<Longrightarrow> newline_char \<notin> set s"
  by (auto simp: list_all_iff newline_char_def printable_Ch)

lemma event_fields_printable: "floats_printable (PDict ((lit ''type'', PStr (lit (event_type e))) # event_fields e))"
proof -
  have "floats_printable (block_data b)" for b by (cases b) simp_all
  moreover have "floats_printable (delta_data d)" for d by (cases d) simp_all
  ultimately show ?thesis by (cases e) simp_all
qed

lemma event_type_no_newline: "newline_char \<notin> set (lit (event_type e))"
  by (cases e) (simp_all add: lit_def newline_char_def)

text \<open>The text of any sequence of events, read line by line, gives back exactly the type and the JSON of
  each event, in order: no content can break a frame.\<close>
theorem frames_roundtrip: "read_frames (concat (map format_event es)) = Some (map event_frame es)"
proof (induction es)
  case Nil
  show ?case by (simp add: read_frames.simps)
next
  case (Cons e es)
  let ?l1 = "lit ''event: '' @ lit (event_type e)" and ?j = "snd (event_frame e)"
  let ?l2 = "lit ''data: '' @ ?j" and ?rest = "concat (map format_event es)"
  have framed: "format_event e @ ?rest = ?l1 @ newline_char # ?l2 @ newline_char # [] @ newline_char # ?rest"
    by (simp add: format_event_def event_frame_def newline_def newline_char_def)
  have "newline_char \<notin> set ?l1"
    using event_type_no_newline [of e] by (simp add: lit_def newline_char_def)
  moreover have "newline_char \<notin> set ?j"
    unfolding event_frame_def snd_conv
    by (rule printable_no_newline [OF json_dumps_printable [OF event_fields_printable]])
  then have "newline_char \<notin> set ?l2" by (simp add: lit_def newline_char_def)
  ultimately have lines: "read_line (?l1 @ newline_char # t) = (?l1, t)" "read_line (?l2 @ newline_char # t) = (?l2, t)"
    "read_line ([] @ newline_char # t) = ([], t)" for t
    by (auto intro: read_line_line simp del: append.simps append_assoc)
  have "?l1 @ newline_char # t \<noteq> []" for t by simp
  moreover have "drop 7 ?l1 = lit (event_type e)" "drop 6 ?l2 = ?j" by (simp_all add: lit_def)
  ultimately have "read_frames (?l1 @ newline_char # ?l2 @ newline_char # [] @ newline_char # ?rest)
      = map_option (Cons (lit (event_type e), ?j)) (read_frames ?rest)"
    by (subst read_frames.simps) (simp only: lines Let_def prod.case if_False, simp)
  with Cons.IH framed show ?case by (simp add: event_frame_def)
qed

end
