(* ===== verification/ProviderRateLimit.thy ===== *)
theory ProviderRateLimit
  imports RollingWindow
begin

text \<open>
  \<open>providers/rate_limit.py\<close>: \<open>GlobalRateLimiter\<close>, the limiter every provider request passes. It
  combines a rolling window of granted slots (proactive), a block set after a 429 answer
  (reactive), a semaphore that caps the open streams, and the retry loop with exponential backoff.
  Clock readings, the outcomes of the wrapped call and the random jitter are inputs.
\<close>

section \<open>State\<close>

record provider_limiter =
  pl_rate_limit :: int
  pl_rate_window :: rat
  pl_request_times :: "rat list"
  pl_blocked_until :: rat
  pl_free_slots :: int \<comment> \<open>the value of \<open>_concurrency_sem\<close>\<close>

definition provider_init :: "int \<Rightarrow> rat \<Rightarrow> int \<Rightarrow> provider_limiter result" where
  "provider_init limit window concurrency =
     (if limit \<le> 0 then Inl (ValueError (lit ''rate_limit must be > 0''))
      else if window \<le> 0 then Inl (ValueError (lit ''rate_window must be > 0''))
      else if concurrency \<le> 0 then Inl (ValueError (lit ''max_concurrency must be > 0''))
      else Inr \<lparr>pl_rate_limit = limit, pl_rate_window = window, pl_request_times = [],
                pl_blocked_until = 0, pl_free_slots = concurrency\<rparr>)"

text \<open>The class attribute \<open>_instance\<close> and \<open>get_instance\<close>: the arguments count on first creation
  only, and \<open>None\<close> or zero fall back to the defaults.\<close>

definition provider_get_instance ::
    "provider_limiter option \<Rightarrow> int option \<Rightarrow> rat option \<Rightarrow> int
       \<Rightarrow> (provider_limiter option \<times> provider_limiter) result" where
  "provider_get_instance inst limit window concurrency =
     (case inst of
        Some l \<Rightarrow> Inr (inst, l)
      | None \<Rightarrow>
          rbind (provider_init (case limit of None \<Rightarrow> 40 | Some n \<Rightarrow> if n = 0 then 40 else n)
                   (case window of None \<Rightarrow> 60 | Some w \<Rightarrow> if w = 0 then 60 else w) concurrency)
            (\<lambda>l. Inr (Some l, l)))"

definition provider_reset_instance :: "provider_limiter option" where
  "provider_reset_instance = None"

section \<open>The proactive window\<close>

text \<open>One round of the loop of \<open>_acquire_proactive_slot\<close>, the part that runs under the lock: a
  grant (\<open>None\<close>) or the time to sleep before the next round.\<close>

definition slot_attempt :: "rat \<Rightarrow> provider_limiter \<Rightarrow> provider_limiter \<times> rat option" where
  "slot_attempt now l =
     (let times = dropWhile (\<lambda>t. t \<le> now - pl_rate_window l) (pl_request_times l)
      in if int (length times) < pl_rate_limit l
         then (l\<lparr>pl_request_times := times @ [now]\<rparr>, None)
         else (l\<lparr>pl_request_times := times\<rparr>, Some (max 0 ((hd times + pl_rate_window l) - now))))"

text \<open>The round seen from outside: was the slot granted, and what wait does a refusal announce.\<close>

definition try_slot :: "rat \<Rightarrow> provider_limiter \<Rightarrow> provider_limiter \<times> bool" where
  "try_slot now l = (fst (slot_attempt now l), snd (slot_attempt now l) = None)"

definition slot_wait :: "rat \<Rightarrow> provider_limiter \<Rightarrow> rat" where
  "slot_wait now l = (case snd (slot_attempt now l) of None \<Rightarrow> 0 | Some w \<Rightarrow> w)"

text \<open>\<open>_acquire_proactive_slot\<close>: the rounds follow each other, with the sleeps in between, until one
  is granted.\<close>

definition acquire_proactive_slot :: "rat list \<Rightarrow> provider_limiter \<Rightarrow> (provider_limiter \<times> rat) option" where
  "acquire_proactive_slot readings l = acquire_loop try_slot readings l"

interpretation provider: rolling_window_wait
  try_slot pl_request_times "\<lambda>l. nat (pl_rate_limit l)" pl_rate_window slot_wait
  by unfold_locales (auto simp: try_slot_def slot_wait_def slot_attempt_def Let_def split: if_splits)

section \<open>The reactive block\<close>

text \<open>\<open>set_blocked\<close>, \<open>is_blocked\<close> and \<open>remaining_wait\<close>, each with its own clock reading.\<close>

definition set_blocked :: "rat \<Rightarrow> rat \<Rightarrow> provider_limiter \<Rightarrow> provider_limiter" where
  "set_blocked now seconds l = l\<lparr>pl_blocked_until := now + seconds\<rparr>"

definition is_blocked :: "rat \<Rightarrow> provider_limiter \<Rightarrow> bool" where
  "is_blocked now l \<longleftrightarrow> now < pl_blocked_until l"

definition remaining_wait :: "rat \<Rightarrow> provider_limiter \<Rightarrow> rat" where
  "remaining_wait now l = max 0 (pl_blocked_until l - now)"

text \<open>\<open>wait_if_blocked\<close>: the sleep of the reactive check (\<open>None\<close> if there is none), then the slot.\<close>

definition wait_if_blocked ::
    "rat \<Rightarrow> rat list \<Rightarrow> provider_limiter \<Rightarrow> (provider_limiter \<times> rat option) option" where
  "wait_if_blocked now readings l =
     (let waited = (if now < pl_blocked_until l then Some (pl_blocked_until l - now) else None)
      in map_option (\<lambda>(l', granted). (l', waited)) (acquire_proactive_slot readings l))"

section \<open>Retrying\<close>

text \<open>What the wrapped call does: it returns, raises \<open>openai.RateLimitError\<close> (the 429), or raises
  anything else.\<close>

datatype 'a outcome = Returned 'a | RateLimited pystr | Raised pystr

text \<open>The inputs of one attempt: the clock at the reactive check, the clock readings of the slot
  loop, what the call does, the jitter that is drawn, and the clock when the block is set.\<close>

record 'a attempt_env =
  at_reactive :: rat
  at_slots :: "rat list"
  at_outcome :: "'a outcome"
  at_jitter :: rat
  at_blocked :: rat

datatype 'a retry_end = Done 'a | Failed pystr | RetriesExhausted pystr | NoAttempt | StillWaiting

text \<open>\<open>execute_with_retry\<close>. The first argument of the loop counts the rounds that \<open>range\<close> still
  has, the second is \<open>attempt\<close>; the result carries the delays slept so far, newest last.\<close>

fun retry_loop ::
    "int \<Rightarrow> rat \<Rightarrow> rat \<Rightarrow> (nat \<Rightarrow> 'a attempt_env) \<Rightarrow> nat \<Rightarrow> nat \<Rightarrow> pystr option \<Rightarrow> rat list
       \<Rightarrow> provider_limiter \<Rightarrow> provider_limiter \<times> 'a retry_end \<times> rat list" where
  "retry_loop max_retries base_delay max_delay env 0 attempt last_exc delays l =
     (l, (case last_exc of None \<Rightarrow> NoAttempt | Some e \<Rightarrow> RetriesExhausted e), delays)"
| "retry_loop max_retries base_delay max_delay env (Suc rounds) attempt last_exc delays l =
     (case wait_if_blocked (at_reactive (env attempt)) (at_slots (env attempt)) l of
        None \<Rightarrow> (l, StillWaiting, delays)
      | Some (l1, _) \<Rightarrow>
          (case at_outcome (env attempt) of
             Returned a \<Rightarrow> (l1, Done a, delays)
           | Raised e \<Rightarrow> (l1, Failed e, delays)
           | RateLimited e \<Rightarrow>
               (if max_retries \<le> int attempt then (l1, RetriesExhausted e, delays)
                else let delay = min (base_delay * 2 ^ attempt) max_delay + at_jitter (env attempt)
                     in retry_loop max_retries base_delay max_delay env rounds (Suc attempt) (Some e)
                          (delays @ [delay]) (set_blocked (at_blocked (env attempt)) delay l1))))"

definition execute_with_retry ::
    "int \<Rightarrow> rat \<Rightarrow> rat \<Rightarrow> (nat \<Rightarrow> 'a attempt_env) \<Rightarrow> provider_limiter
       \<Rightarrow> provider_limiter \<times> 'a retry_end \<times> rat list" where
  "execute_with_retry max_retries base_delay max_delay env l =
     retry_loop max_retries base_delay max_delay env (nat (1 + max_retries)) 0 None [] l"

section \<open>Concurrency slots\<close>

text \<open>
  \<open>concurrency_slot\<close> as steps of the system: a stream enters when the semaphore has a free slot
  and leaves, in the \<open>finally\<close> block, whatever happened inside. The second component is the list
  of the streams that are open.
\<close>

inductive slot_step :: "provider_limiter \<times> nat list \<Rightarrow> provider_limiter \<times> nat list \<Rightarrow> bool" where
  enter: "0 < pl_free_slots l \<Longrightarrow> i \<notin> set streams \<Longrightarrow>
    slot_step (l, streams) (l\<lparr>pl_free_slots := pl_free_slots l - 1\<rparr>, i # streams)"
| leave: "i \<in> set streams \<Longrightarrow>
    slot_step (l, streams) (l\<lparr>pl_free_slots := pl_free_slots l + 1\<rparr>, remove1 i streams)"

inductive_cases slot_stepE: "slot_step (l, streams) t"

section \<open>Lemmas\<close>

lemma slot_acquire_granted:
  assumes "\<forall>x \<in> set (pl_request_times l). x \<le> t" "0 < pl_rate_limit l"
    "r \<in> set readings" "t + pl_rate_window l \<le> r"
  shows "\<exists>l' g. acquire_proactive_slot readings l = Some (l', g)"
  unfolding acquire_proactive_slot_def by (rule provider.acquire_granted) (use assms in auto)

lemma try_slot_limit: "try_slot now l = (l', ok) \<Longrightarrow> pl_rate_limit l' = pl_rate_limit l"
  by (auto simp: try_slot_def slot_attempt_def Let_def)

lemma acquire_limit:
  "acquire_proactive_slot readings l = Some (l', g) \<Longrightarrow> pl_rate_limit l' = pl_rate_limit l"
  unfolding acquire_proactive_slot_def
  by (induction readings arbitrary: l) (auto split: prod.splits bool.splits dest: try_slot_limit)

lemma acquire_times:
  assumes "acquire_proactive_slot readings l = Some (l', g)"
  shows "g \<in> set readings \<and> set (pl_request_times l') \<subseteq> insert g (set (pl_request_times l))
     \<and> pl_rate_limit l' = pl_rate_limit l \<and> pl_rate_window l' = pl_rate_window l"
  using provider.acquire_frame [of readings l l' g] acquire_limit [OF assms] assms
  by (simp add: acquire_proactive_slot_def)

text \<open>\<open>responsive env l\<close>: the clock never runs backwards, and each slot loop is given readings that
  span a whole window, so that it does not starve.\<close>

definition responsive :: "(nat \<Rightarrow> 'a attempt_env) \<Rightarrow> provider_limiter \<Rightarrow> bool" where
  "responsive env l \<longleftrightarrow>
     0 < pl_rate_limit l
     \<and> (\<exists>start. (\<forall>x \<in> set (pl_request_times l). x \<le> start 0)
         \<and> (\<forall>k. (\<exists>r \<in> set (at_slots (env k)). start k + pl_rate_window l \<le> r)
             \<and> (\<forall>r \<in> set (at_slots (env k)). r \<le> start (Suc k)) \<and> start k \<le> start (Suc k)))"

text \<open>What the retry loop is meant to compute: the first outcome that is not a 429, and the last
  429 when all attempts met one.\<close>

fun retry_spec :: "(nat \<Rightarrow> 'a outcome) \<Rightarrow> nat \<Rightarrow> nat \<Rightarrow> 'a retry_end" where
  "retry_spec out 0 attempt =
     (case out attempt of Returned a \<Rightarrow> Done a | Raised e \<Rightarrow> Failed e | RateLimited e \<Rightarrow> RetriesExhausted e)"
| "retry_spec out (Suc left) attempt =
     (case out attempt of Returned a \<Rightarrow> Done a | Raised e \<Rightarrow> Failed e
      | RateLimited e \<Rightarrow> retry_spec out left (Suc attempt))"

lemma retry_loop_correct:
  assumes "\<forall>x \<in> set (pl_request_times l). x \<le> start attempt" "0 < pl_rate_limit l"
    and "\<forall>k. (\<exists>r \<in> set (at_slots (env k)). start k + pl_rate_window l \<le> r)
             \<and> (\<forall>r \<in> set (at_slots (env k)). r \<le> start (Suc k)) \<and> start k \<le> start (Suc k)"
    and "int attempt + int rounds = max_retries"
  shows "\<exists>l' delays'. retry_loop max_retries base_delay max_delay env (Suc rounds) attempt e delays l
      = (l', retry_spec (\<lambda>k. at_outcome (env k)) rounds attempt, delays @ delays')
     \<and> length delays' \<le> rounds
     \<and> (\<forall>k < length delays'. delays' ! k
          = min (base_delay * 2 ^ (attempt + k)) max_delay + at_jitter (env (attempt + k)))"
  using assms
proof (induction rounds arbitrary: attempt e delays l)
  case 0
  from slot_acquire_granted [OF 0(1,2)] 0(3)
  obtain l1 g where "acquire_proactive_slot (at_slots (env attempt)) l = Some (l1, g)" by blast
  with 0 show ?case
    by (auto simp: wait_if_blocked_def Let_def split: outcome.splits)
next
  case (Suc rounds)
  from slot_acquire_granted [OF Suc.prems(1,2)] Suc.prems(3)
  obtain l1 g where acq: "acquire_proactive_slot (at_slots (env attempt)) l = Some (l1, g)" by blast
  show ?case
  proof (cases "at_outcome (env attempt)")
    case (RateLimited x)
    let ?delay = "min (base_delay * 2 ^ attempt) max_delay + at_jitter (env attempt)"
    let ?l = "set_blocked (at_blocked (env attempt)) ?delay l1"
    have "start attempt \<le> start (Suc attempt)" "g \<le> start (Suc attempt)"
      using Suc.prems(3) acquire_times [OF acq] by auto
    then have old: "\<forall>x \<in> set (pl_request_times ?l). x \<le> start (Suc attempt)"
      using acquire_times [OF acq] Suc.prems(1) by (fastforce simp: set_blocked_def)
    have same: "pl_rate_limit ?l = pl_rate_limit l" "pl_rate_window ?l = pl_rate_window l"
      using acquire_times [OF acq] by (simp_all add: set_blocked_def)
    from Suc.IH [OF old, of "Some x" "delays @ [?delay]"] Suc.prems same
    obtain l' ds where r: "retry_loop max_retries base_delay max_delay env (Suc rounds) (Suc attempt)
          (Some x) (delays @ [?delay]) ?l
        = (l', retry_spec (\<lambda>k. at_outcome (env k)) rounds (Suc attempt), (delays @ [?delay]) @ ds)"
      and len: "length ds \<le> rounds"
      and nth: "\<forall>k < length ds. ds ! k
          = min (base_delay * 2 ^ (Suc attempt + k)) max_delay + at_jitter (env (Suc attempt + k))"
      by auto
    have "\<forall>k < length (?delay # ds). (?delay # ds) ! k
        = min (base_delay * 2 ^ (attempt + k)) max_delay + at_jitter (env (attempt + k))"
      using nth by (auto simp: nth_Cons split: nat.splits)
    moreover have "retry_loop max_retries base_delay max_delay env (Suc (Suc rounds)) attempt e delays l
        = (l', retry_spec (\<lambda>k. at_outcome (env k)) (Suc rounds) attempt, delays @ ?delay # ds)"
      using acq RateLimited r Suc.prems(4) by (simp add: wait_if_blocked_def Let_def)
    ultimately show ?thesis using len by (intro exI [of _ l'] exI [of _ "?delay # ds"]) simp
  qed (use acq in \<open>auto simp: wait_if_blocked_def Let_def\<close>)
qed

lemma slot_step_balance:
  "slot_step s t \<Longrightarrow> distinct (snd s) \<Longrightarrow> 0 \<le> pl_free_slots (fst s) \<Longrightarrow>
     pl_free_slots (fst t) + int (length (snd t)) = pl_free_slots (fst s) + int (length (snd s))
     \<and> distinct (snd t) \<and> 0 \<le> pl_free_slots (fst t)"
proof (induction rule: slot_step.induct)
  case (leave i streams l)
  then have "length streams = Suc (length (remove1 i streams))"
    using length_pos_if_in_set [of i streams] by (simp add: length_remove1)
  with leave show ?case by (simp add: distinct_remove1)
qed simp

lemma slot_steps_balance:
  assumes "slot_step\<^sup>*\<^sup>* s t" "distinct (snd s)" "0 \<le> pl_free_slots (fst s)"
  shows "pl_free_slots (fst t) + int (length (snd t)) = pl_free_slots (fst s) + int (length (snd s))
     \<and> distinct (snd t) \<and> 0 \<le> pl_free_slots (fst t)"
  using assms
proof (induction rule: rtranclp_induct)
  case (step t u)
  then have "pl_free_slots (fst t) + int (length (snd t)) = pl_free_slots (fst s) + int (length (snd s))"
    "distinct (snd t)" "0 \<le> pl_free_slots (fst t)" by auto
  with slot_step_balance [OF step.hyps(2)] show ?case by auto
qed simp

section \<open>Properties\<close>

text \<open>C6: however many tasks compete for slots, and whenever they try, every window of the
  configured length contains at most \<open>rate_limit\<close> granted slots.\<close>

theorem provider_window_bound:
  assumes "provider_init limit window concurrency = Inr l"
    and "sorted ts" and "run_attempts try_slot ts l = (l', granted)"
  shows "length (in_window window t granted) \<le> nat limit"
proof -
  have "pl_request_times l = []" "pl_rate_window l = window" "pl_rate_limit l = limit"
    using assms(1) by (auto simp: provider_init_def split: if_splits)
  with provider.window_bound [OF _ assms(2,3)] show ?thesis by simp
qed

theorem provider_window_bound_witness:
  "\<exists>l l' granted. provider_init 2 10 5 = Inr l
     \<and> run_attempts try_slot [1, 2, 3, 12] l = (l', granted) \<and> granted = [1, 2, 12]
     \<and> length (in_window 10 12 granted) \<le> nat 2"
proof -
  obtain l where l: "provider_init 2 10 5 = Inr l" "pl_request_times l = []" "pl_rate_window l = 10"
      "pl_rate_limit l = 2"
    by (simp add: provider_init_def)
  obtain l' granted where r: "run_attempts try_slot [1, 2, 3, 12] l = (l', granted)" by force
  then have "granted = [1, 2, 12]"
    using l by (auto simp: try_slot_def slot_attempt_def Let_def split: prod.splits)
  with provider_window_bound [OF l(1) _ r, of 12] l(1) r show ?thesis by auto
qed

text \<open>A refused task that sleeps for the time it is told, and retries before anybody else is
  granted a slot, gets one; so a lone caller waits at most once.\<close>

theorem provider_slot_after_wait:
  assumes "length (pl_request_times l) \<le> nat (pl_rate_limit l)" and "0 < pl_rate_limit l"
    and "slot_attempt now l = (l1, Some wait)" and "now + wait \<le> now'"
  shows "\<exists>l2. slot_attempt now' l1 = (l2, None)"
proof -
  have t: "try_slot now l = (l1, False)" and "slot_wait now l = wait"
    using assms(3) by (simp_all add: try_slot_def slot_wait_def)
  with provider.granted_after_wait [OF assms(1) _ t, of now' "fst (slot_attempt now' l1)"
      "snd (slot_attempt now' l1) = None"] assms(2,4)
  show ?thesis by (cases "slot_attempt now' l1") (simp add: try_slot_def)
qed

theorem provider_slot_after_wait_witness:
  "\<exists>l2. slot_attempt 11 \<lparr>pl_rate_limit = 1, pl_rate_window = 10, pl_request_times = [1],
      pl_blocked_until = 0, pl_free_slots = 5\<rparr> = (l2, None)"
  by (rule provider_slot_after_wait [where now = 4 and wait = 7 and
        l = "\<lparr>pl_rate_limit = 1, pl_rate_window = 10, pl_request_times = [1],
      pl_blocked_until = 0, pl_free_slots = 5\<rparr>"]) (simp_all add: slot_attempt_def)

text \<open>\<open>execute_with_retry\<close> with a non-negative retry budget returns the first answer that is
  not a 429, raises the first other error, or re-raises the last 429 after \<open>max_retries + 1\<close>
  attempts. It sleeps at most \<open>max_retries\<close> times, and the \<open>k\<close>-th delay is the capped exponential
  plus the jitter.\<close>

theorem execute_with_retry_result:
  assumes "0 \<le> max_retries" and "responsive env l"
  shows "\<exists>l' delays. execute_with_retry max_retries base_delay max_delay env l
      = (l', retry_spec (\<lambda>k. at_outcome (env k)) (nat max_retries) 0, delays)
     \<and> length delays \<le> nat max_retries
     \<and> (\<forall>k < length delays. delays ! k = min (base_delay * 2 ^ k) max_delay + at_jitter (env k))"
proof -
  from assms(2) obtain start where "0 < pl_rate_limit l" "\<forall>x \<in> set (pl_request_times l). x \<le> start 0"
    "\<forall>k. (\<exists>r \<in> set (at_slots (env k)). start k + pl_rate_window l \<le> r)
       \<and> (\<forall>r \<in> set (at_slots (env k)). r \<le> start (Suc k)) \<and> start k \<le> start (Suc k)"
    unfolding responsive_def by blast
  from retry_loop_correct [OF this(2,1,3), of "nat max_retries" max_retries base_delay max_delay None "[]"]
    assms(1)
  show ?thesis
    by (auto simp: execute_with_retry_def nat_add_distrib)
qed

definition retry_example :: "nat \<Rightarrow> nat attempt_env" where
  "retry_example k = \<lparr>at_reactive = 10 * of_nat k, at_slots = [10 * of_nat k, 10 * of_nat k + 10],
     at_outcome = (if k = 0 then RateLimited [] else Returned 7), at_jitter = 1 / 2,
     at_blocked = 10 * of_nat k\<rparr>"

theorem execute_with_retry_result_witness:
  "\<exists>l' delays. execute_with_retry 3 2 60 retry_example
        \<lparr>pl_rate_limit = 1, pl_rate_window = 10, pl_request_times = [], pl_blocked_until = 0,
          pl_free_slots = 5\<rparr> = (l', Done 7, delays)"
proof -
  let ?l = "\<lparr>pl_rate_limit = 1, pl_rate_window = 10, pl_request_times = [], pl_blocked_until = 0,
          pl_free_slots = 5\<rparr>"
  have "responsive retry_example ?l"
    unfolding responsive_def
    by (auto simp: retry_example_def algebra_simps intro!: exI [of _ "\<lambda>k. 10 * of_nat k"])
  from execute_with_retry_result [OF _ this, of 3 2 60] show ?thesis
    by (auto simp: retry_example_def numeral_3_eq_3)
qed

text \<open>Under any interleaving of streams that enter and leave, never more than
  \<open>max_concurrency\<close> of them are open, and the semaphore counts exactly the free places.\<close>

theorem concurrency_cap:
  assumes "provider_init limit window concurrency = Inr l"
    and "slot_step\<^sup>*\<^sup>* (l, []) (l', streams)"
  shows "int (length streams) \<le> concurrency \<and> pl_free_slots l' = concurrency - int (length streams)"
proof -
  have "pl_free_slots l = concurrency" "0 < concurrency"
    using assms(1) by (auto simp: provider_init_def split: if_splits)
  with slot_steps_balance [OF assms(2)] show ?thesis by simp
qed

theorem concurrency_cap_witness:
  "\<exists>l l'. provider_init 40 60 1 = Inr l \<and> slot_step\<^sup>*\<^sup>* (l, []) (l', [7])
     \<and> int (length [7 :: nat]) \<le> 1 \<and> pl_free_slots l' = 1 - int (length [7 :: nat])"
proof -
  obtain l where l: "provider_init 40 60 1 = Inr l" "pl_free_slots l = 1"
    by (simp add: provider_init_def)
  then have s: "slot_step\<^sup>*\<^sup>* (l, []) (l\<lparr>pl_free_slots := pl_free_slots l - 1\<rparr>, [7])"
    by (intro r_into_rtranclp slot_step.enter) auto
  from concurrency_cap [OF l(1) s] l(1) s show ?thesis by blast
qed

end
