(* ===== verification/ErrorMapping.thy ===== *)
theory ErrorMapping
  imports ProviderRateLimit Json
begin

text \<open>
  \<open>providers/exceptions.py\<close> and \<open>providers/common/error_mapping.py\<close>: the exceptions of the providers,
  the message a user reads, and the mapping from the exceptions of the HTTP libraries. An exception is
  what the code reads of it: the names of its class and superclasses (what \<open>isinstance\<close> looks at), its
  text, and its status codes. So nothing is assumed of the class hierarchy of the libraries.
\<close>

section \<open>Exceptions\<close>

record exn =
  ex_classes :: "string list"
  ex_str :: pystr
  ex_status_code :: "int option" \<comment> \<open>the attribute \<open>status_code\<close>, if there is one\<close>
  ex_response_status :: int \<comment> \<open>\<open>response.status_code\<close> of an \<open>HTTPStatusError\<close>\<close>
  ex_error_type :: pystr
  ex_raw :: "pystr option"

definition isinstance :: "exn \<Rightarrow> string list \<Rightarrow> bool" where
  "isinstance e cs \<longleftrightarrow> list_ex (\<lambda>c. c \<in> set (ex_classes e)) cs"

definition provider_error :: "string list \<Rightarrow> pystr \<Rightarrow> int \<Rightarrow> string \<Rightarrow> pystr option \<Rightarrow> exn" where
  "provider_error classes message status type raw =
     \<lparr>ex_classes = classes @ [''ProviderError''], ex_str = message, ex_status_code = Some status,
      ex_response_status = 0, ex_error_type = lit type, ex_raw = raw\<rparr>"

definition to_anthropic_format :: "exn \<Rightarrow> pyval" where
  "to_anthropic_format e =
     PDict [(lit ''type'', PStr (lit ''error'')),
       (lit ''error'', PDict [(lit ''type'', PStr (ex_error_type e)), (lit ''message'', PStr (ex_str e))])]"

definition authentication_error :: "pystr \<Rightarrow> pystr \<Rightarrow> exn" where
  "authentication_error message raw =
     provider_error [''AuthenticationError''] message 401 ''authentication_error'' (Some raw)"

definition invalid_request_error :: "pystr \<Rightarrow> pystr \<Rightarrow> exn" where
  "invalid_request_error message raw =
     provider_error [''InvalidRequestError''] message 400 ''invalid_request_error'' (Some raw)"

definition rate_limit_error :: "pystr \<Rightarrow> pystr \<Rightarrow> exn" where
  "rate_limit_error message raw =
     provider_error [''RateLimitError''] message 429 ''rate_limit_error'' (Some raw)"

definition overloaded_error :: "pystr \<Rightarrow> pystr \<Rightarrow> exn" where
  "overloaded_error message raw =
     provider_error [''OverloadedError''] message 529 ''overloaded_error'' (Some raw)"

definition api_error :: "pystr \<Rightarrow> int \<Rightarrow> pystr \<Rightarrow> exn" where
  "api_error message status raw = provider_error [''APIError''] message status ''api_error'' (Some raw)"

section \<open>Messages\<close>

text \<open>The read timeout is given as the format \<open>g\<close> prints it.\<close>

definition timed_out :: "pystr option \<Rightarrow> string \<Rightarrow> pystr" where
  "timed_out read_timeout otherwise =
     (case read_timeout of
        Some t \<Rightarrow> lit ''Provider request timed out after '' @ t @ lit ''s.''
      | None \<Rightarrow> lit otherwise)"

definition get_user_facing_error_message :: "exn \<Rightarrow> pystr option \<Rightarrow> pystr" where
  "get_user_facing_error_message e read_timeout =
     (let message = strip (ex_str e)
      in if message \<noteq> [] then message
         else if isinstance e [''httpx.ReadTimeout''] then timed_out read_timeout ''Provider request timed out.''
         else if isinstance e [''httpx.ConnectTimeout''] then lit ''Could not connect to provider.''
         else if isinstance e [''TimeoutError''] then timed_out read_timeout ''Request timed out.''
         else if isinstance e [''RateLimitError'', ''openai.RateLimitError'']
         then lit ''Provider rate limit reached. Please retry shortly.''
         else if isinstance e [''AuthenticationError'', ''openai.AuthenticationError'']
         then lit ''Provider authentication failed. Check API key.''
         else if isinstance e [''InvalidRequestError'', ''openai.BadRequestError'']
         then lit ''Invalid request sent to provider.''
         else if isinstance e [''OverloadedError''] then lit ''Provider is currently overloaded. Please retry.''
         else if isinstance e [''APIError'']
         then (if ex_status_code e \<in> {Some 502, Some 503, Some 504}
               then lit ''Provider is temporarily unavailable. Please retry.''
               else lit ''Provider API request failed.'')
         else if isinstance e [''ProviderError''] then lit ''Provider request failed.''
         else lit ''Provider request failed unexpectedly.'')"

definition append_request_id :: "pystr \<Rightarrow> pystr option \<Rightarrow> pystr" where
  "append_request_id message request_id =
     (let base = str_or (strip message) (lit ''Provider request failed unexpectedly.'')
      in case request_id of
           None \<Rightarrow> base
         | Some r \<Rightarrow> if r = [] then base else base @ lit '' (request_id='' @ r @ lit '')'')"

section \<open>Mapping\<close>

text \<open>\<open>map_error\<close> reads the clock if it blocks the limiter of the process.\<close>

definition map_error :: "rat \<Rightarrow> exn \<Rightarrow> provider_limiter \<Rightarrow> exn \<times> provider_limiter" where
  "map_error now e l =
     (let message = get_user_facing_error_message e None; raw = ex_str e; status = ex_response_status e
      in if isinstance e [''openai.AuthenticationError''] then (authentication_error message raw, l)
         else if isinstance e [''openai.RateLimitError''] then (rate_limit_error message raw, set_blocked now 60 l)
         else if isinstance e [''openai.BadRequestError''] then (invalid_request_error message raw, l)
         else if isinstance e [''openai.InternalServerError'']
         then (if contains (lower raw) (lit ''overloaded'') \<or> contains (lower raw) (lit ''capacity'')
               then (overloaded_error message raw, l)
               else (api_error message 500 raw, l))
         else if isinstance e [''openai.APIError'']
         then (api_error message (case ex_status_code e of None \<Rightarrow> 500 | Some s \<Rightarrow> s) raw, l)
         else if isinstance e [''httpx.HTTPStatusError'']
         then (if status \<in> {401, 403} then (authentication_error message raw, l)
               else if status = 429 then (rate_limit_error message raw, set_blocked now 60 l)
               else if status = 400 then (invalid_request_error message raw, l)
               else if status \<ge> 500
               then (if status \<in> {502, 503, 504} then (overloaded_error message raw, l)
                     else (api_error message status raw, l))
               else (api_error message status raw, l))
         else (e, l))"

section \<open>Properties\<close>

lemma strip_eq_Nil: "strip s = [] \<longleftrightarrow> (\<forall>c \<in> set s. is_space c)"
proof -
  have "(\<forall>c \<in> set (dropWhile is_space s). is_space c) \<longleftrightarrow> (\<forall>c \<in> set s. is_space c)"
    by (induction s) auto
  then show ?thesis by (simp add: strip_def rstrip_def lstrip_def dropWhile_eq_Nil_conv)
qed

lemma strip_not_Nil_I: "c \<in> set s \<Longrightarrow> \<not> is_space c \<Longrightarrow> strip s \<noteq> []"
  by (auto simp: strip_eq_Nil)

lemma strip_has_char: "strip s \<noteq> [] \<Longrightarrow> \<exists>c \<in> set (strip s). \<not> is_space c"
proof -
  assume n: "strip s \<noteq> []"
  let ?u = "dropWhile is_space (rev (lstrip s))"
  from n have "?u \<noteq> []" by (simp add: strip_def rstrip_def)
  then have "\<not> is_space (hd ?u)" "hd ?u \<in> set ?u"
    by (simp_all add: hd_dropWhile)
  then show ?thesis by (auto simp: strip_def rstrip_def)
qed

definition starts_visibly :: "pystr \<Rightarrow> bool" where
  "starts_visibly s \<longleftrightarrow> s \<noteq> [] \<and> \<not> is_space (hd s)"

lemma starts_visibly_lit: "starts_visibly (lit (x # xs)) \<longleftrightarrow> \<not> is_space (Ch x)"
  by (simp add: starts_visibly_def lit_def)

lemma starts_visibly_timed_out:
  "starts_visibly (timed_out t (CHR ''P'' # xs))" "starts_visibly (timed_out t (CHR ''R'' # xs))"
  by (simp_all add: timed_out_def starts_visibly_def lit_def split: option.split)

lemma user_message_not_blank: "strip (get_user_facing_error_message e t) \<noteq> []"
proof -
  let ?m = "get_user_facing_error_message e t"
  have "?m \<noteq> [] \<and> (\<exists>c \<in> set ?m. \<not> is_space c)"
  proof (cases "strip (ex_str e) = []")
    case True
    have "starts_visibly ?m"
      unfolding get_user_facing_error_message_def Let_def True simp_thms if_False
      by (intro if_intro [where P = starts_visibly]) (simp_all add: starts_visibly_lit starts_visibly_timed_out)
    then show ?thesis by (auto simp: starts_visibly_def)
  next
    case False
    with strip_has_char [OF False] show ?thesis
      by (simp add: get_user_facing_error_message_def)
  qed
  then show ?thesis using strip_not_Nil_I by blast
qed

text \<open>An error message shown to a user is never blank, whatever the exception, its text and the
  timeout are, and the identifier of the request ends the message when there is one.\<close>
theorem error_message_readable:
  "strip (append_request_id (get_user_facing_error_message e t) request_id) \<noteq> []
   \<and> (request_id = Some r \<and> r \<noteq> [] \<longrightarrow>
        suffix (lit ''(request_id='' @ r @ lit '')'')
          (append_request_id (get_user_facing_error_message e t) request_id))"
proof -
  let ?m = "get_user_facing_error_message e t"
  obtain c where c: "c \<in> set (strip ?m)" "\<not> is_space c"
    using strip_has_char [OF user_message_not_blank] by blast
  then have "c \<in> set (append_request_id ?m request_id)"
    by (auto simp: append_request_id_def str_or_def Let_def split: option.splits)
  with c(2) have "strip (append_request_id ?m request_id) \<noteq> []"
    using strip_not_Nil_I by blast
  moreover have "lit '' (request_id='' = lit '' '' @ lit ''(request_id=''" by (simp add: lit_def)
  then have "suffix (lit ''(request_id='' @ r @ lit '')'') (append_request_id ?m (Some r))" if "r \<noteq> []"
    using that by (simp add: append_request_id_def suffix_def)
  ultimately show ?thesis by blast
qed

text \<open>An exception that carries no text at all.\<close>

definition silent_exn :: "string list \<Rightarrow> int \<Rightarrow> exn" where
  "silent_exn classes status =
     \<lparr>ex_classes = classes, ex_str = [], ex_status_code = None, ex_response_status = status,
      ex_error_type = [], ex_raw = None\<rparr>"

theorem error_message_readable_witness:
  "suffix (lit ''(request_id='' @ lit ''r1'' @ lit '')'')
     (append_request_id (get_user_facing_error_message (silent_exn [''TimeoutError''] 0) None) (Some (lit ''r1'')))"
  using error_message_readable [of "silent_exn [''TimeoutError''] 0" None "Some (lit ''r1'')" "lit ''r1''"] by simp

text \<open>An exception that \<open>map_error\<close> replaces becomes an error of the providers with a message that
  is not blank; the limiter of the process is blocked for 60 seconds exactly when the replacement is a
  rate limit error, and any other exception is returned as it is and leaves the limiter alone.\<close>
theorem map_error_correct:
  assumes "map_error now e l = (e', l')"
  shows "if e' = e \<and> l' = l then True
         else isinstance e' [''ProviderError''] \<and> strip (ex_str e') \<noteq> [] \<and> ex_raw e' = Some (ex_str e)
           \<and> l' = (if isinstance e' [''RateLimitError''] then set_blocked now 60 l else l)
           \<and> (isinstance e' [''RateLimitError''] \<longrightarrow> ex_status_code e' = Some 429)
           \<and> (isinstance e' [''AuthenticationError''] \<longrightarrow> ex_status_code e' = Some 401)
           \<and> (isinstance e' [''InvalidRequestError''] \<longrightarrow> ex_status_code e' = Some 400)
           \<and> (isinstance e' [''OverloadedError''] \<longrightarrow> ex_status_code e' = Some 529)"
proof -
  let ?m = "get_user_facing_error_message e None"
  let ?results = "{(e, l), (authentication_error ?m (ex_str e), l),
      (rate_limit_error ?m (ex_str e), set_blocked now 60 l), (invalid_request_error ?m (ex_str e), l),
      (overloaded_error ?m (ex_str e), l)} \<union> range (\<lambda>s. (api_error ?m s (ex_str e), l))"
  have "map_error now e l \<in> ?results"
    unfolding map_error_def Let_def by (intro if_intro [where P = "\<lambda>r. r \<in> ?results"]) simp_all
  then consider "(e', l') = (e, l)"
    | "(e', l') = (authentication_error ?m (ex_str e), l)"
    | "(e', l') = (rate_limit_error ?m (ex_str e), set_blocked now 60 l)"
    | "(e', l') = (invalid_request_error ?m (ex_str e), l)"
    | "(e', l') = (overloaded_error ?m (ex_str e), l)"
    | s where "(e', l') = (api_error ?m s (ex_str e), l)"
    unfolding assms by auto
  then show ?thesis
    by cases (auto simp: authentication_error_def rate_limit_error_def invalid_request_error_def
      overloaded_error_def api_error_def provider_error_def isinstance_def user_message_not_blank)
qed

definition idle_limiter :: provider_limiter where
  "idle_limiter = \<lparr>pl_rate_limit = 40, pl_rate_window = 60, pl_request_times = [], pl_blocked_until = 0, pl_free_slots = 5\<rparr>"

theorem map_error_correct_witness:
  "(let (e', l') = map_error 7 (silent_exn [''httpx.HTTPStatusError''] 429) idle_limiter
    in isinstance e' [''ProviderError''] \<and> l' = set_blocked 7 60 idle_limiter)"
proof -
  let ?e = "silent_exn [''httpx.HTTPStatusError''] 429"
  obtain e' l' where m: "map_error 7 ?e idle_limiter = (e', l')" by force
  have e': "e' = rate_limit_error (get_user_facing_error_message ?e None) []"
    using m by (auto simp: map_error_def Let_def isinstance_def silent_exn_def)
  then have "e' \<noteq> ?e" "isinstance e' [''RateLimitError'']"
    by (simp_all add: rate_limit_error_def provider_error_def silent_exn_def isinstance_def)
  with map_error_correct [OF m] m show ?thesis by simp
qed

end
