(* ===== verification/ThinkParser.thy ===== *)
theory ThinkParser
  imports Prelude
begin

text \<open>
  \<open>providers/common/think_parser.py\<close>: the streaming parser that separates the reasoning between
  \<open><think>\<close> and \<open></think>\<close> from the text, whatever way the stream is cut into chunks.
\<close>

section \<open>The parser\<close>

datatype content_type = TEXT | THINKING

text \<open>A chunk is never empty; its type and its content.\<close>

type_synonym content_chunk = "content_type \<times> pystr"

definition lt :: pychar where
  "lt = Ch (CHR ''<'')"

definition OPEN_TAG :: pystr where
  "OPEN_TAG = lit ''<think>''"

definition CLOSE_TAG :: pystr where
  "CLOSE_TAG = lit ''</think>''"

record think_parser =
  tp_buffer :: pystr
  tp_in_think :: bool

definition think_init :: think_parser where
  "think_init = \<lparr>tp_buffer = [], tp_in_think = False\<rparr>"

text \<open>\<open>ContentChunk\<close> if there is something to emit.\<close>

definition chunk_of :: "content_type \<Rightarrow> pystr \<Rightarrow> content_chunk option" where
  "chunk_of ty s = (if s = [] then None else Some (ty, s))"

definition parse_outside_think :: "think_parser \<Rightarrow> content_chunk option \<times> think_parser" where
  "parse_outside_think p =
     (let b = tp_buffer p; think_start = find_sub OPEN_TAG b; orphan_close = find_sub CLOSE_TAG b;
          orphan = (case orphan_close of
                      None \<Rightarrow> False
                    | Some c \<Rightarrow> (case think_start of None \<Rightarrow> True | Some i \<Rightarrow> c < i))
      in if orphan
         then (chunk_of TEXT (take (the orphan_close) b),
               p\<lparr>tp_buffer := drop (the orphan_close + length CLOSE_TAG) b\<rparr>)
         else
           (case think_start of
              None \<Rightarrow>
                (case rfind_sub [lt] b of
                   Some k \<Rightarrow>
                     (if (length (drop k b) < length OPEN_TAG \<and> prefix (drop k b) OPEN_TAG)
                         \<or> (length (drop k b) < length CLOSE_TAG \<and> prefix (drop k b) CLOSE_TAG)
                      then (chunk_of TEXT (take k b), p\<lparr>tp_buffer := drop k b\<rparr>)
                      else (chunk_of TEXT b, p\<lparr>tp_buffer := []\<rparr>))
                 | None \<Rightarrow> (chunk_of TEXT b, p\<lparr>tp_buffer := []\<rparr>))
            | Some i \<Rightarrow>
                (chunk_of TEXT (take i b),
                 p\<lparr>tp_buffer := drop (i + length OPEN_TAG) b, tp_in_think := True\<rparr>)))"

definition parse_inside_think :: "think_parser \<Rightarrow> content_chunk option \<times> think_parser" where
  "parse_inside_think p =
     (let b = tp_buffer p
      in case find_sub CLOSE_TAG b of
           None \<Rightarrow>
             (case rfind_sub [lt] b of
                Some k \<Rightarrow>
                  (if length b - k < length CLOSE_TAG \<and> prefix (drop k b) CLOSE_TAG
                   then (chunk_of THINKING (take k b), p\<lparr>tp_buffer := drop k b\<rparr>)
                   else (chunk_of THINKING b, p\<lparr>tp_buffer := []\<rparr>))
              | None \<Rightarrow> (chunk_of THINKING b, p\<lparr>tp_buffer := []\<rparr>))
         | Some i \<Rightarrow>
             (chunk_of THINKING (take i b),
              p\<lparr>tp_buffer := drop (i + length CLOSE_TAG) b, tp_in_think := False\<rparr>))"

definition parse_step :: "think_parser \<Rightarrow> content_chunk option \<times> think_parser" where
  "parse_step p = (if tp_in_think p then parse_inside_think p else parse_outside_think p)"

text \<open>A step that emits something, or that makes the buffer shorter, makes progress.\<close>

lemma chunk_of_Some: "chunk_of ty s = Some c \<longleftrightarrow> c = (ty, s) \<and> s \<noteq> []"
  by (auto simp: chunk_of_def)

lemma tag_length [simp]: "length OPEN_TAG = 7" "length CLOSE_TAG = 8"
  by (simp_all add: OPEN_TAG_def CLOSE_TAG_def)

lemma step_shrinks:
  assumes "parse_step p = (c, p')" "tp_buffer p \<noteq> []"
  shows "length (tp_buffer p') \<le> length (tp_buffer p)"
    and "c \<noteq> None \<Longrightarrow> length (tp_buffer p') < length (tp_buffer p)"
proof -
  have "length (tp_buffer p') \<le> length (tp_buffer p)
     \<and> (c \<noteq> None \<longrightarrow> length (tp_buffer p') < length (tp_buffer p))"
    using assms find_sub_bound [of OPEN_TAG "tp_buffer p"] find_sub_bound [of CLOSE_TAG "tp_buffer p"]
    by (auto simp: parse_step_def parse_inside_think_def parse_outside_think_def Let_def chunk_of_Some
        split: if_splits option.splits)
  then show "length (tp_buffer p') \<le> length (tp_buffer p)"
    and "c \<noteq> None \<Longrightarrow> length (tp_buffer p') < length (tp_buffer p)" by blast+
qed

text \<open>The loop of \<open>feed\<close>.\<close>

function feed_loop :: "think_parser \<Rightarrow> content_chunk list \<times> think_parser" where
  "feed_loop p =
     (if tp_buffer p = [] then ([], p)
      else
        (case parse_step p of
           (Some c, p') \<Rightarrow> (let (cs, q) = feed_loop p' in (c # cs, q))
         | (None, p') \<Rightarrow>
             if length (tp_buffer p') = length (tp_buffer p) then ([], p') else feed_loop p'))"
  by pat_completeness auto
termination
  by (relation "measure (\<lambda>p. length (tp_buffer p))")
    (auto dest!: sym [of "(_, _)"] dest: step_shrinks simp: order_less_le)

declare feed_loop.simps [simp del]

definition think_feed :: "pystr \<Rightarrow> think_parser \<Rightarrow> content_chunk list \<times> think_parser" where
  "think_feed content p = feed_loop (p\<lparr>tp_buffer := tp_buffer p @ content\<rparr>)"

definition think_flush :: "think_parser \<Rightarrow> content_chunk option \<times> think_parser" where
  "think_flush p =
     (if tp_buffer p = [] then (None, p)
      else (Some (if tp_in_think p then THINKING else TEXT, tp_buffer p), p\<lparr>tp_buffer := []\<rparr>))"

text \<open>A whole stream: all chunks fed in turn, and the final flush.\<close>

fun think_feed_all :: "pystr list \<Rightarrow> think_parser \<Rightarrow> content_chunk list \<times> think_parser" where
  "think_feed_all [] p = ([], p)"
| "think_feed_all (s # ss) p =
     (let (cs, q) = think_feed s p; (ds, r) = think_feed_all ss q in (cs @ ds, r))"

definition think_stream :: "pystr list \<Rightarrow> content_chunk list" where
  "think_stream ss =
     (let (cs, p) = think_feed_all ss think_init
      in cs @ (case fst (think_flush p) of None \<Rightarrow> [] | Some c \<Rightarrow> [c]))"

section \<open>The specification\<close>

text \<open>
  What the parser is meant to compute, on the whole text at once and one character at a time: outside,
  \<open></think>\<close> is dropped and \<open><think>\<close> switches to reasoning; inside, \<open></think>\<close> switches back; every
  other character is passed on with the current type.
\<close>

function think_spec :: "bool \<Rightarrow> pystr \<Rightarrow> (content_type \<times> pychar) list" where
  "think_spec inside s =
     (if s = [] then []
      else if prefix CLOSE_TAG s then think_spec False (drop 8 s)
      else if \<not> inside \<and> prefix OPEN_TAG s then think_spec True (drop 7 s)
      else (if inside then THINKING else TEXT, hd s) # think_spec inside (tl s))"
  by pat_completeness auto
termination
  by (relation "measure (\<lambda>(_, s). length s)") auto

declare think_spec.simps [simp del]

definition flat :: "content_chunk list \<Rightarrow> (content_type \<times> pychar) list" where
  "flat cs = concat (map (\<lambda>(ty, s). map (Pair ty) s) cs)"

lemma flat_append [simp]: "flat (cs @ ds) = flat cs @ flat ds"
  by (simp add: flat_def)

lemma flat_Nil [simp]: "flat [] = []" "flat ((ty, s) # cs) = map (Pair ty) s @ flat cs"
  by (simp_all add: flat_def)

definition mode :: "bool \<Rightarrow> content_type" where
  "mode inside = (if inside then THINKING else TEXT)"

text \<open>The positions at which the specification does something else than pass a character on.\<close>

definition tag_at :: "bool \<Rightarrow> pystr \<Rightarrow> bool" where
  "tag_at inside s \<longleftrightarrow> prefix CLOSE_TAG s \<or> (\<not> inside \<and> prefix OPEN_TAG s)"

lemma spec_Nil [simp]: "think_spec inside [] = []"
  by (subst think_spec.simps) simp

lemma tags_not_Nil [simp]: "CLOSE_TAG \<noteq> []" "OPEN_TAG \<noteq> []"
  by (simp_all add: CLOSE_TAG_def OPEN_TAG_def)

lemma spec_pass: "s \<noteq> [] \<Longrightarrow> \<not> tag_at inside s \<Longrightarrow>
    think_spec inside s = (mode inside, hd s) # think_spec inside (tl s)"
  by (subst think_spec.simps) (auto simp: tag_at_def mode_def)

lemma spec_close: "think_spec inside (CLOSE_TAG @ s) = think_spec False s"
  by (subst think_spec.simps) simp

lemma spec_open: "think_spec False (OPEN_TAG @ s) = think_spec True s"
  by (subst think_spec.simps) (simp add: CLOSE_TAG_def OPEN_TAG_def lit_def)

lemma spec_pass_many:
  assumes "n \<le> length s" "\<And>j. j < n \<Longrightarrow> \<not> tag_at inside (drop j s)"
  shows "think_spec inside s = map (Pair (mode inside)) (take n s) @ think_spec inside (drop n s)"
  using assms
proof (induction n arbitrary: s)
  case (Suc n)
  then obtain x r where s: "s = x # r" by (cases s) auto
  have "\<not> tag_at inside s" using Suc.prems(2) [of 0] by simp
  then have "think_spec inside s = (mode inside, x) # think_spec inside r" using spec_pass [of s] s by simp
  also have "think_spec inside r = map (Pair (mode inside)) (take n r) @ think_spec inside (drop n r)"
    using Suc.prems(1) Suc.prems(2) [of "Suc _"] s by (intro Suc.IH) auto
  finally show ?case using s by simp
qed simp

section \<open>Tags that straddle the end of the buffer\<close>

lemma tag_shape: "OPEN_TAG = lt # tl OPEN_TAG" "CLOSE_TAG = lt # tl CLOSE_TAG"
    "lt \<notin> set (tl OPEN_TAG)" "lt \<notin> set (tl CLOSE_TAG)"
  by (simp_all add: OPEN_TAG_def CLOSE_TAG_def lt_def lit_def)

text \<open>A tag that begins in \<open>s\<close> and ends in what follows begins at the last bracket of \<open>s\<close>.\<close>

lemma straddle:
  assumes tag: "tag = lt # tl tag" "lt \<notin> set (tl tag)"
    and at': "prefix tag (drop j s @ t)" and j: "j < length s" and "\<not> prefix tag (drop j s)"
  shows "prefix (drop j s) tag" "length (drop j s) < length tag" "rfind_sub [lt] s = Some j"
proof -
  from at' assms(5) show p: "prefix (drop j s) tag"
    by (metis prefix_append prefix_order.order_refl prefix_same_cases append_Nil2 prefixI)
  with assms(5) show "length (drop j s) < length tag"
    by (metis le_neq_implies_less not_equal_is_parallel parallelE prefix_length_le prefix_order.order_refl)
  obtain x r where d: "drop j s = x # r" using j by (metis Cons_nth_drop_Suc)
  with p tag(1) have x: "x = lt" "prefix r (tl tag)" by (metis Cons_prefix_Cons)+
  then have r: "lt \<notin> set r" using tag(2) by (meson set_mono_prefix subsetD)
  show "rfind_sub [lt] s = Some j"
  proof (cases "rfind_sub [lt] s")
    case None
    then have "\<not> prefix [lt] (drop j s)" by (simp add: rfind_sub_None_iff find_sub_NoneD)
    with d x show ?thesis by simp
  next
    case (Some k)
    from rfind_sub_SomeD [OF Some] have k: "prefix [lt] (drop k s)" "k \<le> length s"
      "\<And>i. k < i \<Longrightarrow> i < length s \<Longrightarrow> \<not> prefix [lt] (drop i s)" by auto
    have "\<not> k < j" using k(3) [OF _ j] d x by auto
    moreover have "\<not> j < k"
    proof
      assume "j < k"
      then have "drop k s = drop (k - Suc j) r"
        using d by (metis Suc_diff_Suc drop_Suc_Cons drop_drop le_add_diff_inverse2 less_imp_le_nat add.commute)
      with k(1) have "lt \<in> set r" by (metis in_set_dropD list.set_intros(1) prefix_Cons append_Cons prefix_def)
      with r show False by contradiction
    qed
    ultimately show ?thesis using Some by simp
  qed
qed

section \<open>Every step follows the specification\<close>

text \<open>No tag begins before position \<open>n\<close>, however the text goes on.\<close>

definition clear :: "bool \<Rightarrow> nat \<Rightarrow> pystr \<Rightarrow> pystr \<Rightarrow> bool" where
  "clear inside n s t \<longleftrightarrow> n \<le> length s \<and> (\<forall>j < n. \<not> tag_at inside (drop j s @ t))"

lemma clear_spec:
  assumes "clear inside n s t"
  shows "think_spec inside (s @ t) = map (Pair (mode inside)) (take n s) @ think_spec inside (drop n s @ t)"
  using spec_pass_many [of n "s @ t" inside] assms by (auto simp: clear_def)

lemma prefix_here:
  assumes "prefix tag (u @ t)" "length tag \<le> length u"
  shows "prefix tag u"
  using assms by (metis prefix_length_prefix prefixI)

text \<open>In front of a tag that was found first.\<close>

lemma clear_found:
  assumes "i + 7 \<le> length s" "\<And>j. j < i \<Longrightarrow> \<not> prefix CLOSE_TAG (drop j s)"
    "\<And>j. j < i \<Longrightarrow> \<not> inside \<Longrightarrow> \<not> prefix OPEN_TAG (drop j s)"
  shows "clear inside i s t"
  unfolding clear_def tag_at_def
  using assms prefix_here [of CLOSE_TAG "drop _ s" t] prefix_here [of OPEN_TAG "drop _ s" t] by fastforce

text \<open>Without any tag: everything, or everything before a bracket that may begin one.\<close>

definition may_begin :: "bool \<Rightarrow> pystr \<Rightarrow> bool" where
  "may_begin inside r \<longleftrightarrow> (length r < 8 \<and> prefix r CLOSE_TAG) \<or> (\<not> inside \<and> length r < 7 \<and> prefix r OPEN_TAG)"

lemma clear_no_tag:
  assumes none: "find_sub CLOSE_TAG s = None" "\<not> inside \<Longrightarrow> find_sub OPEN_TAG s = None"
    and n: "n \<le> length s" "\<And>k. rfind_sub [lt] s = Some k \<Longrightarrow> may_begin inside (drop k s) \<Longrightarrow> n \<le> k"
  shows "clear inside n s t"
proof -
  have "\<not> tag_at inside (drop j s @ t)" if j: "j < n" for j
  proof
    assume "tag_at inside (drop j s @ t)"
    moreover have jl: "j < length s" using j n(1) by simp
    moreover have "\<not> prefix CLOSE_TAG (drop j s)" "\<not> inside \<Longrightarrow> \<not> prefix OPEN_TAG (drop j s)"
      using none find_sub_NoneD by blast+
    ultimately have "rfind_sub [lt] s = Some j \<and> may_begin inside (drop j s)"
      using straddle [OF tag_shape(2,4), of j s t] straddle [OF tag_shape(1,3), of j s t]
      unfolding tag_at_def may_begin_def tag_length by blast
    with n(2) j show False by fastforce
  qed
  with n(1) show ?thesis by (simp add: clear_def)
qed

definition emitted :: "content_chunk option \<Rightarrow> content_chunk list" where
  "emitted c = (case c of None \<Rightarrow> [] | Some x \<Rightarrow> [x])"

lemma flat_emitted [simp]: "flat (emitted (chunk_of ty s)) = map (Pair ty) s"
  by (simp add: emitted_def chunk_of_def)

lemma found_split: "find_sub tag s = Some i \<Longrightarrow> drop i s @ t = tag @ drop (i + length tag) s @ t"
  using find_sub_split [of tag s i] find_sub_bound [of tag s i]
  by (metis append.assoc append_eq_conv_conj append_take_drop_id drop_drop find_sub_SomeD prefix_def add.commute)

lemma outside_spec:
  assumes step: "parse_outside_think p = (c, p')" and out: "\<not> tp_in_think p"
  shows "think_spec False (tp_buffer p @ t) = flat (emitted c) @ think_spec (tp_in_think p') (tp_buffer p' @ t)"
proof -
  let ?b = "tp_buffer p"
  consider (orphan) i where "find_sub CLOSE_TAG ?b = Some i"
      "\<forall>k. find_sub OPEN_TAG ?b = Some k \<longrightarrow> i < k"
    | (think) i where "find_sub OPEN_TAG ?b = Some i"
      "\<forall>k. find_sub CLOSE_TAG ?b = Some k \<longrightarrow> \<not> k < i"
    | (none) "find_sub OPEN_TAG ?b = None" "find_sub CLOSE_TAG ?b = None"
    by (metis not_None_eq option.inject)
  then show ?thesis
  proof cases
    case orphan
    have "\<not> prefix OPEN_TAG (drop j ?b)" if "j < i" for j
      using orphan(2) that find_sub_SomeD [of OPEN_TAG ?b] find_sub_NoneD [of OPEN_TAG ?b j]
      by (cases "find_sub OPEN_TAG ?b") force+
    then have "clear False i ?b t"
      using find_sub_SomeD [OF orphan(1)] find_sub_bound [OF orphan(1)] by (intro clear_found) auto
    from clear_spec [OF this] found_split [OF orphan(1), of t] spec_close
    have "think_spec False (?b @ t) = map (Pair TEXT) (take i ?b) @ think_spec False (drop (i + 8) ?b @ t)"
      by (simp add: mode_def)
    moreover have "c = chunk_of TEXT (take i ?b) \<and> p' = p\<lparr>tp_buffer := drop (i + 8) ?b\<rparr>"
      using step orphan by (auto simp: parse_outside_think_def Let_def split: option.splits)
    ultimately show ?thesis using out by simp
  next
    case think
    have "\<not> prefix CLOSE_TAG (drop j ?b)" if "j < i" for j
      using think(2) that find_sub_SomeD [of CLOSE_TAG ?b] find_sub_NoneD [of CLOSE_TAG ?b j]
      by (cases "find_sub CLOSE_TAG ?b") force+
    then have "clear False i ?b t"
      using find_sub_SomeD [OF think(1)] find_sub_bound [OF think(1)] by (intro clear_found) auto
    from clear_spec [OF this] found_split [OF think(1), of t] spec_open
    have "think_spec False (?b @ t) = map (Pair TEXT) (take i ?b) @ think_spec True (drop (i + 7) ?b @ t)"
      by (simp add: mode_def)
    moreover have "c = chunk_of TEXT (take i ?b) \<and> p' = p\<lparr>tp_buffer := drop (i + 7) ?b, tp_in_think := True\<rparr>"
      using step think by (auto simp: parse_outside_think_def Let_def split: option.splits)
    ultimately show ?thesis by simp
  next
    case none
    show ?thesis
    proof (cases "\<exists>k. rfind_sub [lt] ?b = Some k \<and> may_begin False (drop k ?b)")
      case True
      then obtain k where k: "rfind_sub [lt] ?b = Some k" "may_begin False (drop k ?b)" by blast
      have "clear False k ?b t"
        using none k rfind_sub_SomeD [OF k(1)] by (intro clear_no_tag) auto
      moreover have "c = chunk_of TEXT (take k ?b) \<and> p' = p\<lparr>tp_buffer := drop k ?b\<rparr>"
        using step none k by (auto simp: parse_outside_think_def Let_def may_begin_def)
      ultimately show ?thesis using clear_spec [of False k ?b t] out by (simp add: mode_def)
    next
      case False
      then have "clear False (length ?b) ?b t" using none by (intro clear_no_tag) auto
      moreover have "c = chunk_of TEXT ?b \<and> p' = p\<lparr>tp_buffer := []\<rparr>"
        using step none False
        by (auto simp: parse_outside_think_def Let_def may_begin_def split: option.splits if_splits)
      ultimately show ?thesis using clear_spec [of False "length ?b" ?b t] out by (simp add: mode_def)
    qed
  qed
qed

lemma inside_spec:
  assumes step: "parse_inside_think p = (c, p')" and ins: "tp_in_think p"
  shows "think_spec True (tp_buffer p @ t) = flat (emitted c) @ think_spec (tp_in_think p') (tp_buffer p' @ t)"
proof -
  let ?b = "tp_buffer p"
  show ?thesis
  proof (cases "find_sub CLOSE_TAG ?b")
    case (Some i)
    have "clear True i ?b t"
      using find_sub_SomeD [OF Some] find_sub_bound [OF Some] by (intro clear_found) auto
    from clear_spec [OF this] found_split [OF Some, of t] spec_close
    have "think_spec True (?b @ t) = map (Pair THINKING) (take i ?b) @ think_spec False (drop (i + 8) ?b @ t)"
      by (simp add: mode_def)
    moreover have "c = chunk_of THINKING (take i ?b) \<and> p' = p\<lparr>tp_buffer := drop (i + 8) ?b, tp_in_think := False\<rparr>"
      using step Some by (auto simp: parse_inside_think_def Let_def)
    ultimately show ?thesis by simp
  next
    case None
    show ?thesis
    proof (cases "\<exists>k. rfind_sub [lt] ?b = Some k \<and> may_begin True (drop k ?b)")
      case True
      then obtain k where k: "rfind_sub [lt] ?b = Some k" "may_begin True (drop k ?b)" by blast
      have "clear True k ?b t"
        using None k rfind_sub_SomeD [OF k(1)] by (intro clear_no_tag) auto
      moreover have "c = chunk_of THINKING (take k ?b) \<and> p' = p\<lparr>tp_buffer := drop k ?b\<rparr>"
        using step None k by (auto simp: parse_inside_think_def Let_def may_begin_def)
      ultimately show ?thesis using clear_spec [of True k ?b t] ins by (simp add: mode_def)
    next
      case False
      then have "clear True (length ?b) ?b t" using None by (intro clear_no_tag) auto
      moreover have "c = chunk_of THINKING ?b \<and> p' = p\<lparr>tp_buffer := []\<rparr>"
        using step None False
        by (auto simp: parse_inside_think_def Let_def may_begin_def split: option.splits if_splits)
      ultimately show ?thesis using clear_spec [of True "length ?b" ?b t] ins by (simp add: mode_def)
    qed
  qed
qed

lemma step_spec:
  assumes "parse_step p = (c, p')"
  shows "think_spec (tp_in_think p) (tp_buffer p @ t)
     = flat (emitted c) @ think_spec (tp_in_think p') (tp_buffer p' @ t)"
  using assms outside_spec [of p c p' t] inside_spec [of p c p' t] by (auto simp: parse_step_def split: if_splits)

lemma feed_loop_spec:
  "feed_loop p = (cs, p') \<Longrightarrow>
     think_spec (tp_in_think p) (tp_buffer p @ t) = flat cs @ think_spec (tp_in_think p') (tp_buffer p' @ t)"
proof (induction p arbitrary: cs p' rule: feed_loop.induct)
  case (1 p)
  show ?case
  proof (cases "tp_buffer p = []")
    case True
    with 1(3) show ?thesis by (simp add: feed_loop.simps)
  next
    case False
    obtain c q where step: "parse_step p = (c, q)" by force
    note spec = step_spec [OF step, of t]
    show ?thesis
    proof (cases c)
      case (Some x)
      obtain ds r where r: "feed_loop q = (ds, r)" by force
      with 1(3) False step Some have "cs = x # ds" "p' = r" by (auto simp: feed_loop.simps [of p])
      moreover have "flat (x # ds) = flat [x] @ flat ds" using flat_append [of "[x]" ds] by simp
      ultimately show ?thesis
        using 1(2) [OF False step [symmetric] Some r] spec Some by (simp add: emitted_def del: flat_Nil)
    next
      case None
      show ?thesis
      proof (cases "length (tp_buffer q) = length (tp_buffer p)")
        case True
        with 1(3) False step None spec show ?thesis by (auto simp: feed_loop.simps [of p] emitted_def)
      next
        case False2: False
        with 1(3) False step None have "feed_loop q = (cs, p')" by (auto simp: feed_loop.simps [of p])
        from 1(1) [OF False step [symmetric] None False2 this] spec None show ?thesis by (simp add: emitted_def)
      qed
    qed
  qed
qed

lemma think_feed_spec:
  assumes "think_feed s p = (cs, p')"
  shows "think_spec (tp_in_think p) (tp_buffer p @ s @ t)
     = flat cs @ think_spec (tp_in_think p') (tp_buffer p' @ t)"
  using feed_loop_spec [of "p\<lparr>tp_buffer := tp_buffer p @ s\<rparr>" cs p' t] assms by (simp add: think_feed_def)

lemma think_feed_all_spec:
  "think_feed_all ss p = (cs, p') \<Longrightarrow>
     think_spec (tp_in_think p) (tp_buffer p @ concat ss @ t)
       = flat cs @ think_spec (tp_in_think p') (tp_buffer p' @ t)"
proof (induction ss arbitrary: p cs p')
  case (Cons s ss)
  obtain cs1 q where 1: "think_feed s p = (cs1, q)" by force
  obtain cs2 r where 2: "think_feed_all ss q = (cs2, r)" by force
  with 1 Cons.prems have "cs = cs1 @ cs2" "p' = r" by auto
  with think_feed_spec [OF 1, of "concat ss @ t"] Cons.IH [OF 2] 2 show ?case by simp
qed simp

section \<open>What is held back\<close>

text \<open>Between two chunks the buffer is at most the beginning of a tag, so it is flushed as it is.\<close>

definition held :: "think_parser \<Rightarrow> bool" where
  "held p \<longleftrightarrow> tp_buffer p = [] \<or> may_begin (tp_in_think p) (tp_buffer p)"

lemma held_spec:
  assumes "held p"
  shows "think_spec (tp_in_think p) (tp_buffer p) = map (Pair (mode (tp_in_think p))) (tp_buffer p)"
proof -
  have "\<not> tag_at (tp_in_think p) (drop j (tp_buffer p))" for j
  proof
    assume t: "tag_at (tp_in_think p) (drop j (tp_buffer p))"
    show False
    proof (cases "prefix CLOSE_TAG (drop j (tp_buffer p))")
      case True
      then have "8 \<le> length (tp_buffer p)" using prefix_length_le [OF True] by simp
      with assms show ?thesis by (auto simp: held_def may_begin_def)
    next
      case False
      with t have o: "prefix OPEN_TAG (drop j (tp_buffer p))" "\<not> tp_in_think p" by (auto simp: tag_at_def)
      then have len: "7 \<le> length (tp_buffer p) - j" using prefix_length_le [OF o(1)] by simp
      with assms have "prefix (tp_buffer p) CLOSE_TAG" "length (tp_buffer p) < 8" by (auto simp: held_def may_begin_def)
      with len have "j = 0" "length (tp_buffer p) = 7" by auto
      with o(1) have "tp_buffer p = OPEN_TAG" by (auto simp: prefix_def)
      with \<open>prefix (tp_buffer p) CLOSE_TAG\<close> show ?thesis by (simp add: OPEN_TAG_def CLOSE_TAG_def lit_def)
    qed
  qed
  with spec_pass_many [of "length (tp_buffer p)" "tp_buffer p" "tp_in_think p"] show ?thesis by simp
qed

lemma stuck_held:
  assumes "parse_step p = (None, p')" "length (tp_buffer p') = length (tp_buffer p)" "tp_buffer p \<noteq> []"
  shows "p' = p \<and> held p"
proof (cases "tp_in_think p")
  case True
  with assms find_sub_bound [of CLOSE_TAG "tp_buffer p"] rfind_sub_SomeD [of "[lt]" "tp_buffer p"]
  show ?thesis
    by (auto simp: parse_step_def parse_inside_think_def Let_def chunk_of_def held_def may_begin_def
        split: option.splits if_splits)
next
  case False
  with assms find_sub_bound [of CLOSE_TAG "tp_buffer p"] find_sub_bound [of OPEN_TAG "tp_buffer p"]
    rfind_sub_SomeD [of "[lt]" "tp_buffer p"]
  show ?thesis
    by (auto simp: parse_step_def parse_outside_think_def Let_def chunk_of_def held_def may_begin_def
        split: option.splits if_splits)
qed

lemma feed_loop_held: "feed_loop p = (cs, p') \<Longrightarrow> held p'"
proof (induction p arbitrary: cs p' rule: feed_loop.induct)
  case (1 p)
  show ?case
  proof (cases "tp_buffer p = []")
    case True
    with 1(3) show ?thesis by (simp add: feed_loop.simps held_def)
  next
    case False
    obtain c q where step: "parse_step p = (c, q)" by force
    show ?thesis
    proof (cases c)
      case (Some x)
      obtain ds r where r: "feed_loop q = (ds, r)" by force
      with 1(3) False step Some have "p' = r" by (auto simp: feed_loop.simps [of p])
      with 1(2) [OF False step [symmetric] Some r] show ?thesis by simp
    next
      case None
      show ?thesis
      proof (cases "length (tp_buffer q) = length (tp_buffer p)")
        case True
        with 1(3) False step None have "p' = q" by (auto simp: feed_loop.simps [of p])
        with stuck_held [of p q] step None True False show ?thesis by simp
      next
        case False2: False
        with 1(3) False step None have "feed_loop q = (cs, p')" by (auto simp: feed_loop.simps [of p])
        from 1(1) [OF False step [symmetric] None False2 this] show ?thesis .
      qed
    qed
  qed
qed

lemma think_feed_all_held: "think_feed_all ss p = (cs, p') \<Longrightarrow> held p \<Longrightarrow> held p'"
proof (induction ss arbitrary: p cs p')
  case (Cons s ss)
  obtain cs1 q where 1: "think_feed s p = (cs1, q)" by force
  obtain cs2 r where 2: "think_feed_all ss q = (cs2, r)" by force
  from 1 have "held q" unfolding think_feed_def by (rule feed_loop_held)
  with Cons.IH [OF 2] 1 2 Cons.prems show ?case by auto
qed simp

section \<open>Properties\<close>

text \<open>C11: the cut of the stream into chunks does not matter. Fed in any pieces and flushed at the end,
  the parser emits, character for character, what the one-pass specification computes on the whole
  text: no character outside a tag is lost, duplicated, reordered or given the wrong type.\<close>

theorem think_parser_streaming:
  "flat (think_stream ss) = think_spec False (concat ss)"
proof -
  obtain cs p where f: "think_feed_all ss think_init = (cs, p)" by force
  have "held p" using think_feed_all_held [OF f] by (simp add: held_def think_init_def)
  from think_feed_all_spec [OF f, of "[]"]
  have "think_spec False (concat ss) = flat cs @ map (Pair (mode (tp_in_think p))) (tp_buffer p)"
    by (simp add: held_spec [OF \<open>held p\<close>], simp add: think_init_def)
  moreover have "think_stream ss = cs @ emitted (chunk_of (mode (tp_in_think p)) (tp_buffer p))"
    by (simp add: think_stream_def f think_flush_def emitted_def chunk_of_def mode_def)
  ultimately show ?thesis by simp
qed

text \<open>The parser holds back at most seven characters, and only a beginning of a tag: whatever
  was fed, what is still in the buffer is empty or a proper prefix of \<open><think>\<close> or \<open></think>\<close>.\<close>

theorem think_parser_latency:
  assumes "think_feed_all ss think_init = (cs, p)"
  shows "length (tp_buffer p) \<le> 7
     \<and> (prefix (tp_buffer p) CLOSE_TAG \<or> (\<not> tp_in_think p \<and> prefix (tp_buffer p) OPEN_TAG))"
  using think_feed_all_held [OF assms] by (auto simp: held_def think_init_def may_begin_def)

theorem think_parser_latency_witness:
  "\<exists>cs p. think_feed_all [lit ''a<th''] think_init = (cs, p) \<and> length (tp_buffer p) \<le> 7"
proof -
  obtain cs p where "think_feed_all [lit ''a<th''] think_init = (cs, p)" by force
  from think_parser_latency [OF this] this show ?thesis by blast
qed

end
