(* ===== verification/HeuristicParser.thy ===== *)
theory HeuristicParser
  imports Prelude
begin

text \<open>
  \<open>providers/common/heuristic_tool_parser.py\<close>: the parser that detects tool calls written as text,
  a bullet followed by \<open><function=Name><parameter=key>value</parameter>\<close>, in a stream of chunks, and
  removes leaked control tokens. The regular expressions are written out as matching functions. The
  hexadecimal suffixes of the tool identifiers are drawn from a stream given as a parameter.
\<close>

section \<open>The regular expressions\<close>

definition bullet :: pychar where
  "bullet = Uni 9679"

definition gt :: pychar where
  "gt = Ch (CHR ''>'')"

definition bar :: pychar where
  "bar = Ch (CHR ''|'')"

definition CONTROL_START :: pystr where
  "CONTROL_START = lit ''<|''"

definition CONTROL_END :: pystr where
  "CONTROL_END = lit ''|>''"

text \<open>\<open>_CONTROL_TOKEN_RE\<close> at the beginning of the text: what follows the match.\<close>

definition match_control :: "pystr \<Rightarrow> pystr option" where
  "match_control s =
     (if prefix CONTROL_START s
      then let body = takeWhile (\<lambda>c. c \<noteq> bar \<and> c \<noteq> gt) (drop 2 s); rest = drop (2 + length body) s
           in if 1 \<le> length body \<and> length body \<le> 80 \<and> prefix CONTROL_END rest then Some (drop 2 rest) else None
      else None)"

lemma match_control_shorter: "match_control s = Some r \<Longrightarrow> suffix r s \<and> length r < length s"
  by (auto simp: match_control_def Let_def suffix_drop split: if_splits dest!: prefix_length_le)
    (simp_all add: CONTROL_START_def CONTROL_END_def)

text \<open>\<open>_strip_control_tokens\<close>: one pass from left to right.\<close>

function strip_control_tokens :: "pystr \<Rightarrow> pystr" where
  "strip_control_tokens s =
     (case s of
        [] \<Rightarrow> []
      | c # t \<Rightarrow>
          (case match_control s of
             Some r \<Rightarrow> strip_control_tokens r
           | None \<Rightarrow> c # strip_control_tokens t))"
  by pat_completeness auto
termination
  by (relation "measure length") (auto dest: match_control_shorter)

declare strip_control_tokens.simps [simp del]

text \<open>The tag \<open><name=...>\<close> at the beginning of the text: the part between \<open>=\<close> and \<open>>\<close>, which is not
  empty and holds no \<open>>\<close>, and what follows the tag.\<close>

definition match_tag :: "pystr \<Rightarrow> pystr \<Rightarrow> (pystr \<times> pystr) option" where
  "match_tag opening s =
     (if prefix opening s
      then let key = takeWhile (\<lambda>c. c \<noteq> gt) (drop (length opening) s);
               rest = drop (length opening + length key) s
           in if key \<noteq> [] \<and> rest \<noteq> [] then Some (key, tl rest) else None
      else None)"

definition FUNCTION_OPEN :: pystr where
  "FUNCTION_OPEN = lit ''<function=''"

definition PARAMETER_OPEN :: pystr where
  "PARAMETER_OPEN = lit ''<parameter=''"

definition PARAMETER_CLOSE :: pystr where
  "PARAMETER_CLOSE = lit ''</parameter>''"

text \<open>\<open>_FUNC_START_PATTERN.search\<close>: the name and what follows the match.\<close>

definition match_function :: "pystr \<Rightarrow> (pystr \<times> pystr) option" where
  "match_function s =
     (case s of
        [] \<Rightarrow> None
      | c # t \<Rightarrow> if c = bullet then match_tag FUNCTION_OPEN (lstrip t) else None)"

fun search_function :: "pystr \<Rightarrow> (pystr \<times> pystr) option" where
  "search_function [] = None"
| "search_function (c # t) =
     (case match_function (c # t) of Some m \<Rightarrow> Some m | None \<Rightarrow> search_function t)"

text \<open>
  \<open>_PARAM_PATTERN.search\<close>: the text before the match, the key, the value, and what follows. The value
  is the shortest text before a closing tag or before the end; an end is also the position in front
  of a final line feed.
\<close>

definition value_end :: "pystr \<Rightarrow> pystr \<times> pystr \<times> pystr" where
  "value_end v =
     (case find_sub PARAMETER_CLOSE v of
        Some i \<Rightarrow> (take i v, PARAMETER_CLOSE, drop (i + length PARAMETER_CLOSE) v)
      | None \<Rightarrow> if v \<noteq> [] \<and> last v = newline_char then (butlast v, [], [newline_char]) else (v, [], []))"

record param_match =
  pm_before :: pystr
  pm_key :: pystr
  pm_value :: pystr
  pm_text :: pystr \<comment> \<open>the whole match\<close>
  pm_rest :: pystr

fun search_parameter :: "pystr \<Rightarrow> pystr \<Rightarrow> param_match option" where
  "search_parameter before [] = None"
| "search_parameter before (c # t) =
     (case match_tag PARAMETER_OPEN (c # t) of
        Some (key, v) \<Rightarrow>
          (let (val, close, rest) = value_end v
           in Some \<lparr>pm_before = before, pm_key = key, pm_value = val,
                    pm_text = PARAMETER_OPEN @ key @ [gt] @ val @ close, pm_rest = rest\<rparr>)
      | None \<Rightarrow> search_parameter (before @ [c]) t)"

section \<open>The parser\<close>

datatype parser_state = StText | StMatchingFunction | StParsingParameters

record tool_use =
  tu_id :: pystr
  tu_name :: pystr
  tu_input :: "(pystr, pystr) dict"

record heuristic_parser =
  hp_state :: parser_state
  hp_buffer :: pystr
  hp_tool_id :: pystr
  hp_function_name :: pystr
  hp_parameters :: "(pystr, pystr) dict"
  hp_uuids :: nat \<comment> \<open>how many identifiers were drawn\<close>

definition heuristic_init :: heuristic_parser where
  "heuristic_init = \<lparr>hp_state = StText, hp_buffer = [], hp_tool_id = [], hp_function_name = [],
     hp_parameters = [], hp_uuids = 0\<rparr>"

definition split_incomplete_control_token_tail :: "heuristic_parser \<Rightarrow> pystr \<times> heuristic_parser" where
  "split_incomplete_control_token_tail p =
     (case rfind_sub CONTROL_START (hp_buffer p) of
        None \<Rightarrow> ([], p)
      | Some start \<Rightarrow>
          (case find_sub CONTROL_END (drop start (hp_buffer p)) of
             Some _ \<Rightarrow> ([], p)
           | None \<Rightarrow> (take start (hp_buffer p), p\<lparr>hp_buffer := drop start (hp_buffer p)\<rparr>)))"

definition current_tool :: "heuristic_parser \<Rightarrow> tool_use" where
  "current_tool p = \<lparr>tu_id = hp_tool_id p, tu_name = hp_function_name p, tu_input = hp_parameters p\<rparr>"

text \<open>The inner loop: complete parameters are taken one after the other; the text in front of each is
  passed on.\<close>

lemma match_tag_shorter: "match_tag opening s = Some (key, r) \<Longrightarrow> suffix r s \<and> length r < length s"
proof -
  assume m: "match_tag opening s = Some (key, r)"
  let ?n = "length opening + length (takeWhile (\<lambda>c. c \<noteq> gt) (drop (length opening) s))"
  from m have "r = tl (drop ?n s)" "drop ?n s \<noteq> []"
    by (auto simp: match_tag_def Let_def split: if_splits)
  then have "r = drop (Suc ?n) s" "length s > ?n" by (auto simp: drop_Suc tl_drop)
  then show ?thesis by (auto simp: suffix_drop)
qed

lemma value_end_suffix: "value_end v = (val, close, rest) \<Longrightarrow> suffix rest v \<and> subseq (val @ rest) v"
proof -
  assume e: "value_end v = (val, close, rest)"
  show ?thesis
  proof (cases "find_sub PARAMETER_CLOSE v")
    case None
    with e show ?thesis
      by (cases v rule: rev_cases) (auto simp: value_end_def suffix_def split: if_splits)
  next
    case (Some i)
    with e have "val = take i v" "rest = drop (i + length PARAMETER_CLOSE) v" by (auto simp: value_end_def)
    moreover have "subseq (take i v @ drop (i + length PARAMETER_CLOSE) v) (take i v @ drop i v)"
      by (rule list_emb_append_mono) (simp_all add: suffix_imp_subseq suffix_drop add.commute [of i] flip: drop_drop)
    ultimately show ?thesis by (simp add: suffix_drop)
  qed
qed

lemma search_parameter_parts:
  "search_parameter before s = Some m \<Longrightarrow>
     \<exists>pre. pm_before m = before @ pre \<and> length (pm_rest m) < length s \<and> subseq (pre @ pm_rest m) s"
proof (induction before s rule: search_parameter.induct)
  case (2 before c t)
  show ?case
  proof (cases "match_tag PARAMETER_OPEN (c # t)")
    case None
    with 2 obtain pre where pre: "pm_before m = (before @ [c]) @ pre" "length (pm_rest m) < length t"
      "subseq (pre @ pm_rest m) t" by auto
    then show ?thesis by (intro exI [of _ "c # pre"]) simp
  next
    case (Some kv)
    then obtain key v where kv: "match_tag PARAMETER_OPEN (c # t) = Some (key, v)" by (cases kv) auto
    obtain val close rest where e: "value_end v = (val, close, rest)" by (cases "value_end v") auto
    from match_tag_shorter [OF kv] value_end_suffix [OF e]
    have "length rest < length (c # t)" "suffix rest (c # t)"
      by (auto dest: suffix_length_le intro: suffix_order.order_trans)
    with 2(2) kv e show ?thesis by (intro exI [of _ "[]"]) (auto simp: suffix_imp_subseq)
  qed
qed simp

function take_parameters :: "heuristic_parser \<Rightarrow> pystr \<times> heuristic_parser" where
  "take_parameters p =
     (case search_parameter [] (hp_buffer p) of
        None \<Rightarrow> ([], p)
      | Some m \<Rightarrow>
          (if contains (pm_text m) PARAMETER_CLOSE
           then let (out, p') = take_parameters
                      (p\<lparr>hp_parameters := dset (strip (pm_key m)) (strip (pm_value m)) (hp_parameters p),
                         hp_buffer := pm_rest m\<rparr>)
                in (pm_before m @ out, p')
           else ([], p)))"
  by pat_completeness auto
termination
  by (relation "measure (\<lambda>p. length (hp_buffer p))") (auto dest: search_parameter_parts)

declare take_parameters.simps [simp del]

text \<open>The three sections of the loop of \<open>feed\<close>. Each returns the text to pass on, the parser, and the
  section that comes next; \<open>None\<close> leaves the loop.\<close>

definition text_section :: "heuristic_parser \<Rightarrow> pystr \<times> heuristic_parser \<times> bool" where
  "text_section p =
     (if bullet \<in> set (hp_buffer p)
      then (takeWhile (\<lambda>c. c \<noteq> bullet) (hp_buffer p),
            p\<lparr>hp_buffer := dropWhile (\<lambda>c. c \<noteq> bullet) (hp_buffer p), hp_state := StMatchingFunction\<rparr>, True)
      else
        (case split_incomplete_control_token_tail p of
           (safe, p') \<Rightarrow>
             if safe \<noteq> [] then (safe, p', False)
             else (hp_buffer p', p'\<lparr>hp_buffer := []\<rparr>, False)))"

definition function_section :: "(nat \<Rightarrow> pystr) \<Rightarrow> heuristic_parser \<Rightarrow> pystr \<times> heuristic_parser \<times> bool" where
  "function_section uuid p =
     (case search_function (hp_buffer p) of
        Some (name, rest) \<Rightarrow>
          ([], p\<lparr>hp_function_name := strip name,
                hp_tool_id := lit ''toolu_heuristic_'' @ take 8 (uuid (hp_uuids p)),
                hp_uuids := Suc (hp_uuids p), hp_parameters := [], hp_buffer := rest,
                hp_state := StParsingParameters\<rparr>, True)
      | None \<Rightarrow>
          (if 100 < length (hp_buffer p)
           then ([hd (hp_buffer p)], p\<lparr>hp_buffer := tl (hp_buffer p), hp_state := StText\<rparr>, True)
           else ([], p, False)))"

definition parameter_section :: "heuristic_parser \<Rightarrow> pystr \<times> tool_use list \<times> heuristic_parser \<times> bool" where
  "parameter_section p =
     (let (out, p1) = take_parameters p; b = hp_buffer p1
      in if bullet \<in> set b
         then (out @ takeWhile (\<lambda>c. c \<noteq> bullet) b, [current_tool p1],
               p1\<lparr>hp_buffer := dropWhile (\<lambda>c. c \<noteq> bullet) b, hp_state := StText\<rparr>, True)
         else if b \<noteq> [] \<and> \<not> prefix (lit ''<'') (strip b) \<and> \<not> contains b PARAMETER_OPEN
         then (out @ b, [current_tool p1], p1\<lparr>hp_buffer := [], hp_state := StText\<rparr>, True)
         else (out, [], p1, False))"

text \<open>One round of the loop: the sections in their order, each entered only in its state. The last
  component is \<open>False\<close> when the round left the loop.\<close>

definition feed_round :: "(nat \<Rightarrow> pystr) \<Rightarrow> heuristic_parser \<Rightarrow> pystr \<times> tool_use list \<times> heuristic_parser \<times> bool"
  where
  "feed_round uuid p =
     (let (out1, p1, go1) = (if hp_state p = StText then text_section p else ([], p, True))
      in if \<not> go1 then (out1, [], p1, False)
         else
           let (out2, p2, go2) = (if hp_state p1 = StMatchingFunction then function_section uuid p1 else ([], p1, True))
           in if \<not> go2 then (out1 @ out2, [], p2, False)
              else if hp_state p2 = StParsingParameters
              then (case parameter_section p2 of
                      (out3, tools, p3, go3) \<Rightarrow> (out1 @ out2 @ out3, tools, p3, go3))
              else (out1 @ out2, [], p2, True))"

definition round_measure :: "heuristic_parser \<Rightarrow> nat" where
  "round_measure p = 2 * length (hp_buffer p) + (if hp_state p = StParsingParameters then 1 else 0)"

lemma take_parameters_buffer:
  "take_parameters p = (out, p') \<Longrightarrow> subseq (out @ hp_buffer p') (hp_buffer p)
     \<and> hp_state p' = hp_state p \<and> hp_uuids p' = hp_uuids p"
proof (induction p arbitrary: out p' rule: take_parameters.induct)
  case (1 p)
  show ?case
  proof (cases "search_parameter [] (hp_buffer p)")
    case None
    with 1(2) show ?thesis by (simp add: take_parameters.simps)
  next
    case (Some m)
    show ?thesis
    proof (cases "contains (pm_text m) PARAMETER_CLOSE")
      case True
      let ?p = "p\<lparr>hp_parameters := dset (strip (pm_key m)) (strip (pm_value m)) (hp_parameters p),
                         hp_buffer := pm_rest m\<rparr>"
      obtain out2 p2 where r: "take_parameters ?p = (out2, p2)" by force
      with 1(2) Some True have res: "out = pm_before m @ out2" "p' = p2"
        by (auto simp: take_parameters.simps [of p])
      from 1(1) [OF Some True r] have IH: "subseq (out2 @ hp_buffer p2) (pm_rest m)"
        "hp_state p2 = hp_state p" "hp_uuids p2 = hp_uuids p" by simp_all
      from search_parameter_parts [OF Some] have "subseq (pm_before m @ pm_rest m) (hp_buffer p)" by auto
      moreover have "subseq (pm_before m @ out2 @ hp_buffer p2) (pm_before m @ pm_rest m)"
        by (rule list_emb_append_mono [OF subseq_order.order_refl IH(1)])
      ultimately show ?thesis using IH res by (auto intro: subseq_order.trans)
    next
      case False
      with 1(2) Some show ?thesis by (simp add: take_parameters.simps)
    qed
  qed
qed

lemma subseq_length: "subseq xs ys \<Longrightarrow> length xs \<le> length ys"
  by (rule list_emb_length)

lemma takeWhile_dropWhile_subseq: "subseq (takeWhile P b @ dropWhile P b) b"
  by simp

lemma text_section_buffer:
  assumes "text_section p = (out, p', go)"
  shows "subseq (out @ hp_buffer p') (hp_buffer p)" "go \<Longrightarrow> hp_state p' = StMatchingFunction"
    "\<not> go \<Longrightarrow> hp_state p' = hp_state p"
  using assms
  by (auto simp: text_section_def split_incomplete_control_token_tail_def split: if_splits option.splits)

lemma search_function_shorter: "search_function s = Some (name, r) \<Longrightarrow> suffix r s \<and> length r < length s"
proof (induction s)
  case (Cons c t)
  show ?case
  proof (cases "match_function (c # t)")
    case None
    with Cons show ?thesis by (auto intro: suffix_ConsI)
  next
    case (Some m)
    with Cons.prems have "match_tag FUNCTION_OPEN (lstrip t) = Some (name, r)"
      by (auto simp: match_function_def split: if_splits)
    from match_tag_shorter [OF this] have "suffix r (lstrip t)" "length r < length (lstrip t)" by auto
    moreover have "suffix (lstrip t) t" by (simp add: lstrip_def suffix_dropWhile)
    ultimately show ?thesis
      by (auto dest: suffix_length_le intro: suffix_ConsI suffix_order.order_trans)
  qed
qed simp

lemma function_section_buffer:
  assumes "function_section uuid p = (out, p', go)"
  shows "subseq (out @ hp_buffer p') (hp_buffer p)" "go \<Longrightarrow> length (hp_buffer p') < length (hp_buffer p)"
    "go \<Longrightarrow> hp_state p' \<noteq> StMatchingFunction" "\<not> go \<Longrightarrow> p' = p"
  using assms search_function_shorter [of "hp_buffer p"]
  by (cases "hp_buffer p"; auto simp: function_section_def suffix_imp_subseq split: option.splits if_splits)+

lemma parameter_section_buffer:
  assumes "parameter_section p = (out, tools, p', go)"
  shows "subseq (out @ hp_buffer p') (hp_buffer p)" "go \<Longrightarrow> hp_state p' = StText"
    "\<not> go \<Longrightarrow> hp_state p' = hp_state p"
proof -
  obtain o1 p1 where t: "take_parameters p = (o1, p1)" by force
  note T = take_parameters_buffer [OF t]
  from assms t have cases: "(out @ hp_buffer p' = o1 @ hp_buffer p1 \<or> out @ hp_buffer p' = (o1 @ hp_buffer p1) @ [])
      \<and> (go \<longrightarrow> hp_state p' = StText) \<and> (\<not> go \<longrightarrow> p' = p1)"
    by (auto simp: parameter_section_def Let_def split: if_splits)
  with T show "subseq (out @ hp_buffer p') (hp_buffer p)" "go \<Longrightarrow> hp_state p' = StText"
    "\<not> go \<Longrightarrow> hp_state p' = hp_state p" by auto
qed

lemma round_buffer:
  assumes "feed_round uuid p = (out, tools, p', go)"
  shows "subseq (out @ hp_buffer p') (hp_buffer p)" and "go \<Longrightarrow> round_measure p' < round_measure p"
proof -
  obtain o1 p1 g1 where 1: "(if hp_state p = StText then text_section p else ([], p, True)) = (o1, p1, g1)"
    by (cases "if hp_state p = StText then text_section p else ([], p, True)") auto
  have s1: "subseq (o1 @ hp_buffer p1) (hp_buffer p)"
    "hp_state p = StText \<and> g1 \<longrightarrow> hp_state p1 = StMatchingFunction"
    "hp_state p \<noteq> StText \<longrightarrow> p1 = p \<and> g1"
    using 1 text_section_buffer [of p o1 p1 g1] by (auto split: if_splits)
  have "subseq (out @ hp_buffer p') (hp_buffer p) \<and> (go \<longrightarrow> round_measure p' < round_measure p)"
  proof (cases g1)
    case False
    with assms 1 s1 show ?thesis by (auto simp: feed_round_def)
  next
    case True
    obtain o2 p2 g2 where 2: "(if hp_state p1 = StMatchingFunction then function_section uuid p1 else ([], p1, True)) = (o2, p2, g2)"
      by (cases "if hp_state p1 = StMatchingFunction then function_section uuid p1 else ([], p1, True)") auto
    have s2: "subseq (o2 @ hp_buffer p2) (hp_buffer p1)"
      "hp_state p1 = StMatchingFunction \<and> g2 \<longrightarrow> length (hp_buffer p2) < length (hp_buffer p1) \<and> hp_state p2 \<noteq> StMatchingFunction"
      "hp_state p1 \<noteq> StMatchingFunction \<longrightarrow> p2 = p1 \<and> g2"
      using 2 function_section_buffer [of uuid p1 o2 p2 g2] by (auto split: if_splits)
    have s12: "subseq ((o1 @ o2) @ hp_buffer p2) (hp_buffer p)"
      using list_emb_append_mono [OF subseq_order.order_refl [of o1] s2(1)] s1(1) by (auto intro: subseq_order.trans)
    have len1: "length (hp_buffer p1) \<le> length (hp_buffer p)" using subseq_length [OF s1(1)] by simp
    have len2: "length (hp_buffer p2) \<le> length (hp_buffer p1)" using subseq_length [OF s2(1)] by simp
    have start: "hp_state p1 = StMatchingFunction \<or> hp_state p1 = StParsingParameters \<and> hp_state p = StParsingParameters \<and> p1 = p"
      using s1(2,3) True by (cases "hp_state p") auto
    show ?thesis
    proof (cases g2)
      case False
      with assms 1 2 True s12 show ?thesis by (auto simp: feed_round_def)
    next
      case True2: True
      show ?thesis
      proof (cases "hp_state p2 = StParsingParameters")
        case False
        with assms 1 2 True True2 have r: "out = o1 @ o2" "p' = p2" by (auto simp: feed_round_def)
        have "hp_state p1 = StMatchingFunction" using start s2(3) False by auto
        with s2(2) True2 len1 False have "round_measure p2 < round_measure p" by (auto simp: round_measure_def)
        with s12 r show ?thesis by simp
      next
        case parsing: True
        obtain o3 ts p3 g3 where 3: "parameter_section p2 = (o3, ts, p3, g3)" by (cases "parameter_section p2") auto
        with assms 1 2 True True2 parsing have r: "out = o1 @ o2 @ o3" "p' = p3" "go = g3" by (auto simp: feed_round_def)
        note s3 = parameter_section_buffer [OF 3]
        have "subseq ((o1 @ o2) @ o3 @ hp_buffer p3) ((o1 @ o2) @ hp_buffer p2)"
          by (rule list_emb_append_mono [OF subseq_order.order_refl s3(1)])
        with s12 r have sub: "subseq (out @ hp_buffer p') (hp_buffer p)" by (auto intro: subseq_order.trans)
        have "length (hp_buffer p3) \<le> length (hp_buffer p2)" using subseq_length [OF s3(1)] by simp
        then have "round_measure p' < round_measure p" if go
          using that r s3(2) start s2(2) True2 len1 len2 by (auto simp: round_measure_def)
        with sub show ?thesis by simp
      qed
    qed
  qed
  then show "subseq (out @ hp_buffer p') (hp_buffer p)" and "go \<Longrightarrow> round_measure p' < round_measure p" by auto
qed

text \<open>\<open>feed\<close>: the loop ends, because every round that goes on shortens the buffer or leaves the
  parameter state.\<close>

function feed_loop :: "(nat \<Rightarrow> pystr) \<Rightarrow> heuristic_parser \<Rightarrow> pystr \<times> tool_use list \<times> heuristic_parser" where
  "feed_loop uuid p =
     (case feed_round uuid p of
        (out, tools, p', go) \<Rightarrow>
          if go then (case feed_loop uuid p' of (out', tools', q) \<Rightarrow> (out @ out', tools @ tools', q))
          else (out, tools, p'))"
  by pat_completeness auto
termination
  by (relation "measure (\<lambda>(_, p). round_measure p)", simp)
    (metis (no_types) in_measure case_prod_conv round_buffer(2))

declare feed_loop.simps [simp del]

definition heuristic_feed :: "(nat \<Rightarrow> pystr) \<Rightarrow> pystr \<Rightarrow> heuristic_parser \<Rightarrow> pystr \<times> tool_use list \<times> heuristic_parser"
  where
  "heuristic_feed uuid text p = feed_loop uuid (p\<lparr>hp_buffer := strip_control_tokens (hp_buffer p @ text)\<rparr>)"

text \<open>\<open>flush\<close>: in the parameter state the call is emitted, with a last parameter that lacks its closing
  tag. The expression there is greedy and ends at the end of the text, so it matches at most once.\<close>

fun search_open_parameter :: "pystr \<Rightarrow> (pystr \<times> pystr) option" where
  "search_open_parameter [] = None"
| "search_open_parameter (c # t) =
     (case match_tag PARAMETER_OPEN (c # t) of Some m \<Rightarrow> Some m | None \<Rightarrow> search_open_parameter t)"

definition heuristic_flush :: "heuristic_parser \<Rightarrow> tool_use list \<times> heuristic_parser" where
  "heuristic_flush p =
     (let p1 = p\<lparr>hp_buffer := strip_control_tokens (hp_buffer p)\<rparr>
      in if hp_state p1 = StParsingParameters
         then let p2 = (case search_open_parameter (hp_buffer p1) of
                          None \<Rightarrow> p1
                        | Some (key, val) \<Rightarrow> p1\<lparr>hp_parameters := dset (strip key) (strip val) (hp_parameters p1)\<rparr>)
              in ([current_tool p2], p2\<lparr>hp_state := StText, hp_buffer := []\<rparr>)
         else ([], p1))"

fun heuristic_feed_all ::
    "(nat \<Rightarrow> pystr) \<Rightarrow> pystr list \<Rightarrow> heuristic_parser \<Rightarrow> pystr \<times> tool_use list \<times> heuristic_parser" where
  "heuristic_feed_all uuid [] p = ([], [], p)"
| "heuristic_feed_all uuid (s # ss) p =
     (case heuristic_feed uuid s p of
        (out, tools, p1) \<Rightarrow>
          (case heuristic_feed_all uuid ss p1 of (out', tools', q) \<Rightarrow> (out @ out', tools @ tools', q)))"

section \<open>Lemmas\<close>

lemma feed_loop_subseq: "feed_loop uuid p = (out, tools, q) \<Longrightarrow> subseq (out @ hp_buffer q) (hp_buffer p)"
proof (induction uuid p arbitrary: out tools q rule: feed_loop.induct)
  case (1 uuid p)
  obtain o1 t1 p1 g where r: "feed_round uuid p = (o1, t1, p1, g)" by (cases "feed_round uuid p") auto
  note sub = round_buffer(1) [OF r]
  show ?case
  proof (cases g)
    case False
    with 1(2) r sub show ?thesis by (auto simp: feed_loop.simps [of uuid p])
  next
    case True
    obtain o2 t2 p2 where l: "feed_loop uuid p1 = (o2, t2, p2)" by (cases "feed_loop uuid p1") auto
    with 1(2) r True have res: "out = o1 @ o2" "q = p2" by (auto simp: feed_loop.simps [of uuid p])
    from 1(1) [OF r [symmetric] _ _ True l] have "subseq (o2 @ hp_buffer p2) (hp_buffer p1)" by simp
    from list_emb_append_mono [OF subseq_order.order_refl [of o1] this] sub res
    show ?thesis by (auto intro: subseq_order.trans)
  qed
qed

lemma strip_control_subseq: "subseq (strip_control_tokens s) s"
proof (induction s rule: strip_control_tokens.induct)
  case (1 s)
  show ?case
  proof (cases s)
    case Nil
    then show ?thesis by (simp add: strip_control_tokens.simps)
  next
    case (Cons c t)
    show ?thesis
    proof (cases "match_control s")
      case None
      with 1 Cons have "subseq (strip_control_tokens t) t" by simp
      with None Cons show ?thesis by (simp add: strip_control_tokens.simps [of "c # t"])
    next
      case (Some r)
      with 1 Cons have "subseq (strip_control_tokens r) r" by simp
      moreover have "subseq r s" using match_control_shorter [OF Some] by (simp add: suffix_imp_subseq)
      ultimately have "subseq (strip_control_tokens r) s" by (rule subseq_order.trans)
      then show ?thesis using Some Cons by (simp add: strip_control_tokens.simps [of "c # t"])
    qed
  qed
qed

lemma feed_all_subseq:
  "heuristic_feed_all uuid ss p = (out, tools, q) \<Longrightarrow> subseq (out @ hp_buffer q) (hp_buffer p @ concat ss)"
proof (induction ss arbitrary: p out tools)
  case (Cons s ss)
  obtain o1 t1 p1 where f: "heuristic_feed uuid s p = (o1, t1, p1)" by (cases "heuristic_feed uuid s p") auto
  obtain o2 t2 p2 where r: "heuristic_feed_all uuid ss p1 = (o2, t2, p2)" by (cases "heuristic_feed_all uuid ss p1") auto
  from f r Cons.prems have res: "out = o1 @ o2" "q = p2" by auto
  have "subseq (o1 @ hp_buffer p1) (hp_buffer p @ s)"
  proof -
    have "subseq (o1 @ hp_buffer p1) (strip_control_tokens (hp_buffer p @ s))"
      using feed_loop_subseq [OF f [unfolded heuristic_feed_def]] by simp
    then show ?thesis using strip_control_subseq by (rule subseq_order.trans)
  qed
  then have "subseq ((o1 @ hp_buffer p1) @ concat ss) ((hp_buffer p @ s) @ concat ss)"
    by (rule list_emb_append_mono [OF _ subseq_order.order_refl])
  moreover have "subseq (o1 @ o2 @ hp_buffer p2) (o1 @ hp_buffer p1 @ concat ss)"
    using Cons.IH [OF r [folded res(2)]] res by (intro list_emb_append_mono [OF subseq_order.order_refl]) simp
  ultimately show ?case using res by (auto intro: subseq_order.trans)
qed simp

section \<open>A complete call\<close>

text \<open>A call as the models write it.\<close>

definition render_parameter :: "pystr \<times> pystr \<Rightarrow> pystr" where
  "render_parameter kv = PARAMETER_OPEN @ fst kv @ [gt] @ snd kv @ PARAMETER_CLOSE"

definition render_call :: "pystr \<Rightarrow> (pystr \<times> pystr) list \<Rightarrow> pystr" where
  "render_call name params = [bullet] @ lit '' '' @ FUNCTION_OPEN @ name @ [gt] @ concat (map render_parameter params)"

text \<open>Names and keys without \<open>>\<close>, values in which no closing tag begins, and no outer white space and no
  bar in any of them.\<close>

definition plain :: "pystr \<Rightarrow> bool" where
  "plain s \<longleftrightarrow> bar \<notin> set s \<and> strip s = s"

definition good_call :: "pystr \<Rightarrow> (pystr \<times> pystr) list \<Rightarrow> bool" where
  "good_call name params \<longleftrightarrow> name \<noteq> [] \<and> plain name \<and> gt \<notin> set name \<and> distinct (map fst params)
     \<and> (\<forall>(k, v) \<in> set params. k \<noteq> [] \<and> plain k \<and> gt \<notin> set k \<and> plain v
          \<and> find_sub PARAMETER_CLOSE (v @ PARAMETER_CLOSE) = Some (length v))"

lemma strip_control_same: "bar \<notin> set s \<Longrightarrow> strip_control_tokens s = s"
proof (induction s)
  case (Cons c t)
  have "match_control (c # t) = None"
    using Cons.prems by (auto simp: match_control_def CONTROL_START_def lit_def bar_def prefix_def)
  with Cons show ?case by (simp add: strip_control_tokens.simps [of "c # t"])
qed (simp add: strip_control_tokens.simps)

lemma match_tag_here:
  assumes "key \<noteq> []" "gt \<notin> set key"
  shows "match_tag opening (opening @ key @ gt # rest) = Some (key, rest)"
proof -
  have "takeWhile (\<lambda>c. c \<noteq> gt) (key @ gt # rest) = key"
    using assms(2) by (subst takeWhile_append2) auto
  with assms(1) show ?thesis by (simp add: match_tag_def Let_def)
qed

lemma find_sub_extend:
  "find_sub p s = Some i \<Longrightarrow> find_sub p (s @ t) = Some i"
proof (induction s arbitrary: i)
  case Nil
  then show ?case by (cases t) (auto split: if_splits)
next
  case (Cons x s)
  show ?case
  proof (cases "prefix p (x # s)")
    case True
    then have "prefix p ((x # s) @ t)" by (rule prefix_prefix)
    with True Cons.prems show ?thesis by simp
  next
    case False
    with Cons.prems obtain k where k: "find_sub p s = Some k" "i = Suc k" by auto
    have "\<not> prefix p (x # s @ t)"
    proof
      assume "prefix p (x # s @ t)"
      moreover have "length p \<le> length (x # s)" using find_sub_bound [OF k(1)] by simp
      ultimately have "prefix p (x # s)" by (metis append_Cons prefix_length_prefix prefixI)
      with False show False by contradiction
    qed
    with Cons.IH [OF k(1)] k(2) show ?thesis by simp
  qed
qed

lemma value_end_here:
  assumes "find_sub PARAMETER_CLOSE (v @ PARAMETER_CLOSE) = Some (length v)"
  shows "value_end (v @ PARAMETER_CLOSE @ rest) = (v, PARAMETER_CLOSE, rest)"
  using find_sub_extend [OF assms, of rest] by (simp add: value_end_def)

lemma search_parameter_here:
  assumes "k \<noteq> []" "gt \<notin> set k" "find_sub PARAMETER_CLOSE (v @ PARAMETER_CLOSE) = Some (length v)"
  shows "search_parameter [] (render_parameter (k, v) @ rest)
     = Some \<lparr>pm_before = [], pm_key = k, pm_value = v, pm_text = render_parameter (k, v), pm_rest = rest\<rparr>"
proof -
  obtain c t where ct: "render_parameter (k, v) @ rest = c # t"
    by (cases "render_parameter (k, v) @ rest") (auto simp: render_parameter_def PARAMETER_OPEN_def)
  have "match_tag PARAMETER_OPEN (c # t) = Some (k, v @ PARAMETER_CLOSE @ rest)"
    unfolding ct [symmetric]
    using match_tag_here [OF assms(1,2), of PARAMETER_OPEN "v @ PARAMETER_CLOSE @ rest"]
    by (simp add: render_parameter_def)
  then show ?thesis
    unfolding ct by (simp add: value_end_here [OF assms(3)] render_parameter_def)
qed

lemma take_parameters_all:
  assumes "\<forall>(k, v) \<in> set params. k \<noteq> [] \<and> plain k \<and> gt \<notin> set k \<and> plain v
          \<and> find_sub PARAMETER_CLOSE (v @ PARAMETER_CLOSE) = Some (length v)"
    and "distinct (map fst (hp_parameters p) @ map fst params)"
    and "hp_buffer p = concat (map render_parameter params)"
  shows "take_parameters p = ([], p\<lparr>hp_parameters := hp_parameters p @ params, hp_buffer := []\<rparr>)"
  using assms
proof (induction params arbitrary: p)
  case Nil
  then show ?case by (simp add: take_parameters.simps)
next
  case (Cons kv params)
  obtain k v where kv: "kv = (k, v)" by (cases kv)
  from Cons.prems(1) kv have g: "k \<noteq> []" "gt \<notin> set k" "strip k = k" "strip v = v"
    "find_sub PARAMETER_CLOSE (v @ PARAMETER_CLOSE) = Some (length v)" by (auto simp: plain_def)
  let ?rest = "concat (map render_parameter params)"
  have m: "search_parameter [] (hp_buffer p)
     = Some \<lparr>pm_before = [], pm_key = k, pm_value = v, pm_text = render_parameter (k, v), pm_rest = ?rest\<rparr>"
    using search_parameter_here [OF g(1,2,5), of ?rest] Cons.prems(3) kv by simp
  have c: "contains (render_parameter (k, v)) PARAMETER_CLOSE"
    by (simp add: contains_iff_sublist render_parameter_def suffix_imp_sublist suffix_appendI suffix_ConsI)
  have new: "dset k v (hp_parameters p) = hp_parameters p @ [(k, v)]"
    using Cons.prems(2) kv by (intro dset_new) auto
  let ?p = "p\<lparr>hp_parameters := hp_parameters p @ [(k, v)], hp_buffer := ?rest\<rparr>"
  have "take_parameters ?p = ([], ?p\<lparr>hp_parameters := hp_parameters ?p @ params, hp_buffer := []\<rparr>)"
    using Cons.prems kv by (intro Cons.IH) auto
  then show ?case
    using m c g new kv by (simp add: take_parameters.simps [of p])
qed

lemma render_no_bar:
  "good_call name params \<Longrightarrow> bar \<notin> set (render_call name params)"
  by (auto simp: render_call_def render_parameter_def good_call_def plain_def FUNCTION_OPEN_def
      PARAMETER_OPEN_def PARAMETER_CLOSE_def bar_def bullet_def gt_def lit_def)

lemma feed_call:
  assumes "good_call name params"
  shows "\<exists>p. heuristic_feed uuid (render_call name params) heuristic_init = ([], [], p)
     \<and> hp_state p = StParsingParameters \<and> hp_buffer p = [] \<and> hp_function_name p = name
     \<and> hp_tool_id p = lit ''toolu_heuristic_'' @ take 8 (uuid 0) \<and> hp_parameters p = params"
proof -
  let ?s = "render_call name params"
  let ?rest = "concat (map render_parameter params)"
  let ?p0 = "heuristic_init\<lparr>hp_buffer := ?s\<rparr>"
  let ?p1 = "?p0\<lparr>hp_state := StMatchingFunction\<rparr>"
  let ?p2 = "?p1\<lparr>hp_function_name := strip name, hp_tool_id := lit ''toolu_heuristic_'' @ take 8 (uuid 0),
      hp_uuids := 1, hp_parameters := [], hp_buffer := ?rest, hp_state := StParsingParameters\<rparr>"
  let ?p3 = "?p2\<lparr>hp_parameters := params, hp_buffer := []\<rparr>"
  have name: "name \<noteq> []" "gt \<notin> set name" "strip name = name"
    using assms by (auto simp: good_call_def plain_def)
  have 1: "text_section ?p0 = ([], ?p1, True)"
    by (simp add: text_section_def render_call_def)
  have space: "is_space (Ch (CHR '' ''))" "\<not> is_space (Ch (CHR ''<''))" by simp_all
  have "lstrip (lit '' '' @ FUNCTION_OPEN @ name @ gt # ?rest) = FUNCTION_OPEN @ name @ gt # ?rest"
    using space by (simp add: lstrip_def FUNCTION_OPEN_def lit_def del: is_space.simps)
  then have "match_function ?s = Some (name, ?rest)"
    using match_tag_here [OF name(1,2), of FUNCTION_OPEN ?rest] by (simp add: match_function_def render_call_def)
  then have "search_function ?s = Some (name, ?rest)"
    by (cases ?s) (simp_all add: match_function_def)
  then have 2: "function_section uuid ?p1 = ([], ?p2, True)"
    by (simp add: function_section_def heuristic_init_def)
  have "take_parameters ?p2 = ([], ?p2\<lparr>hp_parameters := hp_parameters ?p2 @ params, hp_buffer := []\<rparr>)"
    by (rule take_parameters_all) (use assms in \<open>auto simp: good_call_def\<close>)
  then have 3: "parameter_section ?p2 = ([], [], ?p3, False)"
    by (simp add: parameter_section_def)
  have "feed_round uuid ?p0 = ([], [], ?p3, False)"
    using 1 2 3 by (simp add: feed_round_def heuristic_init_def)
  then have "feed_loop uuid ?p0 = ([], [], ?p3)" by (simp add: feed_loop.simps [of uuid ?p0])
  then have "heuristic_feed uuid ?s heuristic_init = ([], [], ?p3)"
    using strip_control_same [OF render_no_bar [OF assms]] by (simp add: heuristic_feed_def heuristic_init_def)
  then show ?thesis using name(3) by (intro exI [of _ ?p3]) simp
qed

section \<open>Properties\<close>

text \<open>The parser never invents or reorders text. However the stream is cut, the text passed on to
  the user, followed by what is still buffered, is a subsequence of what was received.\<close>

theorem heuristic_text_subsequence:
  assumes "heuristic_feed_all uuid ss heuristic_init = (out, tools, p)"
  shows "subseq (out @ hp_buffer p) (concat ss)"
  using feed_all_subseq [OF assms] by (simp add: heuristic_init_def)

theorem heuristic_text_subsequence_witness:
  "\<exists>out tools p. heuristic_feed_all (\<lambda>_. []) [lit ''a<|x|>'', lit ''b''] heuristic_init = (out, tools, p)
     \<and> subseq (out @ hp_buffer p) (lit ''a<|x|>b'')"
proof -
  obtain out tools p where h: "heuristic_feed_all (\<lambda>_. []) [lit ''a<|x|>'', lit ''b''] heuristic_init = (out, tools, p)"
    by (cases "heuristic_feed_all (\<lambda>_. []) [lit ''a<|x|>'', lit ''b''] heuristic_init") auto
  from heuristic_text_subsequence [OF h] h show ?thesis by (simp flip: lit_append)
qed

text \<open>C38: a call written in the expected format and fed at once to a fresh parser is recovered exactly: name, keys and
  values in order, no text is passed on, and the flush emits exactly this one call. None of the name, the keys and the
  values may have a bar or outer white space, the name and the keys must be nonempty and without the sign that ends a
  tag, the keys distinct, and no closing tag may begin in a value.\<close>

theorem heuristic_call_roundtrip:
  assumes "good_call name params"
    and "heuristic_feed uuid (render_call name params) heuristic_init = (out, tools, p)"
    and "heuristic_flush p = (flushed, q)"
  shows "out = [] \<and> tools @ flushed = [\<lparr>tu_id = lit ''toolu_heuristic_'' @ take 8 (uuid 0), tu_name = name,
           tu_input = params\<rparr>] \<and> hp_state q = StText \<and> hp_buffer q = []"
  using feed_call [OF assms(1), of uuid] assms(2,3)
  by (auto simp: heuristic_flush_def strip_control_tokens.simps current_tool_def Let_def)

theorem heuristic_call_roundtrip_witness:
  "\<exists>out tools p flushed q.
     heuristic_feed (\<lambda>_. lit ''0123456789'') (render_call (lit ''Grep'') [(lit ''pattern'', lit ''x'')]) heuristic_init = (out, tools, p)
     \<and> heuristic_flush p = (flushed, q) \<and> tu_input (hd (tools @ flushed)) = [(lit ''pattern'', lit ''x'')]"
proof -
  let ?params = "[(lit ''pattern'', lit ''x'')]"
  have g: "good_call (lit ''Grep'') ?params"
    by (simp add: good_call_def plain_def bar_def gt_def PARAMETER_CLOSE_def lit_def strip_def lstrip_def rstrip_def)
  obtain out tools p where f: "heuristic_feed (\<lambda>_. lit ''0123456789'') (render_call (lit ''Grep'') ?params) heuristic_init = (out, tools, p)"
    by (cases "heuristic_feed (\<lambda>_. lit ''0123456789'') (render_call (lit ''Grep'') ?params) heuristic_init") auto
  obtain flushed q where fl: "heuristic_flush p = (flushed, q)" by force
  from heuristic_call_roundtrip [OF g f fl] f fl show ?thesis by fastforce
qed

text \<open>The beginning of a control token at the start of the buffer is not held back. It is passed on
  although the token is incomplete, so a token split right after such a chunk reaches the user.\<close>

theorem control_fragment_leaks:
  assumes "bar \<notin> set s" and "bullet \<notin> set s"
  shows "\<exists>p. heuristic_feed uuid (CONTROL_START @ s) heuristic_init = (CONTROL_START @ s, [], p) \<and> hp_buffer p = []"
proof -
  let ?s = "CONTROL_START @ s"
  let ?p = "heuristic_init\<lparr>hp_buffer := ?s\<rparr>"
  have s: "?s = Ch (CHR ''<'') # bar # s" by (simp add: CONTROL_START_def lit_def bar_def)
  have "match_control ?s = None"
  proof -
    have "\<not> prefix CONTROL_END (drop n s)" for n
      using assms(1) by (auto simp: CONTROL_END_def lit_def prefix_def bar_def dest: in_set_dropD)
        (metis in_set_dropD list.set_intros(1))
    then show ?thesis by (simp add: match_control_def CONTROL_START_def lit_def Let_def)
  qed
  moreover have "match_control (bar # s) = None"
    by (simp add: match_control_def CONTROL_START_def lit_def bar_def)
  ultimately have strip: "strip_control_tokens ?s = ?s"
    using strip_control_same [OF assms(1)] unfolding s
    by (simp add: strip_control_tokens.simps [of "Ch (CHR ''<'') # bar # s"] strip_control_tokens.simps [of "bar # s"])
  have "find_sub CONTROL_START s = None"
  proof (cases "find_sub CONTROL_START s")
    case (Some i)
    from find_sub_split [OF this] have "bar \<in> set s"
      by (metis CONTROL_START_def Un_iff bar_def lit_def list.set_intros list.simps(9) set_append)
    with assms(1) show ?thesis by contradiction
  qed
  then have "rfind_sub CONTROL_START s = None" by (simp add: rfind_sub_None_iff)
  then have "rfind_sub CONTROL_START ?s = Some 0"
    unfolding s by (simp add: CONTROL_START_def lit_def bar_def)
  then have "text_section ?p = (?s, ?p\<lparr>hp_buffer := []\<rparr>, False)"
    using assms(2)
    by (auto simp: text_section_def split_incomplete_control_token_tail_def CONTROL_START_def lit_def bullet_def
        split: option.splits)
  moreover have "hp_state ?p = StText" by (simp add: heuristic_init_def)
  ultimately have "feed_round uuid ?p = (?s, [], ?p\<lparr>hp_buffer := []\<rparr>, False)"
    unfolding feed_round_def by (simp only: simp_thms if_True prod.case Let_def not_False_eq_True)
  then have "feed_loop uuid ?p = (?s, [], ?p\<lparr>hp_buffer := []\<rparr>)"
    by (subst feed_loop.simps) (simp only: prod.case if_False)
  then show ?thesis using strip by (simp add: heuristic_feed_def heuristic_init_def)
qed

theorem control_fragment_leaks_witness:
  "\<exists>p. heuristic_feed (\<lambda>_. []) (lit ''<|tool_call'') heuristic_init = (lit ''<|tool_call'', [], p) \<and> hp_buffer p = []"
  using control_fragment_leaks [of "lit ''tool_call''" "\<lambda>_. []"]
  by (simp add: CONTROL_START_def lit_def bar_def bullet_def)

end
