(* ===== verification/OpenAICompat.thy ===== *)
theory OpenAICompat
  imports SseProtocol ErrorMapping ThinkParser HeuristicParser
begin

text \<open>
  \<open>providers/openai_compat.py\<close> with the reasoning hook of \<open>providers/open_router/client.py\<close>: the
  translation of a stream of chat completion chunks into an Anthropic event stream. The chunks, the point
  at which the provider fails, the identifiers drawn and the clock are inputs; the two parsers, the event
  builder and the error mapping are those of their theories.
\<close>

section \<open>Chunks\<close>

record tool_delta =
  td_index :: "int option"
  td_id :: "pystr option"
  td_function :: "(pystr option \<times> pystr option) option" \<comment> \<open>name and arguments\<close>

record chunk_delta =
  cd_reasoning_content :: "pystr option"
  cd_reasoning_details :: pyval
  cd_content :: "pystr option"
  cd_tool_calls :: "tool_delta list"

record chunk_choice =
  cc_delta :: "chunk_delta option"
  cc_finish_reason :: "pystr option"

record stream_chunk =
  sc_completion_tokens :: "int option" \<comment> \<open>of \<open>usage\<close>, where the chunk has one\<close>
  sc_choice :: "chunk_choice option" \<comment> \<open>the first choice\<close>

datatype provider_kind = PlainProvider | OpenRouterProvider

text \<open>What the stream reads of its surroundings. Tool identifiers are drawn from \<open>se_uuid\<close>; an exception
  of the language that the modelled code itself raises is presented as \<open>se_internal\<close>.\<close>

record stream_env =
  se_provider :: provider_kind
  se_loads :: "pystr \<Rightarrow> pyval option"
  se_uuid :: "nat \<Rightarrow> pystr"
  se_heuristic_uuid :: "nat \<Rightarrow> pystr"
  se_encoder :: "encoder option"
  se_internal :: "py_error \<Rightarrow> exn"
  se_now :: rat
  se_read_timeout :: "pystr option"
  se_request_id :: "pystr option"

record stream_state = sse_builder +
  st_think :: think_parser
  st_heuristic :: heuristic_parser
  st_finish_reason :: "pystr option"
  st_completion_tokens :: "int option"
  st_uuids :: nat
  st_limiter :: provider_limiter

type_synonym stream_gen = "(sse_event, stream_state, unit) gen"

text \<open>\<open>if s\<close> for an optional string.\<close>

definition nonempty :: "pystr option \<Rightarrow> bool" where
  "nonempty s \<longleftrightarrow> s \<noteq> None \<and> s \<noteq> Some []"

section \<open>Tool calls\<close>

text \<open>\<open>tc.get("id") or f"tool_{uuid.uuid4()}"\<close>, used to start a block.\<close>

definition start_named_tool :: "stream_env \<Rightarrow> int \<Rightarrow> pystr option \<Rightarrow> pystr \<Rightarrow> stream_gen" where
  "start_named_tool env i tool_id name = gyield (\<lambda>s.
     if nonempty tool_id then start_tool_block i (the tool_id) name s
     else start_tool_block i (lit ''tool_'' @ se_uuid env (st_uuids s)) name (s\<lparr>st_uuids := st_uuids s + 1\<rparr>))"

definition tool_name :: "tool_call_state option \<Rightarrow> pystr" where
  "tool_name st = (case st of None \<Rightarrow> [] | Some t \<Rightarrow> tc_name t)"

definition tool_running :: "tool_call_state option \<Rightarrow> bool" where
  "tool_running st \<longleftrightarrow> (case st of None \<Rightarrow> False | Some t \<Rightarrow> tc_started t)"

definition gbuffer :: "stream_env \<Rightarrow> int \<Rightarrow> pystr \<Rightarrow> (sse_event, stream_state, pyval option) gen" where
  "gbuffer env i args = (\<lambda>s. case buffer_task_args (se_loads env) i args s of (s1, r) \<Rightarrow> ([], s1, r))"

definition tool_arguments :: "stream_env \<Rightarrow> int \<Rightarrow> pystr option \<Rightarrow> pystr \<Rightarrow> stream_gen" where
  "tool_arguments env i tool_id args =
     gthen (gstate (\<lambda>s. let st = dget (bm_tool_states s) i in
         if \<not> tool_running st
         then start_named_tool env i tool_id (str_or (tool_name st) (lit ''tool_call'')) else gret ()))
       (gstate (\<lambda>s.
         if tool_name (dget (bm_tool_states s) i) = lit ''Task''
         then gbind (gbuffer env i args) (\<lambda>parsed.
                case parsed of
                  None \<Rightarrow> gret ()
                | Some v \<Rightarrow> gyield_try (emit_tool_delta i (json_dumps v)))
         else gyield_try (emit_tool_delta i args)))"

definition process_tool_call_at ::
    "stream_env \<Rightarrow> int \<Rightarrow> pystr option \<Rightarrow> pystr option \<Rightarrow> pystr option \<Rightarrow> stream_gen" where
  "process_tool_call_at env i tool_id name args =
     gthen (case name of None \<Rightarrow> gret () | Some n \<Rightarrow> gupdate (register_tool_name i n))
     (gthen (gstate (\<lambda>s. let st = dget (bm_tool_states s) i in
         if \<not> tool_running st \<and> (tool_name st \<noteq> [] \<or> nonempty tool_id)
         then start_named_tool env i tool_id (tool_name st) else gret ()))
       (if nonempty args then tool_arguments env i tool_id (the args) else gret ()))"

definition process_tool_call :: "stream_env \<Rightarrow> tool_delta \<Rightarrow> stream_gen" where
  "process_tool_call env tc =
     (case td_function tc of
        None \<Rightarrow> graise AttributeError
      | Some (name, args) \<Rightarrow>
          (case td_index tc of
             None \<Rightarrow> graise TypeError
           | Some index \<Rightarrow> gstate (\<lambda>s.
               process_tool_call_at env (if index < 0 then int (length (bm_tool_states s)) else index)
                 (td_id tc) name args)))"

definition flush_task_args :: "stream_env \<Rightarrow> stream_gen" where
  "flush_task_args env = gstate (\<lambda>s.
     case flush_task_arg_buffers (se_loads env) s of
       (s1, results) \<Rightarrow>
         gthen (gupdate (\<lambda>_. s1)) (gfor (\<lambda>(i, out). gyield_try (emit_tool_delta i out)) results))"

section \<open>Reasoning and text\<close>

definition emit_thinking :: "pystr \<Rightarrow> stream_gen" where
  "emit_thinking s = gthen ensure_thinking_block (gyield (emit_thinking_delta s))"

definition emit_text :: "pystr \<Rightarrow> stream_gen" where
  "emit_text s = gthen ensure_text_block (gyield (emit_text_delta s))"

text \<open>\<open>_handle_extra_reasoning\<close>: nothing, or the reasoning details of OpenRouter. A text there that is not
  a string is outside the model.\<close>

definition detail_text :: "pyval \<Rightarrow> pyval" where
  "detail_text item =
     (case item of
        PDict d \<Rightarrow> (case dget d (lit ''text'') of None \<Rightarrow> PStr [] | Some t \<Rightarrow> t)
      | _ \<Rightarrow> PStr [])"

definition emit_detail :: "pyval \<Rightarrow> stream_gen" where
  "emit_detail item =
     (case detail_text item of
        PStr t \<Rightarrow> if t \<noteq> [] then emit_thinking t else gret ()
      | t \<Rightarrow> if truthy t then graise Unmodelled else gret ())"

definition handle_extra_reasoning :: "provider_kind \<Rightarrow> chunk_delta \<Rightarrow> stream_gen" where
  "handle_extra_reasoning provider delta =
     (case provider of
        PlainProvider \<Rightarrow> gret ()
      | OpenRouterProvider \<Rightarrow>
          (case cd_reasoning_details delta of
             PList items \<Rightarrow> gfor emit_detail items
           | _ \<Rightarrow> gret ()))"

text \<open>A tool call found in the text: three events for a block of its own.\<close>

definition tool_input :: "tool_use \<Rightarrow> pyval" where
  "tool_input tu =
     (let d = map (map_prod id PStr) (tu_input tu)
      in PDict (if tu_name tu = lit ''Task'' then dset (lit ''run_in_background'') (PBool False) d else d))"

definition emit_tool_use :: "tool_use \<Rightarrow> stream_gen" where
  "emit_tool_use tu =
     gthen close_content_blocks
       (gstate (\<lambda>s. let block_idx = fst (allocate_index s) in
          gthen (gyield (\<lambda>s. (BlockStart block_idx (ToolUseBlock (tu_id tu) (tu_name tu)), snd (allocate_index s))))
          (gthen (gyield (\<lambda>s. (BlockDelta block_idx (InputJsonDelta (json_dumps (tool_input tu))), s)))
            (gyield (\<lambda>s. (BlockStop block_idx, s))))))"

definition emit_part :: "stream_env \<Rightarrow> content_chunk \<Rightarrow> stream_gen" where
  "emit_part env part =
     (case part of
        (THINKING, content) \<Rightarrow> emit_thinking content
      | (TEXT, content) \<Rightarrow> gstate (\<lambda>s.
          case heuristic_feed (se_heuristic_uuid env) content (st_heuristic s) of
            (filtered_text, detected_tools, hp) \<Rightarrow>
              gthen (gupdate (\<lambda>s. s\<lparr>st_heuristic := hp\<rparr>))
              (gthen (if filtered_text \<noteq> [] then emit_text filtered_text else gret ())
                (gfor emit_tool_use detected_tools))))"

definition emit_content :: "stream_env \<Rightarrow> pystr \<Rightarrow> stream_gen" where
  "emit_content env content = gstate (\<lambda>s.
     case think_feed content (st_think s) of
       (parts, tp) \<Rightarrow> gthen (gupdate (\<lambda>s. s\<lparr>st_think := tp\<rparr>)) (gfor (emit_part env) parts))"

section \<open>The stream\<close>

definition process_delta :: "stream_env \<Rightarrow> chunk_delta \<Rightarrow> stream_gen" where
  "process_delta env delta =
     gthen (if nonempty (cd_reasoning_content delta) then emit_thinking (the (cd_reasoning_content delta)) else gret ())
     (gthen (handle_extra_reasoning (se_provider env) delta)
     (gthen (if nonempty (cd_content delta) then emit_content env (the (cd_content delta)) else gret ())
       (if cd_tool_calls delta \<noteq> []
        then gthen close_content_blocks (gfor (process_tool_call env) (cd_tool_calls delta)) else gret ())))"

definition process_chunk :: "stream_env \<Rightarrow> stream_chunk \<Rightarrow> stream_gen" where
  "process_chunk env ch =
     gthen (gupdate (\<lambda>s. case sc_completion_tokens ch of None \<Rightarrow> s | Some n \<Rightarrow> s\<lparr>st_completion_tokens := Some n\<rparr>))
       (case sc_choice ch of
          None \<Rightarrow> gret ()
        | Some choice \<Rightarrow>
            (case cc_delta choice of
               None \<Rightarrow> gret ()
             | Some delta \<Rightarrow>
                 gthen (gupdate (\<lambda>s. if nonempty (cc_finish_reason choice)
                                      then s\<lparr>st_finish_reason := cc_finish_reason choice\<rparr> else s))
                   (process_delta env delta)))"

text \<open>The handler of an exception in the loop: the mapped error becomes a text block.\<close>

definition report_error :: "stream_env \<Rightarrow> exn \<Rightarrow> stream_gen" where
  "report_error env e = gstate (\<lambda>s.
     case map_error (se_now env) e (st_limiter s) of
       (mapped, l) \<Rightarrow>
         gthen (gupdate (\<lambda>s. s\<lparr>st_limiter := l\<rparr>))
         (gthen close_content_blocks
           (emit_error (append_request_id (get_user_facing_error_message mapped (se_read_timeout env))
             (se_request_id env)))))"

text \<open>The \<open>try\<close> block: the loop over the chunks, which the provider ends normally or with an exception;
  the result tells whether an error was reported.\<close>

definition stream_chunks ::
    "stream_env \<Rightarrow> stream_chunk list \<Rightarrow> exn option \<Rightarrow> (sse_event, stream_state, bool) gen" where
  "stream_chunks env chunks failure = (\<lambda>s.
     case gfor (process_chunk env) chunks s of
       (es, s1, r) \<Rightarrow>
         (case (case r of Inl e \<Rightarrow> Some (se_internal env e) | Inr _ \<Rightarrow> failure) of
            None \<Rightarrow> (es, s1, Inr False)
          | Some e \<Rightarrow> (case report_error env e s1 of
                         (es', s2, r') \<Rightarrow> (es @ es', s2, rbind r' (\<lambda>_. Inr True)))))"

text \<open>What the parsers still hold.\<close>

definition flush_parsers :: stream_gen where
  "flush_parsers =
     gthen (gstate (\<lambda>s.
       case think_flush (st_think s) of
         (remaining, tp) \<Rightarrow>
           gthen (gupdate (\<lambda>s. s\<lparr>st_think := tp\<rparr>))
             (case remaining of
                None \<Rightarrow> gret ()
              | Some (THINKING, content) \<Rightarrow> emit_thinking content
              | Some (TEXT, content) \<Rightarrow> emit_text content)))
     (gstate (\<lambda>s.
       case heuristic_flush (st_heuristic s) of
         (tools, hp) \<Rightarrow> gthen (gupdate (\<lambda>s. s\<lparr>st_heuristic := hp\<rparr>)) (gfor emit_tool_use tools)))"

definition output_tokens :: "stream_env \<Rightarrow> stream_state \<Rightarrow> int result" where
  "output_tokens env s =
     (case st_completion_tokens s of Some n \<Rightarrow> Inr n | None \<Rightarrow> estimate_output_tokens (se_encoder env) s)"

text \<open>The number of tokens is found when all blocks are closed, outside of the \<open>try\<close> block.\<close>

definition finish_message :: "stream_env \<Rightarrow> stream_gen" where
  "finish_message env = gstate (\<lambda>s.
     case output_tokens env s of
       Inl e \<Rightarrow> graise e
     | Inr n \<Rightarrow> gthen (gyield (message_delta (map_stop_reason (st_finish_reason s)) n)) (gyield message_stop))"

definition stream_response :: "stream_env \<Rightarrow> stream_chunk list \<Rightarrow> exn option \<Rightarrow> stream_gen" where
  "stream_response env chunks failure =
     gthen (gyield message_start)
     (gbind (stream_chunks env chunks failure) (\<lambda>error_occurred.
       gthen flush_parsers
       (gthen (gwhen (\<lambda>s. \<not> error_occurred \<and> bm_text_index s = - 1 \<and> bm_tool_states s = []) (emit_text (lit '' '')))
       (gthen (flush_task_args env)
       (gthen close_all_blocks
         (finish_message env))))))"

definition stream_init :: "pystr \<Rightarrow> pystr \<Rightarrow> int \<Rightarrow> provider_limiter \<Rightarrow> stream_state" where
  "stream_init message_id model input_tokens l =
     sse_builder.extend (sse_init message_id model input_tokens)
       \<lparr>st_think = think_init, st_heuristic = heuristic_init, st_finish_reason = None,
        st_completion_tokens = None, st_uuids = 0, st_limiter = l\<rparr>"

text \<open>The events of a response.\<close>

definition response_events ::
    "stream_env \<Rightarrow> pystr \<Rightarrow> pystr \<Rightarrow> int \<Rightarrow> provider_limiter \<Rightarrow> stream_chunk list \<Rightarrow> exn option \<Rightarrow> sse_event list"
  where
  "response_events env message_id model input_tokens l chunks failure =
     fst (stream_response env chunks failure (stream_init message_id model input_tokens l))"

section \<open>Every response is a complete event stream\<close>

abbreviation keeps_step :: "bool \<Rightarrow> stream_gen \<Rightarrow> bool" where
  "keeps_step E m \<equiv> sse_guarded E (\<lambda>_. True) m (\<lambda>_ _. True)"

lemma keeps_gthen: "keeps_step E m \<Longrightarrow> keeps_step E n \<Longrightarrow> keeps_step E (gthen m n)"
  by (rule guarded_gthen)

lemma keeps_gret: "keeps_step E (gret ())"
  by (rule guarded_gret) simp

lemma keeps_raise: "keeps_step True (graise e)"
  by (rule guarded_graise) simp

lemma keeps_gstate: "(\<And>t. keeps_step E (f t)) \<Longrightarrow> keeps_step E (gstate f)"
  by (rule guarded_gstate) (rule guarded_pre, auto)

lemma keeps_gfor: "(\<And>x. keeps_step E (f x)) \<Longrightarrow> keeps_step E (gfor f xs)"
  by (rule guarded_gfor) simp

lemma keeps_if: "keeps_step E m \<Longrightarrow> keeps_step E n \<Longrightarrow> keeps_step E (if b then m else n)"
  by simp

lemma keeps_gupdate: "(\<And>s c. in_step s c \<Longrightarrow> in_step (f s) c) \<Longrightarrow> keeps_step E (gupdate f)"
  by (rule guarded_gupdate) simp

text \<open>The fields of the stream that the event builder does not know do not matter to it.\<close>

lemma in_step_stream [simp]:
  "in_step (s\<lparr>st_think := a\<rparr>) c = in_step s c" "in_step (s\<lparr>st_heuristic := b\<rparr>) c = in_step s c"
  "in_step (s\<lparr>st_finish_reason := f\<rparr>) c = in_step s c" "in_step (s\<lparr>st_completion_tokens := n\<rparr>) c = in_step s c"
  "in_step (s\<lparr>st_uuids := k\<rparr>) c = in_step s c" "in_step (s\<lparr>st_limiter := l\<rparr>) c = in_step s c"
  by (simp_all add: in_step_def blocks_ok_def open_blocks_def)

lemma keeps_thinking: "keeps_step E (emit_thinking s)"
  unfolding emit_thinking_def by (rule guarded_gthen [OF guarded_ensure_thinking guarded_thinking_delta])

lemma keeps_text: "keeps_step E (emit_text s)"
  unfolding emit_text_def by (rule guarded_gthen [OF guarded_ensure_text guarded_text_delta])

lemma keeps_close: "keeps_step E close_content_blocks"
  by (rule guarded_close_content)

lemma keeps_tool_use: "keeps_step E (emit_tool_use tu)"
  unfolding emit_tool_use_def
proof (rule keeps_gthen [OF keeps_close], rule guardedI)
  let ?b = "ToolUseBlock (tu_id tu) (tu_name tu)" and ?d = "InputJsonDelta (json_dumps (tool_input tu))"
  fix s :: stream_state and c es s' r
  assume s: "in_step s c"
    and m: "gstate (\<lambda>s. let block_idx = fst (allocate_index s) in
      gthen (gyield (\<lambda>s. (BlockStart block_idx ?b, snd (allocate_index s))))
      (gthen (gyield (\<lambda>s. (BlockDelta block_idx ?d, s))) (gyield (\<lambda>s. (BlockStop block_idx, s))))) s = (es, s', r)"
  let ?n = "bm_next_index s"
  have "es = [BlockStart ?n ?b, BlockDelta ?n ?d, BlockStop ?n]" "s' = snd (allocate_index s)" "r = Inr ()"
    using m by (auto simp: gstate_def gthen_def gbind_def gyield_def allocate_index_def Let_def)
  with whole_block [OF s, of ?d ?b]
  show "\<exists>c'. monitor client_step c es = Some c' \<and> in_step s' c' \<and> (case r of Inl _ \<Rightarrow> E | Inr a \<Rightarrow> True)"
    by simp
qed

lemma keeps_part: "keeps_step E (emit_part env part)"
proof -
  obtain ty content where part: "part = (ty, content)" by force
  have "keeps_step E (gstate (\<lambda>s.
          case heuristic_feed (se_heuristic_uuid env) content (st_heuristic s) of
            (filtered_text, detected_tools, hp) \<Rightarrow>
              gthen (gupdate (\<lambda>s. s\<lparr>st_heuristic := hp\<rparr>))
              (gthen (if filtered_text \<noteq> [] then emit_text filtered_text else gret ())
                (gfor emit_tool_use detected_tools))))"
    unfolding split_beta
    by (intro keeps_gstate keeps_gthen keeps_if keeps_gfor keeps_gupdate keeps_text keeps_gret keeps_tool_use) simp
  with keeps_thinking part show ?thesis by (cases ty) (simp_all add: emit_part_def)
qed

lemma keeps_content: "keeps_step E (emit_content env content)"
  unfolding emit_content_def split_beta
  by (intro keeps_gstate keeps_gthen keeps_gfor keeps_gupdate keeps_part) simp

lemma keeps_extra: "keeps_step True (handle_extra_reasoning provider delta)"
proof -
  have "keeps_step True (emit_detail item)" for item
    by (auto simp: emit_detail_def intro: keeps_thinking keeps_gret keeps_raise split: pyval.split)
  then show ?thesis
    by (auto simp: handle_extra_reasoning_def intro: keeps_gfor keeps_gret split: provider_kind.split pyval.split)
qed

text \<open>Starting a tool, and the arguments of a tool that runs.\<close>

lemma guarded_start_named:
  assumes "\<And>s. P s \<Longrightarrow> \<not> tool_running (dget (bm_tool_states s) i)"
  shows "sse_guarded E P (start_named_tool env i tool_id name) (\<lambda>_ s. tool_running (dget (bm_tool_states s) i))"
  unfolding start_named_tool_def
proof (rule guarded_gyield)
  fix s :: stream_state and c
  assume s: "P s" "in_step s c"
  have new: "\<And>st. dget (bm_tool_states s) i = Some st \<Longrightarrow> \<not> tc_started st"
    using assms [OF s(1)] by (simp add: tool_running_def)
  have run: "tool_running (dget (bm_tool_states (snd (start_tool_block i t name s'))) i)" for t and s' :: stream_state
    by (auto simp: tool_running_def block_defs dict_simps split: option.split)
  have start: "\<exists>c'. client_step c (fst (start_tool_block i t name s')) = Some c'
      \<and> in_step (snd (start_tool_block i t name s')) c'"
    if "in_step s' c" "bm_tool_states s' = bm_tool_states s" for t and s' :: stream_state
    using yield_start_tool [of s' c i t name] that new by simp
  show "\<exists>c'. client_step c (fst (if nonempty tool_id then start_tool_block i (the tool_id) name s
          else start_tool_block i (lit ''tool_'' @ se_uuid env (st_uuids s)) name (s\<lparr>st_uuids := st_uuids s + 1\<rparr>))) = Some c'
      \<and> in_step (snd (if nonempty tool_id then start_tool_block i (the tool_id) name s
          else start_tool_block i (lit ''tool_'' @ se_uuid env (st_uuids s)) name (s\<lparr>st_uuids := st_uuids s + 1\<rparr>))) c'
      \<and> tool_running (dget (bm_tool_states (snd (if nonempty tool_id then start_tool_block i (the tool_id) name s
          else start_tool_block i (lit ''tool_'' @ se_uuid env (st_uuids s)) name (s\<lparr>st_uuids := st_uuids s + 1\<rparr>)))) i)"
    using start [of s] start [of "s\<lparr>st_uuids := st_uuids s + 1\<rparr>"] run s(2) by simp
qed

lemma guarded_tool_delta:
  "sse_guarded E (\<lambda>s :: stream_state. tool_running (dget (bm_tool_states s) i)) (gyield_try (emit_tool_delta i content)) (\<lambda>_ _. True)"
proof (rule guarded_gyield_try)
  fix s :: stream_state and c
  assume s: "tool_running (dget (bm_tool_states s) i)" "in_step s c"
  then obtain st where "dget (bm_tool_states s) i = Some st" "tc_started st"
    by (auto simp: tool_running_def split: option.splits)
  from yield_tool_delta [OF s(2) this, of content]
  show "case emit_tool_delta i content s of Inl _ \<Rightarrow> E
      | Inr (e, s1) \<Rightarrow> \<exists>c'. client_step c e = Some c' \<and> in_step s1 c' \<and> True" by auto
qed

lemma guarded_buffer:
  "sse_guarded True (\<lambda>s. tool_running (dget (bm_tool_states s) i)) (gbuffer env i args)
     (\<lambda>_ s. tool_running (dget (bm_tool_states s) i))"
proof (rule guardedI)
  fix s :: stream_state and c es s' r
  assume s: "tool_running (dget (bm_tool_states s) i)" "in_step s c" and m: "gbuffer env i args s = (es, s', r)"
  then obtain st where st: "dget (bm_tool_states s) i = Some st" "tc_started st"
    by (auto simp: tool_running_def split: option.splits)
  have one: "in_step (put_tool i (st\<lparr>tc_task_arg_buffer := b\<rparr>) s) c" for b
    by (rule in_step_put_tool [OF s(2) st(1)]) (simp_all add: st)
  have two: "in_step (put_tool i (st\<lparr>tc_task_args_emitted := True, tc_task_arg_buffer := []\<rparr>)
      (put_tool i (st\<lparr>tc_task_arg_buffer := b\<rparr>) s)) c" for b
    by (rule in_step_put_tool [OF one, where st = "st\<lparr>tc_task_arg_buffer := b\<rparr>"])
      (simp_all add: st put_tool_def dict_simps)
  have "es = [] \<and> in_step s' c \<and> tool_running (dget (bm_tool_states s') i)"
    using m st s(1,2) one two
    by (auto simp: gbuffer_def buffer_task_args_def Let_def tool_running_def put_tool_def dict_simps
        split: if_splits option.splits sum.splits)
  then show "\<exists>c'. monitor client_step c es = Some c' \<and> in_step s' c'
      \<and> (case r of Inl _ \<Rightarrow> True | Inr a \<Rightarrow> tool_running (dget (bm_tool_states s') i))"
    by (auto split: sum.split)
qed

lemma keeps_tool_arguments: "keeps_step True (tool_arguments env i tool_id args)"
  unfolding tool_arguments_def Let_def
proof (rule guarded_gthen [where R = "\<lambda>s. tool_running (dget (bm_tool_states s) i)"], goal_cases)
  case 1
  show ?case
    by (rule guarded_gstate, rule guarded_if) (auto intro!: guarded_start_named guarded_gret)
next
  case 2
  have "sse_guarded True (\<lambda>s :: stream_state. tool_running (dget (bm_tool_states s) i))
     (case parsed of None \<Rightarrow> gret () | Some v \<Rightarrow> gyield_try (emit_tool_delta i (json_dumps v))) (\<lambda>_ _. True)" for parsed
    by (cases parsed) (simp_all add: guarded_tool_delta guarded_gret)
  note delta = this
  have "sse_guarded True (\<lambda>s. tool_running (dget (bm_tool_states s) i)) (gbind (gbuffer env i args) (\<lambda>parsed.
      case parsed of None \<Rightarrow> gret () | Some v \<Rightarrow> gyield_try (emit_tool_delta i (json_dumps v)))) (\<lambda>_ _. True)"
    by (rule guarded_gbind [OF guarded_buffer delta])
  then show ?case
    by (intro guarded_gstate guarded_if) (rule guarded_pre, assumption, simp, rule guarded_pre, rule guarded_tool_delta, simp)
qed

lemma keeps_tool_call: "keeps_step True (process_tool_call env tc)"
proof -
  have "keeps_step True (process_tool_call_at env i tool_id name args)" for i tool_id name args
    unfolding process_tool_call_at_def Let_def
  proof (rule keeps_gthen, goal_cases)
    case 1
    show ?case by (cases name) (auto intro: keeps_gret keeps_gupdate in_step_register)
  next
    case 2
    show ?case
    proof (rule keeps_gthen, goal_cases)
      case 1
      show ?case
      proof (rule guarded_gstate, rule guarded_if)
        fix t :: stream_state
        assume "\<not> tool_running (dget (bm_tool_states t) i) \<and> (tool_name (dget (bm_tool_states t) i) \<noteq> [] \<or> nonempty tool_id)"
        then show "sse_guarded True (\<lambda>s. True \<and> s = t) (start_named_tool env i tool_id (tool_name (dget (bm_tool_states t) i)))
            (\<lambda>_ _. True)"
          by (intro guarded_post [OF guarded_start_named]) auto
      qed (rule guarded_gret, simp)
    qed (auto intro: keeps_if keeps_tool_arguments keeps_gret)
  qed
  then show ?thesis
    by (auto simp: process_tool_call_def intro!: keeps_raise keeps_gstate split: option.split)
qed

lemma keeps_delta: "keeps_step True (process_delta env delta)"
  unfolding process_delta_def
  by (intro keeps_gthen keeps_if keeps_thinking keeps_gret keeps_extra keeps_content keeps_close keeps_gfor
    keeps_tool_call)

lemma keeps_chunk: "keeps_step True (process_chunk env ch)"
  unfolding process_chunk_def
  by (intro keeps_gthen keeps_gupdate)
    (auto intro!: keeps_gret keeps_gthen keeps_gupdate keeps_delta split: option.split)

lemma keeps_report: "keeps_step False (report_error env e)"
  unfolding report_error_def split_beta
  by (intro keeps_gstate keeps_gthen keeps_gupdate keeps_close guarded_emit_error) simp

lemma guarded_stream_chunks:
  "sse_guarded False (\<lambda>_. True) (stream_chunks env chunks failure) (\<lambda>_ _. True)"
proof (rule guardedI)
  fix s c es2 s2 r2
  assume s: "in_step s c" and m: "stream_chunks env chunks failure s = (es2, s2, r2)"
  obtain es s1 r where one: "gfor (process_chunk env) chunks s = (es, s1, r)" by (cases "gfor (process_chunk env) chunks s")
  from guardedD [OF keeps_gfor [OF keeps_chunk] TrueI s one] obtain c1 where
    c1: "monitor client_step c es = Some c1" "in_step s1 c1" by blast
  show "\<exists>c'. monitor client_step c es2 = Some c' \<and> in_step s2 c' \<and> (case r2 of Inl _ \<Rightarrow> False | Inr a \<Rightarrow> True)"
  proof (cases "case r of Inl e \<Rightarrow> Some (se_internal env e) | Inr _ \<Rightarrow> failure")
    case None
    with m one c1 show ?thesis by (auto simp: stream_chunks_def)
  next
    case (Some e)
    obtain es' s' r' where two: "report_error env e s1 = (es', s', r')" by (cases "report_error env e s1")
    from guardedD [OF keeps_report TrueI c1(2) two] obtain c2 where
      "monitor client_step c1 es' = Some c2" "in_step s' c2" "case r' of Inl _ \<Rightarrow> False | Inr a \<Rightarrow> True" by blast
    with m one two c1 Some show ?thesis by (cases r') (auto simp: stream_chunks_def monitor_append)
  qed
qed

lemma keeps_flush_parsers: "keeps_step E flush_parsers"
  unfolding flush_parsers_def split_beta
  by (intro keeps_gthen keeps_gstate keeps_gupdate keeps_gfor keeps_tool_use)
    (auto intro: keeps_thinking keeps_text keeps_gret split: option.split content_type.split)

text \<open>Every buffer that is flushed belongs to a tool that runs.\<close>

lemma flush_items_step:
  assumes "in_step b c" "dict_ok items" "\<And>i st. (i, st) \<in> set items \<Longrightarrow> dget (bm_tool_states b) i = Some st"
    "flush_items loads items b = (b', results)"
  shows "in_step b' c \<and> (\<forall>i. tool_running (dget (bm_tool_states b) i) \<longrightarrow> tool_running (dget (bm_tool_states b') i))
    \<and> (\<forall>(i, out) \<in> set results. tool_running (dget (bm_tool_states b) i))"
  using assms
proof (induction items arbitrary: b results)
  case (Cons x items)
  obtain i st where x: "x = (i, st)" by force
  from Cons.prems(3) x have st: "dget (bm_tool_states b) i = Some st" by simp
  show ?case
  proof (cases "tc_task_arg_buffer st = [] \<or> tc_task_args_emitted st")
    case True
    with Cons.prems x have f: "flush_items loads items b = (b', results)" by auto
    have "in_step b c" "dict_ok items" "\<And>i st. (i, st) \<in> set items \<Longrightarrow> dget (bm_tool_states b) i = Some st"
      using Cons.prems by auto
    from Cons.IH [OF this f] show ?thesis .
  next
    case False
    from Cons.prems(1) have "buffers_ok (bm_tool_states b)" by (auto simp: in_step_def blocks_ok_def)
    with st False have run: "tc_started st" using buffers_ok_get by blast
    let ?st = "st\<lparr>tc_task_args_emitted := True, tc_task_arg_buffer := []\<rparr>"
    let ?b = "put_tool i ?st b"
    obtain results1 where f: "flush_items loads items ?b = (b', results1)"
      and results: "results = (i, flushed_args loads (tc_task_arg_buffer st)) # results1"
      using Cons.prems(4) x False by (cases "flush_items loads items ?b") auto
    have b: "in_step ?b c" by (rule in_step_put_tool [OF Cons.prems(1) st]) simp_all
    have other: "dget (bm_tool_states ?b) j = Some t" if "(j, t) \<in> set items" for j t
    proof -
      have "j \<noteq> i" using that Cons.prems(2) x by (auto simp: image_iff)
      with that Cons.prems(3) [of j t] show ?thesis by (simp add: put_tool_def dict_simps)
    qed
    have items: "dict_ok items" using Cons.prems(2) by simp
    have same: "tool_running (dget (bm_tool_states ?b) j) = tool_running (dget (bm_tool_states b) j)" for j
      using st by (simp add: put_tool_def dict_simps tool_running_def)
    from Cons.IH [OF b items other f] show ?thesis
      unfolding same results using run st by (auto simp: tool_running_def)
  qed
qed auto

lemma keeps_flush_task_args: "keeps_step False (flush_task_args env)"
proof (rule guardedI)
  fix s c es s' r
  assume s: "in_step s c" and m: "flush_task_args env s = (es, s', r)"
  obtain s1 results where f: "flush_task_arg_buffers (se_loads env) s = (s1, results)" by force
  have d: "dict_ok (bm_tool_states s)" using s by (simp add: in_step_def blocks_ok_def)
  have s1: "in_step s1 c" "\<And>i out. (i, out) \<in> set results \<Longrightarrow> tool_running (dget (bm_tool_states s1) i)"
    using flush_items_step [OF s d _ f [unfolded flush_task_arg_buffers_def]] d by auto
  let ?P = "\<lambda>s :: stream_state. \<forall>(i, out) \<in> set results. tool_running (dget (bm_tool_states s) i)"
  have "sse_guarded False ?P (gfor (\<lambda>(i, out). gyield_try (emit_tool_delta i out)) results) (\<lambda>_. ?P)"
  proof (rule guarded_gfor)
    fix x
    assume x: "x \<in> set results"
    obtain i out where io: "x = (i, out)" by force
    have "sse_guarded False ?P (gyield_try (emit_tool_delta i out)) (\<lambda>_. ?P)"
    proof (rule guarded_gyield_try)
      fix t :: stream_state and c
      assume t: "?P t" "in_step t c"
      then obtain st where st: "dget (bm_tool_states t) i = Some st" "tc_started st"
        using x io by (fastforce simp: tool_running_def split: option.splits)
      from yield_tool_delta [OF t(2) st, of out] st t(1)
      show "case emit_tool_delta i out t of Inl _ \<Rightarrow> False
          | Inr (e, s1) \<Rightarrow> \<exists>c'. client_step c e = Some c' \<and> in_step s1 c' \<and> ?P s1"
        by (auto simp: emit_tool_delta_def put_tool_def dict_simps tool_running_def)
    qed
    with io show "sse_guarded False ?P (case x of (i, out) \<Rightarrow> gyield_try (emit_tool_delta i out)) (\<lambda>_. ?P)" by simp
  qed
  note g = this
  have P: "?P s1" using s1(2) by auto
  have run: "gfor (\<lambda>(i, out). gyield_try (emit_tool_delta i out)) results s1 = (es, s', r)"
    using m f by (auto simp: flush_task_args_def gstate_def gthen_def gbind_def gupdate_def split: prod.splits)
  from guardedD [OF g P s1(1) run]
  show "\<exists>c'. monitor client_step c es = Some c' \<and> in_step s' c' \<and> (case r of Inl _ \<Rightarrow> False | Inr a \<Rightarrow> True)"
    by (auto split: sum.splits)
qed

text \<open>How a response stands when it is over: complete, or cut off with all its blocks closed, because the encoder
  refused a text.\<close>

definition ended_well :: "stream_env \<Rightarrow> unit result \<Rightarrow> client \<Rightarrow> bool" where
  "ended_well env result c \<longleftrightarrow>
     (case result of
        Inr _ \<Rightarrow> (\<exists>n. c = Complete n)
      | Inl e \<Rightarrow> (\<exists>n. c = Reading n []) \<and> (\<exists>tokens text. se_encoder env = Some tokens \<and> tokens text = Inl e))"

lemma finish_ends:
  assumes "finish_message env s = (es, s', r)"
  shows "\<exists>c. monitor client_step (Reading n []) es = Some c \<and> ended_well env r c"
proof (cases "output_tokens env s")
  case (Inl e)
  then have "st_completion_tokens s = None" "estimate_output_tokens (se_encoder env) s = Inl e"
    by (auto simp: output_tokens_def split: option.splits)
  from estimate_raises [OF this(2)] Inl assms show ?thesis
    by (auto simp: finish_message_def gstate_def graise_def ended_well_def)
next
  case (Inr m)
  with assms show ?thesis
    by (auto simp: finish_message_def gstate_def gthen_def gbind_def gyield_def message_delta_def message_stop_def ended_well_def)
qed

lemma response_complete:
  "\<exists>c es. response_events env message_id model input_tokens l chunks failure = MessageStart message_id model input_tokens # es
     \<and> monitor client_step Waiting (MessageStart message_id model input_tokens # es) = Some c
     \<and> ended_well env (snd (snd (stream_response env chunks failure (stream_init message_id model input_tokens l)))) c"
proof -
  let ?s0 = "stream_init message_id model input_tokens l"
  let ?filler = "\<lambda>error. gwhen (\<lambda>s. \<not> error \<and> bm_text_index s = - 1 \<and> bm_tool_states s = []) (emit_text (lit '' ''))"
  define body :: stream_gen where
    "body = gbind (stream_chunks env chunks failure) (\<lambda>error. gthen flush_parsers
       (gthen (?filler error) (flush_task_args env)))"
  have body: "keeps_step False body"
    unfolding body_def
    by (intro guarded_gbind [OF guarded_stream_chunks] keeps_gthen keeps_flush_parsers keeps_flush_task_args guarded_gwhen)
      (auto intro: guarded_pre [OF keeps_text])
  have assoc: "stream_response env chunks failure
      = gthen (gyield message_start) (gthen body (gthen close_all_blocks (finish_message env)))"
    unfolding stream_response_def body_def gthen_def gbind_assoc ..
  have start: "in_step ?s0 (Reading 0 [])"
    by (simp add: in_step_def blocks_ok_def open_blocks_def open_tools_def buffers_ok_def stream_init_def sse_init_def
        sse_builder.defs)
  obtain es1 s1 r1 where one: "body ?s0 = (es1, s1, r1)" by (cases "body ?s0")
  from guardedD [OF body TrueI start one] obtain c1 where c1: "monitor client_step (Reading 0 []) es1 = Some c1"
    "in_step s1 c1" "r1 = Inr ()" by (auto split: sum.splits)
  obtain es2 s2 r2 where two: "close_all_blocks s1 = (es2, s2, r2)" by (cases "close_all_blocks s1")
  from close_all_closes [OF c1(2) two] have c2: "monitor client_step c1 es2 = Some (Reading (bm_next_index s1) [])" "r2 = Inr ()"
    by auto
  obtain es3 s3 r3 where three: "finish_message env s2 = (es3, s3, r3)" by (cases "finish_message env s2")
  from finish_ends [OF three] obtain c3 where c3: "monitor client_step (Reading (bm_next_index s1) []) es3 = Some c3" "ended_well env r3 c3"
    by blast
  have "stream_response env chunks failure ?s0 = (MessageStart message_id model input_tokens # es1 @ es2 @ es3, s3, r3)"
    unfolding assoc
    using one two three c1(3) c2(2)
    by (simp add: gthen_def gbind_def gyield_def message_start_def stream_init_def sse_init_def sse_builder.defs)
  with c1(1) c2(1) c3 show ?thesis
    by (simp add: response_events_def monitor_append)
qed


text \<open>An encoder that refuses the text of the answer takes the end of the stream away.\<close>

lemma refused_text_breaks_answer:
  assumes "output_tokens env s = Inl e"
  shows "finish_message env s = ([], s, Inl e)"
  using assms by (simp add: finish_message_def gstate_def graise_def)

section \<open>Arguments of the Task tool\<close>

definition argument_delta :: "int \<Rightarrow> pystr \<Rightarrow> tool_delta" where
  "argument_delta i args = \<lparr>td_index = Some i, td_id = None, td_function = Some (None, Some args)\<rparr>"

text \<open>A Task tool that runs and still waits for its arguments, of which it has \<open>buffer\<close>.\<close>

definition task_waiting :: "int \<Rightarrow> int \<Rightarrow> pystr \<Rightarrow> 'a sse_builder_scheme \<Rightarrow> bool" where
  "task_waiting i block buffer s \<longleftrightarrow>
     (case dget (bm_tool_states s) i of
        None \<Rightarrow> False
      | Some st \<Rightarrow> tc_started st \<and> tc_name st = lit ''Task'' \<and> \<not> tc_task_args_emitted st
          \<and> tc_task_arg_buffer st = buffer \<and> tc_block_index st = block)"

definition task_served :: "int \<Rightarrow> 'a sse_builder_scheme \<Rightarrow> bool" where
  "task_served i s \<longleftrightarrow>
     (case dget (bm_tool_states s) i of
        None \<Rightarrow> False
      | Some st \<Rightarrow> tc_started st \<and> tc_name st = lit ''Task'' \<and> tc_task_args_emitted st)"

lemmas tool_call_defs = process_tool_call_def argument_delta_def process_tool_call_at_def tool_arguments_def
  gthen_def gbind_def gret_def gstate_def gbuffer_def buffer_task_args_def gyield_try_def emit_tool_delta_def
  tool_running_def tool_name_def nonempty_def put_tool_def Let_def

lemma task_delta_waits:
  assumes "task_waiting i block buffer s" "0 \<le> i" "args \<noteq> []" "se_loads env (buffer @ args) = None"
  shows "\<exists>s'. process_tool_call env (argument_delta i args) s = ([], s', Inr ()) \<and> task_waiting i block (buffer @ args) s'"
  using assms by (auto simp: task_waiting_def tool_call_defs dict_simps split: option.splits)

lemma task_delta_emits:
  assumes "task_waiting i block buffer s" "0 \<le> i" "args \<noteq> []" "se_loads env (buffer @ args) = Some v"
    "patch_task_args v = Inr w"
  shows "\<exists>s'. process_tool_call env (argument_delta i args) s
      = ([BlockDelta block (InputJsonDelta (json_dumps w))], s', Inr ()) \<and> task_served i s'"
proof -
  obtain st where st: "dget (bm_tool_states s) i = Some st" "tc_started st" "tc_name st = lit ''Task''"
    "\<not> tc_task_args_emitted st" "tc_task_arg_buffer st = buffer" "tc_block_index st = block"
    using assms(1) by (auto simp: task_waiting_def split: option.splits)
  let ?s = "put_tool i (st\<lparr>tc_task_args_emitted := True, tc_task_arg_buffer := [],
      tc_contents := tc_contents st @ [json_dumps w]\<rparr>) s"
  have "process_tool_call env (argument_delta i args) s
      = ([BlockDelta block (InputJsonDelta (json_dumps w))], ?s, Inr ())"
    using assms(2-) st by (simp add: tool_call_defs dict_simps)
  moreover have "task_served i ?s" using st by (simp add: task_served_def put_tool_def dict_simps)
  ultimately show ?thesis by blast
qed

lemma task_delta_ignored:
  assumes "task_served i s" "0 \<le> i" "args \<noteq> []"
  shows "process_tool_call env (argument_delta i args) s = ([], s, Inr ())"
  using assms by (auto simp: task_served_def tool_call_defs split: option.splits)

lemma gfor_append:
  "gfor f (xs @ ys) = gthen (gfor f xs) (gfor f ys)"
proof (induction xs)
  case Nil
  show ?case by (rule ext) (simp add: gthen_def gbind_def gret_def)
next
  case (Cons x xs)
  then show ?case by (simp add: gthen_def gbind_assoc)
qed

lemma task_run_waits:
  assumes "task_waiting i block buffer s" "0 \<le> i" "[] \<notin> set pre"
    "\<And>k. 0 < k \<Longrightarrow> k \<le> length pre \<Longrightarrow> se_loads env (buffer @ concat (take k pre)) = None"
  shows "\<exists>s'. gfor (process_tool_call env) (map (argument_delta i) pre) s = ([], s', Inr ())
    \<and> task_waiting i block (buffer @ concat pre) s'"
  using assms
proof (induction pre arbitrary: s buffer)
  case (Cons a pre)
  have "se_loads env (buffer @ a) = None" using Cons.prems(4) [of 1] by simp
  with Cons.prems obtain s1 where s1: "process_tool_call env (argument_delta i a) s = ([], s1, Inr ())"
    "task_waiting i block (buffer @ a) s1" using task_delta_waits by (metis list.set_intros(1))
  have "se_loads env ((buffer @ a) @ concat (take k pre)) = None" if "0 < k" "k \<le> length pre" for k
    using Cons.prems(4) [of "Suc k"] that by simp
  from Cons.IH [OF s1(2) Cons.prems(2) _ this] Cons.prems(3) s1(1) show ?case
    by (auto simp: gthen_def gbind_def)
qed (simp add: gret_def)

lemma task_run_ignored:
  assumes "task_served i s" "0 \<le> i" "[] \<notin> set post"
  shows "gfor (process_tool_call env) (map (argument_delta i) post) s = ([], s, Inr ())"
  using assms by (induction post) (auto simp: gret_def gthen_def gbind_def task_delta_ignored)

text \<open>The arguments of a Task tool reach the client exactly once, as one delta when the fragments
  first form a JSON object, with \<open>run_in_background\<close> forced to false and every other entry kept; the
  fragments before and after yield nothing.\<close>
theorem task_arguments_once:
  assumes s: "task_waiting i block [] s" "0 \<le> i" and parts: "[] \<notin> set pre" "a \<noteq> []" "[] \<notin> set post"
    and incomplete: "\<And>k. 0 < k \<Longrightarrow> k \<le> length pre \<Longrightarrow> se_loads env (concat (take k pre)) = None"
    and complete: "se_loads env (concat pre @ a) = Some (PDict d)"
  shows "\<exists>d' s'. gfor (process_tool_call env) (map (argument_delta i) (pre @ [a] @ post)) s
      = ([BlockDelta block (InputJsonDelta (json_dumps (PDict d')))], s', Inr ())
    \<and> dget d' (lit ''run_in_background'') = Some (PBool False)
    \<and> (\<forall>k. k \<noteq> lit ''run_in_background'' \<longrightarrow> dget d' k = dget d k)"
proof -
  let ?key = "lit ''run_in_background''"
  obtain d' where d': "patch_task_args (PDict d) = Inr (PDict d')" "dget d' ?key = Some (PBool False)"
    "\<forall>k. k \<noteq> ?key \<longrightarrow> dget d' k = dget d k"
    by (auto simp: patch_task_args_def dict_simps)
  from task_run_waits [OF s parts(1), where env = env] incomplete obtain s1 where
    s1: "gfor (process_tool_call env) (map (argument_delta i) pre) s = ([], s1, Inr ())" "task_waiting i block (concat pre) s1"
    by auto
  from task_delta_emits [OF s1(2) s(2) parts(2) complete d'(1)] obtain s2 where
    s2: "process_tool_call env (argument_delta i a) s1 = ([BlockDelta block (InputJsonDelta (json_dumps (PDict d')))], s2, Inr ())"
    "task_served i s2" by blast
  from s1(1) s2(1) task_run_ignored [OF s2(2) s(2) parts(3), of env]
  have "gfor (process_tool_call env) (map (argument_delta i) (pre @ [a] @ post)) s
      = ([BlockDelta block (InputJsonDelta (json_dumps (PDict d')))], s2, Inr ())"
    by (simp add: gfor_append gthen_def gbind_def)
  with d' show ?thesis by blast
qed

text \<open>A surrounding in which only \<open>{}\<close> is JSON, and a stream whose first tool is a Task.\<close>

definition small_env :: stream_env where
  "small_env = \<lparr>se_provider = PlainProvider, se_loads = (\<lambda>s. if s = lit ''{}'' then Some (PDict []) else None),
     se_uuid = (\<lambda>_. []), se_heuristic_uuid = (\<lambda>_. []), se_encoder = None, se_internal = (\<lambda>_. silent_exn [] 0),
     se_now = 0, se_read_timeout = None, se_request_id = None\<rparr>"

definition task_stream :: stream_state where
  "task_stream = put_tool 0 (new_tool_state 0 (lit ''t1'') (lit ''Task'') True) (stream_init [] [] 0 idle_limiter)"

theorem task_arguments_once_witness:
  "\<exists>d' s'. gfor (process_tool_call small_env) (map (argument_delta 0) [lit ''{'', lit ''}'', lit '' '']) task_stream
      = ([BlockDelta 0 (InputJsonDelta (json_dumps (PDict d')))], s', Inr ())
    \<and> dget d' (lit ''run_in_background'') = Some (PBool False)"
proof -
  have w: "task_waiting 0 0 [] task_stream"
    by (simp add: task_waiting_def task_stream_def put_tool_def new_tool_state_def dict_simps)
  have one: "se_loads small_env (concat (take k [lit ''{''])) = None" if "0 < k" "k \<le> length [lit ''{'']" for k
    using that by (simp add: small_env_def lit_def)
  have two: "se_loads small_env (concat [lit ''{''] @ lit ''}'') = Some (PDict [])"
    by (simp add: small_env_def lit_def)
  show ?thesis
    using task_arguments_once [OF w _ _ _ _ one two, where post = "[lit '' '']"] by auto
qed

end
