(* ===== verification/EventParser.thy ===== *)
theory EventParser
  imports Json
begin

text \<open>
  \<open>messaging/event_parser.py\<close>: the translation of the events of the command line tool into the low-level
  events of a transcript. Events are dictionaries. Python's \<open>repr\<close> of lists and dictionaries, which only
  shows up in error texts and odd identifiers, is the parameter \<open>rp\<close>.
\<close>

type_synonym event = "(pystr, pyval) dict"

text \<open>\<open>d.get(key, default)\<close>, \<open>str(v)\<close> and \<open>str(v or "")\<close>.\<close>

definition dget_or :: "event \<Rightarrow> string \<Rightarrow> pyval \<Rightarrow> pyval" where
  "dget_or d key otherwise = (case dget d (lit key) of None \<Rightarrow> otherwise | Some v \<Rightarrow> v)"

definition py_str :: "(pyval \<Rightarrow> pystr) \<Rightarrow> pyval \<Rightarrow> pystr" where
  "py_str rp v =
     (case v of
        PNone \<Rightarrow> lit ''None''
      | PBool b \<Rightarrow> (if b then lit ''True'' else lit ''False'')
      | PInt i \<Rightarrow> str_of_int i
      | PFloat r \<Rightarrow> r
      | PStr s \<Rightarrow> s
      | PList _ \<Rightarrow> rp v
      | PDict _ \<Rightarrow> rp v)"

definition str_or_empty :: "(pyval \<Rightarrow> pystr) \<Rightarrow> pyval \<Rightarrow> pystr" where
  "str_or_empty rp v = (if truthy v then py_str rp v else [])"

definition is_str :: "pyval \<Rightarrow> string \<Rightarrow> bool" where
  "is_str v s \<longleftrightarrow> v = PStr (lit s)"

definition is_zero :: "pyval \<Rightarrow> bool" where
  "is_zero v \<longleftrightarrow> (case v of PInt i \<Rightarrow> i = 0 | PBool b \<Rightarrow> \<not> b | PFloat r \<Rightarrow> r = lit ''0.0'' \<or> r = lit ''-0.0'' | _ \<Rightarrow> False)"

definition ev_type :: "string \<Rightarrow> pystr \<times> pyval" where
  "ev_type t = (lit ''type'', PStr (lit t))"

text \<open>The content blocks of a whole message.\<close>

definition content_event :: "(pyval \<Rightarrow> pystr) \<Rightarrow> pyval \<Rightarrow> event list" where
  "content_event rp c =
     (case c of
        PDict d \<Rightarrow>
          let ctype = dget_or d ''type'' PNone
          in if is_str ctype ''text''
             then [[ev_type ''text_chunk'', (lit ''text'', dget_or d ''text'' (PStr []))]]
             else if is_str ctype ''thinking''
             then [[ev_type ''thinking_chunk'', (lit ''text'', dget_or d ''thinking'' (PStr []))]]
             else if is_str ctype ''tool_use''
             then [[ev_type ''tool_use'', (lit ''id'', PStr (strip (str_or_empty rp (dget_or d ''id'' (PStr []))))),
                    (lit ''name'', dget_or d ''name'' (PStr [])), (lit ''input'', dget_or d ''input'' PNone)]]
             else if is_str ctype ''tool_result''
             then [[ev_type ''tool_result'',
                    (lit ''tool_use_id'', PStr (strip (str_or_empty rp (dget_or d ''tool_use_id'' (PStr []))))),
                    (lit ''content'', dget_or d ''content'' PNone),
                    (lit ''is_error'', PBool (truthy (dget_or d ''is_error'' (PBool False))))]]
             else []
      | _ \<Rightarrow> [])"

definition is_list :: "pyval \<Rightarrow> bool" where
  "is_list v \<longleftrightarrow> (case v of PList _ \<Rightarrow> True | _ \<Rightarrow> False)"

definition wrap_content :: "pyval \<Rightarrow> pyval" where
  "wrap_content v = PDict [(lit ''content'', v)]"

text \<open>\<open>msg_obj\<close> of an assistant, user or result event.\<close>

definition result_message :: "event \<Rightarrow> pyval" where
  "result_message event =
     (let m1 = (case dget_or event ''result'' PNone of
                  PDict res \<Rightarrow>
                    let m = dget_or res ''message'' PNone
                    in if \<not> truthy m \<and> is_list (dget_or res ''content'' PNone)
                       then wrap_content (dget_or res ''content'' PNone) else m
                | _ \<Rightarrow> PNone);
          m2 = (if \<not> truthy m1 then dget_or event ''message'' PNone else m1)
      in if \<not> truthy m2 \<and> is_list (dget_or event ''content'' PNone)
         then wrap_content (dget_or event ''content'' PNone) else m2)"

definition message_object :: "event \<Rightarrow> pyval" where
  "message_object event =
     (let etype = dget_or event ''type'' PNone
      in if is_str etype ''assistant'' \<or> is_str etype ''user'' then dget_or event ''message'' PNone
         else if is_str etype ''result'' then result_message event else PNone)"

definition message_events :: "(pyval \<Rightarrow> pystr) \<Rightarrow> pyval \<Rightarrow> event list" where
  "message_events rp msg_obj =
     (case msg_obj of
        PDict m \<Rightarrow>
          (case dget_or m ''content'' (PList []) of
             PList content \<Rightarrow> concat (map (content_event rp) content)
           | _ \<Rightarrow> [])
      | _ \<Rightarrow> [])"

text \<open>Streaming events; \<open>None\<close> if the section does not return.\<close>

definition index_field :: "event \<Rightarrow> pystr \<times> pyval" where
  "index_field event = (lit ''index'', dget_or event ''index'' (PInt (- 1)))"

definition delta_event :: "event \<Rightarrow> event list option" where
  "delta_event event =
     (case dget_or event ''delta'' (PDict []) of
        PDict delta \<Rightarrow>
          let dtype = dget_or delta ''type'' PNone
          in if is_str dtype ''text_delta''
             then Some [[ev_type ''text_delta'', index_field event, (lit ''text'', dget_or delta ''text'' (PStr []))]]
             else if is_str dtype ''thinking_delta''
             then Some [[ev_type ''thinking_delta'', index_field event, (lit ''text'', dget_or delta ''thinking'' (PStr []))]]
             else if is_str dtype ''input_json_delta''
             then Some [[ev_type ''tool_use_delta'', index_field event,
                         (lit ''partial_json'', dget_or delta ''partial_json'' (PStr []))]]
             else None
      | _ \<Rightarrow> None)"

definition start_event :: "(pyval \<Rightarrow> pystr) \<Rightarrow> event \<Rightarrow> event list option" where
  "start_event rp event =
     (case dget_or event ''content_block'' (PDict []) of
        PDict block \<Rightarrow>
          let btype = dget_or block ''type'' PNone
          in if is_str btype ''thinking'' then Some [[ev_type ''thinking_start'', index_field event]]
             else if is_str btype ''text'' then Some [[ev_type ''text_start'', index_field event]]
             else if is_str btype ''tool_use''
             then Some [[ev_type ''tool_use_start'', index_field event,
                         (lit ''id'', PStr (strip (str_or_empty rp (dget_or block ''id'' (PStr []))))),
                         (lit ''name'', dget_or block ''name'' (PStr [])),
                         (lit ''input'', dget_or block ''input'' PNone)]]
             else None
      | _ \<Rightarrow> None)"

definition error_event :: "(pyval \<Rightarrow> pystr) \<Rightarrow> event \<Rightarrow> event list" where
  "error_event rp event =
     (let err = dget_or event ''error'' PNone;
          msg = (case err of PDict d \<Rightarrow> dget_or d ''message'' PNone | _ \<Rightarrow> PStr (py_str rp err))
      in [[ev_type ''error'', (lit ''message'', msg)]])"

definition exit_event :: "(pyval \<Rightarrow> pystr) \<Rightarrow> event \<Rightarrow> event list" where
  "exit_event rp event =
     (let code = dget_or event ''code'' (PInt 0); stderr = dget_or event ''stderr'' PNone
      in if is_zero code then [[ev_type ''complete'', (lit ''status'', PStr (lit ''success''))]]
         else [[ev_type ''error'', (lit ''message'',
                  if truthy stderr then stderr else PStr (lit ''Process exited with code '' @ py_str rp code))],
               [ev_type ''complete'', (lit ''status'', PStr (lit ''failed''))]])"

definition parse_event_dict :: "(pyval \<Rightarrow> pystr) \<Rightarrow> event \<Rightarrow> event list" where
  "parse_event_dict rp event =
     (let etype = dget_or event ''type'' PNone; results = message_events rp (message_object event)
      in if is_str etype ''system'' then []
         else if results \<noteq> [] then results
         else if is_str etype ''content_block_delta'' \<and> delta_event event \<noteq> None then the (delta_event event)
         else if is_str etype ''content_block_start'' \<and> start_event rp event \<noteq> None then the (start_event rp event)
         else if is_str etype ''content_block_stop'' then [[ev_type ''block_stop'', index_field event]]
         else if is_str etype ''error'' then error_event rp event
         else if is_str etype ''exit'' then exit_event rp event
         else [])"

definition parse_cli_event :: "(pyval \<Rightarrow> pystr) \<Rightarrow> pyval \<Rightarrow> event list" where
  "parse_cli_event rp event = (case event of PDict d \<Rightarrow> parse_event_dict rp d | _ \<Rightarrow> [])"

end
