(* ===== verification/Transcript.thy ===== *)
theory Transcript
  imports EventParser "HOL-Library.List_Lexorder"
begin

text \<open>
  \<open>messaging/transcript.py\<close>: the ordered transcript of a conversation. Segments are only ever appended, so
  a reference to a segment is its position; the tool call shown inside a subagent is identified by the
  subagent and its number there. The debug log of the subagent stack is left out.
\<close>

section \<open>Segments\<close>

record tool_segment =
  ts_tool_use_id :: pystr
  ts_name :: pystr
  ts_closed :: bool
  ts_indent_level :: nat

record subagent_segment =
  ag_description :: pystr
  ag_tool_calls :: nat
  ag_tools_used :: "pystr list" \<comment> \<open>a set, in the order of first use\<close>
  ag_current_tool :: "tool_segment option"

datatype segment =
    ThinkingSegment "pystr list"
  | TextSegment "pystr list"
  | ToolCallSegment tool_segment
  | ToolResultSegment pystr "pystr option" pystr bool \<comment> \<open>id, name, content and error flag\<close>
  | SubagentSegment subagent_segment
  | ErrorSegment pystr

definition new_tool_segment :: "pystr \<Rightarrow> pystr \<Rightarrow> nat \<Rightarrow> tool_segment" where
  "new_tool_segment tool_use_id name indent =
     \<lparr>ts_tool_use_id = tool_use_id, ts_name = str_or name (lit ''tool''), ts_closed = False, ts_indent_level = indent\<rparr>"

definition new_subagent :: "pystr \<Rightarrow> subagent_segment" where
  "new_subagent description =
     \<lparr>ag_description = str_or description (lit ''Subagent''), ag_tool_calls = 0, ag_tools_used = [],
      ag_current_tool = None\<rparr>"

text \<open>\<open>append\<close> of a thinking or text segment.\<close>

definition append_part :: "pystr \<Rightarrow> pystr list \<Rightarrow> pystr list" where
  "append_part t parts = (if t \<noteq> [] then parts @ [t] else parts)"

definition append_to_segment :: "pystr \<Rightarrow> segment \<Rightarrow> segment" where
  "append_to_segment t seg =
     (case seg of
        ThinkingSegment parts \<Rightarrow> ThinkingSegment (append_part t parts)
      | TextSegment parts \<Rightarrow> TextSegment (append_part t parts)
      | _ \<Rightarrow> seg)"

definition set_current_tool_call :: "pystr \<Rightarrow> pystr \<Rightarrow> subagent_segment \<Rightarrow> subagent_segment" where
  "set_current_tool_call tool_use_id name ag =
     (let n = str_or name (lit ''tool'')
      in ag\<lparr>ag_tools_used := (if n \<in> set (ag_tools_used ag) then ag_tools_used ag else ag_tools_used ag @ [n]),
             ag_tool_calls := ag_tool_calls ag + 1,
             ag_current_tool := Some (new_tool_segment tool_use_id n 1)\<rparr>)"

text \<open>\<open>_safe_json_dumps\<close>: sorted keys, an indentation of two blanks, and no escapes beyond ASCII.\<close>

definition pretty_char :: "pychar \<Rightarrow> pystr" where
  "pretty_char x =
     (let n = code_point x
      in if n = 34 then lit [CHR 0x5C, CHR 0x22]
         else if n = 92 then lit [CHR 0x5C, CHR 0x5C]
         else if n = 10 then lit [CHR 0x5C, CHR ''n'']
         else if n = 13 then lit [CHR 0x5C, CHR ''r'']
         else if n = 9 then lit [CHR 0x5C, CHR ''t'']
         else if n = 12 then lit [CHR 0x5C, CHR ''f'']
         else if n = 8 then lit [CHR 0x5C, CHR ''b'']
         else if n < 32 then u_escape n
         else [x])"

definition pretty_str :: "pystr \<Rightarrow> pystr" where
  "pretty_str s = lit [CHR 0x22] @ concat (map pretty_char s) @ lit [CHR 0x22]"

definition indent_line :: "nat \<Rightarrow> pystr" where
  "indent_line n = Ch (CHR 0x0A) # replicate (2 * n) (Ch (CHR '' ''))"

definition bracketed :: "string \<Rightarrow> string \<Rightarrow> nat \<Rightarrow> pystr list \<Rightarrow> pystr" where
  "bracketed opening closing n items =
     (if items = [] then lit opening @ lit closing
      else lit opening @ indent_line (n + 1) @ join (lit '','' @ indent_line (n + 1)) items @ indent_line n @ lit closing)"

primrec json_pretty :: "pyval \<Rightarrow> nat \<Rightarrow> pystr" where
  "json_pretty PNone n = lit ''null''"
| "json_pretty (PBool b) n = (if b then lit ''true'' else lit ''false'')"
| "json_pretty (PInt i) n = str_of_int i"
| "json_pretty (PFloat r) n = (if r = lit ''nan'' then lit ''NaN'' else if r = lit ''inf'' then lit ''Infinity''
     else if r = lit ''-inf'' then lit ''-Infinity'' else r)"
| "json_pretty (PStr s) n = pretty_str s"
| "json_pretty (PList xs) n = bracketed ''['' '']'' n (map (\<lambda>f. f (n + 1)) (map json_pretty xs))"
| "json_pretty (PDict d) n =
     bracketed ''{'' ''}'' n
       (map (\<lambda>(k, f). pretty_str k @ lit '': '' @ f (n + 1))
         (sort_key (\<lambda>(k, f). map code_point k) (map (map_prod id json_pretty) d)))"

definition result_text :: "pyval \<Rightarrow> pystr" where
  "result_text content = (case content of PStr s \<Rightarrow> s | _ \<Rightarrow> json_pretty content 0)"

section \<open>Rendering a segment\<close>

record render_ctx =
  rc_bold :: "pystr \<Rightarrow> pystr"
  rc_code_inline :: "pystr \<Rightarrow> pystr"
  rc_escape_code :: "pystr \<Rightarrow> pystr"
  rc_escape_text :: "pystr \<Rightarrow> pystr"
  rc_render_markdown :: "pystr \<Rightarrow> pystr"
  rc_thinking_tail_max :: "int option"
  rc_tool_output_tail_max :: "int option"
  rc_text_tail_max :: "int option"

definition fence :: pystr where
  "fence = lit [CHR 0x60, CHR 0x60, CHR 0x60]"

text \<open>The last \<open>m\<close> characters of a text that is longer, the first three of them dots.\<close>

definition keep_tail :: "int option \<Rightarrow> pystr \<Rightarrow> pystr" where
  "keep_tail m raw =
     (case m of
        None \<Rightarrow> raw
      | Some n \<Rightarrow> if n < int (length raw) then lit ''...'' @ slice_tail (n - 3) raw else raw)"

definition code_block :: "pystr \<Rightarrow> pystr" where
  "code_block inner = newline @ fence @ newline @ inner @ newline @ fence"

definition render_tool :: "render_ctx \<Rightarrow> tool_segment \<Rightarrow> pystr" where
  "render_tool ctx t =
     concat (replicate (ts_indent_level t) (lit ''  '')) @ [Uni 0x1F6E0] @ lit '' '' @
     rc_bold ctx (lit ''Tool call:'') @ lit '' '' @ rc_code_inline ctx (ts_name t)"

definition render_subagent :: "render_ctx \<Rightarrow> subagent_segment \<Rightarrow> pystr" where
  "render_subagent ctx ag =
     (let current = (case ag_current_tool ag of None \<Rightarrow> [] | Some t \<Rightarrow> render_tool ctx t);
          used = sort_key (map code_point) (ag_tools_used ag);
          used_raw = lit ''{'' @ join (lit '', '') used @ lit ''}''
      in join newline
           ([[Uni 0x1F916] @ lit '' '' @ rc_bold ctx (lit ''Subagent:'') @ lit '' '' @ rc_code_inline ctx (ag_description ag)] @
            (if current \<noteq> [] then [current] else []) @
            [lit ''  '' @ rc_bold ctx (lit ''Tools used:'') @ lit '' '' @ rc_code_inline ctx used_raw,
             lit ''  '' @ rc_bold ctx (lit ''Tool calls:'') @ lit '' '' @
               rc_code_inline ctx (str_of_int (int (ag_tool_calls ag)))]))"

definition render_segment :: "render_ctx \<Rightarrow> segment \<Rightarrow> pystr" where
  "render_segment ctx seg =
     (case seg of
        ThinkingSegment parts \<Rightarrow>
          [Uni 0x1F4AD] @ lit '' '' @ rc_bold ctx (lit ''Thinking'') @
          code_block (rc_escape_code ctx (keep_tail (rc_thinking_tail_max ctx) (concat parts)))
      | TextSegment parts \<Rightarrow> rc_render_markdown ctx (keep_tail (rc_text_tail_max ctx) (concat parts))
      | ToolCallSegment t \<Rightarrow> render_tool ctx t
      | ToolResultSegment tool_use_id name content is_error \<Rightarrow>
          [Uni 0x1F4E4] @ lit '' '' @ rc_bold ctx (if is_error then lit ''Tool error:'' else lit ''Tool result:'') @
          (case name of None \<Rightarrow> [] | Some n \<Rightarrow> if n = [] then [] else lit '' '' @ rc_code_inline ctx n) @
          code_block (rc_escape_code ctx (keep_tail (rc_tool_output_tail_max ctx) content))
      | SubagentSegment ag \<Rightarrow> render_subagent ctx ag
      | ErrorSegment message \<Rightarrow>
          [Uni 0x26A0, Uni 0xFE0F] @ lit '' '' @ rc_bold ctx (lit ''Error:'') @ lit '' '' @ rc_code_inline ctx message)"

section \<open>The buffer\<close>

datatype tool_ref = InTranscript nat | InSubagent nat nat \<comment> \<open>position of the subagent, number of the call\<close>

record transcript =
  tr_segments :: "segment list"
  tr_open_thinking :: "(int, nat) dict"
  tr_open_text :: "(int, nat) dict"
  tr_open_tools :: "(int, tool_ref) dict"
  tr_tool_name_by_id :: "(pystr, pystr) dict"
  tr_show_tool_results :: bool
  tr_subagent_stack :: "pystr list" \<comment> \<open>the top is the last element\<close>
  tr_subagent_segments :: "nat list"

definition transcript_init :: "bool \<Rightarrow> transcript" where
  "transcript_init show_tool_results =
     \<lparr>tr_segments = [], tr_open_thinking = [], tr_open_text = [], tr_open_tools = [], tr_tool_name_by_id = [],
      tr_show_tool_results = show_tool_results, tr_subagent_stack = [], tr_subagent_segments = []\<rparr>"

definition in_subagent :: "transcript \<Rightarrow> bool" where
  "in_subagent t \<longleftrightarrow> tr_subagent_stack t \<noteq> []"

text \<open>The first of the three entries that is not blank.\<close>

definition task_heading :: "(pyval \<Rightarrow> pystr) \<Rightarrow> pyval \<Rightarrow> pystr" where
  "task_heading rp inp =
     (case inp of
        PDict d \<Rightarrow>
          (let entry = (\<lambda>key. strip (str_or_empty rp (dget_or d key (PStr []))))
           in if entry ''description'' \<noteq> [] then entry ''description''
              else if entry ''subagent_type'' \<noteq> [] then entry ''subagent_type''
              else if entry ''type'' \<noteq> [] then entry ''type''
              else lit ''Subagent'')
      | _ \<Rightarrow> lit ''Subagent'')"

definition subagent_push :: "pystr \<Rightarrow> nat \<Rightarrow> transcript \<Rightarrow> transcript" where
  "subagent_push tool_id pos t =
     t\<lparr>tr_subagent_stack := tr_subagent_stack t @
          [str_or (strip tool_id) (lit ''__task_'' @ str_of_int (int (length (tr_subagent_stack t) + 1)))],
       tr_subagent_segments := tr_subagent_segments t @ [pos]\<rparr>"

definition ids_roughly_match :: "pystr \<Rightarrow> pystr \<Rightarrow> bool" where
  "ids_roughly_match stack_id result_id \<longleftrightarrow>
     stack_id \<noteq> [] \<and> result_id \<noteq> [] \<and>
     (stack_id = result_id \<or> startswith stack_id result_id \<or> startswith result_id stack_id)"

text \<open>The index of the last element of the stack that matches.\<close>

definition last_match :: "pystr \<Rightarrow> pystr list \<Rightarrow> nat option" where
  "last_match tool_id stack =
     (case filter (\<lambda>i. ids_roughly_match (stack ! i) tool_id) (rev [0..<length stack]) of
        [] \<Rightarrow> None
      | i # _ \<Rightarrow> Some i)"

text \<open>Both stacks are popped together, as long as the second one has something.\<close>

definition pop_to :: "nat \<Rightarrow> transcript \<Rightarrow> transcript" where
  "pop_to n t =
     t\<lparr>tr_subagent_stack := take n (tr_subagent_stack t),
       tr_subagent_segments :=
         take (length (tr_subagent_segments t) - (length (tr_subagent_stack t) - n)) (tr_subagent_segments t)\<rparr>"

definition subagent_pop :: "pystr \<Rightarrow> transcript \<Rightarrow> transcript \<times> bool" where
  "subagent_pop tool_id0 t =
     (let tool_id = strip tool_id0; stack = tr_subagent_stack t
      in if stack = [] then (t, False)
         else if tool_id \<noteq> []
         then (if ids_roughly_match (last stack) tool_id then (pop_to (length stack - 1) t, True)
               else (case last_match tool_id stack of
                       None \<Rightarrow> (t, False)
                     | Some i \<Rightarrow> (pop_to i t, True)))
         else if startswith (last stack) (lit ''__task_'') then (pop_to (length stack - 1) t, True)
         else (t, False))"

definition append_segment :: "segment \<Rightarrow> transcript \<Rightarrow> transcript" where
  "append_segment seg t = t\<lparr>tr_segments := tr_segments t @ [seg]\<rparr>"

text \<open>\<open>int(ev.get("index", -1))\<close>. Converting a string or a float is outside the model.\<close>

definition event_index :: "event \<Rightarrow> int result" where
  "event_index ev =
     (case dget_or ev ''index'' (PInt (- 1)) of
        PInt i \<Rightarrow> Inr i
      | PBool b \<Rightarrow> Inr (if b then 1 else 0)
      | PStr _ \<Rightarrow> Inl Unmodelled
      | PFloat _ \<Rightarrow> Inl Unmodelled
      | _ \<Rightarrow> Inl TypeError)"

definition thinking_stop :: "int \<Rightarrow> transcript \<Rightarrow> transcript" where
  "thinking_stop idx t = (if 0 \<le> idx then t\<lparr>tr_open_thinking := ddel idx (tr_open_thinking t)\<rparr> else t)"

definition text_stop :: "int \<Rightarrow> transcript \<Rightarrow> transcript" where
  "text_stop idx t = (if 0 \<le> idx then t\<lparr>tr_open_text := ddel idx (tr_open_text t)\<rparr> else t)"

text \<open>\<open>seg.closed = True\<close>, through a reference. A tool call that its subagent no longer shows is not seen
  by anybody.\<close>

definition close_tool :: "tool_ref \<Rightarrow> transcript \<Rightarrow> transcript" where
  "close_tool ref t =
     (case ref of
        InTranscript p \<Rightarrow>
          (case tr_segments t ! p of
             ToolCallSegment ts \<Rightarrow> t\<lparr>tr_segments := (tr_segments t)[p := ToolCallSegment (ts\<lparr>ts_closed := True\<rparr>)]\<rparr>
           | _ \<Rightarrow> t)
      | InSubagent p k \<Rightarrow>
          (case tr_segments t ! p of
             SubagentSegment ag \<Rightarrow>
               if k = ag_tool_calls ag
               then t\<lparr>tr_segments := (tr_segments t)[p := SubagentSegment
                       (ag\<lparr>ag_current_tool := map_option (ts_closed_update (\<lambda>_. True)) (ag_current_tool ag)\<rparr>)]\<rparr>
               else t
           | _ \<Rightarrow> t))"

definition tool_stop :: "int \<Rightarrow> transcript \<Rightarrow> transcript" where
  "tool_stop idx t =
     (case dget (tr_open_tools t) idx of
        None \<Rightarrow> t
      | Some ref \<Rightarrow> close_tool ref (t\<lparr>tr_open_tools := ddel idx (tr_open_tools t)\<rparr>))"

definition block_stop :: "int \<Rightarrow> transcript \<Rightarrow> transcript" where
  "block_stop idx t =
     (if din idx (tr_open_tools t) then tool_stop idx t
      else if din idx (tr_open_thinking t) then thinking_stop idx t
      else if din idx (tr_open_text t) then text_stop idx t
      else t)"

definition close_reused :: "int \<Rightarrow> transcript \<Rightarrow> transcript" where
  "close_reused idx t = (if 0 \<le> idx then block_stop idx t else t)"

definition thinking_start :: "int \<Rightarrow> transcript \<Rightarrow> transcript" where
  "thinking_start idx t0 =
     (let t = close_reused idx t0; pos = length (tr_segments t); t1 = append_segment (ThinkingSegment []) t
      in if 0 \<le> idx then t1\<lparr>tr_open_thinking := dset idx pos (tr_open_thinking t1)\<rparr> else t1)"

definition text_start :: "int \<Rightarrow> transcript \<Rightarrow> transcript" where
  "text_start idx t0 =
     (let t = close_reused idx t0; pos = length (tr_segments t); t1 = append_segment (TextSegment []) t
      in if 0 \<le> idx then t1\<lparr>tr_open_text := dset idx pos (tr_open_text t1)\<rparr> else t1)"

definition append_at :: "nat \<Rightarrow> pystr \<Rightarrow> transcript \<Rightarrow> transcript" where
  "append_at pos content t =
     t\<lparr>tr_segments := (tr_segments t)[pos := append_to_segment content (tr_segments t ! pos)]\<rparr>"

definition thinking_delta :: "int \<Rightarrow> pystr \<Rightarrow> transcript \<Rightarrow> transcript" where
  "thinking_delta idx content t =
     (case dget (tr_open_thinking t) idx of
        Some pos \<Rightarrow> append_at pos content t
      | None \<Rightarrow>
          let pos = length (tr_segments t); t1 = append_segment (ThinkingSegment []) t;
              t2 = (if 0 \<le> idx then t1\<lparr>tr_open_thinking := dset idx pos (tr_open_thinking t1)\<rparr> else t1)
          in append_at pos content t2)"

definition text_delta :: "int \<Rightarrow> pystr \<Rightarrow> transcript \<Rightarrow> transcript" where
  "text_delta idx content t =
     (case dget (tr_open_text t) idx of
        Some pos \<Rightarrow> append_at pos content t
      | None \<Rightarrow>
          let pos = length (tr_segments t); t1 = append_segment (TextSegment []) t;
              t2 = (if 0 \<le> idx then t1\<lparr>tr_open_text := dset idx pos (tr_open_text t1)\<rparr> else t1)
          in append_at pos content t2)"

text \<open>A tool call outside of a subagent is a segment; inside, it is the current tool of the innermost one.\<close>

definition add_tool_call :: "pystr \<Rightarrow> pystr \<Rightarrow> transcript \<Rightarrow> transcript \<times> tool_ref" where
  "add_tool_call tool_id name t =
     (if in_subagent t \<and> tr_subagent_segments t \<noteq> []
      then
        let pos = last (tr_subagent_segments t)
        in (case tr_segments t ! pos of
              SubagentSegment ag \<Rightarrow>
                let ag1 = set_current_tool_call tool_id name ag
                in (t\<lparr>tr_segments := (tr_segments t)[pos := SubagentSegment ag1]\<rparr>, InSubagent pos (ag_tool_calls ag1))
            | _ \<Rightarrow> (t, InTranscript pos))
      else (append_segment (ToolCallSegment (new_tool_segment tool_id name 0)) t, InTranscript (length (tr_segments t))))"

text \<open>The part that a started and a whole tool call share; \<open>None\<close> for the call that opens a subagent.\<close>

definition tool_call :: "(pyval \<Rightarrow> pystr) \<Rightarrow> event \<Rightarrow> transcript \<Rightarrow> transcript \<times> tool_ref option" where
  "tool_call rp ev t =
     (let tool_id = strip (str_or_empty rp (dget_or ev ''id'' (PStr [])));
          name = (let n = dget_or ev ''name'' (PStr []) in if truthy n then py_str rp n else lit ''tool'');
          t1 = (if tool_id \<noteq> [] then t\<lparr>tr_tool_name_by_id := dset tool_id name (tr_tool_name_by_id t)\<rparr> else t)
      in if name = lit ''Task''
         then (subagent_push tool_id (length (tr_segments t1))
                 (append_segment (SubagentSegment (new_subagent (task_heading rp (dget_or ev ''input'' PNone)))) t1), None)
         else (case add_tool_call tool_id name t1 of (t2, ref) \<Rightarrow> (t2, Some ref)))"

definition tool_use_start :: "(pyval \<Rightarrow> pystr) \<Rightarrow> event \<Rightarrow> int \<Rightarrow> transcript \<Rightarrow> transcript" where
  "tool_use_start rp ev idx t =
     (case tool_call rp ev (close_reused idx t) of
        (t1, None) \<Rightarrow> t1
      | (t1, Some ref) \<Rightarrow> if 0 \<le> idx then t1\<lparr>tr_open_tools := dset idx ref (tr_open_tools t1)\<rparr> else t1)"

definition whole_tool_use :: "(pyval \<Rightarrow> pystr) \<Rightarrow> event \<Rightarrow> transcript \<Rightarrow> transcript" where
  "whole_tool_use rp ev t =
     (case tool_call rp ev t of
        (t1, None) \<Rightarrow> t1
      | (t1, Some ref) \<Rightarrow> close_tool ref t1)"

definition tool_result :: "(pyval \<Rightarrow> pystr) \<Rightarrow> event \<Rightarrow> transcript \<Rightarrow> transcript" where
  "tool_result rp ev t =
     (let tool_id = strip (str_or_empty rp (dget_or ev ''tool_use_id'' (PStr [])));
          name = dget (tr_tool_name_by_id t) tool_id;
          t1 = (if tr_subagent_stack t = [] then t
                else
                  let (u, popped) = subagent_pop tool_id t;
                      top = (if tr_subagent_stack u = [] then [] else last (tr_subagent_stack u))
                  in if \<not> popped \<and> tool_id \<noteq> [] \<and> startswith top (lit ''__task_'')
                        \<and> (name = None \<or> name = Some (lit ''Task'')) \<and> contains (lower tool_id) (lit ''task'')
                     then fst (subagent_pop [] u) else u)
      in if \<not> tr_show_tool_results t1 then t1
         else append_segment (ToolResultSegment tool_id name (result_text (dget_or ev ''content'' PNone))
                (truthy (dget_or ev ''is_error'' (PBool False)))) t1)"

definition hidden_in_subagent :: "pyval \<Rightarrow> bool" where
  "hidden_in_subagent et \<longleftrightarrow>
     list_ex (is_str et) [''thinking_start'', ''thinking_delta'', ''thinking_chunk'', ''text_start'', ''text_delta'', ''text_chunk'']"

definition apply_event :: "(pyval \<Rightarrow> pystr) \<Rightarrow> event \<Rightarrow> transcript \<Rightarrow> transcript result" where
  "apply_event rp ev t =
     (let et = dget_or ev ''type'' PNone; content = py_str rp (dget_or ev ''text'' (PStr []));
          at_index = (\<lambda>f. rbind (event_index ev) (\<lambda>idx. Inr (f idx t)))
      in if in_subagent t \<and> hidden_in_subagent et then Inr t
         else if is_str et ''thinking_start'' then at_index thinking_start
         else if is_str et ''thinking_delta'' \<or> is_str et ''thinking_chunk'' then at_index (\<lambda>idx. thinking_delta idx content)
         else if is_str et ''thinking_stop'' then at_index thinking_stop
         else if is_str et ''text_start'' then at_index text_start
         else if is_str et ''text_delta'' \<or> is_str et ''text_chunk'' then at_index (\<lambda>idx. text_delta idx content)
         else if is_str et ''text_stop'' then at_index text_stop
         else if is_str et ''tool_use_start'' then at_index (tool_use_start rp ev)
         else if is_str et ''tool_use_delta'' then Inr t
         else if is_str et ''tool_use_stop'' then at_index tool_stop
         else if is_str et ''block_stop'' then at_index block_stop
         else if is_str et ''tool_use'' then Inr (whole_tool_use rp ev t)
         else if is_str et ''tool_result'' then Inr (tool_result rp ev t)
         else if is_str et ''error''
         then Inr (append_segment (ErrorSegment (str_or (py_str rp (dget_or ev ''message'' (PStr []))) (lit ''Unknown error''))) t)
         else Inr t)"

fun apply_all :: "(pyval \<Rightarrow> pystr) \<Rightarrow> event list \<Rightarrow> transcript \<Rightarrow> transcript result" where
  "apply_all rp [] t = Inr t"
| "apply_all rp (ev # evs) t = rbind (apply_event rp ev t) (apply_all rp evs)"

section \<open>Rendering the transcript\<close>

definition status_text :: "pystr option \<Rightarrow> pystr" where
  "status_text status = (case status of None \<Rightarrow> [] | Some s \<Rightarrow> if s = [] then [] else newline @ newline @ s)"

definition marker :: "render_ctx \<Rightarrow> pystr" where
  "marker ctx = rc_escape_text ctx (lit ''... (truncated)'' @ newline)"

definition join_parts :: "render_ctx \<Rightarrow> pystr option \<Rightarrow> bool \<Rightarrow> pystr list \<Rightarrow> pystr" where
  "join_parts ctx status add_marker parts =
     (let body = join newline parts;
          body1 = (if add_marker \<and> body \<noteq> [] then marker ctx @ body else body)
      in if body1 \<noteq> [] \<or> status_text status \<noteq> [] then body1 @ status_text status else status_text status)"

text \<open>The loop that drops the oldest part; it ends with the part dropped last when nothing fits.\<close>

fun drop_oldest :: "render_ctx \<Rightarrow> int \<Rightarrow> pystr option \<Rightarrow> pystr list \<Rightarrow> pystr option \<Rightarrow> pystr + pystr option" where
  "drop_oldest ctx limit status [] last_part = Inr last_part"
| "drop_oldest ctx limit status (p # parts) last_part =
     (let candidate = join_parts ctx status True (p # parts)
      in if int (length candidate) \<le> limit then Inl candidate
         else drop_oldest ctx limit status parts (Some p))"

definition rendered_parts :: "render_ctx \<Rightarrow> transcript \<Rightarrow> pystr list" where
  "rendered_parts ctx t = filter (\<lambda>p. p \<noteq> []) (map (render_segment ctx) (tr_segments t))"

definition last_resort :: "render_ctx \<Rightarrow> int \<Rightarrow> pystr option \<Rightarrow> pystr option \<Rightarrow> pystr" where
  "last_resort ctx limit status last_part =
     (let st = status_text status; budget = limit - int (length (marker ctx)) - int (length st);
          minimal = marker ctx @ dropWhile (\<lambda>c. c = Ch (CHR 0x0A)) st;
          otherwise = (case status of None \<Rightarrow> [] | Some s \<Rightarrow> s)
      in case last_part of
           None \<Rightarrow> otherwise
         | Some p \<Rightarrow>
             let tail = (if int (length p) > budget then lit ''...'' @ slice_tail (budget - 3) p else p);
                 candidate = marker ctx @ tail @ st
             in if p \<noteq> [] \<and> budget > 20 \<and> int (length candidate) \<le> limit then candidate
                else if int (length minimal) \<le> limit then minimal
                else otherwise)"

definition render_transcript :: "render_ctx \<Rightarrow> int \<Rightarrow> pystr option \<Rightarrow> transcript \<Rightarrow> pystr" where
  "render_transcript ctx limit status t =
     (let rendered = rendered_parts ctx t; candidate = join_parts ctx status False rendered
      in if int (length candidate) \<le> limit then candidate
         else (case drop_oldest ctx limit status rendered None of
                 Inl text1 \<Rightarrow> text1
               | Inr last_part \<Rightarrow> last_resort ctx limit status last_part))"

end
