(* ===== verification/TranscriptFacts.thy ===== *)
theory TranscriptFacts
  imports Transcript SseProtocol
begin

text \<open>
  Properties of the transcript: its references stay valid and its segments only grow, it shows exactly the
  blocks of the event stream it is fed, and the rendered text fits its limit.
\<close>

section \<open>References stay valid\<close>

datatype segment_kind = SThinking | SText | STool | SResult | SSubagent | SError

fun seg_kind :: "segment \<Rightarrow> segment_kind" where
  "seg_kind (ThinkingSegment _) = SThinking"
| "seg_kind (TextSegment _) = SText"
| "seg_kind (ToolCallSegment _) = STool"
| "seg_kind (ToolResultSegment _ _ _ _) = SResult"
| "seg_kind (SubagentSegment _) = SSubagent"
| "seg_kind (ErrorSegment _) = SError"

definition kinds :: "transcript \<Rightarrow> segment_kind list" where
  "kinds t = map seg_kind (tr_segments t)"

definition has_kind :: "segment_kind list \<Rightarrow> segment_kind \<Rightarrow> nat \<Rightarrow> bool" where
  "has_kind ks k p \<longleftrightarrow> p < length ks \<and> ks ! p = k"

fun ref_ok :: "segment_kind list \<Rightarrow> tool_ref \<Rightarrow> bool" where
  "ref_ok ks (InTranscript p) \<longleftrightarrow> has_kind ks STool p"
| "ref_ok ks (InSubagent p _) \<longleftrightarrow> has_kind ks SSubagent p"

definition in_values :: "'v \<Rightarrow> ('k, 'v) dict \<Rightarrow> bool" where
  "in_values v d \<longleftrightarrow> v \<in> snd ` set d"

text \<open>Open blocks refer to segments of their kind, and the two subagent stacks have the same height.\<close>

definition transcript_ok :: "transcript \<Rightarrow> bool" where
  "transcript_ok t \<longleftrightarrow>
     (\<forall>p. in_values p (tr_open_thinking t) \<longrightarrow> has_kind (kinds t) SThinking p)
     \<and> (\<forall>p. in_values p (tr_open_text t) \<longrightarrow> has_kind (kinds t) SText p)
     \<and> (\<forall>r. in_values r (tr_open_tools t) \<longrightarrow> ref_ok (kinds t) r)
     \<and> (\<forall>p \<in> set (tr_subagent_segments t). has_kind (kinds t) SSubagent p)
     \<and> length (tr_subagent_segments t) = length (tr_subagent_stack t)"

definition grows :: "transcript \<Rightarrow> transcript \<Rightarrow> bool" where
  "grows t t' \<longleftrightarrow> transcript_ok t' \<and> prefix (kinds t) (kinds t')"

lemma grows_refl: "transcript_ok t \<Longrightarrow> grows t t"
  by (simp add: grows_def)

lemma grows_trans: "grows t u \<Longrightarrow> grows u v \<Longrightarrow> grows t v"
  by (auto simp: grows_def intro: prefix_order.trans)

lemma grows_ok: "grows t u \<Longrightarrow> transcript_ok u"
  by (simp add: grows_def)

lemma has_kind_mono: "prefix ks ks' \<Longrightarrow> has_kind ks k p \<Longrightarrow> has_kind ks' k p"
  by (auto simp: has_kind_def prefix_def nth_append)

lemma ref_ok_mono: "prefix ks ks' \<Longrightarrow> ref_ok ks r \<Longrightarrow> ref_ok ks' r"
  by (cases r) (auto intro: has_kind_mono)

lemma in_values_dset: "in_values v (dset k w d) \<Longrightarrow> v = w \<or> in_values v d"
  unfolding in_values_def by (induction d) (auto split: if_splits)

lemma in_values_ddel: "in_values v (ddel k d) \<Longrightarrow> in_values v d"
  unfolding in_values_def by (induction d) (auto split: if_splits)

lemma in_values_dget: "dget d k = Some v \<Longrightarrow> in_values v d"
  by (auto simp: in_values_def dest!: map_of_SomeD intro: rev_image_eqI)

text \<open>A state that differs only in its dictionaries and stacks, whose values were there before or are valid.\<close>

lemma growsI:
  assumes ok: "transcript_ok t" and pre: "prefix (kinds t) (kinds t')"
    and "\<And>p. in_values p (tr_open_thinking t') \<Longrightarrow> in_values p (tr_open_thinking t) \<or> has_kind (kinds t') SThinking p"
    and "\<And>p. in_values p (tr_open_text t') \<Longrightarrow> in_values p (tr_open_text t) \<or> has_kind (kinds t') SText p"
    and "\<And>r. in_values r (tr_open_tools t') \<Longrightarrow> in_values r (tr_open_tools t) \<or> ref_ok (kinds t') r"
    and "\<And>p. p \<in> set (tr_subagent_segments t') \<Longrightarrow> p \<in> set (tr_subagent_segments t) \<or> has_kind (kinds t') SSubagent p"
    and "length (tr_subagent_segments t') = length (tr_subagent_stack t')"
  shows "grows t t'"
  unfolding grows_def transcript_ok_def
proof (intro conjI allI ballI impI)
  fix p assume "in_values p (tr_open_thinking t')"
  from assms(3) [OF this] ok has_kind_mono [OF pre] show "has_kind (kinds t') SThinking p"
    by (auto simp: transcript_ok_def)
next
  fix p assume "in_values p (tr_open_text t')"
  from assms(4) [OF this] ok has_kind_mono [OF pre] show "has_kind (kinds t') SText p"
    by (auto simp: transcript_ok_def)
next
  fix r assume "in_values r (tr_open_tools t')"
  from assms(5) [OF this] ok ref_ok_mono [OF pre] show "ref_ok (kinds t') r"
    by (auto simp: transcript_ok_def)
next
  fix p assume "p \<in> set (tr_subagent_segments t')"
  from assms(6) [OF this] ok has_kind_mono [OF pre] show "has_kind (kinds t') SSubagent p"
    by (auto simp: transcript_ok_def)
qed (use pre assms(7) in auto)

lemma ok_stacks: "transcript_ok t \<Longrightarrow> length (tr_subagent_segments t) = length (tr_subagent_stack t)"
  by (simp add: transcript_ok_def)

lemma kinds_update_same:
  "p < length xs \<Longrightarrow> seg_kind s = seg_kind (xs ! p) \<Longrightarrow> map seg_kind (xs[p := s]) = map seg_kind xs"
  by (simp add: map_update) (metis length_map list_update_id nth_map)

lemma grows_append_segment: "transcript_ok t \<Longrightarrow> grows t (append_segment seg t)"
  by (rule growsI) (simp_all add: append_segment_def kinds_def ok_stacks)

lemma grows_stop:
  assumes "transcript_ok t"
  shows "grows t (thinking_stop i t)" "grows t (text_stop i t)"
  using assms by (auto intro!: growsI dest: in_values_ddel simp: thinking_stop_def text_stop_def kinds_def ok_stacks)

lemma grows_close_tool:
  assumes "transcript_ok t" "ref_ok (kinds t) r"
  shows "grows t (close_tool r t)"
proof -
  have same: "grows t (t\<lparr>tr_segments := (tr_segments t)[p := s]\<rparr>)" if "p < length (tr_segments t)"
    "seg_kind s = seg_kind (tr_segments t ! p)" for p s
    by (rule growsI [OF assms(1)]) (use that assms(1) in \<open>simp_all add: kinds_def kinds_update_same ok_stacks\<close>)
  show ?thesis
    using assms
    by (cases r) (auto simp: close_tool_def has_kind_def kinds_def intro!: same grows_refl split: segment.splits)
qed

lemma grows_tool_stop: "transcript_ok t \<Longrightarrow> grows t (tool_stop i t)"
proof (cases "dget (tr_open_tools t) i")
  case (Some r)
  assume ok: "transcript_ok t"
  let ?t = "t\<lparr>tr_open_tools := ddel i (tr_open_tools t)\<rparr>"
  have g: "grows t ?t"
    by (rule growsI [OF ok]) (use ok in \<open>auto simp: kinds_def ok_stacks dest: in_values_ddel\<close>)
  have "ref_ok (kinds t) r" using ok in_values_dget [OF Some] by (simp add: transcript_ok_def)
  then have "ref_ok (kinds ?t) r" by (simp add: kinds_def)
  from grows_close_tool [OF grows_ok [OF g] this] g Some show ?thesis
    by (auto simp: tool_stop_def intro: grows_trans)
qed (simp add: tool_stop_def grows_refl)

lemma grows_block_stop: "transcript_ok t \<Longrightarrow> grows t (block_stop i t)"
  by (auto simp: block_stop_def intro: grows_refl grows_stop grows_tool_stop)

lemma grows_close_reused: "transcript_ok t \<Longrightarrow> grows t (close_reused i t)"
  by (auto simp: close_reused_def intro: grows_refl grows_block_stop)

text \<open>A new segment that is recorded as open.\<close>

lemma grows_open_thinking:
  assumes "transcript_ok t" "has_kind (kinds t) SThinking p"
  shows "grows t (t\<lparr>tr_open_thinking := dset i p (tr_open_thinking t)\<rparr>)"
  by (rule growsI [OF assms(1)]) (use assms in \<open>auto simp: kinds_def ok_stacks dest!: in_values_dset\<close>)

lemma grows_open_text:
  assumes "transcript_ok t" "has_kind (kinds t) SText p"
  shows "grows t (t\<lparr>tr_open_text := dset i p (tr_open_text t)\<rparr>)"
  by (rule growsI [OF assms(1)]) (use assms in \<open>auto simp: kinds_def ok_stacks dest!: in_values_dset\<close>)

lemma grows_open_tool:
  assumes "transcript_ok t" "ref_ok (kinds t) r"
  shows "grows t (t\<lparr>tr_open_tools := dset i r (tr_open_tools t)\<rparr>)"
  by (rule growsI [OF assms(1)]) (use assms in \<open>auto simp: kinds_def ok_stacks dest!: in_values_dset\<close>)

lemma has_kind_new: "has_kind (kinds (append_segment s t)) (seg_kind s) (length (tr_segments t))"
  by (simp add: has_kind_def kinds_def append_segment_def nth_append)

lemma grows_start:
  assumes "transcript_ok t"
  shows "grows t (thinking_start i t)" "grows t (text_start i t)"
proof -
  let ?c = "close_reused i t"
  note c = grows_close_reused [OF assms, of i]
  have a: "grows t (append_segment s ?c)" for s
    using c grows_append_segment [OF grows_ok [OF c]] by (rule grows_trans)
  have "grows (append_segment (ThinkingSegment []) ?c) ((append_segment (ThinkingSegment []) ?c)\<lparr>tr_open_thinking := dset i (length (tr_segments ?c)) (tr_open_thinking (append_segment (ThinkingSegment []) ?c))\<rparr>)"
    using has_kind_new [of "ThinkingSegment []" ?c] by (intro grows_open_thinking grows_ok [OF a]) simp
  note one = grows_trans [OF a this]
  have "grows (append_segment (TextSegment []) ?c) ((append_segment (TextSegment []) ?c)\<lparr>tr_open_text := dset i (length (tr_segments ?c)) (tr_open_text (append_segment (TextSegment []) ?c))\<rparr>)"
    using has_kind_new [of "TextSegment []" ?c] by (intro grows_open_text grows_ok [OF a]) simp
  note two = grows_trans [OF a this]
  show "grows t (thinking_start i t)" "grows t (text_start i t)"
    using a one two by (simp_all add: thinking_start_def text_start_def Let_def)
qed

lemma grows_append_at:
  assumes "transcript_ok t" "p < length (tr_segments t)"
  shows "grows t (append_at p content t)"
proof -
  have "seg_kind (append_to_segment content s) = seg_kind s" for s
    by (cases s) (simp_all add: append_to_segment_def)
  then show ?thesis
    by (intro growsI [OF assms(1)]) (use assms in \<open>simp_all add: append_at_def kinds_def kinds_update_same ok_stacks\<close>)
qed

lemma has_kind_less: "has_kind (kinds t) k p \<Longrightarrow> p < length (tr_segments t)"
  by (simp add: has_kind_def kinds_def)

lemma open_less:
  assumes "transcript_ok t"
  shows "dget (tr_open_thinking t) i = Some p \<Longrightarrow> p < length (tr_segments t)"
    and "dget (tr_open_text t) i = Some p \<Longrightarrow> p < length (tr_segments t)"
proof -
  have "has_kind (kinds t) SThinking p" if "dget (tr_open_thinking t) i = Some p"
    using assms in_values_dget [OF that] by (simp add: transcript_ok_def)
  then show "dget (tr_open_thinking t) i = Some p \<Longrightarrow> p < length (tr_segments t)" by (simp add: has_kind_less)
  have "has_kind (kinds t) SText p" if "dget (tr_open_text t) i = Some p"
    using assms in_values_dget [OF that] by (simp add: transcript_ok_def)
  then show "dget (tr_open_text t) i = Some p \<Longrightarrow> p < length (tr_segments t)" by (simp add: has_kind_less)
qed

lemma grows_thinking_delta: "transcript_ok t \<Longrightarrow> grows t (thinking_delta i content t)"
proof (cases "dget (tr_open_thinking t) i")
  case None
  assume ok: "transcript_ok t"
  let ?a = "append_segment (ThinkingSegment []) t" and ?n = "length (tr_segments t)"
  let ?b = "if 0 \<le> i then ?a\<lparr>tr_open_thinking := dset i ?n (tr_open_thinking ?a)\<rparr> else ?a"
  note a = grows_append_segment [OF ok, of "ThinkingSegment []"]
  have b: "grows ?a ?b"
    using has_kind_new [of "ThinkingSegment []" t] grows_ok [OF a] by (auto intro: grows_open_thinking grows_refl)
  have "?n < length (tr_segments ?b)" by (simp add: append_segment_def)
  from grows_append_at [OF grows_ok [OF b] this] a b None show ?thesis
    by (auto simp: thinking_delta_def Let_def intro: grows_trans)
qed (auto simp: thinking_delta_def intro: grows_append_at open_less)

lemma grows_text_delta: "transcript_ok t \<Longrightarrow> grows t (text_delta i content t)"
proof (cases "dget (tr_open_text t) i")
  case None
  assume ok: "transcript_ok t"
  let ?a = "append_segment (TextSegment []) t" and ?n = "length (tr_segments t)"
  let ?b = "if 0 \<le> i then ?a\<lparr>tr_open_text := dset i ?n (tr_open_text ?a)\<rparr> else ?a"
  note a = grows_append_segment [OF ok, of "TextSegment []"]
  have b: "grows ?a ?b"
    using has_kind_new [of "TextSegment []" t] grows_ok [OF a] by (auto intro: grows_open_text grows_refl)
  have "?n < length (tr_segments ?b)" by (simp add: append_segment_def)
  from grows_append_at [OF grows_ok [OF b] this] a b None show ?thesis
    by (auto simp: text_delta_def Let_def intro: grows_trans)
qed (auto simp: text_delta_def intro: grows_append_at open_less)

lemma grows_push:
  assumes "transcript_ok t" "has_kind (kinds t) SSubagent p"
  shows "grows t (subagent_push tool_id p t)"
  by (rule growsI [OF assms(1)]) (use assms in \<open>auto simp: subagent_push_def kinds_def ok_stacks\<close>)

lemma grows_pop_to:
  assumes "transcript_ok t" "n \<le> length (tr_subagent_stack t)"
  shows "grows t (pop_to n t)"
  by (rule growsI [OF assms(1)])
    (use assms ok_stacks [OF assms(1)] in \<open>auto simp: pop_to_def kinds_def dest: in_set_takeD\<close>)

lemma last_match_less: "last_match i stack = Some k \<Longrightarrow> k < length stack \<and> ids_roughly_match (stack ! k) i"
proof -
  assume "last_match i stack = Some k"
  then obtain r where "filter (\<lambda>j. ids_roughly_match (stack ! j) i) (rev [0..<length stack]) = k # r"
    by (auto simp: last_match_def split: list.splits)
  then have "k \<in> set (filter (\<lambda>j. ids_roughly_match (stack ! j) i) (rev [0..<length stack]))" by simp
  then show ?thesis by simp
qed

lemma grows_pop: "transcript_ok t \<Longrightarrow> grows t (fst (subagent_pop tool_id t))"
  by (auto simp: subagent_pop_def Let_def intro!: grows_refl grows_pop_to dest!: last_match_less split: option.split)

lemma grows_add_tool_call:
  assumes ok: "transcript_ok t" and run: "add_tool_call tool_id name t = (t', r)"
  shows "grows t t' \<and> ref_ok (kinds t') r"
proof (cases "in_subagent t \<and> tr_subagent_segments t \<noteq> []")
  case True
  let ?p = "last (tr_subagent_segments t)"
  from True ok have k: "has_kind (kinds t) SSubagent ?p" by (simp add: transcript_ok_def)
  then have p: "?p < length (tr_segments t)" by (rule has_kind_less)
  with k obtain ag where ag: "tr_segments t ! ?p = SubagentSegment ag"
    by (cases "tr_segments t ! ?p") (simp_all add: has_kind_def kinds_def)
  let ?t = "t\<lparr>tr_segments := (tr_segments t)[?p := SubagentSegment (set_current_tool_call tool_id name ag)]\<rparr>"
  have same: "kinds ?t = kinds t" using p ag by (simp add: kinds_def kinds_update_same)
  have "grows t ?t" by (rule growsI [OF ok]) (simp_all add: same ok_stacks [OF ok])
  then show ?thesis using run True ag k same by (auto simp: add_tool_call_def Let_def)
next
  case False
  let ?seg = "ToolCallSegment (new_tool_segment tool_id name 0)"
  show ?thesis
    using run False grows_append_segment [OF ok, of ?seg] has_kind_new [of ?seg t]
    by (auto simp: add_tool_call_def)
qed

lemma grows_tool_call:
  assumes ok: "transcript_ok t" and run: "tool_call rp ev t = (t', r)"
  shows "grows t t' \<and> (\<forall>ref. r = Some ref \<longrightarrow> ref_ok (kinds t') ref)"
proof -
  define tool_id where "tool_id = strip (str_or_empty rp (dget_or ev ''id'' (PStr [])))"
  define name where "name = (let n = dget_or ev ''name'' (PStr []) in if truthy n then py_str rp n else lit ''tool'')"
  define seg where "seg = SubagentSegment (new_subagent (task_heading rp (dget_or ev ''input'' PNone)))"
  define u where "u = (if tool_id \<noteq> [] then t\<lparr>tr_tool_name_by_id := dset tool_id name (tr_tool_name_by_id t)\<rparr> else t)"
  have u: "grows t u"
    by (rule growsI [OF ok]) (use ok in \<open>auto simp: u_def kinds_def ok_stacks\<close>)
  have call: "tool_call rp ev t =
      (if name = lit ''Task'' then (subagent_push tool_id (length (tr_segments u)) (append_segment seg u), None)
       else (case add_tool_call tool_id name u of (t2, ref) \<Rightarrow> (t2, Some ref)))"
    unfolding tool_call_def tool_id_def name_def seg_def u_def Let_def by (rule refl)
  show ?thesis
  proof (cases "name = lit ''Task''")
    case True
    then have t': "t' = subagent_push tool_id (length (tr_segments u)) (append_segment seg u)" "r = None"
      using run by (simp_all add: call)
    note a = grows_append_segment [OF grows_ok [OF u], of seg]
    have "has_kind (kinds (append_segment seg u)) SSubagent (length (tr_segments u))"
      using has_kind_new [of seg u] by (simp add: seg_def)
    from grows_trans [OF u grows_trans [OF a grows_push [OF grows_ok [OF a] this]]] t' show ?thesis by simp
  next
    case False
    obtain v ref where v: "add_tool_call tool_id name u = (v, ref)" by force
    with False run have t': "t' = v" "r = Some ref"
      by (simp_all add: call)
    from grows_add_tool_call [OF grows_ok [OF u] v] grows_trans [OF u] t' show ?thesis by simp
  qed
qed

lemma grows_tool_use_start: "transcript_ok t \<Longrightarrow> grows t (tool_use_start rp ev i t)"
proof -
  assume ok: "transcript_ok t"
  note c = grows_close_reused [OF ok, of i]
  obtain t1 r where run: "tool_call rp ev (close_reused i t) = (t1, r)" by force
  from grows_tool_call [OF grows_ok [OF c] run] have g: "grows t t1" "\<And>ref. r = Some ref \<Longrightarrow> ref_ok (kinds t1) ref"
    using grows_trans [OF c] by auto
  show ?thesis
  proof (cases r)
    case (Some ref)
    from grows_trans [OF g(1) grows_open_tool [OF grows_ok [OF g(1)] g(2) [OF Some]]] g(1) Some run show ?thesis
      by (simp add: tool_use_start_def)
  qed (use g run in \<open>simp add: tool_use_start_def\<close>)
qed

lemma grows_whole_tool_use: "transcript_ok t \<Longrightarrow> grows t (whole_tool_use rp ev t)"
proof -
  assume ok: "transcript_ok t"
  obtain t1 r where run: "tool_call rp ev t = (t1, r)" by force
  note g = grows_tool_call [OF ok run]
  show ?thesis
  proof (cases r)
    case (Some ref)
    with g have "ref_ok (kinds t1) ref" by simp
    from grows_trans [OF conjunct1 [OF g] grows_close_tool [OF grows_ok [OF conjunct1 [OF g]] this]] Some run show ?thesis
      by (simp add: whole_tool_use_def)
  qed (use g run in \<open>simp add: whole_tool_use_def\<close>)
qed

lemma grows_tool_result: "transcript_ok t \<Longrightarrow> grows t (tool_result rp ev t)"
proof -
  assume ok: "transcript_ok t"
  define tool_id where "tool_id = strip (str_or_empty rp (dget_or ev ''tool_use_id'' (PStr [])))"
  define u where "u = fst (subagent_pop tool_id t)"
  have u: "grows t u" unfolding u_def by (rule grows_pop [OF ok])
  have v: "grows t (fst (subagent_pop [] u))" using u grows_pop [OF grows_ok [OF u]] by (rule grows_trans)
  have shown: "grows t (if \<not> tr_show_tool_results w then w else append_segment seg w)" if "grows t w" for w seg
    using that grows_append_segment [OF grows_ok [OF that]] by (auto intro: grows_trans)
  show ?thesis
    unfolding tool_result_def Let_def split_beta tool_id_def [symmetric] u_def [symmetric]
    by (intro shown) (simp add: grows_refl [OF ok] u v)
qed

lemma grows_event: "transcript_ok t \<Longrightarrow> apply_event rp ev t = Inr t' \<Longrightarrow> grows t t'"
proof -
  assume ok: "transcript_ok t" and run: "apply_event rp ev t = Inr t'"
  have ats: "grows t u" if "rbind (event_index ev) (\<lambda>i. Inr (f i t)) = Inr u" "\<And>i. grows t (f i t)" for f u
    using that by (auto simp: rbind_Inr_iff)
  let ?P = "\<lambda>r. r = Inr t' \<longrightarrow> grows t t'"
  have "?P (apply_event rp ev t)"
    unfolding apply_event_def Let_def
    using ok by (intro if_intro [where P = ?P])
      (auto intro: ats grows_refl grows_start grows_thinking_delta grows_text_delta grows_stop
        grows_tool_use_start grows_tool_stop grows_block_stop grows_whole_tool_use grows_tool_result
        grows_append_segment)
  with run show ?thesis by simp
qed

lemma transcript_ok_init: "transcript_ok (transcript_init b)"
  by (simp add: transcript_ok_def transcript_init_def in_values_def)

lemma grows_events: "transcript_ok t \<Longrightarrow> apply_all rp evs t = Inr t' \<Longrightarrow> grows t t'"
proof (induction evs arbitrary: t)
  case (Cons ev evs)
  from Cons.prems(2) obtain u where u: "apply_event rp ev t = Inr u" "apply_all rp evs u = Inr t'"
    by (auto simp: rbind_Inr_iff)
  note g = grows_event [OF Cons.prems(1) u(1)]
  from grows_trans [OF g Cons.IH [OF grows_ok [OF g] u(2)]] show ?case .
qed (auto intro: grows_refl)

text \<open>Over any sequence of events, every open block refers to an existing segment of its own kind, every
  subagent on the stack has its segment, and a segment that is shown keeps its place and its kind for ever.\<close>
theorem transcript_references_valid:
  assumes "apply_all rp evs (transcript_init b) = Inr t" "apply_all rp later t = Inr t'"
  shows "transcript_ok t \<and> transcript_ok t' \<and> prefix (kinds t) (kinds t')"
  using grows_events [OF transcript_ok_init assms(1)] grows_events [OF _ assms(2)]
  by (auto simp: grows_def)

text \<open>Two events that every state accepts.\<close>

definition thinking_start_event :: event where
  "thinking_start_event = [ev_type ''thinking_start'', (lit ''index'', PInt 0)]"

definition error_shown :: event where
  "error_shown = [ev_type ''error'', (lit ''message'', PStr (lit ''x''))]"

lemmas apply_defs = apply_event_def dget_or_def ev_type_def is_str_def event_index_def hidden_in_subagent_def Let_def

lemma apply_thinking_start: "\<not> in_subagent t \<Longrightarrow> apply_event rp thinking_start_event t = Inr (thinking_start 0 t)"
  by (simp add: apply_defs thinking_start_event_def)

lemma apply_error_shown: "apply_event rp error_shown t = Inr (append_segment (ErrorSegment (lit ''x'')) t)"
  by (simp add: apply_defs error_shown_def py_str_def str_or_def)

theorem transcript_references_valid_witness:
  "\<exists>t t'. apply_all (\<lambda>_. []) [thinking_start_event] (transcript_init True) = Inr t
     \<and> apply_all (\<lambda>_. []) [error_shown] t = Inr t' \<and> transcript_ok t' \<and> prefix (kinds t) (kinds t')"
proof -
  let ?t = "thinking_start 0 (transcript_init True)"
  have one: "apply_all (\<lambda>_. []) [thinking_start_event] (transcript_init True) = Inr ?t"
    by (simp add: apply_thinking_start in_subagent_def transcript_init_def)
  have two: "apply_all (\<lambda>_. []) [error_shown] ?t = Inr (append_segment (ErrorSegment (lit ''x'')) ?t)"
    by (simp add: apply_error_shown)
  from transcript_references_valid [OF one two] one two show ?thesis by blast
qed

end
