(* ===== verification/TranscriptView.thy ===== *)
theory TranscriptView
  imports TranscriptFacts
begin

text \<open>
  The transcript refines the view of a client: what it shows of an event stream are the blocks of the
  stream, and the rendered text fits its limit.
\<close>

section \<open>The transcript of an event stream\<close>

text \<open>The dictionary a client reads from the data line of an event.\<close>

definition event_value :: "sse_event \<Rightarrow> pyval" where
  "event_value e = PDict (ev_type (event_type e) # event_fields e)"

text \<open>The blocks of a stream with what their deltas add up to; the input of a tool is not shown.\<close>

definition view_step :: "(content_block \<times> pystr) list \<Rightarrow> sse_event \<Rightarrow> (content_block \<times> pystr) list" where
  "view_step v e =
     (case e of
        BlockStart i b \<Rightarrow> v @ [(b, [])]
      | BlockDelta i (ThinkingDelta s) \<Rightarrow> v[nat i := (fst (v ! nat i), snd (v ! nat i) @ s)]
      | BlockDelta i (TextDelta s) \<Rightarrow> v[nat i := (fst (v ! nat i), snd (v ! nat i) @ s)]
      | _ \<Rightarrow> v)"

definition stream_view :: "sse_event list \<Rightarrow> (content_block \<times> pystr) list" where
  "stream_view es = foldl view_step [] es"

text \<open>What the user sees of a segment and of a block.\<close>

datatype shown = ShownThinking pystr | ShownText pystr | ShownTool pystr | ShownOther

fun show_segment :: "segment \<Rightarrow> shown" where
  "show_segment (ThinkingSegment parts) = ShownThinking (concat parts)"
| "show_segment (TextSegment parts) = ShownText (concat parts)"
| "show_segment (ToolCallSegment ts) = ShownTool (ts_name ts)"
| "show_segment _ = ShownOther"

fun show_block :: "content_block \<times> pystr \<Rightarrow> shown" where
  "show_block (ThinkingBlock, s) = ShownThinking s"
| "show_block (TextBlock, s) = ShownText s"
| "show_block (ToolUseBlock ident name, s) = ShownTool (str_or name (lit ''tool''))"

definition no_task :: "sse_event \<Rightarrow> bool" where
  "no_task e \<longleftrightarrow> (case e of BlockStart i (ToolUseBlock ident name) \<Rightarrow> name \<noteq> lit ''Task'' | _ \<Rightarrow> True)"

text \<open>The events as the transcript gets them.\<close>

lemmas parse_defs = parse_cli_event_def parse_event_dict_def event_value_def message_object_def message_events_def
  dget_or_def is_str_def ev_type_def index_field_def Let_def

lemma parse_event:
  "parse_cli_event rp (event_value (MessageStart a b n)) = []"
  "parse_cli_event rp (event_value (BlockStart i ThinkingBlock)) = [[ev_type ''thinking_start'', (lit ''index'', PInt i)]]"
  "parse_cli_event rp (event_value (BlockStart i TextBlock)) = [[ev_type ''text_start'', (lit ''index'', PInt i)]]"
  "parse_cli_event rp (event_value (BlockStart i (ToolUseBlock ident name))) =
     [[ev_type ''tool_use_start'', (lit ''index'', PInt i), (lit ''id'', PStr (strip ident)), (lit ''name'', PStr name),
       (lit ''input'', PDict [])]]"
  "parse_cli_event rp (event_value (BlockDelta i (ThinkingDelta s))) =
     [[ev_type ''thinking_delta'', (lit ''index'', PInt i), (lit ''text'', PStr s)]]"
  "parse_cli_event rp (event_value (BlockDelta i (TextDelta s))) =
     [[ev_type ''text_delta'', (lit ''index'', PInt i), (lit ''text'', PStr s)]]"
  "parse_cli_event rp (event_value (BlockDelta i (InputJsonDelta s))) =
     [[ev_type ''tool_use_delta'', (lit ''index'', PInt i), (lit ''partial_json'', PStr s)]]"
  "parse_cli_event rp (event_value (BlockStop i)) = [[ev_type ''block_stop'', (lit ''index'', PInt i)]]"
  "parse_cli_event rp (event_value (MessageDelta r n k)) = []"
  "parse_cli_event rp (event_value MessageStop) = []"
  by (simp_all add: parse_defs start_event_def delta_event_def str_or_empty_def py_str_def strip_def lstrip_def rstrip_def)

lemma apply_events:
  assumes "\<not> in_subagent t"
  shows
  "apply_all rp [[ev_type ''thinking_start'', (lit ''index'', PInt i)]] t = Inr (thinking_start i t)"
  "apply_all rp [[ev_type ''text_start'', (lit ''index'', PInt i)]] t = Inr (text_start i t)"
  "apply_all rp [[ev_type ''thinking_delta'', (lit ''index'', PInt i), (lit ''text'', PStr s)]] t = Inr (thinking_delta i s t)"
  "apply_all rp [[ev_type ''text_delta'', (lit ''index'', PInt i), (lit ''text'', PStr s)]] t = Inr (text_delta i s t)"
  "apply_all rp [[ev_type ''tool_use_delta'', (lit ''index'', PInt i), (lit ''partial_json'', PStr s)]] t = Inr t"
  "apply_all rp [[ev_type ''block_stop'', (lit ''index'', PInt i)]] t = Inr (block_stop i t)"
  "apply_all rp [[ev_type ''tool_use_start'', (lit ''index'', PInt i), (lit ''id'', PStr ident), (lit ''name'', PStr name),
       (lit ''input'', PDict [])]] t
     = Inr (tool_use_start rp [ev_type ''tool_use_start'', (lit ''index'', PInt i), (lit ''id'', PStr ident), (lit ''name'', PStr name),
       (lit ''input'', PDict [])] i t)"
  using assms by (simp_all add: apply_defs py_str_def)

text \<open>The client and the transcript in step: the segments show the view, and the open blocks are those of
  the client.\<close>

definition shows_open :: "(int \<times> kind) list \<Rightarrow> transcript \<Rightarrow> bool" where
  "shows_open opened t \<longleftrightarrow>
     (\<forall>i. dget (tr_open_thinking t) i = (if dget opened i = Some KThinking then Some (nat i) else None))
     \<and> (\<forall>i. dget (tr_open_text t) i = (if dget opened i = Some KText then Some (nat i) else None))
     \<and> (\<forall>i. dget (tr_open_tools t) i = (if dget opened i = Some KTool then Some (InTranscript (nat i)) else None))"

definition same_view :: "(content_block \<times> pystr) list \<Rightarrow> transcript \<Rightarrow> bool" where
  "same_view v t \<longleftrightarrow> map show_segment (tr_segments t) = map show_block v \<and> tr_subagent_stack t = []"

fun sim :: "client \<Rightarrow> (content_block \<times> pystr) list \<Rightarrow> transcript \<Rightarrow> bool" where
  "sim Waiting v t \<longleftrightarrow> v = [] \<and> same_view v t \<and> shows_open [] t"
| "sim (Reading n opened) v t \<longleftrightarrow>
     same_view v t \<and> shows_open opened t \<and> int (length v) = n
     \<and> (\<forall>i k. dget opened i = Some k \<longrightarrow> 0 \<le> i \<and> i < n \<and> block_kind (fst (v ! nat i)) = k)"
| "sim (Finishing n) v t \<longleftrightarrow> same_view v t"
| "sim (Complete n) v t \<longleftrightarrow> same_view v t"

lemma same_view_length: "same_view v t \<Longrightarrow> length (tr_segments t) = length v"
  unfolding same_view_def by (metis length_map)

lemma same_view_nth: "same_view v t \<Longrightarrow> p < length v \<Longrightarrow> show_segment (tr_segments t ! p) = show_block (v ! p)"
  using same_view_length unfolding same_view_def by (metis nth_map)

lemma show_append:
  "show_segment seg = show_block (b, s) \<Longrightarrow> block_kind b = KThinking \<or> block_kind b = KText
     \<Longrightarrow> show_segment (append_to_segment content seg) = show_block (b, s @ content)"
  by (cases b; cases seg) (auto simp: append_to_segment_def append_part_def)

lemma same_view_append_at:
  assumes "same_view v t" "p < length v" "block_kind (fst (v ! p)) = KThinking \<or> block_kind (fst (v ! p)) = KText"
  shows "same_view (v[p := (fst (v ! p), snd (v ! p) @ content)]) (append_at p content t)"
proof -
  have "show_segment (append_to_segment content (tr_segments t ! p)) = show_block (fst (v ! p), snd (v ! p) @ content)"
    using same_view_nth [OF assms(1,2)] assms(3) by (intro show_append) simp_all
  with assms(1) show ?thesis by (simp add: same_view_def append_at_def map_update)
qed

lemma sim_start_new:
  assumes "sim (Reading n opened) v t"
  shows "close_reused n t = t" "dget opened n = None" "0 \<le> n" "length (tr_segments t) = nat n" "\<not> in_subagent t"
proof -
  from assms have none: "dget opened n = None" by (cases "dget opened n") auto
  from assms show "0 \<le> n" by auto
  from assms none show "close_reused n t = t"
    by (auto simp: close_reused_def block_stop_def din_def shows_open_def)
  show "dget opened n = None" by (rule none)
  from assms show "length (tr_segments t) = nat n" using same_view_length [of v t] by auto
  from assms show "\<not> in_subagent t" by (simp add: in_subagent_def same_view_def)
qed

lemma sim_opened:
  assumes s: "sim (Reading n opened) v t"
    and t': "same_view v t \<Longrightarrow> same_view (v @ [(b, [])]) t'" "shows_open ((n, block_kind b) # opened) t'"
  shows "sim (Reading (n + 1) ((n, block_kind b) # opened)) (v @ [(b, [])]) t'"
proof -
  have "0 \<le> i \<and> i < n + 1 \<and> block_kind (fst ((v @ [(b, [])]) ! nat i)) = k"
    if "dget ((n, block_kind b) # opened) i = Some k" for i k
  proof (cases "i = n")
    case True
    with that s show ?thesis by (auto simp: nth_append)
  next
    case False
    with that have "dget opened i = Some k" by simp
    with s have "0 \<le> i" "i < int (length v)" "block_kind (fst (v ! nat i)) = k" "int (length v) = n" by auto
    moreover from this have "nat i < length v" by linarith
    ultimately show ?thesis by (simp add: nth_append)
  qed
  with s t' show ?thesis by auto
qed

lemma sim_block_stop:
  assumes "sim (Reading n opened) v t" "i \<in> set (dkeys opened)"
  shows "sim (Reading n (ddel i opened)) v (block_stop i t)"
proof -
  obtain k where k: "dget opened i = Some k" using in_keys_dget [OF assms(2)] by blast
  with assms(1) have j: "0 \<le> i" "i < n" "int (length v) = n" "block_kind (fst (v ! nat i)) = k" by auto
  then have "nat i < length v" by linarith
  note i = j(1,2) this j(4)
  have o: "shows_open opened t" and sv: "same_view v t" using assms(1) by auto
  show ?thesis
  proof (cases k)
    case KThinking
    then have "block_stop i t = thinking_stop i t"
      using o k by (auto simp: block_stop_def din_def shows_open_def)
    with KThinking k i assms(1) show ?thesis
      by (auto simp: thinking_stop_def shows_open_def same_view_def dict_simps split: if_splits)
  next
    case KText
    then have "block_stop i t = text_stop i t"
      using o k by (auto simp: block_stop_def din_def shows_open_def)
    with KText k i assms(1) show ?thesis
      by (auto simp: text_stop_def shows_open_def same_view_def dict_simps split: if_splits)
  next
    case KTool
    let ?t = "t\<lparr>tr_open_tools := ddel i (tr_open_tools t)\<rparr>"
    have stop: "block_stop i t = close_tool (InTranscript (nat i)) ?t"
      using o k KTool by (auto simp: block_stop_def din_def shows_open_def tool_stop_def)
    obtain ident name where b: "fst (v ! nat i) = ToolUseBlock ident name"
      using i(4) KTool by (cases "fst (v ! nat i)") auto
    obtain ts where seg: "tr_segments t ! nat i = ToolCallSegment ts"
      using same_view_nth [OF sv i(3)] b by (cases "v ! nat i"; cases "tr_segments t ! nat i") auto
    have len: "nat i < length (tr_segments t)" using i(3) same_view_length [OF sv] by simp
    have "map show_segment ((tr_segments t)[nat i := ToolCallSegment (ts\<lparr>ts_closed := True\<rparr>)]) = map show_segment (tr_segments t)"
      using seg len by (simp add: map_update) (metis length_map list_update_id nth_map show_segment.simps(3))
    with stop seg assms(1) show ?thesis
      by (auto simp: close_tool_def shows_open_def same_view_def dict_simps KTool k split: if_splits)
  qed
qed

lemma fst_update: "p < length v \<Longrightarrow> fst (v[p := (fst (v ! p), x)] ! q) = fst (v ! q)"
  by (cases "p = q") simp_all

lemma tool_call_plain:
  assumes "\<not> in_subagent t" "name \<noteq> lit ''Task''"
  shows "\<exists>tid names. tool_call rp [ev_type ''tool_use_start'', (lit ''index'', PInt n), (lit ''id'', PStr ident),
      (lit ''name'', PStr name), (lit ''input'', PDict [])] t
    = (append_segment (ToolCallSegment (new_tool_segment tid (str_or name (lit ''tool'')) 0)) (t\<lparr>tr_tool_name_by_id := names\<rparr>),
       Some (InTranscript (length (tr_segments t))))"
proof -
  let ?ev = "[ev_type ''tool_use_start'', (lit ''index'', PInt n), (lit ''id'', PStr ident),
      (lit ''name'', PStr name), (lit ''input'', PDict [])]"
  have n: "(let n = dget_or ?ev ''name'' (PStr []) in if truthy n then py_str rp n else lit ''tool'') = str_or name (lit ''tool'')"
    by (simp add: dget_or_def ev_type_def py_str_def str_or_def Let_def)
  have nt: "str_or name (lit ''tool'') \<noteq> lit ''Task''" using assms(2) by (simp add: str_or_def)
  have add: "add_tool_call tid nm u = (append_segment (ToolCallSegment (new_tool_segment tid nm 0)) u, InTranscript (length (tr_segments t)))"
    if "tr_subagent_stack u = tr_subagent_stack t" "tr_segments u = tr_segments t" for tid nm u
    using that assms(1) by (simp add: add_tool_call_def in_subagent_def)
  let ?tid = "strip (str_or_empty rp (dget_or ?ev ''id'' (PStr [])))" and ?nm = "str_or name (lit ''tool'')"
  have same: "t = t\<lparr>tr_tool_name_by_id := tr_tool_name_by_id t\<rparr>" by simp
  show ?thesis
    unfolding tool_call_def n unfolding Let_def using nt add
    by (cases "?tid = []") (simp, use same in metis, simp, blast)
qed

lemma sim_step:
  assumes s: "sim c v t" and step: "client_step c e = Some c'" and task: "no_task e"
  shows "\<exists>t'. apply_all rp (parse_cli_event rp (event_value e)) t = Inr t' \<and> sim c' (view_step v e) t'"
proof (cases c)
  case Waiting
  with step s obtain a b n where "e = MessageStart a b n" "c' = Reading 0 []" by (cases e) auto
  with s Waiting show ?thesis by (auto simp: parse_event view_step_def)
next
  case (Reading n opened)
  note r = s [unfolded Reading]
  from r have sv: "same_view v t" and o: "shows_open opened t" by auto
  have out: "\<not> in_subagent t" using sv by (simp add: same_view_def in_subagent_def)
  show ?thesis
  proof (cases e)
    case (BlockStart i b)
    with step Reading have i: "i = n" and c': "c' = Reading (n + 1) ((n, block_kind b) # opened)"
      by (auto split: if_splits)
    note new = sim_start_new [OF r]
    show ?thesis
    proof (cases b)
      case ThinkingBlock
      have "sim c' (v @ [(b, [])]) (thinking_start n t)"
        unfolding c' using new sv o ThinkingBlock
        by (intro sim_opened [OF r])
          (auto simp: thinking_start_def append_segment_def same_view_def shows_open_def dict_simps Let_def)
      with BlockStart i ThinkingBlock out show ?thesis
        by (simp add: parse_event apply_events view_step_def del: apply_all.simps)
    next
      case TextBlock
      have "sim c' (v @ [(b, [])]) (text_start n t)"
        unfolding c' using new sv o TextBlock
        by (intro sim_opened [OF r])
          (auto simp: text_start_def append_segment_def same_view_def shows_open_def dict_simps Let_def)
      with BlockStart i TextBlock out show ?thesis
        by (simp add: parse_event apply_events view_step_def del: apply_all.simps)
    next
      case (ToolUseBlock ident name)
      let ?ev = "[ev_type ''tool_use_start'', (lit ''index'', PInt n), (lit ''id'', PStr (strip ident)), (lit ''name'', PStr name),
        (lit ''input'', PDict [])]"
      have name: "name \<noteq> lit ''Task''" using task BlockStart ToolUseBlock by (simp add: no_task_def)
      let ?t = "tool_use_start rp ?ev n t"
      obtain tid names where "tool_call rp ?ev t = (append_segment (ToolCallSegment (new_tool_segment tid (str_or name (lit ''tool'')) 0))
          (t\<lparr>tr_tool_name_by_id := names\<rparr>), Some (InTranscript (nat n)))"
        using tool_call_plain [OF out name] new(4) by metis
      with new(1,3) have "?t = (append_segment (ToolCallSegment (new_tool_segment tid (str_or name (lit ''tool'')) 0))
          (t\<lparr>tr_tool_name_by_id := names\<rparr>))\<lparr>tr_open_tools := dset n (InTranscript (nat n)) (tr_open_tools t)\<rparr>"
        by (simp add: tool_use_start_def append_segment_def)
      then have "sim c' (v @ [(b, [])]) ?t"
        unfolding c' using sv o ToolUseBlock new(2)
        by (intro sim_opened [OF r])
          (auto simp: same_view_def shows_open_def dict_simps new_tool_segment_def str_or_def append_segment_def)
      with BlockStart i ToolUseBlock out show ?thesis
        by (simp add: parse_event apply_events view_step_def del: apply_all.simps)
    qed
  next
    case (BlockDelta i d)
    with step Reading have k: "dget opened i = Some (delta_kind d)" and c': "c' = Reading n opened"
      by (auto split: if_splits)
    with r have j: "0 \<le> i" "i < n" "int (length v) = n" "block_kind (fst (v ! nat i)) = delta_kind d" by auto
    then have p: "nat i < length v" by linarith
    have view: "sim c' (v[nat i := (fst (v ! nat i), snd (v ! nat i) @ s)]) (append_at (nat i) s t)"
      if "delta_kind d = KThinking \<or> delta_kind d = KText" for s
      unfolding c' using r same_view_append_at [OF sv p] j(4) that fst_update [OF p]
      by (auto simp: append_at_def shows_open_def)
    show ?thesis
    proof (cases d)
      case (ThinkingDelta s)
      then have "thinking_delta i s t = append_at (nat i) s t" using o k by (simp add: thinking_delta_def shows_open_def)
      with view [of s] BlockDelta ThinkingDelta out show ?thesis
        by (simp add: parse_event apply_events view_step_def del: apply_all.simps)
    next
      case (TextDelta s)
      then have "text_delta i s t = append_at (nat i) s t" using o k by (simp add: text_delta_def shows_open_def)
      with view [of s] BlockDelta TextDelta out show ?thesis
        by (simp add: parse_event apply_events view_step_def del: apply_all.simps)
    next
      case (InputJsonDelta s)
      with BlockDelta r c' out show ?thesis
        by (simp add: parse_event apply_events view_step_def del: apply_all.simps)
    qed
  next
    case (BlockStop i)
    with step Reading have "i \<in> set (dkeys opened)" "c' = Reading n (ddel i opened)" by (auto split: if_splits)
    with sim_block_stop [OF r this(1)] BlockStop out show ?thesis
      by (simp add: parse_event apply_events view_step_def del: apply_all.simps sim.simps)
  next
    case (MessageDelta a b m)
    with step Reading sv show ?thesis by (auto simp: parse_event view_step_def split: if_splits)
  qed (use step Reading in simp_all)
next
  case (Finishing n)
  with step s have "e = MessageStop" "c' = Complete n" by (cases e; simp)+
  with s Finishing show ?thesis by (simp add: parse_event view_step_def)
next
  case (Complete n)
  with step show ?thesis by (cases e) simp_all
qed

lemma apply_all_append: "apply_all rp (xs @ ys) t = rbind (apply_all rp xs t) (apply_all rp ys)"
proof (induction xs arbitrary: t)
  case (Cons x xs)
  then show ?case by (cases "apply_event rp x t") simp_all
qed simp

lemma sim_run:
  assumes "sim c v t" "monitor client_step c es = Some c'" "list_all no_task es"
  shows "\<exists>t'. apply_all rp (concat (map (\<lambda>e. parse_cli_event rp (event_value e)) es)) t = Inr t'
    \<and> sim c' (foldl view_step v es) t'"
  using assms
proof (induction es arbitrary: c v t)
  case (Cons e es)
  from Cons.prems(2) obtain c1 where c1: "client_step c e = Some c1" "monitor client_step c1 es = Some c'"
    by (auto split: option.splits)
  from Cons.prems(3) have nt: "no_task e" "list_all no_task es" by simp_all
  from sim_step [OF Cons.prems(1) c1(1) nt(1)] obtain t1 where
    t1: "apply_all rp (parse_cli_event rp (event_value e)) t = Inr t1" "sim c1 (view_step v e) t1" by blast
  from Cons.IH [OF t1(2) c1(2) nt(2)] t1(1) show ?case by (auto simp: apply_all_append)
qed simp

text \<open>C8: for every event stream a client accepts that starts no subagent, the transcript built from its
  events never raises and shows exactly the blocks of the stream: one segment for each block, in the order of
  the blocks, with the concatenation of the deltas of that block.\<close>
theorem transcript_shows_stream:
  assumes "monitor client_step Waiting es = Some c" "list_all no_task es"
  shows "\<exists>t. apply_all rp (concat (map (\<lambda>e. parse_cli_event rp (event_value e)) es)) (transcript_init b) = Inr t
    \<and> map show_segment (tr_segments t) = map show_block (stream_view es)"
proof -
  have "sim Waiting [] (transcript_init b)"
    by (simp add: transcript_init_def same_view_def shows_open_def)
  from sim_run [OF this assms, of rp] obtain t where
    t: "apply_all rp (concat (map (\<lambda>e. parse_cli_event rp (event_value e)) es)) (transcript_init b) = Inr t"
      "sim c (foldl view_step [] es) t" by blast
  from t(2) have "same_view (foldl view_step [] es) t" by (cases c) auto
  with t(1) show ?thesis by (auto simp: same_view_def stream_view_def)
qed

text \<open>A stream with a thinking and a text block.\<close>

definition short_stream :: "sse_event list" where
  "short_stream = [MessageStart [] [] 0, BlockStart 0 ThinkingBlock, BlockDelta 0 (ThinkingDelta (lit ''a'')), BlockStop 0,
     BlockStart 1 TextBlock, BlockDelta 1 (TextDelta (lit ''b'')), BlockDelta 1 (TextDelta (lit ''c'')), BlockStop 1,
     MessageDelta (lit ''end_turn'') 0 1, MessageStop]"

theorem transcript_shows_stream_witness:
  "\<exists>t. apply_all (\<lambda>_. []) (concat (map (\<lambda>e. parse_cli_event (\<lambda>_. []) (event_value e)) short_stream)) (transcript_init True) = Inr t
    \<and> map show_segment (tr_segments t) = [ShownThinking (lit ''a''), ShownText (lit ''bc'')]"
proof -
  have one: "monitor client_step Waiting short_stream = Some (Complete 2)" by (simp add: short_stream_def)
  have two: "list_all no_task short_stream" by (simp add: short_stream_def no_task_def)
  have three: "map show_block (stream_view short_stream) = [ShownThinking (lit ''a''), ShownText (lit ''bc'')]"
    by (simp add: stream_view_def short_stream_def view_step_def lit_def)
  from transcript_shows_stream [OF one two, of "\<lambda>_. []" True] three show ?thesis by simp
qed

section \<open>The rendered text\<close>

definition fits :: "render_ctx \<Rightarrow> int \<Rightarrow> pystr option \<Rightarrow> pystr list \<Rightarrow> bool" where
  "fits ctx limit status parts \<longleftrightarrow> int (length (join_parts ctx status True parts)) \<le> limit"

lemma drop_oldest_finds:
  assumes "k < length parts" "fits ctx limit status (drop k parts)" "\<And>j. j < k \<Longrightarrow> \<not> fits ctx limit status (drop j parts)"
  shows "drop_oldest ctx limit status parts last_part = Inl (join_parts ctx status True (drop k parts))"
  using assms
proof (induction parts arbitrary: k last_part)
  case (Cons p parts)
  show ?case
  proof (cases k)
    case 0
    with Cons.prems show ?thesis by (simp add: fits_def Let_def)
  next
    case (Suc l)
    have "\<not> fits ctx limit status (p # parts)" using Cons.prems(3) [of 0] Suc by simp
    moreover have "\<not> fits ctx limit status (drop j parts)" if "j < l" for j
      using Cons.prems(3) [of "Suc j"] Suc that by simp
    ultimately show ?thesis using Cons.IH [of l] Cons.prems(1,2) Suc by (simp add: fits_def Let_def)
  qed
qed simp

lemma drop_oldest_length: "drop_oldest ctx limit status parts last_part = Inl out \<Longrightarrow> int (length out) \<le> limit"
  by (induction parts arbitrary: last_part) (auto simp: Let_def split: if_splits)

lemma last_resort_length:
  "int (length (last_resort ctx limit status p)) \<le> limit \<or> last_resort ctx limit status p = (case status of None \<Rightarrow> [] | Some s \<Rightarrow> s)"
  by (auto simp: last_resort_def Let_def split: option.split)

text \<open>The rendered transcript is never longer than the limit, unless it is the bare status line; all parts
  are shown if they fit, and otherwise the longest tail of parts that fits after the truncation mark.\<close>
theorem render_within_limit:
  "(int (length (render_transcript ctx limit status t)) \<le> limit
      \<or> render_transcript ctx limit status t = (case status of None \<Rightarrow> [] | Some s \<Rightarrow> s))
   \<and> (int (length (join_parts ctx status False (rendered_parts ctx t))) \<le> limit \<longrightarrow>
        render_transcript ctx limit status t = join_parts ctx status False (rendered_parts ctx t))
   \<and> (limit < int (length (join_parts ctx status False (rendered_parts ctx t)))
        \<and> k < length (rendered_parts ctx t) \<and> fits ctx limit status (drop k (rendered_parts ctx t))
        \<and> (\<forall>j < k. \<not> fits ctx limit status (drop j (rendered_parts ctx t))) \<longrightarrow>
        render_transcript ctx limit status t = join_parts ctx status True (drop k (rendered_parts ctx t)))"
proof (intro conjI impI)
  show "int (length (render_transcript ctx limit status t)) \<le> limit
      \<or> render_transcript ctx limit status t = (case status of None \<Rightarrow> [] | Some s \<Rightarrow> s)"
    using last_resort_length [of ctx limit status] drop_oldest_length [of ctx limit status "rendered_parts ctx t" None]
    by (auto simp: render_transcript_def Let_def split: sum.split)
qed (auto simp: render_transcript_def Let_def drop_oldest_finds)

text \<open>Rendering without any markup, and a transcript of two texts.\<close>

definition plain_ctx :: render_ctx where
  "plain_ctx = \<lparr>rc_bold = id, rc_code_inline = id, rc_escape_code = id, rc_escape_text = id, rc_render_markdown = id,
     rc_thinking_tail_max = Some 1000, rc_tool_output_tail_max = Some 1600, rc_text_tail_max = Some 2000\<rparr>"

definition two_texts :: transcript where
  "two_texts = (transcript_init True)\<lparr>tr_segments := [TextSegment [lit ''first text, quite long''], TextSegment [lit ''second'']]\<rparr>"

theorem render_within_limit_witness:
  "render_transcript plain_ctx 24 None two_texts = lit ''... (truncated)'' @ newline @ lit ''second''"
proof -
  have parts: "rendered_parts plain_ctx two_texts = [lit ''first text, quite long'', lit ''second'']"
    by (simp add: rendered_parts_def two_texts_def plain_ctx_def render_segment_def keep_tail_def)
  have m: "marker plain_ctx = lit ''... (truncated)'' @ newline" by (simp add: marker_def plain_ctx_def)
  have "24 < int (length (join_parts plain_ctx None False (rendered_parts plain_ctx two_texts)))"
    "1 < length (rendered_parts plain_ctx two_texts)"
    "fits plain_ctx 24 None (drop 1 (rendered_parts plain_ctx two_texts))"
    "\<forall>j < 1. \<not> fits plain_ctx 24 None (drop j (rendered_parts plain_ctx two_texts))"
    unfolding parts by (simp_all add: fits_def join_parts_def m status_text_def newline_def Let_def)
  with render_within_limit [of plain_ctx 24 None two_texts 1]
  have "render_transcript plain_ctx 24 None two_texts
      = join_parts plain_ctx None True (drop 1 (rendered_parts plain_ctx two_texts))" by blast
  then show ?thesis unfolding parts by (simp add: join_parts_def m status_text_def Let_def)
qed

end
