(* ===== verification/MessageConverter.thy ===== *)
theory MessageConverter
  imports EventParser
begin

text \<open>
  \<open>providers/common/message_converter.py\<close>, \<open>providers/common/utils.py\<close> and the request builders of NVIDIA
  NIM and OpenRouter: the translation of an Anthropic request into the body of a chat completion. A content
  block is an object or a dictionary; either way the code reads its attributes by name, so it is a
  dictionary here. Values that the code hands on unread keep their dynamic type.
\<close>

section \<open>Blocks\<close>

definition get_block_attr :: "pyval \<Rightarrow> string \<Rightarrow> pyval \<Rightarrow> pyval" where
  "get_block_attr block attr otherwise = (case block of PDict d \<Rightarrow> dget_or d attr otherwise | _ \<Rightarrow> otherwise)"

definition get_block_type :: "pyval \<Rightarrow> pyval" where
  "get_block_type block = get_block_attr block ''type'' PNone"

text \<open>\<open>sep.join(parts)\<close> raises if a part is not a string.\<close>

definition join_values :: "pystr \<Rightarrow> pyval list \<Rightarrow> pystr result" where
  "join_values sep parts =
     rbind (rmap_list (\<lambda>v. case v of PStr s \<Rightarrow> Inr s | _ \<Rightarrow> Inl TypeError) parts) (\<lambda>ss. Inr (join sep ss))"

definition entry :: "string \<Rightarrow> pyval \<Rightarrow> pystr \<times> pyval" where
  "entry key v = (lit key, v)"

definition text_entry :: "string \<Rightarrow> string \<Rightarrow> pystr \<times> pyval" where
  "text_entry key s = (lit key, PStr (lit s))"

section \<open>Assistant messages\<close>

definition is_dict :: "pyval \<Rightarrow> bool" where
  "is_dict v \<longleftrightarrow> (case v of PDict _ \<Rightarrow> True | _ \<Rightarrow> False)"

definition tool_call_of :: "(pyval \<Rightarrow> pystr) \<Rightarrow> pyval \<Rightarrow> pyval" where
  "tool_call_of rp block =
     (let input = get_block_attr block ''input'' (PDict [])
      in PDict [entry ''id'' (get_block_attr block ''id'' PNone), text_entry ''type'' ''function'',
           entry ''function'' (PDict
             [entry ''name'' (get_block_attr block ''name'' PNone),
              entry ''arguments'' (PStr (if is_dict input then json_dumps input else py_str rp input))])])"

definition think_block :: "(pyval \<Rightarrow> pystr) \<Rightarrow> pyval \<Rightarrow> pystr" where
  "think_block rp thinking = lit ''<think>'' @ newline @ py_str rp thinking @ newline @ lit ''</think>''"

text \<open>The loop over the blocks: content parts, thinking parts and tool calls, each in order.\<close>

fun assistant_parts ::
    "(pyval \<Rightarrow> pystr) \<Rightarrow> bool \<Rightarrow> pyval list \<Rightarrow> pyval list \<times> pyval list \<times> pyval list" where
  "assistant_parts rp reasoning [] = ([], [], [])"
| "assistant_parts rp reasoning (block # blocks) =
     (let block_type = get_block_type block; (parts, thinking_parts, calls) = assistant_parts rp reasoning blocks
      in if is_str block_type ''text''
         then (get_block_attr block ''text'' (PStr []) # parts, thinking_parts, calls)
         else if is_str block_type ''thinking''
         then (let thinking = get_block_attr block ''thinking'' (PStr [])
               in (PStr (think_block rp thinking) # parts,
                   (if reasoning then thinking # thinking_parts else thinking_parts), calls))
         else if is_str block_type ''tool_use'' then (parts, thinking_parts, tool_call_of rp block # calls)
         else (parts, thinking_parts, calls))"

definition convert_assistant_message :: "(pyval \<Rightarrow> pystr) \<Rightarrow> bool \<Rightarrow> pyval list \<Rightarrow> pyval list result" where
  "convert_assistant_message rp reasoning content =
     (case assistant_parts rp reasoning content of
        (parts, thinking_parts, calls) \<Rightarrow>
          rbind (join_values (newline @ newline) parts) (\<lambda>text0.
            let content_str = (if text0 = [] \<and> calls = [] then lit '' '' else text0);
                msg = [text_entry ''role'' ''assistant'', entry ''content'' (PStr content_str)]
                      @ (if calls \<noteq> [] then [entry ''tool_calls'' (PList calls)] else [])
            in if reasoning \<and> thinking_parts \<noteq> []
               then rbind (join_values newline thinking_parts) (\<lambda>r. Inr [PDict (msg @ [entry ''reasoning_content'' (PStr r)])])
               else Inr [PDict msg]))"

section \<open>User messages\<close>

definition flush_text :: "pyval list \<Rightarrow> pyval list result" where
  "flush_text text_parts =
     (if text_parts = [] then Inr []
      else rbind (join_values newline text_parts) (\<lambda>s.
             Inr [PDict [text_entry ''role'' ''user'', entry ''content'' (PStr s)]]))"

text \<open>The content of a tool result: a list becomes the lines of its items, a false value the empty text.
  The first item that has a \<open>text\<close> that is not a string makes \<open>join\<close> raise.\<close>

definition result_item :: "(pyval \<Rightarrow> pystr) \<Rightarrow> pyval \<Rightarrow> pyval" where
  "result_item rp item =
     (case item of
        PDict d \<Rightarrow> dget_or d ''text'' (PStr (py_str rp item))
      | _ \<Rightarrow> PStr (py_str rp item))"

definition tool_content :: "(pyval \<Rightarrow> pystr) \<Rightarrow> pyval \<Rightarrow> pystr result" where
  "tool_content rp v =
     (case v of
        PList items \<Rightarrow> join_values newline (map (result_item rp) items)
      | _ \<Rightarrow> Inr (str_or_empty rp v))"

definition tool_message :: "(pyval \<Rightarrow> pystr) \<Rightarrow> pyval \<Rightarrow> pyval result" where
  "tool_message rp block =
     rbind (tool_content rp (get_block_attr block ''content'' (PStr []))) (\<lambda>s.
       Inr (PDict [text_entry ''role'' ''tool'', entry ''tool_call_id'' (get_block_attr block ''tool_use_id'' PNone),
              entry ''content'' (PStr s)]))"

fun user_messages :: "(pyval \<Rightarrow> pystr) \<Rightarrow> pyval list \<Rightarrow> pyval list \<Rightarrow> pyval list result" where
  "user_messages rp text_parts [] = flush_text text_parts"
| "user_messages rp text_parts (block # blocks) =
     (let block_type = get_block_type block
      in if is_str block_type ''text''
         then user_messages rp (text_parts @ [get_block_attr block ''text'' (PStr [])]) blocks
         else if is_str block_type ''tool_result''
         then rbind (flush_text text_parts) (\<lambda>before.
                rbind (tool_message rp block) (\<lambda>msg.
                  rbind (user_messages rp [] blocks) (\<lambda>rest. Inr (before @ msg # rest))))
         else user_messages rp text_parts blocks)"

definition convert_user_message :: "(pyval \<Rightarrow> pystr) \<Rightarrow> pyval list \<Rightarrow> pyval list result" where
  "convert_user_message rp content = user_messages rp [] content"

section \<open>Requests\<close>

record chat_message =
  cm_role :: pystr
  cm_content :: pyval

definition convert_message :: "(pyval \<Rightarrow> pystr) \<Rightarrow> bool \<Rightarrow> chat_message \<Rightarrow> pyval list result" where
  "convert_message rp reasoning msg =
     (case cm_content msg of
        PStr s \<Rightarrow> Inr [PDict [entry ''role'' (PStr (cm_role msg)), entry ''content'' (PStr s)]]
      | PList content \<Rightarrow>
          if cm_role msg = lit ''assistant'' then convert_assistant_message rp reasoning content
          else if cm_role msg = lit ''user'' then convert_user_message rp content
          else Inr []
      | v \<Rightarrow> Inr [PDict [entry ''role'' (PStr (cm_role msg)), entry ''content'' (PStr (py_str rp v))]])"

definition convert_messages :: "(pyval \<Rightarrow> pystr) \<Rightarrow> bool \<Rightarrow> chat_message list \<Rightarrow> pyval list result" where
  "convert_messages rp reasoning messages =
     rbind (rmap_list (convert_message rp reasoning) messages) (\<lambda>rs. Inr (concat rs))"

record tool_spec =
  tl_name :: pystr
  tl_description :: "pystr option"
  tl_input_schema :: pyval

definition convert_tools :: "tool_spec list \<Rightarrow> pyval" where
  "convert_tools tools = PList (map (\<lambda>tool.
     PDict [text_entry ''type'' ''function'',
       entry ''function'' (PDict
         [entry ''name'' (PStr (tl_name tool)),
          entry ''description'' (PStr (case tl_description tool of None \<Rightarrow> [] | Some s \<Rightarrow> s)),
          entry ''parameters'' (tl_input_schema tool)])]) tools)"

definition convert_system_prompt :: "pyval \<Rightarrow> pyval option result" where
  "convert_system_prompt system =
     (case system of
        PStr s \<Rightarrow> Inr (Some (PDict [text_entry ''role'' ''system'', entry ''content'' (PStr s)]))
      | PList blocks \<Rightarrow>
          (let parts = map (\<lambda>b. get_block_attr b ''text'' (PStr []))
                         (filter (\<lambda>b. is_str (get_block_type b) ''text'') blocks)
           in if parts = [] then Inr None
              else rbind (join_values (newline @ newline) parts) (\<lambda>s.
                     Inr (Some (PDict [text_entry ''role'' ''system'', entry ''content'' (PStr (strip s))]))))
      | _ \<Rightarrow> Inr None)"

record anthropic_request =
  rq_model :: pystr
  rq_messages :: "chat_message list"
  rq_system :: pyval
  rq_max_tokens :: "int option"
  rq_temperature :: pyval
  rq_top_p :: pyval
  rq_top_k :: "int option"
  rq_stop_sequences :: pyval
  rq_tools :: "tool_spec list"
  rq_tool_choice :: pyval
  rq_extra_body :: "event"
  rq_thinking_enabled :: "bool option"

definition set_if_not_none :: "string \<Rightarrow> pyval \<Rightarrow> event \<Rightarrow> event" where
  "set_if_not_none key v body = (if v = PNone then body else dset (lit key) v body)"

definition opt_int :: "int option \<Rightarrow> pyval" where
  "opt_int x = (case x of None \<Rightarrow> PNone | Some i \<Rightarrow> PInt i)"

text \<open>\<open>a or b\<close> on optional integers.\<close>

definition int_or :: "int option \<Rightarrow> int option \<Rightarrow> int option" where
  "int_or a b = (case a of None \<Rightarrow> b | Some i \<Rightarrow> if i = 0 then b else a)"

definition build_base_request_body ::
    "(pyval \<Rightarrow> pystr) \<Rightarrow> int option \<Rightarrow> bool \<Rightarrow> anthropic_request \<Rightarrow> event result" where
  "build_base_request_body rp default_max_tokens reasoning rq =
     rbind (convert_messages rp reasoning (rq_messages rq)) (\<lambda>messages0.
     rbind (if truthy (rq_system rq) then convert_system_prompt (rq_system rq) else Inr None) (\<lambda>system_msg.
       let messages = (case system_msg of None \<Rightarrow> messages0 | Some m \<Rightarrow> m # messages0);
           body = [entry ''model'' (PStr (rq_model rq)), entry ''messages'' (PList messages)];
           body1 = set_if_not_none ''top_p'' (rq_top_p rq)
                     (set_if_not_none ''temperature'' (rq_temperature rq)
                       (set_if_not_none ''max_tokens'' (opt_int (int_or (rq_max_tokens rq) default_max_tokens)) body));
           body2 = (if truthy (rq_stop_sequences rq) then dset (lit ''stop'') (rq_stop_sequences rq) body1 else body1);
           body3 = (if rq_tools rq \<noteq> [] then dset (lit ''tools'') (convert_tools (rq_tools rq)) body2 else body2)
       in Inr (if truthy (rq_tool_choice rq) then dset (lit ''tool_choice'') (rq_tool_choice rq) body3 else body3)))"

section \<open>OpenRouter and NVIDIA NIM\<close>

definition setdefault :: "string \<Rightarrow> pyval \<Rightarrow> event \<Rightarrow> event" where
  "setdefault key v d = (if din (lit key) d then d else dset (lit key) v d)"

definition openrouter_request_body :: "(pyval \<Rightarrow> pystr) \<Rightarrow> anthropic_request \<Rightarrow> event result" where
  "openrouter_request_body rp rq =
     rbind (build_base_request_body rp (Some 81920) True rq) (\<lambda>body.
       let enabled = (case rq_thinking_enabled rq of None \<Rightarrow> True | Some b \<Rightarrow> b);
           extra = (if enabled then setdefault ''reasoning'' (PDict [entry ''enabled'' (PBool True)]) (rq_extra_body rq)
                    else rq_extra_body rq)
       in Inr (if extra \<noteq> [] then dset (lit ''extra_body'') (PDict extra) body else body))"

record nim_settings =
  nim_temperature :: pyval
  nim_top_p :: pyval
  nim_top_k :: int
  nim_max_tokens :: int
  nim_presence_penalty :: pyval
  nim_frequency_penalty :: pyval
  nim_min_p :: pyval
  nim_repetition_penalty :: pyval
  nim_seed :: pyval
  nim_stop :: pyval
  nim_parallel_tool_calls :: bool
  nim_return_tokens_as_token_ids :: bool
  nim_include_stop_str_in_output :: bool
  nim_ignore_eos :: bool
  nim_min_tokens :: int
  nim_chat_template :: pyval
  nim_request_id :: pyval
  nim_reasoning_effort :: pystr
  nim_include_reasoning :: bool

definition set_extra :: "string \<Rightarrow> pyval \<Rightarrow> pyval \<Rightarrow> event \<Rightarrow> event" where
  "set_extra key v ignore_value d =
     (if din (lit key) d then d
      else if v = PNone then d
      else if ignore_value \<noteq> PNone \<and> v = ignore_value then d
      else dset (lit key) v d)"

text \<open>The limit: what the request asks for, capped by the setting unless that is zero.\<close>

definition nim_limit :: "int option \<Rightarrow> int option \<Rightarrow> int \<Rightarrow> int" where
  "nim_limit in_body requested cap =
     (case int_or in_body requested of
        None \<Rightarrow> cap
      | Some n \<Rightarrow> if cap \<noteq> 0 then min n cap else n)"

definition body_int :: "string \<Rightarrow> event \<Rightarrow> int option" where
  "body_int key d = (case dget d (lit key) of Some (PInt i) \<Rightarrow> Some i | _ \<Rightarrow> None)"

definition fallback :: "string \<Rightarrow> pyval \<Rightarrow> event \<Rightarrow> event" where
  "fallback key v d = (if dget_or d key PNone = PNone \<and> v \<noteq> PNone then dset (lit key) v d else d)"

definition nim_extra_body :: "anthropic_request \<Rightarrow> nim_settings \<Rightarrow> event" where
  "nim_extra_body rq nim =
     (let e1 = setdefault ''thinking'' (PDict [text_entry ''type'' ''enabled'']) (rq_extra_body rq);
          e2 = setdefault ''reasoning_split'' (PBool True) e1;
          e3 = setdefault ''chat_template_kwargs'' (PDict [entry ''thinking'' (PBool True), entry ''enable_thinking'' (PBool True),
                 entry ''reasoning_split'' (PBool True), entry ''clear_thinking'' (PBool False)]) e2;
          e4 = set_extra ''top_k'' (PInt (case rq_top_k rq of None \<Rightarrow> nim_top_k nim | Some k \<Rightarrow> k)) (PInt (- 1)) e3;
          e5 = set_extra ''min_p'' (nim_min_p nim) (PFloat (lit ''0.0'')) e4;
          e6 = set_extra ''repetition_penalty'' (nim_repetition_penalty nim) (PFloat (lit ''1.0'')) e5;
          e7 = set_extra ''min_tokens'' (PInt (nim_min_tokens nim)) (PInt 0) e6;
          e8 = set_extra ''chat_template'' (nim_chat_template nim) PNone e7;
          e9 = set_extra ''request_id'' (nim_request_id nim) PNone e8;
          e10 = set_extra ''return_tokens_as_token_ids'' (PBool (nim_return_tokens_as_token_ids nim)) PNone e9;
          e11 = set_extra ''include_stop_str_in_output'' (PBool (nim_include_stop_str_in_output nim)) PNone e10;
          e12 = set_extra ''ignore_eos'' (PBool (nim_ignore_eos nim)) PNone e11;
          e13 = set_extra ''reasoning_effort'' (PStr (nim_reasoning_effort nim)) PNone e12
      in set_extra ''include_reasoning'' (PBool (nim_include_reasoning nim)) PNone e13)"

definition is_float_zero :: "pyval \<Rightarrow> bool" where
  "is_float_zero v \<longleftrightarrow> v = PFloat (lit ''0.0'') \<or> v = PFloat (lit ''-0.0'')"

definition nim_request_body :: "(pyval \<Rightarrow> pystr) \<Rightarrow> anthropic_request \<Rightarrow> nim_settings \<Rightarrow> event result" where
  "nim_request_body rp rq nim =
     rbind (build_base_request_body rp None False rq) (\<lambda>body.
       let b1 = dset (lit ''max_tokens'') (PInt (nim_limit (body_int ''max_tokens'' body) (rq_max_tokens rq) (nim_max_tokens nim))) body;
           b2 = fallback ''top_p'' (nim_top_p nim) (fallback ''temperature'' (nim_temperature nim) b1);
           b3 = (if \<not> din (lit ''stop'') b2 \<and> truthy (nim_stop nim) then dset (lit ''stop'') (nim_stop nim) b2 else b2);
           b4 = (if \<not> is_float_zero (nim_presence_penalty nim)
                 then dset (lit ''presence_penalty'') (nim_presence_penalty nim) b3 else b3);
           b5 = (if \<not> is_float_zero (nim_frequency_penalty nim)
                 then dset (lit ''frequency_penalty'') (nim_frequency_penalty nim) b4 else b4);
           b6 = set_if_not_none ''seed'' (nim_seed nim) b5;
           b7 = dset (lit ''parallel_tool_calls'') (PBool (nim_parallel_tool_calls nim)) b6;
           extra = nim_extra_body rq nim
       in Inr (if extra \<noteq> [] then dset (lit ''extra_body'') (PDict extra) b7 else b7))"

section \<open>Tool calls and results survive the translation\<close>

text \<open>The tool events of a conversation: calls and results with their identifiers, in order. In an
  Anthropic conversation they are blocks, in the other format fields of messages.\<close>

datatype tool_event = ToolCall pyval | ToolResult pyval

definition block_events :: "pystr \<Rightarrow> pyval \<Rightarrow> tool_event list" where
  "block_events role block =
     (if role = lit ''assistant'' \<and> is_str (get_block_type block) ''tool_use''
      then [ToolCall (get_block_attr block ''id'' PNone)]
      else if role = lit ''user'' \<and> is_str (get_block_type block) ''tool_result''
      then [ToolResult (get_block_attr block ''tool_use_id'' PNone)] else [])"

definition message_tool_events :: "chat_message \<Rightarrow> tool_event list" where
  "message_tool_events msg =
     (case cm_content msg of PList content \<Rightarrow> concat (map (block_events (cm_role msg)) content) | _ \<Rightarrow> [])"

definition output_events :: "pyval \<Rightarrow> tool_event list" where
  "output_events m =
     (case m of
        PDict d \<Rightarrow>
          (case dget d (lit ''tool_calls'') of
             Some (PList calls) \<Rightarrow> map (\<lambda>c. ToolCall (get_block_attr c ''id'' PNone)) calls
           | _ \<Rightarrow> []) @
          (case dget d (lit ''tool_call_id'') of Some i \<Rightarrow> [ToolResult i] | None \<Rightarrow> [])
      | _ \<Rightarrow> [])"

lemmas entry_defs = entry_def text_entry_def

lemma assistant_calls:
  "assistant_parts rp reasoning content = (parts, thinking, calls) \<Longrightarrow>
     map (\<lambda>c. ToolCall (get_block_attr c ''id'' PNone)) calls = concat (map (block_events (lit ''assistant'')) content)"
proof (induction content arbitrary: parts thinking calls)
  case (Cons b bs)
  obtain p t c where rec: "assistant_parts rp reasoning bs = (p, t, c)" by (cases "assistant_parts rp reasoning bs")
  have call: "get_block_attr (tool_call_of rp b) ''id'' PNone = get_block_attr b ''id'' PNone"
    by (simp add: tool_call_of_def get_block_attr_def dget_or_def entry_defs Let_def)
  show ?case
    using Cons.prems Cons.IH [OF rec] rec call
    by (auto simp: block_events_def is_str_def Let_def split: if_splits)
qed simp

lemma assistant_events:
  assumes "convert_assistant_message rp reasoning content = Inr out"
  shows "concat (map output_events out) = concat (map (block_events (lit ''assistant'')) content)"
proof -
  obtain parts thinking calls where p: "assistant_parts rp reasoning content = (parts, thinking, calls)"
    by (cases "assistant_parts rp reasoning content")
  show ?thesis
    using assms p assistant_calls [OF p, symmetric]
    by (auto simp: convert_assistant_message_def rbind_Inr_iff output_events_def entry_defs Let_def split: if_splits)
qed

lemma flush_text_events: "flush_text parts = Inr out \<Longrightarrow> concat (map output_events out) = []"
  by (auto simp: flush_text_def rbind_Inr_iff output_events_def entry_defs split: if_splits)

lemma user_events:
  "user_messages rp parts content = Inr out \<Longrightarrow>
     concat (map output_events out) = concat (map (block_events (lit ''user'')) content)"
proof (induction rp parts content arbitrary: out rule: user_messages.induct)
  case (1 rp parts)
  then show ?case by (simp add: flush_text_events)
next
  case (2 rp parts block blocks)
  have msg: "output_events m = [ToolResult (get_block_attr block ''tool_use_id'' PNone)]" if "tool_message rp block = Inr m" for m
    using that by (auto simp: tool_message_def rbind_Inr_iff output_events_def entry_defs)
  consider "is_str (get_block_type block) ''text''" | "\<not> is_str (get_block_type block) ''text''"
      "is_str (get_block_type block) ''tool_result''"
    | "\<not> is_str (get_block_type block) ''text''" "\<not> is_str (get_block_type block) ''tool_result''" by blast
  then show ?case
  proof cases
    case 1
    with 2 show ?thesis by (simp add: block_events_def is_str_def Let_def)
  next
    case case2: 2
    with "2.prems" obtain before m rest where r: "flush_text parts = Inr before" "tool_message rp block = Inr m"
      "user_messages rp [] blocks = Inr rest" "out = before @ m # rest"
      by (auto simp: rbind_Inr_iff Let_def)
    from "2.IH"(2) [OF refl case2(1) case2(2) r(3)] msg [OF r(2)] flush_text_events [OF r(1)] r(4) case2
    show ?thesis by (simp add: block_events_def)
  next
    case 3
    with 2 show ?thesis by (simp add: block_events_def Let_def)
  qed
qed

lemma convert_message_events:
  "convert_message rp reasoning msg = Inr out \<Longrightarrow> concat (map output_events out) = message_tool_events msg"
  using assistant_events [of rp reasoning _ out] user_events [of rp "[]" _ out]
  by (auto simp: convert_message_def convert_user_message_def message_tool_events_def output_events_def entry_defs
      block_events_def split: pyval.splits if_splits)

lemma rmap_list_concat:
  assumes "rmap_list f xs = Inr ys" "\<And>x y. f x = Inr y \<Longrightarrow> g y = h x"
  shows "concat (map g ys) = concat (map h xs)"
  using assms by (induction xs arbitrary: ys) (auto simp: rbind_Inr_iff)

text \<open>The translation of a conversation keeps every tool call and every tool result with its
  identifier, in the order of the conversation, and adds none.\<close>
theorem tool_events_preserved:
  assumes "convert_messages rp reasoning messages = Inr out"
  shows "concat (map output_events out) = concat (map message_tool_events messages)"
proof -
  from assms obtain outs where o: "rmap_list (convert_message rp reasoning) messages = Inr outs" "out = concat outs"
    by (auto simp: convert_messages_def rbind_Inr_iff)
  have "concat (map output_events (concat outs)) = concat (map (\<lambda>ms. concat (map output_events ms)) outs)"
    by (induction outs) simp_all
  also have "\<dots> = concat (map message_tool_events messages)"
    by (rule rmap_list_concat [OF o(1)]) (rule convert_message_events)
  finally show ?thesis using o(2) by simp
qed

definition sample_conversation :: "chat_message list" where
  "sample_conversation =
     [\<lparr>cm_role = lit ''assistant'', cm_content = PList [PDict [text_entry ''type'' ''tool_use'', text_entry ''id'' ''t1'', text_entry ''name'' ''ls'']]\<rparr>,
      \<lparr>cm_role = lit ''user'', cm_content = PList [PDict [text_entry ''type'' ''tool_result'', text_entry ''tool_use_id'' ''t1'',
         text_entry ''content'' ''a'']]\<rparr>]"

lemma sample_converts: "\<exists>out. convert_messages (\<lambda>_. []) False sample_conversation = Inr out"
  by (simp add: convert_messages_def convert_message_def sample_conversation_def convert_assistant_message_def
      convert_user_message_def get_block_type_def get_block_attr_def dget_or_def entry_defs is_str_def join_values_def
      flush_text_def tool_message_def tool_content_def Let_def)

theorem tool_events_preserved_witness:
  "\<exists>out. convert_messages (\<lambda>_. []) False sample_conversation = Inr out
     \<and> concat (map output_events out) = [ToolCall (PStr (lit ''t1'')), ToolResult (PStr (lit ''t1''))]"
proof -
  obtain out where o: "convert_messages (\<lambda>_. []) False sample_conversation = Inr out"
    using sample_converts by blast
  have "concat (map message_tool_events sample_conversation) = [ToolCall (PStr (lit ''t1'')), ToolResult (PStr (lit ''t1''))]"
    by (simp add: sample_conversation_def message_tool_events_def block_events_def get_block_type_def get_block_attr_def
        dget_or_def entry_defs is_str_def)
  with tool_events_preserved [OF o] o show ?thesis by simp
qed

section \<open>Limits\<close>

lemma dget_other:
  "k \<noteq> l \<Longrightarrow> dget (dset l v d) k = dget d k"
  "k \<noteq> l \<Longrightarrow> dget (if c then dset l v d else d) k = dget d k"
  "k \<noteq> lit key \<Longrightarrow> dget (fallback key v d) k = dget d k"
  "k \<noteq> lit key \<Longrightarrow> dget (set_if_not_none key v d) k = dget d k"
  by (simp_all add: dict_simps fallback_def set_if_not_none_def)

lemma nim_max_tokens_kept:
  assumes "nim_request_body rp rq nim = Inr b"
  shows "\<exists>body. build_base_request_body rp None False rq = Inr body
    \<and> dget b (lit ''max_tokens'') = Some (PInt (nim_limit (body_int ''max_tokens'' body) (rq_max_tokens rq) (nim_max_tokens nim)))"
proof -
  from assms obtain body where body: "build_base_request_body rp None False rq = Inr body"
    unfolding nim_request_body_def rbind_Inr_iff by blast
  have "dget b (lit ''max_tokens'') = dget (dset (lit ''max_tokens'')
      (PInt (nim_limit (body_int ''max_tokens'' body) (rq_max_tokens rq) (nim_max_tokens nim))) body) (lit ''max_tokens'')"
    using assms unfolding nim_request_body_def body rbind.simps Let_def sum.inject 
    by - (drule sym, simp add: dget_other split del: if_split)
  with body show ?thesis by (simp add: dict_simps)
qed

lemma base_max_tokens:
  assumes "build_base_request_body rp None False rq = Inr body"
  shows "body_int ''max_tokens'' body = int_or (rq_max_tokens rq) None"
proof -
  from assms obtain ms where "dget body (lit ''max_tokens'')
      = dget (set_if_not_none ''max_tokens'' (opt_int (int_or (rq_max_tokens rq) None))
          [entry ''model'' (PStr (rq_model rq)), entry ''messages'' (PList ms)]) (lit ''max_tokens'')"
    unfolding build_base_request_body_def rbind_Inr_iff Let_def by (auto simp: dget_other)
  then show ?thesis
    by (auto simp: body_int_def set_if_not_none_def opt_int_def entry_def dict_simps split: option.splits)
qed

text \<open>A request for NVIDIA NIM always carries a token limit; it never exceeds the configured cap, is the
  requested limit where that is positive and within the cap, and is the cap when nothing is requested.\<close>
theorem nim_token_limit:
  assumes "nim_request_body rp rq nim = Inr b" "0 < nim_max_tokens nim"
  shows "\<exists>n. dget b (lit ''max_tokens'') = Some (PInt n) \<and> n \<le> nim_max_tokens nim
    \<and> (rq_max_tokens rq = None \<longrightarrow> n = nim_max_tokens nim)
    \<and> (\<forall>k. rq_max_tokens rq = Some k \<longrightarrow> n = min k (nim_max_tokens nim))"
proof -
  from nim_max_tokens_kept [OF assms(1)] obtain body where
    b: "build_base_request_body rp None False rq = Inr body"
      "dget b (lit ''max_tokens'') = Some (PInt (nim_limit (body_int ''max_tokens'' body) (rq_max_tokens rq) (nim_max_tokens nim)))"
    by blast
  with base_max_tokens [OF b(1)] assms(2) show ?thesis
    by (auto simp: nim_limit_def int_or_def split: option.splits)
qed

definition sample_request :: "int option \<Rightarrow> anthropic_request" where
  "sample_request limit = \<lparr>rq_model = lit ''m'', rq_messages = sample_conversation, rq_system = PNone, rq_max_tokens = limit,
     rq_temperature = PNone, rq_top_p = PNone, rq_top_k = None, rq_stop_sequences = PNone, rq_tools = [],
     rq_tool_choice = PNone, rq_extra_body = [], rq_thinking_enabled = None\<rparr>"

definition default_nim :: nim_settings where
  "default_nim = \<lparr>nim_temperature = PFloat (lit ''1.0''), nim_top_p = PFloat (lit ''1.0''), nim_top_k = - 1, nim_max_tokens = 81920,
     nim_presence_penalty = PFloat (lit ''0.0''), nim_frequency_penalty = PFloat (lit ''0.0''), nim_min_p = PFloat (lit ''0.0''),
     nim_repetition_penalty = PFloat (lit ''1.0''), nim_seed = PNone, nim_stop = PNone, nim_parallel_tool_calls = True,
     nim_return_tokens_as_token_ids = False, nim_include_stop_str_in_output = False, nim_ignore_eos = False,
     nim_min_tokens = 0, nim_chat_template = PNone, nim_request_id = PNone, nim_reasoning_effort = lit ''high'',
     nim_include_reasoning = True\<rparr>"

theorem nim_token_limit_witness:
  "\<exists>b. nim_request_body (\<lambda>_. []) (sample_request (Some 100000)) default_nim = Inr b
     \<and> dget b (lit ''max_tokens'') = Some (PInt 81920)"
proof -
  obtain out where o: "convert_messages (\<lambda>_. []) False sample_conversation = Inr out"
    using sample_converts by blast
  obtain b where b: "nim_request_body (\<lambda>_. []) (sample_request (Some 100000)) default_nim = Inr b"
    by (cases "nim_request_body (\<lambda>_. []) (sample_request (Some 100000)) default_nim")
      (simp_all add: nim_request_body_def build_base_request_body_def sample_request_def o Let_def)
  from nim_token_limit [OF b] show ?thesis
    using b by (auto simp: default_nim_def sample_request_def)
qed

end
