(* ===== verification/SnapshotQueue.thy ===== *)
theory SnapshotQueue
  imports Prelude
begin

text \<open>
  \<open>_SnapshotQueue\<close> of \<open>messaging/trees/data.py\<close>: a deque with a set as membership index. The locale
  states what the message tree relies on, and proves what follows for draining; the deque with its
  index implements it.
\<close>

section \<open>The interface\<close>

text \<open>A loop that takes items until the queue is empty, with a bound on its rounds.\<close>

fun take_all :: "('q \<Rightarrow> ('x \<times> 'q) option) \<Rightarrow> nat \<Rightarrow> 'q \<Rightarrow> 'x list \<times> 'q" where
  "take_all get 0 q = ([], q)"
| "take_all get (Suc n) q =
     (case get q of
        None \<Rightarrow> ([], q)
      | Some (x, q') \<Rightarrow> (let (xs, r) = take_all get n q' in (x # xs, r)))"

locale fifo_queue =
  fixes empty :: 'q
    and put :: "'x \<Rightarrow> 'q \<Rightarrow> 'q"
    and get :: "'q \<Rightarrow> ('x \<times> 'q) option"
    and remove :: "'x \<Rightarrow> 'q \<Rightarrow> 'q \<times> bool"
    and contents :: "'q \<Rightarrow> 'x list"
    and invar :: "'q \<Rightarrow> bool"
  assumes contents_empty: "contents empty = []"
    and contents_put: "contents (put x q) = contents q @ [x]"
    and get_nothing: "contents q = [] \<Longrightarrow> get q = None"
    and get_front: "contents q = x # xs \<Longrightarrow> \<exists>q'. get q = Some (x, q') \<and> contents q' = xs"
    and removed: "invar q \<Longrightarrow> remove x q = (q', present) \<Longrightarrow>
        present = (x \<in> set (contents q)) \<and> contents q' = filter (\<lambda>y. y \<noteq> x) (contents q)"
    and invar_empty: "invar empty"
    and invar_put: "invar q \<Longrightarrow> x \<notin> set (contents q) \<Longrightarrow> invar (put x q)"
    and invar_get: "invar q \<Longrightarrow> get q = Some (x, q') \<Longrightarrow> invar q'"
    and invar_remove: "invar q \<Longrightarrow> remove x q = (q', present) \<Longrightarrow> invar q'"
    and invar_distinct: "invar q \<Longrightarrow> distinct (contents q)"
begin

lemma get_cases:
  obtains (nothing) "contents q = []" "get q = None"
  | (front) x q' where "get q = Some (x, q')" "contents q = x # contents q'"
  by (metis get_front get_nothing list.exhaust)

lemma take_all_contents:
  "length (contents q) \<le> n \<Longrightarrow> \<exists>r. take_all get n q = (contents q, r) \<and> contents r = []
     \<and> (invar q \<longrightarrow> invar r)"
proof (induction n arbitrary: q)
  case (Suc n)
  show ?case
  proof (cases q rule: get_cases)
    case nothing
    then show ?thesis by simp
  next
    case (front x q')
    with Suc.prems have "length (contents q') \<le> n" by simp
    from Suc.IH [OF this] front invar_get [of q x q'] show ?thesis by auto
  qed
qed simp

lemma fold_put_contents: "contents (fold put xs q) = contents q @ xs"
  by (induction xs arbitrary: q) (simp_all add: contents_put)

text \<open>First in, first out: what was put comes out in that order.\<close>

lemma fifo: "fst (take_all get (length xs) (fold put xs empty)) = xs"
  using take_all_contents [of "fold put xs empty" "length xs"]
  by (auto simp: fold_put_contents contents_empty)

end

section \<open>The implementation\<close>

record snapshot_queue =
  sq_deque :: "pystr list"
  sq_set :: "pystr set"

definition sq_init :: snapshot_queue where
  "sq_init = \<lparr>sq_deque = [], sq_set = {}\<rparr>"

text \<open>\<open>put\<close> and \<open>put_nowait\<close>.\<close>

definition sq_put :: "pystr \<Rightarrow> snapshot_queue \<Rightarrow> snapshot_queue" where
  "sq_put item q = q\<lparr>sq_deque := sq_deque q @ [item], sq_set := insert item (sq_set q)\<rparr>"

text \<open>\<open>get_nowait\<close>; \<open>None\<close> stands for the exception \<open>QueueEmpty\<close>.\<close>

definition sq_get_nowait :: "snapshot_queue \<Rightarrow> (pystr \<times> snapshot_queue) option" where
  "sq_get_nowait q =
     (case sq_deque q of
        [] \<Rightarrow> None
      | item # rest \<Rightarrow> Some (item, q\<lparr>sq_deque := rest, sq_set := sq_set q - {item}\<rparr>))"

definition sq_qsize :: "snapshot_queue \<Rightarrow> nat" where
  "sq_qsize q = length (sq_deque q)"

definition sq_get_snapshot :: "snapshot_queue \<Rightarrow> pystr list" where
  "sq_get_snapshot q = sq_deque q"

definition sq_remove_if_present :: "pystr \<Rightarrow> snapshot_queue \<Rightarrow> snapshot_queue \<times> bool" where
  "sq_remove_if_present item q =
     (if item \<notin> sq_set q then (q, False)
      else (q\<lparr>sq_set := sq_set q - {item}, sq_deque := filter (\<lambda>x. x \<noteq> item) (sq_deque q)\<rparr>, True))"

text \<open>The index agrees with the deque as long as no item is put twice.\<close>

definition sq_ok :: "snapshot_queue \<Rightarrow> bool" where
  "sq_ok q \<longleftrightarrow> distinct (sq_deque q) \<and> sq_set q = set (sq_deque q)"

interpretation sq: fifo_queue sq_init sq_put sq_get_nowait sq_remove_if_present sq_get_snapshot sq_ok
proof (unfold_locales, goal_cases)
  case (5 q x q' present)
  then show ?case
    by (auto simp: sq_remove_if_present_def sq_get_snapshot_def sq_ok_def intro!: filter_True [symmetric] split: if_splits)
next
  case (9 q x q' present)
  then show ?case
    by (auto simp: sq_remove_if_present_def sq_ok_def split: if_splits)
qed (auto simp: sq_init_def sq_put_def sq_get_nowait_def sq_get_snapshot_def sq_ok_def split: list.splits)

end
