(* ===== verification/MessageTree.thy ===== *)
theory MessageTree
  imports SnapshotQueue Json
begin

text \<open>
  \<open>messaging/trees/data.py\<close> and the message of \<open>messaging/models.py\<close>: the nodes of a conversation
  tree, the tree with its indices and its queue, and every operation of \<open>MessageTree\<close>. Node objects
  are identified by their key in the node table. Points in time are integers; \<open>isoformat\<close> and
  \<open>fromisoformat\<close> are parameters of the serialisation.
\<close>

section \<open>Messages and nodes\<close>

type_synonym time = int

record incoming_message =
  im_text :: pystr
  im_chat_id :: pystr
  im_user_id :: pystr
  im_message_id :: pystr
  im_platform :: pystr
  im_reply_to_message_id :: "pystr option"
  im_message_thread_id :: "pystr option"
  im_username :: "pystr option"
  im_status_message_id :: "pystr option"
  im_timestamp :: time

definition is_reply :: "incoming_message \<Rightarrow> bool" where
  "is_reply i \<longleftrightarrow> im_reply_to_message_id i \<noteq> None"

datatype message_state = PENDING | IN_PROGRESS | COMPLETED | ERROR

definition state_value :: "message_state \<Rightarrow> pystr" where
  "state_value s = (case s of PENDING \<Rightarrow> lit ''pending'' | IN_PROGRESS \<Rightarrow> lit ''in_progress''
     | COMPLETED \<Rightarrow> lit ''completed'' | ERROR \<Rightarrow> lit ''error'')"

definition message_state_of :: "pystr \<Rightarrow> message_state result" where
  "message_state_of v =
     (if v = lit ''pending'' then Inr PENDING
      else if v = lit ''in_progress'' then Inr IN_PROGRESS
      else if v = lit ''completed'' then Inr COMPLETED
      else if v = lit ''error'' then Inr ERROR
      else Inl (ValueError v))"

record message_node =
  mn_node_id :: pystr
  mn_incoming :: incoming_message
  mn_status_message_id :: pystr
  mn_state :: message_state
  mn_parent_id :: "pystr option"
  mn_session_id :: "pystr option"
  mn_children_ids :: "pystr list"
  mn_created_at :: time
  mn_completed_at :: "time option"
  mn_error_message :: "pystr option"
  mn_context :: pyval

text \<open>A node as the constructor makes it, with the defaults of the class.\<close>

definition new_node :: "pystr \<Rightarrow> incoming_message \<Rightarrow> pystr \<Rightarrow> pystr option \<Rightarrow> time \<Rightarrow> message_node" where
  "new_node node_id incoming status_message_id parent_id now =
     \<lparr>mn_node_id = node_id, mn_incoming = incoming, mn_status_message_id = status_message_id,
      mn_state = PENDING, mn_parent_id = parent_id, mn_session_id = None, mn_children_ids = [],
      mn_created_at = now, mn_completed_at = None, mn_error_message = None, mn_context = PNone\<rparr>"

definition set_context :: "pyval \<Rightarrow> message_node \<Rightarrow> message_node" where
  "set_context context n = n\<lparr>mn_context := context\<rparr>"

definition terminal :: "message_node \<Rightarrow> bool" where
  "terminal n \<longleftrightarrow> mn_state n = COMPLETED \<or> mn_state n = ERROR"

text \<open>The two conversions between times and strings.\<close>

type_synonym iso = "time \<Rightarrow> pystr"
type_synonym from_iso = "pystr \<Rightarrow> time result"

definition incoming_to_dict :: "incoming_message \<Rightarrow> pyval" where
  "incoming_to_dict i = PDict
     [(lit ''text'', PStr (im_text i)), (lit ''chat_id'', PStr (im_chat_id i)),
      (lit ''user_id'', PStr (im_user_id i)), (lit ''message_id'', PStr (im_message_id i)),
      (lit ''platform'', PStr (im_platform i)),
      (lit ''reply_to_message_id'', opt_str (im_reply_to_message_id i)),
      (lit ''message_thread_id'', opt_str (im_message_thread_id i)),
      (lit ''username'', opt_str (im_username i))]"

definition node_to_dict :: "iso \<Rightarrow> message_node \<Rightarrow> pyval" where
  "node_to_dict isoformat n = PDict
     [(lit ''node_id'', PStr (mn_node_id n)),
      (lit ''incoming'', incoming_to_dict (mn_incoming n)),
      (lit ''status_message_id'', PStr (mn_status_message_id n)),
      (lit ''state'', PStr (state_value (mn_state n))),
      (lit ''parent_id'', opt_str (mn_parent_id n)),
      (lit ''session_id'', opt_str (mn_session_id n)),
      (lit ''children_ids'', str_list (mn_children_ids n)),
      (lit ''created_at'', PStr (isoformat (mn_created_at n))),
      (lit ''completed_at'', opt_str (map_option isoformat (mn_completed_at n))),
      (lit ''error_message'', opt_str (mn_error_message n))]"

definition str_field :: "string \<Rightarrow> pyval \<Rightarrow> pystr result" where
  "str_field key data = rbind (psub key data) as_str"

definition opt_str_field :: "string \<Rightarrow> pyval \<Rightarrow> pystr option result" where
  "opt_str_field key data = rbind (pget key data) as_opt_str"

definition incoming_from_dict :: "time \<Rightarrow> pyval \<Rightarrow> incoming_message result" where
  "incoming_from_dict now data =
     rbind (str_field ''text'' data) (\<lambda>text.
     rbind (str_field ''chat_id'' data) (\<lambda>chat_id.
     rbind (str_field ''user_id'' data) (\<lambda>user_id.
     rbind (str_field ''message_id'' data) (\<lambda>message_id.
     rbind (str_field ''platform'' data) (\<lambda>platform.
     rbind (opt_str_field ''reply_to_message_id'' data) (\<lambda>reply_to.
     rbind (opt_str_field ''message_thread_id'' data) (\<lambda>thread.
     rbind (opt_str_field ''username'' data) (\<lambda>username.
       Inr \<lparr>im_text = text, im_chat_id = chat_id, im_user_id = user_id, im_message_id = message_id,
            im_platform = platform, im_reply_to_message_id = reply_to, im_message_thread_id = thread,
            im_username = username, im_status_message_id = None, im_timestamp = now\<rparr>))))))))"

definition children_field :: "pyval \<Rightarrow> pystr list result" where
  "children_field data =
     (case data of
        PDict d \<Rightarrow> (case dget d (lit ''children_ids'') of None \<Rightarrow> Inr [] | Some v \<Rightarrow> as_str_list v)
      | _ \<Rightarrow> Inl AttributeError)"

definition completed_field :: "from_iso \<Rightarrow> pyval \<Rightarrow> time option result" where
  "completed_field fromisoformat data =
     rbind (pget ''completed_at'' data) (\<lambda>v.
       if truthy v then rbind (as_str v) (\<lambda>s. rbind (fromisoformat s) (\<lambda>t. Inr (Some t))) else Inr None)"

definition node_from_dict :: "from_iso \<Rightarrow> time \<Rightarrow> pyval \<Rightarrow> message_node result" where
  "node_from_dict fromisoformat now data =
     rbind (psub ''incoming'' data) (\<lambda>incoming_data.
     rbind (incoming_from_dict now incoming_data) (\<lambda>incoming.
     rbind (str_field ''node_id'' data) (\<lambda>node_id.
     rbind (str_field ''status_message_id'' data) (\<lambda>status.
     rbind (rbind (str_field ''state'' data) message_state_of) (\<lambda>state.
     rbind (opt_str_field ''parent_id'' data) (\<lambda>parent_id.
     rbind (opt_str_field ''session_id'' data) (\<lambda>session_id.
     rbind (children_field data) (\<lambda>children.
     rbind (rbind (str_field ''created_at'' data) fromisoformat) (\<lambda>created_at.
     rbind (completed_field fromisoformat data) (\<lambda>completed_at.
     rbind (opt_str_field ''error_message'' data) (\<lambda>error_message.
       Inr \<lparr>mn_node_id = node_id, mn_incoming = incoming, mn_status_message_id = status,
            mn_state = state, mn_parent_id = parent_id, mn_session_id = session_id,
            mn_children_ids = children, mn_created_at = created_at, mn_completed_at = completed_at,
            mn_error_message = error_message, mn_context = PNone\<rparr>)))))))))))"

section \<open>The tree\<close>

record message_tree =
  mt_root_id :: pystr
  mt_nodes :: "(pystr, message_node) dict"
  mt_status_to_node :: "(pystr, pystr) dict"
  mt_queue :: snapshot_queue
  mt_is_processing :: bool
  mt_current_node_id :: "pystr option"
  mt_current_task :: "nat option" \<comment> \<open>the number of the task\<close>

definition tree_init :: "message_node \<Rightarrow> message_tree" where
  "tree_init root_node = \<lparr>mt_root_id = mn_node_id root_node, mt_nodes = [(mn_node_id root_node, root_node)],
     mt_status_to_node = [(mn_status_message_id root_node, mn_node_id root_node)], mt_queue = sq_init,
     mt_is_processing = False, mt_current_node_id = None, mt_current_task = None\<rparr>"

definition set_current_task :: "nat option \<Rightarrow> message_tree \<Rightarrow> message_tree" where
  "set_current_task task t = t\<lparr>mt_current_task := task\<rparr>"

text \<open>Updating the node object that is stored under a key.\<close>

definition update_node :: "pystr \<Rightarrow> (message_node \<Rightarrow> message_node) \<Rightarrow> message_tree \<Rightarrow> message_tree" where
  "update_node k f t =
     (case dget (mt_nodes t) k of
        None \<Rightarrow> t
      | Some n \<Rightarrow> t\<lparr>mt_nodes := dset k (f n) (mt_nodes t)\<rparr>)"

definition parent_missing :: "pystr \<Rightarrow> py_error" where
  "parent_missing parent_id = ValueError (lit ''Parent node '' @ parent_id @ lit '' not found in tree'')"

definition add_node ::
    "pystr \<Rightarrow> incoming_message \<Rightarrow> pystr \<Rightarrow> pystr \<Rightarrow> time \<Rightarrow> message_tree \<Rightarrow> message_tree result" where
  "add_node node_id incoming status_message_id parent_id now t =
     (if \<not> din parent_id (mt_nodes t) then Inl (parent_missing parent_id)
      else
        let node = new_node node_id incoming status_message_id (Some parent_id) now;
            t1 = t\<lparr>mt_nodes := dset node_id node (mt_nodes t),
                   mt_status_to_node := dset status_message_id node_id (mt_status_to_node t)\<rparr>
        in Inr (update_node parent_id (\<lambda>p. p\<lparr>mn_children_ids := mn_children_ids p @ [node_id]\<rparr>) t1))"

definition get_node :: "message_tree \<Rightarrow> pystr \<Rightarrow> message_node option" where
  "get_node t node_id = dget (mt_nodes t) node_id"

definition get_root :: "message_tree \<Rightarrow> message_node result" where
  "get_root t = of_option KeyError (dget (mt_nodes t) (mt_root_id t))"

definition get_children :: "message_tree \<Rightarrow> pystr \<Rightarrow> message_node list" where
  "get_children t node_id =
     (case get_node t node_id of
        None \<Rightarrow> []
      | Some n \<Rightarrow> map (\<lambda>c. the (get_node t c)) (filter (\<lambda>c. get_node t c \<noteq> None) (mn_children_ids n)))"

definition get_parent :: "message_tree \<Rightarrow> pystr \<Rightarrow> message_node option" where
  "get_parent t node_id =
     (case get_node t node_id of
        None \<Rightarrow> None
      | Some n \<Rightarrow> (case mn_parent_id n of
                     None \<Rightarrow> None
                   | Some p \<Rightarrow> if p = [] then None else get_node t p))"

definition get_parent_session_id :: "message_tree \<Rightarrow> pystr \<Rightarrow> pystr option" where
  "get_parent_session_id t node_id =
     (case get_parent t node_id of None \<Rightarrow> None | Some p \<Rightarrow> mn_session_id p)"

text \<open>\<open>if session_id:\<close> skips \<open>None\<close> and the empty string.\<close>

definition given :: "pystr option \<Rightarrow> bool" where
  "given x \<longleftrightarrow> (case x of None \<Rightarrow> False | Some s \<Rightarrow> s \<noteq> [])"

definition update_state ::
    "pystr \<Rightarrow> message_state \<Rightarrow> pystr option \<Rightarrow> pystr option \<Rightarrow> time \<Rightarrow> message_tree \<Rightarrow> message_tree" where
  "update_state node_id state session_id error_message now t =
     update_node node_id (\<lambda>n.
       n\<lparr>mn_state := state,
         mn_session_id := (if given session_id then session_id else mn_session_id n),
         mn_error_message := (if given error_message then error_message else mn_error_message n),
         mn_completed_at := (if state = COMPLETED \<or> state = ERROR then Some now else mn_completed_at n)\<rparr>) t"

definition tree_enqueue :: "pystr \<Rightarrow> message_tree \<Rightarrow> message_tree \<times> nat" where
  "tree_enqueue node_id t =
     (let q = sq_put node_id (mt_queue t) in (t\<lparr>mt_queue := q\<rparr>, sq_qsize q))"

definition tree_dequeue :: "message_tree \<Rightarrow> pystr option \<times> message_tree" where
  "tree_dequeue t =
     (case sq_get_nowait (mt_queue t) of
        None \<Rightarrow> (None, t)
      | Some (x, q) \<Rightarrow> (Some x, t\<lparr>mt_queue := q\<rparr>))"

definition get_queue_snapshot :: "message_tree \<Rightarrow> pystr list" where
  "get_queue_snapshot t = sq_get_snapshot (mt_queue t)"

definition tree_queue_size :: "message_tree \<Rightarrow> nat" where
  "tree_queue_size t = sq_qsize (mt_queue t)"

definition remove_from_queue :: "pystr \<Rightarrow> message_tree \<Rightarrow> message_tree \<times> bool" where
  "remove_from_queue node_id t =
     (let (q, present) = sq_remove_if_present node_id (mt_queue t) in (t\<lparr>mt_queue := q\<rparr>, present))"

definition set_processing_state :: "pystr option \<Rightarrow> bool \<Rightarrow> message_tree \<Rightarrow> message_tree" where
  "set_processing_state node_id is_processing t =
     t\<lparr>mt_is_processing := is_processing,
       mt_current_node_id := (if is_processing then node_id else None)\<rparr>"

definition clear_current_node :: "message_tree \<Rightarrow> message_tree" where
  "clear_current_node t = t\<lparr>mt_current_node_id := None\<rparr>"

definition is_current_node :: "pystr \<Rightarrow> message_tree \<Rightarrow> bool" where
  "is_current_node node_id t \<longleftrightarrow> mt_current_node_id t = Some node_id"

definition put_queue_unlocked :: "pystr \<Rightarrow> message_tree \<Rightarrow> message_tree" where
  "put_queue_unlocked node_id t = t\<lparr>mt_queue := sq_put node_id (mt_queue t)\<rparr>"

text \<open>\<open>cancel_current_task\<close>: the number of the task to cancel, if it is not done.\<close>

definition cancel_current_task :: "(nat \<Rightarrow> bool) \<Rightarrow> message_tree \<Rightarrow> nat option" where
  "cancel_current_task is_done t =
     (case mt_current_task t of None \<Rightarrow> None | Some i \<Rightarrow> if is_done i then None else Some i)"

definition error_node :: "pystr \<Rightarrow> time \<Rightarrow> message_node \<Rightarrow> message_node" where
  "error_node error_message now n =
     n\<lparr>mn_state := ERROR, mn_error_message := Some error_message, mn_completed_at := Some now\<rparr>"

definition set_node_error_sync :: "pystr \<Rightarrow> pystr \<Rightarrow> time \<Rightarrow> message_tree \<Rightarrow> message_tree" where
  "set_node_error_sync node_id error_message now t = update_node node_id (error_node error_message now) t"

text \<open>\<open>drain_queue_and_mark_cancelled\<close> returns the affected nodes, here by their keys.\<close>

definition drain_queue_and_mark_cancelled :: "pystr \<Rightarrow> time \<Rightarrow> message_tree \<Rightarrow> message_tree \<times> pystr list" where
  "drain_queue_and_mark_cancelled error_message now t =
     (let (ids, q) = take_all sq_get_nowait (sq_qsize (mt_queue t)) (mt_queue t);
          known = filter (\<lambda>i. get_node t i \<noteq> None) ids
      in (fold (\<lambda>i. set_node_error_sync i error_message now) known (t\<lparr>mt_queue := q\<rparr>), known))"

definition reset_processing_state :: "message_tree \<Rightarrow> message_tree" where
  "reset_processing_state t = t\<lparr>mt_is_processing := False, mt_current_node_id := None\<rparr>"

definition tree_to_dict :: "iso \<Rightarrow> message_tree \<Rightarrow> pyval" where
  "tree_to_dict isoformat t = PDict
     [(lit ''root_id'', PStr (mt_root_id t)),
      (lit ''nodes'', PDict (map (\<lambda>(k, n). (k, node_to_dict isoformat n)) (mt_nodes t)))]"

definition add_node_from_dict :: "message_node \<Rightarrow> message_tree \<Rightarrow> message_tree" where
  "add_node_from_dict node t =
     t\<lparr>mt_nodes := dset (mn_node_id node) node (mt_nodes t),
       mt_status_to_node := dset (mn_status_message_id node) (mn_node_id node) (mt_status_to_node t)\<rparr>"

text \<open>One round of the loop of \<open>from_dict\<close>.\<close>

definition load_node :: "from_iso \<Rightarrow> time \<Rightarrow> pystr \<times> pyval \<Rightarrow> message_tree result \<Rightarrow> message_tree result" where
  "load_node fromisoformat now item acc =
     rbind acc (\<lambda>t. rbind (node_from_dict fromisoformat now (snd item)) (\<lambda>node. Inr (add_node_from_dict node t)))"

definition tree_from_dict :: "from_iso \<Rightarrow> time \<Rightarrow> pyval \<Rightarrow> message_tree result" where
  "tree_from_dict fromisoformat now data =
     rbind (str_field ''root_id'' data) (\<lambda>root_id.
     rbind (rbind (psub ''nodes'' data) as_dict) (\<lambda>nodes_data.
     rbind (of_option KeyError (dget nodes_data root_id)) (\<lambda>root_data.
     rbind (node_from_dict fromisoformat now root_data) (\<lambda>root_node.
       fold (load_node fromisoformat now) (filter (\<lambda>(k, _). k \<noteq> root_id) nodes_data) (Inr (tree_init root_node))))))"

definition all_nodes :: "message_tree \<Rightarrow> message_node list" where
  "all_nodes t = dvalues (mt_nodes t)"

definition has_node :: "message_tree \<Rightarrow> pystr \<Rightarrow> bool" where
  "has_node t node_id \<longleftrightarrow> din node_id (mt_nodes t)"

definition find_node_by_status_message :: "message_tree \<Rightarrow> pystr \<Rightarrow> message_node option" where
  "find_node_by_status_message t status_msg_id =
     (case dget (mt_status_to_node t) status_msg_id of
        None \<Rightarrow> None
      | Some k \<Rightarrow> if k = [] then None else get_node t k)"

text \<open>The loop of \<open>get_descendants\<close>; the head of the list is the top of the stack. It may not end
  when the links of the nodes have a cycle, and then its value is \<open>None\<close>.\<close>

partial_function (option) descend ::
    "(pystr, message_node) dict \<Rightarrow> pystr list \<Rightarrow> pystr list \<Rightarrow> pystr list option" where
  "descend nodes stack result =
     (case stack of
        [] \<Rightarrow> Some result
      | nid # rest \<Rightarrow>
          (case dget nodes nid of
             None \<Rightarrow> descend nodes rest (result @ [nid])
           | Some n \<Rightarrow> descend nodes (rev (mn_children_ids n) @ rest) (result @ [nid])))"

definition get_descendants :: "message_tree \<Rightarrow> pystr \<Rightarrow> pystr list option" where
  "get_descendants t node_id =
     (if \<not> din node_id (mt_nodes t) then Some [] else descend (mt_nodes t) [node_id] [])"

text \<open>\<open>remove_branch\<close>. Deleting the status entry raises when it is missing; the list of children of
  the parent is rewritten at the end.\<close>

fun remove_nodes ::
    "pystr list \<Rightarrow> message_tree \<Rightarrow> message_node list \<Rightarrow> (message_node list \<times> message_tree) result" where
  "remove_nodes [] t removed = Inr (removed, t)"
| "remove_nodes (nid # ids) t removed =
     (case dget (mt_nodes t) nid of
        None \<Rightarrow> remove_nodes ids t removed
      | Some n \<Rightarrow>
          (if \<not> din (mn_status_message_id n) (mt_status_to_node t) then Inl KeyError
           else remove_nodes ids
                  (t\<lparr>mt_nodes := ddel nid (mt_nodes t),
                     mt_status_to_node := ddel (mn_status_message_id n) (mt_status_to_node t)\<rparr>)
                  (removed @ [n])))"

definition unlink :: "pystr \<Rightarrow> message_node \<Rightarrow> message_node" where
  "unlink child p = (if child \<in> set (mn_children_ids p)
     then p\<lparr>mn_children_ids := filter (\<lambda>c. c \<noteq> child) (mn_children_ids p)\<rparr> else p)"

definition remove_branch ::
    "pystr \<Rightarrow> message_tree \<Rightarrow> (message_node list \<times> message_tree) result option" where
  "remove_branch branch_root_id t =
     (if \<not> din branch_root_id (mt_nodes t) then Some (Inr ([], t))
      else
        (case get_descendants t branch_root_id of
           None \<Rightarrow> None
         | Some ids \<Rightarrow>
             Some (rbind (remove_nodes ids t []) (\<lambda>(removed, t').
               Inr (removed,
                    (case get_parent t branch_root_id of
                       None \<Rightarrow> t'
                     | Some p \<Rightarrow> update_node (mn_node_id p) (unlink branch_root_id) t'))))))"

end
