(* ===== verification/MessageTreeFacts.thy ===== *)
theory MessageTreeFacts
  imports MessageTree
begin

text \<open>
  Correctness of the message tree: the invariant of its tables, that every operation keeps it, that
  walking the descendants ends and yields exactly the subtree, that removing a branch cannot fail,
  and that a tree survives serialisation.
\<close>

section \<open>The invariant\<close>

definition child_edges :: "(pystr, message_node) dict \<Rightarrow> (pystr \<times> pystr) set" where
  "child_edges nodes = {(p, c). \<exists>n. dget nodes p = Some n \<and> c \<in> set (mn_children_ids n)}"

text \<open>Every child is in the table, names the node as its parent, and is listed once; every node but
  the root has its parent in the table, and is listed there.\<close>

definition links_ok :: "pystr \<Rightarrow> (pystr, message_node) dict \<Rightarrow> bool" where
  "links_ok rt nodes \<longleftrightarrow>
     (\<forall>k n. dget nodes k = Some n \<longrightarrow> k \<noteq> [] \<and> mn_node_id n = k \<and> distinct (mn_children_ids n)
        \<and> (\<forall>c \<in> set (mn_children_ids n). \<exists>m. dget nodes c = Some m \<and> mn_parent_id m = Some k))
     \<and> (\<forall>k n. dget nodes k = Some n \<longrightarrow>
          (case mn_parent_id n of
             None \<Rightarrow> k = rt
           | Some p \<Rightarrow> k \<noteq> rt \<and> (\<exists>m. dget nodes p = Some m \<and> k \<in> set (mn_children_ids m))))"

text \<open>No node is its own descendant: a rank increases along the links.\<close>

definition ranked :: "(pystr, message_node) dict \<Rightarrow> bool" where
  "ranked nodes \<longleftrightarrow> (\<exists>rank :: pystr \<Rightarrow> nat. \<forall>(p, c) \<in> child_edges nodes. rank p < rank c)"

text \<open>The index of status messages holds exactly the status messages of the nodes.\<close>

definition status_ok :: "(pystr, message_node) dict \<Rightarrow> (pystr, pystr) dict \<Rightarrow> bool" where
  "status_ok nodes status \<longleftrightarrow>
     (\<forall>s k. dget status s = Some k \<longleftrightarrow> (\<exists>n. dget nodes k = Some n \<and> mn_status_message_id n = s))"

definition tree_wf :: "message_tree \<Rightarrow> bool" where
  "tree_wf t \<longleftrightarrow>
     dict_ok (mt_nodes t) \<and> dict_ok (mt_status_to_node t)
     \<and> (\<exists>rest. dkeys (mt_nodes t) = mt_root_id t # rest)
     \<and> links_ok (mt_root_id t) (mt_nodes t) \<and> ranked (mt_nodes t)
     \<and> status_ok (mt_nodes t) (mt_status_to_node t)"

lemma tree_wfD:
  assumes "tree_wf t"
  shows "dict_ok (mt_nodes t)" "links_ok (mt_root_id t) (mt_nodes t)" "ranked (mt_nodes t)"
    "status_ok (mt_nodes t) (mt_status_to_node t)" "\<exists>rest. dkeys (mt_nodes t) = mt_root_id t # rest"
    "dict_ok (mt_status_to_node t)"
  using assms by (simp_all add: tree_wf_def)

lemma links_okD:
  assumes "links_ok rt nodes" "dget nodes k = Some n"
  shows "k \<noteq> []" "mn_node_id n = k" "distinct (mn_children_ids n)"
    "c \<in> set (mn_children_ids n) \<Longrightarrow> \<exists>m. dget nodes c = Some m \<and> mn_parent_id m = Some k"
  using assms unfolding links_ok_def by blast+

lemma links_ok_parent:
  assumes "links_ok rt nodes" "dget nodes k = Some n" "mn_parent_id n = Some p"
  shows "k \<noteq> rt" "\<exists>m. dget nodes p = Some m \<and> k \<in> set (mn_children_ids m)"
  using assms unfolding links_ok_def by fastforce+

lemma links_ok_root:
  assumes "links_ok rt nodes" "dget nodes k = Some n" "mn_parent_id n = None"
  shows "k = rt"
  using assms unfolding links_ok_def by fastforce

lemma links_ok_not_root:
  assumes "links_ok rt nodes" "dget nodes k = Some n" "k \<noteq> rt"
  obtains p m where "mn_parent_id n = Some p" "dget nodes p = Some m" "k \<in> set (mn_children_ids m)"
  using assms links_ok_root links_ok_parent(2) by (metis option.exhaust)

lemma wf_init:
  assumes "mn_parent_id n = None" "mn_children_ids n = []" "mn_node_id n \<noteq> []"
  shows "tree_wf (tree_init n)"
  using assms by (auto simp: tree_wf_def tree_init_def links_ok_def ranked_def status_ok_def child_edges_def
      split: option.splits)

lemma update_node_get:
  "dget (mt_nodes (update_node k f t)) k'
     = (if k' = k then map_option f (dget (mt_nodes t) k) else dget (mt_nodes t) k')"
  by (simp add: update_node_def dict_simps split: option.splits)

lemma update_node_frame [simp]:
  "dkeys (mt_nodes (update_node k f t)) = dkeys (mt_nodes t)"
  "mt_root_id (update_node k f t) = mt_root_id t"
  "mt_status_to_node (update_node k f t) = mt_status_to_node t"
  "mt_queue (update_node k f t) = mt_queue t"
  "mt_is_processing (update_node k f t) = mt_is_processing t"
  "mt_current_node_id (update_node k f t) = mt_current_node_id t"
  "mt_current_task (update_node k f t) = mt_current_task t"
  using dget_in_keys [of "mt_nodes t" k]
  by (auto simp: update_node_def dkeys_dset simp del: list.set_map split: option.splits)

text \<open>What an update of a node has to leave alone for the invariant to survive: its identity and its
  links. Two tables with the same keys and links are alike.\<close>

definition links :: "message_node \<Rightarrow> pystr \<times> pystr option \<times> pystr list \<times> pystr" where
  "links n = (mn_node_id n, mn_parent_id n, mn_children_ids n, mn_status_message_id n)"

lemma links_eq: "links n = links m \<longleftrightarrow> mn_node_id n = mn_node_id m \<and> mn_parent_id n = mn_parent_id m
    \<and> mn_children_ids n = mn_children_ids m \<and> mn_status_message_id n = mn_status_message_id m"
  by (simp add: links_def)

definition keeps_links :: "(message_node \<Rightarrow> message_node) \<Rightarrow> bool" where
  "keeps_links f \<longleftrightarrow> (\<forall>n. links (f n) = links n)"

definition same_links :: "(pystr, message_node) dict \<Rightarrow> (pystr, message_node) dict \<Rightarrow> bool" where
  "same_links nodes nodes' \<longleftrightarrow> dkeys nodes' = dkeys nodes
     \<and> (\<forall>k. map_option links (dget nodes' k) = map_option links (dget nodes k))"

lemma same_links_refl: "same_links nodes nodes"
  by (simp add: same_links_def)

lemma same_links_trans: "same_links a b \<Longrightarrow> same_links b c \<Longrightarrow> same_links a c"
  by (simp add: same_links_def)

lemma same_links_D:
  assumes "same_links a b"
  shows "dget b k = Some n' \<Longrightarrow> \<exists>n. dget a k = Some n \<and> mn_node_id n' = mn_node_id n
     \<and> mn_parent_id n' = mn_parent_id n \<and> mn_children_ids n' = mn_children_ids n
     \<and> mn_status_message_id n' = mn_status_message_id n"
    and "dget a k = Some n \<Longrightarrow> \<exists>n'. dget b k = Some n' \<and> mn_node_id n' = mn_node_id n
     \<and> mn_parent_id n' = mn_parent_id n \<and> mn_children_ids n' = mn_children_ids n
     \<and> mn_status_message_id n' = mn_status_message_id n"
proof -
  from assms have "map_option links (dget b k) = map_option links (dget a k)"
    by (simp add: same_links_def)
  then show "dget b k = Some n' \<Longrightarrow> \<exists>n. dget a k = Some n \<and> mn_node_id n' = mn_node_id n
     \<and> mn_parent_id n' = mn_parent_id n \<and> mn_children_ids n' = mn_children_ids n
     \<and> mn_status_message_id n' = mn_status_message_id n"
    and "dget a k = Some n \<Longrightarrow> \<exists>n'. dget b k = Some n' \<and> mn_node_id n' = mn_node_id n
     \<and> mn_parent_id n' = mn_parent_id n \<and> mn_children_ids n' = mn_children_ids n
     \<and> mn_status_message_id n' = mn_status_message_id n"
    by (cases "dget a k"; cases "dget b k"; simp add: links_eq)+
qed

lemma same_links_edges: "same_links a b \<Longrightarrow> child_edges b = child_edges a"
  unfolding child_edges_def by (fastforce dest: same_links_D)

lemma same_links_update: "keeps_links f \<Longrightarrow> same_links (mt_nodes t) (mt_nodes (update_node k f t))"
  by (simp add: same_links_def update_node_get keeps_links_def option.map_comp comp_def)

lemma wf_same_links:
  assumes wf: "tree_wf t" and same: "same_links (mt_nodes t) (mt_nodes t')"
    and "mt_root_id t' = mt_root_id t" "mt_status_to_node t' = mt_status_to_node t"
  shows "tree_wf t'"
proof -
  note D = same_links_D [OF same]
  have keys: "dkeys (mt_nodes t') = dkeys (mt_nodes t)" using same by (simp add: same_links_def)
  have "links_ok (mt_root_id t) (mt_nodes t')"
    unfolding links_ok_def
  proof (intro conjI allI impI)
    fix k n' assume g: "dget (mt_nodes t') k = Some n'"
    from D(1) [OF g] obtain n where n: "dget (mt_nodes t) k = Some n" "mn_node_id n' = mn_node_id n"
      "mn_parent_id n' = mn_parent_id n" "mn_children_ids n' = mn_children_ids n" by blast
    note L = links_okD [OF tree_wfD(2) [OF wf] n(1)]
    show "k \<noteq> []" "mn_node_id n' = k" "distinct (mn_children_ids n')" using L n by auto
    show "\<forall>c\<in>set (mn_children_ids n'). \<exists>m. dget (mt_nodes t') c = Some m \<and> mn_parent_id m = Some k"
      using L(4) n(4) D(2) by metis
    show "case mn_parent_id n' of None \<Rightarrow> k = mt_root_id t
      | Some p \<Rightarrow> k \<noteq> mt_root_id t \<and> (\<exists>m. dget (mt_nodes t') p = Some m \<and> k \<in> set (mn_children_ids m))"
    proof (cases "mn_parent_id n")
      case None
      with links_ok_root [OF tree_wfD(2) [OF wf] n(1)] n(3) show ?thesis by simp
    next
      case (Some p)
      from links_ok_parent [OF tree_wfD(2) [OF wf] n(1) Some] D(2) [of p] n(3) Some
      show ?thesis by fastforce
    qed
  qed
  moreover have "status_ok (mt_nodes t') (mt_status_to_node t)"
    using tree_wfD(4) [OF wf] D unfolding status_ok_def by metis
  ultimately show ?thesis
    using wf assms(3,4) keys same_links_edges [OF same] by (simp add: tree_wf_def ranked_def)
qed

lemma wf_update_node: "keeps_links f \<Longrightarrow> tree_wf t \<Longrightarrow> tree_wf (update_node k f t)"
  by (rule wf_same_links [OF _ same_links_update]) simp_all

lemma keeps_links_error: "keeps_links (error_node msg now)"
  by (simp add: keeps_links_def links_def error_node_def)

lemma wf_update_state: "tree_wf t \<Longrightarrow> tree_wf (update_state k state session msg now t)"
  unfolding update_state_def by (rule wf_update_node) (simp_all add: keeps_links_def links_def)

lemma wf_set_error: "tree_wf t \<Longrightarrow> tree_wf (set_node_error_sync k msg now t)"
  unfolding set_node_error_sync_def by (rule wf_update_node [OF keeps_links_error])

text \<open>Operations on the queue and the processing flags leave the tables alone.\<close>

lemma wf_frame:
  "tree_wf (t\<lparr>mt_queue := q\<rparr>) = tree_wf t"
  "tree_wf (set_current_task task t) = tree_wf t"
  "tree_wf (set_processing_state node b t) = tree_wf t"
  "tree_wf (clear_current_node t) = tree_wf t"
  "tree_wf (reset_processing_state t) = tree_wf t"
  "tree_wf (put_queue_unlocked k t) = tree_wf t"
  by (simp_all add: tree_wf_def set_current_task_def set_processing_state_def clear_current_node_def
      reset_processing_state_def put_queue_unlocked_def)

section \<open>Adding a node\<close>

lemma add_node_Inr:
  assumes "add_node k incoming status p now t = Inr t'" "k \<noteq> p"
  obtains m where "dget (mt_nodes t) p = Some m"
    "\<And>x. dget (mt_nodes t') x = (if x = k then Some (new_node k incoming status (Some p) now)
        else if x = p then Some (m\<lparr>mn_children_ids := mn_children_ids m @ [k]\<rparr>) else dget (mt_nodes t) x)"
    "dkeys (mt_nodes t') = (if k \<in> set (dkeys (mt_nodes t)) then dkeys (mt_nodes t) else dkeys (mt_nodes t) @ [k])"
    "mt_status_to_node t' = dset status k (mt_status_to_node t)" "mt_root_id t' = mt_root_id t"
proof -
  from assms(1) have d: "din p (mt_nodes t)"
    and t': "t' = update_node p (\<lambda>p. p\<lparr>mn_children_ids := mn_children_ids p @ [k]\<rparr>)
      (t\<lparr>mt_nodes := dset k (new_node k incoming status (Some p) now) (mt_nodes t),
         mt_status_to_node := dset status k (mt_status_to_node t)\<rparr>)"
    by (auto simp: add_node_def Let_def split: if_splits)
  from d obtain m where "dget (mt_nodes t) p = Some m" by (auto simp: din_def)
  then show ?thesis
    using that assms(2) by (auto simp: t' update_node_get dict_simps simp del: list.set_map)
qed

lemma wf_add_node:
  assumes wf: "tree_wf t" and add: "add_node k incoming status p now t = Inr t'"
    and fresh: "\<not> has_node t k" "dget (mt_status_to_node t) status = None" "k \<noteq> []"
  shows "tree_wf t'"
proof -
  have none: "dget (mt_nodes t) k = None" using fresh(1) by (simp add: has_node_def din_def)
  have "k \<noteq> p" using add fresh(1) by (auto simp: add_node_def has_node_def split: if_splits)
  from add_node_Inr [OF add this] obtain m where m: "dget (mt_nodes t) p = Some m"
    and get: "\<And>x. dget (mt_nodes t') x = (if x = k then Some (new_node k incoming status (Some p) now)
        else if x = p then Some (m\<lparr>mn_children_ids := mn_children_ids m @ [k]\<rparr>) else dget (mt_nodes t) x)"
    and keys: "dkeys (mt_nodes t') = dkeys (mt_nodes t) @ [k]"
    and st: "mt_status_to_node t' = dset status k (mt_status_to_node t)" and rt: "mt_root_id t' = mt_root_id t"
    using none by (auto simp: map_of_eq_None_iff simp del: list.set_map)
  note L = tree_wfD(2) [OF wf]
  have not_child: "k \<notin> set (mn_children_ids n)" if "dget (mt_nodes t) x = Some n" for x n
    using links_okD(4) [OF L that] none by force
  have kept: "\<exists>m'. dget (mt_nodes t') x = Some m' \<and> mn_parent_id m' = mn_parent_id n
      \<and> set (mn_children_ids n) \<subseteq> set (mn_children_ids m')" if "dget (mt_nodes t) x = Some n" for x n
    using that m none by (auto simp: get)
  have root_old: "mt_root_id t \<noteq> k" and dict: "dict_ok (mt_nodes t')"
    using tree_wfD(5) [OF wf] tree_wfD(1) [OF wf] none keys by (auto simp: map_of_eq_None_iff)
  have "links_ok (mt_root_id t) (mt_nodes t')"
    unfolding links_ok_def
  proof (intro conjI allI impI)
    fix x n' assume g: "dget (mt_nodes t') x = Some n'"
    show "x \<noteq> []" "mn_node_id n' = x" "distinct (mn_children_ids n')"
      using g m links_okD [OF L] not_child fresh(3) by (auto simp: get new_node_def split: if_splits)
    show "\<forall>c\<in>set (mn_children_ids n'). \<exists>m. dget (mt_nodes t') c = Some m \<and> mn_parent_id m = Some x"
    proof
      fix c assume c: "c \<in> set (mn_children_ids n')"
      show "\<exists>m. dget (mt_nodes t') c = Some m \<and> mn_parent_id m = Some x"
      proof (cases "c = k")
        case True
        with c g not_child m have "x = p" by (auto simp: get new_node_def split: if_splits)
        with True show ?thesis by (simp add: get new_node_def)
      next
        case False
        with c g m obtain n where "dget (mt_nodes t) x = Some n" "c \<in> set (mn_children_ids n)"
          by (auto simp: get new_node_def split: if_splits)
        from links_okD(4) [OF L this] kept show ?thesis by fastforce
      qed
    qed
    show "case mn_parent_id n' of None \<Rightarrow> x = mt_root_id t
      | Some q \<Rightarrow> x \<noteq> mt_root_id t \<and> (\<exists>m. dget (mt_nodes t') q = Some m \<and> x \<in> set (mn_children_ids m))"
    proof (cases "x = k")
      case True
      with g root_old \<open>k \<noteq> p\<close> show ?thesis by (auto simp: get new_node_def split: if_splits)
    next
      case False
      with g m obtain n where n: "dget (mt_nodes t) x = Some n" "mn_parent_id n' = mn_parent_id n"
        by (auto simp: get split: if_splits)
      show ?thesis
      proof (cases "mn_parent_id n")
        case None
        with links_ok_root [OF L n(1)] n(2) show ?thesis by simp
      next
        case (Some q)
        from links_ok_parent [OF L n(1) Some] kept [of q] n(2) Some show ?thesis by fastforce
      qed
    qed
  qed
  moreover have "ranked (mt_nodes t')"
  proof -
    from tree_wfD(3) [OF wf] obtain rank where rank: "\<And>a c. (a, c) \<in> child_edges (mt_nodes t) \<Longrightarrow> rank a < (rank c :: nat)"
      by (auto simp: ranked_def)
    let ?rank = "rank(k := Suc (rank p))"
    have "?rank a < ?rank c" if "(a, c) \<in> child_edges (mt_nodes t')" for a c
    proof (cases "a = p \<and> c = k")
      case False
      with that m obtain n where n: "dget (mt_nodes t) a = Some n" "c \<in> set (mn_children_ids n)"
        by (auto simp: child_edges_def get new_node_def split: if_splits)
      then have "(a, c) \<in> child_edges (mt_nodes t)" by (auto simp: child_edges_def)
      moreover have "c \<noteq> k" "a \<noteq> k" using n not_child none by auto
      ultimately show ?thesis using rank by simp
    qed (use \<open>k \<noteq> p\<close> in simp)
    then have "\<forall>(a, c) \<in> child_edges (mt_nodes t'). ?rank a < ?rank c" by blast
    then show ?thesis unfolding ranked_def by (rule exI [where x = ?rank])
  qed
  moreover have "status_ok (mt_nodes t') (mt_status_to_node t')"
    unfolding status_ok_def
  proof (intro allI)
    fix s x
    have old: "dget (mt_status_to_node t) s = Some x \<longleftrightarrow>
        (\<exists>n. dget (mt_nodes t) x = Some n \<and> mn_status_message_id n = s)" for s x
      using tree_wfD(4) [OF wf] by (simp add: status_ok_def)
    have unused: "mn_status_message_id n \<noteq> status" if "dget (mt_nodes t) x = Some n" for x n
      using old [of status x] fresh(2) that by auto
    show "dget (mt_status_to_node t') s = Some x \<longleftrightarrow>
        (\<exists>n. dget (mt_nodes t') x = Some n \<and> mn_status_message_id n = s)"
      using m none old [of s x] unused by (auto simp: st get dict_simps new_node_def)
  qed
  ultimately show ?thesis
    using dict tree_wfD(5,6) [OF wf] rt keys st by (auto simp: tree_wf_def)
qed

section \<open>The descendants\<close>

definition subtree :: "(pystr, message_node) dict \<Rightarrow> pystr \<Rightarrow> pystr set" where
  "subtree nodes k = {d. (k, d) \<in> (child_edges nodes)\<^sup>*}"

lemma subtree_self: "k \<in> subtree nodes k"
  by (simp add: subtree_def)

lemma subtree_step:
  assumes "dget nodes k = Some n"
  shows "subtree nodes k = insert k (\<Union>c \<in> set (mn_children_ids n). subtree nodes c)"
proof -
  have "(k, c) \<in> child_edges nodes \<longleftrightarrow> c \<in> set (mn_children_ids n)" for c
    using assms by (simp add: child_edges_def)
  then show ?thesis
    unfolding subtree_def by (auto intro: converse_rtrancl_into_rtrancl elim: converse_rtranclE)
qed

lemma rank_le:
  assumes "(a, b) \<in> (child_edges nodes)\<^sup>*" "\<And>p c. (p, c) \<in> child_edges nodes \<Longrightarrow> rank p < (rank c :: nat)"
  shows "a = b \<or> rank a < rank b"
  using assms(1) by (induction rule: rtrancl_induct) (use assms(2) in fastforce)+

lemma ranked_no_return:
  assumes "ranked nodes" "(a, b) \<in> child_edges nodes"
  shows "(b, a) \<notin> (child_edges nodes)\<^sup>*"
proof
  assume ba: "(b, a) \<in> (child_edges nodes)\<^sup>*"
  from assms(1) obtain rank where rank: "\<And>p c. (p, c) \<in> child_edges nodes \<Longrightarrow> rank p < (rank c :: nat)"
    by (auto simp: ranked_def)
  have "b = a \<or> rank b < rank a" by (rule rank_le [OF ba]) (rule rank)
  with rank [OF assms(2)] show False by auto
qed

lemma edge_parent:
  assumes "links_ok rt nodes" "(p, c) \<in> child_edges nodes"
  shows "\<exists>m. dget nodes c = Some m \<and> mn_parent_id m = Some p"
  using assms links_okD(4) by (fastforce simp: child_edges_def)

lemma edge_parent_unique:
  assumes "links_ok rt nodes" "(p, c) \<in> child_edges nodes" "(q, c) \<in> child_edges nodes"
  shows "p = q"
  using edge_parent [OF assms(1,2)] edge_parent [OF assms(1,3)] by auto

text \<open>In a forest, two nodes with a common descendant lie on one path.\<close>

lemma common_descendant:
  assumes links: "links_ok rt nodes"
    and "(a, d) \<in> (child_edges nodes)\<^sup>*" "(b, d) \<in> (child_edges nodes)\<^sup>*"
  shows "(a, b) \<in> (child_edges nodes)\<^sup>* \<or> (b, a) \<in> (child_edges nodes)\<^sup>*"
  using assms(2,3)
proof (induction rule: rtrancl_induct)
  case (step x y)
  from step.prems show ?case
  proof (cases rule: rtranclE)
    case base
    with step.hyps show ?thesis by (metis rtrancl.rtrancl_into_rtrancl)
  next
    case (step z)
    with edge_parent_unique [OF links \<open>(x, y) \<in> child_edges nodes\<close>] have "z = x" by blast
    with step(1) show ?thesis using \<open>(b, x) \<in> (child_edges nodes)\<^sup>* \<Longrightarrow> _\<close> by simp
  qed
qed simp

lemma siblings_apart:
  assumes links: "links_ok rt nodes" and "ranked nodes"
    and n: "dget nodes p = Some n" "a \<in> set (mn_children_ids n)" "b \<in> set (mn_children_ids n)" "a \<noteq> b"
  shows "subtree nodes a \<inter> subtree nodes b = {}"
proof -
  have edges: "(p, a) \<in> child_edges nodes" "(p, b) \<in> child_edges nodes"
    using n by (auto simp: child_edges_def)
  have no_path: "(x, y) \<notin> (child_edges nodes)\<^sup>*"
    if "(p, x) \<in> child_edges nodes" "(p, y) \<in> child_edges nodes" "x \<noteq> y" for x y
  proof
    assume "(x, y) \<in> (child_edges nodes)\<^sup>*"
    then show False
    proof (cases rule: rtranclE)
      case base
      with that(3) show ?thesis by simp
    next
      case (step z)
      with edge_parent_unique [OF links step(2) that(2)] ranked_no_return [OF assms(2) that(1)]
      show ?thesis by simp
    qed
  qed
  have "\<not> ((a, d) \<in> (child_edges nodes)\<^sup>* \<and> (b, d) \<in> (child_edges nodes)\<^sup>*)" for d
    using common_descendant [OF links, of a d b] no_path edges \<open>a \<noteq> b\<close> by blast
  then show ?thesis by (auto simp: subtree_def)
qed

lemma subtree_known:
  assumes "links_ok rt nodes" "k \<in> set (dkeys nodes)" "d \<in> subtree nodes k"
  shows "d \<in> set (dkeys nodes)"
proof -
  from assms(3) have "(k, d) \<in> (child_edges nodes)\<^sup>*" by (simp add: subtree_def)
  then show ?thesis
  proof (cases rule: rtranclE)
    case (step p)
    with edge_parent [OF assms(1) step(2)] show ?thesis by (auto dest: dget_in_keys simp del: list.set_map)
  qed (use assms(2) in simp)
qed

text \<open>A parent is not in the subtree of its child.\<close>

lemma parent_not_below:
  assumes "ranked nodes" "(p, c) \<in> child_edges nodes"
  shows "p \<notin> subtree nodes c"
  using ranked_no_return [OF assms] by (simp add: subtree_def)

lemmas descend_unfold = descend.simps

lemma descend_Nil [simp]: "descend nodes [] result = Some result"
  by (subst descend_unfold) simp

text \<open>The walk puts, for each entry of the stack, the subtree of it into the result, once each.\<close>

definition walks :: "(pystr, message_node) dict \<Rightarrow> pystr list \<Rightarrow> pystr list \<Rightarrow> bool" where
  "walks nodes stack ds \<longleftrightarrow>
     (\<forall>rest result. descend nodes (stack @ rest) result = descend nodes rest (result @ ds))
     \<and> set ds = (\<Union>k \<in> set stack. subtree nodes k) \<and> distinct ds"

lemma walks_list:
  assumes "\<And>c. c \<in> set cs \<Longrightarrow> \<exists>ds. walks nodes [c] ds" "distinct cs"
    and "\<And>a b. a \<in> set cs \<Longrightarrow> b \<in> set cs \<Longrightarrow> a \<noteq> b \<Longrightarrow> subtree nodes a \<inter> subtree nodes b = {}"
  shows "\<exists>ds. walks nodes cs ds"
  using assms
proof (induction cs)
  case Nil
  show ?case by (intro exI [of _ "[]"]) (simp add: walks_def)
next
  case (Cons c cs)
  from Cons.prems(1) [of c] obtain ds1 where 1: "walks nodes [c] ds1" by auto
  from Cons.IH Cons.prems obtain ds2 where 2: "walks nodes cs ds2" by auto
  have "set ds1 \<inter> set ds2 = {}"
    using 1 2 Cons.prems(2,3) by (fastforce simp: walks_def)
  then have "walks nodes (c # cs) (ds1 @ ds2)"
    using 1 2 by (auto simp: walks_def)
  then show ?case by blast
qed

lemma walks_node:
  assumes wf: "links_ok rt nodes" "ranked nodes" "k \<in> set (dkeys nodes)"
  shows "\<exists>ds. walks nodes [k] ds"
proof -
  from wf(2) obtain rank where
    rank: "\<And>p c. (p, c) \<in> child_edges nodes \<Longrightarrow> rank p < (rank c :: nat)" by (auto simp: ranked_def)
  define top where "top = Suc (Max (rank ` set (dkeys nodes)))"
  have below: "rank x < top" if "x \<in> set (dkeys nodes)" for x
    using that by (simp add: top_def le_imp_less_Suc)
  from wf(3) show ?thesis
  proof (induction "top - rank k" arbitrary: k rule: less_induct)
    case less
    from in_keys_dget [OF less.prems] obtain n where n: "dget nodes k = Some n" by blast
    let ?cs = "rev (mn_children_ids n)"
    have "\<exists>ds. walks nodes [c] ds" if "c \<in> set ?cs" for c
    proof -
      from that n have edge: "(k, c) \<in> child_edges nodes" by (auto simp: child_edges_def)
      with edge_parent [OF wf(1)] have known: "c \<in> set (dkeys nodes)" by (blast dest: dget_in_keys)
      with rank [OF edge] below [OF known] show ?thesis by (intro less.hyps) simp_all
    qed
    moreover have "distinct ?cs" using links_okD(3) [OF wf(1) n] by simp
    ultimately obtain ds where ds: "walks nodes ?cs ds"
      using walks_list [of ?cs nodes] siblings_apart [OF wf(1,2) n] by auto
    have "k \<notin> set ds"
      using ds parent_not_below [OF wf(2)] n by (auto simp: walks_def child_edges_def)
    moreover have "descend nodes ([k] @ rest) result = descend nodes rest (result @ k # ds)" for rest result
      using ds n by (subst descend_unfold) (simp add: walks_def)
    ultimately have "walks nodes [k] (k # ds)"
      using ds by (simp add: walks_def subtree_step [OF n])
    then show ?case by blast
  qed
qed

lemma get_descendants_walk:
  assumes "tree_wf t" "has_node t k"
  shows "\<exists>ds. get_descendants t k = Some ds \<and> set ds = subtree (mt_nodes t) k \<and> distinct ds"
proof -
  from assms(2) have "k \<in> set (dkeys (mt_nodes t))" by (simp add: has_node_def din_iff)
  from walks_node [OF tree_wfD(2,3) [OF assms(1)] this] obtain ds where "walks (mt_nodes t) [k] ds" ..
  then have "descend (mt_nodes t) ([k] @ []) [] = Some ds" "set ds = subtree (mt_nodes t) k" "distinct ds"
    unfolding walks_def by (metis append_Nil descend_Nil, simp_all)
  with assms(2) show ?thesis by (simp add: get_descendants_def has_node_def)
qed

section \<open>Removing a branch\<close>

lemma status_okD:
  assumes "status_ok nodes status"
  shows "dget status s = Some k \<longleftrightarrow> (\<exists>n. dget nodes k = Some n \<and> mn_status_message_id n = s)"
  using assms by (simp add: status_ok_def)

lemma status_ok_delete:
  assumes ok: "status_ok nodes status" and n: "dget nodes k = Some n"
  shows "status_ok (ddel k nodes) (ddel (mn_status_message_id n) status)"
proof -
  have "mn_status_message_id m \<noteq> mn_status_message_id n" if "dget nodes k' = Some m" "k' \<noteq> k" for k' m
    using status_okD [OF ok, of "mn_status_message_id n"] n that by (metis option.inject)
  then show ?thesis
    using ok n unfolding status_ok_def dget_ddel by (metis option.distinct(1) option.inject)
qed

lemma remove_nodes_all:
  assumes "status_ok (mt_nodes t) (mt_status_to_node t)" "distinct ids"
    and "set ids \<subseteq> set (dkeys (mt_nodes t))"
    and "\<And>k n. dget (mt_nodes t) k = Some n \<Longrightarrow> mn_node_id n = k"
    and "dict_ok (mt_nodes t)" "dict_ok (mt_status_to_node t)"
  shows "\<exists>ns st. remove_nodes ids t acc
        = Inr (acc @ ns, t\<lparr>mt_nodes := fold ddel ids (mt_nodes t), mt_status_to_node := st\<rparr>)
     \<and> map mn_node_id ns = ids \<and> (\<forall>n \<in> set ns. dget (mt_nodes t) (mn_node_id n) = Some n)
     \<and> status_ok (fold ddel ids (mt_nodes t)) st \<and> dict_ok st"
  using assms
proof (induction ids arbitrary: t acc)
  case Nil
  show ?case by (intro exI [of _ "[]"] exI [of _ "mt_status_to_node t"]) (use Nil in simp)
next
  case (Cons k ids)
  from Cons.prems(3) in_keys_dget obtain n where n: "dget (mt_nodes t) k = Some n"
    by (metis insert_subset list.simps(15))
  have in_status: "din (mn_status_message_id n) (mt_status_to_node t)"
    using status_okD [OF Cons.prems(1), of "mn_status_message_id n" k] n by (auto simp: din_def)
  let ?t = "t\<lparr>mt_nodes := ddel k (mt_nodes t),
             mt_status_to_node := ddel (mn_status_message_id n) (mt_status_to_node t)\<rparr>"
  have "set ids \<subseteq> set (dkeys (mt_nodes ?t))"
    using Cons.prems(2,3) by (auto simp: keys_ddel)
  moreover have "mn_node_id m = k'" if "dget (mt_nodes ?t) k' = Some m" for k' m
    using that Cons.prems(4) [of k' m] by (simp add: dget_ddel split: if_splits)
  moreover have "status_ok (mt_nodes ?t) (mt_status_to_node ?t)"
    using status_ok_delete [OF Cons.prems(1) n] by simp
  ultimately obtain ns st where "remove_nodes ids ?t (acc @ [n])
        = Inr ((acc @ [n]) @ ns, ?t\<lparr>mt_nodes := fold ddel ids (mt_nodes ?t), mt_status_to_node := st\<rparr>)"
      "map mn_node_id ns = ids" "\<forall>n \<in> set ns. dget (mt_nodes ?t) (mn_node_id n) = Some n"
      "status_ok (fold ddel ids (mt_nodes ?t)) st" "dict_ok st"
    using Cons.IH [of ?t "acc @ [n]"] Cons.prems(2,5,6) by auto
  with n in_status Cons.prems(4) [OF n] show ?case
    by (intro exI [of _ "n # ns"] exI [of _ st]) (auto simp: dget_ddel split: if_splits)
qed

lemma fold_ddel_nodes:
  "dict_ok d \<Longrightarrow> dict_ok (fold ddel ks d)"
  by (induction ks arbitrary: d) simp_all

text \<open>What is left of the tree after the branch below \<open>k\<close> is gone: the other nodes, and in the parent
  the child \<open>k\<close> is missing.\<close>

definition pruned :: "pystr \<Rightarrow> message_tree \<Rightarrow> message_tree \<Rightarrow> bool" where
  "pruned k t t' \<longleftrightarrow>
     dkeys (mt_nodes t') = filter (\<lambda>x. x \<notin> subtree (mt_nodes t) k) (dkeys (mt_nodes t))
     \<and> (\<forall>x. x \<notin> subtree (mt_nodes t) k \<longrightarrow> dget (mt_nodes t') x = map_option (unlink k) (dget (mt_nodes t) x))
     \<and> mt_root_id t' = mt_root_id t \<and> mt_queue t' = mt_queue t \<and> mt_is_processing t' = mt_is_processing t
     \<and> mt_current_node_id t' = mt_current_node_id t \<and> mt_current_task t' = mt_current_task t"

lemma unlink_simps [simp]:
  "mn_node_id (unlink k n) = mn_node_id n" "mn_parent_id (unlink k n) = mn_parent_id n"
  "mn_status_message_id (unlink k n) = mn_status_message_id n"
  "mn_children_ids (unlink k n) = filter (\<lambda>c. c \<noteq> k) (mn_children_ids n)"
  by (auto simp: unlink_def intro: filter_True [symmetric])

lemma unlink_other: "k \<notin> set (mn_children_ids n) \<Longrightarrow> unlink k n = n"
  by (simp add: unlink_def)

lemma wf_pruned:
  assumes wf: "tree_wf t" and pr: "pruned k t t'" and "k \<noteq> mt_root_id t"
    and st: "status_ok (mt_nodes t') (mt_status_to_node t')" "dict_ok (mt_status_to_node t')"
  shows "tree_wf t'"
proof -
  let ?S = "subtree (mt_nodes t) k"
  note L = tree_wfD(2) [OF wf]
  have keys: "dkeys (mt_nodes t') = filter (\<lambda>x. x \<notin> ?S) (dkeys (mt_nodes t))"
    and get: "\<And>x. x \<notin> ?S \<Longrightarrow> dget (mt_nodes t') x = map_option (unlink k) (dget (mt_nodes t) x)"
    and rt: "mt_root_id t' = mt_root_id t"
    using pr by (auto simp: pruned_def)
  have in_S: "dget (mt_nodes t') x = None" if "x \<in> ?S" for x
    using that keys dget_in_keys [of "mt_nodes t'" x] by (cases "dget (mt_nodes t') x") auto
  have old: "\<exists>n. dget (mt_nodes t) x = Some n \<and> n' = unlink k n \<and> x \<notin> ?S"
    if "dget (mt_nodes t') x = Some n'" for x n'
    using that get [of x] in_S [of x] by (cases "x \<in> ?S") auto
  have edge: "(x, c) \<in> child_edges (mt_nodes t)" "c \<noteq> k" "x \<notin> ?S"
    if "(x, c) \<in> child_edges (mt_nodes t')" for x c
    using that old by (fastforce simp: child_edges_def)+
  have child_out: "c \<notin> ?S" if "(x, c) \<in> child_edges (mt_nodes t)" "x \<notin> ?S" "c \<noteq> k" for x c
  proof
    assume "c \<in> ?S"
    then have "(k, c) \<in> (child_edges (mt_nodes t))\<^sup>*" by (simp add: subtree_def)
    then show False
    proof (cases rule: rtranclE)
      case (step z)
      with edge_parent_unique [OF L step(2) that(1)] that(2) show ?thesis by (simp add: subtree_def)
    qed (use that(3) in simp)
  qed
  have parent_out: "p \<notin> ?S" if "(p, x) \<in> child_edges (mt_nodes t)" "x \<notin> ?S" for p x
    using that by (auto simp: subtree_def intro: rtrancl.rtrancl_into_rtrancl)
  have "links_ok (mt_root_id t) (mt_nodes t')"
    unfolding links_ok_def
  proof (intro conjI allI impI)
    fix x n' assume g: "dget (mt_nodes t') x = Some n'"
    from old [OF g] obtain n where n: "dget (mt_nodes t) x = Some n" "n' = unlink k n" "x \<notin> ?S" by blast
    show "x \<noteq> []" "mn_node_id n' = x" "distinct (mn_children_ids n')"
      using links_okD [OF L n(1)] n(2) by auto
    show "\<forall>c\<in>set (mn_children_ids n'). \<exists>m. dget (mt_nodes t') c = Some m \<and> mn_parent_id m = Some x"
    proof
      fix c assume c: "c \<in> set (mn_children_ids n')"
      with g have "(x, c) \<in> child_edges (mt_nodes t')" by (auto simp: child_edges_def)
      from edge [OF this] child_out have out: "c \<notin> ?S" by blast
      from c n(2) links_okD(4) [OF L n(1)] obtain m where "dget (mt_nodes t) c = Some m" "mn_parent_id m = Some x"
        by auto
      with get [OF out] show "\<exists>m. dget (mt_nodes t') c = Some m \<and> mn_parent_id m = Some x" by simp
    qed
    show "case mn_parent_id n' of None \<Rightarrow> x = mt_root_id t
      | Some q \<Rightarrow> x \<noteq> mt_root_id t \<and> (\<exists>m. dget (mt_nodes t') q = Some m \<and> x \<in> set (mn_children_ids m))"
    proof (cases "mn_parent_id n")
      case None
      with links_ok_root [OF L n(1)] n(2) show ?thesis by simp
    next
      case (Some q)
      from links_ok_parent [OF L n(1) Some] obtain m where
        m: "x \<noteq> mt_root_id t" "dget (mt_nodes t) q = Some m" "x \<in> set (mn_children_ids m)" by blast
      then have "(q, x) \<in> child_edges (mt_nodes t)" by (auto simp: child_edges_def)
      from parent_out [OF this n(3)] get m(2) have "dget (mt_nodes t') q = Some (unlink k m)" by simp
      moreover have "x \<noteq> k" using n(3) subtree_self by auto
      ultimately show ?thesis using Some n(2) m by simp
    qed
  qed
  moreover have "ranked (mt_nodes t')"
    using tree_wfD(3) [OF wf] edge(1) unfolding ranked_def by blast
  moreover have "\<exists>rest. dkeys (mt_nodes t') = mt_root_id t # rest"
  proof -
    from tree_wfD(5) [OF wf] obtain rest where rest: "dkeys (mt_nodes t) = mt_root_id t # rest" ..
    then have "mt_root_id t \<in> set (dkeys (mt_nodes t))" by simp
    from in_keys_dget [OF this] obtain r where r: "dget (mt_nodes t) (mt_root_id t) = Some r" by blast
    have no_edge: "(p, mt_root_id t) \<notin> child_edges (mt_nodes t)" for p
      using edge_parent [OF L, of p "mt_root_id t"] links_ok_parent(1) [OF L] by blast
    have "mt_root_id t \<notin> ?S"
    proof
      assume "mt_root_id t \<in> ?S"
      then have "(k, mt_root_id t) \<in> (child_edges (mt_nodes t))\<^sup>*" by (simp add: subtree_def)
      then show False by (cases rule: rtranclE) (use no_edge \<open>k \<noteq> mt_root_id t\<close> in auto)
    qed
    with rest keys show ?thesis by simp
  qed
  moreover have "dict_ok (mt_nodes t')"
    unfolding keys using tree_wfD(1) [OF wf] by simp
  ultimately show ?thesis using st rt by (simp add: tree_wf_def)
qed

lemma remove_branch_pruned:
  assumes wf: "tree_wf t" and k: "has_node t k" "k \<noteq> mt_root_id t"
  shows "\<exists>removed t'. remove_branch k t = Some (Inr (removed, t'))
     \<and> set (map mn_node_id removed) = subtree (mt_nodes t) k
     \<and> distinct (map mn_node_id removed)
     \<and> (\<forall>n \<in> set removed. dget (mt_nodes t) (mn_node_id n) = Some n) \<and> pruned k t t' \<and> tree_wf t'"
proof -
  note L = tree_wfD(2) [OF wf]
  let ?S = "subtree (mt_nodes t) k"
  from k(1) have known: "k \<in> set (dkeys (mt_nodes t))" by (simp add: has_node_def din_iff)
  from in_keys_dget [OF this] obtain n where n: "dget (mt_nodes t) k = Some n" by blast
  from links_ok_not_root [OF L n k(2)] obtain p m where
    p: "mn_parent_id n = Some p" "dget (mt_nodes t) p = Some m" "k \<in> set (mn_children_ids m)" .
  have p_id: "mn_node_id m = p" "p \<noteq> []" using links_okD(1,2) [OF L p(2)] by auto
  have parent: "get_parent t k = Some m"
    using n p p_id by (simp add: get_parent_def get_node_def)
  have p_out: "p \<notin> ?S"
    using parent_not_below [OF tree_wfD(3) [OF wf], of p k] p(2,3) by (auto simp: child_edges_def)
  from get_descendants_walk [OF wf k(1)] obtain ds where
    ds: "get_descendants t k = Some ds" "set ds = ?S" "distinct ds" by blast
  have "set ds \<subseteq> set (dkeys (mt_nodes t))"
    using subtree_known [OF L known] ds(2) by blast
  from remove_nodes_all [OF tree_wfD(4) [OF wf] ds(3) this _ tree_wfD(1,6) [OF wf], of "[]"]
    links_okD(2) [OF L]
  obtain ns st where rem: "remove_nodes ds t []
        = Inr (ns, t\<lparr>mt_nodes := fold ddel ds (mt_nodes t), mt_status_to_node := st\<rparr>)"
    and ns: "map mn_node_id ns = ds" "\<forall>n \<in> set ns. dget (mt_nodes t) (mn_node_id n) = Some n"
    and st: "status_ok (fold ddel ds (mt_nodes t)) st" "dict_ok st" by auto
  define t1 where "t1 = t\<lparr>mt_nodes := fold ddel ds (mt_nodes t), mt_status_to_node := st\<rparr>"
  let ?t' = "update_node p (unlink k) t1"
  have res: "remove_branch k t = Some (Inr (ns, ?t'))"
    using k(1) ds(1) rem parent p_id by (simp add: remove_branch_def has_node_def t1_def)
  have get1: "dget (mt_nodes t1) x = (if x \<in> ?S then None else dget (mt_nodes t) x)" for x
    by (simp add: t1_def fold_ddel_get ds(2))
  have other: "dget (mt_nodes t) x = map_option (unlink k) (dget (mt_nodes t) x)" if "x \<noteq> p" for x
  proof (cases "dget (mt_nodes t) x")
    case (Some y)
    have "k \<notin> set (mn_children_ids y)"
      using edge_parent_unique [OF L, of p k x] p(2,3) Some that by (auto simp: child_edges_def)
    with Some show ?thesis by (simp add: unlink_other)
  qed simp
  have pr: "pruned k t ?t'"
    unfolding pruned_def
  proof (intro conjI allI impI)
    show "dkeys (mt_nodes ?t') = filter (\<lambda>x. x \<notin> ?S) (dkeys (mt_nodes t))"
      by (simp add: t1_def fold_ddel_keys ds(2))
    show "dget (mt_nodes ?t') x = map_option (unlink k) (dget (mt_nodes t) x)" if "x \<notin> ?S" for x
      using that other [of x] p_out by (simp add: update_node_get get1)
  qed (simp_all add: t1_def)
  have "status_ok (mt_nodes ?t') st"
    unfolding status_ok_def
  proof (intro allI)
    fix s x
    show "dget st s = Some x \<longleftrightarrow> (\<exists>n. dget (mt_nodes ?t') x = Some n \<and> mn_status_message_id n = s)"
      using status_okD [OF st(1), of s x] by (auto simp: update_node_get t1_def)
  qed
  then have "tree_wf ?t'"
    using wf_pruned [OF wf pr k(2)] st(2) by (simp add: t1_def)
  with res ns ds pr show ?thesis by (intro exI [of _ ns] exI [of _ ?t']) auto
qed

section \<open>Serialisation\<close>

text \<open>What of a node is stored: not its context, and of the message not the two transient fields.\<close>

definition persisted :: "time \<Rightarrow> message_node \<Rightarrow> message_node" where
  "persisted now n = n\<lparr>mn_context := PNone,
     mn_incoming := (mn_incoming n)\<lparr>im_status_message_id := None, im_timestamp := now\<rparr>\<rparr>"

definition iso_inverse :: "iso \<Rightarrow> from_iso \<Rightarrow> bool" where
  "iso_inverse isoformat fromisoformat \<longleftrightarrow> (\<forall>x. isoformat x \<noteq> [] \<and> fromisoformat (isoformat x) = Inr x)"

lemma message_state_roundtrip [simp]: "message_state_of (state_value s) = Inr s"
  by (cases s) (simp_all add: state_value_def message_state_of_def)

lemma incoming_roundtrip:
  "incoming_from_dict now (incoming_to_dict i) = Inr (i\<lparr>im_status_message_id := None, im_timestamp := now\<rparr>)"
  by (simp add: incoming_from_dict_def incoming_to_dict_def str_field_def opt_str_field_def psub_def pget_def)

lemma node_roundtrip:
  assumes "iso_inverse isoformat fromisoformat"
  shows "node_from_dict fromisoformat now (node_to_dict isoformat n) = Inr (persisted now n)"
proof -
  have "completed_field fromisoformat (node_to_dict isoformat n) = Inr (mn_completed_at n)"
    using assms
    by (cases "mn_completed_at n") (simp_all add: completed_field_def node_to_dict_def pget_def
        opt_str_def iso_inverse_def)
  moreover have "children_field (node_to_dict isoformat n) = Inr (mn_children_ids n)"
    by (simp add: children_field_def node_to_dict_def)
  ultimately show ?thesis
    using assms
    by (simp add: node_from_dict_def str_field_def opt_str_field_def iso_inverse_def incoming_roundtrip)
      (simp add: node_to_dict_def psub_def pget_def incoming_roundtrip persisted_def iso_inverse_def)
qed

lemma persisted_simps [simp]:
  "mn_node_id (persisted now n) = mn_node_id n" "mn_status_message_id (persisted now n) = mn_status_message_id n"
  by (simp_all add: persisted_def)

text \<open>Adding nodes with new identities one by one.\<close>

lemma fold_load_node:
  assumes "iso_inverse isoformat fromisoformat"
  shows "fold (load_node fromisoformat now) (map (\<lambda>(k, n). (k, node_to_dict isoformat n)) nodes) (Inr t)
     = Inr (fold add_node_from_dict (map (\<lambda>(k, n). persisted now n) nodes) t)"
  by (induction nodes arbitrary: t) (auto simp: load_node_def node_roundtrip [OF assms])

lemma fold_add_nodes:
  assumes "distinct (dkeys (mt_nodes t) @ map mn_node_id ns)"
    "distinct (dkeys (mt_status_to_node t) @ map mn_status_message_id ns)"
  shows "fold add_node_from_dict ns t = t\<lparr>mt_nodes := mt_nodes t @ map (\<lambda>n. (mn_node_id n, n)) ns,
     mt_status_to_node := mt_status_to_node t @ map (\<lambda>n. (mn_status_message_id n, mn_node_id n)) ns\<rparr>"
  using assms
proof (induction ns arbitrary: t)
  case (Cons n ns)
  have "add_node_from_dict n t = t\<lparr>mt_nodes := mt_nodes t @ [(mn_node_id n, n)],
      mt_status_to_node := mt_status_to_node t @ [(mn_status_message_id n, mn_node_id n)]\<rparr>"
    using Cons.prems by (simp add: add_node_from_dict_def dset_new)
  with Cons.IH [of "add_node_from_dict n t"] Cons.prems show ?case by simp
qed simp

text \<open>The status index that loading builds.\<close>

definition status_index :: "(pystr, message_node) dict \<Rightarrow> (pystr, pystr) dict" where
  "status_index nodes = map (\<lambda>(k, n). (mn_status_message_id n, k)) nodes"

lemma status_index_keys:
  assumes "status_ok nodes st" "dict_ok nodes"
  shows "dict_ok (status_index nodes)"
proof -
  have uniq: "k = k'" if "(k, n) \<in> set nodes" "(k', n') \<in> set nodes"
    "mn_status_message_id n = mn_status_message_id n'" for k n k' n'
  proof -
    have "dget st (mn_status_message_id n) = Some k" "dget st (mn_status_message_id n') = Some k'"
      using that(1,2) status_okD [OF assms(1)] assms(2) by auto
    with that(3) show ?thesis by simp
  qed
  have "inj_on (\<lambda>x. mn_status_message_id (snd x)) (set nodes)"
  proof (rule inj_onI)
    fix x y assume x: "x \<in> set nodes" "y \<in> set nodes"
      "mn_status_message_id (snd x) = mn_status_message_id (snd y)"
    obtain k n k' n' where xy: "x = (k, n)" "y = (k', n')" by (cases x, cases y)
    with x uniq [of k n k' n'] have "k = k'" by simp
    with x xy eq_key_imp_eq_value [OF assms(2)] show "x = y" by auto
  qed
  moreover have "distinct nodes" using assms(2) by (simp add: distinct_map)
  ultimately have "distinct (map (\<lambda>x. mn_status_message_id (snd x)) nodes)"
    by (simp add: distinct_map)
  then show ?thesis by (simp add: status_index_def comp_def case_prod_beta)
qed

lemma status_index_get:
  assumes "status_ok nodes st" "dict_ok nodes"
  shows "dget (status_index nodes) s = dget st s"
proof -
  have "dget (status_index nodes) s = Some k \<longleftrightarrow> dget st s = Some k" for k
  proof -
    have "dget (status_index nodes) s = Some k \<longleftrightarrow> (s, k) \<in> set (status_index nodes)"
      using dget_mem [OF status_index_keys [OF assms]] by simp
    also have "\<dots> \<longleftrightarrow> (\<exists>n. dget nodes k = Some n \<and> mn_status_message_id n = s)"
      using assms(2) by (auto simp: status_index_def)
    also have "\<dots> \<longleftrightarrow> dget st s = Some k" using status_okD [OF assms(1)] by simp
    finally show ?thesis .
  qed
  then show ?thesis by (cases "dget st s") (auto simp del: map_of_eq_Some_iff)
qed

lemma filter_not_first:
  "x \<notin> set (map fst d) \<Longrightarrow> filter (\<lambda>(k, _). k \<noteq> x) (map (\<lambda>(k, n). (k, f n)) d) = map (\<lambda>(k, n). (k, f n)) d"
  by (induction d) auto

lemma tree_roundtrip_wf:
  assumes wf: "tree_wf t" and iso: "iso_inverse isoformat fromisoformat"
  shows "tree_from_dict fromisoformat now (tree_to_dict isoformat t)
      = Inr \<lparr>mt_root_id = mt_root_id t, mt_nodes = map (\<lambda>(k, n). (k, persisted now n)) (mt_nodes t),
             mt_status_to_node = status_index (mt_nodes t), mt_queue = sq_init, mt_is_processing = False,
             mt_current_node_id = None, mt_current_task = None\<rparr>"
proof -
  from tree_wfD(5) [OF wf] obtain ks where "dkeys (mt_nodes t) = mt_root_id t # ks" ..
  then obtain r rest where nodes: "mt_nodes t = (mt_root_id t, r) # rest" by (cases "mt_nodes t") auto
  have ids: "mn_node_id n = k" if "(k, n) \<in> set (mt_nodes t)" for k n
    using that links_okD(2) [OF tree_wfD(2) [OF wf]] tree_wfD(1) [OF wf] by simp
  have d: "distinct (dkeys (mt_nodes t))" "distinct (dkeys (status_index (mt_nodes t)))"
    using tree_wfD(1) [OF wf] status_index_keys [OF tree_wfD(4,1) [OF wf]] by simp_all
  have ids': "mn_node_id (snd x) = fst x" if "x \<in> set rest" for x
    using ids [of "fst x" "snd x"] that nodes by simp
  let ?ns = "map (\<lambda>(k, n). persisted now n) rest"
  have ns: "map mn_node_id ?ns = dkeys rest" "map mn_status_message_id ?ns = dkeys (status_index rest)"
    "map (\<lambda>n. (mn_node_id n, n)) ?ns = map (\<lambda>(k, n). (k, persisted now n)) rest"
    "map (\<lambda>n. (mn_status_message_id n, mn_node_id n)) ?ns = status_index rest"
    "mn_node_id r = mt_root_id t"
    using ids' ids [of "mt_root_id t" r] nodes by (simp_all add: status_index_def case_prod_beta)
  have "fold add_node_from_dict ?ns (tree_init (persisted now r)) = (tree_init (persisted now r))
     \<lparr>mt_nodes := mt_nodes (tree_init (persisted now r)) @ map (\<lambda>n. (mn_node_id n, n)) ?ns,
      mt_status_to_node := mt_status_to_node (tree_init (persisted now r))
        @ map (\<lambda>n. (mn_status_message_id n, mn_node_id n)) ?ns\<rparr>"
    by (rule fold_add_nodes; unfold ns) (use d ns(5) nodes in \<open>simp_all add: tree_init_def status_index_def\<close>)
  moreover have "filter (\<lambda>(k, _). k \<noteq> mt_root_id t) (map (\<lambda>(k, n). (k, node_to_dict isoformat n)) (mt_nodes t))
      = map (\<lambda>(k, n). (k, node_to_dict isoformat n)) rest"
    using d(1) nodes filter_not_first [of "mt_root_id t" rest] by simp
  ultimately show ?thesis
    using nodes ns
    by (simp add: tree_from_dict_def tree_to_dict_def str_field_def psub_def node_roundtrip [OF iso]
        fold_load_node [OF iso] tree_init_def) (simp add: status_index_def)
qed

section \<open>Draining the queue\<close>

lemma set_error_get:
  "dget (mt_nodes (set_node_error_sync i msg now t)) k
     = (if k = i then map_option (error_node msg now) (dget (mt_nodes t) i) else dget (mt_nodes t) k)"
  by (simp add: set_node_error_sync_def update_node_get)

lemma fold_set_error_get:
  "dget (mt_nodes (fold (\<lambda>i. set_node_error_sync i msg now) ids t)) k
     = (if k \<in> set ids then map_option (error_node msg now) (dget (mt_nodes t) k) else dget (mt_nodes t) k)"
proof (induction ids arbitrary: t)
  case (Cons i ids)
  have twice: "error_node msg now (error_node msg now n) = error_node msg now n" for n
    by (simp add: error_node_def)
  show ?case
    by (simp add: Cons.IH set_error_get option.map_comp comp_def twice)
qed simp

lemma fold_set_error_frame [simp]:
  "mt_queue (fold (\<lambda>i. set_node_error_sync i msg now) ids t) = mt_queue t"
  "mt_root_id (fold (\<lambda>i. set_node_error_sync i msg now) ids t) = mt_root_id t"
  "mt_status_to_node (fold (\<lambda>i. set_node_error_sync i msg now) ids t) = mt_status_to_node t"
  "mt_is_processing (fold (\<lambda>i. set_node_error_sync i msg now) ids t) = mt_is_processing t"
  "mt_current_node_id (fold (\<lambda>i. set_node_error_sync i msg now) ids t) = mt_current_node_id t"
  "mt_current_task (fold (\<lambda>i. set_node_error_sync i msg now) ids t) = mt_current_task t"
  "dkeys (mt_nodes (fold (\<lambda>i. set_node_error_sync i msg now) ids t)) = dkeys (mt_nodes t)"
  by (induction ids arbitrary: t) (simp_all add: set_node_error_sync_def del: list.set_map)

lemma wf_fold_set_error: "tree_wf t \<Longrightarrow> tree_wf (fold (\<lambda>i. set_node_error_sync i msg now) ids t)"
  by (induction ids arbitrary: t) (simp_all add: wf_set_error)

lemma take_all_queue:
  obtains q where "take_all sq_get_nowait (sq_qsize (mt_queue t)) (mt_queue t) = (get_queue_snapshot t, q)"
    "sq_get_snapshot q = []" "sq_ok (mt_queue t) \<longrightarrow> sq_ok q"
  using sq.take_all_contents [of "mt_queue t" "sq_qsize (mt_queue t)"]
  by (auto simp: sq_qsize_def sq_get_snapshot_def get_queue_snapshot_def)

lemma drain_result:
  obtains q where "drain_queue_and_mark_cancelled msg now t
      = (fold (\<lambda>i. set_node_error_sync i msg now) (filter (has_node t) (get_queue_snapshot t)) (t\<lparr>mt_queue := q\<rparr>),
         filter (has_node t) (get_queue_snapshot t))"
    "sq_get_snapshot q = []" "sq_ok (mt_queue t) \<longrightarrow> sq_ok q"
proof -
  obtain q where q: "take_all sq_get_nowait (sq_qsize (mt_queue t)) (mt_queue t) = (get_queue_snapshot t, q)"
    "sq_get_snapshot q = []" "sq_ok (mt_queue t) \<longrightarrow> sq_ok q" by (rule take_all_queue)
  have "filter (\<lambda>i. get_node t i \<noteq> None) ids = filter (has_node t) ids" for ids
    by (rule filter_cong) (simp_all add: get_node_def has_node_def din_def)
  then have "drain_queue_and_mark_cancelled msg now t
      = (fold (\<lambda>i. set_node_error_sync i msg now) (filter (has_node t) (get_queue_snapshot t)) (t\<lparr>mt_queue := q\<rparr>),
         filter (has_node t) (get_queue_snapshot t))"
    unfolding drain_queue_and_mark_cancelled_def q(1) Let_def prod.case by simp
  then show ?thesis using q(2,3) by (rule that)
qed

section \<open>Reachable trees\<close>

text \<open>
  One operation on a tree. The identifiers of messages come from the chat platform; a new node has
  one that is not in the tree, and a status message that is not in use.
\<close>

inductive tree_step :: "message_tree \<Rightarrow> message_tree \<Rightarrow> bool" where
  add: "add_node k incoming status p now t = Inr t' \<Longrightarrow> \<not> has_node t k \<Longrightarrow>
     dget (mt_status_to_node t) status = None \<Longrightarrow> k \<noteq> [] \<Longrightarrow> tree_step t t'"
| state: "tree_step t (update_state k state session msg now t)"
| failed: "tree_step t (set_node_error_sync k msg now t)"
| enqueue: "tree_step t (fst (tree_enqueue k t))"
| put: "tree_step t (put_queue_unlocked k t)"
| dequeue: "tree_step t (snd (tree_dequeue t))"
| unqueue: "tree_step t (fst (remove_from_queue k t))"
| drain: "tree_step t (fst (drain_queue_and_mark_cancelled msg now t))"
| processing: "tree_step t (set_processing_state node b t)"
| clear: "tree_step t (clear_current_node t)"
| reset: "tree_step t (reset_processing_state t)"
| task: "tree_step t (set_current_task i t)"
| remove: "remove_branch k t = Some (Inr (removed, t')) \<Longrightarrow> k \<noteq> mt_root_id t \<Longrightarrow> tree_step t t'"

lemma wf_step: "tree_step t t' \<Longrightarrow> tree_wf t \<Longrightarrow> tree_wf t'"
proof (induction rule: tree_step.induct)
  case (add k incoming status p now t t')
  show ?case by (rule wf_add_node [OF add.prems add.hyps])
next
  case (dequeue t)
  then show ?case by (auto simp: tree_dequeue_def wf_frame split: option.splits prod.splits)
next
  case (drain t msg now)
  obtain q where "fst (drain_queue_and_mark_cancelled msg now t)
      = fold (\<lambda>i. set_node_error_sync i msg now) (filter (has_node t) (get_queue_snapshot t)) (t\<lparr>mt_queue := q\<rparr>)"
    by (rule drain_result [of msg now t]) auto
  with drain show ?case by (simp add: wf_fold_set_error wf_frame)
next
  case (remove k t removed t')
  show ?case
  proof (cases "has_node t k")
    case True
    from remove_branch_pruned [OF remove.prems True remove.hyps(2)] remove.hyps(1) show ?thesis by auto
  next
    case False
    with remove show ?thesis by (auto simp: remove_branch_def has_node_def)
  qed
qed (simp_all add: wf_update_state wf_set_error wf_frame tree_enqueue_def remove_from_queue_def Let_def
      case_prod_beta)

section \<open>Properties\<close>

text \<open>C37: the tables of a tree stay consistent under every sequence of operations in which a node is added under an
  identifier that is not empty and not in the tree, with a status message that is not in use in it, and no branch is
  removed at the root (the tree checks none of this itself): each node but the root has its
  parent in the table and is listed by it exactly once, there are no cycles, and the index of status messages holds
  exactly the nodes of the tree.\<close>

theorem message_tree_invariant:
  assumes "tree_step\<^sup>*\<^sup>* (tree_init (new_node k incoming status None now)) t" "k \<noteq> []"
  shows "tree_wf t"
  using assms(1)
proof (induction rule: rtranclp_induct)
  case base
  show ?case by (rule wf_init) (simp_all add: new_node_def assms(2))
next
  case (step t t')
  then show ?case by (simp add: wf_step)
qed

definition example_message :: incoming_message where
  "example_message = \<lparr>im_text = lit ''hi'', im_chat_id = lit ''c'', im_user_id = lit ''u'',
     im_message_id = lit ''1'', im_platform = lit ''telegram'', im_reply_to_message_id = None,
     im_message_thread_id = None, im_username = None, im_status_message_id = None, im_timestamp = 0\<rparr>"

text \<open>The root \<open>1\<close> with the reply \<open>2\<close>, to which \<open>3\<close> replies.\<close>

definition example_root :: message_tree where
  "example_root = tree_init (new_node (lit ''1'') example_message (lit ''s1'') None 0)"

definition example_reply :: "string \<Rightarrow> string \<Rightarrow> string \<Rightarrow> message_tree \<Rightarrow> message_tree" where
  "example_reply k status p t =
     (case add_node (lit k) example_message (lit status) (lit p) 5 t of Inr t' \<Rightarrow> t' | Inl _ \<Rightarrow> t)"

definition example_tree :: message_tree where
  "example_tree = example_reply ''3'' ''s3'' ''2'' (example_reply ''2'' ''s2'' ''1'' example_root)"

lemma example_steps: "tree_step\<^sup>*\<^sup>* example_root example_tree"
proof -
  have 1: "tree_step example_root (example_reply ''2'' ''s2'' ''1'' example_root)"
    by (rule tree_step.add [of "lit ''2''" example_message "lit ''s2''" "lit ''1''" 5])
      (simp_all add: example_reply_def example_root_def add_node_def tree_init_def new_node_def has_node_def din_def)
  have 2: "tree_step (example_reply ''2'' ''s2'' ''1'' example_root) example_tree"
    unfolding example_tree_def
    by (rule tree_step.add [of "lit ''3''" example_message "lit ''s3''" "lit ''2''" 5])
      (simp_all add: example_reply_def example_root_def add_node_def tree_init_def new_node_def has_node_def
        din_def update_node_def)
  from 1 2 show ?thesis by (meson converse_rtranclp_into_rtranclp r_into_rtranclp)
qed

lemma example_wf: "tree_wf example_tree"
proof -
  have "tree_wf example_root"
    unfolding example_root_def by (rule wf_init) (simp_all add: new_node_def)
  with example_steps show ?thesis
    by (induction rule: rtranclp_induct) (simp_all add: wf_step)
qed

lemma example_nodes: "dkeys (mt_nodes example_tree) = [lit ''1'', lit ''2'', lit ''3'']"
  "mt_root_id example_tree = lit ''1''"
  by (simp_all add: example_tree_def example_reply_def example_root_def add_node_def tree_init_def new_node_def
      din_def update_node_def)

lemma example_walk: "get_descendants example_tree (lit ''2'') = Some [lit ''2'', lit ''3'']"
  by (simp add: get_descendants_def descend.simps example_tree_def example_reply_def example_root_def
      add_node_def tree_init_def new_node_def din_def update_node_def)

theorem message_tree_invariant_witness: "tree_wf example_tree"
  using message_tree_invariant [of "lit ''1''" example_message "lit ''s1''" 0 example_tree] example_steps
  unfolding example_root_def by simp

text \<open>The condition on the status message is needed: a second node with the status message of the root takes its place in
  the index.\<close>

lemma reused_status_breaks_index: "\<not> tree_wf (example_reply ''2'' ''s1'' ''1'' example_root)"
proof
  assume "tree_wf (example_reply ''2'' ''s1'' ''1'' example_root)"
  then have "status_ok (mt_nodes (example_reply ''2'' ''s1'' ''1'' example_root))
      (mt_status_to_node (example_reply ''2'' ''s1'' ''1'' example_root))" by (rule tree_wfD(4))
  then have "(dget (mt_status_to_node (example_reply ''2'' ''s1'' ''1'' example_root)) (lit ''s1'') = Some (lit ''1''))
      = (\<exists>n. dget (mt_nodes (example_reply ''2'' ''s1'' ''1'' example_root)) (lit ''1'') = Some n
           \<and> mn_status_message_id n = lit ''s1'')" unfolding status_ok_def by blast
  then show False
    by (simp add: example_reply_def example_root_def add_node_def tree_init_def new_node_def din_def update_node_def lit_def)
qed

text \<open>In a consistent tree the walk over the descendants of a node ends, and it lists exactly the
  nodes of the subtree below it, the node included, each once.\<close>

theorem get_descendants_complete:
  assumes "tree_wf t" and "has_node t k"
  shows "\<exists>ds. get_descendants t k = Some ds \<and> distinct ds
     \<and> set ds = {d. (k, d) \<in> (child_edges (mt_nodes t))\<^sup>*}"
  using get_descendants_walk [OF assms] by (auto simp: subtree_def)

theorem get_descendants_complete_witness:
  "{d. (lit ''2'', d) \<in> (child_edges (mt_nodes example_tree))\<^sup>*} = {lit ''2'', lit ''3''}"
proof -
  have "has_node example_tree (lit ''2'')"
    unfolding has_node_def din_iff example_nodes by simp
  from get_descendants_complete [OF example_wf this] example_walk show ?thesis by auto
qed

text \<open>C7: removing the branch below a node other than the root always succeeds on a consistent tree.
  It returns exactly the nodes of the subtree; the tree keeps all others in their order, and only the
  parent changes, by losing that child. The tree stays consistent.\<close>

theorem remove_branch_correct:
  assumes "tree_wf t" and "has_node t k" and "k \<noteq> mt_root_id t"
  shows "\<exists>removed t'. remove_branch k t = Some (Inr (removed, t'))
     \<and> set (map mn_node_id removed) = subtree (mt_nodes t) k \<and> distinct (map mn_node_id removed)
     \<and> (\<forall>n \<in> set removed. dget (mt_nodes t) (mn_node_id n) = Some n)
     \<and> dkeys (mt_nodes t') = filter (\<lambda>x. x \<notin> subtree (mt_nodes t) k) (dkeys (mt_nodes t))
     \<and> (\<forall>x. x \<notin> subtree (mt_nodes t) k \<longrightarrow>
          dget (mt_nodes t') x = map_option (unlink k) (dget (mt_nodes t) x))
     \<and> tree_wf t'"
  using remove_branch_pruned [OF assms] unfolding pruned_def by blast

theorem remove_branch_correct_witness:
  "\<exists>removed t'. remove_branch (lit ''2'') example_tree = Some (Inr (removed, t'))
     \<and> dkeys (mt_nodes t') = [lit ''1''] \<and> tree_wf t'"
proof -
  have h: "has_node example_tree (lit ''2'')"
    unfolding has_node_def din_iff example_nodes by simp
  have "subtree (mt_nodes example_tree) (lit ''2'') = {lit ''2'', lit ''3''}"
    using get_descendants_walk [OF example_wf h] example_walk by auto
  with remove_branch_correct [OF example_wf h] example_nodes show ?thesis by auto
qed

text \<open>Cancelling the queue of a tree empties it, reports the queued nodes of the tree in first-in
  first-out order, marks exactly these as failed, and leaves all other nodes alone.\<close>

theorem drain_queue_correct:
  "\<exists>t'. drain_queue_and_mark_cancelled msg now t = (t', filter (has_node t) (get_queue_snapshot t))
     \<and> get_queue_snapshot t' = []
     \<and> (\<forall>k. get_node t' k = (if k \<in> set (get_queue_snapshot t)
          then map_option (error_node msg now) (get_node t k) else get_node t k))"
proof -
  obtain q where d: "drain_queue_and_mark_cancelled msg now t
      = (fold (\<lambda>i. set_node_error_sync i msg now) (filter (has_node t) (get_queue_snapshot t)) (t\<lparr>mt_queue := q\<rparr>),
         filter (has_node t) (get_queue_snapshot t))" "sq_get_snapshot q = []"
    by (rule drain_result [of msg now t])
  have "dget (mt_nodes t) k = None" if "\<not> has_node t k" for k
    using that by (simp add: has_node_def din_def)
  with d show ?thesis
    by (auto simp: get_node_def fold_set_error_get get_queue_snapshot_def)
qed

text \<open>C39: a tree that is written to a dictionary and read back has the same nodes in the same order,
  with all stored fields, and finds them by their status messages; queue and processing state start
  afresh. \<open>isoformat\<close> and \<open>fromisoformat\<close> are assumed to invert each other.\<close>

theorem tree_dict_roundtrip:
  assumes "tree_wf t" and "\<And>x. isoformat x \<noteq> [] \<and> fromisoformat (isoformat x) = Inr x"
  shows "\<exists>t'. tree_from_dict fromisoformat now (tree_to_dict isoformat t) = Inr t'
     \<and> mt_nodes t' = map (\<lambda>(k, n). (k, persisted now n)) (mt_nodes t) \<and> mt_root_id t' = mt_root_id t
     \<and> (\<forall>s. dget (mt_status_to_node t') s = dget (mt_status_to_node t) s)
     \<and> mt_queue t' = sq_init \<and> \<not> mt_is_processing t'"
proof -
  have "iso_inverse isoformat fromisoformat" using assms(2) by (simp add: iso_inverse_def)
  from tree_roundtrip_wf [OF assms(1) this, of now] status_index_get [OF tree_wfD(4,1) [OF assms(1)]]
  show ?thesis by simp
qed

text \<open>A conversion of times that inverts, for the witness: the sign and as many marks as the value.\<close>

definition unary_iso :: iso where
  "unary_iso t = Ch (if t < 0 then CHR ''-'' else CHR ''+'') # replicate (nat \<bar>t\<bar>) (Ch (CHR ''i''))"

definition unary_from_iso :: from_iso where
  "unary_from_iso s = Inr (if hd s = Ch (CHR ''-'') then - int (length (tl s)) else int (length (tl s)))"

theorem tree_dict_roundtrip_witness:
  "\<exists>t'. tree_from_dict unary_from_iso 9 (tree_to_dict unary_iso example_tree) = Inr t'
     \<and> dkeys (mt_nodes t') = [lit ''1'', lit ''2'', lit ''3'']"
proof -
  have "unary_iso x \<noteq> [] \<and> unary_from_iso (unary_iso x) = Inr x" for x
    by (simp add: unary_iso_def unary_from_iso_def)
  from tree_dict_roundtrip [OF example_wf this, of 9] obtain t' where
    t': "tree_from_dict unary_from_iso 9 (tree_to_dict unary_iso example_tree) = Inr t'"
      "mt_nodes t' = map (\<lambda>(k, n). (k, persisted 9 n)) (mt_nodes example_tree)" by blast
  have "dkeys (mt_nodes t') = dkeys (mt_nodes example_tree)"
    unfolding t'(2) by (simp add: comp_def case_prod_beta)
  with t'(1) example_nodes show ?thesis by auto
qed

end
