(* ===== verification/TreeRepository.thy ===== *)
theory TreeRepository
  imports MessageTreeFacts
begin

text \<open>
  \<open>messaging/trees/repository.py\<close>: all trees by their root, and the map from message identifiers
  (nodes and status messages alike) to the root of their tree.
\<close>

section \<open>State and operations\<close>

record tree_repository =
  tr_trees :: "(pystr, message_tree) dict"
  tr_node_to_tree :: "(pystr, pystr) dict"

definition repo_init :: tree_repository where
  "repo_init = \<lparr>tr_trees = [], tr_node_to_tree = []\<rparr>"

definition repo_get_tree :: "tree_repository \<Rightarrow> pystr \<Rightarrow> message_tree option" where
  "repo_get_tree r root_id = dget (tr_trees r) root_id"

definition get_tree_for_node :: "tree_repository \<Rightarrow> pystr \<Rightarrow> message_tree option" where
  "get_tree_for_node r node_id =
     (case dget (tr_node_to_tree r) node_id of
        None \<Rightarrow> None
      | Some root_id \<Rightarrow> if root_id = [] then None else dget (tr_trees r) root_id)"

definition repo_get_node :: "tree_repository \<Rightarrow> pystr \<Rightarrow> message_node option" where
  "repo_get_node r node_id =
     (case get_tree_for_node r node_id of None \<Rightarrow> None | Some t \<Rightarrow> get_node t node_id)"

definition add_tree :: "pystr \<Rightarrow> message_tree \<Rightarrow> tree_repository \<Rightarrow> tree_repository" where
  "add_tree root_id t r = \<lparr>tr_trees = dset root_id t (tr_trees r),
     tr_node_to_tree = dset root_id root_id (tr_node_to_tree r)\<rparr>"

definition register_node :: "pystr \<Rightarrow> pystr \<Rightarrow> tree_repository \<Rightarrow> tree_repository" where
  "register_node node_id root_id r = r\<lparr>tr_node_to_tree := dset node_id root_id (tr_node_to_tree r)\<rparr>"

definition repo_has_node :: "tree_repository \<Rightarrow> pystr \<Rightarrow> bool" where
  "repo_has_node r node_id \<longleftrightarrow> din node_id (tr_node_to_tree r)"

definition tree_count :: "tree_repository \<Rightarrow> nat" where
  "tree_count r = length (tr_trees r)"

definition is_tree_busy :: "tree_repository \<Rightarrow> pystr \<Rightarrow> bool" where
  "is_tree_busy r root_id =
     (case dget (tr_trees r) root_id of None \<Rightarrow> False | Some t \<Rightarrow> mt_is_processing t)"

definition is_node_tree_busy :: "tree_repository \<Rightarrow> pystr \<Rightarrow> bool" where
  "is_node_tree_busy r node_id =
     (case get_tree_for_node r node_id of None \<Rightarrow> False | Some t \<Rightarrow> mt_is_processing t)"

definition repo_queue_size :: "tree_repository \<Rightarrow> pystr \<Rightarrow> nat" where
  "repo_queue_size r node_id =
     (case get_tree_for_node r node_id of None \<Rightarrow> 0 | Some t \<Rightarrow> tree_queue_size t)"

definition resolve_parent_node_id :: "tree_repository \<Rightarrow> pystr \<Rightarrow> pystr option" where
  "resolve_parent_node_id r msg_id =
     (case get_tree_for_node r msg_id of
        None \<Rightarrow> None
      | Some t \<Rightarrow>
          if has_node t msg_id then Some msg_id
          else map_option mn_node_id (find_node_by_status_message t msg_id))"

text \<open>The loop of \<open>get_pending_children\<close>, the top of the stack first. Pending children are collected
  and visited in turn.\<close>

definition is_pending :: "message_tree \<Rightarrow> pystr \<Rightarrow> bool" where
  "is_pending t c \<longleftrightarrow> (case get_node t c of None \<Rightarrow> False | Some n \<Rightarrow> mn_state n = PENDING)"

partial_function (option) pending_loop :: "message_tree \<Rightarrow> pystr list \<Rightarrow> pystr list \<Rightarrow> pystr list option"
  where
  "pending_loop t stack pending =
     (case stack of
        [] \<Rightarrow> Some pending
      | current # rest \<Rightarrow>
          (case get_node t current of
             None \<Rightarrow> pending_loop t rest pending
           | Some n \<Rightarrow>
               pending_loop t (rev (filter (is_pending t) (mn_children_ids n)) @ rest)
                 (pending @ filter (is_pending t) (mn_children_ids n))))"

definition get_pending_children :: "tree_repository \<Rightarrow> pystr \<Rightarrow> pystr list option" where
  "get_pending_children r node_id =
     (case get_tree_for_node r node_id of
        None \<Rightarrow> Some []
      | Some t \<Rightarrow> pending_loop t [node_id] [])"

definition all_trees :: "tree_repository \<Rightarrow> message_tree list" where
  "all_trees r = dvalues (tr_trees r)"

definition tree_ids :: "tree_repository \<Rightarrow> pystr list" where
  "tree_ids r = dkeys (tr_trees r)"

definition unregister_nodes :: "pystr list \<Rightarrow> tree_repository \<Rightarrow> tree_repository" where
  "unregister_nodes node_ids r = r\<lparr>tr_node_to_tree := fold ddel node_ids (tr_node_to_tree r)\<rparr>"

definition remove_tree :: "pystr \<Rightarrow> tree_repository \<Rightarrow> message_tree option \<times> tree_repository" where
  "remove_tree root_id r =
     (case dget (tr_trees r) root_id of
        None \<Rightarrow> (None, r)
      | Some t \<Rightarrow>
          (Some t, r\<lparr>tr_trees := ddel root_id (tr_trees r),
                     tr_node_to_tree := fold ddel (map mn_node_id (all_nodes t)) (tr_node_to_tree r)\<rparr>))"

definition get_message_ids_for_chat :: "tree_repository \<Rightarrow> pystr \<Rightarrow> pystr \<Rightarrow> pystr set" where
  "get_message_ids_for_chat r platform chat_id =
     (\<Union>t \<in> set (all_trees r). \<Union>n \<in> set (all_nodes t).
        if im_platform (mn_incoming n) = platform \<and> im_chat_id (mn_incoming n) = chat_id
        then insert (im_message_id (mn_incoming n))
               (if mn_status_message_id n = [] then {} else {mn_status_message_id n})
        else {})"

definition repo_to_dict :: "iso \<Rightarrow> tree_repository \<Rightarrow> pyval" where
  "repo_to_dict isoformat r = PDict
     [(lit ''trees'', PDict (map (\<lambda>(k, t). (k, tree_to_dict isoformat t)) (tr_trees r))),
      (lit ''node_to_tree'', PDict (map (\<lambda>(k, v). (k, PStr v)) (tr_node_to_tree r)))]"

definition dict_field :: "string \<Rightarrow> pyval \<Rightarrow> (pystr, pyval) dict result" where
  "dict_field key data =
     (case data of
        PDict d \<Rightarrow> (case dget d (lit key) of None \<Rightarrow> Inr [] | Some v \<Rightarrow> as_dict v)
      | _ \<Rightarrow> Inl AttributeError)"

definition load_tree ::
    "from_iso \<Rightarrow> time \<Rightarrow> pystr \<times> pyval \<Rightarrow> (pystr, message_tree) dict result \<Rightarrow> (pystr, message_tree) dict result"
  where
  "load_tree fromisoformat now item acc =
     rbind acc (\<lambda>trees. rbind (tree_from_dict fromisoformat now (snd item)) (\<lambda>t.
       Inr (dset (fst item) t trees)))"

definition repo_from_dict :: "from_iso \<Rightarrow> time \<Rightarrow> pyval \<Rightarrow> tree_repository result" where
  "repo_from_dict fromisoformat now data =
     rbind (dict_field ''trees'' data) (\<lambda>trees_data.
     rbind (fold (load_tree fromisoformat now) trees_data (Inr [])) (\<lambda>trees.
     rbind (dict_field ''node_to_tree'' data) (\<lambda>index.
     rbind (rmap_list (\<lambda>(k, v). rbind (as_str v) (\<lambda>s. Inr (k, s))) index) (\<lambda>node_to_tree.
       Inr \<lparr>tr_trees = trees, tr_node_to_tree = node_to_tree\<rparr>))))"

section \<open>Consistency\<close>

text \<open>Every tree is consistent and stored under its root, and the nodes of a tree are indexed to it.
  The index may still hold status messages of trees that are gone.\<close>

definition repo_wf :: "tree_repository \<Rightarrow> bool" where
  "repo_wf r \<longleftrightarrow> dict_ok (tr_trees r) \<and> dict_ok (tr_node_to_tree r)
     \<and> (\<forall>k t. dget (tr_trees r) k = Some t \<longrightarrow> tree_wf t \<and> mt_root_id t = k
          \<and> (\<forall>n. has_node t n \<longrightarrow> dget (tr_node_to_tree r) n = Some k))"

lemma repo_wf_init: "repo_wf repo_init"
  by (simp add: repo_wf_def repo_init_def)

lemma repo_wf_tree:
  assumes "repo_wf r" "dget (tr_trees r) k = Some t"
  shows "tree_wf t" "mt_root_id t = k" "has_node t n \<Longrightarrow> dget (tr_node_to_tree r) n = Some k"
  using assms unfolding repo_wf_def by blast+

lemma root_not_empty: "tree_wf t \<Longrightarrow> mt_root_id t \<noteq> []"
proof -
  assume wf: "tree_wf t"
  from tree_wfD(5) [OF wf] obtain rest where "dkeys (mt_nodes t) = mt_root_id t # rest" ..
  then have "mt_root_id t \<in> set (dkeys (mt_nodes t))" by simp
  from in_keys_dget [OF this] links_okD(1) [OF tree_wfD(2) [OF wf]] show ?thesis by blast
qed

text \<open>Where an identifier that is indexed to a stored tree leads.\<close>

lemma get_tree_for_node_indexed:
  assumes "repo_wf r" "dget (tr_trees r) k = Some t" "dget (tr_node_to_tree r) n = Some k"
  shows "get_tree_for_node r n = Some t"
  using assms repo_wf_tree(1,2) [OF assms(1,2)] root_not_empty [of t] by (auto simp: get_tree_for_node_def)

lemma get_tree_for_node_has:
  assumes "repo_wf r" "dget (tr_trees r) k = Some t" "has_node t n"
  shows "get_tree_for_node r n = Some t"
  using get_tree_for_node_indexed [OF assms(1,2) repo_wf_tree(3) [OF assms]] .

lemma get_tree_for_node_Some:
  assumes "get_tree_for_node r n = Some t"
  obtains k where "dget (tr_node_to_tree r) n = Some k" "dget (tr_trees r) k = Some t"
  using assms by (auto simp: get_tree_for_node_def split: option.splits if_splits)

section \<open>Pending descendants\<close>

definition pending_edges :: "message_tree \<Rightarrow> (pystr \<times> pystr) set" where
  "pending_edges t = {(p, c) \<in> child_edges (mt_nodes t). is_pending t c}"

definition pending_below :: "message_tree \<Rightarrow> pystr \<Rightarrow> pystr set" where
  "pending_below t k = {d. (k, d) \<in> (pending_edges t)\<^sup>+}"

lemma pending_below_subtree: "pending_below t k \<subseteq> subtree (mt_nodes t) k"
  unfolding pending_below_def subtree_def pending_edges_def
  by (auto dest!: trancl_into_rtrancl intro: rtrancl_mono [THEN subsetD, rotated])

lemma pending_below_not_self:
  assumes "ranked (mt_nodes t)"
  shows "k \<notin> pending_below t k"
proof
  assume "k \<in> pending_below t k"
  then have "(k, k) \<in> (pending_edges t)\<^sup>+" by (simp add: pending_below_def)
  then obtain c where c: "(k, c) \<in> pending_edges t" "(c, k) \<in> (pending_edges t)\<^sup>*"
    by (meson tranclD)
  then have "(k, c) \<in> child_edges (mt_nodes t)" "(c, k) \<in> (child_edges (mt_nodes t))\<^sup>*"
    using rtrancl_mono [of "pending_edges t" "child_edges (mt_nodes t)"] by (auto simp: pending_edges_def)
  with ranked_no_return [OF assms] show False by blast
qed

lemma pending_below_step:
  assumes "get_node t k = Some n"
  shows "pending_below t k = (\<Union>c \<in> set (filter (is_pending t) (mn_children_ids n)). insert c (pending_below t c))"
proof -
  have "(k, c) \<in> pending_edges t \<longleftrightarrow> c \<in> set (filter (is_pending t) (mn_children_ids n))" for c
    using assms by (auto simp: pending_edges_def child_edges_def get_node_def)
  moreover have "(k, d) \<in> (pending_edges t)\<^sup>+ \<longleftrightarrow>
      (\<exists>c. (k, c) \<in> pending_edges t \<and> (d = c \<or> (c, d) \<in> (pending_edges t)\<^sup>+))" for d
    by (metis rtranclD tranclD trancl.r_into_trancl trancl_into_trancl2)
  ultimately show ?thesis unfolding pending_below_def by auto
qed

definition pends :: "message_tree \<Rightarrow> pystr list \<Rightarrow> pystr list \<Rightarrow> bool" where
  "pends t stack ds \<longleftrightarrow>
     (\<forall>rest acc. pending_loop t (stack @ rest) acc = pending_loop t rest (acc @ ds))
     \<and> set ds = (\<Union>k \<in> set stack. pending_below t k) \<and> distinct ds"

lemma pending_loop_Nil [simp]: "pending_loop t [] acc = Some acc"
  by (subst pending_loop.simps) simp

lemma pends_list:
  assumes "\<And>c. c \<in> set cs \<Longrightarrow> \<exists>ds. pends t [c] ds" "distinct cs"
    and "\<And>a b. a \<in> set cs \<Longrightarrow> b \<in> set cs \<Longrightarrow> a \<noteq> b \<Longrightarrow> pending_below t a \<inter> pending_below t b = {}"
  shows "\<exists>ds. pends t cs ds"
  using assms
proof (induction cs)
  case Nil
  show ?case by (intro exI [of _ "[]"]) (simp add: pends_def)
next
  case (Cons c cs)
  from Cons.prems(1) [of c] obtain ds1 where 1: "pends t [c] ds1" by auto
  from Cons.IH Cons.prems obtain ds2 where 2: "pends t cs ds2" by auto
  have "set ds1 \<inter> set ds2 = {}"
    using 1 2 Cons.prems(2,3) by (fastforce simp: pends_def)
  then have "pends t (c # cs) (ds1 @ ds2)"
    using 1 2 by (auto simp: pends_def)
  then show ?case by blast
qed

lemma pends_node:
  assumes wf: "tree_wf t" and "has_node t k"
  shows "\<exists>ds. pends t [k] ds"
proof -
  note L = tree_wfD(2) [OF wf] and R = tree_wfD(3) [OF wf]
  obtain rank where rank: "\<And>p c. (p, c) \<in> child_edges (mt_nodes t) \<Longrightarrow> rank p < (rank c :: nat)"
    using R by (auto simp: ranked_def)
  define top where "top = Suc (Max (rank ` set (dkeys (mt_nodes t))))"
  have below: "rank x < top" if "x \<in> set (dkeys (mt_nodes t))" for x
    using that by (simp add: top_def le_imp_less_Suc)
  from assms(2) have "k \<in> set (dkeys (mt_nodes t))" by (simp add: has_node_def din_iff)
  then show ?thesis
  proof (induction "top - rank k" arbitrary: k rule: less_induct)
    case less
    from in_keys_dget [OF less.prems] obtain n where n: "dget (mt_nodes t) k = Some n" by blast
    let ?cs = "filter (is_pending t) (mn_children_ids n)"
    have edge: "(k, c) \<in> child_edges (mt_nodes t)" if "c \<in> set ?cs" for c
      using that n by (auto simp: child_edges_def)
    have "\<exists>ds. pends t [c] ds" if "c \<in> set (rev ?cs)" for c
    proof -
      from that have e: "(k, c) \<in> child_edges (mt_nodes t)" using edge by simp
      with edge_parent [OF L] have known: "c \<in> set (dkeys (mt_nodes t))" by (blast dest: dget_in_keys)
      with rank [OF e] below [OF known] show ?thesis by (intro less.hyps) simp_all
    qed
    moreover have d: "distinct (rev ?cs)" using links_okD(3) [OF L n] by simp
    moreover have apart: "subtree (mt_nodes t) a \<inter> subtree (mt_nodes t) b = {}"
      if "a \<in> set ?cs" "b \<in> set ?cs" "a \<noteq> b" for a b
      using siblings_apart [OF L R n, of a b] that by simp
    then have "pending_below t a \<inter> pending_below t b = {}"
      if "a \<in> set (rev ?cs)" "b \<in> set (rev ?cs)" "a \<noteq> b" for a b
      using pending_below_subtree [of t a] pending_below_subtree [of t b] that by fastforce
    ultimately obtain ds where ds: "pends t (rev ?cs) ds"
      using pends_list [of "rev ?cs" t] by blast
    have "c \<notin> set ds" if "c \<in> set ?cs" for c
    proof
      assume "c \<in> set ds"
      with ds obtain b where b: "b \<in> set ?cs" "c \<in> pending_below t b" by (auto simp: pends_def)
      show False
      proof (cases "b = c")
        case True
        with b pending_below_not_self [OF R] show ?thesis by blast
      next
        case False
        with apart [OF b(1) that] pending_below_subtree [of t b] b(2) subtree_self [of c "mt_nodes t"]
        show ?thesis by blast
      qed
    qed
    then have "distinct (?cs @ ds)" using ds d by (auto simp: pends_def)
    moreover have "pending_loop t ([k] @ rest) acc = pending_loop t rest (acc @ ?cs @ ds)" for rest acc
      using ds n by (subst pending_loop.simps) (simp add: pends_def get_node_def)
    moreover have "set (?cs @ ds) = pending_below t k"
      using ds pending_below_step [of t k n] n by (auto simp: pends_def get_node_def)
    ultimately have "pends t [k] (?cs @ ds)" by (simp add: pends_def)
    then show ?case by blast
  qed
qed

lemma pending_loop_complete:
  assumes "tree_wf t" "has_node t k"
  shows "\<exists>ds. pending_loop t [k] [] = Some ds \<and> set ds = pending_below t k \<and> distinct ds"
proof -
  from pends_node [OF assms] obtain ds where "pends t [k] ds" ..
  then have "pending_loop t ([k] @ []) [] = pending_loop t [] ([] @ ds)" "set ds = pending_below t k" "distinct ds"
    unfolding pends_def by (blast, simp_all)
  then show ?thesis by simp
qed

end
