(* ===== verification/TreeQueue.thy ===== *)
theory TreeQueue
  imports MessageTreeFacts
begin

text \<open>
  \<open>messaging/trees/processor.py\<close> and the cancellations of \<open>messaging/trees/queue_manager.py\<close> for one
  tree: which node is processed by which task, and when the next one starts.

  A task runs \<open>process_node\<close>. It is created but has not run yet, is suspended inside the processor
  callback, or has finished. No section that holds the lock of the tree awaits anything that suspends,
  so the lock is free whenever a task runs, and each section is one atomic step. The callbacks that only
  notify the platform are not part of the model.
\<close>

section \<open>Tasks\<close>

datatype task_phase = Created | Running | Finished

record node_task =
  nt_node :: pystr
  nt_phase :: task_phase
  nt_cancelled :: bool \<comment> \<open>\<open>cancel\<close> was called before it finished\<close>

text \<open>A tree with all tasks created for it; a task is known by its position.\<close>

record tree_world =
  tw_tree :: message_tree
  tw_tasks :: "node_task list"

definition task_done :: "tree_world \<Rightarrow> nat \<Rightarrow> bool" where
  "task_done w i \<longleftrightarrow> length (tw_tasks w) \<le> i \<or> nt_phase (tw_tasks w ! i) = Finished"

definition set_phase :: "nat \<Rightarrow> task_phase \<Rightarrow> tree_world \<Rightarrow> tree_world" where
  "set_phase i p w = w\<lparr>tw_tasks := (tw_tasks w)[i := (tw_tasks w ! i)\<lparr>nt_phase := p\<rparr>]\<rparr>"

definition on_tree :: "(message_tree \<Rightarrow> message_tree) \<Rightarrow> tree_world \<Rightarrow> tree_world" where
  "on_tree f w = w\<lparr>tw_tree := f (tw_tree w)\<rparr>"

text \<open>\<open>tree.set_current_task(asyncio.create_task(...))\<close>, if the node is in the tree.\<close>

definition start_task :: "pystr \<Rightarrow> tree_world \<Rightarrow> tree_world" where
  "start_task k w =
     (if has_node (tw_tree w) k
      then w\<lparr>tw_tree := set_current_task (Some (length (tw_tasks w))) (tw_tree w),
             tw_tasks := tw_tasks w @ [\<lparr>nt_node = k, nt_phase = Created, nt_cancelled = False\<rparr>]\<rparr>
      else w)"

section \<open>The processor\<close>

text \<open>\<open>_process_next\<close>, with the node it takes from the queue.\<close>

definition process_next :: "tree_world \<Rightarrow> tree_world \<times> pystr option" where
  "process_next w =
     (let (item, t) = tree_dequeue (tw_tree w)
      in if given item
         then (start_task (the item) (w\<lparr>tw_tree := set_processing_state item True t\<rparr>), item)
         else (w\<lparr>tw_tree := set_processing_state None False t\<rparr>, None))"

text \<open>\<open>enqueue_and_start\<close>: \<open>True\<close> if queued, \<open>False\<close> if processing starts.\<close>

definition enqueue_and_start :: "pystr \<Rightarrow> tree_world \<Rightarrow> tree_world \<times> bool" where
  "enqueue_and_start k w =
     (if mt_is_processing (tw_tree w) then (on_tree (put_queue_unlocked k) w, True)
      else (start_task k (on_tree (set_processing_state (Some k) True) w), False))"

text \<open>
  The first step of a task. A task cancelled before it ever ran ends without executing anything of
  \<open>process_node\<close>. A node in state \<open>ERROR\<close> is skipped. \<open>gone\<close> is the state of a node object that is no
  longer in the tree.
\<close>

definition node_state :: "message_state \<Rightarrow> message_tree \<Rightarrow> pystr \<Rightarrow> message_state" where
  "node_state gone t k = (case get_node t k of None \<Rightarrow> gone | Some n \<Rightarrow> mn_state n)"

definition process_begin :: "message_state \<Rightarrow> nat \<Rightarrow> tree_world \<Rightarrow> tree_world \<times> pystr option" where
  "process_begin gone i w =
     (if nt_cancelled (tw_tasks w ! i) then (set_phase i Finished w, None)
      else if node_state gone (tw_tree w) (nt_node (tw_tasks w ! i)) = ERROR
      then (let (w', item) = process_next w in (set_phase i Finished w', item))
      else (set_phase i Running w, None))"

text \<open>The processor callback ends: normally or by cancellation (\<open>None\<close>), or with an exception whose
  message for the user is given. The \<open>finally\<close> block then looks for the next node.\<close>

definition process_finish :: "pystr option \<Rightarrow> time \<Rightarrow> nat \<Rightarrow> tree_world \<Rightarrow> tree_world \<times> pystr option" where
  "process_finish failure now i w =
     (let w1 = (case failure of
                  None \<Rightarrow> w
                | Some msg \<Rightarrow> on_tree (update_state (nt_node (tw_tasks w ! i)) ERROR None (Some msg) now) w);
          (w2, item) = process_next (on_tree clear_current_node w1)
      in (set_phase i Finished w2, item))"

definition cancel_current :: "tree_world \<Rightarrow> tree_world \<times> bool" where
  "cancel_current w =
     (case cancel_current_task (task_done w) (tw_tree w) of
        None \<Rightarrow> (w, False)
      | Some i \<Rightarrow> (w\<lparr>tw_tasks := (tw_tasks w)[i := (tw_tasks w ! i)\<lparr>nt_cancelled := True\<rparr>]\<rparr>, True))"

section \<open>Cancellation\<close>

definition user_cancel :: pystr where
  "user_cancel = lit ''Cancelled by user''"

definition node_terminal :: "message_tree \<Rightarrow> pystr \<Rightarrow> bool" where
  "node_terminal t k = (case get_node t k of None \<Rightarrow> False | Some n \<Rightarrow> terminal n)"

text \<open>\<open>cancel_node\<close> of the manager; the result lists the cancelled nodes.\<close>

definition cancel_node :: "pystr \<Rightarrow> time \<Rightarrow> tree_world \<Rightarrow> tree_world \<times> pystr list" where
  "cancel_node k now w =
     (if \<not> has_node (tw_tree w) k \<or> node_terminal (tw_tree w) k then (w, [])
      else
        let w1 = (if is_current_node k (tw_tree w) then fst (cancel_current w) else w)
        in (on_tree (\<lambda>t. set_node_error_sync k user_cancel now (fst (remove_from_queue k t))) w1, [k]))"

text \<open>\<open>cancel_branch\<close>, over the nodes of the branch.\<close>

fun cancel_each :: "pystr list \<Rightarrow> time \<Rightarrow> tree_world \<Rightarrow> tree_world \<times> pystr list" where
  "cancel_each [] now w = (w, [])"
| "cancel_each (k # ks) now w =
     (if \<not> has_node (tw_tree w) k \<or> node_terminal (tw_tree w) k then cancel_each ks now w
      else
        let w1 = (if is_current_node k (tw_tree w) then fst (cancel_current w)
                  else on_tree (\<lambda>t. fst (remove_from_queue k t)) w);
            (w2, cancelled) = cancel_each ks now (on_tree (set_node_error_sync k user_cancel now) w1)
        in (w2, k # cancelled))"

definition cancel_branch :: "pystr \<Rightarrow> time \<Rightarrow> tree_world \<Rightarrow> (tree_world \<times> pystr list) option" where
  "cancel_branch k now w = map_option (\<lambda>ids. cancel_each ids now w) (get_descendants (tw_tree w) k)"

text \<open>\<open>cancel_tree\<close>: the running task, the queue, and whatever else is not in a final state.\<close>

definition stale :: "pystr list \<Rightarrow> message_tree \<Rightarrow> pystr list" where
  "stale cancelled t =
     map fst (filter (\<lambda>(k, n). (mn_state n = PENDING \<or> mn_state n = IN_PROGRESS) \<and> k \<notin> set cancelled)
       (mt_nodes t))"

definition cancel_tree :: "time \<Rightarrow> tree_world \<Rightarrow> tree_world \<times> pystr list" where
  "cancel_tree now w =
     (let (w1, running) = cancel_current w;
          current = (case mt_current_node_id (tw_tree w1) of
                       None \<Rightarrow> []
                     | Some k \<Rightarrow> if running \<and> k \<noteq> [] \<and> has_node (tw_tree w1) k \<and> \<not> node_terminal (tw_tree w1) k
                                 then [k] else []);
          t1 = fold (\<lambda>k. set_node_error_sync k user_cancel now) current (tw_tree w1);
          (t2, queued) = drain_queue_and_mark_cancelled user_cancel now t1;
          t3 = fold (\<lambda>k. set_node_error_sync k (lit ''Stale task cleaned up'') now) (stale (current @ queued) t2) t2
      in (w1\<lparr>tw_tree := reset_processing_state t3\<rparr>, current @ queued))"

section \<open>Runs\<close>

text \<open>What a step tells the outside: a node was handed in, a node is being started.\<close>

datatype queue_event = Queued pystr | Started pystr

fun started :: "pystr option \<Rightarrow> queue_event list" where
  "started None = []"
| "started (Some k) = [Started k]"

text \<open>The steps of a tree: clients hand in nodes, tasks begin and end, callbacks and other clients
  update states, and single nodes or branches are cancelled. \<open>calm\<close> excludes the cancellations.\<close>

inductive queue_step :: "bool \<Rightarrow> tree_world \<Rightarrow> queue_event list \<Rightarrow> tree_world \<Rightarrow> bool" for calm :: bool where
  enqueue: "has_node (tw_tree w) k \<Longrightarrow> k \<noteq> [] \<Longrightarrow> enqueue_and_start k w = (w', queued) \<Longrightarrow>
     queue_step calm w (Queued k # (if queued then [] else [Started k])) w'"
| begins: "i < length (tw_tasks w) \<Longrightarrow> nt_phase (tw_tasks w ! i) = Created \<Longrightarrow>
     process_begin gone i w = (w', item) \<Longrightarrow> queue_step calm w (started item) w'"
| finishes: "i < length (tw_tasks w) \<Longrightarrow> nt_phase (tw_tasks w ! i) = Running \<Longrightarrow>
     process_finish failure now i w = (w', item) \<Longrightarrow> queue_step calm w (started item) w'"
| state: "queue_step calm w [] (on_tree (update_state k st session msg now) w)"
| add: "add_node k incoming status p now (tw_tree w) = Inr t \<Longrightarrow> \<not> has_node (tw_tree w) k \<Longrightarrow>
     queue_step calm w [] (w\<lparr>tw_tree := t\<rparr>)"
| cancel: "\<not> calm \<Longrightarrow> queue_step calm w [] (fst (cancel_node k now w))"
| branch: "\<not> calm \<Longrightarrow> cancel_branch k now w = Some (w', ks) \<Longrightarrow> queue_step calm w [] w'"

inductive queue_run :: "bool \<Rightarrow> tree_world \<Rightarrow> queue_event list \<Rightarrow> tree_world \<Rightarrow> bool" for calm :: bool where
  stop: "queue_run calm w [] w"
| more: "queue_run calm w es w' \<Longrightarrow> queue_step calm w' fs w'' \<Longrightarrow> queue_run calm w (es @ fs) w''"

definition queued_nodes :: "queue_event list \<Rightarrow> pystr list" where
  "queued_nodes es = concat (map (\<lambda>e. case e of Queued k \<Rightarrow> [k] | Started _ \<Rightarrow> []) es)"

definition started_nodes :: "queue_event list \<Rightarrow> pystr list" where
  "started_nodes es = concat (map (\<lambda>e. case e of Queued _ \<Rightarrow> [] | Started k \<Rightarrow> [k]) es)"

lemma event_nodes_append [simp]:
  "queued_nodes (es @ fs) = queued_nodes es @ queued_nodes fs"
  "started_nodes (es @ fs) = started_nodes es @ started_nodes fs"
  by (simp_all add: queued_nodes_def started_nodes_def)

definition world_init :: "message_tree \<Rightarrow> tree_world" where
  "world_init t = \<lparr>tw_tree = t, tw_tasks = []\<rparr>"

section \<open>At most one live task\<close>

definition live :: "tree_world \<Rightarrow> nat set" where
  "live w = {i. \<not> task_done w i}"

text \<open>A live task is the current task of the tree, the tree is marked busy, and its current node is the
  node of that task.\<close>

definition exclusive :: "tree_world \<Rightarrow> bool" where
  "exclusive w \<longleftrightarrow> (\<forall>i \<in> live w. mt_current_task (tw_tree w) = Some i \<and> mt_is_processing (tw_tree w)
     \<and> mt_current_node_id (tw_tree w) = Some (nt_node (tw_tasks w ! i)))"

lemma live_set_phase:
  assumes "i < length (tw_tasks w)"
  shows "live (set_phase i Finished w) = live w - {i}"
    and "nt_phase (tw_tasks w ! i) \<noteq> Finished \<Longrightarrow> live (set_phase i Running w) = live w"
  using assms by (auto simp: live_def task_done_def set_phase_def nth_list_update split: if_splits)

lemma set_phase_frame [simp]:
  "tw_tree (set_phase i p w) = tw_tree w"
  "nt_node (tw_tasks (set_phase i p w) ! j) = nt_node (tw_tasks w ! j)"
  "nt_cancelled (tw_tasks (set_phase i p w) ! j) = nt_cancelled (tw_tasks w ! j)"
  "length (tw_tasks (set_phase i p w)) = length (tw_tasks w)"
  by (cases "i < length (tw_tasks w)"; cases "i = j"; simp add: set_phase_def not_less list_update_beyond)+

lemma live_start_task:
  "live (start_task k w) = (if has_node (tw_tree w) k then insert (length (tw_tasks w)) (live w) else live w)"
proof (rule set_eqI)
  fix j
  show "j \<in> live (start_task k w)
      \<longleftrightarrow> j \<in> (if has_node (tw_tree w) k then insert (length (tw_tasks w)) (live w) else live w)"
    by (cases "j < length (tw_tasks w)"; cases "j = length (tw_tasks w)")
      (simp_all add: live_def task_done_def start_task_def nth_append)
qed

lemma live_less: "i \<in> live w \<Longrightarrow> i < length (tw_tasks w)"
  by (simp add: live_def task_done_def)

lemma live_tasks_only [simp]: "live (w\<lparr>tw_tree := t\<rparr>) = live w"
  by (simp add: live_def task_done_def)

lemma live_on_tree [simp]: "live (on_tree f w) = live w"
  by (simp add: on_tree_def)

text \<open>Updates of the tree that leave the processing state alone.\<close>

definition same_processing :: "message_tree \<Rightarrow> message_tree \<Rightarrow> bool" where
  "same_processing t t' \<longleftrightarrow> mt_current_task t' = mt_current_task t \<and> mt_is_processing t' = mt_is_processing t
     \<and> mt_current_node_id t' = mt_current_node_id t"

lemma same_processing_simps [simp]:
  "same_processing t (update_state k st session msg now t)"
  "same_processing t (set_node_error_sync k err now t)"
  "same_processing t (put_queue_unlocked k t)"
  "same_processing t (fst (remove_from_queue k t))"
  by (simp_all add: same_processing_def update_state_def set_node_error_sync_def put_queue_unlocked_def
      remove_from_queue_def Let_def case_prod_beta)

lemma same_processing_trans: "same_processing a b \<Longrightarrow> same_processing b c \<Longrightarrow> same_processing a c"
  by (simp add: same_processing_def)

lemma same_processing_add: "add_node k incoming status p now t = Inr t' \<Longrightarrow> same_processing t t'"
  by (auto simp: add_node_def Let_def same_processing_def split: if_splits)

lemma exclusive_tree: "same_processing (tw_tree w) t \<Longrightarrow> exclusive w \<Longrightarrow> exclusive (w\<lparr>tw_tree := t\<rparr>)"
  by (simp add: exclusive_def same_processing_def)

lemma exclusive_on_tree: "same_processing (tw_tree w) (f (tw_tree w)) \<Longrightarrow> exclusive w \<Longrightarrow> exclusive (on_tree f w)"
  by (simp add: on_tree_def exclusive_tree)

text \<open>Starting a task when none is live, or in place of the live one.\<close>

lemma live_start_other:
  assumes "live w \<subseteq> {i}" "i < length (tw_tasks w)" "mt_is_processing (tw_tree w)"
    "mt_current_node_id (tw_tree w) = Some k" "j \<in> live (start_task k w)" "j \<noteq> i"
  shows "mt_current_task (tw_tree (start_task k w)) = Some j" "mt_is_processing (tw_tree (start_task k w))"
    "mt_current_node_id (tw_tree (start_task k w)) = Some (nt_node (tw_tasks (start_task k w) ! j))"
  using assms unfolding live_start_task
  by (auto simp: start_task_def set_current_task_def split: if_splits)

lemma exclusive_start_none:
  assumes "live w = {}" "mt_is_processing (tw_tree w)" "mt_current_node_id (tw_tree w) = Some k"
  shows "exclusive (start_task k w)"
  using assms unfolding exclusive_def live_start_task
  by (auto simp: start_task_def set_current_task_def)

lemma process_next_exclusive:
  assumes "live w \<subseteq> {i}" "i < length (tw_tasks w)" "process_next w = (w', item)"
  shows "exclusive (set_phase i Finished w') \<and> length (tw_tasks w) \<le> length (tw_tasks w')"
proof -
  obtain x t where d: "tree_dequeue (tw_tree w) = (x, t)" by force
  show ?thesis
  proof (cases "given x")
    case True
    then obtain k where x: "x = Some k" by (auto simp: given_def split: option.splits)
    let ?w = "w\<lparr>tw_tree := set_processing_state x True t\<rparr>"
    have w': "w' = start_task k ?w" using assms(3) d True by (auto simp: process_next_def x)
    then have len: "length (tw_tasks w) \<le> length (tw_tasks w')" by (simp add: start_task_def)
    have w: "live ?w \<subseteq> {i}" "i < length (tw_tasks ?w)" "mt_is_processing (tw_tree ?w)"
      "mt_current_node_id (tw_tree ?w) = Some k"
      using assms(1,2) by (simp_all add: x set_processing_state_def)
    from live_start_other [OF w, folded w']
    have "\<forall>j \<in> live w' - {i}. mt_current_task (tw_tree w') = Some j \<and> mt_is_processing (tw_tree w')
        \<and> mt_current_node_id (tw_tree w') = Some (nt_node (tw_tasks w' ! j))" by blast
    with assms(2) len show ?thesis by (simp add: exclusive_def live_set_phase(1))
  next
    case False
    then have "w' = w\<lparr>tw_tree := set_processing_state None False t\<rparr>"
      using assms(3) d by (simp add: process_next_def)
    with assms(1,2) show ?thesis by (auto simp: exclusive_def live_set_phase(1))
  qed
qed

lemma exclusive_live: "exclusive w \<Longrightarrow> i \<in> live w \<Longrightarrow> live w \<subseteq> {i}"
  unfolding exclusive_def by (metis option.inject singletonI subsetI)

lemma live_phase: "i < length (tw_tasks w) \<Longrightarrow> nt_phase (tw_tasks w ! i) \<noteq> Finished \<Longrightarrow> i \<in> live w"
  by (simp add: live_def task_done_def)

lemma exclusive_cancel_current:
  assumes "exclusive w"
  shows "exclusive (fst (cancel_current w))" "tw_tree (fst (cancel_current w)) = tw_tree w"
    "live (fst (cancel_current w)) = live w"
proof -
  have "task_done (w\<lparr>tw_tasks := (tw_tasks w)[i := (tw_tasks w ! i)\<lparr>nt_cancelled := True\<rparr>]\<rparr>) j = task_done w j" for i j
    by (cases "i < length (tw_tasks w)"; cases "i = j") (simp_all add: task_done_def)
  moreover have "nt_node ((tw_tasks w)[i := (tw_tasks w ! i)\<lparr>nt_cancelled := True\<rparr>] ! j) = nt_node (tw_tasks w ! j)" for i j
    by (cases "i < length (tw_tasks w)"; cases "i = j") (simp_all add: not_less list_update_beyond)
  ultimately show "exclusive (fst (cancel_current w))" "tw_tree (fst (cancel_current w)) = tw_tree w"
    "live (fst (cancel_current w)) = live w"
    using assms by (auto simp: cancel_current_def exclusive_def live_def split: option.splits)
qed

lemma exclusive_cancel_node: "exclusive w \<Longrightarrow> exclusive (fst (cancel_node k now w))"
  by (auto simp: cancel_node_def Let_def exclusive_cancel_current
      intro!: exclusive_on_tree same_processing_trans [OF same_processing_simps(4) same_processing_simps(2)])

lemma exclusive_cancel_each: "exclusive w \<Longrightarrow> exclusive (fst (cancel_each ks now w))"
proof (induction ks now w rule: cancel_each.induct)
  case (2 k ks now w)
  let ?w1 = "if is_current_node k (tw_tree w) then fst (cancel_current w)
      else on_tree (\<lambda>t. fst (remove_from_queue k t)) w"
  have "exclusive (on_tree (set_node_error_sync k user_cancel now) ?w1)"
    using 2(3) by (auto simp: exclusive_cancel_current intro!: exclusive_on_tree)
  with 2 show ?case by (auto simp: Let_def case_prod_beta simp del: split_paired_All)
qed simp

lemma exclusive_step: "queue_step calm w es w' \<Longrightarrow> exclusive w \<Longrightarrow> exclusive w'"
proof (induction rule: queue_step.induct)
  case (enqueue w k w' queued)
  show ?case
  proof (cases "mt_is_processing (tw_tree w)")
    case True
    with enqueue show ?thesis by (auto simp: enqueue_and_start_def intro: exclusive_on_tree)
  next
    case False
    with enqueue.prems have none: "live w = {}" by (auto simp: exclusive_def)
    let ?w = "on_tree (set_processing_state (Some k) True) w"
    from False enqueue.hyps have "w' = start_task k ?w" by (simp add: enqueue_and_start_def)
    moreover have "exclusive (start_task k ?w)"
      by (rule exclusive_start_none) (simp_all add: none, simp_all add: on_tree_def set_processing_state_def)
    ultimately show ?thesis by simp
  qed
next
  case (begins i w gone w' item)
  note live = live_phase [OF begins.hyps(1)] and only = exclusive_live [OF begins.prems]
  have i: "i \<in> live w" using live begins.hyps(2) by simp
  show ?case
    using begins.hyps(3) process_next_exclusive [OF only [OF i] begins.hyps(1)] begins.prems begins.hyps(1,2)
    by (auto simp: process_begin_def Let_def exclusive_def live_set_phase split: if_splits prod.splits)
next
  case (finishes i w failure now w' item)
  have i: "i \<in> live w" using live_phase [OF finishes.hyps(1)] finishes.hyps(2) by simp
  let ?w1 = "case failure of None \<Rightarrow> w
    | Some msg \<Rightarrow> on_tree (update_state (nt_node (tw_tasks w ! i)) ERROR None (Some msg) now) w"
  obtain w2 x where n: "process_next (on_tree clear_current_node ?w1) = (w2, x)" by force
  have "live (on_tree clear_current_node ?w1) \<subseteq> {i}" "i < length (tw_tasks (on_tree clear_current_node ?w1))"
    using exclusive_live [OF finishes.prems i] finishes.hyps(1) by (auto simp: on_tree_def split: option.splits)
  from process_next_exclusive [OF this n] finishes.hyps(3) n show ?case
    by (auto simp: process_finish_def Let_def)
next
  case (state w k st session msg now)
  then show ?case by (auto intro: exclusive_on_tree)
next
  case (add k incoming status p now w t)
  then show ?case using same_processing_add exclusive_tree by blast
next
  case (cancel w k now)
  then show ?case by (simp add: exclusive_cancel_node)
next
  case (branch k now w w' ks)
  then obtain ids where "cancel_each ids now w = (w', ks)"
    by (auto simp: cancel_branch_def)
  then have "w' = fst (cancel_each ids now w)" by simp
  with branch.prems show ?case by (simp add: exclusive_cancel_each)
qed

section \<open>Order\<close>

definition waiting :: "tree_world \<Rightarrow> pystr list" where
  "waiting w = get_queue_snapshot (tw_tree w)"

lemma waiting_simps [simp]:
  "waiting (set_phase i p w) = waiting w"
  "waiting (start_task k w) = waiting w"
  "waiting (on_tree (update_state k st session msg now) w) = waiting w"
  "waiting (on_tree (set_node_error_sync k err now) w) = waiting w"
  "waiting (on_tree clear_current_node w) = waiting w"
  "waiting (on_tree (put_queue_unlocked k) w) = waiting w @ [k]"
  "waiting (on_tree (set_processing_state x b) w) = waiting w"
  "waiting (w\<lparr>tw_tree := set_processing_state x b t\<rparr>) = get_queue_snapshot t"
  "waiting (w\<lparr>tw_tasks := ts\<rparr>) = waiting w"
  by (auto simp: waiting_def start_task_def set_current_task_def on_tree_def update_state_def
      set_node_error_sync_def clear_current_node_def put_queue_unlocked_def set_processing_state_def
      get_queue_snapshot_def sq.contents_put)

lemma process_next_waiting:
  assumes "process_next w = (w', item)"
  shows "subseq (started_nodes (started item) @ waiting w') (waiting w)"
    and "[] \<notin> set (waiting w) \<Longrightarrow> waiting w = started_nodes (started item) @ waiting w'"
proof -
  have "subseq (started_nodes (started item) @ waiting w') (waiting w)
      \<and> ([] \<notin> set (waiting w) \<longrightarrow> waiting w = started_nodes (started item) @ waiting w')"
  proof (cases "mt_queue (tw_tree w)" rule: sq.get_cases)
    case nothing
    with assms show ?thesis
      by (auto simp: process_next_def tree_dequeue_def given_def waiting_def get_queue_snapshot_def
          set_processing_state_def started_nodes_def)
  next
    case (front x q')
    with assms show ?thesis
      by (cases "x = []") (auto simp: process_next_def tree_dequeue_def given_def waiting_def
        get_queue_snapshot_def set_processing_state_def started_nodes_def start_task_def set_current_task_def)
  qed
  then show "subseq (started_nodes (started item) @ waiting w') (waiting w)"
    and "[] \<notin> set (waiting w) \<Longrightarrow> waiting w = started_nodes (started item) @ waiting w'" by auto
qed

lemma remove_from_queue_waiting:
  "subseq (waiting (on_tree (\<lambda>t. fst (remove_from_queue k t)) w)) (waiting w)"
  by (auto simp: waiting_def on_tree_def remove_from_queue_def Let_def case_prod_beta get_queue_snapshot_def
      sq_remove_if_present_def sq_get_snapshot_def)

lemma cancel_current_waiting [simp]: "waiting (fst (cancel_current w)) = waiting w"
  by (auto simp: cancel_current_def split: option.splits)

lemma cancel_node_waiting: "subseq (waiting (fst (cancel_node k now w))) (waiting w)"
proof -
  have split: "on_tree (\<lambda>t. set_node_error_sync k user_cancel now (fst (remove_from_queue k t))) v
      = on_tree (set_node_error_sync k user_cancel now) (on_tree (\<lambda>t. fst (remove_from_queue k t)) v)" for v
    by (simp add: on_tree_def)
  show ?thesis
    using remove_from_queue_waiting [of k "fst (cancel_current w)"] remove_from_queue_waiting [of k w]
    by (auto simp: cancel_node_def Let_def split)
qed

lemma cancel_each_waiting: "subseq (waiting (fst (cancel_each ks now w))) (waiting w)"
proof (induction ks now w rule: cancel_each.induct)
  case (2 k ks now w)
  let ?w1 = "if is_current_node k (tw_tree w) then fst (cancel_current w)
      else on_tree (\<lambda>t. fst (remove_from_queue k t)) w"
  let ?w2 = "on_tree (set_node_error_sync k user_cancel now) ?w1"
  have "subseq (waiting ?w2) (waiting w)"
    using remove_from_queue_waiting [of k w] by simp
  moreover have "subseq (waiting (fst (cancel_each ks now ?w2))) (waiting ?w2)"
    if "has_node (tw_tree w) k" "\<not> node_terminal (tw_tree w) k"
    using 2(2) that by auto
  ultimately show ?case
    using 2(1) by (auto simp: Let_def case_prod_beta intro: subseq_order.trans)
qed simp

lemma events_simps [simp]:
  "queued_nodes (started item) = []" "started_nodes [] = []" "queued_nodes [] = []"
  "started_nodes (Queued k # es) = started_nodes es" "started_nodes (Started k # es) = k # started_nodes es"
  "queued_nodes (Queued k # es) = k # queued_nodes es" "queued_nodes (Started k # es) = queued_nodes es"
  by (cases item; simp add: queued_nodes_def started_nodes_def)+

text \<open>A tree that is not busy has an empty queue, and no queued identifier is empty.\<close>

definition idle_ok :: "tree_world \<Rightarrow> bool" where
  "idle_ok w \<longleftrightarrow> (\<not> mt_is_processing (tw_tree w) \<longrightarrow> waiting w = []) \<and> [] \<notin> set (waiting w)"

lemma idle_ok_waiting:
  assumes "idle_ok w" "mt_is_processing (tw_tree w') = mt_is_processing (tw_tree w)"
    "subseq (waiting w') (waiting w)"
  shows "idle_ok w'"
proof -
  have "set (waiting w') \<subseteq> set (waiting w)"
    using assms(3) by (metis subseq_order.trans subseq_singleton_left subsetI)
  with assms show ?thesis by (auto simp: idle_ok_def)
qed

text \<open>The end of a task: what it starts and what still waits is what was waiting.\<close>

lemma process_next_idle:
  assumes "process_next w = (w', item)" "[] \<notin> set (waiting w)"
  shows "idle_ok w'" "waiting w = started_nodes (started item) @ waiting w'"
proof -
  show w: "waiting w = started_nodes (started item) @ waiting w'"
    using process_next_waiting(2) assms by blast
  obtain x t where d: "tree_dequeue (tw_tree w) = (x, t)" by force
  show "idle_ok w'"
  proof (cases "given x")
    case True
    then have "mt_is_processing (tw_tree w')"
      using assms(1) d by (auto simp: process_next_def start_task_def set_current_task_def set_processing_state_def)
    with w assms(2) show ?thesis by (simp add: idle_ok_def)
  next
    case False
    then have item: "item = None" "w' = w\<lparr>tw_tree := set_processing_state None False t\<rparr>"
      using assms(1) d by (auto simp: process_next_def)
    have "waiting w = []"
    proof (cases "mt_queue (tw_tree w)" rule: sq.get_cases)
      case nothing
      then show ?thesis by (simp add: waiting_def get_queue_snapshot_def)
    next
      case (front y q')
      with d False assms(2) show ?thesis
        by (auto simp: tree_dequeue_def given_def waiting_def get_queue_snapshot_def)
    qed
    with w show ?thesis by (simp add: idle_ok_def item)
  qed
qed

definition calm_events :: "tree_world \<Rightarrow> queue_event list \<Rightarrow> tree_world \<Rightarrow> bool" where
  "calm_events w es w' \<longleftrightarrow> started_nodes es @ waiting w' = waiting w @ queued_nodes es"

lemma process_finish_next:
  assumes "process_finish failure now i w = (w', item)"
  obtains w1 w2 where "process_next w1 = (w2, item)" "w' = set_phase i Finished w2" "waiting w1 = waiting w"
    "tw_tasks w1 = tw_tasks w" "\<And>k. has_node (tw_tree w1) k = has_node (tw_tree w) k"
proof -
  let ?w1 = "case failure of None \<Rightarrow> w
    | Some msg \<Rightarrow> on_tree (update_state (nt_node (tw_tasks w ! i)) ERROR None (Some msg) now) w"
  obtain w2 where n: "process_next (on_tree clear_current_node ?w1) = (w2, item)" "w' = set_phase i Finished w2"
    using assms by (auto simp: process_finish_def Let_def split: prod.splits)
  have "tw_tasks (on_tree clear_current_node ?w1) = tw_tasks w"
    by (simp add: on_tree_def split: option.splits)
  moreover have "has_node (tw_tree (on_tree clear_current_node ?w1)) k = has_node (tw_tree w) k" for k
    by (auto simp: on_tree_def clear_current_node_def has_node_def din_def update_state_def update_node_get
        split: option.splits)
  moreover have "waiting (on_tree clear_current_node ?w1) = waiting w"
    by (cases failure) simp_all
  ultimately show ?thesis using that [OF n] by blast
qed

lemma enqueue_idle:
  assumes "enqueue_and_start k w = (w', queued)" "k \<noteq> []" "idle_ok w"
  shows "idle_ok w'" "calm_events w (Queued k # (if queued then [] else [Started k])) w'"
  using assms
  by (auto simp: enqueue_and_start_def idle_ok_def calm_events_def split: if_splits)
    (auto simp: on_tree_def put_queue_unlocked_def start_task_def set_current_task_def set_processing_state_def)

lemma begin_idle:
  assumes "process_begin gone i w = (w', item)" "idle_ok w"
  shows "idle_ok w'" "calm_events w (started item) w'"
proof -
  obtain w2 x where n: "process_next w = (w2, x)" by force
  from process_next_idle [OF n] assms show "idle_ok w'" "calm_events w (started item) w'"
    by (auto simp: process_begin_def n calm_events_def idle_ok_def split: if_splits)
qed

lemma finish_idle:
  assumes "process_finish failure now i w = (w', item)" "idle_ok w"
  shows "idle_ok w'" "calm_events w (started item) w'"
proof -
  from process_finish_next [OF assms(1)] obtain w1 w2 where
    w: "process_next w1 = (w2, item)" "w' = set_phase i Finished w2" "waiting w1 = waiting w" by metis
  from process_next_idle [OF w(1)] assms(2) w(2,3) show "idle_ok w'" "calm_events w (started item) w'"
    by (auto simp: calm_events_def idle_ok_def)
qed

lemma add_node_queue: "add_node k incoming status p now t = Inr t' \<Longrightarrow> mt_queue t' = mt_queue t"
  by (auto simp: add_node_def Let_def split: if_splits)

lemma cancel_current_tree [simp]: "tw_tree (fst (cancel_current w)) = tw_tree w"
  by (auto simp: cancel_current_def split: option.splits)

lemma cancel_node_processing: "mt_is_processing (tw_tree (fst (cancel_node k now w))) = mt_is_processing (tw_tree w)"
  using same_processing_trans [OF same_processing_simps(4) same_processing_simps(2)]
  by (auto simp: cancel_node_def Let_def on_tree_def same_processing_def)

lemma cancel_each_processing:
  "mt_is_processing (tw_tree (fst (cancel_each ks now w))) = mt_is_processing (tw_tree w)"
proof (induction ks now w rule: cancel_each.induct)
  case (2 k ks now w)
  let ?w1 = "if is_current_node k (tw_tree w) then fst (cancel_current w)
      else on_tree (\<lambda>t. fst (remove_from_queue k t)) w"
  have "mt_is_processing (tw_tree (on_tree (set_node_error_sync k user_cancel now) ?w1))
      = mt_is_processing (tw_tree w)"
    using same_processing_simps(2) [of "tw_tree ?w1" k user_cancel now] same_processing_simps(4) [of "tw_tree w" k]
    by (auto simp: on_tree_def same_processing_def)
  with 2 show ?case by (auto simp: Let_def case_prod_beta)
qed simp

lemma cancelled_idle:
  assumes "idle_ok w" "mt_is_processing (tw_tree w') = mt_is_processing (tw_tree w)" "subseq (waiting w') (waiting w)"
  shows "idle_ok w' \<and> subseq (started_nodes [] @ waiting w') (waiting w @ queued_nodes [])"
  using idle_ok_waiting [OF assms] assms(3) by simp

lemma queue_step_idle: "queue_step calm w es w' \<Longrightarrow> idle_ok w \<Longrightarrow>
    idle_ok w' \<and> subseq (started_nodes es @ waiting w') (waiting w @ queued_nodes es)
    \<and> (calm \<longrightarrow> calm_events w es w')"
proof (induction rule: queue_step.induct)
  case (enqueue w k w' queued)
  then show ?case using enqueue_idle unfolding calm_events_def by (metis subseq_order.order_refl)
next
  case (begins i w gone w' item)
  then show ?case using begin_idle unfolding calm_events_def by (metis subseq_order.order_refl)
next
  case (finishes i w failure now w' item)
  then show ?case using finish_idle unfolding calm_events_def by (metis subseq_order.order_refl)
next
  case (state w k st session msg now)
  have "mt_is_processing (tw_tree (on_tree (update_state k st session msg now) w)) = mt_is_processing (tw_tree w)"
    by (simp add: on_tree_def update_state_def)
  with state show ?case by (simp add: calm_events_def idle_ok_def)
next
  case (add k incoming status p now w t)
  then show ?case
    using add_node_queue [OF add.hyps(1)] same_processing_add [OF add.hyps(1)]
    by (simp add: calm_events_def idle_ok_def waiting_def get_queue_snapshot_def same_processing_def)
next
  case (cancel w k now)
  from cancelled_idle [OF cancel.prems cancel_node_processing cancel_node_waiting] cancel.hyps show ?case by simp
next
  case (branch k now w w' ks)
  then obtain ids where "cancel_each ids now w = (w', ks)"
    by (auto simp: cancel_branch_def)
  then have "w' = fst (cancel_each ids now w)" by simp
  with cancelled_idle [OF branch.prems cancel_each_processing cancel_each_waiting] branch.hyps show ?case by simp
qed

section \<open>Progress\<close>

text \<open>Without cancellations: a busy tree has a live task, no task is cancelled, and the queued nodes are
  in the tree.\<close>

definition calm_ok :: "tree_world \<Rightarrow> bool" where
  "calm_ok w \<longleftrightarrow> idle_ok w \<and> exclusive w \<and> (mt_is_processing (tw_tree w) \<longrightarrow> live w \<noteq> {})
     \<and> (\<forall>k \<in> set (waiting w). has_node (tw_tree w) k) \<and> (\<forall>task \<in> set (tw_tasks w). \<not> nt_cancelled task)"

lemma set_phase_cancelled:
  "i < length (tw_tasks w) \<Longrightarrow> \<forall>task \<in> set (tw_tasks w). \<not> nt_cancelled task \<Longrightarrow>
     \<forall>task \<in> set (tw_tasks (set_phase i p w)). \<not> nt_cancelled task"
  by (auto simp: set_phase_def dest!: set_update_subset_insert [THEN subsetD])

lemma start_task_cancelled:
  "\<forall>task \<in> set (tw_tasks w). \<not> nt_cancelled task \<Longrightarrow> \<forall>task \<in> set (tw_tasks (start_task k w)). \<not> nt_cancelled task"
  by (auto simp: start_task_def)

lemma has_node_dequeue: "tree_dequeue t = (x, t') \<Longrightarrow> has_node t' k = has_node t k"
  by (auto simp: tree_dequeue_def has_node_def split: option.splits prod.splits)

lemma has_node_frame [simp]:
  "has_node (set_processing_state x b t) k = has_node t k"
  "has_node (set_current_task i t) k = has_node t k"
  "has_node (put_queue_unlocked k' t) k = has_node t k"
  "has_node (update_state k' st session msg now t) k = has_node t k"
  by (auto simp: has_node_def din_def set_processing_state_def set_current_task_def put_queue_unlocked_def
      update_state_def update_node_get)

lemma start_task_has [simp]: "has_node (tw_tree (start_task k w)) k' = has_node (tw_tree w) k'"
  by (simp add: start_task_def)

lemma process_next_progress:
  assumes n: "process_next w = (w', item)" and "i < length (tw_tasks w)"
    and known: "\<forall>k \<in> set (waiting w). has_node (tw_tree w) k" "[] \<notin> set (waiting w)"
    and calm: "\<forall>task \<in> set (tw_tasks w). \<not> nt_cancelled task"
  shows "mt_is_processing (tw_tree w') \<longrightarrow> live (set_phase i Finished w') \<noteq> {}"
    and "\<forall>k \<in> set (waiting w'). has_node (tw_tree w') k"
    and "\<forall>task \<in> set (tw_tasks (set_phase i Finished w')). \<not> nt_cancelled task"
proof -
  obtain x t where d: "tree_dequeue (tw_tree w) = (x, t)" by force
  note same = has_node_dequeue [OF d]
  have "(mt_is_processing (tw_tree w') \<longrightarrow> live (set_phase i Finished w') \<noteq> {})
    \<and> (\<forall>k. has_node (tw_tree w') k = has_node (tw_tree w) k)
    \<and> (\<forall>task \<in> set (tw_tasks (set_phase i Finished w')). \<not> nt_cancelled task)"
  proof (cases "given x")
    case True
    then obtain k where x: "x = Some k" by (auto simp: given_def split: option.splits)
    let ?w = "w\<lparr>tw_tree := set_processing_state (Some k) True t\<rparr>"
    have w': "w' = start_task k ?w" and item: "item = Some k" using n d True by (auto simp: process_next_def x)
    from process_next_waiting(2) [OF n known(2)] item have "k \<in> set (waiting w)" by simp
    with known(1) same have k: "has_node (tw_tree ?w) k" by simp
    have len: "length (tw_tasks w') = Suc (length (tw_tasks w))" using k by (simp add: w' start_task_def)
    then have "live (set_phase i Finished w') = live w' - {i}"
      using assms(2) by (intro live_set_phase(1)) simp
    moreover have "length (tw_tasks w) \<in> live w'" using k by (simp add: w' live_start_task)
    ultimately have "live (set_phase i Finished w') \<noteq> {}" using assms(2) by auto
    moreover have "\<forall>task \<in> set (tw_tasks (set_phase i Finished w')). \<not> nt_cancelled task"
      using assms(2) len calm start_task_cancelled [of ?w k] by (intro set_phase_cancelled) (simp_all add: w')
    ultimately show ?thesis using same by (simp add: w')
  next
    case False
    then have "w' = w\<lparr>tw_tree := set_processing_state None False t\<rparr>"
      using n d by (auto simp: process_next_def)
    then have "\<not> mt_is_processing (tw_tree w')" "has_node (tw_tree w') k = has_node (tw_tree w) k"
      "tw_tasks w' = tw_tasks w" for k
      using same by (simp_all, simp add: set_processing_state_def)
    with calm set_phase_cancelled [of i w' Finished] assms(2) show ?thesis by simp
  qed
  moreover have "set (waiting w') \<subseteq> set (waiting w)"
    using process_next_waiting(2) [OF n known(2)] by simp
  ultimately show "mt_is_processing (tw_tree w') \<longrightarrow> live (set_phase i Finished w') \<noteq> {}"
    "\<forall>k \<in> set (waiting w'). has_node (tw_tree w') k"
    "\<forall>task \<in> set (tw_tasks (set_phase i Finished w')). \<not> nt_cancelled task"
    using known(1) by blast+
qed

lemma calm_step: "queue_step calm w es w' \<Longrightarrow> calm \<Longrightarrow> calm_ok w \<Longrightarrow> calm_ok w'"
proof -
  assume step: "queue_step calm w es w'" and calm and ok: "calm_ok w"
  have "idle_ok w'" "exclusive w'"
    using queue_step_idle [OF step] exclusive_step [OF step] ok by (simp_all add: calm_ok_def)
  moreover have "(mt_is_processing (tw_tree w') \<longrightarrow> live w' \<noteq> {})
     \<and> (\<forall>k \<in> set (waiting w'). has_node (tw_tree w') k) \<and> (\<forall>task \<in> set (tw_tasks w'). \<not> nt_cancelled task)"
    using step ok \<open>calm\<close>
  proof (induction rule: queue_step.induct)
    case (enqueue w k w' queued)
    show ?case
    proof (cases "mt_is_processing (tw_tree w)")
      case True
      with enqueue have w': "w' = on_tree (put_queue_unlocked k) w" by (simp add: enqueue_and_start_def)
      with enqueue True show ?thesis
        by (auto simp: calm_ok_def) (simp_all add: on_tree_def)
    next
      case False
      let ?w = "on_tree (set_processing_state (Some k) True) w"
      from False enqueue have w': "w' = start_task k ?w" by (simp add: enqueue_and_start_def)
      have "has_node (tw_tree ?w) k" using enqueue by (simp add: on_tree_def)
      then have "live w' \<noteq> {}" by (simp add: w' live_start_task)
      moreover have "\<forall>task \<in> set (tw_tasks w'). \<not> nt_cancelled task"
        using enqueue.prems start_task_cancelled [of ?w k] by (simp add: w' calm_ok_def on_tree_def)
      moreover have "waiting w' = []" using False enqueue.prems by (simp add: w' calm_ok_def idle_ok_def)
      ultimately show ?thesis by simp
    qed
  next
    case (begins i w gone w' item)
    obtain w2 x where n: "process_next w = (w2, x)" by force
    have c: "\<not> nt_cancelled (tw_tasks w ! i)" using begins.prems(1) begins.hyps(1) by (simp add: calm_ok_def)
    have known: "\<forall>k \<in> set (waiting w). has_node (tw_tree w) k" "[] \<notin> set (waiting w)"
      "\<forall>task \<in> set (tw_tasks w). \<not> nt_cancelled task"
      using begins.prems by (simp_all add: calm_ok_def idle_ok_def)
    note next' = process_next_progress [OF n begins.hyps(1) known]
    have "w' = set_phase i Finished w2 \<or> w' = set_phase i Running w"
      using begins.hyps(3) c by (auto simp: process_begin_def n split: if_splits)
    then show ?case
    proof
      assume "w' = set_phase i Finished w2"
      with next' show ?thesis by simp
    next
      assume "w' = set_phase i Running w"
      with begins known live_set_phase(2) [OF begins.hyps(1)] set_phase_cancelled [OF begins.hyps(1) known(3)]
      show ?thesis by (simp add: calm_ok_def)
    qed
  next
    case (finishes i w failure now w' item)
    from process_finish_next [OF finishes.hyps(3)] obtain w1 w2 where
      w: "process_next w1 = (w2, item)" "w' = set_phase i Finished w2" "waiting w1 = waiting w"
        "tw_tasks w1 = tw_tasks w" "\<And>k. has_node (tw_tree w1) k = has_node (tw_tree w) k" by metis
    have "i < length (tw_tasks w1)" "\<forall>k \<in> set (waiting w1). has_node (tw_tree w1) k" "[] \<notin> set (waiting w1)"
      "\<forall>task \<in> set (tw_tasks w1). \<not> nt_cancelled task"
      using finishes.prems finishes.hyps(1) w(3-5) by (simp_all add: calm_ok_def idle_ok_def)
    from process_next_progress [OF w(1) this] w(2) show ?case by simp
  next
    case (state w k st session msg now)
    have "mt_is_processing (tw_tree (on_tree (update_state k st session msg now) w)) = mt_is_processing (tw_tree w)"
      "has_node (tw_tree (on_tree (update_state k st session msg now) w)) k' = has_node (tw_tree w) k'"
      "tw_tasks (on_tree (update_state k st session msg now) w) = tw_tasks w" for k'
      by (simp_all add: on_tree_def) (simp add: update_state_def)
    with state show ?case by (simp add: calm_ok_def)
  next
    case (add k incoming status p now w t)
    have "has_node t k' \<or> \<not> has_node (tw_tree w) k'" for k'
      using add.hyps(1) by (auto simp: add_node_def Let_def has_node_def din_def update_node_get dict_simps
          split: if_splits)
    with add add_node_queue [OF add.hyps(1)] same_processing_add [OF add.hyps(1)] show ?case
      by (auto simp: calm_ok_def waiting_def get_queue_snapshot_def same_processing_def)
  qed simp_all
  ultimately show "calm_ok w'" by (simp add: calm_ok_def)
qed

section \<open>Cancelling a tree\<close>

lemma add_node_has: "add_node k incoming status p now t = Inr t' \<Longrightarrow> has_node t' k"
  by (auto simp: add_node_def Let_def has_node_def din_def update_node_get dict_simps split: if_splits)

lemma stale_iff:
  assumes "dict_ok (mt_nodes t)"
  shows "k \<in> set (stale ks t) \<longleftrightarrow> k \<notin> set ks \<and> has_node t k \<and> \<not> node_terminal t k"
proof -
  have "mn_state n = PENDING \<or> mn_state n = IN_PROGRESS \<longleftrightarrow> \<not> terminal n" for n
    by (cases "mn_state n") (simp_all add: terminal_def)
  then show ?thesis
    using assms
    by (force simp: stale_def has_node_def din_def node_terminal_def get_node_def)
qed

lemma node_terminal_errors:
  "has_node t k \<Longrightarrow> node_terminal (fold (\<lambda>i. set_node_error_sync i msg now) ids t) k
     \<longleftrightarrow> k \<in> set ids \<or> node_terminal t k"
  by (auto simp: node_terminal_def get_node_def fold_set_error_get has_node_def din_def terminal_def error_node_def)

lemma has_node_errors [simp]:
  "has_node (fold (\<lambda>i. set_node_error_sync i msg now) ids t) k = has_node t k"
  by (simp add: has_node_def din_def fold_set_error_get)

lemma cancel_tree_result:
  assumes "tree_wf (tw_tree w)" "cancel_tree now w = (w', ks)"
  shows "waiting w' = [] \<and> \<not> mt_is_processing (tw_tree w')
     \<and> (\<forall>k. has_node (tw_tree w') k = has_node (tw_tree w) k)
     \<and> (\<forall>k. has_node (tw_tree w') k \<longrightarrow> node_terminal (tw_tree w') k)"
proof -
  obtain w1 running where c: "cancel_current w = (w1, running)" by force
  have t1: "tw_tree w1 = tw_tree w" using cancel_current_tree [of w] by (simp add: c)
  define current where "current = (case mt_current_node_id (tw_tree w1) of
       None \<Rightarrow> []
     | Some k \<Rightarrow> if running \<and> k \<noteq> [] \<and> has_node (tw_tree w1) k \<and> \<not> node_terminal (tw_tree w1) k then [k] else [])"
  define s1 where "s1 = fold (\<lambda>k. set_node_error_sync k user_cancel now) current (tw_tree w1)"
  obtain q where d: "drain_queue_and_mark_cancelled user_cancel now s1
      = (fold (\<lambda>i. set_node_error_sync i user_cancel now) (filter (has_node s1) (get_queue_snapshot s1)) (s1\<lparr>mt_queue := q\<rparr>),
         filter (has_node s1) (get_queue_snapshot s1))" "sq_get_snapshot q = []"
    by (rule drain_result [of user_cancel now s1])
  define queued where "queued = filter (has_node s1) (get_queue_snapshot s1)"
  define s2 where "s2 = fold (\<lambda>i. set_node_error_sync i user_cancel now) queued (s1\<lparr>mt_queue := q\<rparr>)"
  define s3 where "s3 = fold (\<lambda>k. set_node_error_sync k (lit ''Stale task cleaned up'') now) (stale (current @ queued) s2) s2"
  have w': "tw_tree w' = reset_processing_state s3"
    using assms(2) d(1) unfolding cancel_tree_def c Let_def prod.case
    by (simp add: current_def [symmetric] s1_def [symmetric] queued_def [symmetric] s2_def [symmetric]
        s3_def [symmetric] split: prod.splits) auto
  have dict: "dict_ok (mt_nodes s2)"
  proof -
    have "tree_wf s1" unfolding s1_def t1 by (rule wf_fold_set_error [OF assms(1)])
    then have "tree_wf s2" unfolding s2_def by (intro wf_fold_set_error) (simp add: wf_frame)
    then show ?thesis by (rule tree_wfD)
  qed
  have q1: "has_node (s1\<lparr>mt_queue := q\<rparr>) k = has_node s1 k" "node_terminal (s1\<lparr>mt_queue := q\<rparr>) k = node_terminal s1 k" for k
    by (simp_all add: has_node_def node_terminal_def get_node_def)
  have same: "has_node s3 k = has_node (tw_tree w) k" "has_node s2 k = has_node (tw_tree w) k"
    "has_node s1 k = has_node (tw_tree w) k" for k
    by (simp_all add: s3_def s2_def s1_def t1 has_node_def)
       (simp_all add: q1 has_node_errors [unfolded has_node_def])
  have "node_terminal s3 k" if "has_node s3 k" for k
  proof -
    have "k \<in> set current \<Longrightarrow> node_terminal s1 k"
      using that same by (simp add: s1_def t1 node_terminal_errors)
    then have "k \<in> set (current @ queued) \<Longrightarrow> node_terminal s2 k"
      using that same by (auto simp: s2_def node_terminal_errors q1)
    with stale_iff [OF dict, of k "current @ queued"] that same show ?thesis
      by (auto simp: s3_def node_terminal_errors)
  qed
  moreover have "get_queue_snapshot s3 = []"
    using d(2) by (simp add: s3_def s2_def get_queue_snapshot_def)
  ultimately show ?thesis
    using same w'
    by (auto simp: waiting_def reset_processing_state_def get_queue_snapshot_def has_node_def node_terminal_def
        get_node_def)
qed

section \<open>Properties\<close>

lemma run_exclusive: "queue_run calm w es w' \<Longrightarrow> exclusive w \<Longrightarrow> exclusive w'"
  by (induction rule: queue_run.induct) (simp_all add: exclusive_step)

lemma run_order: "queue_run calm w es w' \<Longrightarrow> idle_ok w \<Longrightarrow>
    idle_ok w' \<and> subseq (started_nodes es @ waiting w') (waiting w @ queued_nodes es)
    \<and> (calm \<longrightarrow> started_nodes es @ waiting w' = waiting w @ queued_nodes es)"
proof (induction rule: queue_run.induct)
  case (more w es w' fs w'')
  then have IH: "idle_ok w'" "subseq (started_nodes es @ waiting w') (waiting w @ queued_nodes es)"
    "calm \<longrightarrow> started_nodes es @ waiting w' = waiting w @ queued_nodes es" by blast+
  from queue_step_idle [OF more.hyps(2) IH(1)] have step: "idle_ok w''"
    "subseq (started_nodes fs @ waiting w'') (waiting w' @ queued_nodes fs)"
    "calm \<longrightarrow> started_nodes fs @ waiting w'' = waiting w' @ queued_nodes fs" by (auto simp: calm_events_def)
  have "subseq (started_nodes es @ started_nodes fs @ waiting w'') (started_nodes es @ waiting w' @ queued_nodes fs)"
    using step(2) by (rule list_emb_append_mono [OF subseq_order.order_refl])
  also have "subseq ((started_nodes es @ waiting w') @ queued_nodes fs) ((waiting w @ queued_nodes es) @ queued_nodes fs)"
    using IH(2) by (rule list_emb_append_mono [OF _ subseq_order.order_refl])
  then have "subseq (started_nodes es @ waiting w' @ queued_nodes fs) (waiting w @ queued_nodes (es @ fs))" by simp
  finally show ?case using step IH(3) by (metis append.assoc event_nodes_append)
qed simp

lemma run_calm: "queue_run calm w es w' \<Longrightarrow> calm \<Longrightarrow> calm_ok w \<Longrightarrow> calm_ok w'"
  by (induction rule: queue_run.induct) (simp_all add: calm_step)

lemma init_ok:
  assumes "\<not> mt_is_processing t" "get_queue_snapshot t = []"
  shows "exclusive (world_init t)" "idle_ok (world_init t)" "calm_ok (world_init t)" "waiting (world_init t) = []"
  using assms
  by (simp_all add: exclusive_def live_def task_done_def idle_ok_def calm_ok_def waiting_def world_init_def)

text \<open>C2: as long as no whole tree is cancelled, a tree never has two tasks at work: under every
  interleaving of replies, task steps, state updates and cancellations of nodes and branches, a task
  that has not finished is the current task of the tree, and its node is the current node.\<close>

theorem one_task_per_tree:
  assumes "queue_run calm (world_init t) es w" and "\<not> mt_is_processing t" and "get_queue_snapshot t = []"
    and "\<not> task_done w i"
  shows "mt_current_task (tw_tree w) = Some i \<and> mt_is_processing (tw_tree w)
     \<and> mt_current_node_id (tw_tree w) = Some (nt_node (tw_tasks w ! i))
     \<and> (\<forall>j. \<not> task_done w j \<longrightarrow> j = i)"
proof -
  have "exclusive w" using run_exclusive [OF assms(1)] init_ok(1) [OF assms(2,3)] by simp
  moreover have "i \<in> live w" using assms(4) by (simp add: live_def)
  ultimately show ?thesis
    using exclusive_live [of w i] by (auto simp: exclusive_def live_def)
qed

text \<open>Two replies are handed in, the first is processed and ends, which starts the second.\<close>

definition run_1 :: tree_world where
  "run_1 = fst (enqueue_and_start (lit ''1'') (world_init example_tree))"

definition run_2 :: tree_world where
  "run_2 = fst (enqueue_and_start (lit ''2'') run_1)"

definition run_3 :: tree_world where
  "run_3 = fst (process_begin PENDING 0 run_2)"

definition run_4 :: tree_world where
  "run_4 = fst (process_finish None 7 0 run_3)"

lemmas run_defs = run_1_def run_2_def run_3_def run_4_def world_init_def enqueue_and_start_def
  process_begin_def process_finish_def process_next_def start_task_def on_tree_def set_phase_def
  node_state_def given_def tree_dequeue_def sq_get_nowait_def sq_put_def sq_init_def put_queue_unlocked_def
  set_processing_state_def set_current_task_def clear_current_node_def has_node_def din_def get_node_def
  example_tree_def example_reply_def example_root_def add_node_def tree_init_def new_node_def update_node_def

lemma example_run:
  "queue_run True (world_init example_tree) [Queued (lit ''1''), Started (lit ''1''), Queued (lit ''2''), Started (lit ''2'')] run_4"
proof -
  have s1: "queue_step True (world_init example_tree) [Queued (lit ''1''), Started (lit ''1'')] run_1"
    using queue_step.enqueue [of "world_init example_tree" "lit ''1''" run_1 False True]
    by (simp add: run_defs)
  have s2: "queue_step True run_1 [Queued (lit ''2'')] run_2"
    using queue_step.enqueue [of run_1 "lit ''2''" run_2 True True] by (simp add: run_defs)
  have s3: "queue_step True run_2 (started None) run_3"
    by (rule queue_step.begins [of 0 _ PENDING]) (simp_all add: run_defs)
  have s4: "queue_step True run_3 (started (Some (lit ''2''))) run_4"
    by (rule queue_step.finishes [of 0 _ None 7]) (simp_all add: run_defs)
  have "queue_run True (world_init example_tree) [] (world_init example_tree)" by (rule queue_run.stop)
  from queue_run.more [OF queue_run.more [OF queue_run.more [OF queue_run.more [OF this s1] s2] s3] s4]
  show ?thesis by simp
qed

lemma example_idle: "\<not> mt_is_processing example_tree" "get_queue_snapshot example_tree = []"
  by (simp_all add: run_defs get_queue_snapshot_def sq_get_snapshot_def)

theorem one_task_per_tree_witness:
  "\<not> task_done run_4 1 \<and> mt_current_task (tw_tree run_4) = Some 1 \<and> mt_is_processing (tw_tree run_4)"
proof -
  have "\<not> task_done run_4 1" by (simp add: task_done_def run_defs)
  with one_task_per_tree [OF example_run example_idle this] show ?thesis by blast
qed

text \<open>C9: first in, first out. The nodes that were started, followed by those that still wait, are in
  the order in which they were handed in; cancellations only take nodes out of that order.\<close>

theorem nodes_start_in_order:
  assumes "queue_run calm (world_init t) es w" and "\<not> mt_is_processing t" and "get_queue_snapshot t = []"
  shows "subseq (started_nodes es @ get_queue_snapshot (tw_tree w)) (queued_nodes es)"
  using run_order [OF assms(1) init_ok(2) [OF assms(2,3)]] init_ok(4) [OF assms(2,3)]
  by (simp add: waiting_def)

theorem nodes_start_in_order_witness:
  "subseq ([lit ''1'', lit ''2''] @ get_queue_snapshot (tw_tree run_4)) [lit ''1'', lit ''2'']"
  using nodes_start_in_order [OF example_run example_idle] by simp

text \<open>C10: nothing is lost or forgotten. While nothing is cancelled, the nodes handed in are exactly
  those started and those waiting, and whenever nodes wait, a task is alive whose end starts the next.\<close>

theorem no_node_is_forgotten:
  assumes "queue_run True (world_init t) es w" and "\<not> mt_is_processing t" and "get_queue_snapshot t = []"
  shows "started_nodes es @ get_queue_snapshot (tw_tree w) = queued_nodes es
     \<and> (get_queue_snapshot (tw_tree w) \<noteq> [] \<longrightarrow>
          (\<exists>i. \<not> task_done w i \<and> (\<forall>failure now.
             snd (process_finish failure now i w) = Some (hd (get_queue_snapshot (tw_tree w))))))"
proof -
  have calm: "calm_ok w" and order: "started_nodes es @ waiting w = queued_nodes es"
    using run_calm [OF assms(1)] run_order [OF assms(1)] init_ok [OF assms(2,3)] by simp_all
  have "\<exists>i. \<not> task_done w i \<and> (\<forall>failure now. snd (process_finish failure now i w) = Some (hd (waiting w)))"
    if ne: "waiting w \<noteq> []"
  proof -
    from calm ne obtain i where i: "\<not> task_done w i" by (auto simp: calm_ok_def idle_ok_def live_def)
    have "snd (process_finish failure now i w) = Some (hd (waiting w))" for failure now
    proof -
      obtain w' item where f: "process_finish failure now i w = (w', item)" by force
      from process_finish_next [OF f] obtain w1 w2 where
        n: "process_next w1 = (w2, item)" "waiting w1 = waiting w" by metis
      obtain x t' where d: "tree_dequeue (tw_tree w1) = (x, t')" by force
      from ne n(2) obtain k ks where k: "waiting w1 = k # ks" by (cases "waiting w") auto
      moreover from calm have "[] \<notin> set (waiting w)" by (simp add: calm_ok_def idle_ok_def)
      ultimately have "k \<noteq> []" using n(2) by (metis list.set_intros(1))
      with k have "snd (process_next w1) = Some k"
        using sq.get_front [of "mt_queue (tw_tree w1)" k ks]
        by (auto simp: process_next_def tree_dequeue_def given_def waiting_def get_queue_snapshot_def)
      moreover have "hd (waiting w) = k" using k n(2) by (metis list.sel(1))
      ultimately show ?thesis using n f by simp
    qed
    with i show ?thesis by blast
  qed
  with order show ?thesis by (simp add: waiting_def)
qed

theorem no_node_is_forgotten_witness:
  "[lit ''1'', lit ''2''] @ get_queue_snapshot (tw_tree run_4) = [lit ''1'', lit ''2'']"
  using no_node_is_forgotten [OF example_run example_idle] by simp

text \<open>Cancelling a tree leaves every node of it in a final state, the queue empty and the tree
  marked idle, and keeps all nodes.\<close>

theorem cancel_tree_complete:
  assumes "tree_wf (tw_tree w)" and "cancel_tree now w = (w', ks)"
  shows "get_queue_snapshot (tw_tree w') = [] \<and> \<not> mt_is_processing (tw_tree w')
     \<and> (\<forall>k. has_node (tw_tree w') k = has_node (tw_tree w) k)
     \<and> (\<forall>k. has_node (tw_tree w') k \<longrightarrow> node_terminal (tw_tree w') k)"
  using cancel_tree_result [OF assms] by (simp add: waiting_def)

theorem cancel_tree_complete_witness:
  "node_terminal (tw_tree (fst (cancel_tree 9 (world_init example_tree)))) (lit ''3'')"
proof -
  obtain w' ks where c: "cancel_tree 9 (world_init example_tree) = (w', ks)" by force
  have wf: "tree_wf (tw_tree (world_init example_tree))" by (simp add: world_init_def example_wf)
  have "has_node (tw_tree (world_init example_tree)) (lit ''3'')"
    by (simp add: world_init_def has_node_def din_iff example_nodes del: list.set_map)
  with cancel_tree_complete [OF wf c] c show ?thesis by auto
qed

text \<open>A task that is cancelled before its first step blocks its tree. It ends without running the
  code that looks for the next node, so the tree stays marked busy although no task is alive, and every
  later node is only queued.\<close>

theorem early_cancel_blocks_tree:
  assumes "queue_run calm (world_init t) es w" and "\<not> mt_is_processing t" and "get_queue_snapshot t = []"
    and "\<not> task_done w i" and "nt_cancelled (tw_tasks w ! i)"
    and "process_begin gone i w = (w', item)"
  shows "item = None \<and> (\<forall>j. task_done w' j) \<and> mt_is_processing (tw_tree w')
     \<and> snd (enqueue_and_start k w') = True"
proof -
  have e: "exclusive w" using run_exclusive [OF assms(1)] init_ok(1) [OF assms(2,3)] by simp
  have i: "i \<in> live w" using assms(4) by (simp add: live_def)
  have w': "w' = set_phase i Finished w" "item = None"
    using assms(5,6) by (simp_all add: process_begin_def)
  have "live w' = {}"
    using exclusive_live [OF e i] live_set_phase(1) [OF live_less [OF i]] by (auto simp: w')
  moreover have "mt_is_processing (tw_tree w')" using e i by (simp add: exclusive_def w')
  ultimately show ?thesis using w' by (simp add: live_def enqueue_and_start_def)
qed

theorem early_cancel_blocks_tree_witness:
  "\<exists>w. queue_run False (world_init example_tree) [Queued (lit ''1''), Started (lit ''1'')] w
     \<and> snd (enqueue_and_start (lit ''2'') (fst (process_begin PENDING 0 w))) = True"
proof -
  let ?w = "fst (cancel_node (lit ''1'') 4 run_1)"
  have s1: "queue_step False (world_init example_tree) [Queued (lit ''1''), Started (lit ''1'')] run_1"
    using queue_step.enqueue [of "world_init example_tree" "lit ''1''" run_1 False False]
    by (simp add: run_defs)
  have s2: "queue_step False run_1 [] ?w" by (rule queue_step.cancel) simp
  have "queue_run False (world_init example_tree) [] (world_init example_tree)" by (rule queue_run.stop)
  from queue_run.more [OF queue_run.more [OF this s1] s2]
  have run: "queue_run False (world_init example_tree) [Queued (lit ''1''), Started (lit ''1'')] ?w" by simp
  have i: "\<not> task_done ?w 0" "nt_cancelled (tw_tasks ?w ! 0)"
    by (simp_all add: cancel_node_def node_terminal_def terminal_def is_current_node_def cancel_current_def
        cancel_current_task_def task_done_def run_defs)
  obtain w' item where b: "process_begin PENDING 0 ?w = (w', item)" by force
  from early_cancel_blocks_tree [OF run example_idle i b, of "lit ''2''"] run b show ?thesis by auto
qed

text \<open>Cancelling a whole tree gives up the exclusion. The cancelled task is still alive until its
  callback and its \<open>finally\<close> block have run, but the tree is already marked idle, so a reply that
  arrives in between starts a second task.\<close>

theorem cancel_tree_allows_overlap:
  "\<exists>w es w1 ks t w2. queue_run True (world_init example_tree) es w
     \<and> cancel_tree 5 w = (w1, ks)
     \<and> add_node (lit ''4'') example_message (lit ''s4'') (lit ''1'') 6 (tw_tree w1) = Inr t
     \<and> enqueue_and_start (lit ''4'') (w1\<lparr>tw_tree := t\<rparr>) = (w2, False)
     \<and> \<not> task_done w2 0 \<and> \<not> task_done w2 1"
proof -
  let ?w = "fst (process_begin PENDING 0 run_1)"
  have s1: "queue_step True (world_init example_tree) [Queued (lit ''1''), Started (lit ''1'')] run_1"
    using queue_step.enqueue [of "world_init example_tree" "lit ''1''" run_1 False True]
    by (simp add: run_defs)
  have s2: "queue_step True run_1 (started None) ?w"
    by (rule queue_step.begins [of 0 _ PENDING]) (simp_all add: run_defs)
  have "queue_run True (world_init example_tree) [] (world_init example_tree)" by (rule queue_run.stop)
  from queue_run.more [OF queue_run.more [OF this s1] s2]
  have run: "queue_run True (world_init example_tree) [Queued (lit ''1''), Started (lit ''1'')] ?w" by simp
  have w: "?w = \<lparr>tw_tree = tw_tree run_1, tw_tasks = [\<lparr>nt_node = lit ''1'', nt_phase = Running, nt_cancelled = False\<rparr>]\<rparr>"
    by (simp add: run_defs)
  have tree: "tw_tree run_1 = example_tree\<lparr>mt_is_processing := True, mt_current_node_id := Some (lit ''1''),
      mt_current_task := Some 0\<rparr>"
    by (simp add: run_defs)
  obtain w1 ks where c: "cancel_tree 5 ?w = (w1, ks)" by force
  have wf: "tree_wf (tw_tree ?w)" using example_wf by (simp add: w tree tree_wf_def)
  have "has_node (tw_tree ?w) (lit ''1'')"
    by (simp add: w tree has_node_def) (simp add: din_iff example_nodes del: list.set_map)
  with cancel_tree_result [OF wf c] have idle: "\<not> mt_is_processing (tw_tree w1)" "has_node (tw_tree w1) (lit ''1'')"
    by simp_all
  have "tw_tasks (fst (cancel_tree 5 ?w)) = [\<lparr>nt_node = lit ''1'', nt_phase = Running, nt_cancelled = True\<rparr>]"
    by (simp add: cancel_tree_def Let_def case_prod_beta cancel_current_def cancel_current_task_def w tree task_done_def)
  then have tasks: "tw_tasks w1 = [\<lparr>nt_node = lit ''1'', nt_phase = Running, nt_cancelled = True\<rparr>]"
    by (simp add: c)
  obtain t where add: "add_node (lit ''4'') example_message (lit ''s4'') (lit ''1'') 6 (tw_tree w1) = Inr t"
    using idle(2) by (auto simp: add_node_def has_node_def Let_def)
  have free: "\<not> mt_is_processing t"
    using same_processing_add [OF add] idle(1) by (simp add: same_processing_def)
  have has: "has_node t (lit ''4'')" using add by (rule add_node_has)
  obtain w2 where enq: "enqueue_and_start (lit ''4'') (w1\<lparr>tw_tree := t\<rparr>) = (w2, False)"
    using free by (simp add: enqueue_and_start_def)
  then have "tw_tasks w2 = tw_tasks w1 @ [\<lparr>nt_node = lit ''4'', nt_phase = Created, nt_cancelled = False\<rparr>]"
    using free has by (auto simp: enqueue_and_start_def start_task_def on_tree_def)
  then have "\<not> task_done w2 0" "\<not> task_done w2 1"
    by (simp_all add: tasks task_done_def)
  with run c add enq show ?thesis by blast
qed

end
