(* ===== verification/TreeManager.thy ===== *)
theory TreeManager
  imports TreeRepository TreeQueue
begin

text \<open>
  \<open>messaging/trees/queue_manager.py\<close>: \<open>TreeQueueManager\<close>, the facade over the repository of trees and
  the processor. The tasks of each tree are kept beside the repository, under the root of the tree.
\<close>

section \<open>State and operations\<close>

record tree_manager =
  tm_repo :: tree_repository
  tm_tasks :: "(pystr, node_task list) dict"

definition manager_init :: "tree_repository \<Rightarrow> tree_manager" where
  "manager_init r = \<lparr>tm_repo = r, tm_tasks = []\<rparr>"

text \<open>The tree with the given root together with its tasks, and writing both back.\<close>

definition world_of :: "tree_manager \<Rightarrow> pystr \<Rightarrow> message_tree \<Rightarrow> tree_world" where
  "world_of m root_id t = \<lparr>tw_tree = t,
     tw_tasks = (case dget (tm_tasks m) root_id of None \<Rightarrow> [] | Some ts \<Rightarrow> ts)\<rparr>"

definition put_tree :: "pystr \<Rightarrow> message_tree \<Rightarrow> tree_manager \<Rightarrow> tree_manager" where
  "put_tree root_id t m = m\<lparr>tm_repo := (tm_repo m)\<lparr>tr_trees := dset root_id t (tr_trees (tm_repo m))\<rparr>\<rparr>"

definition put_world :: "pystr \<Rightarrow> tree_world \<Rightarrow> tree_manager \<Rightarrow> tree_manager" where
  "put_world root_id w m = (put_tree root_id (tw_tree w) m)\<lparr>tm_tasks := dset root_id (tw_tasks w) (tm_tasks m)\<rparr>"

definition create_tree :: "pystr \<Rightarrow> incoming_message \<Rightarrow> pystr \<Rightarrow> time \<Rightarrow> tree_manager \<Rightarrow> tree_manager" where
  "create_tree node_id incoming status_message_id now m =
     m\<lparr>tm_repo := add_tree node_id (tree_init (new_node node_id incoming status_message_id None now)) (tm_repo m)\<rparr>"

definition unknown_parent :: "pystr \<Rightarrow> py_error" where
  "unknown_parent parent = ValueError (lit ''Parent node '' @ parent @ lit '' not found in any tree'')"

definition add_to_tree ::
    "pystr \<Rightarrow> pystr \<Rightarrow> incoming_message \<Rightarrow> pystr \<Rightarrow> time \<Rightarrow> tree_manager \<Rightarrow> tree_manager result" where
  "add_to_tree parent_node_id node_id incoming status_message_id now m =
     (if \<not> repo_has_node (tm_repo m) parent_node_id then Inl (unknown_parent parent_node_id)
      else
        (case get_tree_for_node (tm_repo m) parent_node_id of
           None \<Rightarrow> Inl (unknown_parent parent_node_id)
         | Some t \<Rightarrow>
             rbind (add_node node_id incoming status_message_id parent_node_id now t) (\<lambda>t'.
               let m1 = put_tree (mt_root_id t) t' m
               in Inr (m1\<lparr>tm_repo := register_node node_id (mt_root_id t) (tm_repo m1)\<rparr>))))"

definition manager_enqueue :: "pystr \<Rightarrow> tree_manager \<Rightarrow> tree_manager \<times> bool" where
  "manager_enqueue node_id m =
     (case get_tree_for_node (tm_repo m) node_id of
        None \<Rightarrow> (m, False)
      | Some t \<Rightarrow>
          (let (w, queued) = enqueue_and_start node_id (world_of m (mt_root_id t) t)
           in (put_world (mt_root_id t) w m, queued)))"

text \<open>\<open>mark_node_error\<close>; the affected nodes by their keys. \<open>None\<close>: the search for pending children does
  not end.\<close>

definition child_error :: "pystr \<Rightarrow> pystr" where
  "child_error msg = lit ''Parent failed: '' @ msg"

definition mark_node_error ::
    "pystr \<Rightarrow> pystr \<Rightarrow> bool \<Rightarrow> time \<Rightarrow> tree_manager \<Rightarrow> (tree_manager \<times> pystr list) option" where
  "mark_node_error node_id msg propagate now m =
     (case get_tree_for_node (tm_repo m) node_id of
        None \<Rightarrow> Some (m, [])
      | Some t \<Rightarrow>
          (let known = has_node t node_id;
               t1 = (if known then update_state node_id ERROR None (Some msg) now t else t);
               m1 = put_tree (mt_root_id t) t1 m;
               self = (if known then [node_id] else [])
           in if \<not> propagate then Some (m1, self)
              else map_option (\<lambda>pending.
                     (put_tree (mt_root_id t)
                        (fold (\<lambda>c. update_state c ERROR None (Some (child_error msg)) now) pending t1) m1,
                      self @ pending))
                   (get_pending_children (tm_repo m1) node_id)))"

definition manager_cancel_tree :: "pystr \<Rightarrow> time \<Rightarrow> tree_manager \<Rightarrow> tree_manager \<times> pystr list" where
  "manager_cancel_tree root_id now m =
     (case repo_get_tree (tm_repo m) root_id of
        None \<Rightarrow> (m, [])
      | Some t \<Rightarrow>
          (let (w, cancelled) = cancel_tree now (world_of m root_id t) in (put_world root_id w m, cancelled)))"

definition manager_cancel_node :: "pystr \<Rightarrow> time \<Rightarrow> tree_manager \<Rightarrow> tree_manager \<times> pystr list" where
  "manager_cancel_node node_id now m =
     (case get_tree_for_node (tm_repo m) node_id of
        None \<Rightarrow> (m, [])
      | Some t \<Rightarrow>
          (let (w, cancelled) = cancel_node node_id now (world_of m (mt_root_id t) t)
           in (put_world (mt_root_id t) w m, cancelled)))"

fun cancel_roots :: "pystr list \<Rightarrow> time \<Rightarrow> tree_manager \<Rightarrow> tree_manager \<times> pystr list" where
  "cancel_roots [] now m = (m, [])"
| "cancel_roots (k # ks) now m =
     (let (m1, xs) = manager_cancel_tree k now m; (m2, ys) = cancel_roots ks now m1 in (m2, xs @ ys))"

definition cancel_all :: "time \<Rightarrow> tree_manager \<Rightarrow> tree_manager \<times> pystr list" where
  "cancel_all now m = cancel_roots (tree_ids (tm_repo m)) now m"

definition cleanup_tree :: "time \<Rightarrow> message_tree \<Rightarrow> message_tree" where
  "cleanup_tree now t =
     fold (\<lambda>k. set_node_error_sync k (lit ''Lost during server restart'') now) (stale [] t) t"

definition cleanup_stale_nodes :: "time \<Rightarrow> tree_manager \<Rightarrow> tree_manager \<times> nat" where
  "cleanup_stale_nodes now m =
     (m\<lparr>tm_repo := (tm_repo m)\<lparr>tr_trees := map (\<lambda>(k, t). (k, cleanup_tree now t)) (tr_trees (tm_repo m))\<rparr>\<rparr>,
      sum_list (map (\<lambda>t. length (stale [] t)) (all_trees (tm_repo m))))"

definition manager_register_node :: "pystr \<Rightarrow> pystr \<Rightarrow> tree_manager \<Rightarrow> tree_manager" where
  "manager_register_node node_id root_id m = m\<lparr>tm_repo := register_node node_id root_id (tm_repo m)\<rparr>"

definition manager_cancel_branch :: "pystr \<Rightarrow> time \<Rightarrow> tree_manager \<Rightarrow> (tree_manager \<times> pystr list) option" where
  "manager_cancel_branch k now m =
     (case get_tree_for_node (tm_repo m) k of
        None \<Rightarrow> Some (m, [])
      | Some t \<Rightarrow> map_option (\<lambda>(w, ks). (put_world (mt_root_id t) w m, ks))
                    (cancel_branch k now (world_of m (mt_root_id t) t)))"

text \<open>\<open>remove_branch\<close>: the removed nodes, the root, and whether the whole tree was removed.\<close>

definition manager_remove_branch ::
    "pystr \<Rightarrow> time \<Rightarrow> tree_manager \<Rightarrow> (tree_manager \<times> message_node list \<times> pystr \<times> bool) result option" where
  "manager_remove_branch k now m =
     (case get_tree_for_node (tm_repo m) k of
        None \<Rightarrow> Some (Inr (m, [], [], False))
      | Some t \<Rightarrow>
          (if k = mt_root_id t then
             (let (m1, cancelled) = manager_cancel_tree k now m;
                  (removed, r) = remove_tree k (tm_repo m1)
              in Some (Inr (m1\<lparr>tm_repo := r\<rparr>,
                   (case removed of
                      Some t' \<Rightarrow> all_nodes t'
                    | None \<Rightarrow> map (\<lambda>c. the (get_node t c)) cancelled), k, True)))
           else map_option (\<lambda>res. rbind res (\<lambda>(removed, t').
                  let m1 = put_tree (mt_root_id t) t' m
                  in Inr (m1\<lparr>tm_repo := unregister_nodes (map mn_node_id removed) (tm_repo m1)\<rparr>,
                          removed, mt_root_id t, False))) (remove_branch k t)))"

section \<open>Facts\<close>

lemma put_tree_simps [simp]:
  "dget (tr_trees (tm_repo (put_tree k t m))) k' = (if k' = k then Some t else dget (tr_trees (tm_repo m)) k')"
  "tr_node_to_tree (tm_repo (put_tree k t m)) = tr_node_to_tree (tm_repo m)"
  by (simp_all add: put_tree_def dget_dset)

lemma get_tree_after_put:
  assumes "get_tree_for_node (tm_repo m) n = Some t" "repo_wf (tm_repo m)"
  shows "get_tree_for_node (tm_repo (put_tree (mt_root_id t) t' m)) n = Some t'"
  using assms repo_wf_tree(2) [OF assms(2)]
  by (auto simp: get_tree_for_node_def split: option.splits if_splits)

lemma repo_wf_put:
  assumes wf: "repo_wf (tm_repo m)" and t: "dget (tr_trees (tm_repo m)) k = Some t"
    and "tree_wf t'" "mt_root_id t' = k" "\<And>n. has_node t' n \<Longrightarrow> has_node t n"
  shows "repo_wf (tm_repo (put_tree k t' m))"
proof -
  have "dict_ok (tr_trees (tm_repo (put_tree k t' m)))"
    using wf by (simp add: put_tree_def repo_wf_def)
  then show ?thesis
    using wf assms(3-5) repo_wf_tree(3) [OF wf t] by (auto simp: repo_wf_def)
qed

lemma repo_wf_register:
  assumes "repo_wf r" "\<And>t. dget (tr_trees r) k' = Some t \<Longrightarrow> has_node t n \<Longrightarrow> k' = k"
    and "\<And>k' t. dget (tr_trees r) k' = Some t \<Longrightarrow> has_node t n \<Longrightarrow> k' = k"
  shows "repo_wf (register_node n k r)"
  using assms unfolding repo_wf_def register_node_def by (auto simp: dget_dset)

lemma repo_wf_create:
  assumes wf: "repo_wf (tm_repo m)" and fresh: "dget (tr_node_to_tree (tm_repo m)) k = None" "k \<noteq> []"
  shows "repo_wf (tm_repo (create_tree k incoming status now m))"
proof -
  let ?t = "tree_init (new_node k incoming status None now)"
  have t: "tree_wf ?t" by (rule wf_init) (simp_all add: new_node_def fresh(2))
  have rt: "mt_root_id ?t = k" and only: "has_node ?t n \<longleftrightarrow> n = k" for n
    by (auto simp: tree_init_def new_node_def has_node_def din_def)
  have other: "\<not> has_node t' k" if "dget (tr_trees (tm_repo m)) k' = Some t'" for k' t'
    using repo_wf_tree(3) [OF wf that, of k] fresh(1) by auto
  show ?thesis
    unfolding repo_wf_def create_tree_def add_tree_def
    using wf t rt only other by (auto simp: dget_dset repo_wf_def)
qed

lemma repo_wf_add:
  assumes wf: "repo_wf (tm_repo m)" and add: "add_to_tree p k incoming status now m = Inr m'"
    and fresh: "dget (tr_node_to_tree (tm_repo m)) k = None" "k \<noteq> []"
    and status: "\<And>t. get_tree_for_node (tm_repo m) p = Some t \<Longrightarrow> dget (mt_status_to_node t) status = None"
  shows "repo_wf (tm_repo m')"
proof -
  from add obtain t t' where t: "get_tree_for_node (tm_repo m) p = Some t"
    and t': "add_node k incoming status p now t = Inr t'"
    and m': "m' = (let m1 = put_tree (mt_root_id t) t' m
               in m1\<lparr>tm_repo := register_node k (mt_root_id t) (tm_repo m1)\<rparr>)"
    by (auto simp: add_to_tree_def rbind_Inr_iff Let_def split: if_splits option.splits)
  from get_tree_for_node_Some [OF t] obtain r where r: "dget (tr_trees (tm_repo m)) r = Some t" by metis
  note T = repo_wf_tree [OF wf r]
  have unused: "\<not> has_node t'' k" if "dget (tr_trees (tm_repo m)) r'' = Some t''" for r'' t''
    using repo_wf_tree(3) [OF wf that, of k] fresh(1) by auto
  have kp: "k \<noteq> p" using t' unused [OF r] by (auto simp: add_node_def has_node_def split: if_splits)
  have nodes: "has_node t' n \<longleftrightarrow> n = k \<or> has_node t n" for n
  proof -
    from add_node_Inr [OF t' kp] obtain m where "dget (mt_nodes t) p = Some m"
      "\<And>x. dget (mt_nodes t') x = (if x = k then Some (new_node k incoming status (Some p) now)
        else if x = p then Some (m\<lparr>mn_children_ids := mn_children_ids m @ [k]\<rparr>) else dget (mt_nodes t) x)"
      by metis
    then show ?thesis by (simp add: has_node_def din_def)
  qed
  have wf': "tree_wf t'" by (rule wf_add_node [OF T(1) t' unused [OF r] status [OF t] fresh(2)])
  have rt: "mt_root_id t' = r" using add_node_Inr [OF t' kp] T(2) by metis
  let ?r = "tm_repo (put_tree r t' m)"
  have "dict_ok (tr_trees ?r)" using wf by (simp add: put_tree_def repo_wf_def)
  then show ?thesis
    using wf wf' rt nodes T(2,3) unused by (auto simp: m' Let_def register_node_def repo_wf_def dget_dset)
qed

definition failed_node :: "pystr \<Rightarrow> time \<Rightarrow> message_node \<Rightarrow> message_node" where
  "failed_node msg now n = n\<lparr>mn_state := ERROR, mn_completed_at := Some now,
     mn_error_message := (if msg = [] then mn_error_message n else Some msg)\<rparr>"

lemma update_error_get:
  "dget (mt_nodes (update_state d ERROR None (Some msg) now t)) k
     = (if k = d then map_option (failed_node msg now) (dget (mt_nodes t) k) else dget (mt_nodes t) k)"
  by (cases "dget (mt_nodes t) d")
    (simp_all add: update_state_def update_node_get given_def failed_node_def)

lemma failed_node_twice [simp]: "failed_node msg now (failed_node msg now n) = failed_node msg now n"
  by (simp add: failed_node_def)

lemma update_errors_get:
  "dget (mt_nodes (fold (\<lambda>c. update_state c ERROR None (Some msg) now) ds t)) k
     = (if k \<in> set ds then map_option (failed_node msg now) (dget (mt_nodes t) k) else dget (mt_nodes t) k)"
  by (induction ds arbitrary: t) (auto simp: update_error_get option.map_comp comp_def)

lemma update_errors_wf: "tree_wf t \<Longrightarrow> tree_wf (fold (\<lambda>c. update_state c ERROR None (Some msg) now) ds t)"
  by (induction ds arbitrary: t) (simp_all add: wf_update_state)

lemma update_state_root [simp]: "mt_root_id (update_state k st session msg now t) = mt_root_id t"
  by (simp add: update_state_def)

lemma update_errors_root:
  "mt_root_id (fold (\<lambda>c. update_state c ERROR None (Some msg) now) ds t) = mt_root_id t"
  by (induction ds arbitrary: t) simp_all

text \<open>The pending nodes below a node do not depend on the state of the node itself.\<close>

lemma pending_below_update:
  assumes "tree_wf t"
  shows "pending_below (update_state k ERROR None (Some msg) now t) k = pending_below t k"
proof -
  let ?t = "update_state k ERROR None (Some msg) now t"
  have edges: "child_edges (mt_nodes ?t) = child_edges (mt_nodes t)"
    by (rule same_links_edges) (simp add: update_state_def, rule same_links_update, simp add: keeps_links_def links_def)
  have pend: "is_pending ?t c = is_pending t c" if "c \<noteq> k" for c
    using that by (simp add: is_pending_def get_node_def update_error_get)
  have acyclic: "(c, k) \<notin> child_edges (mt_nodes t)" if "(k, c) \<in> (child_edges (mt_nodes t))\<^sup>*" for c
    using ranked_no_return [OF tree_wfD(3) [OF assms]] that by blast
  have to_right: "(k, d) \<in> (pending_edges t)\<^sup>+" if "(k, d) \<in> (pending_edges ?t)\<^sup>+" for d
    using that
  proof (induction rule: trancl_induct)
    case (base y)
    then have "y \<noteq> k" using acyclic edges by (auto simp: pending_edges_def)
    with base pend edges show ?case by (auto simp: pending_edges_def)
  next
    case (step y z)
    then have "(k, y) \<in> (child_edges (mt_nodes t))\<^sup>*"
      using rtrancl_mono [of "pending_edges t" "child_edges (mt_nodes t)"] by (auto simp: pending_edges_def dest: trancl_into_rtrancl)
    then have "z \<noteq> k" using step(2) acyclic edges by (auto simp: pending_edges_def)
    with step pend edges have "(y, z) \<in> pending_edges t" by (auto simp: pending_edges_def)
    with step.IH show ?case by (rule trancl_into_trancl)
  qed
  have to_left: "(k, d) \<in> (pending_edges ?t)\<^sup>+" if "(k, d) \<in> (pending_edges t)\<^sup>+" for d
    using that
  proof (induction rule: trancl_induct)
    case (base y)
    then have "y \<noteq> k" using acyclic by (auto simp: pending_edges_def)
    with base pend edges show ?case by (auto simp: pending_edges_def)
  next
    case (step y z)
    then have "(k, y) \<in> (child_edges (mt_nodes t))\<^sup>*"
      using rtrancl_mono [of "pending_edges t" "child_edges (mt_nodes t)"] by (auto simp: pending_edges_def dest: trancl_into_rtrancl)
    then have "z \<noteq> k" using step(2) acyclic by (auto simp: pending_edges_def)
    with step pend edges have "(y, z) \<in> pending_edges ?t" by (auto simp: pending_edges_def)
    with step.IH show ?case by (rule trancl_into_trancl)
  qed
  show ?thesis using to_left to_right by (auto simp: pending_below_def)
qed

lemma mark_node_error_effect:
  assumes "repo_wf (tm_repo m)" and "get_tree_for_node (tm_repo m) k = Some t" and "has_node t k"
  shows "\<exists>m' ds. mark_node_error k msg True now m = Some (m', k # ds)
     \<and> distinct ds \<and> set ds = pending_below t k
     \<and> repo_wf (tm_repo m')
     \<and> (\<exists>t'. get_tree_for_node (tm_repo m') k = Some t' \<and> tree_wf t' \<and> mt_root_id t' = mt_root_id t
          \<and> (\<forall>x. get_node t' x = (if x = k then map_option (failed_node msg now) (get_node t x)
               else if x \<in> set ds then map_option (failed_node (child_error msg) now) (get_node t x)
               else get_node t x)))"
proof -
  obtain r where r: "dget (tr_trees (tm_repo m)) r = Some t"
    using get_tree_for_node_Some [OF assms(2)] by metis
  note T = repo_wf_tree [OF assms(1) r]
  let ?t1 = "update_state k ERROR None (Some msg) now t"
  let ?m1 = "put_tree (mt_root_id t) ?t1 m"
  have wf1: "tree_wf ?t1" by (rule wf_update_state [OF T(1)])
  have g1: "get_tree_for_node (tm_repo ?m1) k = Some ?t1"
    by (rule get_tree_after_put [OF assms(2,1)])
  from pending_loop_complete [OF wf1, of k] assms(3)
  obtain ds where ds: "pending_loop ?t1 [k] [] = Some ds" "set ds = pending_below ?t1 k" "distinct ds" by auto
  let ?t2 = "fold (\<lambda>c. update_state c ERROR None (Some (child_error msg)) now) ds ?t1"
  have not_k: "k \<notin> set ds" using pending_below_not_self [OF tree_wfD(3) [OF wf1]] ds(2) by simp
  have wf_repo1: "repo_wf (tm_repo ?m1)"
    by (rule repo_wf_put [OF assms(1) r [folded T(2)] wf1]) simp_all
  have "mark_node_error k msg True now m = Some (put_tree (mt_root_id t) ?t2 ?m1, k # ds)"
    using assms(2,3) ds(1) g1 by (simp add: mark_node_error_def Let_def get_pending_children_def)
  moreover have "get_tree_for_node (tm_repo (put_tree (mt_root_id t) ?t2 ?m1)) k = Some ?t2"
    using get_tree_after_put [OF g1 wf_repo1] by simp
  moreover have "get_node ?t2 x = (if x = k then map_option (failed_node msg now) (get_node t x)
      else if x \<in> set ds then map_option (failed_node (child_error msg) now) (get_node t x) else get_node t x)" for x
    using not_k by (simp add: get_node_def update_errors_get update_error_get)
  moreover have "repo_wf (tm_repo (put_tree (mt_root_id t) ?t2 ?m1))"
    by (rule repo_wf_put [OF wf_repo1 _ update_errors_wf [OF wf1], of _ ?t1])
      (auto simp: has_node_def din_def update_errors_get update_errors_root split: if_splits)
  moreover have "mt_root_id ?t2 = mt_root_id t" by (simp add: update_errors_root)
  ultimately show ?thesis
    using ds pending_below_update [OF T(1)] update_errors_wf [OF wf1] by blast
qed

section \<open>Properties\<close>

text \<open>The index of messages stays sound when conversations begin and grow: with message
  identifiers that are not in use, creating a tree and adding a reply keep every tree consistent,
  stored under its root, and every node of it indexed to it.\<close>

theorem manager_keeps_index:
  assumes "repo_wf (tm_repo m)" and "dget (tr_node_to_tree (tm_repo m)) k = None" and "k \<noteq> []"
  shows "repo_wf (tm_repo (create_tree k incoming status now m))
     \<and> (\<forall>p m'. add_to_tree p k incoming status now m = Inr m' \<longrightarrow>
          (\<forall>t. get_tree_for_node (tm_repo m) p = Some t \<longrightarrow> dget (mt_status_to_node t) status = None) \<longrightarrow>
          repo_wf (tm_repo m') \<and> get_tree_for_node (tm_repo m') k \<noteq> None)"
proof (intro conjI allI impI)
  show "repo_wf (tm_repo (create_tree k incoming status now m))"
    using assms by (rule repo_wf_create)
next
  fix p m' assume add: "add_to_tree p k incoming status now m = Inr m'"
    and st: "\<forall>t. get_tree_for_node (tm_repo m) p = Some t \<longrightarrow> dget (mt_status_to_node t) status = None"
  show wf': "repo_wf (tm_repo m')"
    by (rule repo_wf_add [OF assms(1) add assms(2,3)]) (use st in blast)
  from add obtain t t' where t: "get_tree_for_node (tm_repo m) p = Some t"
    and m': "m' = (let m1 = put_tree (mt_root_id t) t' m
               in m1\<lparr>tm_repo := register_node k (mt_root_id t) (tm_repo m1)\<rparr>)"
    by (auto simp: add_to_tree_def rbind_Inr_iff Let_def split: if_splits option.splits)
  have "dget (tr_node_to_tree (tm_repo m')) k = Some (mt_root_id t)"
    "dget (tr_trees (tm_repo m')) (mt_root_id t) = Some t'"
    by (simp_all add: m' Let_def register_node_def dget_dset)
  from get_tree_for_node_indexed [OF wf' this(2,1)] show "get_tree_for_node (tm_repo m') k \<noteq> None" by simp
qed

definition example_manager :: tree_manager where
  "example_manager = manager_init \<lparr>tr_trees = [(lit ''1'', example_tree)],
     tr_node_to_tree = [(lit ''1'', lit ''1''), (lit ''2'', lit ''1''), (lit ''3'', lit ''1''), (lit ''s2'', lit ''1'')]\<rparr>"

lemma example_has: "has_node example_tree n \<longleftrightarrow> n \<in> {lit ''1'', lit ''2'', lit ''3''}"
  unfolding has_node_def din_iff example_nodes by simp

lemma example_manager_wf: "repo_wf (tm_repo example_manager)"
  using example_wf example_has example_nodes(2)
  by (auto simp: repo_wf_def example_manager_def manager_init_def)

theorem manager_keeps_index_witness:
  "repo_wf (tm_repo (create_tree (lit ''9'') example_message (lit ''s9'') 7 example_manager))"
proof -
  have "dget (tr_node_to_tree (tm_repo example_manager)) (lit ''9'') = None" "lit ''9'' \<noteq> []"
    by (simp_all add: example_manager_def manager_init_def)
  from manager_keeps_index [OF example_manager_wf this] show ?thesis by blast
qed

text \<open>A reply is attached to the right node. A message that is a node of a tree resolves to itself,
  and the status message of a node, once registered, resolves to that node.\<close>

theorem resolve_parent_correct:
  assumes "repo_wf r" and "dget (tr_trees r) k = Some t" and "get_node t n = Some node"
    and "mn_status_message_id node = s" and "dget (tr_node_to_tree r) s = Some k" and "\<not> has_node t s"
  shows "resolve_parent_node_id r n = Some n \<and> resolve_parent_node_id r s = Some n"
proof -
  note T = repo_wf_tree(1) [OF assms(1,2)]
  have n: "dget (mt_nodes t) n = Some node" "has_node t n"
    using assms(3) by (simp_all add: get_node_def has_node_def din_def)
  have "dget (mt_status_to_node t) s = Some n"
    using status_okD [OF tree_wfD(4) [OF T]] n(1) assms(4) by blast
  then have "find_node_by_status_message t s = Some node"
    using links_okD(1) [OF tree_wfD(2) [OF T] n(1)] n(1)
    by (simp add: find_node_by_status_message_def get_node_def)
  then show ?thesis
    using get_tree_for_node_has [OF assms(1,2) n(2)] get_tree_for_node_indexed [OF assms(1,2,5)] n assms(6)
      links_okD(2) [OF tree_wfD(2) [OF T] n(1)]
    by (simp add: resolve_parent_node_id_def)
qed

theorem resolve_parent_correct_witness:
  "resolve_parent_node_id (tm_repo example_manager) (lit ''s2'') = Some (lit ''2'')"
proof -
  have t: "dget (tr_trees (tm_repo example_manager)) (lit ''1'') = Some example_tree"
    "dget (tr_node_to_tree (tm_repo example_manager)) (lit ''s2'') = Some (lit ''1'')"
    by (simp_all add: example_manager_def manager_init_def)
  obtain node where node: "get_node example_tree (lit ''2'') = Some node" "mn_status_message_id node = lit ''s2''"
    by (simp add: run_defs)
  have "\<not> has_node example_tree (lit ''s2'')" by (simp add: example_has)
  from resolve_parent_correct [OF example_manager_wf t(1) node t(2) this] show ?thesis by blast
qed

text \<open>A failure reaches exactly the messages that depend on it. Marking a node as failed with
  propagation always ends; it marks the node and all nodes that are connected to it downwards by
  pending nodes, reports these, and leaves every other node of the tree as it was.\<close>

theorem mark_node_error_propagates:
  assumes "repo_wf (tm_repo m)" and "get_tree_for_node (tm_repo m) k = Some t" and "has_node t k"
  shows "\<exists>m' ds. mark_node_error k msg True now m = Some (m', k # ds)
     \<and> distinct ds \<and> set ds = pending_below t k
     \<and> (\<exists>t'. get_tree_for_node (tm_repo m') k = Some t' \<and> tree_wf t'
          \<and> (\<forall>x. get_node t' x = (if x = k then map_option (failed_node msg now) (get_node t x)
               else if x \<in> set ds then map_option (failed_node (child_error msg) now) (get_node t x)
               else get_node t x)))"
  using mark_node_error_effect [OF assms] by blast

theorem mark_node_error_propagates_witness:
  "\<exists>m' ds. mark_node_error (lit ''2'') (lit ''boom'') True 9 example_manager = Some (m', lit ''2'' # ds)
     \<and> set ds = pending_below example_tree (lit ''2'')"
proof -
  have t: "dget (tr_trees (tm_repo example_manager)) (lit ''1'') = Some example_tree"
    by (simp add: example_manager_def manager_init_def)
  have h: "has_node example_tree (lit ''2'')" by (simp add: example_has)
  from mark_node_error_propagates [OF example_manager_wf get_tree_for_node_has [OF example_manager_wf t h] h]
  show ?thesis by blast
qed

text \<open>After a restart no message is left hanging: the clean-up marks every node that was pending or
  in progress as failed, in every tree, and reports how many there were.\<close>

theorem cleanup_stale_nodes_complete:
  assumes "repo_wf (tm_repo m)" and "cleanup_stale_nodes now m = (m', n)"
    and "dget (tr_trees (tm_repo m)) k = Some t"
  shows "\<exists>t'. dget (tr_trees (tm_repo m')) k = Some t' \<and> tree_wf t'
     \<and> (\<forall>x. has_node t' x = has_node t x \<and> (has_node t' x \<longrightarrow> node_terminal t' x)
          \<and> (node_terminal t x \<longrightarrow> get_node t' x = get_node t x))
     \<and> length (stale [] t) \<le> n"
proof -
  note T = repo_wf_tree(1) [OF assms(1,3)]
  have "dget (tr_trees (tm_repo m')) k = Some (cleanup_tree now t)"
  proof -
    have "tr_trees (tm_repo m') = map (\<lambda>(k, t). (k, cleanup_tree now t)) (tr_trees (tm_repo m))"
      using assms(2) by (auto simp: cleanup_stale_nodes_def)
    with assms(3) show ?thesis by (simp add: map_of_map)
  qed
  moreover have "tree_wf (cleanup_tree now t)"
    unfolding cleanup_tree_def by (rule wf_fold_set_error [OF T])
  moreover have "has_node (cleanup_tree now t) x = has_node t x" for x
    by (simp add: cleanup_tree_def)
  moreover have "node_terminal (cleanup_tree now t) x" if "has_node t x" for x
    using that stale_iff [OF tree_wfD(1) [OF T], of x "[]"] by (auto simp: cleanup_tree_def node_terminal_errors)
  moreover have "get_node (cleanup_tree now t) x = get_node t x" if "node_terminal t x" for x
    using that stale_iff [OF tree_wfD(1) [OF T], of x "[]"]
    by (simp add: cleanup_tree_def get_node_def fold_set_error_get)
  moreover have "length (stale [] t) \<le> n"
  proof -
    have "(k, t) \<in> set (tr_trees (tm_repo m))" using assms(3) by (rule map_of_SomeD)
    then have "length (stale [] t) \<in> set (map (\<lambda>t. length (stale [] t)) (all_trees (tm_repo m)))"
      by (force simp: all_trees_def)
    from member_le_sum_list [OF this] assms(2) show ?thesis by (auto simp: cleanup_stale_nodes_def)
  qed
  ultimately show ?thesis by blast
qed

theorem cleanup_stale_nodes_complete_witness:
  "\<exists>t'. dget (tr_trees (tm_repo (fst (cleanup_stale_nodes 9 example_manager)))) (lit ''1'') = Some t'
     \<and> node_terminal t' (lit ''3'')"
proof -
  obtain m' n where c: "cleanup_stale_nodes 9 example_manager = (m', n)" by force
  have t: "dget (tr_trees (tm_repo example_manager)) (lit ''1'') = Some example_tree"
    by (simp add: example_manager_def manager_init_def)
  from cleanup_stale_nodes_complete [OF example_manager_wf c t] example_has c show ?thesis by auto
qed

end
