(* ===== verification/SessionStore.thy ===== *)
theory SessionStore
  imports EventParser
begin

text \<open>
  \<open>messaging/session.py\<close>: the persistent store of message trees and of the identifiers of the messages of
  each chat, with its debounced saves. The lock makes every operation atomic up to the write of the file,
  which happens outside of it; so taking a snapshot and writing it are steps of their own. The file holds
  the value that \<open>json.dump\<close> was given; the clock reading of a record is an input.
\<close>

section \<open>The store\<close>

record log_record =
  lr_message_id :: pystr
  lr_ts :: pystr
  lr_direction :: pystr
  lr_kind :: pystr

record session_store =
  ss_trees :: "(pystr, pyval) dict"
  ss_node_to_tree :: "(pystr, pystr) dict"
  ss_message_log :: "(pystr, log_record list) dict"
  ss_message_log_ids :: "(pystr, pystr list) dict" \<comment> \<open>sets\<close>
  ss_dirty :: bool
  ss_timer :: bool \<comment> \<open>\<open>_save_timer is not None\<close>\<close>
  ss_cap :: "int option"

definition store_init :: "int option \<Rightarrow> session_store" where
  "store_init cap = \<lparr>ss_trees = [], ss_node_to_tree = [], ss_message_log = [], ss_message_log_ids = [],
     ss_dirty = False, ss_timer = False, ss_cap = cap\<rparr>"

definition make_chat_key :: "pystr \<Rightarrow> pystr \<Rightarrow> pystr" where
  "make_chat_key platform chat_id = platform @ lit '':'' @ chat_id"

definition or_empty :: "'v list option \<Rightarrow> 'v list" where
  "or_empty x = (case x of None \<Rightarrow> [] | Some v \<Rightarrow> v)"

definition insert_id :: "pystr \<Rightarrow> pystr list \<Rightarrow> pystr list" where
  "insert_id i ids = (if i \<in> set ids then ids else ids @ [i])"

definition schedule_save :: "session_store \<Rightarrow> session_store" where
  "schedule_save s = s\<lparr>ss_dirty := True, ss_timer := True\<rparr>"

section \<open>The message log\<close>

definition apply_cap :: "pystr \<Rightarrow> session_store \<Rightarrow> session_store" where
  "apply_cap chat_key s =
     (case ss_cap s of
        None \<Rightarrow> s
      | Some cap \<Rightarrow>
          let items = or_empty (dget (ss_message_log s) chat_key)
          in if 0 < cap \<and> cap < int (length items)
             then let kept = slice_tail cap items
                  in s\<lparr>ss_message_log := dset chat_key kept (ss_message_log s),
                       ss_message_log_ids := dset chat_key (remdups (map lr_message_id kept)) (ss_message_log_ids s)\<rparr>
             else s)"

definition record_message_id ::
    "pystr \<Rightarrow> pystr \<Rightarrow> pystr \<Rightarrow> pystr \<Rightarrow> pystr \<Rightarrow> pystr \<Rightarrow> session_store \<Rightarrow> session_store" where
  "record_message_id now platform chat_id message_id direction kind s =
     (let chat_key = make_chat_key platform chat_id;
          seen = or_empty (dget (ss_message_log_ids s) chat_key);
          s1 = s\<lparr>ss_message_log_ids := dset chat_key seen (ss_message_log_ids s)\<rparr>
      in if message_id \<in> set seen then s1
         else
           let rec = \<lparr>lr_message_id = message_id, lr_ts = now, lr_direction = direction, lr_kind = kind\<rparr>;
               items = or_empty (dget (ss_message_log s1) chat_key);
               s2 = s1\<lparr>ss_message_log := dset chat_key (items @ [rec]) (ss_message_log s1),
                       ss_message_log_ids := dset chat_key (insert_id message_id seen) (ss_message_log_ids s1)\<rparr>
           in schedule_save (apply_cap chat_key s2))"

definition get_message_ids_for_chat :: "pystr \<Rightarrow> pystr \<Rightarrow> session_store \<Rightarrow> pystr list" where
  "get_message_ids_for_chat platform chat_id s =
     map lr_message_id (or_empty (dget (ss_message_log s) (make_chat_key platform chat_id)))"

section \<open>Trees\<close>

text \<open>The keys of \<open>tree_data.get("nodes", {})\<close>; iterating over a list of names gives the names, and other
  values are outside the model.\<close>

definition node_ids :: "pyval \<Rightarrow> pystr list result" where
  "node_ids tree_data =
     (case tree_data of
        PDict d \<Rightarrow>
          (case dget_or d ''nodes'' (PDict []) of
             PDict nodes \<Rightarrow> Inr (dkeys nodes)
           | v \<Rightarrow> as_str_list v)
      | _ \<Rightarrow> Inl AttributeError)"

definition save_tree :: "pystr \<Rightarrow> pyval \<Rightarrow> session_store \<Rightarrow> session_store \<times> unit result" where
  "save_tree root_id tree_data s =
     (let s1 = s\<lparr>ss_trees := dset root_id tree_data (ss_trees s)\<rparr>
      in case node_ids tree_data of
           Inl e \<Rightarrow> (s1, Inl e)
         | Inr ids \<Rightarrow>
             (schedule_save (s1\<lparr>ss_node_to_tree := fold (\<lambda>i d. dset i root_id d) ids (ss_node_to_tree s1)\<rparr>), Inr ()))"

definition get_tree :: "pystr \<Rightarrow> session_store \<Rightarrow> pyval option" where
  "get_tree root_id s = dget (ss_trees s) root_id"

definition register_node :: "pystr \<Rightarrow> pystr \<Rightarrow> session_store \<Rightarrow> session_store" where
  "register_node node_id root_id s = schedule_save (s\<lparr>ss_node_to_tree := dset node_id root_id (ss_node_to_tree s)\<rparr>)"

definition remove_node_mappings :: "pystr list \<Rightarrow> session_store \<Rightarrow> session_store" where
  "remove_node_mappings ids s = schedule_save (s\<lparr>ss_node_to_tree := fold ddel ids (ss_node_to_tree s)\<rparr>)"

definition remove_tree :: "pystr \<Rightarrow> session_store \<Rightarrow> session_store \<times> unit result" where
  "remove_tree root_id s =
     (let s1 = s\<lparr>ss_trees := ddel root_id (ss_trees s)\<rparr>
      in case dget (ss_trees s) root_id of
           None \<Rightarrow> (s1, Inr ())
         | Some tree_data \<Rightarrow>
             if \<not> truthy tree_data then (s1, Inr ())
             else (case node_ids tree_data of
                     Inl e \<Rightarrow> (s1, Inl e)
                   | Inr ids \<Rightarrow> (schedule_save (s1\<lparr>ss_node_to_tree := fold ddel ids (ss_node_to_tree s1)\<rparr>), Inr ())))"

definition sync_from_tree_data :: "(pystr, pyval) dict \<Rightarrow> (pystr, pystr) dict \<Rightarrow> session_store \<Rightarrow> session_store" where
  "sync_from_tree_data trees node_to_tree s = schedule_save (s\<lparr>ss_trees := trees, ss_node_to_tree := node_to_tree\<rparr>)"

section \<open>The file\<close>

definition record_value :: "log_record \<Rightarrow> pyval" where
  "record_value r = PDict [(lit ''message_id'', PStr (lr_message_id r)), (lit ''ts'', PStr (lr_ts r)),
     (lit ''direction'', PStr (lr_direction r)), (lit ''kind'', PStr (lr_kind r))]"

definition snapshot :: "session_store \<Rightarrow> pyval" where
  "snapshot s = PDict
     [(lit ''trees'', PDict (ss_trees s)),
      (lit ''node_to_tree'', PDict (map (map_prod id PStr) (ss_node_to_tree s))),
      (lit ''message_log'', PDict (map (map_prod id (\<lambda>rs. PList (map record_value rs))) (ss_message_log s)))]"

text \<open>\<open>_flush_save\<close>, and the part of \<open>_save_from_timer\<close> under the lock.\<close>

definition flush_save :: "session_store \<Rightarrow> session_store \<times> pyval" where
  "flush_save s = (let s1 = s\<lparr>ss_timer := False, ss_dirty := False\<rparr> in (s1, snapshot s1))"

definition timer_fires :: "session_store \<Rightarrow> session_store \<times> pyval option" where
  "timer_fires s =
     (if \<not> ss_dirty s then (s\<lparr>ss_timer := False\<rparr>, None)
      else (s\<lparr>ss_dirty := False, ss_timer := False\<rparr>, Some (snapshot s)))"

text \<open>The write with the handler around it. Opening the file for writing empties it, so a write that fails
  after that leaves a file that cannot be read, which \<open>_load\<close> treats like a missing one.\<close>

datatype write_outcome = Written | NotOpened | Partial

definition write_data :: "write_outcome \<Rightarrow> pyval \<Rightarrow> session_store \<Rightarrow> pyval option \<Rightarrow> session_store \<times> pyval option" where
  "write_data outcome data s file =
     (case outcome of
        Written \<Rightarrow> (s, Some data)
      | NotOpened \<Rightarrow> (s\<lparr>ss_dirty := True\<rparr>, file)
      | Partial \<Rightarrow> (s\<lparr>ss_dirty := True\<rparr>, None))"

definition clear_all :: "session_store \<Rightarrow> session_store \<times> pyval" where
  "clear_all s =
     flush_save (s\<lparr>ss_trees := [], ss_node_to_tree := [], ss_message_log := [], ss_message_log_ids := []\<rparr>)"

text \<open>\<open>_load\<close>: one entry of the log with its duplicates removed, all entries, and the whole file. A log that
  is not a dictionary keeps the empty one; trees or a mapping of another shape are outside the model.\<close>

fun clean_items :: "(pyval \<Rightarrow> pystr) \<Rightarrow> pyval list \<Rightarrow> pystr list \<Rightarrow> log_record list \<times> pystr list" where
  "clean_items rp [] seen = ([], seen)"
| "clean_items rp (it # items) seen =
     (case it of
        PDict d \<Rightarrow>
          let mid = dget_or d ''message_id'' PNone; mid_s = py_str rp mid
          in if mid = PNone \<or> mid_s \<in> set seen then clean_items rp items seen
             else (case clean_items rp items (seen @ [mid_s]) of
                     (rs, seen') \<Rightarrow>
                       (\<lparr>lr_message_id = mid_s, lr_ts = str_or_empty rp (dget_or d ''ts'' PNone),
                         lr_direction = str_or_empty rp (dget_or d ''direction'' PNone),
                         lr_kind = str_or_empty rp (dget_or d ''kind'' PNone)\<rparr> # rs, seen'))
      | _ \<Rightarrow> clean_items rp items seen)"

definition load_chat :: "(pyval \<Rightarrow> pystr) \<Rightarrow> pystr \<times> pyval \<Rightarrow> session_store \<Rightarrow> session_store" where
  "load_chat rp chat s =
     (case chat of
        (chat_key, PList items) \<Rightarrow>
          (case clean_items rp items [] of
             (cleaned, seen) \<Rightarrow>
               s\<lparr>ss_message_log := dset chat_key cleaned (ss_message_log s),
                 ss_message_log_ids := dset chat_key seen (ss_message_log_ids s)\<rparr>)
      | _ \<Rightarrow> s)"

definition str_dict :: "pyval \<Rightarrow> (pystr, pystr) dict result" where
  "str_dict v = (case v of
       PDict d \<Rightarrow> rmap_list (\<lambda>(k, x). rbind (as_str x) (\<lambda>t. Inr (k, t))) d
     | _ \<Rightarrow> Inl Unmodelled)"

definition load_data :: "(pyval \<Rightarrow> pystr) \<Rightarrow> pyval \<Rightarrow> session_store \<Rightarrow> session_store result" where
  "load_data rp data s =
     (case data of
        PDict d \<Rightarrow>
          rbind (as_dict (dget_or d ''trees'' (PDict []))) (\<lambda>trees.
          rbind (str_dict (dget_or d ''node_to_tree'' (PDict []))) (\<lambda>mapping.
            let raw = dget_or d ''message_log'' (PDict []); raw_log = (if truthy raw then raw else PDict []);
                s1 = s\<lparr>ss_trees := trees, ss_node_to_tree := mapping\<rparr>
            in case raw_log of
                 PDict chats \<Rightarrow> Inr (fold (load_chat rp) chats (s1\<lparr>ss_message_log := [], ss_message_log_ids := []\<rparr>))
               | _ \<Rightarrow> Inr s1))
      | _ \<Rightarrow> Inr s)"

text \<open>A new store on a file; \<open>None\<close> is a file that does not exist or cannot be read.\<close>

definition open_store :: "(pyval \<Rightarrow> pystr) \<Rightarrow> int option \<Rightarrow> pyval option \<Rightarrow> session_store result" where
  "open_store rp cap file =
     (case file of None \<Rightarrow> Inr (store_init cap) | Some data \<Rightarrow> load_data rp data (store_init cap))"

section \<open>The store and its saves\<close>

text \<open>The store, the file, and the snapshots taken but not yet written. A timer that was cancelled too late
  fires all the same, so firing is always possible; it does nothing on a clean store.\<close>

record store_system =
  sy_store :: session_store
  sy_file :: "pyval option"
  sy_writes :: "pyval list"

datatype store_change =
    Record pystr pystr pystr pystr pystr pystr
  | SaveTree pystr pyval
  | RegisterNode pystr pystr
  | RemoveMappings "pystr list"
  | RemoveTree pystr
  | SyncTrees "(pystr, pyval) dict" "(pystr, pystr) dict"

fun change_store :: "store_change \<Rightarrow> session_store \<Rightarrow> session_store" where
  "change_store (Record now platform chat_id message_id direction kind) s =
     record_message_id now platform chat_id message_id direction kind s"
| "change_store (SaveTree root_id tree_data) s = fst (save_tree root_id tree_data s)"
| "change_store (RegisterNode node_id root_id) s = register_node node_id root_id s"
| "change_store (RemoveMappings ids) s = remove_node_mappings ids s"
| "change_store (RemoveTree root_id) s = fst (remove_tree root_id s)"
| "change_store (SyncTrees trees mapping) s = sync_from_tree_data trees mapping s"

inductive store_step :: "store_system \<Rightarrow> store_system \<Rightarrow> bool" where
  change: "store_step w (w\<lparr>sy_store := change_store c (sy_store w)\<rparr>)"
| clear: "clear_all (sy_store w) = (s, data) \<Longrightarrow>
     store_step w (w\<lparr>sy_store := s, sy_writes := sy_writes w @ [data]\<rparr>)"
| fire: "timer_fires (sy_store w) = (s, data) \<Longrightarrow>
     store_step w (w\<lparr>sy_store := s, sy_writes := sy_writes w @ (case data of None \<Rightarrow> [] | Some d \<Rightarrow> [d])\<rparr>)"
| flush: "flush_save (sy_store w) = (s, data) \<Longrightarrow>
     store_step w (w\<lparr>sy_store := s, sy_writes := sy_writes w @ [data]\<rparr>)"
| written: "i < length (sy_writes w) \<Longrightarrow> write_data outcome (sy_writes w ! i) (sy_store w) (sy_file w) = (s, file) \<Longrightarrow>
     store_step w (w\<lparr>sy_store := s, sy_file := file, sy_writes := take i (sy_writes w) @ drop (Suc i) (sy_writes w)\<rparr>)"

section \<open>The message log stays consistent\<close>

definition chat_log :: "session_store \<Rightarrow> pystr \<Rightarrow> log_record list" where
  "chat_log s key = or_empty (dget (ss_message_log s) key)"

definition chat_ids :: "session_store \<Rightarrow> pystr \<Rightarrow> pystr list" where
  "chat_ids s key = or_empty (dget (ss_message_log_ids s) key)"

text \<open>In every chat no identifier is logged twice, the set of identifiers is that of the log, and the cap is
  kept.\<close>

definition log_ok :: "session_store \<Rightarrow> bool" where
  "log_ok s \<longleftrightarrow>
     dict_ok (ss_message_log s)
     \<and> (\<forall>key. distinct (map lr_message_id (chat_log s key))
            \<and> set (chat_ids s key) = set (map lr_message_id (chat_log s key))
            \<and> (\<forall>cap. ss_cap s = Some cap \<longrightarrow> 0 < cap \<longrightarrow> int (length (chat_log s key)) \<le> cap))"

lemma or_empty_simps [simp]: "or_empty None = []" "or_empty (Some v) = v"
  by (simp_all add: or_empty_def)

lemma log_ok_schedule [simp]: "log_ok (schedule_save s) = log_ok s"
  by (simp add: log_ok_def schedule_save_def chat_log_def chat_ids_def)

lemma distinct_slice: "distinct (map f xs) \<Longrightarrow> distinct (map f (slice_tail n xs))"
  by (auto simp: slice_tail_def drop_map [symmetric] simp del: drop_map)

text \<open>A new record, before and after the cap is applied.\<close>

lemma log_ok_record:
  assumes ok: "log_ok s"
  shows "log_ok (record_message_id now platform chat_id message_id direction kind s)"
proof -
  let ?key = "make_chat_key platform chat_id"
  define seen where "seen = chat_ids s ?key"
  define items where "items = chat_log s ?key"
  define rec where "rec = \<lparr>lr_message_id = message_id, lr_ts = now, lr_direction = direction, lr_kind = kind\<rparr>"
  define s2 where "s2 = s\<lparr>ss_message_log := dset ?key (items @ [rec]) (ss_message_log s),
      ss_message_log_ids := dset ?key (insert_id message_id seen) (ss_message_log_ids s)\<rparr>"
  from ok have d: "dict_ok (ss_message_log s)" and i: "distinct (map lr_message_id items)" "set seen = set (map lr_message_id items)"
    by (auto simp: log_ok_def items_def seen_def)
  have other: "chat_log s2 k = chat_log s k" "chat_ids s2 k = chat_ids s k" if "k \<noteq> ?key" for k
    using that by (simp_all add: s2_def chat_log_def chat_ids_def dict_simps)
  have this_chat: "chat_log s2 ?key = items @ [rec]" "chat_ids s2 ?key = insert_id message_id seen"
    by (simp_all add: s2_def chat_log_def chat_ids_def dict_simps)
  have cap: "ss_cap s2 = ss_cap s" by (simp add: s2_def)
  show ?thesis
  proof (cases "message_id \<in> set seen")
    case True
    have "chat_ids (s\<lparr>ss_message_log_ids := dset ?key seen (ss_message_log_ids s)\<rparr>) = chat_ids s"
      by (rule ext) (simp add: chat_ids_def dict_simps seen_def)
    moreover have "record_message_id now platform chat_id message_id direction kind s
        = s\<lparr>ss_message_log_ids := dset ?key seen (ss_message_log_ids s)\<rparr>"
      using True unfolding record_message_id_def Let_def chat_ids_def [symmetric] seen_def [symmetric] by simp
    ultimately show ?thesis using ok by (simp add: log_ok_def chat_log_def)
  next
    case False
    have new: "distinct (map lr_message_id (items @ [rec]))" "set (insert_id message_id seen) = set (map lr_message_id (items @ [rec]))"
      using i False by (auto simp: rec_def insert_id_def)
    have run: "record_message_id now platform chat_id message_id direction kind s = schedule_save (apply_cap ?key s2)"
      using False unfolding record_message_id_def Let_def chat_ids_def [symmetric] seen_def [symmetric]
      by (simp add: s2_def rec_def items_def chat_log_def)
    have "log_ok (apply_cap ?key s2)"
    proof (cases "\<exists>c. ss_cap s = Some c \<and> 0 < c \<and> c < int (length (items @ [rec]))")
      case True
      then obtain c where c: "ss_cap s = Some c" "0 < c" "c < int (length (items @ [rec]))" by blast
      let ?kept = "slice_tail c (items @ [rec])"
      have a: "apply_cap ?key s2 = s2\<lparr>ss_message_log := dset ?key ?kept (ss_message_log s2),
          ss_message_log_ids := dset ?key (remdups (map lr_message_id ?kept)) (ss_message_log_ids s2)\<rparr>"
        using c cap this_chat(1) by (simp add: apply_cap_def Let_def chat_log_def)
      have "int (length ?kept) \<le> c" using c(2) length_slice_tail [OF c(2), of "items @ [rec]"] by simp
      moreover have "distinct (map lr_message_id ?kept)" by (rule distinct_slice [OF new(1)])
      ultimately show ?thesis
        using ok other d c cap unfolding a log_ok_def chat_log_def chat_ids_def
        by (auto simp: dict_simps s2_def)
    next
      case no: False
      then have a: "apply_cap ?key s2 = s2"
        using cap this_chat(1) by (auto simp: apply_cap_def Let_def chat_log_def split: option.split)
      have "int (length (chat_log s2 k)) \<le> c" if "ss_cap s2 = Some c" "0 < c" for k c
        using no ok other [of k] this_chat that cap by (cases "k = ?key") (auto simp: log_ok_def)
      moreover have "distinct (map lr_message_id (chat_log s2 k)) \<and> set (chat_ids s2 k) = set (map lr_message_id (chat_log s2 k))" for k
        using ok other [of k] this_chat new by (cases "k = ?key") (auto simp: log_ok_def)
      moreover have "dict_ok (ss_message_log s2)" using d by (simp add: s2_def)
      ultimately show ?thesis unfolding a log_ok_def by simp
    qed
    with run show ?thesis by simp
  qed
qed

lemma log_ok_same:
  "ss_message_log s' = ss_message_log s \<Longrightarrow> ss_message_log_ids s' = ss_message_log_ids s \<Longrightarrow> ss_cap s' = ss_cap s
     \<Longrightarrow> log_ok s' = log_ok s"
  by (simp add: log_ok_def chat_log_def chat_ids_def)

lemma log_ok_change: "log_ok s \<Longrightarrow> log_ok (change_store c s)"
proof (cases c)
  case (Record now p ch i d k)
  assume "log_ok s"
  with Record show ?thesis by (simp add: log_ok_record)
next
  case (SaveTree r t)
  assume "log_ok s"
  with SaveTree show ?thesis
    by (auto simp: save_tree_def Let_def schedule_save_def log_ok_def chat_log_def chat_ids_def split: sum.split)
next
  case (RemoveTree r)
  assume "log_ok s"
  with RemoveTree show ?thesis
    by (auto simp: remove_tree_def Let_def schedule_save_def log_ok_def chat_log_def chat_ids_def split: sum.split option.split)
qed (auto simp: register_node_def remove_node_mappings_def sync_from_tree_data_def schedule_save_def log_ok_def
      chat_log_def chat_ids_def)

text \<open>Whatever is recorded and saved, in every chat no message identifier is logged twice, the duplicate
  check sees exactly the identifiers of the log, and no log exceeds a positive cap.\<close>
theorem message_log_consistent: "log_ok (fold change_store cs (store_init cap))"
proof -
  have "log_ok (store_init cap)" by (simp add: log_ok_def store_init_def chat_log_def chat_ids_def)
  then have "log_ok (fold change_store cs s)" if "log_ok s" for s
    using that by (induction cs arbitrary: s) (simp_all add: log_ok_change)
  then show ?thesis using \<open>log_ok (store_init cap)\<close> .
qed

section \<open>Loading what was saved\<close>

lemma clean_items_values:
  "distinct (map lr_message_id rs) \<Longrightarrow> set (map lr_message_id rs) \<inter> set seen = {} \<Longrightarrow>
     clean_items rp (map record_value rs) seen = (rs, seen @ map lr_message_id rs)"
proof (induction rs arbitrary: seen)
  case (Cons r rs)
  from Cons.IH [of "seen @ [lr_message_id r]"] Cons.prems show ?case
    by (auto simp: record_value_def dget_or_def py_str_def str_or_empty_def Let_def)
qed simp

lemma dget_map_values: "dget (map (map_prod id f) d) k = map_option f (dget d k)"
  by (induction d) auto

lemma str_dict_values: "str_dict (PDict (map (map_prod id PStr) d)) = Inr d"
  unfolding str_dict_def by (induction d) auto

lemma load_chats:
  assumes "dict_ok chats" "\<And>k rs. (k, rs) \<in> set chats \<Longrightarrow> distinct (map lr_message_id rs)"
    "set (dkeys (ss_message_log s)) \<inter> set (dkeys chats) = {}"
    "set (dkeys (ss_message_log_ids s)) \<inter> set (dkeys chats) = {}"
  shows "fold (load_chat rp) (map (map_prod id (\<lambda>rs. PList (map record_value rs))) chats) s
    = s\<lparr>ss_message_log := ss_message_log s @ chats,
        ss_message_log_ids := ss_message_log_ids s @ map (map_prod id (map lr_message_id)) chats\<rparr>"
  using assms
proof (induction chats arbitrary: s)
  case (Cons x chats)
  obtain k rs where x: "x = (k, rs)" by force
  have "distinct (map lr_message_id rs)" by (rule Cons.prems(2) [of k]) (simp add: x)
  then have c: "clean_items rp (map record_value rs) [] = (rs, map lr_message_id rs)"
    by (simp add: clean_items_values)
  have l: "load_chat rp (k, PList (map record_value rs)) s = s\<lparr>ss_message_log := ss_message_log s @ [(k, rs)],
      ss_message_log_ids := ss_message_log_ids s @ [(k, map lr_message_id rs)]\<rparr>"
    using Cons.prems(3,4) x c by (simp add: load_chat_def dset_new)
  show ?case
    using Cons.prems Cons.IH [of "s\<lparr>ss_message_log := ss_message_log s @ [(k, rs)],
        ss_message_log_ids := ss_message_log_ids s @ [(k, map lr_message_id rs)]\<rparr>"] x l
    by auto
qed simp

text \<open>A store with one message.\<close>

definition one_message :: session_store where
  "one_message = record_message_id (lit ''t'') (lit ''telegram'') (lit ''1'') (lit ''m1'') (lit ''in'') (lit ''command'') (store_init None)"

lemma one_message_ok: "log_ok one_message"
  using message_log_consistent [of "[Record (lit ''t'') (lit ''telegram'') (lit ''1'') (lit ''m1'') (lit ''in'') (lit ''command'')]" None]
  by (simp add: one_message_def)

text \<open>A store opened on the file a consistent store has written has the same trees, the same mapping and
  the same message log, and knows the same identifiers in every chat.\<close>
theorem session_store_roundtrip:
  assumes "log_ok s"
  shows "\<exists>s'. open_store rp cap (Some (snapshot s)) = Inr s' \<and> ss_trees s' = ss_trees s
    \<and> ss_node_to_tree s' = ss_node_to_tree s \<and> ss_message_log s' = ss_message_log s
    \<and> (\<forall>key. set (chat_ids s' key) = set (chat_ids s key)) \<and> \<not> ss_dirty s'"
proof -
  let ?s = "(store_init cap)\<lparr>ss_trees := ss_trees s, ss_node_to_tree := ss_node_to_tree s, ss_message_log := [], ss_message_log_ids := []\<rparr>"
  let ?log = "ss_message_log s"
  let ?s' = "?s\<lparr>ss_message_log := ?log, ss_message_log_ids := map (map_prod id (map lr_message_id)) ?log\<rparr>"
  have d: "dict_ok ?log" using assms by (simp add: log_ok_def)
  have dist: "distinct (map lr_message_id rs)" if "(k, rs) \<in> set ?log" for k rs
    using assms that d by (auto simp: log_ok_def chat_log_def dest!: spec [of _ k])
  have f: "fold (load_chat rp) (map (map_prod id (\<lambda>rs. PList (map record_value rs))) ?log) ?s = ?s'"
    using load_chats [where s = ?s and rp = rp, OF d dist] by simp
  have "open_store rp cap (Some (snapshot s)) = Inr ?s'"
  proof (cases "?log = []")
    case True
    with f show ?thesis
      by (simp add: open_store_def load_data_def snapshot_def dget_or_def str_dict_values Let_def)
  next
    case False
    with f show ?thesis
      by (simp add: open_store_def load_data_def snapshot_def dget_or_def str_dict_values Let_def)
  qed
  moreover have "set (chat_ids ?s' key) = set (chat_ids s key)" for key
  proof -
    have "set (chat_ids ?s' key) = set (map lr_message_id (chat_log s key))"
      by (cases "dget ?log key") (simp_all add: chat_ids_def chat_log_def dget_map_values)
    with assms show ?thesis by (simp add: log_ok_def)
  qed
  ultimately show ?thesis by (simp add: store_init_def)
qed


text \<open>The round trip of a store with one message.\<close>
theorem session_store_roundtrip_witness:
  "\<exists>s'. open_store (\<lambda>_. []) (Some 5) (Some (snapshot one_message)) = Inr s'
     \<and> map lr_message_id (chat_log s' (lit ''telegram:1'')) = [lit ''m1'']"
proof -
  obtain s' where "open_store (\<lambda>_. []) (Some 5) (Some (snapshot one_message)) = Inr s'"
      "ss_message_log s' = ss_message_log one_message"
    using session_store_roundtrip [OF one_message_ok, of "\<lambda>_. []" "Some 5"] by blast
  moreover have "map lr_message_id (chat_log one_message (lit ''telegram:1'')) = [lit ''m1'']"
    by code_simp
  ultimately show ?thesis by (auto simp: chat_log_def)
qed

section \<open>Saving what was changed\<close>

text \<open>The changes the program makes: a saved tree has readable nodes, and a removed tree is not an empty one.\<close>

definition proper_change :: "store_change \<Rightarrow> session_store \<Rightarrow> bool" where
  "proper_change c s =
     (case c of
        SaveTree root_id tree_data \<Rightarrow> \<not> isl (node_ids tree_data)
      | RemoveTree root_id \<Rightarrow>
          (case get_tree root_id s of None \<Rightarrow> True | Some t \<Rightarrow> truthy t \<and> \<not> isl (node_ids t))
      | _ \<Rightarrow> True)"

text \<open>Steps of a store whose saves never overlap: a snapshot is taken only once the one before it is written.\<close>

inductive quiet_step :: "store_system \<Rightarrow> store_system \<Rightarrow> bool" where
  change: "proper_change c (sy_store w) \<Longrightarrow> quiet_step w (w\<lparr>sy_store := change_store c (sy_store w)\<rparr>)"
| clear: "sy_writes w = [] \<Longrightarrow> clear_all (sy_store w) = (s, data) \<Longrightarrow>
     quiet_step w (w\<lparr>sy_store := s, sy_writes := [data]\<rparr>)"
| fire: "sy_writes w = [] \<Longrightarrow> timer_fires (sy_store w) = (s, data) \<Longrightarrow>
     quiet_step w (w\<lparr>sy_store := s, sy_writes := (case data of None \<Rightarrow> [] | Some d \<Rightarrow> [d])\<rparr>)"
| flush: "sy_writes w = [] \<Longrightarrow> flush_save (sy_store w) = (s, data) \<Longrightarrow>
     quiet_step w (w\<lparr>sy_store := s, sy_writes := [data]\<rparr>)"
| written: "sy_writes w = [d] \<Longrightarrow> write_data outcome d (sy_store w) (sy_file w) = (s, file) \<Longrightarrow>
     quiet_step w (w\<lparr>sy_store := s, sy_file := file, sy_writes := []\<rparr>)"

text \<open>Nothing is lost: the store is dirty, or its snapshot is on its way to the file, or in it.\<close>

definition on_file :: "store_system \<Rightarrow> bool" where
  "on_file w \<longleftrightarrow> snapshot (sy_store w)
     = (case sy_file w of None \<Rightarrow> snapshot (store_init None) | Some data \<Rightarrow> data)"

definition saved :: "store_system \<Rightarrow> bool" where
  "saved w \<longleftrightarrow> ss_dirty (sy_store w) \<or> sy_writes w = [snapshot (sy_store w)] \<or> (sy_writes w = [] \<and> on_file w)"

lemma snapshot_flags [simp]:
  "snapshot (s\<lparr>ss_timer := t\<rparr>) = snapshot s" "snapshot (s\<lparr>ss_dirty := b\<rparr>) = snapshot s"
  "snapshot (s\<lparr>ss_message_log_ids := ids\<rparr>) = snapshot s"
  by (simp_all add: snapshot_def)

lemma change_marks_dirty:
  "proper_change c s \<Longrightarrow> ss_dirty (change_store c s) \<or>
     (snapshot (change_store c s) = snapshot s \<and> ss_dirty (change_store c s) = ss_dirty s)"
proof (cases c)
  case (Record now p ch i d k)
  then show ?thesis by (simp add: record_message_id_def Let_def schedule_save_def)
next
  case (SaveTree r t)
  assume "proper_change c s"
  with SaveTree show ?thesis
    by (auto simp: proper_change_def save_tree_def Let_def schedule_save_def split: sum.splits)
next
  case (RemoveTree r)
  assume p: "proper_change c s"
  show ?thesis
  proof (cases "dget (ss_trees s) r")
    case None
    then have "ddel r (ss_trees s) = ss_trees s" by (simp add: AList.delete_id map_of_eq_None_iff)
    with None show ?thesis by (simp add: RemoveTree remove_tree_def Let_def)
  next
    case (Some t)
    with p RemoveTree show ?thesis
      by (auto simp: proper_change_def get_tree_def remove_tree_def Let_def schedule_save_def split: sum.splits)
  qed
qed (simp_all add: register_node_def remove_node_mappings_def sync_from_tree_data_def schedule_save_def)

lemma quiet_step_saved: "quiet_step w w' \<Longrightarrow> saved w \<Longrightarrow> saved w'"
proof (induction rule: quiet_step.induct)
  case (change c w)
  with change_marks_dirty [OF change.hyps] show ?case by (auto simp: saved_def on_file_def)
next
  case (fire w s data)
  then show ?case by (auto simp: saved_def on_file_def timer_fires_def split: if_splits)
next
  case (written w d outcome s f)
  then show ?case by (cases outcome) (auto simp: saved_def on_file_def write_data_def)
qed (auto simp: saved_def clear_all_def flush_save_def Let_def)

text \<open>C12: as long as no save starts while the write of another is going on, no change is ever lost,
  whichever writes fail: the store is marked dirty, or its present contents are being written, or they are
  what the file holds.\<close>
theorem changes_not_lost: "quiet_step\<^sup>*\<^sup>* w w' \<Longrightarrow> saved w \<Longrightarrow> saved w'"
  by (induction rule: rtranclp_induct) (auto intro: quiet_step_saved)

definition fresh_system :: store_system where
  "fresh_system = \<lparr>sy_store = store_init None, sy_file = None, sy_writes = []\<rparr>"

definition record_one :: "pystr \<Rightarrow> store_change" where
  "record_one i = Record (lit ''t'') (lit ''telegram'') (lit ''1'') i (lit ''in'') (lit ''command'')"

text \<open>A message recorded on a new store.\<close>
theorem changes_not_lost_witness:
  "saved (fresh_system\<lparr>sy_store := change_store (record_one (lit ''m1'')) (sy_store fresh_system)\<rparr>)"
proof (rule changes_not_lost)
  show "quiet_step\<^sup>*\<^sup>* fresh_system
      (fresh_system\<lparr>sy_store := change_store (record_one (lit ''m1'')) (sy_store fresh_system)\<rparr>)"
    by (rule r_into_rtranclp, rule quiet_step.change) (simp add: proper_change_def record_one_def)
  show "saved fresh_system" by (simp add: saved_def on_file_def fresh_system_def store_init_def)
qed

text \<open>Two saves that overlap. The first timer has taken its snapshot and waits for the file; a second message
  is recorded and saved; then the first snapshot is written over the second.\<close>

definition raced :: store_system where
  "raced =
     (let s1 = change_store (record_one (lit ''m1'')) (store_init None);
          s2 = change_store (record_one (lit ''m2'')) (fst (timer_fires s1))
      in \<lparr>sy_store = fst (timer_fires s2), sy_file = Some (snapshot s1), sy_writes = []\<rparr>)"

lemma overlapping_saves:
  fixes s0 :: session_store
  assumes "change_store c1 s0 = s1" "timer_fires s1 = (t1, Some d1)" "change_store c2 t1 = s2"
    "timer_fires s2 = (t2, Some d2)"
  shows "store_step\<^sup>*\<^sup>* \<lparr>sy_store = s0, sy_file = f, sy_writes = []\<rparr> \<lparr>sy_store = t2, sy_file = Some d1, sy_writes = []\<rparr>"
proof -
  let ?w = "\<lambda>s f ds. \<lparr>sy_store = s, sy_file = f, sy_writes = ds\<rparr>"
  have "store_step\<^sup>*\<^sup>* (?w s0 f []) (?w s1 f [])"
    using store_step.change [of "?w s0 f []" c1] assms(1) by (intro r_into_rtranclp) simp
  also have "store_step (?w s1 f []) (?w t1 f [d1])"
    using store_step.fire [of "?w s1 f []" t1 "Some d1"] assms(2) by simp
  also have "store_step (?w t1 f [d1]) (?w s2 f [d1])"
    using store_step.change [of "?w t1 f [d1]" c2] assms(3) by simp
  also have "store_step (?w s2 f [d1]) (?w t2 f [d1, d2])"
    using store_step.fire [of "?w s2 f [d1]" t2 "Some d2"] assms(4) by simp
  also have "store_step (?w t2 f [d1, d2]) (?w t2 (Some d2) [d1])"
    using store_step.written [of 1 "?w t2 f [d1, d2]" Written] by (simp add: write_data_def)
  also have "store_step (?w t2 (Some d2) [d1]) (?w t2 (Some d1) [])"
    using store_step.written [of 0 "?w t2 (Some d2) [d1]" Written] by (simp add: write_data_def)
  finally show ?thesis .
qed

lemma raced_reachable: "store_step\<^sup>*\<^sup>* fresh_system raced"
proof -
  define s1 where "s1 = change_store (record_one (lit ''m1'')) (store_init None)"
  define s2 where "s2 = change_store (record_one (lit ''m2'')) (fst (timer_fires s1))"
  have fires: "timer_fires s = (fst (timer_fires s), Some (snapshot s))" if "ss_dirty s" for s
    using that by (simp add: timer_fires_def)
  have "ss_dirty (change_store (record_one (lit ''m1'')) (store_init None))" by code_simp
  then have d1: "ss_dirty s1" by (simp only: s1_def)
  have "ss_dirty (change_store (record_one (lit ''m2''))
      (fst (timer_fires (change_store (record_one (lit ''m1'')) (store_init None)))))" by code_simp
  then have d2: "ss_dirty s2" by (simp only: s1_def s2_def)
  have "raced = \<lparr>sy_store = fst (timer_fires s2), sy_file = Some (snapshot s1), sy_writes = []\<rparr>"
    by (simp only: raced_def Let_def s1_def s2_def)
  moreover note overlapping_saves [OF s1_def [symmetric] fires [OF d1] s2_def [symmetric] fires [OF d2], of None]
  ultimately show ?thesis by (simp only: fresh_system_def)
qed

text \<open>Overlapping saves can lose a change for good: a store can be clean, with no timer running and no
  write going on, although the file lacks a message the store holds.\<close>
theorem overlapping_saves_lose_changes:
  "\<exists>w. store_step\<^sup>*\<^sup>* fresh_system w \<and> \<not> ss_dirty (sy_store w) \<and> \<not> ss_timer (sy_store w) \<and> sy_writes w = []
     \<and> \<not> on_file w"
proof (intro exI conjI)
  show "store_step\<^sup>*\<^sup>* fresh_system raced" by (rule raced_reachable)
  show "\<not> on_file raced" by code_simp
qed code_simp+

end
