(* ===== verification/CliManager.thy ===== *)
theory CliManager
  imports Prelude
begin

text \<open>
  \<open>cli/manager.py\<close>: the pool of command line sessions. A session object is a number; the operations run
  under the lock of the manager and are steps of their own. The calls of \<open>stop\<close> on sessions are recorded, as
  the model has no processes here. The random part of a temporary identifier is an input.
\<close>

section \<open>The manager\<close>

record cli_manager =
  cm_sessions :: "(pystr, nat) dict"
  cm_pending_sessions :: "(pystr, nat) dict"
  cm_temp_to_real :: "(pystr, pystr) dict"
  cm_real_to_temp :: "(pystr, pystr) dict"
  cm_stopped :: "nat list" \<comment> \<open>the calls of \<open>stop\<close>\<close>

definition cli_manager_init :: cli_manager where
  "cli_manager_init = \<lparr>cm_sessions = [], cm_pending_sessions = [], cm_temp_to_real = [], cm_real_to_temp = [], cm_stopped = []\<rparr>"

definition session_given :: "pystr option \<Rightarrow> bool" where
  "session_given x = (case x of None \<Rightarrow> False | Some s \<Rightarrow> s \<noteq> [])"

definition create_session :: "pystr \<Rightarrow> nat \<Rightarrow> cli_manager \<Rightarrow> cli_manager \<times> nat \<times> pystr \<times> bool" where
  "create_session temp_id new m =
     (m\<lparr>cm_pending_sessions := dset temp_id new (cm_pending_sessions m)\<rparr>, new, temp_id, True)"

definition get_or_create_session ::
    "pystr \<Rightarrow> nat \<Rightarrow> pystr option \<Rightarrow> cli_manager \<Rightarrow> cli_manager \<times> nat \<times> pystr \<times> bool" where
  "get_or_create_session uuid new session_id m =
     (if session_given session_id
      then let sid = the session_id;
               lookup_id = (case dget (cm_temp_to_real m) sid of Some r \<Rightarrow> r | None \<Rightarrow> sid)
           in case dget (cm_sessions m) lookup_id of
                Some s \<Rightarrow> (m, s, lookup_id, False)
              | None \<Rightarrow>
                  (case dget (cm_pending_sessions m) lookup_id of
                     Some s \<Rightarrow> (m, s, lookup_id, False)
                   | None \<Rightarrow> create_session sid new m)
      else create_session (lit ''pending_'' @ uuid) new m)"

definition register_real_session_id :: "pystr \<Rightarrow> pystr \<Rightarrow> cli_manager \<Rightarrow> cli_manager \<times> bool" where
  "register_real_session_id temp_id real_session_id m =
     (case dget (cm_pending_sessions m) temp_id of
        None \<Rightarrow> (m, False)
      | Some session \<Rightarrow>
          (m\<lparr>cm_pending_sessions := ddel temp_id (cm_pending_sessions m),
             cm_sessions := dset real_session_id session (cm_sessions m),
             cm_temp_to_real := dset temp_id real_session_id (cm_temp_to_real m),
             cm_real_to_temp := dset real_session_id temp_id (cm_real_to_temp m)\<rparr>, True))"

text \<open>The same with a list or a dictionary for the identifier of the tool. The pending session is taken out
  before the identifier turns out to be no key of a dictionary, which raises.\<close>

definition register_unhashable_id :: "pystr \<Rightarrow> cli_manager \<Rightarrow> cli_manager \<times> bool result" where
  "register_unhashable_id temp_id m =
     (case dget (cm_pending_sessions m) temp_id of
        None \<Rightarrow> (m, Inr False)
      | Some _ \<Rightarrow> (m\<lparr>cm_pending_sessions := ddel temp_id (cm_pending_sessions m)\<rparr>, Inl TypeError))"

definition remove_session :: "pystr \<Rightarrow> cli_manager \<Rightarrow> cli_manager \<times> bool" where
  "remove_session session_id m =
     (case dget (cm_pending_sessions m) session_id of
        Some session \<Rightarrow>
          (m\<lparr>cm_pending_sessions := ddel session_id (cm_pending_sessions m), cm_stopped := cm_stopped m @ [session]\<rparr>, True)
      | None \<Rightarrow>
          (case dget (cm_sessions m) session_id of
             Some session \<Rightarrow>
               (m\<lparr>cm_sessions := ddel session_id (cm_sessions m), cm_stopped := cm_stopped m @ [session],
                  cm_real_to_temp := ddel session_id (cm_real_to_temp m),
                  cm_temp_to_real := (case dget (cm_real_to_temp m) session_id of
                     Some temp_id \<Rightarrow> ddel temp_id (cm_temp_to_real m) | None \<Rightarrow> cm_temp_to_real m)\<rparr>, True)
           | None \<Rightarrow> (m, False)))"

text \<open>A failing \<open>stop\<close> does not keep the others from being stopped.\<close>

definition stop_all :: "cli_manager \<Rightarrow> cli_manager" where
  "stop_all m = \<lparr>cm_sessions = [], cm_pending_sessions = [], cm_temp_to_real = [], cm_real_to_temp = [],
     cm_stopped = cm_stopped m @ dvalues (cm_sessions m) @ dvalues (cm_pending_sessions m)\<rparr>"

definition get_stats :: "(nat \<Rightarrow> bool) \<Rightarrow> cli_manager \<Rightarrow> nat \<times> nat \<times> nat" where
  "get_stats busy m = (length (cm_sessions m), length (cm_pending_sessions m), length (filter busy (dvalues (cm_sessions m))))"

section \<open>A session is released however its task goes\<close>

text \<open>What the tasks of the program do with the manager.\<close>

datatype manager_op =
    Create pystr nat
  | RegisterReal pystr pystr
  | Remove pystr
  | StopAll

fun manager_step :: "manager_op \<Rightarrow> cli_manager \<Rightarrow> cli_manager" where
  "manager_step (Create uuid new) m = fst (get_or_create_session uuid new None m)"
| "manager_step (RegisterReal temp_id real_session_id) m = fst (register_real_session_id temp_id real_session_id m)"
| "manager_step (Remove session_id) m = fst (remove_session session_id m)"
| "manager_step StopAll m = stop_all m"

text \<open>Operations of other tasks use other identifiers.\<close>

definition temp_of :: "pystr \<Rightarrow> pystr" where
  "temp_of uuid = lit ''pending_'' @ uuid"

fun unrelated :: "pystr \<Rightarrow> pystr option \<Rightarrow> nat \<Rightarrow> manager_op \<Rightarrow> bool" where
  "unrelated uuid rid s (Create uuid' new) \<longleftrightarrow> uuid' \<noteq> uuid \<and> new \<noteq> s \<and> Some (temp_of uuid') \<noteq> rid"
| "unrelated uuid rid s (RegisterReal temp_id real_id) \<longleftrightarrow> temp_id \<noteq> temp_of uuid \<and> Some real_id \<noteq> rid"
| "unrelated uuid rid s (Remove k) \<longleftrightarrow> k \<noteq> temp_of uuid \<and> Some k \<noteq> rid"
| "unrelated uuid rid s StopAll \<longleftrightarrow> True"

definition session_held :: "cli_manager \<Rightarrow> nat \<Rightarrow> bool" where
  "session_held m s \<longleftrightarrow> (\<exists>k. dget (cm_pending_sessions m) k = Some s \<or> dget (cm_sessions m) k = Some s)"

definition released :: "nat \<Rightarrow> cli_manager \<Rightarrow> bool" where
  "released s m \<longleftrightarrow> s \<in> set (cm_stopped m) \<and> \<not> session_held m s"

definition pends_at :: "nat \<Rightarrow> pystr \<Rightarrow> cli_manager \<Rightarrow> bool" where
  "pends_at s k m \<longleftrightarrow> (\<forall>j. dget (cm_pending_sessions m) j = Some s \<longleftrightarrow> j = k) \<and> (\<forall>j. dget (cm_sessions m) j \<noteq> Some s)"

definition runs_at :: "nat \<Rightarrow> pystr \<Rightarrow> cli_manager \<Rightarrow> bool" where
  "runs_at s k m \<longleftrightarrow> (\<forall>j. dget (cm_sessions m) j = Some s \<longleftrightarrow> j = k) \<and> (\<forall>j. dget (cm_pending_sessions m) j \<noteq> Some s)"

definition not_pending :: "pystr option \<Rightarrow> cli_manager \<Rightarrow> bool" where
  "not_pending rid m \<longleftrightarrow> (case rid of None \<Rightarrow> True | Some r \<Rightarrow> dget (cm_pending_sessions m) r = None)"

lemmas manager_defs = get_or_create_session_def create_session_def session_given_def register_real_session_id_def
  remove_session_def stop_all_def temp_of_def

lemma dget_in_dvalues: "dget d k = Some v \<Longrightarrow> v \<in> set (dvalues d)"
  by (force dest: map_of_SomeD)

lemma stop_all_releases: "session_held m s \<or> s \<in> set (cm_stopped m) \<Longrightarrow> released s (stop_all m)"
  by (auto simp: released_def session_held_def stop_all_def dest: dget_in_dvalues)

lemma unrelated_released: "released s m \<Longrightarrow> unrelated uuid rid s op \<Longrightarrow> released s (manager_step op m)"
proof (induction op)
  case StopAll
  then show ?case by (simp add: stop_all_releases [unfolded released_def] released_def)
qed (auto simp: released_def session_held_def manager_defs dict_simps split: option.splits if_splits)

lemma unrelated_pends:
  assumes "pends_at s (temp_of uuid) m" "unrelated uuid rid s op"
  shows "pends_at s (temp_of uuid) (manager_step op m) \<or> released s (manager_step op m)"
  using assms
proof (induction op)
  case StopAll
  then show ?case by (auto simp: pends_at_def session_held_def intro!: stop_all_releases)
qed (auto simp: pends_at_def manager_defs dict_simps split: option.splits if_splits)

lemma unrelated_runs:
  assumes "runs_at s r m" "unrelated uuid (Some r) s op"
  shows "runs_at s r (manager_step op m) \<or> released s (manager_step op m)"
  using assms
proof (induction op)
  case StopAll
  then show ?case by (auto simp: runs_at_def session_held_def intro!: stop_all_releases)
qed (auto simp: runs_at_def manager_defs dict_simps split: option.splits if_splits)

lemma unrelated_not_pending: "not_pending rid m \<Longrightarrow> unrelated uuid rid s op \<Longrightarrow> not_pending rid (manager_step op m)"
  by (induction op) (auto simp: not_pending_def manager_defs dict_simps split: option.splits if_splits)

lemma pends_at_get: "pends_at s k m \<Longrightarrow> dget (cm_pending_sessions m) k = Some s"
  by (simp add: pends_at_def)

lemma runs_at_get: "runs_at s k m \<Longrightarrow> dget (cm_sessions m) k = Some s"
  by (simp add: runs_at_def)

lemma remove_pending:
  assumes "pends_at s k m"
  shows "released s (fst (remove_session k m))"
proof -
  have "fst (remove_session k m)
      = m\<lparr>cm_pending_sessions := ddel k (cm_pending_sessions m), cm_stopped := cm_stopped m @ [s]\<rparr>"
    by (simp add: remove_session_def pends_at_get [OF assms])
  with assms show ?thesis by (simp add: released_def session_held_def pends_at_def dict_simps)
qed

lemma remove_running:
  assumes "runs_at s k m" "dget (cm_pending_sessions m) k = None"
  shows "released s (fst (remove_session k m))"
proof -
  have "cm_sessions (fst (remove_session k m)) = ddel k (cm_sessions m)"
    "cm_pending_sessions (fst (remove_session k m)) = cm_pending_sessions m"
    "cm_stopped (fst (remove_session k m)) = cm_stopped m @ [s]"
    by (simp_all add: remove_session_def runs_at_get [OF assms(1)] assms(2))
  with assms(1) show ?thesis by (simp add: released_def session_held_def runs_at_def dict_simps)
qed

lemma remove_released: "released s m \<Longrightarrow> released s (fst (remove_session k m))"
  by (auto simp: released_def session_held_def remove_session_def dict_simps split: option.split)

lemma register_moves:
  assumes "pends_at s t m"
  shows "runs_at s r (fst (register_real_session_id t r m))"
proof -
  have "cm_sessions (fst (register_real_session_id t r m)) = dset r s (cm_sessions m)"
    "cm_pending_sessions (fst (register_real_session_id t r m)) = ddel t (cm_pending_sessions m)"
    by (simp_all add: register_real_session_id_def pends_at_get [OF assms])
  with assms show ?thesis by (simp add: pends_at_def runs_at_def dict_simps)
qed

lemma register_keeps:
  "released s m \<Longrightarrow> released s (fst (register_real_session_id t r m))"
  "not_pending (Some r) m \<Longrightarrow> not_pending (Some r) (fst (register_real_session_id t r m))"
  by (auto simp: released_def session_held_def not_pending_def register_real_session_id_def dict_simps split: option.split)

lemma unrelated_many:
  assumes "\<And>op m. P m \<Longrightarrow> op \<in> set ops \<Longrightarrow> P (manager_step op m)" "P m"
  shows "P (fold manager_step ops m)"
  using assms by (induction ops arbitrary: m) auto

definition task_ops :: "pystr \<Rightarrow> nat \<Rightarrow> pystr option \<Rightarrow> manager_op list \<Rightarrow> manager_op list \<Rightarrow> manager_op list" where
  "task_ops uuid s rid ops1 ops2 =
     Create uuid s # ops1
     @ (case rid of None \<Rightarrow> [] | Some r \<Rightarrow> [RegisterReal (temp_of uuid) r])
     @ ops2 @ [Remove (case rid of None \<Rightarrow> temp_of uuid | Some r \<Rightarrow> r)]"

lemma task_session_released:
  assumes new: "\<not> session_held m s" and rid: "not_pending rid m" "rid \<noteq> Some (temp_of uuid)"
    and others: "\<And>op. op \<in> set (ops1 @ ops2) \<Longrightarrow> unrelated uuid rid s op"
  shows "released s (fold manager_step (task_ops uuid s rid ops1 ops2) m)"
proof -
  define m1 where "m1 = manager_step (Create uuid s) m"
  define m2 where "m2 = fold manager_step ops1 m1"
  have m1: "pends_at s (temp_of uuid) m1" "not_pending rid m1"
    using new rid by (auto simp: m1_def pends_at_def session_held_def not_pending_def manager_defs dict_simps split: option.split)
  have m2: "(pends_at s (temp_of uuid) m2 \<or> released s m2) \<and> not_pending rid m2"
    unfolding m2_def
    by (rule unrelated_many) (use m1 others unrelated_pends unrelated_released unrelated_not_pending in fastforce)+
  show ?thesis
  proof (cases rid)
    case None
    define m3 where "m3 = fold manager_step ops2 m2"
    have m3: "pends_at s (temp_of uuid) m3 \<or> released s m3"
      unfolding m3_def
      by (rule unrelated_many) (use m2 others unrelated_pends unrelated_released in fastforce)+
    have "released s (manager_step (Remove (temp_of uuid)) m3)"
      using m3 remove_pending remove_released by auto
    then show ?thesis by (simp add: None task_ops_def m1_def m2_def m3_def)
  next
    case (Some r)
    define m3 where "m3 = manager_step (RegisterReal (temp_of uuid) r) m2"
    define m4 where "m4 = fold manager_step ops2 m3"
    have "(runs_at s r m3 \<or> released s m3) \<and> not_pending rid m3"
      using m2 Some register_moves register_keeps by (auto simp: m3_def)
    then have m4: "(runs_at s r m4 \<or> released s m4) \<and> not_pending rid m4"
      unfolding m4_def
      by - (rule unrelated_many, use others unrelated_runs unrelated_released unrelated_not_pending Some in fastforce, simp)
    have "released s (manager_step (Remove r) m4)"
      using m4 Some remove_running remove_released by (auto simp: not_pending_def)
    then show ?thesis by (simp add: Some task_ops_def m1_def m2_def m3_def m4_def)
  qed
qed

text \<open>A session created for a task is stopped and no longer held once the task has removed it, by the
  identifier the tool reported or else by the temporary one, whatever other tasks do in between, a stop of
  everything included.\<close>
theorem session_always_released:
  assumes new: "\<not> session_held m s" and rid: "not_pending rid m" "rid \<noteq> Some (temp_of uuid)"
    and others: "\<And>op. op \<in> set (ops1 @ ops2) \<Longrightarrow> unrelated uuid rid s op"
  shows "released s (fold manager_step (task_ops uuid s rid ops1 ops2) m)"
  using assms by (rule task_session_released)

text \<open>A task that gets its identifier while another one is created and everything is stopped.\<close>
theorem session_always_released_witness:
  "released 1 (fold manager_step
     (task_ops (lit ''a'') 1 (Some (lit ''r'')) [Create (lit ''b'') 2] [StopAll, Remove (lit ''q'')]) cli_manager_init)"
  by (rule session_always_released)
    (auto simp: session_held_def cli_manager_init_def not_pending_def temp_of_def lit_def)

end
