(* ===== verification/CliSession.thy ===== *)
theory CliSession
  imports EventParser "HOL-Library.Word"
begin

text \<open>
  \<open>cli/session.py\<close> and \<open>cli/process_registry.py\<close>: one run of the command line tool. The process is an
  input: the chunks of its standard output, its error output and its exit code, or the point where the
  task is cancelled. The decoding of bytes and \<open>json.loads\<close> (\<open>None\<close> where it raises a decoding error) are
  parameters. The result of a run is the list of events it yields and the way it ends.
\<close>

section \<open>The command\<close>

definition pending_prefix :: pystr where
  "pending_prefix = lit ''pending_''"

definition cli_options :: "pystr \<Rightarrow> pystr list" where
  "cli_options prompt = [lit ''-p'', prompt, lit ''--output-format'', lit ''stream-json'',
     lit ''--dangerously-skip-permissions'', lit ''--verbose'']"

definition resumes :: "pystr option \<Rightarrow> bool" where
  "resumes session_id =
     (case session_id of None \<Rightarrow> False | Some s \<Rightarrow> s \<noteq> [] \<and> \<not> startswith s pending_prefix)"

definition build_command :: "pystr list \<Rightarrow> pystr option \<Rightarrow> pystr \<Rightarrow> pystr option \<Rightarrow> bool \<Rightarrow> pystr list" where
  "build_command allowed_dirs plans_json prompt session_id fork_session =
     (if resumes session_id
      then [lit ''claude'', lit ''--resume'', the session_id]
           @ (if fork_session then [lit ''--fork-session''] else []) @ cli_options prompt
      else lit ''claude'' # cli_options prompt)
     @ concat (map (\<lambda>d. [lit ''--add-dir'', d]) allowed_dirs)
     @ (case plans_json of None \<Rightarrow> [] | Some settings \<Rightarrow> [lit ''--settings'', settings])"

text \<open>The three variables the environment gets besides the fixed ones.\<close>

definition task_env :: "pystr \<Rightarrow> (pystr, pystr) dict \<Rightarrow> (pystr, pystr) dict" where
  "task_env api_url env =
     (let env1 = (if din (lit ''ANTHROPIC_API_KEY'') env then env
                  else dset (lit ''ANTHROPIC_API_KEY'') (lit ''sk-placeholder-key-for-proxy'') env);
          base = (if endswith api_url (lit ''/v1'') then take (length api_url - 3) api_url else api_url)
      in dset (lit ''PYTHONIOENCODING'') (lit ''utf-8'') (dset (lit ''TERM'') (lit ''dumb'')
           (dset (lit ''ANTHROPIC_BASE_URL'') base (dset (lit ''ANTHROPIC_API_URL'') api_url env1))))"

section \<open>Lines of output\<close>

definition nested_id :: "event \<Rightarrow> string \<Rightarrow> pyval option" where
  "nested_id ev key =
     (case dget ev (lit key) of
        Some (PDict nested) \<Rightarrow>
          (case dget nested (lit ''session_id'') of Some v \<Rightarrow> Some v | None \<Rightarrow> dget nested (lit ''sessionId''))
      | _ \<Rightarrow> None)"

fun first_some :: "'a option list \<Rightarrow> 'a option" where
  "first_some [] = None"
| "first_some (x # xs) = (case x of Some v \<Rightarrow> Some v | None \<Rightarrow> first_some xs)"

definition conversation_id :: "event \<Rightarrow> pyval option" where
  "conversation_id ev =
     (case dget ev (lit ''conversation'') of Some (PDict conv) \<Rightarrow> dget conv (lit ''id'') | _ \<Rightarrow> None)"

definition extract_session_id :: "pyval \<Rightarrow> pyval" where
  "extract_session_id ev =
     (case ev of
        PDict d \<Rightarrow>
          (case first_some [dget d (lit ''session_id''), dget d (lit ''sessionId''),
               nested_id d ''init'', nested_id d ''system'', nested_id d ''result'', nested_id d ''metadata'',
               conversation_id d] of
             Some v \<Rightarrow> v | None \<Rightarrow> PNone)
      | _ \<Rightarrow> PNone)"

definition session_info :: "pyval \<Rightarrow> pyval" where
  "session_info v = PDict [ev_type ''session_info'', (lit ''session_id'', v)]"

record line_state =
  ls_extracted :: bool
  ls_session_id :: pyval

text \<open>\<open>_handle_line_gen\<close>: the events of one line, and the session identifier it stores.\<close>

definition handle_line :: "(pystr \<Rightarrow> pyval option) \<Rightarrow> pystr \<Rightarrow> line_state \<Rightarrow> pyval list \<times> line_state" where
  "handle_line loads line_str s =
     (case loads line_str of
        None \<Rightarrow> ([PDict [ev_type ''raw'', (lit ''content'', PStr line_str)]], s)
      | Some ev \<Rightarrow>
          (let v = extract_session_id ev
           in if \<not> ls_extracted s \<and> truthy v then ([session_info v, ev], s\<lparr>ls_session_id := v\<rparr>)
              else ([ev], s)))"

text \<open>The consumer of these events reads their type, which fails for a value that is no dictionary. An
  exception ends the generator; it is the last component of the result.\<close>

type_synonym line_result = "pyval list \<times> line_state \<times> py_error option"

fun pass_events :: "pyval list \<Rightarrow> line_state \<Rightarrow> line_result" where
  "pass_events [] s = ([], s, None)"
| "pass_events (ev # evs) s =
     (case ev of
        PDict d \<Rightarrow>
          (case pass_events evs
                  (if is_str (dget_or d ''type'' PNone) ''session_info'' then s\<lparr>ls_extracted := True\<rparr> else s) of
             (out, r) \<Rightarrow> (ev # out, r))
      | _ \<Rightarrow> ([], s, Some AttributeError))"

type_synonym byte = "8 word"

definition newline_byte :: byte where
  "newline_byte = 10"

definition run_line ::
    "(pystr \<Rightarrow> pyval option) \<Rightarrow> (byte list \<Rightarrow> pystr) \<Rightarrow> byte list \<Rightarrow> line_state \<Rightarrow> line_result" where
  "run_line loads decode bytes s =
     (let line_str = strip (decode bytes)
      in if line_str = [] then ([], s, None)
         else (case handle_line loads line_str s of (evs, s1) \<Rightarrow> pass_events evs s1))"

definition and_then :: "line_result \<Rightarrow> (line_state \<Rightarrow> line_result) \<Rightarrow> line_result" where
  "and_then r f =
     (case r of
        (out, s, Some e) \<Rightarrow> (out, s, Some e)
      | (out, s, None) \<Rightarrow> (case f s of (out', r') \<Rightarrow> (out @ out', r')))"

fun run_lines ::
    "(pystr \<Rightarrow> pyval option) \<Rightarrow> (byte list \<Rightarrow> pystr) \<Rightarrow> byte list list \<Rightarrow> line_state \<Rightarrow> line_result" where
  "run_lines loads decode [] s = ([], s, None)"
| "run_lines loads decode (l # ls) s = and_then (run_line loads decode l s) (run_lines loads decode ls)"

text \<open>The inner loop of the reader: the complete lines of the buffer and what is left of it.\<close>

function drain_lines :: "byte list \<Rightarrow> byte list list \<times> byte list" where
  "drain_lines buffer =
     (case find_sub [newline_byte] buffer of
        None \<Rightarrow> ([], buffer)
      | Some pos \<Rightarrow> (case drain_lines (drop (pos + 1) buffer) of (ls, rest) \<Rightarrow> (take pos buffer # ls, rest)))"
  by auto
termination
  by (relation "measure length") (auto dest: find_sub_bound)

declare drain_lines.simps [simp del]

text \<open>The reading loop, over the chunks that \<open>read\<close> returns before the empty one that ends the output. The
  continuation gets the unfinished line that is left in the buffer.\<close>

fun read_chunks ::
    "(pystr \<Rightarrow> pyval option) \<Rightarrow> (byte list \<Rightarrow> pystr) \<Rightarrow> byte list list \<Rightarrow> byte list
       \<Rightarrow> (byte list \<Rightarrow> line_state \<Rightarrow> line_result) \<Rightarrow> line_state \<Rightarrow> line_result" where
  "read_chunks loads decode [] buffer rest s = rest buffer s"
| "read_chunks loads decode (chunk # chunks) buffer rest s =
     and_then (run_lines loads decode (fst (drain_lines (buffer @ chunk))) s)
       (read_chunks loads decode chunks (snd (drain_lines (buffer @ chunk))) rest)"

definition last_line ::
    "(pystr \<Rightarrow> pyval option) \<Rightarrow> (byte list \<Rightarrow> pystr) \<Rightarrow> byte list \<Rightarrow> line_state \<Rightarrow> line_result" where
  "last_line loads decode buffer s = (if buffer \<noteq> [] then run_line loads decode buffer s else ([], s, None))"

section \<open>One task\<close>

text \<open>What the process does, as far as the task sees it. With \<open>Cancelled\<close> the task is cancelled while it
  waits for the chunk after the given ones; the process has then ended already, or ends on the termination
  signal, or has to be killed.\<close>

datatype stop_reaction = AlreadyEnded | Terminates | Hangs

datatype process_run =
    SpawnFailed py_error
  | NoOutput
  | Finished "byte list list" "byte list" int
  | Cancelled "byte list list" stop_reaction

datatype task_end = Returned | Raised py_error | WasCancelled

datatype process_action = Register int | Unregister int | Terminate | Kill

record cli_session =
  cs_is_busy :: bool
  cs_session_id :: pyval

definition error_output :: "pystr \<Rightarrow> pyval list" where
  "error_output stderr_text =
     (if stderr_text = [] then []
      else [PDict [ev_type ''error'', (lit ''error'', PDict [(lit ''message'', PStr stderr_text)])]])"

definition exit_output :: "int \<Rightarrow> pyval \<Rightarrow> pyval" where
  "exit_output code stderr = PDict [ev_type ''exit'', (lit ''code'', PInt code), (lit ''stderr'', stderr)]"

definition stderr_events :: "(byte list \<Rightarrow> pystr) \<Rightarrow> byte list \<Rightarrow> int \<Rightarrow> pyval list" where
  "stderr_events decode stderr code =
     (if stderr = [] then [exit_output code PNone]
      else let t = strip (decode stderr) in error_output t @ [exit_output code (PStr t)])"

text \<open>The process registry ignores the process number 0.\<close>

definition register_pid :: "int \<Rightarrow> process_action list" where
  "register_pid pid = (if pid = 0 then [] else [Register pid])"

definition unregister_pid :: "int \<Rightarrow> process_action list" where
  "unregister_pid pid = (if pid = 0 then [] else [Unregister pid])"

fun registry_step :: "process_action \<Rightarrow> int set \<Rightarrow> int set" where
  "registry_step (Register pid) pids = insert pid pids"
| "registry_step (Unregister pid) pids = pids - {pid}"
| "registry_step Terminate pids = pids"
| "registry_step Kill pids = pids"

definition kill_all_best_effort :: "int set \<Rightarrow> int set \<times> int set" where
  "kill_all_best_effort pids = ({}, pids)" \<comment> \<open>the new registry and the processes killed\<close>

definition stop_process :: "int \<Rightarrow> stop_reaction \<Rightarrow> process_action list" where
  "stop_process pid reaction =
     (case reaction of
        AlreadyEnded \<Rightarrow> []
      | Terminates \<Rightarrow> Terminate # unregister_pid pid
      | Hangs \<Rightarrow> Terminate # Kill # unregister_pid pid)"

text \<open>The whole task: its events, its end, what it does to processes, and the session after it.\<close>

definition finish_session :: "line_state \<Rightarrow> cli_session \<Rightarrow> cli_session" where
  "finish_session s c = c\<lparr>cs_is_busy := False, cs_session_id := ls_session_id s\<rparr>"

definition start_task ::
    "(pystr \<Rightarrow> pyval option) \<Rightarrow> (byte list \<Rightarrow> pystr) \<Rightarrow> int \<Rightarrow> process_run \<Rightarrow> cli_session
       \<Rightarrow> pyval list \<times> task_end \<times> process_action list \<times> cli_session" where
  "start_task loads decode pid run c0 =
     (let c = c0\<lparr>cs_is_busy := True\<rparr>;
          s0 = \<lparr>ls_extracted = False, ls_session_id = cs_session_id c\<rparr>;
          enter = register_pid pid; leave = unregister_pid pid
      in case run of
           SpawnFailed e \<Rightarrow> ([], Raised e, [], finish_session s0 c)
         | NoOutput \<Rightarrow> ([PDict [ev_type ''exit'', (lit ''code'', PInt 1)]], Returned, enter @ leave, finish_session s0 c)
         | Finished chunks stderr code \<Rightarrow>
             (case read_chunks loads decode chunks [] (last_line loads decode) s0 of
                (out, s, Some e) \<Rightarrow> (out, Raised e, enter @ leave, finish_session s c)
              | (out, s, None) \<Rightarrow>
                  (out @ stderr_events decode stderr code, Returned, enter @ leave, finish_session s c))
         | Cancelled chunks reaction \<Rightarrow>
             (case read_chunks loads decode chunks [] (\<lambda>buffer s. ([], s, None)) s0 of
                (out, s, Some e) \<Rightarrow> (out, Raised e, enter @ leave, finish_session s c)
              | (out, s, None) \<Rightarrow>
                  (out, WasCancelled, enter @ stop_process pid reaction @ leave, finish_session s c)))"

section \<open>The cutting of the output into chunks does not matter\<close>

text \<open>The lines of the whole output.\<close>

fun lines_of :: "byte list \<Rightarrow> byte list list" where
  "lines_of [] = []"
| "lines_of (b # bs) =
     (if b = newline_byte then [] # lines_of bs
      else case lines_of bs of [] \<Rightarrow> [[b]] | l # ls \<Rightarrow> (b # l) # ls)"

lemma lines_of_newline: "newline_byte \<notin> set l \<Longrightarrow> lines_of (l @ newline_byte # r) = l # lines_of r"
  by (induction l) auto

lemma lines_of_last: "newline_byte \<notin> set l \<Longrightarrow> lines_of l = (if l = [] then [] else [l])"
  by (induction l) auto

lemma first_newline:
  assumes "find_sub [newline_byte] b = Some pos"
  shows "b = take pos b @ newline_byte # drop (pos + 1) b \<and> newline_byte \<notin> set (take pos b)"
proof -
  from find_sub_SomeD [OF assms] find_sub_bound [OF assms]
  have p: "pos < length b" "prefix [newline_byte] (drop pos b)" "\<forall>j < pos. \<not> prefix [newline_byte] (drop j b)"
    by auto
  have at_pos: "b ! pos = newline_byte" using p(1,2) by (auto simp: prefix_def Cons_nth_drop_Suc [symmetric])
  have "b ! j \<noteq> newline_byte" if "j < pos" for j
    using p that by (auto simp: prefix_def Cons_nth_drop_Suc [symmetric])
  then have "newline_byte \<notin> set (take pos b)" using p(1) by (auto simp: in_set_conv_nth)
  with at_pos p(1) show ?thesis by (metis Suc_eq_plus1 id_take_nth_drop)
qed

lemma no_newline: "find_sub [newline_byte] b = None \<Longrightarrow> newline_byte \<notin> set b"
  by (auto dest: find_sub_NoneD simp: in_set_conv_decomp prefix_def)
    (metis append_Cons append_Nil append_eq_conv_conj find_sub_NoneD prefix_def)

lemma drain_lines_spec:
  "lines_of (b @ r) = fst (drain_lines b) @ lines_of (snd (drain_lines b) @ r) \<and> newline_byte \<notin> set (snd (drain_lines b))"
proof (induction b arbitrary: r rule: drain_lines.induct)
  case (1 b)
  show ?case
  proof (cases "find_sub [newline_byte] b")
    case None
    then show ?thesis by (simp add: drain_lines.simps no_newline)
  next
    case (Some pos)
    note f = first_newline [OF Some]
    have "lines_of (b @ r) = take pos b # lines_of (drop (pos + 1) b @ r)"
      using f lines_of_newline [of "take pos b" "drop (pos + 1) b @ r"] by (metis append.assoc append_Cons)
    with 1 [OF Some] Some show ?thesis
      by (cases "drain_lines (drop (pos + 1) b)") (simp add: drain_lines.simps [of b])
  qed
qed

lemma and_then_assoc: "and_then (and_then r f) g = and_then r (\<lambda>s. and_then (f s) g)"
  by (simp add: and_then_def split: prod.splits option.splits)

lemma run_lines_append:
  "run_lines loads decode (ls @ ls') s = and_then (run_lines loads decode ls s) (run_lines loads decode ls')"
proof (induction ls arbitrary: s)
  case (Cons l ls)
  have "run_lines loads decode (ls @ ls') = (\<lambda>s. and_then (run_lines loads decode ls s) (run_lines loads decode ls'))"
    using Cons.IH by (rule ext)
  then show ?case by (simp add: and_then_assoc)
qed (simp add: and_then_def)

lemma read_chunks_lines:
  "newline_byte \<notin> set buffer \<Longrightarrow>
     read_chunks loads decode chunks buffer (last_line loads decode) s
       = run_lines loads decode (lines_of (buffer @ concat chunks)) s"
proof (induction chunks arbitrary: buffer s)
  case Nil
  then show ?case by (simp add: lines_of_last last_line_def and_then_def split: prod.split option.split)
next
  case (Cons chunk chunks)
  note d = drain_lines_spec [of "buffer @ chunk"]
  have "read_chunks loads decode chunks (snd (drain_lines (buffer @ chunk))) (last_line loads decode)
      = run_lines loads decode (lines_of (snd (drain_lines (buffer @ chunk)) @ concat chunks))"
    by (rule ext, rule Cons.IH) (use d in blast)
  then show ?case using d [of "concat chunks"] by (simp add: run_lines_append)
qed

lemma read_chunks_whole:
  "read_chunks loads decode chunks [] (last_line loads decode) s = run_lines loads decode (lines_of (concat chunks)) s"
  using read_chunks_lines [of "[]"] by simp

text \<open>C15: However the operating system cuts the output of the tool into chunks, the task yields the same events, stores
  the same session identifier and fails in the same way: the events are those of the lines of the whole output, the last
  line included when it has no line break.\<close>
theorem stdout_chunking:
  "read_chunks loads decode chunks [] (last_line loads decode) s = run_lines loads decode (lines_of (concat chunks)) s"
  by (rule read_chunks_whole)

section \<open>Processes and sessions are released\<close>

definition spawned :: "process_run \<Rightarrow> bool" where
  "spawned run = (case run of SpawnFailed _ \<Rightarrow> False | _ \<Rightarrow> True)"

text \<open>Whatever the tool prints and however its task ends, the session is no longer busy and the number
  of its process is not left in the registry, while those of other processes stay; a process that is still
  running when the task is cancelled is told to terminate.\<close>
theorem task_releases_process:
  assumes "start_task loads decode pid run c = (out, how, actions, c')"
  shows "\<not> cs_is_busy c'
    \<and> fold registry_step actions pids = (if spawned run \<and> pid \<noteq> 0 then pids - {pid} else pids)
    \<and> (how = WasCancelled \<longrightarrow> Terminate \<in> set actions \<or> (\<exists>chunks. run = Cancelled chunks AlreadyEnded))"
proof (intro conjI impI)
  show "\<not> cs_is_busy c'"
    using assms by (auto simp: start_task_def Let_def finish_session_def split: process_run.splits prod.splits option.splits)
  show "fold registry_step actions pids = (if spawned run \<and> pid \<noteq> 0 then pids - {pid} else pids)"
    using assms
    by (auto simp: start_task_def Let_def register_pid_def unregister_pid_def stop_process_def spawned_def
        split: process_run.splits prod.splits option.splits stop_reaction.splits)
  show "Terminate \<in> set actions \<or> (\<exists>chunks. run = Cancelled chunks AlreadyEnded)" if "how = WasCancelled"
    using assms that
    by (auto simp: start_task_def Let_def stop_process_def
        split: process_run.splits prod.splits option.splits stop_reaction.splits)
qed

text \<open>A process that hangs when its task is cancelled.\<close>
theorem task_releases_process_witness:
  "\<exists>out actions c'. start_task (\<lambda>_. None) (\<lambda>_. []) 7 (Cancelled [] Hangs) \<lparr>cs_is_busy = False, cs_session_id = PNone\<rparr>
       = (out, WasCancelled, actions, c')
     \<and> Terminate \<in> set actions \<and> fold registry_step actions {5, 7} = {5 :: int}"
proof -
  have "start_task (\<lambda>_. None) (\<lambda>_. []) 7 (Cancelled [] Hangs) \<lparr>cs_is_busy = False, cs_session_id = PNone\<rparr>
      = ([], WasCancelled, [Register 7, Terminate, Kill, Unregister 7, Unregister 7], \<lparr>cs_is_busy = False, cs_session_id = PNone\<rparr>)"
    by (simp add: start_task_def Let_def finish_session_def register_pid_def unregister_pid_def stop_process_def)
  from task_releases_process [OF this, of "{5, 7}"] this show ?thesis by (auto simp: spawned_def)
qed

text \<open>A line that is JSON but not an object ends the task: what follows it is lost, the exit event too.\<close>

lemma json_line_aborts_task:
  assumes "loads (strip (decode l)) = Some v" "strip (decode l) \<noteq> []" "\<And>d. v \<noteq> PDict d" "newline_byte \<notin> set l"
  shows "\<exists>c' actions. start_task loads decode pid (Finished [l @ newline_byte # rest] stderr code) c
    = ([], Raised AttributeError, actions, c')"
proof -
  have x: "extract_session_id v = PNone" using assms(3) by (simp add: extract_session_id_def split: pyval.split)
  have "pass_events [v] s = ([], s, Some AttributeError)" for s using assms(3) by (cases v) auto
  with assms x have "run_line loads decode l s = ([], s, Some AttributeError)" for s
    by (simp add: run_line_def handle_line_def Let_def)
  then show ?thesis
    by (simp add: start_task_def Let_def stdout_chunking lines_of_newline [OF assms(4)] and_then_def)
qed

end
