(* ===== verification/NodeTask.thy ===== *)
theory NodeTask
  imports TreeManager Transcript SessionStore CliManager CliSession ErrorMapping
begin

text \<open>
  \<open>messaging/handler.py\<close>: the processing of one node, \<open>_process_node_impl\<close> and what it calls. The stream of
  the command line session is an input: its events and the way it ends. Each event is processed without a
  cancellation in between. The readings of the clock are given by their number, and so are the outcomes of
  saving the tree (the file store never raises, the store in a database may) and what other tasks do with the
  manager of sessions before each event and before the session is released.

  The edits which the task makes of the message of its node, and those of the messages of its children, are
  recorded; a failing edit changes nothing else. The same message is edited outside of the task when the node
  is taken from the queue (\<open>mark_node_processing\<close>) and when it is cancelled (\<open>update_cancelled_nodes_ui\<close>).

  The tree of the node stays with the manager while the node is processed. \<open>None\<close> stands for data outside
  the model: an error message that is not a string, a session identifier that is a number, and one that is a
  list or a dictionary when the session of the task is no longer pending.
\<close>

section \<open>State\<close>

record node_env =
  ne_node :: pystr
  ne_clock :: "nat \<Rightarrow> rat"
  ne_stamp :: "nat \<Rightarrow> time"
  ne_ctx :: render_ctx
  ne_limit :: int
  ne_format :: "pystr \<Rightarrow> pystr \<Rightarrow> pystr option \<Rightarrow> pystr"
  ne_rp :: "pyval \<Rightarrow> pystr"
  ne_iso :: iso
  ne_save :: "nat \<Rightarrow> py_error option" \<comment> \<open>what saving the tree raises\<close>
  ne_others :: "nat \<Rightarrow> manager_op list" \<comment> \<open>what other tasks do with the manager of sessions\<close>
  ne_exn :: "py_error \<Rightarrow> exn" \<comment> \<open>an exception of the program as an exception object\<close>

record ui_edit =
  ue_time :: rat
  ue_force :: bool
  ue_text :: pystr

record node_run =
  np_manager :: tree_manager
  np_store :: session_store
  np_cli :: cli_manager
  np_root :: "pystr option" \<comment> \<open>the root of the tree of the node, if it has one\<close>
  np_transcript :: transcript
  np_ticks :: nat
  np_last_ui_update :: rat
  np_last_displayed :: "pystr option"
  np_had_events :: bool
  np_captured :: "pystr option"
  np_temp :: "pystr option"
  np_last_status :: "pystr option"
  np_saves :: nat
  np_turns :: nat
  np_edits :: "ui_edit list" \<comment> \<open>the edits by \<open>update_ui\<close>\<close>
  np_child_edits :: "pystr list"

definition emoji :: "nat \<Rightarrow> pystr" where
  "emoji n = [Uni n]"

definition stamp :: "node_env \<Rightarrow> node_run \<Rightarrow> time" where
  "stamp env st = ne_stamp env (np_ticks st)"

definition run_tree :: "node_run \<Rightarrow> message_tree option" where
  "run_tree st = (case np_root st of None \<Rightarrow> None | Some r \<Rightarrow> dget (tr_trees (tm_repo (np_manager st))) r)"

definition update_node_state ::
    "node_env \<Rightarrow> message_state \<Rightarrow> pystr option \<Rightarrow> pystr option \<Rightarrow> node_run \<Rightarrow> node_run" where
  "update_node_state env state session_id error_message st =
     (case run_tree st of
        None \<Rightarrow> st
      | Some t \<Rightarrow> st\<lparr>np_manager := put_tree (the (np_root st))
          (update_state (ne_node env) state session_id error_message (stamp env st) t) (np_manager st)\<rparr>)"

definition persist_tree :: "node_env \<Rightarrow> node_run \<Rightarrow> node_run \<times> py_error option" where
  "persist_tree env st =
     (case run_tree st of
        None \<Rightarrow> (st, None)
      | Some t \<Rightarrow>
          (let st1 = st\<lparr>np_saves := Suc (np_saves st)\<rparr>
           in case ne_save env (np_saves st) of
                Some e \<Rightarrow> (st1, Some e)
              | None \<Rightarrow> (st1\<lparr>np_store := fst (save_tree (mt_root_id t) (tree_to_dict (ne_iso env) t) (np_store st))\<rparr>, None)))"

text \<open>Other tasks use the manager of sessions while this one waits.\<close>

definition interfere :: "node_env \<Rightarrow> node_run \<Rightarrow> node_run" where
  "interfere env st =
     st\<lparr>np_cli := fold manager_step (ne_others env (np_turns st)) (np_cli st), np_turns := Suc (np_turns st)\<rparr>"

section \<open>The message of the node\<close>

definition update_ui :: "node_env \<Rightarrow> pystr option \<Rightarrow> bool \<Rightarrow> node_run \<Rightarrow> node_run" where
  "update_ui env status force st0 =
     (let now = ne_clock env (np_ticks st0); st = st0\<lparr>np_ticks := Suc (np_ticks st0)\<rparr>
      in if \<not> force \<and> now - np_last_ui_update st < 1 then st
         else
           (let st1 = st\<lparr>np_last_ui_update := now,
                  np_last_status := (if status = None then np_last_status st else status)\<rparr>;
                display = render_transcript (ne_ctx env) (ne_limit env) status (np_transcript st)
            in if display \<noteq> [] \<and> np_last_displayed st \<noteq> Some display
               then st1\<lparr>np_last_displayed := Some display,
                  np_edits := np_edits st1 @ [\<lparr>ue_time = now, ue_force = force, ue_text = display\<rparr>]\<rparr>
               else st1))"

definition status_ui :: "node_env \<Rightarrow> nat \<Rightarrow> string \<Rightarrow> node_run \<Rightarrow> node_run" where
  "status_ui env e label = update_ui env (Some (ne_format env (emoji e) (lit label) None)) True"

text \<open>\<open>_get_status_for_event\<close>.\<close>

definition event_status :: "node_env \<Rightarrow> pyval \<Rightarrow> event \<Rightarrow> pystr option" where
  "event_status env ptype parsed =
     (let status = (\<lambda>e label. Some (ne_format env (emoji e) (lit label) None))
      in if list_ex (is_str ptype) [''thinking_start'', ''thinking_delta'', ''thinking_chunk'']
         then status 0x1F9E0 ''Claude is thinking...''
         else if list_ex (is_str ptype) [''text_start'', ''text_delta'', ''text_chunk'']
         then status 0x1F9E0 ''Claude is working...''
         else if is_str ptype ''tool_result'' then status 0x23F3 ''Executing tools...''
         else if list_ex (is_str ptype) [''tool_use_start'', ''tool_use_delta'', ''tool_use'']
         then (if is_str (dget_or parsed ''name'' PNone) ''Task'' then status 0x1F916 ''Subagent working...''
               else status 0x23F3 ''Executing tools...'')
         else None)"

definition is_transcript_event :: "pyval \<Rightarrow> bool" where
  "is_transcript_event ptype \<longleftrightarrow> list_ex (is_str ptype)
     [''thinking_start'', ''thinking_delta'', ''thinking_chunk'', ''thinking_stop'', ''text_start'', ''text_delta'',
      ''text_chunk'', ''text_stop'', ''tool_use_start'', ''tool_use_delta'', ''tool_use_stop'', ''tool_use'',
      ''tool_result'', ''block_stop'', ''error'']"

section \<open>Errors\<close>

text \<open>\<open>_propagate_error_to_children\<close>: the node itself comes first among the affected ones.\<close>

definition propagate_error :: "node_env \<Rightarrow> pystr \<Rightarrow> node_run \<Rightarrow> node_run option" where
  "propagate_error env error_msg st =
     (if run_tree st = None then Some st
      else map_option (\<lambda>(m, affected). st\<lparr>np_manager := m, np_child_edits := np_child_edits st @ tl affected\<rparr>)
        (mark_node_error (ne_node env) error_msg True (stamp env st) (np_manager st)))"

definition error_segment :: "node_env \<Rightarrow> pystr \<Rightarrow> node_run \<Rightarrow> node_run" where
  "error_segment env message st =
     (case apply_event (ne_rp env) [ev_type ''error'', (lit ''message'', PStr message)] (np_transcript st) of
        Inr t \<Rightarrow> st\<lparr>np_transcript := t\<rparr>
      | Inl _ \<Rightarrow> st)"

section \<open>Events\<close>

definition complete_node :: "node_env \<Rightarrow> node_run \<Rightarrow> node_run \<times> py_error option" where
  "complete_node env st =
     (let st1 = status_ui env 0x2705 ''Complete'' st
      in if given (np_captured st1)
         then persist_tree env (update_node_state env COMPLETED (np_captured st1) None st1)
         else (st1, None))"

text \<open>The event has been processed, or an exception has ended its processing.\<close>

fun after_event :: "pystr option \<Rightarrow> node_run \<times> py_error option \<Rightarrow> node_run \<times> py_error option" where
  "after_event last_status (st, None) = (st\<lparr>np_last_status := last_status\<rparr>, None)"
| "after_event last_status (st, Some e) = (st, Some e)"

definition done_event :: event where
  "done_event = [ev_type ''text_chunk'', (lit ''text'', PStr (lit ''Done.''))]"

text \<open>\<open>_process_parsed_event\<close>; the second component is the exception that ends the task.\<close>

definition dispatch_event ::
    "node_env \<Rightarrow> pyval \<Rightarrow> event \<Rightarrow> node_run \<Rightarrow> (node_run \<times> py_error option) option" where
  "dispatch_event env ptype parsed st =
     (let last_status = np_last_status st
      in case event_status env ptype parsed of
           Some status \<Rightarrow> Some ((update_ui env (Some status) False st)\<lparr>np_last_status := Some status\<rparr>, None)
         | None \<Rightarrow>
             if is_str ptype ''block_stop''
             then Some ((update_ui env last_status True st)\<lparr>np_last_status := last_status\<rparr>, None)
             else if is_str ptype ''complete''
             then (if np_had_events st then Some (after_event last_status (complete_node env st))
                   else (case apply_event (ne_rp env) done_event (np_transcript st) of
                           Inl e \<Rightarrow> Some (st, Some e)
                         | Inr t \<Rightarrow> Some (after_event last_status (complete_node env (st\<lparr>np_transcript := t\<rparr>)))))
             else if is_str ptype ''error''
             then (case dget_or parsed ''message'' (PStr (lit ''Unknown error'')) of
                     PStr error_msg \<Rightarrow>
                       map_option (\<lambda>s. (s\<lparr>np_last_status := last_status\<rparr>, None))
                         (propagate_error env error_msg (status_ui env 0x274C ''Error'' st))
                   | _ \<Rightarrow> None)
             else Some (st, None))"

definition process_parsed_event :: "node_env \<Rightarrow> event \<Rightarrow> node_run \<Rightarrow> (node_run \<times> py_error option) option" where
  "process_parsed_event env parsed st =
     (let t0 = dget_or parsed ''type'' PNone; ptype = (if truthy t0 then t0 else PStr [])
      in if is_transcript_event ptype
         then (case apply_event (ne_rp env) parsed (np_transcript st) of
                 Inl e \<Rightarrow> Some (st, Some e)
               | Inr t \<Rightarrow> dispatch_event env ptype parsed (st\<lparr>np_transcript := t, np_had_events := True\<rparr>))
         else dispatch_event env ptype parsed st)"

fun process_parsed :: "node_env \<Rightarrow> event list \<Rightarrow> node_run \<Rightarrow> (node_run \<times> py_error option) option" where
  "process_parsed env [] st = Some (st, None)"
| "process_parsed env (p # ps) st =
     (case process_parsed_event env p st of
        None \<Rightarrow> None
      | Some (st1, Some e) \<Rightarrow> Some (st1, Some e)
      | Some (st1, None) \<Rightarrow> process_parsed env ps st1)"

fun unhashable :: "pyval \<Rightarrow> bool" where
  "unhashable (PList xs) \<longleftrightarrow> True"
| "unhashable (PDict d) \<longleftrightarrow> True"
| "unhashable v \<longleftrightarrow> False"

text \<open>\<open>_handle_session_info_event\<close>. The identifiers of the task change at the end only: an exception leaves
  them as they were.\<close>

definition session_info_event :: "node_env \<Rightarrow> event \<Rightarrow> node_run \<Rightarrow> (node_run \<times> py_error option) option" where
  "session_info_event env d st =
     (let real_id = dget_or d ''session_id'' PNone
      in if \<not> truthy real_id \<or> \<not> given (np_temp st) then Some (st, None)
         else (case real_id of
                 PStr r \<Rightarrow>
                   (let st1 = st\<lparr>np_cli := fst (register_real_session_id (the (np_temp st)) r (np_cli st))\<rparr>
                    in case persist_tree env (update_node_state env IN_PROGRESS (Some r) None st1) of
                         (st2, Some e) \<Rightarrow> Some (st2, Some e)
                       | (st2, None) \<Rightarrow> Some (st2\<lparr>np_captured := Some r, np_temp := None\<rparr>, None))
               | _ \<Rightarrow>
                   if unhashable real_id
                   then (case register_unhashable_id (the (np_temp st)) (np_cli st) of
                           (m, Inl e) \<Rightarrow> Some (st\<lparr>np_cli := m\<rparr>, Some e)
                         | (m, Inr _) \<Rightarrow> None)
                   else None))"

definition stream_item :: "node_env \<Rightarrow> pyval \<Rightarrow> node_run \<Rightarrow> (node_run \<times> py_error option) option" where
  "stream_item env item st =
     (case item of
        PDict d \<Rightarrow>
          if is_str (dget_or d ''type'' PNone) ''session_info''
          then session_info_event env d st
          else process_parsed env (parse_cli_event (ne_rp env) item) st
      | _ \<Rightarrow> Some (st, None))"

fun run_stream :: "node_env \<Rightarrow> pyval list \<Rightarrow> node_run \<Rightarrow> (node_run \<times> py_error option) option" where
  "run_stream env [] st = Some (st, None)"
| "run_stream env (item # items) st =
     (case stream_item env item (interfere env st) of
        None \<Rightarrow> None
      | Some (st1, Some e) \<Rightarrow> Some (st1, Some e)
      | Some (st1, None) \<Rightarrow> run_stream env items st1)"

section \<open>The whole task\<close>

datatype stream_end = StreamDone | StreamFailed exn | StreamCancelled

datatype session_start =
    Opened pystr nat \<comment> \<open>the random part of the temporary identifier and the new session\<close>
  | LimitReached exn
  | OpenFailed exn

definition cancel_reason :: "node_env \<Rightarrow> node_run \<Rightarrow> pyval" where
  "cancel_reason env st =
     (case run_tree st of
        None \<Rightarrow> PNone
      | Some t \<Rightarrow>
          (case get_node t (ne_node env) of
             None \<Rightarrow> PNone
           | Some n \<Rightarrow> (case mn_context n of PDict d \<Rightarrow> dget_or d ''cancel_reason'' PNone | _ \<Rightarrow> PNone)))"

definition task_cancelled :: "node_env \<Rightarrow> node_run \<Rightarrow> node_run" where
  "task_cancelled env st =
     update_node_state env ERROR None (Some user_cancel)
       (if is_str (cancel_reason env st) ''stop'' then status_ui env 0x23F9 ''Stopped.'' st
        else status_ui env 0x274C ''Cancelled'' (error_segment env (lit ''Task was cancelled'') st))"

definition task_failed :: "node_env \<Rightarrow> exn \<Rightarrow> node_run \<Rightarrow> node_run option" where
  "task_failed env e st =
     (let error_msg = take 200 (get_user_facing_error_message e None)
      in propagate_error env error_msg (status_ui env 0x1F4A5 ''Task Failed'' (error_segment env error_msg st)))"

definition limit_reached :: "node_env \<Rightarrow> exn \<Rightarrow> node_run \<Rightarrow> node_run" where
  "limit_reached env e st =
     (let error_message = get_user_facing_error_message e None
      in update_node_state env ERROR None (Some error_message)
           (status_ui env 0x23F3 ''Session limit reached'' (error_segment env error_message st)))"

text \<open>The \<open>finally\<close> block.\<close>

definition release_session :: "node_env \<Rightarrow> node_run \<Rightarrow> node_run" where
  "release_session env st0 =
     (let st = interfere env st0
      in if given (np_captured st) then st\<lparr>np_cli := fst (remove_session (the (np_captured st)) (np_cli st))\<rparr>
         else if given (np_temp st) then st\<lparr>np_cli := fst (remove_session (the (np_temp st)) (np_cli st))\<rparr>
         else st)"

definition start_run :: "node_env \<Rightarrow> tree_manager \<Rightarrow> session_store \<Rightarrow> cli_manager \<Rightarrow> node_run" where
  "start_run env m store cli =
     update_node_state env IN_PROGRESS None None
       \<lparr>np_manager = m, np_store = store, np_cli = cli,
        np_root = map_option mt_root_id (get_tree_for_node (tm_repo m) (ne_node env)),
        np_transcript = transcript_init False, np_ticks = 0, np_last_ui_update = 0, np_last_displayed = None,
        np_had_events = False, np_captured = None, np_temp = None, np_last_status = None,
        np_saves = 0, np_turns = 0, np_edits = [], np_child_edits = []\<rparr>"

definition open_session :: "pystr \<Rightarrow> nat \<Rightarrow> node_run \<Rightarrow> node_run" where
  "open_session uuid new st =
     (case get_or_create_session uuid new None (np_cli st) of
        (cli, _, session_or_temp_id, is_new) \<Rightarrow>
          (let st1 = st\<lparr>np_cli := cli\<rparr>
           in if is_new then st1\<lparr>np_temp := Some session_or_temp_id\<rparr> else st1\<lparr>np_captured := Some session_or_temp_id\<rparr>))"

text \<open>The session a reply is resumed from, and whether it is forked.\<close>

definition parent_session :: "node_env \<Rightarrow> node_run \<Rightarrow> pystr option \<times> bool" where
  "parent_session env st =
     (case run_tree st of
        None \<Rightarrow> (None, False)
      | Some t \<Rightarrow>
          (case get_node t (ne_node env) of
             None \<Rightarrow> (None, False)
           | Some n \<Rightarrow>
               if given (mn_parent_id n)
               then (let sid = get_parent_session_id t (ne_node env) in (sid, given sid)) else (None, False)))"

definition process_node ::
    "node_env \<Rightarrow> session_start \<Rightarrow> pyval list \<Rightarrow> stream_end \<Rightarrow> tree_manager \<Rightarrow> session_store \<Rightarrow> cli_manager
       \<Rightarrow> node_run option" where
  "process_node env start items how m store cli =
     (let st0 = start_run env m store cli
      in case start of
           LimitReached e \<Rightarrow> Some (release_session env (limit_reached env e st0))
         | OpenFailed e \<Rightarrow> map_option (release_session env) (task_failed env e st0)
         | Opened uuid new \<Rightarrow>
             (case run_stream env items (open_session uuid new st0) of
                None \<Rightarrow> None
              | Some (st, Some e) \<Rightarrow> map_option (release_session env) (task_failed env (ne_exn env e) st)
              | Some (st, None) \<Rightarrow>
                  (case how of
                     StreamDone \<Rightarrow> Some (release_session env st)
                   | StreamFailed e \<Rightarrow> map_option (release_session env) (task_failed env e st)
                   | StreamCancelled \<Rightarrow> Some (release_session env (task_cancelled env st)))))"

section \<open>What every step of a task keeps\<close>

text \<open>A property of the state of a task that the elementary changes of an event keep is kept by every event and
  by every way to end; if a change of the identifiers keeps it as well, then by the whole stream.\<close>

locale event_invariant =
  fixes P :: "node_run \<Rightarrow> bool" and env :: node_env
  assumes keeps_ui: "P st \<Longrightarrow> P (update_ui env status force st)"
    and keeps_transcript_event: "P st \<Longrightarrow> P (st\<lparr>np_transcript := t, np_had_events := had\<rparr>)"
    and keeps_last_status: "P st \<Longrightarrow> P (st\<lparr>np_last_status := l\<rparr>)"
    and keeps_node_state: "P st \<Longrightarrow> P (update_node_state env state sid msg st)"
    and keeps_store: "P st \<Longrightarrow> P (st\<lparr>np_saves := n, np_store := store\<rparr>)"
    and keeps_propagate: "P st \<Longrightarrow> propagate_error env error_msg st = Some st' \<Longrightarrow> P st'"
begin

lemma keeps_persist: "P st \<Longrightarrow> persist_tree env st = (st', e) \<Longrightarrow> P st'"
  using keeps_store [where st = st and n = "Suc (np_saves st)" and store = "np_store st"]
  by (auto simp: persist_tree_def Let_def keeps_store split: option.splits)

lemma keeps_status_ui: "P st \<Longrightarrow> P (status_ui env e label st)"
  by (simp add: status_ui_def keeps_ui)

lemma keeps_transcript: "P st \<Longrightarrow> P (st\<lparr>np_transcript := t\<rparr>)"
  using keeps_transcript_event [where t = t and had = "np_had_events st"] by fastforce

lemma keeps_error_segment: "P st \<Longrightarrow> P (error_segment env msg st)"
  by (simp add: error_segment_def keeps_transcript split: sum.split)

lemma keeps_complete: "P st \<Longrightarrow> complete_node env st = (st', e) \<Longrightarrow> P st'"
  by (auto simp: complete_node_def Let_def intro: keeps_status_ui keeps_persist keeps_node_state split: if_splits)

lemma keeps_after:
  assumes "P st" "after_event l (complete_node env st) = (st', e)"
  shows "P st'"
proof -
  obtain s1 e1 where s1: "complete_node env st = (s1, e1)" by force
  from keeps_complete [OF assms(1) s1] assms(2) s1 show ?thesis by (cases e1) (auto simp: keeps_last_status)
qed

lemma keeps_dispatch:
  assumes P: "P st" and d: "dispatch_event env ptype parsed st = Some (st', e)"
  shows "P st'"
proof (cases "event_status env ptype parsed")
  case (Some status)
  with d have "st' = (update_ui env (Some status) False st)\<lparr>np_last_status := Some status\<rparr>"
    by (simp add: dispatch_event_def Let_def)
  then show ?thesis by (simp add: keeps_ui keeps_last_status P)
next
  case no_status: None
  consider "is_str ptype ''block_stop''" | "\<not> is_str ptype ''block_stop''" "is_str ptype ''complete''"
    | "\<not> is_str ptype ''block_stop''" "\<not> is_str ptype ''complete''" "is_str ptype ''error''"
    | "\<not> is_str ptype ''block_stop''" "\<not> is_str ptype ''complete''" "\<not> is_str ptype ''error''" by blast
  then show ?thesis
  proof cases
    case 1
    with d no_status have "st' = (update_ui env (np_last_status st) True st)\<lparr>np_last_status := np_last_status st\<rparr>"
      by (simp add: dispatch_event_def Let_def)
    then show ?thesis by (simp add: keeps_ui keeps_last_status P)
  next
    case 2
    show ?thesis
    proof (cases "np_had_events st")
      case True
      with 2 d no_status have "after_event (np_last_status st) (complete_node env st) = (st', e)"
        by (simp add: dispatch_event_def Let_def)
      then show ?thesis by (rule keeps_after [OF P])
    next
      case False
      with 2 d no_status P show ?thesis
        by (auto simp: dispatch_event_def Let_def dest: keeps_after [OF keeps_transcript] split: sum.splits)
    qed
  next
    case 3
    with d no_status obtain msg st1 where "propagate_error env msg (status_ui env 0x274C ''Error'' st) = Some st1"
      "st' = st1\<lparr>np_last_status := np_last_status st\<rparr>"
      by (auto simp: dispatch_event_def Let_def split: pyval.splits)
    with keeps_propagate [OF keeps_status_ui [OF P]] keeps_last_status show ?thesis by blast
  next
    case 4
    with d no_status P show ?thesis by (simp add: dispatch_event_def Let_def)
  qed
qed

lemma keeps_process_parsed_event:
  assumes "P st" "process_parsed_event env parsed st = Some (st', e)"
  shows "P st'"
  using assms
  by (auto simp: process_parsed_event_def Let_def intro: keeps_dispatch keeps_transcript_event split: if_splits sum.splits)

lemma keeps_process_parsed: "P st \<Longrightarrow> process_parsed env ps st = Some (st', e) \<Longrightarrow> P st'"
  by (induction ps arbitrary: st)
    (auto dest: keeps_process_parsed_event split: option.splits)

lemma keeps_failed: "P st \<Longrightarrow> task_failed env e st = Some st' \<Longrightarrow> P st'"
  unfolding task_failed_def Let_def by (blast intro: keeps_propagate keeps_status_ui keeps_error_segment)

lemma keeps_cancelled: "P st \<Longrightarrow> P (task_cancelled env st)"
  by (simp add: task_cancelled_def keeps_node_state keeps_status_ui keeps_error_segment)

lemma keeps_limit: "P st \<Longrightarrow> P (limit_reached env e st)"
  by (simp add: limit_reached_def Let_def keeps_node_state keeps_status_ui keeps_error_segment)

end

text \<open>What the report of a session does.\<close>

lemma session_info_cases:
  assumes "session_info_event env d st = Some (st', e)"
  obtains (same) "st' = st" "e = None"
  | (lost) m where "unhashable (dget_or d ''session_id'' PNone)" "st' = st\<lparr>np_cli := m\<rparr>" "e \<noteq> None"
  | (stored) r st2 where "dget_or d ''session_id'' PNone = PStr r" "r \<noteq> []" "given (np_temp st)"
      "persist_tree env (update_node_state env IN_PROGRESS (Some r) None
        (st\<lparr>np_cli := fst (register_real_session_id (the (np_temp st)) r (np_cli st))\<rparr>)) = (st2, e)"
      "st' = (if e = None then st2\<lparr>np_captured := Some r, np_temp := None\<rparr> else st2)"
  using assms
  by (auto simp: session_info_event_def Let_def split: if_splits pyval.splits prod.splits option.splits sum.splits)

locale task_invariant = event_invariant +
  fixes ok :: "pyval \<Rightarrow> bool"
  assumes keeps_interfere: "P st \<Longrightarrow> P (interfere env st)"
    and keeps_session_info: "P st \<Longrightarrow> ok (PDict d) \<Longrightarrow> is_str (dget_or d ''type'' PNone) ''session_info''
      \<Longrightarrow> session_info_event env d st = Some (st', e) \<Longrightarrow> P st'"
begin

lemma keeps_stream_item:
  assumes "P st" "ok item" "stream_item env item st = Some (st', e)"
  shows "P st'"
  using assms
  by (auto simp: stream_item_def intro: keeps_session_info keeps_process_parsed split: pyval.splits if_splits)

lemma keeps_stream: "P st \<Longrightarrow> list_all ok items \<Longrightarrow> run_stream env items st = Some (st', e) \<Longrightarrow> P st'"
  by (induction items arbitrary: st) (auto dest: keeps_stream_item [OF keeps_interfere] split: option.splits)

text \<open>What holds when the session is open holds at the end, up to its release.\<close>

lemma process_node_keeps:
  assumes P: "P (open_session uuid new (start_run env m store cli))"
    and items: "list_all ok items"
    and run: "process_node env (Opened uuid new) items how m store cli = Some st'"
  shows "\<exists>st. P st \<and> st' = release_session env st"
proof -
  from run obtain st e where st: "run_stream env items (open_session uuid new (start_run env m store cli)) = Some (st, e)"
    by (auto simp: process_node_def Let_def split: option.splits)
  note P1 = keeps_stream [OF P items st]
  show ?thesis
  proof (cases e)
    case (Some x)
    with run st keeps_failed [OF P1, of "ne_exn env x"] show ?thesis by (auto simp: process_node_def Let_def)
  next
    case None
    with run st P1 keeps_failed [OF P1] keeps_cancelled [OF P1] show ?thesis
      by (cases how) (auto simp: process_node_def Let_def)
  qed
qed

end

section \<open>The session of a task\<close>

text \<open>What the task and the others have done to the manager of sessions so far.\<close>

definition others_ops :: "node_env \<Rightarrow> manager_op list \<Rightarrow> bool" where
  "others_ops env ops \<longleftrightarrow> (\<forall>oper \<in> set ops. \<exists>n. oper \<in> set (ne_others env n))"

definition session_so_far :: "node_env \<Rightarrow> pystr \<Rightarrow> nat \<Rightarrow> cli_manager \<Rightarrow> node_run \<Rightarrow> bool" where
  "session_so_far env uuid s cli st \<longleftrightarrow>
     (\<exists>ops. others_ops env ops \<and> np_captured st = None \<and> np_temp st = Some (temp_of uuid)
          \<and> np_cli st = fold manager_step (Create uuid s # ops) cli)
     \<or> (\<exists>r ops1 ops2. others_ops env ops1 \<and> others_ops env ops2
          \<and> r \<noteq> [] \<and> np_captured st = Some r \<and> np_temp st = None
          \<and> np_cli st = fold manager_step (Create uuid s # ops1 @ RegisterReal (temp_of uuid) r # ops2) cli)"

text \<open>Saving never raises, and a reported identifier can be used as a key.\<close>

definition saves_ok :: "node_env \<Rightarrow> bool" where
  "saves_ok env \<longleftrightarrow> (\<forall>n. ne_save env n = None)"

fun usable_id :: "pyval \<Rightarrow> bool" where
  "usable_id (PDict d) \<longleftrightarrow> \<not> (is_str (dget_or d ''type'' PNone) ''session_info'' \<and> unhashable (dget_or d ''session_id'' PNone))"
| "usable_id v \<longleftrightarrow> True"

lemma persist_tree_ok: "saves_ok env \<Longrightarrow> snd (persist_tree env st) = None"
  by (simp add: persist_tree_def saves_ok_def Let_def split: option.split)

lemma update_ui_simps [simp]:
  "np_cli (update_ui env status force st) = np_cli st"
  "np_captured (update_ui env status force st) = np_captured st"
  "np_temp (update_ui env status force st) = np_temp st"
  "np_manager (update_ui env status force st) = np_manager st"
  "np_root (update_ui env status force st) = np_root st"
  "np_store (update_ui env status force st) = np_store st"
  by (simp_all add: update_ui_def Let_def)

lemma interfere_simps [simp]:
  "np_cli (interfere env st) = fold manager_step (ne_others env (np_turns st)) (np_cli st)"
  "np_captured (interfere env st) = np_captured st"
  "np_temp (interfere env st) = np_temp st"
  "np_manager (interfere env st) = np_manager st"
  "np_root (interfere env st) = np_root st"
  "np_store (interfere env st) = np_store st"
  "np_edits (interfere env st) = np_edits st"
  "np_last_displayed (interfere env st) = np_last_displayed st"
  "np_last_ui_update (interfere env st) = np_last_ui_update st"
  "np_ticks (interfere env st) = np_ticks st"
  by (simp_all add: interfere_def)

lemma persist_tree_simps [simp]:
  "np_cli (fst (persist_tree env st)) = np_cli st"
  "np_captured (fst (persist_tree env st)) = np_captured st"
  "np_temp (fst (persist_tree env st)) = np_temp st"
  "np_manager (fst (persist_tree env st)) = np_manager st"
  "np_root (fst (persist_tree env st)) = np_root st"
  by (simp_all add: persist_tree_def Let_def split: option.split)

lemma persist_tree_fields:
  assumes "persist_tree env st = (st', e)"
  shows "np_cli st' = np_cli st \<and> np_captured st' = np_captured st \<and> np_temp st' = np_temp st"
  using persist_tree_simps(1-3) [of env st] assms by simp

lemma update_node_state_simps [simp]:
  "np_cli (update_node_state env state sid msg st) = np_cli st"
  "np_captured (update_node_state env state sid msg st) = np_captured st"
  "np_temp (update_node_state env state sid msg st) = np_temp st"
  "np_root (update_node_state env state sid msg st) = np_root st"
  "np_edits (update_node_state env state sid msg st) = np_edits st"
  "np_last_displayed (update_node_state env state sid msg st) = np_last_displayed st"
  "np_last_ui_update (update_node_state env state sid msg st) = np_last_ui_update st"
  "np_ticks (update_node_state env state sid msg st) = np_ticks st"
  "np_store (update_node_state env state sid msg st) = np_store st"
  by (simp_all add: update_node_state_def split: option.split)

lemma propagate_error_cases:
  assumes "propagate_error env error_msg st = Some st'"
  shows "\<exists>m ks. st' = st\<lparr>np_manager := m, np_child_edits := ks\<rparr>
    \<and> (m = np_manager st \<and> run_tree st = None
       \<or> (\<exists>ds. mark_node_error (ne_node env) error_msg True (stamp env st) (np_manager st) = Some (m, ds)))"
proof (cases "run_tree st = None")
  case True
  with assms show ?thesis by (auto simp: propagate_error_def intro!: exI [of _ "np_manager st"] exI [of _ "np_child_edits st"])
next
  case False
  with assms show ?thesis by (auto simp: propagate_error_def)
qed

lemma others_ops_append [simp]: "others_ops env (xs @ ys) \<longleftrightarrow> others_ops env xs \<and> others_ops env ys"
  by (auto simp: others_ops_def)

lemma others_ops_env [simp]: "others_ops env (ne_others env n)"
  by (auto simp: others_ops_def)

lemma others_ops_Nil [simp]: "others_ops env []"
  by (simp add: others_ops_def)

lemma session_interfere:
  assumes "session_so_far env uuid s cli st"
  shows "session_so_far env uuid s cli (interfere env st)"
  using assms unfolding session_so_far_def
proof (elim disjE exE conjE)
  fix ops
  assume "others_ops env ops" "np_captured st = None" "np_temp st = Some (temp_of uuid)"
    "np_cli st = fold manager_step (Create uuid s # ops) cli"
  then have "others_ops env (ops @ ne_others env (np_turns st)) \<and> np_captured (interfere env st) = None
      \<and> np_temp (interfere env st) = Some (temp_of uuid)
      \<and> np_cli (interfere env st) = fold manager_step (Create uuid s # ops @ ne_others env (np_turns st)) cli" by simp
  then show "(\<exists>ops. others_ops env ops \<and> np_captured (interfere env st) = None
        \<and> np_temp (interfere env st) = Some (temp_of uuid)
        \<and> np_cli (interfere env st) = fold manager_step (Create uuid s # ops) cli) \<or> Q" for Q by blast
next
  fix r ops1 ops2
  assume "others_ops env ops1" "others_ops env ops2" "r \<noteq> []" "np_captured st = Some r" "np_temp st = None"
    "np_cli st = fold manager_step (Create uuid s # ops1 @ RegisterReal (temp_of uuid) r # ops2) cli"
  then have "others_ops env ops1 \<and> others_ops env (ops2 @ ne_others env (np_turns st)) \<and> r \<noteq> []
      \<and> np_captured (interfere env st) = Some r \<and> np_temp (interfere env st) = None
      \<and> np_cli (interfere env st) = fold manager_step
          (Create uuid s # ops1 @ RegisterReal (temp_of uuid) r # ops2 @ ne_others env (np_turns st)) cli" by simp
  then show "Q \<or> (\<exists>r ops1 ops2. others_ops env ops1 \<and> others_ops env ops2
        \<and> r \<noteq> [] \<and> np_captured (interfere env st) = Some r \<and> np_temp (interfere env st) = None
        \<and> np_cli (interfere env st) = fold manager_step (Create uuid s # ops1 @ RegisterReal (temp_of uuid) r # ops2) cli)"
    for Q by blast
qed

lemma session_report:
  assumes ok: "saves_ok env" "usable_id (PDict d)" "is_str (dget_or d ''type'' PNone) ''session_info''" and st: "session_so_far env uuid s cli st"
    and run: "session_info_event env d st = Some (st', e)"
  shows "session_so_far env uuid s cli st'"
  using run
proof (cases rule: session_info_cases)
  case same
  with st show ?thesis by simp
next
  case (lost m)
  with ok show ?thesis by simp
next
  case (stored r st2)
  have "e = None" using stored(4) persist_tree_ok [OF ok(1)] by (metis snd_conv)
  moreover from st stored(3) obtain ops where ops: "others_ops env ops" "np_temp st = Some (temp_of uuid)"
      "np_cli st = fold manager_step (Create uuid s # ops) cli"
    by (auto simp: session_so_far_def given_def)
  moreover have "np_cli st2 = fold manager_step (Create uuid s # ops @ RegisterReal (temp_of uuid) r # []) cli"
    using persist_tree_fields [OF stored(4)] ops(2,3) by simp
  ultimately show ?thesis
    unfolding session_so_far_def stored(5) using stored(2) others_ops_Nil
    by (intro disjI2 exI [of _ r] exI [of _ ops] exI [of _ "[]"]) simp
qed

lemma session_so_far_keep:
  "session_so_far env uuid s cli st \<Longrightarrow> np_cli st' = np_cli st \<Longrightarrow> np_captured st' = np_captured st
     \<Longrightarrow> np_temp st' = np_temp st \<Longrightarrow> session_so_far env uuid s cli st'"
  by (simp add: session_so_far_def)

interpretation session: task_invariant "\<lambda>st. saves_ok env \<longrightarrow> session_so_far env uuid s cli st" env usable_id
  for uuid s cli env
proof
  fix st st' error_msg
  assume "saves_ok env \<longrightarrow> session_so_far env uuid s cli st" "propagate_error env error_msg st = Some st'"
  with propagate_error_cases show "saves_ok env \<longrightarrow> session_so_far env uuid s cli st'"
    by (fastforce intro: session_so_far_keep)
qed (auto intro: session_so_far_keep session_interfere session_report)

lemma open_session_so_far: "session_so_far env uuid s cli (open_session uuid s (start_run env m store cli))"
proof -
  let ?st = "open_session uuid s (start_run env m store cli)"
  have "others_ops env [] \<and> np_captured ?st = None \<and> np_temp ?st = Some (temp_of uuid)
      \<and> np_cli ?st = fold manager_step (Create uuid s # []) cli"
    by (simp add: open_session_def start_run_def get_or_create_session_def create_session_def session_given_def
        temp_of_def Let_def)
  then show ?thesis unfolding session_so_far_def by blast
qed

lemma process_node_session:
  assumes "saves_ok env" "list_all usable_id items" "process_node env (Opened uuid s) items how m store cli = Some st"
  shows "\<exists>ops1 ops2. others_ops env ops1 \<and> others_ops env ops2
    \<and> np_cli st = fold manager_step (task_ops uuid s (np_captured st) ops1 ops2) cli"
proof -
  from session.process_node_keeps [OF _ assms(2,3)] open_session_so_far assms(1)
  obtain st1 where so_far: "session_so_far env uuid s cli st1" and st: "st = release_session env st1" by blast
  from session_interfere [OF so_far] show ?thesis unfolding session_so_far_def
  proof (elim disjE exE conjE)
    fix ops
    assume "others_ops env ops" "np_captured (interfere env st1) = None" "np_temp (interfere env st1) = Some (temp_of uuid)"
      "np_cli (interfere env st1) = fold manager_step (Create uuid s # ops) cli"
    then show ?thesis
      by (intro exI [of _ ops] exI [of _ "[]"])
        (simp add: st release_session_def Let_def given_def temp_of_def task_ops_def del: interfere_simps(1))
  next
    fix r ops1 ops2
    assume "others_ops env ops1" "others_ops env ops2" "r \<noteq> []" "np_captured (interfere env st1) = Some r"
      "np_cli (interfere env st1) = fold manager_step (Create uuid s # ops1 @ RegisterReal (temp_of uuid) r # ops2) cli"
    then show ?thesis
      by (intro exI [of _ ops1] exI [of _ ops2])
        (simp add: st release_session_def Let_def given_def task_ops_def del: interfere_simps(1))
  qed
qed

text \<open>C35: a task leaves no session behind. However the stream of the tool ends, and whatever other tasks do with
  other identifiers and other sessions in between, a session opened anew for the node is stopped and no longer
  held by the manager, under neither identifier. The identifier that the tool reports must be no list or
  dictionary and must not be pending for a session, and saving the tree must not fail, which holds for the
  file store.\<close>
theorem node_task_releases_session:
  assumes "process_node env (Opened uuid s) items how m store cli = Some st"
    and "saves_ok env" "list_all usable_id items" "\<not> session_held cli s"
    and "not_pending (np_captured st) cli" "np_captured st \<noteq> Some (temp_of uuid)"
    and "\<And>n oper. oper \<in> set (ne_others env n) \<Longrightarrow> unrelated uuid (np_captured st) s oper"
  shows "released s (np_cli st)"
proof -
  from process_node_session [OF assms(2,3,1)] obtain ops1 ops2 where
      ops: "others_ops env ops1" "others_ops env ops2"
    and cli: "np_cli st = fold manager_step (task_ops uuid s (np_captured st) ops1 ops2) cli" by blast
  show ?thesis unfolding cli
    by (rule task_session_released [OF assms(4-6)]) (use ops assms(7) in \<open>auto simp: others_ops_def\<close>)
qed

section \<open>The state of the node\<close>

definition node_present :: "node_env \<Rightarrow> node_run \<Rightarrow> bool" where
  "node_present env st \<longleftrightarrow> repo_wf (tm_repo (np_manager st)) \<and> (\<exists>t. run_tree st = Some t \<and> has_node t (ne_node env))"

definition run_node :: "node_env \<Rightarrow> node_run \<Rightarrow> message_node option" where
  "run_node env st = (case run_tree st of None \<Rightarrow> None | Some t \<Rightarrow> get_node t (ne_node env))"

lemma run_tree_cong: "np_manager st' = np_manager st \<Longrightarrow> np_root st' = np_root st \<Longrightarrow> run_tree st' = run_tree st"
  by (cases "np_root st") (simp_all add: run_tree_def)

lemma run_tree_SomeD:
  assumes "run_tree st = Some t" "repo_wf (tm_repo (np_manager st))"
  shows "np_root st = Some (mt_root_id t)" "dget (tr_trees (tm_repo (np_manager st))) (mt_root_id t) = Some t" "tree_wf t"
  using assms repo_wf_tree [OF assms(2)] by (auto simp: run_tree_def split: option.splits)

lemma run_tree_put:
  assumes "run_tree st = Some t" "repo_wf (tm_repo (np_manager st))" "np_root st' = np_root st"
    "np_manager st' = put_tree (mt_root_id t) t' (np_manager st)"
  shows "run_tree st' = Some t'"
  using run_tree_SomeD [OF assms(1,2)] assms(3,4) by (simp add: run_tree_def)

lemma update_node_state_effect:
  assumes "node_present env st" "run_tree st = Some t"
  shows "run_tree (update_node_state env state sid msg st)
      = Some (update_state (ne_node env) state sid msg (stamp env st) t)"
    and "node_present env (update_node_state env state sid msg st)"
proof -
  from assms have wf: "repo_wf (tm_repo (np_manager st))" and h: "has_node t (ne_node env)"
    by (auto simp: node_present_def)
  note T = run_tree_SomeD [OF assms(2) wf]
  let ?t = "update_state (ne_node env) state sid msg (stamp env st) t"
  have m: "np_manager (update_node_state env state sid msg st) = put_tree (mt_root_id t) ?t (np_manager st)"
    using assms(2) T(1) by (simp add: update_node_state_def)
  show r: "run_tree (update_node_state env state sid msg st) = Some ?t"
    by (rule run_tree_put [OF assms(2) wf _ m]) simp
  have "repo_wf (tm_repo (put_tree (mt_root_id t) ?t (np_manager st)))"
    by (rule repo_wf_put [OF wf T(2) wf_update_state [OF T(3)]]) simp_all
  with r h m show "node_present env (update_node_state env state sid msg st)" by (simp add: node_present_def)
qed

lemma update_node_state_node:
  assumes "node_present env st"
  shows "\<exists>n. run_node env (update_node_state env state sid msg st) = Some n \<and> mn_state n = state"
proof -
  from assms obtain t where t: "run_tree st = Some t" "has_node t (ne_node env)" by (auto simp: node_present_def)
  from t(2) obtain n where n: "get_node t (ne_node env) = Some n" by (auto simp: has_node_def get_node_def din_def)
  have "\<exists>n'. get_node (update_state (ne_node env) state sid msg (stamp env st) t) (ne_node env) = Some n' \<and> mn_state n' = state"
    using n by (simp add: get_node_def update_state_def update_node_get)
  with update_node_state_effect(1) [OF assms t(1)] show ?thesis by (simp add: run_node_def)
qed

lemma propagate_error_effect:
  assumes "node_present env st"
  shows "\<exists>st'. propagate_error env msg st = Some st' \<and> node_present env st'
    \<and> (\<exists>n. run_node env st' = Some n \<and> mn_state n = ERROR)"
proof -
  from assms obtain t where t: "run_tree st = Some t" "has_node t (ne_node env)" and wf: "repo_wf (tm_repo (np_manager st))"
    by (auto simp: node_present_def)
  note T = run_tree_SomeD [OF t(1) wf]
  note g = get_tree_for_node_has [OF wf T(2) t(2)]
  obtain m' ds t' where e: "mark_node_error (ne_node env) msg True (stamp env st) (np_manager st) = Some (m', ne_node env # ds)"
      "repo_wf (tm_repo m')" "get_tree_for_node (tm_repo m') (ne_node env) = Some t'" "mt_root_id t' = mt_root_id t"
    and n: "get_node t' (ne_node env) = map_option (failed_node msg (stamp env st)) (get_node t (ne_node env))"
    using mark_node_error_effect [OF wf g t(2), of msg "stamp env st"] by force
  from get_tree_for_node_Some [OF e(3)] obtain k where "dget (tr_trees (tm_repo m')) k = Some t'" by metis
  with repo_wf_tree(2) [OF e(2)] e(4) have "dget (tr_trees (tm_repo m')) (mt_root_id t) = Some t'" by auto
  then have r: "run_tree (st\<lparr>np_manager := m', np_child_edits := ks\<rparr>) = Some t'" for ks
    using T(1) by (simp add: run_tree_def)
  have "propagate_error env msg st = Some (st\<lparr>np_manager := m', np_child_edits := np_child_edits st @ ds\<rparr>)"
    using t(1) e(1) by (simp add: propagate_error_def)
  moreover from t(2) obtain n0 where "get_node t (ne_node env) = Some n0" by (auto simp: has_node_def get_node_def din_def)
  with n have n': "get_node t' (ne_node env) = Some (failed_node msg (stamp env st) n0)" by simp
  moreover from n' have "has_node t' (ne_node env)" by (simp add: has_node_def get_node_def din_def)
  moreover have "mn_state (failed_node msg (stamp env st) n0) = ERROR" by (simp add: failed_node_def)
  ultimately show ?thesis using e(2) r by (auto simp: node_present_def run_node_def)
qed

lemma node_present_keep:
  "node_present env st \<Longrightarrow> np_manager st' = np_manager st \<Longrightarrow> np_root st' = np_root st \<Longrightarrow> node_present env st'"
  using run_tree_cong [of st' st] by (simp add: node_present_def)

lemma free_session_info:
  assumes run: "session_info_event env d st = Some (st', e)"
  obtains m c t where "st' = st\<lparr>np_cli := m, np_captured := c, np_temp := t\<rparr>"
  | r m c t st1 where "persist_tree env (update_node_state env IN_PROGRESS (Some r) None (st\<lparr>np_cli := m\<rparr>)) = (st1, e)"
      "st' = st1\<lparr>np_captured := c, np_temp := t\<rparr>"
  using run
proof (cases rule: session_info_cases)
  case same
  then have "st' = st\<lparr>np_cli := np_cli st, np_captured := np_captured st, np_temp := np_temp st\<rparr>" by simp
  with that(1) show ?thesis .
next
  case (lost m)
  then have "st' = st\<lparr>np_cli := m, np_captured := np_captured st, np_temp := np_temp st\<rparr>" by simp
  with that(1) show ?thesis .
next
  case (stored r st2)
  have "st' = st2\<lparr>np_captured := if e = None then Some r else np_captured st2, np_temp := if e = None then None else np_temp st2\<rparr>"
    using stored(5) by simp
  with that(2) stored(4) show ?thesis .
qed

interpretation present: event_invariant "node_present env" env for env
proof
  fix st state sid msg
  assume p: "node_present env st"
  then obtain t where "run_tree st = Some t" by (auto simp: node_present_def)
  from update_node_state_effect(2) [OF p this] show "node_present env (update_node_state env state sid msg st)" .
next
  fix st st' error_msg
  assume "node_present env st" "propagate_error env error_msg st = Some st'"
  with propagate_error_effect [of env st error_msg] show "node_present env st'" by auto
qed (erule node_present_keep; simp)+

interpretation present: task_invariant "node_present env" env "\<lambda>_. True" for env
proof
  fix st st' e and d :: event
  assume p: "node_present env st" and run: "session_info_event env d st = Some (st', e)"
  from run show "node_present env st'"
  proof (cases rule: free_session_info)
    case (1 m c t)
    then show ?thesis using node_present_keep [OF p] by simp
  next
    case (2 r m c t st1)
    have "node_present env (st\<lparr>np_cli := m\<rparr>)" using node_present_keep [OF p] by simp
    then have "node_present env st1" using 2(1) by (blast intro: present.keeps_persist present.keeps_node_state)
    then show ?thesis unfolding 2(2) by (rule node_present_keep) simp_all
  qed
qed (erule node_present_keep; simp)

lemma run_node_keep: "np_manager st' = np_manager st \<Longrightarrow> np_root st' = np_root st \<Longrightarrow> run_node env st' = run_node env st"
  using run_tree_cong [of st' st] by (simp add: run_node_def)

lemma start_run_present:
  assumes "repo_wf (tm_repo m)" "get_tree_for_node (tm_repo m) (ne_node env) = Some t" "has_node t (ne_node env)"
  shows "node_present env (start_run env m store cli)"
proof -
  obtain k where k: "dget (tr_trees (tm_repo m)) k = Some t" using get_tree_for_node_Some [OF assms(2)] by metis
  have "node_present env \<lparr>np_manager = m, np_store = store, np_cli = cli,
        np_root = map_option mt_root_id (get_tree_for_node (tm_repo m) (ne_node env)),
        np_transcript = transcript_init False, np_ticks = 0, np_last_ui_update = 0, np_last_displayed = None,
        np_had_events = False, np_captured = None, np_temp = None, np_last_status = None,
        np_saves = 0, np_turns = 0, np_edits = [], np_child_edits = []\<rparr>"
    using assms k repo_wf_tree(2) [OF assms(1) k] by (simp add: node_present_def run_tree_def)
  then show ?thesis unfolding start_run_def by (rule present.keeps_node_state)
qed

lemma open_session_present: "node_present env st \<Longrightarrow> node_present env (open_session uuid new st)"
  by (erule node_present_keep) (simp_all add: open_session_def get_or_create_session_def create_session_def session_given_def Let_def)

lemma release_session_keeps:
  "np_manager (release_session env st) = np_manager st" "np_root (release_session env st) = np_root st"
  "np_edits (release_session env st) = np_edits st" "np_store (release_session env st) = np_store st"
  by (simp_all add: release_session_def Let_def)

definition node_failed :: "node_env \<Rightarrow> node_run \<Rightarrow> bool" where
  "node_failed env st \<longleftrightarrow> map_option mn_state (run_node env st) = Some ERROR"

lemma node_failed_release: "node_failed env (release_session env st) = node_failed env st"
  by (simp add: node_failed_def run_node_keep [of "release_session env st" st] release_session_keeps)

lemma task_failed_effect:
  assumes "node_present env st"
  shows "\<exists>st'. task_failed env e st = Some st' \<and> node_failed env st'"
proof -
  define msg where "msg = take 200 (get_user_facing_error_message e None)"
  have "node_present env (status_ui env 0x1F4A5 ''Task Failed'' (error_segment env msg st))"
    by (intro present.keeps_status_ui present.keeps_error_segment assms)
  from propagate_error_effect [OF this, of msg] show ?thesis
    by (auto simp: task_failed_def Let_def msg_def node_failed_def)
qed

lemma task_failed_fails: "node_present env st \<Longrightarrow> task_failed env e st = Some st' \<Longrightarrow> node_failed env st'"
  using task_failed_effect [of env st e] by auto

lemma update_error_fails: "node_present env st \<Longrightarrow> node_failed env (update_node_state env ERROR sid msg st)"
  using update_node_state_node [of env st ERROR] by (auto simp: node_failed_def)

lemma task_cancelled_effect: "node_present env st \<Longrightarrow> node_failed env (task_cancelled env st)"
  unfolding task_cancelled_def
  by (intro update_error_fails) (simp add: present.keeps_status_ui present.keeps_error_segment)

lemma limit_reached_effect: "node_present env st \<Longrightarrow> node_failed env (limit_reached env e st)"
  unfolding limit_reached_def Let_def
  by (intro update_error_fails present.keeps_status_ui present.keeps_error_segment)

lemma failed_task_ends:
  assumes "node_present env (start_run env m store cli)" "how = StreamDone \<longrightarrow> (\<forall>uuid s. start \<noteq> Opened uuid s)"
    "process_node env start items how m store cli = Some st"
  shows "node_failed env st"
proof (cases start)
  case (Opened uuid s)
  let ?st0 = "open_session uuid s (start_run env m store cli)"
  from assms(3) Opened obtain st1 e where run: "run_stream env items ?st0 = Some (st1, e)"
    by (auto simp: process_node_def Let_def split: option.splits)
  have p: "node_present env st1"
    by (rule present.keeps_stream [OF open_session_present [OF assms(1)] _ run]) (simp add: list_all_iff)
  show ?thesis
  proof (cases e)
    case (Some x)
    with assms(3) Opened run task_failed_fails [OF p] show ?thesis
      by (auto simp: process_node_def Let_def node_failed_release)
  next
    case None
    with assms(2,3) Opened run task_failed_fails [OF p] task_cancelled_effect [OF p] show ?thesis
      by (cases how) (auto simp: process_node_def Let_def node_failed_release)
  qed
next
  case (LimitReached e)
  with assms(3) limit_reached_effect [OF assms(1)] show ?thesis
    by (auto simp: process_node_def Let_def node_failed_release)
next
  case (OpenFailed e)
  with assms(3) task_failed_fails [OF assms(1), of e] show ?thesis
    by (auto simp: process_node_def Let_def node_failed_release)
qed

section \<open>The exit event\<close>

lemma parse_exit:
  "parse_cli_event rp (exit_output code v) =
     (if code = 0 then [[ev_type ''complete'', (lit ''status'', PStr (lit ''success''))]]
      else [[ev_type ''error'', (lit ''message'',
               if truthy v then v else PStr (lit ''Process exited with code '' @ str_of_int code))],
            [ev_type ''complete'', (lit ''status'', PStr (lit ''failed''))]])"
proof -
  have m: "message_object [ev_type ''exit'', (lit ''code'', PInt code), (lit ''stderr'', v)] = PNone"
    by (simp add: message_object_def dget_or_def ev_type_def is_str_def)
  show ?thesis
    by (simp add: exit_output_def parse_cli_event_def parse_event_dict_def m message_events_def)
      (simp add: exit_event_def dget_or_def ev_type_def is_str_def is_zero_def py_str_def)
qed

text \<open>Events other than the report of the session leave its identifier alone.\<close>

interpretation captured: event_invariant "\<lambda>st. np_captured st = c" env for c env
proof
  fix st st' error_msg
  assume "np_captured st = c" "propagate_error env error_msg st = Some st'"
  with propagate_error_cases show "np_captured st' = c" by fastforce
qed simp_all

lemma stream_item_exit: "stream_item env (exit_output code v) st = process_parsed env (parse_cli_event (ne_rp env) (exit_output code v)) st"
  by (simp add: stream_item_def exit_output_def dget_or_def ev_type_def is_str_def)

text \<open>The node is completed and the tree is stored as it is.\<close>

definition node_stored :: "node_env \<Rightarrow> message_state \<Rightarrow> node_run \<Rightarrow> bool" where
  "node_stored env state st \<longleftrightarrow>
     map_option mn_state (run_node env st) = Some state
     \<and> (case run_tree st of None \<Rightarrow> False
        | Some t \<Rightarrow> get_tree (mt_root_id t) (np_store st) = Some (tree_to_dict (ne_iso env) t))"

lemma get_tree_save: "get_tree r (fst (save_tree r data s)) = Some data"
  by (simp add: get_tree_def save_tree_def Let_def schedule_save_def dict_simps split: sum.split)

lemma complete_node_effect:
  assumes "node_present env st" "given (np_captured st)"
    "complete_node env st = (st', None)"
  shows "node_stored env COMPLETED st'"
proof -
  let ?s1 = "status_ui env 0x2705 ''Complete'' st"
  let ?s2 = "update_node_state env COMPLETED (np_captured ?s1) None ?s1"
  have p: "node_present env ?s1" by (rule present.keeps_status_ui [OF assms(1)])
  then have "node_present env ?s2" by (rule present.keeps_node_state)
  then obtain t where t: "run_tree ?s2 = Some t" by (auto simp: node_present_def)
  have c: "persist_tree env ?s2 = (st', None)"
    using assms(2,3) by (simp add: complete_node_def Let_def status_ui_def)
  have keep: "np_manager st' = np_manager ?s2" "np_root st' = np_root ?s2"
    using persist_tree_simps(4,5) [of env ?s2] c by simp_all
  then have "run_tree st' = Some t" using t run_tree_cong [of st' ?s2] by simp
  moreover have "np_store st' = fst (save_tree (mt_root_id t) (tree_to_dict (ne_iso env) t) (np_store ?s2))"
    using t c by (auto simp: persist_tree_def Let_def split: option.splits)
  moreover have "run_node env st' = run_node env ?s2" by (rule run_node_keep) (use keep in simp_all)
  ultimately show ?thesis
    using update_node_state_node [OF p, of COMPLETED "np_captured ?s1" None] unfolding node_stored_def
    by (auto simp: get_tree_save)
qed

lemma complete_event_effect:
  assumes "node_present env st" "given (np_captured st)"
    "process_parsed_event env [ev_type ''complete'', x] st = Some (st', None)"
  shows "node_stored env COMPLETED st'"
proof -
  have s: "event_status env (PStr (lit ''complete'')) ev = None" for ev
    by (simp add: event_status_def Let_def is_str_def)
  have d: "dispatch_event env (PStr (lit ''complete'')) [ev_type ''complete'', x] st = Some (st', None)"
    using assms(3) by (simp add: process_parsed_event_def dget_or_def ev_type_def is_transcript_event_def is_str_def
        lit_def Let_def)
  have keep: "node_stored env COMPLETED (u\<lparr>np_last_status := l\<rparr>) = node_stored env COMPLETED u" for u l
    by (cases "np_root u") (simp_all add: node_stored_def run_node_def run_tree_def split: option.split)
  have after: "node_stored env COMPLETED st'"
    if "after_event l (complete_node env u) = (st', None)" "node_present env u" "given (np_captured u)" for l u
  proof -
    obtain u' e where u': "complete_node env u = (u', e)" by force
    with that(1) have "complete_node env u = (u', None)" "st' = u'\<lparr>np_last_status := l\<rparr>" by (cases e; simp)+
    with complete_node_effect [OF that(2,3)] show ?thesis by (simp add: keep)
  qed
  show ?thesis
  proof (cases "np_had_events st")
    case True
    with d s have "after_event (np_last_status st) (complete_node env st) = (st', None)"
      by (simp add: dispatch_event_def Let_def is_str_def)
    from after [OF this assms(1,2)] show ?thesis .
  next
    case False
    with d s obtain t where "after_event (np_last_status st) (complete_node env (st\<lparr>np_transcript := t\<rparr>)) = (st', None)"
      by (auto simp: dispatch_event_def Let_def is_str_def split: sum.splits)
    then show ?thesis by (rule after) (use assms present.keeps_transcript in auto)
  qed
qed

lemma error_event_effect:
  assumes "node_present env st" "process_parsed_event env [ev_type ''error'', x] st = Some (st', None)"
  shows "node_present env st' \<and> np_captured st' = np_captured st"
  using present.keeps_process_parsed_event [OF assms] captured.keeps_process_parsed_event [OF _ assms(2)] by simp

text \<open>Whatever its exit code, the exit event ends with the event of completion.\<close>

lemma exit_item_effect:
  assumes "node_present env st" "given (np_captured st)" "stream_item env (exit_output code v) st = Some (st', None)"
  shows "node_stored env COMPLETED st'"
proof (cases "code = 0")
  case True
  with assms complete_event_effect show ?thesis by (auto simp: stream_item_exit parse_exit split: option.splits)
next
  case False
  with assms(3) obtain x y st1 where
      e: "process_parsed_event env [ev_type ''error'', x] st = Some (st1, None)"
    and c: "process_parsed_event env [ev_type ''complete'', y] st1 = Some (st', None)"
    by (auto simp: stream_item_exit parse_exit split: option.splits)
  from complete_event_effect [OF _ _ c] error_event_effect [OF assms(1) e] assms(2) show ?thesis by simp
qed

lemma run_stream_append:
  "run_stream env (xs @ ys) st =
     (case run_stream env xs st of
        None \<Rightarrow> None
      | Some (st1, Some e) \<Rightarrow> Some (st1, Some e)
      | Some (st1, None) \<Rightarrow> run_stream env ys st1)"
  by (induction xs arbitrary: st) (auto split: option.split)

lemma stream_item_captured:
  "stream_item env (exit_output code v) st = Some (st', e) \<Longrightarrow> np_captured st' = np_captured st"
  unfolding stream_item_exit by (rule captured.keeps_process_parsed) simp_all

lemma exit_completes:
  assumes "node_present env (open_session uuid s (start_run env m store cli))"
    "run_stream env (items @ [exit_output code v]) (open_session uuid s (start_run env m store cli)) = Some (st, None)"
    "given (np_captured st)"
  shows "node_stored env COMPLETED st"
proof -
  let ?st0 = "open_session uuid s (start_run env m store cli)"
  from assms(2) obtain st1 where st1: "run_stream env items ?st0 = Some (st1, None)"
    "stream_item env (exit_output code v) (interfere env st1) = Some (st, None)"
    by (auto simp: run_stream_append split: option.splits)
  have "node_present env st1" by (rule present.keeps_stream [OF assms(1) _ st1(1)]) (simp add: list_all_iff)
  then have "node_present env (interfere env st1)" by (rule present.keeps_interfere)
  then show ?thesis
    by (rule exit_item_effect [OF _ _ st1(2)]) (use assms(3) stream_item_captured [OF st1(2)] in simp)
qed

text \<open>A task that fails is never left open. When no session can be opened, when the stream breaks or when
  the task is cancelled, the node ends in the error state, whatever happened before.\<close>
theorem failed_task_marks_node:
  assumes "repo_wf (tm_repo m)" "get_tree_for_node (tm_repo m) (ne_node env) = Some t" "has_node t (ne_node env)"
    and "how = StreamDone \<longrightarrow> (\<forall>uuid s. start \<noteq> Opened uuid s)"
    and "process_node env start items how m store cli = Some st"
  shows "map_option mn_state (run_node env st) = Some ERROR"
  using failed_task_ends [OF start_run_present [OF assms(1-3)] assms(4,5)] by (simp add: node_failed_def)

text \<open>Once the tool has reported its session and has exited, the node counts as completed and is stored as
  such, whatever the exit code: the error of an exit code other than 0 is overwritten by the event that
  follows it.\<close>
theorem exit_always_completes:
  assumes "repo_wf (tm_repo m)" "get_tree_for_node (tm_repo m) (ne_node env) = Some t" "has_node t (ne_node env)"
    and "run_stream env (items @ [exit_output code v]) (open_session uuid s (start_run env m store cli)) = Some (st, None)"
    and "given (np_captured st)"
  shows "map_option mn_state (run_node env st) = Some COMPLETED
    \<and> (\<exists>t'. run_tree st = Some t' \<and> get_tree (mt_root_id t') (np_store st) = Some (tree_to_dict (ne_iso env) t'))"
  using exit_completes [OF open_session_present [OF start_run_present [OF assms(1-3)]] assms(4,5)]
  by (auto simp: node_stored_def split: option.splits)

text \<open>An environment in which time stands still.\<close>

definition example_env :: node_env where
  "example_env = \<lparr>ne_node = lit ''2'', ne_clock = (\<lambda>_. 100), ne_stamp = (\<lambda>_. 7),
     ne_ctx = \<lparr>rc_bold = (\<lambda>s. s), rc_code_inline = (\<lambda>s. s), rc_escape_code = (\<lambda>s. s), rc_escape_text = (\<lambda>s. s),
       rc_render_markdown = (\<lambda>s. s), rc_thinking_tail_max = None, rc_tool_output_tail_max = None, rc_text_tail_max = None\<rparr>,
     ne_limit = 3900, ne_format = (\<lambda>e l s. e @ l), ne_rp = (\<lambda>_. []), ne_iso = (\<lambda>_. []), ne_save = (\<lambda>_. None), ne_others = (\<lambda>n. if n = 0 then [Create (lit ''b'') 9] else []),
     ne_exn = (\<lambda>_. \<lparr>ex_classes = [], ex_str = [], ex_status_code = None, ex_response_status = 0, ex_error_type = [], ex_raw = None\<rparr>)\<rparr>"

definition failing_items :: "pyval list" where
  "failing_items = [session_info (PStr (lit ''r'')), exit_output 1 PNone]"

definition example_start :: node_run where
  "example_start = open_session (lit ''a'') 5 (start_run example_env example_manager (store_init None) cli_manager_init)"

lemma session_info_runs:
  assumes "given (np_temp st)" "r \<noteq> []" "saves_ok env"
  shows "\<exists>st'. stream_item env (session_info (PStr r)) st = Some (st', None) \<and> np_captured st' = Some r"
proof -
  define st1 where "st1 = update_node_state env IN_PROGRESS (Some r) None
      (st\<lparr>np_cli := fst (register_real_session_id (the (np_temp st)) r (np_cli st))\<rparr>)"
  obtain st2 where "persist_tree env st1 = (st2, None)" using persist_tree_ok [OF assms(3)] by (metis prod.collapse)
  with assms(1,2) show ?thesis
    by (simp add: stream_item_def session_info_def session_info_event_def dget_or_def ev_type_def is_str_def Let_def
        st1_def)
qed

lemma example_saves: "saves_ok example_env"
  by (simp add: saves_ok_def example_env_def)

lemma failing_exit_runs:
  assumes "node_present env st" "code \<noteq> 0" "saves_ok env"
  shows "\<exists>st'. stream_item env (exit_output code PNone) st = Some (st', None) \<and> np_captured st' = np_captured st"
proof -
  let ?msg = "lit ''Process exited with code '' @ str_of_int code"
  let ?ev = "[ev_type ''error'', (lit ''message'', PStr ?msg)]"
  obtain t where t: "apply_event (ne_rp env) ?ev (np_transcript st) = Inr t"
    by (simp add: apply_event_def dget_or_def ev_type_def is_str_def hidden_in_subagent_def)
  define st1 where "st1 = status_ui env 0x274C ''Error'' (st\<lparr>np_transcript := t, np_had_events := True\<rparr>)"
  have "node_present env st1"
    unfolding st1_def by (intro present.keeps_status_ui present.keeps_transcript_event assms(1))
  from propagate_error_effect [OF this] obtain st2 where st2: "propagate_error env ?msg st1 = Some st2" by blast
  let ?st3 = "st2\<lparr>np_last_status := np_last_status st\<rparr>"
  have "np_had_events st1" by (simp add: st1_def status_ui_def update_ui_def Let_def)
  then have had: "np_had_events st2" using propagate_error_cases [OF st2] by auto
  have e: "process_parsed_event env ?ev st = Some (?st3, None)"
    using t st2 by (simp add: process_parsed_event_def dispatch_event_def event_status_def is_transcript_event_def
        dget_or_def ev_type_def is_str_def Let_def st1_def lit_def)
  have "\<exists>st'. after_event l (complete_node env u) = (st', None)" for l u
  proof -
    have "snd (complete_node env u) = None"
      using persist_tree_ok [OF assms(3)] by (simp add: complete_node_def Let_def)
    then obtain u' where "complete_node env u = (u', None)" by (metis prod.collapse)
    then show ?thesis by simp
  qed
  with had have c: "\<exists>st'. process_parsed_event env [ev_type ''complete'', x] ?st3 = Some (st', None)" for x
    by (simp add: process_parsed_event_def dispatch_event_def event_status_def is_transcript_event_def
        dget_or_def ev_type_def is_str_def Let_def lit_def)
  from c obtain st' where "process_parsed_event env [ev_type ''complete'', (lit ''status'', PStr (lit ''failed''))] ?st3 = Some (st', None)"
    by blast
  with e assms(2) have "stream_item env (exit_output code PNone) st = Some (st', None)"
    by (simp add: stream_item_exit parse_exit)
  with stream_item_captured show ?thesis by blast
qed

lemma example_tree_of_node: "get_tree_for_node (tm_repo example_manager) (ne_node example_env) = Some example_tree"
  by (rule get_tree_for_node_has [OF example_manager_wf, of "lit ''1''"])
    (simp_all add: example_has example_env_def, simp add: example_manager_def manager_init_def)

lemma example_present: "node_present example_env example_start"
  unfolding example_start_def
proof (rule open_session_present, rule start_run_present)
  show "repo_wf (tm_repo example_manager)" by (rule example_manager_wf)
  show "get_tree_for_node (tm_repo example_manager) (ne_node example_env) = Some example_tree"
    by (rule example_tree_of_node)
  show "has_node example_tree (ne_node example_env)" by (simp add: example_has example_env_def)
qed

lemma example_report_runs:
  "\<exists>st. stream_item example_env (session_info (PStr (lit ''r''))) (interfere example_env example_start) = Some (st, None)
    \<and> np_captured st = Some (lit ''r'')"
proof -
  have "given (np_temp (interfere example_env example_start))"
    by (simp add: example_start_def open_session_def get_or_create_session_def create_session_def session_given_def given_def Let_def)
  from session_info_runs [OF this _ example_saves, of "lit ''r''"] show ?thesis by simp
qed

lemma example_task_runs:
  "\<exists>st. run_stream example_env failing_items example_start = Some (st, None) \<and> np_captured st = Some (lit ''r'')"
proof -
  from example_report_runs obtain st1 where
      s: "stream_item example_env (session_info (PStr (lit ''r''))) (interfere example_env example_start) = Some (st1, None)"
        "np_captured st1 = Some (lit ''r'')" by blast
  have "node_present example_env st1"
    by (rule present.keeps_stream_item [OF present.keeps_interfere [OF example_present] TrueI s(1)])
  from failing_exit_runs [OF present.keeps_interfere [OF this] _ example_saves, of 1] s show ?thesis
    by (auto simp: failing_items_def)
qed

text \<open>A task whose process exits with code 1.\<close>
theorem exit_always_completes_witness:
  "\<exists>st. run_stream example_env failing_items example_start = Some (st, None)
     \<and> map_option mn_state (run_node example_env st) = Some COMPLETED"
proof -
  obtain st where st: "run_stream example_env failing_items example_start = Some (st, None)" "np_captured st = Some (lit ''r'')"
    using example_task_runs by blast
  from exit_always_completes [OF example_manager_wf example_tree_of_node, of "[session_info (PStr (lit ''r''))]" 1 PNone "lit ''a''" 5
      "store_init None" cli_manager_init st] st
  show ?thesis by (simp add: failing_items_def example_start_def example_has given_def) (simp add: example_env_def example_has)
qed

text \<open>A task that is cancelled before the first event.\<close>
theorem failed_task_marks_node_witness:
  "\<exists>st. process_node example_env (Opened (lit ''a'') 5) [] StreamCancelled example_manager (store_init None) cli_manager_init = Some st
     \<and> map_option mn_state (run_node example_env st) = Some ERROR"
proof -
  let ?run = "process_node example_env (Opened (lit ''a'') 5) [] StreamCancelled example_manager (store_init None) cli_manager_init"
  obtain st where st: "?run = Some st" by (simp add: process_node_def Let_def)
  have "has_node example_tree (ne_node example_env)" by (simp add: example_has example_env_def)
  from failed_task_marks_node [OF example_manager_wf example_tree_of_node this _ st] st show ?thesis by simp
qed

text \<open>A task whose tool reports a session and says nothing else, while another task opens a session.\<close>
theorem node_task_releases_session_witness:
  "\<exists>st. process_node example_env (Opened (lit ''a'') 5) [session_info (PStr (lit ''r''))] StreamDone
       example_manager (store_init None) cli_manager_init = Some st
     \<and> released 5 (np_cli st)"
proof -
  let ?run = "process_node example_env (Opened (lit ''a'') 5) [session_info (PStr (lit ''r''))] StreamDone
      example_manager (store_init None) cli_manager_init"
  from example_report_runs obtain st1 where
      s: "stream_item example_env (session_info (PStr (lit ''r''))) (interfere example_env example_start) = Some (st1, None)"
        "np_captured st1 = Some (lit ''r'')" by blast
  then have r: "?run = Some (release_session example_env st1)" by (simp add: process_node_def example_start_def Let_def)
  have c: "np_captured (release_session example_env st1) = Some (lit ''r'')" using s(2) by (simp add: release_session_def Let_def)
  have "released 5 (np_cli (release_session example_env st1))"
  proof (rule node_task_releases_session [OF r example_saves])
    fix n oper
    assume "oper \<in> set (ne_others example_env n)"
    then show "unrelated (lit ''a'') (np_captured (release_session example_env st1)) 5 oper"
      unfolding c by (auto simp: example_env_def temp_of_def lit_def split: if_splits)
  qed (simp_all add: c session_held_def cli_manager_init_def not_pending_def temp_of_def lit_def session_info_def dget_or_def
      ev_type_def is_str_def)
  with r show ?thesis by blast
qed

text \<open>An identifier that is a list takes the pending session out of the manager before it raises; the session is
  held by no one then, and is never stopped.\<close>
theorem list_id_leaks_session:
  assumes "np_cli st = manager_step (Create uuid s) cli_manager_init" "np_captured st = None" "np_temp st = Some (temp_of uuid)"
  shows "\<exists>st'. session_info_event env [(lit ''session_id'', PList (x # xs))] st = Some (st', Some TypeError)
    \<and> np_cli (release_session (env\<lparr>ne_others := \<lambda>_. []\<rparr>) st') = cli_manager_init"
  using assms
  by (simp add: session_info_event_def dget_or_def given_def temp_of_def lit_def register_unhashable_id_def
      release_session_def remove_session_def manager_defs cli_manager_init_def dict_simps Let_def)

section \<open>The edits of the message\<close>

definition clock_ok :: "node_env \<Rightarrow> bool" where
  "clock_ok env \<longleftrightarrow> mono (ne_clock env)"

text \<open>Two successive edits differ, and the second is forced or comes at least a second after the first.\<close>

definition edit_follows :: "ui_edit \<Rightarrow> ui_edit \<Rightarrow> bool" where
  "edit_follows a b \<longleftrightarrow> ue_text b \<noteq> ue_text a \<and> (ue_force b \<or> 1 \<le> ue_time b - ue_time a)"

definition edits_ok :: "node_env \<Rightarrow> node_run \<Rightarrow> bool" where
  "edits_ok env st \<longleftrightarrow>
     successively edit_follows (np_edits st)
     \<and> np_last_displayed st = (if np_edits st = [] then None else Some (ue_text (last (np_edits st))))
     \<and> (np_edits st \<noteq> [] \<longrightarrow> ue_time (last (np_edits st)) \<le> np_last_ui_update st
          \<and> (\<forall>n \<ge> np_ticks st. ue_time (last (np_edits st)) \<le> ne_clock env n))"

lemma edits_ok_keep:
  "edits_ok env st \<Longrightarrow> np_edits st' = np_edits st \<Longrightarrow> np_last_displayed st' = np_last_displayed st
     \<Longrightarrow> np_last_ui_update st' = np_last_ui_update st \<Longrightarrow> np_ticks st' = np_ticks st \<Longrightarrow> edits_ok env st'"
  by (simp add: edits_ok_def)

lemma edits_ok_update_ui:
  assumes c: "clock_ok env" and ok: "edits_ok env st"
  shows "edits_ok env (update_ui env status force st)"
proof -
  define now where "now = ne_clock env (np_ticks st)"
  define display where "display = render_transcript (ne_ctx env) (ne_limit env) status (np_transcript st)"
  have later: "now \<le> ne_clock env n" if "Suc (np_ticks st) \<le> n" for n
    using c that unfolding clock_ok_def now_def by (blast intro: monoD Suc_leD)
  have before: "ue_time (last (np_edits st)) \<le> now" if "np_edits st \<noteq> []" using ok that by (simp add: edits_ok_def now_def)
  show ?thesis
  proof (cases "\<not> force \<and> now - np_last_ui_update st < 1")
    case True
    then have "update_ui env status force st = st\<lparr>np_ticks := Suc (np_ticks st)\<rparr>"
      by (simp add: update_ui_def now_def Let_def)
    with ok show ?thesis by (auto simp: edits_ok_def)
  next
    case False
    let ?st1 = "st\<lparr>np_ticks := Suc (np_ticks st), np_last_ui_update := now,
        np_last_status := (if status = None then np_last_status st else status)\<rparr>"
    show ?thesis
    proof (cases "display \<noteq> [] \<and> np_last_displayed st \<noteq> Some display")
      case True
      let ?e = "\<lparr>ue_time = now, ue_force = force, ue_text = display\<rparr>"
      have u: "update_ui env status force st = ?st1\<lparr>np_last_displayed := Some display, np_edits := np_edits st @ [?e]\<rparr>"
        using False True by (auto simp: update_ui_def now_def display_def Let_def)
      have "edit_follows (last (np_edits st)) ?e" if ne: "np_edits st \<noteq> []"
      proof -
        have "ue_time (last (np_edits st)) \<le> np_last_ui_update st" "np_last_displayed st = Some (ue_text (last (np_edits st)))"
          using ok ne by (simp_all add: edits_ok_def)
        with False True show ?thesis by (auto simp: edit_follows_def)
      qed
      with ok have "successively edit_follows (np_edits st @ [?e])"
        by (auto simp: edits_ok_def successively_append_iff)
      with later show ?thesis unfolding u by (simp add: edits_ok_def)
    next
      case False': False
      have u: "update_ui env status force st = ?st1"
        using False False' by (auto simp: update_ui_def now_def display_def Let_def)
      show ?thesis using ok before unfolding u by (auto simp: edits_ok_def)
    qed
  qed
qed

interpretation edits: event_invariant "\<lambda>st. clock_ok env \<longrightarrow> edits_ok env st" env for env
proof
  fix st st' error_msg
  assume p: "clock_ok env \<longrightarrow> edits_ok env st" and e: "propagate_error env error_msg st = Some st'"
  from propagate_error_cases [OF e] obtain m ks where st': "st' = st\<lparr>np_manager := m, np_child_edits := ks\<rparr>" by blast
  show "clock_ok env \<longrightarrow> edits_ok env st'" using p unfolding st' by (simp add: edits_ok_def)
qed (auto simp: edits_ok_update_ui elim: edits_ok_keep)

interpretation edits: task_invariant "\<lambda>st. clock_ok env \<longrightarrow> edits_ok env st" env "\<lambda>_. True" for env
proof
  fix st st' e and d :: event
  assume p: "clock_ok env \<longrightarrow> edits_ok env st" and run: "session_info_event env d st = Some (st', e)"
  from run show "clock_ok env \<longrightarrow> edits_ok env st'"
  proof (cases rule: free_session_info)
    case (1 m c t)
    then show ?thesis using p by (auto elim: edits_ok_keep)
  next
    case (2 r m c t st1)
    have "clock_ok env \<longrightarrow> edits_ok env (st\<lparr>np_cli := m\<rparr>)" using p by (auto elim: edits_ok_keep)
    then have "clock_ok env \<longrightarrow> edits_ok env st1" by (rule edits.keeps_persist [OF edits.keeps_node_state 2(1)])
    then show ?thesis unfolding 2(2) by (auto elim: edits_ok_keep)
  qed
qed (auto elim: edits_ok_keep)

text \<open>C36: a task does not edit the message of its node too often. The edits meant are those the task makes while
  it shows its progress; the queue and a stop of the task edit the same message outside of it. While time does
  not run backwards, two successive ones always differ, and the later comes at least a second after the one
  before it unless it was forced by the end of a block, a completion, a failure or a cancellation.\<close>
theorem edits_throttled:
  assumes "mono (ne_clock env)" "process_node env (Opened uuid s) items how m store cli = Some st"
  shows "successively edit_follows (np_edits st)"
proof -
  have "edits_ok env (open_session uuid s (start_run env m store cli))"
    by (simp add: edits_ok_def open_session_def start_run_def get_or_create_session_def create_session_def session_given_def Let_def)
  from edits.process_node_keeps [OF _ _ assms(2)] this assms(1) show ?thesis
    by (auto simp: clock_ok_def edits_ok_def release_session_keeps list_all_iff)
qed

text \<open>The failing task of above, as a whole.\<close>
theorem edits_throttled_witness:
  "\<exists>st. process_node example_env (Opened (lit ''a'') 5) failing_items StreamDone
       example_manager (store_init None) cli_manager_init = Some st
     \<and> successively edit_follows (np_edits st)"
proof -
  obtain st where st: "process_node example_env (Opened (lit ''a'') 5) failing_items StreamDone
       example_manager (store_init None) cli_manager_init = Some st"
    using example_task_runs by (auto simp: process_node_def example_start_def Let_def)
  have "mono (ne_clock example_env)" by (simp add: example_env_def mono_def)
  from edits_throttled [OF this st] st show ?thesis by blast
qed

end
