(* ===== verification/MessageHandler.thy ===== *)
theory MessageHandler
  imports TreeManager SessionStore CliManager Transcript "HOL-Library.List_Lexorder" "HOL-Library.Product_Lexorder"
begin

text \<open>
  \<open>messaging/handler.py\<close> and \<open>messaging/commands.py\<close>: what the handler does with a message from the chat,
  and the commands \<open>/stop\<close>, \<open>/stats\<close> and \<open>/clear\<close>. A message is handled without another one in between. The
  operations asked of the platform are recorded in order; the identifiers it gives to the messages it sends
  are an input, by the number of operations before. The processing of a node is modelled in a theory of its
  own.
\<close>

section \<open>State\<close>

datatype platform_op =
    SendMessage pystr pystr "pystr option" "pystr option" \<comment> \<open>chat, text, reply to, thread\<close>
  | EditMessage pystr pystr pystr
  | DeleteMessages pystr "pystr list"
  | DeleteMessage pystr pystr

record handler =
  hd_manager :: tree_manager
  hd_store :: session_store
  hd_cli :: cli_manager
  hd_ops :: "platform_op list"

record handler_env =
  he_format :: "pystr \<Rightarrow> pystr \<Rightarrow> pystr option \<Rightarrow> pystr"
  he_ctx :: render_ctx
  he_iso :: iso
  he_now :: time
  he_stamp :: pystr \<comment> \<open>the time as the log of messages records it\<close>
  he_sent :: "nat \<Rightarrow> pystr option"
  he_as_int :: "pystr \<Rightarrow> int option" \<comment> \<open>\<open>int(s)\<close>, if it does not raise\<close>
  he_set_order :: "pystr list \<Rightarrow> pystr list" \<comment> \<open>the order in which a set of these elements is listed\<close>
  he_batch_delete :: bool
  he_voice :: "pystr \<Rightarrow> pystr \<Rightarrow> (pystr \<times> pystr) option" \<comment> \<open>\<open>cancel_pending_voice\<close>\<close>

definition symbol :: "nat \<Rightarrow> pystr" where
  "symbol n = [Uni n]"

definition do_op :: "platform_op \<Rightarrow> handler \<Rightarrow> handler" where
  "do_op oper h = h\<lparr>hd_ops := hd_ops h @ [oper]\<rparr>"

text \<open>\<open>queue_send_message\<close>: the identifier of the message, if the platform gives one.\<close>

definition send_message ::
    "handler_env \<Rightarrow> pystr \<Rightarrow> pystr \<Rightarrow> pystr option \<Rightarrow> pystr option \<Rightarrow> handler \<Rightarrow> handler \<times> pystr option" where
  "send_message env chat body reply_to thread h =
     (do_op (SendMessage chat body reply_to thread) h, he_sent env (length (hd_ops h)))"

definition hd_repo :: "handler \<Rightarrow> tree_repository" where
  "hd_repo h = tm_repo (hd_manager h)"

definition record_outgoing_message :: "handler_env \<Rightarrow> pystr \<Rightarrow> pystr \<Rightarrow> pystr option \<Rightarrow> string \<Rightarrow> handler \<Rightarrow> handler" where
  "record_outgoing_message env platform chat_id msg_id kind h =
     (if \<not> given msg_id then h
      else h\<lparr>hd_store := record_message_id (he_stamp env) platform chat_id (the msg_id) (lit ''out'') (lit kind) (hd_store h)\<rparr>)"

section \<open>Messages\<close>

definition cmd_base :: "pystr \<Rightarrow> pystr" where
  "cmd_base body =
     (case split_ws (strip body) of [] \<Rightarrow> [] | cmd # _ \<Rightarrow> takeWhile (\<lambda>c. c \<noteq> Ch (CHR ''@'')) cmd)"

definition STATUS_MESSAGE_PREFIXES :: "pystr list" where
  "STATUS_MESSAGE_PREFIXES =
     map symbol [0x23F3, 0x1F4AD, 0x1F527, 0x2705, 0x274C, 0x1F680, 0x1F916, 0x1F4CB, 0x1F4CA, 0x1F504]"

definition record_incoming :: "handler_env \<Rightarrow> incoming_message \<Rightarrow> handler \<Rightarrow> handler" where
  "record_incoming env i h =
     h\<lparr>hd_store := record_message_id (he_stamp env) (im_platform i) (im_chat_id i) (im_message_id i) (lit ''in'')
        (if startswith (cmd_base (im_text i)) (lit ''/'') then lit ''command'' else lit ''content'') (hd_store h)\<rparr>"

text \<open>The node a message replies to, with its tree: \<open>None\<close> starts a new conversation.\<close>

definition replied_id :: "incoming_message \<Rightarrow> pystr option" where
  "replied_id i = (if is_reply i \<and> given (im_reply_to_message_id i) then im_reply_to_message_id i else None)"

definition reply_target :: "incoming_message \<Rightarrow> handler \<Rightarrow> (message_tree \<times> pystr) option" where
  "reply_target i h =
     (case replied_id i of
        None \<Rightarrow> None
      | Some reply_id \<Rightarrow>
          (case get_tree_for_node (hd_repo h) reply_id of
             None \<Rightarrow> None
           | Some t \<Rightarrow>
               (let parent = resolve_parent_node_id (hd_repo h) reply_id
                in if given parent then Some (t, the parent) else None)))"

definition queued_text :: "handler_env \<Rightarrow> nat \<Rightarrow> pystr" where
  "queued_text env position =
     he_format env (symbol 0x1F4CB) (lit ''Queued'')
       (Some (lit ''(position '' @ str_of_int (int position) @ lit '') - waiting...''))"

definition get_initial_status :: "handler_env \<Rightarrow> (message_tree \<times> pystr) option \<Rightarrow> handler \<Rightarrow> pystr" where
  "get_initial_status env target h =
     (case target of
        Some (t, parent) \<Rightarrow>
          if is_node_tree_busy (hd_repo h) parent then queued_text env (repo_queue_size (hd_repo h) parent + 1)
          else he_format env (symbol 0x1F504) (lit ''Continuing conversation...'') None
      | None \<Rightarrow> he_format env (symbol 0x23F3) (lit ''Launching new Claude CLI instance...'') None)"

definition show_status :: "handler_env \<Rightarrow> incoming_message \<Rightarrow> pystr \<Rightarrow> handler \<Rightarrow> handler \<times> pystr option" where
  "show_status env i first_status h =
     (if given (im_status_message_id i)
      then (do_op (EditMessage (im_chat_id i) (the (im_status_message_id i)) first_status) h, im_status_message_id i)
      else send_message env (im_chat_id i) first_status (Some (im_message_id i)) (im_message_thread_id i) h)"

text \<open>The message becomes a node: the root of the tree it is in is returned, if there is one.\<close>

definition store_node :: "pystr \<Rightarrow> pystr \<Rightarrow> handler \<Rightarrow> handler" where
  "store_node k rt h = h\<lparr>hd_store := SessionStore.register_node k rt (hd_store h)\<rparr>"

definition file_message ::
    "handler_env \<Rightarrow> incoming_message \<Rightarrow> (message_tree \<times> pystr) option \<Rightarrow> pystr option \<Rightarrow> handler
       \<Rightarrow> (handler \<times> pystr option) result" where
  "file_message env i target status_msg_id h =
     (let node_id = im_message_id i
      in if \<not> given status_msg_id then Inr (h, map_option (\<lambda>(t, _). mt_root_id t) target)
         else
           (let status = the status_msg_id
            in case target of
                 Some (t, parent) \<Rightarrow>
                   rbind (add_to_tree parent node_id i status (he_now env) (hd_manager h)) (\<lambda>m.
                     (let rt = (case get_tree_for_node (tm_repo m) parent of Some t' \<Rightarrow> mt_root_id t' | None \<Rightarrow> mt_root_id t)
                      in Inr (store_node node_id rt (store_node status rt
                           (h\<lparr>hd_manager := manager_register_node status rt m\<rparr>)), Some rt)))
               | None \<Rightarrow>
                   Inr (store_node status node_id (store_node node_id node_id
                     (h\<lparr>hd_manager := manager_register_node status node_id
                          (create_tree node_id i status (he_now env) (hd_manager h))\<rparr>)), Some node_id)))"

definition persist_root :: "handler_env \<Rightarrow> pystr option \<Rightarrow> handler \<Rightarrow> handler" where
  "persist_root env rt h =
     (case rt of
        None \<Rightarrow> h
      | Some r \<Rightarrow>
          (case repo_get_tree (hd_repo h) r of
             None \<Rightarrow> h
           | Some t \<Rightarrow> h\<lparr>hd_store := fst (save_tree r (tree_to_dict (he_iso env) t) (hd_store h))\<rparr>))"

definition enqueue_message :: "handler_env \<Rightarrow> incoming_message \<Rightarrow> pystr option \<Rightarrow> pystr option \<Rightarrow> handler \<Rightarrow> handler" where
  "enqueue_message env i status_msg_id rt h =
     (let h1 = persist_root env rt h
      in case manager_enqueue (im_message_id i) (hd_manager h1) of
           (m, was_queued) \<Rightarrow>
             (let h2 = h1\<lparr>hd_manager := m\<rparr>
              in if was_queued \<and> given status_msg_id
                 then do_op (EditMessage (im_chat_id i) (the status_msg_id)
                        (queued_text env (repo_queue_size (hd_repo h2) (im_message_id i)))) h2
                 else h2))"

definition handle_content :: "handler_env \<Rightarrow> incoming_message \<Rightarrow> handler \<Rightarrow> handler result" where
  "handle_content env i h =
     (let target = reply_target i h
      in case show_status env i (get_initial_status env target h) h of
           (h1, status_msg_id) \<Rightarrow>
             rbind (file_message env i target status_msg_id
                      (record_outgoing_message env (im_platform i) (im_chat_id i) status_msg_id ''status'' h1))
               (\<lambda>(h2, rt). Inr (enqueue_message env i status_msg_id rt h2)))"

text \<open>The callbacks of the queue.\<close>

fun queue_positions :: "handler_env \<Rightarrow> message_tree \<Rightarrow> pystr list \<Rightarrow> nat \<Rightarrow> handler \<Rightarrow> handler" where
  "queue_positions env t [] position h = h"
| "queue_positions env t (k # ks) position h =
     (case get_node t k of
        None \<Rightarrow> queue_positions env t ks position h
      | Some n \<Rightarrow>
          if mn_state n \<noteq> PENDING then queue_positions env t ks position h
          else queue_positions env t ks (position + 1)
                 (do_op (EditMessage (im_chat_id (mn_incoming n)) (mn_status_message_id n) (queued_text env (position + 1))) h))"

definition update_queue_positions :: "handler_env \<Rightarrow> message_tree \<Rightarrow> handler \<Rightarrow> handler" where
  "update_queue_positions env t h = queue_positions env t (get_queue_snapshot t) 0 h"

definition mark_node_processing :: "handler_env \<Rightarrow> message_tree \<Rightarrow> pystr \<Rightarrow> handler \<Rightarrow> handler" where
  "mark_node_processing env t node_id h =
     (case get_node t node_id of
        None \<Rightarrow> h
      | Some n \<Rightarrow>
          if mn_state n = ERROR then h
          else do_op (EditMessage (im_chat_id (mn_incoming n)) (mn_status_message_id n)
                 (he_format env (symbol 0x1F504) (lit ''Processing...'') None)) h)"

section \<open>Stopping\<close>

text \<open>\<open>update_cancelled_nodes_ui\<close>, for nodes of the manager given by their identifiers. Their trees are saved
  once each, after the messages are edited.\<close>

definition edit_cancelled :: "handler_env \<Rightarrow> pystr \<Rightarrow> handler \<Rightarrow> handler" where
  "edit_cancelled env k h =
     (case repo_get_node (hd_repo h) k of
        None \<Rightarrow> h
      | Some n \<Rightarrow> do_op (EditMessage (im_chat_id (mn_incoming n)) (mn_status_message_id n)
                   (he_format env (symbol 0x23F9) (lit ''Stopped.'') None)) h)"

definition roots_of :: "pystr list \<Rightarrow> handler \<Rightarrow> pystr list" where
  "roots_of ks h =
     remdups (concat (map (\<lambda>k. case get_tree_for_node (hd_repo h) k of Some t \<Rightarrow> [mt_root_id t] | None \<Rightarrow> []) ks))"

definition update_cancelled_nodes_ui :: "handler_env \<Rightarrow> pystr list \<Rightarrow> handler \<Rightarrow> handler" where
  "update_cancelled_nodes_ui env ks h =
     fold (\<lambda>r. persist_root env (Some r)) (roots_of ks h) (fold (edit_cancelled env) ks h)"

definition stop_all_tasks :: "handler_env \<Rightarrow> handler \<Rightarrow> handler \<times> nat" where
  "stop_all_tasks env h =
     (let (m, ks) = cancel_all (he_now env) (hd_manager h);
          h1 = h\<lparr>hd_manager := m, hd_cli := stop_all (hd_cli h)\<rparr>
      in (update_cancelled_nodes_ui env ks h1, length ks))"

definition stop_reason :: "pystr \<Rightarrow> message_tree \<Rightarrow> message_tree" where
  "stop_reason k t = update_node k (set_context (PDict [(lit ''cancel_reason'', PStr (lit ''stop''))])) t"

definition stop_task :: "handler_env \<Rightarrow> pystr \<Rightarrow> handler \<Rightarrow> handler \<times> nat" where
  "stop_task env node_id h =
     (let m0 = hd_manager h;
          m1 = (case get_tree_for_node (tm_repo m0) node_id of
                  None \<Rightarrow> m0
                | Some t \<Rightarrow>
                    (case get_node t node_id of
                       None \<Rightarrow> m0
                     | Some n \<Rightarrow> if terminal n then m0 else put_tree (mt_root_id t) (stop_reason node_id t) m0));
          (m2, ks) = manager_cancel_node node_id (he_now env) m1
      in (update_cancelled_nodes_ui env ks (h\<lparr>hd_manager := m2\<rparr>), length ks))"

definition reply_command :: "handler_env \<Rightarrow> incoming_message \<Rightarrow> pystr \<Rightarrow> handler \<Rightarrow> handler" where
  "reply_command env i body h =
     (let (h1, msg_id) = send_message env (im_chat_id i) body None (im_message_thread_id i) h
      in record_outgoing_message env (im_platform i) (im_chat_id i) msg_id ''command'' h1)"

definition stopped_text :: "handler_env \<Rightarrow> pystr \<Rightarrow> pystr" where
  "stopped_text env detail = he_format env (symbol 0x23F9) (lit ''Stopped.'') (Some detail)"

definition handle_stop_command :: "handler_env \<Rightarrow> incoming_message \<Rightarrow> handler \<Rightarrow> handler" where
  "handle_stop_command env i h =
     (case replied_id i of
        Some reply_id \<Rightarrow>
          (case reply_target i h of
             None \<Rightarrow> reply_command env i (stopped_text env (lit ''Nothing to stop for that message.'')) h
           | Some (t, node_id) \<Rightarrow>
               (let (h1, count) = stop_task env node_id h;
                    noun = (if count = 1 then lit ''request'' else lit ''requests'')
                in reply_command env i
                     (stopped_text env (lit ''Cancelled '' @ str_of_int (int count) @ lit '' '' @ noun @ lit ''.'')) h1))
      | None \<Rightarrow>
          (let (h1, count) = stop_all_tasks env h
           in reply_command env i
                (stopped_text env (lit ''Cancelled '' @ str_of_int (int count) @ lit '' pending or active requests.'')) h1))"

definition stats_text :: "handler_env \<Rightarrow> nat \<Rightarrow> nat \<Rightarrow> pystr" where
  "stats_text env active trees =
     symbol 0x1F4CA @ lit '' '' @ rc_bold (he_ctx env) (lit ''Stats'') @ newline
       @ rc_escape_text (he_ctx env) (symbol 0x2022 @ lit '' Active CLI: '' @ str_of_int (int active)) @ newline
       @ rc_escape_text (he_ctx env) (symbol 0x2022 @ lit '' Message Trees: '' @ str_of_int (int trees))"

definition handle_stats_command :: "handler_env \<Rightarrow> incoming_message \<Rightarrow> handler \<Rightarrow> handler" where
  "handle_stats_command env i h =
     reply_command env i (stats_text env (length (cm_sessions (hd_cli h))) (tree_count (hd_repo h))) h"

section \<open>Clearing\<close>

text \<open>\<open>_delete_message_ids\<close>: numeric identifiers from the largest to the smallest, then the others.\<close>

definition numeric_key :: "handler_env \<Rightarrow> pystr \<Rightarrow> int \<times> nat list" where
  "numeric_key env mid = (the (he_as_int env mid), map code_point mid)"

definition delete_order :: "handler_env \<Rightarrow> pystr list \<Rightarrow> pystr list" where
  "delete_order env msg_ids =
     (let ids = he_set_order env msg_ids;
          numeric = filter (\<lambda>m. he_as_int env m \<noteq> None) ids;
          non_numeric = filter (\<lambda>m. he_as_int env m = None) ids
      in rev (sort_key (numeric_key env) numeric) @ non_numeric)"

function chunks_of :: "nat \<Rightarrow> 'a list \<Rightarrow> 'a list list" where
  "chunks_of n xs = (if xs = [] \<or> n = 0 then [] else take n xs # chunks_of n (drop n xs))"
  by auto
termination
  by (relation "measure (\<lambda>(_, xs). length xs)") auto

declare chunks_of.simps [simp del]

definition delete_message_ids :: "handler_env \<Rightarrow> pystr \<Rightarrow> pystr list \<Rightarrow> handler \<Rightarrow> handler" where
  "delete_message_ids env chat_id msg_ids h =
     (let ordered = delete_order env msg_ids
      in if he_batch_delete env
         then fold (\<lambda>c. do_op (DeleteMessages chat_id c)) (chunks_of 100 ordered) h
         else fold (\<lambda>m. do_op (DeleteMessage chat_id m)) ordered h)"

text \<open>The identifiers of all messages of a chat in the trees.\<close>

definition node_message_ids :: "message_node \<Rightarrow> pystr list" where
  "node_message_ids n =
     (if im_message_id (mn_incoming n) = [] then [] else [im_message_id (mn_incoming n)])
     @ (if mn_status_message_id n = [] then [] else [mn_status_message_id n])"

definition handle_clear_branch :: "handler_env \<Rightarrow> incoming_message \<Rightarrow> pystr \<Rightarrow> handler \<Rightarrow> handler result option" where
  "handle_clear_branch env i branch_root_id h =
     (case get_tree_for_node (hd_repo h) branch_root_id of
        None \<Rightarrow> Some (Inr h)
      | Some _ \<Rightarrow>
          Option.bind (manager_cancel_branch branch_root_id (he_now env) (hd_manager h)) (\<lambda>(m, ks).
            (let h1 = update_cancelled_nodes_ui env ks (h\<lparr>hd_manager := m\<rparr>)
             in case get_tree_for_node (hd_repo h1) branch_root_id of
                  None \<Rightarrow> Some (Inr h1)
                | Some t \<Rightarrow>
                    Option.bind (get_descendants t branch_root_id) (\<lambda>branch_ids.
                      (let msg_ids = remdups (concat (map (\<lambda>k. case get_node t k of Some n \<Rightarrow> node_message_ids n | None \<Rightarrow> []) branch_ids)
                               @ (if im_message_id i = [] then [] else [im_message_id i]));
                           h2 = delete_message_ids env (im_chat_id i) msg_ids h1
                       in map_option (\<lambda>res. rbind res (\<lambda>(m2, removed, root_id, removed_entire_tree).
                            (let h3 = h2\<lparr>hd_manager := m2,
                                   hd_store := remove_node_mappings (map mn_node_id removed) (hd_store h2)\<rparr>
                             in Inr (if removed_entire_tree
                                     then h3\<lparr>hd_store := fst (SessionStore.remove_tree root_id (hd_store h3))\<rparr>
                                     else persist_root env (Some root_id) h3))))
                          (manager_remove_branch branch_root_id (he_now env) (hd_manager h2)))))))"

definition cleared_text :: "handler_env \<Rightarrow> string \<Rightarrow> pystr" where
  "cleared_text env detail = he_format env (symbol 0x1F5D1) (lit ''Cleared.'') (Some (lit detail))"

definition chat_node_ids :: "pystr \<Rightarrow> pystr \<Rightarrow> message_node \<Rightarrow> pystr list" where
  "chat_node_ids platform chat_id n =
     (if im_platform (mn_incoming n) = platform \<and> im_chat_id (mn_incoming n) = chat_id
      then im_message_id (mn_incoming n) # (if mn_status_message_id n = [] then [] else [mn_status_message_id n])
      else [])"

definition tree_message_ids :: "tree_repository \<Rightarrow> pystr \<Rightarrow> pystr \<Rightarrow> pystr list" where
  "tree_message_ids r platform chat_id =
     concat (map (chat_node_ids platform chat_id) (concat (map all_nodes (all_trees r))))"

definition clear_chat :: "handler_env \<Rightarrow> incoming_message \<Rightarrow> handler \<Rightarrow> handler" where
  "clear_chat env i h =
     (let h1 = fst (stop_all_tasks env h);
          msg_ids = remdups (get_message_ids_for_chat (im_platform i) (im_chat_id i) (hd_store h1)
            @ tree_message_ids (hd_repo h1) (im_platform i) (im_chat_id i) @ [im_message_id i]);
          h2 = delete_message_ids env (im_chat_id i) msg_ids h1
      in h2\<lparr>hd_store := fst (clear_all (hd_store h2)), hd_manager := manager_init repo_init\<rparr>)"

definition handle_clear_command :: "handler_env \<Rightarrow> incoming_message \<Rightarrow> handler \<Rightarrow> handler result option" where
  "handle_clear_command env i h =
     (case replied_id i of
        None \<Rightarrow> Some (Inr (clear_chat env i h))
      | Some reply_id \<Rightarrow>
          (case reply_target i h of
             Some (_, branch_root_id) \<Rightarrow> handle_clear_branch env i branch_root_id h
           | None \<Rightarrow>
               (case he_voice env (im_chat_id i) reply_id of
                  Some (voice_msg_id, status_msg_id) \<Rightarrow>
                    (let h1 = delete_message_ids env (im_chat_id i) (remdups [voice_msg_id, status_msg_id, im_message_id i]) h
                     in Some (Inr (reply_command env i (cleared_text env ''Voice note cancelled.'') h1)))
                | None \<Rightarrow> Some (Inr (reply_command env i (cleared_text env ''Nothing to clear for that message.'') h)))))"

text \<open>\<open>_handle_message_impl\<close>.\<close>

definition handle_message :: "handler_env \<Rightarrow> incoming_message \<Rightarrow> handler \<Rightarrow> handler result option" where
  "handle_message env i h =
     (let h1 = record_incoming env i h; cmd = cmd_base (im_text i)
      in if cmd = lit ''/clear'' then handle_clear_command env i h1
         else if cmd = lit ''/stop'' then Some (Inr (handle_stop_command env i h1))
         else if cmd = lit ''/stats'' then Some (Inr (handle_stats_command env i h1))
         else if list_ex (startswith (im_text i)) STATUS_MESSAGE_PREFIXES then Some (Inr h1)
         else Some (handle_content env i h1))"

section \<open>Filing a message\<close>

text \<open>An identifier that no tree uses yet, neither as a node nor as a status message.\<close>

definition unused :: "pystr \<Rightarrow> tree_repository \<Rightarrow> bool" where
  "unused k r \<longleftrightarrow> dget (tr_node_to_tree r) k = None \<and> list_all (\<lambda>t. dget (mt_status_to_node t) k = None) (all_trees r)"

text \<open>The two identifiers of a message lead to its node, in the manager and in the store.\<close>

definition filed :: "handler_env \<Rightarrow> incoming_message \<Rightarrow> pystr \<Rightarrow> pystr option \<Rightarrow> message_tree \<Rightarrow> handler \<Rightarrow> bool" where
  "filed env i status parent t h \<longleftrightarrow>
     (let r = mt_root_id t; k = im_message_id i
      in dget (tr_trees (hd_repo h)) r = Some t
         \<and> dget (tr_node_to_tree (hd_repo h)) k = Some r \<and> dget (tr_node_to_tree (hd_repo h)) status = Some r
         \<and> get_node t k = Some (new_node k i status parent (he_now env))
         \<and> dget (mt_status_to_node t) status = Some k \<and> \<not> has_node t status
         \<and> dget (ss_node_to_tree (hd_store h)) k = Some r \<and> dget (ss_node_to_tree (hd_store h)) status = Some r)"

lemma unusedD:
  assumes "unused k r"
  shows "dget (tr_node_to_tree r) k = None" "dget (tr_trees r) j = Some t \<Longrightarrow> dget (mt_status_to_node t) k = None"
  using assms by (auto simp: unused_def list_all_iff all_trees_def dest!: map_of_SomeD)

lemma unused_no_node: "repo_wf r \<Longrightarrow> unused k r \<Longrightarrow> dget (tr_trees r) j = Some t \<Longrightarrow> \<not> has_node t k"
  using repo_wf_tree(3) [of r j t k] unusedD(1) [of k r] by auto

lemma store_node_simps [simp]:
  "hd_manager (store_node k rt h) = hd_manager h" "hd_repo (store_node k rt h) = hd_repo h"
  "dget (ss_node_to_tree (hd_store (store_node k rt h))) j = (if j = k then Some rt else dget (ss_node_to_tree (hd_store h)) j)"
  by (simp_all add: store_node_def hd_repo_def SessionStore.register_node_def schedule_save_def dict_simps)

lemma reply_target_SomeD:
  assumes "reply_target i h = Some (t, p)" "repo_wf (hd_repo h)"
  shows "get_tree_for_node (hd_repo h) p = Some t" "has_node t p"
proof -
  from assms(1) obtain reply_id where g: "get_tree_for_node (hd_repo h) reply_id = Some t"
    and rp: "given (resolve_parent_node_id (hd_repo h) reply_id)" "p = the (resolve_parent_node_id (hd_repo h) reply_id)"
    by (auto simp: reply_target_def Let_def split: option.splits if_splits)
  from get_tree_for_node_Some [OF g] obtain k where k: "dget (tr_trees (hd_repo h)) k = Some t" by metis
  note T = repo_wf_tree(1) [OF assms(2) k]
  show "has_node t p"
  proof (cases "has_node t reply_id")
    case True
    with rp g show ?thesis by (simp add: resolve_parent_node_id_def)
  next
    case False
    with rp g obtain n where n: "find_node_by_status_message t reply_id = Some n" "p = mn_node_id n"
      by (auto simp: resolve_parent_node_id_def given_def split: option.splits)
    then obtain j where "dget (mt_nodes t) j = Some n"
      by (auto simp: find_node_by_status_message_def get_node_def split: option.splits if_splits)
    with links_okD(2) [OF tree_wfD(2) [OF T]] n(2) show ?thesis by (auto simp: has_node_def din_def)
  qed
  then show "get_tree_for_node (hd_repo h) p = Some t" by (rule get_tree_for_node_has [OF assms(2) k])
qed

lemma register_status_wf:
  assumes "repo_wf r" "\<And>j t. dget (tr_trees r) j = Some t \<Longrightarrow> \<not> has_node t s"
  shows "repo_wf (TreeRepository.register_node s k r)"
  by (rule repo_wf_register) (use assms in auto)

lemma create_filed:
  assumes wf: "repo_wf (hd_repo h)" and new: "unused (im_message_id i) (hd_repo h)" "unused s (hd_repo h)"
    and ids: "im_message_id i \<noteq> []" "s \<noteq> im_message_id i" "s \<noteq> []"
    and f: "file_message env i None (Some s) h = Inr (h', rt)"
  shows "repo_wf (hd_repo h') \<and> (\<exists>t. rt = Some (mt_root_id t) \<and> filed env i s None t h')"
proof -
  let ?k = "im_message_id i"
  let ?t = "tree_init (new_node ?k i s None (he_now env))"
  let ?m = "create_tree ?k i s (he_now env) (hd_manager h)"
  have wf1: "repo_wf (tm_repo ?m)"
    by (rule repo_wf_create [OF _ _ ids(1)]) (use wf unusedD(1) [OF new(1)] in \<open>simp_all add: hd_repo_def\<close>)
  have trees: "dget (tr_trees (tm_repo ?m)) j = (if j = ?k then Some ?t else dget (tr_trees (hd_repo h)) j)" for j
    by (simp add: create_tree_def add_tree_def hd_repo_def dict_simps)
  have t: "has_node ?t n \<longleftrightarrow> n = ?k" "mt_root_id ?t = ?k" for n
    by (auto simp: tree_init_def new_node_def has_node_def din_def)
  have none: "\<not> has_node t' s" if "dget (tr_trees (tm_repo ?m)) j = Some t'" for j t'
    using that trees t(1) ids(2) unused_no_node [OF wf new(2)] by (auto split: if_splits)
  have h': "h' = store_node s ?k (store_node ?k ?k (h\<lparr>hd_manager := manager_register_node s ?k ?m\<rparr>))" "rt = Some ?k"
    using f ids(3) by (auto simp: file_message_def given_def Let_def)
  have repo: "hd_repo h' = TreeRepository.register_node s ?k (tm_repo ?m)"
    by (simp add: h' hd_repo_def manager_register_node_def)
  have "repo_wf (hd_repo h')" unfolding repo by (rule register_status_wf [OF wf1 none])
  moreover have "filed env i s None ?t h'"
    unfolding filed_def Let_def repo t(2) using ids(2) t trees
    by (simp add: h'(1) TreeRepository.register_node_def dict_simps create_tree_def add_tree_def)
      (simp add: tree_init_def new_node_def get_node_def dict_simps)
  ultimately show ?thesis using h'(2) t(2) by metis
qed

lemma reply_filed:
  assumes wf: "repo_wf (hd_repo h)" and new: "unused (im_message_id i) (hd_repo h)" "unused s (hd_repo h)"
    and ids: "im_message_id i \<noteq> []" "s \<noteq> im_message_id i" "s \<noteq> []"
    and target: "get_tree_for_node (hd_repo h) p = Some t" "has_node t p"
    and f: "file_message env i (Some (t, p)) (Some s) h = Inr (h', rt)"
  shows "repo_wf (hd_repo h') \<and> (\<exists>t. rt = Some (mt_root_id t) \<and> filed env i s (Some p) t h')"
proof -
  let ?k = "im_message_id i"
  from f ids(3) obtain m where m: "add_to_tree p ?k i s (he_now env) (hd_manager h) = Inr m"
    by (auto simp: file_message_def given_def Let_def rbind_Inr_iff)
  from get_tree_for_node_Some [OF target(1)] obtain r where r: "dget (tr_trees (hd_repo h)) r = Some t" by metis
  note T = repo_wf_tree(1,2) [OF wf r]
  have kp: "?k \<noteq> p" using unused_no_node [OF wf new(1) r] target(2) by auto
  have status_free: "dget (mt_status_to_node t) s = None" by (rule unusedD(2) [OF new(2) r])
  have wf1: "repo_wf (tm_repo m)"
    by (rule repo_wf_add [OF _ m _ ids(1)])
      (use wf unusedD(1) [OF new(1)] status_free target(1) in \<open>simp_all add: hd_repo_def\<close>)
  from m target(1) obtain t' where t': "add_node ?k i s p (he_now env) t = Inr t'"
    and m': "m = (let m1 = put_tree r t' (hd_manager h) in m1\<lparr>tm_repo := TreeRepository.register_node ?k r (tm_repo m1)\<rparr>)"
    using T(2) by (auto simp: add_to_tree_def hd_repo_def rbind_Inr_iff Let_def split: if_splits)
  from add_node_Inr [OF t' kp] obtain n where n: "dget (mt_nodes t) p = Some n"
    and get: "\<And>x. dget (mt_nodes t') x = (if x = ?k then Some (new_node ?k i s (Some p) (he_now env))
        else if x = p then Some (n\<lparr>mn_children_ids := mn_children_ids n @ [?k]\<rparr>) else dget (mt_nodes t) x)"
    and st: "mt_status_to_node t' = dset s ?k (mt_status_to_node t)" and rt': "mt_root_id t' = r"
    using T(2) by metis
  have has: "has_node t' x \<longleftrightarrow> x = ?k \<or> has_node t x" for x using n by (auto simp: has_node_def din_def get)
  have trees: "dget (tr_trees (tm_repo m)) j = (if j = r then Some t' else dget (tr_trees (hd_repo h)) j)" for j
    by (simp add: m' Let_def TreeRepository.register_node_def hd_repo_def)
  have none: "\<not> has_node t'' s" if "dget (tr_trees (tm_repo m)) j = Some t''" for j t''
    using that trees has ids(2) unused_no_node [OF wf new(2)] r by (auto split: if_splits)
  have g: "get_tree_for_node (tm_repo m) p = Some t'"
    by (rule get_tree_for_node_has [OF wf1, of r]) (use trees has target(2) in auto)
  have h': "h' = store_node ?k r (store_node s r (h\<lparr>hd_manager := manager_register_node s r m\<rparr>))" "rt = Some r"
    using f m ids(3) g rt' by (auto simp: file_message_def given_def Let_def)
  have repo: "hd_repo h' = TreeRepository.register_node s r (tm_repo m)"
    by (simp add: h' hd_repo_def manager_register_node_def)
  have "repo_wf (hd_repo h')" unfolding repo by (rule register_status_wf [OF wf1 none])
  moreover have "filed env i s (Some p) t' h'"
    unfolding filed_def Let_def repo rt' using ids(2) trees none [of r t'] repo_wf_tree(3) [OF wf1, of r t' ?k] has
    by (simp add: h'(1) TreeRepository.register_node_def dict_simps get_node_def get st)
  ultimately show ?thesis using h'(2) rt' by metis
qed

text \<open>Saving the tree and starting or queueing the node keep this.\<close>

lemma fold_dset_same: "dget (fold (\<lambda>i. dset i v) ks d) k = (if k \<in> set ks then Some v else dget d k)"
  by (induction ks arbitrary: d) (auto simp: dict_simps)

lemma save_tree_index:
  "dget (ss_node_to_tree s) k = Some r \<Longrightarrow> dget (ss_node_to_tree (fst (save_tree r data s))) k = Some r"
  by (simp add: save_tree_def schedule_save_def Let_def fold_dset_same split: sum.split)

lemma persist_root_filed:
  assumes "filed env i s p t h"
  shows "filed env i s p t (persist_root env (Some (mt_root_id t)) h)
    \<and> hd_manager (persist_root env (Some (mt_root_id t)) h) = hd_manager h
    \<and> get_tree (mt_root_id t) (hd_store (persist_root env (Some (mt_root_id t)) h)) = Some (tree_to_dict (he_iso env) t)"
proof -
  from assms have "repo_get_tree (hd_repo h) (mt_root_id t) = Some t" by (simp add: filed_def Let_def repo_get_tree_def)
  with assms show ?thesis
    by (simp add: persist_root_def filed_def Let_def hd_repo_def save_tree_index)
      (simp add: get_tree_def save_tree_def schedule_save_def Let_def dict_simps split: sum.split)
qed

definition same_tables :: "message_tree \<Rightarrow> message_tree \<Rightarrow> bool" where
  "same_tables t t' \<longleftrightarrow> mt_nodes t' = mt_nodes t \<and> mt_status_to_node t' = mt_status_to_node t \<and> mt_root_id t' = mt_root_id t"

lemma enqueue_tables:
  assumes "enqueue_and_start k w = (w', queued)"
  shows "same_tables (tw_tree w) (tw_tree w') \<and> tree_wf (tw_tree w') = tree_wf (tw_tree w)
    \<and> (if queued then k \<in> set (get_queue_snapshot (tw_tree w')) else mt_current_node_id (tw_tree w') = Some k)"
  using assms
  by (auto simp: enqueue_and_start_def on_tree_def start_task_def same_tables_def wf_frame put_queue_unlocked_def
      set_processing_state_def set_current_task_def get_queue_snapshot_def sq_get_snapshot_def sq_put_def tree_wf_def
      split: if_splits)

lemma enqueue_manager:
  assumes wf: "repo_wf (tm_repo m)" and t: "dget (tr_trees (tm_repo m)) (mt_root_id t) = Some t" "has_node t k"
    and e: "manager_enqueue k m = (m', queued)"
  shows "\<exists>t'. same_tables t t' \<and> repo_wf (tm_repo m') \<and> dget (tr_trees (tm_repo m')) (mt_root_id t) = Some t'
    \<and> tr_node_to_tree (tm_repo m') = tr_node_to_tree (tm_repo m)
    \<and> (if queued then k \<in> set (get_queue_snapshot t') else mt_current_node_id t' = Some k)"
proof -
  note g = get_tree_for_node_has [OF wf t]
  obtain w where w: "enqueue_and_start k (world_of m (mt_root_id t) t) = (w, queued)"
    and m': "m' = put_world (mt_root_id t) w m"
    using e g by (auto simp: manager_enqueue_def split: prod.splits)
  note q = enqueue_tables [OF w]
  have s: "same_tables t (tw_tree w)" "tree_wf (tw_tree w)"
    using q repo_wf_tree(1) [OF wf t(1)] by (simp_all add: world_of_def)
  have r: "tm_repo m' = tm_repo (put_tree (mt_root_id t) (tw_tree w) m)" by (simp add: m' put_world_def)
  have "repo_wf (tm_repo m')"
    unfolding r by (rule repo_wf_put [OF wf t(1) s(2)]) (use s(1) in \<open>simp_all add: same_tables_def has_node_def\<close>)
  then show ?thesis using s(1) q unfolding r by (intro exI [of _ "tw_tree w"]) simp
qed

lemma show_status_keeps:
  assumes "show_status env i body h = (h1, msg_id)"
  shows "hd_manager h1 = hd_manager h \<and> hd_store h1 = hd_store h
    \<and> msg_id = (if given (im_status_message_id i) then im_status_message_id i else he_sent env (length (hd_ops h)))"
  using assms by (auto simp: show_status_def do_op_def send_message_def split: if_splits)

lemma record_outgoing_keeps: "hd_manager (record_outgoing_message env platform chat msg_id kind h) = hd_manager h"
  by (simp add: record_outgoing_message_def)

lemma do_op_simps [simp]: "hd_manager (do_op oper h) = hd_manager h" "hd_store (do_op oper h) = hd_store h"
  by (simp_all add: do_op_def)

text \<open>The message whose status is shown.\<close>

definition status_id :: "handler_env \<Rightarrow> incoming_message \<Rightarrow> handler \<Rightarrow> pystr option" where
  "status_id env i h =
     (if given (im_status_message_id i) then im_status_message_id i else he_sent env (length (hd_ops h)))"

lemma content_filed:
  assumes wf: "repo_wf (hd_repo h)" and status: "status_id env i h = Some s"
    and new: "unused (im_message_id i) (hd_repo h)" "unused s (hd_repo h)"
    and ids: "im_message_id i \<noteq> []" "s \<noteq> im_message_id i" "s \<noteq> []"
    and run: "handle_content env i h = Inr h'"
  shows "repo_wf (hd_repo h') \<and> (\<exists>t. filed env i s (map_option snd (reply_target i h)) t h'
    \<and> get_tree (mt_root_id t) (hd_store h') = Some (tree_to_dict (he_iso env) t)
    \<and> (im_message_id i \<in> set (get_queue_snapshot t) \<or> mt_current_node_id t = Some (im_message_id i)))"
proof -
  let ?k = "im_message_id i" and ?target = "reply_target i h"
  obtain h1 msg_id where s1: "show_status env i (get_initial_status env ?target h) h = (h1, msg_id)" by force
  define h2 where "h2 = record_outgoing_message env (im_platform i) (im_chat_id i) msg_id ''status'' h1"
  have msg: "msg_id = Some s" and m2: "hd_repo h2 = hd_repo h"
    using show_status_keeps [OF s1] status by (simp_all add: h2_def hd_repo_def record_outgoing_keeps status_id_def)
  from run s1 obtain h3 rt where f: "file_message env i ?target (Some s) h2 = Inr (h3, rt)"
    and h': "h' = enqueue_message env i msg_id rt h3"
    by (auto simp: handle_content_def Let_def h2_def msg rbind_Inr_iff)
  have "repo_wf (hd_repo h3) \<and> (\<exists>t. rt = Some (mt_root_id t) \<and> filed env i s (map_option snd ?target) t h3)"
  proof (cases ?target)
    case None
    with create_filed [of h2 i s env h3 rt] f wf new ids m2 show ?thesis by simp
  next
    case (Some x)
    obtain t p where x: "x = (t, p)" by force
    note tp = reply_target_SomeD [OF Some [unfolded x] wf]
    from reply_filed [of h2 i s p t env h3 rt] f wf new ids m2 tp Some x show ?thesis by simp
  qed
  then obtain t where wf3: "repo_wf (hd_repo h3)" and rt: "rt = Some (mt_root_id t)"
    and t: "filed env i s (map_option snd ?target) t h3" by blast
  define h4 where "h4 = persist_root env (Some (mt_root_id t)) h3"
  note p = persist_root_filed [OF t, folded h4_def]
  obtain m queued where e: "manager_enqueue ?k (hd_manager h4) = (m, queued)" by force
  have t4: "dget (tr_trees (tm_repo (hd_manager h4))) (mt_root_id t) = Some t" "has_node t ?k"
    using p by (auto simp: filed_def Let_def hd_repo_def get_node_def has_node_def din_def)
  have "repo_wf (tm_repo (hd_manager h4))" using wf3 p by (simp add: hd_repo_def)
  from enqueue_manager [OF this t4 e] obtain t' where t': "same_tables t t'" "repo_wf (tm_repo m)"
      "dget (tr_trees (tm_repo m)) (mt_root_id t) = Some t'"
      "tr_node_to_tree (tm_repo m) = tr_node_to_tree (tm_repo (hd_manager h4))"
      "if queued then ?k \<in> set (get_queue_snapshot t') else mt_current_node_id t' = Some ?k"
    by blast
  have hm: "hd_manager h' = m" "hd_store h' = hd_store h4"
    using e by (simp_all add: h' rt enqueue_message_def h4_def Let_def)
  have "filed env i s (map_option snd ?target) t' h'"
    using p t' hm by (auto simp: filed_def Let_def hd_repo_def same_tables_def get_node_def has_node_def)
  moreover have "get_tree (mt_root_id t') (hd_store h') = Some (tree_to_dict (he_iso env) t')"
    using p t'(1) hm by (simp add: same_tables_def tree_to_dict_def)
  ultimately show ?thesis
    using t'(2,5) hm by (intro conjI exI [of _ t']) (auto simp: hd_repo_def split: if_splits)
qed

text \<open>Nothing raises on consistent trees.\<close>

lemma handle_content_total:
  assumes "repo_wf (hd_repo h)"
  shows "\<exists>h'. handle_content env i h = Inr h'"
proof -
  let ?target = "reply_target i h"
  obtain h1 msg_id where s1: "show_status env i (get_initial_status env ?target h) h = (h1, msg_id)" by force
  define h2 where "h2 = record_outgoing_message env (im_platform i) (im_chat_id i) msg_id ''status'' h1"
  have m2: "hd_manager h2 = hd_manager h"
    using show_status_keeps [OF s1] by (simp add: h2_def record_outgoing_keeps)
  have "\<exists>x. file_message env i ?target msg_id h2 = Inr x"
  proof (cases ?target)
    case None
    then show ?thesis by (simp add: file_message_def Let_def)
  next
    case (Some x)
    obtain t p where x: "x = (t, p)" by force
    note tp = reply_target_SomeD [OF Some [unfolded x] assms]
    then have "repo_has_node (hd_repo h) p" by (auto simp: repo_has_node_def din_def elim: get_tree_for_node_Some)
    moreover have "\<exists>t'. add_node k j s p now t = Inr t'" for k j s now
      using tp(2) by (simp add: add_node_def has_node_def Let_def)
    ultimately have "\<exists>m. add_to_tree p k j s now (hd_manager h) = Inr m" for k j s now
      using tp(1) by (simp add: add_to_tree_def hd_repo_def rbind_Inr_iff Let_def)
    then show ?thesis using Some x m2 by (simp add: file_message_def Let_def rbind_Inr_iff)
  qed
  with s1 show ?thesis by (auto simp: handle_content_def Let_def h2_def)
qed

lemma filed_resolves:
  assumes "repo_wf (hd_repo h)" "filed env i s p t h"
  shows "get_tree_for_node (hd_repo h) (im_message_id i) = Some t"
    "resolve_parent_node_id (hd_repo h) (im_message_id i) = Some (im_message_id i)"
    "resolve_parent_node_id (hd_repo h) s = Some (im_message_id i)"
proof -
  have t: "dget (tr_trees (hd_repo h)) (mt_root_id t) = Some t" "has_node t (im_message_id i)"
    using assms(2) by (auto simp: filed_def Let_def get_node_def has_node_def din_def)
  then have "im_message_id i \<noteq> []"
    using links_okD(1) [OF tree_wfD(2) [OF repo_wf_tree(1) [OF assms(1) t(1)]]] by (auto simp: has_node_def din_def)
  with assms(2) have s: "dget (tr_node_to_tree (hd_repo h)) s = Some (mt_root_id t)" "\<not> has_node t s"
      "find_node_by_status_message t s = Some (new_node (im_message_id i) i s p (he_now env))"
    by (auto simp: filed_def Let_def get_node_def has_node_def din_def find_node_by_status_message_def)
  show g: "get_tree_for_node (hd_repo h) (im_message_id i) = Some t" by (rule get_tree_for_node_has [OF assms(1) t])
  show "resolve_parent_node_id (hd_repo h) (im_message_id i) = Some (im_message_id i)"
    by (simp add: resolve_parent_node_id_def g t(2))
  have "get_tree_for_node (hd_repo h) s = Some t" by (rule get_tree_for_node_indexed [OF assms(1) t(1) s(1)])
  then show "resolve_parent_node_id (hd_repo h) s = Some (im_message_id i)"
    using s(2,3) by (simp add: resolve_parent_node_id_def new_node_def)
qed


text \<open>A reply to the second message of the example, which is answered with the message \<open>s9\<close>.\<close>

definition example_handler_env :: handler_env where
  "example_handler_env = \<lparr>he_format = (\<lambda>e l s. e @ l),
     he_ctx = \<lparr>rc_bold = (\<lambda>s. s), rc_code_inline = (\<lambda>s. s), rc_escape_code = (\<lambda>s. s), rc_escape_text = (\<lambda>s. s),
       rc_render_markdown = (\<lambda>s. s), rc_thinking_tail_max = None, rc_tool_output_tail_max = None, rc_text_tail_max = None\<rparr>,
     he_iso = (\<lambda>_. []), he_now = 7, he_stamp = lit ''t'', he_sent = (\<lambda>_. Some (lit ''s9'')), he_as_int = (\<lambda>_. None),
     he_set_order = (\<lambda>xs. xs), he_batch_delete = True, he_voice = (\<lambda>_ _. None)\<rparr>"

definition example_reply :: incoming_message where
  "example_reply = \<lparr>im_text = lit ''go on'', im_chat_id = lit ''1'', im_user_id = lit ''u'', im_message_id = lit ''9'',
     im_platform = lit ''telegram'', im_reply_to_message_id = Some (lit ''s2''), im_message_thread_id = None,
     im_username = None, im_status_message_id = None, im_timestamp = 0\<rparr>"

definition example_handler :: handler where
  "example_handler = \<lparr>hd_manager = example_manager, hd_store = store_init None, hd_cli = cli_manager_init, hd_ops = []\<rparr>"

lemma example_handler_target:
  "map_option snd (reply_target example_reply example_handler) = Some (lit ''2'')"
  "unused (lit ''9'') (hd_repo example_handler)" "unused (lit ''s9'') (hd_repo example_handler)"
  by code_simp+


end
