(* ===== verification/HandlerCommands.thy ===== *)
theory HandlerCommands
  imports MessageHandler "HOL-Library.Multiset"
begin

text \<open>
  What the commands \<open>/stop\<close> and \<open>/clear\<close> achieve when they are given for the whole chat: the cancellation of
  all trees, the sessions that are stopped, the messages that are deleted and the state that is forgotten.
\<close>

section \<open>Cancelling a tree keeps its messages\<close>

definition node_messages :: "message_node \<Rightarrow> incoming_message \<times> pystr" where
  "node_messages n = (mn_incoming n, mn_status_message_id n)"

definition tree_messages :: "message_tree \<Rightarrow> (incoming_message \<times> pystr) list" where
  "tree_messages t = map node_messages (all_nodes t)"

lemma dvalues_dset_image: "dget d k = Some w \<Longrightarrow> g v = g w \<Longrightarrow> map g (dvalues (dset k v d)) = map g (dvalues d)"
  by (induction d) auto

lemma set_error_messages [simp]: "tree_messages (set_node_error_sync k msg now t) = tree_messages t"
proof (cases "dget (mt_nodes t) k")
  case (Some n)
  have "node_messages (error_node msg now n) = node_messages n" by (simp add: node_messages_def error_node_def)
  from dvalues_dset_image [OF Some this] Some show ?thesis
    by (simp add: tree_messages_def all_nodes_def set_node_error_sync_def update_node_def)
qed (simp add: set_node_error_sync_def update_node_def)

lemma fold_set_error_messages [simp]: "tree_messages (fold (\<lambda>k. set_node_error_sync k msg now) ks t) = tree_messages t"
  by (induction ks arbitrary: t) simp_all

lemma frame_messages [simp]:
  "tree_messages (t\<lparr>mt_queue := q\<rparr>) = tree_messages t" "tree_messages (reset_processing_state t) = tree_messages t"
  by (simp_all add: tree_messages_def all_nodes_def reset_processing_state_def)

lemma cancel_tree_shape:
  assumes "cancel_tree now w = (w', ks)"
  shows "\<exists>ids xs ys q. tw_tree w' = reset_processing_state
      (fold (\<lambda>k. set_node_error_sync k (lit ''Stale task cleaned up'') now) xs
        (fold (\<lambda>k. set_node_error_sync k user_cancel now) ys
          ((fold (\<lambda>k. set_node_error_sync k user_cancel now) ids (tw_tree w))\<lparr>mt_queue := q\<rparr>)))"
proof -
  obtain w1 running where c: "cancel_current w = (w1, running)" by force
  have t1: "tw_tree w1 = tw_tree w" using cancel_current_tree [of w] by (simp add: c)
  define current where "current = (case mt_current_node_id (tw_tree w1) of
       None \<Rightarrow> []
     | Some k \<Rightarrow> if running \<and> k \<noteq> [] \<and> has_node (tw_tree w1) k \<and> \<not> node_terminal (tw_tree w1) k then [k] else [])"
  define s1 where "s1 = fold (\<lambda>k. set_node_error_sync k user_cancel now) current (tw_tree w1)"
  define queued where "queued = filter (has_node s1) (get_queue_snapshot s1)"
  obtain q where d: "drain_queue_and_mark_cancelled user_cancel now s1
      = (fold (\<lambda>i. set_node_error_sync i user_cancel now) queued (s1\<lparr>mt_queue := q\<rparr>), queued)"
    unfolding queued_def by (rule drain_result [of user_cancel now s1])
  define s2 where "s2 = fold (\<lambda>i. set_node_error_sync i user_cancel now) queued (s1\<lparr>mt_queue := q\<rparr>)"
  have "tw_tree w' = reset_processing_state
      (fold (\<lambda>k. set_node_error_sync k (lit ''Stale task cleaned up'') now) (stale (current @ queued) s2) s2)"
    using assms d unfolding cancel_tree_def c Let_def prod.case
    by (simp add: current_def [symmetric] s1_def [symmetric] s2_def [symmetric]) auto
  then show ?thesis unfolding s2_def s1_def t1 by blast
qed

lemma cancel_tree_frame:
  assumes "cancel_tree now w = (w', ks)" "tree_wf (tw_tree w)"
  shows "tree_wf (tw_tree w')" "mt_root_id (tw_tree w') = mt_root_id (tw_tree w)"
    "tree_messages (tw_tree w') = tree_messages (tw_tree w)"
proof -
  from cancel_tree_shape [OF assms(1)] obtain ids xs ys q where t: "tw_tree w' = reset_processing_state
      (fold (\<lambda>k. set_node_error_sync k (lit ''Stale task cleaned up'') now) xs
        (fold (\<lambda>k. set_node_error_sync k user_cancel now) ys
          ((fold (\<lambda>k. set_node_error_sync k user_cancel now) ids (tw_tree w))\<lparr>mt_queue := q\<rparr>)))" by blast
  show "tree_wf (tw_tree w')" unfolding t by (simp add: wf_frame wf_fold_set_error assms(2))
  show "mt_root_id (tw_tree w') = mt_root_id (tw_tree w)" unfolding t by (simp add: reset_processing_state_def)
  show "tree_messages (tw_tree w') = tree_messages (tw_tree w)" unfolding t by simp
qed

section \<open>Cancelling all trees\<close>

definition settled :: "message_tree \<Rightarrow> bool" where
  "settled t \<longleftrightarrow> get_queue_snapshot t = [] \<and> \<not> mt_is_processing t \<and> (\<forall>k. has_node t k \<longrightarrow> node_terminal t k)"

definition settled_at :: "pystr \<Rightarrow> tree_manager \<Rightarrow> bool" where
  "settled_at k m \<longleftrightarrow> (\<forall>t. dget (tr_trees (tm_repo m)) k = Some t \<longrightarrow> settled t)"

lemma cancel_tree_settles: "cancel_tree now w = (w', ks) \<Longrightarrow> tree_wf (tw_tree w) \<Longrightarrow> settled (tw_tree w')"
  using cancel_tree_result [of w now w' ks] by (simp add: settled_def waiting_def)

lemma manager_cancel_tree_effect:
  assumes wf: "repo_wf (tm_repo m)" and c: "manager_cancel_tree k now m = (m', ks)"
  shows "repo_wf (tm_repo m') \<and> tree_ids (tm_repo m') = tree_ids (tm_repo m)
    \<and> map tree_messages (all_trees (tm_repo m')) = map tree_messages (all_trees (tm_repo m))
    \<and> settled_at k m' \<and> (settled_at j m \<longrightarrow> settled_at j m')"
proof (cases "dget (tr_trees (tm_repo m)) k")
  case None
  with c have "m' = m" by (simp add: manager_cancel_tree_def repo_get_tree_def)
  with wf None show ?thesis by (simp add: settled_at_def)
next
  case (Some t)
  note T = repo_wf_tree(1,2) [OF wf Some]
  from c Some obtain w where w: "cancel_tree now (world_of m k t) = (w, ks)" and m': "m' = put_world k w m"
    by (auto simp: manager_cancel_tree_def repo_get_tree_def split: prod.splits)
  have wt: "tw_tree (world_of m k t) = t" by (simp add: world_of_def)
  note F = cancel_tree_frame [OF w, unfolded wt, OF T(1)]
  have s: "settled (tw_tree w)" by (rule cancel_tree_settles [OF w]) (simp add: wt T(1))
  have has: "has_node (tw_tree w) n = has_node t n" for n
    using cancel_tree_result [OF _ w] T(1) by (simp add: wt)
  have r: "tm_repo m' = tm_repo (put_tree k (tw_tree w) m)" by (simp add: m' put_world_def)
  have "repo_wf (tm_repo m')"
    unfolding r by (rule repo_wf_put [OF wf Some F(1)]) (use F(2) T(2) has in auto)
  moreover have "tree_ids (tm_repo m') = tree_ids (tm_repo m)"
    unfolding r using dget_in_keys [OF Some] by (simp add: tree_ids_def put_tree_def dkeys_dset del: list.set_map)
  moreover have "map tree_messages (all_trees (tm_repo m')) = map tree_messages (all_trees (tm_repo m))"
    unfolding r using dvalues_dset_image [OF Some, of tree_messages "tw_tree w"] F(3)
    by (simp add: all_trees_def put_tree_def)
  ultimately show ?thesis using s unfolding r by (auto simp: settled_at_def r)
qed

lemma cancel_roots_effect:
  assumes "repo_wf (tm_repo m)" "cancel_roots roots now m = (m', ks)"
  shows "repo_wf (tm_repo m') \<and> tree_ids (tm_repo m') = tree_ids (tm_repo m)
    \<and> map tree_messages (all_trees (tm_repo m')) = map tree_messages (all_trees (tm_repo m))
    \<and> (\<forall>j. j \<in> set roots \<or> settled_at j m \<longrightarrow> settled_at j m')"
  using assms
proof (induction roots arbitrary: m m' ks)
  case (Cons k roots)
  obtain m1 xs where m1: "manager_cancel_tree k now m = (m1, xs)" by force
  from Cons.prems(2) m1 obtain ys where r: "cancel_roots roots now m1 = (m', ys)" by (auto split: prod.splits)
  note E = manager_cancel_tree_effect [OF Cons.prems(1) m1]
  from Cons.IH [OF _ r] E show ?case by auto
qed simp

lemma cancel_all_effect:
  assumes "repo_wf (tm_repo m)" "cancel_all now m = (m', ks)"
  shows "repo_wf (tm_repo m') \<and> tree_ids (tm_repo m') = tree_ids (tm_repo m)
    \<and> map tree_messages (all_trees (tm_repo m')) = map tree_messages (all_trees (tm_repo m))
    \<and> (\<forall>j t. dget (tr_trees (tm_repo m')) j = Some t \<longrightarrow> settled t)"
proof -
  note E = cancel_roots_effect [OF assms(1) assms(2) [unfolded cancel_all_def]]
  have "settled t" if "dget (tr_trees (tm_repo m')) j = Some t" for j t
  proof -
    have "dkeys (tr_trees (tm_repo m')) = dkeys (tr_trees (tm_repo m))" using E by (simp add: tree_ids_def)
    with dget_in_keys [OF that] have "j \<in> set (tree_ids (tm_repo m))" unfolding tree_ids_def by metis
    with E that show ?thesis by (auto simp: settled_at_def)
  qed
  with E show ?thesis by blast
qed

section \<open>Stopping everything\<close>

fun deletes :: "platform_op \<Rightarrow> pystr list list" where
  "deletes (DeleteMessages chat ids) = [ids]"
| "deletes (DeleteMessage chat mid) = [[mid]]"
| "deletes _ = []"

definition deletions :: "handler \<Rightarrow> pystr list list" where
  "deletions h = concat (map deletes (hd_ops h))"

lemma deletions_simps [simp]:
  "deletions (h\<lparr>hd_manager := m\<rparr>) = deletions h" "deletions (h\<lparr>hd_store := s\<rparr>) = deletions h"
  "deletions (h\<lparr>hd_cli := c\<rparr>) = deletions h" "deletions (do_op oper h) = deletions h @ deletes oper"
  by (simp_all add: deletions_def do_op_def)

text \<open>Telling the chat about cancelled nodes leaves the manager and the log of messages alone.\<close>

lemma persist_root_keeps:
  "hd_manager (persist_root env rt h) = hd_manager h" "hd_cli (persist_root env rt h) = hd_cli h"
  "ss_message_log (hd_store (persist_root env rt h)) = ss_message_log (hd_store h)"
  "deletions (persist_root env rt h) = deletions h"
  by (simp_all add: persist_root_def save_tree_def schedule_save_def Let_def split: option.split sum.split)

lemma edit_cancelled_keeps:
  "hd_manager (edit_cancelled env k h) = hd_manager h" "hd_cli (edit_cancelled env k h) = hd_cli h"
  "hd_store (edit_cancelled env k h) = hd_store h" "deletions (edit_cancelled env k h) = deletions h"
  by (simp_all add: edit_cancelled_def do_op_def deletions_def split: option.split)

lemma update_cancelled_keeps:
  "hd_manager (update_cancelled_nodes_ui env ks h) = hd_manager h
    \<and> hd_cli (update_cancelled_nodes_ui env ks h) = hd_cli h
    \<and> ss_message_log (hd_store (update_cancelled_nodes_ui env ks h)) = ss_message_log (hd_store h)
    \<and> deletions (update_cancelled_nodes_ui env ks h) = deletions h"
proof -
  have edits: "hd_manager (fold (edit_cancelled env) ks h) = hd_manager h \<and> hd_cli (fold (edit_cancelled env) ks h) = hd_cli h
      \<and> hd_store (fold (edit_cancelled env) ks h) = hd_store h \<and> deletions (fold (edit_cancelled env) ks h) = deletions h" for h
    by (induction ks arbitrary: h) (simp_all add: edit_cancelled_keeps)
  have saves: "hd_manager (fold (\<lambda>r. persist_root env (Some r)) rs h) = hd_manager h
      \<and> hd_cli (fold (\<lambda>r. persist_root env (Some r)) rs h) = hd_cli h
      \<and> ss_message_log (hd_store (fold (\<lambda>r. persist_root env (Some r)) rs h)) = ss_message_log (hd_store h)
      \<and> deletions (fold (\<lambda>r. persist_root env (Some r)) rs h) = deletions h" for rs h
    by (induction rs arbitrary: h) (simp_all add: persist_root_keeps)
  show ?thesis using edits saves by (simp add: update_cancelled_nodes_ui_def)
qed

lemma stop_all_effect:
  assumes "repo_wf (hd_repo h)" "stop_all_tasks env h = (h', n)"
  shows "repo_wf (hd_repo h') \<and> hd_cli h' = stop_all (hd_cli h)
    \<and> map tree_messages (all_trees (hd_repo h')) = map tree_messages (all_trees (hd_repo h))
    \<and> (\<forall>j t. dget (tr_trees (hd_repo h')) j = Some t \<longrightarrow> settled t)
    \<and> ss_message_log (hd_store h') = ss_message_log (hd_store h) \<and> deletions h' = deletions h"
proof -
  obtain m ks where c: "cancel_all (he_now env) (hd_manager h) = (m, ks)" by force
  note E = cancel_all_effect [OF assms(1) [unfolded hd_repo_def] c]
  from assms(2) c have h': "h' = update_cancelled_nodes_ui env ks (h\<lparr>hd_manager := m, hd_cli := stop_all (hd_cli h)\<rparr>)"
    by (simp add: stop_all_tasks_def)
  show ?thesis using E unfolding h' hd_repo_def by (simp add: update_cancelled_keeps)
qed

text \<open>Stopping everything leaves nothing running. Every message of every tree is in a final state, every
  queue is empty and every tree idle; every session of the command line tool is stopped and none is held.\<close>
theorem stop_all_stops:
  assumes "repo_wf (hd_repo h)" "stop_all_tasks env h = (h', n)"
  shows "repo_wf (hd_repo h') \<and> (\<forall>j t. dget (tr_trees (hd_repo h')) j = Some t \<longrightarrow> settled t)
    \<and> (\<forall>s. \<not> session_held (hd_cli h') s \<and> (session_held (hd_cli h) s \<longrightarrow> s \<in> set (cm_stopped (hd_cli h'))))"
proof -
  have "released s (stop_all (hd_cli h))" if "session_held (hd_cli h) s" for s
    using that by (intro stop_all_releases) simp
  moreover have "\<not> session_held (stop_all c) s" for c s by (simp add: session_held_def stop_all_def)
  ultimately show ?thesis using stop_all_effect [OF assms] by (simp add: released_def)
qed

theorem stop_all_stops_witness:
  "\<exists>h' n. stop_all_tasks example_handler_env example_handler = (h', n) \<and> repo_wf (hd_repo h')"
proof -
  obtain h' n where r: "stop_all_tasks example_handler_env example_handler = (h', n)" by force
  have "repo_wf (hd_repo example_handler)" using example_manager_wf by (simp add: hd_repo_def example_handler_def)
  from stop_all_stops [OF this r] r show ?thesis by blast
qed

section \<open>Clearing a chat\<close>

definition set_order_ok :: "handler_env \<Rightarrow> bool" where
  "set_order_ok env \<longleftrightarrow> (\<forall>xs. mset (he_set_order env xs) = mset xs)"

lemma delete_order_mset:
  assumes "set_order_ok env"
  shows "mset (delete_order env ids) = mset ids"
proof -
  have "mset (filter (\<lambda>m. he_as_int env m \<noteq> None) xs) + mset (filter (\<lambda>m. \<not> he_as_int env m \<noteq> None) xs) = mset xs" for xs
    by (induction xs) simp_all
  then have "mset (delete_order env ids) = mset (he_set_order env ids)"
    by (simp add: delete_order_def Let_def del: mset_filter)
  with assms show ?thesis by (simp add: set_order_ok_def)
qed

lemma chunks_of_concat: "0 < n \<Longrightarrow> concat (chunks_of n xs) = xs \<and> (\<forall>c \<in> set (chunks_of n xs). length c \<le> n)"
proof (induction n xs rule: chunks_of.induct)
  case (1 n xs)
  then show ?case by (cases "xs = []") (simp_all add: chunks_of.simps [of n xs] chunks_of.simps [of n "[]"])
qed

lemma fold_do_op:
  "hd_manager (fold (\<lambda>x. do_op (f x)) xs h) = hd_manager h \<and> hd_store (fold (\<lambda>x. do_op (f x)) xs h) = hd_store h
    \<and> hd_cli (fold (\<lambda>x. do_op (f x)) xs h) = hd_cli h
    \<and> deletions (fold (\<lambda>x. do_op (f x)) xs h) = deletions h @ concat (map (\<lambda>x. deletes (f x)) xs)"
  by (induction xs arbitrary: h) (simp_all add: do_op_def deletions_def)

lemma concat_singletons: "concat (map (\<lambda>x. [f x]) xs) = map f xs"
  by (induction xs) simp_all

lemma delete_message_ids_effect:
  assumes "set_order_ok env"
  shows "\<exists>batches. deletions (delete_message_ids env chat ids h) = deletions h @ batches
      \<and> mset (concat batches) = mset ids \<and> (\<forall>b \<in> set batches. length b \<le> 100)
      \<and> hd_cli (delete_message_ids env chat ids h) = hd_cli h
      \<and> hd_store (delete_message_ids env chat ids h) = hd_store h"
proof (cases "he_batch_delete env")
  case True
  with chunks_of_concat [of 100 "delete_order env ids"] delete_order_mset [OF assms, of ids] show ?thesis
    by (intro exI [of _ "chunks_of 100 (delete_order env ids)"])
      (simp add: delete_message_ids_def Let_def fold_do_op concat_singletons)
next
  case False
  with delete_order_mset [OF assms, of ids] show ?thesis
    by (intro exI [of _ "map (\<lambda>m. [m]) (delete_order env ids)"])
      (auto simp: delete_message_ids_def Let_def fold_do_op concat_singletons)
qed

text \<open>The messages of a chat in the trees, which cancelling does not change.\<close>

lemma tree_message_ids_messages:
  "tree_message_ids r platform chat =
     concat (map (\<lambda>(i, s). if im_platform i = platform \<and> im_chat_id i = chat
         then im_message_id i # (if s = [] then [] else [s]) else [])
       (concat (map tree_messages (all_trees r))))"
  by (simp add: tree_message_ids_def chat_node_ids_def [abs_def] tree_messages_def node_messages_def map_concat comp_def)

lemma tree_message_ids_set: "set (tree_message_ids r platform chat) = TreeRepository.get_message_ids_for_chat r platform chat"
proof -
  have "set (chat_node_ids platform chat n)
      = (if im_platform (mn_incoming n) = platform \<and> im_chat_id (mn_incoming n) = chat
         then insert (im_message_id (mn_incoming n)) (if mn_status_message_id n = [] then {} else {mn_status_message_id n})
         else {})" for n
    by (auto simp: chat_node_ids_def)
  moreover have "set (tree_message_ids r platform chat)
      = (\<Union>t \<in> set (all_trees r). \<Union>n \<in> set (all_nodes t). set (chat_node_ids platform chat n))"
    by (simp add: tree_message_ids_def)
  ultimately show ?thesis unfolding TreeRepository.get_message_ids_for_chat_def by simp
qed

text \<open>Clearing a chat removes all of it. Exactly the messages that were recorded for the chat, those of its
  trees and the command itself are deleted, each once and at most 100 at a time; then no tree, no record and
  no session is left, in memory or in the store.\<close>
theorem clear_forgets_chat:
  assumes "repo_wf (hd_repo h)" "set_order_ok env"
  shows "\<exists>batches. deletions (clear_chat env i h) = deletions h @ batches
      \<and> distinct (concat batches) \<and> (\<forall>b \<in> set batches. length b \<le> 100)
      \<and> set (concat batches) = insert (im_message_id i)
          (set (SessionStore.get_message_ids_for_chat (im_platform i) (im_chat_id i) (hd_store h))
           \<union> TreeRepository.get_message_ids_for_chat (hd_repo h) (im_platform i) (im_chat_id i))
      \<and> hd_repo (clear_chat env i h) = repo_init
      \<and> snapshot (hd_store (clear_chat env i h)) = snapshot (store_init None)
      \<and> (\<forall>s. \<not> session_held (hd_cli (clear_chat env i h)) s)"
proof -
  obtain h1 n where h1: "stop_all_tasks env h = (h1, n)" by force
  note E = stop_all_effect [OF assms(1) h1]
  define ids where "ids = remdups (SessionStore.get_message_ids_for_chat (im_platform i) (im_chat_id i) (hd_store h1)
      @ tree_message_ids (hd_repo h1) (im_platform i) (im_chat_id i) @ [im_message_id i])"
  obtain batches where b: "deletions (delete_message_ids env (im_chat_id i) ids h1) = deletions h1 @ batches"
      "mset (concat batches) = mset ids" "\<forall>b \<in> set batches. length b \<le> 100"
      "hd_cli (delete_message_ids env (im_chat_id i) ids h1) = hd_cli h1"
    using delete_message_ids_effect [OF assms(2)] by blast
  define h' where "h' = clear_chat env i h"
  have h': "h' = (delete_message_ids env (im_chat_id i) ids h1)
      \<lparr>hd_store := fst (clear_all (hd_store (delete_message_ids env (im_chat_id i) ids h1))), hd_manager := manager_init repo_init\<rparr>"
    by (simp add: h'_def clear_chat_def h1 ids_def Let_def)
  have "tree_message_ids (hd_repo h1) p c = tree_message_ids (hd_repo h) p c" for p c
    using E by (simp add: tree_message_ids_messages)
  moreover have "SessionStore.get_message_ids_for_chat p c (hd_store h1) = SessionStore.get_message_ids_for_chat p c (hd_store h)" for p c
    using E by (simp add: SessionStore.get_message_ids_for_chat_def)
  ultimately have "set ids = insert (im_message_id i)
      (set (SessionStore.get_message_ids_for_chat (im_platform i) (im_chat_id i) (hd_store h))
       \<union> TreeRepository.get_message_ids_for_chat (hd_repo h) (im_platform i) (im_chat_id i))"
    by (auto simp: ids_def tree_message_ids_set)
  moreover have "set (concat batches) = set ids" using b(2) by (rule mset_eq_setD)
  moreover have "distinct (concat batches)" using mset_eq_imp_distinct_iff [OF b(2)] by (simp add: ids_def)
  moreover have "deletions h' = deletions h @ batches" using b(1) E by (simp add: h')
  moreover have "hd_repo h' = repo_init" by (simp add: h' hd_repo_def manager_init_def)
  moreover have "snapshot (hd_store h') = snapshot (store_init None)"
    by (simp add: h' clear_all_def flush_save_def snapshot_def store_init_def Let_def)
  moreover have "\<not> session_held (hd_cli h') s" for s
    using b(4) E by (simp add: h' session_held_def stop_all_def)
  ultimately show ?thesis using b(3) unfolding h'_def by metis
qed

definition clear_message :: incoming_message where
  "clear_message = example_reply\<lparr>im_text := lit ''/clear'', im_reply_to_message_id := None\<rparr>"

theorem clear_forgets_chat_witness:
  "hd_repo (clear_chat example_handler_env clear_message example_handler) = repo_init
     \<and> (\<exists>batches. deletions (clear_chat example_handler_env clear_message example_handler) = batches
         \<and> distinct (concat batches) \<and> lit ''9'' \<in> set (concat batches))"
proof -
  have "repo_wf (hd_repo example_handler)" using example_manager_wf by (simp add: hd_repo_def example_handler_def)
  moreover have "set_order_ok example_handler_env" by (simp add: set_order_ok_def example_handler_env_def)
  moreover have "deletions example_handler = []" by (simp add: deletions_def example_handler_def)
  moreover have "im_message_id clear_message = lit ''9''" by (simp add: clear_message_def example_reply_def)
  ultimately show ?thesis using clear_forgets_chat [of example_handler example_handler_env clear_message] by auto
qed

end
