(* ===== verification/PyText.thy ===== *)
theory PyText
  imports Json
begin

text \<open>
  More of Python's text and number functions, for the components that read numbers from requests and
  configurations: decimal digits of any script, \<open>int(s)\<close>, \<open>int(x)\<close> of a JSON value, \<open>str.isdigit\<close> and
  \<open>str.upper\<close>. The tables are those of Unicode 16, which Python 3.14 has.
\<close>

section \<open>Digits\<close>

text \<open>The digit zero of each script; the other nine follow it.\<close>

definition decimal_zeros :: "nat list" where
  "decimal_zeros = [48, 1632, 1776, 1984, 2406, 2534, 2662, 2790, 2918, 3046, 3174, 3302, 3430, 3558, 3664, 3792,
     3872, 4160, 4240, 6112, 6160, 6470, 6608, 6784, 6800, 6992, 7088, 7232, 7248, 42528, 43216, 43264, 43472,
     43504, 43600, 44016, 65296, 66720, 68912, 68928, 69734, 69872, 69942, 70096, 70384, 70736, 70864, 71248, 71360,
     71376, 71386, 71472, 71904, 72016, 72688, 72784, 73040, 73120, 73552, 92768, 92864, 93008, 93552, 118000, 120782,
     120792, 120802, 120812, 120822, 123200, 123632, 124144, 124401, 125264, 130032]"

definition decimal_value :: "pychar \<Rightarrow> nat option" where
  "decimal_value c =
     (case filter (\<lambda>z. z \<le> code_point c \<and> code_point c < z + 10) decimal_zeros of
        [] \<Rightarrow> None
      | z # _ \<Rightarrow> Some (code_point c - z))"

text \<open>Characters that \<open>isdigit\<close> counts although they are no decimal digits: superscripts, circled digits and
  the like.\<close>

definition other_digits :: "(nat \<times> nat) list" where
  "other_digits = [(178, 179), (185, 185), (4969, 4977), (6618, 6618), (8304, 8304), (8308, 8313), (8320, 8329),
     (9312, 9320), (9332, 9340), (9352, 9360), (9450, 9450), (9461, 9469), (9471, 9471), (10102, 10110),
     (10112, 10120), (10122, 10130), (68160, 68163), (69216, 69224), (69714, 69722), (127232, 127242)]"

definition is_digit_char :: "pychar \<Rightarrow> bool" where
  "is_digit_char c \<longleftrightarrow>
     decimal_value c \<noteq> None \<or> list_ex (\<lambda>(a, b). a \<le> code_point c \<and> code_point c \<le> b) other_digits"

definition isdigit :: "pystr \<Rightarrow> bool" where
  "isdigit s \<longleftrightarrow> s \<noteq> [] \<and> list_all is_digit_char s"

section \<open>Integers\<close>

text \<open>The digits of a literal, with single underscores between them.\<close>

fun int_digits :: "pystr \<Rightarrow> nat list option" where
  "int_digits [] = None"
| "int_digits (c # s) =
     (case decimal_value c of
        None \<Rightarrow> None
      | Some d \<Rightarrow>
          (case s of
             [] \<Rightarrow> Some [d]
           | x # r \<Rightarrow> map_option (\<lambda>ds. d # ds) (int_digits (if x = Ch (CHR ''_'') then r else s))))"

definition digits_value :: "nat list \<Rightarrow> nat" where
  "digits_value ds = foldl (\<lambda>n d. 10 * n + d) 0 ds"

text \<open>\<open>int(s)\<close>: \<open>None\<close> for \<open>ValueError\<close>. White space around the number is skipped, the separators 28 to 31
  excepted; more than 4300 digits are refused.\<close>

definition int_space :: "pychar \<Rightarrow> bool" where
  "int_space c \<longleftrightarrow> is_space c \<and> \<not> (28 \<le> code_point c \<and> code_point c \<le> 31)"

definition py_int :: "pystr \<Rightarrow> int option" where
  "py_int s =
     (let t = rev (dropWhile int_space (rev (dropWhile int_space s)));
          signed = (t \<noteq> [] \<and> (hd t = Ch (CHR ''-'') \<or> hd t = Ch (CHR ''+'')));
          body = (if signed then tl t else t)
      in case int_digits body of
           None \<Rightarrow> None
         | Some ds \<Rightarrow>
             if 4300 < length ds then None
             else Some (if signed \<and> hd t = Ch (CHR ''-'') then - int (digits_value ds) else int (digits_value ds)))"

text \<open>\<open>int(x)\<close> of a float, which is given by its \<open>repr\<close>: digits with a point, and an exponent at the end of
  very small and very large ones. \<open>None\<close> for the infinities and what is not a number.\<close>

definition float_trunc :: "pystr \<Rightarrow> int option" where
  "float_trunc r =
     (let negative = (r \<noteq> [] \<and> hd r = Ch (CHR ''-''));
          s = (if negative then tl r else r);
          mantissa = takeWhile (\<lambda>c. c \<noteq> Ch (CHR ''e'')) s;
          expo = drop (length mantissa + 1) s;
          whole = takeWhile (\<lambda>c. c \<noteq> Ch (CHR ''.'')) mantissa;
          fraction = drop (length whole + 1) mantissa
      in case (int_digits (whole @ fraction), if expo = [] then Some 0 else py_int expo) of
           (Some ds, Some e) \<Rightarrow>
             (let shift = e - int (length fraction);
                  n = (if 0 \<le> shift then digits_value ds * 10 ^ nat shift else digits_value ds div 10 ^ nat (- shift))
              in Some (if negative then - int n else int n))
         | _ \<Rightarrow> None)"

fun py_int_of :: "pyval \<Rightarrow> int result" where
  "py_int_of (PBool b) = Inr (if b then 1 else 0)"
| "py_int_of (PInt i) = Inr i"
| "py_int_of (PFloat r) =
     (case float_trunc r of
        Some i \<Rightarrow> Inr i
      | None \<Rightarrow> Inl (if r = lit ''nan'' then ValueError [] else OverflowError))"
| "py_int_of (PStr s) = (case py_int s of Some i \<Rightarrow> Inr i | None \<Rightarrow> Inl (ValueError []))"
| "py_int_of _ = Inl TypeError"

section \<open>Splitting\<close>

text \<open>\<open>s.split(c)\<close> for one character.\<close>

fun split_char :: "pychar \<Rightarrow> pystr \<Rightarrow> pystr list" where
  "split_char c [] = [[]]"
| "split_char c (x # s) =
     (if x = c then [] # split_char c s
      else (case split_char c s of [] \<Rightarrow> [[x]] | p # ps \<Rightarrow> (x # p) # ps))"

section \<open>Upper case\<close>

text \<open>As with \<open>lower\<close>, the code points whose upper case leaves ASCII and Latin-1 alone are left alone: a
  comparison with an ASCII literal comes out the same.\<close>

definition upper_char :: "pychar \<Rightarrow> pystr" where
  "upper_char c =
     (let n = code_point c
      in if (97 \<le> n \<and> n \<le> 122) \<or> (224 \<le> n \<and> n \<le> 254 \<and> n \<noteq> 247) then [Ch (char_of (n - 32))]
         else if n = 181 then [Uni 924] else if n = 255 then [Uni 376]
         else if n = 223 then lit ''SS'' else if n = 305 then lit ''I'' else if n = 383 then lit ''S''
         else if n = 64256 then lit ''FF'' else if n = 64257 then lit ''FI'' else if n = 64258 then lit ''FL''
         else if n = 64259 then lit ''FFI'' else if n = 64260 then lit ''FFL''
         else if n = 64261 \<or> n = 64262 then lit ''ST''
         else [c])"

definition upper :: "pystr \<Rightarrow> pystr" where
  "upper s = concat (map upper_char s)"

section \<open>Decimal texts\<close>

lemma nat_digits_value:
  "foldl (\<lambda>a c. 10 * a + (case c of Ch x \<Rightarrow> of_char x - 48 | Uni _ \<Rightarrow> 0)) 0 (nat_digits n) = (n :: nat)"
proof (induction n rule: nat_digits.induct)
  case (1 n)
  have small: "of_char (char_of (48 + k) :: char) - 48 = k" if "k < 10" for k :: nat
    using that by simp
  show ?case
  proof (cases "n < 10")
    case True
    then show ?thesis by (subst nat_digits.simps) (simp add: small)
  next
    case False
    then show ?thesis using 1 by (subst nat_digits.simps) (simp add: small [of "n mod 10"])
  qed
qed

lemma nat_digits_inject: "nat_digits n = nat_digits m \<Longrightarrow> n = m"
  by (metis nat_digits_value)

lemma nat_digits_chars: "c \<in> set (nat_digits n) \<Longrightarrow> \<exists>k :: nat. k < 10 \<and> c = Ch (char_of (48 + k))"
proof (induction n rule: nat_digits.induct)
  case (1 n)
  show ?case
  proof (cases "n < 10")
    case True
    with "1.prems" have "c = Ch (char_of (48 + n))" by (subst (asm) nat_digits.simps) simp
    with True show ?thesis by blast
  next
    case False
    with "1.prems" have "c \<in> set (nat_digits (n div 10)) \<or> c = Ch (char_of (48 + n mod 10))"
      by (subst (asm) nat_digits.simps) auto
    moreover have "n mod 10 < 10" by simp
    ultimately show ?thesis using "1.IH" [OF False] by blast
  qed
qed

lemma digit_is_no_sign: "Ch (CHR ''-'') \<notin> set (nat_digits n)" "Ch (CHR ''|'') \<notin> set (nat_digits n)"
proof -
  have code: "(of_char (char_of (48 + k) :: char) :: nat) = 48 + k" if "k < 10" for k :: nat
    using that by simp
  have "char_of (48 + k) \<noteq> CHR ''-''" if "k < 10" for k :: nat
  proof
    assume "char_of (48 + k) = CHR ''-''"
    then have "(of_char (CHR ''-'') :: nat) = 48 + k" using code [OF that] by metis
    then show False by simp
  qed
  moreover have "char_of (48 + k) \<noteq> CHR ''|''" if "k < 10" for k :: nat
  proof
    assume "char_of (48 + k) = CHR ''|''"
    then have "(of_char (CHR ''|'') :: nat) = 48 + k" using code [OF that] by metis
    with that show False by simp
  qed
  ultimately show "Ch (CHR ''-'') \<notin> set (nat_digits n)" "Ch (CHR ''|'') \<notin> set (nat_digits n)"
    by (metis nat_digits_chars pychar.inject(1))+
qed

lemma str_of_int_inject:
  assumes "str_of_int i = str_of_int j"
  shows "i = j"
proof -
  have "nat_digits n \<noteq> Ch (CHR ''-'') # ds" for n ds
    using digit_is_no_sign(1) [of n] by auto
  with assms show ?thesis
    by (auto simp: str_of_int_def dest!: nat_digits_inject split: if_splits) metis+
qed

section \<open>Evaluation\<close>

lemmas int_eval = py_int_def int_space_def lit_def decimal_value_def decimal_zeros_def code_point_def digits_value_def
  is_space.simps Let_def float_trunc_def isdigit_def is_digit_char_def other_digits_def

lemma number_examples:
  "py_int (lit ''42'') = Some 42" "py_int (lit '' -1_0 '') = Some (- 10)" "py_int (lit ''_1'') = None"
  "py_int [Uni 1637] = Some 5" "float_trunc (lit ''-1.9'') = Some (- 1)" "float_trunc (lit ''1e+22'') = Some (10 ^ 22)"
  "isdigit [Ch (CHR 0xB2)]" "py_int [Ch (CHR 0xB2)] = None"
  by (simp_all add: int_eval)

end
