(* ===== verification/MarkdownText.thy ===== *)
theory MarkdownText
  imports PyText
begin

text \<open>
  What \<open>messaging/rendering/telegram_markdown.py\<close> and \<open>messaging/rendering/discord_markdown.py\<close> have in common: the
  insertion of blank lines before tables, and the walk over the tokens of a parsed Markdown text. The two
  modules differ in how they escape and mark text, which is a record of styles here. The Markdown parser is a
  parameter. The attributes of a token have string values, a number being given by its numeral.
\<close>

section \<open>Lines\<close>

text \<open>\<open>str.splitlines\<close>.\<close>

definition is_line_break :: "pychar \<Rightarrow> bool" where
  "is_line_break c \<longleftrightarrow>
     (let n = code_point c in (10 \<le> n \<and> n \<le> 13) \<or> (28 \<le> n \<and> n \<le> 30) \<or> n = 133 \<or> n = 8232 \<or> n = 8233)"

fun split_lines_from :: "pystr \<Rightarrow> pystr \<Rightarrow> pystr list" where
  "split_lines_from line [] = (if line = [] then [] else [rev line])"
| "split_lines_from line [c] = (if is_line_break c then [rev line] else [rev (c # line)])"
| "split_lines_from line (c # d # s) =
     (if c = Ch (CHR 0x0D) \<and> d = newline_char then rev line # split_lines_from [] s
      else if is_line_break c then rev line # split_lines_from [] (d # s)
      else split_lines_from (c # line) (d # s))"

definition splitlines :: "pystr \<Rightarrow> pystr list" where
  "splitlines s = split_lines_from [] s"

text \<open>\<open>s.strip(c)\<close> for one character.\<close>

definition strip_char :: "pychar \<Rightarrow> pystr \<Rightarrow> pystr" where
  "strip_char c s = rev (dropWhile (\<lambda>x. x = c) (rev (dropWhile (\<lambda>x. x = c) s)))"

section \<open>Tables\<close>

definition pipe :: pychar where
  "pipe = Ch (CHR 0x7C)"

definition colon :: pychar where
  "colon = Ch (CHR '':'')"

definition dash :: pychar where
  "dash = Ch (CHR ''-'')"

definition backtick :: pychar where
  "backtick = Ch (CHR 0x60)"

text \<open>\<open>_TABLE_SEP_RE\<close>: at least two cells \<open>:?-{3,}:?\<close> between bars, the outer bars optional.\<close>

definition separator_cell :: "pystr \<Rightarrow> bool" where
  "separator_cell cell \<longleftrightarrow>
     (let s = strip cell;
          a = (if s \<noteq> [] \<and> hd s = colon then tl s else s);
          b = (if a \<noteq> [] \<and> last a = colon then butlast a else a)
      in 3 \<le> length b \<and> list_all (\<lambda>c. c = dash) b)"

definition is_table_separator :: "pystr \<Rightarrow> bool" where
  "is_table_separator line \<longleftrightarrow>
     (let s = strip line;
          cells = split_char pipe (if s \<noteq> [] \<and> hd s = pipe then tl s else s)
      in (2 \<le> length cells \<and> list_all separator_cell cells)
         \<or> (3 \<le> length cells \<and> list_all separator_cell (butlast cells) \<and> strip (last cells) = []))"

definition is_gfm_table_header_line :: "pystr \<Rightarrow> bool" where
  "is_gfm_table_header_line line \<longleftrightarrow>
     pipe \<in> set line \<and> \<not> is_table_separator line
     \<and> 2 \<le> length (filter (\<lambda>p. p \<noteq> []) (map strip (split_char pipe (strip_char pipe (strip line)))))"

definition is_fence_line :: "pystr \<Rightarrow> bool" where
  "is_fence_line line \<longleftrightarrow> startswith (lstrip line) [backtick, backtick, backtick]"

text \<open>\<open>_normalize_gfm_tables\<close>, with the last line written so far.\<close>

fun normalize_lines :: "bool \<Rightarrow> pystr option \<Rightarrow> pystr list \<Rightarrow> pystr list" where
  "normalize_lines in_fence written [] = []"
| "normalize_lines in_fence written (line # rest) =
     (if is_fence_line line then line # normalize_lines (\<not> in_fence) (Some line) rest
      else if \<not> in_fence \<and> rest \<noteq> [] \<and> is_gfm_table_header_line line \<and> is_table_separator (hd rest)
        \<and> (case written of None \<Rightarrow> False | Some w \<Rightarrow> strip w \<noteq> [])
      then takeWhile is_space line # line # normalize_lines in_fence (Some line) rest
      else line # normalize_lines in_fence (Some line) rest)"

definition normalize_gfm_tables :: "pystr \<Rightarrow> pystr" where
  "normalize_gfm_tables body =
     (let lines = splitlines body
      in if length lines < 2 then body else join newline (normalize_lines False None lines))"

section \<open>Tokens\<close>

datatype token =
  Token (tok_type: pystr) (tok_content: pystr) (tok_attrs: "(pystr \<times> pystr) list") (tok_children: "token list")

definition is_type :: "token \<Rightarrow> string \<Rightarrow> bool" where
  "is_type t name \<longleftrightarrow> tok_type t = lit name"

definition attr_or_empty :: "token \<Rightarrow> string \<Rightarrow> pystr" where
  "attr_or_empty t key = (case dget (tok_attrs t) (lit key) of None \<Rightarrow> [] | Some s \<Rightarrow> s)"

definition list_start :: "token \<Rightarrow> int" where
  "list_start t =
     (case dget (tok_attrs t) (lit ''start'') of
        None \<Rightarrow> 1
      | Some s \<Rightarrow> (case py_int s of None \<Rightarrow> 1 | Some i \<Rightarrow> i))"

record md_style =
  ms_escape :: "pystr \<Rightarrow> pystr"
  ms_escape_code :: "pystr \<Rightarrow> pystr"
  ms_url :: "pystr \<Rightarrow> pystr"
  ms_em :: pystr
  ms_strong :: pystr
  ms_strike :: pystr
  ms_bullet :: pystr
  ms_number_end :: pystr
  ms_heading :: "token list \<Rightarrow> pystr"

definition render_inline_table_plain :: "token list \<Rightarrow> pystr" where
  "render_inline_table_plain ts = concat (map (\<lambda>t.
     if is_type t ''text'' \<or> is_type t ''code_inline'' then tok_content t
     else if is_type t ''softbreak'' \<or> is_type t ''hardbreak'' then lit '' ''
     else if is_type t ''image'' then tok_content t else []) ts)"

definition link_text :: "token list \<Rightarrow> pystr" where
  "link_text ts = concat (map (\<lambda>t. if is_type t ''text'' \<or> is_type t ''code_inline'' then tok_content t else []) ts)"

definition render_code_inline :: "md_style \<Rightarrow> pystr \<Rightarrow> pystr" where
  "render_code_inline ms s = backtick # ms_escape_code ms s @ [backtick]"

definition render_image :: "md_style \<Rightarrow> token \<Rightarrow> pystr" where
  "render_image ms t =
     (let href = attr_or_empty t ''src'' ; alt = tok_content t
      in if alt \<noteq> [] then ms_escape ms alt @ lit '' ('' @ ms_url ms href @ lit '')'' else ms_url ms href)"

text \<open>The tokens that stand for themselves.\<close>

definition render_simple :: "md_style \<Rightarrow> token \<Rightarrow> pystr" where
  "render_simple ms t =
     (if is_type t ''text'' then ms_escape ms (tok_content t)
      else if is_type t ''softbreak'' \<or> is_type t ''hardbreak'' then newline
      else if is_type t ''em_open'' \<or> is_type t ''em_close'' then ms_em ms
      else if is_type t ''strong_open'' \<or> is_type t ''strong_close'' then ms_strong ms
      else if is_type t ''s_open'' \<or> is_type t ''s_close'' then ms_strike ms
      else if is_type t ''code_inline'' then render_code_inline ms (tok_content t)
      else if is_type t ''image'' then render_image ms t
      else ms_escape ms (tok_content t))"

text \<open>A link takes the tokens up to its end.\<close>

function render_inline :: "md_style \<Rightarrow> token list \<Rightarrow> pystr" where
  "render_inline ms [] = []"
| "render_inline ms (t # ts) =
     (if is_type t ''link_open''
      then (let inner = takeWhile (\<lambda>u. \<not> is_type u ''link_close'') ts
            in lit ''['' @ ms_escape ms (link_text inner) @ lit ''](''
               @ ms_url ms (attr_or_empty t ''href'') @ lit '')'' @ render_inline ms (drop (length inner + 1) ts))
      else render_simple ms t @ render_inline ms ts)"
  by pat_completeness auto
termination
  by (relation "measure (\<lambda>(_, ts). length ts)") auto

section \<open>Blocks\<close>

record block_state =
  bk_out :: "pystr list"
  bk_lists :: "(bool \<times> int) list" \<comment> \<open>the innermost list first: whether it is ordered, and the next number\<close>
  bk_prefix :: "pystr option"
  bk_quotes :: nat
  bk_heading :: bool

definition block_init :: block_state where
  "block_init = \<lparr>bk_out = [], bk_lists = [], bk_prefix = None, bk_quotes = 0, bk_heading = False\<rparr>"

definition emit :: "pystr \<Rightarrow> block_state \<Rightarrow> block_state" where
  "emit s st = st\<lparr>bk_out := bk_out st @ [s]\<rparr>"

definition apply_blockquote :: "nat \<Rightarrow> pystr \<Rightarrow> pystr" where
  "apply_blockquote level s =
     (if level = 0 then s
      else (let pre = concat (replicate level (lit ''> '')) in pre @ replace_char newline_char (newline @ pre) s))"

text \<open>The rows of a table with whether they belong to its head, and the tokens after it.\<close>

record table_state =
  tb_in_head :: bool
  tb_in_row :: bool
  tb_row :: "pystr list"
  tb_row_head :: bool
  tb_in_cell :: bool
  tb_cell :: "pystr list"
  tb_rows :: "(pystr list \<times> bool) list"

definition table_init :: table_state where
  "table_init = \<lparr>tb_in_head = False, tb_in_row = False, tb_row = [], tb_row_head = False, tb_in_cell = False,
     tb_cell = [], tb_rows = []\<rparr>"

definition table_token :: "token \<Rightarrow> table_state \<Rightarrow> table_state" where
  "table_token t st =
     (if is_type t ''thead_open'' then st\<lparr>tb_in_head := True\<rparr>
      else if is_type t ''thead_close'' then st\<lparr>tb_in_head := False\<rparr>
      else if is_type t ''tr_open'' then st\<lparr>tb_in_row := True, tb_row := [], tb_row_head := tb_in_head st\<rparr>
      else if is_type t ''th_open'' \<or> is_type t ''td_open'' then st\<lparr>tb_in_cell := True, tb_cell := []\<rparr>
      else if is_type t ''inline'' \<and> tb_in_cell st
      then st\<lparr>tb_cell := tb_cell st @ [render_inline_table_plain (tok_children t)]\<rparr>
      else if (is_type t ''th_close'' \<or> is_type t ''td_close'') \<and> tb_in_cell st
      then st\<lparr>tb_row := tb_row st @ [strip (join (lit '' '') (tb_cell st))], tb_in_cell := False, tb_cell := []\<rparr>
      else if is_type t ''tr_close'' \<and> tb_in_row st
      then st\<lparr>tb_rows := tb_rows st @ [(tb_row st, tb_row_head st)], tb_in_row := False\<rparr>
      else st)"

fun table_rows :: "token list \<Rightarrow> table_state \<Rightarrow> (pystr list \<times> bool) list \<times> token list" where
  "table_rows [] st = (tb_rows st, [])"
| "table_rows (t # ts) st =
     (if is_type t ''table_close'' then (tb_rows st, ts) else table_rows ts (table_token t st))"

lemma table_rows_shorter: "table_rows ts st = (rows, rest) \<Longrightarrow> length rest \<le> length ts"
  by (induction ts st rule: table_rows.induct) (auto split: if_splits)

definition ljust :: "nat \<Rightarrow> pystr \<Rightarrow> pystr" where
  "ljust w s = s @ replicate (w - length s) (Ch (CHR '' ''))"

definition table_line :: "pystr list \<Rightarrow> pystr" where
  "table_line cells = lit ''| '' @ join (lit '' | '') cells @ lit '' |''"

definition layout_table :: "(pystr list \<times> bool) list \<Rightarrow> pystr" where
  "layout_table rows =
     (let cols = Max (set (map (length \<circ> fst) rows));
          padded = map (\<lambda>(r, h). (r @ replicate (cols - length r) [], h)) rows;
          widths = map (\<lambda>c. max 3 (Max (set (map (\<lambda>(r, h). length (r ! c)) padded)))) [0..<cols];
          separator = table_line (map (\<lambda>w. replicate w dash) widths);
          heads = filter (\<lambda>i. snd (padded ! i)) [0..<length padded];
          lines = concat (map (\<lambda>i.
            table_line (map (\<lambda>c. ljust (widths ! c) (fst (padded ! i) ! c)) [0..<cols])
              # (if heads \<noteq> [] \<and> last heads = i then [separator] else [])) [0..<length padded])
      in rstrip (join newline lines))"

definition fenced :: "md_style \<Rightarrow> pystr \<Rightarrow> pystr" where
  "fenced ms s = [backtick, backtick, backtick] @ newline @ ms_escape_code ms s @ newline @ [backtick, backtick, backtick]"

definition rstrip_newlines :: "pystr \<Rightarrow> pystr" where
  "rstrip_newlines s = rev (dropWhile (\<lambda>c. c = newline_char) (rev s))"

definition open_item :: "md_style \<Rightarrow> block_state \<Rightarrow> block_state" where
  "open_item ms st =
     (case bk_lists st of
        [] \<Rightarrow> st
      | (ordered, index) # outer \<Rightarrow>
          if \<not> ordered then st\<lparr>bk_prefix := Some (ms_bullet ms)\<rparr>
          else st\<lparr>bk_prefix := Some (str_of_int index @ ms_number_end ms), bk_lists := (ordered, index + 1) # outer\<rparr>)"

definition render_inline_block :: "md_style \<Rightarrow> token list \<Rightarrow> block_state \<Rightarrow> block_state" where
  "render_inline_block ms children st =
     (let rendered = (if bk_heading st then ms_heading ms children else render_inline ms children);
          with_prefix = (case bk_prefix st of None \<Rightarrow> rendered | Some p \<Rightarrow> p @ rendered)
      in emit (apply_blockquote (bk_quotes st) with_prefix) (st\<lparr>bk_prefix := None\<rparr>))"

text \<open>Every token but the beginning of a table.\<close>

definition block_token :: "md_style \<Rightarrow> token \<Rightarrow> block_state \<Rightarrow> block_state" where
  "block_token ms t st =
     (if is_type t ''paragraph_open'' then st
      else if is_type t ''paragraph_close'' then emit newline st
      else if is_type t ''heading_open'' then st\<lparr>bk_heading := True\<rparr>
      else if is_type t ''heading_close'' then emit newline (st\<lparr>bk_heading := False\<rparr>)
      else if is_type t ''bullet_list_open'' then st\<lparr>bk_lists := (False, 1) # bk_lists st\<rparr>
      else if is_type t ''bullet_list_close'' then emit newline (st\<lparr>bk_lists := tl (bk_lists st)\<rparr>)
      else if is_type t ''ordered_list_open'' then st\<lparr>bk_lists := (True, list_start t) # bk_lists st\<rparr>
      else if is_type t ''ordered_list_close'' then emit newline (st\<lparr>bk_lists := tl (bk_lists st)\<rparr>)
      else if is_type t ''list_item_open'' then open_item ms st
      else if is_type t ''list_item_close'' then emit newline st
      else if is_type t ''blockquote_open'' then st\<lparr>bk_quotes := bk_quotes st + 1\<rparr>
      else if is_type t ''blockquote_close'' then emit newline (st\<lparr>bk_quotes := bk_quotes st - 1\<rparr>)
      else if is_type t ''code_block'' \<or> is_type t ''fence''
      then emit newline (emit (fenced ms (rstrip_newlines (tok_content t))) st)
      else if is_type t ''inline'' then render_inline_block ms (tok_children t) st
      else if tok_content t \<noteq> [] then emit (ms_escape ms (tok_content t)) st
      else st)"

text \<open>A prefix that waits for the text of a list item is written before the table.\<close>

definition table_prefix :: "block_state \<Rightarrow> block_state" where
  "table_prefix st =
     (case bk_prefix st of
        None \<Rightarrow> st
      | Some p \<Rightarrow>
          if p = [] then st
          else emit newline (emit (apply_blockquote (bk_quotes st) (rstrip p)) (st\<lparr>bk_prefix := None\<rparr>)))"

function render_blocks :: "md_style \<Rightarrow> token list \<Rightarrow> block_state \<Rightarrow> block_state" where
  "render_blocks ms [] st = st"
| "render_blocks ms (t # ts) st =
     (if is_type t ''table_open''
      then (case table_rows ts table_init of
              (rows, rest) \<Rightarrow>
                let st1 = table_prefix st
                in render_blocks ms rest
                     (if rows = [] then st1 else emit newline (emit (fenced ms (layout_table rows)) st1)))
      else render_blocks ms ts (block_token ms t st))"
  by pat_completeness auto
termination
  by (relation "measure (\<lambda>(_, ts, _). length ts)") (auto dest!: sym [of "(_, _)"] table_rows_shorter)

definition render_tokens :: "md_style \<Rightarrow> token list \<Rightarrow> pystr" where
  "render_tokens ms ts = rstrip (concat (bk_out (render_blocks ms ts block_init)))"

definition render_markdown :: "md_style \<Rightarrow> (pystr \<Rightarrow> token list) \<Rightarrow> pystr \<Rightarrow> pystr" where
  "render_markdown ms parse body = (if body = [] then [] else render_tokens ms (parse (normalize_gfm_tables body)))"

end
