(* ===== verification/TelegramMarkdown.thy ===== *)
theory TelegramMarkdown
  imports MarkdownText
begin

text \<open>
  \<open>messaging/rendering/telegram_markdown.py\<close>: the MarkdownV2 format of Telegram. Next to the functions of the
  module stands a check of the texts that Telegram documents for this format: outside of code and links every
  reserved character is escaped, and all code and links are closed and no code is empty. Telegram rejects a text
  that fails it. The check is a necessary condition only: whether the marks of bold, italic, underlined and struck
  text come in pairs is not a part of it.
\<close>

section \<open>The module\<close>

definition backslash :: pychar where
  "backslash = Ch (CHR 0x5C)"

definition MDV2_SPECIAL_CHARS :: "pychar list" where
  "MDV2_SPECIAL_CHARS = lit ([CHR 0x5C] @ ''_*[]()~'' @ [CHR 0x60] @ ''>#+-=|{}.!'')"

definition escape_md_v2 :: "pystr \<Rightarrow> pystr" where
  "escape_md_v2 s = concat (map (\<lambda>c. if c \<in> set MDV2_SPECIAL_CHARS then [backslash, c] else [c]) s)"

definition escape_md_v2_code :: "pystr \<Rightarrow> pystr" where
  "escape_md_v2_code s = replace_char backtick [backslash, backtick] (replace_char backslash [backslash, backslash] s)"

definition MDV2_LINK_ESCAPE :: "pychar list" where
  "MDV2_LINK_ESCAPE = [backslash, Ch (CHR '')'')]"

definition escape_md_v2_link_url :: "pystr \<Rightarrow> pystr" where
  "escape_md_v2_link_url s = concat (map (\<lambda>c. if c \<in> set MDV2_LINK_ESCAPE then [backslash, c] else [c]) s)"

definition mdv2_bold :: "pystr \<Rightarrow> pystr" where
  "mdv2_bold s = lit ''*'' @ escape_md_v2 s @ lit ''*''"

definition mdv2_code_inline :: "pystr \<Rightarrow> pystr" where
  "mdv2_code_inline s = [backtick] @ escape_md_v2_code s @ [backtick]"

definition format_status :: "pystr \<Rightarrow> pystr \<Rightarrow> pystr option \<Rightarrow> pystr" where
  "format_status emoji label detail =
     (let base = emoji @ lit '' '' @ mdv2_bold label
      in case detail of None \<Rightarrow> base | Some d \<Rightarrow> if d = [] then base else base @ lit '' '' @ escape_md_v2 d)"

definition render_inline_plain :: "token list \<Rightarrow> pystr" where
  "render_inline_plain ts = concat (map (\<lambda>t.
     if is_type t ''text'' \<or> is_type t ''code_inline'' then escape_md_v2 (tok_content t)
     else if is_type t ''softbreak'' \<or> is_type t ''hardbreak'' then newline else []) ts)"

definition mdv2_style :: md_style where
  "mdv2_style = \<lparr>ms_escape = escape_md_v2, ms_escape_code = escape_md_v2_code, ms_url = escape_md_v2_link_url,
     ms_em = lit ''_'', ms_strong = lit ''*'', ms_strike = lit ''~'',
     ms_bullet = lit ([CHR 0x5C] @ ''- ''), ms_number_end = lit ([CHR 0x5C] @ ''. ''),
     ms_heading = (\<lambda>ts. lit ''*'' @ render_inline_plain ts @ lit ''*'')\<rparr>"

definition render_markdown_to_mdv2 :: "(pystr \<Rightarrow> token list) \<Rightarrow> pystr \<Rightarrow> pystr" where
  "render_markdown_to_mdv2 parse body = render_markdown mdv2_style parse body"

section \<open>What Telegram requires of a text\<close>

datatype mdv2_mode = MText | MCode | MPre | MUrl

text \<open>The reserved characters that never begin or end an entity by themselves. The marks \<open>*\<close>, \<open>_\<close>, \<open>~\<close> and \<open>[\<close> are
  let through, paired or not.\<close>

definition mdv2_reserved :: "pychar list" where
  "mdv2_reserved = lit ''()#+-=|{}.!''"

function mdv2_scan :: "mdv2_mode \<Rightarrow> pystr \<Rightarrow> mdv2_mode option" where
  "mdv2_scan m [] = Some m"
| "mdv2_scan m (c # s) =
     (if c = backslash
      then (if s \<noteq> [] \<and> hd s \<in> set MDV2_SPECIAL_CHARS then mdv2_scan m (tl s) else None)
      else if c = backtick
      then (case m of
              MText \<Rightarrow> if take 2 s = [backtick, backtick] then mdv2_scan MPre (drop 2 s)
                else if s \<noteq> [] \<and> hd s = backtick then None else mdv2_scan MCode s
            | MCode \<Rightarrow> mdv2_scan MText s
            | MPre \<Rightarrow> if take 2 s = [backtick, backtick] then mdv2_scan MText (drop 2 s) else None
            | MUrl \<Rightarrow> mdv2_scan MUrl s)
      else if m = MText \<and> c \<in> set mdv2_reserved then None
      else if m = MText \<and> c = Ch (CHR '']'')
      then (if s \<noteq> [] \<and> hd s = Ch (CHR ''('') then mdv2_scan MUrl (tl s) else None)
      else if m = MUrl \<and> c = Ch (CHR '')'') then mdv2_scan MText s
      else mdv2_scan m s)"
  by pat_completeness auto
termination
  by (relation "measure (\<lambda>(_, s). length s)") auto

definition mdv2_escaped :: "pystr \<Rightarrow> bool" where
  "mdv2_escaped s \<longleftrightarrow> mdv2_scan MText s = Some MText"

text \<open>A piece of text that can stand anywhere outside of code and links.\<close>

definition neutral :: "pystr \<Rightarrow> bool" where
  "neutral p \<longleftrightarrow> (\<forall>t. mdv2_scan MText (p @ t) = mdv2_scan MText t)"

lemma neutral_Nil [simp]: "neutral []"
  by (simp add: neutral_def)

lemma neutral_append [intro]: "neutral p \<Longrightarrow> neutral q \<Longrightarrow> neutral (p @ q)"
  by (simp add: neutral_def)

lemma neutral_concat: "(\<And>p. p \<in> set ps \<Longrightarrow> neutral p) \<Longrightarrow> neutral (concat ps)"
  by (induction ps) auto

lemmas mdv2_chars = MDV2_SPECIAL_CHARS_def mdv2_reserved_def lit_def backslash_def backtick_def newline_char_def

text \<open>Such pieces are just the texts that pass.\<close>

lemma scan_then:
  "mdv2_scan m p = Some MText \<Longrightarrow> mdv2_scan m (p @ t) = mdv2_scan MText t"
proof (induction "length p" arbitrary: m p rule: less_induct)
  case less
  show ?case
  proof (cases p)
    case (Cons c r)
    have ih: "mdv2_scan n (q @ t) = mdv2_scan MText t" if "mdv2_scan n q = Some MText" "length q \<le> length r" for n q
      using less.hyps that Cons by simp
    have two: "take 2 r = [backtick, backtick] \<Longrightarrow> take 2 (r @ t) = [backtick, backtick]"
        "take 2 r = [backtick, backtick] \<Longrightarrow> drop 2 (r @ t) = drop 2 r @ t"
        "take 2 (r @ t) = [backtick, backtick] \<Longrightarrow> take 2 r \<noteq> [backtick, backtick] \<Longrightarrow> r = [] \<or> hd r = backtick"
      by (cases r; cases "tl r"; auto)+
    have "mdv2_scan m (c # (r @ t)) = mdv2_scan MText t"
      using less.prems Cons two ih [of _ r] ih [of _ "tl r"] ih [of _ "drop 2 r"]
      by (cases "r = []"; cases "c = backslash"; cases "c = backtick"; cases m) (auto split: if_splits)
    with Cons show ?thesis by simp
  qed (use less in simp)
qed

lemma neutral_iff: "neutral p \<longleftrightarrow> mdv2_escaped p"
  unfolding neutral_def mdv2_escaped_def using scan_then by (metis append_Nil2 mdv2_scan.simps(1))

text \<open>Characters without a meaning of their own, and the markers of entities.\<close>

lemma neutral_char:
  "c \<notin> set mdv2_reserved \<Longrightarrow> c \<noteq> backslash \<Longrightarrow> c \<noteq> backtick \<Longrightarrow> c \<noteq> Ch (CHR '']'') \<Longrightarrow> neutral [c]"
  by (simp add: neutral_def)

lemma neutral_Cons: "neutral [c] \<Longrightarrow> neutral s \<Longrightarrow> neutral (c # s)"
  using neutral_append [of "[c]" s] by simp

lemma neutral_escape: "c \<in> set MDV2_SPECIAL_CHARS \<Longrightarrow> neutral [backslash, c]"
  by (simp add: neutral_def)

lemma neutral_escaped: "neutral (escape_md_v2 s)"
  unfolding escape_md_v2_def
proof (rule neutral_concat)
  have "neutral (if c \<in> set MDV2_SPECIAL_CHARS then [backslash, c] else [c])" for c
  proof (cases "c \<in> set MDV2_SPECIAL_CHARS")
    case False
    then have "neutral [c]" by (intro neutral_char) (auto simp: mdv2_chars)
    with False show ?thesis by simp
  qed (simp add: neutral_escape)
  then show "neutral p" if "p \<in> set (map (\<lambda>c. if c \<in> set MDV2_SPECIAL_CHARS then [backslash, c] else [c]) s)" for p
    using that by (metis (no_types, lifting) imageE list.set_map)
qed

lemma neutral_newline: "neutral newline"
  unfolding newline_def by (rule neutral_char) (simp_all add: mdv2_chars)

text \<open>Code: the escaped text keeps the mode, and never begins with a backtick.\<close>

lemma escape_code_Cons:
  "escape_md_v2_code (c # s) = (if c = backslash \<or> c = backtick then [backslash, c] else [c]) @ escape_md_v2_code s"
  by (simp add: escape_md_v2_code_def replace_char_def backslash_def backtick_def)

lemma escape_code_Nil: "escape_md_v2_code [] = []"
  by (simp add: escape_md_v2_code_def replace_char_def)

lemma code_specials: "backslash \<in> set MDV2_SPECIAL_CHARS" "backtick \<in> set MDV2_SPECIAL_CHARS"
    "Ch (CHR '')'') \<in> set MDV2_SPECIAL_CHARS" "backslash \<noteq> backtick" "backtick \<noteq> backslash"
  by (simp_all add: mdv2_chars)

lemma scan_code:
  assumes "m = MCode \<or> m = MPre"
  shows "mdv2_scan m (escape_md_v2_code s @ t) = mdv2_scan m t"
  using assms by (induction s) (auto simp: escape_code_Cons escape_code_Nil code_specials)

lemma scan_url: "mdv2_scan MUrl (escape_md_v2_link_url s @ t) = mdv2_scan MUrl t"
  by (induction s) (auto simp: escape_md_v2_link_url_def MDV2_LINK_ESCAPE_def code_specials)

lemma escape_code_first: "s \<noteq> [] \<Longrightarrow> hd (escape_md_v2_code s) \<noteq> backtick \<and> escape_md_v2_code s \<noteq> []"
  by (cases s) (auto simp: escape_code_Cons code_specials)

lemma neutral_code:
  assumes "s \<noteq> []"
  shows "neutral ([backtick] @ escape_md_v2_code s @ [backtick])"
proof -
  from escape_code_first [OF assms] obtain d r where d: "escape_md_v2_code s = d # r" "d \<noteq> backtick"
    by (cases "escape_md_v2_code s") auto
  then have "mdv2_scan MText ([backtick] @ escape_md_v2_code s @ [backtick] @ t) = mdv2_scan MCode (escape_md_v2_code s @ [backtick] @ t)" for t
    by (simp add: code_specials)
  then show ?thesis by (simp add: neutral_def scan_code code_specials)
qed

lemma neutral_fenced: "neutral (fenced mdv2_style s)"
proof -
  have n: "mdv2_scan MPre (newline_char # r) = mdv2_scan MPre r" for r by (simp add: mdv2_chars)
  have begins: "mdv2_scan MText (backtick # backtick # backtick # r) = mdv2_scan MPre r" for r
    by (simp add: code_specials)
  have ends: "mdv2_scan MPre (backtick # backtick # backtick # r) = mdv2_scan MText r" for r
    by (simp add: code_specials)
  have "mdv2_scan MPre (escape_md_v2_code s @ r) = mdv2_scan MPre r" for r by (simp add: scan_code)
  with n begins ends show ?thesis
    by (simp add: neutral_def fenced_def newline_def mdv2_style_def del: mdv2_scan.simps)
qed

lemma neutral_link:
  "neutral (lit ''['' @ escape_md_v2 a @ lit ''](''  @ escape_md_v2_link_url u @ lit '')'')"
proof -
  have a: "mdv2_scan MText (escape_md_v2 a @ r) = mdv2_scan MText r" for r
    using neutral_escaped [of a] by (simp add: neutral_def)
  have begins: "mdv2_scan MText (lit ''['' @ r) = mdv2_scan MText r" for r by (simp add: mdv2_chars)
  have middle: "mdv2_scan MText (lit ''](''  @ r) = mdv2_scan MUrl r" for r by (simp add: mdv2_chars)
  have ends: "mdv2_scan MUrl (lit '')'' @ r) = mdv2_scan MText r" for r by (simp add: mdv2_chars)
  show ?thesis by (simp add: neutral_def a begins middle ends scan_url del: mdv2_scan.simps)
qed

section \<open>Everything the module writes is escaped\<close>

text \<open>The prefix of a quotation may follow any line break.\<close>

lemma quote_mark: "mdv2_scan m (lit ''> '' @ t) = mdv2_scan m t"
  by (simp add: mdv2_chars)

lemma quote_marks: "mdv2_scan m (concat (replicate k (lit ''> '')) @ t) = mdv2_scan m t"
  by (induction k) (simp_all add: quote_mark del: mdv2_scan.simps)

lemma newline_plain: "newline_char \<noteq> backslash" "newline_char \<noteq> backtick" "newline_char \<notin> set MDV2_SPECIAL_CHARS"
    "newline_char \<notin> set mdv2_reserved" "newline_char \<noteq> Ch (CHR ''('')" "newline_char \<noteq> Ch (CHR '')'')"
    "newline_char \<noteq> Ch (CHR '']'')"
  by (simp_all add: mdv2_chars)

lemma scan_newline: "mdv2_scan m (newline_char # s) = mdv2_scan m s"
  using newline_plain by simp

definition quote_lines :: "nat \<Rightarrow> pystr \<Rightarrow> pystr" where
  "quote_lines k s = replace_char newline_char (newline @ concat (replicate k (lit ''> ''))) s"

lemma quote_lines_simps [simp]:
  "quote_lines k [] = []"
  "quote_lines k (c # s) = (if c = newline_char then newline_char # concat (replicate k (lit ''> '')) else [c]) @ quote_lines k s"
  by (simp_all add: quote_lines_def replace_char_def newline_def)

lemma quote_lines_first:
  "hd (quote_lines k s @ t) = hd (s @ t)" "quote_lines k s @ t = [] \<longleftrightarrow> s @ t = []"
  by (cases s; simp)+

lemma quote_lines_tl: "s \<noteq> [] \<Longrightarrow> hd s \<noteq> newline_char \<Longrightarrow> tl (quote_lines k s @ t) = quote_lines k (tl s) @ t"
  by (cases s) auto

lemma quote_lines_two:
  "take 2 (quote_lines k s @ t) = [backtick, backtick] \<longleftrightarrow> take 2 (s @ t) = [backtick, backtick]"
  using newline_plain by (cases s; cases "tl s") (auto simp: take_Cons' newline_char_def backtick_def)

lemma quote_lines_drop:
  "take 2 (s @ t) = [backtick, backtick] \<Longrightarrow> drop 2 (quote_lines k s @ t) = quote_lines k (drop 2 s) @ drop (2 - length s) t"
  using newline_plain by (cases s; cases "tl s") (auto simp: take_Cons' drop_Cons')

lemma scan_cong:
  assumes "\<And>m. mdv2_scan m x = mdv2_scan m y" "x = [] \<longleftrightarrow> y = []" "hd x = hd y"
    and "\<And>m. hd y \<noteq> newline_char \<Longrightarrow> mdv2_scan m (tl x) = mdv2_scan m (tl y)"
    and "take 2 x = [backtick, backtick] \<longleftrightarrow> take 2 y = [backtick, backtick]"
    and "\<And>m. take 2 y = [backtick, backtick] \<Longrightarrow> mdv2_scan m (drop 2 x) = mdv2_scan m (drop 2 y)"
  shows "mdv2_scan m (c # x) = mdv2_scan m (c # y)"
proof -
  have "mdv2_scan n (tl x) = mdv2_scan n (tl y)" if "hd y \<in> set MDV2_SPECIAL_CHARS \<or> hd y = Ch (CHR ''('')" for n
    using that assms(4) newline_plain by metis
  with assms(1,2,3,5,6) show ?thesis
    by (cases "y = []"; cases "c = backslash"; cases "c = backtick"; cases m) auto
qed

lemma scan_quote_lines: "mdv2_scan m (quote_lines k s @ t) = mdv2_scan m (s @ t)"
proof (induction "length s" arbitrary: m s t rule: less_induct)
  case less
  show ?case
  proof (cases s)
    case (Cons c r)
    have ih: "mdv2_scan m' (quote_lines k r' @ t') = mdv2_scan m' (r' @ t')" if "length r' \<le> length r" for m' r' t'
      using that Cons less by simp
    show ?thesis
    proof (cases "c = newline_char")
      case True
      with Cons ih show ?thesis by (simp add: scan_newline quote_marks del: mdv2_scan.simps)
    next
      case False
      have "mdv2_scan m (c # (quote_lines k r @ t)) = mdv2_scan m (c # (r @ t))"
      proof (rule scan_cong)
        show "mdv2_scan m' (tl (quote_lines k r @ t)) = mdv2_scan m' (tl (r @ t))"
          if "hd (r @ t) \<noteq> newline_char" for m'
          using that ih [of "tl r" m' t] by (cases r) (auto simp del: mdv2_scan.simps)
        show "mdv2_scan m' (drop 2 (quote_lines k r @ t)) = mdv2_scan m' (drop 2 (r @ t))"
          if "take 2 (r @ t) = [backtick, backtick]" for m'
          using quote_lines_drop [OF that] ih [of "drop 2 r" m' "drop (2 - length r) t"] by simp
      qed (rule quote_lines_first quote_lines_two ih order_refl)+
      with Cons False show ?thesis by (simp del: mdv2_scan.simps)
    qed
  qed simp
qed

lemma apply_blockquote_lines:
  "apply_blockquote k s = (if k = 0 then s else concat (replicate k (lit ''> '')) @ quote_lines k s)"
  by (simp add: apply_blockquote_def quote_lines_def Let_def)

lemma neutral_blockquote:
  assumes "neutral s"
  shows "neutral (apply_blockquote k s)"
proof -
  have "mdv2_scan MText (apply_blockquote k s @ t) = mdv2_scan MText (s @ t)" for t
    unfolding apply_blockquote_lines by (simp add: quote_marks scan_quote_lines del: mdv2_scan.simps)
  with assms show ?thesis by (simp add: neutral_def)
qed

text \<open>Tokens without images and without empty code, and lists that do not count below zero.\<close>

definition inline_token_ok :: "token \<Rightarrow> bool" where
  "inline_token_ok t \<longleftrightarrow> \<not> is_type t ''image'' \<and> (is_type t ''code_inline'' \<longrightarrow> tok_content t \<noteq> [])"

definition block_token_ok :: "token \<Rightarrow> bool" where
  "block_token_ok t \<longleftrightarrow> (is_type t ''inline'' \<longrightarrow> list_all inline_token_ok (tok_children t))
     \<and> (is_type t ''ordered_list_open'' \<longrightarrow> 0 \<le> list_start t)"

lemma neutral_marks: "neutral (lit ''_'')" "neutral (lit ''*'')" "neutral (lit ''~'')" "neutral (lit '' '')"
  by (simp_all add: neutral_def mdv2_chars)

lemma neutral_simple: "inline_token_ok t \<Longrightarrow> neutral (render_simple mdv2_style t)"
  using neutral_code [of "tok_content t"]
  by (auto simp: render_simple_def mdv2_style_def inline_token_ok_def render_code_inline_def neutral_escaped neutral_newline
      neutral_marks)

lemma neutral_inline: "list_all inline_token_ok ts \<Longrightarrow> neutral (render_inline mdv2_style ts)"
proof (induction "mdv2_style" ts rule: render_inline.induct)
  case (2 t ts)
  show ?case
  proof (cases "is_type t ''link_open''")
    case True
    let ?inner = "takeWhile (\<lambda>u. \<not> is_type u ''link_close'') ts"
    have "neutral (render_inline mdv2_style (drop (length ?inner + 1) ts))"
      using 2 True by (auto simp: list_all_iff dest: in_set_dropD)
    with neutral_append [OF neutral_link [of "link_text ?inner" "attr_or_empty t ''href''"] this] True
    show ?thesis by (simp add: mdv2_style_def Let_def del: append_assoc) (simp add: append_assoc)
  next
    case False
    with 2 show ?thesis by (auto intro: neutral_append neutral_simple)
  qed
qed simp

lemma neutral_plain: "neutral (render_inline_plain ts)"
  unfolding render_inline_plain_def by (rule neutral_concat) (auto simp: neutral_escaped neutral_newline)

lemma neutral_digits: "neutral (nat_digits n)"
proof (induction n rule: nat_digits.induct)
  case (1 n)
  have digit: "neutral [Ch (char_of (48 + d))]" if "d < 10" for d :: nat
  proof (rule neutral_char)
    from that have "d = 0 \<or> d = 1 \<or> d = 2 \<or> d = 3 \<or> d = 4 \<or> d = 5 \<or> d = 6 \<or> d = 7 \<or> d = 8 \<or> d = 9"
      by arith
    then have "char_of (48 + d) \<in> set ''0123456789''" by (elim disjE) (simp_all add: char_of_def bit_Suc_0_iff)
    then show "Ch (char_of (48 + d)) \<notin> set mdv2_reserved" "Ch (char_of (48 + d)) \<noteq> backslash"
      "Ch (char_of (48 + d)) \<noteq> backtick" "Ch (char_of (48 + d)) \<noteq> Ch (CHR '']'')"
      by (auto simp: mdv2_chars)
  qed
  show ?case
  proof (cases "n < 10")
    case True
    then show ?thesis by (subst nat_digits.simps) (simp add: digit)
  next
    case False
    with 1 have "neutral (nat_digits (n div 10) @ [Ch (char_of (48 + n mod 10))])"
      by (intro neutral_append digit) simp_all
    with False show ?thesis by (subst nat_digits.simps) simp
  qed
qed

lemma neutral_number: "0 \<le> i \<Longrightarrow> neutral (str_of_int i)"
  by (simp add: str_of_int_def neutral_digits)

definition block_state_ok :: "block_state \<Rightarrow> bool" where
  "block_state_ok st \<longleftrightarrow> list_all neutral (bk_out st) \<and> list_all (\<lambda>(ordered, i). 0 \<le> i) (bk_lists st)
     \<and> (case bk_prefix st of None \<Rightarrow> True | Some p \<Rightarrow> neutral p \<and> neutral (rstrip p))"

lemma block_ok_emit: "block_state_ok st \<Longrightarrow> neutral s \<Longrightarrow> block_state_ok (emit s st)"
  by (simp add: block_state_ok_def emit_def)

lemma prefix_pieces:
  "neutral (lit ([CHR 0x5C] @ ''- ''))" "neutral (rstrip (lit ([CHR 0x5C] @ ''- '')))"
  "neutral (lit ([CHR 0x5C] @ ''. ''))" "rstrip (s @ lit ([CHR 0x5C] @ ''. '')) = s @ lit ([CHR 0x5C] @ ''.'')"
  "neutral (lit ([CHR 0x5C] @ ''.''))"
  by (simp_all add: neutral_def mdv2_chars rstrip_def)

lemma block_ok_item: "block_state_ok st \<Longrightarrow> block_state_ok (open_item mdv2_style st)"
  using prefix_pieces
  by (auto simp: block_state_ok_def open_item_def mdv2_style_def neutral_number split: list.split)

lemma block_ok_inline:
  assumes "block_state_ok st" "list_all inline_token_ok ts"
  shows "block_state_ok (render_inline_block mdv2_style ts st)"
proof -
  have "neutral (if bk_heading st then ms_heading mdv2_style ts else render_inline mdv2_style ts)"
    using assms(2) neutral_append [OF neutral_marks(2) neutral_append [OF neutral_plain neutral_marks(2)]]
    by (simp add: neutral_inline) (simp add: mdv2_style_def)
  with assms(1) show ?thesis
    unfolding render_inline_block_def Let_def
    by (intro block_ok_emit neutral_blockquote) (auto simp: block_state_ok_def split: option.splits)
qed

lemma block_ok_token:
  assumes "block_state_ok st" "block_token_ok t"
  shows "block_state_ok (block_token mdv2_style t st)"
proof -
  have fields: "block_state_ok (st\<lparr>bk_heading := b\<rparr>)" "block_state_ok (st\<lparr>bk_quotes := k\<rparr>)"
      "block_state_ok (st\<lparr>bk_lists := tl (bk_lists st)\<rparr>)" "0 \<le> i \<Longrightarrow> block_state_ok (st\<lparr>bk_lists := (o', i) # bk_lists st\<rparr>)"
    for b k o' i
    using assms(1) by (cases "bk_lists st"; simp add: block_state_ok_def)+
  have escaped: "neutral (ms_escape mdv2_style s)" for s by (simp add: mdv2_style_def neutral_escaped)
  show ?thesis
    using assms fields
    by (simp add: block_token_def block_token_ok_def block_ok_emit neutral_newline neutral_fenced block_ok_item
        block_ok_inline escaped)
qed

lemma block_ok_prefix: "block_state_ok st \<Longrightarrow> block_state_ok (table_prefix st)"
  unfolding table_prefix_def
  by (auto split: option.split intro!: block_ok_emit neutral_newline neutral_blockquote) (auto simp: block_state_ok_def)

lemma table_rows_rest: "table_rows ts st = (rows, rest) \<Longrightarrow> set rest \<subseteq> set ts"
  by (induction ts st rule: table_rows.induct) (auto split: if_splits)

lemma block_ok_render:
  "list_all block_token_ok ts \<Longrightarrow> block_state_ok st \<Longrightarrow> block_state_ok (render_blocks mdv2_style ts st)"
proof (induction "mdv2_style" ts st rule: render_blocks.induct)
  case (2 t ts st)
  show ?case
  proof (cases "is_type t ''table_open''")
    case True
    obtain rows rest where r: "table_rows ts table_init = (rows, rest)" by force
    with 2(3) have "list_all block_token_ok rest" using table_rows_rest [OF r] by (auto simp: list_all_iff)
    moreover have "block_state_ok (if rows = [] then table_prefix st
        else emit newline (emit (fenced mdv2_style (layout_table rows)) (table_prefix st)))"
      using 2(4) by (auto intro!: block_ok_emit block_ok_prefix neutral_newline neutral_fenced)
    ultimately show ?thesis using True r 2(1) [OF True r [symmetric] refl] by (simp add: Let_def)
  next
    case False
    with 2 show ?thesis by (simp add: block_ok_token)
  qed
qed simp

text \<open>Trailing white space can go.\<close>

lemma space_plain:
  assumes "is_space w"
  shows "w \<noteq> backslash" "w \<noteq> backtick" "w \<notin> set MDV2_SPECIAL_CHARS" "w \<notin> set mdv2_reserved" "w \<noteq> Ch (CHR ''('')"
    "w \<noteq> Ch (CHR '')'')" "w \<noteq> Ch (CHR '']'')"
  using assms by (auto simp: mdv2_chars)

lemma scan_drop_space:
  assumes "is_space w"
  shows "mdv2_scan m (s @ [w]) = Some MText \<Longrightarrow> mdv2_scan m s = Some MText"
proof (induction "length s" arbitrary: m s rule: less_induct)
  case less
  note w = space_plain [OF assms]
  show ?case
  proof (cases s)
    case Nil
    with less.prems w show ?thesis by (auto split: if_splits mdv2_mode.splits)
  next
    case (Cons c r)
    have two: "take 2 (r @ [w]) = [backtick, backtick] \<longleftrightarrow> take 2 r = [backtick, backtick]"
      using w by (cases r; cases "tl r") auto
    have drop: "drop 2 (r @ [w]) = drop 2 r @ [w]" if "take 2 r = [backtick, backtick]"
      using that by (cases r; cases "tl r") auto
    have ih: "mdv2_scan n q = Some MText" if "mdv2_scan n (q @ [w]) = Some MText" "length q \<le> length r" for n q
      using less.hyps that Cons by simp
    have "mdv2_scan m (c # (r @ [w])) = Some MText" using less.prems Cons by simp
    then have "mdv2_scan m (c # r) = Some MText"
      using ih [of _ r] ih [of _ "tl r"] ih [of _ "drop 2 r"] w two drop
      by (cases "r = []"; cases "c = backslash"; cases "c = backtick"; cases m) (auto split: if_splits)
    with Cons show ?thesis by simp
  qed
qed

lemma ok_rstrip: "mdv2_escaped s \<Longrightarrow> mdv2_escaped (rstrip s)"
proof (induction s rule: rev_induct)
  case (snoc w s)
  then show ?case
    using scan_drop_space [of w MText s] by (auto simp: rstrip_def mdv2_escaped_def)
qed (simp add: rstrip_def)

lemma render_tokens_ok:
  assumes "list_all block_token_ok ts"
  shows "mdv2_escaped (render_tokens mdv2_style ts)"
proof -
  have "block_state_ok (render_blocks mdv2_style ts block_init)"
    using assms by (rule block_ok_render) (simp add: block_state_ok_def block_init_def)
  then have "neutral (concat (bk_out (render_blocks mdv2_style ts block_init)))"
    by (intro neutral_concat) (simp add: block_state_ok_def list_all_iff)
  then show ?thesis unfolding render_tokens_def by (simp add: neutral_iff ok_rstrip)
qed

end
