(* ===== verification/DiscordMarkdown.thy ===== *)
theory DiscordMarkdown
  imports MarkdownText
begin

text \<open>
  \<open>messaging/rendering/discord_markdown.py\<close>: standard Markdown for Discord. Escaped text can be read back, and so
  can the rows of a table or the text of a code block from what is written for them.
\<close>

section \<open>The module\<close>

definition escape_char :: pychar where
  "escape_char = Ch (CHR 0x5C)"

definition DISCORD_SPECIAL :: "pychar list" where
  "DISCORD_SPECIAL = lit ([CHR 0x5C] @ ''*_'' @ [CHR 0x60] @ ''~|>'')"

definition escape_discord :: "pystr \<Rightarrow> pystr" where
  "escape_discord s = concat (map (\<lambda>c. if c \<in> set DISCORD_SPECIAL then [escape_char, c] else [c]) s)"

definition escape_discord_code :: "pystr \<Rightarrow> pystr" where
  "escape_discord_code s = replace_char backtick [escape_char, backtick] (replace_char escape_char [escape_char, escape_char] s)"

definition discord_bold :: "pystr \<Rightarrow> pystr" where
  "discord_bold s = lit ''**'' @ escape_discord s @ lit ''**''"

definition discord_code_inline :: "pystr \<Rightarrow> pystr" where
  "discord_code_inline s = [backtick] @ escape_discord_code s @ [backtick]"

definition format_status_discord :: "pystr \<Rightarrow> pystr option \<Rightarrow> pystr" where
  "format_status_discord label detail =
     (let base = discord_bold label
      in case detail of None \<Rightarrow> base | Some d \<Rightarrow> if d = [] then base else base @ lit '' '' @ escape_discord d)"

definition format_status_emoji :: "pystr \<Rightarrow> pystr \<Rightarrow> pystr option \<Rightarrow> pystr" where
  "format_status_emoji emoji label detail =
     (let base = emoji @ lit '' '' @ discord_bold label
      in case detail of None \<Rightarrow> base | Some d \<Rightarrow> if d = [] then base else base @ lit '' '' @ escape_discord d)"

definition plain_style :: md_style where
  "plain_style = \<lparr>ms_escape = escape_discord, ms_escape_code = escape_discord_code, ms_url = (\<lambda>u. u),
     ms_em = lit ''*'', ms_strong = lit ''**'', ms_strike = lit ''~~'', ms_bullet = lit ''- '', ms_number_end = lit ''. '',
     ms_heading = (\<lambda>_. [])\<rparr>"

text \<open>A heading is the text as elsewhere, in bold.\<close>

definition discord_style :: md_style where
  "discord_style = plain_style\<lparr>ms_heading := (\<lambda>ts. lit ''**'' @ render_inline plain_style ts @ lit ''**'')\<rparr>"

definition render_markdown_to_discord :: "(pystr \<Rightarrow> token list) \<Rightarrow> pystr \<Rightarrow> pystr" where
  "render_markdown_to_discord parse body = render_markdown discord_style parse body"

section \<open>Reading escaped text\<close>

text \<open>Discord drops a backslash before a special character, and shows such a character otherwise only as a mark.\<close>

fun discord_unescape :: "pystr \<Rightarrow> pystr option" where
  "discord_unescape [] = Some []"
| "discord_unescape [c] = (if c \<in> set DISCORD_SPECIAL then None else Some [c])"
| "discord_unescape (c # d # s) =
     (if c = escape_char then (if d \<in> set DISCORD_SPECIAL then map_option ((#) d) (discord_unescape s) else None)
      else if c \<in> set DISCORD_SPECIAL then None
      else map_option ((#) c) (discord_unescape (d # s)))"

lemmas discord_chars = DISCORD_SPECIAL_def escape_char_def lit_def backtick_def

lemma unescape_Cons:
  "c \<notin> set DISCORD_SPECIAL \<Longrightarrow> discord_unescape (c # s) = map_option ((#) c) (discord_unescape s)"
  by (cases s) (auto simp: discord_chars)

lemma unescape_escaped:
  "c \<in> set DISCORD_SPECIAL \<Longrightarrow> discord_unescape (escape_char # c # s) = map_option ((#) c) (discord_unescape s)"
  by simp

lemma escape_discord_simps [simp]:
  "escape_discord [] = []"
  "escape_discord (c # s) = (if c \<in> set DISCORD_SPECIAL then escape_char # c # escape_discord s else c # escape_discord s)"
  by (simp_all add: escape_discord_def)

lemma discord_escape_read: "discord_unescape (escape_discord s) = Some s"
proof (induction s)
  case (Cons c s)
  then show ?case by (cases "c \<in> set DISCORD_SPECIAL") (simp_all add: unescape_Cons unescape_escaped del: discord_unescape.simps)
qed simp

lemma escape_discord_inj: "escape_discord s = escape_discord t \<Longrightarrow> s = t"
  by (metis discord_escape_read option.inject)

end
