(* ===== verification/ChatMessages.thy ===== *)
theory ChatMessages
  imports TelegramMarkdown DiscordMarkdown TranscriptView
begin

text \<open>
  The transcript as the message handler renders it for Telegram and Discord: the contexts of
  \<open>ClaudeMessageHandler.__init__\<close>, and whether the messages are escaped as Telegram requires. All names and error messages that
  are shown as code are nonempty; the text of a message is the Markdown parser's.
\<close>

section \<open>The rendering contexts\<close>

text \<open>The defaults of \<open>RenderCtx\<close> for the lengths.\<close>

definition render_ctx_of ::
  "(pystr \<Rightarrow> pystr) \<Rightarrow> (pystr \<Rightarrow> pystr) \<Rightarrow> (pystr \<Rightarrow> pystr) \<Rightarrow> (pystr \<Rightarrow> pystr) \<Rightarrow> (pystr \<Rightarrow> pystr) \<Rightarrow> render_ctx" where
  "render_ctx_of bold code_inline escape_code escape_text render =
     \<lparr>rc_bold = bold, rc_code_inline = code_inline, rc_escape_code = escape_code, rc_escape_text = escape_text,
      rc_render_markdown = render, rc_thinking_tail_max = Some 1000, rc_tool_output_tail_max = Some 1600,
      rc_text_tail_max = Some 2000\<rparr>"

definition telegram_ctx :: "(pystr \<Rightarrow> token list) \<Rightarrow> render_ctx" where
  "telegram_ctx parse =
     render_ctx_of mdv2_bold mdv2_code_inline escape_md_v2_code escape_md_v2 (render_markdown_to_mdv2 parse)"

definition discord_ctx :: "(pystr \<Rightarrow> token list) \<Rightarrow> render_ctx" where
  "discord_ctx parse =
     render_ctx_of discord_bold discord_code_inline escape_discord_code escape_discord (render_markdown_to_discord parse)"

definition handler_ctx :: "(pystr \<Rightarrow> token list) \<Rightarrow> bool \<Rightarrow> render_ctx" where
  "handler_ctx parse is_discord = (if is_discord then discord_ctx parse else telegram_ctx parse)"

definition limit_chars :: "bool \<Rightarrow> int" where
  "limit_chars is_discord = (if is_discord then 1900 else 3900)"

section \<open>Nothing empty is shown as code\<close>

definition subagent_named :: "subagent_segment \<Rightarrow> bool" where
  "subagent_named ag \<longleftrightarrow> ag_description ag \<noteq> []
     \<and> (case ag_current_tool ag of None \<Rightarrow> True | Some ts \<Rightarrow> ts_name ts \<noteq> [])"

definition segment_named :: "segment \<Rightarrow> bool" where
  "segment_named seg \<longleftrightarrow>
     (case seg of
        ToolCallSegment ts \<Rightarrow> ts_name ts \<noteq> []
      | SubagentSegment ag \<Rightarrow> subagent_named ag
      | ErrorSegment message \<Rightarrow> message \<noteq> []
      | _ \<Rightarrow> True)"

lemma segment_named_simps [simp]:
  "segment_named (ThinkingSegment parts)" "segment_named (TextSegment parts)"
  "segment_named (ToolResultSegment i n c e)" "segment_named (ToolCallSegment ts) \<longleftrightarrow> ts_name ts \<noteq> []"
  "segment_named (SubagentSegment ag) \<longleftrightarrow> subagent_named ag" "segment_named (ErrorSegment m) \<longleftrightarrow> m \<noteq> []"
  by (simp_all add: segment_named_def)

definition all_named :: "transcript \<Rightarrow> bool" where
  "all_named t \<longleftrightarrow> list_all segment_named (tr_segments t)"

lemma str_or_nonempty: "b \<noteq> [] \<Longrightarrow> str_or a b \<noteq> []"
  by (simp add: str_or_def)

lemma lit_nonempty: "s \<noteq> [] \<Longrightarrow> lit s \<noteq> []"
  by (simp add: lit_def)

lemma named_append: "segment_named seg \<Longrightarrow> all_named t \<Longrightarrow> all_named (append_segment seg t)"
  by (simp add: all_named_def append_segment_def)

lemma named_update: "all_named t \<Longrightarrow> segment_named seg \<Longrightarrow> all_named (t\<lparr>tr_segments := (tr_segments t)[p := seg]\<rparr>)"
  by (auto simp: all_named_def list_all_iff dest: set_update_subset_insert [THEN subsetD])

lemma named_nth: "all_named t \<Longrightarrow> p < length (tr_segments t) \<Longrightarrow> segment_named (tr_segments t ! p)"
  by (simp add: all_named_def list_all_length)

text \<open>Only the segments count.\<close>

lemma named_fields [simp]:
  "all_named (t\<lparr>tr_tool_name_by_id := d\<rparr>) \<longleftrightarrow> all_named t" "all_named (t\<lparr>tr_open_thinking := o'\<rparr>) \<longleftrightarrow> all_named t"
  "all_named (t\<lparr>tr_open_text := o'\<rparr>) \<longleftrightarrow> all_named t" "all_named (t\<lparr>tr_open_tools := r\<rparr>) \<longleftrightarrow> all_named t"
  "all_named (subagent_push i p t) \<longleftrightarrow> all_named t"
  by (simp_all add: all_named_def subagent_push_def)

lemma named_set: "all_named t \<Longrightarrow> (p < length (tr_segments t) \<Longrightarrow> segment_named seg) \<Longrightarrow>
    all_named (t\<lparr>tr_segments := (tr_segments t)[p := seg]\<rparr>)"
  by (cases "p < length (tr_segments t)") (simp_all add: named_update list_update_beyond)

lemma named_close:
  assumes "all_named t"
  shows "all_named (close_tool ref t)"
proof -
  have "segment_named (SubagentSegment (ag\<lparr>ag_current_tool := map_option (ts_closed_update f) (ag_current_tool ag)\<rparr>))"
    if "p < length (tr_segments t)" "tr_segments t ! p = SubagentSegment ag" for p ag f
    using named_nth [OF assms that(1)] that(2) by (auto simp: subagent_named_def split: option.splits)
  moreover have "segment_named (ToolCallSegment (ts\<lparr>ts_closed := True\<rparr>))"
    if "p < length (tr_segments t)" "tr_segments t ! p = ToolCallSegment ts" for p ts
    using named_nth [OF assms that(1)] that(2) by simp
  ultimately show ?thesis
    unfolding close_tool_def by (auto split: tool_ref.split segment.split intro!: named_set assms)
qed

lemma named_block_stop: "all_named t \<Longrightarrow> all_named (block_stop idx t)"
  by (auto simp: block_stop_def tool_stop_def thinking_stop_def text_stop_def split: option.split intro!: named_close)

lemma named_reused: "all_named t \<Longrightarrow> all_named (close_reused idx t)"
  by (simp add: close_reused_def named_block_stop)

lemma named_append_at: "all_named t \<Longrightarrow> all_named (append_at pos content t)"
  unfolding append_at_def
  by (rule named_set) (auto dest!: named_nth simp: append_to_segment_def split: segment.splits)

text \<open>Whatever an event adds has a name.\<close>

lemma named_set_current: "subagent_named ag \<Longrightarrow> subagent_named (set_current_tool_call i n ag)"
  by (simp add: subagent_named_def set_current_tool_call_def new_tool_segment_def str_or_nonempty lit_nonempty Let_def)

lemma named_add_tool:
  assumes "all_named t" "add_tool_call i n t = (t', ref)"
  shows "all_named t'"
proof -
  have "all_named (t\<lparr>tr_segments := (tr_segments t)[p := SubagentSegment (set_current_tool_call i n ag)]\<rparr>)"
    if "tr_segments t ! p = SubagentSegment ag" for p ag
    using that named_nth [OF assms(1), of p] by (auto intro!: named_set assms(1) named_set_current)
  moreover have "all_named (append_segment (ToolCallSegment (new_tool_segment i n 0)) t)"
    using assms(1) by (intro named_append) (simp_all add: new_tool_segment_def str_or_nonempty lit_nonempty)
  ultimately show ?thesis
    using assms by (auto simp: add_tool_call_def Let_def split: if_splits segment.splits)
qed

lemma named_tool_call:
  assumes "all_named t" "tool_call rp ev t = (t', ref)"
  shows "all_named t'"
proof -
  have "segment_named (SubagentSegment (new_subagent h))" for h
    by (simp add: new_subagent_def subagent_named_def str_or_nonempty lit_nonempty)
  then show ?thesis
    using assms unfolding tool_call_def Let_def
    by (auto simp only: split: if_splits prod.splits) (auto intro: named_append dest!: named_add_tool [rotated])
qed

lemma named_tool_result: "all_named t \<Longrightarrow> all_named (tool_result rp ev t)"
proof -
  assume t: "all_named t"
  have pop: "all_named (fst (subagent_pop i u)) \<longleftrightarrow> all_named u" for i u
    by (auto simp: subagent_pop_def pop_to_def all_named_def Let_def split: option.split)
  have pop': "all_named u' \<longleftrightarrow> all_named u" if "subagent_pop i u = (u', b)" for i u u' b
    using pop [of i u] that by simp
  show ?thesis
    using t pop pop' unfolding tool_result_def Let_def
    by (auto intro!: named_append split: prod.split)
qed

lemma named_event:
  assumes "apply_event rp ev t = Inr t'" "all_named t"
  shows "all_named t'"
proof -
  have parts: "all_named (thinking_start i t)" "all_named (text_start i t)" "all_named (thinking_delta i c t)"
      "all_named (text_delta i c t)" "all_named (thinking_stop i t)" "all_named (text_stop i t)"
      "all_named (tool_stop i t)" for i c
    using assms(2)
    by (auto simp: thinking_start_def text_start_def thinking_delta_def text_delta_def thinking_stop_def text_stop_def
        tool_stop_def Let_def split: option.split intro!: named_append_at named_append named_reused named_close)
  have tools: "all_named (tool_use_start rp ev i t)" "all_named (whole_tool_use rp ev t)" for i
    using assms(2) named_tool_call [OF named_reused [OF assms(2), of i]] named_tool_call [OF assms(2)]
    by (auto simp: tool_use_start_def whole_tool_use_def split: prod.split option.split intro!: named_close)
  have "all_named (append_segment (ErrorSegment (str_or m (lit ''Unknown error''))) t)" for m
    using assms(2) by (intro named_append) (simp_all add: str_or_nonempty lit_nonempty)
  with assms parts tools named_tool_result [OF assms(2)] named_block_stop [OF assms(2)] show ?thesis
    unfolding apply_event_def Let_def by (auto split: if_splits simp: rbind_Inr_iff)
qed

lemma named_events: "apply_all rp evs t = Inr t' \<Longrightarrow> all_named t \<Longrightarrow> all_named t'"
  by (induction evs arbitrary: t) (auto simp: rbind_Inr_iff dest: named_event)

lemma named_transcript: "apply_all rp evs (transcript_init b) = Inr t \<Longrightarrow> all_named t"
  by (erule named_events) (simp add: transcript_init_def all_named_def)

section \<open>What is escaped as it must be\<close>

lemma telegram_ctx_simps [simp]:
  "rc_bold (telegram_ctx parse) = mdv2_bold" "rc_code_inline (telegram_ctx parse) = mdv2_code_inline"
  "rc_escape_code (telegram_ctx parse) = escape_md_v2_code" "rc_escape_text (telegram_ctx parse) = escape_md_v2"
  "rc_render_markdown (telegram_ctx parse) = render_markdown_to_mdv2 parse"
  "rc_thinking_tail_max (telegram_ctx parse) = Some 1000" "rc_tool_output_tail_max (telegram_ctx parse) = Some 1600"
  "rc_text_tail_max (telegram_ctx parse) = Some 2000"
  by (simp_all add: telegram_ctx_def render_ctx_of_def)

lemma neutral_bold: "neutral (mdv2_bold s)"
  unfolding mdv2_bold_def by (intro neutral_append neutral_marks neutral_escaped)

lemma neutral_code_inline: "s \<noteq> [] \<Longrightarrow> neutral (mdv2_code_inline s)"
  using neutral_code [of s] by (simp add: mdv2_code_inline_def)

lemma neutral_code_block: "neutral (code_block (escape_md_v2_code s))"
  using neutral_append [OF neutral_newline neutral_fenced [of s]]
  by (simp add: code_block_def fence_def fenced_def mdv2_style_def newline_def lit_def backtick_def)

lemma neutral_emoji: "neutral [Uni n]"
  by (rule neutral_char) (simp_all add: mdv2_chars)

lemma neutral_emoji_Cons: "neutral s \<Longrightarrow> neutral (Uni n # s)"
  by (rule neutral_Cons [OF neutral_emoji])

lemma neutral_blanks: "neutral (lit ''  '')" "neutral (concat (replicate n (lit ''  '')))"
proof -
  show blanks: "neutral (lit ''  '')" by (simp add: neutral_def mdv2_chars)
  show "neutral (concat (replicate n (lit ''  '')))" by (rule neutral_concat) (simp add: blanks)
qed

lemma neutral_join: "(\<And>p. p \<in> set ps \<Longrightarrow> neutral p) \<Longrightarrow> neutral (join newline ps)"
  by (induction ps rule: induct_list012) (auto intro!: neutral_append neutral_newline)

lemmas neutral_pieces = neutral_bold neutral_code_inline neutral_code_block neutral_emoji neutral_emoji_Cons
  neutral_blanks neutral_marks
  neutral_newline neutral_escaped

lemma neutral_tool: "ts_name ts \<noteq> [] \<Longrightarrow> neutral (render_tool (telegram_ctx parse) ts)"
  unfolding render_tool_def by (auto intro!: neutral_append neutral_pieces)

lemma str_of_nat_nonempty: "str_of_int (int n) \<noteq> []"
  by (subst str_of_int_def) (simp add: nat_digits.simps [of n])

lemma neutral_subagent: "subagent_named ag \<Longrightarrow> neutral (render_subagent (telegram_ctx parse) ag)"
  unfolding render_subagent_def subagent_named_def Let_def
  by (rule neutral_join)
    (auto intro!: neutral_append neutral_pieces neutral_tool str_of_nat_nonempty simp: lit_nonempty split: option.splits)

text \<open>What the parser makes of the text of a message, as far as it is shown.\<close>

definition text_ok :: "(pystr \<Rightarrow> token list) \<Rightarrow> segment \<Rightarrow> bool" where
  "text_ok parse seg \<longleftrightarrow>
     (case seg of
        TextSegment parts \<Rightarrow> list_all block_token_ok (parse (normalize_gfm_tables (keep_tail (Some 2000) (concat parts))))
      | _ \<Rightarrow> True)"

lemma neutral_segment:
  assumes "segment_named seg" "text_ok parse seg"
  shows "neutral (render_segment (telegram_ctx parse) seg)"
proof (cases seg)
  case (TextSegment parts)
  with assms(2) show ?thesis
    by (simp add: render_segment_def text_ok_def render_markdown_to_mdv2_def render_markdown_def neutral_iff render_tokens_ok)
      (simp add: mdv2_escaped_def)
next
  case (ToolResultSegment i n c e)
  then show ?thesis
    by (auto simp: render_segment_def split: option.split intro!: neutral_append neutral_pieces)
qed (use assms in \<open>auto simp: render_segment_def intro!: neutral_append neutral_pieces neutral_tool neutral_subagent\<close>)

lemma neutral_status: "neutral s \<Longrightarrow> neutral (status_text (Some s))"
  by (auto simp: status_text_def intro!: neutral_append neutral_newline)

lemma neutral_joined:
  "(\<And>p. p \<in> set ps \<Longrightarrow> neutral p) \<Longrightarrow> neutral s \<Longrightarrow> neutral (join_parts (telegram_ctx parse) (Some s) b ps)"
  unfolding join_parts_def Let_def marker_def telegram_ctx_simps
  by (auto intro!: neutral_append neutral_join neutral_escaped neutral_status)

lemma drop_oldest_some:
  assumes "drop_oldest ctx limit status parts l = Inl out"
  obtains k where "out = join_parts ctx status True (drop k parts)"
  using assms by (induction parts arbitrary: l thesis) (auto simp: Let_def split: if_splits, metis drop0, metis drop_Suc_Cons)

lemma drop_oldest_last:
  assumes "drop_oldest ctx limit status parts l = Inr last_part"
  shows "if parts = [] then last_part = l else last_part = Some (last parts) \<and> \<not> fits ctx limit status [last parts]"
  using assms by (induction parts arbitrary: l) (auto simp: Let_def fits_def split: if_splits)

lemma neutral_rendered:
  assumes "all_named t" "list_all (text_ok parse) (tr_segments t)" "p \<in> set (rendered_parts (telegram_ctx parse) t)"
  shows "neutral p"
  using assms by (auto simp: rendered_parts_def all_named_def list_all_iff intro: neutral_segment)

text \<open>Whatever the events of a task were, the message that shows the transcript in Telegram has its reserved
  characters escaped and its code closed, as long as its newest part fits into one message, the same holds of the
  status line, and the texts are parsed to tokens without images and empty code.\<close>
theorem telegram_message_escaped:
  assumes "apply_all rp evs (transcript_init b) = Inr t"
    and "list_all (text_ok parse) (tr_segments t)" and "mdv2_escaped status"
    and "rendered_parts (handler_ctx parse False) t = []
      \<or> fits (handler_ctx parse False) (limit_chars False) (Some status) [last (rendered_parts (handler_ctx parse False) t)]"
  shows "mdv2_escaped (render_transcript (handler_ctx parse False) (limit_chars False) (Some status) t)"
proof -
  let ?ctx = "telegram_ctx parse"
  have parts: "\<And>p. p \<in> set (rendered_parts ?ctx t) \<Longrightarrow> neutral p" using assms named_transcript neutral_rendered by blast
  have status: "neutral status" using assms(3) by (simp add: neutral_iff)
  have some: "neutral out"
    if drop: "drop_oldest ?ctx (limit_chars False) (Some status) (rendered_parts ?ctx t) None = Inl out" for out
    using drop parts status by (auto elim!: drop_oldest_some intro!: neutral_joined dest: in_set_dropD)
  have none: "last_part = None"
    if drop: "drop_oldest ?ctx (limit_chars False) (Some status) (rendered_parts ?ctx t) None = Inr last_part" for last_part
    using drop_oldest_last [OF drop] assms(4) by (auto simp: handler_ctx_def split: if_splits)
  have "neutral (render_transcript ?ctx (limit_chars False) (Some status) t)"
    unfolding render_transcript_def Let_def
    using neutral_joined [OF parts status] some none status by (auto simp: last_resort_def Let_def split: sum.split)
  then show ?thesis by (simp add: neutral_iff handler_ctx_def)
qed

text \<open>A message that is one line of text.\<close>

definition token_named :: "string \<Rightarrow> pystr \<Rightarrow> token list \<Rightarrow> token" where
  "token_named name content children = Token (lit name) content [] children"

definition parse_line :: "pystr \<Rightarrow> token list" where
  "parse_line body = [token_named ''inline'' body [token_named ''text'' body []]]"

definition text_event :: "pystr \<Rightarrow> event" where
  "text_event s = [ev_type ''text_chunk'', (lit ''index'', PInt 0), (lit ''text'', PStr s)]"

definition one_text :: "pystr \<Rightarrow> transcript" where
  "one_text s = (transcript_init True)\<lparr>tr_segments := [TextSegment [s]], tr_open_text := [(0, 0)]\<rparr>"

lemma apply_one_text: "s \<noteq> [] \<Longrightarrow> apply_all rp [text_event s] (transcript_init True) = Inr (one_text s)"
  by (simp add: apply_defs text_event_def one_text_def transcript_init_def in_subagent_def py_str_def text_delta_def
      append_segment_def append_at_def append_to_segment_def append_part_def)

lemma newline_breaks: "is_line_break newline_char"
  by (simp add: is_line_break_def newline_char_def code_point_def)

lemma split_plain: "list_all (\<lambda>c. \<not> is_line_break c) s \<Longrightarrow> length (split_lines_from line s) \<le> 1"
  by (induction line s rule: split_lines_from.induct) (auto simp: newline_breaks)

lemma one_line: "list_all (\<lambda>c. \<not> is_line_break c) s \<Longrightarrow> normalize_gfm_tables s = s"
  using split_plain [of s "[]"] by (simp add: normalize_gfm_tables_def splitlines_def Let_def)

theorem telegram_message_escaped_witness:
  "mdv2_escaped (render_transcript (handler_ctx parse_line False) (limit_chars False)
     (Some (format_status [Uni 0x2705] (lit ''Complete'') None)) (one_text (lit ''a.b'')))"
proof -
  let ?ctx = "handler_ctx parse_line False"
  have parse: "parse_line (normalize_gfm_tables (lit ''a.b''))
      = [token_named ''inline'' (lit ''a.b'') [token_named ''text'' (lit ''a.b'') []]]"
    by (subst one_line) (simp_all add: parse_line_def lit_def is_line_break_def code_point_def)
  have short: "keep_tail (Some 2000) (lit ''a.b'') = lit ''a.b''" by (simp add: keep_tail_def lit_def)
  have texts: "list_all (text_ok parse_line) (tr_segments (one_text (lit ''a.b'')))"
    using parse short by (simp add: one_text_def text_ok_def block_token_ok_def inline_token_ok_def token_named_def is_type_def lit_def)
  have status: "mdv2_escaped (format_status [Uni 0x2705] (lit ''Complete'') None)"
    unfolding neutral_iff [symmetric] format_status_def by (auto intro!: neutral_append neutral_pieces simp: Let_def)
  have parts: "rendered_parts ?ctx (one_text (lit ''a.b'')) = [lit (''a'' @ [CHR 0x5C] @ ''.b'')]"
    using parse short
    by (simp add: rendered_parts_def one_text_def handler_ctx_def render_segment_def render_markdown_to_mdv2_def render_markdown_def
        render_tokens_def token_named_def is_type_def block_token_def render_inline_block_def emit_def block_init_def
        apply_blockquote_def render_simple_def mdv2_style_def escape_md_v2_def rstrip_def mdv2_chars)
  have "fits ?ctx (limit_chars False) (Some (format_status [Uni 0x2705] (lit ''Complete'') None))
      [last (rendered_parts ?ctx (one_text (lit ''a.b'')))]"
    unfolding parts
    by (simp add: fits_def join_parts_def marker_def handler_ctx_def limit_chars_def status_text_def format_status_def
        escape_md_v2_def mdv2_bold_def mdv2_chars newline_def Let_def)
  then show ?thesis
    by (intro telegram_message_escaped [OF apply_one_text texts status] disjI2) (simp_all add: lit_def)
qed

section \<open>What Telegram rejects\<close>

lemma neutral_then: "neutral p \<Longrightarrow> mdv2_escaped (p @ s) \<longleftrightarrow> mdv2_escaped s"
  by (simp add: neutral_def mdv2_escaped_def)

lemma dots_rejected: "\<not> mdv2_escaped (lit ''...'' @ s)"
  by (simp add: mdv2_escaped_def mdv2_chars)

lemma join_last_length: "ps \<noteq> [] \<Longrightarrow> length (last ps) \<le> length (join newline ps)"
  by (induction ps rule: induct_list012) (auto simp: newline_def)

lemma joined_length: "ps \<noteq> [] \<Longrightarrow> length (last ps) \<le> length (join_parts ctx status b ps)"
  using join_last_length [of ps] by (auto simp: join_parts_def Let_def)

lemma drop_oldest_none:
  "ps \<noteq> [] \<Longrightarrow> limit < int (length (last ps)) \<Longrightarrow> drop_oldest ctx limit status ps l = Inr (Some (last ps))"
proof (induction ps arbitrary: l)
  case (Cons p ps)
  have "limit < int (length (join_parts ctx status True (p # ps)))"
    using Cons.prems(2) joined_length [of "p # ps" ctx status True] by simp
  with Cons show ?case by (cases "ps = []") (auto simp: Let_def)
qed simp

text \<open>A newest part that does not fit is cut, and the message then has the three dots that mark the cut without
  the backslashes they need: Telegram accepts no such message.\<close>
theorem truncated_message_rejected:
  assumes "rendered_parts (telegram_ctx parse) t \<noteq> []"
    and "limit < int (length (last (rendered_parts (telegram_ctx parse) t)))"
    and "int (length status) + 50 \<le> limit"
  shows "\<not> mdv2_escaped (render_transcript (telegram_ctx parse) limit (Some status) t)"
proof -
  let ?ctx = "telegram_ctx parse"
  define p where "p = last (rendered_parts ?ctx t)"
  define st where "st = status_text (Some status)"
  define budget where "budget = limit - int (length (marker ?ctx)) - int (length st)"
  have marker: "length (marker ?ctx) = 21" "neutral (marker ?ctx)"
    by (simp add: marker_def escape_md_v2_def newline_def mdv2_chars) (simp add: marker_def neutral_escaped)
  have "length st \<le> length status + 2" by (simp add: st_def status_text_def newline_def)
  with marker assms(3) have budget: "20 < budget" by (simp add: budget_def)
  have p: "limit < int (length p)" "p \<noteq> []" "budget < int (length p)"
    using assms by (auto simp: p_def budget_def)
  have "drop_oldest ?ctx limit (Some status) (rendered_parts ?ctx t) None = Inr (Some p)"
    using drop_oldest_none assms by (simp add: p_def)
  moreover have "limit < int (length (join_parts ?ctx (Some status) False (rendered_parts ?ctx t)))"
    using joined_length [OF assms(1)] assms(2) by (meson less_le_trans of_nat_le_iff)
  moreover have "length (slice_tail (budget - 3) p) = nat (budget - 3)"
    using p budget by (simp add: length_slice_tail)
  ultimately have "render_transcript ?ctx limit (Some status) t
      = marker ?ctx @ (lit ''...'' @ slice_tail (budget - 3) p) @ st"
    using p budget marker(1)
    by (simp add: render_transcript_def last_resort_def Let_def st_def [symmetric] budget_def [symmetric])
      (simp add: budget_def lit_def)
  then show ?thesis using neutral_then [OF marker(2)] dots_rejected by simp
qed

text \<open>Two thousand dots, which is all that is kept of a longer text, are four thousand characters when escaped.\<close>

lemma rendered_dots:
  "rendered_parts (telegram_ctx parse_line) (one_text (replicate 2000 (Ch (CHR ''.''))))
     = [concat (replicate 2000 [backslash, Ch (CHR ''.'')])]"
proof -
  let ?s = "replicate 2000 (Ch (CHR ''.''))"
  have plain: "normalize_gfm_tables ?s = ?s"
    by (rule one_line) (simp add: list_all_iff is_line_break_def code_point_def)
  have escaped: "escape_md_v2 (replicate n (Ch (CHR ''.''))) = concat (replicate n [backslash, Ch (CHR ''.'')])" for n
    by (induction n) (simp_all add: escape_md_v2_def mdv2_chars)
  have stripped: "rstrip (concat (replicate n [backslash, Ch (CHR ''.'')])) = concat (replicate n [backslash, Ch (CHR ''.'')])" for n
  proof (cases n)
    case (Suc m)
    have "concat (replicate (Suc m) [backslash, Ch (CHR ''.'')])
        = concat (replicate m [backslash, Ch (CHR ''.'')]) @ [backslash, Ch (CHR ''.'')]" for m
      by (induction m) simp_all
    then show ?thesis using Suc by (simp add: rstrip_def del: replicate.simps)
  qed (simp add: rstrip_def)
  have nonempty: "concat (replicate 2000 [backslash, Ch (CHR ''.'')]) \<noteq> []" by simp
  have "render_markdown_to_mdv2 parse_line ?s = concat (replicate 2000 [backslash, Ch (CHR ''.'')])"
    unfolding render_markdown_to_mdv2_def render_markdown_def plain
    by (simp add: parse_line_def render_tokens_def token_named_def is_type_def block_token_def render_inline_block_def emit_def
        block_init_def apply_blockquote_def render_simple_def mdv2_style_def lit_def escaped stripped)
  then show ?thesis
    using nonempty by (simp add: rendered_parts_def one_text_def render_segment_def keep_tail_def)
qed

theorem truncated_message_rejected_witness:
  "\<not> mdv2_escaped (render_transcript (telegram_ctx parse_line) 3900 (Some (lit ''Done'')) (one_text (replicate 2000 (Ch (CHR ''.'')))))"
proof (rule truncated_message_rejected)
  have "length (concat (replicate n [backslash, Ch (CHR ''.'')])) = 2 * n" for n by (induction n) simp_all
  from this [of 2000] show "3900 < int (length (last (rendered_parts (telegram_ctx parse_line) (one_text (replicate 2000 (Ch (CHR ''.'')))))))"
    by (simp add: rendered_dots)
qed (simp_all add: rendered_dots lit_def)

text \<open>An image with a description is written with parentheses that are not escaped.\<close>

lemma image_rejected:
  assumes "is_type t ''image''" "tok_content t \<noteq> []"
  shows "\<not> mdv2_escaped (render_inline mdv2_style (t # ts))"
proof -
  have "render_inline mdv2_style (t # ts)
      = escape_md_v2 (tok_content t) @ lit '' ('' @ escape_md_v2_link_url (attr_or_empty t ''src'') @ lit '')'' @ render_inline mdv2_style ts"
    using assms by (simp add: render_simple_def render_image_def mdv2_style_def is_type_def lit_def)
  moreover have "\<not> mdv2_escaped (lit '' ('' @ s)" for s by (simp add: mdv2_escaped_def mdv2_chars)
  ultimately show ?thesis using neutral_then [OF neutral_escaped] by simp
qed

end
