(* ===== verification/AutomationSchedule.thy ===== *)
theory AutomationSchedule
  imports PyText
begin

text \<open>
  When an automation is due: \<open>_extract_daily_schedule\<close> and \<open>_is_daily_rule_due\<close> of
  \<open>api/automation/scheduler.py\<close>. A time is the number of microseconds since the first day of the calendar, which
  is a Monday, in UTC; times outside of the calendar raise \<open>OverflowError\<close>.
\<close>

section \<open>Time\<close>

definition day_us :: int where
  "day_us = 86400000000"

definition max_time :: int where
  "max_time = 3652059 * day_us"

text \<open>\<open>t + timedelta(minutes=m)\<close>.\<close>

definition add_minutes :: "int \<Rightarrow> int \<Rightarrow> int result" where
  "add_minutes t m =
     (let s = t + m * 60000000 in if 0 \<le> s \<and> s < max_time then Inr s else Inl OverflowError)"

definition date_of :: "int \<Rightarrow> int" where
  "date_of t = t div day_us"

definition weekday :: "int \<Rightarrow> int" where
  "weekday t = date_of t mod 7"

definition at_time :: "int \<Rightarrow> int \<Rightarrow> int \<Rightarrow> int" where
  "at_time t hour minute = date_of t * day_us + (hour * 60 + minute) * 60000000"

section \<open>The schedule in a configuration\<close>

record schedule =
  sc_hour :: int
  sc_minute :: int
  sc_offset :: int
  sc_weekdays :: "int list" \<comment> \<open>a set\<close>

text \<open>\<open>isinstance(x, int)\<close> with the value: a truth value is an integer, too.\<close>

definition int_instance :: "pyval \<Rightarrow> int option" where
  "int_instance v = (case v of PInt i \<Rightarrow> Some i | PBool b \<Rightarrow> Some (if b then 1 else 0) | _ \<Rightarrow> None)"

definition config_int :: "(pystr, pyval) dict \<Rightarrow> string \<Rightarrow> int option" where
  "config_int config key = Option.bind (dget config (lit key)) int_instance"

definition daily_at :: "(pystr, pyval) dict \<Rightarrow> (int \<times> int) option result" where
  "daily_at config =
     (case dget config (lit ''daily_at'') of
        Some (PStr s) \<Rightarrow>
          if Ch (CHR '':'') \<in> set s
          then (let a = takeWhile (\<lambda>c. c \<noteq> Ch (CHR '':'')) s; b = drop (length a + 1) s
                in if isdigit a \<and> isdigit b
                   then (case (py_int a, py_int b) of
                           (Some h, Some m) \<Rightarrow> Inr (Some (h, m))
                         | _ \<Rightarrow> Inl (ValueError []))
                   else Inr None)
          else Inr None
      | _ \<Rightarrow> Inr None)"

definition schedule_hour :: "(pystr, pyval) dict \<Rightarrow> (int \<times> int) option \<Rightarrow> int option" where
  "schedule_hour config daily = (case daily of Some (h, _) \<Rightarrow> Some h | None \<Rightarrow> config_int config ''hour'')"

definition schedule_minute :: "(pystr, pyval) dict \<Rightarrow> (int \<times> int) option \<Rightarrow> int" where
  "schedule_minute config daily =
     (case config_int config ''minute'' of
        Some m \<Rightarrow> m
      | None \<Rightarrow> (case daily of Some (_, m) \<Rightarrow> m | None \<Rightarrow> 0))"

definition schedule_weekdays :: "(pystr, pyval) dict \<Rightarrow> int list" where
  "schedule_weekdays config =
     (case dget config (lit ''weekdays'') of
        Some (PList vs) \<Rightarrow> filter (\<lambda>d. 0 \<le> d \<and> d \<le> 6) (List.map_filter int_instance vs)
      | _ \<Rightarrow> [])"

definition extract_daily_schedule :: "(pystr, pyval) dict \<Rightarrow> schedule option result" where
  "extract_daily_schedule config = rbind (daily_at config) (\<lambda>daily.
     (let minute = schedule_minute config daily;
          offset = (case config_int config ''timezone_offset_minutes'' of Some i \<Rightarrow> i | None \<Rightarrow> 0)
      in case schedule_hour config daily of
           None \<Rightarrow> Inr None
         | Some h \<Rightarrow>
             if 0 \<le> h \<and> h \<le> 23 \<and> 0 \<le> minute \<and> minute \<le> 59
             then Inr (Some \<lparr>sc_hour = h, sc_minute = minute, sc_offset = offset, sc_weekdays = schedule_weekdays config\<rparr>)
             else Inr None))"

section \<open>Due rules\<close>

definition is_daily_rule_due :: "(pystr, pyval) dict \<Rightarrow> int option \<Rightarrow> int \<Rightarrow> bool result" where
  "is_daily_rule_due config last_run now = rbind (extract_daily_schedule config) (\<lambda>sc.
     case sc of
       None \<Rightarrow> Inr False
     | Some s \<Rightarrow> rbind (add_minutes now (sc_offset s)) (\<lambda>local_now.
         if sc_weekdays s \<noteq> [] \<and> weekday local_now \<notin> set (sc_weekdays s) then Inr False
         else if local_now < at_time local_now (sc_hour s) (sc_minute s) then Inr False
         else (case last_run of
                 None \<Rightarrow> Inr True
               | Some l \<Rightarrow> rbind (add_minutes l (sc_offset s)) (\<lambda>local_last. Inr (date_of local_last < date_of local_now)))))"

section \<open>Facts\<close>

lemma schedule_range:
  assumes "extract_daily_schedule config = Inr (Some s)"
  shows "sc_hour s \<in> {0..23}" "sc_minute s \<in> {0..59}" "set (sc_weekdays s) \<subseteq> {0..6}"
proof -
  have "set (schedule_weekdays config) \<subseteq> {0..6}" by (auto simp: schedule_weekdays_def split: option.split pyval.split)
  moreover from assms obtain d where d: "daily_at config = Inr d"
    by (cases "daily_at config") (simp_all add: extract_daily_schedule_def)
  moreover from assms d obtain h where "schedule_hour config d = Some h"
    by (cases "schedule_hour config d") (simp_all add: extract_daily_schedule_def Let_def)
  ultimately show "sc_hour s \<in> {0..23}" "sc_minute s \<in> {0..59}" "set (sc_weekdays s) \<subseteq> {0..6}"
    using assms by (auto simp: extract_daily_schedule_def Let_def split: if_splits)
qed

definition local_date :: "int \<Rightarrow> int \<Rightarrow> int" where
  "local_date offset t = date_of (t + offset * 60000000)"

lemma day_us_pos: "0 < day_us"
  by (simp add: day_us_def)

lemma local_date_mono: "t \<le> t' \<Longrightarrow> local_date offset t \<le> local_date offset t'"
  unfolding local_date_def date_of_def by (rule zdiv_mono1) (auto simp: day_us_pos)

lemma at_time_le: "at_time t h m \<le> t \<longleftrightarrow> (h * 60 + m) * 60000000 \<le> t mod day_us"
proof -
  have "t = date_of t * day_us + t mod day_us" by (simp add: date_of_def)
  then show ?thesis unfolding at_time_def by linarith
qed

text \<open>A rule that is due never ran on the local date, its time of day has come, and its weekday is right.\<close>

lemma due_iff:
  assumes "extract_daily_schedule config = Inr (Some s)"
    and "add_minutes now (sc_offset s) = Inr local_now"
    and "\<And>l. last_run = Some l \<Longrightarrow> \<exists>l'. add_minutes l (sc_offset s) = Inr l'"
  shows "is_daily_rule_due config last_run now = Inr True \<longleftrightarrow>
     (sc_weekdays s = [] \<or> weekday local_now \<in> set (sc_weekdays s))
     \<and> (sc_hour s * 60 + sc_minute s) * 60000000 \<le> local_now mod day_us
     \<and> (case last_run of None \<Rightarrow> True | Some l \<Rightarrow> local_date (sc_offset s) l < local_date (sc_offset s) now)"
proof -
  have add: "t' = t + m * 60000000" if "add_minutes t m = Inr t'" for t m t'
    using that by (auto simp: add_minutes_def Let_def split: if_splits)
  have time: "local_now < at_time local_now (sc_hour s) (sc_minute s)
      \<longleftrightarrow> \<not> (sc_hour s * 60 + sc_minute s) * 60000000 \<le> local_now mod day_us"
    using at_time_le [of local_now "sc_hour s" "sc_minute s"] by linarith
  show ?thesis
  proof (cases last_run)
    case None
    with assms(1,2) show ?thesis by (simp add: is_daily_rule_due_def time)
  next
    case (Some l)
    with assms(3) obtain l' where l: "add_minutes l (sc_offset s) = Inr l'" by blast
    have "local_date (sc_offset s) l = date_of l'" "local_date (sc_offset s) now = date_of local_now"
      using add [OF l] add [OF assms(2)] by (simp_all add: local_date_def)
    with assms(1,2) Some l show ?thesis by (simp add: is_daily_rule_due_def time)
  qed
qed

lemma due_dates:
  assumes "is_daily_rule_due config (Some l) now = Inr True"
  shows "\<exists>s. extract_daily_schedule config = Inr (Some s) \<and> local_date (sc_offset s) l < local_date (sc_offset s) now"
proof -
  from assms obtain sc where sc: "extract_daily_schedule config = Inr sc" by (auto simp: is_daily_rule_due_def rbind_Inr_iff)
  with assms obtain s where s: "sc = Some s" by (cases sc) (auto simp: is_daily_rule_due_def)
  have add: "t' = t + m * 60000000" if "add_minutes t m = Inr t'" for t m t'
    using that by (auto simp: add_minutes_def Let_def split: if_splits)
  from assms sc s obtain now' where now: "add_minutes now (sc_offset s) = Inr now'"
    by (cases "add_minutes now (sc_offset s)") (simp_all add: is_daily_rule_due_def)
  with assms sc s obtain l' where l: "add_minutes l (sc_offset s) = Inr l'"
    by (cases "add_minutes l (sc_offset s)") (simp_all add: is_daily_rule_due_def split: if_splits)
  from assms sc s now l have "local_date (sc_offset s) l < local_date (sc_offset s) now"
    using add [OF now] add [OF l] by (simp add: is_daily_rule_due_def local_date_def split: if_splits)
  with sc s show ?thesis by blast
qed

text \<open>A digit that is no decimal digit passes the test of \<open>isdigit\<close>, and its conversion raises.\<close>

lemma superscript_raises:
  "is_daily_rule_due [(lit ''daily_at'', PStr (Ch (CHR 0xB2) # lit '':00''))] last_run now = Inl (ValueError [])"
proof -
  have "daily_at [(lit ''daily_at'', PStr (Ch (CHR 0xB2) # lit '':00''))] = Inl (ValueError [])"
    by (simp add: daily_at_def int_eval)
  then show ?thesis by (simp add: is_daily_rule_due_def extract_daily_schedule_def)
qed

end
