(* ===== verification/AccessControl.thy ===== *)
theory AccessControl
  imports Http PyText
begin

text \<open>
  \<open>api/rbac.py\<close>: the middleware that checks the role and the workspace of a request. The decoding of a body is
  a parameter, \<open>None\<close> where \<open>json.loads(body.decode("utf-8"))\<close> raises. A request that is passed on is the request
  itself, its body included.
\<close>

section \<open>Policies\<close>

definition READ_ROLES :: "pystr list" where
  "READ_ROLES = map lit [''viewer'', ''member'', ''admin'', ''owner'']"

definition WRITE_ROLES :: "pystr list" where
  "WRITE_ROLES = map lit [''member'', ''admin'', ''owner'']"

definition ADMIN_ROLES :: "pystr list" where
  "ADMIN_ROLES = map lit [''admin'', ''owner'']"

text \<open>\<open>_WORKSPACE_PATH_RE\<close>: the digits; the end of the pattern also matches before a final newline.\<close>

definition workspace_digits :: "pystr \<Rightarrow> pystr option" where
  "workspace_digits path =
     (let base = lit ''/api/v1/workspaces/''
      in if \<not> startswith path base then None
         else
           (let d = drop (length base) path;
                ds = (if d \<noteq> [] \<and> last d = newline_char then butlast d else d)
            in if ds \<noteq> [] \<and> list_all (\<lambda>c. decimal_value c \<noteq> None) ds then Some ds else None))"

definition resolve_policy :: "pystr \<Rightarrow> pystr \<Rightarrow> pystr list option \<times> bool" where
  "resolve_policy path verb =
     (let normalized = upper verb;
          is_verb = (\<lambda>s. normalized = lit s);
          writes = (is_verb ''POST'' \<or> is_verb ''PATCH'' \<or> is_verb ''DELETE'')
      in if (startswith path (lit ''/api/v1/tasks'') \<or> startswith path (lit ''/api/v1/automations'')) \<and> is_verb ''GET''
         then (Some READ_ROLES, True)
         else if (startswith path (lit ''/api/v1/tasks'') \<or> startswith path (lit ''/api/v1/automations'')) \<and> writes
         then (Some WRITE_ROLES, True)
         else if startswith path (lit ''/api/v1/users'') \<and> is_verb ''GET'' then (Some READ_ROLES, False)
         else if startswith path (lit ''/api/v1/users'') \<and> writes then (Some ADMIN_ROLES, False)
         else if path = lit ''/api/v1/workspaces'' \<and> is_verb ''GET'' then (Some READ_ROLES, False)
         else if path = lit ''/api/v1/workspaces'' \<and> is_verb ''POST'' then (Some ADMIN_ROLES, False)
         else if workspace_digits path \<noteq> None \<and> is_verb ''DELETE'' then (Some ADMIN_ROLES, True)
         else (None, False))"

section \<open>The checks\<close>

text \<open>An answer of the middleware: the \<open>HTTPException\<close> is turned into a response, another exception is not.\<close>

datatype refusal =
    Denied nat string
  | Failed py_error

definition parse_role :: "http_request \<Rightarrow> pystr list \<Rightarrow> refusal option" where
  "parse_role req allowed_roles =
     (let role = lower (strip (case header req ''x-user-role'' of None \<Rightarrow> [] | Some s \<Rightarrow> s))
      in if role = [] then Some (Denied 401 ''missing x-user-role header'')
         else if role \<notin> set allowed_roles then Some (Denied 403 ''insufficient role'') else None)"

definition parse_workspace_scope :: "http_request \<Rightarrow> int option \<Rightarrow> refusal option" where
  "parse_workspace_scope req requested =
     (case requested of
        None \<Rightarrow> None
      | Some workspace_id \<Rightarrow>
          (let scope_header = strip (case header req ''x-workspace-id'' of None \<Rightarrow> [] | Some s \<Rightarrow> s)
           in if scope_header = [] then Some (Denied 401 ''missing x-workspace-id header'')
              else (case py_int scope_header of
                      None \<Rightarrow> Some (Denied 422 ''invalid x-workspace-id header'')
                    | Some scoped \<Rightarrow>
                        if scoped \<noteq> workspace_id then Some (Denied 403 ''workspace scope mismatch'') else None)))"

text \<open>Only an object counts as a payload.\<close>

definition json_payload :: "(char list \<Rightarrow> pyval option) \<Rightarrow> http_request \<Rightarrow> (pystr, pyval) dict option" where
  "json_payload loads req =
     (if req_body req = [] then None
      else case loads (req_body req) of Some (PDict d) \<Rightarrow> Some d | _ \<Rightarrow> None)"

definition workspace_from_payload :: "(pystr, pyval) dict option \<Rightarrow> int option result" where
  "workspace_from_payload payload =
     (case payload of
        None \<Rightarrow> Inr None
      | Some d \<Rightarrow>
          (if d = [] then Inr None
           else case dget d (lit ''workspace_id'') of
                  None \<Rightarrow> Inr None
                | Some PNone \<Rightarrow> Inr None
                | Some v \<Rightarrow> rbind (py_int_of v) (\<lambda>i. Inr (Some i))))"

definition workspace_from_path :: "pystr \<Rightarrow> int option result" where
  "workspace_from_path path =
     (case workspace_digits path of
        None \<Rightarrow> Inr None
      | Some ds \<Rightarrow> (case py_int ds of Some i \<Rightarrow> Inr (Some i) | None \<Rightarrow> Inl (ValueError [])))"

text \<open>The workspace asked for: the payload comes first, then the query, then the path.\<close>

definition requested_workspace :: "(char list \<Rightarrow> pyval option) \<Rightarrow> http_request \<Rightarrow> refusal + int option" where
  "requested_workspace loads req =
     (case workspace_from_payload (json_payload loads req) of
        Inl e \<Rightarrow> Inl (Failed e)
      | Inr w \<Rightarrow>
          if w \<noteq> None \<and> w \<noteq> Some 0 then Inr w
          else
            (case query req ''workspace_id'' of
               Some (c # s) \<Rightarrow>
                 (case py_int (c # s) of Some i \<Rightarrow> Inr (Some i) | None \<Rightarrow> Inl (Denied 422 ''invalid workspace_id''))
             | _ \<Rightarrow>
                 (case workspace_from_path (req_path req) of Inl e \<Rightarrow> Inl (Failed e) | Inr w' \<Rightarrow> Inr w')))"

text \<open>\<open>enforce_rbac\<close>: \<open>None\<close> when the request is passed on.\<close>

definition enforce_rbac :: "bool \<Rightarrow> (char list \<Rightarrow> pyval option) \<Rightarrow> http_request \<Rightarrow> refusal option" where
  "enforce_rbac enabled loads req =
     (if \<not> enabled then None
      else
        (case resolve_policy (req_path req) (req_method req) of
           (None, _) \<Rightarrow> None
         | (Some allowed_roles, requires_workspace_scope) \<Rightarrow>
             (case parse_role req allowed_roles of
                Some r \<Rightarrow> Some r
              | None \<Rightarrow>
                  if \<not> requires_workspace_scope then None
                  else (case requested_workspace loads req of
                          Inl r \<Rightarrow> Some r
                        | Inr w \<Rightarrow> parse_workspace_scope req w))))"

end
