(* ===== verification/WorkspaceApi.thy ===== *)
theory WorkspaceApi
  imports AccessControl
begin

text \<open>
  The task and automation endpoints (\<open>api/v1/routers/tasks.py\<close>, \<open>api/v1/routers/automations.py\<close>) behind the access
  control. The tables hold the rows in the order of their insertion; the SQL statements are written out as
  functions on them. Parameters: how the web framework decodes a body and converts integers and truth values,
  the pattern match \<open>ILIKE\<close>, and whether the database driver takes a plain dictionary as an argument.
\<close>

section \<open>Tables\<close>

record task_row =
  tk_id :: int
  tk_workspace :: int
  tk_title :: pystr
  tk_description :: "pystr option"
  tk_status :: pystr
  tk_priority :: pystr

record automation_row =
  au_id :: int
  au_workspace :: int
  au_name :: pystr
  au_trigger :: pystr
  au_action :: pystr
  au_config :: "(pystr, pyval) dict"
  au_enabled :: bool

record database =
  db_workspaces :: "int list"
  db_tasks :: "task_row list"
  db_automations :: "automation_row list"
  db_next_task :: int
  db_next_automation :: int
  db_events :: "(int \<times> string) list" \<comment> \<open>what is published, with its workspace\<close>

record framework =
  fw_json :: "char list \<Rightarrow> pyval option"
  fw_int :: "pyval \<Rightarrow> int option"
  fw_bool :: "pyval \<Rightarrow> bool option"
  fw_ilike :: "pystr \<Rightarrow> pystr \<Rightarrow> bool"
  fw_adapts_dict :: bool

text \<open>\<open>HttpFail\<close> is an \<open>HTTPException\<close> or a request that is not valid, \<open>ServerError\<close> an exception of the database.\<close>

datatype reply =
    Tasks "task_row list"
  | Automations "automation_row list"
  | Removed int
  | HttpFail nat
  | ServerError
  | Refused refusal

definition publish :: "int \<Rightarrow> string \<Rightarrow> database \<Rightarrow> database" where
  "publish workspace_id event_type db = db\<lparr>db_events := db_events db @ [(workspace_id, event_type)]\<rparr>"

text \<open>\<open>ORDER BY id DESC LIMIT limit OFFSET offset\<close>, with the bounds the handlers set.\<close>

definition page :: "('r \<Rightarrow> int) \<Rightarrow> int \<Rightarrow> int \<Rightarrow> 'r list \<Rightarrow> 'r list" where
  "page row_id limit offset rows =
     take (nat (max 1 (min limit 200))) (drop (nat (max 0 offset)) (rev (sort_key row_id rows)))"

section \<open>Tasks\<close>

definition ALLOWED_STATUSES :: "pystr list" where
  "ALLOWED_STATUSES = map lit [''todo'', ''in_progress'', ''done'', ''blocked'']"

definition ALLOWED_PRIORITIES :: "pystr list" where
  "ALLOWED_PRIORITIES = map lit [''low'', ''normal'', ''high'', ''urgent'']"

definition valid_status_priority :: "pystr option \<Rightarrow> pystr option \<Rightarrow> bool" where
  "valid_status_priority status priority \<longleftrightarrow>
     (case status of None \<Rightarrow> True | Some s \<Rightarrow> s \<in> set ALLOWED_STATUSES)
     \<and> (case priority of None \<Rightarrow> True | Some p \<Rightarrow> p \<in> set ALLOWED_PRIORITIES)"

definition search_matches :: "framework \<Rightarrow> pystr \<Rightarrow> task_row \<Rightarrow> bool" where
  "search_matches fw needle r \<longleftrightarrow>
     (let pattern = lit ''%'' @ strip needle @ lit ''%''
      in fw_ilike fw pattern (tk_title r)
         \<or> fw_ilike fw pattern (case tk_description r of None \<Rightarrow> [] | Some d \<Rightarrow> d))"

definition list_tasks ::
    "framework \<Rightarrow> int \<Rightarrow> pystr option \<Rightarrow> pystr option \<Rightarrow> int \<Rightarrow> int \<Rightarrow> database \<Rightarrow> database \<times> reply" where
  "list_tasks fw workspace_id status needle limit offset db =
     (if \<not> valid_status_priority status None then (db, HttpFail 422)
      else (db, Tasks (page tk_id limit offset
             (filter (\<lambda>r. tk_workspace r = workspace_id
                \<and> (case status of Some (c # s) \<Rightarrow> tk_status r = c # s | _ \<Rightarrow> True)
                \<and> (case needle of Some q \<Rightarrow> strip q = [] \<or> search_matches fw q r | None \<Rightarrow> True)) (db_tasks db)))))"

definition create_task :: "int \<Rightarrow> pystr \<Rightarrow> pystr option \<Rightarrow> database \<Rightarrow> database \<times> reply" where
  "create_task workspace_id title description db =
     (if workspace_id \<notin> set (db_workspaces db) then (db, HttpFail 404)
      else
        (let row = \<lparr>tk_id = db_next_task db, tk_workspace = workspace_id, tk_title = title, tk_description = description,
               tk_status = lit ''todo'', tk_priority = lit ''normal''\<rparr>
         in (publish workspace_id ''task.created''
               (db\<lparr>db_tasks := db_tasks db @ [row], db_next_task := db_next_task db + 1\<rparr>), Tasks [row])))"

record task_update =
  up_workspace :: int
  up_title :: "pystr option"
  up_description :: "pystr option"
  up_status :: "pystr option"
  up_priority :: "pystr option"

definition apply_task_update :: "task_update \<Rightarrow> task_row \<Rightarrow> task_row" where
  "apply_task_update u r = r\<lparr>
     tk_title := (case up_title u of None \<Rightarrow> tk_title r | Some s \<Rightarrow> strip s),
     tk_description := (case up_description u of None \<Rightarrow> tk_description r | Some s \<Rightarrow> Some s),
     tk_status := (case up_status u of None \<Rightarrow> tk_status r | Some s \<Rightarrow> s),
     tk_priority := (case up_priority u of None \<Rightarrow> tk_priority r | Some s \<Rightarrow> s)\<rparr>"

definition update_task :: "int \<Rightarrow> task_update \<Rightarrow> database \<Rightarrow> database \<times> reply" where
  "update_task task_id u db =
     (let here = (\<lambda>r. tk_id r = task_id \<and> tk_workspace r = up_workspace u)
      in if \<not> valid_status_priority (up_status u) (up_priority u) then (db, HttpFail 422)
         else if up_title u = None \<and> up_description u = None \<and> up_status u = None \<and> up_priority u = None
         then (db, HttpFail 400)
         else (case filter here (db_tasks db) of
                 [] \<Rightarrow> (db, HttpFail 404)
               | r # _ \<Rightarrow>
                   (publish (tk_workspace r) ''task.updated''
                      (db\<lparr>db_tasks := map (\<lambda>r. if here r then apply_task_update u r else r) (db_tasks db)\<rparr>),
                    Tasks [apply_task_update u r])))"

definition delete_task :: "int \<Rightarrow> int \<Rightarrow> database \<Rightarrow> database \<times> reply" where
  "delete_task task_id workspace_id db =
     (let here = (\<lambda>r. tk_id r = task_id \<and> tk_workspace r = workspace_id);
          deleted = int (length (filter here (db_tasks db)))
      in if deleted = 0 then (db, HttpFail 404)
         else (publish workspace_id ''task.deleted'' (db\<lparr>db_tasks := filter (\<lambda>r. \<not> here r) (db_tasks db)\<rparr>), Removed deleted))"

section \<open>Automations\<close>

definition list_automations :: "int \<Rightarrow> bool option \<Rightarrow> int \<Rightarrow> int \<Rightarrow> database \<Rightarrow> database \<times> reply" where
  "list_automations workspace_id enabled limit offset db =
     (db, Automations (page au_id limit offset
        (filter (\<lambda>r. au_workspace r = workspace_id
           \<and> (case enabled of None \<Rightarrow> True | Some b \<Rightarrow> au_enabled r = b)) (db_automations db))))"

record automation_create =
  ac_workspace :: int
  ac_name :: pystr
  ac_trigger :: pystr
  ac_action :: pystr
  ac_config :: "(pystr, pyval) dict"
  ac_enabled :: bool

text \<open>The name of an automation is unique in its workspace.\<close>

definition name_taken :: "int \<Rightarrow> pystr \<Rightarrow> automation_row list \<Rightarrow> bool" where
  "name_taken workspace_id name rows \<longleftrightarrow> list_ex (\<lambda>r. au_workspace r = workspace_id \<and> au_name r = name) rows"

definition create_automation :: "framework \<Rightarrow> automation_create \<Rightarrow> database \<Rightarrow> database \<times> reply" where
  "create_automation fw b db =
     (if ac_workspace b \<notin> set (db_workspaces db) then (db, HttpFail 404)
      else if \<not> fw_adapts_dict fw \<or> name_taken (ac_workspace b) (strip (ac_name b)) (db_automations db)
      then (db, ServerError)
      else
        (let row = \<lparr>au_id = db_next_automation db, au_workspace = ac_workspace b, au_name = strip (ac_name b),
               au_trigger = strip (ac_trigger b), au_action = strip (ac_action b), au_config = ac_config b,
               au_enabled = ac_enabled b\<rparr>
         in (publish (ac_workspace b) ''automation.created''
               (db\<lparr>db_automations := db_automations db @ [row], db_next_automation := db_next_automation db + 1\<rparr>),
             Automations [row])))"

record automation_update =
  ua_workspace :: int
  ua_name :: "pystr option"
  ua_trigger :: "pystr option"
  ua_action :: "pystr option"
  ua_config :: "(pystr, pyval) dict option"
  ua_enabled :: "bool option"

definition apply_automation_update :: "automation_update \<Rightarrow> automation_row \<Rightarrow> automation_row" where
  "apply_automation_update u r = r\<lparr>
     au_name := (case ua_name u of None \<Rightarrow> au_name r | Some s \<Rightarrow> strip s),
     au_trigger := (case ua_trigger u of None \<Rightarrow> au_trigger r | Some s \<Rightarrow> strip s),
     au_action := (case ua_action u of None \<Rightarrow> au_action r | Some s \<Rightarrow> strip s),
     au_config := (case ua_config u of None \<Rightarrow> au_config r | Some d \<Rightarrow> d),
     au_enabled := (case ua_enabled u of None \<Rightarrow> au_enabled r | Some b \<Rightarrow> b)\<rparr>"

definition update_automation :: "framework \<Rightarrow> int \<Rightarrow> automation_update \<Rightarrow> database \<Rightarrow> database \<times> reply" where
  "update_automation fw automation_id u db =
     (let here = (\<lambda>r. au_id r = automation_id \<and> au_workspace r = ua_workspace u)
      in if ua_name u = None \<and> ua_trigger u = None \<and> ua_action u = None \<and> ua_config u = None \<and> ua_enabled u = None
         then (db, HttpFail 400)
         else if ua_config u \<noteq> None \<and> \<not> fw_adapts_dict fw then (db, ServerError)
         else (case filter here (db_automations db) of
                 [] \<Rightarrow> (db, HttpFail 404)
               | r # _ \<Rightarrow>
                   (let new = apply_automation_update u r
                    in if name_taken (ua_workspace u) (au_name new) (filter (\<lambda>r. \<not> here r) (db_automations db))
                       then (db, ServerError)
                       else (publish (au_workspace r) ''automation.updated''
                               (db\<lparr>db_automations := map (\<lambda>r. if here r then apply_automation_update u r else r)
                                  (db_automations db)\<rparr>),
                             Automations [new]))))"

definition delete_automation :: "int \<Rightarrow> int \<Rightarrow> database \<Rightarrow> database \<times> reply" where
  "delete_automation automation_id workspace_id db =
     (let here = (\<lambda>r. au_id r = automation_id \<and> au_workspace r = workspace_id);
          deleted = int (length (filter here (db_automations db)))
      in if deleted = 0 then (db, HttpFail 404)
         else (publish workspace_id ''automation.deleted''
                 (db\<lparr>db_automations := filter (\<lambda>r. \<not> here r) (db_automations db)\<rparr>), Removed deleted))"

section \<open>Requests\<close>

text \<open>A path is that of the collection or of one item.\<close>

definition route :: "pystr \<Rightarrow> pystr \<Rightarrow> pystr option option" where
  "route base path =
     (if path = base then Some None
      else if startswith path (base @ lit ''/'')
      then (let seg = drop (length base + 1) path
            in if seg \<noteq> [] \<and> Ch (CHR ''/'') \<notin> set seg then Some (Some seg) else None)
      else None)"

text \<open>An optional parameter of the query: \<open>None\<close> when it is not valid.\<close>

definition query_opt :: "(pystr \<Rightarrow> 'v option) \<Rightarrow> http_request \<Rightarrow> string \<Rightarrow> 'v option option" where
  "query_opt conv req name = (case query req name of None \<Rightarrow> Some None | Some s \<Rightarrow> map_option Some (conv s))"

definition query_int :: "framework \<Rightarrow> http_request \<Rightarrow> string \<Rightarrow> int \<Rightarrow> int option" where
  "query_int fw req name otherwise =
     (case query req name of None \<Rightarrow> Some otherwise | Some s \<Rightarrow> fw_int fw (PStr s))"

definition query_workspace :: "framework \<Rightarrow> http_request \<Rightarrow> int option" where
  "query_workspace fw req = Option.bind (query req ''workspace_id'') (\<lambda>s. fw_int fw (PStr s))"

definition body_dict :: "framework \<Rightarrow> http_request \<Rightarrow> (pystr, pyval) dict option" where
  "body_dict fw req =
     (if req_body req = [] then None
      else case fw_json fw (req_body req) of Some (PDict d) \<Rightarrow> Some d | _ \<Rightarrow> None)"

text \<open>Fields of a body, with the constraints of \<open>api/v1/schemas.py\<close>.\<close>

definition body_workspace :: "framework \<Rightarrow> (pystr, pyval) dict \<Rightarrow> int option" where
  "body_workspace fw d =
     Option.bind (dget d (lit ''workspace_id'')) (\<lambda>v. Option.bind (fw_int fw v) (\<lambda>n. if 1 \<le> n then Some n else None))"

definition required_str :: "(pystr, pyval) dict \<Rightarrow> string \<Rightarrow> nat \<Rightarrow> pystr option" where
  "required_str d key most =
     (case dget d (lit key) of
        Some (PStr s) \<Rightarrow> if 1 \<le> length s \<and> length s \<le> most then Some s else None
      | _ \<Rightarrow> None)"

definition optional_str :: "(pystr, pyval) dict \<Rightarrow> string \<Rightarrow> nat \<Rightarrow> nat option \<Rightarrow> pystr option option" where
  "optional_str d key least most =
     (case dget d (lit key) of
        None \<Rightarrow> Some None
      | Some PNone \<Rightarrow> Some None
      | Some (PStr s) \<Rightarrow>
          if least \<le> length s \<and> (case most of None \<Rightarrow> True | Some m \<Rightarrow> length s \<le> m) then Some (Some s) else None
      | _ \<Rightarrow> None)"

definition task_update_of :: "framework \<Rightarrow> (pystr, pyval) dict \<Rightarrow> task_update option" where
  "task_update_of fw d =
     Option.bind (body_workspace fw d) (\<lambda>w. Option.bind (optional_str d ''title'' 1 (Some 300)) (\<lambda>t.
     Option.bind (optional_str d ''description'' 0 None) (\<lambda>e. Option.bind (optional_str d ''status'' 0 None) (\<lambda>s.
     Option.bind (optional_str d ''priority'' 0 None) (\<lambda>p.
       Some \<lparr>up_workspace = w, up_title = t, up_description = e, up_status = s, up_priority = p\<rparr>)))))"

definition optional_dict :: "(pystr, pyval) dict \<Rightarrow> string \<Rightarrow> (pystr, pyval) dict option option" where
  "optional_dict d key =
     (case dget d (lit key) of
        None \<Rightarrow> Some None
      | Some PNone \<Rightarrow> Some None
      | Some (PDict c) \<Rightarrow> Some (Some c)
      | _ \<Rightarrow> None)"

definition optional_bool :: "framework \<Rightarrow> (pystr, pyval) dict \<Rightarrow> string \<Rightarrow> bool option option" where
  "optional_bool fw d key =
     (case dget d (lit key) of None \<Rightarrow> Some None | Some PNone \<Rightarrow> Some None | Some v \<Rightarrow> map_option Some (fw_bool fw v))"

text \<open>The two fields with a default do not take \<open>null\<close>.\<close>

definition automation_create_of :: "framework \<Rightarrow> (pystr, pyval) dict \<Rightarrow> automation_create option" where
  "automation_create_of fw d =
     (if dget d (lit ''config'') = Some PNone \<or> dget d (lit ''enabled'') = Some PNone then None
      else
        Option.bind (body_workspace fw d) (\<lambda>w. Option.bind (required_str d ''name'' 200) (\<lambda>n.
        Option.bind (required_str d ''trigger_type'' 100) (\<lambda>t. Option.bind (required_str d ''action_type'' 100) (\<lambda>a.
        Option.bind (optional_dict d ''config'') (\<lambda>c. Option.bind (optional_bool fw d ''enabled'') (\<lambda>e.
          Some \<lparr>ac_workspace = w, ac_name = n, ac_trigger = t, ac_action = a,
            ac_config = (case c of None \<Rightarrow> [] | Some x \<Rightarrow> x), ac_enabled = (case e of None \<Rightarrow> True | Some b \<Rightarrow> b)\<rparr>)))))))"

definition automation_update_of :: "framework \<Rightarrow> (pystr, pyval) dict \<Rightarrow> automation_update option" where
  "automation_update_of fw d =
     Option.bind (body_workspace fw d) (\<lambda>w. Option.bind (optional_str d ''name'' 1 (Some 200)) (\<lambda>n.
     Option.bind (optional_str d ''trigger_type'' 1 (Some 100)) (\<lambda>t. Option.bind (optional_str d ''action_type'' 1 (Some 100)) (\<lambda>a.
     Option.bind (optional_dict d ''config'') (\<lambda>c. Option.bind (optional_bool fw d ''enabled'') (\<lambda>e.
       Some \<lparr>ua_workspace = w, ua_name = n, ua_trigger = t, ua_action = a, ua_config = c, ua_enabled = e\<rparr>))))))"

text \<open>A handler runs when all its parameters are valid.\<close>

definition handled :: "(database \<Rightarrow> database \<times> reply) option \<Rightarrow> database \<Rightarrow> database \<times> reply" where
  "handled h db = (case h of None \<Rightarrow> (db, HttpFail 422) | Some f \<Rightarrow> f db)"

definition task_handler :: "framework \<Rightarrow> http_request \<Rightarrow> pystr option \<Rightarrow> database \<Rightarrow> database \<times> reply" where
  "task_handler fw req item db =
     (case item of
        None \<Rightarrow>
          if req_method req = lit ''GET''
          then handled (Option.bind (query_workspace fw req) (\<lambda>w. Option.bind (query_int fw req ''limit'' 50) (\<lambda>l.
                 Option.bind (query_int fw req ''offset'' 0) (\<lambda>k.
                   Some (list_tasks fw w (query req ''status'') (query req ''q'') l k))))) db
          else if req_method req = lit ''POST''
          then handled (Option.bind (body_dict fw req) (\<lambda>d. Option.bind (body_workspace fw d) (\<lambda>w.
                 Option.bind (required_str d ''title'' 300) (\<lambda>t. Option.bind (optional_str d ''description'' 0 None) (\<lambda>e.
                   Some (create_task w t e)))))) db
          else (db, HttpFail 405)
      | Some seg \<Rightarrow>
          if req_method req = lit ''PATCH''
          then handled (Option.bind (fw_int fw (PStr seg)) (\<lambda>i. Option.bind (body_dict fw req) (\<lambda>d.
                 Option.bind (task_update_of fw d) (\<lambda>u. Some (update_task i u))))) db
          else if req_method req = lit ''DELETE''
          then handled (Option.bind (fw_int fw (PStr seg)) (\<lambda>i. Option.bind (query_workspace fw req) (\<lambda>w.
                 Some (delete_task i w)))) db
          else (db, HttpFail 405))"

definition automation_handler :: "framework \<Rightarrow> http_request \<Rightarrow> pystr option \<Rightarrow> database \<Rightarrow> database \<times> reply" where
  "automation_handler fw req item db =
     (case item of
        None \<Rightarrow>
          if req_method req = lit ''GET''
          then handled (Option.bind (query_workspace fw req) (\<lambda>w. Option.bind (query_int fw req ''limit'' 50) (\<lambda>l.
                 Option.bind (query_int fw req ''offset'' 0) (\<lambda>k.
                 Option.bind (query_opt (\<lambda>s. fw_bool fw (PStr s)) req ''enabled'') (\<lambda>e.
                   Some (list_automations w e l k)))))) db
          else if req_method req = lit ''POST''
          then handled (Option.bind (body_dict fw req) (\<lambda>d. map_option (create_automation fw) (automation_create_of fw d))) db
          else (db, HttpFail 405)
      | Some seg \<Rightarrow>
          if req_method req = lit ''PATCH''
          then handled (Option.bind (fw_int fw (PStr seg)) (\<lambda>i. Option.bind (body_dict fw req) (\<lambda>d.
                 map_option (update_automation fw i) (automation_update_of fw d)))) db
          else if req_method req = lit ''DELETE''
          then handled (Option.bind (fw_int fw (PStr seg)) (\<lambda>i. Option.bind (query_workspace fw req) (\<lambda>w.
                 Some (delete_automation i w)))) db
          else (db, HttpFail 405))"

definition api_request ::
    "framework \<Rightarrow> bool \<Rightarrow> (char list \<Rightarrow> pyval option) \<Rightarrow> http_request \<Rightarrow> database \<Rightarrow> database \<times> reply" where
  "api_request fw enforced loads req db =
     (case enforce_rbac enforced loads req of
        Some r \<Rightarrow> (db, Refused r)
      | None \<Rightarrow>
          (case route (lit ''/api/v1/tasks'') (req_path req) of
             Some item \<Rightarrow> task_handler fw req item db
           | None \<Rightarrow>
               (case route (lit ''/api/v1/automations'') (req_path req) of
                  Some item \<Rightarrow> automation_handler fw req item db
                | None \<Rightarrow> (db, HttpFail 404))))"

section \<open>Workspaces are kept apart\<close>

definition rows_of :: "int \<Rightarrow> database \<Rightarrow> task_row list \<times> automation_row list" where
  "rows_of ws db =
     (filter (\<lambda>r. tk_workspace r = ws) (db_tasks db), filter (\<lambda>r. au_workspace r = ws) (db_automations db))"

fun shows_row_of :: "int \<Rightarrow> reply \<Rightarrow> bool" where
  "shows_row_of ws (Tasks rs) \<longleftrightarrow> list_ex (\<lambda>r. tk_workspace r = ws) rs"
| "shows_row_of ws (Automations rs) \<longleftrightarrow> list_ex (\<lambda>r. au_workspace r = ws) rs"
| "shows_row_of ws _ \<longleftrightarrow> False"

text \<open>An outcome that neither changes nor shows anything of the workspace.\<close>

definition apart :: "int \<Rightarrow> database \<Rightarrow> database \<times> reply \<Rightarrow> bool" where
  "apart ws db out \<longleftrightarrow> rows_of ws (fst out) = rows_of ws db \<and> \<not> shows_row_of ws (snd out)"

lemma apart_fail [simp]: "apart ws db (db, HttpFail n)" "apart ws db (db, ServerError)" "apart ws db (db, Refused r)"
  by (simp_all add: apart_def)

lemma set_page: "set (page f l k rows) \<subseteq> set rows"
proof
  fix x
  assume "x \<in> set (page f l k rows)"
  then have "x \<in> set (rev (sort_key f rows))" unfolding page_def by (rule in_set_dropD [OF in_set_takeD])
  then show "x \<in> set rows" by simp
qed

lemma page_apart: "(\<And>r. r \<in> set rows \<Longrightarrow> P r) \<Longrightarrow> list_all P (page f l k rows)"
  using set_page [of f l k rows] by (auto simp: list_all_iff)

lemma list_all_not_ex: "list_all (\<lambda>r. \<not> P r) xs \<Longrightarrow> \<not> list_ex P xs"
  by (auto simp: list_all_iff list_ex_iff)

lemma filter_map_other: "(\<And>r. P (g r) \<longleftrightarrow> P r) \<Longrightarrow> (\<And>r. P r \<Longrightarrow> g r = r) \<Longrightarrow> filter P (map g rs) = filter P rs"
  by (induction rs) auto

lemma filter_filter_other: "(\<And>r. P r \<Longrightarrow> Q r) \<Longrightarrow> filter P (filter Q rs) = filter P rs"
  by (induction rs) auto

lemma filter_Cons_head: "filter P rs = r # rest \<Longrightarrow> P r"
  by (metis filter_eq_ConsD)

lemma apart_tasks:
  assumes "w \<noteq> ws"
  shows "apart ws db (list_tasks fw w st q l k db)" "apart ws db (create_task w t e db)" "apart ws db (delete_task i w db)"
    "up_workspace u = w \<Longrightarrow> apart ws db (update_task i u db)"
proof -
  show "apart ws db (list_tasks fw w st q l k db)"
    using assms by (auto simp: apart_def list_tasks_def intro!: list_all_not_ex page_apart)
  show "apart ws db (create_task w t e db)"
    using assms by (simp add: apart_def create_task_def rows_of_def publish_def Let_def)
  have "filter (\<lambda>r. tk_workspace r = ws) (filter (\<lambda>r. \<not> (tk_id r = i \<and> tk_workspace r = w)) (db_tasks db))
      = filter (\<lambda>r. tk_workspace r = ws) (db_tasks db)"
    using assms by (intro filter_filter_other) auto
  then show "apart ws db (delete_task i w db)"
    by (simp only: apart_def delete_task_def rows_of_def publish_def Let_def) (simp del: filter_filter)
  show "apart ws db (update_task i u db)" if "up_workspace u = w"
    using assms that
    by (auto simp: apart_def update_task_def rows_of_def publish_def Let_def apply_task_update_def
        intro!: filter_map_other split: list.splits dest!: filter_Cons_head)
qed

lemma apart_automations:
  assumes "w \<noteq> ws"
  shows "apart ws db (list_automations w en l k db)" "apart ws db (delete_automation i w db)"
    "ac_workspace b = w \<Longrightarrow> apart ws db (create_automation fw b db)"
    "ua_workspace v = w \<Longrightarrow> apart ws db (update_automation fw i v db)"
proof -
  show "apart ws db (list_automations w en l k db)"
    using assms by (auto simp: apart_def list_automations_def intro!: list_all_not_ex page_apart)
  have "filter (\<lambda>r. au_workspace r = ws) (filter (\<lambda>r. \<not> (au_id r = i \<and> au_workspace r = w)) (db_automations db))
      = filter (\<lambda>r. au_workspace r = ws) (db_automations db)"
    using assms by (intro filter_filter_other) auto
  then show "apart ws db (delete_automation i w db)"
    by (simp only: apart_def delete_automation_def rows_of_def publish_def Let_def) (simp del: filter_filter)
  show "apart ws db (create_automation fw b db)" if "ac_workspace b = w"
    using assms that by (simp add: apart_def create_automation_def rows_of_def publish_def Let_def)
  show "apart ws db (update_automation fw i v db)" if "ua_workspace v = w"
    using assms that
    by (auto simp: apart_def update_automation_def rows_of_def publish_def Let_def apply_automation_update_def
        intro!: filter_map_other split: list.splits dest!: filter_Cons_head)
qed

text \<open>An endpoint that works on the workspace of the query, and one that works on that of the body.\<close>

lemma handled_apart: "(\<And>f. h = Some f \<Longrightarrow> apart ws db (f db)) \<Longrightarrow> apart ws db (handled h db)"
  by (simp add: handled_def split: option.split)

lemma body_of_update: "task_update_of fw d = Some u \<Longrightarrow> body_workspace fw d = Some (up_workspace u)"
  by (auto simp: task_update_of_def bind_eq_Some_conv)

lemma body_of_automation:
  "automation_create_of fw d = Some b \<Longrightarrow> body_workspace fw d = Some (ac_workspace b)"
  "automation_update_of fw d = Some v \<Longrightarrow> body_workspace fw d = Some (ua_workspace v)"
  by (auto simp: automation_create_of_def automation_update_of_def bind_eq_Some_conv split: if_splits)

lemma task_handler_apart:
  assumes "req_method req \<in> {lit ''GET'', lit ''DELETE''} \<Longrightarrow> query_workspace fw req \<noteq> Some ws"
    and "\<And>d. req_method req \<notin> {lit ''GET'', lit ''DELETE''} \<Longrightarrow> body_dict fw req = Some d \<Longrightarrow> body_workspace fw d \<noteq> Some ws"
  shows "apart ws db (task_handler fw req item db)"
  unfolding task_handler_def
  using assms
  by (auto split: option.split intro!: handled_apart apart_tasks(1-3) apart_tasks(4) [OF _ refl] simp: bind_eq_Some_conv dest!: body_of_update)

lemma automation_handler_apart:
  assumes "req_method req \<in> {lit ''GET'', lit ''DELETE''} \<Longrightarrow> query_workspace fw req \<noteq> Some ws"
    and "\<And>d. req_method req \<notin> {lit ''GET'', lit ''DELETE''} \<Longrightarrow> body_dict fw req = Some d \<Longrightarrow> body_workspace fw d \<noteq> Some ws"
  shows "apart ws db (automation_handler fw req item db)"
  unfolding automation_handler_def
  using assms
  by (auto split: option.split intro!: handled_apart apart_automations(1-2) apart_automations(3-4) [OF _ refl] simp: bind_eq_Some_conv dest!: body_of_automation)

text \<open>What the access control has checked when it passes a request on.\<close>

definition header_workspace :: "http_request \<Rightarrow> int option" where
  "header_workspace req = py_int (strip (case header req ''x-workspace-id'' of None \<Rightarrow> [] | Some s \<Rightarrow> s))"

lemma admitted_scope:
  assumes "enforce_rbac True loads req = None" "resolve_policy (req_path req) (req_method req) = (Some roles, True)"
  obtains w where "requested_workspace loads req = Inr w" "w = None \<or> header_workspace req = w"
  using assms
  by (auto simp: enforce_rbac_def parse_workspace_scope_def header_workspace_def Let_def
      split: option.splits sum.splits if_splits)

lemma upper_verbs:
  "upper (lit ''GET'') = lit ''GET''" "upper (lit ''POST'') = lit ''POST''"
  "upper (lit ''PATCH'') = lit ''PATCH''" "upper (lit ''DELETE'') = lit ''DELETE''"
  by (simp_all add: upper_def upper_char_def lit_def code_point_def)

lemma route_prefix: "route base path = Some item \<Longrightarrow> startswith path base"
  by (auto simp: route_def Let_def split: if_splits dest: append_prefixD)

lemma scoped_policy:
  assumes "route (lit ''/api/v1/tasks'') path = Some item \<or> route (lit ''/api/v1/automations'') path = Some item"
    and "verb \<in> {lit ''GET'', lit ''POST'', lit ''PATCH'', lit ''DELETE''}"
  shows "\<exists>roles. resolve_policy path verb = (Some roles, True)"
  using assms by (auto simp: resolve_policy_def Let_def upper_verbs dest!: route_prefix)

lemma no_int_of_nothing: "py_int [] = None"
  by (simp add: py_int_def)

text \<open>The framework and \<open>int\<close> of Python accept different texts and numbers, but where both accept a value they agree, and the
  framework accepts neither nothing nor an empty text. This holds of \<open>pydantic\<close>.\<close>

definition agree_on_ints :: "framework \<Rightarrow> bool" where
  "agree_on_ints fw \<longleftrightarrow> fw_int fw PNone = None \<and> fw_int fw (PStr []) = None
     \<and> (\<forall>v n m. fw_int fw v = Some n \<longrightarrow> py_int_of v = Inr m \<longrightarrow> m = n)"

lemma agree_on_intsD: "agree_on_ints fw \<Longrightarrow> fw_int fw v = Some n \<Longrightarrow> py_int_of v = Inr m \<Longrightarrow> m = n"
  unfolding agree_on_ints_def by blast

text \<open>The workspace of the query is the one that was checked, unless the body names another.\<close>

lemma query_checked:
  assumes "requested_workspace loads req = Inr w"
    and "workspace_from_payload (json_payload loads req) \<in> {Inr None, Inr (Some 0)}"
    and "query_workspace fw req = Some ws" "agree_on_ints fw"
  shows "w = Some ws"
proof -
  from assms(3) obtain s where s: "query req ''workspace_id'' = Some s" "fw_int fw (PStr s) = Some ws"
    by (auto simp: query_workspace_def bind_eq_Some_conv)
  with assms(4) obtain c r where cr: "s = c # r" by (cases s) (auto simp: agree_on_ints_def)
  with assms(1,2) s(1) obtain i where i: "py_int s = Some i" "w = Some i"
    by (auto simp: requested_workspace_def split: option.splits)
  then have "py_int_of (PStr s) = Inr i" by simp
  with agree_on_intsD [OF assms(4) s(2)] i(2) show ?thesis by simp
qed

text \<open>The workspace of a body is the one that was checked.\<close>

lemma body_checked:
  assumes "requested_workspace loads req = Inr w" "json_payload loads req = Some d" "body_workspace fw d = Some ws"
    and "agree_on_ints fw"
  shows "w = Some ws"
proof -
  from assms(3) obtain v where v: "dget d (lit ''workspace_id'') = Some v" "fw_int fw v = Some ws" "1 \<le> ws"
    by (auto simp: body_workspace_def bind_eq_Some_conv split: if_splits)
  have "v \<noteq> PNone" using v(2) assms(4) by (auto simp: agree_on_ints_def)
  then have payload: "workspace_from_payload (Some d) = rbind (py_int_of v) (\<lambda>i. Inr (Some i))"
    using v(1) by (auto simp: workspace_from_payload_def split: pyval.splits)
  then obtain m where m: "py_int_of v = Inr m"
    using assms(1,2) by (cases "py_int_of v") (auto simp: requested_workspace_def)
  with agree_on_intsD [OF assms(4) v(2)] have "m = ws" by blast
  with m payload v(3) assms(1,2) show ?thesis by (auto simp: requested_workspace_def)
qed


section \<open>Examples\<close>

definition example_framework :: "char list \<Rightarrow> framework" where
  "example_framework body = \<lparr>
     fw_json = (\<lambda>b. if b = body then Some (PDict [(lit ''workspace_id'', PInt 1)]) else None),
     fw_int = (\<lambda>v. case py_int_of v of Inr n \<Rightarrow> Some n | Inl _ \<Rightarrow> None), fw_bool = (\<lambda>_. None),
     fw_ilike = (\<lambda>_ _. False), fw_adapts_dict = False\<rparr>"

text \<open>A member of workspace 1 deletes task 7 of the workspace in the query, with and without a body.\<close>

definition example_delete :: "string \<Rightarrow> char list \<Rightarrow> http_request" where
  "example_delete workspace body = \<lparr>req_path = lit ''/api/v1/tasks/7'', req_method = lit ''DELETE'',
     req_headers = [(lit ''x-user-role'', lit ''member''), (lit ''x-workspace-id'', lit ''1'')],
     req_query = [(lit ''workspace_id'', lit workspace)], req_body = body\<rparr>"

definition example_task :: "int \<Rightarrow> int \<Rightarrow> task_row" where
  "example_task i w = \<lparr>tk_id = i, tk_workspace = w, tk_title = lit ''t'', tk_description = None,
     tk_status = lit ''todo'', tk_priority = lit ''normal''\<rparr>"

definition example_db :: database where
  "example_db = \<lparr>db_workspaces = [1, 2], db_tasks = [example_task 7 2, example_task 8 1], db_automations = [],
     db_next_task = 9, db_next_automation = 1, db_events = []\<rparr>"

lemmas api_eval = api_request_def enforce_rbac_def resolve_policy_def parse_role_def parse_workspace_scope_def
  requested_workspace_def workspace_from_payload_def json_payload_def task_handler_def handled_def delete_task_def
  query_workspace_def route_def header_def query_def READ_ROLES_def WRITE_ROLES_def

lemma example_small:
  "lower (strip (lit ''member'')) = lit ''member''" "strip (lit ''1'') = lit ''1''"
  "py_int (lit ''1'') = Some 1" "py_int (lit ''2'') = Some 2" "py_int (lit ''7'') = Some 7"
  by (simp_all add: int_eval strip_def rstrip_def lstrip_def lower_def lower_char_def)

lemma example_route:
  "route (lit ''/api/v1/tasks'') (lit ''/api/v1/tasks/7'') = Some (Some (lit ''7''))"
  by (simp add: route_def lit_def)

lemma example_policy: "resolve_policy (lit ''/api/v1/tasks/7'') (lit ''DELETE'') = (Some WRITE_ROLES, True)"
  by (simp add: resolve_policy_def Let_def upper_verbs) (simp add: lit_def)

text \<open>The access control can be talked past. A request that deletes a task takes the workspace from its query,
  while the access control looks at the body first: with a body that names workspace 1, a member of workspace
  1 deletes a task of workspace 2.\<close>
theorem body_overrides_scope:
  "header_workspace (example_delete ''2'' ''b'') = Some 1
   \<and> api_request (example_framework ''b'') True (fw_json (example_framework ''b'')) (example_delete ''2'' ''b'') example_db
     = (publish 2 ''task.deleted'' (example_db\<lparr>db_tasks := [example_task 8 1]\<rparr>), Removed 1)"
proof -
  have "enforce_rbac True (fw_json (example_framework ''b'')) (example_delete ''2'' ''b'') = None"
    by (simp add: enforce_rbac_def example_delete_def example_policy parse_role_def header_def example_small WRITE_ROLES_def
        requested_workspace_def json_payload_def example_framework_def workspace_from_payload_def parse_workspace_scope_def Let_def)
  then show ?thesis
    by (simp add: api_request_def example_delete_def example_route task_handler_def handled_def query_workspace_def query_def
        example_framework_def example_small delete_task_def example_db_def example_task_def header_workspace_def header_def)
qed


end
