(* ===== verification/AutomationRuns.thy ===== *)
theory AutomationRuns
  imports AutomationSchedule WorkspaceApi EventParser
begin

text \<open>
  The execution of an automation: the transaction of \<open>_execute_candidate\<close> in \<open>api/automation/scheduler.py\<close> on the
  connection of \<open>get_db_cursor\<close> (\<open>storage/db.py\<close>). A failed statement aborts the transaction: PostgreSQL then
  refuses every further statement, and a rollback undoes all but the numbers that were drawn from sequences.
  Whether the driver takes a plain dictionary as an argument is a parameter, as in \<open>WorkspaceApi\<close>, and so is
  whether the advisory lock of the automation is free.
\<close>

section \<open>Tables\<close>

record rule_row = automation_row +
  ru_updated :: int

record automation_run =
  ar_id :: int
  ar_automation :: int
  ar_workspace :: int
  ar_status :: string
  ar_created :: int
  ar_task :: "int option"
  ar_task_run :: "int option"

record task_run =
  tn_id :: int
  tn_task :: int
  tn_workspace :: int
  tn_run :: int \<comment> \<open>\<open>automation_run_id\<close> of the metadata\<close>

record rule_db =
  rd_rules :: "rule_row list"
  rd_tasks :: "task_row list"
  rd_runs :: "automation_run list"
  rd_task_runs :: "task_run list"
  rd_next_task :: int
  rd_next_run :: int
  rd_next_task_run :: int

section \<open>Transactions\<close>

datatype fault = ValueFault | DriverFault | SqlFault

record tx =
  tx_db :: rule_db
  tx_aborted :: bool

type_synonym 'a step = "tx \<Rightarrow> (fault + 'a) \<times> tx"

definition give :: "'a \<Rightarrow> 'a step" where
  "give a = (\<lambda>t. (Inr a, t))"

definition fail :: "fault \<Rightarrow> 'a step" where
  "fail e = (\<lambda>t. (Inl e, t))"

definition and_then :: "'a step \<Rightarrow> ('a \<Rightarrow> 'b step) \<Rightarrow> 'b step" where
  "and_then m f = (\<lambda>t. case m t of (Inl e, t1) \<Rightarrow> (Inl e, t1) | (Inr a, t1) \<Rightarrow> f a t1)"

definition or_else :: "'a step \<Rightarrow> (fault \<Rightarrow> 'a step) \<Rightarrow> 'a step" where
  "or_else m f = (\<lambda>t. case m t of (Inl e, t1) \<Rightarrow> f e t1 | (Inr a, t1) \<Rightarrow> (Inr a, t1))"

text \<open>A statement gives the new tables and its result, \<open>None\<close> when it violates a constraint.\<close>

definition statement :: "(rule_db \<Rightarrow> rule_db \<times> 'a option) \<Rightarrow> 'a step" where
  "statement f = (\<lambda>t.
     if tx_aborted t then (Inl SqlFault, t)
     else (case f (tx_db t) of
             (db, None) \<Rightarrow> (Inl SqlFault, t\<lparr>tx_db := db, tx_aborted := True\<rparr>)
           | (db, Some a) \<Rightarrow> (Inr a, t\<lparr>tx_db := db\<rparr>)))"

definition dict_argument :: "framework \<Rightarrow> unit step" where
  "dict_argument fw = (if fw_adapts_dict fw then give () else fail DriverFault)"

definition roll_back :: "rule_db \<Rightarrow> rule_db \<Rightarrow> rule_db" where
  "roll_back before after = before\<lparr>rd_next_task := rd_next_task after, rd_next_run := rd_next_run after,
     rd_next_task_run := rd_next_task_run after\<rparr>"

definition with_cursor :: "'a step \<Rightarrow> rule_db \<Rightarrow> (fault + 'a) \<times> rule_db" where
  "with_cursor body db =
     (case body \<lparr>tx_db = db, tx_aborted = False\<rparr> of
        (Inl e, t) \<Rightarrow> (Inl e, roll_back db (tx_db t))
      | (Inr a, t) \<Rightarrow> (Inr a, if tx_aborted t then roll_back db (tx_db t) else tx_db t))"

section \<open>Actions\<close>

record candidate =
  ca_id :: int
  ca_workspace :: int
  ca_name :: pystr
  ca_action :: pystr
  ca_config :: "(pystr, pyval) dict"
  ca_last_run :: "int option"

text \<open>A positive integer; \<open>True\<close> is one, and stays a truth value.\<close>

definition get_configured_task_id :: "(pystr, pyval) dict \<Rightarrow> pyval option" where
  "get_configured_task_id config =
     (case dget config (lit ''task_id'') of
        None \<Rightarrow> None
      | Some v \<Rightarrow> (case int_instance v of Some i \<Rightarrow> if 0 < i then Some v else None | None \<Rightarrow> None))"

definition template_task :: "(pyval \<Rightarrow> pystr) \<Rightarrow> candidate \<Rightarrow> pystr \<times> pystr option \<times> pystr" where
  "template_task rp c =
     (let template = (case dget (ca_config c) (lit ''task_template'') of Some (PDict d) \<Rightarrow> d | _ \<Rightarrow> []);
          title = (case dget template (lit ''title'') of
                     Some (PStr s) \<Rightarrow> if strip s = [] then lit ''[Automation] '' @ ca_name c else s
                   | _ \<Rightarrow> lit ''[Automation] '' @ ca_name c);
          description = (case dget template (lit ''description'') of
                           None \<Rightarrow> None
                         | Some PNone \<Rightarrow> None
                         | Some v \<Rightarrow> Some (py_str rp v));
          priority = (case dget template (lit ''priority'') of
                        Some (PStr s) \<Rightarrow> if s \<in> set ALLOWED_PRIORITIES then s else lit ''normal''
                      | _ \<Rightarrow> lit ''normal'')
      in (strip title, description, priority))"

definition insert_task :: "int \<Rightarrow> pystr \<times> pystr option \<times> pystr \<Rightarrow> rule_db \<Rightarrow> rule_db \<times> int option" where
  "insert_task workspace_id values db =
     (let i = rd_next_task db; (title, description, priority) = values
      in (db\<lparr>rd_next_task := i + 1,
             rd_tasks := rd_tasks db @ [\<lparr>tk_id = i, tk_workspace = workspace_id, tk_title = title, tk_description = description,
               tk_status = lit ''todo'', tk_priority = priority\<rparr>]\<rparr>, Some i))"

definition create_task_from_template :: "(pyval \<Rightarrow> pystr) \<Rightarrow> candidate \<Rightarrow> int step" where
  "create_task_from_template rp c = statement (insert_task (ca_workspace c) (template_task rp c))"

text \<open>\<open>None\<close> in the result for a row that is not there, and a failure for a truth value in place of a number.\<close>

definition update_status :: "int \<Rightarrow> pyval \<Rightarrow> pystr \<Rightarrow> rule_db \<Rightarrow> rule_db \<times> int option option" where
  "update_status workspace_id task status db =
     (case task of
        PInt i \<Rightarrow>
          (let here = (\<lambda>r. tk_id r = i \<and> tk_workspace r = workspace_id)
           in if list_ex here (rd_tasks db)
              then (db\<lparr>rd_tasks := map (\<lambda>r. if here r then r\<lparr>tk_status := status\<rparr> else r) (rd_tasks db)\<rparr>, Some (Some i))
              else (db, Some None))
      | _ \<Rightarrow> (db, None))"

definition apply_automation_action :: "(pyval \<Rightarrow> pystr) \<Rightarrow> candidate \<Rightarrow> pyval option step" where
  "apply_automation_action rp c =
     (let action = lower (strip (ca_action c))
      in if action = lit ''create_task'' then and_then (create_task_from_template rp c) (\<lambda>i. give (Some (PInt i)))
         else if action = lit ''update_task_status''
         then (case get_configured_task_id (ca_config c) of
                 None \<Rightarrow> fail ValueFault
               | Some v \<Rightarrow>
                   (case dget (ca_config c) (lit ''set_task_status'') of
                      Some (PStr s) \<Rightarrow>
                        if s \<in> set ALLOWED_STATUSES
                        then and_then (statement (update_status (ca_workspace c) v s))
                               (\<lambda>row. case row of None \<Rightarrow> fail ValueFault | Some i \<Rightarrow> give (Some (PInt i)))
                        else fail ValueFault
                    | _ \<Rightarrow> fail ValueFault))
         else give (get_configured_task_id (ca_config c)))"

text \<open>The task of a run must exist, in whatever workspace.\<close>

definition insert_task_run :: "pyval \<Rightarrow> int \<Rightarrow> int \<Rightarrow> rule_db \<Rightarrow> rule_db \<times> (int \<times> int) option" where
  "insert_task_run task workspace_id run db =
     (let i = rd_next_task_run db; drawn = db\<lparr>rd_next_task_run := i + 1\<rparr>
      in case task of
           PInt k \<Rightarrow>
             if k \<in> tk_id ` set (rd_tasks db)
             then (drawn\<lparr>rd_task_runs := rd_task_runs db @ [\<lparr>tn_id = i, tn_task = k, tn_workspace = workspace_id, tn_run = run\<rparr>]\<rparr>,
                   Some (k, i))
             else (drawn, None)
         | _ \<Rightarrow> (db, None))"

definition create_task_run :: "framework \<Rightarrow> pyval \<Rightarrow> int \<Rightarrow> int \<Rightarrow> (int \<times> int) step" where
  "create_task_run fw task workspace_id run =
     and_then (dict_argument fw) (\<lambda>_. statement (insert_task_run task workspace_id run))"

section \<open>One execution\<close>

datatype run_result =
    SkippedLocked
  | Succeeded int "(int \<times> int) option"
  | RunFailed int fault

definition insert_run :: "candidate \<Rightarrow> int \<Rightarrow> rule_db \<Rightarrow> rule_db \<times> int option" where
  "insert_run c now db =
     (let i = rd_next_run db; drawn = db\<lparr>rd_next_run := i + 1\<rparr>
      in if ca_id c \<in> au_id ` set (rd_rules db)
         then (drawn\<lparr>rd_runs := rd_runs db @ [\<lparr>ar_id = i, ar_automation = ca_id c, ar_workspace = ca_workspace c,
                 ar_status = ''running'', ar_created = now, ar_task = None, ar_task_run = None\<rparr>]\<rparr>, Some i)
         else (drawn, None))"

definition update_run :: "int \<Rightarrow> (automation_run \<Rightarrow> automation_run) \<Rightarrow> rule_db \<Rightarrow> rule_db \<times> unit option" where
  "update_run run f db =
     (db\<lparr>rd_runs := map (\<lambda>r. if ar_id r = run then f r else r) (rd_runs db)\<rparr>, Some ())"

definition succeed_run :: "(int \<times> int) option \<Rightarrow> automation_run \<Rightarrow> automation_run" where
  "succeed_run made r = r\<lparr>ar_status := ''success'', ar_task := map_option fst made, ar_task_run := map_option snd made\<rparr>"

definition fail_run :: "automation_run \<Rightarrow> automation_run" where
  "fail_run r = r\<lparr>ar_status := ''failed''\<rparr>"

definition run_action :: "framework \<Rightarrow> (pyval \<Rightarrow> pystr) \<Rightarrow> candidate \<Rightarrow> int \<Rightarrow> run_result step" where
  "run_action fw rp c run =
     and_then (apply_automation_action rp c) (\<lambda>task.
     and_then (case task of
                 None \<Rightarrow> give None
               | Some v \<Rightarrow> and_then (create_task_run fw v (ca_workspace c) run) (\<lambda>made. give (Some made))) (\<lambda>made.
     and_then (statement (update_run run (succeed_run made))) (\<lambda>_. give (Succeeded run made))))"

definition execute_body :: "framework \<Rightarrow> (pyval \<Rightarrow> pystr) \<Rightarrow> bool \<Rightarrow> candidate \<Rightarrow> int \<Rightarrow> run_result step" where
  "execute_body fw rp lock_free c now =
     (if \<not> lock_free then give SkippedLocked
      else
        and_then (dict_argument fw) (\<lambda>_.
        and_then (statement (insert_run c now)) (\<lambda>run.
        or_else (run_action fw rp c run) (\<lambda>e.
          and_then (statement (update_run run fail_run)) (\<lambda>_. give (RunFailed run e))))))"

definition execute_candidate ::
    "framework \<Rightarrow> (pyval \<Rightarrow> pystr) \<Rightarrow> bool \<Rightarrow> candidate \<Rightarrow> int \<Rightarrow> rule_db \<Rightarrow> (fault + run_result) \<times> rule_db" where
  "execute_candidate fw rp lock_free c now db = with_cursor (execute_body fw rp lock_free c now) db"

section \<open>What an execution leaves behind\<close>

lemmas step_defs = give_def fail_def and_then_def or_else_def statement_def dict_argument_def

definition begun :: "rule_db \<Rightarrow> tx" where
  "begun db = \<lparr>tx_db = db, tx_aborted = False\<rparr>"

lemma begun_simps [simp]:
  "tx_db (begun db) = db" "\<not> tx_aborted (begun db)" "(begun db)\<lparr>tx_db := db'\<rparr> = begun db'"
  "begun db = begun db' \<longleftrightarrow> db = db'"
  by (simp_all add: begun_def)

text \<open>The rows that the action and the run of a task leave alone.\<close>

definition same_runs :: "rule_db \<Rightarrow> rule_db \<Rightarrow> bool" where
  "same_runs db db' \<longleftrightarrow> rd_rules db' = rd_rules db \<and> rd_runs db' = rd_runs db \<and> rd_next_run db' = rd_next_run db"

lemma action_outcome:
  assumes "apply_automation_action rp c (begun db) = (out, t)"
  shows "case out of
      Inl e \<Rightarrow> (e = ValueFault \<and> t = begun db) \<or> (e = SqlFault \<and> tx_aborted t \<and> rd_next_run (tx_db t) = rd_next_run db)
    | Inr task \<Rightarrow> (\<exists>db'. t = begun db' \<and> same_runs db db' \<and> rd_task_runs db' = rd_task_runs db)"
proof -
  have insert: "\<exists>db'. insert_task w v db = (db', Some (rd_next_task db)) \<and> same_runs db db' \<and> rd_task_runs db' = rd_task_runs db"
    for w v by (cases v) (simp add: insert_task_def same_runs_def Let_def)
  consider (create) "lower (strip (ca_action c)) = lit ''create_task''"
    | (update) "lower (strip (ca_action c)) \<noteq> lit ''create_task''" "lower (strip (ca_action c)) = lit ''update_task_status''"
    | (other) "lower (strip (ca_action c)) \<noteq> lit ''create_task''" "lower (strip (ca_action c)) \<noteq> lit ''update_task_status''"
    by blast
  then show ?thesis
  proof cases
    case create
    with assms insert [of "ca_workspace c" "template_task rp c"] show ?thesis
      by (auto simp: apply_automation_action_def and_then_def give_def Let_def create_task_from_template_def statement_def)
  next
    case update
    have "update_status w v st db = (db', o') \<Longrightarrow> (o' \<noteq> None \<and> o' \<noteq> Some None \<longrightarrow>
        same_runs db db' \<and> rd_task_runs db' = rd_task_runs db) \<and> rd_next_run db' = rd_next_run db \<and> (o' = Some None \<longrightarrow> db' = db)" for w v st db' o'
      by (auto simp: update_status_def same_runs_def Let_def split: pyval.splits if_splits)
    with update assms show ?thesis
      by (auto simp: apply_automation_action_def step_defs Let_def split: option.splits pyval.splits if_splits prod.splits)
  next
    case other
    with assms show ?thesis by (auto simp: apply_automation_action_def give_def Let_def same_runs_def)
  qed
qed

lemma task_run_outcome:
  assumes "create_task_run fw v w run (begun db) = (out, t)"
  shows "case out of
      Inl e \<Rightarrow> (e = DriverFault \<and> \<not> fw_adapts_dict fw) \<or> (e = SqlFault \<and> tx_aborted t \<and> rd_next_run (tx_db t) = rd_next_run db)
    | Inr made \<Rightarrow> (\<exists>db'. t = begun db' \<and> same_runs db db' \<and> rd_tasks db' = rd_tasks db
        \<and> rd_task_runs db' = rd_task_runs db @ [\<lparr>tn_id = snd made, tn_task = fst made, tn_workspace = w, tn_run = run\<rparr>]
        \<and> fst made \<in> tk_id ` set (rd_tasks db))"
  using assms
  by (auto simp: create_task_run_def insert_task_run_def same_runs_def step_defs Let_def split: if_splits pyval.splits)

definition task_runs_made :: "int \<Rightarrow> int \<Rightarrow> (int \<times> int) option \<Rightarrow> task_run list" where
  "task_runs_made w run made =
     (case made of None \<Rightarrow> [] | Some (k, i) \<Rightarrow> [\<lparr>tn_id = i, tn_task = k, tn_workspace = w, tn_run = run\<rparr>])"

lemma run_action_outcome:
  assumes "run_action fw rp c run (begun db) = (out, t)" and "fw_adapts_dict fw"
  shows "case out of
      Inl e \<Rightarrow> (e = ValueFault \<and> t = begun db) \<or> (e = SqlFault \<and> tx_aborted t \<and> rd_next_run (tx_db t) = rd_next_run db)
    | Inr r \<Rightarrow> (\<exists>made db'. r = Succeeded run made \<and> t = begun db' \<and> rd_rules db' = rd_rules db \<and> rd_next_run db' = rd_next_run db
        \<and> rd_runs db' = map (\<lambda>r. if ar_id r = run then succeed_run made r else r) (rd_runs db)
        \<and> rd_task_runs db' = rd_task_runs db @ task_runs_made (ca_workspace c) run made)"
proof -
  obtain o1 t1 where one: "apply_automation_action rp c (begun db) = (o1, t1)" by fastforce
  show ?thesis
  proof (cases o1)
    case (Inl e)
    with action_outcome [OF one] one assms(1) show ?thesis by (auto simp: run_action_def and_then_def)
  next
    case (Inr task)
    from action_outcome [OF one] Inr obtain db1 where db1: "t1 = begun db1" "same_runs db db1" "rd_task_runs db1 = rd_task_runs db"
      by auto
    have finish: "statement (update_run run f) (begun d)
        = (Inr (), begun (d\<lparr>rd_runs := map (\<lambda>r. if ar_id r = run then f r else r) (rd_runs d)\<rparr>))" for f d
      by (simp add: statement_def update_run_def)
    show ?thesis
    proof (cases task)
      case None
      with Inr one assms(1) db1 show ?thesis
        by (auto simp: run_action_def and_then_def give_def finish task_runs_made_def same_runs_def)
    next
      case (Some v)
      obtain o2 t2 where two: "create_task_run fw v (ca_workspace c) run (begun db1) = (o2, t2)" by fastforce
      with Some Inr one assms db1 task_run_outcome [OF two] show ?thesis
        by (cases o2) (auto simp: run_action_def and_then_def give_def finish task_runs_made_def same_runs_def split: prod.split)
    qed
  qed
qed

text \<open>The row of a run that is finished.\<close>

definition run_row :: "int \<Rightarrow> candidate \<Rightarrow> int \<Rightarrow> automation_run" where
  "run_row run c now = \<lparr>ar_id = run, ar_automation = ca_id c, ar_workspace = ca_workspace c, ar_status = ''running'',
     ar_created = now, ar_task = None, ar_task_run = None\<rparr>"

definition same_tables :: "rule_db \<Rightarrow> rule_db \<Rightarrow> bool" where
  "same_tables db db' \<longleftrightarrow> rd_rules db' = rd_rules db \<and> rd_tasks db' = rd_tasks db \<and> rd_runs db' = rd_runs db
     \<and> rd_task_runs db' = rd_task_runs db"

lemma same_tables_roll_back [simp]: "same_tables db (roll_back db db')"
  by (simp add: same_tables_def roll_back_def)

definition numbered :: "rule_db \<Rightarrow> bool" where
  "numbered db \<longleftrightarrow> (\<forall>r \<in> set (rd_runs db). ar_id r < rd_next_run db)"

lemma map_new_run:
  "numbered db \<Longrightarrow> map (\<lambda>r. if ar_id r = rd_next_run db then f r else r) (rd_runs db @ [run_row (rd_next_run db) c now])
     = rd_runs db @ [f (run_row (rd_next_run db) c now)]"
  by (auto simp: numbered_def run_row_def intro!: map_idI)

lemma execution_outcome:
  assumes "execute_candidate fw rp lock_free c now db = (out, db')" and "numbered db"
  shows "rd_rules db' = rd_rules db \<and> numbered db' \<and> (case out of
      Inl e \<Rightarrow> same_tables db db' \<and> (e = DriverFault \<or> e = SqlFault)
    | Inr SkippedLocked \<Rightarrow> db' = db
    | Inr (Succeeded run made) \<Rightarrow>
        rd_runs db' = rd_runs db @ [succeed_run made (run_row run c now)]
        \<and> rd_task_runs db' = rd_task_runs db @ task_runs_made (ca_workspace c) run made
    | Inr (RunFailed run e) \<Rightarrow>
        e = ValueFault \<and> rd_runs db' = rd_runs db @ [fail_run (run_row run c now)]
        \<and> rd_tasks db' = rd_tasks db \<and> rd_task_runs db' = rd_task_runs db)"
proof -
  have cursor: "execute_candidate fw rp l c now db = (case execute_body fw rp l c now (begun db) of
        (Inl e, t) \<Rightarrow> (Inl e, roll_back db (tx_db t))
      | (Inr a, t) \<Rightarrow> (Inr a, if tx_aborted t then roll_back db (tx_db t) else tx_db t))" for l
    by (simp add: execute_candidate_def with_cursor_def begun_def)
  have rolled: "rd_rules (roll_back db d) = rd_rules db" "rd_next_run db \<le> rd_next_run d \<Longrightarrow> numbered (roll_back db d)" for d
    using assms(2) by (auto simp: roll_back_def numbered_def)
  have numbered_new: "numbered (db\<lparr>rd_next_run := rd_next_run db + 1, rd_runs := rd_runs db @ [f (run_row (rd_next_run db) c now)]\<rparr>)"
    if "\<And>r. ar_id (f r) = ar_id r" for f
    using assms(2) that by (auto simp: numbered_def run_row_def)
  have kept: "numbered d" if "rd_next_run d = rd_next_run db + 1" "rd_runs d = rd_runs db @ [f (run_row (rd_next_run db) c now)]"
      "\<And>r. ar_id (f r) = ar_id r" for d f
    using numbered_new [OF that(3)] that by (simp add: numbered_def)
  let ?run = "rd_next_run db"
  let ?db1 = "db\<lparr>rd_next_run := ?run + 1, rd_runs := rd_runs db @ [run_row ?run c now]\<rparr>"
  have insert: "statement (insert_run c now) (begun db)
      = (if ca_id c \<in> au_id ` set (rd_rules db) then (Inr ?run, begun ?db1)
         else (Inl SqlFault, (begun db)\<lparr>tx_db := db\<lparr>rd_next_run := ?run + 1\<rparr>, tx_aborted := True\<rparr>))"
    by (simp add: statement_def insert_run_def Let_def run_row_def)
  consider (skip) "\<not> lock_free" | (driver) "lock_free" "\<not> fw_adapts_dict fw"
    | (gone) "lock_free" "fw_adapts_dict fw" "ca_id c \<notin> au_id ` set (rd_rules db)"
    | (run) "lock_free" "fw_adapts_dict fw" "ca_id c \<in> au_id ` set (rd_rules db)" by blast
  then show ?thesis
  proof cases
    case run
    obtain o1 t1 where one: "run_action fw rp c ?run (begun ?db1) = (o1, t1)" by fastforce
    have body: "execute_body fw rp lock_free c now (begun db)
        = or_else (run_action fw rp c ?run) (\<lambda>e. and_then (statement (update_run ?run fail_run)) (\<lambda>_. give (RunFailed ?run e))) (begun ?db1)"
      using run insert by (simp add: execute_body_def and_then_def dict_argument_def give_def)
    show ?thesis
    proof (cases o1)
      case (Inl e)
      with run_action_outcome [OF one run(2)] one assms(1) rolled map_new_run [OF assms(2), of fail_run] show ?thesis
        unfolding cursor body
        by (auto simp: or_else_def and_then_def give_def statement_def update_run_def intro!: numbered_new simp: fail_run_def)
    next
      case (Inr r)
      with run_action_outcome [OF one run(2)] one assms(1) map_new_run [OF assms(2)] show ?thesis
        unfolding cursor body
        by (auto simp: or_else_def intro!: kept [of _ "succeed_run _"] simp: succeed_run_def)
    qed
  qed (use assms rolled insert in \<open>auto simp: cursor execute_body_def and_then_def dict_argument_def give_def fail_def\<close>)
qed

text \<open>C16: an execution either leaves the tables as they are, and then nothing records that it was tried, or it leaves
  exactly one finished run of the automation, with the run of a task that exists if the action has a task, and
  without any change of tasks if the action failed.\<close>
theorem execution_atomic:
  assumes "execute_candidate fw rp lock_free c now db = (out, db')" and "numbered db"
  shows "rd_rules db' = rd_rules db \<and> (case out of
      Inl e \<Rightarrow> same_tables db db' \<and> (e = DriverFault \<or> e = SqlFault)
    | Inr SkippedLocked \<Rightarrow> db' = db
    | Inr (Succeeded run made) \<Rightarrow>
        rd_runs db' = rd_runs db @ [succeed_run made (run_row run c now)]
        \<and> rd_task_runs db' = rd_task_runs db @ task_runs_made (ca_workspace c) run made
    | Inr (RunFailed run e) \<Rightarrow>
        e = ValueFault \<and> rd_runs db' = rd_runs db @ [fail_run (run_row run c now)]
        \<and> rd_tasks db' = rd_tasks db \<and> rd_task_runs db' = rd_task_runs db)"
  using execution_outcome [OF assms] by simp

section \<open>Examples\<close>

text \<open>A rule of workspace 1 with an action that the code does not know, and a task of workspace 2.\<close>

definition reminder :: candidate where
  "reminder = \<lparr>ca_id = 5, ca_workspace = 1, ca_name = lit ''r'', ca_action = lit ''notify'', ca_config = [(lit ''task_id'', PInt 7)],
     ca_last_run = None\<rparr>"

definition reminder_db :: "task_row list \<Rightarrow> rule_db" where
  "reminder_db tasks = \<lparr>rd_rules = [\<lparr>au_id = 5, au_workspace = 1, au_name = lit ''r'', au_trigger = lit ''schedule'',
       au_action = lit ''notify'', au_config = [(lit ''task_id'', PInt 7)], au_enabled = True, ru_updated = 0\<rparr>],
     rd_tasks = tasks, rd_runs = [], rd_task_runs = [], rd_next_task = 8, rd_next_run = 1, rd_next_task_run = 1\<rparr>"

definition foreign_task :: task_row where
  "foreign_task = \<lparr>tk_id = 7, tk_workspace = 2, tk_title = lit ''t'', tk_description = None, tk_status = lit ''todo'',
     tk_priority = lit ''normal''\<rparr>"

definition adapting :: framework where
  "adapting = \<lparr>fw_json = (\<lambda>_. None), fw_int = (\<lambda>_. None), fw_bool = (\<lambda>_. None), fw_ilike = (\<lambda>_ _. False),
     fw_adapts_dict = True\<rparr>"

lemma reminder_action:
  "apply_automation_action rp reminder = give (Some (PInt 7))"
  by (simp add: apply_automation_action_def reminder_def get_configured_task_id_def int_instance_def lower_def lower_char_def
      strip_def lstrip_def rstrip_def lit_def)

lemmas reminder_run = execute_candidate_def with_cursor_def execute_body_def run_action_def reminder_action step_defs
  adapting_def insert_run_def create_task_run_def insert_task_run_def update_run_def reminder_db_def Let_def

lemma reminder_fields: "ca_id reminder = 5" "ca_workspace reminder = 1"
  by (simp_all add: reminder_def)

text \<open>The run is recorded in workspace 1 for the task of workspace 2.\<close>

lemma foreign_task_run:
  "execute_candidate adapting rp True reminder 0 (reminder_db [foreign_task])
     = (Inr (Succeeded 1 (Some (7, 1))), (reminder_db [foreign_task])\<lparr>
          rd_runs := [succeed_run (Some (7, 1)) (run_row 1 reminder 0)],
          rd_task_runs := [\<lparr>tn_id = 1, tn_task = 7, tn_workspace = 1, tn_run = 1\<rparr>], rd_next_run := 2, rd_next_task_run := 2\<rparr>)"
  by (simp add: reminder_run reminder_fields foreign_task_def run_row_def succeed_run_def)

text \<open>Without the task, the failed statement leaves nothing behind.\<close>

lemma missing_task_unrecorded:
  "execute_candidate adapting rp True reminder 0 (reminder_db [])
     = (Inl SqlFault, (reminder_db [])\<lparr>rd_next_run := 2, rd_next_task_run := 2\<rparr>)"
  by (simp add: reminder_run reminder_fields roll_back_def)

theorem execution_atomic_witness:
  "same_tables (reminder_db []) ((reminder_db [])\<lparr>rd_next_run := 2, rd_next_task_run := 2\<rparr>)"
  using execution_atomic [OF missing_task_unrecorded [of "\<lambda>_. []"]] by (simp add: numbered_def reminder_db_def)

end
