(* ===== verification/AutomationScheduler.thy ===== *)
theory AutomationScheduler
  imports AutomationRuns "HOL-Library.Product_Lexorder" "HOL-Library.Multiset"
begin

text \<open>
  The queue and the workers of \<open>AutomationActionWorker\<close> and the polling of \<open>AutomationScheduler\<close>
  (\<open>api/automation/scheduler.py\<close>). An action of the system is what happens between two points where tasks of the
  event loop can change: reading the candidates, queueing those that are due, a worker taking one, the
  transaction in its thread, and the worker's end with the event it publishes.
\<close>

section \<open>The worker\<close>

record queued_run =
  qr_candidate :: candidate
  qr_scheduled :: int

datatype worker_state = Waiting | Running queued_run | Publishing queued_run "fault + run_result" | Ended

record action_worker =
  aw_queue :: "queued_run list"
  aw_maxsize :: nat
  aw_concurrency :: nat
  aw_workers :: "worker_state list"
  aw_stopping :: bool
  aw_inflight :: "int list" \<comment> \<open>a set\<close>

definition new_worker :: "int \<Rightarrow> int \<Rightarrow> action_worker" where
  "new_worker queue_size concurrency = \<lparr>aw_queue = [], aw_maxsize = nat (max 1 queue_size),
     aw_concurrency = nat (max 1 concurrency), aw_workers = [], aw_stopping = False, aw_inflight = []\<rparr>"

definition running :: "action_worker \<Rightarrow> bool" where
  "running w \<longleftrightarrow> list_ex (\<lambda>s. s \<noteq> Ended) (aw_workers w)"

definition start_worker :: "action_worker \<Rightarrow> action_worker" where
  "start_worker w =
     (if running w then w else w\<lparr>aw_stopping := False, aw_workers := replicate (aw_concurrency w) Waiting\<rparr>)"

text \<open>\<open>stop\<close> first waits for the queue, for two seconds at most, while the workers see that they should end; then it
  cancels them. The threads of cancelled workers go on: they are the second result.\<close>

definition begin_stop :: "action_worker \<Rightarrow> action_worker" where
  "begin_stop w = w\<lparr>aw_stopping := True\<rparr>"

definition end_stop :: "action_worker \<Rightarrow> action_worker \<times> queued_run list" where
  "end_stop w =
     (w\<lparr>aw_workers := [], aw_inflight := [], aw_queue := []\<rparr>,
      concat (map (\<lambda>s. case s of Running q \<Rightarrow> [q] | _ \<Rightarrow> []) (aw_workers w)))"

definition enqueue :: "candidate \<Rightarrow> int \<Rightarrow> action_worker \<Rightarrow> action_worker \<times> bool" where
  "enqueue c now w =
     (if ca_id c \<in> set (aw_inflight w) then (w, False)
      else if aw_maxsize w \<le> length (aw_queue w) then (w, False)
      else (w\<lparr>aw_queue := aw_queue w @ [\<lparr>qr_candidate = c, qr_scheduled = now\<rparr>],
              aw_inflight := ca_id c # aw_inflight w\<rparr>, True))"

text \<open>The three parts of a turn of \<open>_worker_loop\<close>. The loop ends at its head, before it waits for the queue again.\<close>

definition take_run :: "nat \<Rightarrow> action_worker \<Rightarrow> action_worker option" where
  "take_run i w =
     (if i < length (aw_workers w) \<and> aw_workers w ! i = Waiting \<and> aw_queue w \<noteq> []
      then Some (w\<lparr>aw_queue := tl (aw_queue w), aw_workers := (aw_workers w)[i := Running (hd (aw_queue w))]\<rparr>)
      else None)"

definition run_done :: "nat \<Rightarrow> queued_run \<Rightarrow> fault + run_result \<Rightarrow> action_worker \<Rightarrow> action_worker" where
  "run_done i q out w = w\<lparr>aw_workers := (aw_workers w)[i := Publishing q out]\<rparr>"

definition finish_run :: "nat \<Rightarrow> queued_run \<Rightarrow> action_worker \<Rightarrow> action_worker" where
  "finish_run i q w =
     w\<lparr>aw_workers := (aw_workers w)[i := (if aw_stopping w then Ended else Waiting)],
       aw_inflight := removeAll (ca_id (qr_candidate q)) (aw_inflight w)\<rparr>"

definition run_event :: "queued_run \<Rightarrow> fault + run_result \<Rightarrow> (int \<times> string) list" where
  "run_event q out =
     (case out of
        Inl _ \<Rightarrow> []
      | Inr (Succeeded _ _) \<Rightarrow> [(ca_workspace (qr_candidate q), ''automation.run.completed'')]
      | Inr SkippedLocked \<Rightarrow> [(ca_workspace (qr_candidate q), ''automation.run.skipped'')]
      | Inr (RunFailed _ _) \<Rightarrow> [(ca_workspace (qr_candidate q), ''automation.run.failed'')])"

section \<open>The scheduler\<close>

definition last_run_at :: "rule_db \<Rightarrow> int \<Rightarrow> int option" where
  "last_run_at db automation_id =
     (case filter (\<lambda>r. ar_automation r = automation_id) (rd_runs db) of
        [] \<Rightarrow> None
      | rs \<Rightarrow> Some (Max (set (map ar_created rs))))"

definition candidate_of :: "rule_db \<Rightarrow> rule_row \<Rightarrow> candidate" where
  "candidate_of db r = \<lparr>ca_id = au_id r, ca_workspace = au_workspace r, ca_name = au_name r, ca_action = au_action r,
     ca_config = au_config r, ca_last_run = last_run_at db (au_id r)\<rparr>"

definition fetch_candidates :: "int \<Rightarrow> rule_db \<Rightarrow> candidate list" where
  "fetch_candidates max_batch db =
     map (candidate_of db) (take (nat (max 1 max_batch)) (rev (sort_key (\<lambda>r. (ru_updated r, au_id r))
       (filter (\<lambda>r. au_enabled r \<and> au_trigger r = lit ''schedule'') (rd_rules db)))))"

text \<open>One rule that raises ends the tick before anything is queued.\<close>

fun due_candidates :: "int \<Rightarrow> candidate list \<Rightarrow> candidate list result" where
  "due_candidates now [] = Inr []"
| "due_candidates now (c # cs) =
     rbind (is_daily_rule_due (ca_config c) (ca_last_run c) now) (\<lambda>due.
     rbind (due_candidates now cs) (\<lambda>rest. Inr (if due then c # rest else rest)))"

definition enqueue_all :: "int \<Rightarrow> candidate list \<Rightarrow> action_worker \<Rightarrow> action_worker" where
  "enqueue_all now cs w = fold (\<lambda>c w. fst (enqueue c now w)) cs w"

text \<open>How many of them were queued.\<close>

fun enqueued :: "int \<Rightarrow> candidate list \<Rightarrow> action_worker \<Rightarrow> nat" where
  "enqueued now [] w = 0"
| "enqueued now (c # cs) w = (case enqueue c now w of (w', b) \<Rightarrow> (if b then 1 else 0) + enqueued now cs w')"

record scheduler =
  sd_db :: rule_db
  sd_worker :: action_worker
  sd_clock :: int \<comment> \<open>what \<open>datetime.now\<close> gives this process\<close>
  sd_tick :: "(int \<times> candidate list) option" \<comment> \<open>a tick that has read its candidates: its time and them\<close>
  sd_events :: "(int \<times> string) list"
  sd_abandoned :: "queued_run list" \<comment> \<open>runs whose worker was cancelled: their threads go on\<close>

text \<open>A transaction takes its time from the clock of the database, which is ahead of the clock of the process by a number
  of its own at each execution. The last actions are those of the other tasks of the process, which stop and start the
  scheduler, of the threads that are left over, and of everything else that changes the database: other processes, and the
  endpoints.\<close>

datatype sched_action =
    Pass int
  | BeginTick
  | EndTick
  | Take nat
  | Execute nat bool int \<comment> \<open>whether the advisory lock is free, and how far the database is ahead\<close>
  | Finish nat
  | BeginStop
  | EndStop
  | StartAgain
  | ExecuteAbandoned nat bool int
  | Elsewhere "rule_db \<Rightarrow> rule_db"

definition end_tick :: "int \<Rightarrow> candidate list \<Rightarrow> action_worker \<Rightarrow> action_worker" where
  "end_tick now cs w = (case due_candidates now cs of Inl _ \<Rightarrow> w | Inr due \<Rightarrow> enqueue_all now due w)"

definition perform ::
    "framework \<Rightarrow> (pyval \<Rightarrow> pystr) \<Rightarrow> int \<Rightarrow> sched_action \<Rightarrow> scheduler \<Rightarrow> scheduler option" where
  "perform fw rp max_batch a s =
     (let w = sd_worker s
      in case a of
           Pass d \<Rightarrow> if 0 \<le> d then Some (s\<lparr>sd_clock := sd_clock s + d\<rparr>) else None
         | BeginTick \<Rightarrow>
             if sd_tick s = None then Some (s\<lparr>sd_tick := Some (sd_clock s, fetch_candidates max_batch (sd_db s))\<rparr>) else None
         | EndTick \<Rightarrow>
             (case sd_tick s of
                None \<Rightarrow> None
              | Some (now, cs) \<Rightarrow> Some (s\<lparr>sd_tick := None, sd_worker := end_tick now cs w\<rparr>))
         | Take i \<Rightarrow> map_option (\<lambda>w'. s\<lparr>sd_worker := w'\<rparr>) (take_run i w)
         | Execute i lock_free ahead \<Rightarrow>
             if i < length (aw_workers w)
             then (case aw_workers w ! i of
                     Running q \<Rightarrow>
                       (case execute_candidate fw rp lock_free (qr_candidate q) (sd_clock s + ahead) (sd_db s) of
                          (out, db) \<Rightarrow> Some (s\<lparr>sd_db := db, sd_worker := run_done i q out w\<rparr>))
                   | _ \<Rightarrow> None)
             else None
         | Finish i \<Rightarrow>
             if i < length (aw_workers w)
             then (case aw_workers w ! i of
                     Publishing q out \<Rightarrow>
                       Some (s\<lparr>sd_worker := finish_run i q w, sd_events := sd_events s @ run_event q out\<rparr>)
                   | _ \<Rightarrow> None)
             else None
         | BeginStop \<Rightarrow> Some (s\<lparr>sd_tick := None, sd_worker := begin_stop w\<rparr>)
         | EndStop \<Rightarrow>
             if aw_stopping w
             then (case end_stop w of (w', left_over) \<Rightarrow> Some (s\<lparr>sd_worker := w', sd_abandoned := sd_abandoned s @ left_over\<rparr>))
             else None
         | StartAgain \<Rightarrow> Some (s\<lparr>sd_worker := start_worker w\<rparr>)
         | ExecuteAbandoned k lock_free ahead \<Rightarrow>
             if k < length (sd_abandoned s)
             then (case execute_candidate fw rp lock_free (qr_candidate (sd_abandoned s ! k)) (sd_clock s + ahead) (sd_db s) of
                     (_, db) \<Rightarrow> Some (s\<lparr>sd_db := db, sd_abandoned := take k (sd_abandoned s) @ drop (Suc k) (sd_abandoned s)\<rparr>))
             else None
         | Elsewhere f \<Rightarrow> Some (s\<lparr>sd_db := f (sd_db s)\<rparr>))"

text \<open>A single scheduler that is not stopped to the end, with a database whose clock is not behind, and nothing else at work.\<close>

fun alone :: "sched_action \<Rightarrow> bool" where
  "alone (Execute i lock_free ahead) \<longleftrightarrow> 0 \<le> ahead"
| "alone EndStop \<longleftrightarrow> False"
| "alone StartAgain \<longleftrightarrow> False"
| "alone (ExecuteAbandoned k lock_free ahead) \<longleftrightarrow> False"
| "alone (Elsewhere f) \<longleftrightarrow> False"
| "alone a \<longleftrightarrow> True"

fun perform_all ::
    "framework \<Rightarrow> (pyval \<Rightarrow> pystr) \<Rightarrow> int \<Rightarrow> sched_action list \<Rightarrow> scheduler \<Rightarrow> scheduler option" where
  "perform_all fw rp max_batch [] s = Some s"
| "perform_all fw rp max_batch (a # as) s = Option.bind (perform fw rp max_batch a s) (perform_all fw rp max_batch as)"

text \<open>\<open>tick_once\<close> when nothing happens in between, with the number it returns; starting and stopping the scheduler.\<close>

definition tick_once :: "int \<Rightarrow> int \<Rightarrow> rule_db \<Rightarrow> action_worker \<Rightarrow> (action_worker \<times> nat) result" where
  "tick_once max_batch now db w =
     rbind (due_candidates now (fetch_candidates max_batch db)) (\<lambda>due. Inr (enqueue_all now due w, enqueued now due w))"

definition start_scheduler :: "bool \<times> scheduler \<Rightarrow> bool \<times> scheduler" where
  "start_scheduler rs = (case rs of (loop_running, s) \<Rightarrow>
     if loop_running then rs else (True, s\<lparr>sd_worker := start_worker (sd_worker s)\<rparr>))"

definition begin_stop_scheduler :: "bool \<times> scheduler \<Rightarrow> bool \<times> scheduler" where
  "begin_stop_scheduler rs = (case rs of (_, s) \<Rightarrow> (False, s\<lparr>sd_tick := None, sd_worker := begin_stop (sd_worker s)\<rparr>))"

section \<open>The worker keeps track of what is pending\<close>

definition active_run :: "worker_state \<Rightarrow> queued_run list" where
  "active_run st = (case st of Running q \<Rightarrow> [q] | Publishing q _ \<Rightarrow> [q] | _ \<Rightarrow> [])"

definition pending :: "action_worker \<Rightarrow> int list" where
  "pending w = map (ca_id \<circ> qr_candidate) (aw_queue w @ concat (map active_run (aw_workers w)))"

definition worker_ok :: "action_worker \<Rightarrow> bool" where
  "worker_ok w \<longleftrightarrow> distinct (pending w) \<and> set (aw_inflight w) = set (pending w) \<and> length (aw_queue w) \<le> aw_maxsize w
     \<and> length (aw_workers w) \<le> aw_concurrency w"

lemma mset_concat_update:
  "i < length xs \<Longrightarrow> mset (concat (map f (xs[i := y]))) + mset (f (xs ! i)) = mset (concat (map f xs)) + mset (f y)"
proof (induction xs arbitrary: i)
  case (Cons x xs)
  then show ?case by (cases i) (auto simp: ac_simps)
qed simp

lemma concat_update_same: "i < length xs \<Longrightarrow> f (xs ! i) = f y \<Longrightarrow> concat (map f (xs[i := y])) = concat (map f xs)"
  by (induction xs arbitrary: i) (auto split: nat.split)

lemma pending_mset:
  assumes "mset (pending w') = mset (pending w)"
  shows "distinct (pending w') \<longleftrightarrow> distinct (pending w)" "set (pending w') = set (pending w)"
  using assms by (metis mset_eq_imp_distinct_iff, metis mset_eq_setD)

lemma pending_take:
  assumes "take_run i w = Some w'"
  shows "mset (pending w') = mset (pending w)"
proof -
  obtain q rest where q: "aw_queue w = q # rest" and i: "i < length (aw_workers w)" "aw_workers w ! i = Waiting"
    using assms by (cases "aw_queue w") (auto simp: take_run_def split: if_splits)
  have "mset (concat (map active_run ((aw_workers w)[i := Running q]))) = mset (concat (map active_run (aw_workers w))) + {#q#}"
    using mset_concat_update [OF i(1), of active_run "Running q"] i(2) by (simp add: active_run_def)
  with assms q i show ?thesis
    by (auto simp: take_run_def pending_def mset_map [symmetric] simp del: mset_map split: if_splits)
      (simp add: mset_map)
qed

lemma worker_ok_take: "take_run i w = Some w' \<Longrightarrow> worker_ok w \<Longrightarrow> worker_ok w'"
  using pending_mset [OF pending_take] by (auto simp: worker_ok_def take_run_def split: if_splits)

lemma worker_ok_done:
  assumes "i < length (aw_workers w)" "aw_workers w ! i = Running q" "worker_ok w"
  shows "worker_ok (run_done i q out w)"
proof -
  have "pending (run_done i q out w) = pending w"
    using assms by (simp add: pending_def run_done_def concat_update_same active_run_def)
  with assms show ?thesis by (simp add: worker_ok_def) (simp add: run_done_def)
qed

lemma worker_ok_finish:
  assumes "i < length (aw_workers w)" "aw_workers w ! i = Publishing q out" "worker_ok w"
  shows "worker_ok (finish_run i q w)"
proof -
  have "mset (concat (map active_run (aw_workers w)))
      = mset (concat (map active_run (aw_workers (finish_run i q w)))) + {#q#}"
    using mset_concat_update [OF assms(1), of active_run "if aw_stopping w then Ended else Waiting"] assms(2)
    by (simp add: active_run_def finish_run_def split: if_splits)
  then have p: "mset (pending w) = add_mset (ca_id (qr_candidate q)) (mset (pending (finish_run i q w)))"
    by (simp add: pending_def) (simp add: finish_run_def)
  then have "distinct (ca_id (qr_candidate q) # pending (finish_run i q w))"
    using assms(3) mset_eq_imp_distinct_iff [of "pending w" "ca_id (qr_candidate q) # pending (finish_run i q w)"]
    by (simp add: worker_ok_def)
  moreover have "set (pending w) = insert (ca_id (qr_candidate q)) (set (pending (finish_run i q w)))"
    using p by (metis set_mset_add_mset_insert set_mset_mset)
  ultimately show ?thesis using assms(3) by (auto simp: worker_ok_def finish_run_def)
qed

lemma pending_enqueue:
  "pending (fst (enqueue c now w)) = pending w \<or> (ca_id c \<notin> set (aw_inflight w) \<and>
     mset (pending (fst (enqueue c now w))) = add_mset (ca_id c) (mset (pending w)))"
  by (simp add: enqueue_def pending_def)

lemma worker_ok_enqueue: "worker_ok w \<Longrightarrow> worker_ok (fst (enqueue c now w))"
  by (auto simp: worker_ok_def enqueue_def pending_def)

lemma worker_ok_enqueue_all: "worker_ok w \<Longrightarrow> worker_ok (enqueue_all now cs w)"
  unfolding enqueue_all_def by (induction cs arbitrary: w) (auto intro: worker_ok_enqueue)

lemma worker_ok_end_tick: "worker_ok w \<Longrightarrow> worker_ok (end_tick now cs w)"
  by (simp add: end_tick_def worker_ok_enqueue_all split: sum.split)

lemma worker_ok_start: "worker_ok (start_worker (new_worker n k))"
  by (simp add: worker_ok_def start_worker_def new_worker_def running_def pending_def active_run_def)

section \<open>A rule runs once a day\<close>

text \<open>The runs that are queued or taken but not executed yet.\<close>

definition waiting_runs :: "action_worker \<Rightarrow> queued_run list" where
  "waiting_runs w = aw_queue w @ concat (map (\<lambda>st. case st of Running q \<Rightarrow> [q] | _ \<Rightarrow> []) (aw_workers w))"

definition run_dates :: "int \<Rightarrow> int \<Rightarrow> rule_db \<Rightarrow> int list" where
  "run_dates offset automation_id db =
     map (\<lambda>r. local_date offset (ar_created r)) (filter (\<lambda>r. ar_automation r = automation_id) (rd_runs db))"

definition days_ok :: "int \<Rightarrow> int \<Rightarrow> scheduler \<Rightarrow> bool" where
  "days_ok offset a s \<longleftrightarrow>
     sorted_wrt (<) (run_dates offset a (sd_db s))
     \<and> (\<forall>q \<in> set (waiting_runs (sd_worker s)). ca_id (qr_candidate q) = a \<longrightarrow>
          qr_scheduled q \<le> sd_clock s \<and> (\<forall>d \<in> set (run_dates offset a (sd_db s)). d < local_date offset (qr_scheduled q)))"

definition sched_ok :: "rule_row list \<Rightarrow> scheduler \<Rightarrow> bool" where
  "sched_ok rules s \<longleftrightarrow> worker_ok (sd_worker s) \<and> numbered (sd_db s) \<and> rd_rules (sd_db s) = rules"

lemma distinct_mono:
  assumes "mset xs \<subseteq># mset ys" "distinct ys"
  shows "distinct xs"
proof -
  obtain zs where "mset zs = mset ys - mset xs" using ex_mset by blast
  with assms(1) have "mset (xs @ zs) = mset ys" by simp
  with assms(2) have "distinct (xs @ zs)" using mset_eq_imp_distinct_iff by blast
  then show ?thesis by simp
qed

lemma waiting_pending: "mset (map (ca_id \<circ> qr_candidate) (waiting_runs w)) \<subseteq># mset (pending w)"
proof -
  have "mset (concat (map (\<lambda>st. case st of Running q \<Rightarrow> [q] | _ \<Rightarrow> []) ws)) \<subseteq># mset (concat (map active_run ws))" for ws
  proof (induction ws)
    case (Cons st ws)
    then show ?case
      by (cases st) (auto simp: active_run_def intro: subset_mset.order_trans multi_self_add_other_not_self
          subset_mset.less_imp_le)
  qed simp
  then show ?thesis
    unfolding pending_def waiting_runs_def by (simp add: image_mset_subseteq_mono subset_mset.add_mono)
qed

lemma waiting_take: "take_run i w = Some w' \<Longrightarrow> mset (waiting_runs w') = mset (waiting_runs w)"
  using mset_concat_update [of i "aw_workers w" "\<lambda>st. case st of Running q \<Rightarrow> [q] | _ \<Rightarrow> []" "Running (hd (aw_queue w))"]
  by (cases "aw_queue w") (auto simp: take_run_def waiting_runs_def split: if_splits)

lemma waiting_done:
  assumes "i < length (aw_workers w)" "aw_workers w ! i = Running q"
  shows "mset (waiting_runs w) = add_mset q (mset (waiting_runs (run_done i q out w)))"
  using mset_concat_update [OF assms(1), of "\<lambda>st. case st of Running q \<Rightarrow> [q] | _ \<Rightarrow> []" "Publishing q out"] assms(2)
  by (simp add: waiting_runs_def run_done_def)

lemma waiting_finish:
  assumes "i < length (aw_workers w)" "aw_workers w ! i = Publishing q out"
  shows "waiting_runs (finish_run i q w) = waiting_runs w"
  using assms by (simp add: waiting_runs_def finish_run_def concat_update_same)

lemma done_not_waiting:
  assumes "worker_ok w" "i < length (aw_workers w)" "aw_workers w ! i = Running q" "p \<in> set (waiting_runs (run_done i q out w))"
  shows "ca_id (qr_candidate p) \<noteq> ca_id (qr_candidate q)" "p \<in> set (waiting_runs w)"
proof -
  have "distinct (map (ca_id \<circ> qr_candidate) (waiting_runs w))"
    using assms(1) waiting_pending [of w] distinct_mono unfolding worker_ok_def by blast
  moreover have m: "mset (waiting_runs w) = mset (q # waiting_runs (run_done i q out w))"
    using waiting_done [OF assms(2,3)] by simp
  then have "mset (map (ca_id \<circ> qr_candidate) (waiting_runs w))
      = mset (map (ca_id \<circ> qr_candidate) (q # waiting_runs (run_done i q out w)))" by simp
  ultimately have "distinct (map (ca_id \<circ> qr_candidate) (q # waiting_runs (run_done i q out w)))"
    using mset_eq_imp_distinct_iff by blast
  with assms(4) show "ca_id (qr_candidate p) \<noteq> ca_id (qr_candidate q)" by (auto simp: image_iff)
  show "p \<in> set (waiting_runs w)" using m assms(4) by (metis list.set_intros(2) mset_eq_setD)
qed

text \<open>What a tick queues.\<close>

lemma waiting_enqueue_all:
  "q \<in> set (waiting_runs (enqueue_all now cs w)) \<Longrightarrow>
     q \<in> set (waiting_runs w) \<or> (\<exists>c \<in> set cs. q = \<lparr>qr_candidate = c, qr_scheduled = now\<rparr>)"
proof (induction cs arbitrary: w)
  case (Cons c cs)
  from Cons.prems have "q \<in> set (waiting_runs (enqueue_all now cs (fst (enqueue c now w))))" by (simp add: enqueue_all_def)
  with Cons.IH have "q \<in> set (waiting_runs (fst (enqueue c now w))) \<or> (\<exists>c \<in> set cs. q = \<lparr>qr_candidate = c, qr_scheduled = now\<rparr>)"
    by blast
  then show ?case by (auto simp: enqueue_def waiting_runs_def split: if_splits)
qed (simp add: enqueue_all_def)

lemma due_candidates_in:
  "due_candidates now cs = Inr due \<Longrightarrow> c \<in> set due \<Longrightarrow> c \<in> set cs \<and> is_daily_rule_due (ca_config c) (ca_last_run c) now = Inr True"
  by (induction cs arbitrary: due) (auto simp: rbind_Inr_iff split: if_splits)

lemma fetched_rule: "c \<in> set (fetch_candidates b db) \<Longrightarrow> \<exists>r \<in> set (rd_rules db). c = candidate_of db r"
  unfolding fetch_candidates_def by (auto dest!: in_set_takeD)

lemma last_run_dates:
  assumes "d \<in> set (run_dates offset a db)"
  obtains l where "last_run_at db a = Some l" "d \<le> local_date offset l"
proof -
  let ?rs = "filter (\<lambda>r. ar_automation r = a) (rd_runs db)"
  from assms obtain r where r: "r \<in> set ?rs" "d = local_date offset (ar_created r)" by (auto simp: run_dates_def)
  then have "last_run_at db a = Some (Max (set (map ar_created ?rs)))"
    unfolding last_run_at_def by (cases ?rs) (simp_all del: set_filter)
  moreover have "ar_created r \<le> Max (set (map ar_created ?rs))" using r(1) by (intro Max_ge) auto
  ultimately show ?thesis using that r(2) local_date_mono by blast
qed

text \<open>An execution records at most one run, of its own automation and at the time of its transaction.\<close>

lemma executed_runs:
  assumes "execute_candidate fw rp l c now db = (out, db')" "numbered db"
  shows "rd_rules db' = rd_rules db" "numbered db'"
    "rd_runs db' = rd_runs db \<or> (\<exists>r. rd_runs db' = rd_runs db @ [r] \<and> ar_automation r = ca_id c \<and> ar_created r = now)"
  using execution_outcome [OF assms]
  by (auto simp: same_tables_def succeed_run_def fail_run_def run_row_def split: sum.splits run_result.splits)

lemma days_waiting:
  "days_ok offset a s \<Longrightarrow> set (waiting_runs w) \<subseteq> set (waiting_runs (sd_worker s)) \<Longrightarrow> days_ok offset a (s\<lparr>sd_worker := w\<rparr>)"
  by (auto simp: days_ok_def)

lemma days_execute:
  assumes "days_ok offset a s" "sched_ok rules s" "i < length (aw_workers (sd_worker s))"
    and "aw_workers (sd_worker s) ! i = Running q"
    and "execute_candidate fw rp l (qr_candidate q) (sd_clock s + ahead) (sd_db s) = (out, db)" "0 \<le> ahead"
  shows "days_ok offset a (s\<lparr>sd_db := db, sd_worker := run_done i q out (sd_worker s)\<rparr>)"
proof -
  let ?w = "run_done i q out (sd_worker s)"
  note waiting = done_not_waiting [OF _ assms(3,4), of _ out]
  have ok: "worker_ok (sd_worker s)" "numbered (sd_db s)" using assms(2) by (simp_all add: sched_ok_def)
  have q: "q \<in> set (waiting_runs (sd_worker s))" using waiting_done [OF assms(3,4)] by (metis list.set_intros(1) mset.simps(2) mset_eq_setD)
  from executed_runs(3) [OF assms(5) ok(2)] show ?thesis
  proof
    assume "rd_runs db = rd_runs (sd_db s)"
    then have "days_ok offset a (s\<lparr>sd_db := db\<rparr>)" using assms(1) by (simp add: days_ok_def run_dates_def)
    then have "days_ok offset a (s\<lparr>sd_db := db\<rparr>\<lparr>sd_worker := ?w\<rparr>)"
      using waiting(2) [OF ok(1)] by (intro days_waiting) auto
    then show ?thesis by simp
  next
    assume "\<exists>r. rd_runs db = rd_runs (sd_db s) @ [r] \<and> ar_automation r = ca_id (qr_candidate q) \<and> ar_created r = sd_clock s + ahead"
    then obtain r where r: "rd_runs db = rd_runs (sd_db s) @ [r]" "ar_automation r = ca_id (qr_candidate q)" "ar_created r = sd_clock s + ahead"
      by blast
    have dates: "run_dates offset a db = run_dates offset a (sd_db s)
        @ (if ca_id (qr_candidate q) = a then [local_date offset (sd_clock s + ahead)] else [])"
      using r by (simp add: run_dates_def)
    have new: "\<forall>d \<in> set (run_dates offset a (sd_db s)). d < local_date offset (sd_clock s + ahead)" if "ca_id (qr_candidate q) = a"
      using assms(1,6) q that local_date_mono [of "qr_scheduled q" "sd_clock s + ahead" offset] by (fastforce simp: days_ok_def)
    show ?thesis
      unfolding days_ok_def
    proof (intro conjI ballI impI)
      show "sorted_wrt (<) (run_dates offset a (sd_db (s\<lparr>sd_db := db, sd_worker := ?w\<rparr>)))"
        using assms(1) new dates by (simp add: days_ok_def sorted_wrt_append)
    next
      fix p
      assume p: "p \<in> set (waiting_runs (sd_worker (s\<lparr>sd_db := db, sd_worker := ?w\<rparr>)))" "ca_id (qr_candidate p) = a"
      then have "p \<in> set (waiting_runs ?w)" by simp
      from waiting [OF ok(1) this] p(2) have "p \<in> set (waiting_runs (sd_worker s))" "ca_id (qr_candidate q) \<noteq> a" by auto
      with assms(1) p(2) dates
      show "qr_scheduled p \<le> sd_clock (s\<lparr>sd_db := db, sd_worker := ?w\<rparr>)"
        "\<And>d. d \<in> set (run_dates offset a (sd_db (s\<lparr>sd_db := db, sd_worker := ?w\<rparr>))) \<Longrightarrow> d < local_date offset (qr_scheduled p)"
        by (simp_all add: days_ok_def)
    qed
  qed
qed

lemma worker_ok_begin_stop: "worker_ok (begin_stop w) = worker_ok w"
  by (simp add: worker_ok_def begin_stop_def pending_def)

lemma step_ok:
  assumes "perform fw rp b a s = Some s'" "sched_ok rules s" "alone a"
  shows "sched_ok rules s'"
proof (cases a)
  case (Execute i l ahead)
  with assms show ?thesis
    by (auto simp: perform_def sched_ok_def Let_def executed_runs intro: worker_ok_done split: if_splits worker_state.splits prod.splits)
qed (use assms in \<open>auto simp: perform_def sched_ok_def Let_def worker_ok_begin_stop intro: worker_ok_take worker_ok_finish worker_ok_end_tick
    split: if_splits worker_state.splits option.splits\<close>)

lemma step_days:
  assumes "perform fw rp b act s = Some s'" "sched_ok rules s" "days_ok offset a s" "act \<noteq> EndTick" "alone act"
  shows "days_ok offset a s'"
proof (cases act)
  case (Take i)
  with assms obtain w where w: "take_run i (sd_worker s) = Some w" "s' = s\<lparr>sd_worker := w\<rparr>" by (auto simp: perform_def)
  have "set (waiting_runs w) = set (waiting_runs (sd_worker s))" using waiting_take [OF w(1)] by (rule mset_eq_setD)
  with assms w show ?thesis by (auto intro: days_waiting)
next
  case (Execute i l ahead)
  with assms obtain q out db where "i < length (aw_workers (sd_worker s))" "aw_workers (sd_worker s) ! i = Running q"
      "execute_candidate fw rp l (qr_candidate q) (sd_clock s + ahead) (sd_db s) = (out, db)"
      "s' = s\<lparr>sd_db := db, sd_worker := run_done i q out (sd_worker s)\<rparr>"
    by (auto simp: perform_def Let_def split: if_splits worker_state.splits prod.splits)
  with days_execute [OF assms(3,2)] assms(5) Execute show ?thesis by simp
next
  case (Finish i)
  with assms obtain q out where q: "i < length (aw_workers (sd_worker s))" "aw_workers (sd_worker s) ! i = Publishing q out"
      "s' = s\<lparr>sd_worker := finish_run i q (sd_worker s), sd_events := sd_events s @ run_event q out\<rparr>"
    by (auto simp: perform_def Let_def split: if_splits worker_state.splits)
  with assms(3) waiting_finish [OF q(1,2)] show ?thesis by (simp add: days_ok_def)
next
  case BeginStop
  with assms show ?thesis by (auto simp: perform_def days_ok_def waiting_runs_def begin_stop_def)
qed (use assms in \<open>fastforce simp: perform_def days_ok_def Let_def split: if_splits\<close>)+

text \<open>A tick that nothing interrupts.\<close>

lemma tick_days:
  assumes "perform fw rp b BeginTick s = Some s1" "perform fw rp b EndTick s1 = Some s2" "sched_ok rules s"
    and "rule \<in> set rules" "distinct (map au_id rules)" "extract_daily_schedule (au_config rule) = Inr (Some sc)"
    and "days_ok (sc_offset sc) (au_id rule) s"
  shows "days_ok (sc_offset sc) (au_id rule) s2"
proof -
  let ?now = "sd_clock s" and ?cs = "fetch_candidates b (sd_db s)" and ?w = "sd_worker s"
  from assms(1,2) have s2: "sd_db s2 = sd_db s" "sd_clock s2 = ?now" "sd_worker s2 = end_tick ?now ?cs ?w"
    by (auto simp: perform_def split: if_splits)
  have new: "\<forall>d \<in> set (run_dates (sc_offset sc) (au_id rule) (sd_db s)). d < local_date (sc_offset sc) ?now"
    if c: "c \<in> set due" "ca_id c = au_id rule" and due: "due_candidates ?now ?cs = Inr due" for c due
  proof
    fix d
    assume d: "d \<in> set (run_dates (sc_offset sc) (au_id rule) (sd_db s))"
    from due_candidates_in [OF due c(1)] have c': "c \<in> set ?cs" "is_daily_rule_due (ca_config c) (ca_last_run c) ?now = Inr True"
      by blast+
    from fetched_rule [OF c'(1)] obtain r where r: "r \<in> set rules" "c = candidate_of (sd_db s) r"
      using assms(3) by (auto simp: sched_ok_def)
    with c(2) assms(4,5) have "r = rule" by (auto simp: candidate_of_def dest: eq_key_imp_eq_value inj_onD [OF distinct_map [THEN iffD1, THEN conjunct2]])
    with r have fields: "ca_config c = au_config rule" "ca_last_run c = last_run_at (sd_db s) (au_id rule)"
      by (simp_all add: candidate_of_def)
    from last_run_dates [OF d] obtain l where l: "last_run_at (sd_db s) (au_id rule) = Some l" "d \<le> local_date (sc_offset sc) l" .
    with due_dates [of "au_config rule" l ?now] c'(2) fields assms(6) show "d < local_date (sc_offset sc) ?now" by auto
  qed
  have "qr_scheduled q \<le> ?now \<and> (\<forall>d \<in> set (run_dates (sc_offset sc) (au_id rule) (sd_db s)). d < local_date (sc_offset sc) (qr_scheduled q))"
    if q: "q \<in> set (waiting_runs (end_tick ?now ?cs ?w))" "ca_id (qr_candidate q) = au_id rule" for q
  proof (cases "q \<in> set (waiting_runs ?w)")
    case True
    with assms(7) q show ?thesis by (simp add: days_ok_def)
  next
    case False
    with q obtain due c where "due_candidates ?now ?cs = Inr due" "c \<in> set due" "q = \<lparr>qr_candidate = c, qr_scheduled = ?now\<rparr>"
      by (auto simp: end_tick_def split: sum.splits dest: waiting_enqueue_all)
    with new q(2) show ?thesis by auto
  qed
  with assms(7) s2 show ?thesis by (simp add: days_ok_def)
qed

text \<open>Ticks that nothing interrupts between their two actions.\<close>

fun uninterrupted :: "sched_action list \<Rightarrow> bool" where
  "uninterrupted [] \<longleftrightarrow> True"
| "uninterrupted [a] \<longleftrightarrow> a \<noteq> BeginTick \<and> a \<noteq> EndTick"
| "uninterrupted (a # b # as) \<longleftrightarrow>
     (if a = BeginTick then b = EndTick \<and> uninterrupted as else a \<noteq> EndTick \<and> uninterrupted (b # as))"

lemma uninterrupted_days:
  assumes "perform_all fw rp b as s = Some s'" "uninterrupted as" "list_all alone as" "sched_ok rules s"
    and "rule \<in> set rules" "distinct (map au_id rules)" "extract_daily_schedule (au_config rule) = Inr (Some sc)"
    and "days_ok (sc_offset sc) (au_id rule) s"
  shows "days_ok (sc_offset sc) (au_id rule) s'"
  using assms(1,2,3,4,8)
proof (induction as arbitrary: s rule: uninterrupted.induct)
  case (2 a)
  then show ?case by (auto simp: bind_eq_Some_conv intro: step_days)
next
  case (3 a a' as)
  from 3(3) obtain s1 s2 where s: "perform fw rp b a s = Some s1" "perform fw rp b a' s1 = Some s2" "perform_all fw rp b as s2 = Some s'"
    by (auto simp: bind_eq_Some_conv)
  have own: "alone a" "alone a'" "list_all alone as" using 3(5) by simp_all
  have ok: "sched_ok rules s1" "sched_ok rules s2" using step_ok s(1,2) 3(6) own by blast+
  show ?case
  proof (cases "a = BeginTick")
    case True
    with 3(1) [OF True s(3) _ own(3) ok(2)] 3(4) tick_days [OF _ _ 3(6) assms(5-7) 3(7)] s show ?thesis by simp
  next
    case False
    from s have "perform_all fw rp b (a' # as) s1 = Some s'" by simp
    with 3(2) [OF False _ _ _ ok(1)] 3(4,5) step_days [OF s(1) 3(6,7)] False own(1) show ?thesis by simp
  qed
qed simp

text \<open>A scheduler as the program starts it on a database.\<close>

definition start_on :: "rule_db \<Rightarrow> int \<Rightarrow> int \<Rightarrow> int \<Rightarrow> scheduler" where
  "start_on db queue_size concurrency now =
     \<lparr>sd_db = db, sd_worker = start_worker (new_worker queue_size concurrency), sd_clock = now, sd_tick = None, sd_events = [],
      sd_abandoned = []\<rparr>"

definition fresh_scheduler :: "rule_row list \<Rightarrow> task_row list \<Rightarrow> int \<Rightarrow> int \<Rightarrow> int \<Rightarrow> int \<Rightarrow> scheduler" where
  "fresh_scheduler rules tasks next_task queue_size concurrency now =
     start_on \<lparr>rd_rules = rules, rd_tasks = tasks, rd_runs = [], rd_task_runs = [], rd_next_task = next_task, rd_next_run = 1,
        rd_next_task_run = 1\<rparr> queue_size concurrency now"

lemma started_ok: "numbered db \<Longrightarrow> sched_ok (rd_rules db) (start_on db q k now)"
  by (simp add: sched_ok_def start_on_def worker_ok_start)

lemma started_days: "sorted_wrt (<) (run_dates offset a db) \<Longrightarrow> days_ok offset a (start_on db q k now)"
  by (auto simp: days_ok_def start_on_def waiting_runs_def start_worker_def new_worker_def running_def)

text \<open>C14: a scheduler that is started on a table of runs, whatever runs it has, keeps the runs of a rule on different dates
  in the time zone of the rule, if they were so before: whatever the workers and the locks do, and also while it is being
  stopped. This holds of one scheduler alone, with rules that nobody changes, whose own clock never goes back and is never
  ahead of that of the database, and as long as no tick is interrupted between reading the candidates and queueing them.\<close>
theorem run_once_per_day:
  assumes "perform_all fw rp b as (start_on db q k now) = Some s" and "uninterrupted as" and "list_all alone as"
    and "numbered db" and "sorted_wrt (<) (run_dates (sc_offset sc) (au_id rule) db)"
    and "rule \<in> set (rd_rules db)" and "distinct (map au_id (rd_rules db))" and "extract_daily_schedule (au_config rule) = Inr (Some sc)"
  shows "sorted_wrt (<) (run_dates (sc_offset sc) (au_id rule) (sd_db s))"
  using uninterrupted_days [OF assms(1,2,3) started_ok [OF assms(4)] assms(6-8) started_days [OF assms(5)]] by (simp add: days_ok_def)

text \<open>A rule that is due at the beginning of the day, and does nothing but record its run.\<close>

definition midnight_rule :: rule_row where
  "midnight_rule = \<lparr>au_id = 5, au_workspace = 1, au_name = lit ''r'', au_trigger = lit ''schedule'', au_action = lit ''notify'',
     au_config = [(lit ''hour'', PInt 0)], au_enabled = True, ru_updated = 0\<rparr>"

definition midnight :: "int \<Rightarrow> scheduler" where
  "midnight now = fresh_scheduler [midnight_rule] [] 1 500 2 now"

lemma midnight_schedule:
  "extract_daily_schedule [(lit ''hour'', PInt 0)] = Inr (Some \<lparr>sc_hour = 0, sc_minute = 0, sc_offset = 0, sc_weekdays = []\<rparr>)"
  by (simp add: extract_daily_schedule_def daily_at_def schedule_hour_def schedule_minute_def schedule_weekdays_def config_int_def
      int_instance_def lit_def)

lemma midnight_due: "is_daily_rule_due [(lit ''hour'', PInt 0)] None 0 = Inr True"
  by (simp add: is_daily_rule_due_def midnight_schedule add_minutes_def max_time_def day_us_def at_time_def date_of_def)

lemma midnight_executed:
  assumes "ca_id c = 5" "ca_workspace c = 1" "ca_action c = lit ''notify''" "ca_config c = [(lit ''hour'', PInt 0)]"
    and "midnight_rule \<in> set (rd_rules db)"
  shows "\<exists>r db'. execute_candidate adapting rp True c now db = (Inr r, db') \<and> rd_rules db' = rd_rules db
     \<and> map (\<lambda>r. (ar_automation r, ar_created r)) (rd_runs db') = map (\<lambda>r. (ar_automation r, ar_created r)) (rd_runs db) @ [(5, now)]"
proof -
  have action: "apply_automation_action rp c = give None"
    using assms(3,4) by (simp add: apply_automation_action_def get_configured_task_id_def lower_def lower_char_def
        strip_def lstrip_def rstrip_def lit_def)
  have "5 \<in> au_id ` set (rd_rules db)" using assms(5) by (force simp: midnight_rule_def)
  moreover have "map (\<lambda>r. (ar_automation r, ar_created r)) (map (\<lambda>r. if ar_id r = k then succeed_run made r else r) rs)
      = map (\<lambda>r. (ar_automation r, ar_created r)) rs" for k made rs
    by (induction rs) (simp_all add: succeed_run_def)
  moreover note assms(1,2)
  ultimately show ?thesis
    by (simp add: execute_candidate_def with_cursor_def execute_body_def run_action_def action step_defs adapting_def
        insert_run_def update_run_def Let_def del: map_map map_append) simp
qed

text \<open>The turns of the first of two workers at time zero.\<close>

definition one_run :: "candidate \<Rightarrow> queued_run" where
  "one_run c = \<lparr>qr_candidate = c, qr_scheduled = 0\<rparr>"

definition worker_with :: "queued_run list \<Rightarrow> worker_state \<Rightarrow> int list \<Rightarrow> action_worker" where
  "worker_with queue first inflight = \<lparr>aw_queue = queue, aw_maxsize = 500, aw_concurrency = 2, aw_workers = [first, Waiting],
     aw_stopping = False, aw_inflight = inflight\<rparr>"

definition snapshot :: "rule_db \<Rightarrow> action_worker \<Rightarrow> (int \<times> candidate list) option \<Rightarrow> (int \<times> string) list \<Rightarrow> scheduler" where
  "snapshot db w t ev = \<lparr>sd_db = db, sd_worker = w, sd_clock = 0, sd_tick = t, sd_events = ev, sd_abandoned = []\<rparr>"

definition midnight_candidate :: candidate where
  "midnight_candidate = \<lparr>ca_id = 5, ca_workspace = 1, ca_name = lit ''r'', ca_action = lit ''notify'',
     ca_config = [(lit ''hour'', PInt 0)], ca_last_run = None\<rparr>"

abbreviation midnight_step :: "sched_action \<Rightarrow> scheduler \<Rightarrow> scheduler option" where
  "midnight_step a s \<equiv> perform adapting (\<lambda>_. []) 100 a s"

lemma midnight_begin: "midnight 0 = snapshot (sd_db (midnight 0)) (worker_with [] Waiting []) None []"
  by (simp add: midnight_def fresh_scheduler_def start_on_def snapshot_def worker_with_def start_worker_def new_worker_def running_def numeral_2_eq_2)

lemma midnight_fetch: "fetch_candidates 100 (sd_db (midnight 0)) = [midnight_candidate]"
  by (simp add: fetch_candidates_def midnight_def fresh_scheduler_def start_on_def candidate_of_def last_run_at_def midnight_rule_def
      midnight_candidate_def)

lemma midnight_turn:
  "fetch_candidates 100 db = [c] \<Longrightarrow> midnight_step BeginTick (snapshot db w None ev) = Some (snapshot db w (Some (0, [c])) ev)"
  "midnight_step EndTick (snapshot db (worker_with [] Waiting []) (Some (0, [midnight_candidate])) ev)
     = Some (snapshot db (worker_with [one_run midnight_candidate] Waiting [5]) None ev)"
  "midnight_step (Take 0) (snapshot db (worker_with [q] Waiting [5]) t ev) = Some (snapshot db (worker_with [] (Running q) [5]) t ev)"
  "execute_candidate adapting (\<lambda>_. []) True c 0 db = (out, db') \<Longrightarrow>
     midnight_step (Execute 0 True 0) (snapshot db (worker_with [] (Running (one_run c)) [5]) t ev)
       = Some (snapshot db' (worker_with [] (Publishing (one_run c) out) [5]) t ev)"
  "midnight_step (Finish 0) (snapshot db (worker_with [] (Publishing (one_run midnight_candidate) out) [5]) t ev)
     = Some (snapshot db (worker_with [] Waiting []) t (ev @ run_event (one_run midnight_candidate) out))"
  by (simp_all add: perform_def snapshot_def worker_with_def end_tick_def midnight_due enqueue_all_def enqueue_def take_run_def
      run_done_def finish_run_def one_run_def midnight_candidate_def)

lemma midnight_execute:
  assumes "midnight_rule \<in> set (rd_rules db)" "\<And>r. r \<in> set (rd_runs db) \<Longrightarrow> ar_automation r = 5"
  shows "\<exists>out db'. execute_candidate adapting (\<lambda>_. []) True midnight_candidate 0 db = (out, db')
    \<and> rd_rules db' = rd_rules db \<and> run_dates 0 5 db' = run_dates 0 5 db @ [0] \<and> (\<forall>r \<in> set (rd_runs db'). ar_automation r = 5)"
proof -
  from assms(1) obtain r db' where r: "execute_candidate adapting (\<lambda>_. []) True midnight_candidate 0 db = (Inr r, db')"
      "rd_rules db' = rd_rules db"
      "map (\<lambda>r. (ar_automation r, ar_created r)) (rd_runs db') = map (\<lambda>r. (ar_automation r, ar_created r)) (rd_runs db) @ [(5, 0)]"
    using midnight_executed [of midnight_candidate db "\<lambda>_. []" 0] by (auto simp: midnight_candidate_def)
  have all5: "ar_automation x = 5" if "x \<in> set (rd_runs db')" for x
  proof -
    from that have "(ar_automation x, ar_created x) \<in> set (map (\<lambda>r. (ar_automation r, ar_created r)) (rd_runs db'))" by auto
    with r(3) assms(2) show ?thesis by auto
  qed
  have dates: "run_dates 0 5 d = map (local_date 0 \<circ> snd) (map (\<lambda>r. (ar_automation r, ar_created r)) (rd_runs d))"
    if "\<And>r. r \<in> set (rd_runs d) \<Longrightarrow> ar_automation r = 5" for d
    using that by (simp add: run_dates_def cong: filter_cong)
  have "run_dates 0 5 db' = run_dates 0 5 db @ [0]"
    using dates [of db'] dates [of db] all5 assms(2) r(3) by (simp add: local_date_def date_of_def del: map_map)
  with r(1,2) all5 show ?thesis by blast
qed

lemma midnight_db: "midnight_rule \<in> set (rd_rules (sd_db (midnight 0)))" "rd_runs (sd_db (midnight 0)) = []"
    "run_dates 0 5 (sd_db (midnight 0)) = []"
  by (simp_all add: midnight_def fresh_scheduler_def start_on_def run_dates_def)

lemma snapshot_db [simp]: "sd_db (snapshot db w t ev) = db"
  by (simp add: snapshot_def)

theorem run_once_per_day_witness:
  "\<exists>s. perform_all adapting (\<lambda>_. []) 100 [BeginTick, EndTick, Take 0, Execute 0 True 0] (midnight 0) = Some s
     \<and> run_dates 0 5 (sd_db s) = [0] \<and> sorted_wrt (<) (run_dates 0 5 (sd_db s))"
proof -
  obtain out db where x: "execute_candidate adapting (\<lambda>_. []) True midnight_candidate 0 (sd_db (midnight 0)) = (out, db)"
      "run_dates 0 5 db = run_dates 0 5 (sd_db (midnight 0)) @ [0]"
    using midnight_execute [OF midnight_db(1)] midnight_db(2) by auto
  then have s: "perform_all adapting (\<lambda>_. []) 100 [BeginTick, EndTick, Take 0, Execute 0 True 0] (midnight 0)
      = Some (snapshot db (worker_with [] (Publishing (one_run midnight_candidate) out) [5]) None [])"
    by (subst midnight_begin) (simp add: midnight_turn midnight_fetch)
  moreover have "sorted_wrt (<) (run_dates 0 5 db)"
    using run_once_per_day [OF s [unfolded midnight_def fresh_scheduler_def], of _ midnight_rule] midnight_schedule
    by (simp add: midnight_rule_def numbered_def run_dates_def)
  ultimately show ?thesis using x(2) midnight_db(3) by (auto intro!: exI)
qed

text \<open>A tick that reads the candidates while a run of one of them is being executed, and queues them after the
  run has ended, queues the rule again with what it read: the rule runs twice on the same date.\<close>
theorem stale_tick_runs_twice:
  "\<exists>s. perform_all adapting (\<lambda>_. []) 100
     [BeginTick, EndTick, Take 0, BeginTick, Execute 0 True 0, Finish 0, EndTick, Take 0, Execute 0 True 0] (midnight 0) = Some s
     \<and> run_dates 0 5 (sd_db s) = [0, 0]"
proof -
  obtain out1 db1 where x: "execute_candidate adapting (\<lambda>_. []) True midnight_candidate 0 (sd_db (midnight 0)) = (out1, db1)"
      "rd_rules db1 = rd_rules (sd_db (midnight 0))" "run_dates 0 5 db1 = run_dates 0 5 (sd_db (midnight 0)) @ [0]"
      "\<forall>r \<in> set (rd_runs db1). ar_automation r = 5"
    using midnight_execute [OF midnight_db(1)] midnight_db(2) by auto
  from x(2,4) obtain out2 db2 where y: "execute_candidate adapting (\<lambda>_. []) True midnight_candidate 0 db1 = (out2, db2)"
      "run_dates 0 5 db2 = run_dates 0 5 db1 @ [0]"
    using midnight_execute [of db1] midnight_db(1) by auto
  from x y show ?thesis
    by (subst midnight_begin) (simp add: midnight_turn midnight_fetch midnight_db)
qed

section \<open>Stopping\<close>

definition idle_count :: "action_worker \<Rightarrow> nat" where
  "idle_count w = length (filter (\<lambda>st. st = Waiting) (aw_workers w))"

lemma length_filter_update:
  "i < length xs \<Longrightarrow> length (filter P (xs[i := y])) + (if P (xs ! i) then 1 else 0) = length (filter P xs) + (if P y then 1 else 0)"
proof (induction xs arbitrary: i)
  case (Cons x xs)
  then show ?case by (cases i) auto
qed simp

lemma enqueue_all_grows:
  "length (aw_queue w) \<le> length (aw_queue (enqueue_all now cs w)) \<and> aw_workers (enqueue_all now cs w) = aw_workers w
     \<and> aw_stopping (enqueue_all now cs w) = aw_stopping w"
proof (induction cs arbitrary: w)
  case (Cons c cs)
  have "length (aw_queue w) \<le> length (aw_queue (fst (enqueue c now w)))" "aw_workers (fst (enqueue c now w)) = aw_workers w"
      "aw_stopping (fst (enqueue c now w)) = aw_stopping w"
    by (simp_all add: enqueue_def)
  with Cons.IH [of "fst (enqueue c now w)"] show ?case by (simp add: enqueue_all_def)
qed (simp add: enqueue_all_def)

lemma end_tick_grows:
  "length (aw_queue w) \<le> length (aw_queue (end_tick now cs w)) \<and> aw_workers (end_tick now cs w) = aw_workers w
     \<and> aw_stopping (end_tick now cs w) = aw_stopping w"
  using enqueue_all_grows by (simp add: end_tick_def split: sum.split)

lemma stopping_step:
  assumes "perform fw rp b a s = Some s'" "aw_stopping (sd_worker s)" "alone a"
  shows "aw_stopping (sd_worker s') \<and>
    length (aw_queue (sd_worker s)) + idle_count (sd_worker s') \<le> length (aw_queue (sd_worker s')) + idle_count (sd_worker s)"
proof (cases a)
  case (Take i)
  with assms obtain w where t: "take_run i (sd_worker s) = Some w" "s' = s\<lparr>sd_worker := w\<rparr>" by (auto simp: perform_def)
  then have i: "i < length (aw_workers (sd_worker s))" "aw_workers (sd_worker s) ! i = Waiting"
    by (auto simp: take_run_def split: if_splits)
  from length_filter_update [OF i(1), of "\<lambda>st. st = Waiting"] i(2) assms(2) t show ?thesis
    by (cases "aw_queue (sd_worker s)") (auto simp: take_run_def idle_count_def split: if_splits)
next
  case (Execute i l ahead)
  with assms obtain q out db where q: "i < length (aw_workers (sd_worker s))" "aw_workers (sd_worker s) ! i = Running q"
      "s' = s\<lparr>sd_db := db, sd_worker := run_done i q out (sd_worker s)\<rparr>"
    by (auto simp: perform_def Let_def split: if_splits worker_state.splits prod.splits)
  with length_filter_update [OF q(1), of "\<lambda>st. st = Waiting" "Publishing q out"] assms(2) show ?thesis
    by (simp add: run_done_def idle_count_def)
next
  case (Finish i)
  with assms obtain q out where q: "i < length (aw_workers (sd_worker s))" "aw_workers (sd_worker s) ! i = Publishing q out"
      "s' = s\<lparr>sd_worker := finish_run i q (sd_worker s), sd_events := sd_events s @ run_event q out\<rparr>"
    by (auto simp: perform_def Let_def split: if_splits worker_state.splits)
  with length_filter_update [OF q(1), of "\<lambda>st. st = Waiting" Ended] assms(2) show ?thesis
    by (simp add: finish_run_def idle_count_def)
next
  case EndTick
  with assms end_tick_grows show ?thesis by (auto simp: perform_def idle_count_def split: option.splits)
next
  case BeginStop
  with assms show ?thesis by (auto simp: perform_def begin_stop_def idle_count_def)
qed (use assms in \<open>auto simp: perform_def split: if_splits\<close>)

text \<open>Once the worker is asked to stop, it takes at most as many queued runs as workers were waiting; the others
  stay queued however long the stop waits for the queue, and are dropped.\<close>
theorem stop_drops_queued_runs:
  assumes "perform_all fw rp b as (s\<lparr>sd_worker := begin_stop (sd_worker s)\<rparr>) = Some s'" and "list_all alone as"
  shows "length (aw_queue (sd_worker s)) - idle_count (sd_worker s) \<le> length (aw_queue (sd_worker s'))
     \<and> aw_queue (fst (end_stop (sd_worker s'))) = []"
proof -
  have "aw_stopping (sd_worker s') \<and> length (aw_queue (sd_worker t)) + idle_count (sd_worker s')
      \<le> length (aw_queue (sd_worker s')) + idle_count (sd_worker t)"
    if "perform_all fw rp b as t = Some s'" "aw_stopping (sd_worker t)" for t
    using that assms(2)
  proof (induction as arbitrary: t)
    case (Cons a as)
    then obtain u where u: "perform fw rp b a t = Some u" "perform_all fw rp b as u = Some s'" by (auto simp: bind_eq_Some_conv)
    with Cons.IH [OF u(2)] stopping_step [OF u(1)] Cons.prems(2,3) show ?case by simp
  qed simp
  from this [OF assms(1)] show ?thesis by (auto simp: begin_stop_def idle_count_def end_stop_def)
qed

theorem stop_drops_queued_runs_witness:
  "\<exists>s. perform_all adapting (\<lambda>_. []) 100 [Take 0]
     ((snapshot (sd_db (midnight 0)) (worker_with (replicate 3 (one_run midnight_candidate)) Waiting []) None [])\<lparr>sd_worker := begin_stop (worker_with (replicate 3 (one_run midnight_candidate)) Waiting [])\<rparr>) = Some s
     \<and> 1 \<le> length (aw_queue (sd_worker s)) \<and> aw_queue (fst (end_stop (sd_worker s))) = []"
proof -
  let ?s = "snapshot (sd_db (midnight 0)) (worker_with (replicate 3 (one_run midnight_candidate)) Waiting []) None []"
  have w: "sd_worker ?s = worker_with (replicate 3 (one_run midnight_candidate)) Waiting []" by (simp add: snapshot_def)
  obtain s where s: "perform_all adapting (\<lambda>_. []) 100 [Take 0] (?s\<lparr>sd_worker := begin_stop (sd_worker ?s)\<rparr>) = Some s"
    by (simp add: perform_def take_run_def begin_stop_def worker_with_def snapshot_def numeral_3_eq_3)
  from stop_drops_queued_runs [OF s] s show ?thesis
    unfolding w by (simp add: worker_with_def idle_count_def numeral_3_eq_3)
qed

section \<open>Without an adapter for dictionaries\<close>

lemma driver_fault:
  "\<not> fw_adapts_dict fw \<Longrightarrow> execute_candidate fw rp l c now db = (if l then Inl DriverFault else Inr SkippedLocked, db)"
  by (simp add: execute_candidate_def with_cursor_def execute_body_def step_defs roll_back_def)

text \<open>If the driver does not take a plain dictionary as an argument, no automation ever does anything: nothing is
  recorded and no table changes, and every rule stays as due as it was.\<close>
theorem plain_dict_never_runs:
  assumes "perform_all fw rp b as s = Some s'" and "\<not> fw_adapts_dict fw" and "list_all alone as"
  shows "sd_db s' = sd_db s \<and> fetch_candidates b (sd_db s') = fetch_candidates b (sd_db s)"
proof -
  note run = driver_fault [OF assms(2)]
  have "sd_db s2 = sd_db s1" if "perform fw rp b a s1 = Some s2" "alone a" for a s1 s2
    using that by (cases a) (auto simp: run perform_def Let_def split: if_splits worker_state.splits option.splits)
  then have "sd_db s' = sd_db s"
    using assms(1,3) by (induction as arbitrary: s) (auto simp: bind_eq_Some_conv)
  then show ?thesis by simp
qed

definition not_adapting :: framework where
  "not_adapting = adapting\<lparr>fw_adapts_dict := False\<rparr>"

theorem plain_dict_never_runs_witness:
  "\<exists>s. perform_all not_adapting (\<lambda>_. []) 100 [BeginTick, EndTick, Take 0, Execute 0 True 0] (midnight 0) = Some s
     \<and> rd_runs (sd_db s) = []"
proof -
  have step: "perform not_adapting (\<lambda>_. []) 100 a s = perform adapting (\<lambda>_. []) 100 a s" if "a \<in> {BeginTick, EndTick, Take 0}" for a s
    using that by (auto simp: perform_def)
  have execute: "perform not_adapting (\<lambda>_. []) 100 (Execute 0 True 0) (snapshot db (worker_with [] (Running q) [5]) t ev)
      = Some (snapshot db (worker_with [] (Publishing q (Inl DriverFault)) [5]) t ev)" for db q t ev
    by (simp add: perform_def snapshot_def worker_with_def driver_fault not_adapting_def run_done_def)
  have "\<exists>s. perform_all not_adapting (\<lambda>_. []) 100 [BeginTick, EndTick, Take 0, Execute 0 True 0] (midnight 0) = Some s"
    by (subst midnight_begin) (simp add: step execute midnight_turn midnight_fetch)
  then obtain s where s: "perform_all not_adapting (\<lambda>_. []) 100 [BeginTick, EndTick, Take 0, Execute 0 True 0] (midnight 0) = Some s" ..
  have "sd_db s = sd_db (midnight 0)"
    using plain_dict_never_runs [OF s] by (simp add: not_adapting_def)
  with s midnight_db(2) show ?thesis by auto
qed

end
