(* ===== verification/CommandText.thy ===== *)
theory CommandText
  imports PyText
begin

text \<open>
  \<open>api/command_utils.py\<close>: what the proxy answers itself when it is asked for the prefix of a shell command or for
  the files that a command shows. The splitting is \<open>shlex.split(command, posix=False)\<close>: a quoted part keeps its
  quotes and ends a word, and elsewhere quotes are ordinary characters.
\<close>

section \<open>Splitting\<close>

definition shlex_space :: "pychar \<Rightarrow> bool" where
  "shlex_space c \<longleftrightarrow> c \<in> set (lit '' '' @ [Ch (CHR 0x09), Ch (CHR 0x0D), Ch (CHR 0x0A)])"

definition shlex_quote :: "pychar \<Rightarrow> bool" where
  "shlex_quote c \<longleftrightarrow> c = Ch (CHR 0x27) \<or> c = Ch (CHR 0x22)"

text \<open>\<open>None\<close> for the \<open>ValueError\<close> of a quotation that does not end.\<close>

function shlex_split :: "pystr \<Rightarrow> pystr list option" where
  "shlex_split [] = Some []"
| "shlex_split (c # s) =
     (if shlex_space c then shlex_split s
      else if shlex_quote c
      then (let body = takeWhile (\<lambda>x. x \<noteq> c) s
            in if length body = length s then None
               else map_option ((#) (c # body @ [c])) (shlex_split (drop (length body + 1) s)))
      else (let w = takeWhile (\<lambda>x. \<not> shlex_space x) s
            in map_option ((#) (c # w)) (shlex_split (drop (length w) s))))"
  by pat_completeness auto
termination
  by (relation "measure length") auto

section \<open>Prefixes\<close>

definition two_word_commands :: "pystr list" where
  "two_word_commands = map lit [''git'', ''npm'', ''docker'', ''kubectl'', ''cargo'', ''go'', ''pip'', ''yarn'']"

definition is_assignment :: "pystr \<Rightarrow> bool" where
  "is_assignment part \<longleftrightarrow> Ch (CHR ''='') \<in> set part \<and> \<not> startswith part (lit ''-'')"

definition prefix_of_parts :: "pystr list \<Rightarrow> pystr" where
  "prefix_of_parts parts =
     (let env_prefix = takeWhile is_assignment parts; cmd_parts = drop (length env_prefix) parts
      in case cmd_parts of
           [] \<Rightarrow> lit ''none''
         | first # rest \<Rightarrow>
             if first \<in> set two_word_commands \<and> rest \<noteq> []
             then (if startswith (hd rest) (lit ''-'') then first else first @ lit '' '' @ hd rest)
             else if env_prefix = [] then first
             else join (lit '' '') env_prefix @ lit '' '' @ first)"

definition extract_command_prefix :: "pystr \<Rightarrow> pystr" where
  "extract_command_prefix command =
     (if Ch (CHR 0x60) \<in> set command \<or> contains command (lit ''$('') then lit ''command_injection_detected''
      else (case shlex_split command of
              Some parts \<Rightarrow> if parts = [] then lit ''none'' else prefix_of_parts parts
            | None \<Rightarrow> (case split_ws command of [] \<Rightarrow> lit ''none'' | w # _ \<Rightarrow> w)))"

section \<open>File paths\<close>

definition listing_commands :: "pystr list" where
  "listing_commands = map lit [''ls'', ''dir'', ''find'', ''tree'', ''pwd'', ''cd'', ''mkdir'', ''rmdir'', ''rm'']"

definition reading_commands :: "pystr list" where
  "reading_commands = map lit [''cat'', ''head'', ''tail'', ''less'', ''more'', ''bat'', ''type'']"

definition is_flag :: "pystr \<Rightarrow> bool" where
  "is_flag part \<longleftrightarrow> startswith part (lit ''-'')"

text \<open>The arguments of \<open>grep\<close>: whether a flag gives the pattern, and the other arguments.\<close>

fun grep_arguments :: "pystr list \<Rightarrow> bool \<times> pystr list" where
  "grep_arguments [] = (False, [])"
| "grep_arguments (part # parts) =
     (if is_flag part
      then (if part \<in> set (map lit [''-e'', ''-f'', ''-m'', ''-A'', ''-B'', ''-C''])
            then (case grep_arguments (tl parts) of
                    (by_flag, positional) \<Rightarrow> (by_flag \<or> part = lit ''-e'' \<or> part = lit ''-f'', positional))
            else grep_arguments parts)
      else (case grep_arguments parts of (by_flag, positional) \<Rightarrow> (by_flag, part # positional)))"

definition command_paths :: "pystr list \<Rightarrow> pystr list" where
  "command_paths parts =
     (case parts of
        [] \<Rightarrow> []
      | first # args \<Rightarrow>
          let base_cmd = lower (last (split_char (Ch (CHR 0x5C)) (last (split_char (Ch (CHR ''/'')) first))))
          in if base_cmd \<in> set listing_commands then []
             else if base_cmd \<in> set reading_commands then filter (\<lambda>p. \<not> is_flag p) args
             else if base_cmd = lit ''grep''
             then (case grep_arguments args of
                     (by_flag, positional) \<Rightarrow> if by_flag then positional else drop 1 positional)
             else [])"

definition filepaths_block :: "pystr list \<Rightarrow> pystr" where
  "filepaths_block paths =
     (if paths = [] then lit ''<filepaths>'' @ newline @ lit ''</filepaths>''
      else lit ''<filepaths>'' @ newline @ join newline paths @ newline @ lit ''</filepaths>'')"

definition extract_filepaths_from_command :: "pystr \<Rightarrow> pystr \<Rightarrow> pystr" where
  "extract_filepaths_from_command command out =
     (case shlex_split command of None \<Rightarrow> filepaths_block [] | Some parts \<Rightarrow> filepaths_block (command_paths parts))"

section \<open>Facts\<close>

text \<open>The words are pieces of the command, in order, and nothing but white space is lost.\<close>

lemma takeWhile_rest: "length (takeWhile P s) \<noteq> length s \<Longrightarrow> \<exists>c r. s = takeWhile P s @ c # r \<and> \<not> P c"
  by (induction s) auto

lemma shlex_split_complete:
  "case shlex_split s of
     Some ws \<Rightarrow> filter (\<lambda>c. \<not> shlex_space c) (concat ws) = filter (\<lambda>c. \<not> shlex_space c) s \<and> [] \<notin> set ws
   | None \<Rightarrow> \<exists>c. shlex_quote c \<and> c \<in> set s"
proof (induction s rule: shlex_split.induct)
  case (2 c s)
  consider (space) "shlex_space c" | (quote) "\<not> shlex_space c" "shlex_quote c" | (word) "\<not> shlex_space c" "\<not> shlex_quote c"
    by blast
  then show ?case
  proof cases
    case space
    with 2(1) show ?thesis by (auto split: option.splits)
  next
    case quote
    show ?thesis
    proof (cases "length (takeWhile (\<lambda>x. x \<noteq> c) s) = length s")
      case False
      from takeWhile_rest [OF this] obtain r where r: "s = takeWhile (\<lambda>x. x \<noteq> c) s @ c # r" by auto
      define body where "body = takeWhile (\<lambda>x. x \<noteq> c) s"
      have split: "s = body @ c # r" "drop (length body + 1) s = r" using r by (simp_all add: body_def [symmetric])
      have "filter (\<lambda>c. \<not> shlex_space c) s
          = filter (\<lambda>c. \<not> shlex_space c) body @ c # filter (\<lambda>c. \<not> shlex_space c) (drop (length body + 1) s)"
        unfolding split(2) using split(1) quote by simp
      with 2(2) [OF quote refl] quote False show ?thesis
        by (auto simp: body_def [symmetric] split: option.splits dest: in_set_dropD)
    qed (use quote in auto)
  next
    case word
    define w where "w = takeWhile (\<lambda>x. \<not> shlex_space x) s"
    have "s = w @ drop (length w) s" by (simp add: w_def) (metis takeWhile_eq_take append_take_drop_id)
    then have "filter (\<lambda>c. \<not> shlex_space c) s = filter (\<lambda>c. \<not> shlex_space c) w @ filter (\<lambda>c. \<not> shlex_space c) (drop (length w) s)"
      by (metis filter_append)
    with 2(3) [OF word refl] word show ?thesis
      by (auto simp: w_def [symmetric] split: option.splits dest: in_set_dropD)
  qed
qed simp

text \<open>What is reported as shown is a word of the command, for whatever command.\<close>

lemma grep_words: "set (snd (grep_arguments parts)) \<subseteq> set parts"
proof (induction parts rule: grep_arguments.induct)
  case (2 part parts)
  have "set (tl parts) \<subseteq> set parts" by (cases parts) auto
  with 2 show ?case
    by (cases "is_flag part"; cases "part \<in> set (map lit [''-e'', ''-f'', ''-m'', ''-A'', ''-B'', ''-C''])")
      (auto simp del: list.map split: prod.splits)
qed simp

lemma command_paths_words: "set (command_paths parts) \<subseteq> set parts"
proof (cases parts)
  case (Cons first args)
  obtain b ps where g: "grep_arguments args = (b, ps)" by fastforce
  with grep_words [of args] have "set ps \<subseteq> set args" by simp
  moreover have "set (drop 1 ps) \<subseteq> set ps" by (rule set_drop_subset)
  moreover have "command_paths parts \<in> {[], filter (\<lambda>p. \<not> is_flag p) args, ps, drop 1 ps}"
    unfolding command_paths_def Cons Let_def by (simp only: list.case g prod.case insert_iff split: if_split) blast
  ultimately show ?thesis using Cons by auto
qed (simp add: command_paths_def)

text \<open>A command of two words, whatever follows them: as long as the rest has no backquote and no substitution and its
  quotes are closed, the prefix is that of the two words, be it another command that follows.\<close>
lemma chained_command_unnoticed:
  assumes "Ch (CHR 0x60) \<notin> set rest" "\<not> contains (lit ''git push '' @ rest) (lit ''$('')" "shlex_split rest = Some parts"
  shows "extract_command_prefix (lit ''git push '' @ rest) = lit ''git push''"
proof -
  have "shlex_split (lit ''git push '' @ rest) = Some (lit ''git'' # lit ''push'' # parts)"
    using assms(3) by (simp add: lit_def shlex_space_def shlex_quote_def Let_def)
  moreover have "Ch (CHR 0x60) \<notin> set (lit ''git push '' @ rest)" using assms(1) by (simp add: lit_def)
  ultimately show ?thesis
    using assms(2) by (simp add: extract_command_prefix_def prefix_of_parts_def two_word_commands_def is_assignment_def lit_def)
qed

end
