(* ===== verification/RequestOptimisation.thy ===== *)
theory RequestOptimisation
  imports CommandText MessageConverter
begin

text \<open>
  The requests that the proxy answers itself (\<open>api/detection.py\<close>, \<open>api/optimization_handlers.py\<close>,
  \<open>providers/common/text.py\<close>) and the token count of the others (\<open>api/request_utils.py\<close>). The blocks of a message
  have passed the validation of the request models, so that only text blocks have a text. The encoder of tiktoken
  is a parameter that gives the number of tokens; it raises on text that looks like one of its special tokens.
\<close>

section \<open>Text of a message\<close>

definition block_text :: "pyval \<Rightarrow> pystr" where
  "block_text block =
     (if is_str (get_block_type block) ''text''
      then (case get_block_attr block ''text'' (PStr []) of PStr s \<Rightarrow> s | _ \<Rightarrow> [])
      else [])"

definition extract_text_from_content :: "pyval \<Rightarrow> pystr" where
  "extract_text_from_content content =
     (case content of PStr s \<Rightarrow> s | PList blocks \<Rightarrow> concat (map block_text blocks) | _ \<Rightarrow> [])"

section \<open>Detection\<close>

text \<open>The text of the only message, when it is the user's.\<close>

definition single_user_text :: "anthropic_request \<Rightarrow> pystr option" where
  "single_user_text rq =
     (case rq_messages rq of
        [msg] \<Rightarrow> if cm_role msg = lit ''user'' then Some (extract_text_from_content (cm_content msg)) else None
      | _ \<Rightarrow> None)"

definition is_quota_check_request :: "anthropic_request \<Rightarrow> bool" where
  "is_quota_check_request rq \<longleftrightarrow>
     rq_max_tokens rq = Some 1
     \<and> (case single_user_text rq of None \<Rightarrow> False | Some s \<Rightarrow> contains (lower s) (lit ''quota''))"

definition is_title_generation_request :: "anthropic_request \<Rightarrow> bool" where
  "is_title_generation_request rq \<longleftrightarrow>
     truthy (rq_system rq) \<and> rq_tools rq = []
     \<and> (let s = lower (extract_text_from_content (rq_system rq))
        in contains s (lit ''new conversation topic'') \<and> contains s (lit ''title''))"

definition is_prefix_detection_request :: "anthropic_request \<Rightarrow> pystr option" where
  "is_prefix_detection_request rq =
     (case single_user_text rq of
        None \<Rightarrow> None
      | Some content \<Rightarrow>
          if contains content (lit ''<policy_spec>'')
          then map_option (\<lambda>i. strip (drop (i + 8) content)) (rfind_sub (lit ''Command:'') content)
          else None)"

definition is_suggestion_mode_request :: "anthropic_request \<Rightarrow> bool" where
  "is_suggestion_mode_request rq \<longleftrightarrow>
     list_ex (\<lambda>msg. cm_role msg = lit ''user''
       \<and> contains (extract_text_from_content (cm_content msg)) (lit ''[SUGGESTION MODE:'')) (rq_messages rq)"

definition cut_at :: "pystr \<Rightarrow> pystr \<Rightarrow> pystr" where
  "cut_at marker s = (case find_sub marker s of None \<Rightarrow> s | Some i \<Rightarrow> strip (take i s))"

definition command_and_output :: "pystr \<Rightarrow> (pystr \<times> pystr) option" where
  "command_and_output content =
     (case find_sub (lit ''Command:'') content of
        None \<Rightarrow> None
      | Some i \<Rightarrow>
          (let rest = drop (i + 8) content
           in map_option (\<lambda>k. (strip (take k rest), cut_at (newline @ newline) (cut_at (lit ''<'') (strip (drop (k + 7) rest)))))
                (find_sub (lit ''Output:'') rest)))"

definition is_filepath_extraction_request :: "anthropic_request \<Rightarrow> (pystr \<times> pystr) option" where
  "is_filepath_extraction_request rq =
     (case single_user_text rq of
        None \<Rightarrow> None
      | Some content \<Rightarrow>
          let system_text = (if truthy (rq_system rq) then lower (extract_text_from_content (rq_system rq)) else [])
          in if rq_tools rq = [] \<and> contains content (lit ''Output:'')
               \<and> (contains (lower content) (lit ''filepaths'')
                  \<or> contains system_text (lit ''extract any file paths'')
                  \<or> contains system_text (lit ''file paths that this command''))
             then command_and_output content
             else None)"

section \<open>Answers\<close>

record optimisations =
  op_prefix :: bool
  op_quota :: bool
  op_title :: bool
  op_suggestion :: bool
  op_filepath :: bool

datatype mock_reply = MockReply (mock_text: pystr) (mock_input: nat) (mock_output: nat)

definition try_quota_mock :: "optimisations \<Rightarrow> anthropic_request \<Rightarrow> mock_reply option" where
  "try_quota_mock op rq =
     (if op_quota op \<and> is_quota_check_request rq then Some (MockReply (lit ''Quota check passed.'') 10 5) else None)"

definition try_prefix_detection :: "optimisations \<Rightarrow> anthropic_request \<Rightarrow> mock_reply option" where
  "try_prefix_detection op rq =
     (if op_prefix op
      then map_option (\<lambda>command. MockReply (extract_command_prefix command) 100 5) (is_prefix_detection_request rq)
      else None)"

definition try_title_skip :: "optimisations \<Rightarrow> anthropic_request \<Rightarrow> mock_reply option" where
  "try_title_skip op rq =
     (if op_title op \<and> is_title_generation_request rq then Some (MockReply (lit ''Conversation'') 100 5) else None)"

definition try_suggestion_skip :: "optimisations \<Rightarrow> anthropic_request \<Rightarrow> mock_reply option" where
  "try_suggestion_skip op rq =
     (if op_suggestion op \<and> is_suggestion_mode_request rq then Some (MockReply [] 100 1) else None)"

definition try_filepath_mock :: "optimisations \<Rightarrow> anthropic_request \<Rightarrow> mock_reply option" where
  "try_filepath_mock op rq =
     (if op_filepath op
      then map_option (\<lambda>(command, out). MockReply (extract_filepaths_from_command command out) 100 10)
             (is_filepath_extraction_request rq)
      else None)"

definition OPTIMIZATION_HANDLERS :: "(optimisations \<Rightarrow> anthropic_request \<Rightarrow> mock_reply option) list" where
  "OPTIMIZATION_HANDLERS = [try_quota_mock, try_prefix_detection, try_title_skip, try_suggestion_skip, try_filepath_mock]"

fun first_match :: "('a \<Rightarrow> 'b option) list \<Rightarrow> 'a \<Rightarrow> 'b option" where
  "first_match [] a = None"
| "first_match (h # hs) a = (case h a of None \<Rightarrow> first_match hs a | Some b \<Rightarrow> Some b)"

definition try_optimizations :: "optimisations \<Rightarrow> anthropic_request \<Rightarrow> mock_reply option" where
  "try_optimizations op rq = first_match (map (\<lambda>h. h op) OPTIMIZATION_HANDLERS) rq"

section \<open>Token count\<close>

fun sum_results :: "nat result list \<Rightarrow> nat result" where
  "sum_results [] = Inr 0"
| "sum_results (r # rs) = rbind r (\<lambda>n. rbind (sum_results rs) (\<lambda>k. Inr (n + k)))"

text \<open>\<open>len(x)\<close>.\<close>

definition py_len :: "pyval \<Rightarrow> nat result" where
  "py_len v =
     (case v of PStr s \<Rightarrow> Inr (length s) | PList xs \<Rightarrow> Inr (length xs) | PDict d \<Rightarrow> Inr (length d) | _ \<Rightarrow> Inl TypeError)"

definition image_tokens :: "pyval \<Rightarrow> nat result" where
  "image_tokens source =
     (case source of
        PDict d \<Rightarrow>
          (let data = dget_or d ''data'' PNone; base64 = dget_or d ''base64'' PNone;
               chosen = (if truthy data then data else base64)
           in if truthy chosen then rbind (py_len chosen) (\<lambda>n. Inr (max 85 (n div 3000))) else Inr 765)
      | _ \<Rightarrow> Inr 765)"

definition block_tokens :: "(pystr \<Rightarrow> nat result) \<Rightarrow> (pyval \<Rightarrow> pystr) \<Rightarrow> pyval \<Rightarrow> nat result" where
  "block_tokens enc rp block =
     (let b_type = get_block_type block; attr = (\<lambda>key. get_block_attr block key (PStr []))
      in if is_str b_type ''text'' then enc (py_str rp (attr ''text''))
         else if is_str b_type ''thinking'' then enc (py_str rp (attr ''thinking''))
         else if is_str b_type ''tool_use''
         then sum_results [enc (py_str rp (attr ''name'')), enc (json_dumps (get_block_attr block ''input'' (PDict []))),
                enc (py_str rp (attr ''id'')), Inr 15]
         else if is_str b_type ''image'' then image_tokens (get_block_attr block ''source'' PNone)
         else if is_str b_type ''tool_result''
         then sum_results [(case attr ''content'' of PStr s \<Rightarrow> enc s | v \<Rightarrow> enc (json_dumps v)),
                enc (py_str rp (attr ''tool_use_id'')), Inr 8]
         else Inl Unmodelled)"

definition message_tokens :: "(pystr \<Rightarrow> nat result) \<Rightarrow> (pyval \<Rightarrow> pystr) \<Rightarrow> chat_message \<Rightarrow> nat result" where
  "message_tokens enc rp msg =
     (case cm_content msg of
        PStr s \<Rightarrow> enc s
      | PList blocks \<Rightarrow> sum_results (map (block_tokens enc rp) blocks)
      | _ \<Rightarrow> Inr 0)"

definition system_tokens :: "(pystr \<Rightarrow> nat result) \<Rightarrow> (pyval \<Rightarrow> pystr) \<Rightarrow> pyval \<Rightarrow> nat result" where
  "system_tokens enc rp system =
     (if \<not> truthy system then Inr 0
      else rbind (case system of
                    PStr s \<Rightarrow> enc s
                  | PList blocks \<Rightarrow> sum_results (map (\<lambda>b.
                      let t = get_block_attr b ''text'' (PStr []) in if truthy t then enc (py_str rp t) else Inr 0) blocks)
                  | _ \<Rightarrow> Inr 0) (\<lambda>n. Inr (n + 4)))"

definition tool_tokens :: "(pystr \<Rightarrow> nat result) \<Rightarrow> tool_spec \<Rightarrow> nat result" where
  "tool_tokens enc tool =
     enc (tl_name tool @ (case tl_description tool of None \<Rightarrow> [] | Some s \<Rightarrow> s) @ json_dumps (tl_input_schema tool))"

definition get_token_count ::
    "(pystr \<Rightarrow> nat result) \<Rightarrow> (pyval \<Rightarrow> pystr) \<Rightarrow> chat_message list \<Rightarrow> pyval \<Rightarrow> tool_spec list \<Rightarrow> nat result" where
  "get_token_count enc rp messages system tools =
     rbind (system_tokens enc rp system) (\<lambda>a.
     rbind (sum_results (map (message_tokens enc rp) messages)) (\<lambda>b.
     rbind (sum_results (map (tool_tokens enc) tools)) (\<lambda>c.
       Inr (max 1 (a + b + c + length messages * 4 + length tools * 5)))))"

section \<open>Facts\<close>

lemma sum_results_Inl: "Inl e \<in> set rs \<Longrightarrow> \<exists>e'. sum_results rs = Inl e'"
proof (induction rs)
  case (Cons r rs)
  then show ?case by (cases r; cases "sum_results rs") auto
qed simp

lemma sum_results_fails: "(\<And>r. r \<in> set rs \<Longrightarrow> r \<noteq> Inl e' \<Longrightarrow> \<exists>n. r = Inr n) \<Longrightarrow> sum_results rs = Inl e \<Longrightarrow> e = e'"
proof (induction rs)
  case (Cons r rs)
  show ?case
  proof (cases r)
    case (Inl x)
    with Cons.prems show ?thesis by (cases "x = e'") auto
  next
    case (Inr n)
    with Cons show ?thesis by (cases "sum_results rs") auto
  qed
qed simp

lemma token_count_bound:
  "get_token_count enc rp messages system tools = Inr n \<Longrightarrow> 1 \<le> n \<and> 4 * length messages + 5 * length tools \<le> n"
  by (auto simp: get_token_count_def rbind_Inr_iff)

text \<open>One text that the encoder refuses makes the whole count fail.\<close>

lemma special_text_fails:
  assumes "msg \<in> set messages" "cm_content msg = PStr s" "enc s = Inl e"
  shows "\<exists>e'. get_token_count enc rp messages system tools = Inl e'"
proof -
  have "message_tokens enc rp msg = Inl e" using assms(2,3) by (simp add: message_tokens_def)
  with assms(1) have "Inl e \<in> set (map (message_tokens enc rp) messages)" by force
  from sum_results_Inl [OF this] obtain e' where "sum_results (map (message_tokens enc rp) messages) = Inl e'" by blast
  then show ?thesis by (cases "system_tokens enc rp system") (auto simp: get_token_count_def)
qed

end
