(* ===== verification/MessagesRoute.thy ===== *)
theory MessagesRoute
  imports RequestOptimisation
begin

text \<open>
  The endpoint \<open>/v1/messages\<close>: the choice of the model and the provider (\<open>config/settings.py\<close>,
  \<open>api/models/anthropic.py\<close>), the registry of providers (\<open>api/dependencies.py\<close>) and \<open>create_message\<close>
  (\<open>api/routes.py\<close>). The stream itself is the subject of \<open>OpenAICompat\<close>.
\<close>

section \<open>Settings\<close>

record settings =
  st_model :: pystr
  st_model_opus :: "pystr option"
  st_model_sonnet :: "pystr option"
  st_model_haiku :: "pystr option"
  st_nim_key :: pystr
  st_open_router_key :: pystr
  st_optimisations :: optimisations
  st_voice_note_enabled :: bool
  st_whisper_device :: pystr

definition parse_optional_str :: "pystr option \<Rightarrow> pystr option" where
  "parse_optional_str v = (if v = Some [] then None else v)"

definition validate_whisper_device :: "pystr \<Rightarrow> pystr result" where
  "validate_whisper_device v =
     (if v \<in> set (map lit [''cpu'', ''cuda'', ''nvidia_nim'']) then Inr v else Inl (ValueError []))"

definition validate_positive_int :: "int \<Rightarrow> int result" where
  "validate_positive_int v = (if v \<le> 0 then Inl (ValueError []) else Inr v)"

definition check_nvidia_nim_api_key :: "settings \<Rightarrow> settings result" where
  "check_nvidia_nim_api_key st =
     (if st_voice_note_enabled st \<and> st_whisper_device st = lit ''nvidia_nim'' \<and> strip (st_nim_key st) = []
      then Inl (ValueError []) else Inr st)"

definition valid_providers :: "pystr list" where
  "valid_providers = map lit [''nvidia_nim'', ''open_router'', ''lmstudio'', ''llamacpp'']"

definition slash :: pychar where
  "slash = Ch (CHR ''/'')"

text \<open>\<open>v.split("/", 1)\<close>: the part before the first slash and the part after it, if there is a slash.\<close>

definition parse_provider_type :: "pystr \<Rightarrow> pystr" where
  "parse_provider_type v = takeWhile (\<lambda>c. c \<noteq> slash) v"

definition parse_model_name :: "pystr \<Rightarrow> pystr result" where
  "parse_model_name v = (if slash \<in> set v then Inr (drop (length (parse_provider_type v) + 1) v) else Inl IndexError)"

definition validate_model_format :: "pystr option \<Rightarrow> pystr option result" where
  "validate_model_format v =
     (case v of
        None \<Rightarrow> Inr None
      | Some s \<Rightarrow> if slash \<in> set s \<and> parse_provider_type s \<in> set valid_providers then Inr v else Inl (ValueError []))"

definition accepted_settings :: "settings \<Rightarrow> bool" where
  "accepted_settings st \<longleftrightarrow> list_all (\<lambda>v. validate_model_format v = Inr v)
     [Some (st_model st), st_model_opus st, st_model_sonnet st, st_model_haiku st]
     \<and> validate_whisper_device (st_whisper_device st) = Inr (st_whisper_device st) \<and> check_nvidia_nim_api_key st = Inr st"

definition resolve_model :: "settings \<Rightarrow> pystr \<Rightarrow> pystr" where
  "resolve_model st name =
     (let n = lower name
      in if contains n (lit ''opus'') \<and> st_model_opus st \<noteq> None then the (st_model_opus st)
         else if contains n (lit ''haiku'') \<and> st_model_haiku st \<noteq> None then the (st_model_haiku st)
         else if contains n (lit ''sonnet'') \<and> st_model_sonnet st \<noteq> None then the (st_model_sonnet st)
         else st_model st)"

section \<open>The request model\<close>

record messages_request =
  mr_request :: anthropic_request \<comment> \<open>with the model as it was asked for\<close>
  mr_original_model :: "pystr option"

text \<open>\<open>map_model\<close>: the request with its final model, and the resolved provider model.\<close>

definition map_model :: "settings \<Rightarrow> messages_request \<Rightarrow> (anthropic_request \<times> pystr) result" where
  "map_model st mr =
     (let original = (case mr_original_model mr of None \<Rightarrow> rq_model (mr_request mr) | Some m \<Rightarrow> m);
          resolved = resolve_model st original
      in rbind (parse_model_name resolved) (\<lambda>name. Inr ((mr_request mr)\<lparr>rq_model := name\<rparr>, resolved)))"

text \<open>\<open>validate_model_field\<close> of a request to count tokens.\<close>

definition validate_model_field :: "settings \<Rightarrow> pystr \<Rightarrow> pystr result" where
  "validate_model_field st v = parse_model_name (resolve_model st v)"

section \<open>Providers\<close>

datatype provider_error = MissingKey | UnknownProvider

definition create_provider_for_type :: "settings \<Rightarrow> pystr \<Rightarrow> provider_error option" where
  "create_provider_for_type st provider_type =
     (if provider_type = lit ''nvidia_nim'' then (if strip (st_nim_key st) = [] then Some MissingKey else None)
      else if provider_type = lit ''open_router'' then (if strip (st_open_router_key st) = [] then Some MissingKey else None)
      else if provider_type = lit ''lmstudio'' \<or> provider_type = lit ''llamacpp'' then None
      else Some UnknownProvider)"

text \<open>The registry of the providers that exist.\<close>

definition get_provider_for_type :: "settings \<Rightarrow> pystr \<Rightarrow> pystr list \<Rightarrow> provider_error option \<times> pystr list" where
  "get_provider_for_type st provider_type registry =
     (if provider_type \<in> set registry then (None, registry)
      else (case create_provider_for_type st provider_type of
              None \<Rightarrow> (None, registry @ [provider_type])
            | Some e \<Rightarrow> (Some e, registry)))"

section \<open>The endpoint\<close>

text \<open>\<open>Refusal\<close> is a \<open>ProviderError\<close>, \<open>ServerFault\<close> an \<open>HTTPException\<close>.\<close>

datatype route_reply =
    Mocked mock_reply
  | Stream pystr anthropic_request nat
  | Refusal nat
  | ServerFault nat

definition create_message ::
    "settings \<Rightarrow> (pystr \<Rightarrow> nat result) \<Rightarrow> (pyval \<Rightarrow> pystr) \<Rightarrow> anthropic_request \<times> pystr \<Rightarrow> pystr list
      \<Rightarrow> route_reply \<times> pystr list" where
  "create_message st enc rp rr registry =
     (case rr of (rq, resolved) \<Rightarrow>
        if rq_messages rq = [] then (Refusal 400, registry)
        else (case try_optimizations (st_optimisations st) rq of
                Some reply \<Rightarrow> (Mocked reply, registry)
              | None \<Rightarrow>
                  (let p = parse_provider_type (if resolved = [] then st_model st else resolved)
                   in case get_provider_for_type st p registry of
                        (Some MissingKey, registry1) \<Rightarrow> (ServerFault 503, registry1)
                      | (Some UnknownProvider, registry1) \<Rightarrow> (ServerFault 500, registry1)
                      | (None, registry1) \<Rightarrow>
                          (case get_token_count enc rp (rq_messages rq) (rq_system rq) (rq_tools rq) of
                             Inl e \<Rightarrow> (ServerFault 500, registry1)
                           | Inr n \<Rightarrow> (Stream p rq n, registry1)))))"

definition messages_endpoint ::
    "settings \<Rightarrow> (pystr \<Rightarrow> nat result) \<Rightarrow> (pyval \<Rightarrow> pystr) \<Rightarrow> messages_request \<Rightarrow> pystr list \<Rightarrow> route_reply \<times> pystr list" where
  "messages_endpoint st enc rp mr registry =
     (case map_model st mr of
        Inl e \<Rightarrow> (ServerFault 500, registry)
      | Inr rr \<Rightarrow> create_message st enc rp rr registry)"

datatype count_reply = Tokens nat | CountFault nat

definition count_tokens ::
    "(pystr \<Rightarrow> nat result) \<Rightarrow> (pyval \<Rightarrow> pystr) \<Rightarrow> anthropic_request \<Rightarrow> count_reply" where
  "count_tokens enc rp rq =
     (case get_token_count enc rp (rq_messages rq) (rq_system rq) (rq_tools rq) of
        Inl e \<Rightarrow> CountFault 500
      | Inr n \<Rightarrow> Tokens n)"

section \<open>Every request reaches a provider\<close>

lemma accepted_resolve:
  assumes "accepted_settings st"
  shows "slash \<in> set (resolve_model st name)" "parse_provider_type (resolve_model st name) \<in> set valid_providers"
proof -
  have ok: "slash \<in> set v \<and> parse_provider_type v \<in> set valid_providers" if "validate_model_format (Some v) = Inr (Some v)" for v
    using that by (auto simp: validate_model_format_def split: if_splits)
  have "resolve_model st name \<in> {st_model st} \<union> set_option (st_model_opus st) \<union> set_option (st_model_haiku st)
      \<union> set_option (st_model_sonnet st)"
    by (auto simp: resolve_model_def Let_def)
  then have "validate_model_format (Some (resolve_model st name)) = Inr (Some (resolve_model st name))"
    using assms by (auto simp: accepted_settings_def)
  with ok show "slash \<in> set (resolve_model st name)" "parse_provider_type (resolve_model st name) \<in> set valid_providers" by auto
qed

lemma parse_model_parts: "parse_model_name v = Inr m \<Longrightarrow> v = parse_provider_type v @ slash # m"
proof -
  assume m: "parse_model_name v = Inr m"
  then have "slash \<in> set v" by (simp add: parse_model_name_def split: if_splits)
  then obtain a b where v: "v = a @ slash # b" "slash \<notin> set a" by (meson split_list_first)
  moreover have "takeWhile (\<lambda>c. c \<noteq> slash) (a @ slash # b) = a" if "slash \<notin> set a" for a
    using that by (induction a) auto
  ultimately have "parse_provider_type v = a" by (simp add: parse_provider_type_def)
  with m v show ?thesis by (simp add: parse_model_name_def)
qed

lemma create_valid_provider: "p \<in> set valid_providers \<Longrightarrow> create_provider_for_type st p \<noteq> Some UnknownProvider"
  by (auto simp: valid_providers_def create_provider_for_type_def)

definition key_missing :: "settings \<Rightarrow> pystr \<Rightarrow> bool" where
  "key_missing st p \<longleftrightarrow> (p = lit ''nvidia_nim'' \<and> strip (st_nim_key st) = [])
     \<or> (p = lit ''open_router'' \<and> strip (st_open_router_key st) = [])"

lemma provider_for_valid:
  assumes "p \<in> set valid_providers" "get_provider_for_type st p registry = (failure, registry1)"
  shows "failure \<noteq> Some UnknownProvider" "failure = Some MissingKey \<Longrightarrow> key_missing st p" "failure = None \<Longrightarrow> p \<in> set registry1"
proof -
  have "create_provider_for_type st p \<noteq> Some UnknownProvider" using create_valid_provider assms(1) by blast
  moreover have "key_missing st p" if "create_provider_for_type st p = Some MissingKey"
    using that by (auto simp: create_provider_for_type_def key_missing_def split: if_splits)
  ultimately show "failure \<noteq> Some UnknownProvider" "failure = Some MissingKey \<Longrightarrow> key_missing st p" "failure = None \<Longrightarrow> p \<in> set registry1"
    using assms(2) by (auto simp: get_provider_for_type_def split: if_splits option.splits)
qed

text \<open>A request that is not answered here needs its provider and its number of tokens.\<close>

lemma forwarded_reply:
  assumes "rq_messages rq \<noteq> []" "try_optimizations (st_optimisations st) rq = None" "resolved \<noteq> []"
    and "parse_provider_type resolved \<in> set valid_providers"
    and "create_message st enc rp (rq, resolved) registry = (reply, registry')"
  shows "(\<exists>p. key_missing st p) \<and> reply = ServerFault 503
    \<or> (\<exists>e. get_token_count enc rp (rq_messages rq) (rq_system rq) (rq_tools rq) = Inl e) \<and> reply = ServerFault 500
    \<or> (\<exists>n. get_token_count enc rp (rq_messages rq) (rq_system rq) (rq_tools rq) = Inr n
        \<and> reply = Stream (parse_provider_type resolved) rq n \<and> parse_provider_type resolved \<in> set registry')"
proof -
  obtain failure registry1 where got: "get_provider_for_type st (parse_provider_type resolved) registry = (failure, registry1)"
    by fastforce
  note F = provider_for_valid [OF assms(4) got]
  show ?thesis
  proof (cases failure)
    case (Some f)
    with F(1) have "failure = Some MissingKey" by (cases f) simp_all
    with F(2) got assms show ?thesis by (auto simp: create_message_def Let_def)
  next
    case None
    with F(3) got assms show ?thesis
      by (cases "get_token_count enc rp (rq_messages rq) (rq_system rq) (rq_tools rq)") (simp_all add: create_message_def Let_def)
  qed
qed

text \<open>With settings that the validation accepts, a request is answered here, or handed to the provider that its
  model is configured for, under the model's name there and with at least one token; it fails only if it has no
  messages, if that provider has no key, or if its tokens cannot be counted.\<close>
theorem request_is_routed:
  assumes "accepted_settings st" and "messages_endpoint st enc rp mr registry = (reply, registry')"
  shows "case reply of
      Mocked m \<Rightarrow> rq_messages (mr_request mr) \<noteq> [] \<and> registry' = registry
    | Stream p rq n \<Rightarrow>
        p \<in> set valid_providers \<and> p \<in> set registry' \<and> 1 \<le> n
        \<and> p @ slash # rq_model rq
            = resolve_model st (case mr_original_model mr of None \<Rightarrow> rq_model (mr_request mr) | Some m \<Rightarrow> m)
        \<and> rq = (mr_request mr)\<lparr>rq_model := rq_model rq\<rparr>
    | Refusal code \<Rightarrow> code = 400 \<and> rq_messages (mr_request mr) = []
    | ServerFault code \<Rightarrow>
        (code = 503 \<and> (\<exists>p. key_missing st p))
        \<or> (code = 500 \<and> (\<exists>e. get_token_count enc rp (rq_messages (mr_request mr)) (rq_system (mr_request mr))
             (rq_tools (mr_request mr)) = Inl e))"
proof -
  define resolved where "resolved = resolve_model st (case mr_original_model mr of None \<Rightarrow> rq_model (mr_request mr) | Some m \<Rightarrow> m)"
  have ok: "slash \<in> set resolved" "parse_provider_type resolved \<in> set valid_providers"
    using accepted_resolve [OF assms(1)] by (simp_all add: resolved_def)
  then obtain name where name: "parse_model_name resolved = Inr name" by (simp add: parse_model_name_def)
  define rq where "rq = (mr_request mr)\<lparr>rq_model := name\<rparr>"
  have same: "rq_messages rq = rq_messages (mr_request mr)" "rq_system rq = rq_system (mr_request mr)"
      "rq_tools rq = rq_tools (mr_request mr)" "rq_model rq = name" "rq = (mr_request mr)\<lparr>rq_model := rq_model rq\<rparr>"
    by (simp_all add: rq_def)
  have "map_model st mr = Inr (rq, resolved)" using name by (simp add: map_model_def resolved_def [symmetric] rq_def Let_def)
  then have reply: "create_message st enc rp (rq, resolved) registry = (reply, registry')"
    using assms(2) by (simp add: messages_endpoint_def)
  have parts: "parse_provider_type resolved @ slash # rq_model rq = resolved" "resolved \<noteq> []"
    using parse_model_parts [OF name] ok(1) same(4) by auto
  show ?thesis
  proof (cases "rq_messages rq = [] \<or> try_optimizations (st_optimisations st) rq \<noteq> None")
    case True
    with reply same(1) show ?thesis by (auto simp: create_message_def split: if_splits)
  next
    case False
    then have "rq_messages rq \<noteq> []" "try_optimizations (st_optimisations st) rq = None" by blast+
    from forwarded_reply [OF this parts(2) ok(2) reply] consider (key) "\<exists>p. key_missing st p" "reply = ServerFault 503"
      | (uncounted) "\<exists>e. get_token_count enc rp (rq_messages rq) (rq_system rq) (rq_tools rq) = Inl e" "reply = ServerFault 500"
      | (sent) n where "get_token_count enc rp (rq_messages rq) (rq_system rq) (rq_tools rq) = Inr n"
        "reply = Stream (parse_provider_type resolved) rq n" "parse_provider_type resolved \<in> set registry'"
      by blast
    then show ?thesis
    proof cases
      case sent
      with token_count_bound [OF sent(1)] ok(2) parts(1) same(5) show ?thesis unfolding resolved_def by simp
    qed (use same in simp_all)
  qed
qed

text \<open>Settings with one model for everything, and a local one for the small requests.\<close>

definition sample_settings :: settings where
  "sample_settings = \<lparr>st_model = lit ''nvidia_nim/meta/llama3'', st_model_opus = None, st_model_sonnet = None,
     st_model_haiku = Some (lit ''lmstudio/qwen''), st_nim_key = [], st_open_router_key = [],
     st_optimisations = \<lparr>op_prefix = True, op_quota = True, op_title = True, op_suggestion = True, op_filepath = True\<rparr>,
     st_voice_note_enabled = True, st_whisper_device = lit ''cpu''\<rparr>"

definition hello :: "string \<Rightarrow> messages_request" where
  "hello model = \<lparr>mr_request = \<lparr>rq_model = lit model, rq_messages = [\<lparr>cm_role = lit ''user'', cm_content = PStr (lit ''hi'')\<rparr>],
     rq_system = PNone, rq_max_tokens = None, rq_temperature = PNone, rq_top_p = PNone, rq_top_k = None, rq_stop_sequences = PNone,
     rq_tools = [], rq_tool_choice = PNone, rq_extra_body = [], rq_thinking_enabled = None\<rparr>, mr_original_model = None\<rparr>"

lemma sample_accepted: "accepted_settings sample_settings"
  by (simp add: accepted_settings_def sample_settings_def validate_model_format_def parse_provider_type_def slash_def
      valid_providers_def validate_whisper_device_def check_nvidia_nim_api_key_def lit_def)

lemma hello_not_mocked: "try_optimizations op ((mr_request (hello model))\<lparr>rq_model := name\<rparr>) = None"
  by (simp add: try_optimizations_def OPTIMIZATION_HANDLERS_def try_quota_mock_def try_prefix_detection_def try_title_skip_def
      try_suggestion_skip_def try_filepath_mock_def is_quota_check_request_def is_prefix_detection_request_def
      is_title_generation_request_def is_suggestion_mode_request_def is_filepath_extraction_request_def single_user_text_def
      extract_text_from_content_def hello_def contains_def lit_def)

theorem request_is_routed_witness:
  "\<exists>rq. messages_endpoint sample_settings (\<lambda>s. Inr (length s)) (\<lambda>_. []) (hello ''claude-haiku-4'') [] = (Stream (lit ''lmstudio'') rq 6, [lit ''lmstudio''])
     \<and> lit ''lmstudio'' @ slash # rq_model rq = lit ''lmstudio/qwen''"
proof -
  have resolved: "resolve_model sample_settings (lit ''claude-haiku-4'') = lit ''lmstudio/qwen''"
    by (simp add: resolve_model_def sample_settings_def lower_def lower_char_def lit_def contains_def Let_def)
  have mapped: "map_model sample_settings (hello ''claude-haiku-4'')
      = Inr ((mr_request (hello ''claude-haiku-4''))\<lparr>rq_model := lit ''qwen''\<rparr>, lit ''lmstudio/qwen'')"
    using resolved by (simp add: map_model_def hello_def parse_model_name_def parse_provider_type_def slash_def lit_def)
  have count: "get_token_count (\<lambda>s. Inr (length s)) (\<lambda>_. []) (rq_messages (mr_request (hello ''claude-haiku-4'')))
      (rq_system (mr_request (hello ''claude-haiku-4''))) (rq_tools (mr_request (hello ''claude-haiku-4''))) = Inr 6"
    by (simp add: get_token_count_def hello_def system_tokens_def message_tokens_def lit_def)
  have sent: "messages_endpoint sample_settings (\<lambda>s. Inr (length s)) (\<lambda>_. []) (hello ''claude-haiku-4'') []
      = (Stream (lit ''lmstudio'') ((mr_request (hello ''claude-haiku-4''))\<lparr>rq_model := lit ''qwen''\<rparr>) 6, [lit ''lmstudio''])"
    using count hello_not_mocked [of _ "lit ''qwen''" "''claude-haiku-4''"]
    by (simp add: messages_endpoint_def mapped create_message_def get_provider_for_type_def create_provider_for_type_def
        parse_provider_type_def slash_def Let_def) (simp add: hello_def lit_def)
  from request_is_routed [OF sample_accepted this] resolved show ?thesis using sent by (auto simp: hello_def)
qed

text \<open>A message whose text the encoder refuses, as that of tiktoken refuses the name of a special token, is not
  forwarded, although the count is only an estimate.\<close>

lemma special_text_not_forwarded:
  assumes "enc (lit ''hi'') = Inl e"
  shows "fst (create_message sample_settings enc rp (mr_request (hello model), lit ''lmstudio/qwen'') registry) = ServerFault 500"
proof -
  have "try_optimizations op (mr_request (hello model)) = None" for op
    using hello_not_mocked [of op "rq_model (mr_request (hello model))" model] by simp
  moreover have "get_token_count enc rp (rq_messages (mr_request (hello model))) (rq_system (mr_request (hello model)))
      (rq_tools (mr_request (hello model))) = Inl e" "rq_messages (mr_request (hello model)) \<noteq> []"
    using assms by (simp_all add: hello_def get_token_count_def system_tokens_def message_tokens_def)
  moreover have "parse_provider_type (lit ''lmstudio/qwen'') = lit ''lmstudio''"
    by (simp add: parse_provider_type_def slash_def lit_def)
  moreover have "create_provider_for_type sample_settings (lit ''lmstudio'') = None"
    by (simp add: create_provider_for_type_def lit_def)
  then have "\<exists>r. get_provider_for_type sample_settings (lit ''lmstudio'') registry = (None, r)"
    by (simp add: get_provider_for_type_def)
  then obtain r where "get_provider_for_type sample_settings (lit ''lmstudio'') registry = (None, r)" ..
  moreover have "lit ''lmstudio/qwen'' \<noteq> []" by (simp add: lit_def)
  ultimately show ?thesis by (simp add: create_message_def)
qed

end
