(* ===== verification/MessageTypes.thy ===== *)
theory MessageTypes
  imports MessageConverter
begin

text \<open>
  The types of messages on both sides of the conversion: the content blocks and messages that
  \<open>api/models/anthropic.py\<close> accepts, and the messages of a chat completion.
\<close>

section \<open>What the request models accept\<close>

definition has_str :: "string \<Rightarrow> (pystr, pyval) dict \<Rightarrow> bool" where
  "has_str key d \<longleftrightarrow> (case dget d (lit key) of Some (PStr _) \<Rightarrow> True | _ \<Rightarrow> False)"

definition has_dict :: "string \<Rightarrow> (pystr, pyval) dict \<Rightarrow> bool" where
  "has_dict key d \<longleftrightarrow> (case dget d (lit key) of Some (PDict _) \<Rightarrow> True | _ \<Rightarrow> False)"

definition block_type_is :: "string \<Rightarrow> (pystr, pyval) dict \<Rightarrow> bool" where
  "block_type_is name d \<longleftrightarrow> dget d (lit ''type'') = Some (PStr (lit name))"

definition result_content :: "(pystr, pyval) dict \<Rightarrow> bool" where
  "result_content d \<longleftrightarrow>
     (case dget d (lit ''content'') of
        Some (PStr _) \<Rightarrow> True
      | Some (PList _) \<Rightarrow> True
      | Some (PDict _) \<Rightarrow> True
      | _ \<Rightarrow> False)"

definition valid_block :: "pyval \<Rightarrow> bool" where
  "valid_block v \<longleftrightarrow>
     (case v of
        PDict d \<Rightarrow>
          (block_type_is ''text'' d \<and> has_str ''text'' d)
          \<or> (block_type_is ''image'' d \<and> has_dict ''source'' d)
          \<or> (block_type_is ''tool_use'' d \<and> has_str ''id'' d \<and> has_str ''name'' d \<and> has_dict ''input'' d)
          \<or> (block_type_is ''tool_result'' d \<and> has_str ''tool_use_id'' d \<and> result_content d)
          \<or> (block_type_is ''thinking'' d \<and> has_str ''thinking'' d)
      | _ \<Rightarrow> False)"

definition valid_message :: "chat_message \<Rightarrow> bool" where
  "valid_message msg \<longleftrightarrow>
     (cm_role msg = lit ''user'' \<or> cm_role msg = lit ''assistant'')
     \<and> (case cm_content msg of PStr _ \<Rightarrow> True | PList blocks \<Rightarrow> list_all valid_block blocks | _ \<Rightarrow> False)"

text \<open>The models do not look into the items of a tool result.\<close>

definition text_item :: "pyval \<Rightarrow> bool" where
  "text_item item \<longleftrightarrow> (case item of PDict d \<Rightarrow> din (lit ''text'') d \<longrightarrow> has_str ''text'' d | _ \<Rightarrow> True)"

definition text_results :: "chat_message \<Rightarrow> bool" where
  "text_results msg \<longleftrightarrow>
     (case cm_content msg of
        PList blocks \<Rightarrow> list_all (\<lambda>b. case get_block_attr b ''content'' PNone of PList items \<Rightarrow> list_all text_item items | _ \<Rightarrow> True) blocks
      | _ \<Rightarrow> True)"

section \<open>Messages of a chat completion\<close>

definition typed_call :: "pyval \<Rightarrow> bool" where
  "typed_call v \<longleftrightarrow>
     (case v of
        PDict d \<Rightarrow> has_str ''id'' d \<and> dget d (lit ''type'') = Some (PStr (lit ''function''))
          \<and> (case dget d (lit ''function'') of Some (PDict f) \<Rightarrow> has_str ''name'' f \<and> has_str ''arguments'' f | _ \<Rightarrow> False)
      | _ \<Rightarrow> False)"

definition typed_calls :: "(pystr, pyval) dict \<Rightarrow> bool" where
  "typed_calls d \<longleftrightarrow>
     (case dget d (lit ''tool_calls'') of
        None \<Rightarrow> True
      | Some (PList calls) \<Rightarrow> calls \<noteq> [] \<and> list_all typed_call calls
      | _ \<Rightarrow> False)"

definition typed_message :: "pyval \<Rightarrow> bool" where
  "typed_message v \<longleftrightarrow>
     (case v of
        PDict d \<Rightarrow> has_str ''content'' d
          \<and> (dget d (lit ''role'') = Some (PStr (lit ''user''))
             \<or> (dget d (lit ''role'') = Some (PStr (lit ''assistant'')) \<and> typed_calls d
                \<and> (din (lit ''reasoning_content'') d \<longrightarrow> has_str ''reasoning_content'' d))
             \<or> (dget d (lit ''role'') = Some (PStr (lit ''tool'')) \<and> has_str ''tool_call_id'' d))
      | _ \<Rightarrow> False)"

section \<open>The conversion is well typed\<close>

definition str_value :: "pyval \<Rightarrow> bool" where
  "str_value v \<longleftrightarrow> (case v of PStr _ \<Rightarrow> True | _ \<Rightarrow> False)"

lemma str_value_PStr [simp]: "str_value (PStr s)"
  by (simp add: str_value_def)

lemma str_value_iff: "str_value v \<longleftrightarrow> (\<exists>s. v = PStr s)"
  by (cases v) (auto simp: str_value_def)

lemma join_strings: "list_all str_value vs \<Longrightarrow> \<exists>s. join_values sep vs = Inr s"
proof -
  assume "list_all str_value vs"
  then have "\<exists>ss. rmap_list (\<lambda>v. case v of PStr s \<Rightarrow> Inr s | _ \<Rightarrow> Inl TypeError) vs = Inr ss"
    by (induction vs) (auto simp: str_value_iff)
  then show ?thesis by (auto simp: join_values_def)
qed

lemma has_str_attr: "has_str key d \<Longrightarrow> str_value (get_block_attr (PDict d) key otherwise)"
  by (auto simp: has_str_def get_block_attr_def dget_or_def str_value_def split: option.splits pyval.splits)

lemma has_dict_attr: "has_dict key d \<Longrightarrow> \<exists>e. get_block_attr (PDict d) key otherwise = PDict e"
  by (auto simp: has_dict_def get_block_attr_def dget_or_def split: option.splits pyval.splits)

lemma type_attr: "block_type_is name d \<Longrightarrow> get_block_type (PDict d) = PStr (lit name)"
  by (simp add: block_type_is_def get_block_type_def get_block_attr_def dget_or_def)

lemma is_str_lit: "is_str (PStr (lit a)) b \<longleftrightarrow> a = b"
  by (auto simp: is_str_def lit_def inj_map_eq_map inj_def)

lemma str_attr_value: "str_value v \<Longrightarrow> dget d (lit key) = Some v \<Longrightarrow> has_str key d"
  by (auto simp: str_value_iff has_str_def)

lemma call_typed: "has_str ''id'' d \<Longrightarrow> has_str ''name'' d \<Longrightarrow> typed_call (tool_call_of rp (PDict d))"
  using has_str_attr [of "''id''" d PNone] has_str_attr [of "''name''" d PNone]
  by (auto simp: typed_call_def tool_call_of_def entry_defs Let_def has_str_def str_value_iff dict_simps lit_def)

lemma assistant_parts_typed:
  "list_all valid_block content \<Longrightarrow> assistant_parts rp reasoning content = (parts, thinking, calls) \<Longrightarrow>
     list_all str_value parts \<and> list_all str_value thinking \<and> list_all typed_call calls"
proof (induction content arbitrary: parts thinking calls)
  case (Cons b bs)
  obtain p t c where rec: "assistant_parts rp reasoning bs = (p, t, c)" by (cases "assistant_parts rp reasoning bs")
  with Cons have ih: "list_all str_value p" "list_all str_value t" "list_all typed_call c" by auto
  from Cons.prems(1) obtain d where d: "b = PDict d" "valid_block (PDict d)" by (cases b) (auto simp: valid_block_def)
  then consider "block_type_is ''text'' d" "has_str ''text'' d" | "block_type_is ''image'' d"
    | "block_type_is ''tool_use'' d" "has_str ''id'' d" "has_str ''name'' d" | "block_type_is ''tool_result'' d"
    | "block_type_is ''thinking'' d" "has_str ''thinking'' d"
    by (auto simp: valid_block_def)
  then show ?case
    using Cons.prems(2) rec d(1) ih has_str_attr call_typed
    by cases (auto simp: type_attr is_str_lit Let_def split: if_splits)
qed simp

lemma assistant_typed:
  assumes "list_all valid_block content"
  shows "\<exists>out. convert_assistant_message rp reasoning content = Inr out \<and> list_all typed_message out"
proof -
  obtain p t c where p: "assistant_parts rp reasoning content = (p, t, c)" by (cases "assistant_parts rp reasoning content")
  from assistant_parts_typed [OF assms p] have typed: "list_all str_value p" "list_all str_value t" "list_all typed_call c"
    by blast+
  obtain s where s: "join_values (newline @ newline) p = Inr s" using join_strings [OF typed(1)] by blast
  obtain r where r: "join_values newline t = Inr r" using join_strings [OF typed(2)] by blast
  show ?thesis
    using typed(3)
    by (auto simp: convert_assistant_message_def p s r Let_def typed_message_def typed_calls_def has_str_def entry_defs
        dict_simps lit_def)
qed

lemma flush_typed:
  "list_all str_value parts \<Longrightarrow> \<exists>out. flush_text parts = Inr out \<and> list_all typed_message out"
  using join_strings [of parts newline]
  by (auto simp: flush_text_def typed_message_def has_str_def entry_defs dict_simps lit_def)

lemma tool_message_typed:
  assumes "has_str ''tool_use_id'' d" "result_content d"
    and "case get_block_attr (PDict d) ''content'' PNone of PList items \<Rightarrow> list_all text_item items | _ \<Rightarrow> True"
  shows "\<exists>out. tool_message rp (PDict d) = Inr out \<and> typed_message out"
proof -
  have item: "str_value (result_item rp v)" if "text_item v" for v
  proof (cases v)
    case (PDict e)
    show ?thesis
    proof (cases "dget e (lit ''text'')")
      case (Some w)
      with that PDict show ?thesis
        by (auto simp: text_item_def result_item_def str_value_iff has_str_def dget_or_def din_def split: pyval.splits)
    qed (use PDict in \<open>simp add: result_item_def dget_or_def\<close>)
  qed (simp_all add: result_item_def)
  then have items: "list_all str_value (map (result_item rp) items)" if "list_all text_item items" for items
    using that by (auto simp: list_all_iff)
  obtain s where s: "tool_content rp (get_block_attr (PDict d) ''content'' (PStr [])) = Inr s"
    using assms(2,3) join_strings [OF items, of _ newline]
    by (auto simp: result_content_def tool_content_def get_block_attr_def dget_or_def split: option.splits pyval.splits)
  with has_str_attr [OF assms(1), of PNone] show ?thesis
    by (auto simp: tool_message_def typed_message_def has_str_def str_value_iff entry_defs dict_simps lit_def)
qed

lemma user_typed:
  "list_all valid_block content \<Longrightarrow> list_all str_value parts \<Longrightarrow>
     list_all (\<lambda>b. case get_block_attr b ''content'' PNone of PList items \<Rightarrow> list_all text_item items | _ \<Rightarrow> True) content \<Longrightarrow>
     \<exists>out. user_messages rp parts content = Inr out \<and> list_all typed_message out"
proof (induction content arbitrary: parts)
  case Nil
  then show ?case using flush_typed by simp
next
  case (Cons b bs)
  from Cons.prems(1) obtain d where d: "b = PDict d" "valid_block (PDict d)" by (cases b) (auto simp: valid_block_def)
  then consider (words) "block_type_is ''text'' d" "has_str ''text'' d"
    | (result) "block_type_is ''tool_result'' d" "has_str ''tool_use_id'' d" "result_content d"
    | (other) n where "block_type_is n d" "n \<noteq> ''text''" "n \<noteq> ''tool_result''"
    by (auto simp: valid_block_def)
  then show ?case
  proof cases
    case words
    with Cons.IH [of "parts @ [get_block_attr b ''text'' (PStr [])]"] Cons.prems d(1) has_str_attr [OF words(2)] show ?thesis
      by (simp add: type_attr is_str_lit)
  next
    case result
    obtain before where before: "flush_text parts = Inr before" "list_all typed_message before"
      using flush_typed Cons.prems(2) by blast
    obtain msg where msg: "tool_message rp b = Inr msg" "typed_message msg"
      using tool_message_typed [OF result(2,3)] Cons.prems(3) d(1) by auto
    obtain rest where "user_messages rp [] bs = Inr rest" "list_all typed_message rest"
      using Cons.IH [of "[]"] Cons.prems by auto
    with before msg result(1) d(1) show ?thesis by (simp add: type_attr is_str_lit)
  next
    case other
    with Cons.IH [of parts] Cons.prems d(1) show ?thesis by (simp add: type_attr is_str_lit)
  qed
qed

lemma message_typed:
  assumes "valid_message msg" "text_results msg"
  shows "\<exists>out. convert_message rp reasoning msg = Inr out \<and> list_all typed_message out"
proof (cases "cm_content msg")
  case (PStr s)
  with assms(1) show ?thesis
    by (auto simp: valid_message_def convert_message_def typed_message_def typed_calls_def has_str_def entry_defs dict_simps lit_def)
next
  case (PList content)
  with assms assistant_typed [of content] user_typed [of content "[]"] show ?thesis
    by (auto simp: valid_message_def text_results_def convert_message_def convert_user_message_def lit_def)
qed (use assms in \<open>simp_all add: valid_message_def\<close>)

text \<open>C23: a conversation that the request models accept, with texts as the items of its tool results, is converted
  without an exception, and every message of the outcome is a well-typed message of a chat completion.\<close>
theorem converted_messages_typed:
  assumes "list_all valid_message messages" "list_all text_results messages"
  shows "\<exists>out. convert_messages rp reasoning messages = Inr out \<and> list_all typed_message out"
proof -
  have "\<exists>outs. rmap_list (convert_message rp reasoning) messages = Inr outs \<and> list_all (list_all typed_message) outs"
    using assms
  proof (induction messages)
    case (Cons msg messages)
    obtain out where "convert_message rp reasoning msg = Inr out" "list_all typed_message out"
      using message_typed [of msg rp reasoning] Cons.prems by auto
    with Cons show ?case by auto
  qed simp
  then show ?thesis by (auto simp: convert_messages_def list_all_iff)
qed

text \<open>A conversation with a tool call and its result.\<close>

definition typed_sample :: "chat_message list" where
  "typed_sample = [
     \<lparr>cm_role = lit ''assistant'', cm_content = PList [PDict [text_entry ''type'' ''tool_use'', text_entry ''id'' ''t1'',
        text_entry ''name'' ''Read'', entry ''input'' (PDict [])]]\<rparr>,
     \<lparr>cm_role = lit ''user'', cm_content = PList [PDict [text_entry ''type'' ''tool_result'', text_entry ''tool_use_id'' ''t1'',
        entry ''content'' (PList [PDict [text_entry ''type'' ''text'', text_entry ''text'' ''ok'']])]]\<rparr>]"

theorem converted_messages_typed_witness:
  "\<exists>out. convert_messages (\<lambda>_. []) True typed_sample = Inr out \<and> list_all typed_message out"
  by (rule converted_messages_typed)
    (simp_all add: typed_sample_def valid_message_def valid_block_def block_type_is_def has_str_def has_dict_def result_content_def
      text_results_def text_item_def get_block_attr_def dget_or_def entry_defs dict_simps lit_def)

text \<open>An item whose text is not a string passes the models and raises.\<close>

lemma number_item_raises:
  "valid_block (PDict [text_entry ''type'' ''tool_result'', text_entry ''tool_use_id'' ''t1'',
     entry ''content'' (PList [PDict [entry ''text'' (PInt 5)]])])"
  "convert_message rp reasoning \<lparr>cm_role = lit ''user'', cm_content = PList [PDict [text_entry ''type'' ''tool_result'',
     text_entry ''tool_use_id'' ''t1'', entry ''content'' (PList [PDict [entry ''text'' (PInt 5)]])]]\<rparr> = Inl TypeError"
  by (simp_all add: valid_block_def block_type_is_def has_str_def result_content_def convert_message_def convert_user_message_def
      get_block_type_def get_block_attr_def dget_or_def is_str_def flush_text_def tool_message_def tool_content_def join_values_def
      result_item_def entry_defs dict_simps lit_def)

text \<open>A message that consists of images is dropped.\<close>

lemma image_message_dropped:
  "convert_message rp reasoning \<lparr>cm_role = lit ''user'', cm_content = PList [PDict [text_entry ''type'' ''image'',
     entry ''source'' (PDict [])]]\<rparr> = Inr []"
  by (simp add: convert_message_def convert_user_message_def get_block_type_def get_block_attr_def dget_or_def is_str_def
      flush_text_def entry_defs dict_simps lit_def)

end
