(* ===== verification/PostgresStore.thy ===== *)
theory PostgresStore
  imports SessionStore PyText
begin

text \<open>
  \<open>messaging/postgres_session.py\<close>: the session store on PostgreSQL. The connection commits every statement by
  itself, so an operation is the list of its statements, and those before a failure stay. The tables are maps by
  their primary keys and the message log is a list of rows. PostgreSQL refuses a mapping of a node to a tree that
  is not there, and never truncates a table that another table refers to.
\<close>

section \<open>Tables\<close>

record log_row =
  lw_platform :: pystr
  lw_chat :: pystr
  lw_message :: pystr
  lw_ts :: int
  lw_direction :: pystr
  lw_kind :: pystr

record pg_tables =
  pg_trees :: "pystr \<rightharpoonup> pyval"
  pg_nodes :: "pystr \<rightharpoonup> pystr"
  pg_log :: "log_row list"

datatype pg_error = ForeignKeyViolation | FeatureNotSupported | ConnectionLost

type_synonym pg_statement = "pg_tables \<Rightarrow> pg_error + pg_tables"

definition empty_tables :: pg_tables where
  "empty_tables = \<lparr>pg_trees = (\<lambda>_. None), pg_nodes = (\<lambda>_. None), pg_log = []\<rparr>"

text \<open>What the constructor reads: an address is needed, and a cap that is no number is none.\<close>

definition database_address :: "pystr \<Rightarrow> pystr result" where
  "database_address url =
     (if strip url = [] then Inl (ValueError (lit ''DATABASE_URL must be set for PostgresSessionStore''))
      else Inr (strip url))"

definition log_cap_of :: "pystr option \<Rightarrow> int option" where
  "log_cap_of raw = (let cap_raw = (case raw of None \<Rightarrow> [] | Some r \<Rightarrow> strip r)
     in if cap_raw = [] then None else py_int cap_raw)"

section \<open>Statements\<close>

definition upsert_tree :: "pystr \<Rightarrow> pyval \<Rightarrow> pg_statement" where
  "upsert_tree root_id tree_data db = Inr (db\<lparr>pg_trees := (pg_trees db)(root_id \<mapsto> tree_data)\<rparr>)"

definition without_nodes_of :: "pystr \<Rightarrow> (pystr \<rightharpoonup> pystr) \<Rightarrow> pystr \<rightharpoonup> pystr" where
  "without_nodes_of root_id m = (\<lambda>n. if m n = Some root_id then None else m n)"

definition delete_nodes_of :: "pystr \<Rightarrow> pg_statement" where
  "delete_nodes_of root_id db =
     Inr (db\<lparr>pg_nodes := without_nodes_of root_id (pg_nodes db)\<rparr>)"

definition upsert_node :: "pystr \<Rightarrow> pystr \<Rightarrow> pg_statement" where
  "upsert_node root_id node_id db =
     (if pg_trees db root_id = None then Inl ForeignKeyViolation
      else Inr (db\<lparr>pg_nodes := (pg_nodes db)(node_id \<mapsto> root_id)\<rparr>))"

definition delete_nodes :: "pystr list \<Rightarrow> pg_statement" where
  "delete_nodes ids db = Inr (db\<lparr>pg_nodes := (\<lambda>n. if n \<in> set ids then None else pg_nodes db n)\<rparr>)"

text \<open>The mappings go with the tree.\<close>

definition delete_tree :: "pystr \<Rightarrow> pg_statement" where
  "delete_tree root_id db =
     Inr (db\<lparr>pg_trees := (pg_trees db)(root_id := None),
            pg_nodes := (\<lambda>n. if pg_trees db root_id \<noteq> None \<and> pg_nodes db n = Some root_id then None else pg_nodes db n)\<rparr>)"

definition truncate_log :: pg_statement where
  "truncate_log db = Inr (db\<lparr>pg_log := []\<rparr>)"

definition truncate_nodes :: pg_statement where
  "truncate_nodes db = Inr (db\<lparr>pg_nodes := (\<lambda>_. None)\<rparr>)"

definition truncate_trees :: pg_statement where
  "truncate_trees db = Inl FeatureNotSupported"

definition of_chat :: "pystr \<Rightarrow> pystr \<Rightarrow> log_row \<Rightarrow> bool" where
  "of_chat platform chat_id r \<longleftrightarrow> lw_platform r = platform \<and> lw_chat r = chat_id"

definition insert_log :: "log_row \<Rightarrow> pg_statement" where
  "insert_log r db =
     Inr (if list_ex (\<lambda>x. of_chat (lw_platform r) (lw_chat r) x \<and> lw_message x = lw_message r) (pg_log db) then db
          else db\<lparr>pg_log := pg_log db @ [r]\<rparr>)"

text \<open>The rows of a chat beyond the newest \<open>cap\<close> are deleted.\<close>

definition cap_log :: "pystr \<Rightarrow> pystr \<Rightarrow> int \<Rightarrow> pg_statement" where
  "cap_log platform chat_id cap db =
     (let newest = take (nat cap) (sort_key (\<lambda>r. - lw_ts r) (filter (of_chat platform chat_id) (pg_log db)))
      in Inr (db\<lparr>pg_log := filter (\<lambda>r. of_chat platform chat_id r \<longrightarrow> r \<in> set newest) (pg_log db)\<rparr>))"

section \<open>Operations\<close>

datatype pg_operation =
    RecordMessage "int option" log_row
  | ClearAll
  | SaveTree pystr "pystr list" pyval \<comment> \<open>with the names of the nodes of the tree\<close>
  | RegisterNode pystr pystr
  | RemoveNodeMappings "pystr list"
  | RemoveTree pystr
  | SyncTrees "(pystr \<times> pyval) list" "(pystr \<times> pystr) list"

fun statements_of :: "pg_operation \<Rightarrow> pg_statement list" where
  "statements_of (RecordMessage cap r) =
     insert_log r # (case cap of None \<Rightarrow> [] | Some c \<Rightarrow> if 0 < c then [cap_log (lw_platform r) (lw_chat r) c] else [])"
| "statements_of ClearAll = [truncate_log, truncate_nodes, truncate_trees]"
| "statements_of (SaveTree root_id ids tree_data) =
     upsert_tree root_id tree_data # delete_nodes_of root_id # map (upsert_node root_id) ids"
| "statements_of (RegisterNode node_id root_id) = [upsert_node root_id node_id]"
| "statements_of (RemoveNodeMappings ids) = (if ids = [] then [] else [delete_nodes ids])"
| "statements_of (RemoveTree root_id) = [delete_tree root_id]"
| "statements_of (SyncTrees trees nodes) =
     truncate_nodes # truncate_trees # map (\<lambda>(r, d). upsert_tree r d) trees @ map (\<lambda>(n, r). upsert_node r n) nodes"

fun run_statements :: "pg_statement list \<Rightarrow> pg_tables \<Rightarrow> pg_tables \<times> pg_error option" where
  "run_statements [] db = (db, None)"
| "run_statements (s # ss) db = (case s db of Inl e \<Rightarrow> (db, Some e) | Inr db' \<Rightarrow> run_statements ss db')"

text \<open>\<open>_retry_once\<close>, with the numbers of statements after which the connection is lost, in the first attempt and in
  the second one.\<close>

definition retry_once :: "nat option \<Rightarrow> nat option \<Rightarrow> pg_statement list \<Rightarrow> pg_tables \<Rightarrow> pg_tables \<times> pg_error option" where
  "retry_once first second ss db =
     (case first of
        None \<Rightarrow> run_statements ss db
      | Some k \<Rightarrow>
          (case run_statements (take k ss) db of
             (db1, Some e) \<Rightarrow> (db1, Some e)
           | (db1, None) \<Rightarrow>
               (case second of
                  None \<Rightarrow> run_statements ss db1
                | Some l \<Rightarrow>
                    (case run_statements (take l ss) db1 of
                       (db2, Some e) \<Rightarrow> (db2, Some e)
                     | (db2, None) \<Rightarrow> (db2, Some ConnectionLost)))))"

definition pg_perform :: "pg_operation \<Rightarrow> pg_tables \<Rightarrow> pg_tables \<times> pg_error option" where
  "pg_perform op db = retry_once None None (statements_of op) db"

text \<open>The queries.\<close>

definition pg_get_tree :: "pystr \<Rightarrow> pg_tables \<Rightarrow> pyval option" where
  "pg_get_tree root_id db = pg_trees db root_id"

definition pg_message_ids :: "pystr \<Rightarrow> pystr \<Rightarrow> pg_tables \<Rightarrow> pystr list" where
  "pg_message_ids platform chat_id db = map lw_message (sort_key lw_ts (filter (of_chat platform chat_id) (pg_log db)))"

text \<open>A caller performs one operation after the other, up to the first exception.\<close>

fun pg_perform_all :: "pg_operation list \<Rightarrow> pg_tables \<Rightarrow> pg_tables \<times> pg_error option" where
  "pg_perform_all [] db = (db, None)"
| "pg_perform_all (op # ops) db =
     (case pg_perform op db of (db', Some e) \<Rightarrow> (db', Some e) | (db', None) \<Rightarrow> pg_perform_all ops db')"

text \<open>What the message handler does with the store for a new conversation.\<close>

definition new_conversation :: "pystr \<Rightarrow> pystr \<Rightarrow> pystr list \<Rightarrow> pyval \<Rightarrow> pg_operation list" where
  "new_conversation node_id status_id ids tree_data =
     [RegisterNode node_id node_id, RegisterNode status_id node_id, SaveTree node_id ids tree_data]"

section \<open>A lost connection\<close>

lemmas statement_defs = upsert_tree_def delete_nodes_of_def upsert_node_def delete_nodes_def delete_tree_def
  truncate_log_def truncate_nodes_def truncate_trees_def

lemma run_append:
  "run_statements (ss @ ts) db =
     (case run_statements ss db of (db', Some e) \<Rightarrow> (db', Some e) | (db', None) \<Rightarrow> run_statements ts db')"
  by (induction ss arbitrary: db) (auto split: sum.split)

text \<open>The mapping of nodes that are all given to one tree.\<close>

definition map_to :: "pystr \<Rightarrow> pystr list \<Rightarrow> (pystr \<rightharpoonup> pystr) \<Rightarrow> pystr \<rightharpoonup> pystr" where
  "map_to root_id ids m = (\<lambda>n. if n \<in> set ids then Some root_id else m n)"

lemma map_to_Nil [simp]: "map_to root_id [] m = m"
  by (simp add: map_to_def)

lemma map_to_update: "map_to root_id ids (m(n \<mapsto> root_id)) = map_to root_id (n # ids) m"
  by (auto simp: map_to_def)

lemma run_upserts:
  "pg_trees db root_id \<noteq> None \<Longrightarrow>
     run_statements (map (upsert_node root_id) ids) db = (db\<lparr>pg_nodes := map_to root_id ids (pg_nodes db)\<rparr>, None)"
proof (induction ids arbitrary: db)
  case (Cons n ids)
  then show ?case by (simp add: upsert_node_def map_to_update del: fun_upd_apply)
qed simp

lemma run_save:
  "run_statements (statements_of (SaveTree root_id ids tree_data)) db
     = (db\<lparr>pg_trees := (pg_trees db)(root_id \<mapsto> tree_data),
          pg_nodes := map_to root_id ids (without_nodes_of root_id (pg_nodes db))\<rparr>, None)"
  by (simp add: upsert_tree_def delete_nodes_of_def run_upserts)

text \<open>Part of a save and then all of it is the save.\<close>

lemma save_after_part:
  assumes "run_statements (take k (statements_of (SaveTree root_id ids tree_data))) db = (db1, None)"
  shows "run_statements (statements_of (SaveTree root_id ids tree_data)) db1
       = run_statements (statements_of (SaveTree root_id ids tree_data)) db"
proof -
  have nodes: "map_to root_id ids (without_nodes_of root_id (map_to root_id (take j ids) (without_nodes_of root_id m)))
      = map_to root_id ids (without_nodes_of root_id m)" for j m
    by (auto simp: map_to_def without_nodes_of_def fun_eq_iff dest: in_set_takeD)
  consider "k = 0" | "k = 1" | j where "k = Suc (Suc j)" by (cases k; cases "k - 1") auto
  then show ?thesis
  proof cases
    case 1
    with assms show ?thesis by simp
  next
    case 2
    with assms have "db1 = db\<lparr>pg_trees := (pg_trees db)(root_id \<mapsto> tree_data)\<rparr>"
      by (simp add: upsert_tree_def)
    then show ?thesis unfolding run_save by simp
  next
    case 3
    with assms have "db1 = db\<lparr>pg_trees := (pg_trees db)(root_id \<mapsto> tree_data),
        pg_nodes := map_to root_id (take j ids) (without_nodes_of root_id (pg_nodes db))\<rparr>"
      by (simp add: upsert_tree_def delete_nodes_of_def take_map run_upserts)
    then show ?thesis unfolding run_save by (simp add: nodes)
  qed
qed

text \<open>Deletions and single mappings, too, can be done twice.\<close>

lemma upsert_node_twice: "upsert_node root_id n db = Inr db1 \<Longrightarrow> upsert_node root_id n db1 = Inr db1"
  by (auto simp: upsert_node_def split: if_splits)

lemma delete_nodes_twice: "delete_nodes ids db = Inr db1 \<Longrightarrow> delete_nodes ids db1 = Inr db1"
  by (auto simp: delete_nodes_def fun_eq_iff)

lemma delete_tree_twice: "delete_tree root_id db = Inr db1 \<Longrightarrow> delete_tree root_id db1 = Inr db1"
  by (auto simp: delete_tree_def fun_eq_iff)

lemma pg_perform_run: "pg_perform op db = run_statements (statements_of op) db"
  by (simp add: pg_perform_def retry_once_def)

fun keeps_trees :: "pg_operation \<Rightarrow> bool" where
  "keeps_trees (SaveTree _ _ _) = True"
| "keeps_trees (RegisterNode _ _) = True"
| "keeps_trees (RemoveNodeMappings _) = True"
| "keeps_trees (RemoveTree _) = True"
| "keeps_trees _ = False"

lemma single_statement_again:
  assumes "statements_of op = [s]" and "\<And>db1. s db = Inr db1 \<Longrightarrow> s db1 = Inr db1"
  shows "retry_once (Some k) None (statements_of op) db = pg_perform op db"
  using assms(2) unfolding assms(1) pg_perform_run
  by (cases k) (auto simp: retry_once_def split: sum.splits prod.splits option.splits)

lemma save_part_succeeds:
  "snd (run_statements (take k (statements_of (SaveTree root_id ids tree_data))) db) = None"
proof -
  have "run_statements (take k (statements_of (SaveTree root_id ids tree_data))
      @ drop k (statements_of (SaveTree root_id ids tree_data))) db
      = run_statements (statements_of (SaveTree root_id ids tree_data)) db"
    by (simp only: append_take_drop_id)
  then show ?thesis
    unfolding run_append run_save by (auto split: prod.splits option.splits)
qed

text \<open>A tree operation whose connection is lost after any number of its statements has, after its one repetition,
  the effect and the result of the undisturbed operation.\<close>

theorem postgres_retry_idempotent:
  assumes "keeps_trees op"
  shows "retry_once (Some k) None (statements_of op) db = pg_perform op db"
proof (cases op)
  case (SaveTree root_id ids tree_data)
  obtain db1 where part: "run_statements (take k (statements_of op)) db = (db1, None)"
    using save_part_succeeds [of k root_id ids tree_data db] SaveTree
    by (cases "run_statements (take k (statements_of op)) db") auto
  with SaveTree save_after_part have "run_statements (statements_of op) db1 = run_statements (statements_of op) db"
    by blast
  with part show ?thesis by (simp add: retry_once_def pg_perform_def)
next
  case (RegisterNode node_id root_id)
  show ?thesis
    by (rule single_statement_again [of _ "upsert_node root_id node_id"]) (simp_all add: RegisterNode upsert_node_twice)
next
  case (RemoveNodeMappings ids)
  show ?thesis
  proof (cases "ids = []")
    case False
    then show ?thesis
      by (intro single_statement_again [of _ "delete_nodes ids"]) (simp_all add: RemoveNodeMappings delete_nodes_twice)
  qed (simp add: RemoveNodeMappings retry_once_def pg_perform_run)
next
  case (RemoveTree root_id)
  show ?thesis
    by (rule single_statement_again [of _ "delete_tree root_id"]) (simp_all add: RemoveTree delete_tree_twice)
qed (use assms in simp_all)

lemma postgres_retry_idempotent_witness:
  "retry_once (Some 3) None (statements_of (SaveTree (lit ''1'') [lit ''1'', lit ''2''] PNone)) empty_tables
     = pg_perform (SaveTree (lit ''1'') [lit ''1'', lit ''2''] PNone) empty_tables"
  by (rule postgres_retry_idempotent) simp

section \<open>Foreign keys\<close>

text \<open>Every mapped node belongs to a tree that is there, whatever fails.\<close>

definition fk_ok :: "pg_tables \<Rightarrow> bool" where
  "fk_ok db \<longleftrightarrow> (\<forall>n r. pg_nodes db n = Some r \<longrightarrow> pg_trees db r \<noteq> None)"

definition keeps_fk :: "pg_statement \<Rightarrow> bool" where
  "keeps_fk s \<longleftrightarrow> (\<forall>db db'. fk_ok db \<longrightarrow> s db = Inr db' \<longrightarrow> fk_ok db')"

lemma delete_tree_keeps_fk: "keeps_fk (delete_tree root_id)"
  by (fastforce simp: keeps_fk_def fk_ok_def delete_tree_def)

lemma statements_keep_fk: "s \<in> set (statements_of op) \<Longrightarrow> keeps_fk s"
  by (cases op; auto simp: delete_tree_keeps_fk split: option.splits if_splits)
    (auto simp: keeps_fk_def fk_ok_def statement_defs insert_log_def cap_log_def without_nodes_of_def Let_def
      split: if_splits)

lemma run_keeps_fk: "list_all keeps_fk ss \<Longrightarrow> fk_ok db \<Longrightarrow> fk_ok (fst (run_statements ss db))"
  by (induction ss arbitrary: db) (auto simp: keeps_fk_def split: sum.split)

lemma operations_keep_fk: "fk_ok db \<Longrightarrow> fk_ok (fst (retry_once a b (statements_of op) db))"
proof -
  have ok: "list_all keeps_fk (statements_of op)" "list_all keeps_fk (take k (statements_of op))" for k
    using statements_keep_fk by (auto simp: list_all_iff dest: in_set_takeD)
  assume "fk_ok db"
  with ok run_keeps_fk show ?thesis
    by (auto simp: retry_once_def split: option.split prod.split) (metis fst_conv)+
qed

section \<open>Operations that the database refuses\<close>

text \<open>No conversation can begin: the mapping of its first node is registered before its tree is saved, so the
  database refuses it and nothing is written.\<close>

theorem postgres_refuses_conversation:
  "pg_trees db node_id = None \<Longrightarrow>
     pg_perform_all (new_conversation node_id status_id ids tree_data) db = (db, Some ForeignKeyViolation)"
  by (simp add: new_conversation_def pg_perform_run upsert_node_def)

lemma postgres_refuses_conversation_witness:
  "pg_perform_all (new_conversation (lit ''7'') (lit ''8'') [lit ''7''] PNone) empty_tables
     = (empty_tables, Some ForeignKeyViolation)"
  by (rule postgres_refuses_conversation) (simp add: empty_tables_def)

text \<open>Saving the tree first would do.\<close>

lemma tree_first_accepted:
  "snd (pg_perform_all [SaveTree node_id ids tree_data, RegisterNode node_id node_id, RegisterNode status_id node_id] db)
     = None"
  by (simp add: pg_perform_run run_save upsert_node_def del: statements_of.simps(3))

text \<open>Clearing everything, and writing restored trees back, fails at the tables of trees, which the mappings refer
  to: the messages and the mappings are gone and every tree is still there.\<close>

theorem postgres_clear_keeps_trees:
  "pg_perform ClearAll db = (empty_tables\<lparr>pg_trees := pg_trees db\<rparr>, Some FeatureNotSupported) \<and>
   pg_perform (SyncTrees trees nodes) db = (db\<lparr>pg_nodes := \<lambda>_. None\<rparr>, Some FeatureNotSupported)"
  by (simp add: pg_perform_run statement_defs empty_tables_def)

section \<open>The store in the file\<close>

definition same_trees :: "session_store \<Rightarrow> pg_tables \<Rightarrow> bool" where
  "same_trees s db \<longleftrightarrow> dget (ss_trees s) = pg_trees db \<and> dget (ss_node_to_tree s) = pg_nodes db"

lemma file_save_nodes: "dget (fold (\<lambda>i d. dset i root_id d) ids m) = map_to root_id ids (dget m)"
proof (induction ids arbitrary: m)
  case (Cons i ids)
  then show ?case by (simp add: map_to_update [symmetric] fun_eq_iff dget_dset map_to_def)
qed simp

lemma same_trees_register:
  "same_trees s db \<Longrightarrow> pg_trees db root_id \<noteq> None \<Longrightarrow>
     same_trees (register_node node_id root_id s) (fst (pg_perform (RegisterNode node_id root_id) db))"
  by (auto simp: same_trees_def register_node_def schedule_save_def pg_perform_run upsert_node_def fun_eq_iff dget_dset)

text \<open>Saving a tree keeps the two stores alike exactly when every name mapped to the tree is a node of it. The
  status messages are mapped to the tree without being nodes of it, so the database forgets them with the first save,
  and a reply to a status message is not found again after a restart.\<close>

theorem postgres_forgets_status:
  assumes "same_trees s db" "node_ids tree_data = Inr ids"
  shows "same_trees (fst (save_tree root_id tree_data s)) (fst (pg_perform (SaveTree root_id ids tree_data) db))
     \<longleftrightarrow> (\<forall>n. pg_nodes db n = Some root_id \<longrightarrow> n \<in> set ids)"
proof -
  let ?m = "pg_nodes db"
  have "same_trees (fst (save_tree root_id tree_data s)) (fst (pg_perform (SaveTree root_id ids tree_data) db))
     \<longleftrightarrow> map_to root_id ids ?m = map_to root_id ids (without_nodes_of root_id ?m)"
    using assms unfolding pg_perform_run run_save
    by (auto simp: same_trees_def save_tree_def schedule_save_def file_save_nodes fun_eq_iff dget_dset)
  also have "\<dots> \<longleftrightarrow> (\<forall>n. ?m n = Some root_id \<longrightarrow> n \<in> set ids)"
    by (auto simp: map_to_def without_nodes_of_def fun_eq_iff)
  finally show ?thesis .
qed

definition told_tree :: pyval where
  "told_tree = PDict [(lit ''nodes'', PDict [(lit ''1'', PNone)])]"

definition told_store :: session_store where
  "told_store = (store_init None)\<lparr>ss_trees := [(lit ''1'', told_tree)],
     ss_node_to_tree := [(lit ''1'', lit ''1''), (lit ''2'', lit ''1'')]\<rparr>"

definition told_tables :: pg_tables where
  "told_tables = \<lparr>pg_trees = dget (ss_trees told_store), pg_nodes = dget (ss_node_to_tree told_store), pg_log = []\<rparr>"

lemma postgres_forgets_status_witness:
  "same_trees told_store told_tables \<and>
   \<not> same_trees (fst (save_tree (lit ''1'') told_tree told_store))
       (fst (pg_perform (SaveTree (lit ''1'') [lit ''1''] told_tree) told_tables))"
proof -
  have same: "same_trees told_store told_tables" by (simp add: same_trees_def told_tables_def)
  have ids: "node_ids told_tree = Inr [lit ''1'']" by (simp add: told_tree_def node_ids_def dget_or_def)
  have "pg_nodes told_tables (lit ''2'') = Some (lit ''1'')" by (simp add: told_tables_def told_store_def)
  then have "\<not> (\<forall>n. pg_nodes told_tables n = Some (lit ''1'') \<longrightarrow> n \<in> set [lit ''1''])" by auto
  with same postgres_forgets_status [OF same ids, of "lit ''1''"] show ?thesis by blast
qed

end
