(* ===== verification/Base64.thy ===== *)
theory Base64
  imports Prelude
begin

text \<open>
  Bytes and their texts, for the signed states of \<open>api/v1/routers/integrations.py\<close>: UTF-8, the URL-safe alphabet of
  base 64 as \<open>base64.urlsafe_b64encode\<close> writes it and \<open>base64.urlsafe_b64decode\<close> reads it, without the padding,
  and \<open>urllib.parse.quote_plus\<close>. A byte is a character.
\<close>

type_synonym bytes = "char list"

section \<open>UTF-8\<close>

text \<open>Surrogates cannot be encoded: \<open>UnicodeEncodeError\<close>.\<close>

definition utf8_char :: "nat \<Rightarrow> bytes option" where
  "utf8_char n =
     (if n < 128 then Some [char_of n]
      else if n < 2048 then Some [char_of (192 + n div 64), char_of (128 + n mod 64)]
      else if 55296 \<le> n \<and> n < 57344 then None
      else if n < 65536 then Some [char_of (224 + n div 4096), char_of (128 + n div 64 mod 64), char_of (128 + n mod 64)]
      else Some [char_of (240 + n div 262144), char_of (128 + n div 4096 mod 64), char_of (128 + n div 64 mod 64),
                 char_of (128 + n mod 64)])"

fun char_number :: "pychar \<Rightarrow> nat" where
  "char_number (Ch c) = of_char c"
| "char_number (Uni n) = n"

fun utf8 :: "pystr \<Rightarrow> bytes option" where
  "utf8 [] = Some []"
| "utf8 (x # s) =
     (case (utf8_char (char_number x), utf8 s) of (Some b, Some bs) \<Rightarrow> Some (b @ bs) | _ \<Rightarrow> None)"

definition ascii_char :: "pychar \<Rightarrow> bool" where
  "ascii_char x \<longleftrightarrow> char_number x < 128"

text \<open>\<open>s.encode("ascii")\<close>.\<close>

definition ascii :: "pystr \<Rightarrow> bytes option" where
  "ascii s = (if list_all ascii_char s then Some (map (\<lambda>x. char_of (char_number x)) s) else None)"

lemma ascii_of_chars: "list_all (\<lambda>c. of_char c < (128 :: nat)) bs \<Longrightarrow> ascii (map Ch bs) = Some bs"
  by (simp add: ascii_def ascii_char_def list.pred_map comp_def)

section \<open>Writing\<close>

definition digit64 :: "nat \<Rightarrow> char" where
  "digit64 n =
     (if n < 26 then char_of (65 + n) else if n < 52 then char_of (71 + n) else if n < 62 then char_of (n - 4)
      else if n = 62 then CHR ''-'' else CHR ''_'')"

abbreviation byte :: "char \<Rightarrow> nat" where
  "byte c \<equiv> of_char c"

fun b64encode :: "bytes \<Rightarrow> bytes" where
  "b64encode [] = []"
| "b64encode [a] = [digit64 (byte a div 4), digit64 (byte a mod 4 * 16), CHR ''='', CHR ''='']"
| "b64encode [a, b] =
     [digit64 (byte a div 4), digit64 (byte a mod 4 * 16 + byte b div 16), digit64 (byte b mod 16 * 4), CHR ''='']"
| "b64encode (a # b # c # r) =
     digit64 (byte a div 4) # digit64 (byte a mod 4 * 16 + byte b div 16)
       # digit64 (byte b mod 16 * 4 + byte c div 64) # digit64 (byte c mod 64) # b64encode r"

text \<open>\<open>t.rstrip("=")\<close>, and the padding to a multiple of four.\<close>

definition strip_padding :: "bytes \<Rightarrow> bytes" where
  "strip_padding t = rev (dropWhile (\<lambda>c. c = CHR ''='') (rev t))"

definition padded :: "'a list \<Rightarrow> 'a \<Rightarrow> 'a list" where
  "padded t pad = t @ replicate ((4 - length t mod 4) mod 4) pad"

section \<open>Reading\<close>

definition value64 :: "char \<Rightarrow> nat option" where
  "value64 c =
     (let n = byte c
      in if 65 \<le> n \<and> n \<le> 90 then Some (n - 65) else if 97 \<le> n \<and> n \<le> 122 then Some (n - 71)
         else if 48 \<le> n \<and> n \<le> 57 then Some (n + 4) else if n = 45 \<or> n = 43 then Some 62
         else if n = 95 \<or> n = 47 then Some 63 else None)"

text \<open>The position in the group of four, the bits left over, and the padding seen so far. Characters outside the
  alphabet are skipped; complete padding ends the reading.\<close>

fun b64scan :: "nat \<Rightarrow> nat \<Rightarrow> nat \<Rightarrow> bytes \<Rightarrow> bytes option" where
  "b64scan q left pads [] = (if q = 0 then Some [] else None)"
| "b64scan q left pads (c # s) =
     (if c = CHR ''='' then
        (if 2 \<le> q then (if 4 \<le> q + pads + 1 then Some [] else b64scan q left (pads + 1) s) else b64scan q left pads s)
      else
        (case value64 c of
           None \<Rightarrow> b64scan q left pads s
         | Some v \<Rightarrow>
             if q = 0 then b64scan 1 v 0 s
             else if q = 1 then map_option ((#) (char_of (left * 4 + v div 16))) (b64scan 2 (v mod 16) 0 s)
             else if q = 2 then map_option ((#) (char_of (left * 16 + v div 4))) (b64scan 3 (v mod 4) 0 s)
             else map_option ((#) (char_of (left * 64 + v))) (b64scan 0 0 0 s)))"

definition b64decode :: "bytes \<Rightarrow> bytes option" where
  "b64decode t = b64scan 0 0 0 t"

section \<open>Round trip\<close>

lemma byte_less: "byte c < 256"
  using nat_of_char_less_256 by simp

lemma digit64_number: "n < 64 \<Longrightarrow> byte (digit64 n) =
    (if n < 26 then 65 + n else if n < 52 then 71 + n else if n < 62 then n - 4 else if n = 62 then 45 else 95)"
  by (auto simp: digit64_def)

lemma value_of_digit: "n < 64 \<Longrightarrow> value64 (digit64 n) = Some n"
  unfolding value64_def digit64_number Let_def by auto

lemma digit_not_pad: "n < 64 \<Longrightarrow> digit64 n \<noteq> CHR ''=''"
proof
  assume "n < 64" "digit64 n = CHR ''=''"
  then have "value64 (CHR ''='') = Some n" using value_of_digit by metis
  then show False by (simp add: value64_def)
qed

lemma scan_digit:
  assumes "v < 64"
  shows "b64scan 0 left pads (digit64 v # s) = b64scan 1 v 0 s"
    and "b64scan 1 left pads (digit64 v # s) = map_option ((#) (char_of (left * 4 + v div 16))) (b64scan 2 (v mod 16) 0 s)"
    and "b64scan 2 left pads (digit64 v # s) = map_option ((#) (char_of (left * 16 + v div 4))) (b64scan 3 (v mod 4) 0 s)"
    and "b64scan 3 left pads (digit64 v # s) = map_option ((#) (char_of (left * 64 + v))) (b64scan 0 0 0 s)"
  using value_of_digit [OF assms] digit_not_pad [OF assms] by simp_all

lemma scan_end: "b64scan 0 left pads [] = Some []" "b64scan 2 left 0 [CHR ''='', CHR ''=''] = Some []"
    "b64scan 3 left 0 [CHR ''=''] = Some []" "b64scan 2 left 0 [] = None" "b64scan 3 left 0 [] = None"
  by simp_all

lemma six_bits:
  fixes a b c :: nat
  assumes "a < 256" "b < 256" "c < 256"
  shows "a div 4 < 64" "a mod 4 * 16 + b div 16 < 64" "b mod 16 * 4 + c div 64 < 64" "c mod 64 < 64"
    "a mod 4 * 16 < 64" "b mod 16 * 4 < 64"
    "(a mod 4 * 16 + b div 16) div 16 = a mod 4" "(a mod 4 * 16 + b div 16) mod 16 = b div 16"
    "(b mod 16 * 4 + c div 64) div 4 = b mod 16" "(b mod 16 * 4 + c div 64) mod 4 = c div 64"
    "b div 16 mod 16 = b div 16" "c div 64 mod 4 = c div 64"
proof -
  have high: "b div 16 < 16" "c div 64 < 4" using assms by (auto intro: less_mult_imp_div_less)
  moreover have "a mod 4 \<le> 3" "b mod 16 \<le> 15" using mod_less_divisor [of 4 a] mod_less_divisor [of 16 b] by linarith+
  ultimately show "a mod 4 * 16 + b div 16 < 64" "b mod 16 * 4 + c div 64 < 64" "a mod 4 * 16 < 64" "b mod 16 * 4 < 64"
    by linarith+
  show "(a mod 4 * 16 + b div 16) div 16 = a mod 4" "(a mod 4 * 16 + b div 16) mod 16 = b div 16"
    "(b mod 16 * 4 + c div 64) div 4 = b mod 16" "(b mod 16 * 4 + c div 64) mod 4 = c div 64"
    "b div 16 mod 16 = b div 16" "c div 64 mod 4 = c div 64"
    using high by simp_all
qed (use assms in \<open>auto intro: less_mult_imp_div_less\<close>)

lemma scan_encoded: "b64scan 0 left pads (b64encode bs) = Some bs"
proof (induction bs arbitrary: left pads rule: b64encode.induct)
  case (2 a)
  note six = six_bits [OF byte_less [of a] byte_less [of a] byte_less [of a]]
  show ?case by (simp add: scan_digit scan_end six del: One_nat_def b64scan.simps)
next
  case (3 a b)
  note six = six_bits [OF byte_less [of a] byte_less [of b] byte_less [of b]]
  show ?case by (simp add: scan_digit scan_end six del: One_nat_def b64scan.simps)
next
  case (4 a b c r)
  note six = six_bits [OF byte_less [of a] byte_less [of b] byte_less [of c]]
  show ?case by (simp add: scan_digit six "4.IH" del: One_nat_def b64scan.simps)
qed simp

lemma digits_not_pad:
  "digit64 (byte a div 4) \<noteq> CHR ''=''" "digit64 (byte a mod 4 * 16 + byte b div 16) \<noteq> CHR ''=''"
  "digit64 (byte b mod 16 * 4 + byte c div 64) \<noteq> CHR ''=''" "digit64 (byte c mod 64) \<noteq> CHR ''=''"
  "digit64 (byte a mod 4 * 16) \<noteq> CHR ''=''" "digit64 (byte b mod 16 * 4) \<noteq> CHR ''=''"
  by (rule digit_not_pad, rule six_bits [OF byte_less [of a] byte_less [of b] byte_less [of c]])+

lemma encoded_shape:
  "\<exists>d k. b64encode bs = d @ replicate k (CHR ''='') \<and> k < 4 \<and> CHR ''='' \<notin> set d \<and> (length d + k) mod 4 = 0"
proof (induction bs rule: b64encode.induct)
  case (2 a)
  show ?case
    by (rule exI [of _ "[digit64 (byte a div 4), digit64 (byte a mod 4 * 16)]"], rule exI [of _ 2])
      (simp add: digits_not_pad [symmetric] numeral_2_eq_2)
next
  case (3 a b)
  show ?case
    by (rule exI [of _ "[digit64 (byte a div 4), digit64 (byte a mod 4 * 16 + byte b div 16), digit64 (byte b mod 16 * 4)]"],
        rule exI [of _ 1]) (simp add: digits_not_pad [symmetric])
next
  case (4 a b c r)
  then obtain d k where "b64encode r = d @ replicate k (CHR ''='')" "k < 4" "CHR ''='' \<notin> set d" "(length d + k) mod 4 = 0"
    by (elim exE conjE)
  then show ?case
    by (intro exI [of _ "digit64 (byte a div 4) # digit64 (byte a mod 4 * 16 + byte b div 16)
           # digit64 (byte b mod 16 * 4 + byte c div 64) # digit64 (byte c mod 64) # d"] exI [of _ k])
      (auto simp: digits_not_pad [symmetric])
qed (rule exI [of _ "[]"], simp)

lemma dropWhile_pads: "x \<noteq> y \<Longrightarrow> dropWhile (\<lambda>c. c = x) (replicate k x @ y # zs) = y # zs"
  by (induction k) auto

lemma dropWhile_all_pads: "dropWhile (\<lambda>c. c = x) (replicate k x) = []"
  by (induction k) auto

lemma strip_padding_append: "CHR ''='' \<notin> set d \<Longrightarrow> strip_padding (d @ replicate k (CHR ''='')) = d"
  by (cases d rule: rev_cases) (simp_all add: strip_padding_def dropWhile_pads dropWhile_all_pads)

lemma pads_needed:
  fixes n k :: nat
  assumes "k < 4" "(n + k) mod 4 = 0"
  shows "(4 - n mod 4) mod 4 = k"
proof -
  have sum: "(n mod 4 + k) mod 4 = 0" by (rule trans [OF mod_add_left_eq assms(2)])
  have "(4 - r) mod 4 = k" if r: "r < 4" "(r + k) mod 4 = 0" for r
  proof -
    have "r = 0 \<or> r = 1 \<or> r = 2 \<or> r = 3" "k = 0 \<or> k = 1 \<or> k = 2 \<or> k = 3" using r(1) assms(1) by linarith+
    then show ?thesis using r(2) by (elim disjE) simp_all
  qed
  from this [OF mod_less_divisor sum] show ?thesis by simp
qed

lemma padding_restored: "padded (strip_padding (b64encode bs)) (CHR ''='') = b64encode bs"
proof -
  from encoded_shape [of bs] show ?thesis
    by (elim exE conjE) (simp add: strip_padding_append padded_def pads_needed)
qed

lemma b64_roundtrip: "b64decode (padded (strip_padding (b64encode bs)) (CHR ''='')) = Some bs"
  by (simp add: padding_restored b64decode_def scan_encoded del: b64scan.simps)

text \<open>The alphabet is ASCII without a full stop.\<close>

lemma digit64_no_dot: "n < 64 \<Longrightarrow> digit64 n \<noteq> CHR ''.''"
proof
  assume "n < 64" "digit64 n = CHR ''.''"
  then have "value64 (CHR ''.'') = Some n" using value_of_digit by metis
  then show False by (simp add: value64_def)
qed

lemma digit64_ascii: "n < 64 \<Longrightarrow> byte (digit64 n) < 128"
  unfolding digit64_number by (auto split: if_splits)

section \<open>Query strings\<close>

text \<open>\<open>urllib.parse.quote_plus\<close> and \<open>urlencode\<close>, \<open>None\<close> for \<open>UnicodeEncodeError\<close>.\<close>

definition url_safe :: "nat \<Rightarrow> bool" where
  "url_safe n \<longleftrightarrow> (48 \<le> n \<and> n \<le> 57) \<or> (65 \<le> n \<and> n \<le> 90) \<or> (97 \<le> n \<and> n \<le> 122) \<or> n = 95 \<or> n = 46 \<or> n = 45 \<or> n = 126"

definition upper_hex :: "nat \<Rightarrow> char" where
  "upper_hex n = char_of (if n < 10 then 48 + n else 55 + n)"

definition quote_byte :: "char \<Rightarrow> bytes" where
  "quote_byte c =
     (if url_safe (byte c) then [c] else if c = CHR '' '' then ''+''
      else [CHR ''%'', upper_hex (byte c div 16), upper_hex (byte c mod 16)])"

definition quote_plus :: "pystr \<Rightarrow> pystr option" where
  "quote_plus s = map_option (\<lambda>bs. lit (concat (map quote_byte bs))) (utf8 s)"

fun urlencode :: "(string \<times> pystr) list \<Rightarrow> pystr option" where
  "urlencode [] = Some []"
| "urlencode ((k, v) # ps) =
     (case (quote_plus (lit k), quote_plus v, urlencode ps) of
        (Some k', Some v', Some rest) \<Rightarrow> Some (k' @ lit ''='' @ v' @ (if ps = [] then [] else lit ''&'' @ rest))
      | _ \<Rightarrow> None)"

lemma utf8_ascii: "list_all (\<lambda>c. byte c < 128) bs \<Longrightarrow> utf8 (lit bs) = Some bs"
  by (induction bs) (auto simp: lit_def utf8_char_def)

lemma quote_safe: "list_all (\<lambda>c. url_safe (byte c)) bs \<Longrightarrow> quote_plus (lit bs) = Some (lit bs)"
proof -
  assume safe: "list_all (\<lambda>c. url_safe (byte c)) bs"
  then have "list_all (\<lambda>c. byte c < 128) bs" by (rule list.pred_mono_strong) (auto simp: url_safe_def)
  moreover from safe have "concat (map quote_byte bs) = bs" by (induction bs) (auto simp: quote_byte_def)
  ultimately show ?thesis by (simp add: quote_plus_def utf8_ascii)
qed

lemma digit64_safe: "n < 64 \<Longrightarrow> url_safe (byte (digit64 n))"
  unfolding digit64_number url_safe_def by (auto split: if_splits)

lemma encoded_safe: "list_all (\<lambda>c. url_safe (byte c)) (strip_padding (b64encode bs))"
proof -
  have "list_all (\<lambda>c. c = CHR ''='' \<or> url_safe (byte c)) (b64encode bs)"
  proof (induction bs rule: b64encode.induct)
    case (2 a)
    note six = six_bits [OF byte_less [of a] byte_less [of a] byte_less [of a]]
    show ?case by (simp add: digit64_safe six(1,5))
  next
    case (3 a b)
    note six = six_bits [OF byte_less [of a] byte_less [of b] byte_less [of b]]
    show ?case by (simp add: digit64_safe six(1,2,6))
  next
    case (4 a b c r)
    note six = six_bits [OF byte_less [of a] byte_less [of b] byte_less [of c]]
    from 4 show ?case by (simp add: digit64_safe six(1-4))
  qed simp
  then have safe: "c = CHR ''='' \<or> url_safe (byte c)" if "c \<in> set (b64encode bs)" for c
    using that unfolding list_all_iff by blast
  obtain d k where shape: "b64encode bs = d @ replicate k (CHR ''='')" "CHR ''='' \<notin> set d"
    using encoded_shape [of bs] by (elim exE conjE)
  have "url_safe (byte c)" if "c \<in> set d" for c
  proof -
    from that shape(1) have "c \<in> set (b64encode bs)" by simp
    moreover from that shape(2) have "c \<noteq> CHR ''=''" by metis
    ultimately show ?thesis using safe by blast
  qed
  then show ?thesis unfolding shape(1) strip_padding_append [OF shape(2)] list_all_iff by blast
qed

end
