(* ===== verification/JsonCanonical.thy ===== *)
theory JsonCanonical
  imports Base64 Json "HOL-Library.List_Lexorder" "HOL-Library.Multiset"
begin

text \<open>
  Python's order of strings, by code points, and \<open>json.dumps(value, sort_keys=True, separators=(",", ":"))\<close>, which the
  signed states and the hashes of webhook payloads are made of.
\<close>

section \<open>The order of characters\<close>

text \<open>A character has one form only in the texts of the program; the two forms of a small number are ordered as
  well, so that the order is total.\<close>

fun wide :: "pychar \<Rightarrow> bool" where
  "wide (Ch c) = False"
| "wide (Uni n) = True"

lemma pychar_eq_iff: "x = y \<longleftrightarrow> char_number x = char_number y \<and> wide x = wide y"
  by (cases x; cases y) auto

instantiation pychar :: linorder
begin

definition less_eq_pychar :: "pychar \<Rightarrow> pychar \<Rightarrow> bool" where
  "less_eq_pychar x y \<longleftrightarrow> char_number x < char_number y \<or> (char_number x = char_number y \<and> (wide x \<longrightarrow> wide y))"

definition less_pychar :: "pychar \<Rightarrow> pychar \<Rightarrow> bool" where
  "less_pychar x y \<longleftrightarrow> char_number x < char_number y \<or> (char_number x = char_number y \<and> \<not> wide x \<and> wide y)"

instance
  by standard (auto simp: less_eq_pychar_def less_pychar_def pychar_eq_iff)

end

section \<open>Canonical JSON\<close>

primrec json_canonical :: "pyval \<Rightarrow> pystr" where
  "json_canonical PNone = lit ''null''"
| "json_canonical (PBool b) = (if b then lit ''true'' else lit ''false'')"
| "json_canonical (PInt i) = str_of_int i"
| "json_canonical (PFloat r) = json_dumps (PFloat r)"
| "json_canonical (PStr s) = json_str s"
| "json_canonical (PList xs) = lit ''['' @ join (lit '','') (map json_canonical xs) @ lit '']''"
| "json_canonical (PDict d) =
     lit ''{'' @ join (lit '','') (map (\<lambda>(k, t). json_str k @ lit '':'' @ t) (sort_key fst (map (map_prod id json_canonical) d)))
       @ lit ''}''"

text \<open>The order of the entries does not matter.\<close>

lemma sort_key_permuted:
  assumes "distinct (map fst d)" "mset d = mset d'"
  shows "sort_key fst d = sort_key fst d'"
  by (rule sort_key_inj_key_eq) (use assms in \<open>simp_all add: distinct_map\<close>)

lemma canonical_permuted:
  assumes "distinct (dkeys d)" "mset d = mset d'"
  shows "json_canonical (PDict d) = json_canonical (PDict d')"
proof -
  have "mset (map (map_prod id json_canonical) d) = mset (map (map_prod id json_canonical) d')"
    using assms(2) by simp
  moreover have "distinct (map fst (map (map_prod id json_canonical) d))" using assms(1) by (simp add: comp_def)
  ultimately have "sort_key fst (map (map_prod id json_canonical) d) = sort_key fst (map (map_prod id json_canonical) d')"
    by (rule sort_key_permuted [rotated])
  then show ?thesis by simp
qed

text \<open>The text is ASCII.\<close>

lemma json_canonical_printable: "floats_printable v \<Longrightarrow> list_all printable (json_canonical v)"
proof (induction v)
  case (PFloat r)
  then show ?case by (simp only: json_canonical.simps json_dumps_printable)
next
  case (PList xs)
  then have "list_all printable (json_canonical x)" if "x \<in> set xs" for x
    using that by (auto simp: list_all_iff)
  then show ?case by (auto simp: lit_def printable_Ch intro!: printable_join)
next
  case (PDict d)
  have "list_all printable (json_canonical v)" if "(k, v) \<in> set d" for k v
  proof -
    from that PDict.prems have "floats_printable v" by (force simp: list_all_iff)
    with PDict.IH [of "(k, v)" v] that show ?thesis by simp
  qed
  then show ?case by (auto simp: lit_def printable_Ch printable_json_str intro!: printable_join)
qed (auto simp: lit_def printable_Ch printable_json_str str_of_int_def printable_nat_digits)

lemma printable_utf8: "list_all printable s \<Longrightarrow> utf8 s = Some (map (\<lambda>x. char_of (char_number x)) s)"
proof (induction s)
  case (Cons x s)
  then have "char_number x < 128" by (cases x) (auto simp: printable_def code_point_def)
  with Cons show ?case by (simp add: utf8_char_def)
qed simp

end
