(* ===== verification/IntegrationServices.thy ===== *)
theory IntegrationServices
  imports Base64 AutomationSchedule EventParser
begin

text \<open>
  The clients of Jira and Google Calendar, \<open>integrations/jira/service.py\<close> and
  \<open>integrations/google_calendar/service.py\<close>: the requests they send, as values, and what they make of the answer,
  which is an input. An exception is an \<open>HTTPException\<close> with its status, or any other one; the text of an
  \<open>HTTPException\<close> is left out.
\<close>

section \<open>Answers of a server\<close>

datatype api_fault = HttpFault nat | OtherFault

type_synonym 'a api = "api_fault + 'a"

record http_response =
  hr_status :: nat
  hr_empty :: bool \<comment> \<open>no content\<close>
  hr_json :: "pyval option" \<comment> \<open>\<open>None\<close> when \<open>json()\<close> raises\<close>

text \<open>What the client library does with a request: \<open>HTTPError\<close>, another exception, or an answer.\<close>

datatype http_outcome = HttpxError | HttpxOther | Answered http_response

fun api_bind :: "'a api \<Rightarrow> ('a \<Rightarrow> 'b api) \<Rightarrow> 'b api" where
  "api_bind (Inl e) f = Inl e"
| "api_bind (Inr a) f = f a"

lemma api_bind_Inr_iff: "api_bind r f = Inr b \<longleftrightarrow> (\<exists>a. r = Inr a \<and> f a = Inr b)"
  by (cases r) auto

text \<open>The end of \<open>_request\<close>: a JSON object or array, or nothing.\<close>

fun jira_answer :: "http_outcome \<Rightarrow> pyval option api" where
  "jira_answer HttpxError = Inl (HttpFault 502)"
| "jira_answer HttpxOther = Inl OtherFault"
| "jira_answer (Answered r) =
     (if 400 \<le> hr_status r then Inl (HttpFault 502)
      else if hr_status r = 204 \<or> hr_empty r then Inr None
      else (case hr_json r of
              None \<Rightarrow> Inl OtherFault
            | Some (PDict d) \<Rightarrow> Inr (Some (PDict d))
            | Some (PList xs) \<Rightarrow> Inr (Some (PList xs))
            | Some _ \<Rightarrow> Inl (HttpFault 502)))"

fun google_answer :: "http_outcome \<Rightarrow> pyval option api" where
  "google_answer HttpxError = Inl (HttpFault 502)"
| "google_answer HttpxOther = Inl OtherFault"
| "google_answer (Answered r) =
     (if 400 \<le> hr_status r then Inl (HttpFault 502)
      else if hr_status r = 204 \<or> hr_empty r then Inr None
      else (case hr_json r of
              None \<Rightarrow> Inl OtherFault
            | Some (PDict d) \<Rightarrow> Inr (Some (PDict d))
            | Some (PList xs) \<Rightarrow> Inr (Some (PList xs))
            | Some _ \<Rightarrow> Inl (HttpFault 502)))"

definition object_answer :: "pyval option \<Rightarrow> (pystr, pyval) dict api" where
  "object_answer v = (case v of Some (PDict d) \<Rightarrow> Inr d | _ \<Rightarrow> Inl (HttpFault 502))"

text \<open>\<open>[x for x in values if isinstance(x, dict)]\<close>: keys and characters are no dictionaries, and what is no
  collection cannot be iterated.\<close>

fun dicts_of :: "pyval \<Rightarrow> (pystr, pyval) dict list api" where
  "dicts_of (PList xs) = Inr (List.map_filter (\<lambda>x. case x of PDict d \<Rightarrow> Some d | _ \<Rightarrow> None) xs)"
| "dicts_of (PDict d) = Inr []"
| "dicts_of (PStr s) = Inr []"
| "dicts_of _ = Inl OtherFault"

section \<open>Requests\<close>

record http_call =
  hc_method :: pystr
  hc_url :: pystr
  hc_params :: "(pystr, pyval) dict"
  hc_json :: "pyval option"

record oauth_client =
  oc_base_url :: pystr \<comment> \<open>of Jira\<close>
  oc_client_id :: pystr
  oc_client_secret :: pystr
  oc_cloud_id :: pystr \<comment> \<open>of Jira\<close>
  oc_redirect_uri :: pystr
  oc_scopes :: pystr
  oc_audience :: pystr \<comment> \<open>of Jira\<close>

definition lstrip_slash :: "pystr \<Rightarrow> pystr" where
  "lstrip_slash s = dropWhile (\<lambda>c. c = Ch (CHR ''/'')) s"

definition rstrip_slash :: "pystr \<Rightarrow> pystr" where
  "rstrip_slash s = rev (lstrip_slash (rev s))"

definition build_api_base :: "oauth_client \<Rightarrow> pystr option \<Rightarrow> pystr api" where
  "build_api_base cl cloud_id =
     (let resolved = strip (case cloud_id of Some c \<Rightarrow> if c = [] then oc_cloud_id cl else c | None \<Rightarrow> oc_cloud_id cl)
      in if resolved \<noteq> [] then Inr (lit ''https://api.atlassian.com/ex/jira/'' @ resolved @ lit ''/rest/api/3'')
         else if strip (oc_base_url cl) \<noteq> [] then Inr (rstrip_slash (oc_base_url cl) @ lit ''/rest/api/3'')
         else Inl (HttpFault 503))"

definition jira_call ::
    "oauth_client \<Rightarrow> pystr option \<Rightarrow> string \<Rightarrow> pystr \<Rightarrow> (pystr, pyval) dict \<Rightarrow> pyval option \<Rightarrow> http_call api" where
  "jira_call cl cloud_id verb path params body =
     api_bind (build_api_base cl cloud_id) (\<lambda>base.
       Inr \<lparr>hc_method = lit verb, hc_url = base @ lit ''/'' @ lstrip_slash path, hc_params = params, hc_json = body\<rparr>)"

text \<open>A request and what the server does with it.\<close>

type_synonym server = "http_call \<Rightarrow> http_outcome"

definition jira_request ::
    "oauth_client \<Rightarrow> pystr option \<Rightarrow> server \<Rightarrow> string \<Rightarrow> pystr \<Rightarrow> (pystr, pyval) dict \<Rightarrow> pyval option \<Rightarrow> pyval option api" where
  "jira_request cl cloud_id srv verb path params body =
     api_bind (jira_call cl cloud_id verb path params body) (\<lambda>c. jira_answer (srv c))"

definition google_call :: "string \<Rightarrow> pystr \<Rightarrow> (pystr, pyval) dict \<Rightarrow> pyval option \<Rightarrow> http_call" where
  "google_call verb path params body =
     \<lparr>hc_method = lit verb, hc_url = lit ''https://www.googleapis.com/calendar/v3/'' @ lstrip_slash path,
      hc_params = params, hc_json = body\<rparr>"

definition google_request ::
    "server \<Rightarrow> string \<Rightarrow> pystr \<Rightarrow> (pystr, pyval) dict \<Rightarrow> pyval option \<Rightarrow> pyval option api" where
  "google_request srv verb path params body = google_answer (srv (google_call verb path params body))"

section \<open>Operations of Jira\<close>

definition list_projects :: "oauth_client \<Rightarrow> pystr option \<Rightarrow> server \<Rightarrow> (pystr, pyval) dict list api" where
  "list_projects cl cloud_id srv =
     api_bind (jira_request cl cloud_id srv ''GET'' (lit ''/project/search'') [] None) (\<lambda>v.
     api_bind (object_answer v) (\<lambda>d. dicts_of (dget_or d ''values'' (PList []))))"

definition get_issue :: "oauth_client \<Rightarrow> pystr option \<Rightarrow> server \<Rightarrow> pystr \<Rightarrow> pystr option \<Rightarrow> (pystr, pyval) dict api" where
  "get_issue cl cloud_id srv issue_key expand =
     api_bind (jira_request cl cloud_id srv ''GET'' (lit ''/issue/'' @ issue_key)
       (case expand of Some e \<Rightarrow> if e = [] then [] else [(lit ''expand'', PStr e)] | None \<Rightarrow> []) None) object_answer"

definition create_issue :: "oauth_client \<Rightarrow> pystr option \<Rightarrow> server \<Rightarrow> (pystr, pyval) dict \<Rightarrow> (pystr, pyval) dict api" where
  "create_issue cl cloud_id srv issue_fields =
     api_bind (jira_request cl cloud_id srv ''POST'' (lit ''/issue'') [] (Some (PDict [(lit ''fields'', PDict issue_fields)])))
       object_answer"

definition transition_issue :: "oauth_client \<Rightarrow> pystr option \<Rightarrow> server \<Rightarrow> pystr \<Rightarrow> pystr \<Rightarrow> unit api" where
  "transition_issue cl cloud_id srv issue_key transition_id =
     api_bind (jira_request cl cloud_id srv ''POST'' (lit ''/issue/'' @ issue_key @ lit ''/transitions'') []
       (Some (PDict [(lit ''transition'', PDict [(lit ''id'', PStr transition_id)])]))) (\<lambda>_. Inr ())"

definition add_comment :: "oauth_client \<Rightarrow> pystr option \<Rightarrow> server \<Rightarrow> pystr \<Rightarrow> pystr \<Rightarrow> (pystr, pyval) dict api" where
  "add_comment cl cloud_id srv issue_key body =
     api_bind (jira_request cl cloud_id srv ''POST'' (lit ''/issue/'' @ issue_key @ lit ''/comment'') []
       (Some (PDict [(lit ''body'', PStr body)]))) object_answer"

text \<open>The list of sites has its own request.\<close>

fun accessible_resources :: "http_outcome \<Rightarrow> (pystr, pyval) dict list api" where
  "accessible_resources HttpxError = Inl (HttpFault 502)"
| "accessible_resources HttpxOther = Inl OtherFault"
| "accessible_resources (Answered r) =
     (if 400 \<le> hr_status r then Inl (HttpFault 502)
      else (case hr_json r of
              None \<Rightarrow> Inl OtherFault
            | Some (PList xs) \<Rightarrow> dicts_of (PList xs)
            | Some _ \<Rightarrow> Inl (HttpFault 502)))"

section \<open>Operations of the calendar\<close>

definition list_calendars :: "server \<Rightarrow> (pystr, pyval) dict list api" where
  "list_calendars srv =
     api_bind (google_request srv ''GET'' (lit ''/users/me/calendarList'') [] None) (\<lambda>v.
     api_bind (object_answer v) (\<lambda>d. dicts_of (dget_or d ''items'' (PList []))))"

definition events_path :: "pystr \<Rightarrow> pystr" where
  "events_path calendar_id = lit ''/calendars/'' @ calendar_id @ lit ''/events''"

definition optional_param :: "string \<Rightarrow> pystr option \<Rightarrow> (pystr, pyval) dict" where
  "optional_param name v = (case v of Some t \<Rightarrow> if t = [] then [] else [(lit name, PStr t)] | None \<Rightarrow> [])"

definition list_events ::
    "server \<Rightarrow> pystr \<Rightarrow> pystr option \<Rightarrow> pystr option \<Rightarrow> int \<Rightarrow> bool \<Rightarrow> pystr \<Rightarrow> (pystr, pyval) dict list api" where
  "list_events srv calendar_id time_min time_max max_results single_events order_by =
     api_bind (google_request srv ''GET'' (events_path calendar_id)
         ([(lit ''maxResults'', PInt max_results),
           (lit ''singleEvents'', PStr (if single_events then lit ''true'' else lit ''false'')),
           (lit ''orderBy'', PStr order_by)] @ optional_param ''timeMin'' time_min @ optional_param ''timeMax'' time_max)
         None) (\<lambda>v.
     api_bind (object_answer v) (\<lambda>d. dicts_of (dget_or d ''items'' (PList []))))"

definition create_event :: "server \<Rightarrow> pystr \<Rightarrow> (pystr, pyval) dict \<Rightarrow> (pystr, pyval) dict api" where
  "create_event srv calendar_id event_payload =
     api_bind (google_request srv ''POST'' (events_path calendar_id) [] (Some (PDict event_payload))) object_answer"

definition update_event :: "server \<Rightarrow> pystr \<Rightarrow> pystr \<Rightarrow> (pystr, pyval) dict \<Rightarrow> (pystr, pyval) dict api" where
  "update_event srv calendar_id event_id event_payload =
     api_bind (google_request srv ''PATCH'' (events_path calendar_id @ lit ''/'' @ event_id) [] (Some (PDict event_payload)))
       object_answer"

definition delete_event :: "server \<Rightarrow> pystr \<Rightarrow> pystr \<Rightarrow> unit api" where
  "delete_event srv calendar_id event_id =
     api_bind (google_request srv ''DELETE'' (events_path calendar_id @ lit ''/'' @ event_id) [] None) (\<lambda>_. Inr ())"

definition watch_events ::
    "server \<Rightarrow> pystr \<Rightarrow> pystr \<Rightarrow> pystr \<Rightarrow> pystr option \<Rightarrow> int option \<Rightarrow> (pystr, pyval) dict api" where
  "watch_events srv calendar_id channel_id webhook_address token expiration_ms =
     api_bind (google_request srv ''POST'' (events_path calendar_id @ lit ''/watch'') []
         (Some (PDict ([(lit ''id'', PStr channel_id), (lit ''type'', PStr (lit ''web_hook'')),
            (lit ''address'', PStr webhook_address)] @ optional_param ''token'' token
            @ (case expiration_ms of Some e \<Rightarrow> [(lit ''expiration'', PInt e)] | None \<Rightarrow> []))))) object_answer"

section \<open>OAuth\<close>

definition jira_is_configured :: "oauth_client \<Rightarrow> bool" where
  "jira_is_configured cl \<longleftrightarrow> oc_base_url cl \<noteq> [] \<and> oc_client_id cl \<noteq> [] \<and> oc_client_secret cl \<noteq> []
     \<and> oc_redirect_uri cl \<noteq> [] \<and> oc_scopes cl \<noteq> []"

definition google_is_configured :: "oauth_client \<Rightarrow> bool" where
  "google_is_configured cl \<longleftrightarrow> oc_client_id cl \<noteq> [] \<and> oc_client_secret cl \<noteq> [] \<and> oc_redirect_uri cl \<noteq> []
     \<and> oc_scopes cl \<noteq> []"

definition jira_authorization_url :: "oauth_client \<Rightarrow> pystr \<Rightarrow> pystr option" where
  "jira_authorization_url cl state =
     map_option (\<lambda>q. lit ''https://auth.atlassian.com/authorize?'' @ q)
       (urlencode [(''audience'', oc_audience cl), (''client_id'', oc_client_id cl), (''scope'', oc_scopes cl),
          (''redirect_uri'', oc_redirect_uri cl), (''state'', state), (''response_type'', lit ''code''),
          (''prompt'', lit ''consent'')])"

definition google_authorization_url :: "oauth_client \<Rightarrow> pystr \<Rightarrow> pystr option" where
  "google_authorization_url cl state =
     map_option (\<lambda>q. lit ''https://accounts.google.com/o/oauth2/v2/auth?'' @ q)
       (urlencode [(''client_id'', oc_client_id cl), (''redirect_uri'', oc_redirect_uri cl),
          (''response_type'', lit ''code''), (''scope'', oc_scopes cl), (''access_type'', lit ''offline''),
          (''prompt'', lit ''consent''), (''state'', state)])"

record connect_payload =
  cp_configured :: bool
  cp_state :: pystr
  cp_url :: "pystr option"

text \<open>An address that cannot be encoded raises.\<close>

definition jira_connect_payload :: "oauth_client \<Rightarrow> pystr \<Rightarrow> connect_payload api" where
  "jira_connect_payload cl state =
     (if jira_is_configured cl
      then (case jira_authorization_url cl state of
              None \<Rightarrow> Inl OtherFault
            | Some url \<Rightarrow> Inr \<lparr>cp_configured = True, cp_state = state, cp_url = Some url\<rparr>)
      else Inr \<lparr>cp_configured = False, cp_state = state, cp_url = None\<rparr>)"

definition google_connect_payload :: "oauth_client \<Rightarrow> pystr \<Rightarrow> connect_payload api" where
  "google_connect_payload cl state =
     (if google_is_configured cl
      then (case google_authorization_url cl state of
              None \<Rightarrow> Inl OtherFault
            | Some url \<Rightarrow> Inr \<lparr>cp_configured = True, cp_state = state, cp_url = Some url\<rparr>)
      else Inr \<lparr>cp_configured = False, cp_state = state, cp_url = None\<rparr>)"

text \<open>The token endpoint. \<open>get\<close> on an answer that is no object raises.\<close>

fun token_answer :: "http_outcome \<Rightarrow> (pystr, pyval) dict api" where
  "token_answer HttpxError = Inl (HttpFault 502)"
| "token_answer HttpxOther = Inl OtherFault"
| "token_answer (Answered r) =
     (if 400 \<le> hr_status r then Inl (HttpFault 502)
      else (case hr_json r of
              None \<Rightarrow> Inl (HttpFault 502)
            | Some (PDict d) \<Rightarrow> if truthy (dget_or d ''access_token'' PNone) then Inr d else Inl (HttpFault 502)
            | Some _ \<Rightarrow> Inl OtherFault))"

definition token_body :: "oauth_client \<Rightarrow> pystr \<Rightarrow> (pystr, pyval) dict" where
  "token_body cl code =
     [(lit ''grant_type'', PStr (lit ''authorization_code'')), (lit ''client_id'', PStr (oc_client_id cl)),
      (lit ''client_secret'', PStr (oc_client_secret cl)), (lit ''code'', PStr code),
      (lit ''redirect_uri'', PStr (oc_redirect_uri cl))]"

definition jira_exchange_code :: "oauth_client \<Rightarrow> pystr \<Rightarrow> server \<Rightarrow> (pystr, pyval) dict api" where
  "jira_exchange_code cl code srv =
     (if \<not> jira_is_configured cl then Inl (HttpFault 503)
      else token_answer (srv \<lparr>hc_method = lit ''POST'', hc_url = lit ''https://auth.atlassian.com/oauth/token'',
             hc_params = [], hc_json = Some (PDict (token_body cl code))\<rparr>))"

text \<open>Here the body is a form.\<close>

definition google_exchange_code :: "oauth_client \<Rightarrow> pystr \<Rightarrow> server \<Rightarrow> (pystr, pyval) dict api" where
  "google_exchange_code cl code srv =
     (if \<not> google_is_configured cl then Inl (HttpFault 503)
      else token_answer (srv \<lparr>hc_method = lit ''POST'', hc_url = lit ''https://oauth2.googleapis.com/token'',
             hc_params = [], hc_json = Some (PDict (token_body cl code))\<rparr>))"

section \<open>Errors\<close>

lemma answers_agree: "jira_answer answer = google_answer answer"
  by (cases answer) (auto split: option.split pyval.split)

text \<open>Only an answer that is not JSON escapes as another exception: \<open>json()\<close> stands outside of the handlers.\<close>

lemma answer_escapes_iff:
  "google_answer answer = Inl OtherFault \<longleftrightarrow>
     answer = HttpxOther \<or>
     (\<exists>r. answer = Answered r \<and> hr_status r < 400 \<and> hr_status r \<noteq> 204 \<and> \<not> hr_empty r \<and> hr_json r = None)"
  by (cases answer) (auto split: option.split pyval.split)

text \<open>What is sent of an address: the part before a \<open>#\<close>. Calendars of holidays have one in their names, so their
  events are looked for under another name.\<close>

definition sent_url :: "http_call \<Rightarrow> pystr" where
  "sent_url c = takeWhile (\<lambda>x. x \<noteq> Ch (CHR ''#'')) (hc_url c)"

lemma plain_prefix: "Ch (CHR ''#'') \<notin> set s \<Longrightarrow> takeWhile (\<lambda>x. x \<noteq> Ch (CHR ''#'')) (s @ t)
    = s @ takeWhile (\<lambda>x. x \<noteq> Ch (CHR ''#'')) t"
  by (induction s) auto

lemma holiday_calendar_cut:
  assumes "Ch (CHR ''#'') \<notin> set name"
  shows "sent_url (google_call verb (events_path (name @ lit ''#'' @ rest)) params body)
    = lit ''https://www.googleapis.com/calendar/v3/calendars/'' @ name"
proof -
  have "hc_url (google_call verb (events_path (name @ lit ''#'' @ rest)) params body)
      = (lit ''https://www.googleapis.com/calendar/v3/calendars/'' @ name) @ lit ''#'' @ rest @ lit ''/events''"
    by (simp add: google_call_def events_path_def lstrip_slash_def lit_def)
  then have "sent_url (google_call verb (events_path (name @ lit ''#'' @ rest)) params body)
      = (lit ''https://www.googleapis.com/calendar/v3/calendars/'' @ name)
        @ takeWhile (\<lambda>x. x \<noteq> Ch (CHR ''#'')) (lit ''#'' @ rest @ lit ''/events'')"
    unfolding sent_url_def using assms by (simp only: plain_prefix) (simp add: plain_prefix lit_def)
  then show ?thesis by (simp add: lit_def)
qed

end
