(* ===== verification/OAuthState.thy ===== *)
theory OAuthState
  imports JsonCanonical IntegrationServices
begin

text \<open>
  \<open>api/v1/routers/integrations.py\<close> with the secrets of \<open>config/secrets.py\<close>: the signed states of the OAuth flow, the
  callbacks, and the table of connected accounts. The keyed hash, the reading of JSON and \<open>str\<close> of a value are
  parameters, times are seconds.
\<close>

section \<open>Secrets\<close>

text \<open>The environment, and the files it points to (\<open>None\<close> when reading raises).\<close>

type_synonym environ = "(pystr, pystr) dict"

definition env_or :: "environ \<Rightarrow> pystr \<Rightarrow> pystr" where
  "env_or env name = (case dget env name of None \<Rightarrow> [] | Some v \<Rightarrow> v)"

definition get_secret :: "environ \<Rightarrow> (pystr \<Rightarrow> pystr option) \<Rightarrow> pystr \<Rightarrow> bool \<Rightarrow> pystr api" where
  "get_secret env files name required =
     (let value = env_or env name;
          file_path = strip (env_or env (name @ lit ''_FILE''))
      in if value \<noteq> [] then Inr (strip value)
         else if file_path \<noteq> [] then
           (case files file_path of
              Some t \<Rightarrow> Inr (strip t)
            | None \<Rightarrow> if required then Inl (HttpFault 500) else Inr [])
         else if required then Inl (HttpFault 500) else Inr [])"

text \<open>The keys in the order they are tried in, each once.\<close>

definition add_key :: "pystr list \<Rightarrow> pystr \<Rightarrow> pystr list" where
  "add_key ring item = (let key = strip item in if key \<noteq> [] \<and> key \<notin> set ring then ring @ [key] else ring)"

definition key_ring_from_values :: "pystr \<Rightarrow> pystr \<Rightarrow> pystr list" where
  "key_ring_from_values master_key fallback_keys =
     foldl add_key (if strip master_key \<noteq> [] then [strip master_key] else []) (split_char (Ch (CHR '','')) fallback_keys)"

definition key_ring :: "environ \<Rightarrow> (pystr \<Rightarrow> pystr option) \<Rightarrow> pystr list" where
  "key_ring env files =
     (let secret = (\<lambda>name. case get_secret env files (lit name) False of Inr s \<Rightarrow> s | Inl _ \<Rightarrow> []);
          primary = secret ''ENCRYPTION_MASTER_KEY'';
          fallbacks = filter (\<lambda>k. k \<noteq> []) (map strip (split_char (Ch (CHR '','')) (secret ''ENCRYPTION_FALLBACK_KEYS'')))
      in foldl (\<lambda>ring key. if key \<notin> set ring then ring @ [key] else ring) (if primary \<noteq> [] then [primary] else []) fallbacks)"

definition utf8_bytes :: "pystr \<Rightarrow> bytes api" where
  "utf8_bytes s = (case utf8 s of None \<Rightarrow> Inl OtherFault | Some b \<Rightarrow> Inr b)"

definition oauth_state_secret :: "pystr \<Rightarrow> pystr \<Rightarrow> pystr \<Rightarrow> bytes api" where
  "oauth_state_secret jwt_secret master_key fallback_keys =
     (if strip jwt_secret \<noteq> [] then utf8_bytes (strip jwt_secret)
      else (case key_ring_from_values master_key fallback_keys of
              [] \<Rightarrow> Inl (HttpFault 500)
            | key # _ \<Rightarrow> utf8_bytes key))"

text \<open>The keys of \<open>build_fernet_bundle_from_values\<close>: the first one encrypts.\<close>

definition fernet_keys :: "pystr \<Rightarrow> pystr \<Rightarrow> pystr list api" where
  "fernet_keys master_key fallback_keys =
     (case key_ring_from_values master_key fallback_keys of [] \<Rightarrow> Inl (HttpFault 500) | keys \<Rightarrow> Inr keys)"

section \<open>Signed states\<close>

record crypto =
  cr_hmac :: "bytes \<Rightarrow> bytes \<Rightarrow> bytes"
  cr_loads :: "bytes \<Rightarrow> pyval option" \<comment> \<open>\<open>json.loads(b.decode("utf-8"))\<close>, \<open>None\<close> when it raises\<close>
  cr_str :: "pyval \<Rightarrow> pystr"
  cr_encrypt :: "pystr \<Rightarrow> pystr \<Rightarrow> pystr" \<comment> \<open>under a key\<close>

record app_settings =
  as_jwt_secret :: pystr
  as_master_key :: pystr
  as_fallback_keys :: pystr

definition state_secret :: "app_settings \<Rightarrow> bytes api" where
  "state_secret st = oauth_state_secret (as_jwt_secret st) (as_master_key st) (as_fallback_keys st)"

definition token64 :: "bytes \<Rightarrow> bytes" where
  "token64 b = strip_padding (b64encode b)"

definition encode_state_payload :: "crypto \<Rightarrow> app_settings \<Rightarrow> (pystr, pyval) dict \<Rightarrow> pystr api" where
  "encode_state_payload cr st payload =
     api_bind (utf8_bytes (json_canonical (PDict payload))) (\<lambda>payload_bytes.
     api_bind (state_secret st) (\<lambda>secret.
       Inr (lit (token64 payload_bytes @ ''.'' @ token64 (cr_hmac cr secret payload_bytes)))))"

text \<open>\<open>urlsafe_b64decode(token + padding)\<close>.\<close>

definition decode_token :: "pystr \<Rightarrow> bytes option" where
  "decode_token token = Option.bind (ascii (padded token (Ch (CHR ''='')))) b64decode"

definition split_state :: "pystr \<Rightarrow> (pystr \<times> pystr) option" where
  "split_state state =
     (let head = takeWhile (\<lambda>c. c \<noteq> Ch (CHR ''.'')) state
      in if length head = length state then None else Some (head, drop (length head + 1) state))"

definition state_bytes :: "pystr \<Rightarrow> (bytes \<times> bytes) option" where
  "state_bytes state =
     (case split_state state of
        None \<Rightarrow> None
      | Some (payload_token, signature_token) \<Rightarrow>
          (case (decode_token payload_token, decode_token signature_token) of
             (Some p, Some s) \<Rightarrow> Some (p, s)
           | _ \<Rightarrow> None))"

definition decode_state_payload :: "crypto \<Rightarrow> app_settings \<Rightarrow> pystr \<Rightarrow> (pystr, pyval) dict api" where
  "decode_state_payload cr st state =
     (case state_bytes state of
        None \<Rightarrow> Inl (HttpFault 400)
      | Some (payload_bytes, signature) \<Rightarrow>
          api_bind (state_secret st) (\<lambda>secret.
            if signature \<noteq> cr_hmac cr secret payload_bytes then Inl (HttpFault 400)
            else (case cr_loads cr payload_bytes of
                    Some (PDict d) \<Rightarrow> Inr d
                  | _ \<Rightarrow> Inl (HttpFault 400))))"

definition state_payload :: "pystr \<Rightarrow> int \<Rightarrow> pystr \<Rightarrow> int \<Rightarrow> int \<Rightarrow> (pystr, pyval) dict" where
  "state_payload provider workspace_id nonce now ttl =
     [(lit ''provider'', PStr provider), (lit ''workspace_id'', PInt workspace_id), (lit ''nonce'', PStr nonce),
      (lit ''iat'', PInt now), (lit ''exp'', PInt (now + ttl))]"

definition build_oauth_state :: "crypto \<Rightarrow> app_settings \<Rightarrow> pystr \<Rightarrow> int \<Rightarrow> pystr \<Rightarrow> int \<Rightarrow> pystr api" where
  "build_oauth_state cr st provider workspace_id nonce now =
     encode_state_payload cr st (state_payload provider workspace_id nonce now 600)"

text \<open>\<open>str(x or "")\<close>.\<close>

definition text_or_empty :: "crypto \<Rightarrow> pyval \<Rightarrow> pystr" where
  "text_or_empty cr v = (case v of PStr s \<Rightarrow> s | _ \<Rightarrow> if truthy v then cr_str cr v else [])"

definition payload_int :: "(pystr, pyval) dict \<Rightarrow> string \<Rightarrow> int option" where
  "payload_int payload key = int_instance (dget_or payload key PNone)"

definition validate_oauth_state :: "crypto \<Rightarrow> app_settings \<Rightarrow> pystr \<Rightarrow> pystr \<Rightarrow> int \<Rightarrow> (pystr, pyval) dict api" where
  "validate_oauth_state cr st state provider now =
     api_bind (decode_state_payload cr st state) (\<lambda>payload.
       if text_or_empty cr (dget_or payload ''provider'' PNone) \<noteq> provider then Inl (HttpFault 400)
       else (case payload_int payload ''exp'' of
               None \<Rightarrow> Inl (HttpFault 400)
             | Some e \<Rightarrow>
                 if e < now then Inl (HttpFault 400)
                 else if payload_int payload ''workspace_id'' = None then Inl (HttpFault 400)
                 else Inr payload))"

section \<open>Accounts\<close>

record account =
  ac_id :: int
  ac_workspace :: int
  ac_provider :: pystr
  ac_label :: pystr
  ac_access :: pystr
  ac_refresh :: "pystr option"
  ac_expires :: int

record account_db =
  ad_workspaces :: "int list"
  ad_accounts :: "account list"
  ad_next :: int

record new_tokens =
  nt_label :: pystr
  nt_access :: pystr
  nt_refresh :: "pystr option"
  nt_expires :: "int option"

definition has_account :: "int \<Rightarrow> pystr \<Rightarrow> account \<Rightarrow> bool" where
  "has_account workspace_id provider a \<longleftrightarrow> ac_workspace a = workspace_id \<and> ac_provider a = provider"

text \<open>The newest account of the workspace for the provider.\<close>

definition existing_account :: "int \<Rightarrow> pystr \<Rightarrow> account_db \<Rightarrow> int option" where
  "existing_account workspace_id provider db =
     (case map ac_id (filter (has_account workspace_id provider) (ad_accounts db)) of
        [] \<Rightarrow> None
      | i # is \<Rightarrow> Some (foldl max i is))"

definition encrypt_token :: "crypto \<Rightarrow> app_settings \<Rightarrow> pystr \<Rightarrow> pystr api" where
  "encrypt_token cr st s =
     api_bind (fernet_keys (as_master_key st) (as_fallback_keys st)) (\<lambda>keys.
     api_bind (utf8_bytes s) (\<lambda>_. Inr (cr_encrypt cr (hd keys) s)))"

definition set_tokens :: "pystr \<Rightarrow> pystr \<Rightarrow> pystr option \<Rightarrow> int \<Rightarrow> account \<Rightarrow> account" where
  "set_tokens label access refresh expires a =
     a\<lparr>ac_label := label, ac_access := access, ac_refresh := refresh, ac_expires := expires\<rparr>"

text \<open>The time of the calendar, here from 1970 on, ends: a token that lives longer raises \<open>OverflowError\<close>. An account of a workspace
  that is not there violates the foreign key.\<close>

definition max_second :: int where
  "max_second = max_time div 1000000 - 62135596800"

definition insert_account ::
    "int \<Rightarrow> pystr \<Rightarrow> pystr \<Rightarrow> pystr \<Rightarrow> pystr option \<Rightarrow> int \<Rightarrow> account_db \<Rightarrow> account_db \<times> int api" where
  "insert_account workspace_id provider label access refresh expires db =
     (if workspace_id \<notin> set (ad_workspaces db) then (db, Inl OtherFault)
      else (db\<lparr>ad_accounts := ad_accounts db @ [\<lparr>ac_id = ad_next db, ac_workspace = workspace_id, ac_provider = provider,
                  ac_label = label, ac_access = access, ac_refresh = refresh, ac_expires = expires\<rparr>],
                ad_next := ad_next db + 1\<rparr>, Inr (ad_next db)))"

definition update_account :: "int \<Rightarrow> pystr \<Rightarrow> pystr \<Rightarrow> pystr option \<Rightarrow> int \<Rightarrow> account_db \<Rightarrow> account_db" where
  "update_account i label access refresh expires db =
     db\<lparr>ad_accounts := map (\<lambda>a. if ac_id a = i then set_tokens label access refresh expires a else a) (ad_accounts db)\<rparr>"

definition encrypt_tokens :: "crypto \<Rightarrow> app_settings \<Rightarrow> new_tokens \<Rightarrow> (pystr \<times> pystr option) api" where
  "encrypt_tokens cr st t =
     api_bind (encrypt_token cr st (nt_access t)) (\<lambda>access.
       case nt_refresh t of
         Some r \<Rightarrow> if r = [] then Inr (access, None)
                   else api_bind (encrypt_token cr st r) (\<lambda>refresh. Inr (access, Some refresh))
       | None \<Rightarrow> Inr (access, None))"

definition upsert_integration_account ::
    "crypto \<Rightarrow> app_settings \<Rightarrow> int \<Rightarrow> int \<Rightarrow> pystr \<Rightarrow> new_tokens \<Rightarrow> account_db \<Rightarrow> account_db \<times> int api" where
  "upsert_integration_account cr st now workspace_id provider t db =
     (let expires = (case nt_expires t of Some e \<Rightarrow> e | None \<Rightarrow> now + 2592000)
      in if max_second \<le> expires then (db, Inl OtherFault)
         else (case encrypt_tokens cr st t of
            Inl e \<Rightarrow> (db, Inl e)
          | Inr (access, refresh) \<Rightarrow>
              (case existing_account workspace_id provider db of
                 None \<Rightarrow> insert_account workspace_id provider (nt_label t) access refresh expires db
               | Some i \<Rightarrow> (update_account i (nt_label t) access refresh expires db, Inr i))))"

section \<open>Endpoints\<close>

record callback_request =
  cb_code :: pystr
  cb_state :: pystr
  cb_workspace :: "int option"

definition str_value :: "crypto \<Rightarrow> pyval \<Rightarrow> pystr" where
  "str_value cr v = (case v of PStr s \<Rightarrow> s | _ \<Rightarrow> cr_str cr v)"

text \<open>The tokens of an answer; \<open>access_token\<close> is there.\<close>

definition tokens_of :: "crypto \<Rightarrow> int \<Rightarrow> pystr \<Rightarrow> (pystr, pyval) dict \<Rightarrow> new_tokens" where
  "tokens_of cr now label token_data =
     \<lparr>nt_label = label, nt_access = str_value cr (dget_or token_data ''access_token'' PNone),
      nt_refresh = (case dget_or token_data ''refresh_token'' PNone of PNone \<Rightarrow> None | v \<Rightarrow> Some (str_value cr v)),
      nt_expires = (case int_instance (dget_or token_data ''expires_in'' PNone) of
                      Some e \<Rightarrow> if 0 < e then Some (now + e) else None
                    | None \<Rightarrow> None)\<rparr>"

definition checked_workspace :: "crypto \<Rightarrow> app_settings \<Rightarrow> pystr \<Rightarrow> int \<Rightarrow> callback_request \<Rightarrow> int api" where
  "checked_workspace cr st provider now req =
     (if strip (cb_code req) = [] then Inl (HttpFault 400)
      else if strip (cb_state req) = [] then Inl (HttpFault 400)
      else api_bind (validate_oauth_state cr st (strip (cb_state req)) provider now) (\<lambda>payload.
        (case payload_int payload ''workspace_id'' of
           None \<Rightarrow> Inl OtherFault
         | Some w \<Rightarrow>
             (case cb_workspace req of
                Some v \<Rightarrow> if v \<noteq> w then Inl (HttpFault 400) else Inr w
              | None \<Rightarrow> Inr w))))"

definition oauth_callback ::
    "crypto \<Rightarrow> app_settings \<Rightarrow> string \<Rightarrow> string \<Rightarrow> (pystr \<Rightarrow> (pystr, pyval) dict api) \<Rightarrow> int \<Rightarrow> callback_request
      \<Rightarrow> account_db \<Rightarrow> account_db \<times> int api" where
  "oauth_callback cr st provider label exchange now req db =
     (case api_bind (checked_workspace cr st (lit provider) now req) (\<lambda>w.
             api_bind (exchange (strip (cb_code req))) (\<lambda>token_data. Inr (w, token_data))) of
        Inl e \<Rightarrow> (db, Inl e)
      | Inr (w, token_data) \<Rightarrow>
          upsert_integration_account cr st now w (lit provider) (tokens_of cr now (lit label) token_data) db)"

definition jira_callback where
  "jira_callback cr st cl srv = oauth_callback cr st ''jira'' ''Jira OAuth'' (\<lambda>code. jira_exchange_code cl code srv)"

definition google_callback where
  "google_callback cr st cl srv =
     oauth_callback cr st ''google_calendar'' ''Google Calendar OAuth'' (\<lambda>code. google_exchange_code cl code srv)"

definition jira_connect :: "crypto \<Rightarrow> app_settings \<Rightarrow> oauth_client \<Rightarrow> pystr \<Rightarrow> int \<Rightarrow> int \<Rightarrow> connect_payload api" where
  "jira_connect cr st cl nonce now workspace_id =
     api_bind (build_oauth_state cr st (lit ''jira'') workspace_id nonce now) (jira_connect_payload cl)"

definition google_connect :: "crypto \<Rightarrow> app_settings \<Rightarrow> oauth_client \<Rightarrow> pystr \<Rightarrow> int \<Rightarrow> int \<Rightarrow> connect_payload api" where
  "google_connect cr st cl nonce now workspace_id =
     api_bind (build_oauth_state cr st (lit ''google_calendar'') workspace_id nonce now) (google_connect_payload cl)"

section \<open>Keys\<close>

lemma foldl_keeps: "(\<And>x r. P r \<Longrightarrow> P (f r x)) \<Longrightarrow> P r \<Longrightarrow> P (foldl f r xs)"
  by (induction xs arbitrary: r) auto

lemma key_ring_distinct: "distinct (key_ring_from_values master_key fallback_keys)"
    "[] \<notin> set (key_ring_from_values master_key fallback_keys)"
  unfolding key_ring_from_values_def
  by (rule foldl_keeps; auto simp: add_key_def Let_def)+

lemma add_keys_filter:
  "foldl add_key ring items
     = foldl (\<lambda>ring key. if key \<notin> set ring then ring @ [key] else ring) ring (filter (\<lambda>k. k \<noteq> []) (map strip items))"
  by (induction items arbitrary: ring) (auto simp: add_key_def Let_def)

section \<open>The round trip of a state\<close>

lemma padded_lit: "padded (lit t) (Ch (CHR ''='')) = lit (padded t (CHR ''=''))"
  by (simp add: padded_def lit_def)

lemma ascii_lit: "list_all (\<lambda>c. byte c < 128) bs \<Longrightarrow> ascii (lit bs) = Some bs"
  unfolding lit_def by (rule ascii_of_chars)

lemma safe_ascii: "list_all (\<lambda>c. url_safe (byte c)) bs \<Longrightarrow> list_all (\<lambda>c. byte c < 128) (padded bs (CHR ''=''))"
  by (auto simp: padded_def list_all_iff url_safe_def)

lemma decode_token64: "decode_token (lit (token64 b)) = Some b"
  unfolding decode_token_def token64_def padded_lit
  by (simp add: ascii_lit [OF safe_ascii [OF encoded_safe]] b64_roundtrip)

lemma takeWhile_no: "x \<notin> set s \<Longrightarrow> takeWhile (\<lambda>c. c \<noteq> x) (s @ x # t) = s"
  by (induction s) auto

lemma split_encoded: "CHR ''.'' \<notin> set s \<Longrightarrow> split_state (lit (s @ CHR ''.'' # t)) = Some (lit s, lit t)"
proof -
  assume "CHR ''.'' \<notin> set s"
  then have "takeWhile (\<lambda>c. c \<noteq> Ch (CHR ''.'')) (lit (s @ CHR ''.'' # t)) = lit s"
    using takeWhile_no [of "Ch (CHR ''.'')" "lit s" "lit t"] by (auto simp: lit_def)
  then show ?thesis by (simp add: split_state_def lit_def)
qed

lemma token64_no_dot: "CHR ''.'' \<notin> set (token64 b)"
proof
  assume "CHR ''.'' \<in> set (token64 b)"
  moreover have "CHR ''.'' \<notin> set (b64encode b)"
  proof (induction b rule: b64encode.induct)
    case (2 a)
    note six = six_bits [OF byte_less [of a] byte_less [of a] byte_less [of a]]
    show ?case by (simp add: digit64_no_dot [symmetric] six(1,5))
  next
    case (3 a b)
    note six = six_bits [OF byte_less [of a] byte_less [of b] byte_less [of b]]
    show ?case by (simp add: digit64_no_dot [symmetric] six(1,2,6))
  next
    case (4 a b c r)
    note six = six_bits [OF byte_less [of a] byte_less [of b] byte_less [of c]]
    from 4 show ?case by (simp add: digit64_no_dot [symmetric] six(1-4))
  qed simp
  ultimately show False
    by (auto simp: token64_def strip_padding_def dest: set_dropWhileD)
qed

lemma state_bytes_encoded: "state_bytes (lit (token64 p @ CHR ''.'' # token64 s)) = Some (p, s)"
  by (simp add: state_bytes_def split_encoded token64_no_dot decode_token64)

definition sorted_dict :: "(pystr, pyval) dict \<Rightarrow> (pystr, pyval) dict" where
  "sorted_dict d = sort_key fst d"

lemma dget_sorted: "distinct (dkeys d) \<Longrightarrow> dget (sorted_dict d) = dget d"
proof -
  assume "distinct (dkeys d)"
  moreover from this have "distinct (dkeys (sorted_dict d))"
    by (simp add: sorted_dict_def) (metis distinct_map distinct_sort set_sort)
  ultimately show ?thesis by (simp add: map_of_inject_set sorted_dict_def)
qed

lemma payload_keys: "distinct (dkeys (state_payload provider w nonce now ttl))"
  by (simp add: state_payload_def)

text \<open>The bytes that are signed.\<close>

definition signed_bytes :: "(pystr, pyval) dict \<Rightarrow> bytes" where
  "signed_bytes d = map (\<lambda>x. char_of (char_number x)) (json_canonical (PDict d))"

lemma payload_bytes:
  "utf8_bytes (json_canonical (PDict (state_payload provider w nonce now ttl)))
     = Inr (signed_bytes (state_payload provider w nonce now ttl))"
proof -
  have "floats_printable (PDict (state_payload provider w nonce now ttl))" by (simp add: state_payload_def)
  from printable_utf8 [OF json_canonical_printable [OF this]] show ?thesis
    unfolding utf8_bytes_def signed_bytes_def by simp
qed

lemma validate_built:
  assumes "build_oauth_state cr st provider workspace_id nonce made = Inr state"
    and "cr_loads cr (signed_bytes (state_payload provider workspace_id nonce made 600))
       = Some (PDict (sorted_dict (state_payload provider workspace_id nonce made 600)))"
  shows "validate_oauth_state cr st state provider' now =
     (if provider' = provider \<and> now \<le> made + 600
      then Inr (sorted_dict (state_payload provider workspace_id nonce made 600)) else Inl (HttpFault 400))"
proof -
  let ?d = "state_payload provider workspace_id nonce made 600"
  from assms(1) obtain secret where secret: "state_secret st = Inr secret"
    and state: "state = lit (token64 (signed_bytes ?d) @ ''.'' @ token64 (cr_hmac cr secret (signed_bytes ?d)))"
    by (auto simp: build_oauth_state_def encode_state_payload_def payload_bytes api_bind_Inr_iff simp del: json_canonical.simps)
  have "decode_state_payload cr st state = Inr (sorted_dict ?d)"
    using secret assms(2) by (simp add: decode_state_payload_def state state_bytes_encoded)
  moreover have "dget_or (sorted_dict ?d) k w = dget_or ?d k w" for k w
    by (simp add: dget_or_def dget_sorted payload_keys)
  moreover have "dget_or ?d ''provider'' PNone = PStr provider" "dget_or ?d ''exp'' PNone = PInt (made + 600)"
    "dget_or ?d ''workspace_id'' PNone = PInt workspace_id"
    by (simp_all add: state_payload_def dget_or_def)
  ultimately show ?thesis
    by (auto simp: validate_oauth_state_def text_or_empty_def payload_int_def int_instance_def)
qed

text \<open>C17: A state is accepted exactly by the provider it was made for and up to ten minutes after it was made, and gives
  the provider, the workspace, the nonce and the times that went into it.\<close>

theorem oauth_state_accepted_iff:
  assumes "build_oauth_state cr st provider workspace_id nonce made = Inr state"
    and "cr_loads cr (signed_bytes (state_payload provider workspace_id nonce made 600))
       = Some (PDict (sorted_dict (state_payload provider workspace_id nonce made 600)))"
  shows "validate_oauth_state cr st state provider' now =
     (if provider' = provider \<and> now \<le> made + 600
      then Inr (sorted_dict (state_payload provider workspace_id nonce made 600)) else Inl (HttpFault 400))"
  by (rule validate_built [OF assms])

section \<open>Connected accounts\<close>

definition accounts_ok :: "account_db \<Rightarrow> bool" where
  "accounts_ok db \<longleftrightarrow> distinct (map ac_id (ad_accounts db)) \<and> list_all (\<lambda>a. ac_id a < ad_next db) (ad_accounts db)"

definition others :: "int \<Rightarrow> pystr \<Rightarrow> account_db \<Rightarrow> account list" where
  "others w provider db = filter (\<lambda>a. \<not> has_account w provider a) (ad_accounts db)"

lemma foldl_max_mem: "foldl max (i :: int) is \<in> set (i # is)"
  by (induction "is" arbitrary: i) (auto simp: max_def)

lemma existing_account_row:
  assumes "existing_account w provider db = Some i"
  shows "\<exists>a \<in> set (ad_accounts db). ac_id a = i \<and> has_account w provider a"
proof -
  from assms have "i \<in> set (map ac_id (filter (has_account w provider) (ad_accounts db)))"
    using foldl_max_mem unfolding existing_account_def by (auto split: list.splits simp del: set_map list.set)
  then show ?thesis by auto
qed

lemma set_tokens_fields [simp]: "ac_id (set_tokens l a r e x) = ac_id x"
    "has_account w provider (set_tokens l a r e x) = has_account w provider x"
  by (simp_all add: set_tokens_def has_account_def)

lemma update_others:
  assumes "distinct (map ac_id as)" "a \<in> set as" "ac_id a = i" "P a"
    and "\<And>x. ac_id (f x) = ac_id x" "\<And>x. P (f x) = P x"
  shows "filter (\<lambda>x. \<not> P x) (map (\<lambda>x. if ac_id x = i then f x else x) as) = filter (\<lambda>x. \<not> P x) as"
proof -
  have "P x" if "x \<in> set as" "ac_id x = i" for x
    using assms(1-4) that by (metis distinct_map inj_onD)
  then show ?thesis by (induction as) (auto simp: assms(6))
qed

definition stores_for :: "int \<Rightarrow> pystr \<Rightarrow> int \<Rightarrow> account_db \<Rightarrow> account_db \<Rightarrow> bool" where
  "stores_for w provider i db db' \<longleftrightarrow> others w provider db' = others w provider db
     \<and> (\<exists>a \<in> set (ad_accounts db'). ac_id a = i \<and> has_account w provider a)"

lemma insert_account_stores:
  assumes "accounts_ok db" "insert_account w provider label access refresh expires db = (db', Inr i)"
  shows "accounts_ok db' \<and> stores_for w provider i db db'"
  using assms
  by (auto simp: insert_account_def accounts_ok_def stores_for_def others_def has_account_def list_all_iff split: if_splits)
    (fastforce dest: bspec)+

lemma update_account_stores:
  assumes "accounts_ok db" "existing_account w provider db = Some i"
  shows "accounts_ok (update_account i label access refresh expires db)
    \<and> stores_for w provider i db (update_account i label access refresh expires db)"
proof -
  obtain a where a: "a \<in> set (ad_accounts db)" "ac_id a = i" "has_account w provider a"
    using existing_account_row [OF assms(2)] by blast
  have ids: "map ac_id (map (\<lambda>a. if ac_id a = i then set_tokens label access refresh expires a else a) (ad_accounts db))
      = map ac_id (ad_accounts db)" by simp
  from assms(1) a have "others w provider (update_account i label access refresh expires db) = others w provider db"
    unfolding others_def update_account_def
    by simp (intro update_others [where a = a and f = "set_tokens label access refresh expires"];
        simp add: accounts_ok_def)
  moreover have "accounts_ok (update_account i label access refresh expires db)"
    using assms(1) ids unfolding accounts_ok_def update_account_def by (auto simp: list_all_iff simp del: map_map)
  moreover have "\<exists>b \<in> set (ad_accounts (update_account i label access refresh expires db)). ac_id b = i \<and> has_account w provider b"
    using a by (intro bexI [of _ "set_tokens label access refresh expires a"]) (auto simp: update_account_def)
  ultimately show ?thesis
    unfolding stores_for_def by blast
qed

lemma upsert_only_own:
  assumes ok: "accounts_ok db" and upsert: "upsert_integration_account cr st now w provider t db = (db', r)"
  shows "accounts_ok db' \<and> (case r of Inl e \<Rightarrow> db' = db | Inr i \<Rightarrow> stores_for w provider i db db')"
proof (cases "max_second \<le> (case nt_expires t of Some e \<Rightarrow> e | None \<Rightarrow> now + 2592000)")
  case True
  with ok upsert show ?thesis by (auto simp: upsert_integration_account_def)
next
  case early: False
  show ?thesis
  proof (cases "encrypt_tokens cr st t")
    case (Inl e)
    with early ok upsert show ?thesis by (auto simp: upsert_integration_account_def)
  next
    case (Inr p)
    obtain access refresh where p: "p = (access, refresh)" by (cases p)
    show ?thesis
    proof (cases "existing_account w provider db")
      case None
      with early Inr p upsert
      have ins: "insert_account w provider (nt_label t) access refresh
          (case nt_expires t of Some e \<Rightarrow> e | None \<Rightarrow> now + 2592000) db = (db', r)"
        by (simp add: upsert_integration_account_def)
      show ?thesis
      proof (cases r)
        case (Inl e)
        with ins ok show ?thesis by (auto simp: insert_account_def split: if_splits)
      next
        case (Inr i)
        with insert_account_stores [OF ok] ins show ?thesis by simp
      qed
    next
      case (Some i)
      with early Inr p upsert update_account_stores [OF ok Some] show ?thesis
        by (auto simp: upsert_integration_account_def)
    qed
  qed
qed

lemma decoded_was_signed:
  assumes "decode_state_payload cr st state = Inr payload"
  obtains secret p where "state_secret st = Inr secret" "state_bytes state = Some (p, cr_hmac cr secret p)"
    "cr_loads cr p = Some (PDict payload)"
proof (cases "state_bytes state")
  case None
  with assms show ?thesis by (simp add: decode_state_payload_def)
next
  case (Some ps)
  then obtain p signature where ps: "state_bytes state = Some (p, signature)" by (cases ps) auto
  with assms obtain secret where secret: "state_secret st = Inr secret"
    and rest: "(if signature \<noteq> cr_hmac cr secret p then Inl (HttpFault 400)
            else (case cr_loads cr p of Some (PDict d) \<Rightarrow> Inr d | _ \<Rightarrow> Inl (HttpFault 400))) = Inr payload"
    by (auto simp: decode_state_payload_def api_bind_Inr_iff)
  from rest have "signature = cr_hmac cr secret p" "cr_loads cr p = Some (PDict payload)"
    by (auto split: if_splits option.splits pyval.splits)
  with secret ps that show ?thesis by simp
qed

lemma accepted_was_signed:
  assumes "checked_workspace cr st provider now req = Inr w"
  obtains secret p d where "state_secret st = Inr secret"
    "state_bytes (strip (cb_state req)) = Some (p, cr_hmac cr secret p)" "cr_loads cr p = Some (PDict d)"
    "payload_int d ''workspace_id'' = Some w" "cb_workspace req = None \<or> cb_workspace req = Some w"
proof -
  from assms obtain payload where valid: "validate_oauth_state cr st (strip (cb_state req)) provider now = Inr payload"
    and rest: "(case payload_int payload ''workspace_id'' of
           None \<Rightarrow> Inl OtherFault
         | Some w \<Rightarrow>
             (case cb_workspace req of
                Some v \<Rightarrow> if v \<noteq> w then Inl (HttpFault 400) else Inr w
              | None \<Rightarrow> Inr w)) = Inr w"
    unfolding checked_workspace_def by (auto simp: api_bind_Inr_iff simp del: split_paired_Ex split: if_split_asm)
  from rest have w: "payload_int payload ''workspace_id'' = Some w" "cb_workspace req = None \<or> cb_workspace req = Some w"
    by (auto split: if_splits option.splits)
  from valid have "decode_state_payload cr st (strip (cb_state req)) = Inr payload"
    by (auto simp: validate_oauth_state_def api_bind_Inr_iff split: if_splits option.splits)
  then obtain secret p where "state_secret st = Inr secret"
    "state_bytes (strip (cb_state req)) = Some (p, cr_hmac cr secret p)" "cr_loads cr p = Some (PDict payload)"
    by (rule decoded_was_signed)
  with w that show ?thesis by blast
qed

text \<open>A callback stores tokens only for the workspace of a state that carries the signature of this server, only in
  the account of that workspace for the provider, and a callback that is refused changes nothing.\<close>

theorem callback_only_signed_workspace:
  assumes "accounts_ok db" and "oauth_callback cr st provider label exchange now req db = (db', r)"
  shows "accounts_ok db' \<and>
    (case r of
       Inl e \<Rightarrow> db' = db
     | Inr i \<Rightarrow> \<exists>secret p d w. state_secret st = Inr secret
         \<and> state_bytes (strip (cb_state req)) = Some (p, cr_hmac cr secret p) \<and> cr_loads cr p = Some (PDict d)
         \<and> payload_int d ''workspace_id'' = Some w \<and> stores_for w (lit provider) i db db')"
proof (cases "checked_workspace cr st (lit provider) now req")
  case (Inl e)
  with assms have "db' = db \<and> r = Inl e" by (simp add: oauth_callback_def)
  with assms(1) show ?thesis by simp
next
  case (Inr w)
  obtain secret p d where signed: "state_secret st = Inr secret"
    "state_bytes (strip (cb_state req)) = Some (p, cr_hmac cr secret p)" "cr_loads cr p = Some (PDict d)"
    "payload_int d ''workspace_id'' = Some w"
    using accepted_was_signed [OF Inr] .
  show ?thesis
  proof (cases "exchange (strip (cb_code req))")
    case (Inl e)
    with Inr assms have "db' = db \<and> r = Inl e" by (simp add: oauth_callback_def)
    with assms(1) show ?thesis by simp
  next
    case tokens: (Inr token_data)
    with Inr assms(2)
    have "upsert_integration_account cr st now w (lit provider) (tokens_of cr now (lit label) token_data) db = (db', r)"
      by (simp add: oauth_callback_def)
    from upsert_only_own [OF assms(1) this] signed show ?thesis by (cases r) auto
  qed
qed

section \<open>Examples\<close>

lemma strip_token: "list_all (\<lambda>c. url_safe (byte c)) bs \<Longrightarrow> strip (lit bs) = lit bs"
proof -
  assume "list_all (\<lambda>c. url_safe (byte c)) bs"
  then have "x \<in> set (lit bs) \<Longrightarrow> \<not> is_space x" for x by (auto simp: lit_def list_all_iff url_safe_def)
  then have "dropWhile is_space t = t" if "set t \<subseteq> set (lit bs)" for t
    using that by (cases t) auto
  then show ?thesis by (simp add: strip_def rstrip_def lstrip_def)
qed

definition made_payload :: "(pystr, pyval) dict" where
  "made_payload = state_payload (lit ''jira'') 5 (lit ''n'') 1000 600"

definition toy_crypto :: crypto where
  "toy_crypto = \<lparr>cr_hmac = (\<lambda>k b. k @ take 2 b),
     cr_loads = (\<lambda>b. if b = signed_bytes made_payload then Some (PDict (sorted_dict made_payload)) else None),
     cr_str = (\<lambda>_. []), cr_encrypt = (\<lambda>k s. k @ s)\<rparr>"

definition toy_settings :: app_settings where
  "toy_settings = \<lparr>as_jwt_secret = lit ''j'', as_master_key = lit ''m'', as_fallback_keys = []\<rparr>"

definition made_state :: pystr where
  "made_state = lit (token64 (signed_bytes made_payload) @ ''.'' @ token64 (''j'' @ take 2 (signed_bytes made_payload)))"

lemma toy_secret: "state_secret toy_settings = Inr ''j''"
  using utf8_ascii [of "''j''"] strip_token [of "''j''"]
  by (simp add: state_secret_def oauth_state_secret_def toy_settings_def utf8_bytes_def url_safe_def)

lemma made_state_built: "build_oauth_state toy_crypto toy_settings (lit ''jira'') 5 (lit ''n'') 1000 = Inr made_state"
  unfolding build_oauth_state_def encode_state_payload_def payload_bytes toy_secret made_state_def made_payload_def
  by (simp add: toy_crypto_def)

lemma toy_loads: "cr_loads toy_crypto (signed_bytes (state_payload (lit ''jira'') 5 (lit ''n'') 1000 600))
    = Some (PDict (sorted_dict (state_payload (lit ''jira'') 5 (lit ''n'') 1000 600)))"
  by (simp add: toy_crypto_def made_payload_def)

lemma oauth_state_accepted_iff_witness:
  "validate_oauth_state toy_crypto toy_settings made_state (lit ''jira'') 1600 = Inr (sorted_dict made_payload)
   \<and> validate_oauth_state toy_crypto toy_settings made_state (lit ''jira'') 1601 = Inl (HttpFault 400)
   \<and> validate_oauth_state toy_crypto toy_settings made_state (lit ''google_calendar'') 1600 = Inl (HttpFault 400)"
  using oauth_state_accepted_iff [OF made_state_built toy_loads, of "lit ''jira''" 1600]
    oauth_state_accepted_iff [OF made_state_built toy_loads, of "lit ''jira''" 1601]
    oauth_state_accepted_iff [OF made_state_built toy_loads, of "lit ''google_calendar''" 1600]
  by (simp add: made_payload_def)

definition connecting :: callback_request where
  "connecting = \<lparr>cb_code = lit ''c'', cb_state = made_state, cb_workspace = Some 5\<rparr>"

definition no_accounts :: account_db where
  "no_accounts = \<lparr>ad_workspaces = [5], ad_accounts = [], ad_next = 1\<rparr>"

definition toy_exchange :: "pystr \<Rightarrow> (pystr, pyval) dict api" where
  "toy_exchange code = Inr [(lit ''access_token'', PStr code)]"

lemma connecting_checked: "checked_workspace toy_crypto toy_settings (lit ''jira'') 1600 connecting = Inr 5"
proof -
  have "strip made_state = made_state"
    unfolding made_state_def
    by (rule strip_token) (use encoded_safe in \<open>simp add: token64_def url_safe_def\<close>)
  moreover have "made_state \<noteq> []" by (simp add: made_state_def)
  moreover have "validate_oauth_state toy_crypto toy_settings made_state (lit ''jira'') 1600 = Inr (sorted_dict made_payload)"
    using validate_built [OF made_state_built toy_loads, of "lit ''jira''" 1600] by (simp add: made_payload_def)
  moreover have "payload_int (sorted_dict made_payload) ''workspace_id'' = Some 5"
    by (simp add: payload_int_def dget_or_def made_payload_def dget_sorted payload_keys)
      (simp add: state_payload_def int_instance_def)
  ultimately show ?thesis
    by (simp add: checked_workspace_def connecting_def strip_def rstrip_def lstrip_def lit_def)
qed

lemma connected: "snd (oauth_callback toy_crypto toy_settings ''jira'' ''Jira OAuth'' toy_exchange 1600 connecting no_accounts)
    = Inr 1"
proof -
  have code: "strip (cb_code connecting) = lit ''c''" by (simp add: connecting_def strip_def rstrip_def lstrip_def lit_def)
  have keys: "fernet_keys (lit ''m'') [] = Inr [lit ''m'']"
    by (simp add: fernet_keys_def key_ring_from_values_def add_key_def strip_def rstrip_def lstrip_def lit_def)
  show ?thesis
    unfolding oauth_callback_def connecting_checked code
    by (simp add: toy_exchange_def upsert_integration_account_def tokens_of_def dget_or_def str_value_def int_instance_def
        encrypt_tokens_def encrypt_token_def keys toy_settings_def utf8_bytes_def utf8_ascii existing_account_def
        no_accounts_def insert_account_def max_second_def max_time_def day_us_def)
qed

lemma callback_only_signed_workspace_witness:
  "\<exists>d w. cr_loads toy_crypto (signed_bytes made_payload) = Some (PDict d) \<and> payload_int d ''workspace_id'' = Some w
     \<and> stores_for w (lit ''jira'') 1 no_accounts
         (fst (oauth_callback toy_crypto toy_settings ''jira'' ''Jira OAuth'' toy_exchange 1600 connecting no_accounts))"
proof -
  have ok: "accounts_ok no_accounts" by (simp add: accounts_ok_def no_accounts_def)
  have "strip (cb_state connecting) = made_state"
    unfolding made_state_def connecting_def
    by simp (rule strip_token, use encoded_safe in \<open>simp add: token64_def url_safe_def\<close>)
  moreover have "state_bytes made_state = Some (signed_bytes made_payload, ''j'' @ take 2 (signed_bytes made_payload))"
    by (simp add: made_state_def state_bytes_encoded)
  ultimately show ?thesis
    using callback_only_signed_workspace [OF ok prod.collapse [symmetric],
      of toy_crypto toy_settings "''jira''" "''Jira OAuth''" toy_exchange 1600 connecting]
    by (auto simp: connected)
qed

end
