(* ===== verification/Webhooks.thy ===== *)
theory Webhooks
  imports JsonCanonical IntegrationServices
begin

text \<open>
  The webhooks of Jira and Google Calendar: \<open>api/v1/routers/webhooks.py\<close>, \<open>integrations/idempotency_registry.py\<close> and
  \<open>normalize_webhook_event\<close> of the two services. The hashes and \<open>str\<close> of a JSON value are parameters. What the
  database does with a transaction is an input: it commits, it raises, or it commits and the answer is lost.
\<close>

section \<open>Processed events\<close>

datatype db_outcome = DbCommits | DbRaises | DbAnswerLost

record webhook_db =
  wd_workspaces :: "int list"
  wd_events :: "pystr \<times> pystr \<rightharpoonup> pystr" \<comment> \<open>source and event to hash\<close>
  wd_dead :: "(int option \<times> pystr) list"

record internal_event =
  ie_source :: pystr
  ie_event :: pystr
  ie_type :: pystr
  ie_workspace :: int
  ie_hash :: pystr
  ie_payload :: "(pystr, pyval) dict"

datatype registration = Processed | Duplicate | HashMismatch

definition register_event :: "internal_event \<Rightarrow> webhook_db \<Rightarrow> webhook_db \<times> registration" where
  "register_event e db =
     (case wd_events db (ie_source e, ie_event e) of
        None \<Rightarrow> (db\<lparr>wd_events := (wd_events db)((ie_source e, ie_event e) \<mapsto> ie_hash e)\<rparr>, Processed)
      | Some existing \<Rightarrow> (db, if existing \<noteq> [] \<and> existing \<noteq> ie_hash e then HashMismatch else Duplicate))"

text \<open>\<open>_record_processed_event\<close> in a transaction; without a database every event is new.\<close>

definition record_processed_event ::
    "bool \<Rightarrow> db_outcome \<Rightarrow> internal_event \<Rightarrow> webhook_db \<Rightarrow> webhook_db \<times> bool option" where
  "record_processed_event has_database outcome e db =
     (if \<not> has_database then (db, Some True)
      else (case outcome of
              DbRaises \<Rightarrow> (db, None)
            | DbAnswerLost \<Rightarrow> (fst (register_event e db), None)
            | DbCommits \<Rightarrow> (fst (register_event e db), Some (snd (register_event e db) = Processed))))"

definition MAX_WEBHOOK_RETRIES :: nat where
  "MAX_WEBHOOK_RETRIES = 3"

text \<open>A dead letter of workspace 0 has none; one of a workspace that is not there violates the foreign key. The answer
  to it may be lost as well.\<close>

definition record_dead_letter ::
    "bool \<Rightarrow> db_outcome \<Rightarrow> internal_event \<Rightarrow> webhook_db \<Rightarrow> webhook_db \<times> bool" where
  "record_dead_letter has_database outcome e db =
     (let ws = (if ie_workspace e = 0 then None else Some (ie_workspace e));
          db' = db\<lparr>wd_dead := wd_dead db @ [(ws, ie_source e @ lit '':'' @ ie_event e)]\<rparr>
      in if \<not> has_database then (db, True)
         else if outcome = DbRaises \<or> (ws \<noteq> None \<and> ie_workspace e \<notin> set (wd_workspaces db)) then (db, False)
         else (db', outcome = DbCommits))"

record processing =
  pr_new :: bool
  pr_attempts :: nat

text \<open>The attempts that are left, with the number of the next one.\<close>

fun attempt_events ::
    "bool \<Rightarrow> internal_event \<Rightarrow> nat \<Rightarrow> db_outcome list \<Rightarrow> webhook_db \<Rightarrow> webhook_db \<times> processing option" where
  "attempt_events has_database e n [] db = (db, None)"
| "attempt_events has_database e n (r # rs) db =
     (case record_processed_event has_database r e db of
        (db', Some inserted) \<Rightarrow> (db', Some \<lparr>pr_new = inserted, pr_attempts = n\<rparr>)
      | (db', None) \<Rightarrow> attempt_events has_database e (n + 1) rs db')"

text \<open>The outcomes of the three attempts and of the dead letter.\<close>

record outcomes =
  ou_attempts :: "nat \<Rightarrow> db_outcome"
  ou_dead :: db_outcome

definition process_with_retry :: "bool \<Rightarrow> outcomes \<Rightarrow> internal_event \<Rightarrow> webhook_db \<Rightarrow> webhook_db \<times> processing api" where
  "process_with_retry has_database os e db =
     (case attempt_events has_database e 1 (map (ou_attempts os) [1..<MAX_WEBHOOK_RETRIES + 1]) db of
        (db1, Some p) \<Rightarrow> (db1, Inr p)
      | (db1, None) \<Rightarrow>
          (case record_dead_letter has_database (ou_dead os) e db1 of
             (db2, written) \<Rightarrow> (db2, Inl (if written then HttpFault 502 else OtherFault))))"

section \<open>Signatures\<close>

record webhook_env =
  we_hmac_hex :: "bytes \<Rightarrow> bytes \<Rightarrow> pystr"
  we_sha_hex :: "bytes \<Rightarrow> pystr"
  we_str :: "pyval \<Rightarrow> pystr"
  we_jira_secret :: pystr
  we_google_secret :: pystr
  we_database :: bool

record webhook_request =
  wr_body :: bytes
  wr_payload :: "(pystr, pyval) dict"
  wr_headers :: "(pystr, pystr) dict"
  wr_workspace :: "int option"

definition hook_header :: "webhook_request \<Rightarrow> string \<Rightarrow> pystr option" where
  "hook_header req name = dget (wr_headers req) (lit name)"

definition header_or :: "webhook_request \<Rightarrow> string \<Rightarrow> pystr" where
  "header_or req name = (case hook_header req name of None \<Rightarrow> [] | Some v \<Rightarrow> v)"

definition extract_signature_digest :: "pystr option \<Rightarrow> pystr" where
  "extract_signature_digest value =
     (case value of
        None \<Rightarrow> []
      | Some v \<Rightarrow>
          (let candidate = strip v
           in lower (if startswith candidate (lit ''sha256='') then drop 7 candidate else candidate)))"

text \<open>\<open>compare_digest\<close> raises on a text that is not ASCII.\<close>

definition verify_jira_signature :: "webhook_env \<Rightarrow> bytes \<Rightarrow> pystr option \<Rightarrow> bool api" where
  "verify_jira_signature env raw_body signature_header =
     (let secret = strip (we_jira_secret env); provided = extract_signature_digest signature_header
      in if secret = [] then Inr True
         else if provided = [] then Inr False
         else (case utf8 secret of
                 None \<Rightarrow> Inl OtherFault
               | Some key \<Rightarrow>
                   if \<not> list_all ascii_char provided then Inl OtherFault
                   else Inr (provided = we_hmac_hex env key raw_body)))"

definition verify_google_headers :: "webhook_env \<Rightarrow> webhook_request \<Rightarrow> bool" where
  "verify_google_headers env req \<longleftrightarrow>
     list_all (\<lambda>name. strip (header_or req name) \<noteq> [])
       [''x-goog-resource-id'', ''x-goog-resource-state'', ''x-goog-message-number'', ''x-goog-channel-id'']
     \<and> (strip (we_google_secret env) \<noteq> [] \<longrightarrow>
          strip (header_or req ''x-goog-channel-token'') = strip (we_google_secret env))"

definition legacy_secret_ok :: "pystr \<Rightarrow> webhook_request \<Rightarrow> bool" where
  "legacy_secret_ok secret req \<longleftrightarrow> strip secret \<noteq> [] \<and> hook_header req ''x-hook-secret'' = Some (strip secret)"

section \<open>Events\<close>

record normalized =
  no_event_id :: pystr
  no_type :: pystr
  no_payload :: "(pystr, pyval) dict"

text \<open>\<open>str(x or y or "unknown")\<close>.\<close>

definition hook_str :: "webhook_env \<Rightarrow> pyval \<Rightarrow> pystr" where
  "hook_str env v = (case v of PStr s \<Rightarrow> s | _ \<Rightarrow> we_str env v)"

definition str_or_unknown :: "webhook_env \<Rightarrow> pyval list \<Rightarrow> pystr" where
  "str_or_unknown env vs = (case filter truthy vs of [] \<Rightarrow> lit ''unknown'' | v # _ \<Rightarrow> hook_str env v)"

definition normalize_jira_event :: "webhook_env \<Rightarrow> (pystr, pyval) dict \<Rightarrow> normalized" where
  "normalize_jira_event env payload =
     \<lparr>no_event_id = str_or_unknown env [dget_or payload ''timestamp'' PNone, dget_or payload ''webhookEvent'' PNone],
      no_type = str_or_unknown env [dget_or payload ''webhookEvent'' PNone], no_payload = payload\<rparr>"

definition normalize_google_event :: "webhook_env \<Rightarrow> (pystr, pyval) dict \<Rightarrow> normalized" where
  "normalize_google_event env payload =
     \<lparr>no_event_id = str_or_unknown env [dget_or payload ''resourceId'' PNone, dget_or payload ''eventId'' PNone],
      no_type = str_or_unknown env [dget_or payload ''resourceState'' PNone], no_payload = payload\<rparr>"

text \<open>\<open>str(x or "unknown")\<close> of a text.\<close>

definition text_or_unknown :: "pystr \<Rightarrow> pystr" where
  "text_or_unknown s = (if s = [] then lit ''unknown'' else s)"

definition payload_hash :: "webhook_env \<Rightarrow> (pystr, pyval) dict \<Rightarrow> pystr api" where
  "payload_hash env payload =
     (case utf8 (json_canonical (PDict payload)) of None \<Rightarrow> Inl OtherFault | Some b \<Rightarrow> Inr (we_sha_hex env b))"

definition build_internal_event :: "webhook_env \<Rightarrow> string \<Rightarrow> normalized \<Rightarrow> int \<Rightarrow> internal_event api" where
  "build_internal_event env source n workspace_id =
     api_bind (payload_hash env (no_payload n)) (\<lambda>h.
       Inr \<lparr>ie_source = lit source, ie_event = text_or_unknown (no_event_id n), ie_type = text_or_unknown (no_type n),
            ie_workspace = workspace_id, ie_hash = h, ie_payload = no_payload n\<rparr>)"

section \<open>Endpoints\<close>

definition hook_workspace :: "webhook_request \<Rightarrow> int" where
  "hook_workspace req = (case wr_workspace req of None \<Rightarrow> 1 | Some w \<Rightarrow> w)"

definition process_event ::
    "webhook_env \<Rightarrow> outcomes \<Rightarrow> internal_event api \<Rightarrow> webhook_db \<Rightarrow> webhook_db \<times> processing api" where
  "process_event env os event db =
     (case event of Inl f \<Rightarrow> (db, Inl f) | Inr e \<Rightarrow> process_with_retry (we_database env) os e db)"

definition jira_webhook :: "webhook_env \<Rightarrow> outcomes \<Rightarrow> webhook_request \<Rightarrow> webhook_db \<Rightarrow> webhook_db \<times> processing api" where
  "jira_webhook env os req db =
     (case verify_jira_signature env (wr_body req) (hook_header req ''x-atlassian-webhook-signature'') of
        Inl f \<Rightarrow> (db, Inl f)
      | Inr signature_ok \<Rightarrow>
          if \<not> (strip (we_jira_secret env) = [] \<or> signature_ok \<or> legacy_secret_ok (we_jira_secret env) req)
          then (db, Inl (HttpFault 401))
          else process_event env os
                 (build_internal_event env ''jira'' (normalize_jira_event env (wr_payload req)) (hook_workspace req)) db)"

text \<open>What is missing in the payload comes from the headers.\<close>

definition enrich :: "webhook_request \<Rightarrow> (pystr, pyval) dict" where
  "enrich req =
     fold (\<lambda>(key, name) d.
         if \<not> din (lit key) d \<and> header_or req name \<noteq> [] then dset (lit key) (PStr (header_or req name)) d else d)
       [(''resourceId'', ''x-goog-resource-id''), (''resourceState'', ''x-goog-resource-state''),
        (''eventId'', ''x-goog-message-number'')] (wr_payload req)"

definition google_event :: "webhook_env \<Rightarrow> webhook_request \<Rightarrow> normalized" where
  "google_event env req =
     (let n = normalize_google_event env (enrich req);
          number = header_or req ''x-goog-message-number'';
          state = header_or req ''x-goog-resource-state''
      in n\<lparr>no_event_id := (if number = [] then no_event_id n else number),
           no_type := (if state = [] then no_type n else lit ''google_calendar:'' @ state)\<rparr>)"

definition google_calendar_webhook ::
    "webhook_env \<Rightarrow> outcomes \<Rightarrow> webhook_request \<Rightarrow> webhook_db \<Rightarrow> webhook_db \<times> processing api" where
  "google_calendar_webhook env os req db =
     (if \<not> (verify_google_headers env req \<or> legacy_secret_ok (we_google_secret env) req) then (db, Inl (HttpFault 401))
      else process_event env os
             (build_internal_event env ''google_calendar'' (google_event env req) (hook_workspace req)) db)"

section \<open>Every event once\<close>

definition event_key :: "internal_event \<Rightarrow> pystr \<times> pystr" where
  "event_key e = (ie_source e, ie_event e)"

definition known_event :: "pystr \<times> pystr \<Rightarrow> webhook_db \<Rightarrow> bool" where
  "known_event k db \<longleftrightarrow> wd_events db k \<noteq> None"

lemma register_known: "known_event (event_key e) (fst (register_event e db))"
    "known_event k db \<Longrightarrow> known_event k (fst (register_event e db))"
    "snd (register_event e db) = Processed \<longleftrightarrow> \<not> known_event (event_key e) db"
  by (auto simp: register_event_def known_event_def event_key_def split: option.splits)

lemma register_known_same: "known_event (event_key e) db \<Longrightarrow> fst (register_event e db) = db"
  by (auto simp: register_event_def known_event_def event_key_def split: option.splits)

text \<open>Attempts of any deliveries in any order: between the attempts of one delivery the server handles others.\<close>

fun run_attempts :: "bool \<Rightarrow> (internal_event \<times> db_outcome) list \<Rightarrow> webhook_db \<Rightarrow> bool option list" where
  "run_attempts has_database [] db = []"
| "run_attempts has_database ((e, r) # as) db =
     snd (record_processed_event has_database r e db)
       # run_attempts has_database as (fst (record_processed_event has_database r e db))"

definition new_answers :: "pystr \<times> pystr \<Rightarrow> (internal_event \<times> db_outcome) list \<Rightarrow> bool option list \<Rightarrow> nat" where
  "new_answers k as rs = length (filter (\<lambda>((e, _), r). event_key e = k \<and> r = Some True) (zip as rs))"

lemma new_answers_Cons [simp]:
  "new_answers k (a # as) (r # rs) = (if event_key (fst a) = k \<and> r = Some True then 1 else 0) + new_answers k as rs"
  "new_answers k [] rs = 0"
  by (auto simp: new_answers_def split: prod.splits)

lemma attempt_known:
  "known_event k db \<Longrightarrow> known_event k (fst (record_processed_event b r e db))"
  by (cases r) (auto simp: record_processed_event_def register_known)

lemma attempt_new:
  "snd (record_processed_event True r e db) = Some True \<longleftrightarrow> r = DbCommits \<and> \<not> known_event (event_key e) db"
  by (cases r) (auto simp: record_processed_event_def register_known)

lemma attempt_new_known:
  "snd (record_processed_event True r e db) = Some True \<Longrightarrow> known_event (event_key e) (fst (record_processed_event True r e db))"
  by (cases r) (auto simp: record_processed_event_def register_known)

lemma known_no_new: "known_event k db \<Longrightarrow> new_answers k as (run_attempts True as db) = 0"
proof (induction as arbitrary: db)
  case (Cons a as)
  obtain e r where a: "a = (e, r)" by (cases a)
  with Cons attempt_known [OF Cons.prems] show ?case by (auto simp: attempt_new)
qed simp

lemma no_database_all_new:
  "new_answers k as (run_attempts False as db) = length (filter (\<lambda>a. event_key (fst a) = k) as)"
  by (induction as) (auto simp: record_processed_event_def)

text \<open>C18: With a database, however the attempts of all deliveries interleave and fail, at most one of them is told that an event
  is new. Without one, which is the default, nothing is remembered: every attempt is told so, and repeated deliveries are
  processed again.\<close>

theorem webhook_event_once:
  "if has_database then new_answers k as (run_attempts has_database as db) \<le> 1
   else new_answers k as (run_attempts has_database as db) = length (filter (\<lambda>a. event_key (fst a) = k) as)"
proof -
  have "new_answers k as (run_attempts True as db) \<le> 1"
  proof (induction as arbitrary: db)
    case (Cons a as)
    obtain e r where a: "a = (e, r)" by (cases a)
    show ?case
    proof (cases "event_key e = k \<and> snd (record_processed_event True r e db) = Some True")
      case True
      then have "known_event k (fst (record_processed_event True r e db))" using attempt_new_known by auto
      from known_no_new [OF this] True show ?thesis by (simp add: a)
    next
      case False
      with Cons.IH show ?thesis by (auto simp: a)
    qed
  qed simp
  then show ?thesis using no_database_all_new by (cases has_database) simp_all
qed

section \<open>Retries\<close>

lemma attempt_loop:
  "attempt_events True e n rs db = (db', Some p) \<Longrightarrow> known_event (event_key e) db'"
proof (induction rs arbitrary: n db)
  case (Cons r rs)
  then show ?case
    by (cases r) (auto simp: record_processed_event_def register_known split: prod.splits)
qed simp

lemma attempt_loop_known:
  "known_event (event_key e) db \<Longrightarrow> attempt_events True e n rs db = (db', p) \<Longrightarrow>
     db' = db \<and> (\<forall>q. p = Some q \<longrightarrow> \<not> pr_new q)"
proof (induction rs arbitrary: n)
  case (Cons r rs)
  then show ?case
    by (cases r) (auto simp: record_processed_event_def register_known register_known_same)
qed simp

lemma process_known:
  assumes "known_event (event_key e) db" "process_with_retry True os e db = (db', Inr p)"
  shows "db' = db \<and> \<not> pr_new p"
proof (cases "attempt_events True e 1 (map (ou_attempts os) [1..<MAX_WEBHOOK_RETRIES + 1]) db")
  case (Pair db1 q)
  with attempt_loop_known [OF assms(1) Pair] assms(2) show ?thesis
    by (auto simp: process_with_retry_def split: option.splits prod.splits)
qed

lemma process_known_failed:
  assumes "known_event (event_key e) db" "process_with_retry True os e db = (db', Inl f)"
  shows "wd_events db' = wd_events db"
proof (cases "attempt_events True e 1 (map (ou_attempts os) [1..<MAX_WEBHOOK_RETRIES + 1]) db")
  case (Pair db1 q)
  with attempt_loop_known [OF assms(1) Pair] assms(2) show ?thesis
    by (auto simp: process_with_retry_def record_dead_letter_def Let_def split: option.splits prod.splits if_splits)
qed

lemma process_makes_known:
  assumes "process_with_retry True os e db = (db', Inr p)"
  shows "known_event (event_key e) db'"
proof (cases "attempt_events True e 1 (map (ou_attempts os) [1..<MAX_WEBHOOK_RETRIES + 1]) db")
  case (Pair db1 q)
  with assms attempt_loop show ?thesis
    by (auto simp: process_with_retry_def split: option.splits prod.splits)
qed

text \<open>A database that stays down takes the dead letter with it, and the client gets another error than the one meant
  for it.\<close>

lemma dead_letter_lost:
  "process_with_retry True \<lparr>ou_attempts = (\<lambda>_. DbRaises), ou_dead = DbRaises\<rparr> e db = (db, Inl OtherFault)"
  by (simp add: process_with_retry_def MAX_WEBHOOK_RETRIES_def record_processed_event_def record_dead_letter_def
      upt_conv_Cons)

text \<open>An event that was registered although the answer was lost is called a duplicate.\<close>

lemma lost_answer_duplicate:
  "\<not> known_event (event_key e) db \<Longrightarrow>
     snd (process_with_retry True \<lparr>ou_attempts = (\<lambda>n. if n = 1 then DbAnswerLost else DbCommits), ou_dead = d\<rparr> e db)
       = Inr \<lparr>pr_new = False, pr_attempts = 2\<rparr>"
  by (simp add: process_with_retry_def MAX_WEBHOOK_RETRIES_def record_processed_event_def upt_conv_Cons register_known)

section \<open>Authenticity\<close>

text \<open>C19: With a secret, a delivery of Jira has an effect or an answer other than a refusal only with the keyed hash of
  its body or with the secret itself in a header.\<close>

theorem jira_webhook_authentic:
  assumes "strip (we_jira_secret env) \<noteq> []" and "jira_webhook env os req db = (db', r)"
    and "db' \<noteq> db \<or> (\<exists>p. r = Inr p)"
  shows "(\<exists>key. utf8 (strip (we_jira_secret env)) = Some key
       \<and> extract_signature_digest (hook_header req ''x-atlassian-webhook-signature'') = we_hmac_hex env key (wr_body req))
     \<or> hook_header req ''x-hook-secret'' = Some (strip (we_jira_secret env))"
proof (cases "verify_jira_signature env (wr_body req) (hook_header req ''x-atlassian-webhook-signature'')")
  case (Inl f)
  with assms show ?thesis by (auto simp: jira_webhook_def)
next
  case (Inr ok)
  show ?thesis
  proof (cases ok)
    case True
    with Inr assms(1) show ?thesis
      by (auto simp: verify_jira_signature_def Let_def split: if_splits option.splits)
  next
    case False
    with Inr assms show ?thesis
      by (auto simp: jira_webhook_def legacy_secret_ok_def split: if_splits)
  qed
qed

text \<open>A signature that is not ASCII is answered with an error of the server, even with the secret in the other header.\<close>

lemma other_signature_raises:
  assumes "strip (we_jira_secret env) \<noteq> []"
    and "hook_header req ''x-atlassian-webhook-signature'' = Some (lit [char_of (233 :: nat)])"
  shows "jira_webhook env os req db = (db, Inl OtherFault)"
proof -
  have "extract_signature_digest (Some (lit [char_of (233 :: nat)])) = lit [char_of (233 :: nat)]"
    by (simp add: extract_signature_digest_def strip_def lstrip_def rstrip_def lit_def lower_def lower_char_def)
  then have "verify_jira_signature env (wr_body req) (Some (lit [char_of (233 :: nat)])) = Inl OtherFault"
    using assms(1) by (auto simp: verify_jira_signature_def Let_def lit_def ascii_char_def split: option.split)
  with assms(2) show ?thesis by (simp add: jira_webhook_def)
qed

section \<open>Channels\<close>

lemma google_event_key:
  assumes "build_internal_event env ''google_calendar'' (google_event env req) w = Inr e"
    and "header_or req ''x-goog-message-number'' = n" "n \<noteq> []"
  shows "event_key e = (lit ''google_calendar'', n)"
  using assms
  by (auto simp: build_internal_event_def api_bind_Inr_iff google_event_def Let_def event_key_def text_or_unknown_def)

lemma google_processes:
  assumes "google_calendar_webhook env os req db = (db', Inr p)"
  obtains e where "build_internal_event env ''google_calendar'' (google_event env req) (hook_workspace req) = Inr e"
    "process_with_retry (we_database env) os e db = (db', Inr p)"
  using assms by (auto simp: google_calendar_webhook_def process_event_def split: if_splits sum.splits)

text \<open>C20: The messages of a channel are numbered from 1, and the number alone names the event. With a database, once a message
  of one channel was processed, the message of any other channel with its number is never taken as a new one, whatever it is
  about and whatever the database does then: it is reported as a duplicate, or an error, and nothing is registered for it.\<close>

theorem channels_share_numbers:
  assumes "we_database env" "n \<noteq> []"
    and "header_or req1 ''x-goog-message-number'' = n" "header_or req2 ''x-goog-message-number'' = n"
    and "google_calendar_webhook env os1 req1 db = (db1, Inr p1)"
    and "google_calendar_webhook env os2 req2 db1 = (db2, r)"
  shows "wd_events db2 = wd_events db1 \<and> (case r of Inr p2 \<Rightarrow> \<not> pr_new p2 \<and> db2 = db1 | Inl f \<Rightarrow> True)"
proof -
  obtain e1 where e1: "build_internal_event env ''google_calendar'' (google_event env req1) (hook_workspace req1) = Inr e1"
    "process_with_retry (we_database env) os1 e1 db = (db1, Inr p1)"
    using google_processes [OF assms(5)] .
  have known: "known_event (lit ''google_calendar'', n) db1"
    using process_makes_known [of os1 e1 db db1 p1] e1(2) assms(1) google_event_key [OF e1(1) assms(3,2)] by simp
  show ?thesis
  proof (cases "build_internal_event env ''google_calendar'' (google_event env req2) (hook_workspace req2)")
    case (Inl f)
    with assms(6) show ?thesis by (auto simp: google_calendar_webhook_def process_event_def split: if_splits)
  next
    case (Inr e2)
    have key: "known_event (event_key e2) db1" using known google_event_key [OF Inr assms(4,2)] by simp
    from assms(1,6) Inr have "(db2, r) = (db1, Inl (HttpFault 401)) \<or> process_with_retry True os2 e2 db1 = (db2, r)"
      by (auto simp: google_calendar_webhook_def process_event_def split: if_splits)
    then show ?thesis
      using process_known [OF key] process_known_failed [OF key] by (cases r) auto
  qed
qed

section \<open>Examples\<close>

definition toy_hooks :: webhook_env where
  "toy_hooks = \<lparr>we_hmac_hex = (\<lambda>k b. lit (k @ b)), we_sha_hex = lit, we_str = (\<lambda>_. []), we_jira_secret = lit ''s'',
     we_google_secret = [], we_database = True\<rparr>"

definition smooth :: outcomes where
  "smooth = \<lparr>ou_attempts = (\<lambda>_. DbCommits), ou_dead = DbCommits\<rparr>"

definition first_message :: "string \<Rightarrow> webhook_request" where
  "first_message channel = \<lparr>wr_body = [], wr_payload = [],
     wr_headers = [(lit ''x-goog-channel-id'', lit channel), (lit ''x-goog-resource-id'', lit channel),
       (lit ''x-goog-resource-state'', lit ''sync''), (lit ''x-goog-message-number'', lit ''1'')], wr_workspace = None\<rparr>"

definition no_events :: webhook_db where
  "no_events = \<lparr>wd_workspaces = [1], wd_events = (\<lambda>_. None), wd_dead = []\<rparr>"

lemma smooth_process:
  "process_with_retry True smooth e db
     = (fst (register_event e db), Inr \<lparr>pr_new = (snd (register_event e db) = Processed), pr_attempts = 1\<rparr>)"
  by (simp add: process_with_retry_def MAX_WEBHOOK_RETRIES_def record_processed_event_def smooth_def upt_conv_Cons)

lemma hash_of_texts: "floats_printable (PDict d) \<Longrightarrow> \<exists>h. payload_hash env d = Inr h"
  using printable_utf8 [OF json_canonical_printable] by (auto simp: payload_hash_def simp del: json_canonical.simps)

lemma first_message_processed:
  assumes "c = ''a'' \<or> c = ''b''"
  shows "\<exists>db' p. google_calendar_webhook toy_hooks smooth (first_message c) db = (db', Inr p)"
proof -
  have shape: "enrich (first_message c) = [(lit ''resourceId'', PStr (lit c)), (lit ''resourceState'', PStr (lit ''sync'')),
      (lit ''eventId'', PStr (lit ''1''))]"
    using assms by (auto simp: enrich_def first_message_def header_or_def hook_header_def din_def)
  have "floats_printable (PDict (enrich (first_message c)))" unfolding shape by simp
  then obtain h where "payload_hash toy_hooks (enrich (first_message c)) = Inr h" using hash_of_texts by blast
  then obtain e where "build_internal_event toy_hooks ''google_calendar'' (google_event toy_hooks (first_message c)) 1 = Inr e"
    by (simp add: build_internal_event_def google_event_def Let_def normalize_google_event_def)
  moreover have "strip (lit c) \<noteq> []" "strip (lit ''sync'') \<noteq> []" "strip (lit ''1'') \<noteq> []" "strip [] = []"
    using assms by (auto simp: strip_def lstrip_def rstrip_def lit_def)
  ultimately show ?thesis
    by (simp add: google_calendar_webhook_def verify_google_headers_def header_or_def hook_header_def process_event_def
        hook_workspace_def smooth_process) (simp add: first_message_def toy_hooks_def smooth_process)
qed

lemma first_number: "header_or (first_message c) ''x-goog-message-number'' = lit ''1''"
  by (simp add: header_or_def hook_header_def first_message_def)

lemma channels_share_numbers_witness:
  "\<exists>db1 p1 p2. google_calendar_webhook toy_hooks smooth (first_message ''a'') no_events = (db1, Inr p1)
     \<and> google_calendar_webhook toy_hooks smooth (first_message ''b'') db1 = (db1, Inr p2) \<and> \<not> pr_new p2"
proof -
  obtain db1 p1 where one: "google_calendar_webhook toy_hooks smooth (first_message ''a'') no_events = (db1, Inr p1)"
    using first_message_processed by blast
  obtain db2 p2 where two: "google_calendar_webhook toy_hooks smooth (first_message ''b'') db1 = (db2, Inr p2)"
    using first_message_processed by blast
  have "we_database toy_hooks" "lit ''1'' \<noteq> []" by (simp_all add: toy_hooks_def)
  from channels_share_numbers [OF this first_number first_number one two] one two show ?thesis by auto
qed

definition signed_hook :: webhook_request where
  "signed_hook = \<lparr>wr_body = ''b'', wr_payload = [], wr_headers = [(lit ''x-atlassian-webhook-signature'', lit ''sha256=sb'')],
     wr_workspace = None\<rparr>"

lemma signed_hook_processed: "\<exists>db' p. jira_webhook toy_hooks smooth signed_hook no_events = (db', Inr p)"
proof -
  have "strip (lit ''s'') = lit ''s''" "utf8 (lit ''s'') = Some ''s''"
    "extract_signature_digest (Some (lit ''sha256=sb'')) = lit ''sb''"
    using utf8_ascii [of "''s''"]
    by (simp_all add: strip_def lstrip_def rstrip_def lit_def extract_signature_digest_def Let_def lower_def lower_char_def)
  then have "verify_jira_signature toy_hooks ''b'' (Some (lit ''sha256=sb'')) = Inr True"
    by (simp add: verify_jira_signature_def toy_hooks_def Let_def) (simp add: lit_def ascii_char_def)
  moreover obtain h where "payload_hash toy_hooks [] = Inr h"
    using hash_of_texts [of "[]" toy_hooks] by auto
  ultimately show ?thesis
    by (simp add: jira_webhook_def signed_hook_def hook_header_def process_event_def build_internal_event_def
        normalize_jira_event_def hook_workspace_def) (simp add: toy_hooks_def smooth_process)
qed

lemma jira_webhook_authentic_witness:
  "(\<exists>key. utf8 (strip (we_jira_secret toy_hooks)) = Some key
       \<and> extract_signature_digest (hook_header signed_hook ''x-atlassian-webhook-signature'')
           = we_hmac_hex toy_hooks key (wr_body signed_hook))
     \<or> hook_header signed_hook ''x-hook-secret'' = Some (strip (we_jira_secret toy_hooks))"
proof -
  obtain db' p where run: "jira_webhook toy_hooks smooth signed_hook no_events = (db', Inr p)"
    using signed_hook_processed by blast
  have "strip (we_jira_secret toy_hooks) \<noteq> []" by (simp add: toy_hooks_def strip_def lstrip_def rstrip_def lit_def)
  from jira_webhook_authentic [OF this run] show ?thesis by blast
qed

end
