(* ===== verification/PyDates.thy ===== *)
theory PyDates
  imports Json
begin

text \<open>
  Dates and times of the synchronisation of integrations, as the \<open>datetime\<close> module has them: a date of the proleptic
  calendar from year 1 to 9999, the days before and after, the text of \<open>isoformat\<close>, and the comparison of times, which
  raises when only one of them knows its offset. Reading a text is a parameter of the theories that do it.
\<close>

record date =
  da_year :: int
  da_month :: int
  da_day :: int

definition leap_year :: "int \<Rightarrow> bool" where
  "leap_year y \<longleftrightarrow> y mod 4 = 0 \<and> (y mod 100 \<noteq> 0 \<or> y mod 400 = 0)"

definition days_in_month :: "int \<Rightarrow> int \<Rightarrow> int" where
  "days_in_month y m =
     (if m = 2 then (if leap_year y then 29 else 28) else if m = 4 \<or> m = 6 \<or> m = 9 \<or> m = 11 then 30 else 31)"

definition valid_date :: "date \<Rightarrow> bool" where
  "valid_date d \<longleftrightarrow> 1 \<le> da_year d \<and> da_year d \<le> 9999 \<and> 1 \<le> da_month d \<and> da_month d \<le> 12
     \<and> 1 \<le> da_day d \<and> da_day d \<le> days_in_month (da_year d) (da_month d)"

text \<open>\<open>d + timedelta(days=1)\<close> and \<open>d - timedelta(days=1)\<close>.\<close>

definition next_day :: "date \<Rightarrow> date result" where
  "next_day d =
     (if da_day d < days_in_month (da_year d) (da_month d) then Inr (d\<lparr>da_day := da_day d + 1\<rparr>)
      else if da_month d < 12 then Inr (d\<lparr>da_month := da_month d + 1, da_day := 1\<rparr>)
      else if da_year d < 9999 then Inr (d\<lparr>da_year := da_year d + 1, da_month := 1, da_day := 1\<rparr>)
      else Inl OverflowError)"

definition prev_day :: "date \<Rightarrow> date result" where
  "prev_day d =
     (if 1 < da_day d then Inr (d\<lparr>da_day := da_day d - 1\<rparr>)
      else if 1 < da_month d
        then Inr (d\<lparr>da_month := da_month d - 1, da_day := days_in_month (da_year d) (da_month d - 1)\<rparr>)
      else if 1 < da_year d then Inr (d\<lparr>da_year := da_year d - 1, da_month := 12, da_day := 31\<rparr>)
      else Inl OverflowError)"

text \<open>The number of the day, for comparisons across offsets.\<close>

definition days_before_month :: "int \<Rightarrow> int \<Rightarrow> int" where
  "days_before_month y m = sum_list (map (days_in_month y) [1..m - 1])"

definition day_number :: "date \<Rightarrow> int" where
  "day_number d =
     (let y = da_year d - 1
      in 365 * y + y div 4 - y div 100 + y div 400 + days_before_month (da_year d) (da_month d) + da_day d - 1)"

lemma days_in_month_bounds: "28 \<le> days_in_month y m" "days_in_month y m \<le> 31"
  by (simp_all add: days_in_month_def)

lemma december: "days_in_month y 12 = 31"
  by (simp add: days_in_month_def)

lemma next_day_cases:
  assumes "valid_date d"
  obtains (day) "da_day d < days_in_month (da_year d) (da_month d)" "next_day d = Inr (d\<lparr>da_day := da_day d + 1\<rparr>)"
  | (month) "da_day d = days_in_month (da_year d) (da_month d)" "da_month d < 12"
      "next_day d = Inr (d\<lparr>da_month := da_month d + 1, da_day := 1\<rparr>)"
  | (year) "da_day d = 31" "da_month d = 12" "da_year d < 9999"
      "next_day d = Inr (d\<lparr>da_year := da_year d + 1, da_month := 1, da_day := 1\<rparr>)"
  | (none) "da_day d = 31" "da_month d = 12" "da_year d = 9999" "next_day d = Inl OverflowError"
proof -
  have last: "da_day d = days_in_month (da_year d) (da_month d)" if "\<not> da_day d < days_in_month (da_year d) (da_month d)"
    using assms that by (simp add: valid_date_def)
  have m: "da_month d = 12" if "\<not> da_month d < 12" using assms that by (simp add: valid_date_def)
  have y: "da_year d = 9999" if "\<not> da_year d < 9999" using assms that by (simp add: valid_date_def)
  show ?thesis
  proof (cases "da_day d < days_in_month (da_year d) (da_month d)")
    case True
    then show ?thesis by (intro day) (simp_all add: next_day_def)
  next
    case day31: False
    show ?thesis
    proof (cases "da_month d < 12")
      case True
      with day31 last show ?thesis by (intro month) (simp_all add: next_day_def)
    next
      case False
      with last [OF day31] m [OF False] have d: "da_day d = 31" "da_month d = 12" by (simp_all add: december)
      show ?thesis
      proof (cases "da_year d < 9999")
        case True
        with d show ?thesis by (intro year) (simp_all add: next_day_def december)
      next
        case False
        with d y show ?thesis by (intro none) (simp_all add: next_day_def december)
      qed
    qed
  qed
qed

lemma next_day_valid:
  assumes "valid_date d" "next_day d = Inr e"
  shows "valid_date e"
  using assms(1)
proof (cases rule: next_day_cases)
  case month
  with assms days_in_month_bounds(1) [of "da_year d" "da_month d + 1"] show ?thesis by (auto simp: valid_date_def)
next
  case year
  with assms days_in_month_bounds(1) [of "da_year d + 1" 1] show ?thesis by (auto simp: valid_date_def)
qed (use assms in \<open>auto simp: valid_date_def\<close>)

lemma prev_next:
  assumes "valid_date d" "next_day d = Inr e"
  shows "prev_day e = Inr d"
  using assms(1) by (cases rule: next_day_cases) (use assms in \<open>auto simp: valid_date_def prev_day_def\<close>)

lemma next_day_overflow:
  assumes "valid_date d" "next_day d = Inl e"
  shows "e = OverflowError \<and> d = \<lparr>da_year = 9999, da_month = 12, da_day = 31\<rparr>"
  using assms(1) by (cases rule: next_day_cases) (use assms(2) in \<open>auto intro: date.equality\<close>)

section \<open>Texts\<close>

definition padded_int :: "nat \<Rightarrow> int \<Rightarrow> pystr" where
  "padded_int width n = (let t = str_of_int n in replicate (width - length t) (Ch (CHR ''0'')) @ t)"

definition date_text :: "date \<Rightarrow> pystr" where
  "date_text d = padded_int 4 (da_year d) @ lit ''-'' @ padded_int 2 (da_month d) @ lit ''-'' @ padded_int 2 (da_day d)"

lemma strip_spaceless: "list_all (\<lambda>x. \<not> is_space x) s \<Longrightarrow> strip s = s"
proof -
  assume plain: "list_all (\<lambda>x. \<not> is_space x) s"
  have "dropWhile is_space t = t" if "set t \<subseteq> set s" for t
    using that plain by (cases t) (auto simp: list_all_iff)
  then show ?thesis by (simp add: strip_def rstrip_def lstrip_def)
qed

lemma digit_no_space: "n < 10 \<Longrightarrow> \<not> is_space (Ch (char_of (48 + n :: nat)))"
  by simp

lemma nat_digits_spaceless: "list_all (\<lambda>x. \<not> is_space x) (nat_digits n)"
proof (induction n rule: nat_digits.induct)
  case (1 n)
  then show ?case by (subst nat_digits.simps) (simp del: nat_digits.simps is_space.simps add: digit_no_space)
qed

lemma padded_int_spaceless: "list_all (\<lambda>x. \<not> is_space x) (padded_int w n)"
  by (auto simp: padded_int_def str_of_int_def nat_digits_spaceless list_all_iff [of _ "replicate _ _"] lit_def Let_def
      simp del: nat_digits.simps)

lemma strip_date_text: "strip (date_text d) = date_text d" "date_text d \<noteq> []"
  by (rule strip_spaceless) (simp_all add: date_text_def padded_int_spaceless lit_def)

section \<open>Times\<close>

record date_time =
  dt_date :: date
  dt_micros :: int \<comment> \<open>of the day\<close>
  dt_offset :: "int option" \<comment> \<open>in microseconds\<close>

definition clock_text :: "int \<Rightarrow> pystr" where
  "clock_text us =
     (let s = us div 1000000
      in padded_int 2 (s div 3600) @ lit '':'' @ padded_int 2 (s div 60 mod 60) @ lit '':'' @ padded_int 2 (s mod 60)
         @ (if us mod 1000000 = 0 then [] else lit ''.'' @ padded_int 6 (us mod 1000000)))"

definition offset_text :: "int \<Rightarrow> pystr" where
  "offset_text off =
     (let us = \<bar>off\<bar>; s = us div 1000000
      in (if off < 0 then lit ''-'' else lit ''+'') @ padded_int 2 (s div 3600) @ lit '':'' @ padded_int 2 (s div 60 mod 60)
         @ (if us mod 60000000 = 0 then []
            else lit '':'' @ padded_int 2 (s mod 60)
              @ (if us mod 1000000 = 0 then [] else lit ''.'' @ padded_int 6 (us mod 1000000))))"

definition time_text :: "date_time \<Rightarrow> pystr" where
  "time_text t = date_text (dt_date t) @ lit ''T'' @ clock_text (dt_micros t)
     @ (case dt_offset t of None \<Rightarrow> [] | Some off \<Rightarrow> offset_text off)"

definition local_micros :: "date_time \<Rightarrow> int" where
  "local_micros t = day_number (dt_date t) * 86400000000 + dt_micros t"

text \<open>\<open>s >= t\<close>.\<close>

definition not_before :: "date_time \<Rightarrow> date_time \<Rightarrow> bool result" where
  "not_before s t =
     (case (dt_offset s, dt_offset t) of
        (None, None) \<Rightarrow> Inr (local_micros t \<le> local_micros s)
      | (Some a, Some b) \<Rightarrow> Inr (local_micros t - b \<le> local_micros s - a)
      | _ \<Rightarrow> Inl TypeError)"

text \<open>\<open>t + timedelta(hours=1)\<close>.\<close>

definition add_hour :: "date_time \<Rightarrow> date_time result" where
  "add_hour t =
     (if dt_micros t + 3600000000 < 86400000000 then Inr (t\<lparr>dt_micros := dt_micros t + 3600000000\<rparr>)
      else rbind (next_day (dt_date t)) (\<lambda>d. Inr (t\<lparr>dt_date := d, dt_micros := dt_micros t + 3600000000 - 86400000000\<rparr>)))"

end
