(* ===== verification/SyncConflicts.thy ===== *)
theory SyncConflicts
  imports PyDates JsonCanonical
begin

text \<open>
  \<open>integrations/sync_conflicts.py\<close>: the fields of an issue and of an event are compared and conflicts are resolved by a
  policy; the open ones are written to the table of conflicts, each in a transaction of its own. Equality of JSON
  values and the reading of a time are parameters.
\<close>

datatype policy = Manual | LastWriteWins | SourceOfTruth

datatype conflict_status = Open | Resolved

record conflict =
  cf_field :: pystr
  cf_source :: pyval
  cf_target :: pyval
  cf_status :: conflict_status
  cf_selected :: pyval

record sync_env =
  se_eq :: "pyval \<Rightarrow> pyval \<Rightarrow> bool"
  se_fromiso :: "pystr \<Rightarrow> date_time option" \<comment> \<open>\<open>datetime.fromisoformat\<close>, \<open>None\<close> for \<open>ValueError\<close>\<close>

definition parse_sync_time :: "sync_env \<Rightarrow> pystr option \<Rightarrow> date_time option" where
  "parse_sync_time env value =
     (case value of
        None \<Rightarrow> None
      | Some v \<Rightarrow>
          (let candidate = strip v
           in if candidate = [] then None
              else se_fromiso env (if last candidate = Ch (CHR ''Z'') then butlast candidate @ lit ''+00:00'' else candidate)))"

definition resolve_field_value ::
    "policy \<Rightarrow> (pystr, pystr) dict \<Rightarrow> date_time option \<Rightarrow> date_time option \<Rightarrow> pystr \<Rightarrow> pyval \<Rightarrow> pyval
      \<Rightarrow> (pyval \<times> conflict_status) result" where
  "resolve_field_value policy owner_map source_at target_at field source_value target_value =
     (case policy of
        SourceOfTruth \<Rightarrow>
          (let owner = lower (strip (case dget owner_map field of
                 Some v \<Rightarrow> if v = [] then lit ''source'' else v | None \<Rightarrow> lit ''source''))
           in Inr (if owner = lit ''target'' then target_value else source_value, Resolved))
      | LastWriteWins \<Rightarrow>
          (case (source_at, target_at) of
             (Some s, Some t) \<Rightarrow>
               rbind (not_before s t) (\<lambda>later. Inr (if later then source_value else target_value, Resolved))
           | _ \<Rightarrow> Inr (source_value, Resolved))
      | Manual \<Rightarrow> Inr (target_value, Open))"

definition field_of :: "(pystr, pyval) dict \<Rightarrow> pystr \<Rightarrow> pyval" where
  "field_of d k = (case dget d k of None \<Rightarrow> PNone | Some v \<Rightarrow> v)"

text \<open>\<open>sorted(set(source_fields) | set(target_fields))\<close>.\<close>

definition all_fields :: "(pystr, pyval) dict \<Rightarrow> (pystr, pyval) dict \<Rightarrow> pystr list" where
  "all_fields source_fields target_fields = sort (remdups (dkeys source_fields @ dkeys target_fields))"

text \<open>One field: its value, and the conflict if there is one.\<close>

definition resolve_field ::
    "sync_env \<Rightarrow> (pystr \<Rightarrow> pyval \<Rightarrow> pyval \<Rightarrow> (pyval \<times> conflict_status) result) \<Rightarrow> pystr \<Rightarrow> pyval \<Rightarrow> pyval
      \<Rightarrow> (pyval \<times> conflict option) result" where
  "resolve_field env resolve field s t =
     (if s \<noteq> PNone \<and> t = PNone then Inr (s, None)
      else if t \<noteq> PNone \<and> s = PNone then Inr (t, None)
      else if se_eq env s t then Inr (s, None)
      else rbind (resolve field s t) (\<lambda>(selected, status).
        Inr (selected, Some \<lparr>cf_field = field, cf_source = s, cf_target = t, cf_status = status, cf_selected = selected\<rparr>)))"

record resolution =
  rs_fields :: "(pystr, pyval) dict"
  rs_conflicts :: "conflict list"
  rs_unresolved :: bool

fun resolve_fields ::
    "(pystr \<Rightarrow> (pyval \<times> conflict option) result) \<Rightarrow> pystr list \<Rightarrow> ((pystr, pyval) dict \<times> conflict list) result" where
  "resolve_fields f [] = Inr ([], [])"
| "resolve_fields f (k # ks) =
     rbind (f k) (\<lambda>(v, c). rbind (resolve_fields f ks) (\<lambda>(d, cs).
       Inr ((k, v) # d, (case c of None \<Rightarrow> cs | Some x \<Rightarrow> x # cs))))"

definition open_conflicts :: "conflict list \<Rightarrow> conflict list" where
  "open_conflicts cs = filter (\<lambda>c. cf_status c = Open) cs"

record sync_request =
  sr_policy :: policy
  sr_owners :: "(pystr, pystr) dict"
  sr_source :: "(pystr, pyval) dict"
  sr_target :: "(pystr, pyval) dict"
  sr_source_at :: "pystr option"
  sr_target_at :: "pystr option"

definition detect_and_resolve :: "sync_env \<Rightarrow> sync_request \<Rightarrow> resolution result" where
  "detect_and_resolve env rq =
     rbind (resolve_fields
         (\<lambda>k. resolve_field env
            (resolve_field_value (sr_policy rq) (sr_owners rq) (parse_sync_time env (sr_source_at rq))
               (parse_sync_time env (sr_target_at rq)))
            k (field_of (sr_source rq) k) (field_of (sr_target rq) k))
         (all_fields (sr_source rq) (sr_target rq)))
       (\<lambda>(d, cs). Inr \<lparr>rs_fields = d, rs_conflicts = cs, rs_unresolved = (open_conflicts cs \<noteq> [])\<rparr>)"

text \<open>Writing the open conflicts: each insertion commits, up to the first that fails.\<close>

fun persist_conflicts :: "(nat \<Rightarrow> bool) \<Rightarrow> nat \<Rightarrow> conflict list \<Rightarrow> conflict list \<Rightarrow> conflict list \<times> bool" where
  "persist_conflicts works n [] rows = (rows, True)"
| "persist_conflicts works n (c # cs) rows =
     (if works n then persist_conflicts works (n + 1) cs (rows @ [c]) else (rows, False))"

datatype sync_fault = Raised py_error | DatabaseRaised

definition sync_fields ::
    "sync_env \<Rightarrow> bool \<Rightarrow> bool \<Rightarrow> (nat \<Rightarrow> bool) \<Rightarrow> sync_request \<Rightarrow> conflict list \<Rightarrow> conflict list \<times> (sync_fault + resolution)" where
  "sync_fields env has_database persist works rq rows =
     (case detect_and_resolve env rq of
        Inl e \<Rightarrow> (rows, Inl (Raised e))
      | Inr res \<Rightarrow>
          if \<not> persist \<or> \<not> rs_unresolved res \<or> \<not> has_database then (rows, Inr res)
          else (case persist_conflicts works 0 (open_conflicts (rs_conflicts res)) rows of
                  (rows', True) \<Rightarrow> (rows', Inr res)
                | (rows', False) \<Rightarrow> (rows', Inl DatabaseRaised)))"

section \<open>What a resolution is\<close>

lemma resolve_fields_keys: "resolve_fields f ks = Inr (d, cs) \<Longrightarrow> dkeys d = ks"
  by (induction ks arbitrary: d cs) (auto simp: rbind_Inr_iff)

lemma resolve_fields_values:
  "resolve_fields f ks = Inr (d, cs) \<Longrightarrow> (k, v) \<in> set d \<Longrightarrow> \<exists>c. f k = Inr (v, c)"
  by (induction ks arbitrary: d cs) (auto simp: rbind_Inr_iff)

lemma resolve_fields_conflicts:
  "resolve_fields f ks = Inr (d, cs) \<Longrightarrow> c \<in> set cs \<longleftrightarrow> (\<exists>k \<in> set ks. \<exists>v. f k = Inr (v, Some c))"
  by (induction ks arbitrary: d cs) (auto simp: rbind_Inr_iff split: option.splits)

lemma resolved_status:
  "resolve_field_value pol owners sa ta k s t = Inr (v, st) \<Longrightarrow>
     v \<in> {s, t} \<and> (st = Open \<longleftrightarrow> pol = Manual) \<and> (pol = Manual \<longrightarrow> v = t)"
  by (auto simp: resolve_field_value_def rbind_Inr_iff Let_def split: policy.splits option.splits)

lemma resolve_field_cases:
  assumes "resolve_field env (resolve_field_value pol owners sa ta) k s t = Inr (v, c)"
  shows "v \<in> {s, t} \<and> (v = PNone \<longrightarrow> s = PNone \<and> t = PNone)
    \<and> (\<forall>x. c = Some x \<longrightarrow> (cf_status x = Open \<longleftrightarrow> pol = Manual))"
proof (cases "s \<noteq> PNone \<and> t = PNone \<or> t \<noteq> PNone \<and> s = PNone \<or> se_eq env s t")
  case True
  with assms show ?thesis by (auto simp: resolve_field_def split: if_splits)
next
  case False
  with assms obtain st where "resolve_field_value pol owners sa ta k s t = Inr (v, st)"
    and c: "c = Some \<lparr>cf_field = k, cf_source = s, cf_target = t, cf_status = st, cf_selected = v\<rparr>"
    by (auto simp: resolve_field_def rbind_Inr_iff)
  with resolved_status [OF this(1)] False show ?thesis by auto
qed

lemma detect_fields:
  assumes "detect_and_resolve env rq = Inr res"
  shows "resolve_fields
         (\<lambda>k. resolve_field env
            (resolve_field_value (sr_policy rq) (sr_owners rq) (parse_sync_time env (sr_source_at rq))
               (parse_sync_time env (sr_target_at rq)))
            k (field_of (sr_source rq) k) (field_of (sr_target rq) k))
         (all_fields (sr_source rq) (sr_target rq)) = Inr (rs_fields res, rs_conflicts res)"
    and "rs_unresolved res \<longleftrightarrow> open_conflicts (rs_conflicts res) \<noteq> []"
  using assms by (auto simp: detect_and_resolve_def rbind_Inr_iff)

lemma resolved_fields:
  assumes "detect_and_resolve env rq = Inr res"
  shows "dkeys (rs_fields res) = all_fields (sr_source rq) (sr_target rq)"
    and "(k, v) \<in> set (rs_fields res) \<Longrightarrow> v \<in> {field_of (sr_source rq) k, field_of (sr_target rq) k}
      \<and> (v = PNone \<longrightarrow> field_of (sr_source rq) k = PNone \<and> field_of (sr_target rq) k = PNone)"
  using resolve_fields_keys [OF detect_fields(1) [OF assms]]
    resolve_fields_values [OF detect_fields(1) [OF assms]] resolve_field_cases by fast+

text \<open>C22: A resolution names every field of either side once, in order, gives each the value of one of the sides, and
  loses no value; it is unresolved exactly when the policy is the manual one and there is a conflict.\<close>

theorem resolution_complete:
  assumes "detect_and_resolve env rq = Inr res"
  shows "sorted (dkeys (rs_fields res)) \<and> distinct (dkeys (rs_fields res))
    \<and> set (dkeys (rs_fields res)) = set (dkeys (sr_source rq)) \<union> set (dkeys (sr_target rq))
    \<and> (\<forall>(k, v) \<in> set (rs_fields res). v \<in> {field_of (sr_source rq) k, field_of (sr_target rq) k}
        \<and> (v = PNone \<longrightarrow> field_of (sr_source rq) k = PNone \<and> field_of (sr_target rq) k = PNone))
    \<and> (rs_unresolved res \<longleftrightarrow> sr_policy rq = Manual \<and> rs_conflicts res \<noteq> [])"
proof -
  have "(cf_status c = Open \<longleftrightarrow> sr_policy rq = Manual)" if "c \<in> set (rs_conflicts res)" for c
    using that resolve_fields_conflicts [OF detect_fields(1) [OF assms]] resolve_field_cases by fast
  then have "rs_unresolved res \<longleftrightarrow> sr_policy rq = Manual \<and> rs_conflicts res \<noteq> []"
    unfolding detect_fields(2) [OF assms] open_conflicts_def filter_empty_conv by (cases "rs_conflicts res") auto
  with resolved_fields [OF assms] show ?thesis
    by (auto simp: all_fields_def distinct_remdups)
qed

lemma sorted_own: "sorted ks \<Longrightarrow> distinct ks \<Longrightarrow> sort (remdups (ks @ ks)) = (ks :: pystr list)"
  by (rule sorted_distinct_set_unique) auto

lemma resolve_fields_plain:
  "(\<And>k. k \<in> set ks \<Longrightarrow> f k = Inr (g k, None)) \<Longrightarrow> resolve_fields f ks = Inr (map (\<lambda>k. (k, g k)) ks, [])"
  by (induction ks) auto

lemma map_field_of: "distinct (dkeys d) \<Longrightarrow> map (\<lambda>k. (k, field_of d k)) (dkeys d) = d"
  by (auto simp: comp_def field_of_def intro!: map_idI)

text \<open>What was resolved is settled: when both sides have the resolved values, the same request finds no conflict
  and leaves them as they are.\<close>

theorem resolution_settles:
  assumes "detect_and_resolve env rq = Inr res"
    and "\<And>k v. (k, v) \<in> set (rs_fields res) \<Longrightarrow> se_eq env v v"
  shows "detect_and_resolve env (rq\<lparr>sr_source := rs_fields res, sr_target := rs_fields res\<rparr>)
    = Inr \<lparr>rs_fields = rs_fields res, rs_conflicts = [], rs_unresolved = False\<rparr>"
proof -
  have keys: "sorted (dkeys (rs_fields res))" "distinct (dkeys (rs_fields res))"
    using resolved_fields(1) [OF assms(1)] by (simp_all add: all_fields_def)
  have "resolve_field env r k (field_of (rs_fields res) k) (field_of (rs_fields res) k)
      = Inr (field_of (rs_fields res) k, None)" if k: "k \<in> set (dkeys (rs_fields res))" for k r
  proof -
    obtain v where "(k, v) \<in> set (rs_fields res)" using k by auto
    with keys(2) have "field_of (rs_fields res) k = v" by (simp add: field_of_def)
    with assms(2) [OF \<open>(k, v) \<in> set (rs_fields res)\<close>] show ?thesis by (auto simp: resolve_field_def)
  qed
  then have "resolve_fields (\<lambda>k. resolve_field env r k (field_of (rs_fields res) k) (field_of (rs_fields res) k))
      (dkeys (rs_fields res)) = Inr (map (\<lambda>k. (k, field_of (rs_fields res) k)) (dkeys (rs_fields res)), [])" for r
    by (intro resolve_fields_plain)
  moreover have "all_fields (rs_fields res) (rs_fields res) = dkeys (rs_fields res)"
    unfolding all_fields_def by (rule sorted_own [OF keys])
  ultimately show ?thesis
    by (simp add: detect_and_resolve_def map_field_of [OF keys(2)] open_conflicts_def del: map_map)
qed

section \<open>Times that cannot be compared\<close>

lemma resolve_fields_raises:
  assumes "k \<in> set ks" "f k = Inl e" and "\<And>k' e'. f k' = Inl e' \<Longrightarrow> e' = e"
  shows "resolve_fields f ks = Inl e"
  using assms(1)
proof (induction ks)
  case (Cons x ks)
  show ?case
  proof (cases "f x")
    case (Inl e')
    with assms(3) show ?thesis by simp
  next
    case (Inr p)
    with Cons assms(2) have "k \<in> set ks" by auto
    with Cons.IH Inr show ?thesis by (cases p) simp
  qed
qed simp

text \<open>With the last write winning, a time with an offset and one without cannot be compared, and the first conflict
  ends the whole request.\<close>

lemma mixed_times_raise:
  assumes "sr_policy rq = LastWriteWins"
    and "parse_sync_time env (sr_source_at rq) = Some s" "parse_sync_time env (sr_target_at rq) = Some t"
    and "dt_offset s = None" "dt_offset t = Some off"
    and "k \<in> set (all_fields (sr_source rq) (sr_target rq))"
    and "field_of (sr_source rq) k \<noteq> PNone" "field_of (sr_target rq) k \<noteq> PNone"
    and "\<not> se_eq env (field_of (sr_source rq) k) (field_of (sr_target rq) k)"
  shows "sync_fields env has_database persist works rq rows = (rows, Inl (Raised TypeError))"
proof -
  have "resolve_fields
         (\<lambda>k. resolve_field env
            (resolve_field_value (sr_policy rq) (sr_owners rq) (parse_sync_time env (sr_source_at rq))
               (parse_sync_time env (sr_target_at rq)))
            k (field_of (sr_source rq) k) (field_of (sr_target rq) k))
         (all_fields (sr_source rq) (sr_target rq)) = Inl TypeError"
  proof (rule resolve_fields_raises [OF assms(6)], goal_cases)
    case 1
    show ?case using assms by (simp add: resolve_field_def resolve_field_value_def not_before_def)
  next
    case (2 k' e')
    then show ?case using assms(1-5)
      by (auto simp: resolve_field_def resolve_field_value_def not_before_def split: if_splits)
  qed
  then show ?thesis by (simp add: sync_fields_def detect_and_resolve_def)
qed

section \<open>The status of the synchronisation\<close>

text \<open>\<open>api/v1/routers/sync.py\<close>: what a dashboard shows of a workspace.\<close>

record conflict_row =
  cw_workspace :: int
  cw_id :: int
  cw_open :: bool
  cw_created :: int

datatype sync_health = Idle | Degraded | Healthy

record sync_status =
  ss_health :: sync_health
  ss_policies :: nat
  ss_enabled :: nat
  ss_open :: nat
  ss_resolved :: nat
  ss_last :: "int option"
  ss_recent :: "conflict_row list"

definition get_sync_status :: "int \<Rightarrow> int \<Rightarrow> (int \<times> bool) list \<Rightarrow> conflict_row list \<Rightarrow> sync_status" where
  "get_sync_status workspace_id recent_limit policies conflicts =
     (let limit = max 1 (min recent_limit 50);
          own_policies = filter (\<lambda>(w, _). w = workspace_id) policies;
          enabled = length (filter snd own_policies);
          own = filter (\<lambda>c. cw_workspace c = workspace_id) conflicts;
          n_open = length (filter cw_open own)
      in \<lparr>ss_health = (if enabled = 0 then Idle else if 0 < n_open then Degraded else Healthy),
          ss_policies = length own_policies, ss_enabled = enabled, ss_open = n_open,
          ss_resolved = length (filter (\<lambda>c. \<not> cw_open c) own),
          ss_last = (if own = [] then None else Some (foldl max (cw_created (hd own)) (map cw_created (tl own)))),
          ss_recent = take (nat limit) (sort_key (\<lambda>c. - cw_created c) own)\<rparr>)"

lemma sync_status_own:
  "length (ss_recent (get_sync_status w limit policies conflicts)) \<le> 50
   \<and> (\<forall>c \<in> set (ss_recent (get_sync_status w limit policies conflicts)). c \<in> set conflicts \<and> cw_workspace c = w)"
  by (auto simp: get_sync_status_def Let_def dest!: in_set_takeD)

lemma sync_status_counts:
  "ss_open (get_sync_status w limit policies conflicts) + ss_resolved (get_sync_status w limit policies conflicts)
     = length (filter (\<lambda>c. cw_workspace c = w) conflicts)"
proof -
  have "length (filter (\<lambda>c. cw_open c) own) + length (filter (\<lambda>c. \<not> cw_open c) own) = length own" for own
    by (rule sum_length_filter_compl)
  then show ?thesis by (simp add: get_sync_status_def Let_def del: filter_filter)
qed

section \<open>Examples\<close>

definition plain_sync :: sync_env where
  "plain_sync = \<lparr>se_eq = (\<lambda>x y. x = y), se_fromiso = (\<lambda>_. None)\<rparr>"

definition two_titles :: sync_request where
  "two_titles = \<lparr>sr_policy = Manual, sr_owners = [], sr_source = [(lit ''summary'', PStr (lit ''a''))],
     sr_target = [(lit ''summary'', PStr (lit ''b''))], sr_source_at = None, sr_target_at = None\<rparr>"

definition titles_resolution :: resolution where
  "titles_resolution = \<lparr>rs_fields = [(lit ''summary'', PStr (lit ''b''))],
     rs_conflicts = [\<lparr>cf_field = lit ''summary'', cf_source = PStr (lit ''a''), cf_target = PStr (lit ''b''),
        cf_status = Open, cf_selected = PStr (lit ''b'')\<rparr>], rs_unresolved = True\<rparr>"

lemma two_titles_resolved: "detect_and_resolve plain_sync two_titles = Inr titles_resolution"
  by (simp add: detect_and_resolve_def two_titles_def all_fields_def resolve_field_def field_of_def plain_sync_def
      resolve_field_value_def open_conflicts_def titles_resolution_def)

lemma resolution_complete_witness:
  "sorted (dkeys (rs_fields titles_resolution)) \<and> rs_unresolved titles_resolution"
  using resolution_complete [OF two_titles_resolved] by (simp add: titles_resolution_def two_titles_def)

lemma resolution_settles_witness:
  "detect_and_resolve plain_sync (two_titles\<lparr>sr_source := rs_fields titles_resolution, sr_target := rs_fields titles_resolution\<rparr>)
    = Inr \<lparr>rs_fields = rs_fields titles_resolution, rs_conflicts = [], rs_unresolved = False\<rparr>"
  by (rule resolution_settles [OF two_titles_resolved]) (simp add: plain_sync_def)

end
