(* ===== verification/SyncMapping.thy ===== *)
theory SyncMapping
  imports PyDates EventParser
begin

text \<open>
  \<open>integrations/sync_mapping.py\<close>: an issue of Jira as an event of the calendar, and an event as the fields of an issue.
  The readers of the \<open>datetime\<close> module, the clock and \<open>str\<close> of a value that is no text are parameters.
\<close>

type_synonym obj = "(pystr, pyval) dict"

record mapping_env =
  me_date :: "pystr \<Rightarrow> date option" \<comment> \<open>\<open>date.fromisoformat\<close>, \<open>None\<close> for \<open>ValueError\<close>\<close>
  me_time :: "pystr \<Rightarrow> date_time option"
  me_now :: date_time \<comment> \<open>in UTC, without microseconds\<close>
  me_str :: "pyval \<Rightarrow> pystr"

record mapping_service =
  ms_timezone :: pystr
  ms_project_key :: pystr
  ms_issue_type :: pystr

definition mapping_service_init :: "pystr \<Rightarrow> pystr \<Rightarrow> pystr \<Rightarrow> mapping_service" where
  "mapping_service_init timezone project_key issue_type =
     \<lparr>ms_timezone = timezone, ms_project_key = strip project_key, ms_issue_type = issue_type\<rparr>"

definition status_colors :: "(pystr, pystr) dict" where
  "status_colors = [(lit ''to do'', lit ''5''), (lit ''open'', lit ''5''), (lit ''in progress'', lit ''9''),
     (lit ''doing'', lit ''9''), (lit ''done'', lit ''10''), (lit ''resolved'', lit ''10''), (lit ''closed'', lit ''10'')]"

section \<open>Reading values\<close>

definition parse_date :: "mapping_env \<Rightarrow> pyval \<Rightarrow> date option" where
  "parse_date env v =
     (case v of PStr s \<Rightarrow> if strip s = [] then None else me_date env (strip s) | _ \<Rightarrow> None)"

definition parse_datetime :: "mapping_env \<Rightarrow> pyval \<Rightarrow> date_time option" where
  "parse_datetime env v =
     (case v of
        PStr s \<Rightarrow>
          (let t = strip s
           in if t = [] then None
              else me_time env (if last t = Ch (CHR ''Z'') then butlast t @ lit ''+00:00'' else t))
      | _ \<Rightarrow> None)"

definition value_text :: "mapping_env \<Rightarrow> pyval \<Rightarrow> pystr" where
  "value_text env v = (case v of PStr s \<Rightarrow> s | _ \<Rightarrow> me_str env v)"

text \<open>\<open>str(x or y or ... or fallback)\<close>.\<close>

definition first_text :: "mapping_env \<Rightarrow> pyval list \<Rightarrow> pystr \<Rightarrow> pystr" where
  "first_text env vs fallback = (case filter truthy vs of [] \<Rightarrow> fallback | v # _ \<Rightarrow> value_text env v)"

definition first_present :: "obj \<Rightarrow> string list \<Rightarrow> pyval" where
  "first_present d candidates =
     (case filter truthy (map (\<lambda>k. dget_or d k PNone) candidates) of [] \<Rightarrow> PNone | v # _ \<Rightarrow> v)"

definition dict_or_empty :: "pyval \<Rightarrow> obj" where
  "dict_or_empty v = (case v of PDict d \<Rightarrow> d | _ \<Rightarrow> [])"

definition stringify_description :: "mapping_env \<Rightarrow> pyval \<Rightarrow> pystr" where
  "stringify_description env v =
     (case v of
        PNone \<Rightarrow> []
      | PStr s \<Rightarrow> s
      | PDict d \<Rightarrow> (case dget_or d ''text'' PNone of PStr s \<Rightarrow> s | _ \<Rightarrow> me_str env v)
      | _ \<Rightarrow> me_str env v)"

text \<open>\<open>_status_name\<close> and \<open>_priority_name\<close>.\<close>

definition name_of :: "pyval \<Rightarrow> pystr" where
  "name_of v =
     (case v of
        PDict d \<Rightarrow> (case dget_or d ''name'' PNone of PStr s \<Rightarrow> if strip s \<noteq> [] then strip s else lit ''unknown'' | _ \<Rightarrow> lit ''unknown'')
      | _ \<Rightarrow> lit ''unknown'')"

definition attendees_from_assignee :: "pyval \<Rightarrow> pyval list" where
  "attendees_from_assignee v =
     (case v of
        PDict d \<Rightarrow>
          (case dget_or d ''emailAddress'' PNone of
             PStr e \<Rightarrow>
               if strip e = [] then []
               else [PDict ([(lit ''email'', PStr (strip e))]
                      @ (case dget_or d ''displayName'' PNone of
                           PStr n \<Rightarrow> if strip n = [] then [] else [(lit ''displayName'', PStr (strip n))]
                         | _ \<Rightarrow> []))]
           | _ \<Rightarrow> [])
      | _ \<Rightarrow> [])"

definition private_extended_properties :: "obj \<Rightarrow> obj" where
  "private_extended_properties event =
     dict_or_empty (dget_or (dict_or_empty (dget_or event ''extendedProperties'' PNone)) ''private'' PNone)"

section \<open>From an issue to an event\<close>

definition time_block :: "mapping_service \<Rightarrow> date_time \<Rightarrow> obj" where
  "time_block ms t = [(lit ''dateTime'', PStr (time_text t)), (lit ''timeZone'', PStr (ms_timezone ms))]"

definition day_block :: "date \<Rightarrow> obj" where
  "day_block d = [(lit ''date'', PStr (date_text d))]"

definition extract_calendar_time_window :: "mapping_env \<Rightarrow> mapping_service \<Rightarrow> obj \<Rightarrow> (obj \<times> obj) result" where
  "extract_calendar_time_window env ms d =
     (case (parse_datetime env (first_present d [''customfield_start'', ''startDate'', ''start'']),
            parse_datetime env (first_present d [''customfield_end'', ''endDate'', ''end''])) of
        (Some s, Some e) \<Rightarrow> Inr (time_block ms s, time_block ms e)
      | _ \<Rightarrow>
          (case parse_date env (dget_or d ''duedate'' PNone) of
             Some due \<Rightarrow> rbind (next_day due) (\<lambda>after. Inr (day_block due, day_block after))
           | None \<Rightarrow> rbind (add_hour (me_now env)) (\<lambda>later. Inr (time_block ms (me_now env), time_block ms later))))"

definition map_jira_issue_to_calendar_event :: "mapping_env \<Rightarrow> mapping_service \<Rightarrow> obj \<Rightarrow> obj result" where
  "map_jira_issue_to_calendar_event env ms issue =
     (let key = first_text env [dget_or issue ''key'' PNone] [];
          issue_id = first_text env [dget_or issue ''id'' PNone] [];
          d = dict_or_empty (dget_or issue ''fields'' PNone);
          summary = first_text env [dget_or d ''summary'' PNone, PStr key] (lit ''Untitled Jira Issue'');
          status_name = name_of (dget_or d ''status'' PNone);
          color_id = (case dget status_colors (lower status_name) of None \<Rightarrow> lit ''6'' | Some c \<Rightarrow> c);
          attendees = attendees_from_assignee (dget_or d ''assignee'' PNone)
      in rbind (extract_calendar_time_window env ms d) (\<lambda>(start, end_block).
           Inr ([(lit ''summary'', PStr summary),
                 (lit ''description'', PStr (stringify_description env (dget_or d ''description'' PNone))),
                 (lit ''start'', PDict start), (lit ''end'', PDict end_block), (lit ''colorId'', PStr color_id),
                 (lit ''extendedProperties'', PDict [(lit ''private'', PDict [
                    (lit ''jiraKey'', PStr key), (lit ''jiraIssueId'', PStr issue_id), (lit ''jiraStatus'', PStr status_name),
                    (lit ''jiraPriority'', PStr (name_of (dget_or d ''priority'' PNone)))])])]
                @ (if attendees = [] then [] else [(lit ''attendees'', PList attendees)]))))"

section \<open>From an event to an issue\<close>

text \<open>The end of an event of whole days is the day after the last one.\<close>

definition extract_due_date :: "mapping_env \<Rightarrow> obj \<Rightarrow> date option result" where
  "extract_due_date env event =
     (let end_block = dict_or_empty (dget_or event ''end'' PNone)
      in case parse_date env (dget_or end_block ''date'' PNone) of
           Some e \<Rightarrow> rbind (prev_day e) (\<lambda>d. Inr (Some d))
         | None \<Rightarrow>
             (case parse_datetime env (dget_or end_block ''dateTime'' PNone) of
                Some t \<Rightarrow> Inr (Some (dt_date t))
              | None \<Rightarrow>
                  (case dget_or event ''start'' PNone of
                     PDict start \<Rightarrow>
                       (case parse_date env (dget_or start ''date'' PNone) of
                          Some s \<Rightarrow> Inr (Some s)
                        | None \<Rightarrow> Inr (map_option dt_date (parse_datetime env (dget_or start ''dateTime'' PNone))))
                   | _ \<Rightarrow> Inr None)))"

datatype operation = UpdateIssue pystr | CreateIssue

definition map_calendar_event_to_jira_fields :: "mapping_env \<Rightarrow> mapping_service \<Rightarrow> obj \<Rightarrow> (operation \<times> obj) result" where
  "map_calendar_event_to_jira_fields env ms event =
     (let summary = first_text env [dget_or event ''summary'' PNone] (lit ''Untitled Calendar Event'');
          description = first_text env [dget_or event ''description'' PNone] [];
          jira_key = strip (first_text env [dget_or (private_extended_properties event) ''jiraKey'' PNone] []);
          labels = PStr (lit ''calendar-sync'') #
            (case dget_or event ''colorId'' PNone of
               PStr c \<Rightarrow> if c = [] then [] else [PStr (lit ''calendar-color-'' @ c)]
             | _ \<Rightarrow> [])
      in rbind (extract_due_date env event) (\<lambda>due.
           let base = [(lit ''summary'', PStr summary), (lit ''description'', PStr description), (lit ''labels'', PList labels)]
                 @ (case due of None \<Rightarrow> [] | Some d \<Rightarrow> [(lit ''duedate'', PStr (date_text d))])
           in Inr (if jira_key \<noteq> [] then (UpdateIssue jira_key, base)
                   else (CreateIssue, base
                     @ (if ms_project_key ms = [] then []
                        else [(lit ''project'', PDict [(lit ''key'', PStr (ms_project_key ms))]),
                              (lit ''issuetype'', PDict [(lit ''name'', PStr (ms_issue_type ms))])])))))"

section \<open>There and back\<close>

definition event_of :: "mapping_env \<Rightarrow> obj \<Rightarrow> obj \<Rightarrow> obj \<Rightarrow> obj \<Rightarrow> bool" where
  "event_of env issue start end_block event \<longleftrightarrow>
     dget event (lit ''start'') = Some (PDict start) \<and> dget event (lit ''end'') = Some (PDict end_block)
     \<and> dget (private_extended_properties event) (lit ''jiraKey'') = Some (PStr (first_text env [dget_or issue ''key'' PNone] []))"

lemma mapped_event:
  assumes "map_jira_issue_to_calendar_event env ms issue = Inr event"
  obtains start end_block where
    "extract_calendar_time_window env ms (dict_or_empty (dget_or issue ''fields'' PNone)) = Inr (start, end_block)"
    "event_of env issue start end_block event"
  using assms
  by (auto simp: map_jira_issue_to_calendar_event_def rbind_Inr_iff Let_def event_of_def private_extended_properties_def
      dict_or_empty_def dget_or_def)

text \<open>C21: The due date of an issue and the issue itself come back from the calendar: an issue with a due date and without
  a window of times becomes an event of that day, and the event gives the same due date for the same issue. Only the
  last day of the calendar has no day after it, and raises.\<close>

theorem due_date_roundtrip:
  assumes reader: "\<And>e. next_day due = Inr e \<Longrightarrow> me_date env (date_text e) = Some e"
    and due: "parse_date env (dget_or (dict_or_empty (dget_or issue ''fields'' PNone)) ''duedate'' PNone) = Some due"
      "valid_date due"
    and no_window: "parse_datetime env (first_present (dict_or_empty (dget_or issue ''fields'' PNone))
        [''customfield_start'', ''startDate'', ''start'']) = None"
    and key: "strip (first_text env [dget_or issue ''key'' PNone] []) = k" "k \<noteq> []"
  shows "case map_jira_issue_to_calendar_event env ms issue of
      Inl e \<Rightarrow> due = \<lparr>da_year = 9999, da_month = 12, da_day = 31\<rparr> \<and> e = OverflowError
    | Inr event \<Rightarrow> \<exists>fs. map_calendar_event_to_jira_fields env ms event = Inr (UpdateIssue k, fs)
        \<and> dget fs (lit ''duedate'') = Some (PStr (date_text due))"
proof -
  let ?d = "dict_or_empty (dget_or issue ''fields'' PNone)"
  have window: "extract_calendar_time_window env ms ?d = rbind (next_day due) (\<lambda>after. Inr (day_block due, day_block after))"
    using due(1) no_window by (simp add: extract_calendar_time_window_def split: option.split)
  show ?thesis
  proof (cases "map_jira_issue_to_calendar_event env ms issue")
    case (Inl e)
    then have "next_day due = Inl e"
      by (cases "next_day due") (auto simp: map_jira_issue_to_calendar_event_def window Let_def)
    with next_day_overflow [OF due(2)] Inl show ?thesis by simp
  next
    case (Inr event)
    from Inr obtain start end_block where "extract_calendar_time_window env ms ?d = Inr (start, end_block)"
      and event: "event_of env issue start end_block event"
      by (rule mapped_event)
    then obtain after where after: "next_day due = Inr after" "end_block = day_block after"
      by (auto simp: window rbind_Inr_iff)
    have "parse_date env (PStr (date_text after)) = Some after"
      using reader [OF after(1)] by (simp add: parse_date_def strip_date_text)
    then have "extract_due_date env event = Inr (Some due)"
      using event after prev_next [OF due(2) after(1)]
      by (simp add: extract_due_date_def event_of_def dget_or_def dict_or_empty_def day_block_def)
    moreover have "strip (first_text env [dget_or (private_extended_properties event) ''jiraKey'' PNone] []) = k"
      using event key(1) by (auto simp: event_of_def dget_or_def first_text_def value_text_def split: list.splits)
    ultimately show ?thesis
      using Inr key(2) by (simp add: map_calendar_event_to_jira_fields_def Let_def)
  qed
qed

text \<open>An issue without dates becomes an event of the hour in which it is looked at, and the event gives it a due date.\<close>

lemma undated_issue_gets_due_date:
  assumes "parse_datetime env (first_present (dict_or_empty (dget_or issue ''fields'' PNone))
        [''customfield_start'', ''startDate'', ''start'']) = None"
    and "parse_date env (dget_or (dict_or_empty (dget_or issue ''fields'' PNone)) ''duedate'' PNone) = None"
    and "add_hour (me_now env) = Inr later" "parse_datetime env (PStr (time_text later)) = Some later"
    and "map_jira_issue_to_calendar_event env ms issue = Inr event"
  shows "extract_due_date env event = Inr (Some (dt_date later))"
proof -
  from assms(5) obtain start end_block where
    "extract_calendar_time_window env ms (dict_or_empty (dget_or issue ''fields'' PNone)) = Inr (start, end_block)"
    and event: "event_of env issue start end_block event" by (rule mapped_event)
  with assms(1-3) have "end_block = time_block ms later"
    by (simp add: extract_calendar_time_window_def)
  with event have "dict_or_empty (dget_or event ''end'' PNone) = time_block ms later"
    by (simp add: event_of_def dget_or_def dict_or_empty_def)
  moreover have "parse_date env (dget_or (time_block ms later) ''date'' PNone) = None"
    by (simp add: time_block_def dget_or_def parse_date_def)
  moreover have "dget_or (time_block ms later) ''dateTime'' PNone = PStr (time_text later)"
    by (simp add: time_block_def dget_or_def)
  ultimately show ?thesis using assms(4) by (simp add: extract_due_date_def)
qed

section \<open>Examples\<close>

definition leap_february :: date where
  "leap_february = \<lparr>da_year = 2024, da_month = 2, da_day = 29\<rparr>"

definition first_of_march :: date where
  "first_of_march = \<lparr>da_year = 2024, da_month = 3, da_day = 1\<rparr>"

definition toy_mapping :: mapping_env where
  "toy_mapping = \<lparr>me_date = (\<lambda>s. if s = date_text leap_february then Some leap_february
       else if s = date_text first_of_march then Some first_of_march else None),
     me_time = (\<lambda>_. None), me_now = \<lparr>dt_date = first_of_march, dt_micros = 0, dt_offset = Some 0\<rparr>, me_str = (\<lambda>_. [])\<rparr>"

definition leap_issue :: obj where
  "leap_issue = [(lit ''key'', PStr (lit ''A-1'')), (lit ''fields'', PDict [(lit ''duedate'', PStr (date_text leap_february))])]"

lemma leap_next: "next_day leap_february = Inr first_of_march"
  by (simp add: next_day_def leap_february_def first_of_march_def days_in_month_def leap_year_def)

lemma leap_texts: "date_text first_of_march \<noteq> date_text leap_february"
  by (simp add: date_text_def leap_february_def first_of_march_def padded_int_def str_of_int_def lit_def Let_def
      nat_digits.simps [of 29] nat_digits.simps [of 2] nat_digits.simps [of 3] nat_digits.simps [of 1] del: One_nat_def)

lemma due_date_roundtrip_witness:
  "\<exists>event fs. map_jira_issue_to_calendar_event toy_mapping (mapping_service_init [] [] []) leap_issue = Inr event
     \<and> map_calendar_event_to_jira_fields toy_mapping (mapping_service_init [] [] []) event = Inr (UpdateIssue (lit ''A-1''), fs)
     \<and> dget fs (lit ''duedate'') = Some (PStr (date_text leap_february))"
proof -
  have "parse_date toy_mapping (dget_or (dict_or_empty (dget_or leap_issue ''fields'' PNone)) ''duedate'' PNone) = Some leap_february"
    by (simp add: leap_issue_def dget_or_def dict_or_empty_def parse_date_def strip_date_text toy_mapping_def)
  moreover have "valid_date leap_february"
    by (simp add: valid_date_def leap_february_def days_in_month_def leap_year_def)
  moreover have "me_date toy_mapping (date_text e) = Some e" if "next_day leap_february = Inr e" for e
    using that leap_next leap_texts by (simp add: toy_mapping_def)
  moreover have "parse_datetime toy_mapping (first_present (dict_or_empty (dget_or leap_issue ''fields'' PNone))
        [''customfield_start'', ''startDate'', ''start'']) = None"
    by (simp add: leap_issue_def dget_or_def dict_or_empty_def first_present_def parse_datetime_def)
  moreover have "strip (first_text toy_mapping [dget_or leap_issue ''key'' PNone] []) = lit ''A-1''" "lit ''A-1'' \<noteq> []"
    by (simp_all add: leap_issue_def dget_or_def first_text_def value_text_def strip_def rstrip_def lstrip_def lit_def)
  ultimately have "case map_jira_issue_to_calendar_event toy_mapping (mapping_service_init [] [] []) leap_issue of
      Inl e \<Rightarrow> leap_february = \<lparr>da_year = 9999, da_month = 12, da_day = 31\<rparr> \<and> e = OverflowError
    | Inr event \<Rightarrow> \<exists>fs. map_calendar_event_to_jira_fields toy_mapping (mapping_service_init [] [] []) event
          = Inr (UpdateIssue (lit ''A-1''), fs) \<and> dget fs (lit ''duedate'') = Some (PStr (date_text leap_february))"
    by (intro due_date_roundtrip) simp_all
  then show ?thesis by (auto simp: leap_february_def split: sum.splits)
qed

end
