(* ===== verification/ChatPlatforms.thy ===== *)
theory ChatPlatforms
  imports MessageTree PyText EventParser
begin

text \<open>
  What the adapters of \<open>messaging/platforms/\<close> share: the voice notes that are being transcribed, the keys under which
  the queue replaces requests, and the choice of adapters of \<open>factory.py\<close>.
\<close>

section \<open>Pending voice notes\<close>

type_synonym pending = "(pystr \<times> pystr, pystr \<times> pystr) dict"

definition register_pending_voice :: "pystr \<Rightarrow> pystr \<Rightarrow> pystr \<Rightarrow> pending \<Rightarrow> pending" where
  "register_pending_voice chat_id voice status p =
     dset (chat_id, status) (voice, status) (dset (chat_id, voice) (voice, status) p)"

definition cancel_pending_voice :: "pystr \<Rightarrow> pystr \<Rightarrow> pending \<Rightarrow> pending \<times> (pystr \<times> pystr) option" where
  "cancel_pending_voice chat_id reply_id p =
     (case dget p (chat_id, reply_id) of
        None \<Rightarrow> (p, None)
      | Some (voice, status) \<Rightarrow>
          (ddel (chat_id, status) (ddel (chat_id, voice) (ddel (chat_id, reply_id) p)), Some (voice, status)))"

definition is_voice_still_pending :: "pystr \<Rightarrow> pystr \<Rightarrow> pending \<Rightarrow> bool" where
  "is_voice_still_pending chat_id voice p \<longleftrightarrow> din (chat_id, voice) p"

text \<open>The end of a transcription: an exception is answered and leaves the entries; the status of a note that was
  cancelled is deleted; another note is forwarded.\<close>

datatype voice_end = VoiceError | StatusDeleted | Forwarded pystr

definition finish_voice :: "pystr \<Rightarrow> pystr \<Rightarrow> pystr \<Rightarrow> pystr option \<Rightarrow> pending \<Rightarrow> pending \<times> voice_end" where
  "finish_voice chat_id voice status transcribed p =
     (case transcribed of
        None \<Rightarrow> (p, VoiceError)
      | Some t \<Rightarrow>
          if \<not> is_voice_still_pending chat_id voice p then (p, StatusDeleted)
          else (ddel (chat_id, status) (ddel (chat_id, voice) p), Forwarded t))"

text \<open>Both names of a note lead to the same entry.\<close>

definition pending_ok :: "pending \<Rightarrow> bool" where
  "pending_ok p \<longleftrightarrow> (\<forall>c k v s. dget p (c, k) = Some (v, s) \<longrightarrow>
     (k = v \<or> k = s) \<and> dget p (c, v) = Some (v, s) \<and> dget p (c, s) = Some (v, s))"

lemma register_ok:
  assumes "pending_ok p" "dget p (c, v) = None" "dget p (c, s) = None"
  shows "pending_ok (register_pending_voice c v s p)"
  unfolding pending_ok_def
proof (intro allI impI)
  fix c' k v' s'
  assume entry: "dget (register_pending_voice c v s p) (c', k) = Some (v', s')"
  show "(k = v' \<or> k = s') \<and> dget (register_pending_voice c v s p) (c', v') = Some (v', s')
      \<and> dget (register_pending_voice c v s p) (c', s') = Some (v', s')"
  proof (cases "c' = c \<and> (k = v \<or> k = s)")
    case True
    with entry show ?thesis by (auto simp: register_pending_voice_def dget_dset split: if_splits)
  next
    case False
    with entry have old: "dget p (c', k) = Some (v', s')" by (auto simp: register_pending_voice_def dget_dset)
    with assms(1) have "(k = v' \<or> k = s') \<and> dget p (c', v') = Some (v', s') \<and> dget p (c', s') = Some (v', s')"
      unfolding pending_ok_def by blast
    moreover from this assms(2,3) have "\<not> (c' = c \<and> (v' = v \<or> v' = s))" "\<not> (c' = c \<and> (s' = v \<or> s' = s))" by auto
    ultimately show ?thesis by (auto simp: register_pending_voice_def dget_dset)
  qed
qed

lemma remove_note_ok:
  assumes "pending_ok p" "dget p (c, v) = Some (v, s)"
  shows "pending_ok (ddel (c, s) (ddel (c, v) p))"
  unfolding pending_ok_def
proof (intro allI impI)
  fix c' k v' s'
  assume entry: "dget (ddel (c, s) (ddel (c, v) p)) (c', k) = Some (v', s')"
  then have old: "dget p (c', k) = Some (v', s')" and k: "(c', k) \<noteq> (c, s)" "(c', k) \<noteq> (c, v)"
    by (auto simp: dget_ddel split: if_splits)
  from assms(1) old have pair: "(k = v' \<or> k = s')" "dget p (c', v') = Some (v', s')" "dget p (c', s') = Some (v', s')"
    unfolding pending_ok_def by blast+
  from assms have other: "dget p (c, s) = Some (v, s)" unfolding pending_ok_def by blast
  have "(c', v') \<noteq> (c, v) \<and> (c', v') \<noteq> (c, s) \<and> (c', s') \<noteq> (c, v) \<and> (c', s') \<noteq> (c, s)"
    using pair k other assms(2) by auto
  with pair show "(k = v' \<or> k = s') \<and> dget (ddel (c, s) (ddel (c, v) p)) (c', v') = Some (v', s')
      \<and> dget (ddel (c, s) (ddel (c, v) p)) (c', s') = Some (v', s')"
    by (auto simp: dget_ddel)
qed

text \<open>C32: Cancelling a note by either of its names forgets both, touches no other note, keeps the table consistent, and
  the transcription that ends later is not forwarded.\<close>

theorem cancelled_voice_not_forwarded:
  assumes "pending_ok p" and "cancel_pending_voice c r p = (p', Some (v, s))"
  shows "pending_ok p' \<and> snd (finish_voice c v s (Some t) p') = StatusDeleted
    \<and> (\<forall>k. k \<noteq> (c, v) \<and> k \<noteq> (c, s) \<longrightarrow> dget p' k = dget p k)"
proof -
  from assms(2) have entry: "dget p (c, r) = Some (v, s)"
    and p': "p' = ddel (c, s) (ddel (c, v) (ddel (c, r) p))"
    by (auto simp: cancel_pending_voice_def split: option.splits)
  from assms(1) entry have r: "r = v \<or> r = s" and v: "dget p (c, v) = Some (v, s)"
    unfolding pending_ok_def by blast+
  have same: "dget p' k = dget (ddel (c, s) (ddel (c, v) p)) k" for k
    using r by (auto simp: p' dget_ddel)
  then have "pending_ok p'" using remove_note_ok [OF assms(1) v] unfolding pending_ok_def same by blast
  moreover have "\<not> din (c, v) p'" by (simp add: din_def map_of_eq_None_iff [symmetric] same dget_ddel)
  ultimately show ?thesis
    by (auto simp: finish_voice_def is_voice_still_pending_def same dget_ddel)
qed

lemma cancelled_voice_not_forwarded_witness:
  "snd (finish_voice (lit ''c'') (lit ''1'') (lit ''2'') (Some (lit ''t''))
     (fst (cancel_pending_voice (lit ''c'') (lit ''2'') (register_pending_voice (lit ''c'') (lit ''1'') (lit ''2'') []))))
   = StatusDeleted"
proof -
  let ?p = "register_pending_voice (lit ''c'') (lit ''1'') (lit ''2'') []"
  have "pending_ok ?p" by (rule register_ok) (simp_all add: pending_ok_def)
  moreover have "cancel_pending_voice (lit ''c'') (lit ''2'') ?p
      = (fst (cancel_pending_voice (lit ''c'') (lit ''2'') ?p), Some (lit ''1'', lit ''2''))"
    by (simp add: cancel_pending_voice_def register_pending_voice_def)
  ultimately show ?thesis using cancelled_voice_not_forwarded by blast
qed

text \<open>A note whose transcription failed stays pending: a later \<open>/clear\<close> in reply to it cancels what is over, and the
  entries of failed notes are never removed otherwise.\<close>

lemma failed_voice_stays_pending:
  "finish_voice c v s None (register_pending_voice c v s p) = (register_pending_voice c v s p, VoiceError)
   \<and> is_voice_still_pending c v (register_pending_voice c v s p)
   \<and> snd (cancel_pending_voice c v (register_pending_voice c v s p)) = Some (v, s)"
  by (auto simp: finish_voice_def is_voice_still_pending_def register_pending_voice_def cancel_pending_voice_def
      dget_dset din_def keys_dset)

section \<open>Queued requests\<close>

text \<open>Without a limiter a request is made at once; with one it is queued under a key, waiting or not. The keys of the
  same request are the same, so that the newest one replaces the others.\<close>

datatype queued = AtOnce | Queued "pystr option" bool

definition edit_key :: "pystr \<Rightarrow> pystr \<Rightarrow> pystr" where
  "edit_key chat_id message_id = lit ''edit:'' @ chat_id @ lit '':'' @ message_id"

definition delete_key :: "pystr \<Rightarrow> pystr \<Rightarrow> pystr" where
  "delete_key chat_id message_id = lit ''del:'' @ chat_id @ lit '':'' @ message_id"

definition bulk_key :: "(pystr list \<Rightarrow> int) \<Rightarrow> pystr \<Rightarrow> pystr list \<Rightarrow> pystr" where
  "bulk_key hash chat_id ids = lit ''del_bulk:'' @ chat_id @ lit '':'' @ str_of_int (hash ids)"

definition queue_send :: "bool \<Rightarrow> bool \<Rightarrow> queued" where
  "queue_send limited fire_and_forget = (if \<not> limited then AtOnce else Queued None fire_and_forget)"

definition queue_edit :: "bool \<Rightarrow> pystr \<Rightarrow> pystr \<Rightarrow> bool \<Rightarrow> queued" where
  "queue_edit limited chat_id message_id fire_and_forget =
     (if \<not> limited then AtOnce else Queued (Some (edit_key chat_id message_id)) fire_and_forget)"

definition queue_delete :: "bool \<Rightarrow> pystr \<Rightarrow> pystr \<Rightarrow> bool \<Rightarrow> queued" where
  "queue_delete limited chat_id message_id fire_and_forget =
     (if \<not> limited then AtOnce else Queued (Some (delete_key chat_id message_id)) fire_and_forget)"

definition queue_delete_many :: "(pystr list \<Rightarrow> int) \<Rightarrow> bool \<Rightarrow> pystr \<Rightarrow> pystr list \<Rightarrow> bool \<Rightarrow> queued option" where
  "queue_delete_many hash limited chat_id ids fire_and_forget =
     (if ids = [] then None
      else Some (if \<not> limited then AtOnce else Queued (Some (bulk_key hash chat_id ids)) fire_and_forget))"

lemma colon_split:
  "Ch (CHR '':'') \<notin> set a \<Longrightarrow> Ch (CHR '':'') \<notin> set c \<Longrightarrow> a @ Ch (CHR '':'') # b = c @ Ch (CHR '':'') # d \<Longrightarrow> a = c \<and> b = d"
  by (induction a arbitrary: c) (auto simp: Cons_eq_append_conv)

text \<open>Requests about different messages never replace each other, and a deletion never replaces an edit.\<close>

lemma edit_key_inject:
  "Ch (CHR '':'') \<notin> set c \<Longrightarrow> Ch (CHR '':'') \<notin> set c' \<Longrightarrow> edit_key c m = edit_key c' m' \<longleftrightarrow> c = c' \<and> m = m'"
  using colon_split [of c c' m m'] by (auto simp: edit_key_def lit_def)

lemma keys_apart: "edit_key c m \<noteq> delete_key c' m'" "edit_key c m \<noteq> bulk_key h c' ids" "delete_key c m \<noteq> bulk_key h c' ids"
  by (simp_all add: edit_key_def delete_key_def bulk_key_def lit_def)

section \<open>Choosing the adapters\<close>

record platform_options =
  po_bot_token :: "pystr option"
  po_discord_token :: "pystr option"
  po_web_workspace :: pyval
  po_enable_esp32 :: bool
  po_broker_url :: "pystr option"
  po_topic_prefix :: pystr

datatype platform = Telegram pystr | Discord pystr | Web int | Esp32 pystr pystr

definition given :: "pystr option \<Rightarrow> bool" where
  "given v \<longleftrightarrow> v \<noteq> None \<and> v \<noteq> Some []"

fun dedupe_names :: "pystr list \<Rightarrow> pystr list \<Rightarrow> pystr list" where
  "dedupe_names [] seen = []"
| "dedupe_names (x # xs) seen =
     (let name = lower (strip x)
      in if name = [] \<or> name \<in> set seen then dedupe_names xs seen else name # dedupe_names xs (name # seen))"

definition normalize_platform_types :: "pystr \<Rightarrow> pystr list" where
  "normalize_platform_types types = dedupe_names (split_char (Ch (CHR '','')) types) []"

definition create_messaging_platform :: "platform_options \<Rightarrow> pystr \<Rightarrow> platform option result" where
  "create_messaging_platform po kind =
     (if kind = lit ''telegram'' then Inr (if given (po_bot_token po) then Some (Telegram (the (po_bot_token po))) else None)
      else if kind = lit ''discord'' then Inr (if given (po_discord_token po) then Some (Discord (the (po_discord_token po))) else None)
      else if kind = lit ''web'' then rbind (py_int_of (po_web_workspace po)) (\<lambda>w. Inr (Some (Web w)))
      else if kind = lit ''esp32'' then
        Inr (if \<not> po_enable_esp32 po \<or> \<not> given (po_broker_url po) then None
             else Some (Esp32 (the (po_broker_url po)) (po_topic_prefix po)))
      else Inr None)"

definition create_messaging_platforms :: "platform_options \<Rightarrow> pystr \<Rightarrow> platform list result" where
  "create_messaging_platforms po types =
     rbind (rmap_list (create_messaging_platform po) (normalize_platform_types types))
       (\<lambda>ps. Inr (map the (filter (\<lambda>p. p \<noteq> None) ps)))"

lemma dedupe_distinct: "distinct (dedupe_names xs seen) \<and> set (dedupe_names xs seen) \<inter> set seen = {} \<and> [] \<notin> set (dedupe_names xs seen)"
  by (induction xs seen rule: dedupe_names.induct) (auto simp: Let_def)

lemma platform_types_distinct: "distinct (normalize_platform_types types)" "[] \<notin> set (normalize_platform_types types)"
  using dedupe_distinct unfolding normalize_platform_types_def by blast+

end
