(* ===== verification/TelegramPlatform.thy ===== *)
theory TelegramPlatform
  imports ChatPlatforms
begin

text \<open>
  \<open>messaging/platforms/telegram.py\<close>: the requests to the Bot API with their repetitions, what is made of an update, and
  the start. The server is an input, a result for every call; which exceptions of the client library are kinds of its
  \<open>NetworkError\<close> is a parameter.
\<close>

section \<open>Repetitions\<close>

datatype tg_kind = BadRequest | TimedOut | NetworkFailure | Forbidden | OtherTelegram

datatype tg_error = PyTimeout pystr | Tg tg_kind pystr | RetryAfter nat | OtherException

fun network_error :: "(tg_kind \<Rightarrow> bool) \<Rightarrow> tg_error \<Rightarrow> bool" where
  "network_error network (PyTimeout t) \<longleftrightarrow> True"
| "network_error network (Tg k t) \<longleftrightarrow> network k"
| "network_error network _ \<longleftrightarrow> False"

fun error_text :: "tg_error \<Rightarrow> pystr" where
  "error_text (PyTimeout t) = t"
| "error_text (Tg k t) = t"
| "error_text _ = []"

definition ignored_errors :: "pystr list" where
  "ignored_errors = map lit [''message to edit not found'', ''message to delete not found'', ''message can't be deleted'',
     ''message can't be edited'', ''not enough rights to delete'']"

text \<open>The answer to the calls by their number and parse mode, and what is done: calls and pauses, in seconds.\<close>

type_synonym 'a tg_calls = "nat \<Rightarrow> pystr option \<Rightarrow> tg_error + 'a"

datatype tg_step = Called "pystr option" | Slept nat

definition last_call :: "'a tg_calls \<Rightarrow> nat \<Rightarrow> pystr option \<Rightarrow> tg_error + 'a option" where
  "last_call calls n mode = (case calls n mode of Inl e \<Rightarrow> Inl e | Inr v \<Rightarrow> Inr (Some v))"

fun retry_loop :: "(tg_kind \<Rightarrow> bool) \<Rightarrow> 'a tg_calls \<Rightarrow> pystr option \<Rightarrow> nat \<Rightarrow> nat \<Rightarrow> tg_step list \<times> (tg_error + 'a option)" where
  "retry_loop network calls mode n 0 = ([], Inr None)"
| "retry_loop network calls mode n (Suc left) =
     (case calls n mode of
        Inr v \<Rightarrow> ([Called mode], Inr (Some v))
      | Inl e \<Rightarrow>
          if network_error network e then
            (if contains (error_text e) (lit ''Message is not modified'') then ([Called mode], Inr None)
             else if 0 < left then
               (case retry_loop network calls mode (n + 1) left of
                  (steps, r) \<Rightarrow> (Called mode # Slept (2 ^ n) # steps, r))
             else ([Called mode], Inl e))
          else (case e of
             RetryAfter w \<Rightarrow> ([Called mode, Slept w, Called mode], last_call calls (n + 1) mode)
           | Tg k t \<Rightarrow>
               (let err_lower = lower t
                in if contains err_lower (lit ''message is not modified'') then ([Called mode], Inr None)
                   else if list_ex (contains err_lower) ignored_errors then ([Called mode], Inr None)
                   else if contains t (lit ''Can't parse entities'') \<and> mode \<noteq> None \<and> mode \<noteq> Some []
                     then ([Called mode, Called None], last_call calls (n + 1) None)
                   else ([Called mode], Inl e))
           | _ \<Rightarrow> ([Called mode], Inl e)))"

definition with_retry :: "(tg_kind \<Rightarrow> bool) \<Rightarrow> 'a tg_calls \<Rightarrow> pystr option \<Rightarrow> tg_step list \<times> (tg_error + 'a option)" where
  "with_retry network calls mode = retry_loop network calls mode 0 3"

section \<open>Requests\<close>

datatype tg_request =
    SendMessage pystr pystr "int option" "int option"
  | EditText pystr int pystr
  | DeleteMessage pystr int
  | DeleteMessages pystr "int list"

record bot =
  bt_ready :: bool
  bt_network :: "tg_kind \<Rightarrow> bool"
  bt_answer :: "nat \<Rightarrow> tg_request \<Rightarrow> pystr option \<Rightarrow> tg_error + int" \<comment> \<open>the number of a message\<close>

text \<open>Names of messages are numbers; another name raises \<open>ValueError\<close> inside of the call.\<close>

definition calls_of :: "bot \<Rightarrow> tg_request option \<Rightarrow> int tg_calls" where
  "calls_of b rq n mode = (case rq of None \<Rightarrow> Inl OtherException | Some q \<Rightarrow> bt_answer b n q mode)"

definition opt_int :: "pystr option \<Rightarrow> int option option" where
  "opt_int v = (case v of None \<Rightarrow> Some None | Some s \<Rightarrow> map_option Some (py_int s))"

definition send_message :: "bot \<Rightarrow> pystr \<Rightarrow> pystr \<Rightarrow> pystr option \<Rightarrow> pystr option \<Rightarrow> pystr option
    \<Rightarrow> tg_error + pystr option" where
  "send_message b chat_id text reply_to mode thread =
     (if \<not> bt_ready b then Inl OtherException
      else (let rq = (case (opt_int (if reply_to = Some [] then None else reply_to), opt_int thread) of
                  (Some r, Some th) \<Rightarrow> Some (SendMessage chat_id text r th) | _ \<Rightarrow> None)
            in map_sum id (map_option str_of_int) (snd (with_retry (bt_network b) (calls_of b rq) mode))))"

definition edit_message :: "bot \<Rightarrow> pystr \<Rightarrow> pystr \<Rightarrow> pystr \<Rightarrow> pystr option \<Rightarrow> tg_error + unit" where
  "edit_message b chat_id message_id text mode =
     (if \<not> bt_ready b then Inl OtherException
      else map_sum id (\<lambda>_. ())
        (snd (with_retry (bt_network b) (calls_of b (map_option (\<lambda>i. EditText chat_id i text) (py_int message_id))) mode)))"

definition delete_message :: "bot \<Rightarrow> pystr \<Rightarrow> pystr \<Rightarrow> tg_error + unit" where
  "delete_message b chat_id message_id =
     (if \<not> bt_ready b then Inl OtherException
      else map_sum id (\<lambda>_. ())
        (snd (with_retry (bt_network b) (calls_of b (map_option (DeleteMessage chat_id) (py_int message_id))) None)))"

fun delete_each :: "('m \<Rightarrow> 'e + unit) \<Rightarrow> 'm list \<Rightarrow> 'e + unit" where
  "delete_each f [] = Inr ()"
| "delete_each f (m # ms) = (case f m of Inl e \<Rightarrow> Inl e | Inr _ \<Rightarrow> delete_each f ms)"

definition delete_messages :: "bot \<Rightarrow> bool \<Rightarrow> pystr \<Rightarrow> pystr list \<Rightarrow> tg_error + unit" where
  "delete_messages b has_bulk chat_id ids =
     (if ids = [] then Inr ()
      else if \<not> bt_ready b then Inl OtherException
      else if has_bulk then
        (let mids = List.map_filter py_int ids
         in if mids = [] then Inr ()
            else map_sum id (\<lambda>_. ()) (snd (with_retry (bt_network b) (calls_of b (Some (DeleteMessages chat_id mids))) None)))
      else delete_each (delete_message b chat_id) ids)"

section \<open>Updates\<close>

record tg_update =
  tu_text :: "pystr option"
  tu_message :: int
  tu_user :: "int option"
  tu_chat :: "int option"
  tu_reply :: "int option"
  tu_thread :: "int option"
  tu_time :: time

definition allowed_user :: "pystr option \<Rightarrow> pystr \<Rightarrow> bool" where
  "allowed_user allowed user_id \<longleftrightarrow> allowed = None \<or> allowed = Some [] \<or> strip (the allowed) = user_id"

definition on_telegram_message :: "pystr option \<Rightarrow> bool \<Rightarrow> tg_update \<Rightarrow> incoming_message option" where
  "on_telegram_message allowed has_handler u =
     (case (tu_text u, tu_user u, tu_chat u) of
        (Some t, Some user, Some chat) \<Rightarrow>
          if t = [] \<or> \<not> allowed_user allowed (str_of_int user) \<or> \<not> has_handler then None
          else Some \<lparr>im_text = t, im_chat_id = str_of_int chat, im_user_id = str_of_int user,
                 im_message_id = str_of_int (tu_message u), im_platform = lit ''telegram'',
                 im_reply_to_message_id = map_option str_of_int (tu_reply u),
                 im_message_thread_id = map_option str_of_int (tu_thread u), im_username = None,
                 im_status_message_id = None, im_timestamp = tu_time u\<rparr>
      | _ \<Rightarrow> None)"

text \<open>A voice note: what is answered at once, or that it is transcribed.\<close>

datatype voice_start = VoiceIgnored | VoiceDisabled | Transcribe

definition on_telegram_voice :: "pystr option \<Rightarrow> bool \<Rightarrow> bool \<Rightarrow> tg_update \<Rightarrow> voice_start" where
  "on_telegram_voice allowed enabled has_handler u =
     (case (tu_user u, tu_chat u) of
        (Some user, Some chat) \<Rightarrow>
          if \<not> enabled then VoiceDisabled
          else if \<not> allowed_user allowed (str_of_int user) \<or> \<not> has_handler then VoiceIgnored
          else Transcribe
      | _ \<Rightarrow> VoiceIgnored)"

definition telegram_voice_message :: "tg_update \<Rightarrow> pystr \<Rightarrow> pystr \<Rightarrow> incoming_message" where
  "telegram_voice_message u transcribed status =
     \<lparr>im_text = transcribed, im_chat_id = str_of_int (the (tu_chat u)), im_user_id = str_of_int (the (tu_user u)),
      im_message_id = str_of_int (tu_message u), im_platform = lit ''telegram'',
      im_reply_to_message_id = map_option str_of_int (tu_reply u),
      im_message_thread_id = map_option str_of_int (tu_thread u), im_username = None,
      im_status_message_id = Some status, im_timestamp = tu_time u\<rparr>"

section \<open>Start\<close>

text \<open>Three attempts to connect, with pauses of two and four seconds; without a token nothing is tried.\<close>

fun connect_loop :: "(nat \<Rightarrow> bool) \<Rightarrow> nat \<Rightarrow> nat \<Rightarrow> nat list \<times> bool" where
  "connect_loop works n 0 = ([], False)"
| "connect_loop works n (Suc left) =
     (if works n then ([], True)
      else if 0 < left then (case connect_loop works (n + 1) left of (pauses, ok) \<Rightarrow> (2 * (n + 1) # pauses, ok))
      else ([], False))"

definition start_telegram :: "pystr option \<Rightarrow> (nat \<Rightarrow> bool) \<Rightarrow> nat list \<times> bool" where
  "start_telegram bot_token works = (if given bot_token then connect_loop works 0 3 else ([], False))"

section \<open>Bounds\<close>

definition calls_made :: "tg_step list \<Rightarrow> pystr option list" where
  "calls_made steps = List.map_filter (\<lambda>s. case s of Called m \<Rightarrow> Some m | Slept _ \<Rightarrow> None) steps"

lemma calls_made_simps [simp]: "calls_made [] = []" "calls_made (Called m # ss) = m # calls_made ss"
    "calls_made (Slept n # ss) = calls_made ss"
  by (simp_all add: calls_made_def List.map_filter_def)

lemma retry_loop_calls: "length (calls_made (fst (retry_loop network calls mode n (Suc left)))) \<le> left + 2"
proof (induction left arbitrary: n)
  case 0
  show ?case by (auto simp: Let_def split: sum.split tg_error.split)
next
  case (Suc left)
  show ?case
  proof (cases "calls n mode")
    case (Inl e)
    with Suc.IH [of "n + 1"] show ?thesis
      by (cases e) (auto simp: Let_def split: prod.split simp del: retry_loop.simps(2) simp: retry_loop.simps(2) [of _ _ _ n])
  qed simp
qed

text \<open>A request is tried at most four times.\<close>

theorem telegram_calls_bounded: "length (calls_made (fst (with_retry network calls mode))) \<le> 4"
  using retry_loop_calls [of network calls mode 0 2] by (simp add: with_retry_def numeral_eq_Suc)

section \<open>Text that is no Markdown\<close>

text \<open>C33: A text the server cannot parse is meant to be sent again without a parse mode. Where \<open>BadRequest\<close> is a kind of
  \<open>NetworkError\<close>, as in the library, it is sent three times with the same parse mode, after one and two seconds, and
  then raises.\<close>

theorem unparsed_text_never_plain:
  assumes "network BadRequest"
    and "\<And>n. n < 3 \<Longrightarrow> \<exists>t. calls n mode = Inl (Tg BadRequest t) \<and> contains t (lit ''Can't parse entities'')
      \<and> \<not> contains t (lit ''Message is not modified'')"
  shows "with_retry network calls mode
    = ([Called mode, Slept 1, Called mode, Slept 2, Called mode], last_call calls 2 mode)"
proof -
  obtain t0 t1 t2 where
    "calls 0 mode = Inl (Tg BadRequest t0)" "\<not> contains t0 (lit ''Message is not modified'')"
    "calls 1 mode = Inl (Tg BadRequest t1)" "\<not> contains t1 (lit ''Message is not modified'')"
    "calls 2 mode = Inl (Tg BadRequest t2)" "\<not> contains t2 (lit ''Message is not modified'')"
    using assms(2) [of 0] assms(2) [of 1] assms(2) [of 2] by fastforce
  with assms(1) show ?thesis by (simp add: with_retry_def numeral_3_eq_3 numeral_2_eq_2 last_call_def)
qed

definition cannot_parse :: pystr where
  "cannot_parse = lit ''Can't parse entities: character '.' is reserved''"

lemma cannot_parse_texts: "contains cannot_parse (lit ''Can't parse entities'')"
    "\<not> contains cannot_parse (lit ''Message is not modified'')"
    "\<not> contains (lower cannot_parse) (lit ''message is not modified'')"
  by (simp_all add: cannot_parse_def contains_def lit_def lower_def lower_char_def)

lemma unparsed_text_never_plain_witness:
  "with_retry (\<lambda>k. k = BadRequest) (\<lambda>n mode. if mode = None then Inr (7 :: int) else Inl (Tg BadRequest cannot_parse))
      (Some (lit ''MarkdownV2''))
    = ([Called (Some (lit ''MarkdownV2'')), Slept 1, Called (Some (lit ''MarkdownV2'')), Slept 2,
        Called (Some (lit ''MarkdownV2''))], Inl (Tg BadRequest cannot_parse))"
  by (subst unparsed_text_never_plain) (use cannot_parse_texts in \<open>auto simp: last_call_def\<close>)

text \<open>The fallback would work if the exception were no network error.\<close>

lemma plain_fallback:
  assumes "\<not> network BadRequest" "mode \<noteq> None" "mode \<noteq> Some []"
    and "calls 0 mode = Inl (Tg BadRequest cannot_parse)" "calls 1 None = Inr v"
    and "\<not> list_ex (contains (lower cannot_parse)) ignored_errors"
  shows "with_retry network calls mode = ([Called mode, Called None], Inr (Some v))"
  using assms cannot_parse_texts by (simp add: with_retry_def numeral_3_eq_3 last_call_def)

text \<open>What is ignored for other errors raises, too, after three attempts.\<close>

lemma missing_message_raises:
  assumes "network BadRequest"
    and "\<And>n. calls n mode = Inl (Tg BadRequest (lit ''Message to edit not found''))"
  shows "snd (with_retry network calls mode) = Inl (Tg BadRequest (lit ''Message to edit not found''))"
proof -
  have "\<not> contains (lit ''Message to edit not found'') (lit ''Message is not modified'')"
    by (simp add: contains_def lit_def)
  with assms show ?thesis by (simp add: with_retry_def numeral_3_eq_3)
qed

text \<open>Without an allowed user everybody is served.\<close>

lemma open_bot: "on_telegram_message None True u = None \<longleftrightarrow> tu_text u \<in> {None, Some []} \<or> tu_user u = None \<or> tu_chat u = None"
  by (auto simp: on_telegram_message_def allowed_user_def split: option.split)

end
