(* ===== verification/DiscordPlatform.thy ===== *)
theory DiscordPlatform
  imports TelegramPlatform
begin

text \<open>
  \<open>messaging/platforms/discord.py\<close>: which messages are served, voice notes, the requests to the client library and the
  start. A channel, its messages and what the library raises are inputs.
\<close>

section \<open>Incoming messages\<close>

definition DISCORD_MESSAGE_LIMIT :: nat where
  "DISCORD_MESSAGE_LIMIT = 2000"

definition AUDIO_EXTENSIONS :: "pystr list" where
  "AUDIO_EXTENSIONS = map lit [''.ogg'', ''.mp4'', ''.mp3'', ''.wav'', ''.m4a'']"

text \<open>A set, as a list.\<close>

definition parse_allowed_channels :: "pystr option \<Rightarrow> pystr list" where
  "parse_allowed_channels raw =
     (case raw of
        None \<Rightarrow> []
      | Some r \<Rightarrow> if strip r = [] then [] else filter (\<lambda>s. s \<noteq> []) (map strip (split_char (Ch (CHR '','')) r)))"

record attachment =
  at_type :: "pystr option"
  at_name :: "pystr option"

definition or_blank :: "pystr option \<Rightarrow> pystr" where
  "or_blank v = (case v of None \<Rightarrow> [] | Some s \<Rightarrow> s)"

definition is_audio :: "attachment \<Rightarrow> bool" where
  "is_audio a \<longleftrightarrow> startswith (lower (or_blank (at_type a))) (lit ''audio/'')
     \<or> list_ex (\<lambda>e. endswith (lower (or_blank (at_name a))) e) AUDIO_EXTENSIONS"

definition get_audio_attachment :: "attachment list \<Rightarrow> attachment option" where
  "get_audio_attachment as = List.find is_audio as"

text \<open>The extension of the temporary file.\<close>

definition voice_extension :: "attachment \<Rightarrow> pystr" where
  "voice_extension a =
     (let fn = lower (or_blank (at_name a));
          ext = (case filter (endswith fn) AUDIO_EXTENSIONS of [] \<Rightarrow> lit ''.ogg'' | e # _ \<Rightarrow> e);
          ct = (if or_blank (at_type a) = [] then lit ''audio/ogg'' else or_blank (at_type a))
      in if contains ct (lit ''mp4'') \<or> contains fn (lit ''m4a'')
         then (if contains fn (lit ''m4a'') then lit ''.m4a'' else lit ''.mp4'')
         else if contains ct (lit ''mp3'') \<or> endswith fn (lit ''.mp3'') then lit ''.mp3'' else ext)"

record discord_message =
  dm_bot :: bool
  dm_channel :: int
  dm_content :: pystr
  dm_attachments :: "attachment list"
  dm_id :: int
  dm_author :: int
  dm_display_name :: pystr
  dm_reference :: "int option"
  dm_time :: time

datatype discord_action = Ignored | VoiceNote attachment | Handle incoming_message

text \<open>A reference to message 0 is none.\<close>

definition reference_of :: "discord_message \<Rightarrow> pystr option" where
  "reference_of m = (case dm_reference m of Some r \<Rightarrow> if r = 0 then None else Some (str_of_int r) | None \<Rightarrow> None)"

definition discord_incoming :: "discord_message \<Rightarrow> pystr \<Rightarrow> pystr option \<Rightarrow> incoming_message" where
  "discord_incoming m text status =
     \<lparr>im_text = text, im_chat_id = str_of_int (dm_channel m), im_user_id = str_of_int (dm_author m),
      im_message_id = str_of_int (dm_id m), im_platform = lit ''discord'', im_reply_to_message_id = reference_of m,
      im_message_thread_id = None, im_username = Some (dm_display_name m), im_status_message_id = status,
      im_timestamp = dm_time m\<rparr>"

definition on_discord_message :: "pystr list \<Rightarrow> bool \<Rightarrow> discord_message \<Rightarrow> discord_action" where
  "on_discord_message allowed has_handler m =
     (if dm_bot m then Ignored
      else if str_of_int (dm_channel m) \<notin> set allowed then Ignored
      else if dm_content m = []
        then (case get_audio_attachment (dm_attachments m) of Some a \<Rightarrow> VoiceNote a | None \<Rightarrow> Ignored)
      else if \<not> has_handler then Ignored
      else Handle (discord_incoming m (dm_content m) None))"

definition handle_voice_note :: "bool \<Rightarrow> bool \<Rightarrow> voice_start" where
  "handle_voice_note enabled has_handler =
     (if \<not> enabled then VoiceDisabled else if \<not> has_handler then VoiceIgnored else Transcribe)"

section \<open>Requests\<close>

definition truncate_text :: "pystr \<Rightarrow> nat \<Rightarrow> pystr" where
  "truncate_text text limit = (if length text \<le> limit then text else take (limit - 3) text @ lit ''...'')"

datatype dc_error = NotFound | DcForbidden | DcOther

datatype dc_request = DcSend int pystr "int option" | DcEdit int int pystr | DcDelete int int

text \<open>Whether a channel is known, what fetching a message does, and what a request does.\<close>

record dc_client =
  dc_channel :: "int \<Rightarrow> bool"
  dc_fetch :: "int \<Rightarrow> int \<Rightarrow> dc_error option"
  dc_do :: "dc_request \<Rightarrow> dc_error + int"

definition discord_send_message :: "dc_client \<Rightarrow> pystr \<Rightarrow> pystr \<Rightarrow> pystr option \<Rightarrow> dc_error + pystr" where
  "discord_send_message c chat_id text reply_to =
     (case py_int chat_id of
        None \<Rightarrow> Inl DcOther
      | Some ch \<Rightarrow>
          if \<not> dc_channel c ch then Inl DcOther
          else (case opt_int (if reply_to = Some [] then None else reply_to) of
                  None \<Rightarrow> Inl DcOther
                | Some r \<Rightarrow> map_sum id str_of_int (dc_do c (DcSend ch (truncate_text text DISCORD_MESSAGE_LIMIT) r))))"

definition discord_edit_message :: "dc_client \<Rightarrow> pystr \<Rightarrow> pystr \<Rightarrow> pystr \<Rightarrow> dc_error + unit" where
  "discord_edit_message c chat_id message_id text =
     (case py_int chat_id of
        None \<Rightarrow> Inl DcOther
      | Some ch \<Rightarrow>
          if \<not> dc_channel c ch then Inl DcOther
          else (case py_int message_id of
                  None \<Rightarrow> Inl DcOther
                | Some i \<Rightarrow>
                    (case dc_fetch c ch i of
                       Some NotFound \<Rightarrow> Inr ()
                     | Some e \<Rightarrow> Inl e
                     | None \<Rightarrow> map_sum id (\<lambda>_. ()) (dc_do c (DcEdit ch i (truncate_text text DISCORD_MESSAGE_LIMIT))))))"

text \<open>Here an unknown channel is no error, nor what is missing or forbidden.\<close>

definition tolerated :: "dc_error + 'a \<Rightarrow> dc_error + unit" where
  "tolerated r = (case r of Inl NotFound \<Rightarrow> Inr () | Inl DcForbidden \<Rightarrow> Inr () | Inl DcOther \<Rightarrow> Inl DcOther | Inr _ \<Rightarrow> Inr ())"

definition discord_delete_message :: "dc_client \<Rightarrow> pystr \<Rightarrow> pystr \<Rightarrow> dc_error + unit" where
  "discord_delete_message c chat_id message_id =
     (case py_int chat_id of
        None \<Rightarrow> Inl DcOther
      | Some ch \<Rightarrow>
          if \<not> dc_channel c ch then Inr ()
          else (case py_int message_id of
                  None \<Rightarrow> Inl DcOther
                | Some i \<Rightarrow>
                    tolerated (case dc_fetch c ch i of Some e \<Rightarrow> Inl e | None \<Rightarrow> dc_do c (DcDelete ch i))))"

definition discord_delete_messages :: "dc_client \<Rightarrow> pystr \<Rightarrow> pystr list \<Rightarrow> dc_error + unit" where
  "discord_delete_messages c chat_id ids = delete_each (discord_delete_message c chat_id) ids"

section \<open>Start\<close>

text \<open>Half a second for every look at the connection, thirty seconds at most.\<close>

fun wait_connected :: "(nat \<Rightarrow> bool) \<Rightarrow> nat \<Rightarrow> nat \<Rightarrow> bool" where
  "wait_connected up n 0 = up n"
| "wait_connected up n (Suc left) = (up n \<or> wait_connected up (n + 1) left)"

definition start_discord :: "pystr option \<Rightarrow> (nat \<Rightarrow> bool) \<Rightarrow> bool" where
  "start_discord bot_token up = (given bot_token \<and> wait_connected up 0 60)"

lemma wait_connected_iff: "wait_connected up n left \<longleftrightarrow> (\<exists>k \<le> left. up (n + k))"
proof (induction left arbitrary: n)
  case (Suc left)
  have "(\<exists>k \<le> Suc left. up (n + k)) \<longleftrightarrow> up n \<or> (\<exists>k \<le> left. up (n + 1 + k))"
  proof
    assume "\<exists>k \<le> Suc left. up (n + k)"
    then obtain k where "k \<le> Suc left" "up (n + k)" by blast
    then show "up n \<or> (\<exists>k \<le> left. up (n + 1 + k))" by (cases k) auto
  next
    assume "up n \<or> (\<exists>k \<le> left. up (n + 1 + k))"
    then show "\<exists>k \<le> Suc left. up (n + k)"
    proof
      assume "up n"
      then show ?thesis by (intro exI [of _ 0]) simp
    next
      assume "\<exists>k \<le> left. up (n + 1 + k)"
      then obtain k where "k \<le> left" "up (n + 1 + k)" by blast
      then show ?thesis by (intro exI [of _ "Suc k"]) simp
    qed
  qed
  with Suc show ?case by simp
qed simp

section \<open>Properties\<close>

text \<open>What is sent never exceeds the limit of the server, and a text within it is sent as it is.\<close>

theorem discord_text_within_limit:
  "length (truncate_text text DISCORD_MESSAGE_LIMIT) \<le> 2000
   \<and> (length text \<le> 2000 \<longleftrightarrow> truncate_text text DISCORD_MESSAGE_LIMIT = text)"
proof (cases "length text \<le> 2000")
  case False
  then have "length (truncate_text text DISCORD_MESSAGE_LIMIT) = 2000"
    by (simp add: truncate_text_def DISCORD_MESSAGE_LIMIT_def)
  moreover from this False have "truncate_text text DISCORD_MESSAGE_LIMIT \<noteq> text" by auto
  ultimately show ?thesis using False by simp
qed (simp add: truncate_text_def DISCORD_MESSAGE_LIMIT_def)

text \<open>Only messages of people, with a text, in an allowed channel reach the handler; without allowed channels none.\<close>

lemma discord_handled_allowed:
  assumes "on_discord_message allowed has_handler m = Handle i"
  shows "\<not> dm_bot m \<and> im_chat_id i \<in> set allowed \<and> im_text i \<noteq> [] \<and> has_handler"
  using assms by (auto simp: on_discord_message_def discord_incoming_def split: if_splits option.splits)

text \<open>Deleting messages is called best effort, but the first one that fails otherwise, such as one whose name is no
  number, keeps the others from being deleted.\<close>

lemma deletion_stops:
  assumes "dc_channel c ch" "py_int chat_id = Some ch" "py_int bad = None"
  shows "discord_delete_messages c chat_id (bad # ids) = Inl DcOther"
  using assms by (simp add: discord_delete_messages_def discord_delete_message_def)

end

