(* ===== verification/Realtime.thy ===== *)
theory Realtime
  imports ChatPlatforms "HOL-Library.Sublist"
begin

text \<open>
  The realtime channels of \<open>api/v1/realtime.py\<close> and the web adapter \<open>messaging/platforms/web.py\<close> on them: subscribers
  with bounded queues, from which the oldest event is dropped when a new one does not fit, events of clients, and the
  messages made of them. A message has a number of milliseconds as its name where the client gives none.
\<close>

section \<open>Subscribers\<close>

datatype rt_event = ServerEvent pystr pyval | ClientEvent pyval

record subscriber =
  sb_id :: nat
  sb_queue :: "rt_event list"

type_synonym connections = "(int, subscriber list) dict"

definition QUEUE_MAX_SIZE :: nat where
  "QUEUE_MAX_SIZE = 100"

definition subscribers_of :: "int \<Rightarrow> connections \<Rightarrow> subscriber list" where
  "subscribers_of workspace_id conns = (case dget conns workspace_id of None \<Rightarrow> [] | Some ss \<Rightarrow> ss)"

text \<open>\<open>put_nowait\<close>, after the oldest event was taken out of a full queue.\<close>

definition put_newest :: "rt_event \<Rightarrow> rt_event list \<Rightarrow> rt_event list" where
  "put_newest m q = (if length q < QUEUE_MAX_SIZE then q @ [m] else tl q @ [m])"

definition publish_workspace_event :: "int \<Rightarrow> rt_event \<Rightarrow> connections \<Rightarrow> connections" where
  "publish_workspace_event workspace_id m conns =
     (if subscribers_of workspace_id conns = [] then conns
      else dset workspace_id (map (\<lambda>s. s\<lparr>sb_queue := put_newest m (sb_queue s)\<rparr>) (subscribers_of workspace_id conns)) conns)"

definition add_subscriber :: "int \<Rightarrow> nat \<Rightarrow> connections \<Rightarrow> connections" where
  "add_subscriber workspace_id i conns =
     dset workspace_id (subscribers_of workspace_id conns @ [\<lparr>sb_id = i, sb_queue = []\<rparr>]) conns"

definition remove_subscriber :: "int \<Rightarrow> nat \<Rightarrow> connections \<Rightarrow> connections" where
  "remove_subscriber workspace_id i conns =
     (let rest = filter (\<lambda>s. sb_id s \<noteq> i) (subscribers_of workspace_id conns)
      in if rest = [] then ddel workspace_id conns else dset workspace_id rest conns)"

text \<open>A socket: it is registered, greeted, and served until either loop ends. The greeting is sent before the
  \<open>try\<close>, so an exception there leaves the registration.\<close>

definition workspace_socket :: "int \<Rightarrow> nat \<Rightarrow> bool \<Rightarrow> (connections \<Rightarrow> connections) \<Rightarrow> connections \<Rightarrow> connections" where
  "workspace_socket workspace_id i greeted served conns =
     (let registered = add_subscriber workspace_id i conns
      in if \<not> greeted then registered else remove_subscriber workspace_id i (served registered))"

section \<open>Handlers of client events\<close>

type_synonym handlers = "(int, nat list) dict"

definition handlers_of :: "int \<Rightarrow> handlers \<Rightarrow> nat list" where
  "handlers_of workspace_id hs = (case dget hs workspace_id of None \<Rightarrow> [] | Some xs \<Rightarrow> xs)"

definition register_handler :: "int \<Rightarrow> nat \<Rightarrow> handlers \<Rightarrow> handlers" where
  "register_handler workspace_id h hs =
     dset workspace_id (if h \<in> set (handlers_of workspace_id hs) then handlers_of workspace_id hs
                        else handlers_of workspace_id hs @ [h]) hs"

definition unregister_handler :: "int \<Rightarrow> nat \<Rightarrow> handlers \<Rightarrow> handlers" where
  "unregister_handler workspace_id h hs =
     (if handlers_of workspace_id hs = [] then hs
      else (let rest = filter (\<lambda>x. x \<noteq> h) (handlers_of workspace_id hs)
            in if rest = [] then ddel workspace_id hs else dset workspace_id rest hs))"

text \<open>What a client sends: an object of JSON, or the text itself.\<close>

definition client_payload :: "(pystr \<Rightarrow> pyval option) \<Rightarrow> pystr \<Rightarrow> pyval" where
  "client_payload loads data = (case loads data of Some (PDict d) \<Rightarrow> PDict d | _ \<Rightarrow> PStr data)"

text \<open>Every handler of the workspace is called, its exceptions are suppressed; then the event waits for room in the queue of
  its own socket: \<open>None\<close> is a receiver that is still waiting.\<close>

definition receive_text ::
    "(pystr \<Rightarrow> pyval option) \<Rightarrow> int \<Rightarrow> handlers \<Rightarrow> pystr \<Rightarrow> rt_event list \<Rightarrow> (nat \<times> pyval) list \<times> rt_event list option" where
  "receive_text loads workspace_id hs data q =
     (let payload = client_payload loads data
      in (map (\<lambda>h. (h, payload)) (handlers_of workspace_id hs),
          if length q < QUEUE_MAX_SIZE then Some (q @ [ClientEvent payload]) else None))"

text \<open>The sender takes the oldest event; when there is none for thirty seconds it sends a heartbeat.\<close>

datatype frame = Heartbeat int | Sent rt_event

definition sender_turn :: "int \<Rightarrow> rt_event list \<Rightarrow> frame \<times> rt_event list" where
  "sender_turn workspace_id q = (case q of [] \<Rightarrow> (Heartbeat workspace_id, []) | m # rest \<Rightarrow> (Sent m, rest))"

section \<open>The web adapter\<close>

record web_platform =
  wp_workspace :: int
  wp_handler :: bool
  wp_counter :: nat

definition web_text :: "(pyval \<Rightarrow> pystr) \<Rightarrow> pyval \<Rightarrow> pystr" where
  "web_text str v = (case v of PStr s \<Rightarrow> s | _ \<Rightarrow> str v)"

definition text_or :: "(pyval \<Rightarrow> pystr) \<Rightarrow> pyval \<Rightarrow> pystr \<Rightarrow> pystr" where
  "text_or str v otherwise = (if truthy v then web_text str v else otherwise)"

definition optional_text :: "(pyval \<Rightarrow> pystr) \<Rightarrow> pyval \<Rightarrow> pystr option" where
  "optional_text str v = (case v of PNone \<Rightarrow> None | _ \<Rightarrow> Some (web_text str v))"

definition workspace_chat :: "web_platform \<Rightarrow> pystr" where
  "workspace_chat w = lit ''workspace:'' @ str_of_int (wp_workspace w)"

definition web_in_id :: "int \<Rightarrow> pystr" where
  "web_in_id millis = lit ''web-in-'' @ str_of_int millis"

definition handle_client_event :: "(pyval \<Rightarrow> pystr) \<Rightarrow> int \<Rightarrow> time \<Rightarrow> web_platform \<Rightarrow> pyval \<Rightarrow> incoming_message option" where
  "handle_client_event str millis now w payload =
     (if \<not> wp_handler w then None
      else (case payload of
         PDict d \<Rightarrow>
           (case dget_or d ''text'' PNone of
              PStr t \<Rightarrow>
                if strip t = [] then None
                else Some \<lparr>im_text = t, im_chat_id = text_or str (dget_or d ''chat_id'' PNone) (workspace_chat w),
                   im_user_id = text_or str (dget_or d ''user_id'' PNone) (lit ''web-user''),
                   im_message_id = text_or str (dget_or d ''message_id'' PNone) (web_in_id millis),
                   im_platform = lit ''web'', im_reply_to_message_id = optional_text str (dget_or d ''reply_to_message_id'' PNone),
                   im_message_thread_id = optional_text str (dget_or d ''message_thread_id'' PNone),
                   im_username = optional_text str (dget_or d ''username'' PNone), im_status_message_id = None,
                   im_timestamp = now\<rparr>
            | _ \<Rightarrow> None)
       | PStr t \<Rightarrow>
           if strip t = [] then None
           else Some \<lparr>im_text = t, im_chat_id = workspace_chat w, im_user_id = lit ''web-user'',
              im_message_id = web_in_id millis, im_platform = lit ''web'', im_reply_to_message_id = None,
              im_message_thread_id = None, im_username = None, im_status_message_id = None, im_timestamp = now\<rparr>
       | _ \<Rightarrow> None))"

definition web_out_id :: "nat \<Rightarrow> pystr" where
  "web_out_id n = lit ''web-out-'' @ str_of_int (int n)"

definition web_send_message ::
    "pystr \<Rightarrow> pystr \<Rightarrow> pystr option \<Rightarrow> pystr option \<Rightarrow> pystr option \<Rightarrow> web_platform \<times> connections
      \<Rightarrow> (web_platform \<times> connections) \<times> pystr" where
  "web_send_message chat_id text reply_to parse_mode thread st =
     (case st of (w, conns) \<Rightarrow>
        (let n = wp_counter w + 1; message_id = web_out_id n;
             payload = PDict [(lit ''chat_id'', PStr chat_id), (lit ''text'', PStr text), (lit ''reply_to'', opt_str reply_to),
               (lit ''parse_mode'', opt_str parse_mode), (lit ''message_thread_id'', opt_str thread),
               (lit ''message_id'', PStr message_id)]
         in ((w\<lparr>wp_counter := n\<rparr>,
              publish_workspace_event (wp_workspace w) (ServerEvent (lit ''web.message.sent'') payload) conns), message_id)))"

definition web_edit_message :: "pystr \<Rightarrow> pystr \<Rightarrow> pystr \<Rightarrow> pystr option \<Rightarrow> web_platform \<Rightarrow> connections \<Rightarrow> connections" where
  "web_edit_message chat_id message_id text parse_mode w conns =
     publish_workspace_event (wp_workspace w) (ServerEvent (lit ''web.message.edited'')
       (PDict [(lit ''chat_id'', PStr chat_id), (lit ''message_id'', PStr message_id), (lit ''text'', PStr text),
          (lit ''parse_mode'', opt_str parse_mode)])) conns"

definition web_delete_message :: "pystr \<Rightarrow> pystr \<Rightarrow> web_platform \<Rightarrow> connections \<Rightarrow> connections" where
  "web_delete_message chat_id message_id w conns =
     publish_workspace_event (wp_workspace w) (ServerEvent (lit ''web.message.deleted'')
       (PDict [(lit ''chat_id'', PStr chat_id), (lit ''message_id'', PStr message_id)])) conns"

definition web_start :: "int \<Rightarrow> nat \<Rightarrow> handlers \<Rightarrow> web_platform \<times> handlers" where
  "web_start workspace_id h hs =
     (\<lparr>wp_workspace = workspace_id, wp_handler = False, wp_counter = 0\<rparr>, register_handler workspace_id h hs)"

definition web_stop :: "nat \<Rightarrow> web_platform \<Rightarrow> handlers \<Rightarrow> handlers" where
  "web_stop h w hs = unregister_handler (wp_workspace w) h hs"

section \<open>One subscriber as a state machine\<close>

text \<open>Events are published, the sender takes the oldest one, and a client event waits until there is room. The state has
  the queue, what was sent, and everything that was ever put.\<close>

record channel =
  ch_queue :: "rt_event list"
  ch_sent :: "rt_event list"
  ch_put :: "rt_event list"

inductive channel_step :: "channel \<Rightarrow> channel \<Rightarrow> bool" where
  published: "channel_step c (c\<lparr>ch_queue := put_newest m (ch_queue c), ch_put := ch_put c @ [m]\<rparr>)"
| sent: "ch_queue c = m # q \<Longrightarrow> channel_step c (c\<lparr>ch_queue := q, ch_sent := ch_sent c @ [m]\<rparr>)"
| client: "length (ch_queue c) < QUEUE_MAX_SIZE \<Longrightarrow>
    channel_step c (c\<lparr>ch_queue := ch_queue c @ [m], ch_put := ch_put c @ [m]\<rparr>)"

definition new_channel :: channel where
  "new_channel = \<lparr>ch_queue = [], ch_sent = [], ch_put = []\<rparr>"

definition channel_ok :: "channel \<Rightarrow> bool" where
  "channel_ok c \<longleftrightarrow> length (ch_queue c) \<le> QUEUE_MAX_SIZE \<and> subseq (ch_sent c @ ch_queue c) (ch_put c)
     \<and> suffix (ch_queue c) (ch_put c)"

lemma suffix_tl_append: "suffix q p \<Longrightarrow> suffix (tl q @ [m]) (p @ [m])"
  by (auto simp: suffix_def) (metis append_Cons append_Nil append_assoc list.collapse list.sel(2))

lemma subseq_snoc: "subseq xs ys \<Longrightarrow> subseq (xs @ [m]) (ys @ [m])"
  by (simp add: list_emb_append_mono)

lemma subseq_tl_middle: "subseq (s @ tl q) (s @ q)"
  by (cases q) (simp_all add: list_emb_append_mono list_emb_Cons)

lemma subseq_drop_middle: "subseq (s @ q) p \<Longrightarrow> subseq (s @ tl q @ [m]) (p @ [m])"
  using subseq_snoc [of "s @ tl q" p m] subseq_tl_middle [of s q] subseq_order.order_trans [of "s @ tl q" "s @ q" p]
  by simp

lemma channel_step_ok: "channel_step c c' \<Longrightarrow> channel_ok c \<Longrightarrow> channel_ok c'"
proof (induction rule: channel_step.induct)
  case (published c m)
  then show ?case
    using subseq_drop_middle [of "ch_sent c" "ch_queue c" "ch_put c" m] suffix_tl_append [of "ch_queue c" "ch_put c" m]
    by (auto simp: channel_ok_def put_newest_def QUEUE_MAX_SIZE_def list_emb_append_mono
        simp flip: append_assoc)
next
  case (sent c m q)
  then show ?case by (auto simp: channel_ok_def dest: suffix_ConsD)
next
  case (client c m)
  then show ?case by (auto simp: channel_ok_def list_emb_append_mono simp flip: append_assoc)
qed

text \<open>C31: Whatever happens, a subscriber gets the events in the order in which they were put, each at most once, and what
  waits for it are the newest events, at most a hundred.\<close>

theorem realtime_in_order:
  assumes "channel_step\<^sup>*\<^sup>* new_channel c"
  shows "length (ch_queue c) \<le> 100 \<and> subseq (ch_sent c @ ch_queue c) (ch_put c) \<and> suffix (ch_queue c) (ch_put c)"
proof -
  have "channel_ok c"
    using assms
  proof (induction rule: rtranclp_induct)
    case base
    show ?case by (simp add: new_channel_def channel_ok_def)
  next
    case (step y z)
    then show ?case using channel_step_ok by blast
  qed
  then show ?thesis by (simp add: channel_ok_def QUEUE_MAX_SIZE_def)
qed

theorem realtime_in_order_witness:
  "subseq [ClientEvent (PInt 1)] [ClientEvent (PInt 1), ClientEvent (PInt 2)]
   \<and> suffix [ClientEvent (PInt 2)] [ClientEvent (PInt 1), ClientEvent (PInt 2)]"
proof -
  let ?a = "ClientEvent (PInt 1)" and ?b = "ClientEvent (PInt 2)"
  have one: "channel_step new_channel \<lparr>ch_queue = [?a], ch_sent = [], ch_put = [?a]\<rparr>"
    using channel_step.client [of new_channel ?a] by (simp add: new_channel_def QUEUE_MAX_SIZE_def)
  have two: "channel_step \<lparr>ch_queue = [?a], ch_sent = [], ch_put = [?a]\<rparr> \<lparr>ch_queue = [?a, ?b], ch_sent = [], ch_put = [?a, ?b]\<rparr>"
    using channel_step.published [of "\<lparr>ch_queue = [?a], ch_sent = [], ch_put = [?a]\<rparr>" ?b]
    by (simp add: put_newest_def QUEUE_MAX_SIZE_def)
  have three: "channel_step \<lparr>ch_queue = [?a, ?b], ch_sent = [], ch_put = [?a, ?b]\<rparr> \<lparr>ch_queue = [?b], ch_sent = [?a], ch_put = [?a, ?b]\<rparr>"
    using channel_step.sent [of "\<lparr>ch_queue = [?a, ?b], ch_sent = [], ch_put = [?a, ?b]\<rparr>" ?a "[?b]"] by simp
  have "channel_step\<^sup>*\<^sup>* new_channel \<lparr>ch_queue = [?b], ch_sent = [?a], ch_put = [?a, ?b]\<rparr>"
    using one two three by (meson converse_rtranclp_into_rtranclp rtranclp.rtrancl_refl)
  from realtime_in_order [OF this] show ?thesis by simp
qed

section \<open>What the channels and the adapter do\<close>

lemma dget_subscribers_other:
  "w \<noteq> v \<Longrightarrow> subscribers_of w (dset v ss conns) = subscribers_of w conns"
  "w \<noteq> v \<Longrightarrow> subscribers_of w (ddel v conns) = subscribers_of w conns"
  by (simp_all add: subscribers_of_def dget_dset dget_ddel)

text \<open>A workspace never sees the events of another.\<close>

lemma publish_other_workspace:
  "w \<noteq> v \<Longrightarrow> subscribers_of w (publish_workspace_event v m conns) = subscribers_of w conns"
  by (simp add: publish_workspace_event_def dget_subscribers_other)

lemma publish_every_subscriber:
  "subscribers_of v (publish_workspace_event v m conns)
     = map (\<lambda>s. s\<lparr>sb_queue := put_newest m (sb_queue s)\<rparr>) (subscribers_of v conns)"
  by (simp add: publish_workspace_event_def) (simp add: subscribers_of_def dget_dset)

text \<open>A socket that was greeted leaves nothing; one that was not stays registered for good.\<close>

lemma served_socket_leaves:
  "i \<notin> sb_id ` set (subscribers_of w (workspace_socket w i True served conns))"
  by (auto simp: workspace_socket_def remove_subscriber_def Let_def subscribers_of_def dget_dset dget_ddel
      split: option.splits)

lemma failed_greeting_stays:
  "i \<in> sb_id ` set (subscribers_of w (workspace_socket w i False served conns))"
  by (simp add: workspace_socket_def add_subscriber_def subscribers_of_def dget_dset)

text \<open>What is registered twice is called once, and a stopped adapter is called no more.\<close>

lemma handlers_of_register: "h \<in> set (handlers_of w (register_handler w h hs))"
  by (simp add: register_handler_def handlers_of_def dget_dset split: option.split)

lemma stopped_adapter_silent:
  "h \<notin> fst ` set (fst (receive_text loads (wp_workspace w) (web_stop h w hs) data q))"
  by (auto simp: receive_text_def web_stop_def unregister_handler_def handlers_of_def Let_def dget_dset dget_ddel
      split: option.splits if_splits)

text \<open>The numbers of the messages start again with each start of the adapter.\<close>

lemma web_ids_restart:
  "snd (web_send_message c t r p th (fst (web_start w h hs), conns)) = web_out_id 1"
  by (simp add: web_send_message_def web_start_def Let_def)

lemma web_ids_distinct:
  "web_send_message c t r p th st = (st', i) \<Longrightarrow> snd (web_send_message c' t' r' p' th' st') \<noteq> i"
  by (auto simp: web_send_message_def web_out_id_def Let_def str_of_int_def lit_def dest!: nat_digits_inject split: prod.splits)

end
