(* ===== verification/Esp32.thy ===== *)
theory Esp32
  imports Realtime
begin

text \<open>
  The MQTT adapter \<open>messaging/platforms/esp32.py\<close>: topics of devices, commands that are published and messages made of
  what devices report. The reader of URLs, the client library, the decoder of bytes and the reader of JSON are inputs.
\<close>

section \<open>The adapter\<close>

definition slash :: pychar where
  "slash = Ch (CHR ''/'')"

definition strip_slashes :: "pystr \<Rightarrow> pystr" where
  "strip_slashes s = rev (dropWhile (\<lambda>c. c = slash) (rev (dropWhile (\<lambda>c. c = slash) s)))"

text \<open>The parts of a URL; reading the port may raise.\<close>

record url_parts =
  url_scheme :: pystr
  url_host :: "pystr option"
  url_port :: "int option result"

definition parse_broker_url :: "url_parts \<Rightarrow> (pystr \<times> int \<times> bool) result" where
  "parse_broker_url u =
     (if \<not> given (url_host u) then Inl (ValueError [])
      else
        (let use_tls = (url_scheme u = lit ''mqtts''); default_port = (if use_tls then 8883 else 1883)
         in rbind (url_port u) (\<lambda>p. Inr (the (url_host u), case p of Some n \<Rightarrow> n | None \<Rightarrow> default_port, use_tls))))"

record esp32 =
  es_prefix :: pystr
  es_secret :: "pystr option"
  es_client :: bool
  es_loop :: bool
  es_connected :: bool
  es_handler :: bool
  es_counter :: nat
  es_published :: "(pystr \<times> pyval) list"

definition new_esp32 :: "pystr \<Rightarrow> pystr option \<Rightarrow> esp32" where
  "new_esp32 topic_prefix secret =
     \<lparr>es_prefix = str_or (strip_slashes topic_prefix) (lit ''agent''), es_secret = secret, es_client = False,
      es_loop = False, es_connected = False, es_handler = False, es_counter = 0, es_published = []\<rparr>"

text \<open>The start: without the library there is no client, and what \<open>connect\<close> raises leaves a client that is not
  connected. The answer of the broker comes later, in \<open>on_mqtt_connect\<close>.\<close>

definition start_esp32 :: "url_parts \<Rightarrow> bool \<Rightarrow> py_error option \<Rightarrow> esp32 \<Rightarrow> esp32 \<times> unit result" where
  "start_esp32 u library connecting st =
     (case parse_broker_url u of
        Inl e \<Rightarrow> (st, Inl e)
      | Inr _ \<Rightarrow>
          (if \<not> library then (st\<lparr>es_loop := True\<rparr>, Inl Unmodelled)
           else case connecting of
                  Some e \<Rightarrow> (st\<lparr>es_loop := True, es_client := True\<rparr>, Inl e)
                | None \<Rightarrow> (st\<lparr>es_loop := True, es_client := True, es_connected := True\<rparr>, Inr ())))"

definition stop_esp32 :: "esp32 \<Rightarrow> esp32" where
  "stop_esp32 st = st\<lparr>es_connected := False\<rparr>"

section \<open>Commands\<close>

definition command_topic :: "pystr \<Rightarrow> pystr \<Rightarrow> pystr" where
  "command_topic base chat_id = base @ lit ''/'' @ chat_id @ lit ''/command''"

definition status_topic_pattern :: "pystr \<Rightarrow> pystr" where
  "status_topic_pattern base = base @ lit ''/+/status''"

definition publish_json :: "pystr \<Rightarrow> pyval \<Rightarrow> esp32 \<Rightarrow> esp32 \<times> unit result" where
  "publish_json topic payload st =
     (if \<not> es_client st then (st, Inl Unmodelled) else (st\<lparr>es_published := es_published st @ [(topic, payload)]\<rparr>, Inr ()))"

definition esp32_out_id :: "nat \<Rightarrow> pystr" where
  "esp32_out_id n = lit ''esp32-out-'' @ str_of_int (int n)"

definition esp32_send_message ::
    "pystr \<Rightarrow> pystr \<Rightarrow> pystr option \<Rightarrow> pystr option \<Rightarrow> pystr option \<Rightarrow> esp32 \<Rightarrow> esp32 \<times> pystr result" where
  "esp32_send_message chat_id text reply_to parse_mode thread st =
     (let n = es_counter st + 1;
          payload = PDict [(lit ''action'', PStr (lit ''send'')), (lit ''message_id'', PStr (esp32_out_id n)),
            (lit ''chat_id'', PStr chat_id), (lit ''text'', PStr text), (lit ''reply_to_message_id'', opt_str reply_to),
            (lit ''parse_mode'', opt_str parse_mode), (lit ''message_thread_id'', opt_str thread),
            (lit ''shared_secret'', opt_str (es_secret st))]
      in map_prod id (map_sum id (\<lambda>_. esp32_out_id n))
           (publish_json (command_topic (es_prefix st) chat_id) payload (st\<lparr>es_counter := n\<rparr>)))"

definition esp32_edit_message :: "pystr \<Rightarrow> pystr \<Rightarrow> pystr \<Rightarrow> pystr option \<Rightarrow> esp32 \<Rightarrow> esp32 \<times> unit result" where
  "esp32_edit_message chat_id message_id text parse_mode st =
     publish_json (command_topic (es_prefix st) chat_id)
       (PDict [(lit ''action'', PStr (lit ''edit'')), (lit ''chat_id'', PStr chat_id), (lit ''message_id'', PStr message_id),
          (lit ''text'', PStr text), (lit ''parse_mode'', opt_str parse_mode), (lit ''shared_secret'', opt_str (es_secret st))]) st"

definition esp32_delete_message :: "pystr \<Rightarrow> pystr \<Rightarrow> esp32 \<Rightarrow> esp32 \<times> unit result" where
  "esp32_delete_message chat_id message_id st =
     publish_json (command_topic (es_prefix st) chat_id)
       (PDict [(lit ''action'', PStr (lit ''delete'')), (lit ''chat_id'', PStr chat_id), (lit ''message_id'', PStr message_id),
          (lit ''shared_secret'', opt_str (es_secret st))]) st"

text \<open>A request of the queue: a task of its own, whose exception is dropped, or awaited.\<close>

definition queued_request :: "bool \<Rightarrow> (esp32 \<Rightarrow> esp32 \<times> 'a result) \<Rightarrow> esp32 \<Rightarrow> esp32 \<times> 'a option result" where
  "queued_request fire_and_forget request st =
     (case request st of (st', r) \<Rightarrow> (st', if fire_and_forget then Inr None else map_sum id Some r))"

definition esp32_queue_send ::
    "bool \<Rightarrow> pystr \<Rightarrow> pystr \<Rightarrow> pystr option \<Rightarrow> pystr option \<Rightarrow> pystr option \<Rightarrow> esp32 \<Rightarrow> esp32 \<times> pystr option result" where
  "esp32_queue_send faf chat_id text reply_to parse_mode thread =
     queued_request faf (esp32_send_message chat_id text reply_to parse_mode thread)"

definition esp32_queue_edit ::
    "bool \<Rightarrow> pystr \<Rightarrow> pystr \<Rightarrow> pystr \<Rightarrow> pystr option \<Rightarrow> esp32 \<Rightarrow> esp32 \<times> unit option result" where
  "esp32_queue_edit faf chat_id message_id text parse_mode =
     queued_request faf (esp32_edit_message chat_id message_id text parse_mode)"

definition esp32_queue_delete :: "bool \<Rightarrow> pystr \<Rightarrow> pystr \<Rightarrow> esp32 \<Rightarrow> esp32 \<times> unit option result" where
  "esp32_queue_delete faf chat_id message_id = queued_request faf (esp32_delete_message chat_id message_id)"

section \<open>Reports of devices\<close>

text \<open>The topic to subscribe to once the broker has accepted the connection.\<close>

definition on_mqtt_connect :: "int \<Rightarrow> esp32 \<Rightarrow> pystr option" where
  "on_mqtt_connect rc st = (if rc \<noteq> 0 then None else Some (status_topic_pattern (es_prefix st)))"

definition on_mqtt_message :: "(esp32 \<Rightarrow> 'm option) \<Rightarrow> esp32 \<Rightarrow> 'm option" where
  "on_mqtt_message handle st = (if \<not> es_loop st then None else handle st)"

definition esp32_in_id :: "int \<Rightarrow> pystr" where
  "esp32_in_id millis = lit ''esp32-in-'' @ str_of_int millis"

definition device_user :: "pystr \<Rightarrow> pystr" where
  "device_user device_id = lit ''esp32:'' @ device_id"

definition handle_status_message ::
    "(pystr \<Rightarrow> pyval option) \<Rightarrow> (pyval \<Rightarrow> pystr) \<Rightarrow> int \<Rightarrow> time \<Rightarrow> pystr \<Rightarrow> pystr \<Rightarrow> esp32 \<Rightarrow> incoming_message option" where
  "handle_status_message loads str millis now topic raw st =
     (let parts = split_char slash topic; decoded = strip raw
      in if \<not> es_handler st then None
         else if length parts < 3 then None
         else if decoded = [] then None
         else (let device_id = parts ! (length parts - 2) in
           (case loads decoded of
              None \<Rightarrow>
                Some \<lparr>im_text = decoded, im_chat_id = device_id, im_user_id = device_user device_id,
                  im_message_id = esp32_in_id millis, im_platform = lit ''esp32'', im_reply_to_message_id = None,
                  im_message_thread_id = None, im_username = None, im_status_message_id = None, im_timestamp = now\<rparr>
            | Some (PDict d) \<Rightarrow>
                (case dget_or d ''text'' PNone of
                   PStr t \<Rightarrow>
                     if strip t = [] then None
                     else Some \<lparr>im_text = t, im_chat_id = text_or str (dget_or d ''chat_id'' PNone) device_id,
                        im_user_id = text_or str (dget_or d ''user_id'' PNone) (device_user device_id),
                        im_message_id = text_or str (dget_or d ''message_id'' PNone) (esp32_in_id millis),
                        im_platform = lit ''esp32'',
                        im_reply_to_message_id = optional_text str (dget_or d ''reply_to_message_id'' PNone),
                        im_message_thread_id = optional_text str (dget_or d ''message_thread_id'' PNone),
                        im_username = optional_text str (dget_or d ''username'' PNone), im_status_message_id = None,
                        im_timestamp = now\<rparr>
                 | _ \<Rightarrow> None)
            | Some _ \<Rightarrow> None)))"

section \<open>Properties\<close>

lemma split_char_not_Nil [simp]: "split_char c s \<noteq> []"
  by (induction s) (auto split: list.split)

lemma split_char_append: "split_char c (a @ c # b) = split_char c a @ split_char c b"
  by (induction a) (auto split: list.split)

lemma split_char_free: "c \<notin> set s \<Longrightarrow> split_char c s = [s]"
  by (induction s) auto

lemma status_topic_parts:
  assumes "slash \<notin> set device"
  shows "split_char slash (base @ slash # device @ slash # lit ''status'') = split_char slash base @ [device, lit ''status'']"
proof -
  have "slash \<notin> set (lit ''status'')" by (simp add: slash_def lit_def)
  with assms show ?thesis by (simp add: split_char_append split_char_free)
qed

lemma device_of_topic:
  assumes "slash \<notin> set device"
    and parts: "parts = split_char slash (base @ slash # device @ slash # lit ''status'')"
  shows "3 \<le> length parts" "parts ! (length parts - 2) = device"
proof -
  have "1 \<le> length (split_char slash base)" by (cases "split_char slash base") simp_all
  then show "3 \<le> length parts" by (simp add: parts status_topic_parts [OF assms(1)])
  show "parts ! (length parts - 2) = device"
    by (simp add: parts status_topic_parts [OF assms(1)] nth_append)
qed

text \<open>C34: A report of plain text on the status topic of a device becomes a message of that device, and the answer sent to
  its chat is published on the command topic of the same device, whatever the prefix of the topics is.\<close>

theorem device_gets_answer:
  assumes "slash \<notin> set device" "es_handler st" "es_client st" "strip raw \<noteq> []" "loads (strip raw) = None"
  shows "\<exists>i. handle_status_message loads str millis now (es_prefix st @ lit ''/'' @ device @ lit ''/status'') raw st = Some i
    \<and> im_text i = strip raw
    \<and> map fst (es_published (fst (esp32_send_message (im_chat_id i) answer reply mode thread st)))
      = map fst (es_published st) @ [es_prefix st @ lit ''/'' @ device @ lit ''/command'']"
proof -
  have topic: "es_prefix st @ lit ''/'' @ device @ lit ''/status'' = es_prefix st @ slash # device @ slash # lit ''status''"
    by (simp add: lit_def slash_def)
  show ?thesis
    using assms device_of_topic [OF assms(1) refl, of "es_prefix st"]
    by (simp add: handle_status_message_def topic Let_def esp32_send_message_def publish_json_def command_topic_def)
qed

theorem device_gets_answer_witness:
  "\<exists>i. handle_status_message (\<lambda>_. None) (\<lambda>_. []) 5 0 (lit ''agent/a1/status'') (lit ''hot'') 
      (new_esp32 (lit ''/agent/'') None\<lparr>es_handler := True, es_client := True\<rparr>) = Some i \<and> im_text i = lit ''hot''"
proof -
  let ?st = "new_esp32 (lit ''/agent/'') None\<lparr>es_handler := True, es_client := True\<rparr>"
  have base: "es_prefix ?st = lit ''agent''"
    by (simp add: new_esp32_def strip_slashes_def str_or_def lit_def slash_def)
  have hot: "strip (lit ''hot'') = lit ''hot''" by (simp add: strip_def lstrip_def rstrip_def lit_def)
  have device: "slash \<notin> set (lit ''a1'')" by (simp add: slash_def lit_def)
  have topic: "lit ''agent/a1/status'' = es_prefix ?st @ lit ''/'' @ lit ''a1'' @ lit ''/status''"
    unfolding base by (simp add: lit_def)
  have some: "strip (lit ''hot'') \<noteq> []" unfolding hot by (simp add: lit_def)
  have on: "es_handler ?st" "es_client ?st" by simp_all
  show ?thesis
    unfolding topic using device_gets_answer [OF device on some, of "\<lambda>_. None" "\<lambda>_. []" 5 0] unfolding hot by blast
qed

text \<open>A report may name any other chat: the answer, with the shared secret, then goes to the command topic made of it.\<close>

lemma device_chooses_topic:
  assumes "slash \<notin> set device" "es_handler st" "es_client st" "strip raw \<noteq> []" "strip t \<noteq> []" "other \<noteq> []"
    and "loads (strip raw) = Some (PDict [(lit ''text'', PStr t), (lit ''chat_id'', PStr other)])"
  shows "\<exists>i. handle_status_message loads str millis now (es_prefix st @ lit ''/'' @ device @ lit ''/status'') raw st = Some i
    \<and> im_user_id i = device_user device
    \<and> map fst (es_published (fst (esp32_send_message (im_chat_id i) answer reply mode thread st)))
      = map fst (es_published st) @ [command_topic (es_prefix st) other]"
proof -
  have topic: "es_prefix st @ lit ''/'' @ device @ lit ''/status'' = es_prefix st @ slash # device @ slash # lit ''status''"
    by (simp add: lit_def slash_def)
  have lits: "lit ''text'' \<noteq> lit ''chat_id''" "lit ''user_id'' \<noteq> lit ''chat_id''" "lit ''user_id'' \<noteq> lit ''text''"
      "lit ''chat_id'' \<noteq> lit ''text''"
    by (simp_all add: lit_def)
  show ?thesis
    using assms device_of_topic [OF assms(1) refl, of "es_prefix st"] lits
    by (simp add: handle_status_message_def topic Let_def esp32_send_message_def publish_json_def command_topic_def
        dget_or_def text_or_def web_text_def)
qed

text \<open>The secret goes out with every command, but no report is checked for one.\<close>

lemma secret_not_checked:
  "handle_status_message loads str millis now topic raw (st\<lparr>es_secret := s\<rparr>)
     = handle_status_message loads str millis now topic raw st"
  by (simp add: handle_status_message_def)

text \<open>The adapter counts as connected even where the broker refuses the connection and nothing is subscribed.\<close>

lemma refused_counts_as_connected:
  assumes "parse_broker_url u = Inr h" "rc \<noteq> 0"
  shows "es_connected (fst (start_esp32 u True None st)) \<and> on_mqtt_connect rc (fst (start_esp32 u True None st)) = None"
  using assms by (simp add: start_esp32_def on_mqtt_connect_def)

text \<open>A request before the start raises where it is awaited, and is lost in silence where it is not.\<close>

lemma unstarted_request:
  assumes "\<not> es_client st"
  shows "snd (esp32_queue_send False c t r m th st) = Inl Unmodelled"
    and "snd (esp32_queue_send True c t r m th st) = Inr None \<and> es_published (fst (esp32_queue_send True c t r m th st)) = es_published st"
  using assms by (simp_all add: esp32_queue_send_def queued_request_def esp32_send_message_def publish_json_def Let_def)

end
