(* ===== verification/Directory.thy ===== *)
theory Directory
  imports WorkspaceApi
begin

text \<open>
  Users and workspaces: \<open>api/v1/routers/users.py\<close>, \<open>workspaces.py\<close>, the demo data of \<open>system.py\<close>, with the tables
  \<open>users\<close> and \<open>workspaces\<close> and what their keys do. A number that an insertion has drawn is not drawn again, whether the
  insertion became an update, or failed. The tables of tasks and automations are those of the task and automation
  endpoints; deleting a workspace deletes its rows there.
\<close>

section \<open>Tables\<close>

record user_row =
  us_id :: int
  us_external :: "pystr option"
  us_email :: "pystr option"
  us_name :: "pystr option"

record workspace_row =
  wr_id :: int
  wr_slug :: pystr
  wr_name :: pystr
  wr_owner :: "int option"

record directory =
  dr_users :: "user_row list"
  dr_workspaces :: "workspace_row list"
  dr_next_user :: int
  dr_next_workspace :: int
  dr_db :: database

datatype directory_reply =
    Users "user_row list"
  | Workspaces "workspace_row list"
  | Bootstrapped int int pystr pystr
  | WorkspaceRemoved int
  | DirectoryFail nat
  | DirectoryError
  | OfTables reply

definition valid_length :: "nat \<Rightarrow> nat \<Rightarrow> pystr \<Rightarrow> bool" where
  "valid_length least most s \<longleftrightarrow> least \<le> length s \<and> length s \<le> most"

definition valid_optional :: "nat \<Rightarrow> nat \<Rightarrow> pystr option \<Rightarrow> bool" where
  "valid_optional least most v = (case v of None \<Rightarrow> True | Some s \<Rightarrow> valid_length least most s)"

section \<open>Users\<close>

text \<open>\<open>INSERT ... ON CONFLICT (email) DO UPDATE\<close>; \<open>None\<close> when another user has the external name.\<close>

definition upsert_user :: "pystr option \<Rightarrow> pystr \<Rightarrow> pystr \<Rightarrow> directory \<Rightarrow> directory \<times> user_row option" where
  "upsert_user external email name d =
     (let drawn = d\<lparr>dr_next_user := dr_next_user d + 1\<rparr>
      in case filter (\<lambda>u. us_email u = Some email) (dr_users d) of
           [] \<Rightarrow>
             (if external \<noteq> None \<and> list_ex (\<lambda>u. us_external u = external) (dr_users d) then (drawn, None)
              else (let u = \<lparr>us_id = dr_next_user d, us_external = external, us_email = Some email, us_name = Some name\<rparr>
                    in (drawn\<lparr>dr_users := dr_users d @ [u]\<rparr>, Some u)))
         | u # _ \<Rightarrow>
             (if external \<noteq> None \<and> list_ex (\<lambda>x. us_external x = external \<and> us_id x \<noteq> us_id u) (dr_users d) then (drawn, None)
              else (let u' = u\<lparr>us_external := (if external = None then us_external u else external), us_name := Some name\<rparr>
                    in (drawn\<lparr>dr_users := map (\<lambda>x. if us_id x = us_id u then u' else x) (dr_users d)\<rparr>, Some u'))))"

definition user_matches :: "framework \<Rightarrow> pystr option \<Rightarrow> user_row \<Rightarrow> bool" where
  "user_matches fw q u =
     (case q of
        None \<Rightarrow> True
      | Some s \<Rightarrow>
          strip s = []
          \<or> (let pattern = lit ''%'' @ strip s @ lit ''%''; shown = (\<lambda>v. case v of None \<Rightarrow> [] | Some t \<Rightarrow> t)
             in fw_ilike fw pattern (shown (us_name u)) \<or> fw_ilike fw pattern (shown (us_email u))))"

definition list_users :: "framework \<Rightarrow> pystr option \<Rightarrow> int \<Rightarrow> int \<Rightarrow> directory \<Rightarrow> directory \<times> directory_reply" where
  "list_users fw q limit offset d = (d, Users (page us_id limit offset (filter (user_matches fw q) (dr_users d))))"

definition get_user :: "int \<Rightarrow> directory \<Rightarrow> directory \<times> directory_reply" where
  "get_user user_id d =
     (d, case filter (\<lambda>u. us_id u = user_id) (dr_users d) of [] \<Rightarrow> DirectoryFail 404 | u # _ \<Rightarrow> Users [u])"

definition create_user :: "pystr option \<Rightarrow> pystr \<Rightarrow> pystr \<Rightarrow> directory \<Rightarrow> directory \<times> directory_reply" where
  "create_user external email name d =
     (if \<not> (valid_length 3 255 email \<and> valid_length 1 200 name \<and> valid_optional 0 255 external) then (d, DirectoryFail 422)
      else
        (case upsert_user (if external = Some [] then None else map_option strip external) (lower (strip email)) (strip name) d of
           (d', None) \<Rightarrow> (d', DirectoryError)
         | (d', Some u) \<Rightarrow> (d', Users [u])))"

record user_update =
  uu_email :: "pystr option"
  uu_name :: "pystr option"
  uu_external :: "pystr option"

definition apply_user_update :: "user_update \<Rightarrow> user_row \<Rightarrow> user_row" where
  "apply_user_update v u = u\<lparr>
     us_email := (case uu_email v of None \<Rightarrow> us_email u | Some s \<Rightarrow> Some (lower (strip s))),
     us_name := (case uu_name v of None \<Rightarrow> us_name u | Some s \<Rightarrow> Some (strip s)),
     us_external := (case uu_external v of None \<Rightarrow> us_external u | Some s \<Rightarrow> Some (strip s))\<rparr>"

text \<open>Two rows that the unique keys do not allow together; missing values are never equal.\<close>

definition users_clash :: "user_row \<Rightarrow> user_row \<Rightarrow> bool" where
  "users_clash u v \<longleftrightarrow> us_id u \<noteq> us_id v
     \<and> (us_email u \<noteq> None \<and> us_email u = us_email v \<or> us_external u \<noteq> None \<and> us_external u = us_external v)"

definition update_user :: "int \<Rightarrow> user_update \<Rightarrow> directory \<Rightarrow> directory \<times> directory_reply" where
  "update_user user_id v d =
     (if \<not> (valid_optional 3 255 (uu_email v) \<and> valid_optional 1 200 (uu_name v) \<and> valid_optional 0 255 (uu_external v))
      then (d, DirectoryFail 422)
      else if uu_email v = None \<and> uu_name v = None \<and> uu_external v = None then (d, DirectoryFail 400)
      else
        (case filter (\<lambda>u. us_id u = user_id) (dr_users d) of
           [] \<Rightarrow> (d, DirectoryFail 404)
         | u # _ \<Rightarrow>
             (let u' = apply_user_update v u
              in if list_ex (users_clash u') (dr_users d) then (d, DirectoryError)
                 else (d\<lparr>dr_users := map (\<lambda>x. if us_id x = user_id then u' else x) (dr_users d)\<rparr>, Users [u']))))"

section \<open>Workspaces\<close>

definition announce :: "int \<Rightarrow> string \<Rightarrow> directory \<Rightarrow> directory" where
  "announce workspace_id event_type d = d\<lparr>dr_db := publish workspace_id event_type (dr_db d)\<rparr>"

text \<open>\<open>INSERT ... ON CONFLICT (slug) DO UPDATE\<close> of the name and the owner.\<close>

definition upsert_workspace :: "pystr \<Rightarrow> pystr \<Rightarrow> int \<Rightarrow> directory \<Rightarrow> directory \<times> workspace_row" where
  "upsert_workspace slug name owner d =
     (let drawn = d\<lparr>dr_next_workspace := dr_next_workspace d + 1\<rparr>
      in case filter (\<lambda>w. wr_slug w = slug) (dr_workspaces d) of
           [] \<Rightarrow>
             (let w = \<lparr>wr_id = dr_next_workspace d, wr_slug = slug, wr_name = name, wr_owner = Some owner\<rparr>
              in (drawn\<lparr>dr_workspaces := dr_workspaces d @ [w],
                    dr_db := (dr_db d)\<lparr>db_workspaces := db_workspaces (dr_db d) @ [wr_id w]\<rparr>\<rparr>, w))
         | w # _ \<Rightarrow>
             (let w' = w\<lparr>wr_name := name, wr_owner := Some owner\<rparr>
              in (drawn\<lparr>dr_workspaces := map (\<lambda>x. if wr_id x = wr_id w then w' else x) (dr_workspaces d)\<rparr>, w')))"

definition list_workspaces :: "int \<Rightarrow> int \<Rightarrow> directory \<Rightarrow> directory \<times> directory_reply" where
  "list_workspaces limit offset d = (d, Workspaces (page wr_id limit offset (dr_workspaces d)))"

definition get_workspace :: "int \<Rightarrow> directory \<Rightarrow> directory \<times> directory_reply" where
  "get_workspace workspace_id d =
     (d, case filter (\<lambda>w. wr_id w = workspace_id) (dr_workspaces d) of [] \<Rightarrow> DirectoryFail 404 | w # _ \<Rightarrow> Workspaces [w])"

text \<open>Both statements are one transaction; the second one cannot fail.\<close>

definition create_workspace :: "pystr \<Rightarrow> pystr \<Rightarrow> pystr \<Rightarrow> pystr \<Rightarrow> directory \<Rightarrow> directory \<times> directory_reply" where
  "create_workspace slug name owner_email owner_name d =
     (if \<not> (valid_length 3 100 slug \<and> valid_length 1 200 name \<and> valid_length 3 255 owner_email \<and> valid_length 1 200 owner_name)
      then (d, DirectoryFail 422)
      else
        (case upsert_user None (lower (strip owner_email)) (strip owner_name) d of
           (d', None) \<Rightarrow> (d', DirectoryError)
         | (d', Some u) \<Rightarrow>
             (case upsert_workspace (lower (strip slug)) (strip name) (us_id u) d' of
                (d'', w) \<Rightarrow> (announce (wr_id w) ''workspace.created'' d'', Workspaces [w]))))"

record workspace_update =
  wu_slug :: "pystr option"
  wu_name :: "pystr option"
  wu_owner :: "int option"

definition apply_workspace_update :: "workspace_update \<Rightarrow> workspace_row \<Rightarrow> workspace_row" where
  "apply_workspace_update v w = w\<lparr>
     wr_slug := (case wu_slug v of None \<Rightarrow> wr_slug w | Some s \<Rightarrow> lower (strip s)),
     wr_name := (case wu_name v of None \<Rightarrow> wr_name w | Some s \<Rightarrow> strip s),
     wr_owner := (case wu_owner v of None \<Rightarrow> wr_owner w | Some i \<Rightarrow> Some i)\<rparr>"

text \<open>The slug is unique and the owner a user.\<close>

definition update_workspace :: "int \<Rightarrow> workspace_update \<Rightarrow> directory \<Rightarrow> directory \<times> directory_reply" where
  "update_workspace workspace_id v d =
     (if \<not> (valid_optional 3 100 (wu_slug v) \<and> valid_optional 1 200 (wu_name v)
          \<and> (case wu_owner v of None \<Rightarrow> True | Some i \<Rightarrow> 1 \<le> i))
      then (d, DirectoryFail 422)
      else if wu_slug v = None \<and> wu_name v = None \<and> wu_owner v = None then (d, DirectoryFail 400)
      else
        (case filter (\<lambda>w. wr_id w = workspace_id) (dr_workspaces d) of
           [] \<Rightarrow> (d, DirectoryFail 404)
         | w # _ \<Rightarrow>
             (let w' = apply_workspace_update v w
              in if list_ex (\<lambda>x. wr_slug x = wr_slug w' \<and> wr_id x \<noteq> workspace_id) (dr_workspaces d)
                    \<or> (case wu_owner v of None \<Rightarrow> False | Some i \<Rightarrow> i \<notin> us_id ` set (dr_users d))
                 then (d, DirectoryError)
                 else (announce workspace_id ''workspace.updated''
                         (d\<lparr>dr_workspaces := map (\<lambda>x. if wr_id x = workspace_id then w' else x) (dr_workspaces d)\<rparr>),
                       Workspaces [w']))))"

definition delete_workspace :: "int \<Rightarrow> directory \<Rightarrow> directory \<times> directory_reply" where
  "delete_workspace workspace_id d =
     (let deleted = int (length (filter (\<lambda>w. wr_id w = workspace_id) (dr_workspaces d)))
      in if deleted = 0 then (d, DirectoryFail 404)
         else
           (announce workspace_id ''workspace.deleted''
              (d\<lparr>dr_workspaces := filter (\<lambda>w. wr_id w \<noteq> workspace_id) (dr_workspaces d),
                 dr_db := (dr_db d)\<lparr>
                   db_workspaces := filter (\<lambda>i. i \<noteq> workspace_id) (db_workspaces (dr_db d)),
                   db_tasks := filter (\<lambda>t. tk_workspace t \<noteq> workspace_id) (db_tasks (dr_db d)),
                   db_automations := filter (\<lambda>a. au_workspace a \<noteq> workspace_id) (db_automations (dr_db d))\<rparr>\<rparr>),
            WorkspaceRemoved deleted))"

definition bootstrap_demo :: "directory \<Rightarrow> directory \<times> directory_reply" where
  "bootstrap_demo d =
     (case upsert_user None (lit ''demo@local.agent'') (lit ''Demo Owner'') d of
        (d', None) \<Rightarrow> (d', DirectoryError)
      | (d', Some u) \<Rightarrow>
          (case upsert_workspace (lit ''demo-workspace'') (lit ''Demo Workspace'') (us_id u) d' of
             (d'', w) \<Rightarrow> (d'', Bootstrapped (us_id u) (wr_id w) (wr_slug w) (wr_name w))))"

text \<open>The status of the system: whether the database can be reached. What \<open>connect\<close> raises is not caught.\<close>

definition can_connect :: "pystr \<Rightarrow> py_error option \<Rightarrow> bool result" where
  "can_connect database_url connecting =
     (if strip database_url = [] then Inr False else case connecting of None \<Rightarrow> Inr True | Some e \<Rightarrow> Inl e)"

definition system_status :: "pystr \<Rightarrow> pystr \<Rightarrow> pystr \<Rightarrow> py_error option \<Rightarrow> (bool \<times> pystr \<times> pystr) result" where
  "system_status database_url provider environment connecting =
     (if strip database_url = [] then Inr (False, provider, environment)
      else rbind (can_connect database_url connecting) (\<lambda>ok. Inr (ok, provider, environment)))"

section \<open>Calls of all kinds\<close>

datatype directory_call =
    ListUsers "pystr option" int int
  | GetUser int
  | CreateUser "pystr option" pystr pystr
  | UpdateUser int user_update
  | ListWorkspaces int int
  | GetWorkspace int
  | CreateWorkspace pystr pystr pystr pystr
  | UpdateWorkspace int workspace_update
  | DeleteWorkspace int
  | BootstrapDemo
  | TableRequest http_request

fun serve ::
    "framework \<Rightarrow> bool \<Rightarrow> (char list \<Rightarrow> pyval option) \<Rightarrow> directory_call \<Rightarrow> directory \<Rightarrow> directory \<times> directory_reply" where
  "serve fw enforced loads (ListUsers q limit offset) d = list_users fw q limit offset d"
| "serve fw enforced loads (GetUser i) d = get_user i d"
| "serve fw enforced loads (CreateUser external email name) d = create_user external email name d"
| "serve fw enforced loads (UpdateUser i v) d = update_user i v d"
| "serve fw enforced loads (ListWorkspaces limit offset) d = list_workspaces limit offset d"
| "serve fw enforced loads (GetWorkspace i) d = get_workspace i d"
| "serve fw enforced loads (CreateWorkspace slug name email owner) d = create_workspace slug name email owner d"
| "serve fw enforced loads (UpdateWorkspace i v) d = update_workspace i v d"
| "serve fw enforced loads (DeleteWorkspace i) d = delete_workspace i d"
| "serve fw enforced loads BootstrapDemo d = bootstrap_demo d"
| "serve fw enforced loads (TableRequest req) d =
     (case api_request fw enforced loads req (dr_db d) of (db, r) \<Rightarrow> (d\<lparr>dr_db := db\<rparr>, OfTables r))"

section \<open>The keys of the tables\<close>

text \<open>Numbers are unique and below the next one; no two users clash; slugs are unique; owners are users; and every task
  and automation belongs to a workspace that exists.\<close>

definition users_ok :: "user_row list \<Rightarrow> int \<Rightarrow> bool" where
  "users_ok us n \<longleftrightarrow> distinct (map us_id us) \<and> (\<forall>u \<in> set us. us_id u < n) \<and> (\<forall>u \<in> set us. \<forall>v \<in> set us. \<not> users_clash u v)"

definition workspaces_ok :: "workspace_row list \<Rightarrow> user_row list \<Rightarrow> int \<Rightarrow> bool" where
  "workspaces_ok ws us n \<longleftrightarrow> distinct (map wr_id ws) \<and> (\<forall>w \<in> set ws. wr_id w < n)
     \<and> (\<forall>w \<in> set ws. \<forall>i. wr_owner w = Some i \<longrightarrow> i \<in> us_id ` set us)
     \<and> (\<forall>w \<in> set ws. \<forall>x \<in> set ws. wr_slug w = wr_slug x \<longrightarrow> wr_id w = wr_id x)"

definition tables_ok :: "database \<Rightarrow> bool" where
  "tables_ok db \<longleftrightarrow> (\<forall>t \<in> set (db_tasks db). tk_workspace t \<in> set (db_workspaces db))
     \<and> (\<forall>a \<in> set (db_automations db). au_workspace a \<in> set (db_workspaces db))"

definition directory_ok :: "directory \<Rightarrow> bool" where
  "directory_ok d \<longleftrightarrow> users_ok (dr_users d) (dr_next_user d)
     \<and> workspaces_ok (dr_workspaces d) (dr_users d) (dr_next_workspace d)
     \<and> db_workspaces (dr_db d) = map wr_id (dr_workspaces d) \<and> tables_ok (dr_db d)"

lemma map_replaced:
  "(\<And>x. x \<in> set xs \<Longrightarrow> P x \<Longrightarrow> k y = k x) \<Longrightarrow> map k (map (\<lambda>x. if P x then y else x) xs) = map k xs"
  by auto

lemma in_replaced: "z \<in> set (map (\<lambda>x. if P x then y else x) xs) \<Longrightarrow> z = y \<or> z \<in> set xs \<and> \<not> P z"
  by (auto split: if_splits)

lemma filter_Cons_mem: "filter P xs = x # ys \<Longrightarrow> x \<in> set xs \<and> P x"
  by (auto dest: filter_eq_ConsD)

lemma users_clash_sym: "users_clash u v \<longleftrightarrow> users_clash v u"
  unfolding users_clash_def by metis

lemma users_ok_replace:
  assumes "users_ok us n" "n \<le> n'" "u \<in> set us" "us_id u' = us_id u" "\<not> list_ex (users_clash u') us"
  shows "users_ok (map (\<lambda>x. if us_id x = us_id u then u' else x) us) n'"
proof -
  let ?new = "map (\<lambda>x. if us_id x = us_id u then u' else x) us"
  have ids: "map us_id ?new = map us_id us" using assms(4) by (intro map_replaced) simp
  have small: "us_id x < n'" if "x \<in> set ?new" for x
    using in_replaced [OF that] assms unfolding users_ok_def by fastforce
  have "\<not> users_clash x y" if "x \<in> set ?new" "y \<in> set ?new" for x y
  proof -
    have old: "\<not> users_clash v w" if "v \<in> set us" "w \<in> set us" for v w
      using assms(1) that unfolding users_ok_def by blast
    have one: "\<not> users_clash u' w" if "w \<in> set us" for w using assms(5) that by (auto simp: list_ex_iff)
    then have other: "\<not> users_clash w u'" if "w \<in> set us" for w using that users_clash_sym by blast
    have self: "\<not> users_clash u' u'" by (simp add: users_clash_def)
    from in_replaced [OF that(1)] in_replaced [OF that(2)] show ?thesis using old one other self by blast
  qed
  moreover have "distinct (map us_id ?new)" unfolding ids using assms(1) by (simp add: users_ok_def)
  ultimately show ?thesis using small unfolding users_ok_def by blast
qed

lemma users_ok_add:
  assumes "users_ok us n" "us_id u = n" "\<not> list_ex (users_clash u) us"
  shows "users_ok (us @ [u]) (n + 1)"
proof -
  have "\<not> users_clash u u" by (simp add: users_clash_def)
  with assms users_clash_sym show ?thesis
    unfolding users_ok_def list_ex_iff by (auto simp: image_iff)
qed

lemma users_ok_mono: "users_ok us n \<Longrightarrow> n \<le> n' \<Longrightarrow> users_ok us n'"
  by (auto simp: users_ok_def)

text \<open>What \<open>upsert_user\<close> leaves: no user is lost, and the one that is returned is in the table.\<close>

lemma upsert_user_ok:
  assumes "users_ok (dr_users d) (dr_next_user d)" "upsert_user external email name d = (d', r)"
  shows "users_ok (dr_users d') (dr_next_user d') \<and> us_id ` set (dr_users d) \<subseteq> us_id ` set (dr_users d')
    \<and> dr_workspaces d' = dr_workspaces d \<and> dr_next_workspace d' = dr_next_workspace d \<and> dr_db d' = dr_db d
    \<and> (\<forall>u. r = Some u \<longrightarrow> u \<in> set (dr_users d') \<and> us_email u = Some email \<and> us_name u = Some name)"
proof (cases "filter (\<lambda>u. us_email u = Some email) (dr_users d)")
  case Nil
  then have fresh: "us_email v \<noteq> Some email" if "v \<in> set (dr_users d)" for v
    using that by (auto simp: filter_empty_conv)
  let ?u = "\<lparr>us_id = dr_next_user d, us_external = external, us_email = Some email, us_name = Some name\<rparr>"
  have "\<not> list_ex (users_clash ?u) (dr_users d)" if "\<not> (external \<noteq> None \<and> list_ex (\<lambda>u. us_external u = external) (dr_users d))"
    using that fresh by (fastforce simp: list_ex_iff users_clash_def)
  with assms Nil show ?thesis
    using users_ok_add [OF assms(1), of ?u] users_ok_mono [OF assms(1), of "dr_next_user d + 1"]
    by (auto simp: upsert_user_def Let_def split: if_splits)
next
  case (Cons u rest)
  then have u: "u \<in> set (dr_users d)" "us_email u = Some email" by (auto dest: filter_Cons_mem)
  let ?u = "u\<lparr>us_external := (if external = None then us_external u else external), us_name := Some name\<rparr>"
  have "\<not> users_clash ?u v"
    if "\<not> (external \<noteq> None \<and> list_ex (\<lambda>x. us_external x = external \<and> us_id x \<noteq> us_id u) (dr_users d))"
      "v \<in> set (dr_users d)" for v
  proof -
    from assms(1) u that(2) have "\<not> users_clash u v" unfolding users_ok_def by blast
    with that u show ?thesis by (auto simp: users_clash_def list_ex_iff)
  qed
  then have "\<not> list_ex (users_clash ?u) (dr_users d)"
    if "\<not> (external \<noteq> None \<and> list_ex (\<lambda>x. us_external x = external \<and> us_id x \<noteq> us_id u) (dr_users d))"
    using that by (auto simp: list_ex_iff)
  note replaced = users_ok_replace [OF assms(1), of "dr_next_user d + 1" u ?u, OF _ u(1) _ this]
  have ids: "us_id ` set (dr_users d) \<subseteq> us_id ` set (map (\<lambda>x. if us_id x = us_id u then ?u else x) (dr_users d))"
  proof -
    have "map us_id (map (\<lambda>x. if us_id x = us_id u then ?u else x) (dr_users d)) = map us_id (dr_users d)"
      by (intro map_replaced) simp
    then show ?thesis by (metis list.set_map order_refl)
  qed
  have there: "?u \<in> set (map (\<lambda>x. if us_id x = us_id u then ?u else x) (dr_users d))" using u by force
  show ?thesis
  proof (cases "external \<noteq> None \<and> list_ex (\<lambda>x. us_external x = external \<and> us_id x \<noteq> us_id u) (dr_users d)")
    case True
    with assms Cons users_ok_mono [OF assms(1), of "dr_next_user d + 1"] show ?thesis
      by (auto simp: upsert_user_def Let_def)
  next
    case False
    with assms(2) Cons have "d' = d\<lparr>dr_next_user := dr_next_user d + 1,
        dr_users := map (\<lambda>x. if us_id x = us_id u then ?u else x) (dr_users d)\<rparr>" "r = Some ?u"
      by (auto simp: upsert_user_def Let_def)
    with replaced [OF _ _ False] ids there u show ?thesis by simp
  qed
qed

lemma workspaces_ok_users:
  "workspaces_ok ws us n \<Longrightarrow> us_id ` set us \<subseteq> us_id ` set vs \<Longrightarrow> workspaces_ok ws vs n"
  unfolding workspaces_ok_def by blast

lemma workspaces_ok_replace:
  assumes ok: "workspaces_ok ws us n" and more: "n \<le> n'" and w: "w \<in> set ws" and same: "wr_id w' = wr_id w"
    and owner: "\<And>i. wr_owner w' = Some i \<Longrightarrow> i \<in> us_id ` set us"
    and slug: "\<And>x. x \<in> set ws \<Longrightarrow> wr_slug x = wr_slug w' \<Longrightarrow> wr_id x = wr_id w"
  shows "workspaces_ok (map (\<lambda>x. if wr_id x = wr_id w then w' else x) ws) us n'
    \<and> map wr_id (map (\<lambda>x. if wr_id x = wr_id w then w' else x) ws) = map wr_id ws"
proof -
  let ?new = "map (\<lambda>x. if wr_id x = wr_id w then w' else x) ws"
  have ids: "map wr_id ?new = map wr_id ws" using same by (intro map_replaced) simp
  have "distinct (map wr_id ?new)" unfolding ids using ok by (simp add: workspaces_ok_def)
  moreover have "wr_id x < n' \<and> (\<forall>i. wr_owner x = Some i \<longrightarrow> i \<in> us_id ` set us)" if "x \<in> set ?new" for x
  proof -
    have small: "wr_id v < n'" if "v \<in> set ws" for v
      using ok more that unfolding workspaces_ok_def by (metis order_less_le_trans)
    have owners: "i \<in> us_id ` set us" if "v \<in> set ws" "wr_owner v = Some i" for v i
      using ok that unfolding workspaces_ok_def by blast
    from in_replaced [OF that] show ?thesis using small owners w same owner by metis
  qed
  moreover have "wr_id x = wr_id y" if "x \<in> set ?new" "y \<in> set ?new" "wr_slug x = wr_slug y" for x y
  proof -
    have old: "wr_id v = wr_id z" if "v \<in> set ws" "z \<in> set ws" "wr_slug v = wr_slug z" for v z
      using ok that unfolding workspaces_ok_def by blast
    from in_replaced [OF that(1)] in_replaced [OF that(2)] that(3) show ?thesis
      using old slug same by metis
  qed
  ultimately show ?thesis using ids unfolding workspaces_ok_def by blast
qed

lemma workspaces_ok_add:
  assumes "workspaces_ok ws us n" "wr_id w = n" "\<And>i. wr_owner w = Some i \<Longrightarrow> i \<in> us_id ` set us"
    and "\<And>x. x \<in> set ws \<Longrightarrow> wr_slug x \<noteq> wr_slug w"
  shows "workspaces_ok (ws @ [w]) us (n + 1)"
proof -
  from assms(1) have ok: "distinct (map wr_id ws)" and small: "\<And>x. x \<in> set ws \<Longrightarrow> wr_id x < n"
    and owners: "\<And>x i. x \<in> set ws \<Longrightarrow> wr_owner x = Some i \<Longrightarrow> i \<in> us_id ` set us"
    unfolding workspaces_ok_def by blast+
  have "wr_id w \<notin> set (map wr_id ws)" using assms(2) by (auto dest: small)
  with ok have "distinct (map wr_id (ws @ [w]))" by simp
  moreover have "wr_id x < n + 1" if "x \<in> set (ws @ [w])" for x
    using that small [of x] assms(2) by auto
  moreover have "i \<in> us_id ` set us" if "x \<in> set (ws @ [w])" "wr_owner x = Some i" for x i
    using that owners assms(3) by (cases "x = w") simp_all
  moreover have "wr_id x = wr_id y" if "x \<in> set (ws @ [w])" "y \<in> set (ws @ [w])" "wr_slug x = wr_slug y" for x y
  proof -
    have old: "wr_id v = wr_id z" if "v \<in> set ws" "z \<in> set ws" "wr_slug v = wr_slug z" for v z
      using assms(1) that unfolding workspaces_ok_def by blast
    have "x = w \<or> x \<in> set ws" "y = w \<or> y \<in> set ws" using that(1,2) by auto
    with that(3) show ?thesis using old assms(4) by metis
  qed
  ultimately show ?thesis unfolding workspaces_ok_def by blast
qed

lemma upsert_workspace_ok:
  assumes ok: "directory_ok d" and owner: "owner \<in> us_id ` set (dr_users d)" and up: "upsert_workspace slug name owner d = (d', w)"
  shows "directory_ok d' \<and> dr_users d' = dr_users d \<and> w \<in> set (dr_workspaces d') \<and> wr_slug w = slug \<and> wr_owner w = Some owner"
proof (cases "filter (\<lambda>w. wr_slug w = slug) (dr_workspaces d)")
  case Nil
  then have fresh: "\<And>x. x \<in> set (dr_workspaces d) \<Longrightarrow> wr_slug x \<noteq> slug" by (auto simp: filter_empty_conv)
  let ?w = "\<lparr>wr_id = dr_next_workspace d, wr_slug = slug, wr_name = name, wr_owner = Some owner\<rparr>"
  have "workspaces_ok (dr_workspaces d @ [?w]) (dr_users d) (dr_next_workspace d + 1)"
    using ok owner fresh by (intro workspaces_ok_add) (auto simp: directory_ok_def)
  with up Nil ok show ?thesis by (auto simp: upsert_workspace_def Let_def directory_ok_def tables_ok_def)
next
  case (Cons x rest)
  then have x: "x \<in> set (dr_workspaces d)" "wr_slug x = slug" by (auto dest: filter_Cons_mem)
  let ?w = "x\<lparr>wr_name := name, wr_owner := Some owner\<rparr>"
  have slugs: "wr_id y = wr_id x" if "y \<in> set (dr_workspaces d)" "wr_slug y = slug" for y
    using ok x that unfolding directory_ok_def workspaces_ok_def by metis
  have "workspaces_ok (map (\<lambda>y. if wr_id y = wr_id x then ?w else y) (dr_workspaces d)) (dr_users d) (dr_next_workspace d + 1)
      \<and> map wr_id (map (\<lambda>y. if wr_id y = wr_id x then ?w else y) (dr_workspaces d)) = map wr_id (dr_workspaces d)"
  proof (rule workspaces_ok_replace [where n = "dr_next_workspace d", OF _ _ x(1)])
    show "workspaces_ok (dr_workspaces d) (dr_users d) (dr_next_workspace d)" using ok by (simp add: directory_ok_def)
    show "wr_id y = wr_id x" if "y \<in> set (dr_workspaces d)" "wr_slug y = wr_slug ?w" for y
      using slugs that x(2) by simp
  qed (use owner in simp_all)
  moreover have "?w \<in> set (map (\<lambda>y. if wr_id y = wr_id x then ?w else y) (dr_workspaces d))" using x by force
  moreover have "d' = d\<lparr>dr_next_workspace := dr_next_workspace d + 1,
        dr_workspaces := map (\<lambda>y. if wr_id y = wr_id x then ?w else y) (dr_workspaces d)\<rparr>" "w = ?w"
    using up Cons by (auto simp: upsert_workspace_def Let_def)
  ultimately show ?thesis using ok x by (simp add: directory_ok_def del: map_map)
qed

lemma announce_ok [simp]: "directory_ok (announce i e d) = directory_ok d"
  by (simp add: announce_def publish_def directory_ok_def tables_ok_def)

lemma upsert_user_directory:
  assumes "directory_ok d" "upsert_user external email name d = (d', r)"
  shows "directory_ok d'"
proof -
  have "users_ok (dr_users d) (dr_next_user d)" using assms(1) by (simp add: directory_ok_def)
  note up = upsert_user_ok [OF this assms(2)]
  then have "workspaces_ok (dr_workspaces d') (dr_users d') (dr_next_workspace d')"
    using assms(1) workspaces_ok_users [of "dr_workspaces d" "dr_users d"] by (simp add: directory_ok_def)
  with up assms(1) show ?thesis by (simp add: directory_ok_def)
qed

text \<open>The two insertions of a transaction.\<close>

lemma owner_and_workspace_ok:
  assumes "directory_ok d" "upsert_user None email name d = (d', Some u)" "upsert_workspace slug title (us_id u) d' = (d'', w)"
  shows "directory_ok d'' \<and> w \<in> set (dr_workspaces d'') \<and> wr_slug w = slug \<and> wr_owner w = Some (us_id u)
    \<and> u \<in> set (dr_users d'') \<and> us_email u = Some email"
proof -
  have "users_ok (dr_users d) (dr_next_user d)" using assms(1) by (simp add: directory_ok_def)
  from upsert_user_ok [OF this assms(2)] have u: "u \<in> set (dr_users d')" "us_email u = Some email" by simp_all
  then show ?thesis using upsert_workspace_ok [OF upsert_user_directory [OF assms(1,2)] _ assms(3)] by simp
qed

lemma create_user_ok: "directory_ok d \<Longrightarrow> directory_ok (fst (create_user external email name d))"
proof -
  assume ok: "directory_ok d"
  with upsert_user_directory [OF ok] show ?thesis by (auto simp: create_user_def split: prod.split option.split)
qed

lemma update_user_ok: "directory_ok d \<Longrightarrow> directory_ok (fst (update_user user_id v d))"
proof -
  assume ok: "directory_ok d"
  have "directory_ok (d\<lparr>dr_users := map (\<lambda>x. if us_id x = us_id u then apply_user_update v u else x) (dr_users d)\<rparr>)"
    if "u \<in> set (dr_users d)" "\<not> list_ex (users_clash (apply_user_update v u)) (dr_users d)" for u
  proof -
    have same: "us_id (apply_user_update v u) = us_id u" by (simp add: apply_user_update_def)
    let ?new = "map (\<lambda>x. if us_id x = us_id u then apply_user_update v u else x) (dr_users d)"
    have "map us_id ?new = map us_id (dr_users d)" using same by (intro map_replaced) simp
    then have ids: "us_id ` set (dr_users d) \<subseteq> us_id ` set ?new" by (metis list.set_map order_refl)
    have "users_ok ?new (dr_next_user d)"
      using users_ok_replace [OF _ order_refl that(1) same that(2)] ok by (simp add: directory_ok_def)
    with ok workspaces_ok_users [OF _ ids] show ?thesis by (simp add: directory_ok_def)
  qed
  with ok show ?thesis
    by (auto simp: update_user_def Let_def dest!: filter_Cons_mem split: list.splits)
qed

lemma create_workspace_ok: "directory_ok d \<Longrightarrow> directory_ok (fst (create_workspace slug name email owner d))"
proof -
  assume ok: "directory_ok d"
  with upsert_user_directory [OF ok] owner_and_workspace_ok [OF ok] show ?thesis
    by (auto simp: create_workspace_def split: prod.split option.split)
qed

lemma bootstrap_demo_ok: "directory_ok d \<Longrightarrow> directory_ok (fst (bootstrap_demo d))"
proof -
  assume ok: "directory_ok d"
  with upsert_user_directory [OF ok] owner_and_workspace_ok [OF ok] show ?thesis
    by (auto simp: bootstrap_demo_def split: prod.split option.split)
qed

lemma update_workspace_ok:
  assumes ok: "directory_ok d"
  shows "directory_ok (fst (update_workspace workspace_id v d))"
proof -
  have "directory_ok (d\<lparr>dr_workspaces := map (\<lambda>x. if wr_id x = wr_id w then apply_workspace_update v w else x) (dr_workspaces d)\<rparr>)"
    if w: "w \<in> set (dr_workspaces d)"
      and slug: "\<not> list_ex (\<lambda>x. wr_slug x = wr_slug (apply_workspace_update v w) \<and> wr_id x \<noteq> wr_id w) (dr_workspaces d)"
      and owner: "\<And>i. wu_owner v = Some i \<Longrightarrow> i \<in> us_id ` set (dr_users d)" for w
  proof -
    have was: "workspaces_ok (dr_workspaces d) (dr_users d) (dr_next_workspace d)" using ok by (simp add: directory_ok_def)
    have old: "i \<in> us_id ` set (dr_users d)" if "wr_owner w = Some i" for i
      using was w that unfolding workspaces_ok_def by blast
    have "workspaces_ok (map (\<lambda>x. if wr_id x = wr_id w then apply_workspace_update v w else x) (dr_workspaces d))
          (dr_users d) (dr_next_workspace d)
        \<and> map wr_id (map (\<lambda>x. if wr_id x = wr_id w then apply_workspace_update v w else x) (dr_workspaces d))
          = map wr_id (dr_workspaces d)"
    proof (rule workspaces_ok_replace [OF was order_refl w])
      show "wr_id (apply_workspace_update v w) = wr_id w" by (simp add: apply_workspace_update_def)
      show "i \<in> us_id ` set (dr_users d)" if "wr_owner (apply_workspace_update v w) = Some i" for i
        using that owner old by (auto simp: apply_workspace_update_def split: option.splits)
      show "wr_id x = wr_id w" if "x \<in> set (dr_workspaces d)" "wr_slug x = wr_slug (apply_workspace_update v w)" for x
        using slug that by (auto simp: list_ex_iff)
    qed
    with ok show ?thesis by (simp add: directory_ok_def del: map_map)
  qed
  with ok show ?thesis
    by (auto simp: update_workspace_def Let_def dest!: filter_Cons_mem split: list.splits option.splits)
qed

lemma delete_workspace_ok:
  assumes ok: "directory_ok d"
  shows "directory_ok (fst (delete_workspace workspace_id d))"
proof -
  have ids: "map wr_id (filter (\<lambda>w. wr_id w \<noteq> workspace_id) ws) = filter (\<lambda>i. i \<noteq> workspace_id) (map wr_id ws)" for ws
    by (induction ws) auto
  have "workspaces_ok (filter (\<lambda>w. wr_id w \<noteq> workspace_id) (dr_workspaces d)) (dr_users d) (dr_next_workspace d)"
  proof -
    from ok have "workspaces_ok (dr_workspaces d) (dr_users d) (dr_next_workspace d)" by (simp add: directory_ok_def)
    then show ?thesis unfolding workspaces_ok_def filter_set set_filter by (simp only: distinct_map_filter) blast
  qed
  moreover have "tables_ok ((dr_db d)\<lparr>
       db_workspaces := filter (\<lambda>i. i \<noteq> workspace_id) (db_workspaces (dr_db d)),
       db_tasks := filter (\<lambda>t. tk_workspace t \<noteq> workspace_id) (db_tasks (dr_db d)),
       db_automations := filter (\<lambda>a. au_workspace a \<noteq> workspace_id) (db_automations (dr_db d))\<rparr>)"
  proof -
    from ok have "tables_ok (dr_db d)" by (simp add: directory_ok_def)
    then show ?thesis by (simp add: tables_ok_def)
  qed
  ultimately have "directory_ok (d\<lparr>dr_workspaces := filter (\<lambda>w. wr_id w \<noteq> workspace_id) (dr_workspaces d),
       dr_db := (dr_db d)\<lparr>
         db_workspaces := filter (\<lambda>i. i \<noteq> workspace_id) (db_workspaces (dr_db d)),
         db_tasks := filter (\<lambda>t. tk_workspace t \<noteq> workspace_id) (db_tasks (dr_db d)),
         db_automations := filter (\<lambda>a. au_workspace a \<noteq> workspace_id) (db_automations (dr_db d))\<rparr>\<rparr>)"
    using ok by (simp add: directory_ok_def ids)
  with ok show ?thesis by (simp add: delete_workspace_def Let_def)
qed

text \<open>The requests about tasks and automations keep the set of workspaces and what belongs to it.\<close>

definition keeps_tables :: "database \<Rightarrow> database \<Rightarrow> bool" where
  "keeps_tables db db' \<longleftrightarrow> db_workspaces db' = db_workspaces db \<and> (tables_ok db \<longrightarrow> tables_ok db')"

lemma keeps_same [simp]: "keeps_tables db db"
  by (simp add: keeps_tables_def)

lemma keeps_tables_simps [simp]:
  "keeps_tables db (publish w e db') = keeps_tables db db'"
  "keeps_tables db (db\<lparr>db_next_task := n\<rparr>)" "keeps_tables db (db\<lparr>db_next_automation := n\<rparr>)"
  by (simp_all add: keeps_tables_def tables_ok_def publish_def)

lemma keeps_tasks:
  "tk_workspace ` set ts \<subseteq> tk_workspace ` set (db_tasks db) \<union> set (db_workspaces db)
    \<Longrightarrow> keeps_tables db (db\<lparr>db_tasks := ts\<rparr>) \<and> keeps_tables db (db\<lparr>db_tasks := ts, db_next_task := n\<rparr>)"
  unfolding keeps_tables_def tables_ok_def by auto

lemma keeps_automations:
  "au_workspace ` set as \<subseteq> au_workspace ` set (db_automations db) \<union> set (db_workspaces db)
    \<Longrightarrow> keeps_tables db (db\<lparr>db_automations := as\<rparr>) \<and> keeps_tables db (db\<lparr>db_automations := as, db_next_automation := n\<rparr>)"
  unfolding keeps_tables_def tables_ok_def by auto

lemma replaced_workspaces:
  "tk_workspace ` set (map (\<lambda>r. if P r then apply_task_update u r else r) ts) = tk_workspace ` set ts"
  "au_workspace ` set (map (\<lambda>r. if Q r then apply_automation_update v r else r) as) = au_workspace ` set as"
proof -
  have "map tk_workspace (map (\<lambda>r. if P r then apply_task_update u r else r) ts) = map tk_workspace ts"
    by (simp add: apply_task_update_def)
  then show "tk_workspace ` set (map (\<lambda>r. if P r then apply_task_update u r else r) ts) = tk_workspace ` set ts"
    by (metis list.set_map)
  have "map au_workspace (map (\<lambda>r. if Q r then apply_automation_update v r else r) as) = map au_workspace as"
    by (simp add: apply_automation_update_def)
  then show "au_workspace ` set (map (\<lambda>r. if Q r then apply_automation_update v r else r) as) = au_workspace ` set as"
    by (metis list.set_map)
qed

lemma task_operations_keep:
  "keeps_tables db (fst (list_tasks fw w st q l k db))" "keeps_tables db (fst (create_task w t e db))"
  "keeps_tables db (fst (delete_task i w db))" "keeps_tables db (fst (update_task i u db))"
proof -
  show "keeps_tables db (fst (list_tasks fw w st q l k db))" by (simp add: list_tasks_def)
  show "keeps_tables db (fst (create_task w t e db))"
    unfolding create_task_def by (auto simp: Let_def intro!: keeps_tasks [THEN conjunct2])
  show "keeps_tables db (fst (delete_task i w db))"
    unfolding delete_task_def by (auto simp: Let_def intro!: keeps_tasks [THEN conjunct1])
  show "keeps_tables db (fst (update_task i u db))"
    unfolding update_task_def
    by (simp add: Let_def keeps_tasks [THEN conjunct1] replaced_workspaces del: set_map split: list.split)
qed

lemma automation_operations_keep:
  "keeps_tables db (fst (list_automations w en l k db))" "keeps_tables db (fst (create_automation fw b db))"
  "keeps_tables db (fst (delete_automation i w db))" "keeps_tables db (fst (update_automation fw i v db))"
proof -
  show "keeps_tables db (fst (list_automations w en l k db))" by (simp add: list_automations_def)
  show "keeps_tables db (fst (create_automation fw b db))"
    unfolding create_automation_def by (auto simp: Let_def intro!: keeps_automations [THEN conjunct2])
  show "keeps_tables db (fst (delete_automation i w db))"
    unfolding delete_automation_def by (auto simp: Let_def intro!: keeps_automations [THEN conjunct1])
  show "keeps_tables db (fst (update_automation fw i v db))"
    unfolding update_automation_def
    by (simp add: Let_def keeps_automations [THEN conjunct1] replaced_workspaces del: set_map split: list.split)
qed

lemma handled_keeps: "(\<And>f. h = Some f \<Longrightarrow> keeps_tables db (fst (f db))) \<Longrightarrow> keeps_tables db (fst (handled h db))"
  by (simp add: handled_def split: option.split)

lemma task_handler_keeps: "keeps_tables db (fst (task_handler fw req item db))"
  unfolding task_handler_def
  by (auto split: option.split intro!: handled_keeps task_operations_keep simp: bind_eq_Some_conv)

lemma automation_handler_keeps: "keeps_tables db (fst (automation_handler fw req item db))"
  unfolding automation_handler_def
  by (auto split: option.split intro!: handled_keeps automation_operations_keep simp: bind_eq_Some_conv)

lemma api_request_keeps: "keeps_tables db (fst (api_request fw enforced loads req db))"
  by (simp add: api_request_def task_handler_keeps automation_handler_keeps split: option.split)

lemma table_request_ok:
  assumes "directory_ok d" "api_request fw enforced loads req (dr_db d) = (db, r)"
  shows "directory_ok (d\<lparr>dr_db := db\<rparr>)"
  using assms api_request_keeps [of "dr_db d" fw enforced loads req] by (simp add: directory_ok_def keeps_tables_def)

lemma serve_ok: "directory_ok d \<Longrightarrow> directory_ok (fst (serve fw enforced loads c d))"
  by (cases c) (auto simp: list_users_def get_user_def list_workspaces_def get_workspace_def create_user_ok update_user_ok
      create_workspace_ok update_workspace_ok delete_workspace_ok bootstrap_demo_ok intro: table_request_ok split: prod.split)

definition empty_directory :: directory where
  "empty_directory = \<lparr>dr_users = [], dr_workspaces = [], dr_next_user = 1, dr_next_workspace = 1,
     dr_db = \<lparr>db_workspaces = [], db_tasks = [], db_automations = [], db_next_task = 1, db_next_automation = 1, db_events = []\<rparr>\<rparr>"

text \<open>Whatever calls are served, in any order, the keys of the tables hold.\<close>

theorem directory_consistent:
  "directory_ok (fold (\<lambda>c d. fst (serve fw enforced loads c d)) calls empty_directory)"
proof -
  have "directory_ok (fold (\<lambda>c d. fst (serve fw enforced loads c d)) calls d)" if "directory_ok d" for d
    using that by (induction calls arbitrary: d) (simp_all add: serve_ok)
  moreover have "directory_ok empty_directory"
    by (simp add: empty_directory_def directory_ok_def users_ok_def workspaces_ok_def tables_ok_def)
  ultimately show ?thesis by blast
qed

section \<open>Addresses and slugs are stored without their case\<close>

text \<open>The form in which the endpoints store an address or a slug.\<close>

definition normal :: "pystr \<Rightarrow> pystr" where
  "normal s = lower (strip s)"

definition is_normal :: "pystr \<Rightarrow> bool" where
  "is_normal s \<longleftrightarrow> normal s = s"

lemma lower_char_space: "is_space c \<Longrightarrow> lower_char c = [c]"
  by (cases c) (auto simp: lower_char_def Let_def)

lemma lower_char_not_space:
  assumes "\<not> is_space c"
  shows "lower_char c \<noteq> [] \<and> list_all (\<lambda>x. \<not> is_space x) (lower_char c)"
proof (cases c)
  case (Ch x)
  then show ?thesis using assms by (auto simp: lower_char_def Let_def of_char_of)
next
  case (Uni n)
  then show ?thesis using assms by (auto simp: lower_char_def Let_def of_char_of)
qed

lemma lower_char_lower: "y \<in> set (lower_char c) \<Longrightarrow> lower_char y = [y]"
proof (cases c)
  case (Ch x)
  then show "y \<in> set (lower_char c) \<Longrightarrow> lower_char y = [y]"
    by (auto simp: lower_char_def Let_def of_char_of split: if_splits)
next
  case (Uni n)
  then show "y \<in> set (lower_char c) \<Longrightarrow> lower_char y = [y]"
    by (auto simp: lower_char_def Let_def of_char_of split: if_splits)
qed

lemma drop_spaces_lower:
  assumes same: "\<And>c. is_space c \<Longrightarrow> f c = [c]" and other: "\<And>c. \<not> is_space c \<Longrightarrow> f c \<noteq> [] \<and> list_all (\<lambda>x. \<not> is_space x) (f c)"
  shows "dropWhile is_space (concat (map f s)) = concat (map f (dropWhile is_space s))"
proof (induction s)
  case (Cons c s)
  show ?case
  proof (cases "is_space c")
    case False
    with other [OF False] obtain x xs where "f c = x # xs" "\<not> is_space x" by (cases "f c") auto
    with False show ?thesis by simp
  qed (use Cons same in simp)
qed simp

lemma strip_lower: "strip (lower s) = lower (strip s)"
proof -
  have rev_lower: "rev (lower t) = concat (map (\<lambda>c. rev (lower_char c)) (rev t))" for t
    by (simp add: lower_def rev_concat rev_map comp_def)
  have "dropWhile is_space (concat (map (\<lambda>c. rev (lower_char c)) t))
      = concat (map (\<lambda>c. rev (lower_char c)) (dropWhile is_space t))" for t
    by (rule drop_spaces_lower) (simp_all add: lower_char_space lower_char_not_space)
  then have "rstrip (lower t) = lower (rstrip t)" for t
    unfolding rstrip_def rev_lower by (simp add: rev_concat rev_map comp_def lower_def)
  moreover have "lstrip (lower t) = lower (lstrip t)" for t
    unfolding lstrip_def lower_def by (rule drop_spaces_lower) (simp_all add: lower_char_space lower_char_not_space)
  ultimately show ?thesis by (simp add: strip_def)
qed

lemma lower_lower: "lower (lower s) = lower s"
proof -
  have fixed: "concat (map lower_char t) = t" if "\<And>y. y \<in> set t \<Longrightarrow> lower_char y = [y]" for t
    using that by (induction t) simp_all
  have "lower_char y = [y]" if y: "y \<in> set (lower s)" for y
  proof -
    from y obtain c where "y \<in> set (lower_char c)" by (auto simp: lower_def)
    then show ?thesis by (rule lower_char_lower)
  qed
  then have "concat (map lower_char (lower s)) = lower s" by (rule fixed)
  then show ?thesis by (subst lower_def)
qed

lemma strip_strip: "strip (strip s) = strip s"
proof -
  have ends: "lstrip (rstrip t) = rstrip t" if "lstrip t = t" for t
  proof (cases "rstrip t")
    case (Cons c cs)
    then have "rev (dropWhile is_space (rev t)) = c # cs" by (simp add: rstrip_def)
    then have "\<exists>us. t = (c # cs) @ us"
      by (metis rev_append rev_rev_ident takeWhile_dropWhile_id)
    then have "\<not> is_space c" using that by (auto simp: lstrip_def dropWhile_eq_self_iff)
    then show ?thesis by (simp add: Cons lstrip_def)
  qed (simp add: lstrip_def)
  have "lstrip (lstrip s) = lstrip s" by (simp add: lstrip_def)
  moreover have "rstrip (rstrip t) = rstrip t" for t by (simp add: rstrip_def)
  ultimately show ?thesis by (simp add: strip_def ends)
qed

lemma normal_is_normal: "is_normal (lower (strip s))"
  by (simp add: is_normal_def normal_def strip_lower lower_lower strip_strip)

definition addresses :: "directory \<Rightarrow> pystr list" where
  "addresses d = List.map_filter us_email (dr_users d)"

definition slugs :: "directory \<Rightarrow> pystr list" where
  "slugs d = map wr_slug (dr_workspaces d)"

definition normal_ok :: "directory \<Rightarrow> bool" where
  "normal_ok d \<longleftrightarrow> (\<forall>u \<in> set (dr_users d). \<forall>e. us_email u = Some e \<longrightarrow> is_normal e)
     \<and> (\<forall>w \<in> set (dr_workspaces d). is_normal (wr_slug w))"

lemma normal_okD:
  "normal_ok d \<Longrightarrow> u \<in> set (dr_users d) \<Longrightarrow> us_email u = Some e \<Longrightarrow> is_normal e"
  "normal_ok d \<Longrightarrow> w \<in> set (dr_workspaces d) \<Longrightarrow> is_normal (wr_slug w)"
  by (simp_all add: normal_ok_def)

lemma upsert_user_normal:
  assumes "normal_ok d" "is_normal email" "upsert_user external email name d = (d', r)"
  shows "normal_ok d'"
  using assms
  by (auto simp: upsert_user_def Let_def normal_ok_def split: list.splits if_splits dest!: filter_Cons_mem)

lemma upsert_workspace_normal:
  assumes "normal_ok d" "is_normal slug" "upsert_workspace slug name owner d = (d', w)"
  shows "normal_ok d'"
  using assms
  by (auto simp: upsert_workspace_def Let_def normal_ok_def split: list.splits if_splits dest!: filter_Cons_mem)

lemma normal_announce [simp]: "normal_ok (announce i e d) = normal_ok d" "normal_ok (d\<lparr>dr_db := db\<rparr>) = normal_ok d"
  by (simp_all add: announce_def normal_ok_def)

lemma demo_normal: "is_normal (lit ''demo@local.agent'')" "is_normal (lit ''demo-workspace'')"
proof -
  have "lit ''demo@local.agent'' = lower (strip (lit ''demo@local.agent''))" by code_simp
  then show "is_normal (lit ''demo@local.agent'')" by (metis normal_is_normal)
  have "lit ''demo-workspace'' = lower (strip (lit ''demo-workspace''))" by code_simp
  then show "is_normal (lit ''demo-workspace'')" by (metis normal_is_normal)
qed

lemma create_normal:
  assumes "normal_ok d"
  shows "normal_ok (fst (create_user external email name d))" "normal_ok (fst (create_workspace slug title mail owner d))"
    "normal_ok (fst (bootstrap_demo d))"
proof -
  note user = upsert_user_normal [OF assms normal_is_normal]
  note demo = upsert_user_normal [OF assms demo_normal(1)]
  show "normal_ok (fst (create_user external email name d))"
    using assms by (auto simp: create_user_def dest: user split: prod.splits option.splits)
  show "normal_ok (fst (create_workspace slug title mail owner d))"
    using assms by (auto simp: create_workspace_def dest: user upsert_workspace_normal [OF user normal_is_normal] split: prod.splits option.splits)
  show "normal_ok (fst (bootstrap_demo d))"
    using assms by (auto simp: bootstrap_demo_def dest: demo upsert_workspace_normal [OF demo demo_normal(2)] split: prod.splits option.splits)
qed

lemma update_normal:
  assumes "normal_ok d"
  shows "normal_ok (fst (update_user i v d))" "normal_ok (fst (update_workspace i w d))" "normal_ok (fst (delete_workspace i d))"
proof -
  have email: "is_normal e" if "us_email (apply_user_update v u) = Some e" "u \<in> set (dr_users d)" for u e
    using that normal_okD(1) [OF assms that(2)] by (auto simp: apply_user_update_def normal_is_normal split: option.splits)
  have slug: "is_normal (wr_slug (apply_workspace_update w x))" if "x \<in> set (dr_workspaces d)" for x
    using normal_okD(2) [OF assms that] by (auto simp: apply_workspace_update_def normal_is_normal split: option.splits)
  show "normal_ok (fst (update_user i v d))"
    using assms email by (auto simp: update_user_def Let_def normal_ok_def split: list.splits dest!: filter_Cons_mem)
  show "normal_ok (fst (update_workspace i w d))"
    using assms slug by (auto simp: update_workspace_def Let_def normal_ok_def announce_def split: list.splits dest!: filter_Cons_mem)
  show "normal_ok (fst (delete_workspace i d))"
    using assms by (auto simp: delete_workspace_def Let_def normal_ok_def announce_def)
qed

lemma serve_normal: "normal_ok d \<Longrightarrow> normal_ok (fst (serve fw enforced loads c d))"
  by (cases c) (simp_all add: create_normal update_normal list_users_def get_user_def list_workspaces_def get_workspace_def
      split: prod.split)

definition reached :: "framework \<Rightarrow> bool \<Rightarrow> (char list \<Rightarrow> pyval option) \<Rightarrow> directory_call list \<Rightarrow> directory" where
  "reached fw enforced loads calls = fold (\<lambda>c d. fst (serve fw enforced loads c d)) calls empty_directory"

lemma reached_ok: "directory_ok (reached fw enforced loads calls)" "normal_ok (reached fw enforced loads calls)"
proof -
  show "directory_ok (reached fw enforced loads calls)" unfolding reached_def by (rule directory_consistent)
  have "normal_ok (fold (\<lambda>c d. fst (serve fw enforced loads c d)) calls d)" if "normal_ok d" for d
    using that by (induction calls arbitrary: d) (simp_all add: serve_normal)
  moreover have "normal_ok empty_directory" by (simp add: normal_ok_def empty_directory_def)
  ultimately show "normal_ok (reached fw enforced loads calls)" unfolding reached_def by blast
qed

lemma addresses_distinct:
  "distinct (map us_id us) \<Longrightarrow> (\<And>u v. u \<in> set us \<Longrightarrow> v \<in> set us \<Longrightarrow> \<not> users_clash u v) \<Longrightarrow> distinct (List.map_filter us_email us)"
proof (induction us)
  case (Cons u us)
  have "e \<notin> set (List.map_filter us_email us)" if "us_email u = Some e" for e
  proof
    assume "e \<in> set (List.map_filter us_email us)"
    then obtain v where v: "v \<in> set us" "us_email v = Some e" by (auto simp: List.map_filter_def)
    then have "us_id v \<noteq> us_id u" using Cons.prems(1) by (metis distinct.simps(2) image_eqI list.set_map list.simps(9))
    with that v Cons.prems(2) [of u v] show False by (auto simp: users_clash_def)
  qed
  moreover have "distinct (List.map_filter us_email us)" using Cons.IH Cons.prems by simp
  ultimately show ?case by (auto simp: List.map_filter_simps split: option.split)
qed (simp add: List.map_filter_simps)

lemma normal_distinct:
  assumes "directory_ok d" "normal_ok d"
  shows "distinct (map normal (addresses d)) \<and> distinct (map normal (slugs d))"
proof -
  have us: "distinct (map us_id (dr_users d))" "\<And>u v. u \<in> set (dr_users d) \<Longrightarrow> v \<in> set (dr_users d) \<Longrightarrow> \<not> users_clash u v"
    and ws: "distinct (map wr_id (dr_workspaces d))"
      "\<And>w x. w \<in> set (dr_workspaces d) \<Longrightarrow> x \<in> set (dr_workspaces d) \<Longrightarrow> wr_slug w = wr_slug x \<Longrightarrow> wr_id w = wr_id x"
    using assms(1) unfolding directory_ok_def users_ok_def workspaces_ok_def by blast+
  have "map normal (addresses d) = addresses d"
    by (rule map_idI) (use normal_okD(1) [OF assms(2)] in \<open>auto simp: addresses_def List.map_filter_def is_normal_def\<close>)
  moreover have "map normal (slugs d) = slugs d"
    by (rule map_idI) (use normal_okD(2) [OF assms(2)] in \<open>auto simp: slugs_def is_normal_def\<close>)
  moreover have "distinct (slugs d)"
    unfolding slugs_def distinct_map 
  proof (intro conjI inj_onI)
    show "distinct (dr_workspaces d)" using ws(1) by (simp add: distinct_map)
    have "inj_on wr_id (set (dr_workspaces d))" using ws(1) by (simp add: distinct_map)
    then show "w = x" if "w \<in> set (dr_workspaces d)" "x \<in> set (dr_workspaces d)" "wr_slug w = wr_slug x" for w x
      using that ws(2) [OF that] by (blast dest: inj_onD)
  qed
  moreover have "distinct (addresses d)" unfolding addresses_def by (rule addresses_distinct [OF us])
  ultimately show ?thesis by simp
qed

text \<open>What creating a user without an external name does.\<close>

lemma created_user:
  assumes valid: "valid_length 3 255 email" "valid_length 1 200 name"
  shows "\<exists>u. snd (create_user None email name d) = Users [u] \<and> u \<in> set (dr_users (fst (create_user None email name d)))
    \<and> us_email u = Some (normal email) \<and> us_name u = Some (strip name)
    \<and> (if normal email \<in> set (addresses d)
       then map us_id (dr_users (fst (create_user None email name d))) = map us_id (dr_users d)
         \<and> (\<exists>v \<in> set (dr_users d). us_email v = Some (normal email) \<and> us_id v = us_id u)
       else dr_users (fst (create_user None email name d)) = dr_users d @ [u] \<and> us_id u = dr_next_user d)"
proof (cases "filter (\<lambda>u. us_email u = Some (normal email)) (dr_users d)")
  case Nil
  then have "normal email \<notin> set (addresses d)" by (auto simp: addresses_def List.map_filter_def filter_empty_conv)
  with valid Nil show ?thesis
    by (simp add: create_user_def valid_optional_def upsert_user_def Let_def normal_def)
next
  case (Cons v rest)
  then have v: "v \<in> set (dr_users d)" "us_email v = Some (normal email)" by (auto dest: filter_Cons_mem)
  then have known: "normal email \<in> set (addresses d)" by (force simp: addresses_def List.map_filter_def)
  let ?u = "v\<lparr>us_name := Some (strip name)\<rparr>"
  let ?new = "map (\<lambda>x. if us_id x = us_id v then ?u else x) (dr_users d)"
  have run: "snd (create_user None email name d) = Users [?u]" "dr_users (fst (create_user None email name d)) = ?new"
    using valid Cons by (simp_all add: create_user_def valid_optional_def upsert_user_def Let_def normal_def)
  have "map us_id ?new = map us_id (dr_users d)" by (rule map_replaced) simp
  moreover have "?u \<in> set ?new" using v(1) by force
  moreover have "\<exists>x \<in> set (dr_users d). us_email x = Some (normal email) \<and> us_id x = us_id ?u" using v by auto
  ultimately show ?thesis using run v(2) known by (intro exI [of _ ?u]) (simp del: map_map)
qed

text \<open>C25: an address names one user, however it is written. After any calls no two users have addresses that differ
  only by upper and lower case or by outer white space, and no two workspaces such slugs; and a valid request to create a
  user without an external name is answered with a user of that address and name, namely the one who has the address in
  whatever spelling, no user being added, or else a new one.\<close>

theorem address_names_one_user:
  assumes "valid_length 3 255 email" "valid_length 1 200 name"
  shows "let d = reached fw enforced loads calls
    in distinct (map normal (addresses d)) \<and> distinct (map normal (slugs d))
      \<and> (case create_user None email name d of (d', reply) \<Rightarrow>
          \<exists>u. reply = Users [u] \<and> u \<in> set (dr_users d') \<and> us_email u = Some (normal email) \<and> us_name u = Some (strip name)
            \<and> (if normal email \<in> set (map normal (addresses d))
               then map us_id (dr_users d') = map us_id (dr_users d)
                 \<and> (\<exists>v \<in> set (dr_users d). map_option normal (us_email v) = Some (normal email) \<and> us_id v = us_id u)
               else dr_users d' = dr_users d @ [u] \<and> us_id u = dr_next_user d))"
proof -
  let ?d = "reached fw enforced loads calls"
  have stored: "map normal (addresses ?d) = addresses ?d"
    by (rule map_idI)
      (use normal_okD(1) [OF reached_ok(2)] in \<open>auto simp: addresses_def List.map_filter_def is_normal_def\<close>)
  have twice: "normal (normal email) = normal email" using normal_is_normal [of email] by (simp add: is_normal_def normal_def)
  obtain d' reply where run: "create_user None email name ?d = (d', reply)" by force
  from created_user [OF assms, of ?d] twice have "\<exists>u. reply = Users [u] \<and> u \<in> set (dr_users d')
      \<and> us_email u = Some (normal email) \<and> us_name u = Some (strip name)
      \<and> (if normal email \<in> set (addresses ?d)
         then map us_id (dr_users d') = map us_id (dr_users ?d)
           \<and> (\<exists>v \<in> set (dr_users ?d). map_option normal (us_email v) = Some (normal email) \<and> us_id v = us_id u)
         else dr_users d' = dr_users ?d @ [u] \<and> us_id u = dr_next_user ?d)"
    unfolding run fst_conv snd_conv by (elim exE conjE) (auto split: if_splits)
  moreover have "distinct (addresses ?d) \<and> distinct (map normal (slugs ?d))"
    using normal_distinct [OF reached_ok, of fw enforced loads calls] unfolding stored .
  ultimately show ?thesis unfolding Let_def stored run by simp
qed

text \<open>The demo data first, then a user with its address in capitals.\<close>

theorem address_names_one_user_witness:
  "\<exists>u. snd (create_user None (lit ''Demo@Local.Agent '') (lit ''Me'') (reached (example_framework ''b'') False (\<lambda>_. None) [BootstrapDemo])) = Users [u]
     \<and> us_id u = 1 \<and> us_email u = Some (lit ''demo@local.agent'')"
proof -
  let ?d = "reached (example_framework ''b'') False (\<lambda>_. None) [BootstrapDemo]"
  have users: "dr_users ?d = [\<lparr>us_id = 1, us_external = None, us_email = Some (lit ''demo@local.agent''), us_name = Some (lit ''Demo Owner'')\<rparr>]"
    by (simp add: reached_def bootstrap_demo_def upsert_user_def upsert_workspace_def empty_directory_def Let_def)
  have mail: "normal (lit ''Demo@Local.Agent '') = lit ''demo@local.agent''" "normal (lit ''demo@local.agent'') = lit ''demo@local.agent''"
    by code_simp+
  have "valid_length 3 255 (lit ''Demo@Local.Agent '')" "valid_length 1 200 (lit ''Me'')" by (simp_all add: valid_length_def lit_def)
  from address_names_one_user [OF this, of "example_framework ''b''" False "\<lambda>_. None" "[BootstrapDemo]"] show ?thesis
    by (auto simp: Let_def users mail addresses_def List.map_filter_simps)
qed

section \<open>What creating does\<close>

text \<open>C28: Whoever may create a workspace takes over an existing one by naming its slug: the valid request for a new
  workspace, in consistent tables, answers with the old number and the new name and makes its sender, the user with the
  address of the request, the owner, who is another one than before unless the sender owned it already.\<close>

theorem workspace_taken_over:
  assumes ok: "directory_ok d" and w: "w \<in> set (dr_workspaces d)" "wr_slug w = lower (strip slug)"
    and valid: "valid_length 3 100 slug" "valid_length 1 200 name" "valid_length 3 255 email" "valid_length 1 200 owner"
  shows "\<exists>w' sender. snd (create_workspace slug name email owner d) = Workspaces [w']
    \<and> w' \<in> set (dr_workspaces (fst (create_workspace slug name email owner d)))
    \<and> wr_id w' = wr_id w \<and> wr_name w' = strip name \<and> wr_owner w' = Some (us_id sender)
    \<and> sender \<in> set (dr_users (fst (create_workspace slug name email owner d)))
    \<and> us_email sender = Some (lower (strip email))
    \<and> (wr_owner w' = wr_owner w \<longrightarrow> (\<exists>u \<in> set (dr_users d). us_email u = Some (lower (strip email)) \<and> wr_owner w = Some (us_id u)))"
proof -
  obtain d' r where up: "upsert_user None (lower (strip email)) (strip owner) d = (d', r)" by (meson surj_pair)
  then obtain s where r: "r = Some s" and same: "dr_workspaces d' = dr_workspaces d"
    and who: "us_id s \<in> us_id ` {u \<in> set (dr_users d). us_email u = Some (lower (strip email))} \<or> us_id s = dr_next_user d"
    by (auto simp: upsert_user_def Let_def split: list.splits dest!: filter_Cons_mem)
  obtain d'' w' where two: "upsert_workspace (lower (strip slug)) (strip name) (us_id s) d' = (d'', w')" by (meson surj_pair)
  note done' = owner_and_workspace_ok [OF ok up [unfolded r] two]
  obtain x rest where x: "filter (\<lambda>w. wr_slug w = lower (strip slug)) (dr_workspaces d) = x # rest"
    using w by (metis (mono_tags, lifting) filter_empty_conv list.exhaust)
  have "workspaces_ok (dr_workspaces d) (dr_users d) (dr_next_workspace d)" using ok by (simp add: directory_ok_def)
  then have slug_id: "wr_id y = wr_id z" if "y \<in> set (dr_workspaces d)" "z \<in> set (dr_workspaces d)" "wr_slug y = wr_slug z" for y z
    using that unfolding workspaces_ok_def by blast
  have "wr_id x = wr_id w" by (rule slug_id) (use w filter_Cons_mem [OF x] in simp_all)
  then have id: "wr_id w' = wr_id w" "wr_name w' = strip name" using two x same by (auto simp: upsert_workspace_def Let_def)
  have "wr_owner w \<noteq> Some (dr_next_user d)"
  proof
    assume "wr_owner w = Some (dr_next_user d)"
    with ok w(1) have "dr_next_user d \<in> us_id ` set (dr_users d)" unfolding directory_ok_def workspaces_ok_def by blast
    with ok show False unfolding directory_ok_def users_ok_def by auto
  qed
  with who done' have old: "wr_owner w' = wr_owner w \<longrightarrow>
      (\<exists>u \<in> set (dr_users d). us_email u = Some (lower (strip email)) \<and> wr_owner w = Some (us_id u))" by auto
  have "create_workspace slug name email owner d = (announce (wr_id w') ''workspace.created'' d'', Workspaces [w'])"
    using valid up r two by (simp add: create_workspace_def)
  with done' id old show ?thesis by (intro exI [of _ w'] exI [of _ s]) (simp add: announce_def)
qed

theorem workspace_taken_over_witness:
  "\<exists>w'. snd (create_workspace (lit ''abc'') (lit ''n'') (lit ''b@c'') (lit ''b'')
        (empty_directory\<lparr>dr_workspaces := [\<lparr>wr_id = 1, wr_slug = lit ''abc'', wr_name = lit ''mine'', wr_owner = None\<rparr>],
           dr_next_workspace := 2, dr_db := (dr_db empty_directory)\<lparr>db_workspaces := [1]\<rparr>\<rparr>)) = Workspaces [w']
     \<and> wr_id w' = 1 \<and> wr_owner w' \<noteq> None"
proof -
  let ?w = "\<lparr>wr_id = 1, wr_slug = lit ''abc'', wr_name = lit ''mine'', wr_owner = None\<rparr>"
  let ?d = "empty_directory\<lparr>dr_workspaces := [?w], dr_next_workspace := 2, dr_db := (dr_db empty_directory)\<lparr>db_workspaces := [1]\<rparr>\<rparr>"
  have ok: "directory_ok ?d"
    by (simp add: empty_directory_def directory_ok_def users_ok_def workspaces_ok_def tables_ok_def)
  have w: "?w \<in> set (dr_workspaces ?d)" "wr_slug ?w = lower (strip (lit ''abc''))"
    by (simp_all add: lit_def lower_def lower_char_def strip_def lstrip_def rstrip_def)
  have "valid_length 3 100 (lit ''abc'')" "valid_length 1 200 (lit ''n'')" "valid_length 3 255 (lit ''b@c'')"
      "valid_length 1 200 (lit ''b'')"
    by (simp_all add: valid_length_def lit_def)
  from workspace_taken_over [OF ok w this] show ?thesis by auto
qed

text \<open>What fails leaves all rows as they were; only numbers may have been drawn.\<close>

definition rows :: "directory \<Rightarrow> user_row list \<times> workspace_row list \<times> database" where
  "rows d = (dr_users d, dr_workspaces d, dr_db d)"

lemma failed_upsert_rows: "upsert_user external email name d = (d', None) \<Longrightarrow> rows d' = rows d"
  by (auto simp: upsert_user_def Let_def rows_def split: list.splits if_splits)

lemma failed_call_changes_no_row:
  "snd (create_user external email name d) = DirectoryError \<Longrightarrow> rows (fst (create_user external email name d)) = rows d"
  "snd (update_user i v d) = DirectoryError \<Longrightarrow> rows (fst (update_user i v d)) = rows d"
  "snd (update_workspace i u d) = DirectoryError \<Longrightarrow> rows (fst (update_workspace i u d)) = rows d"
  by (auto simp: create_user_def update_user_def update_workspace_def Let_def failed_upsert_rows
      split: prod.splits option.splits list.splits if_splits)

text \<open>After the demo data was created, its workspace exists and its owner is the demo user.\<close>

lemma bootstrap_repeatable:
  assumes "directory_ok d" "bootstrap_demo d = (d', Bootstrapped u w s n)"
  shows "\<exists>x \<in> set (dr_workspaces d'). wr_slug x = lit ''demo-workspace'' \<and> wr_owner x = Some u"
  using assms(2) owner_and_workspace_ok [OF assms(1)]
  by (auto simp: bootstrap_demo_def split: prod.splits option.splits) blast

text \<open>Deleting a workspace leaves nothing of it.\<close>

lemma deleted_workspace_leaves_nothing:
  assumes "snd (delete_workspace i d) = WorkspaceRemoved n"
  shows "rows_of i (dr_db (fst (delete_workspace i d))) = ([], []) \<and> snd (get_workspace i (fst (delete_workspace i d))) = DirectoryFail 404"
  using assms by (auto simp: delete_workspace_def Let_def announce_def publish_def rows_of_def get_workspace_def
      filter_empty_conv split: if_splits list.splits dest!: filter_Cons_mem)

text \<open>Reading and changing one workspace needs no role.\<close>

lemma workspace_patch_unprotected:
  assumes "req_path req = lit ''/api/v1/workspaces/5''" "req_method req = lit ''PATCH'' \<or> req_method req = lit ''GET''"
  shows "enforce_rbac enforced loads req = None"
proof -
  have "resolve_policy (req_path req) (req_method req) = (None, False)"
    using assms(2) unfolding assms(1)
    by (elim disjE) (simp_all add: resolve_policy_def Let_def upper_verbs, simp_all add: lit_def)
  then show ?thesis by (simp add: enforce_rbac_def)
qed

text \<open>A database that cannot be reached makes the status fail instead of being reported.\<close>

lemma unreachable_status_raises:
  "strip database_url \<noteq> [] \<Longrightarrow> system_status database_url provider environment (Some e) = Inl e"
  by (simp add: system_status_def can_connect_def)

end
