(* ===== verification/NativeProviders.thy ===== *)
theory NativeProviders
  imports SseProtocol ErrorMapping MarkdownText EventParser
begin

text \<open>
  The providers that speak the Anthropic protocol themselves, \<open>providers/lmstudio/client.py\<close> and
  \<open>providers/llamacpp/client.py\<close> (the same code but for names and address), with the configuration of
  \<open>providers/base.py\<close>: the body of the request, the lines that are passed on, and the event that reports a failure.
  The HTTP client is an input: what each attempt gives, and where the reading of the lines fails.
\<close>

section \<open>Configuration\<close>

record provider_config =
  cfg_api_key :: pystr
  cfg_base_url :: "pystr option"
  cfg_rate_limit :: "int option"
  cfg_rate_window :: int
  cfg_max_concurrency :: int

definition default_config :: "pystr \<Rightarrow> provider_config" where
  "default_config api_key =
     \<lparr>cfg_api_key = api_key, cfg_base_url = None, cfg_rate_limit = None, cfg_rate_window = 60, cfg_max_concurrency = 5\<rparr>"

datatype native_kind = LmStudio | LlamaCpp

definition LMSTUDIO_DEFAULT_BASE_URL :: pystr where
  "LMSTUDIO_DEFAULT_BASE_URL = lit ''http://localhost:1234/v1''"

definition LLAMACPP_DEFAULT_BASE_URL :: pystr where
  "LLAMACPP_DEFAULT_BASE_URL = lit ''http://localhost:8080/v1''"

definition NVIDIA_NIM_BASE_URL :: pystr where
  "NVIDIA_NIM_BASE_URL = lit ''https://integrate.api.nvidia.com/v1''"

definition url_or :: "pystr option \<Rightarrow> pystr \<Rightarrow> pystr" where
  "url_or v otherwise = (case v of None \<Rightarrow> otherwise | Some s \<Rightarrow> str_or s otherwise)"

definition native_base_url :: "native_kind \<Rightarrow> provider_config \<Rightarrow> pystr" where
  "native_base_url kind cfg =
     rev (dropWhile (\<lambda>c. c = Ch (CHR ''/''))
       (rev (url_or (cfg_base_url cfg) (case kind of LmStudio \<Rightarrow> LMSTUDIO_DEFAULT_BASE_URL | LlamaCpp \<Rightarrow> LLAMACPP_DEFAULT_BASE_URL))))"

definition nim_base_url :: "provider_config \<Rightarrow> pystr" where
  "nim_base_url cfg = url_or (cfg_base_url cfg) NVIDIA_NIM_BASE_URL"

section \<open>The body\<close>

text \<open>From the fields of the request that are not \<open>None\<close>.\<close>

definition native_thinking :: "(pystr, pyval) dict \<Rightarrow> (pystr, pyval) dict" where
  "native_thinking body =
     (case dget body (lit ''thinking'') of
        None \<Rightarrow> body
      | Some t \<Rightarrow>
          (let rest = ddel (lit ''thinking'') body
           in case t of
                PDict c \<Rightarrow>
                  if truthy (dget_or c ''enabled'' PNone)
                  then dset (lit ''thinking'') (PDict [(lit ''type'', PStr (lit ''enabled''))]) rest else rest
              | _ \<Rightarrow> rest))"

definition native_body :: "(pystr, pyval) dict \<Rightarrow> (pystr, pyval) dict" where
  "native_body dumped =
     (let body = native_thinking
            (ddel (lit ''resolved_provider_model'') (ddel (lit ''original_model'') (ddel (lit ''extra_body'') dumped)))
      in if din (lit ''max_tokens'') body then body else dset (lit ''max_tokens'') (PInt 81920) body)"

section \<open>The stream\<close>

text \<open>A response: its status, what \<open>raise_for_status\<close> raises, the lines that are read and what then fails.\<close>

record native_response =
  nr_status :: int
  nr_status_error :: "exn option"
  nr_lines :: "pystr list"
  nr_failure :: "exn option"

definition frame_line :: "pystr \<Rightarrow> pystr" where
  "frame_line line = (if line \<noteq> [] then line @ newline else newline)"

definition read_response :: "native_response \<Rightarrow> pystr list \<times> exn option" where
  "read_response r =
     (if nr_status r \<noteq> 200 \<and> nr_status_error r \<noteq> None then ([], nr_status_error r)
      else (map frame_line (nr_lines r), nr_failure r))"

definition native_error_text :: "pystr \<Rightarrow> pystr" where
  "native_error_text message =
     json_dumps (PDict [(lit ''type'', PStr (lit ''error'')),
       (lit ''error'', PDict [(lit ''type'', PStr (lit ''api_error'')), (lit ''message'', PStr message)])])"

definition native_error_frame :: "pystr \<Rightarrow> pystr" where
  "native_error_frame message = lit ''event: error'' @ newline @ lit ''data: '' @ native_error_text message @ newline @ newline"

definition native_error_message :: "exn \<Rightarrow> pystr option \<Rightarrow> pystr option \<Rightarrow> pystr" where
  "native_error_message mapped read_timeout request_id =
     get_user_facing_error_message mapped read_timeout
       @ (case request_id of None \<Rightarrow> [] | Some r \<Rightarrow> if r = [] then [] else newline @ lit ''Request ID: '' @ r)"

text \<open>An attempt, with its clocks; only \<open>openai.RateLimitError\<close> is repeated.\<close>

definition attempt_of :: "unit attempt_env \<Rightarrow> exn + native_response \<Rightarrow> native_response attempt_env" where
  "attempt_of t r =
     \<lparr>at_reactive = at_reactive t, at_slots = at_slots t,
      at_outcome = (case r of
          Inr a \<Rightarrow> Returned a
        | Inl e \<Rightarrow> if isinstance e [''openai.RateLimitError''] then RateLimited (ex_str e) else Raised (ex_str e)),
      at_jitter = at_jitter t, at_blocked = at_blocked t\<rparr>"

definition raised_by :: "exn + native_response \<Rightarrow> exn" where
  "raised_by r = (case r of Inl e \<Rightarrow> e | Inr _ \<Rightarrow> provider_error [] [] 500 ''api_error'' None)"

definition failing ::
    "rat \<Rightarrow> pystr option \<Rightarrow> pystr option \<Rightarrow> exn option \<Rightarrow> provider_limiter \<Rightarrow> pystr list \<times> provider_limiter" where
  "failing now read_timeout request_id failure l =
     (case failure of
        None \<Rightarrow> ([], l)
      | Some e \<Rightarrow>
          (case map_error now e l of
             (mapped, l') \<Rightarrow> ([native_error_frame (native_error_message mapped read_timeout request_id)], l')))"

text \<open>\<open>stream_response\<close>: the chunks that are given out; \<open>None\<close> when the limiter never lets the request pass.\<close>

definition native_stream ::
    "rat \<Rightarrow> pystr option \<Rightarrow> pystr option \<Rightarrow> (nat \<Rightarrow> unit attempt_env) \<Rightarrow> (nat \<Rightarrow> exn + native_response) \<Rightarrow> provider_limiter
      \<Rightarrow> (pystr list \<times> provider_limiter) option" where
  "native_stream now read_timeout request_id clock outcomes l =
     (case execute_with_retry 3 2 60 (\<lambda>k. attempt_of (clock k) (outcomes k)) (l\<lparr>pl_free_slots := pl_free_slots l - 1\<rparr>) of
        (l1, end, delays) \<Rightarrow>
          if end = StillWaiting then None
          else
            (let (lines, failure) = (case end of Done r \<Rightarrow> read_response r | _ \<Rightarrow> ([], Some (raised_by (outcomes (length delays)))));
                 (report, l2) = failing now read_timeout request_id failure l1
             in Some (lines @ report, l2\<lparr>pl_free_slots := pl_free_slots l2 + 1\<rparr>)))"

section \<open>The body that is sent\<close>

lemma native_fields:
  "dget (native_thinking d) k = (if k = lit ''thinking'' then
     (case dget d (lit ''thinking'') of
        Some (PDict c) \<Rightarrow> if truthy (dget_or c ''enabled'' PNone) then Some (PDict [(lit ''type'', PStr (lit ''enabled''))]) else None
      | _ \<Rightarrow> None) else dget d k)"
  by (auto simp: native_thinking_def dget_dset dget_ddel Let_def split: option.split pyval.split)

text \<open>The body keeps every field but the three internal ones and \<open>thinking\<close>, is never without a number of tokens, and
  has \<open>thinking\<close> exactly where it is enabled.\<close>

theorem native_body_fields:
  "dget (native_body d) k =
    (if k \<in> {lit ''extra_body'', lit ''original_model'', lit ''resolved_provider_model''} then None
     else if k = lit ''max_tokens'' \<and> dget d k = None then Some (PInt 81920)
     else if k = lit ''thinking'' then
       (case dget d k of
          Some (PDict c) \<Rightarrow> if truthy (dget_or c ''enabled'' PNone) then Some (PDict [(lit ''type'', PStr (lit ''enabled''))]) else None
        | _ \<Rightarrow> None)
     else dget d k)"
proof -
  have names: "lit ''thinking'' \<noteq> lit ''extra_body''" "lit ''thinking'' \<noteq> lit ''original_model''"
      "lit ''thinking'' \<noteq> lit ''resolved_provider_model''" "lit ''max_tokens'' \<noteq> lit ''extra_body''"
      "lit ''max_tokens'' \<noteq> lit ''original_model''" "lit ''max_tokens'' \<noteq> lit ''resolved_provider_model''"
      "lit ''max_tokens'' \<noteq> lit ''thinking''"
    by (simp_all add: lit_def)
  have din: "din (lit ''max_tokens'') b \<longleftrightarrow> dget b (lit ''max_tokens'') \<noteq> None" for b :: "(pystr, pyval) dict"
    by (auto simp: din_def map_of_eq_None_iff)
  show ?thesis
    unfolding native_body_def Let_def din using names names [symmetric]
    by (simp add: native_fields dget_dset dget_ddel split: option.split)
qed

section \<open>The lines that are passed on\<close>

lemma frame_line_newline: "frame_line line = line @ newline"
  by (simp add: frame_line_def)

lemma passed_on:
  "list_all (\<lambda>c. is_line_break c \<longrightarrow> c = newline_char) s \<Longrightarrow>
   concat (map frame_line (split_lines_from line s))
     = rev line @ s @ (if s = [] then (if line = [] then [] else newline) else if last s = newline_char then [] else newline)"
proof (induction line s rule: split_lines_from.induct)
  case (2 line c)
  have "is_line_break newline_char" by (simp add: is_line_break_def newline_char_def code_point_def)
  with 2 show ?case by (auto simp: frame_line_newline newline_def)
next
  case (3 line c d s)
  have cr: "is_line_break (Ch (CHR 0x0D))" "Ch (CHR 0x0D) \<noteq> newline_char" "is_line_break newline_char"
    by (simp_all add: is_line_break_def newline_char_def code_point_def)
  with 3 show ?case by (auto simp: frame_line_newline newline_def)
qed (simp_all add: frame_line_newline)

text \<open>C30: The events of the server come out unchanged, byte for byte, as long as no character but the newline breaks a line
  in them.\<close>

theorem native_stream_unchanged:
  assumes "list_all (\<lambda>c. is_line_break c \<longrightarrow> c = newline_char) body" "body \<noteq> []" "last body = newline_char"
  shows "concat (fst (read_response \<lparr>nr_status = 200, nr_status_error = None, nr_lines = splitlines body, nr_failure = None\<rparr>)) = body"
  using passed_on [OF assms(1), of "[]"] assms(2,3) by (simp add: read_response_def splitlines_def)

theorem native_stream_unchanged_witness:
  "concat (fst (read_response \<lparr>nr_status = 200, nr_status_error = None,
      nr_lines = splitlines (lit ''data: 1'' @ newline @ newline), nr_failure = None\<rparr>)) = lit ''data: 1'' @ newline @ newline"
  by (rule native_stream_unchanged) (simp_all add: lit_def newline_def newline_char_def is_line_break_def code_point_def)

text \<open>A line separator inside of a text, which JSON allows, becomes a newline and breaks the event.\<close>

lemma separator_breaks_event:
  "concat (fst (read_response \<lparr>nr_status = 200, nr_status_error = None, nr_lines = splitlines (lit ''data: a'' @ Uni 8232 # lit ''b'' @ newline),
      nr_failure = None\<rparr>)) = lit ''data: a'' @ newline @ lit ''b'' @ newline"
  by (simp add: read_response_def splitlines_def is_line_break_def code_point_def lit_def newline_def newline_char_def frame_line_newline)

section \<open>Failures\<close>

lemma native_error_frame_read: "read_frames (native_error_frame m) = Some [(lit ''error'', native_error_text m)]"
proof -
  let ?l1 = "lit ''event: error''" and ?l2 = "lit ''data: '' @ native_error_text m"
  have "newline_char \<notin> set (native_error_text m)"
    unfolding native_error_text_def by (rule printable_no_newline [OF json_dumps_printable]) simp
  then have "newline_char \<notin> set ?l1" "newline_char \<notin> set ?l2" by (simp_all add: lit_def newline_char_def)
  then have lines: "read_line (?l1 @ newline_char # t) = (?l1, t)" "read_line (?l2 @ newline_char # t) = (?l2, t)"
      "read_line ([] @ newline_char # t) = ([], t)" for t
    by (auto intro: read_line_line simp del: append.simps append_assoc)
  have framed: "native_error_frame m = ?l1 @ newline_char # ?l2 @ newline_char # [] @ newline_char # []"
    by (simp add: native_error_frame_def newline_def newline_char_def)
  have "drop 7 ?l1 = lit ''error''" "drop 6 ?l2 = native_error_text m" by (simp_all add: lit_def)
  moreover have "prefix (lit ''event: '') ?l1" "?l1 \<noteq> []" by (simp_all add: lit_def)
  moreover have "read_frames [] = Some []" by (simp add: read_frames.simps)
  ultimately show ?thesis
    unfolding framed by (subst read_frames.simps) (simp only: lines Let_def prod.case if_False, simp)
qed

text \<open>The slot that a stream takes is given back whatever happens.\<close>

lemma loop_keeps_slots:
  "acquire_loop try_slot readings l = Some (l', w) \<Longrightarrow> pl_free_slots l' = pl_free_slots l"
  by (induction readings arbitrary: l) (auto simp: try_slot_def slot_attempt_def Let_def split: option.splits prod.splits if_splits)

lemma wait_keeps_slots:
  "wait_if_blocked now readings l = Some (l', w) \<Longrightarrow> pl_free_slots l' = pl_free_slots l"
  by (auto simp: wait_if_blocked_def Let_def acquire_proactive_slot_def loop_keeps_slots)

lemma retry_keeps_slots:
  "retry_loop mr bd md env rounds attempt exc ds l = (l', end, delays) \<Longrightarrow> pl_free_slots l' = pl_free_slots l"
proof (induction mr bd md env rounds attempt exc ds l rule: retry_loop.induct)
  case (2 max_retries base_delay max_delay env rounds attempt last_exc slept l)
  show ?case
  proof (cases "wait_if_blocked (at_reactive (env attempt)) (at_slots (env attempt)) l")
    case None
    with "2.prems" show ?thesis by simp
  next
    case (Some got)
    obtain l1 w where got: "got = (l1, w)" by fastforce
    have kept: "pl_free_slots l1 = pl_free_slots l" by (rule wait_keeps_slots [OF Some [unfolded got]])
    show ?thesis
    proof (cases "at_outcome (env attempt)")
      case (RateLimited e)
      show ?thesis
      proof (cases "max_retries \<le> int attempt")
        case True
        with "2.prems" Some got RateLimited kept show ?thesis by simp
      next
        case False
        from "2.IH" [OF Some got [symmetric] RateLimited False refl] "2.prems" Some got RateLimited False kept
        show ?thesis by (simp add: Let_def set_blocked_def)
      qed
    qed (use "2.prems" Some got kept in simp_all)
  qed
qed simp

lemma map_error_keeps_slots: "pl_free_slots (snd (map_error now e l)) = pl_free_slots l"
  by (simp add: map_error_def Let_def set_blocked_def)

lemma failing_keeps_slots: "failing now t i failure l = (out, l') \<Longrightarrow> pl_free_slots l' = pl_free_slots l"
  using map_error_keeps_slots [of now _ l] by (auto simp: failing_def split: option.splits prod.splits) (metis snd_conv)

text \<open>The attempt that ends the loop comes after attempts that were all answered 429; there are at most four of them.\<close>

lemma last_attempt:
  "retry_loop max_retries base_delay max_delay env rounds attempt exc ds l = (l', end, ds') \<Longrightarrow> length ds = attempt \<Longrightarrow>
     int attempt + int rounds = 1 + max_retries \<Longrightarrow> 0 < rounds \<Longrightarrow> end \<noteq> StillWaiting \<Longrightarrow>
   attempt \<le> length ds' \<and> int (length ds') \<le> max_retries
     \<and> (\<forall>j. attempt \<le> j \<longrightarrow> j < length ds' \<longrightarrow> (\<exists>e. at_outcome (env j) = RateLimited e))
     \<and> (case end of Done a \<Rightarrow> at_outcome (env (length ds')) = Returned a
        | _ \<Rightarrow> \<forall>a. at_outcome (env (length ds')) \<noteq> Returned a)"
proof (induction max_retries base_delay max_delay env rounds attempt exc ds l rule: retry_loop.induct)
  case (2 max_retries base_delay max_delay env rounds attempt exc ds l)
  obtain l1 w where got: "wait_if_blocked (at_reactive (env attempt)) (at_slots (env attempt)) l = Some (l1, w)"
    using "2.prems"(1,5) by (cases "wait_if_blocked (at_reactive (env attempt)) (at_slots (env attempt)) l") auto
  show ?case
  proof (cases "at_outcome (env attempt)")
    case (RateLimited e)
    show ?thesis
    proof (cases "max_retries \<le> int attempt")
      case True
      with "2.prems" got RateLimited show ?thesis by auto
    next
      case False
      let ?delay = "min (base_delay * 2 ^ attempt) max_delay + at_jitter (env attempt)"
      have run: "retry_loop max_retries base_delay max_delay env rounds (Suc attempt) (Some e) (ds @ [?delay])
          (set_blocked (at_blocked (env attempt)) ?delay l1) = (l', end, ds')"
        using "2.prems"(1) got RateLimited False by (simp add: Let_def)
      have "Suc attempt \<le> length ds' \<and> int (length ds') \<le> max_retries
          \<and> (\<forall>j. Suc attempt \<le> j \<longrightarrow> j < length ds' \<longrightarrow> (\<exists>e. at_outcome (env j) = RateLimited e))
          \<and> (case end of Done a \<Rightarrow> at_outcome (env (length ds')) = Returned a | _ \<Rightarrow> \<forall>a. at_outcome (env (length ds')) \<noteq> Returned a)"
        by (rule "2.IH" [OF got refl RateLimited False refl run]) (use "2.prems" False in auto)
      then show ?thesis using RateLimited by (metis Suc_leD Suc_leI le_neq_implies_less)
    qed
  qed (use "2.prems" got in auto)
qed simp

text \<open>What the last attempt gives: the lines that were read, and what then failed.\<close>

definition attempt_result :: "exn + native_response \<Rightarrow> pystr list \<times> exn option" where
  "attempt_result r =
     (case r of
        Inl e \<Rightarrow> ([], Some e)
      | Inr a \<Rightarrow> if nr_status a \<noteq> 200 \<and> nr_status_error a \<noteq> None then ([], nr_status_error a) else (nr_lines a, nr_failure a))"

lemma native_stream_parts:
  assumes "native_stream now timeout request_id clock outcomes l = Some (out, l')"
  shows "\<exists>k l1. k \<le> 3 \<and> (\<forall>j<k. \<exists>e. outcomes j = Inl e \<and> isinstance e [''openai.RateLimitError''])
    \<and> out = map frame_line (fst (attempt_result (outcomes k)))
        @ (case snd (attempt_result (outcomes k)) of
             None \<Rightarrow> []
           | Some e \<Rightarrow> [native_error_frame (native_error_message (fst (map_error now e l1)) timeout request_id)])
    \<and> pl_free_slots l' = pl_free_slots l"
proof -
  let ?env = "\<lambda>k. attempt_of (clock k) (outcomes k)"
  obtain l1 "end" delays where run: "execute_with_retry 3 2 60 ?env (l\<lparr>pl_free_slots := pl_free_slots l - 1\<rparr>) = (l1, end, delays)"
    by (metis prod_cases3)
  have waited: "end \<noteq> StillWaiting" using assms run by (auto simp: native_stream_def)
  let ?k = "length delays"
  have last: "int ?k \<le> 3" "\<forall>j<?k. \<exists>e. at_outcome (?env j) = RateLimited e"
      "case end of Done a \<Rightarrow> at_outcome (?env ?k) = Returned a | _ \<Rightarrow> \<forall>a. at_outcome (?env ?k) \<noteq> Returned a"
    using last_attempt [OF run [unfolded execute_with_retry_def] _ _ _ waited] by simp_all
  from retry_keeps_slots [OF run [unfolded execute_with_retry_def]] have slots: "pl_free_slots l1 = pl_free_slots l - 1" by simp
  have got: "(case end of Done r \<Rightarrow> read_response r | _ \<Rightarrow> ([], Some (raised_by (outcomes ?k))))
      = (map frame_line (fst (attempt_result (outcomes ?k))), snd (attempt_result (outcomes ?k)))"
    using last(3) by (cases "outcomes ?k"; cases "end")
      (auto simp: attempt_of_def attempt_result_def read_response_def raised_by_def split: if_splits)
  obtain report l2 where report: "failing now timeout request_id (snd (attempt_result (outcomes ?k))) l1 = (report, l2)" by fastforce
  have "out = map frame_line (fst (attempt_result (outcomes ?k))) @ report" "l' = l2\<lparr>pl_free_slots := pl_free_slots l2 + 1\<rparr>"
    using assms run got report waited by (auto simp: native_stream_def)
  moreover have "report = (case snd (attempt_result (outcomes ?k)) of
      None \<Rightarrow> [] | Some e \<Rightarrow> [native_error_frame (native_error_message (fst (map_error now e l1)) timeout request_id)])"
    using report by (auto simp: failing_def split: option.splits prod.splits)
  moreover have "\<forall>j<?k. \<exists>e. outcomes j = Inl e \<and> isinstance e [''openai.RateLimitError'']"
    using last(2) by (fastforce simp: attempt_of_def split: sum.splits if_splits)
  moreover have "?k \<le> 3" using last(1) by simp
  ultimately show ?thesis using slots failing_keeps_slots [OF report] by (intro exI [of _ ?k] exI [of _ l1]) simp
qed

text \<open>C29: What is given out is what the last of at most four attempts gave, the earlier ones having been answered 429: every
  line that was read from the server, in order and with nothing in between, and then exactly one event if the attempt, the
  status or the reading failed, and none otherwise. The event reads as an error with the message of the failure. The slot of
  the limiter is free again.\<close>

theorem native_stream_ends:
  assumes "native_stream now timeout request_id clock outcomes l = Some (out, l')"
  shows "\<exists>k l1. k \<le> 3 \<and> (\<forall>j<k. \<exists>e. outcomes j = Inl e \<and> isinstance e [''openai.RateLimitError''])
    \<and> (case attempt_result (outcomes k) of
         (lines, None) \<Rightarrow> out = map (\<lambda>line. line @ newline) lines
       | (lines, Some e) \<Rightarrow>
           (let message = native_error_message (fst (map_error now e l1)) timeout request_id
            in \<exists>frame. out = map (\<lambda>line. line @ newline) lines @ [frame]
                 \<and> read_frames frame = Some [(lit ''error'', native_error_text message)]))
    \<and> pl_free_slots l' = pl_free_slots l"
proof -
  obtain k l1 where parts: "k \<le> 3" "\<forall>j<k. \<exists>e. outcomes j = Inl e \<and> isinstance e [''openai.RateLimitError'']"
      "out = map frame_line (fst (attempt_result (outcomes k))) @ (case snd (attempt_result (outcomes k)) of
         None \<Rightarrow> [] | Some e \<Rightarrow> [native_error_frame (native_error_message (fst (map_error now e l1)) timeout request_id)])"
      "pl_free_slots l' = pl_free_slots l"
    using native_stream_parts [OF assms] by blast
  have "frame_line = (\<lambda>line. line @ newline)" by (rule ext) (simp add: frame_line_newline)
  with parts show ?thesis
    by (intro exI [of _ k] exI [of _ l1]) (auto simp: native_error_frame_read Let_def split: prod.split option.split)
qed

theorem native_stream_ends_witness:
  "\<exists>out l'. native_stream 0 None None
      (\<lambda>k. \<lparr>at_reactive = 0, at_slots = [0], at_outcome = Returned (), at_jitter = 0, at_blocked = 0\<rparr>)
      (\<lambda>k. Inr \<lparr>nr_status = 200, nr_status_error = None, nr_lines = [lit ''x''], nr_failure = None\<rparr>)
      \<lparr>pl_rate_limit = 1, pl_rate_window = 10, pl_request_times = [], pl_blocked_until = 0, pl_free_slots = 5\<rparr> = Some (out, l')
    \<and> pl_free_slots l' = 5"
proof -
  let ?clock = "\<lambda>k :: nat. \<lparr>at_reactive = 0, at_slots = [0], at_outcome = Returned (), at_jitter = 0, at_blocked = 0\<rparr>"
  let ?r = "\<lambda>k :: nat. Inr \<lparr>nr_status = 200, nr_status_error = None, nr_lines = [lit ''x''], nr_failure = None\<rparr> :: exn + native_response"
  let ?l = "\<lparr>pl_rate_limit = 1, pl_rate_window = 10, pl_request_times = [], pl_blocked_until = 0, pl_free_slots = 5\<rparr>"
  have "execute_with_retry 3 2 60 (\<lambda>k. attempt_of (?clock k) (?r k)) (?l\<lparr>pl_free_slots := pl_free_slots ?l - 1\<rparr>)
      = (?l\<lparr>pl_free_slots := 4, pl_request_times := [0]\<rparr>, Done \<lparr>nr_status = 200, nr_status_error = None, nr_lines = [lit ''x''], nr_failure = None\<rparr>, [])"
    by (simp add: execute_with_retry_def eval_nat_numeral attempt_of_def wait_if_blocked_def acquire_proactive_slot_def
        try_slot_def slot_attempt_def)
  then obtain out l' where run: "native_stream 0 None None ?clock ?r ?l = Some (out, l')"
    by (simp add: native_stream_def read_response_def failing_def)
  from native_stream_ends [OF this] have "pl_free_slots l' = 5" by auto
  with run show ?thesis by blast
qed

text \<open>A failure in the middle of an event leaves an event that cannot be read.\<close>

lemma failure_breaks_event:
  "read_frames (concat (map frame_line [lit ''event: ping'']) @ native_error_frame m) = None"
proof -
  let ?l1 = "lit ''event: ping''" and ?l2 = "lit ''event: error''"
  have "newline_char \<notin> set ?l1" "newline_char \<notin> set ?l2" by (simp_all add: lit_def newline_char_def)
  then have lines: "read_line (?l1 @ newline_char # t) = (?l1, t)" "read_line (?l2 @ newline_char # t) = (?l2, t)" for t
    by (auto intro: read_line_line simp del: append.simps append_assoc)
  have framed: "concat (map frame_line [?l1]) @ native_error_frame m
      = ?l1 @ newline_char # ?l2 @ newline_char # lit ''data: '' @ native_error_text m @ newline @ newline"
    by (simp add: native_error_frame_def frame_line_newline newline_def newline_char_def)
  have "\<not> prefix (lit ''data: '') ?l2" "?l1 \<noteq> []" by (simp_all add: lit_def)
  then show ?thesis unfolding framed by (subst read_frames.simps) (simp add: lines Let_def split: prod.split)
qed

text \<open>A response with the status 429 ends the attempts: it is an answer, not the exception that is repeated.\<close>

lemma answer_not_repeated:
  assumes "outcomes 0 = Inr r"
  shows "snd (execute_with_retry 3 2 60 (\<lambda>k. attempt_of (clock k) (outcomes k)) l) \<in> {(Done r, []), (StillWaiting, [])}"
  using assms by (simp add: execute_with_retry_def eval_nat_numeral attempt_of_def split: option.split)

end
