(* ===== verification/AppLifecycle.thy ===== *)
theory AppLifecycle
  imports AccessControl HttpRateLimit
begin

text \<open>
  The application of \<open>api/app.py\<close>: the middlewares around the endpoints, with the counters of \<open>api/observability.py\<close>, and
  the start and the end of the program. The middleware that was added last is the outermost one: a request meets the
  access control first, then the rate limits, then the tracing. Endpoints, platforms and clocks are inputs.
\<close>

section \<open>Counters\<close>

record metrics =
  mt_requests :: "(pystr, int) dict"
  mt_status :: "(pystr, int) dict"
  mt_latency :: "(pystr, rat) dict"

definition no_metrics :: metrics where
  "no_metrics = \<lparr>mt_requests = [], mt_status = [], mt_latency = []\<rparr>"

definition bump :: "'k \<Rightarrow> 'n \<Rightarrow> ('k, 'n :: monoid_add) dict \<Rightarrow> ('k, 'n) dict" where
  "bump k n d = dset k ((case dget d k of None \<Rightarrow> 0 | Some m \<Rightarrow> m) + n) d"

definition route_key :: "pystr \<Rightarrow> pystr \<Rightarrow> pystr" where
  "route_key verb path = upper verb @ lit '' '' @ path"

definition observe :: "pystr \<Rightarrow> pystr \<Rightarrow> int \<Rightarrow> rat \<Rightarrow> metrics \<Rightarrow> metrics" where
  "observe path verb status seconds m =
     \<lparr>mt_requests = bump (route_key verb path) 1 (mt_requests m),
      mt_status = bump (str_of_int status) 1 (mt_status m),
      mt_latency = bump (route_key verb path) (max 0 seconds) (mt_latency m)\<rparr>"

text \<open>The rounding of a sum of latencies is a parameter.\<close>

definition snapshot :: "(rat \<Rightarrow> pyval) \<Rightarrow> metrics \<Rightarrow> pyval" where
  "snapshot round6 m =
     PDict [(lit ''requests_total'', PDict (map (map_prod id PInt) (mt_requests m))),
            (lit ''status_total'', PDict (map (map_prod id PInt) (mt_status m))),
            (lit ''latency_sum_seconds'', PDict (map (map_prod id round6) (mt_latency m)))]"

section \<open>Middlewares\<close>

record response =
  rp_status :: int
  rp_headers :: "(pystr, pystr) dict"

text \<open>An endpoint answers or raises; the exceptions of providers are turned into answers inside of the tracing.\<close>

datatype outcome_of_request = Answered response | RaisedOut

definition trace_id :: "http_request \<Rightarrow> string \<Rightarrow> pystr \<Rightarrow> pystr" where
  "trace_id req name fresh = strip (case header req name of None \<Rightarrow> fresh | Some s \<Rightarrow> if s = [] then fresh else s)"

definition trace_context ::
    "(http_request \<Rightarrow> response option) \<Rightarrow> pystr \<Rightarrow> pystr \<Rightarrow> rat \<Rightarrow> http_request \<Rightarrow> metrics \<Rightarrow> metrics \<times> outcome_of_request" where
  "trace_context endpoint request_uuid correlation_uuid seconds req m =
     (case endpoint req of
        None \<Rightarrow> (observe (req_path req) (req_method req) 500 seconds m, RaisedOut)
      | Some r \<Rightarrow>
          (observe (req_path req) (req_method req) (rp_status r) seconds m,
           Answered (r\<lparr>rp_headers :=
             dset (lit ''X-Correlation-ID'') (trace_id req ''x-correlation-id'' (lit ''corr_'' @ correlation_uuid))
               (dset (lit ''X-Request-ID'') (trace_id req ''x-request-id'' (lit ''req_'' @ request_uuid)) (rp_headers r))\<rparr>)))"

text \<open>What raises through all middlewares becomes the answer 500.\<close>

definition general_error :: response where
  "general_error = \<lparr>rp_status = 500, rp_headers = []\<rparr>"

definition answer_of :: "outcome_of_request \<Rightarrow> response" where
  "answer_of out = (case out of Answered r \<Rightarrow> r | RaisedOut \<Rightarrow> general_error)"

record request_env =
  rq_rbac :: bool
  rq_loads :: "char list \<Rightarrow> pyval option"
  rq_limits :: rate_settings
  rq_clock :: "string \<Rightarrow> rat"
  rq_endpoint :: "http_request \<Rightarrow> response option"
  rq_request_uuid :: pystr
  rq_correlation_uuid :: pystr
  rq_seconds :: rat

definition handle_request :: "request_env \<Rightarrow> http_request \<Rightarrow> window_store \<times> metrics \<Rightarrow> (window_store \<times> metrics) \<times> response" where
  "handle_request en req st =
     (case st of (events, m) \<Rightarrow>
        (case enforce_rbac (rq_rbac en) (rq_loads en) req of
           Some (Denied status detail) \<Rightarrow> (st, \<lparr>rp_status = int status, rp_headers = []\<rparr>)
         | Some (Failed e) \<Rightarrow> (st, general_error)
         | None \<Rightarrow>
             (case enforce_rate_limits (rq_limits en) (rq_clock en) req events of
                (events', TooManyRequests scope v wait retry_after) \<Rightarrow>
                  ((events', m), \<lparr>rp_status = 429, rp_headers = [(lit ''Retry-After'', str_of_int retry_after)]\<rparr>)
              | (events', Crashed e) \<Rightarrow> ((events', m), general_error)
              | (events', Forward) \<Rightarrow>
                  (case trace_context (rq_endpoint en) (rq_request_uuid en) (rq_correlation_uuid en) (rq_seconds en) req m of
                     (m', out) \<Rightarrow> ((events', m'), answer_of out)))))"

fun handle_all :: "(request_env \<times> http_request) list \<Rightarrow> window_store \<times> metrics \<Rightarrow> (window_store \<times> metrics) \<times> response list" where
  "handle_all [] st = (st, [])"
| "handle_all ((en, req) # rest) st =
     (case handle_request en req st of
        (st', r) \<Rightarrow> (case handle_all rest st' of (st'', rs) \<Rightarrow> (st'', r # rs)))"

section \<open>Start and end of the program\<close>

text \<open>The platforms that were created are started one after the other, each with a handler of its own; the first exception
  ends the starting. \<open>start\<close> gives what starting a platform raises.\<close>

fun start_platforms :: "('p \<Rightarrow> py_error option) \<Rightarrow> 'p list \<Rightarrow> 'p list \<times> py_error option" where
  "start_platforms start [] = ([], None)"
| "start_platforms start (p # ps) =
     (case start p of
        Some e \<Rightarrow> ([], Some e)
      | None \<Rightarrow> (case start_platforms start ps of (started, e) \<Rightarrow> (p # started, e)))"

record 'p app_state =
  as_platforms :: "'p list"
  as_handlers :: "'p list"
  as_scheduler :: bool

text \<open>Migrations that fail end the program; messaging or a scheduler that fails does not.\<close>

definition start_app ::
    "bool \<Rightarrow> py_error option \<Rightarrow> 'p list result \<Rightarrow> ('p \<Rightarrow> py_error option) \<Rightarrow> bool \<Rightarrow> py_error option \<Rightarrow> 'p app_state result" where
  "start_app database migrating created start scheduler_enabled scheduling =
     (case (if database then migrating else None) of
        Some e \<Rightarrow> Inl e
      | None \<Rightarrow>
          (let platforms = (case created of Inl e \<Rightarrow> [] | Inr ps \<Rightarrow> ps)
           in Inr \<lparr>as_platforms = platforms, as_handlers = fst (start_platforms start platforms),
                as_scheduler = database \<and> scheduler_enabled \<and> scheduling = None\<rparr>))"

datatype 'p cleanup = FlushStore nat | StopPlatform 'p | StopCliManager | StopScheduler | CleanupProvider | ShutdownLimiter

text \<open>A step of the cleanup ends, raises or times out; none of it reaches the next step.\<close>

datatype ended = Ended | RaisedIn | TimedOutIn

definition best_effort :: "('p cleanup \<Rightarrow> ended) \<Rightarrow> 'p cleanup \<Rightarrow> 'p cleanup list \<Rightarrow> 'p cleanup list" where
  "best_effort ends step done = (case ends step of _ \<Rightarrow> done @ [step])"

definition cleanup_steps :: "bool \<Rightarrow> ('p \<Rightarrow> nat) \<Rightarrow> 'p app_state \<Rightarrow> 'p cleanup list" where
  "cleanup_steps cli_manager store_of st =
     map FlushStore (rev (remdups (rev (map store_of (as_handlers st))))) @ map StopPlatform (as_platforms st)
       @ (if cli_manager then [StopCliManager] else []) @ (if as_scheduler st then [StopScheduler] else [])
       @ [CleanupProvider, ShutdownLimiter]"

definition stop_app :: "('p cleanup \<Rightarrow> ended) \<Rightarrow> bool \<Rightarrow> ('p \<Rightarrow> nat) \<Rightarrow> 'p app_state \<Rightarrow> 'p cleanup list" where
  "stop_app ends cli_manager store_of st = fold (best_effort ends) (cleanup_steps cli_manager store_of st) []"

section \<open>What is counted\<close>

definition all_counts :: "('k, int) dict \<Rightarrow> int" where
  "all_counts d = sum_list (map snd d)"

lemma total_bump: "all_counts (bump k n d) = all_counts d + n"
proof -
  have "sum_list (map snd (dset k v d)) = sum_list (map snd d) - (case dget d k of None \<Rightarrow> 0 | Some m \<Rightarrow> m) + v" for v
    by (induction d) (auto split: option.split)
  then show ?thesis by (simp add: all_counts_def bump_def)
qed

lemma dget_bump: "dget (bump k n d) k = Some ((case dget d k of None \<Rightarrow> 0 | Some m \<Rightarrow> m) + n)"
  by (simp add: bump_def dget_dset)

lemma keys_bump: "set (dkeys (bump k n d)) = insert k (set (dkeys d))"
  by (auto simp: bump_def keys_dset)

lemma observe_totals:
  "all_counts (mt_requests (observe p v s t m)) = all_counts (mt_requests m) + 1"
  "all_counts (mt_status (observe p v s t m)) = all_counts (mt_status m) + 1"
  "set (dkeys (mt_latency (observe p v s t m))) = insert (route_key v p) (set (dkeys (mt_latency m)))"
  "set (dkeys (mt_requests (observe p v s t m))) = insert (route_key v p) (set (dkeys (mt_requests m)))"
  by (simp_all add: observe_def total_bump keys_bump del: set_map)

lemma trace_context_metrics:
  "\<exists>status. fst (trace_context endpoint u c t req m) = observe (req_path req) (req_method req) status t m"
  by (auto simp: trace_context_def split: option.split)

text \<open>Which requests reach an endpoint: those that neither the access control nor a limit stops, the access control or the
  limits not failing themselves. The windows of the limits go on from request to request.\<close>

definition passes :: "request_env \<Rightarrow> http_request \<Rightarrow> window_store \<Rightarrow> window_store \<times> bool" where
  "passes en req events =
     (if enforce_rbac (rq_rbac en) (rq_loads en) req \<noteq> None then (events, False)
      else (case enforce_rate_limits (rq_limits en) (rq_clock en) req events of (events', verdict) \<Rightarrow> (events', verdict = Forward)))"

fun forwarded :: "(request_env \<times> http_request) list \<Rightarrow> window_store \<Rightarrow> bool list" where
  "forwarded [] events = []"
| "forwarded ((en, req) # rest) events = (case passes en req events of (events', f) \<Rightarrow> f # forwarded rest events')"

definition counted :: "('k, 'n :: zero) dict \<Rightarrow> 'k \<Rightarrow> 'n" where
  "counted d k = (case dget d k of None \<Rightarrow> 0 | Some n \<Rightarrow> n)"

definition route_of :: "request_env \<times> http_request \<Rightarrow> pystr" where
  "route_of x = route_key (req_method (snd x)) (req_path (snd x))"

text \<open>The name of a request in its answer.\<close>

definition named_answer :: "request_env \<times> http_request \<Rightarrow> bool \<Rightarrow> response \<Rightarrow> bool" where
  "named_answer x f r \<longleftrightarrow>
     dget (rp_headers r) (lit ''X-Request-ID'')
       = (if f \<and> rq_endpoint (fst x) (snd x) \<noteq> None
          then Some (trace_id (snd x) ''x-request-id'' (lit ''req_'' @ rq_request_uuid (fst x))) else None)"

lemma counted_bump: "counted (bump k n d) j = counted d j + (if k = j then n else 0)" for d :: "('k, 'n :: comm_monoid_add) dict"
  by (simp add: counted_def bump_def dget_dset add.commute split: option.split)

text \<open>What one request does.\<close>

lemma handle_request_counts:
  assumes "handle_request en req (events, m) = ((events', m'), r)" "passes en req events = (events'', f)"
  shows "events' = events'' \<and> named_answer (en, req) f r
    \<and> m' = (if f then observe (req_path req) (req_method req) (rp_status r) (rq_seconds en) m else m)"
proof (cases "enforce_rbac (rq_rbac en) (rq_loads en) req")
  case None
  obtain ev v where v: "enforce_rate_limits (rq_limits en) (rq_clock en) req events = (ev, v)" by force
  have names: "lit ''X-Request-ID'' \<noteq> lit ''X-Correlation-ID''" "lit ''X-Request-ID'' \<noteq> lit ''Retry-After''" by (simp_all add: lit_def)
  from assms None v show ?thesis
    by (cases v; cases "rq_endpoint en req")
      (auto simp: handle_request_def passes_def trace_context_def answer_of_def general_error_def named_answer_def dget_dset names)
next
  case (Some refusal)
  with assms show ?thesis
    by (cases refusal) (auto simp: handle_request_def passes_def named_answer_def general_error_def)
qed

lemma handle_all_counts:
  assumes "handle_all reqs (events, m) = ((events', m'), answers)"
  shows "counted (mt_requests m') k = counted (mt_requests m) k
        + int (length (filter (\<lambda>(x, f). f \<and> route_of x = k) (zip reqs (forwarded reqs events))))
    \<and> counted (mt_status m') k = counted (mt_status m) k
        + int (length (filter (\<lambda>(f, r). f \<and> str_of_int (rp_status r) = k) (zip (forwarded reqs events) answers)))
    \<and> counted (mt_latency m') k = counted (mt_latency m) k
        + (\<Sum>(x, f) \<leftarrow> zip reqs (forwarded reqs events). if f \<and> route_of x = k then max 0 (rq_seconds (fst x)) else 0)
    \<and> length answers = length reqs
    \<and> list_all (\<lambda>((x, f), r). named_answer x f r) (zip (zip reqs (forwarded reqs events)) answers)"
  using assms
proof (induction reqs arbitrary: events m answers)
  case (Cons x rest)
  obtain en req where x: "x = (en, req)" by force
  obtain ev1 m1 r where one: "handle_request en req (events, m) = ((ev1, m1), r)" by (metis prod.collapse)
  obtain rs where more: "handle_all rest (ev1, m1) = ((events', m'), rs)" and answers: "answers = r # rs"
    using Cons.prems one x by (auto split: prod.splits)
  obtain ev2 f where f: "passes en req events = (ev2, f)" by force
  note this_one = handle_request_counts [OF one f]
  then have fs: "forwarded (x # rest) events = f # forwarded rest ev1" using f x by simp
  have route: "route_of (en, req) = route_key (req_method req) (req_path req)" by (simp add: route_of_def)
  have m1: "counted (mt_requests m1) k = counted (mt_requests m) k + (if f \<and> route_of x = k then 1 else 0)"
    "counted (mt_status m1) k = counted (mt_status m) k + (if f \<and> str_of_int (rp_status r) = k then 1 else 0)"
    "counted (mt_latency m1) k = counted (mt_latency m) k + (if f \<and> route_of x = k then max 0 (rq_seconds en) else 0)"
    using this_one by (simp_all add: observe_def counted_bump x route)
  from Cons.IH [OF more] m1 this_one show ?case unfolding answers fs by (simp add: x)
qed simp

text \<open>C26: The counters are exact. After any requests, the counter of a route is the number of the requests with that route
  which reached their endpoint, the counter of a status the number of those answered with that status (500 if the endpoint
  raised), and the latency of a route the sum of their latencies; a request that the access control or a limit stopped, or
  whose check failed, is counted nowhere. Every request gets one answer, and an answer carries the name of its request
  exactly if the endpoint was reached and answered.\<close>

theorem request_accounting:
  "case handle_all reqs (events, no_metrics) of ((events', m), answers) \<Rightarrow>
     counted (mt_requests m) route
       = int (length (filter (\<lambda>(x, f). f \<and> route_of x = route) (zip reqs (forwarded reqs events))))
     \<and> counted (mt_status m) status
       = int (length (filter (\<lambda>(f, r). f \<and> str_of_int (rp_status r) = status) (zip (forwarded reqs events) answers)))
     \<and> counted (mt_latency m) route
       = (\<Sum>(x, f) \<leftarrow> zip reqs (forwarded reqs events). if f \<and> route_of x = route then max 0 (rq_seconds (fst x)) else 0)
     \<and> length answers = length reqs
     \<and> list_all (\<lambda>((x, f), r). named_answer x f r) (zip (zip reqs (forwarded reqs events)) answers)"
proof -
  obtain events' m answers where all: "handle_all reqs (events, no_metrics) = ((events', m), answers)" by (metis prod.collapse)
  have none: "counted (mt_requests no_metrics) route = 0" "counted (mt_status no_metrics) status = 0"
    "counted (mt_latency no_metrics) route = 0" by (simp_all add: no_metrics_def counted_def)
  from handle_all_counts [OF all, of route] handle_all_counts [OF all, of status] show ?thesis
    unfolding all none prod.case by simp
qed

text \<open>A request that is stopped leaves the counters as they are, one that is over a limit is answered 429, and one whose
  check of the limits fails 500.\<close>

lemma stopped_request:
  "if enforce_rbac (rq_rbac en) (rq_loads en) req \<noteq> None then fst (handle_request en req (events, m)) = (events, m)
   else (case enforce_rate_limits (rq_limits en) (rq_clock en) req events of
       (events', Forward) \<Rightarrow> True
     | (events', TooManyRequests scope v wait retry_after) \<Rightarrow>
         fst (handle_request en req (events, m)) = (events', m) \<and> rp_status (snd (handle_request en req (events, m))) = 429
     | (events', Crashed e) \<Rightarrow> handle_request en req (events, m) = ((events', m), general_error))"
  by (auto simp: handle_request_def split: option.split refusal.split rate_verdict.split prod.split)

definition balanced :: "metrics \<Rightarrow> bool" where
  "balanced m \<longleftrightarrow> all_counts (mt_requests m) = all_counts (mt_status m) \<and> set (dkeys (mt_latency m)) = set (dkeys (mt_requests m))"

lemma handle_request_metrics:
  "snd (fst (handle_request en req st)) = snd st
   \<or> (\<exists>status. snd (fst (handle_request en req st)) = observe (req_path req) (req_method req) status (rq_seconds en) (snd st))"
  using trace_context_metrics [of "rq_endpoint en" "rq_request_uuid en" "rq_correlation_uuid en" "rq_seconds en" req "snd st"]
  by (cases st) (auto simp: handle_request_def split: option.split refusal.split rate_verdict.split prod.split)

lemma handle_all_balanced:
  "balanced (snd st) \<Longrightarrow> handle_all reqs st = (st', rs) \<Longrightarrow>
     balanced (snd st') \<and> all_counts (mt_requests (snd st')) \<le> all_counts (mt_requests (snd st)) + int (length reqs) \<and> length rs = length reqs"
proof (induction reqs st arbitrary: st' rs rule: handle_all.induct)
  case (2 en req rest st)
  obtain s1 r where one: "handle_request en req st = (s1, r)" by fastforce
  obtain s2 rs' where more: "handle_all rest s1 = (s2, rs')" by fastforce
  have "balanced (snd s1) \<and> all_counts (mt_requests (snd s1)) \<le> all_counts (mt_requests (snd st)) + 1"
    using handle_request_metrics [of en req st] unfolding one fst_conv
    by (elim disjE exE) (use "2.prems"(1) in \<open>simp_all add: balanced_def observe_totals del: set_map\<close>)
  with "2.IH" [OF one [symmetric] _ more] "2.prems"(2) one more show ?case by auto
qed auto

text \<open>After any requests the counters agree: as many requests are counted by route as by status, never more than there
  were, each route with its latency, and every request has got its answer.\<close>

theorem counters_agree:
  "case handle_all reqs (events, no_metrics) of ((events', m), answers) \<Rightarrow>
     all_counts (mt_requests m) = all_counts (mt_status m) \<and> all_counts (mt_requests m) \<le> int (length reqs)
     \<and> set (dkeys (mt_latency m)) = set (dkeys (mt_requests m)) \<and> length answers = length reqs"
proof -
  obtain st answers where all: "handle_all reqs (events, no_metrics) = (st, answers)" by fastforce
  obtain events' m where st: "st = (events', m)" by fastforce
  have "balanced no_metrics" "all_counts (mt_requests no_metrics) = 0" by (simp_all add: balanced_def no_metrics_def all_counts_def)
  with handle_all_balanced [OF _ all] have "balanced m \<and> all_counts (mt_requests m) \<le> int (length reqs) \<and> length answers = length reqs"
    by (simp add: st)
  then show ?thesis by (simp add: all st balanced_def)
qed

section \<open>Start and end\<close>

text \<open>A platform that does not start keeps those after it from starting, although they are kept and stopped at the end.\<close>

lemma failing_platform_stops_rest:
  assumes "\<And>q. q \<in> set ps \<Longrightarrow> start q = None" "start p = Some e"
  shows "fst (start_platforms start (ps @ p # qs)) = ps"
  using assms by (induction ps) (auto split: prod.split)

lemma all_platforms_start: "(\<And>q. q \<in> set ps \<Longrightarrow> start q = None) \<Longrightarrow> start_platforms start ps = (ps, None)"
  by (induction ps) auto

text \<open>Every step of the cleanup is done, in order, however the others end; a store is flushed once, even if several handlers
  share it, and every platform that was created is stopped.\<close>

lemma cleanup_complete:
  "stop_app ends cli_manager store_of st = cleanup_steps cli_manager store_of st
   \<and> distinct (filter (\<lambda>c. case c of FlushStore n \<Rightarrow> True | _ \<Rightarrow> False) (stop_app ends cli_manager store_of st))
   \<and> (\<forall>p \<in> set (as_platforms st). StopPlatform p \<in> set (stop_app ends cli_manager store_of st))"
proof -
  have all: "fold (best_effort ends) cs acc = acc @ cs" for cs acc
    by (induction cs arbitrary: acc) (simp_all add: best_effort_def split: ended.split)
  have flushes: "filter (\<lambda>c. case c of FlushStore n \<Rightarrow> True | _ \<Rightarrow> False) (map FlushStore ns) = map FlushStore ns" for ns :: "nat list"
    by (induction ns) auto
  have others: "filter (\<lambda>c. case c of FlushStore n \<Rightarrow> True | _ \<Rightarrow> False) (map StopPlatform ps) = []" for ps :: "'a list"
    by (induction ps) auto
  have "stop_app ends cli_manager store_of st = cleanup_steps cli_manager store_of st"
    by (simp only: stop_app_def all append_Nil)
  then show ?thesis
    by (auto simp: cleanup_steps_def flushes others distinct_map inj_on_def)
qed

end
