(* ===== verification/Migrations.thy ===== *)
theory Migrations
  imports JsonCanonical PyText
begin

text \<open>
  The migrations of \<open>storage/migrations/runner.py\<close> and the names of locks of \<open>storage/distributed_lock.py\<close>. The contents
  of the database and what a file of SQL does to them are parameters, \<open>None\<close> where a statement fails; so is the hash.
  All files are applied in the one transaction of \<open>get_db_cursor\<close>, which a failure rolls back.
\<close>

section \<open>Migrations\<close>

record 'db migrated =
  md_contents :: 'db
  md_table :: bool
  md_applied :: "pystr list"

text \<open>The files of the directory with their texts, in any order; \<open>sorted\<close> puts them in the order of their names.\<close>

type_synonym sql_files = "(pystr \<times> pystr) list"

definition sorted_files :: "sql_files \<Rightarrow> sql_files" where
  "sorted_files files = sort_key fst files"

text \<open>The loop, with the versions that were applied before it; the version is the key of its table.\<close>

fun apply_each ::
    "(pystr \<Rightarrow> 'db \<Rightarrow> 'db option) \<Rightarrow> sql_files \<Rightarrow> pystr list \<Rightarrow> 'db migrated \<Rightarrow> nat \<Rightarrow> ('db migrated \<times> nat) option" where
  "apply_each execute [] applied d n = Some (d, n)"
| "apply_each execute ((version, sql) # files) applied d n =
     (if version \<in> set applied then apply_each execute files applied d n
      else
        (case execute sql (md_contents d) of
           None \<Rightarrow> None
         | Some contents \<Rightarrow>
             if version \<in> set (md_applied d) then None
             else apply_each execute files applied
                    (d\<lparr>md_contents := contents, md_applied := md_applied d @ [version]\<rparr>) (n + 1)))"

definition run_migrations ::
    "(pystr \<Rightarrow> 'db \<Rightarrow> 'db option) \<Rightarrow> sql_files \<Rightarrow> 'db migrated \<Rightarrow> 'db migrated \<times> nat option" where
  "run_migrations execute files d =
     (let created = d\<lparr>md_table := True, md_applied := (if md_table d then md_applied d else [])\<rparr>
      in case apply_each execute (sorted_files files) (md_applied created) created 0 of
           None \<Rightarrow> (d, None)
         | Some (d', n) \<Rightarrow> (d', Some n))"

fun execute_all :: "(pystr \<Rightarrow> 'db \<Rightarrow> 'db option) \<Rightarrow> pystr list \<Rightarrow> 'db \<Rightarrow> 'db option" where
  "execute_all execute [] c = Some c"
| "execute_all execute (sql # sqls) c = (case execute sql c of None \<Rightarrow> None | Some c' \<Rightarrow> execute_all execute sqls c')"

definition pending_files :: "pystr list \<Rightarrow> sql_files \<Rightarrow> sql_files" where
  "pending_files applied files = filter (\<lambda>f. fst f \<notin> set applied) files"

lemma apply_each_some:
  assumes "apply_each execute files applied d n = Some (d', n')"
  shows "md_applied d' = md_applied d @ map fst (pending_files applied files)
    \<and> n' = n + length (pending_files applied files) \<and> md_table d' = md_table d
    \<and> execute_all execute (map snd (pending_files applied files)) (md_contents d) = Some (md_contents d')"
  using assms
  by (induction execute files applied d n rule: apply_each.induct)
    (auto simp: pending_files_def split: if_splits option.splits)

lemma apply_each_none_pending: "pending_files applied files = [] \<Longrightarrow> apply_each execute files applied d n = Some (d, n)"
  by (induction execute files applied d n rule: apply_each.induct) (auto simp: pending_files_def split: if_splits)

lemma sorted_files_sorted: "sorted (map fst (sorted_files files))" "mset (sorted_files files) = mset files"
  by (simp_all add: sorted_files_def)

text \<open>C27: A run of the migrations either fails and leaves everything as it was, or applies exactly the files that were not
  applied before, each once and in the order of their names, and records them; a second run then applies nothing.\<close>

theorem migrations_once:
  "case run_migrations execute files d of
     (d', None) \<Rightarrow> d' = d
   | (d', Some n) \<Rightarrow>
       (let before = (if md_table d then md_applied d else []);
            new = pending_files before (sorted_files files)
        in md_applied d' = before @ map fst new \<and> n = length new \<and> sorted (map fst new)
           \<and> execute_all execute (map snd new) (md_contents d) = Some (md_contents d')
           \<and> run_migrations execute files d' = (d', Some 0))"
proof -
  let ?before = "if md_table d then md_applied d else []"
  let ?created = "d\<lparr>md_table := True, md_applied := ?before\<rparr>"
  show ?thesis
  proof (cases "apply_each execute (sorted_files files) ?before ?created 0")
    case None
    then show ?thesis by (simp add: run_migrations_def Let_def)
  next
    case (Some out)
    obtain d' n where out: "out = (d', n)" by fastforce
    let ?new = "pending_files ?before (sorted_files files)"
    have run: "run_migrations execute files d = (d', Some n)"
      using Some out by (simp add: run_migrations_def Let_def)
    from apply_each_some [OF Some [unfolded out]] have res: "md_applied d' = ?before @ map fst ?new" "n = length ?new"
        "md_table d'" "execute_all execute (map snd ?new) (md_contents d) = Some (md_contents d')"
      by simp_all
    have "pending_files (md_applied d') (sorted_files files) = []"
      unfolding res(1) by (auto simp: pending_files_def filter_empty_conv)
    from apply_each_none_pending [OF this, of execute d' 0] have again: "run_migrations execute files d' = (d', Some 0)"
      using res(3) by (cases d') (simp add: run_migrations_def Let_def)
    have "sorted (map fst ?new)"
      using sorted_files_sorted(1) [of files] by (simp add: pending_files_def sorted_map sorted_wrt_filter)
    with run res again show ?thesis by (simp add: Let_def)
  qed
qed

section \<open>Names of locks\<close>

definition bytes_value :: "bytes \<Rightarrow> int" where
  "bytes_value bs = foldl (\<lambda>n b. 256 * n + int (byte b)) 0 bs"

unbundle bit_operations_syntax

definition advisory_lock_key :: "(bytes \<Rightarrow> bytes) \<Rightarrow> bytes \<Rightarrow> int" where
  "advisory_lock_key sha256 raw = bytes_value (take 8 (sha256 raw)) AND 0x7FFFFFFFFFFFFFFF"

definition lock_text :: "int \<Rightarrow> int \<Rightarrow> pystr" where
  "lock_text workspace_id automation_id =
     join (lit ''|'') [lit ''automation_execute'', str_of_int workspace_id, str_of_int automation_id]"

text \<open>\<open>pg_try_advisory_xact_lock\<close>, against the keys that other transactions hold.\<close>

definition try_acquire_lock :: "(bytes \<Rightarrow> bytes) \<Rightarrow> int \<Rightarrow> int \<Rightarrow> int list \<Rightarrow> bool" where
  "try_acquire_lock sha256 workspace_id automation_id held \<longleftrightarrow>
     (case utf8 (lock_text workspace_id automation_id) of
        None \<Rightarrow> False | Some raw \<Rightarrow> advisory_lock_key sha256 raw \<notin> set held)"

lemma mask63: "(0x7FFFFFFFFFFFFFFF :: int) = mask 63"
  by (simp add: mask_eq_exp_minus_1)

text \<open>The key of a lock is a number that a \<open>BIGINT\<close> of the database holds, whatever the hash gives.\<close>

theorem lock_key_bounds: "0 \<le> advisory_lock_key sha256 raw \<and> advisory_lock_key sha256 raw < 2 ^ 63"
  using take_bit_int_less_exp [of 63 "bytes_value (take 8 (sha256 raw))"]
  by (simp add: advisory_lock_key_def mask63 flip: take_bit_eq_mask)

text \<open>Different automations have different texts, so only the hash can make them share a lock.\<close>

lemma bar_split:
  "b \<notin> set x \<Longrightarrow> b \<notin> set y \<Longrightarrow> x @ b # u = y @ b # v \<Longrightarrow> x = y \<and> u = v"
  by (induction x arbitrary: y) (auto simp: Cons_eq_append_conv)

lemma number_without_bar: "Ch (CHR ''|'') \<notin> set (str_of_int i)"
  by (simp add: str_of_int_def digit_is_no_sign)

lemma lock_text_inject: "lock_text w a = lock_text w' a' \<Longrightarrow> w = w' \<and> a = a'"
proof -
  assume same: "lock_text w a = lock_text w' a'"
  then have "str_of_int w @ Ch (CHR ''|'') # str_of_int a = str_of_int w' @ Ch (CHR ''|'') # str_of_int a'"
    by (simp add: lock_text_def lit_def)
  from bar_split [OF number_without_bar number_without_bar this] show ?thesis
    by (auto dest: str_of_int_inject)
qed

end
