(* ===== verification/Transcription.thy ===== *)
theory Transcription
  imports PyText
begin

text \<open>
  \<open>messaging/transcription.py\<close>: the checks of a voice note, the names of models, the cache of local models and what is
  made of a result. The local pipelines and the NIM service are inputs.
\<close>

section \<open>Models\<close>

definition MAX_AUDIO_SIZE_BYTES :: int where
  "MAX_AUDIO_SIZE_BYTES = 25 * 1024 * 1024"

definition NIM_MODEL_MAP :: "(pystr, pystr \<times> pystr) dict" where
  "NIM_MODEL_MAP = map (\<lambda>(m, f, l). (lit m, (lit f, lit l)))
     [(''nvidia/parakeet-ctc-0.6b-zh-tw'', ''8473f56d-51ef-473c-bb26-efd4f5def2bf'', ''zh-TW''),
      (''nvidia/parakeet-ctc-0.6b-zh-cn'', ''9add5ef7-322e-47e0-ad7a-5653fb8d259b'', ''zh-CN''),
      (''nvidia/parakeet-ctc-0.6b-es'', ''None'', ''es-US''),
      (''nvidia/parakeet-ctc-0.6b-vi'', ''f3dff2bb-99f9-403d-a5f1-f574a757deb0'', ''vi-VN''),
      (''nvidia/parakeet-ctc-1.1b-asr'', ''1598d209-5e27-4d3c-8079-4751568b1081'', ''en-US''),
      (''nvidia/parakeet-ctc-0.6b-asr'', ''d8dd4e9b-fbf5-4fb0-9dba-8cf436c8d965'', ''en-US''),
      (''nvidia/parakeet-1.1b-rnnt-multilingual-asr'', ''71203149-d3b7-4460-8231-1be2543a1fca'', ''''),
      (''openai/whisper-large-v3'', ''b702f636-f60c-4a3d-a6f4-f3568c13bd7d'', ''multi'')]"

definition MODEL_MAP :: "(pystr, pystr) dict" where
  "MODEL_MAP = map (\<lambda>(s, m). (lit s, lit m))
     [(''tiny'', ''openai/whisper-tiny''), (''base'', ''openai/whisper-base''), (''small'', ''openai/whisper-small''),
      (''medium'', ''openai/whisper-medium''), (''large-v2'', ''openai/whisper-large-v2''),
      (''large-v3'', ''openai/whisper-large-v3''), (''large-v3-turbo'', ''openai/whisper-large-v3-turbo'')]"

definition resolve_model_id :: "pystr \<Rightarrow> pystr" where
  "resolve_model_id model = (case dget MODEL_MAP model of Some m \<Rightarrow> m | None \<Rightarrow> model)"

section \<open>Local transcription\<close>

text \<open>What the pipeline gives as its text: nothing, a text or a list of texts. Whether the libraries are there and whether
  a model can be loaded are inputs.\<close>

datatype raw_text = NoText | OneText pystr | TextList "pystr list"

record audio_env =
  ae_libraries :: "py_error option"
  ae_riva :: "py_error option"
  ae_load :: "pystr \<Rightarrow> pystr \<Rightarrow> py_error option"
  ae_listen :: "pystr \<times> pystr \<Rightarrow> py_error + raw_text"
  ae_nim :: "pystr \<times> pystr \<Rightarrow> py_error + pystr list list"

type_synonym pipelines = "(pystr \<times> pystr) list"

definition get_pipeline :: "audio_env \<Rightarrow> pystr \<Rightarrow> pystr \<Rightarrow> pipelines \<Rightarrow> pipelines \<times> (pystr \<times> pystr) result" where
  "get_pipeline ae model_id device cache =
     (if device \<noteq> lit ''cpu'' \<and> device \<noteq> lit ''cuda'' then (cache, Inl (ValueError []))
      else if (model_id, device) \<in> set cache then (cache, Inr (model_id, device))
      else (case ae_libraries ae of
              Some e \<Rightarrow> (cache, Inl e)
            | None \<Rightarrow>
                (case ae_load ae model_id device of
                   Some e \<Rightarrow> (cache, Inl e)
                 | None \<Rightarrow> (cache @ [(model_id, device)], Inr (model_id, device)))))"

definition no_speech :: pystr where
  "no_speech = lit ''(no speech detected)''"

definition result_text :: "raw_text \<Rightarrow> pystr" where
  "result_text r =
     str_or (strip (case r of NoText \<Rightarrow> [] | OneText t \<Rightarrow> t | TextList ts \<Rightarrow> join (lit '' '') ts)) no_speech"

definition transcribe_local :: "audio_env \<Rightarrow> pystr \<Rightarrow> pystr \<Rightarrow> pipelines \<Rightarrow> pipelines \<times> pystr result" where
  "transcribe_local ae model device cache =
     (case get_pipeline ae (resolve_model_id model) device cache of
        (cache', Inl e) \<Rightarrow> (cache', Inl e)
      | (cache', Inr p) \<Rightarrow> (cache', map_sum id result_text (ae_listen ae p)))"

section \<open>Transcription by the service\<close>

text \<open>The service answers with results of alternatives; the first alternative of the first result is taken.\<close>

definition first_alternative :: "pystr list list \<Rightarrow> pystr" where
  "first_alternative results = (case results of (t # _) # _ \<Rightarrow> t | _ \<Rightarrow> [])"

definition transcribe_nim :: "audio_env \<Rightarrow> pystr \<Rightarrow> pystr result" where
  "transcribe_nim ae model =
     (case ae_riva ae of
        Some e \<Rightarrow> Inl e
      | None \<Rightarrow>
          (case dget NIM_MODEL_MAP model of
             None \<Rightarrow> Inl (ValueError [])
           | Some config \<Rightarrow> map_sum id (\<lambda>rs. str_or (first_alternative rs) no_speech) (ae_nim ae config)))"

text \<open>The size of the file, \<open>None\<close> where there is none.\<close>

definition transcribe_audio ::
    "audio_env \<Rightarrow> int option \<Rightarrow> pystr \<Rightarrow> pystr \<Rightarrow> pipelines \<Rightarrow> pipelines \<times> pystr result" where
  "transcribe_audio ae bytes_of model device cache =
     (case bytes_of of
        None \<Rightarrow> (cache, Inl Unmodelled)
      | Some n \<Rightarrow>
          if MAX_AUDIO_SIZE_BYTES < n then (cache, Inl (ValueError []))
          else if device = lit ''nvidia_nim'' then (cache, transcribe_nim ae model)
          else transcribe_local ae model device cache)"

section \<open>Properties\<close>

lemma map_sum_Inr: "map_sum id f x = Inr t \<longleftrightarrow> (\<exists>a. x = Inr a \<and> t = f a)"
  by (cases x) auto

lemma not_empty_or_no_speech: "str_or s no_speech \<noteq> []"
  by (simp add: str_or_def no_speech_def lit_def)

text \<open>A transcription that does not raise is a text that is not empty, of a file within the bound.\<close>

lemma transcription_not_empty:
  assumes "transcribe_audio ae bytes_of model device cache = (cache', Inr t)"
  shows "t \<noteq> [] \<and> (\<exists>n. bytes_of = Some n \<and> n \<le> 25 * 1024 * 1024)"
  using assms
  by (auto simp: transcribe_audio_def transcribe_local_def transcribe_nim_def result_text_def not_empty_or_no_speech
      MAX_AUDIO_SIZE_BYTES_def map_sum_Inr split: option.splits if_splits prod.splits sum.splits)

text \<open>A model is loaded once: the cache has no pipeline twice and never loses one.\<close>

lemma pipelines_once:
  assumes "distinct cache" "transcribe_audio ae bytes_of model device cache = (cache', r)"
  shows "distinct cache' \<and> set cache \<subseteq> set cache' \<and> length cache' \<le> length cache + 1"
  using assms
  by (auto simp: transcribe_audio_def transcribe_local_def get_pipeline_def
      split: option.splits if_splits prod.splits sum.splits)

text \<open>Only the first result of the service counts: what is said after it is lost.\<close>

lemma later_results_lost: "first_alternative ([t] # later) = t"
  by (simp add: first_alternative_def)

text \<open>A text of blanks is no speech for a local model, but is passed on from the service.\<close>

lemma blank_results:
  "result_text (OneText (lit '' '')) = no_speech" "str_or (first_alternative [[lit '' '']]) no_speech = lit '' ''"
  by (simp_all add: result_text_def first_alternative_def str_or_def strip_def lstrip_def rstrip_def lit_def)

text \<open>One model of the map has the text \<open>None\<close> for a function of the service.\<close>

lemma spanish_model_without_function:
  "dget NIM_MODEL_MAP (lit ''nvidia/parakeet-ctc-0.6b-es'') = Some (lit ''None'', lit ''es-US'')"
  by (simp add: NIM_MODEL_MAP_def lit_def)

end
