(* ===== verification/Restart.thy ===== *)
theory Restart
  imports TreeManager SessionStore
begin

text \<open>
  What \<open>lifespan\<close> of \<open>api/app.py\<close> restores from the store when the program starts: one manager of trees for every
  platform, all of them from the same saved data, the clean-up of the tasks that were lost, and what of it goes back to
  the store. The theorems join the repository of trees, its manager, and the store on the file.
\<close>

section \<open>Restoring\<close>

record saved_data =
  sd_trees :: "(pystr, pyval) dict"
  sd_node_map :: "(pystr, pystr) dict"

definition saved_of :: "session_store \<Rightarrow> saved_data" where
  "saved_of s = \<lparr>sd_trees = ss_trees s, sd_node_map = ss_node_to_tree s\<rparr>"

definition manager_from_dict :: "from_iso \<Rightarrow> time \<Rightarrow> pyval \<Rightarrow> tree_manager result" where
  "manager_from_dict fromisoformat now data = rbind (repo_from_dict fromisoformat now data) (\<lambda>r. Inr (manager_init r))"

definition saved_value :: "saved_data \<Rightarrow> pyval" where
  "saved_value sd = PDict [(lit ''trees'', PDict (sd_trees sd)), (lit ''node_to_tree'', PDict (map (map_prod id PStr) (sd_node_map sd)))]"

definition trees_value :: "iso \<Rightarrow> tree_repository \<Rightarrow> (pystr, pyval) dict" where
  "trees_value isoformat r = map (\<lambda>(k, t). (k, tree_to_dict isoformat t)) (tr_trees r)"

text \<open>The manager of one platform, and the store after it was restored: the store only changes when tasks were lost.
  \<open>now\<close> is the time new messages are stamped with, \<open>failed\<close> the time the lost tasks failed.\<close>

definition restore_platform ::
    "iso \<Rightarrow> from_iso \<Rightarrow> time \<Rightarrow> time \<Rightarrow> saved_data \<Rightarrow> session_store \<Rightarrow> (tree_manager \<times> session_store) result" where
  "restore_platform isoformat fromisoformat now failed sd store =
     (if sd_trees sd = [] then Inr (manager_init repo_init, store)
      else rbind (manager_from_dict fromisoformat now (saved_value sd)) (\<lambda>m.
        case cleanup_stale_nodes failed m of
          (m', n) \<Rightarrow> Inr (m', if 0 < n then sync_from_tree_data (trees_value isoformat (tm_repo m')) (tr_node_to_tree (tm_repo m')) store
                            else store)))"

text \<open>A platform while it is started: the times of its restoring, what the platforms started before it do meanwhile to
  the store and to the saved data, whose mapping and lists of children all managers share, and what its own start raises.\<close>

record starting =
  st_now :: time
  st_failed :: time
  st_changes :: "store_change list"
  st_shared :: "saved_data \<Rightarrow> saved_data"
  st_error :: "py_error option"

fun restore_all ::
    "iso \<Rightarrow> from_iso \<Rightarrow> saved_data \<Rightarrow> starting list \<Rightarrow> session_store \<Rightarrow> tree_manager list \<times> session_store \<times> py_error option" where
  "restore_all isoformat fromisoformat sd [] store = ([], store, None)"
| "restore_all isoformat fromisoformat sd (p # ps) store =
     (case restore_platform isoformat fromisoformat (st_now p) (st_failed p) sd store of
        Inl e \<Rightarrow> ([], store, Some e)
      | Inr (m, store') \<Rightarrow>
          (let store'' = fold change_store (st_changes p) store'
           in case st_error p of
                Some e \<Rightarrow> ([], store'', Some e)
              | None \<Rightarrow> (case restore_all isoformat fromisoformat (st_shared p sd) ps store'' of (ms, s) \<Rightarrow> (m # ms, s))))"

text \<open>The whole of it: the store is opened on the file, and its data is taken once.\<close>

definition restore_at_start ::
    "(pyval \<Rightarrow> pystr) \<Rightarrow> int option \<Rightarrow> iso \<Rightarrow> from_iso \<Rightarrow> pyval option \<Rightarrow> starting list
      \<Rightarrow> (tree_manager list \<times> session_store \<times> py_error option) result" where
  "restore_at_start rp cap isoformat fromisoformat file ps =
     rbind (open_store rp cap file) (\<lambda>s. Inr (restore_all isoformat fromisoformat (saved_of s) ps s))"

section \<open>A repository survives\<close>

definition restored_tree :: "time \<Rightarrow> message_tree \<Rightarrow> message_tree" where
  "restored_tree now t = \<lparr>mt_root_id = mt_root_id t, mt_nodes = map (\<lambda>(k, n). (k, persisted now n)) (mt_nodes t),
     mt_status_to_node = status_index (mt_nodes t), mt_queue = sq_init, mt_is_processing = False,
     mt_current_node_id = None, mt_current_task = None\<rparr>"

definition restored_repo :: "time \<Rightarrow> tree_repository \<Rightarrow> tree_repository" where
  "restored_repo now r = \<lparr>tr_trees = map (\<lambda>(k, t). (k, restored_tree now t)) (tr_trees r), tr_node_to_tree = tr_node_to_tree r\<rparr>"

lemma restored_tree_get: "dget (mt_nodes (restored_tree now t)) k = map_option (persisted now) (dget (mt_nodes t) k)"
  by (simp add: restored_tree_def map_of_map)

lemma restored_tree_simps [simp]:
  "mt_root_id (restored_tree now t) = mt_root_id t" "has_node (restored_tree now t) k = has_node t k"
  by (simp_all add: restored_tree_def has_node_def din_def map_of_map)

lemma restored_terminal [simp]: "node_terminal (restored_tree now t) k = node_terminal t k"
  by (cases "dget (mt_nodes t) k")
    (simp_all add: node_terminal_def get_node_def restored_tree_get persisted_def terminal_def)

lemma status_ok_index:
  assumes "status_ok nodes st" "dict_ok nodes"
  shows "status_ok nodes (status_index nodes)"
  using assms(1) unfolding status_ok_def status_index_get [OF assms] .

lemma wf_with_index:
  assumes "tree_wf t"
  shows "tree_wf (t\<lparr>mt_status_to_node := status_index (mt_nodes t)\<rparr>)"
  using assms status_ok_index [OF tree_wfD(4,1) [OF assms]] status_index_keys [OF tree_wfD(4,1) [OF assms]]
  by (simp add: tree_wf_def)

lemma links_persisted: "links (persisted now n) = links n"
  by (simp add: links_def persisted_def)

lemma restored_tree_wf:
  assumes "tree_wf t"
  shows "tree_wf (restored_tree now t)"
proof (rule wf_same_links [OF wf_with_index [OF assms]])
  show "same_links (mt_nodes (t\<lparr>mt_status_to_node := status_index (mt_nodes t)\<rparr>)) (mt_nodes (restored_tree now t))"
    by (simp add: same_links_def restored_tree_get option.map_comp comp_def links_persisted)
      (simp add: restored_tree_def comp_def case_prod_beta)
qed (simp_all add: restored_tree_def)

lemma restored_repo_get: "dget (tr_trees (restored_repo now r)) k = map_option (restored_tree now) (dget (tr_trees r) k)"
  by (simp add: restored_repo_def map_of_map)

lemma restored_repo_wf:
  assumes "repo_wf r"
  shows "repo_wf (restored_repo now r)"
proof -
  have "dict_ok (tr_trees (restored_repo now r))" "dict_ok (tr_node_to_tree (restored_repo now r))"
    using assms by (simp_all add: repo_wf_def restored_repo_def comp_def case_prod_beta)
  moreover have "tree_wf t' \<and> mt_root_id t' = k \<and> (\<forall>n. has_node t' n \<longrightarrow> dget (tr_node_to_tree (restored_repo now r)) n = Some k)"
    if "dget (tr_trees (restored_repo now r)) k = Some t'" for k t'
  proof -
    from that obtain t where t: "dget (tr_trees r) k = Some t" "t' = restored_tree now t"
      by (auto simp: restored_repo_get)
    note W = repo_wf_tree [OF assms t(1)]
    show ?thesis
      using restored_tree_wf [OF W(1)] W(2,3) t(2) by (simp add: restored_repo_def)
  qed
  ultimately show ?thesis by (simp add: repo_wf_def)
qed

text \<open>Loading trees with keys of their own, one by one.\<close>

lemma fold_load_trees:
  assumes "iso_inverse isoformat fromisoformat"
  shows "\<forall>(k, t) \<in> set ts. tree_wf t \<Longrightarrow> distinct (dkeys acc @ dkeys ts) \<Longrightarrow>
    fold (load_tree fromisoformat now) (map (\<lambda>(k, t). (k, tree_to_dict isoformat t)) ts) (Inr acc)
      = Inr (acc @ map (\<lambda>(k, t). (k, restored_tree now t)) ts)"
proof (induction ts arbitrary: acc)
  case (Cons p ts)
  obtain k t where p: "p = (k, t)" by force
  with Cons.prems have t: "tree_wf t" and new: "k \<notin> set (dkeys acc)" by auto
  have "load_tree fromisoformat now (k, tree_to_dict isoformat t) (Inr acc) = Inr (acc @ [(k, restored_tree now t)])"
    using tree_roundtrip_wf [OF t assms, of now] new by (simp add: load_tree_def restored_tree_def dset_new)
  with Cons.IH [of "acc @ [(k, restored_tree now t)]"] Cons.prems p show ?case by simp
qed simp

lemma rmap_index: "rmap_list (\<lambda>(k, v). rbind (as_str v) (\<lambda>s. Inr (k, s))) (map (map_prod id PStr) d) = Inr d"
  by (induction d) auto

text \<open>What a repository wrote, it reads back.\<close>

lemma repo_roundtrip:
  assumes "repo_wf r" "iso_inverse isoformat fromisoformat"
  shows "repo_from_dict fromisoformat now (saved_value \<lparr>sd_trees = trees_value isoformat r, sd_node_map = tr_node_to_tree r\<rparr>)
    = Inr (restored_repo now r)"
proof -
  have d: "dict_ok (tr_trees r)" using assms(1) by (simp add: repo_wf_def)
  have w: "\<forall>(k, t) \<in> set (tr_trees r). tree_wf t"
    using repo_wf_tree(1) [OF assms(1)] d by auto
  show ?thesis
    using fold_load_trees [OF assms(2) w, of "[]" now] d
    by (simp add: repo_from_dict_def saved_value_def trees_value_def dict_field_def rmap_index restored_repo_def)
qed

lemma saved_value_of_repo: "repo_to_dict isoformat r = saved_value \<lparr>sd_trees = trees_value isoformat r, sd_node_map = tr_node_to_tree r\<rparr>"
  by (simp add: repo_to_dict_def saved_value_def trees_value_def map_prod_def)

section \<open>After the restart\<close>

lemma node_to_dict_persisted [simp]: "node_to_dict isoformat (persisted now n) = node_to_dict isoformat n"
  by (simp add: node_to_dict_def incoming_to_dict_def persisted_def)

lemma tree_to_dict_restored: "tree_to_dict isoformat (restored_tree now t) = tree_to_dict isoformat t"
  by (simp add: tree_to_dict_def restored_tree_def case_prod_beta comp_def)

lemma trees_value_restored: "trees_value isoformat (restored_repo now r) = trees_value isoformat r"
  by (simp add: trees_value_def restored_repo_def tree_to_dict_restored case_prod_beta comp_def)

lemma cleanup_keeps_wf:
  assumes "repo_wf (tm_repo m)" "cleanup_stale_nodes now m = (m', n)"
  shows "repo_wf (tm_repo m')"
proof -
  have m': "tr_trees (tm_repo m') = map (\<lambda>(k, t). (k, cleanup_tree now t)) (tr_trees (tm_repo m))"
    "tr_node_to_tree (tm_repo m') = tr_node_to_tree (tm_repo m)"
    using assms(2) by (auto simp: cleanup_stale_nodes_def)
  have "tree_wf t' \<and> mt_root_id t' = k \<and> (\<forall>x. has_node t' x \<longrightarrow> dget (tr_node_to_tree (tm_repo m')) x = Some k)"
    if "dget (tr_trees (tm_repo m')) k = Some t'" for k t'
  proof -
    from that obtain t where t: "dget (tr_trees (tm_repo m)) k = Some t" "t' = cleanup_tree now t"
      by (auto simp: m' map_of_map)
    note W = repo_wf_tree [OF assms(1) t(1)]
    show ?thesis
      using W wf_fold_set_error [OF W(1)] by (simp add: t(2) cleanup_tree_def m')
  qed
  moreover have "dict_ok (tr_trees (tm_repo m'))" "dict_ok (tr_node_to_tree (tm_repo m'))"
    using assms(1) by (simp_all add: repo_wf_def m' comp_def case_prod_beta)
  ultimately show ?thesis unfolding repo_wf_def by blast
qed

text \<open>What the clean-up makes of a node.\<close>

definition reconciled :: "time \<Rightarrow> message_node \<Rightarrow> message_node" where
  "reconciled now n = (if terminal n then n else error_node (lit ''Lost during server restart'') now n)"

lemma cleanup_tree_get:
  assumes "tree_wf t"
  shows "get_node (cleanup_tree now t) x = map_option (reconciled now) (get_node t x)"
proof -
  have "x \<in> set (stale [] t) \<longleftrightarrow> has_node t x \<and> \<not> node_terminal t x" using stale_iff [OF tree_wfD(1) [OF assms], of x "[]"] by simp
  then show ?thesis
    by (cases "dget (mt_nodes t) x")
      (auto simp: cleanup_tree_def get_node_def fold_set_error_get reconciled_def node_terminal_def has_node_def din_def)
qed

lemma cleanup_get:
  assumes "repo_wf (tm_repo m)" "cleanup_stale_nodes now m = (m', n)" "dget (tr_trees (tm_repo m)) k = Some t"
  shows "\<exists>t'. dget (tr_trees (tm_repo m')) k = Some t' \<and> (\<forall>x. get_node t' x = map_option (reconciled now) (get_node t x))"
proof -
  have "dget (tr_trees (tm_repo m')) k = Some (cleanup_tree now t)"
    using assms(2,3) by (auto simp: cleanup_stale_nodes_def map_of_map)
  with cleanup_tree_get [OF repo_wf_tree(1) [OF assms(1,3)]] show ?thesis by blast
qed

text \<open>No task was lost exactly if the clean-up counts none, and then it changes nothing.\<close>

lemma cleanup_of_nothing: "cleanup_stale_nodes now m = (m', 0) \<Longrightarrow> m' = m"
proof -
  assume c: "cleanup_stale_nodes now m = (m', 0)"
  then have z: "stale [] t = []" if "(k, t) \<in> set (tr_trees (tm_repo m))" for k t
    using that by (auto simp: cleanup_stale_nodes_def all_trees_def)
  have "map (\<lambda>(k, t). (k, cleanup_tree now t)) (tr_trees (tm_repo m)) = tr_trees (tm_repo m)"
    by (rule map_idI) (auto simp: cleanup_tree_def z)
  with c show ?thesis by (auto simp: cleanup_stale_nodes_def)
qed

lemma sync_fields [simp]:
  "ss_trees (sync_from_tree_data trees mapping s) = trees"
  "ss_node_to_tree (sync_from_tree_data trees mapping s) = mapping"
  "ss_message_log (sync_from_tree_data trees mapping s) = ss_message_log s"
  by (simp_all add: sync_from_tree_data_def schedule_save_def)

text \<open>What restoring from a consistent repository gives, for any store.\<close>

lemma restore_platform_result:
  assumes "repo_wf r" "iso_inverse isoformat fromisoformat" "tr_trees r \<noteq> []"
  shows "\<exists>m n. cleanup_stale_nodes failed (manager_init (restored_repo now r)) = (m, n)
     \<and> restore_platform isoformat fromisoformat now failed \<lparr>sd_trees = trees_value isoformat r, sd_node_map = tr_node_to_tree r\<rparr> store
         = Inr (m, if 0 < n then sync_from_tree_data (trees_value isoformat (tm_repo m)) (tr_node_to_tree r) store else store)
     \<and> repo_wf (tm_repo m) \<and> (n = 0 \<longrightarrow> tm_repo m = restored_repo now r)"
proof -
  let ?m = "manager_init (restored_repo now r)"
  obtain m n where c: "cleanup_stale_nodes failed ?m = (m, n)" by force
  have "repo_wf (tm_repo ?m)" by (simp add: manager_init_def restored_repo_wf [OF assms(1)])
  note wf = cleanup_keeps_wf [OF this c]
  have "tr_node_to_tree (tm_repo m) = tr_node_to_tree r"
    using c by (auto simp: cleanup_stale_nodes_def manager_init_def restored_repo_def)
  moreover have "trees_value isoformat r \<noteq> []" using assms(3) by (simp add: trees_value_def)
  moreover have "n = 0 \<longrightarrow> tm_repo m = restored_repo now r"
    using c cleanup_of_nothing [of failed ?m m] by (auto simp: manager_init_def)
  ultimately show ?thesis
    using c wf repo_roundtrip [OF assms(1,2), of now]
    by (simp add: restore_platform_def manager_from_dict_def)
qed

text \<open>C4: a program that starts on the file of a consistent store of message trees gives its platform a consistent manager
  with the same trees and the same nodes: every node that had completed or failed is as it was saved, every other one is in
  the state \<open>ERROR\<close> with the message \<open>Lost during server restart\<close> and the time of the clean-up, and store and manager agree on
  the trees, with the message log kept. The conversions of times are assumed to invert each other.\<close>
theorem restart_reconciles:
  assumes "repo_wf r" and "\<And>x. isoformat x \<noteq> [] \<and> fromisoformat (isoformat x) = Inr x"
    and "log_ok s" "ss_trees s = trees_value isoformat r" "ss_node_to_tree s = tr_node_to_tree r"
    and "st_error p = None" "st_changes p = []"
  shows "\<exists>m s'. restore_at_start rp cap isoformat fromisoformat (Some (snapshot s)) [p] = Inr ([m], s', None)
    \<and> repo_wf (tm_repo m) \<and> ss_trees s' = trees_value isoformat (tm_repo m) \<and> ss_message_log s' = ss_message_log s
    \<and> (\<forall>k t. dget (tr_trees r) k = Some t \<longrightarrow> (\<exists>t'. dget (tr_trees (tm_repo m)) k = Some t'
        \<and> (\<forall>x. get_node t' x = map_option (\<lambda>n. reconciled (st_failed p) (persisted (st_now p) n)) (get_node t x))))"
proof -
  have iso: "iso_inverse isoformat fromisoformat" using assms(2) by (simp add: iso_inverse_def)
  obtain s1 where s1: "open_store rp cap (Some (snapshot s)) = Inr s1" "ss_trees s1 = trees_value isoformat r"
      "ss_node_to_tree s1 = tr_node_to_tree r" "ss_message_log s1 = ss_message_log s"
    using session_store_roundtrip [OF assms(3), of rp cap] assms(4,5) by auto
  have saved: "saved_of s1 = \<lparr>sd_trees = trees_value isoformat r, sd_node_map = tr_node_to_tree r\<rparr>"
    using s1(2,3) by (simp add: saved_of_def)
  show ?thesis
  proof (cases "tr_trees r = []")
    case True
    with s1 assms(6,7) show ?thesis
      by (simp add: restore_at_start_def saved_of_def restore_platform_def trees_value_def manager_init_def repo_wf_init)
        (simp add: repo_init_def)
  next
    case False
    obtain m n where m: "cleanup_stale_nodes (st_failed p) (manager_init (restored_repo (st_now p) r)) = (m, n)"
        "restore_platform isoformat fromisoformat (st_now p) (st_failed p) (saved_of s1) s1
           = Inr (m, if 0 < n then sync_from_tree_data (trees_value isoformat (tm_repo m)) (tr_node_to_tree r) s1 else s1)"
        "repo_wf (tm_repo m)" "n = 0 \<longrightarrow> tm_repo m = restored_repo (st_now p) r"
      using restore_platform_result [OF assms(1) iso False, of "st_failed p" "st_now p" s1] unfolding saved by blast
    let ?s = "if 0 < n then sync_from_tree_data (trees_value isoformat (tm_repo m)) (tr_node_to_tree r) s1 else s1"
    have "restore_at_start rp cap isoformat fromisoformat (Some (snapshot s)) [p] = Inr ([m], ?s, None)"
      using s1(1) m(2) assms(6,7) by (simp add: restore_at_start_def)
    moreover have "ss_trees ?s = trees_value isoformat (tm_repo m)" "ss_message_log ?s = ss_message_log s"
      using m(4) s1(2,4) by (auto simp: trees_value_restored)
    moreover have "\<exists>t'. dget (tr_trees (tm_repo m)) k = Some t'
        \<and> (\<forall>x. get_node t' x = map_option (\<lambda>n. reconciled (st_failed p) (persisted (st_now p) n)) (get_node t x))"
      if "dget (tr_trees r) k = Some t" for k t
    proof -
      let ?m = "manager_init (restored_repo (st_now p) r)"
      have "repo_wf (tm_repo ?m)" "dget (tr_trees (tm_repo ?m)) k = Some (restored_tree (st_now p) t)"
        using that restored_repo_wf [OF assms(1)] by (simp_all add: manager_init_def restored_repo_get)
      from cleanup_get [OF this(1) m(1) this(2)] show ?thesis
        by (simp add: get_node_def restored_tree_get option.map_comp comp_def)
    qed
    ultimately show ?thesis using m(3) by blast
  qed
qed

text \<open>A store with the trees of the example.\<close>

definition example_store :: session_store where
  "example_store = (store_init None)\<lparr>ss_trees := trees_value unary_iso (tm_repo example_manager),
     ss_node_to_tree := tr_node_to_tree (tm_repo example_manager)\<rparr>"

definition quiet_start :: starting where
  "quiet_start = \<lparr>st_now = 9, st_failed = 9, st_changes = [], st_shared = (\<lambda>sd. sd), st_error = None\<rparr>"

lemma unary_inverse: "unary_iso x \<noteq> [] \<and> unary_from_iso (unary_iso x) = Inr x"
  by (simp add: unary_iso_def unary_from_iso_def)

lemma example_store_ok:
  "log_ok example_store" "ss_trees example_store = trees_value unary_iso (tm_repo example_manager)"
  "ss_node_to_tree example_store = tr_node_to_tree (tm_repo example_manager)"
  by (simp_all add: example_store_def log_ok_def store_init_def chat_log_def chat_ids_def)

lemma example_manager_tree: "dget (tr_trees (tm_repo example_manager)) (lit ''1'') = Some example_tree"
  by (simp add: example_manager_def manager_init_def)

text \<open>The two open messages of the example have failed after the restart.\<close>
theorem restart_reconciles_witness:
  "\<exists>m s' t'. restore_at_start (\<lambda>_. []) None unary_iso unary_from_iso (Some (snapshot example_store)) [quiet_start] = Inr ([m], s', None)
     \<and> dget (tr_trees (tm_repo m)) (lit ''1'') = Some t'
     \<and> (\<exists>n. get_node t' (lit ''3'') = Some n \<and> (mn_state n = ERROR \<or> mn_state n = COMPLETED))"
proof -
  have q: "st_error quiet_start = None" "st_changes quiet_start = []" by (simp_all add: quiet_start_def)
  obtain m s' where m: "restore_at_start (\<lambda>_. []) None unary_iso unary_from_iso (Some (snapshot example_store)) [quiet_start] = Inr ([m], s', None)"
      "\<forall>k t. dget (tr_trees (tm_repo example_manager)) k = Some t \<longrightarrow> (\<exists>t'. dget (tr_trees (tm_repo m)) k = Some t'
        \<and> (\<forall>x. get_node t' x = map_option (\<lambda>n. reconciled (st_failed quiet_start) (persisted (st_now quiet_start) n)) (get_node t x)))"
    using restart_reconciles [OF example_manager_wf unary_inverse example_store_ok q, of "\<lambda>_. []" None] by blast
  from m(2) example_manager_tree obtain t' where t': "dget (tr_trees (tm_repo m)) (lit ''1'') = Some t'"
      "get_node t' (lit ''3'') = map_option (\<lambda>n. reconciled 9 (persisted 9 n)) (get_node example_tree (lit ''3''))"
    by (fastforce simp: quiet_start_def)
  obtain n where n: "get_node example_tree (lit ''3'') = Some n"
    using example_has [of "lit ''3''"] by (auto simp: has_node_def din_def get_node_def)
  have "mn_state (reconciled 9 (persisted 9 n)) = ERROR \<or> mn_state (reconciled 9 (persisted 9 n)) = COMPLETED"
    by (auto simp: reconciled_def terminal_def error_node_def)
  with m(1) t' n show ?thesis by auto
qed

section \<open>Later platforms\<close>

text \<open>Every platform is restored from the data of the start. If a task was lost, restoring a later platform therefore takes
  away from the store all trees that were saved since, by the platforms that were started before.\<close>

lemma restore_forgets:
  assumes "repo_wf r" "iso_inverse isoformat fromisoformat" "tr_trees r \<noteq> []"
    and "cleanup_stale_nodes failed (manager_init (restored_repo now r)) = (m, n)" "0 < n"
  shows "\<exists>s'. restore_platform isoformat fromisoformat now failed
      \<lparr>sd_trees = trees_value isoformat r, sd_node_map = tr_node_to_tree r\<rparr> store = Inr (m, s')
    \<and> ss_trees s' = trees_value isoformat (tm_repo m) \<and> dkeys (ss_trees s') = dkeys (tr_trees r)"
proof -
  have "dkeys (trees_value isoformat (tm_repo m)) = dkeys (tr_trees r)"
    using assms(4) by (auto simp: cleanup_stale_nodes_def trees_value_def manager_init_def restored_repo_def case_prod_beta comp_def)
  then show ?thesis
    using restore_platform_result [OF assms(1,2,3), of failed now store] assms(4,5) by auto
qed

lemma saved_meanwhile_lost:
  assumes "repo_wf r" "iso_inverse isoformat fromisoformat" "dget (tr_trees r) k = Some t" "has_node t x" "\<not> node_terminal t x"
    and "saved_of s = \<lparr>sd_trees = trees_value isoformat r, sd_node_map = tr_node_to_tree r\<rparr>"
    and "st_error p = None" "st_shared p = (\<lambda>sd. sd)" "st_error q = None" "st_changes q = []"
  shows "\<exists>m1 m2 s'. restore_all isoformat fromisoformat (saved_of s) [p, q] s = ([m1, m2], s', None)
    \<and> dkeys (ss_trees s') = dkeys (tr_trees r)"
proof -
  have ne: "tr_trees r \<noteq> []" using assms(3) by auto
  have pos: "\<exists>m n. cleanup_stale_nodes failed (manager_init (restored_repo now r)) = (m, n) \<and> 0 < n" for failed now
  proof -
    let ?m = "manager_init (restored_repo now r)"
    obtain m n where c: "cleanup_stale_nodes failed ?m = (m, n)" by force
    have g: "dget (tr_trees (tm_repo ?m)) k = Some (restored_tree now t)" and w: "repo_wf (tm_repo ?m)"
      using assms(3) restored_repo_wf [OF assms(1)] by (simp_all add: manager_init_def restored_repo_get)
    have "length (stale [] (restored_tree now t)) \<le> n" using cleanup_stale_nodes_complete [OF w c g] by blast
    moreover have "x \<in> set (stale [] (restored_tree now t))"
      using stale_iff [OF tree_wfD(1) [OF restored_tree_wf [OF repo_wf_tree(1) [OF assms(1,3)]]], of x "[]" now] assms(4,5) by simp
    ultimately have "0 < n" by (cases "stale [] (restored_tree now t)") auto
    with c show ?thesis by blast
  qed
  obtain m1 n1 where 1: "cleanup_stale_nodes (st_failed p) (manager_init (restored_repo (st_now p) r)) = (m1, n1)" "0 < n1"
    using pos by blast
  obtain m2 n2 where 2: "cleanup_stale_nodes (st_failed q) (manager_init (restored_repo (st_now q) r)) = (m2, n2)" "0 < n2"
    using pos by blast
  obtain s1 where s1: "restore_platform isoformat fromisoformat (st_now p) (st_failed p) (saved_of s) s = Inr (m1, s1)"
    using restore_forgets [OF assms(1,2) ne 1, of s] unfolding assms(6) by blast
  obtain s2 where "restore_platform isoformat fromisoformat (st_now q) (st_failed q) (saved_of s) (fold change_store (st_changes p) s1) = Inr (m2, s2)"
      "dkeys (ss_trees s2) = dkeys (tr_trees r)"
    using restore_forgets [OF assms(1,2) ne 2, of "fold change_store (st_changes p) s1"] unfolding assms(6) by blast
  with s1 assms(7-10) show ?thesis by (simp add: Let_def)
qed

end
