(* ===== verification/ServiceRoutes.thy ===== *)
theory ServiceRoutes
  imports MessagesRoute MessageTypes HandlerCommands OpenAICompat NativeProviders
begin

text \<open>
  The service as a client of the HTTP interface meets it: the configuration of the providers and their end
  (\<open>api/dependencies.py\<close>), the small endpoints of \<open>api/routes.py\<close>, and \<open>/v1/messages\<close> with the provider behind it, from
  the request to the stream of the answer. It joins the endpoint, the converters and the streams of the providers; what
  the services answer is an input that depends on the body they are sent.
\<close>

section \<open>Configuration of the providers\<close>

record connections =
  cn_lm_studio_url :: pystr
  cn_llamacpp_url :: pystr
  cn_rate_limit :: int
  cn_rate_window :: int
  cn_max_concurrency :: int

definition OPENROUTER_BASE_URL :: pystr where
  "OPENROUTER_BASE_URL = lit ''https://openrouter.ai/api/v1''"

definition provider_config_of :: "connections \<Rightarrow> pystr \<Rightarrow> pystr \<Rightarrow> provider_config" where
  "provider_config_of cn api_key url =
     \<lparr>cfg_api_key = api_key, cfg_base_url = Some url, cfg_rate_limit = Some (cn_rate_limit cn),
      cfg_rate_window = cn_rate_window cn, cfg_max_concurrency = cn_max_concurrency cn\<rparr>"

definition provider_config_for :: "settings \<Rightarrow> connections \<Rightarrow> pystr \<Rightarrow> provider_error + provider_config" where
  "provider_config_for st cn provider_type =
     (if provider_type = lit ''nvidia_nim'' then
        if strip (st_nim_key st) = [] then Inl MissingKey else Inr (provider_config_of cn (st_nim_key st) NVIDIA_NIM_BASE_URL)
      else if provider_type = lit ''open_router'' then
        if strip (st_open_router_key st) = [] then Inl MissingKey else Inr (provider_config_of cn (st_open_router_key st) OPENROUTER_BASE_URL)
      else if provider_type = lit ''lmstudio'' then Inr (provider_config_of cn (lit ''lm-studio'') (cn_lm_studio_url cn))
      else if provider_type = lit ''llamacpp'' then Inr (provider_config_of cn (lit ''llamacpp'') (cn_llamacpp_url cn))
      else Inl UnknownProvider)"

text \<open>Where a provider with this configuration sends its requests.\<close>

definition rstrip_slash :: "pystr \<Rightarrow> pystr" where
  "rstrip_slash url = rev (dropWhile (\<lambda>c. c = slash) (rev url))"

definition provider_url :: "pystr \<Rightarrow> provider_config \<Rightarrow> pystr" where
  "provider_url provider_type cfg =
     (if provider_type = lit ''lmstudio'' then native_base_url LmStudio cfg
      else if provider_type = lit ''llamacpp'' then native_base_url LlamaCpp cfg
      else if provider_type = lit ''nvidia_nim'' then rstrip_slash (nim_base_url cfg)
      else rstrip_slash (url_or (cfg_base_url cfg) OPENROUTER_BASE_URL))"

text \<open>The providers are cleaned up one after the other. \<open>raises\<close> gives what the clean-up of a provider raises; then the rest of
  them stay in the registry, with those that are closed.\<close>

fun cleanup_each :: "(pystr \<Rightarrow> py_error option) \<Rightarrow> pystr list \<Rightarrow> pystr list \<times> py_error option" where
  "cleanup_each raises [] = ([], None)"
| "cleanup_each raises (p # ps) =
     (case raises p of
        Some e \<Rightarrow> ([], Some e)
      | None \<Rightarrow> (case cleanup_each raises ps of (closed_ones, e) \<Rightarrow> (p # closed_ones, e)))"

definition cleanup_provider :: "(pystr \<Rightarrow> py_error option) \<Rightarrow> pystr list \<Rightarrow> pystr list \<times> pystr list \<times> py_error option" where
  "cleanup_provider raises registry =
     (case cleanup_each raises registry of (closed_ones, e) \<Rightarrow> (closed_ones, if e = None then [] else registry, e))"

section \<open>Small endpoints\<close>

definition root_reply :: "settings \<Rightarrow> pyval" where
  "root_reply st = PDict [(lit ''status'', PStr (lit ''ok'')), (lit ''provider'', PStr (parse_provider_type (st_model st))),
     (lit ''model'', PStr (st_model st))]"

definition health_reply :: pyval where
  "health_reply = PDict [(lit ''status'', PStr (lit ''healthy''))]"

text \<open>\<open>/stop\<close>: by the handler of the first platform, or by the manager of the sessions alone.\<close>

datatype stop_reply = StoppedByHandler nat | StoppedByManager | NotInitialised

definition stop_cli :: "handler_env \<Rightarrow> handler option \<Rightarrow> cli_manager option \<Rightarrow> handler option \<times> cli_manager option \<times> stop_reply" where
  "stop_cli env h cli =
     (case h of
        Some h \<Rightarrow> (case stop_all_tasks env h of (h', n) \<Rightarrow> (Some h', Some (hd_cli h'), StoppedByHandler n))
      | None \<Rightarrow>
          (case cli of
             Some c \<Rightarrow> (None, Some (stop_all c), StoppedByManager)
           | None \<Rightarrow> (None, None, NotInitialised)))"

section \<open>A request and its answer\<close>

text \<open>What is behind the endpoint: the identifiers and clocks of a response, the limiter of the provider, and the services.\<close>

record upstream =
  up_env :: stream_env
  up_message_id :: pystr
  up_limiter :: provider_limiter
  up_chat :: "event \<Rightarrow> stream_chunk list \<times> exn option"
  up_dump :: "anthropic_request \<Rightarrow> (pystr, pyval) dict" \<comment> \<open>\<open>model_dump(exclude_none=True)\<close>\<close>
  up_clock :: "nat \<Rightarrow> unit attempt_env"
  up_native :: "(pystr, pyval) dict \<Rightarrow> nat \<Rightarrow> exn + native_response"

text \<open>An error with a status, a stream of events with the way it ends, a stream of lines, or a stream that raises before its first event: its status
  has been sent then.\<close>

datatype served =
    ServedMock mock_reply
  | ServedError nat
  | ServedEvents "sse_event list" "unit result"
  | ServedLines "pystr list"
  | ServedBroken py_error
  | NeverServed

definition chat_answer :: "upstream \<Rightarrow> provider_kind \<Rightarrow> event result \<Rightarrow> pystr \<Rightarrow> nat \<Rightarrow> served" where
  "chat_answer up kind body model n =
     (case body of
        Inl e \<Rightarrow> ServedBroken e
      | Inr b \<Rightarrow>
          (case up_chat up b of
             (chunks, failure) \<Rightarrow>
               (case stream_response ((up_env up)\<lparr>se_provider := kind\<rparr>) chunks failure
                       (stream_init (up_message_id up) model (int n) (up_limiter up)) of
                  (events, s, result) \<Rightarrow> ServedEvents events result)))"

definition native_answer :: "upstream \<Rightarrow> anthropic_request \<Rightarrow> served" where
  "native_answer up rq =
     (case native_stream (se_now (up_env up)) (se_read_timeout (up_env up)) (se_request_id (up_env up)) (up_clock up)
             (up_native up (native_body (up_dump up rq))) (up_limiter up) of
        None \<Rightarrow> NeverServed
      | Some (lines, l) \<Rightarrow> ServedLines lines)"

definition provider_answer :: "(pyval \<Rightarrow> pystr) \<Rightarrow> nim_settings \<Rightarrow> upstream \<Rightarrow> pystr \<Rightarrow> anthropic_request \<Rightarrow> nat \<Rightarrow> served" where
  "provider_answer rp nim up provider_type rq n =
     (if provider_type = lit ''nvidia_nim'' then chat_answer up PlainProvider (nim_request_body rp rq nim) (rq_model rq) n
      else if provider_type = lit ''open_router'' then chat_answer up OpenRouterProvider (openrouter_request_body rp rq) (rq_model rq) n
      else native_answer up rq)"

definition serve ::
    "settings \<Rightarrow> nim_settings \<Rightarrow> (pystr \<Rightarrow> nat result) \<Rightarrow> (pyval \<Rightarrow> pystr) \<Rightarrow> upstream \<Rightarrow> messages_request \<Rightarrow> pystr list
      \<Rightarrow> served \<times> pystr list" where
  "serve st nim enc rp up mr registry =
     (case messages_endpoint st enc rp mr registry of
        (Mocked m, r) \<Rightarrow> (ServedMock m, r)
      | (Refusal code, r) \<Rightarrow> (ServedError code, r)
      | (ServerFault code, r) \<Rightarrow> (ServedError code, r)
      | (Stream p rq n, r) \<Rightarrow> (provider_answer rp nim up p rq n, r))"

section \<open>Providers\<close>

text \<open>A provider is created exactly if it has a configuration.\<close>

lemma config_or_error:
  "create_provider_for_type st p = (case provider_config_for st cn p of Inl e \<Rightarrow> Some e | Inr cfg \<Rightarrow> None)"
  by (simp add: create_provider_for_type_def provider_config_for_def lit_def)

text \<open>The key of a provider is sent as it is set, blanks at its ends included, although only the stripped key is checked.\<close>

lemma key_not_stripped:
  assumes "strip (st_nim_key st) \<noteq> []"
  shows "provider_config_for st cn (lit ''nvidia_nim'') = Inr (provider_config_of cn (st_nim_key st) NVIDIA_NIM_BASE_URL)"
  using assms by (simp add: provider_config_for_def)

text \<open>A clean-up that raises leaves the closed providers in the registry, where later requests find them.\<close>

lemma cleanup_result:
  "cleanup_provider raises registry = (closed_ones, registry', e) \<Longrightarrow>
     (e = None \<longrightarrow> closed_ones = registry \<and> registry' = []) \<and> (e \<noteq> None \<longrightarrow> set closed_ones \<subseteq> set registry \<and> registry' = registry)"
proof -
  have each: "cleanup_each raises ps = (closed_ones, e) \<Longrightarrow> set closed_ones \<subseteq> set ps \<and> (e = None \<longrightarrow> closed_ones = ps)" for ps closed_ones e
    by (induction ps arbitrary: closed_ones e) (auto split: option.splits prod.splits)
  assume "cleanup_provider raises registry = (closed_ones, registry', e)"
  with each [of registry] show ?thesis by (auto simp: cleanup_provider_def split: prod.splits if_splits)
qed

section \<open>Every request is answered\<close>

text \<open>The system prompt that the request models accept.\<close>

definition valid_system :: "pyval \<Rightarrow> bool" where
  "valid_system v \<longleftrightarrow>
     (case v of
        PNone \<Rightarrow> True
      | PStr _ \<Rightarrow> True
      | PList blocks \<Rightarrow> list_all (\<lambda>b. case b of PDict d \<Rightarrow> block_type_is ''text'' d \<and> has_str ''text'' d | _ \<Rightarrow> False) blocks
      | _ \<Rightarrow> False)"

lemma system_converted: "valid_system v \<Longrightarrow> \<exists>msg. convert_system_prompt v = Inr msg"
proof (cases v)
  case (PList blocks)
  assume "valid_system v"
  with PList have "list_all (\<lambda>b. case b of PDict d \<Rightarrow> block_type_is ''text'' d \<and> has_str ''text'' d | _ \<Rightarrow> False) blocks"
    by (simp add: valid_system_def)
  then have "list_all str_value (map (\<lambda>b. get_block_attr b ''text'' (PStr [])) (filter (\<lambda>b. is_str (get_block_type b) ''text'') blocks))"
    by (induction blocks) (auto split: pyval.splits intro: has_str_attr)
  then obtain s where "join_values (newline @ newline)
      (map (\<lambda>b. get_block_attr b ''text'' (PStr [])) (filter (\<lambda>b. is_str (get_block_type b) ''text'') blocks)) = Inr s"
    using join_strings by blast
  with PList show ?thesis by (simp add: convert_system_prompt_def Let_def)
qed (simp_all add: convert_system_prompt_def)

lemma messages_converted:
  "list_all valid_message messages \<Longrightarrow> list_all text_results messages \<Longrightarrow> \<exists>out. convert_messages rp reasoning messages = Inr out"
proof -
  assume "list_all valid_message messages" "list_all text_results messages"
  then have "\<exists>outs. rmap_list (convert_message rp reasoning) messages = Inr outs"
  proof (induction messages)
    case (Cons msg messages)
    with message_typed [of msg rp reasoning] show ?case by auto
  qed simp
  then show ?thesis by (auto simp: convert_messages_def)
qed

lemma body_built:
  assumes "list_all valid_message (rq_messages rq)" "list_all text_results (rq_messages rq)" "valid_system (rq_system rq)"
  shows "\<exists>body. build_base_request_body rp most reasoning rq = Inr body"
proof -
  obtain messages where "convert_messages rp reasoning (rq_messages rq) = Inr messages"
    using messages_converted [OF assms(1,2)] by blast
  moreover obtain msg where "(if truthy (rq_system rq) then convert_system_prompt (rq_system rq) else Inr None) = Inr msg"
    using system_converted [OF assms(3)] by (cases "truthy (rq_system rq)") auto
  ultimately show ?thesis by (simp add: build_base_request_body_def Let_def)
qed

lemma bodies_built:
  assumes "list_all valid_message (rq_messages rq)" "list_all text_results (rq_messages rq)" "valid_system (rq_system rq)"
  shows "\<exists>body. nim_request_body rp rq nim = Inr body" "\<exists>body. openrouter_request_body rp rq = Inr body"
  using body_built [OF assms, of rp None False] body_built [OF assms, of rp "Some 81920" True]
  by (auto simp: nim_request_body_def openrouter_request_body_def Let_def)

text \<open>A stream a client can read from the first event to the last one, and how it ends.\<close>

definition readable_answer :: "upstream \<Rightarrow> pystr \<Rightarrow> nat \<Rightarrow> sse_event list \<Rightarrow> unit result \<Rightarrow> bool" where
  "readable_answer up model n events result \<longleftrightarrow>
     (\<exists>es c. events = MessageStart (up_message_id up) model (int n) # es \<and> monitor client_step Waiting events = Some c
        \<and> ended_well (up_env up) result c)"

lemma ended_well_provider [simp]: "ended_well (env\<lparr>se_provider := kind\<rparr>) = ended_well env"
  by (auto simp: fun_eq_iff ended_well_def split: sum.splits)

lemma chat_answer_readable:
  assumes "chat_answer up kind (Inr body) model n = answer"
  shows "\<exists>events result. answer = ServedEvents events result \<and> readable_answer up model n events result"
proof -
  let ?env = "(up_env up)\<lparr>se_provider := kind\<rparr>" and ?s = "stream_init (up_message_id up) model (int n) (up_limiter up)"
  obtain chunks failure where got: "up_chat up body = (chunks, failure)" by fastforce
  obtain events s result where run: "stream_response ?env chunks failure ?s = (events, s, result)" by (metis prod_cases3)
  obtain es c where "events = MessageStart (up_message_id up) model (int n) # es"
      "monitor client_step Waiting (MessageStart (up_message_id up) model (int n) # es) = Some c" "ended_well ?env result c"
    using response_complete [of ?env "up_message_id up" model "int n" "up_limiter up" chunks failure] run
    by (auto simp: response_events_def)
  then have "readable_answer up model n events result" by (auto simp: readable_answer_def)
  then show ?thesis using assms got run by (auto simp: chat_answer_def)
qed

lemma provider_answer_cases:
  assumes "list_all valid_message (rq_messages rq)" "valid_system (rq_system rq)" "provider_answer rp nim up p rq n = answer"
  shows "(p \<in> {lit ''nvidia_nim'', lit ''open_router''} \<and>
      ((\<exists>events result. answer = ServedEvents events result \<and> readable_answer up (rq_model rq) n events result)
       \<or> (\<exists>e. answer = ServedBroken e \<and> \<not> list_all text_results (rq_messages rq))))
    \<or> (p \<notin> {lit ''nvidia_nim'', lit ''open_router''} \<and> native_answer up rq = answer)"
proof (cases "p \<in> {lit ''nvidia_nim'', lit ''open_router''}")
  case True
  then obtain kind body where answer: "answer = chat_answer up kind body (rq_model rq) n"
    and body: "body \<in> {nim_request_body rp rq nim, openrouter_request_body rp rq}"
    using assms(3) by (auto simp: provider_answer_def split: if_splits)
  show ?thesis
  proof (cases body)
    case (Inl e)
    have "\<not> list_all text_results (rq_messages rq)"
    proof
      assume "list_all text_results (rq_messages rq)"
      from bodies_built(1) [OF assms(1) this assms(2), of rp nim] bodies_built(2) [OF assms(1) this assms(2), of rp] body Inl
      show False by auto
    qed
    with answer Inl True show ?thesis by (auto simp: chat_answer_def)
  next
    case (Inr b)
    with answer chat_answer_readable [of up kind b "rq_model rq" n answer] True show ?thesis by auto
  qed
qed (use assms(3) in \<open>auto simp: provider_answer_def split: if_splits\<close>)

text \<open>What a local server is asked and what comes of it.\<close>

definition lines_of_attempt :: "upstream \<Rightarrow> exn + native_response \<Rightarrow> pystr list \<Rightarrow> bool" where
  "lines_of_attempt up attempt out \<longleftrightarrow>
     (\<exists>message. out = map frame_line (fst (attempt_result attempt))
        @ (if snd (attempt_result attempt) = None then [] else [native_error_frame message]))"

lemma native_answer_cases:
  assumes "native_answer up rq = answer"
  shows "(answer = NeverServed \<and> fst (snd (execute_with_retry 3 2 60 (\<lambda>k. attempt_of (up_clock up k) (up_native up (native_body (up_dump up rq)) k))
        ((up_limiter up)\<lparr>pl_free_slots := pl_free_slots (up_limiter up) - 1\<rparr>))) = StillWaiting)
     \<or> (\<exists>k out. answer = ServedLines out \<and> k \<le> 3 \<and> lines_of_attempt up (up_native up (native_body (up_dump up rq)) k) out)"
proof (cases "native_stream (se_now (up_env up)) (se_read_timeout (up_env up)) (se_request_id (up_env up)) (up_clock up)
             (up_native up (native_body (up_dump up rq))) (up_limiter up)")
  case None
  then show ?thesis using assms by (auto simp: native_answer_def native_stream_def Let_def split: prod.splits if_splits)
next
  case (Some got)
  obtain out l where got: "got = (out, l)" by fastforce
  from native_stream_parts [OF Some [unfolded got]] obtain k l1 where "k \<le> 3"
      "out = map frame_line (fst (attempt_result (up_native up (native_body (up_dump up rq)) k)))
        @ (case snd (attempt_result (up_native up (native_body (up_dump up rq)) k)) of None \<Rightarrow> []
           | Some e \<Rightarrow> [native_error_frame (native_error_message (fst (map_error (se_now (up_env up)) e l1))
               (se_read_timeout (up_env up)) (se_request_id (up_env up)))])"
    by blast
  then have "k \<le> 3" "lines_of_attempt up (up_native up (native_body (up_dump up rq)) k) out"
    by (auto simp: lines_of_attempt_def split: option.splits)
  with assms Some got show ?thesis by (auto simp: native_answer_def)
qed


text \<open>A service that answers nothing, behind settings with a key.\<close>

definition keyed_settings :: settings where
  "keyed_settings = sample_settings\<lparr>st_nim_key := lit ''k''\<rparr>"

definition silent_upstream :: upstream where
  "silent_upstream = \<lparr>up_env = small_env, up_message_id = lit ''m1'', up_limiter = idle_limiter, up_chat = (\<lambda>_. ([], None)),
     up_dump = (\<lambda>_. []), up_clock = (\<lambda>_. \<lparr>at_reactive = 0, at_slots = [0], at_outcome = Returned (), at_jitter = 0, at_blocked = 0\<rparr>),
     up_native = (\<lambda>_ _. Inl (silent_exn [] 0))\<rparr>"

lemma keyed_accepted: "accepted_settings keyed_settings"
  by (simp add: keyed_settings_def accepted_settings_def sample_settings_def validate_model_format_def parse_provider_type_def slash_def
      valid_providers_def validate_whisper_device_def check_nvidia_nim_api_key_def lit_def)

lemma hello_valid:
  "list_all valid_message (rq_messages (mr_request (hello model)))" "list_all text_results (rq_messages (mr_request (hello model)))"
  "valid_system (rq_system (mr_request (hello model)))"
  by (simp_all add: hello_def valid_message_def text_results_def valid_system_def lit_def)

lemma hello_sent:
  "messages_endpoint keyed_settings (\<lambda>s. Inr (length s)) (\<lambda>_. []) (hello ''claude-sonnet-4'') []
     = (Stream (lit ''nvidia_nim'') ((mr_request (hello ''claude-sonnet-4''))\<lparr>rq_model := lit ''meta/llama3''\<rparr>) 6, [lit ''nvidia_nim''])"
proof -
  have "resolve_model keyed_settings (lit ''claude-sonnet-4'') = lit ''nvidia_nim/meta/llama3''"
    by (simp add: keyed_settings_def resolve_model_def sample_settings_def lower_def lower_char_def lit_def contains_def Let_def)
  then have mapped: "map_model keyed_settings (hello ''claude-sonnet-4'')
      = Inr ((mr_request (hello ''claude-sonnet-4''))\<lparr>rq_model := lit ''meta/llama3''\<rparr>, lit ''nvidia_nim/meta/llama3'')"
    by (simp add: map_model_def hello_def parse_model_name_def parse_provider_type_def slash_def lit_def)
  have "get_token_count (\<lambda>s. Inr (length s)) (\<lambda>_. []) (rq_messages (mr_request (hello ''claude-sonnet-4'')))
      (rq_system (mr_request (hello ''claude-sonnet-4''))) (rq_tools (mr_request (hello ''claude-sonnet-4''))) = Inr 6"
    by (simp add: get_token_count_def hello_def system_tokens_def message_tokens_def lit_def)
  moreover have "strip (st_nim_key keyed_settings) \<noteq> []"
    by (simp add: keyed_settings_def strip_def lstrip_def rstrip_def lit_def)
  ultimately show ?thesis
    using hello_not_mocked [of _ "lit ''meta/llama3''" "''claude-sonnet-4''"]
    by (simp add: messages_endpoint_def mapped create_message_def get_provider_for_type_def create_provider_for_type_def
        parse_provider_type_def slash_def Let_def) (simp add: hello_def lit_def)
qed


section \<open>Limits of this\<close>

text \<open>A conversation that cannot be converted, with a number as the text of a tool result, is not refused: the answer has begun
  with its status when the conversion raises.\<close>

lemma unconverted_breaks_answer:
  "convert_messages rp False (rq_messages rq) = Inl e \<Longrightarrow> provider_answer rp nim up (lit ''nvidia_nim'') rq n = ServedBroken e"
  by (simp add: provider_answer_def chat_answer_def nim_request_body_def build_base_request_body_def)

text \<open>\<open>/stop\<close> reaches the sessions with a handler or without one, and is refused only without either.\<close>

lemma stop_cli_releases:
  assumes "stop_cli env h cli = (h', cli', reply)" "\<And>x. h = Some x \<Longrightarrow> repo_wf (hd_repo x) \<and> cli = Some (hd_cli x)"
  shows "(reply = NotInitialised \<longleftrightarrow> h = None \<and> cli = None)
    \<and> (\<forall>c s. cli = Some c \<longrightarrow> session_held c s \<longrightarrow> (\<exists>c'. cli' = Some c' \<and> \<not> session_held c' s \<and> s \<in> set (cm_stopped c')))"
proof (cases h)
  case (Some x)
  obtain x' n where x': "stop_all_tasks env x = (x', n)" by force
  have wf: "repo_wf (hd_repo x)" "cli = Some (hd_cli x)" using assms(2) [OF Some] by blast+
  from stop_all_stops [OF wf(1) x'] assms(1) Some x' wf(2) show ?thesis by (auto simp: stop_cli_def)
next
  case None
  have "released s (stop_all c)" if "session_held c s" for c s using that by (intro stop_all_releases) simp
  moreover have "\<not> session_held (stop_all c) s" for c s by (simp add: session_held_def stop_all_def)
  ultimately show ?thesis using assms(1) None by (auto simp: stop_cli_def released_def split: option.splits)
qed

end
