(* ===== verification/Spec2Isabelle.thy ===== *)
theory Spec2Isabelle
  imports HttpRateLimit MessagingLimiter OpenAICompat TranscriptView MessageConverter NodeTask HandlerCommands ChatMessages AutomationScheduler MessagesRoute MessageTypes PostgresStore OAuthState Webhooks SyncConflicts SyncMapping DiscordPlatform Esp32 Directory NativeProviders AppLifecycle Migrations Transcription Restart ServiceRoutes
begin

text \<open>
  The repository is a proxy between chat platforms, a command line coding tool and language model providers.
  A message from a chat becomes a node of a tree of messages; the nodes of a tree are processed one after the
  other by the command line tool, whose events become a transcript that is shown in the chat. The tool itself
  talks to the proxy's HTTP interface, which converts its requests for a provider and turns the provider's
  stream into an Anthropic event stream. The theories follow these parts; the sources are under \<open>src/\<close>.

  Foundations.
  \<^item> \<open>Prelude\<close>: strings as lists of characters, dictionaries as association lists in insertion order, exceptions
    as values (\<open>py_error\<close>, \<open>result\<close>), and what the components share of Python's string operations.
  \<^item> \<open>PyText\<close>: numerals and further string operations. \<open>Json\<close>, \<open>JsonCanonical\<close>: the dynamically typed values of JSON and
    \<open>json.dumps\<close>. \<open>Base64\<close>: bytes and their texts. \<open>PyDates\<close>: dates. \<open>Http\<close>: what middleware sees of a request.
  \<^item> \<open>Generator\<close>: Python generators with state, and when a generator keeps in step with an acceptor of its items.
  \<^item> \<open>RollingWindow\<close>: the locales \<open>rolling_window\<close> and \<open>rolling_window_wait\<close>, the contract of a strict
    rolling-window limiter, with the bound on the grants of any window proved once.

  Limits.
  \<^item> \<open>ProviderRateLimit\<close> (\<open>providers/rate_limit.py\<close>): reactive and proactive limit, concurrency slots, retries with
    backoff. \<open>HttpRateLimit\<close> (\<open>api/rate_limit.py\<close>): the middleware and its scopes. \<open>MessagingLimiter\<close>
    (\<open>messaging/limiter.py\<close>): the queue of messages with compaction by key, its worker, and retries. All three
    interpret the locale of the rolling window (\<open>provider\<close>, \<open>http\<close>, \<open>sliding\<close>).

  The HTTP side.
  \<^item> \<open>AppLifecycle\<close> (\<open>api/app.py\<close>, \<open>api/observability.py\<close>): the middlewares around the endpoints with their counters, the start
    and the end of the program. \<open>AccessControl\<close> (\<open>api/rbac.py\<close>): roles and workspaces.
  \<^item> \<open>CommandText\<close>, \<open>RequestOptimisation\<close> (\<open>api/command_utils.py\<close>, \<open>api/detection.py\<close>, \<open>api/optimization_handlers.py\<close>): the
    requests that are answered here, and the count of tokens. \<open>MessagesRoute\<close> (\<open>api/routes.py\<close>, \<open>api/dependencies.py\<close>,
    \<open>config/settings.py\<close>): the choice of model and provider. \<open>ServiceRoutes\<close> joins the endpoint, the converters and the streams of
    the providers: how every request is answered.
  \<^item> \<open>ErrorMapping\<close> (\<open>providers/exceptions.py\<close>, \<open>providers/common/error_mapping.py\<close>).
  \<^item> \<open>MessageConverter\<close> (\<open>providers/common/message_converter.py\<close>, the request builders of NIM and OpenRouter).
    \<open>MessageTypes\<close> (\<open>api/models/anthropic.py\<close>): which messages are accepted, and that the conversion is well typed.
  \<^item> \<open>ThinkParser\<close>, \<open>HeuristicParser\<close> (\<open>providers/common\<close>): streaming parsers for reasoning tags and for tool calls
    written as text. The think parser is proved equal to a parser of the whole text, whatever the chunks are.
  \<^item> \<open>SseBuilder\<close>, \<open>SseProtocol\<close> (\<open>providers/common/sse_builder.py\<close>): the event builder, the acceptor of the streams a
    client can read, and the text of an event on the wire. \<open>OpenAICompat\<close> (\<open>providers/openai_compat.py\<close>): the whole
    conversion of a provider's stream; every stream, with whatever errors, is accepted, and it is complete unless the token
    encoder refuses its text.
    \<open>NativeProviders\<close> (\<open>providers/lmstudio\<close>, \<open>providers/llamacpp\<close>): the providers whose lines are passed on.

  Messages and their trees.
  \<^item> \<open>SnapshotQueue\<close> (locale \<open>fifo_queue\<close>, interpreted as \<open>sq\<close>), \<open>MessageTree\<close>, \<open>MessageTreeFacts\<close>
    (\<open>messaging/trees/data.py\<close>, \<open>messaging/models.py\<close>): the tree with its queue, its invariant \<open>tree_wf\<close>, traversal,
    removal of branches, and the round trip through dictionaries.
  \<^item> \<open>TreeRepository\<close> (\<open>messaging/trees/repository.py\<close>), \<open>TreeQueue\<close> (\<open>messaging/trees/processor.py\<close>) and \<open>TreeManager\<close>
    (\<open>messaging/trees/queue_manager.py\<close>): the index of the trees; the steps of the tasks of one tree and the runs made
    of them, with exclusion, order and liveness; the facade that joins both.
  \<^item> \<open>SessionStore\<close> (\<open>messaging/session.py\<close>): the file of trees, mappings and logged messages, with debounced saves and
    failing writes as steps of their own. \<open>PostgresStore\<close> (\<open>messaging/postgres_session.py\<close>): the same on a database, every operation
    the list of its committed statements. \<open>Restart\<close> (\<open>api/app.py\<close>) joins store, repository and manager: what the start of the
    program makes of the file.

  The command line tool and the handler.
  \<^item> \<open>CliSession\<close> (\<open>cli/session.py\<close>, \<open>cli/process_registry.py\<close>): one run of the tool. \<open>CliManager\<close> (\<open>cli/manager.py\<close>): the
    pool of sessions.
  \<^item> \<open>EventParser\<close> (\<open>messaging/event_parser.py\<close>), \<open>Transcript\<close>, \<open>TranscriptFacts\<close>, \<open>TranscriptView\<close>
    (\<open>messaging/transcript.py\<close>): from the events of the tool to what the user reads. The transcript refines the view a
    client has of the same stream.
  \<^item> \<open>NodeTask\<close>, \<open>MessageHandler\<close>, \<open>HandlerCommands\<close> (\<open>messaging/handler.py\<close>, \<open>messaging/commands.py\<close>): the processing
    of a node over the stream of the tool, the handling of a message, and the commands. The locales
    \<open>event_invariant\<close> and \<open>task_invariant\<close> state when a property of a task is kept by all its events; they are
    interpreted for the session, the node, the captured identifier and the edits.

  Rendering and chat platforms.
  \<^item> \<open>MarkdownText\<close>, \<open>TelegramMarkdown\<close>, \<open>DiscordMarkdown\<close>, \<open>ChatMessages\<close> (\<open>messaging/rendering\<close>): the walk over the tokens of
    a parsed text with the styles of both formats, a check of the escaping that Telegram requires, and the messages of a transcript.
  \<^item> \<open>ChatPlatforms\<close>, \<open>TelegramPlatform\<close>, \<open>DiscordPlatform\<close>, \<open>Esp32\<close> (\<open>messaging/platforms\<close>): requests with their repetitions,
    incoming messages, voice notes, and the choice of adapters. \<open>Realtime\<close> (\<open>api/v1/realtime.py\<close>, \<open>messaging/platforms/web.py\<close>):
    channels, subscribers and their queues. \<open>Transcription\<close> (\<open>messaging/transcription.py\<close>): the voice notes.

  Workspaces, automations and integrations.
  \<^item> \<open>WorkspaceApi\<close>, \<open>Directory\<close> (\<open>api/v1/routers\<close>): tasks, automations, users and workspaces on tables with their keys.
    \<open>AutomationSchedule\<close>, \<open>AutomationRuns\<close>, \<open>AutomationScheduler\<close> (\<open>api/automation/scheduler.py\<close>): when a rule is due, the
    transaction of a run, and the queue with its workers. \<open>Migrations\<close> (\<open>storage\<close>): migrations and the names of locks.
  \<^item> \<open>IntegrationServices\<close>, \<open>OAuthState\<close>, \<open>Webhooks\<close> (\<open>integrations\<close>, \<open>api/v1/routers/integrations.py\<close>, \<open>webhooks.py\<close>): the clients of
    Jira and Google Calendar, the signed states of the OAuth flow, and the deliveries that are served once. \<open>SyncConflicts\<close>,
    \<open>SyncMapping\<close> (\<open>integrations/sync_conflicts.py\<close>, \<open>sync_mapping.py\<close>): conflicts of fields and the mapping of issues to events.

  Conventions. A method of a class is a function of the record of its state. Time is a rational number where it is
  compared and an integer or a string where it is only stored; clocks, random identifiers, the outcomes of calls to
  services and the points where tasks are cancelled are arguments. \<open>json.loads\<close>, the token encoder, the \<open>repr\<close> of
  containers, and the decoding of bytes are parameters, which the witnesses instantiate. A loop whose end depends on
  the data being consistent (\<open>get_descendants\<close>, \<open>get_pending_children\<close>) is a partial function, and its end is proved
  under the invariant; all other loops end by a measure. There is no fuel. A section of code that holds a lock and
  awaits nothing that suspends is one step.

  Not modelled. The abstract class of the adapters, the endpoints that give constant answers and the lists of routers, the entry
  points, and the configuration of the log have no behaviour of their own. Of the settings only the validators and the fields
  that are read by modelled code appear. The client libraries of the chat platforms, the web framework, the driver of the
  database, the pipelines of transcription and all remote services are inputs; what SQL statements do is written out as
  functions on tables where the program relies on it. The rounding of floating-point subtraction, recursion limits and memory
  are left out. Handlers of a chat platform may run interleaved; \<open>MessageHandler\<close> handles a message as a whole, while \<open>TreeQueue\<close>
  and \<open>SessionStore\<close> interleave their steps. Lists of children are shared between restored managers; \<open>Restart\<close> leaves what
  one platform does to them to an input.
\<close>

end
